(* ===== verification/Prelude.thy ===== *)
theory Prelude
  imports Complex_Main "HOL-Library.Word"
begin

text \<open>
  Vocabulary shared by every component: failures as values of a sum type, the
  sequencing of fallible steps, loops with an index, first-match lookup and
  update on vectors, and the two machine-integer ranges the sources use.
\<close>

section \<open>Collections of rules\<close>

named_theorems inrD \<open>what a successful run of a fallible step says about its parts\<close>
named_theorems frame_intro \<open>introduction rules for the track frame relation\<close>

section \<open>Fallible steps\<close>

text \<open>
  A step that may fail returns \<open>Inl\<close> with the failure or \<open>Inr\<close> with its
  result.  \<open>bindR\<close> is sequential composition: the first failure is the result.
\<close>

definition bindR :: "'e + 'a \<Rightarrow> ('a \<Rightarrow> 'e + 'b) \<Rightarrow> 'e + 'b" where
  "bindR r k = (case r of Inl e \<Rightarrow> Inl e | Inr x \<Rightarrow> k x)"

lemma bindR_simps [simp]:
  "bindR (Inl e) k = Inl e"
  "bindR (Inr x) k = k x"
  by (simp_all add: bindR_def)

lemma bindR_Inr_iff: "bindR r k = Inr y \<longleftrightarrow> (\<exists>x. r = Inr x \<and> k x = Inr y)"
  by (cases r) auto

lemma bindR_Inl_iff: "bindR r k = Inl e \<longleftrightarrow> r = Inl e \<or> (\<exists>x. r = Inr x \<and> k x = Inl e)"
  by (cases r) auto

lemma bindR_InrE [elim!]:
  assumes "bindR r k = Inr y"
  obtains x where "r = Inr x" and "k x = Inr y"
  using assms by (cases r) auto

lemma if_Inl_Inr_iff [simp]:
  "((if c then Inl e else r) = Inr y) \<longleftrightarrow> \<not> c \<and> r = Inr y"
  by auto

lemma bindR_assoc: "bindR (bindR r f) g = bindR r (\<lambda>x. bindR (f x) g)"
  by (cases r) auto

lemma bindR_cong [fundef_cong]:
  "r = r' \<Longrightarrow> (\<And>x. r' = Inr x \<Longrightarrow> k x = k' x) \<Longrightarrow> bindR r k = bindR r' k'"
  by (cases r') auto

text \<open>\<open>iterR f i xs s\<close> runs the loop body \<open>f\<close> over a vector with its index and a state.\<close>

fun iterR :: "(nat \<Rightarrow> 'a \<Rightarrow> 's \<Rightarrow> 'e + 's) \<Rightarrow> nat \<Rightarrow> 'a list \<Rightarrow> 's \<Rightarrow> 'e + 's" where
  "iterR f i [] s = Inr s"
| "iterR f i (x # xs) s = bindR (f i x s) (\<lambda>s'. iterR f (Suc i) xs s')"

text \<open>\<open>loopR f xs s\<close> is the range-based loop, without the index.\<close>

fun loopR :: "('a \<Rightarrow> 's \<Rightarrow> 'e + 's) \<Rightarrow> 'a list \<Rightarrow> 's \<Rightarrow> 'e + 's" where
  "loopR f [] s = Inr s"
| "loopR f (x # xs) s = bindR (f x s) (\<lambda>s'. loopR f xs s')"

lemma iterR_append: "iterR f i (xs @ ys) s = bindR (iterR f i xs s) (iterR f (i + length xs) ys)"
  by (induction xs arbitrary: i s) (auto simp: bindR_def split: sum.splits)

lemma loopR_append: "loopR f (xs @ ys) s = bindR (loopR f xs s) (loopR f ys)"
  by (induction xs arbitrary: s) (auto simp: bindR_def split: sum.splits)

text \<open>The loop invariant rules: what every body run preserves, the whole loop preserves.\<close>

lemma iterR_invariant:
  assumes "iterR f i xs s = Inr s'" and "P s"
    and "\<And>j x a b. x \<in> set xs \<Longrightarrow> f j x a = Inr b \<Longrightarrow> P a \<Longrightarrow> P b"
  shows "P s'"
  using assms
proof (induction xs arbitrary: i s)
  case Nil
  then show ?case by simp
next
  case (Cons x xs)
  from Cons.prems(1) obtain b where b: "f i x s = Inr b" and r: "iterR f (Suc i) xs b = Inr s'"
    by auto
  have "P b" using Cons.prems(3) [of x i s b] b Cons.prems(2) by simp
  with r show ?case using Cons.IH Cons.prems(3) by (metis list.set_intros(2))
qed

lemma loopR_invariant:
  assumes "loopR f xs s = Inr s'" and "P s"
    and "\<And>x a b. x \<in> set xs \<Longrightarrow> f x a = Inr b \<Longrightarrow> P a \<Longrightarrow> P b"
  shows "P s'"
  using assms
proof (induction xs arbitrary: s)
  case Nil
  then show ?case by simp
next
  case (Cons x xs)
  from Cons.prems(1) obtain b where b: "f x s = Inr b" and r: "loopR f xs b = Inr s'"
    by auto
  have "P b" using Cons.prems(3) [of x s b] b Cons.prems(2) by simp
  with r show ?case using Cons.IH Cons.prems(3) by (metis list.set_intros(2))
qed

text \<open>
  \<open>mapR\<close> is a loop that rewrites every element, \<open>anyR\<close> and \<open>findR\<close> stop at the first
  element whose test succeeds, as \<open>||\<close> and \<open>break\<close> do.
\<close>

fun mapR :: "('a \<Rightarrow> 'e + 'b) \<Rightarrow> 'a list \<Rightarrow> 'e + 'b list" where
  "mapR f [] = Inr []"
| "mapR f (x # xs) = bindR (f x) (\<lambda>y. bindR (mapR f xs) (\<lambda>ys. Inr (y # ys)))"

fun findR :: "('a \<Rightarrow> 'e + bool) \<Rightarrow> 'a list \<Rightarrow> 'e + 'a option" where
  "findR p [] = Inr None"
| "findR p (x # xs) = bindR (p x) (\<lambda>b. if b then Inr (Some x) else findR p xs)"

definition anyR :: "('a \<Rightarrow> 'e + bool) \<Rightarrow> 'a list \<Rightarrow> 'e + bool" where
  "anyR p xs = bindR (findR p xs) (\<lambda>r. Inr (r \<noteq> None))"

definition andR :: "'e + bool \<Rightarrow> 'e + bool \<Rightarrow> 'e + bool" where
  "andR a b = bindR a (\<lambda>x. if x then b else Inr False)"

definition orR :: "'e + bool \<Rightarrow> 'e + bool \<Rightarrow> 'e + bool" where
  "orR a b = bindR a (\<lambda>x. if x then Inr True else b)"

lemma findR_Some: "findR p xs = Inr (Some x) \<Longrightarrow> x \<in> set xs \<and> p x = Inr True"
  by (induction xs) (auto split: if_splits)

lemma findR_None: "findR p xs = Inr None \<Longrightarrow> x \<in> set xs \<Longrightarrow> p x = Inr False"
  by (induction xs) (auto split: if_splits)

lemma mapR_length: "mapR f xs = Inr ys \<Longrightarrow> length ys = length xs"
  by (induction xs arbitrary: ys) auto

lemma mapR_list_all2: "mapR f xs = Inr ys \<longleftrightarrow> list_all2 (\<lambda>x y. f x = Inr y) xs ys"
  by (induction xs arbitrary: ys) (auto simp: bindR_Inr_iff list_all2_Cons1)

text \<open>
  \<open>partition_search p xs first n\<close> is the halving loop of \<open>std::lower_bound\<close> and
  \<open>std::upper_bound\<close>: \<open>p\<close> says that the element lies before the bound.
\<close>

function partition_search :: "('a \<Rightarrow> 'e + bool) \<Rightarrow> 'a list \<Rightarrow> nat \<Rightarrow> nat \<Rightarrow> 'e + nat" where
  "partition_search p xs first n =
     (if n = 0 then Inr first
      else let half = n div 2; middle = first + half in
        bindR (p (xs ! middle)) (\<lambda>b.
          if b then partition_search p xs (middle + 1) (n - half - 1)
          else partition_search p xs first half))"
  by pat_completeness auto
termination by (relation "measure (\<lambda>(p, xs, first, n). n)") auto

declare partition_search.simps [simp del]

lemma partition_search_bounds:
  "partition_search p xs first n = Inr k \<Longrightarrow> first \<le> k \<and> k \<le> first + n"
proof (induction p xs first n rule: partition_search.induct)
  case (1 p xs first n)
  show ?case
  proof (cases "n = 0")
    case True
    with 1 show ?thesis by (simp add: partition_search.simps [of p xs first 0])
  next
    case False
    from 1(3) False obtain b where b: "p (xs ! (first + n div 2)) = Inr b"
      and r: "(if b then partition_search p xs (first + n div 2 + 1) (n - n div 2 - 1)
               else partition_search p xs first (n div 2)) = Inr k"
      by (auto simp: partition_search.simps [of p xs first n] Let_def)
    show ?thesis
      using 1(1,2) [OF False refl refl b] r False by (cases b) auto
  qed
qed

text \<open>On a partitioned vector the search returns the partition point.\<close>

lemma partition_search_point:
  "(\<And>j. first \<le> j \<Longrightarrow> j < first + n \<Longrightarrow> p (xs ! j) = Inr (j < k)) \<Longrightarrow> first \<le> k \<Longrightarrow>
   k \<le> first + n \<Longrightarrow> partition_search p xs first n = Inr k"
proof (induction p xs first n rule: partition_search.induct)
  case (1 p xs first n)
  show ?case
  proof (cases "n = 0")
    case True
    with 1 show ?thesis by (simp add: partition_search.simps [of p xs first 0])
  next
    case False
    let ?m = "first + n div 2"
    have m: "p (xs ! ?m) = Inr (?m < k)" using 1(3) [of ?m] False by simp
    show ?thesis
    proof (cases "?m < k")
      case True
      have "partition_search p xs (?m + 1) (n - n div 2 - 1) = Inr k"
        using True by (intro 1(1) [OF False refl refl m]) (use 1(3-5) True False in auto)
      with m True False show ?thesis
        by (simp add: partition_search.simps [of p xs first n] Let_def)
    next
      case F: False
      have "partition_search p xs first (n div 2) = Inr k"
        using F by (intro 1(2) [OF False refl refl m]) (use 1(3-5) F False in auto)
      with m F False show ?thesis
        by (simp add: partition_search.simps [of p xs first n] Let_def)
    qed
  qed
qed

section \<open>Vectors\<close>

text \<open>
  Lookups in the sources return a pointer to the first match; writing through the
  pointer changes that element only.
\<close>

fun update_first :: "('a \<Rightarrow> bool) \<Rightarrow> ('a \<Rightarrow> 'a) \<Rightarrow> 'a list \<Rightarrow> 'a list" where
  "update_first P f [] = []"
| "update_first P f (x # xs) = (if P x then f x # xs else x # update_first P f xs)"

fun remove_first :: "('a \<Rightarrow> bool) \<Rightarrow> 'a list \<Rightarrow> 'a list" where
  "remove_first P [] = []"
| "remove_first P (x # xs) = (if P x then xs else x # remove_first P xs)"

fun index_of :: "('a \<Rightarrow> bool) \<Rightarrow> 'a list \<Rightarrow> nat" where
  "index_of P [] = 0"
| "index_of P (x # xs) = (if P x then 0 else Suc (index_of P xs))"

definition insert_at :: "nat \<Rightarrow> 'a \<Rightarrow> 'a list \<Rightarrow> 'a list" where
  "insert_at i x xs = take i xs @ x # drop i xs"

text \<open>\<open>push_unique\<close> is the guarded \<open>push_back\<close>: append unless already present.\<close>

definition push_unique :: "'a \<Rightarrow> 'a list \<Rightarrow> 'a list" where
  "push_unique x xs = (if x \<in> set xs then xs else xs @ [x])"

lemma set_push_unique [simp]: "set (push_unique x xs) = insert x (set xs)"
  by (auto simp: push_unique_def)

lemma distinct_push_unique [simp]: "distinct (push_unique x xs) = distinct xs"
  by (auto simp: push_unique_def)

lemma length_update_first [simp]: "length (update_first P f xs) = length xs"
  by (induction xs) auto

lemma update_first_no_match: "\<forall>x\<in>set xs. \<not> P x \<Longrightarrow> update_first P f xs = xs"
  by (induction xs) auto

lemma map_update_first: "(\<And>x. P x \<Longrightarrow> g (f x) = g x) \<Longrightarrow> map g (update_first P f xs) = map g xs"
  by (induction xs) auto

lemma find_update_first:
  "(\<And>x. P x \<Longrightarrow> P (f x)) \<Longrightarrow> List.find P (update_first P f xs) = map_option f (List.find P xs)"
  by (induction xs) auto

lemma update_first_update_first:
  "(\<And>x. P x \<Longrightarrow> P (f x)) \<Longrightarrow>
   update_first P h (update_first P f xs) = update_first P (\<lambda>x. h (f x)) xs"
  by (induction xs) auto

lemma update_first_id: "(\<And>x. List.find P xs = Some x \<Longrightarrow> f x = x) \<Longrightarrow> update_first P f xs = xs"
  by (induction xs) auto

lemma update_first_cong:
  "(\<And>x. List.find P xs = Some x \<Longrightarrow> f x = h x) \<Longrightarrow> update_first P f xs = update_first P h xs"
  by (induction xs) auto

lemma set_update_first:
  "x \<in> set (update_first P f xs) \<Longrightarrow> x \<in> set xs \<or> (\<exists>y\<in>set xs. P y \<and> x = f y)"
  by (induction xs) (auto split: if_splits)

lemma find_Some_D: "List.find P xs = Some x \<Longrightarrow> P x \<and> x \<in> set xs"
  by (induction xs) (auto split: if_splits)

lemma find_None_iff_all: "List.find P xs = None \<longleftrightarrow> (\<forall>x\<in>set xs. \<not> P x)"
  by (induction xs) auto

lemma find_unique:
  "distinct (map g xs) \<Longrightarrow> x \<in> set xs \<Longrightarrow> List.find (\<lambda>y. g y = g x) xs = Some x"
  by (induction xs) (auto simp: image_iff)

lemma length_insert_at [simp]: "length (insert_at i x xs) = Suc (length xs)"
  by (simp add: insert_at_def)

lemma set_insert_at [simp]: "set (insert_at i x xs) = insert x (set xs)"
  by (simp add: insert_at_def) (metis append_take_drop_id set_append)

lemma index_of_le [simp]: "index_of P xs \<le> length xs"
  by (induction xs) auto

lemma index_of_less: "List.find P xs = Some x \<Longrightarrow> index_of P xs < length xs \<and> xs ! index_of P xs = x"
  by (induction xs) (auto split: if_splits)

lemma remove_first_split:
  "remove_first P xs = take (index_of P xs) xs @ drop (Suc (index_of P xs)) xs"
  by (induction xs) auto

lemma remove_first_insert_at:
  assumes "\<forall>y\<in>set xs. \<not> P y" and "P x"
  shows "remove_first P (insert_at i x xs) = xs"
proof -
  have "remove_first P (take i xs @ x # drop i xs) = take i xs @ drop i xs"
    using assms(1) by (induction xs arbitrary: i) (auto simp: assms(2) take_Cons' drop_Cons')
  then show ?thesis by (simp add: insert_at_def)
qed

lemma insert_at_remove_first:
  "List.find P xs = Some x \<Longrightarrow> insert_at (index_of P xs) x (remove_first P xs) = xs"
  by (induction xs) (auto simp: insert_at_def split: if_splits)

section \<open>Machine integers\<close>

text \<open>
  Signed integers are mathematical integers together with the range checks the
  sources make.  The \<open>__int128\<close> intermediates of the sources never leave their
  range for 64-bit operands, so they are plain integers.
\<close>

definition int64_min :: int where "int64_min = - (2 ^ 63)"
definition int64_max :: int where "int64_max = 2 ^ 63 - 1"
definition int32_max :: int where "int32_max = 2 ^ 31 - 1"
definition int32_min :: int where "int32_min = - (2 ^ 31)"

definition in_int64 :: "int \<Rightarrow> bool" where
  "in_int64 x \<longleftrightarrow> int64_min \<le> x \<and> x \<le> int64_max"

definition in_int32 :: "int \<Rightarrow> bool" where
  "in_int32 x \<longleftrightarrow> int32_min \<le> x \<and> x \<le> int32_max"

text \<open>Unchecked 64-bit multiplication, reduced to two's complement.\<close>

definition wrap64 :: "int \<Rightarrow> int" where
  "wrap64 x = (x + 2 ^ 63) mod 2 ^ 64 - 2 ^ 63"

lemma wrap64_in_range: "in_int64 (wrap64 x)"
proof -
  have "0 \<le> (x + 2 ^ 63) mod 2 ^ 64" and "(x + 2 ^ 63) mod 2 ^ 64 < (2 ^ 64 :: int)"
    by simp_all
  then show ?thesis by (simp add: in_int64_def int64_min_def int64_max_def wrap64_def)
qed

lemma wrap64_id: "in_int64 x \<Longrightarrow> wrap64 x = x"
  by (simp add: in_int64_def int64_min_def int64_max_def wrap64_def)

text \<open>C++ integer division truncates towards zero.\<close>

definition trunc_div :: "int \<Rightarrow> int \<Rightarrow> int" where
  "trunc_div a b = sgn a * sgn b * (\<bar>a\<bar> div \<bar>b\<bar>)"

definition trunc_mod :: "int \<Rightarrow> int \<Rightarrow> int" where
  "trunc_mod a b = a - b * trunc_div a b"

section \<open>Text\<close>

text \<open>\<open>std::to_string\<close> on integers, and an identifier between single quotes.\<close>

definition digit_char :: "nat \<Rightarrow> char" where
  "digit_char d = char_of (48 + d)"

function nat_to_string :: "nat \<Rightarrow> string" where
  "nat_to_string n =
     (if n < 10 then [digit_char n] else nat_to_string (n div 10) @ [digit_char (n mod 10)])"
  by pat_completeness auto
termination by (relation "measure id") auto

declare nat_to_string.simps [simp del]

definition to_string :: "int \<Rightarrow> string" where
  "to_string x = (if x < 0 then CHR ''-'' # nat_to_string (nat (- x)) else nat_to_string (nat x))"

definition quoted :: "string \<Rightarrow> string" where
  "quoted s = CHR 0x27 # s @ [CHR 0x27]"

text \<open>\<open>std::string::find\<close> for a fixed needle.\<close>

fun contains_text :: "string \<Rightarrow> string \<Rightarrow> bool" where
  "contains_text p [] = (p = [])"
| "contains_text p (c # cs) = (take (length p) (c # cs) = p \<or> contains_text p cs)"

end
