(* ===== verification/Rational_Time.thy ===== *)
theory Rational_Time
  imports Prelude
begin

text \<open>
  Exact time values, \<open>src/RationalTime.h\<close>: a 64-bit tick count over a 32-bit
  timebase.  Every method that throws returns \<open>Inl\<close> with the exception's text.
  The abstraction \<open>rt_q\<close> is the rational number a time stands for; the lemmas
  show that the arithmetic is exact on it and that the only failures are
  non-positive rates and results that leave the integer ranges.
\<close>

section \<open>The class\<close>

record RationalTime =
  rt_value :: int
  rt_rate :: int

abbreviation RT :: "int \<Rightarrow> int \<Rightarrow> RationalTime" where
  "RT v r \<equiv> \<lparr>rt_value = v, rt_rate = r\<rparr>"

definition rate_message :: string where
  "rate_message = ''RationalTime rate must be positive''"

definition CheckRate :: "int \<Rightarrow> string + unit" where
  "CheckRate candidate = (if candidate \<le> 0 then Inl rate_message else Inr ())"

definition CheckedInt64 :: "int \<Rightarrow> string + int" where
  "CheckedInt64 v =
     (if v < int64_min \<or> v > int64_max then Inl ''RationalTime value overflows int64_t'' else Inr v)"

lemma trunc_mod_abs_less: "b \<noteq> 0 \<Longrightarrow> \<bar>trunc_mod a b\<bar> < \<bar>b\<bar>"
proof -
  assume b: "b \<noteq> 0"
  have "trunc_mod a b = sgn a * (\<bar>a\<bar> mod \<bar>b\<bar>)"
  proof -
    have "b * (sgn a * sgn b * (\<bar>a\<bar> div \<bar>b\<bar>)) = sgn a * (\<bar>b\<bar> * (\<bar>a\<bar> div \<bar>b\<bar>))"
      by (simp add: abs_sgn [of b] ac_simps)
    moreover have "sgn a * (\<bar>a\<bar> mod \<bar>b\<bar>) = sgn a * \<bar>a\<bar> - sgn a * (\<bar>b\<bar> * (\<bar>a\<bar> div \<bar>b\<bar>))"
      by (simp add: minus_mult_div_eq_mod [symmetric] right_diff_distrib)
    moreover have "sgn a * \<bar>a\<bar> = a"
      by (simp add: sgn_mult_abs)
    ultimately show ?thesis
      by (simp add: trunc_mod_def trunc_div_def)
  qed
  moreover have "\<bar>sgn a * (\<bar>a\<bar> mod \<bar>b\<bar>)\<bar> \<le> \<bar>a\<bar> mod \<bar>b\<bar>"
    using b by (cases "a = 0") (simp_all add: abs_mult abs_sgn_eq)
  ultimately show ?thesis
    using b by (smt (verit) pos_mod_bound)
qed

lemma trunc_div_nonneg: "0 \<le> a \<Longrightarrow> 0 \<le> b \<Longrightarrow> trunc_div a b = a div b"
  by (cases "a = 0 \<or> b = 0") (auto simp: trunc_div_def)

lemma trunc_mod_nonneg: "0 \<le> a \<Longrightarrow> 0 \<le> b \<Longrightarrow> trunc_mod a b = a mod b"
  by (simp add: trunc_mod_def trunc_div_nonneg minus_mult_div_eq_mod)

function rt_Gcd :: "int \<Rightarrow> int \<Rightarrow> int" where
  "rt_Gcd a b = (if b = 0 then a else rt_Gcd b (trunc_mod a b))"
  by pat_completeness auto
termination
  by (relation "measure (\<lambda>(a, b). nat \<bar>b\<bar>)") (auto simp: trunc_mod_abs_less)

declare rt_Gcd.simps [simp del]

definition rt_Lcm :: "int \<Rightarrow> int \<Rightarrow> int" where
  "rt_Lcm a b = trunc_div a (rt_Gcd a b) * b"

definition common_rate_message :: string where
  "common_rate_message = ''RationalTime common rate overflows int32_t''"

definition rt_add :: "RationalTime \<Rightarrow> RationalTime \<Rightarrow> string + RationalTime" where
  "rt_add a b =
     bindR (CheckRate (rt_rate a)) (\<lambda>_.
     bindR (CheckRate (rt_rate b)) (\<lambda>_.
       let commonRate = rt_Lcm (rt_rate a) (rt_rate b) in
       if commonRate > int32_max then Inl common_rate_message
       else bindR (CheckedInt64 (rt_value a * trunc_div commonRate (rt_rate a) +
                                 rt_value b * trunc_div commonRate (rt_rate b)))
              (\<lambda>v. Inr (RT v commonRate))))"

definition rt_sub :: "RationalTime \<Rightarrow> RationalTime \<Rightarrow> string + RationalTime" where
  "rt_sub a b =
     bindR (CheckRate (rt_rate a)) (\<lambda>_.
     bindR (CheckRate (rt_rate b)) (\<lambda>_.
       let commonRate = rt_Lcm (rt_rate a) (rt_rate b) in
       if commonRate > int32_max then Inl common_rate_message
       else bindR (CheckedInt64 (rt_value a * trunc_div commonRate (rt_rate a) -
                                 rt_value b * trunc_div commonRate (rt_rate b)))
              (\<lambda>v. Inr (RT v commonRate))))"

definition rt_compare :: "RationalTime \<Rightarrow> RationalTime \<Rightarrow> string + int" where
  "rt_compare a b =
     (if rt_rate a \<le> 0 \<or> rt_rate b \<le> 0 then Inl rate_message
      else let left = rt_value a * rt_rate b; right = rt_value b * rt_rate a in
        Inr (if left < right then - 1 else if left > right then 1 else 0))"

definition rt_rescale :: "RationalTime \<Rightarrow> int \<Rightarrow> string + RationalTime" where
  "rt_rescale a newRate =
     bindR (CheckRate (rt_rate a)) (\<lambda>_.
     bindR (CheckRate newRate) (\<lambda>_.
       let numerator = rt_value a * newRate in
       if trunc_mod numerator (rt_rate a) \<noteq> 0
       then Inl ''RationalTime cannot be rescaled exactly''
       else bindR (CheckedInt64 (trunc_div numerator (rt_rate a))) (\<lambda>v. Inr (RT v newRate))))"

definition rt_to_frames :: "RationalTime \<Rightarrow> int \<Rightarrow> int \<Rightarrow> string + int" where
  "rt_to_frames a num den =
     bindR (CheckRate (rt_rate a)) (\<lambda>_.
     bindR (CheckRate num) (\<lambda>_.
     bindR (CheckRate den) (\<lambda>_.
       let numerator = rt_value a * num; denominator = rt_rate a * den;
           quotient = trunc_div numerator denominator in
       CheckedInt64 (if numerator < 0 \<and> trunc_mod numerator denominator \<noteq> 0
                     then quotient - 1 else quotient))))"

text \<open>The one-argument overload, and the comparison operators, which go through \<open>compare\<close>.\<close>

definition rt_to_frames_whole :: "RationalTime \<Rightarrow> int \<Rightarrow> string + int" where
  "rt_to_frames_whole a framesPerSecond = rt_to_frames a framesPerSecond 1"

definition rt_eq :: "RationalTime \<Rightarrow> RationalTime \<Rightarrow> string + bool" where
  "rt_eq a b = bindR (rt_compare a b) (\<lambda>c. Inr (c = 0))"
definition rt_ne :: "RationalTime \<Rightarrow> RationalTime \<Rightarrow> string + bool" where
  "rt_ne a b = bindR (rt_eq a b) (\<lambda>e. Inr (\<not> e))"
definition rt_lt :: "RationalTime \<Rightarrow> RationalTime \<Rightarrow> string + bool" where
  "rt_lt a b = bindR (rt_compare a b) (\<lambda>c. Inr (c < 0))"
definition rt_le :: "RationalTime \<Rightarrow> RationalTime \<Rightarrow> string + bool" where
  "rt_le a b = bindR (rt_compare a b) (\<lambda>c. Inr (c \<le> 0))"
definition rt_gt :: "RationalTime \<Rightarrow> RationalTime \<Rightarrow> string + bool" where
  "rt_gt a b = bindR (rt_compare a b) (\<lambda>c. Inr (c > 0))"
definition rt_ge :: "RationalTime \<Rightarrow> RationalTime \<Rightarrow> string + bool" where
  "rt_ge a b = bindR (rt_compare a b) (\<lambda>c. Inr (c \<ge> 0))"

section \<open>Euclid's loop computes the greatest common divisor\<close>

lemma rt_Gcd_eq: "0 \<le> a \<Longrightarrow> 0 \<le> b \<Longrightarrow> rt_Gcd a b = gcd a b"
proof (induction a b rule: rt_Gcd.induct)
  case (1 a b)
  show ?case
  proof (cases "b = 0")
    case True
    with 1 show ?thesis by (simp add: rt_Gcd.simps [of a 0])
  next
    case False
    with 1 have "rt_Gcd b (a mod b) = gcd b (a mod b)"
      by (simp add: trunc_mod_nonneg)
    with False 1 show ?thesis
      by (simp add: rt_Gcd.simps [of a b] trunc_mod_nonneg gcd_red_int [of a b, symmetric])
  qed
qed

lemma rt_Lcm_eq: "0 < a \<Longrightarrow> 0 < b \<Longrightarrow> rt_Lcm a b = lcm a b"
  by (simp add: rt_Lcm_def rt_Gcd_eq trunc_div_nonneg lcm_gcd dvd_div_mult
      pos_imp_zdiv_nonneg_iff)

lemma rt_Lcm_props:
  assumes "0 < a" "0 < b"
  shows "0 < rt_Lcm a b" and "a dvd rt_Lcm a b" and "b dvd rt_Lcm a b"
  using assms by (simp_all add: rt_Lcm_eq lcm_pos_int)

lemma trunc_div_Lcm:
  assumes "0 < a" "0 < b"
  shows "trunc_div (rt_Lcm a b) a * a = rt_Lcm a b"
    and "trunc_div (rt_Lcm a b) b * b = rt_Lcm a b"
  using assms rt_Lcm_props [OF assms] by (simp_all add: trunc_div_nonneg)


section \<open>What a time stands for\<close>

definition rt_q :: "RationalTime \<Rightarrow> rat" where
  "rt_q a = of_int (rt_value a) / of_int (rt_rate a)"

text \<open>The class's type invariant: field ranges, and a rate the methods accept.\<close>

definition rt_wf :: "RationalTime \<Rightarrow> bool" where
  "rt_wf a \<longleftrightarrow> in_int64 (rt_value a) \<and> 0 < rt_rate a \<and> rt_rate a \<le> int32_max"

lemma CheckRate_Inr [simp]: "CheckRate r = Inr u \<longleftrightarrow> 0 < r"
  by (auto simp: CheckRate_def)

lemma CheckedInt64_Inr [simp]: "CheckedInt64 v = Inr w \<longleftrightarrow> w = v \<and> in_int64 v"
  by (auto simp: CheckedInt64_def in_int64_def)

lemma scaled_q:
  assumes "0 < r" "r dvd L" "0 < L"
  shows "(of_int (v * trunc_div L r) :: rat) / of_int L = of_int v / of_int r"
proof -
  from assms obtain k where k: "L = r * k" by blast
  with assms have "0 < k" by (simp add: zero_less_mult_iff)
  with k assms have "trunc_div L r = k" by (simp add: trunc_div_nonneg)
  with k \<open>0 < k\<close> assms(1) show ?thesis by simp
qed

lemma rt_add_Inr_iff:
  "rt_add a b = Inr c \<longleftrightarrow>
     0 < rt_rate a \<and> 0 < rt_rate b \<and> rt_Lcm (rt_rate a) (rt_rate b) \<le> int32_max \<and>
     c = RT (rt_value a * trunc_div (rt_Lcm (rt_rate a) (rt_rate b)) (rt_rate a) +
             rt_value b * trunc_div (rt_Lcm (rt_rate a) (rt_rate b)) (rt_rate b))
            (rt_Lcm (rt_rate a) (rt_rate b)) \<and>
     in_int64 (rt_value c)"
  by (auto simp: rt_add_def Let_def bindR_Inr_iff)

lemma rt_sub_Inr_iff:
  "rt_sub a b = Inr c \<longleftrightarrow>
     0 < rt_rate a \<and> 0 < rt_rate b \<and> rt_Lcm (rt_rate a) (rt_rate b) \<le> int32_max \<and>
     c = RT (rt_value a * trunc_div (rt_Lcm (rt_rate a) (rt_rate b)) (rt_rate a) -
             rt_value b * trunc_div (rt_Lcm (rt_rate a) (rt_rate b)) (rt_rate b))
            (rt_Lcm (rt_rate a) (rt_rate b)) \<and>
     in_int64 (rt_value c)"
  by (auto simp: rt_sub_def Let_def bindR_Inr_iff)

lemma rt_add_exact: "rt_add a b = Inr c \<Longrightarrow> rt_q c = rt_q a + rt_q b"
  using rt_Lcm_props [of "rt_rate a" "rt_rate b"]
  by (auto simp: rt_add_Inr_iff rt_q_def add_divide_distrib scaled_q simp del: of_int_mult)

lemma rt_sub_exact: "rt_sub a b = Inr c \<Longrightarrow> rt_q c = rt_q a - rt_q b"
  using rt_Lcm_props [of "rt_rate a" "rt_rate b"]
  by (auto simp: rt_sub_Inr_iff rt_q_def diff_divide_distrib scaled_q simp del: of_int_mult)

lemma rt_add_wf: "rt_add a b = Inr c \<Longrightarrow> rt_wf c"
  using rt_Lcm_props [of "rt_rate a" "rt_rate b"] by (auto simp: rt_add_Inr_iff rt_wf_def)

lemma rt_sub_wf: "rt_sub a b = Inr c \<Longrightarrow> rt_wf c"
  using rt_Lcm_props [of "rt_rate a" "rt_rate b"] by (auto simp: rt_sub_Inr_iff rt_wf_def)

lemma rt_q_less_iff:
  assumes "0 < rt_rate a" "0 < rt_rate b"
  shows "rt_q a < rt_q b \<longleftrightarrow> rt_value a * rt_rate b < rt_value b * rt_rate a"
proof -
  have "rt_q a < rt_q b \<longleftrightarrow>
      (of_int (rt_value a) * of_int (rt_rate b) :: rat) < of_int (rt_value b) * of_int (rt_rate a)"
    using assms by (simp add: rt_q_def field_simps)
  also have "\<dots> \<longleftrightarrow> rt_value a * rt_rate b < rt_value b * rt_rate a"
    by (metis of_int_less_iff of_int_mult)
  finally show ?thesis .
qed

lemma rt_q_sgn_iff:
  assumes "0 < rt_rate a"
  shows "rt_q a \<le> 0 \<longleftrightarrow> rt_value a \<le> 0" and "rt_q a < 0 \<longleftrightarrow> rt_value a < 0"
    and "0 < rt_q a \<longleftrightarrow> 0 < rt_value a" and "0 \<le> rt_q a \<longleftrightarrow> 0 \<le> rt_value a"
  using assms by (simp_all add: rt_q_def divide_le_0_iff divide_less_0_iff
      zero_less_divide_iff zero_le_divide_iff)

lemma rt_compare_Inr_iff:
  "rt_compare a b = Inr s \<longleftrightarrow> 0 < rt_rate a \<and> 0 < rt_rate b \<and>
     s = (if rt_q a < rt_q b then - 1 else if rt_q b < rt_q a then 1 else 0)"
proof (cases "0 < rt_rate a \<and> 0 < rt_rate b")
  case True
  then show ?thesis
    using rt_q_less_iff [of a b] rt_q_less_iff [of b a] by (auto simp: rt_compare_def Let_def)
next
  case False
  then show ?thesis by (auto simp: rt_compare_def)
qed

lemma rt_order_Inr_iff:
  shows rt_lt_iff: "rt_lt a b = Inr p \<longleftrightarrow> 0 < rt_rate a \<and> 0 < rt_rate b \<and> p = (rt_q a < rt_q b)"
    and rt_le_iff: "rt_le a b = Inr p \<longleftrightarrow> 0 < rt_rate a \<and> 0 < rt_rate b \<and> p = (rt_q a \<le> rt_q b)"
    and rt_gt_iff: "rt_gt a b = Inr p \<longleftrightarrow> 0 < rt_rate a \<and> 0 < rt_rate b \<and> p = (rt_q b < rt_q a)"
    and rt_ge_iff: "rt_ge a b = Inr p \<longleftrightarrow> 0 < rt_rate a \<and> 0 < rt_rate b \<and> p = (rt_q b \<le> rt_q a)"
    and rt_eq_iff: "rt_eq a b = Inr p \<longleftrightarrow> 0 < rt_rate a \<and> 0 < rt_rate b \<and> p = (rt_q a = rt_q b)"
    and rt_ne_iff: "rt_ne a b = Inr p \<longleftrightarrow> 0 < rt_rate a \<and> 0 < rt_rate b \<and> p = (rt_q a \<noteq> rt_q b)"
  by (auto simp: rt_lt_def rt_le_def rt_gt_def rt_ge_def rt_eq_def rt_ne_def bindR_Inr_iff
      rt_compare_Inr_iff split: if_splits)


section \<open>Rescaling and frames\<close>

lemma trunc_mod_eq_0_iff: "0 < b \<Longrightarrow> trunc_mod a b = 0 \<longleftrightarrow> b dvd a"
proof -
  assume b: "0 < b"
  show ?thesis
  proof
    assume "trunc_mod a b = 0"
    then have "a = b * trunc_div a b" by (simp add: trunc_mod_def)
    then show "b dvd a" by (metis dvd_triv_left)
  next
    assume "b dvd a"
    then obtain k where "a = b * k" by blast
    with b show "trunc_mod a b = 0"
      by (cases "k = 0") (simp_all add: trunc_mod_def trunc_div_def abs_mult sgn_mult
          sgn_mult_abs abs_sgn)
  qed
qed

lemma trunc_div_exact: "0 < b \<Longrightarrow> b dvd a \<Longrightarrow> trunc_div a b = a div b"
  using trunc_mod_eq_0_iff [of b a] by (auto simp: trunc_mod_def)

lemma trunc_div_floor:
  assumes "0 < b"
  shows "(if a < 0 \<and> trunc_mod a b \<noteq> 0 then trunc_div a b - 1 else trunc_div a b) = a div b"
proof (cases "a < 0")
  case False
  with assms show ?thesis by (simp add: trunc_div_nonneg)
next
  case True
  show ?thesis
  proof (cases "b dvd a")
    case True
    with assms show ?thesis by (simp add: trunc_mod_eq_0_iff trunc_div_exact)
  next
    case False
    then have "(- a) mod b \<noteq> 0" by (metis dvd_minus_iff dvd_eq_mod_eq_0)
    then have "a div b = - (- a div b) - 1"
      using zdiv_zminus1_eq_if [of b "- a"] assms by simp
    with False assms \<open>a < 0\<close> show ?thesis
      by (simp add: trunc_mod_eq_0_iff trunc_div_def)
  qed
qed

lemma rt_rescale_Inr_iff:
  "rt_rescale a r = Inr c \<longleftrightarrow>
     0 < rt_rate a \<and> 0 < r \<and> in_int64 (rt_value c) \<and> rt_rate c = r \<and> rt_q c = rt_q a"
proof (cases "0 < rt_rate a \<and> 0 < r")
  case True
  have q: "rt_rate c = r \<Longrightarrow> rt_q c = rt_q a \<longleftrightarrow> rt_value c * rt_rate a = rt_value a * r"
  proof -
    assume r: "rt_rate c = r"
    have "rt_q c = rt_q a \<longleftrightarrow>
        (of_int (rt_value c) * of_int (rt_rate a) :: rat) = of_int (rt_value a) * of_int r"
      using True r by (simp add: rt_q_def frac_eq_eq)
    also have "\<dots> \<longleftrightarrow> rt_value c * rt_rate a = rt_value a * r"
      by (metis of_int_eq_iff of_int_mult)
    finally show ?thesis .
  qed
  have "rt_rescale a r = Inr c \<longleftrightarrow>
      rt_rate a dvd rt_value a * r \<and> c = RT (rt_value a * r div rt_rate a) r \<and> in_int64 (rt_value c)"
    using True by (auto simp: rt_rescale_def Let_def bindR_Inr_iff trunc_mod_eq_0_iff trunc_div_exact)
  also have "\<dots> \<longleftrightarrow> in_int64 (rt_value c) \<and> rt_rate c = r \<and> rt_value c * rt_rate a = rt_value a * r"
  proof (intro iffI conjI)
    assume h: "in_int64 (rt_value c) \<and> rt_rate c = r \<and> rt_value c * rt_rate a = rt_value a * r"
    then show "rt_rate a dvd rt_value a * r" by (metis dvd_triv_right)
    from h True have "rt_value a * r div rt_rate a = rt_value c"
      by (metis less_irrefl nonzero_mult_div_cancel_right)
    with h show "c = RT (rt_value a * r div rt_rate a) r" by (cases c) simp
  qed (use True in auto)
  finally show ?thesis using True q by auto
next
  case False
  then show ?thesis by (auto simp: rt_rescale_def Let_def bindR_Inr_iff)
qed

lemma rt_to_frames_Inr_iff:
  "rt_to_frames a num den = Inr n \<longleftrightarrow>
     0 < rt_rate a \<and> 0 < num \<and> 0 < den \<and> in_int64 n \<and>
     n = \<lfloor>rt_q a * (of_int num / of_int den)\<rfloor>"
proof (cases "0 < rt_rate a \<and> 0 < num \<and> 0 < den")
  case True
  have "\<lfloor>rt_q a * (of_int num / of_int den)\<rfloor>
      = \<lfloor>(of_int (rt_value a * num) :: rat) / of_int (rt_rate a * den)\<rfloor>"
    by (simp add: rt_q_def)
  also have "\<dots> = rt_value a * num div (rt_rate a * den)"
    by (rule floor_divide_of_int_eq)
  finally show ?thesis
    using True by (auto simp: rt_to_frames_def Let_def bindR_Inr_iff
        trunc_div_floor [of "rt_rate a * den" "rt_value a * num"])
next
  case False
  then show ?thesis by (auto simp: rt_to_frames_def Let_def bindR_Inr_iff)
qed

section \<open>Cancellation, byte for byte\<close>

text \<open>
  \<open>rt_scale\<close> is an operand brought to the common rate; arithmetic that goes forth
  and back ends there, which is the same time but in general not the same ticks.
\<close>

definition rt_scale :: "RationalTime \<Rightarrow> RationalTime \<Rightarrow> RationalTime" where
  "rt_scale a b = RT (rt_value a * trunc_div (rt_Lcm (rt_rate a) (rt_rate b)) (rt_rate a))
                     (rt_Lcm (rt_rate a) (rt_rate b))"

lemma rt_Lcm_absorb: "0 < a \<Longrightarrow> 0 < b \<Longrightarrow> rt_Lcm (rt_Lcm a b) b = rt_Lcm a b"
  using rt_Lcm_props [of a b] by (simp add: rt_Lcm_eq lcm_pos_int)

lemma rt_sub_add_cancel:
  assumes "rt_add a b = Inr c" and "in_int64 (rt_value (rt_scale a b))"
  shows "rt_sub c b = Inr (rt_scale a b)"
  using assms rt_Lcm_props [of "rt_rate a" "rt_rate b"]
  by (auto simp: rt_add_Inr_iff rt_sub_Inr_iff rt_scale_def rt_Lcm_absorb trunc_div_nonneg)

lemma rt_add_nonneg_scale:
  assumes "rt_add a b = Inr c" and "0 \<le> rt_value a" and "0 \<le> rt_value b"
  shows "in_int64 (rt_value (rt_scale a b))"
proof -
  from assms(1) have r: "0 < rt_rate a" "0 < rt_rate b"
    by (auto simp: rt_add_Inr_iff)
  have "0 \<le> trunc_div (rt_Lcm (rt_rate a) (rt_rate b)) (rt_rate a)"
    and "0 \<le> trunc_div (rt_Lcm (rt_rate a) (rt_rate b)) (rt_rate b)"
    using r rt_Lcm_props [OF r] by (simp_all add: trunc_div_nonneg pos_imp_zdiv_nonneg_iff)
  then have "0 \<le> rt_value (rt_scale a b)" and "rt_value (rt_scale a b) \<le> rt_value c"
    using assms by (auto simp: rt_add_Inr_iff rt_scale_def)
  moreover have "in_int64 (rt_value c)" using assms(1) by (auto simp: rt_add_Inr_iff)
  ultimately show ?thesis by (auto simp: in_int64_def int64_min_def)
qed

section \<open>Properties\<close>

text \<open>
  Property C20: addition is exact.  On well-formed times \<open>add\<close> either returns the
  sum, at the least common multiple of the two rates and inside the ranges, or throws
  because that rate exceeds 32 bits or the sum at that rate exceeds 64 bits.
\<close>

theorem add_exact_or_overflow:
  assumes "rt_wf a" and "rt_wf b"
  shows "case rt_add a b of
      Inr c \<Rightarrow> rt_q c = rt_q a + rt_q b \<and> rt_rate c = lcm (rt_rate a) (rt_rate b) \<and> rt_wf c
    | Inl e \<Rightarrow> int32_max < lcm (rt_rate a) (rt_rate b) \<or>
        \<not> (\<exists>v. in_int64 v \<and>
              of_int v / of_int (lcm (rt_rate a) (rt_rate b)) = rt_q a + rt_q b)"
proof (cases "rt_add a b")
  case (Inr c)
  then have "rt_rate c = lcm (rt_rate a) (rt_rate b)"
    using assms by (auto simp: rt_add_Inr_iff rt_wf_def rt_Lcm_eq)
  with Inr rt_add_exact [OF Inr] rt_add_wf [OF Inr] show ?thesis by simp
next
  case (Inl e)
  let ?L = "rt_Lcm (rt_rate a) (rt_rate b)"
  let ?v = "rt_value a * trunc_div ?L (rt_rate a) + rt_value b * trunc_div ?L (rt_rate b)"
  from assms have r: "0 < rt_rate a" "0 < rt_rate b" by (auto simp: rt_wf_def)
  have L: "?L = lcm (rt_rate a) (rt_rate b)" and pos: "0 < ?L"
    using r by (simp_all add: rt_Lcm_eq lcm_pos_int)
  have sum: "(of_int ?v / of_int ?L :: rat) = rt_q a + rt_q b"
    using scaled_q [of "rt_rate a" ?L "rt_value a"] scaled_q [of "rt_rate b" ?L "rt_value b"]
      r rt_Lcm_props [OF r] by (simp add: rt_q_def add_divide_distrib del: of_int_mult)
  from Inl have "\<nexists>c. rt_add a b = Inr c" by simp
  then have no: "?L \<le> int32_max \<longrightarrow> \<not> in_int64 ?v"
    using r by (auto simp: rt_add_Inr_iff)
  have "v = ?v" if "of_int v / of_int ?L = rt_q a + rt_q b" for v
  proof -
    from that sum have "(of_int v :: rat) / of_int ?L = of_int ?v / of_int ?L" by simp
    with pos show ?thesis by (simp add: divide_cancel_right del: of_int_mult of_int_add)
  qed
  with no have "int32_max < ?L \<or>
      \<not> (\<exists>v. in_int64 v \<and> of_int v / of_int ?L = rt_q a + rt_q b)"
    using \<open>\<And>v. of_int v / of_int ?L = rt_q a + rt_q b \<Longrightarrow> v = ?v\<close> by (metis not_le)
  with Inl show ?thesis by (simp only: L sum.case)
qed

theorem add_exact_or_overflow_witness:
  "rt_wf (RT 1 24) \<and> rt_wf (RT 1 30) \<and> rt_add (RT 1 24) (RT 1 30) = Inr (RT 9 120)"
proof -
  have wf: "rt_wf (RT 1 24)" "rt_wf (RT 1 30)"
    by (simp_all add: rt_wf_def in_int64_def int64_min_def int64_max_def int32_max_def)
  have "rt_add (RT 1 24) (RT 1 30) = Inr (RT 9 120)" by code_simp
  with add_exact_or_overflow [OF wf] wf show ?thesis by simp
qed

text \<open>
  \<open>compare\<close> is the order of the rationals, whatever the two timebases,
  and it throws exactly when a rate is not positive.
\<close>

theorem compare_is_rational_order:
  "rt_compare a b =
     (if rt_rate a \<le> 0 \<or> rt_rate b \<le> 0 then Inl rate_message
      else Inr (if rt_q a < rt_q b then - 1 else if rt_q b < rt_q a then 1 else 0))"
proof (cases "rt_rate a \<le> 0 \<or> rt_rate b \<le> 0")
  case True
  then show ?thesis by (auto simp: rt_compare_def)
next
  case False
  then have "rt_compare a b = Inr (if rt_q a < rt_q b then - 1 else if rt_q b < rt_q a then 1 else 0)"
    by (simp add: rt_compare_Inr_iff not_le)
  with False show ?thesis by simp
qed

text \<open>
  Property C21: rescaling never rounds.  It returns a time exactly when the same
  rational number has a 64-bit tick count at the new rate.
\<close>

theorem rescale_exact_iff:
  "rt_rescale a r = Inr c \<longleftrightarrow>
     0 < rt_rate a \<and> 0 < r \<and> rt_rate c = r \<and> in_int64 (rt_value c) \<and> rt_q c = rt_q a"
  by (auto simp: rt_rescale_Inr_iff)

text \<open>
  Property C22: \<open>to_frames\<close> answers \<open>m\<close> exactly when \<open>m\<close> fits 64 bits and the time, negative or
  not, lies in frame \<open>m\<close>: from the start of frame \<open>m\<close> up to but not including the start of
  frame \<open>m + 1\<close>, where frame \<open>k\<close> at \<open>num/den\<close> frames per second starts at \<open>k * den\<close> ticks of
  rate \<open>num\<close>, as the sources write it.  In particular the start of frame \<open>n\<close> maps back to \<open>n\<close>.
\<close>

theorem frame_start_roundtrip:
  assumes "0 < num" and "0 < den" and "in_int64 n"
  shows "(rt_to_frames a num den = Inr m \<longleftrightarrow>
      0 < rt_rate a \<and> in_int64 m \<and> rt_q (RT (m * den) num) \<le> rt_q a \<and> rt_q a < rt_q (RT ((m + 1) * den) num)) \<and>
    rt_to_frames (RT (n * den) num) num den = Inr n"
proof
  have "m = \<lfloor>rt_q a * (of_int num / of_int den)\<rfloor> \<longleftrightarrow>
      of_int m \<le> rt_q a * (of_int num / of_int den) \<and> rt_q a * (of_int num / of_int den) < of_int m + 1"
    by (auto simp: floor_eq_iff eq_commute [of m])
  also have "\<dots> \<longleftrightarrow> rt_q (RT (m * den) num) \<le> rt_q a \<and> rt_q a < rt_q (RT ((m + 1) * den) num)"
    using assms(1,2) by (simp add: rt_q_def [of "RT _ _"] field_simps)
  finally show "rt_to_frames a num den = Inr m \<longleftrightarrow>
      0 < rt_rate a \<and> in_int64 m \<and> rt_q (RT (m * den) num) \<le> rt_q a \<and> rt_q a < rt_q (RT ((m + 1) * den) num)"
    using assms(1,2) by (simp add: rt_to_frames_Inr_iff)
  show "rt_to_frames (RT (n * den) num) num den = Inr n"
    using assms by (simp add: rt_to_frames_Inr_iff rt_q_def)
qed

theorem frame_start_roundtrip_witness:
  "rt_to_frames (RT (- 1) 30000) 30000 1001 = Inr (- 1) \<and> rt_to_frames (RT (100 * 1001) 30000) 30000 1001 = Inr 100"
proof -
  have r: "in_int64 100" "in_int64 (- 1)" by (simp_all add: in_int64_def int64_min_def int64_max_def)
  note f = frame_start_roundtrip [of 30000 1001 100 "RT (- 1) 30000" "- 1", OF _ _ r(1)]
  from f show ?thesis by (simp add: r rt_q_def)
qed

end
