(* ===== verification/Ulid.thy ===== *)
theory Ulid
  imports Prelude
begin

text \<open>
  Identifiers, \<open>src/Ulid.h\<close> and \<open>src/Ulid.cc\<close>: validation of a 26-character
  Crockford base-32 text, and the generator.  The generator's function-local
  statics are a record; the clock reading and the two draws of the random engine
  are inputs of a call.
\<close>

unbundle bit_operations_syntax

type_synonym Ulid = string

section \<open>Validation\<close>

definition kAlphabet :: string where
  "kAlphabet = ''0123456789ABCDEFGHJKMNPQRSTVWXYZ''"

fun position_in :: "char \<Rightarrow> string \<Rightarrow> int \<Rightarrow> int" where
  "position_in c [] i = - 1"
| "position_in c (a # as) i = (if a = c then i else position_in c as (i + 1))"

definition fold_case :: "char \<Rightarrow> char" where
  "fold_case c = (if 97 \<le> (of_char c :: nat) \<and> (of_char c :: nat) \<le> 122
                  then char_of ((of_char c :: nat) - 97 + 65) else c)"

definition DecodeCharacter :: "char \<Rightarrow> int" where
  "DecodeCharacter c = position_in (fold_case c) kAlphabet 0"

text \<open>The alphabet as a decision tree on the bits of a character, to evaluate identifiers with.\<close>

lemma DecodeCharacter_bits [code]:
  "DecodeCharacter (Char b0 b1 b2 b3 b4 b5 b6 b7) =
     (if b7 then - 1 else (if b6 then (if b4 then (if b3 then (if b2 then - 1 else (if b1 then (if b0
      then - 1 else 31) else (if b0 then 30 else 29))) else (if b2 then (if b1 then (if b0 then
      28 else 27) else (if b0 then - 1 else 26)) else (if b1 then (if b0 then 25 else 24) else
      (if b0 then 23 else 22)))) else (if b3 then (if b2 then (if b1 then (if b0 then - 1 else 21)
      else (if b0 then 20 else - 1)) else (if b1 then (if b0 then 19 else 18) else (if b0 then - 1 else 17))) else (if b2 then (if b1 then (if b0 then 16 else 15) else (if b0 then 14 else
      13)) else (if b1 then (if b0 then 12 else 11) else (if b0 then 10 else - 1))))) else (if
      b5 then (if b4 then (if b3 then (if b2 then - 1 else (if b1 then - 1 else (if b0 then 9 else
      8))) else (if b2 then (if b1 then (if b0 then 7 else 6) else (if b0 then 5 else 4)) else
      (if b1 then (if b0 then 3 else 2) else (if b0 then 1 else 0)))) else - 1) else - 1)))"
  by (cases b0; cases b1; cases b2; cases b3; cases b4; cases b5; cases b6; cases b7)
     (simp_all add: DecodeCharacter_def fold_case_def kAlphabet_def of_char_def char_of_def bit_0)

definition IsValidUlid :: "Ulid \<Rightarrow> bool" where
  "IsValidUlid v =
     (if length v \<noteq> 26 \<or> DecodeCharacter (v ! 0) > 7 then False
      else list_all (\<lambda>c. \<not> DecodeCharacter c < 0) v)"

section \<open>Generation\<close>

record UlidState =
  us_previous :: "64 word"
  us_randomness :: "8 word list"

definition initial_ulid_state :: UlidState where
  "initial_ulid_state = \<lparr>us_previous = 0, us_randomness = replicate 10 0\<rparr>"

text \<open>
  The increment loop runs from the last byte to the first and stops at the first
  byte that does not wrap; it is written on the reversed array.
\<close>

fun bump_reversed :: "8 word list \<Rightarrow> 8 word list" where
  "bump_reversed [] = []"
| "bump_reversed (b # bs) = (if b + 1 \<noteq> 0 then (b + 1) # bs else (b + 1) # bump_reversed bs)"

definition bump_randomness :: "8 word list \<Rightarrow> 8 word list" where
  "bump_randomness r = rev (bump_reversed (rev r))"

definition byte_of :: "64 word \<Rightarrow> nat \<Rightarrow> 8 word" where
  "byte_of w k = ucast (drop_bit (8 * k) w)"

definition draw_randomness :: "64 word \<Rightarrow> 64 word \<Rightarrow> 8 word list" where
  "draw_randomness bits0 bits1 = map (byte_of bits0) [0..<8] @ map (byte_of bits1) [0..<2]"

text \<open>One call: the clock going backwards is clamped, an unchanged clock increments.\<close>

definition ulid_step :: "UlidState \<Rightarrow> 64 word \<Rightarrow> 64 word \<Rightarrow> 64 word \<Rightarrow> UlidState" where
  "ulid_step st now bits0 bits1 =
     (let milliseconds = (if now < us_previous st then us_previous st else now) in
      if milliseconds = us_previous st
      then st\<lparr>us_randomness := bump_randomness (us_randomness st)\<rparr>
      else \<lparr>us_previous = milliseconds, us_randomness = draw_randomness bits0 bits1\<rparr>)"

definition ulid_bytes :: "UlidState \<Rightarrow> 8 word list" where
  "ulid_bytes st = map (\<lambda>k. byte_of (us_previous st) (5 - k)) [0..<6] @ us_randomness st"

text \<open>
  The base-32 loop: \<open>refill\<close> is the inner \<open>while (bitCount < 5)\<close>, which reads at
  most one byte because a byte adds eight bits.
\<close>

fun emit_base32 :: "nat \<Rightarrow> 32 word \<Rightarrow> nat \<Rightarrow> 8 word list \<Rightarrow> string" where
  "emit_base32 0 buffer bitCount bytes = []"
| "emit_base32 (Suc n) buffer bitCount bytes =
     (case (if bitCount < 5
            then (case bytes of
                    [] \<Rightarrow> (buffer, bitCount, [])
                  | b # bs \<Rightarrow> (push_bit 8 buffer OR ucast b, bitCount + 8, bs))
            else (buffer, bitCount, bytes)) of
        (buffer', bitCount', bytes') \<Rightarrow>
          kAlphabet ! unat (drop_bit (bitCount' - 5) buffer' AND 31) #
          emit_base32 n buffer' (bitCount' - 5) bytes')"

definition encode_ulid :: "8 word list \<Rightarrow> Ulid" where
  "encode_ulid bytes = emit_base32 26 0 2 bytes"

definition GenerateUlid :: "UlidState \<Rightarrow> 64 word \<Rightarrow> 64 word \<Rightarrow> 64 word \<Rightarrow> Ulid \<times> UlidState" where
  "GenerateUlid st now bits0 bits1 =
     (let st' = ulid_step st now bits0 bits1 in (encode_ulid (ulid_bytes st'), st'))"

section \<open>The supply of identifiers\<close>

text \<open>
  Code that generates identifiers draws them in order from the process-wide
  generator.  A component's model takes the sequence of the identifiers its calls
  will return and hands the rest of the sequence on.
\<close>

type_synonym id_supply = "nat \<Rightarrow> Ulid"

definition fresh :: "id_supply \<Rightarrow> Ulid \<times> id_supply" where
  "fresh g = (g 0, \<lambda>n. g (Suc n))"

fun fresh_many :: "nat \<Rightarrow> id_supply \<Rightarrow> Ulid list \<times> id_supply" where
  "fresh_many 0 g = ([], g)"
| "fresh_many (Suc n) g =
     (case fresh g of (x, g') \<Rightarrow> case fresh_many n g' of (xs, g'') \<Rightarrow> (x # xs, g''))"

text \<open>The supply that the generator itself produces from a state and an environment.\<close>

fun generator_state :: "UlidState \<Rightarrow> (nat \<Rightarrow> 64 word \<times> 64 word \<times> 64 word) \<Rightarrow> nat \<Rightarrow> UlidState" where
  "generator_state st env 0 = st"
| "generator_state st env (Suc n) =
     (case env n of (now, b0, b1) \<Rightarrow> snd (GenerateUlid (generator_state st env n) now b0 b1))"

definition generator_supply :: "UlidState \<Rightarrow> (nat \<Rightarrow> 64 word \<times> 64 word \<times> 64 word) \<Rightarrow> id_supply" where
  "generator_supply st env n =
     (case env n of (now, b0, b1) \<Rightarrow> fst (GenerateUlid (generator_state st env n) now b0 b1))"

lemma length_fresh_many [simp]: "length (fst (fresh_many n g)) = n"
  by (induction n arbitrary: g) (auto simp: fresh_def split: prod.splits, metis fst_conv)

lemma IsValidUlid_nonempty: "IsValidUlid v \<Longrightarrow> v \<noteq> []"
  by (auto simp: IsValidUlid_def)

lemma IsValidUlid_length: "IsValidUlid v \<Longrightarrow> length v = 26"
  by (auto simp: IsValidUlid_def split: if_splits)

end
