(* ===== verification/Document_Model.thy ===== *)
theory Document_Model
  imports Rational_Time Ulid
begin

text \<open>
  The document, \<open>src/Document.h\<close>: one record per struct, fields in the order of
  the source, and the lookups of \<open>src/Document.cc\<close>.  A lookup returns the first
  match; writing through a non-const lookup is \<open>ModifyClip\<close>, \<open>ModifyTrack\<close> and
  their kin, which change that first match.
\<close>

section \<open>Structs\<close>

record MediaRate =
  mr_num :: int
  mr_den :: int

record ColorManagementSettings =
  cm_enabled :: bool
  cm_input_gamut :: string
  cm_input_transfer :: string
  cm_input_ycbcr_matrix :: string
  cm_input_range :: string
  cm_working_gamut :: string
  cm_output_gamut :: string
  cm_output_transfer :: string

record DocumentSource =
  src_id :: Ulid
  src_path :: string
  src_rate :: MediaRate
  src_duration :: RationalTime

record LibraryMedia =
  med_id :: Ulid
  med_path :: string
  med_filename :: string
  med_codec :: string
  med_has_video :: bool
  med_width :: int
  med_height :: int
  med_pixel_format :: string
  med_color_range :: string
  med_color_space :: string
  med_color_transfer :: string
  med_color_primaries :: string
  med_rotation_degrees :: int
  med_rate :: MediaRate
  med_duration :: RationalTime
  med_orientation :: string
  med_has_audio :: bool
  med_audio_rate :: int
  med_audio_channels :: int
  med_audio_level_measured :: bool
  med_audio_level :: int
  med_bin_id :: Ulid
  med_proxy_path :: string
  med_metadata_complete :: bool

record DocumentBin =
  bin_id :: Ulid
  bin_name :: string
  bin_parent_id :: Ulid

record DocumentMarker =
  mk_id :: Ulid
  mk_name :: string
  mk_time :: RationalTime
  mk_color :: string
  mk_category :: string

record EffectParamValue =
  ep_num :: int
  ep_den :: int

text \<open>\<open>std::map\<close> iterates in key order: the parameters are the sorted association list.\<close>

record ClipEffect =
  fx_id :: Ulid
  fx_type :: string
  fx_params :: "(string \<times> EffectParamValue) list"

record DocumentClip =
  clip_id :: Ulid
  clip_source_id :: Ulid
  clip_source_in :: RationalTime
  clip_duration :: RationalTime
  clip_timeline_in :: RationalTime
  clip_include_audio :: bool
  clip_link_group_id :: Ulid
  clip_sync_anchor_clip_id :: Ulid
  clip_sync_reference_delta :: RationalTime
  clip_effects :: "ClipEffect list"
  clip_caption_group_id :: Ulid
  clip_caption_text :: string
  clip_opacity :: EffectParamValue
  clip_audio_gain_db :: EffectParamValue
  clip_audio_fade_in :: RationalTime
  clip_audio_fade_out :: RationalTime

datatype TransitionAlignment = Center | StartAtCut | EndAtCut

record DocumentTransition =
  trn_id :: Ulid
  trn_track_id :: Ulid
  trn_left_clip_id :: Ulid
  trn_right_clip_id :: Ulid
  trn_type :: string
  trn_duration :: RationalTime
  trn_alignment :: TransitionAlignment

record CaptionStyle =
  cs_id :: Ulid
  cs_font_family :: string
  cs_font_size :: int
  cs_color :: string
  cs_position :: string

record MulticamAngle =
  ang_id :: Ulid
  ang_name :: string
  ang_clip_id :: Ulid

record MulticamGroup =
  mg_id :: Ulid
  mg_name :: string
  mg_angles :: "MulticamAngle list"
  mg_active_angle_id :: Ulid

record DocumentTrack =
  trk_id :: Ulid
  trk_kind :: string
  trk_index :: int
  trk_clips :: "DocumentClip list"
  trk_locked :: bool
  trk_sync_lock :: bool
  trk_visible :: bool
  trk_muted :: bool
  trk_solo :: bool

record DocumentSequence =
  seq_id :: Ulid
  seq_name :: string
  seq_width :: int
  seq_height :: int
  seq_frame_rate :: MediaRate
  seq_markers :: "DocumentMarker list"
  seq_transitions :: "DocumentTransition list"
  seq_tracks :: "DocumentTrack list"
  seq_caption_styles :: "CaptionStyle list"
  seq_multicam_groups :: "MulticamGroup list"

record Document =
  doc_version :: int
  doc_sequence :: DocumentSequence
  doc_color_management :: ColorManagementSettings
  doc_library :: "LibraryMedia list"
  doc_bins :: "DocumentBin list"
  doc_sources :: "DocumentSource list"

text \<open>Default member initialisers that the operations rely on.\<close>

definition default_opacity :: EffectParamValue where
  "default_opacity = \<lparr>ep_num = 1, ep_den = 1\<rparr>"

definition default_gain :: EffectParamValue where
  "default_gain = \<lparr>ep_num = 0, ep_den = 1\<rparr>"

text \<open>\<open>DocumentClip{id, source_id, source_in, duration, timeline_in}\<close>: the rest defaulted.\<close>

definition new_clip :: "Ulid \<Rightarrow> Ulid \<Rightarrow> RationalTime \<Rightarrow> RationalTime \<Rightarrow> RationalTime \<Rightarrow> DocumentClip" where
  "new_clip i s src_in dur tl_in =
     \<lparr>clip_id = i, clip_source_id = s, clip_source_in = src_in, clip_duration = dur,
      clip_timeline_in = tl_in, clip_include_audio = True, clip_link_group_id = [],
      clip_sync_anchor_clip_id = [], clip_sync_reference_delta = RT 0 1, clip_effects = [],
      clip_caption_group_id = [], clip_caption_text = [], clip_opacity = default_opacity,
      clip_audio_gain_db = default_gain, clip_audio_fade_in = RT 0 1,
      clip_audio_fade_out = RT 0 1\<rparr>"

abbreviation doc_tracks :: "Document \<Rightarrow> DocumentTrack list" where
  "doc_tracks d \<equiv> seq_tracks (doc_sequence d)"

section \<open>Lookups\<close>

definition FindSource :: "Document \<Rightarrow> Ulid \<Rightarrow> DocumentSource option" where
  "FindSource d i = List.find (\<lambda>s. src_id s = i) (doc_sources d)"

definition FindLibraryMedia :: "Document \<Rightarrow> Ulid \<Rightarrow> LibraryMedia option" where
  "FindLibraryMedia d i = List.find (\<lambda>m. med_id m = i) (doc_library d)"

definition FindBin :: "Document \<Rightarrow> Ulid \<Rightarrow> DocumentBin option" where
  "FindBin d i = List.find (\<lambda>b. bin_id b = i) (doc_bins d)"

definition FindMarker :: "Document \<Rightarrow> Ulid \<Rightarrow> DocumentMarker option" where
  "FindMarker d i = List.find (\<lambda>m. mk_id m = i) (seq_markers (doc_sequence d))"

definition FindTransition :: "Document \<Rightarrow> Ulid \<Rightarrow> DocumentTransition option" where
  "FindTransition d i = List.find (\<lambda>t. trn_id t = i) (seq_transitions (doc_sequence d))"

definition FindCaptionStyle :: "Document \<Rightarrow> Ulid \<Rightarrow> CaptionStyle option" where
  "FindCaptionStyle d i = List.find (\<lambda>c. cs_id c = i) (seq_caption_styles (doc_sequence d))"

definition FindMulticamGroup :: "Document \<Rightarrow> Ulid \<Rightarrow> MulticamGroup option" where
  "FindMulticamGroup d i = List.find (\<lambda>g. mg_id g = i) (seq_multicam_groups (doc_sequence d))"

definition FindTrack :: "Document \<Rightarrow> Ulid \<Rightarrow> DocumentTrack option" where
  "FindTrack d i = List.find (\<lambda>t. trk_id t = i) (doc_tracks d)"

definition has_clip :: "Ulid \<Rightarrow> DocumentTrack \<Rightarrow> bool" where
  "has_clip i t = list_ex (\<lambda>c. clip_id c = i) (trk_clips t)"

definition FindTrackForClip :: "Document \<Rightarrow> Ulid \<Rightarrow> DocumentTrack option" where
  "FindTrackForClip d i = List.find (has_clip i) (doc_tracks d)"

definition FindClip :: "Document \<Rightarrow> Ulid \<Rightarrow> DocumentClip option" where
  "FindClip d i =
     List.find (\<lambda>c. clip_id c = i) (concat (map trk_clips (doc_tracks d)))"

section \<open>Writing through a lookup\<close>

definition with_tracks :: "(DocumentTrack list \<Rightarrow> DocumentTrack list) \<Rightarrow> Document \<Rightarrow> Document" where
  "with_tracks f d =
     d\<lparr>doc_sequence := (doc_sequence d)\<lparr>seq_tracks := f (doc_tracks d)\<rparr>\<rparr>"

definition ModifyTrack :: "Ulid \<Rightarrow> (DocumentTrack \<Rightarrow> DocumentTrack) \<Rightarrow> Document \<Rightarrow> Document" where
  "ModifyTrack i f = with_tracks (update_first (\<lambda>t. trk_id t = i) f)"

definition ModifyTrackForClip :: "Ulid \<Rightarrow> (DocumentTrack \<Rightarrow> DocumentTrack) \<Rightarrow> Document \<Rightarrow> Document" where
  "ModifyTrackForClip i f = with_tracks (update_first (has_clip i) f)"

definition with_clips :: "(DocumentClip list \<Rightarrow> DocumentClip list) \<Rightarrow> DocumentTrack \<Rightarrow> DocumentTrack" where
  "with_clips f t = t\<lparr>trk_clips := f (trk_clips t)\<rparr>"

definition ModifyClip :: "Ulid \<Rightarrow> (DocumentClip \<Rightarrow> DocumentClip) \<Rightarrow> Document \<Rightarrow> Document" where
  "ModifyClip i f = ModifyTrackForClip i (with_clips (update_first (\<lambda>c. clip_id c = i) f))"

definition with_bins :: "(DocumentBin list \<Rightarrow> DocumentBin list) \<Rightarrow> Document \<Rightarrow> Document" where
  "with_bins f d = d\<lparr>doc_bins := f (doc_bins d)\<rparr>"

definition with_library :: "(LibraryMedia list \<Rightarrow> LibraryMedia list) \<Rightarrow> Document \<Rightarrow> Document" where
  "with_library f d = d\<lparr>doc_library := f (doc_library d)\<rparr>"

definition with_markers :: "(DocumentMarker list \<Rightarrow> DocumentMarker list) \<Rightarrow> Document \<Rightarrow> Document" where
  "with_markers f d =
     d\<lparr>doc_sequence := (doc_sequence d)\<lparr>seq_markers := f (seq_markers (doc_sequence d))\<rparr>\<rparr>"

definition with_transitions ::
  "(DocumentTransition list \<Rightarrow> DocumentTransition list) \<Rightarrow> Document \<Rightarrow> Document" where
  "with_transitions f d =
     d\<lparr>doc_sequence := (doc_sequence d)\<lparr>seq_transitions := f (seq_transitions (doc_sequence d))\<rparr>\<rparr>"

definition with_caption_styles ::
  "(CaptionStyle list \<Rightarrow> CaptionStyle list) \<Rightarrow> Document \<Rightarrow> Document" where
  "with_caption_styles f d =
     d\<lparr>doc_sequence :=
         (doc_sequence d)\<lparr>seq_caption_styles := f (seq_caption_styles (doc_sequence d))\<rparr>\<rparr>"

definition with_multicam_groups ::
  "(MulticamGroup list \<Rightarrow> MulticamGroup list) \<Rightarrow> Document \<Rightarrow> Document" where
  "with_multicam_groups f d =
     d\<lparr>doc_sequence :=
         (doc_sequence d)\<lparr>seq_multicam_groups := f (seq_multicam_groups (doc_sequence d))\<rparr>\<rparr>"

lemma with_tracks_simps [simp]:
  "doc_tracks (with_tracks f d) = f (doc_tracks d)"
  "doc_version (with_tracks f d) = doc_version d"
  "doc_color_management (with_tracks f d) = doc_color_management d"
  "doc_library (with_tracks f d) = doc_library d"
  "doc_bins (with_tracks f d) = doc_bins d"
  "doc_sources (with_tracks f d) = doc_sources d"
  "seq_id (doc_sequence (with_tracks f d)) = seq_id (doc_sequence d)"
  "seq_name (doc_sequence (with_tracks f d)) = seq_name (doc_sequence d)"
  "seq_width (doc_sequence (with_tracks f d)) = seq_width (doc_sequence d)"
  "seq_height (doc_sequence (with_tracks f d)) = seq_height (doc_sequence d)"
  "seq_frame_rate (doc_sequence (with_tracks f d)) = seq_frame_rate (doc_sequence d)"
  "seq_markers (doc_sequence (with_tracks f d)) = seq_markers (doc_sequence d)"
  "seq_transitions (doc_sequence (with_tracks f d)) = seq_transitions (doc_sequence d)"
  "seq_caption_styles (doc_sequence (with_tracks f d)) = seq_caption_styles (doc_sequence d)"
  "seq_multicam_groups (doc_sequence (with_tracks f d)) = seq_multicam_groups (doc_sequence d)"
  by (simp_all add: with_tracks_def)

lemma with_tracks_with_tracks [simp]: "with_tracks f (with_tracks g d) = with_tracks (\<lambda>ts. f (g ts)) d"
  by (simp add: with_tracks_def)

lemma with_tracks_same: "f (doc_tracks d) = doc_tracks d \<Longrightarrow> with_tracks f d = d"
  by (simp add: with_tracks_def)

lemma with_clips_simps [simp]:
  "trk_clips (with_clips f t) = f (trk_clips t)"
  "trk_id (with_clips f t) = trk_id t"
  "trk_kind (with_clips f t) = trk_kind t"
  "trk_locked (with_clips f t) = trk_locked t"
  by (simp_all add: with_clips_def)

lemma FindTrack_Some: "FindTrack d i = Some t \<Longrightarrow> trk_id t = i \<and> t \<in> set (doc_tracks d)"
  by (auto simp: FindTrack_def dest: find_Some_D)

lemma FindTrackForClip_Some:
  "FindTrackForClip d i = Some t \<Longrightarrow> has_clip i t \<and> t \<in> set (doc_tracks d)"
  by (auto simp: FindTrackForClip_def dest: find_Some_D)

lemma find_append:
  "List.find P (xs @ ys) = (case List.find P xs of None \<Rightarrow> List.find P ys | Some x \<Rightarrow> Some x)"
  by (induction xs) auto

text \<open>The clip found is the first match of the first track that holds the identifier.\<close>

lemma FindClip_via_track:
  "FindClip d i =
     (case FindTrackForClip d i of
        None \<Rightarrow> None
      | Some t \<Rightarrow> List.find (\<lambda>c. clip_id c = i) (trk_clips t))"
proof -
  have "List.find (\<lambda>c. clip_id c = i) (concat (map trk_clips ts)) =
      (case List.find (has_clip i) ts of
         None \<Rightarrow> None
       | Some t \<Rightarrow> List.find (\<lambda>c. clip_id c = i) (trk_clips t))" for ts
    by (induction ts)
      (auto simp: find_append has_clip_def list_ex_iff find_None_iff_all
        split: option.splits dest: find_Some_D)
  then show ?thesis by (simp add: FindClip_def FindTrackForClip_def)
qed

lemma FindClip_Some:
  assumes "FindClip d i = Some c"
  obtains t where "FindTrackForClip d i = Some t" and "c \<in> set (trk_clips t)" and "clip_id c = i"
  using assms by (auto simp: FindClip_via_track split: option.splits dest: find_Some_D)

lemma FindClip_None_iff: "FindClip d i = None \<longleftrightarrow> FindTrackForClip d i = None"
  by (auto simp: FindClip_def FindTrackForClip_def find_None_iff_all has_clip_def list_ex_iff)

end
