(* ===== verification/Document_Validate.thy ===== *)
theory Document_Validate
  imports Document_Model "HOL-Library.List_Lexorder" "HOL-Library.Char_ord"
begin

text \<open>
  \<open>Document::Validate\<close>, \<open>src/Document.cc\<close>: the schema check every edit must pass.
  \<open>Inl\<close> carries the text the source stores in \<open>error\<close>.  The function is cut at its
  own paragraphs (header, colour management, bins, markers, library, sources, tracks,
  transitions, caption styles, multicam groups), threaded in the source's order with
  the set of registered identifiers.
\<close>

section \<open>Registration of identifiers\<close>

definition RegisterId :: "Ulid \<Rightarrow> string \<Rightarrow> Ulid set \<Rightarrow> string + Ulid set" where
  "RegisterId i ctx ids =
     (if \<not> IsValidUlid i then Inl (ctx @ '' has invalid ULID '' @ quoted i)
      else if i \<in> ids then Inl (''duplicate ID '' @ quoted i @ '' at '' @ ctx)
      else Inr (insert i ids))"

section \<open>Header and colour management\<close>

definition validate_header :: "Document \<Rightarrow> string + unit" where
  "validate_header d =
     (let s = doc_sequence d in
      if doc_version d \<noteq> 7 then Inl (''unsupported document version '' @ to_string (doc_version d))
      else if \<not> IsValidUlid (seq_id s) \<or> seq_name s = [] \<or> seq_width s \<le> 0 \<or> seq_height s \<le> 0 \<or>
              seq_width s > 16384 \<or> seq_height s > 16384 \<or>
              mr_num (seq_frame_rate s) \<le> 0 \<or> mr_den (seq_frame_rate s) \<le> 0
           then Inl ''sequence has an invalid ID, name, dimensions or frame rate''
      else Inr ())"

definition validate_color :: "ColorManagementSettings \<Rightarrow> string + unit" where
  "validate_color c =
     (if cm_input_gamut c \<notin> {''rec709'', ''sony_sgamut3_cine'', ''sony_sgamut3'', ''rec2020''} \<or>
         cm_input_transfer c \<notin> {''rec709'', ''sony_slog3'', ''linear''} \<or>
         cm_input_ycbcr_matrix c \<notin> {''auto'', ''bt709'', ''bt2020_ncl''} \<or>
         cm_input_range c \<notin> {''auto'', ''full'', ''limited''} \<or>
         cm_working_gamut c \<notin> {''acescct'', ''rec2020'', ''rec709''} \<or>
         cm_output_gamut c \<notin> {''rec709'', ''rec2020''} \<or>
         cm_output_transfer c \<notin> {''rec709'', ''hlg''}
      then Inl ''color_management contains an unsupported color space or transfer''
      else if cm_output_transfer c = ''hlg'' \<and> cm_output_gamut c \<noteq> ''rec2020''
      then Inl ''HLG output requires the rec2020 output gamut''
      else if cm_enabled c \<and>
         \<not> (cm_input_transfer c = ''sony_slog3'' \<and>
               cm_input_gamut c \<in> {''sony_sgamut3_cine'', ''sony_sgamut3''} \<or>
            cm_input_transfer c = ''rec709'' \<and> cm_input_gamut c \<in> {''rec709'', ''rec2020''} \<or>
            cm_input_transfer c = ''linear'' \<and> cm_input_gamut c \<in> {''rec709'', ''rec2020''})
      then Inl (''color_management input gamut/transfer combination is '' @
                ''not available in the embedded OpenColorIO config'')
      else Inr ())"

section \<open>Bins\<close>

definition register_bin :: "nat \<Rightarrow> DocumentBin \<Rightarrow> Ulid set \<times> Ulid set \<Rightarrow> string + Ulid set \<times> Ulid set" where
  "register_bin index bin = (\<lambda>(ids, binIds).
     let ctx = ''bin '' @ to_string (int index) in
     bindR (RegisterId (bin_id bin) ctx ids) (\<lambda>ids'.
       if bin_name bin = [] then Inl (ctx @ '' has an empty name'')
       else Inr (ids', insert (bin_id bin) binIds)))"

text \<open>
  The ancestor walk: \<open>True\<close> when an identifier is met twice.  The set of ancestors
  grows inside the finite set of bins, so the walk ends on any document.
\<close>

function climbs_into_cycle :: "Document \<Rightarrow> Ulid set \<Rightarrow> DocumentBin \<Rightarrow> bool" where
  "climbs_into_cycle d ancestors cursor =
     (if bin_parent_id cursor = [] then False
      else if bin_id cursor \<in> ancestors then True
      else case FindBin d (bin_parent_id cursor) of
             None \<Rightarrow> False
           | Some parent \<Rightarrow> climbs_into_cycle d (insert (bin_id cursor) ancestors) parent)"
  by pat_completeness auto
termination
proof (relation "measures [\<lambda>(d, anc, c). card (bin_id ` set (doc_bins d) - anc),
                           \<lambda>(d, anc, c). if bin_id c \<in> bin_id ` set (doc_bins d) then 0 else 1]",
    goal_cases)
  case 1
  then show ?case by simp
next
  case (2 d anc c p)
  let ?B = "bin_id ` set (doc_bins d)"
  from 2(3) have p: "bin_id p \<in> ?B" by (auto simp: FindBin_def dest: find_Some_D)
  show ?case
  proof (cases "bin_id c \<in> ?B")
    case True
    with 2(2) have "?B - insert (bin_id c) anc \<subset> ?B - anc" by blast
    then have "card (?B - insert (bin_id c) anc) < card (?B - anc)"
      by (intro psubset_card_mono) auto
    then show ?thesis by simp
  next
    case False
    then have "?B - insert (bin_id c) anc = ?B - anc" by blast
    with False p show ?thesis by simp
  qed
qed

declare climbs_into_cycle.simps [simp del]

definition check_bin_parent :: "Document \<Rightarrow> Ulid set \<Rightarrow> nat \<Rightarrow> DocumentBin \<Rightarrow> unit \<Rightarrow> string + unit" where
  "check_bin_parent d binIds index bin u =
     (if bin_parent_id bin \<noteq> [] \<and> bin_parent_id bin \<notin> binIds
      then Inl (''bin '' @ to_string (int index) @ '' references unknown parent_id '' @
                quoted (bin_parent_id bin))
      else if climbs_into_cycle d {} bin
      then Inl (''bin hierarchy contains a cycle at '' @ quoted (bin_id bin))
      else Inr ())"

section \<open>Markers\<close>

text \<open>\<open>validMarkerText\<close> and \<open>validCaptionStyleText\<close> are the same lambda.\<close>

definition validMarkerText :: "string \<Rightarrow> nat \<Rightarrow> bool" where
  "validMarkerText v maximum =
     (if v = [] \<or> length v > maximum then False
      else \<not> list_ex (\<lambda>c. (of_char c :: nat) < 32 \<or> (of_char c :: nat) = 127) v)"

definition validate_marker :: "nat \<Rightarrow> DocumentMarker \<Rightarrow> Ulid set \<Rightarrow> string + Ulid set" where
  "validate_marker index m ids =
     (let ctx = ''marker '' @ to_string (int index) in
      bindR (RegisterId (mk_id m) ctx ids) (\<lambda>ids'.
        if \<not> validMarkerText (mk_name m) 4096 \<or> \<not> validMarkerText (mk_color m) 64 \<or>
           \<not> validMarkerText (mk_category m) 128
        then Inl (ctx @ '' has an invalid name, color or category'')
        else if rt_rate (mk_time m) \<le> 0 \<or> rt_value (mk_time m) < 0
        then Inl (ctx @ '' has an invalid time'')
        else Inr ids'))"

section \<open>Library and sources\<close>

definition kAudioLevelScale :: int where "kAudioLevelScale = 1000000"

definition validate_media :: "Ulid set \<Rightarrow> nat \<Rightarrow> LibraryMedia \<Rightarrow> Ulid set \<Rightarrow> string + Ulid set" where
  "validate_media binIds index m libraryIds =
     (let ctx = ''library media '' @ to_string (int index) in
      if \<not> IsValidUlid (med_id m) then Inl (ctx @ '' has invalid ULID '' @ quoted (med_id m))
      else if med_id m \<in> libraryIds then Inl (''duplicate library ID '' @ quoted (med_id m))
      else if med_path m = [] \<or> med_filename m = [] then Inl (ctx @ '' has an empty path or filename'')
      else if med_bin_id m \<noteq> [] \<and> med_bin_id m \<notin> binIds
      then Inl (ctx @ '' references unknown bin_id '' @ quoted (med_bin_id m))
      else if mr_num (med_rate m) \<le> 0 \<or> mr_den (med_rate m) \<le> 0 \<or>
              rt_rate (med_duration m) \<le> 0 \<or> rt_value (med_duration m) \<le> 0
      then Inl (ctx @ '' has an invalid rate or duration'')
      else if med_metadata_complete m \<and> (med_codec m = [] \<or> (\<not> med_has_video m \<and> \<not> med_has_audio m))
      then Inl (ctx @ '' has no usable audio or video stream'')
      else if med_metadata_complete m \<and> med_has_video m \<and>
              (med_width m \<le> 0 \<or> med_height m \<le> 0 \<or> med_rotation_degrees m < - 180 \<or>
               med_rotation_degrees m > 180 \<or>
               med_orientation m \<notin> {''landscape'', ''portrait'', ''square''})
      then Inl (ctx @ '' has invalid video metadata'')
      else if med_metadata_complete m \<and> \<not> med_has_video m \<and>
              (med_width m \<noteq> 0 \<or> med_height m \<noteq> 0 \<or> med_rotation_degrees m \<noteq> 0 \<or>
               med_orientation m \<noteq> ''audio'')
      then Inl (ctx @ '' has picture metadata without video'')
      else if med_metadata_complete m \<and> med_has_audio m \<and>
              (med_audio_rate m \<le> 0 \<or> med_audio_channels m \<le> 0)
      then Inl (ctx @ '' has invalid audio metadata'')
      else if med_metadata_complete m \<and> med_audio_level_measured m \<and>
              (\<not> med_has_audio m \<or> med_audio_level m < 0 \<or> med_audio_level m > kAudioLevelScale)
      then Inl (ctx @ '' has an out-of-range audio level'')
      else Inr (insert (med_id m) libraryIds))"

definition validate_source :: "nat \<Rightarrow> DocumentSource \<Rightarrow> Ulid set \<times> Ulid set \<Rightarrow> string + Ulid set \<times> Ulid set" where
  "validate_source index s = (\<lambda>(ids, sourceIds).
     let ctx = ''source '' @ to_string (int index);
         named = ctx @ '' ('' @ quoted (src_id s) @ '')'' in
     bindR (RegisterId (src_id s) ctx ids) (\<lambda>ids'.
       if src_path s = [] then Inl (named @ '' has an empty path'')
       else if mr_num (src_rate s) \<le> 0 \<or> mr_den (src_rate s) \<le> 0
       then Inl (named @ '' has a zero or negative media rate'')
       else if rt_rate (src_duration s) \<le> 0
       then Inl (named @ '' has a zero or negative duration rate'')
       else if rt_value (src_duration s) \<le> 0
       then Inl (named @ '' has a zero or negative duration'')
       else Inr (ids', insert (src_id s) sourceIds)))"

definition check_library_collision :: "Ulid set \<Rightarrow> Ulid \<Rightarrow> Ulid set \<Rightarrow> string + Ulid set" where
  "check_library_collision sourceIds libraryId ids =
     (if libraryId \<in> sourceIds then Inr ids
      else if libraryId \<in> ids
      then Inl (''library ID '' @ quoted libraryId @ '' collides with another document object'')
      else Inr (insert libraryId ids))"


section \<open>Clips and tracks\<close>

text \<open>
  \<open>try_catch h r\<close>: \<open>r\<close> throws (outer \<open>Inl\<close>, turned into an error by \<open>h\<close>), or runs
  to the end and itself reports an error or a result.
\<close>

definition try_catch :: "(string \<Rightarrow> string) \<Rightarrow> string + (string + 'a) \<Rightarrow> string + 'a" where
  "try_catch h r = (case r of Inl e \<Rightarrow> Inl (h e) | Inr x \<Rightarrow> x)"

text \<open>
  The guards on the fields of one clip, up to the ones that need arithmetic; \<open>named\<close>
  is the prefix \<open>context ('id')\<close>.
\<close>

definition check_clip_fields ::
  "Document \<Rightarrow> Ulid set \<Rightarrow> DocumentTrack \<Rightarrow> string \<Rightarrow> DocumentClip \<Rightarrow> string + unit" where
  "check_clip_fields d sourceIds track ctx c =
     (let named = ctx @ '' ('' @ quoted (clip_id c) @ '')'';
          captionClip = (trk_kind track = ''caption'');
          media = (if captionClip then None else FindLibraryMedia d (clip_source_id c)) in
      if clip_link_group_id c \<noteq> [] \<and> \<not> IsValidUlid (clip_link_group_id c)
      then Inl (named @ '' has invalid link_group_id '' @ quoted (clip_link_group_id c))
      else if clip_sync_anchor_clip_id c \<noteq> [] \<and>
              (\<not> IsValidUlid (clip_sync_anchor_clip_id c) \<or>
               rt_rate (clip_sync_reference_delta c) \<le> 0)
      then Inl (named @ '' has invalid synchronization reference'')
      else if clip_link_group_id c = [] \<and> clip_sync_anchor_clip_id c \<noteq> []
      then Inl (named @ '' has an incomplete link synchronization state'')
      else if captionClip \<and> clip_source_id c \<noteq> []
      then Inl (named @ '' caption clip must not reference media'')
      else if \<not> captionClip \<and> clip_source_id c \<notin> sourceIds
      then Inl (named @ '' references unknown source_id '' @ quoted (clip_source_id c))
      else if rt_rate (clip_source_in c) \<le> 0 \<or> rt_rate (clip_duration c) \<le> 0 \<or>
              rt_rate (clip_timeline_in c) \<le> 0
      then Inl (named @ '' has a zero or negative time rate'')
      else if rt_value (clip_duration c) \<le> 0
      then Inl (named @ '' has a zero or negative duration'')
      else if rt_value (clip_source_in c) < 0
      then Inl (named @ '' has source_in before source start'')
      else if rt_value (clip_timeline_in c) < 0
      then Inl (named @ '' has timeline_in before zero'')
      else if ep_den (clip_opacity c) \<le> 0 \<or> ep_num (clip_opacity c) < 0 \<or>
              ep_num (clip_opacity c) > ep_den (clip_opacity c)
      then Inl (named @ '' has opacity outside the exact [0, 1] range'')
      else if ep_den (clip_audio_gain_db c) \<le> 0 \<or>
              ep_num (clip_audio_gain_db c) < - 120 * ep_den (clip_audio_gain_db c) \<or>
              ep_num (clip_audio_gain_db c) > 48 * ep_den (clip_audio_gain_db c)
      then Inl (named @ '' has gain outside the exact [-120, 48] dB range'')
      else if rt_rate (clip_audio_fade_in c) \<le> 0 \<or> rt_rate (clip_audio_fade_out c) \<le> 0 \<or>
              rt_value (clip_audio_fade_in c) < 0 \<or> rt_value (clip_audio_fade_out c) < 0 \<or>
              rt_gt (clip_audio_fade_in c) (clip_duration c) = Inr True \<or>
              rt_gt (clip_audio_fade_out c) (clip_duration c) = Inr True
      then Inl (named @ '' has an invalid audio fade duration'')
      else if (ep_num (clip_audio_gain_db c) \<noteq> 0 \<or> ep_den (clip_audio_gain_db c) \<noteq> 1 \<or>
               rt_value (clip_audio_fade_in c) \<noteq> 0 \<or> rt_value (clip_audio_fade_out c) \<noteq> 0) \<and>
              trk_kind track \<noteq> ''audio''
      then Inl (named @ '' has audio processing on a non-audio track'')
      else (case media of
              None \<Rightarrow> Inr ()
            | Some m \<Rightarrow>
                if med_metadata_complete m \<and> trk_kind track = ''video'' \<and> \<not> med_has_video m
                then Inl (named @ '' uses audio-only media on a video track'')
                else Inr ()))"

text \<open>
  The arithmetic of one clip: its source range, then order and overlap against the
  previous clip of the track.  The \<open>None\<close> branch of the source lookup is the null
  dereference that the membership test of \<open>check_clip_fields\<close> excludes.
\<close>

definition check_clip_times ::
  "Document \<Rightarrow> DocumentTrack \<Rightarrow> string \<Rightarrow> string \<Rightarrow> DocumentClip option \<Rightarrow> DocumentClip \<Rightarrow>
   string + unit" where
  "check_clip_times d track trackContext ctx previous c =
     (let named = ctx @ '' ('' @ quoted (clip_id c) @ '')'' in
      try_catch (\<lambda>what. ctx @ '' has invalid rational time arithmetic: '' @ what)
       (bindR
         (if trk_kind track = ''caption'' then Inr False
          else bindR (rt_add (clip_source_in c) (clip_duration c)) (\<lambda>source_end.
               case FindSource d (clip_source_id c) of
                 None \<Rightarrow> Inl ''null source''
               | Some s \<Rightarrow> rt_gt source_end (src_duration s)))
         (\<lambda>outside.
           if outside then Inr (Inl (named @ '' has source_in + duration outside source bounds''))
           else case previous of
             None \<Rightarrow> Inr (Inr ())
           | Some p \<Rightarrow>
               bindR (rt_lt (clip_timeline_in c) (clip_timeline_in p)) (\<lambda>unsorted.
                 if unsorted
                 then Inr (Inl (trackContext @ '' clips are not sorted by timeline_in at '' @
                                quoted (clip_id c)))
                 else bindR (rt_add (clip_timeline_in p) (clip_duration p)) (\<lambda>previous_end.
                      bindR (rt_lt (clip_timeline_in c) previous_end) (\<lambda>overlap.
                        if overlap
                        then Inr (Inl (trackContext @ '' clips overlap at '' @ quoted (clip_id c)))
                        else Inr (Inr ())))))))"

definition check_param :: "string \<Rightarrow> string \<times> EffectParamValue \<Rightarrow> unit \<Rightarrow> string + unit" where
  "check_param named p u =
     (if fst p = [] \<or> length (fst p) > 64
      then Inl (named @ '' has an invalid parameter name'')
      else if ep_den (snd p) \<le> 0
      then Inl (named @ '' parameter '' @ quoted (fst p) @ '' has a non-positive denominator'')
      else Inr ())"

definition check_effect ::
  "DocumentTrack \<Rightarrow> string \<Rightarrow> nat \<Rightarrow> ClipEffect \<Rightarrow> Ulid set \<Rightarrow> string + Ulid set" where
  "check_effect track ctx effectIndex e ids =
     (let effectContext = ctx @ '' effect '' @ to_string (int effectIndex);
          named = effectContext @ '' ('' @ quoted (fx_id e) @ '')'' in
      bindR (RegisterId (fx_id e) effectContext ids) (\<lambda>ids'.
        if trk_kind track \<noteq> ''video'' then Inl (named @ '' is on a non-video track'')
        else if take 6 (fx_type e) \<noteq> ''color.'' \<or> length (fx_type e) \<le> 6 \<or> length (fx_type e) > 128
        then Inl (named @ '' has an unsupported effect type '' @ quoted (fx_type e))
        else bindR (loopR (check_param named) (fx_params e) ()) (\<lambda>_. Inr ids')))"

definition check_caption_group :: "Document \<Rightarrow> string \<Rightarrow> DocumentClip \<Rightarrow> string + unit" where
  "check_caption_group d ctx c =
     (let named = ctx @ '' ('' @ quoted (clip_id c) @ '')'' in
      if clip_caption_group_id c = [] then Inr ()
      else if \<not> IsValidUlid (clip_caption_group_id c)
      then Inl (named @ '' has invalid caption_group_id '' @ quoted (clip_caption_group_id c))
      else if FindCaptionStyle d (clip_caption_group_id c) = None
      then Inl (named @ '' references unknown caption_group_id '' @ quoted (clip_caption_group_id c))
      else Inr ())"

text \<open>One turn of the clip loop; the state is the registered identifiers and \<open>previous\<close>.\<close>

definition validate_clip ::
  "Document \<Rightarrow> Ulid set \<Rightarrow> DocumentTrack \<Rightarrow> string \<Rightarrow> nat \<Rightarrow> DocumentClip \<Rightarrow>
   Ulid set \<times> DocumentClip option \<Rightarrow> string + Ulid set \<times> DocumentClip option" where
  "validate_clip d sourceIds track trackContext clipIndex c = (\<lambda>(ids, previous).
     let ctx = trackContext @ '' clip '' @ to_string (int clipIndex);
         named = ctx @ '' ('' @ quoted (clip_id c) @ '')'' in
     bindR (RegisterId (clip_id c) ctx ids) (\<lambda>ids1.
     bindR (check_clip_fields d sourceIds track ctx c) (\<lambda>_.
     bindR (check_clip_times d track trackContext ctx previous c) (\<lambda>_.
       if trk_kind track = ''caption'' \<and> clip_caption_text c = []
       then Inl (named @ '' caption text must not be empty'')
       else bindR (iterR (check_effect track ctx) 0 (clip_effects c) ids1) (\<lambda>ids2.
            bindR (check_caption_group d ctx c) (\<lambda>_. Inr (ids2, Some c)))))))"

definition validate_track ::
  "Document \<Rightarrow> Ulid set \<Rightarrow> nat \<Rightarrow> DocumentTrack \<Rightarrow> Ulid set \<times> int set \<Rightarrow>
   string + Ulid set \<times> int set" where
  "validate_track d sourceIds trackIndex track = (\<lambda>(ids, trackIndices).
     let trackContext = ''track '' @ to_string (int trackIndex) in
     bindR (RegisterId (trk_id track) trackContext ids) (\<lambda>ids1.
       if trk_index track \<in> trackIndices
       then Inl (''duplicate track index '' @ to_string (trk_index track))
       else bindR (iterR (validate_clip d sourceIds track trackContext) 0 (trk_clips track) (ids1, None))
              (\<lambda>(ids2, _). Inr (ids2, insert (trk_index track) trackIndices))))"

section \<open>Transitions\<close>

text \<open>The last index that holds the identifier, or the size of the vector.\<close>

fun last_index :: "Ulid \<Rightarrow> nat \<Rightarrow> DocumentClip list \<Rightarrow> nat \<Rightarrow> nat" where
  "last_index i k [] r = r"
| "last_index i k (c # cs) r = last_index i (Suc k) cs (if clip_id c = i then k else r)"

text \<open>Frames of a transition before and after its cut.\<close>

definition transition_frames :: "TransitionAlignment \<Rightarrow> int \<Rightarrow> int \<times> int" where
  "transition_frames a frames =
     (case a of
        Center \<Rightarrow> (trunc_div frames 2, frames - trunc_div frames 2)
      | StartAtCut \<Rightarrow> (0, frames)
      | EndAtCut \<Rightarrow> (frames, 0))"

definition check_transition_times ::
  "Document \<Rightarrow> string \<Rightarrow> DocumentTransition \<Rightarrow> DocumentClip \<Rightarrow> DocumentClip \<Rightarrow> string + unit" where
  "check_transition_times d ctx tr left right =
     (let rate = seq_frame_rate (doc_sequence d) in
      try_catch (\<lambda>what. ctx @ '' has invalid rational time arithmetic: '' @ what)
      (bindR (rt_add (clip_timeline_in left) (clip_duration left)) (\<lambda>cut.
       bindR (rt_ne cut (clip_timeline_in right)) (\<lambda>apart.
       if apart then Inr (Inl (ctx @ '' clips do not share a cut''))
       else bindR (rt_to_frames (trn_duration tr) (mr_num rate) (mr_den rate)) (\<lambda>frames.
       bindR (if frames \<le> 0 then Inr True
              else rt_ne (RT (wrap64 (frames * mr_den rate)) (mr_num rate)) (trn_duration tr))
       (\<lambda>inexact.
       if inexact then Inr (Inl (ctx @ '' duration must contain whole sequence frames''))
       else (case transition_frames (trn_alignment tr) frames of (preFrames, postFrames) \<Rightarrow>
         let pre = RT (wrap64 (preFrames * mr_den rate)) (mr_num rate);
             post = RT (wrap64 (postFrames * mr_den rate)) (mr_num rate) in
         case FindSource d (clip_source_id left) of
           None \<Rightarrow> Inl ''null source''
         | Some leftSource \<Rightarrow>
             bindR (rt_add (clip_source_in left) (clip_duration left)) (\<lambda>leftOut.
             bindR (rt_add leftOut post) (\<lambda>leftEnd.
             bindR (rt_gt leftEnd (src_duration leftSource)) (\<lambda>beyond.
             bindR (if beyond then Inr True else rt_lt (clip_source_in right) pre) (\<lambda>exceeds.
             if exceeds then Inr (Inl (ctx @ '' exceeds available media handles''))
             else Inr (Inr ()))))))))))))"

text \<open>
  When the left clip is the last of its track and the right one is absent, both guards
  of the source pass and \<open>track->clips[rightIndex]\<close> reads past the end of the vector,
  which is undefined behaviour.  The model stops there with a distinguished value, so
  that a document is never counted as valid on the strength of such a read.
\<close>

definition out_of_range_read :: string where
  "out_of_range_read = ''undefined behaviour: clips[rightIndex] past the end''"

definition validate_transition ::
  "Document \<Rightarrow> nat \<Rightarrow> DocumentTransition \<Rightarrow> Ulid set \<Rightarrow> string + Ulid set" where
  "validate_transition d index tr ids =
     (let ctx = ''transition '' @ to_string (int index) in
      bindR (RegisterId (trn_id tr) ctx ids) (\<lambda>ids'.
        case FindTrack d (trn_track_id tr) of
          None \<Rightarrow> Inl (ctx @ '' must reference a video track'')
        | Some track \<Rightarrow>
            if trk_kind track \<noteq> ''video'' then Inl (ctx @ '' must reference a video track'')
            else if trn_type tr \<noteq> ''cross_dissolve'' \<or> rt_rate (trn_duration tr) \<le> 0 \<or>
                    rt_value (trn_duration tr) \<le> 0
            then Inl (ctx @ '' has an unsupported type or invalid duration'')
            else let clips = trk_clips track; size = length clips;
                     leftIndex = last_index (trn_left_clip_id tr) 0 clips size;
                     rightIndex = last_index (trn_right_clip_id tr) 0 clips size in
                 if leftIndex = size \<or> rightIndex \<noteq> leftIndex + 1
                 then Inl (ctx @ '' must reference adjacent clips in edit order'')
                 else if rightIndex \<ge> size then Inl out_of_range_read
                 else bindR (check_transition_times d ctx tr (clips ! leftIndex) (clips ! rightIndex))
                        (\<lambda>_. Inr ids')))"

section \<open>Caption styles and multicam groups\<close>

definition validate_caption_style :: "nat \<Rightarrow> CaptionStyle \<Rightarrow> Ulid set \<Rightarrow> string + Ulid set" where
  "validate_caption_style index st ids =
     (let ctx = ''caption style '' @ to_string (int index) in
      bindR (RegisterId (cs_id st) ctx ids) (\<lambda>ids'.
        if \<not> validMarkerText (cs_font_family st) 128 \<or> cs_font_size st \<le> 0 \<or>
           \<not> validMarkerText (cs_color st) 64 \<or> \<not> validMarkerText (cs_position st) 64
        then Inl (ctx @ '' has an invalid font_family, font_size, color or position'')
        else Inr ids'))"

definition validate_angle ::
  "Document \<Rightarrow> string \<Rightarrow> nat \<Rightarrow> MulticamAngle \<Rightarrow> Ulid set \<times> Ulid set \<times> Ulid set \<Rightarrow>
   string + Ulid set \<times> Ulid set \<times> Ulid set" where
  "validate_angle d groupContext angleIndex a = (\<lambda>(ids, angleIds, angleClipIds).
     let ctx = groupContext @ '' angle '' @ to_string (int angleIndex);
         named = ctx @ '' ('' @ quoted (ang_id a) @ '')'' in
     bindR (RegisterId (ang_id a) ctx ids) (\<lambda>ids'.
       if ang_clip_id a \<in> angleClipIds
       then Inl (named @ '' references a clip_id already used by another angle in this group'')
       else (case FindTrackForClip d (ang_clip_id a) of
               None \<Rightarrow> Inl (named @ '' must reference a clip on a video track'')
             | Some t \<Rightarrow>
                 if trk_kind t \<noteq> ''video''
                 then Inl (named @ '' must reference a clip on a video track'')
                 else Inr (ids', insert (ang_id a) angleIds, insert (ang_clip_id a) angleClipIds))))"

definition validate_multicam ::
  "Document \<Rightarrow> nat \<Rightarrow> MulticamGroup \<Rightarrow> Ulid set \<Rightarrow> string + Ulid set" where
  "validate_multicam d groupIndex g ids =
     (let groupContext = ''multicam group '' @ to_string (int groupIndex) in
      bindR (RegisterId (mg_id g) groupContext ids) (\<lambda>ids1.
        if mg_name g = [] then Inl (groupContext @ '' has an empty name'')
        else bindR (iterR (validate_angle d groupContext) 0 (mg_angles g) (ids1, {}, {}))
          (\<lambda>(ids2, angleIds, _).
            if mg_active_angle_id g \<noteq> [] \<and> mg_active_angle_id g \<notin> angleIds
            then Inl (groupContext @ '' active_angle_id '' @ quoted (mg_active_angle_id g) @
                      '' does not reference one of its own angles'')
            else Inr ids2)))"

section \<open>Validate\<close>

definition Validate :: "Document \<Rightarrow> string + unit" where
  "Validate d =
     (let s = doc_sequence d in
      bindR (validate_header d) (\<lambda>_.
      bindR (validate_color (doc_color_management d)) (\<lambda>_.
      bindR (RegisterId (seq_id s) ''sequence'' {}) (\<lambda>ids0.
      bindR (iterR register_bin 0 (doc_bins d) (ids0, {})) (\<lambda>(ids1, binIds).
      bindR (iterR (check_bin_parent d binIds) 0 (doc_bins d) ()) (\<lambda>_.
      bindR (iterR validate_marker 0 (seq_markers s) ids1) (\<lambda>ids2.
      bindR (iterR (validate_media binIds) 0 (doc_library d) {}) (\<lambda>_.
      bindR (iterR validate_source 0 (doc_sources d) (ids2, {})) (\<lambda>(ids3, sourceIds).
      bindR (loopR (check_library_collision sourceIds) (sort (map med_id (doc_library d))) ids3) (\<lambda>ids4.
      bindR (iterR (validate_track d sourceIds) 0 (seq_tracks s) (ids4, {})) (\<lambda>(ids5, _).
      bindR (iterR (validate_transition d) 0 (seq_transitions s) ids5) (\<lambda>ids6.
      bindR (iterR validate_caption_style 0 (seq_caption_styles s) ids6) (\<lambda>ids7.
      bindR (iterR (validate_multicam d) 0 (seq_multicam_groups s) ids7) (\<lambda>_.
        Inr ()))))))))))))))"

abbreviation valid :: "Document \<Rightarrow> bool" where
  "valid d \<equiv> Validate d = Inr ()"

end
