(* ===== verification/Document_Invariant.thy ===== *)
theory Document_Invariant
  imports Document_Validate
begin

text \<open>
  What a successful \<open>Validate\<close> guarantees: one space of distinct, well-formed
  identifiers, and on every track clips in timeline order that do not overlap, inside
  their sources.  The operation theories rest on these facts.
\<close>

section \<open>The identifier space\<close>

definition clip_ids_of :: "DocumentClip \<Rightarrow> Ulid list" where
  "clip_ids_of c = clip_id c # map fx_id (clip_effects c)"

definition track_ids_of :: "DocumentTrack \<Rightarrow> Ulid list" where
  "track_ids_of t = trk_id t # concat (map clip_ids_of (trk_clips t))"

definition group_ids_of :: "MulticamGroup \<Rightarrow> Ulid list" where
  "group_ids_of g = mg_id g # map ang_id (mg_angles g)"

text \<open>Every registered identifier, in the order in which \<open>Validate\<close> registers them.\<close>

definition document_ids :: "Document \<Rightarrow> Ulid list" where
  "document_ids d =
     (let s = doc_sequence d in
      [seq_id s] @ map bin_id (doc_bins d) @ map mk_id (seq_markers s) @
      map src_id (doc_sources d) @
      filter (\<lambda>i. i \<notin> src_id ` set (doc_sources d)) (sort (map med_id (doc_library d))) @
      concat (map track_ids_of (seq_tracks s)) @ map trn_id (seq_transitions s) @
      map cs_id (seq_caption_styles s) @ concat (map group_ids_of (seq_multicam_groups s)))"

definition registers :: "Ulid list \<Rightarrow> Ulid set \<Rightarrow> Ulid set \<Rightarrow> bool" where
  "registers L a b \<longleftrightarrow> b = a \<union> set L \<and> distinct L \<and> set L \<inter> a = {} \<and> list_all IsValidUlid L"

lemma registers_Nil [simp]: "registers [] a b \<longleftrightarrow> b = a"
  by (auto simp: registers_def)

lemma registers_append: "registers L a b \<Longrightarrow> registers M b c \<Longrightarrow> registers (L @ M) a c"
  by (auto simp: registers_def)

lemma registers_Cons: "registers [x] a b \<Longrightarrow> registers M b c \<Longrightarrow> registers (x # M) a c"
  using registers_append [of "[x]" a b M c] by simp

lemma RegisterId_registers: "RegisterId i ctx a = Inr b \<Longrightarrow> registers [i] a b"
  by (auto simp: RegisterId_def registers_def split: if_splits)

lemma iterR_registers:
  assumes "iterR f i xs s = Inr s'"
    and "\<And>j x a b. x \<in> set xs \<Longrightarrow> f j x a = Inr b \<Longrightarrow> registers (g x) (p a) (p b)"
  shows "registers (concat (map g xs)) (p s) (p s')"
  using assms
proof (induction xs arbitrary: i s)
  case Nil
  then show ?case by simp
next
  case (Cons x xs)
  from Cons.prems(1) obtain m where m: "f i x s = Inr m" and r: "iterR f (Suc i) xs m = Inr s'"
    by auto
  have "registers (g x) (p s) (p m)" using Cons.prems(2) m by simp
  moreover have "registers (concat (map g xs)) (p m) (p s')"
    using Cons.IH [OF r] Cons.prems(2) by simp
  ultimately show ?case by (simp add: registers_append)
qed

lemma iterR_registers_one:
  assumes "iterR f i xs s = Inr s'"
    and "\<And>j x a b. f j x a = Inr b \<Longrightarrow> registers [g x] (p a) (p b)"
  shows "registers (map g xs) (p s) (p s')"
  using iterR_registers [of f i xs s s' "\<lambda>x. [g x]" p] assms by (simp add: concat_map_singleton)

lemma check_effect_registers:
  "check_effect track ctx j e a = Inr b \<Longrightarrow> registers [fx_id e] a b"
  by (auto simp: check_effect_def Let_def dest: RegisterId_registers split: if_splits)

lemma validate_clip_registers:
  assumes "validate_clip d srcs track tc j c a = Inr b"
  shows "registers (clip_ids_of c) (fst a) (fst b)"
proof -
  obtain ids prev where a: "a = (ids, prev)" by (cases a)
  from assms obtain ids1 ids2 ctx where r1: "RegisterId (clip_id c) ctx ids = Inr ids1"
    and r2: "iterR (check_effect track ctx) 0 (clip_effects c) ids1 = Inr ids2"
    and b: "b = (ids2, Some c)"
    unfolding a by (auto simp: validate_clip_def Let_def split: if_splits)
  have "registers (map fx_id (clip_effects c)) ids1 ids2"
    using iterR_registers_one [OF r2, where p = id and g = fx_id] check_effect_registers by simp
  with RegisterId_registers [OF r1] show ?thesis
    by (simp add: a b clip_ids_of_def registers_Cons)
qed

lemma validate_track_registers:
  assumes "validate_track d srcs j t a = Inr b"
  shows "registers (track_ids_of t) (fst a) (fst b)"
proof -
  obtain ids ixs where a: "a = (ids, ixs)" by (cases a)
  from assms obtain ids1 s tc where r1: "RegisterId (trk_id t) tc ids = Inr ids1"
    and r2: "iterR (validate_clip d srcs t tc) 0 (trk_clips t) (ids1, None) = Inr s"
    and b: "fst b = fst s"
    unfolding a by (auto simp: validate_track_def Let_def split: if_splits)
  have "registers (concat (map clip_ids_of (trk_clips t))) ids1 (fst s)"
    using iterR_registers [OF r2, where p = fst and g = clip_ids_of] validate_clip_registers
    by simp
  with RegisterId_registers [OF r1] show ?thesis
    by (simp add: a b track_ids_of_def registers_Cons)
qed

lemma validate_multicam_registers:
  assumes "validate_multicam d j g a = Inr b"
  shows "registers (group_ids_of g) a b"
proof -
  from assms obtain ids1 s gc where r1: "RegisterId (mg_id g) gc a = Inr ids1"
    and r2: "iterR (validate_angle d gc) 0 (mg_angles g) (ids1, {}, {}) = Inr s"
    and b: "b = fst s"
    by (auto simp: validate_multicam_def Let_def split: if_splits)
  have "registers [ang_id x] (fst m) (fst n)" if "validate_angle d gc k x m = Inr n" for k x m n
    using that by (cases m) (auto simp: validate_angle_def Let_def dest!: RegisterId_registers
        split: if_splits option.splits)
  then have "registers (map ang_id (mg_angles g)) ids1 (fst s)"
    using iterR_registers_one [OF r2, where p = fst and g = ang_id] by simp
  with RegisterId_registers [OF r1] show ?thesis
    by (simp add: b group_ids_of_def registers_Cons)
qed

lemma library_collision_registers:
  "loopR (check_library_collision srcs) xs a = Inr b \<Longrightarrow>
   (\<forall>x\<in>set xs. IsValidUlid x) \<Longrightarrow> registers (filter (\<lambda>i. i \<notin> srcs) xs) a b"
proof (induction xs arbitrary: a)
  case Nil
  then show ?case by simp
next
  case (Cons x xs)
  then show ?case
    by (auto simp: check_library_collision_def registers_def split: if_splits)
qed

lemma validate_source_registers:
  "validate_source j x a = Inr b \<Longrightarrow>
   registers [src_id x] (fst a) (fst b) \<and> snd b = insert (src_id x) (snd a)"
  by (cases a) (auto simp: validate_source_def Let_def split: if_splits, erule RegisterId_registers)

lemma register_bin_registers:
  "register_bin j x a = Inr b \<Longrightarrow> registers [bin_id x] (fst a) (fst b)"
  by (cases a) (auto simp: register_bin_def Let_def split: if_splits, erule RegisterId_registers)

lemma validate_marker_registers: "validate_marker j x a = Inr b \<Longrightarrow> registers [mk_id x] a b"
  by (auto simp: validate_marker_def Let_def split: if_splits, erule RegisterId_registers)

lemma validate_transition_registers:
  "validate_transition d j x a = Inr b \<Longrightarrow> registers [trn_id x] a b"
  by (auto simp: validate_transition_def Let_def split: if_splits option.splits,
      erule RegisterId_registers)

lemma validate_caption_style_registers:
  "validate_caption_style j x a = Inr b \<Longrightarrow> registers [cs_id x] a b"
  by (auto simp: validate_caption_style_def Let_def split: if_splits, erule RegisterId_registers)

lemma iterR_sources_snd:
  "iterR validate_source i xs s = Inr s' \<Longrightarrow> snd s' = snd s \<union> src_id ` set xs"
  by (induction xs arbitrary: i s) (auto dest!: validate_source_registers)

lemma validate_media_ok:
  "validate_media bins j m a = Inr b \<Longrightarrow>
   b = insert (med_id m) a \<and> med_id m \<notin> a \<and> IsValidUlid (med_id m)"
  by (auto simp: validate_media_def Let_def split: if_splits)

lemma iterR_media_valid:
  "iterR (validate_media bins) i xs a = Inr b \<Longrightarrow>
   (\<forall>m\<in>set xs. IsValidUlid (med_id m)) \<and> distinct (map med_id xs) \<and> med_id ` set xs \<inter> a = {}"
  by (induction xs arbitrary: i a) (auto dest!: validate_media_ok)

text \<open>The stages of a successful run, with the identifier sets between them.\<close>

lemma Validate_stages:
  assumes "valid d"
  obtains ids0 ids1 binIds ids2 lib ids3 sourceIds ids4 ids5 ixs ids6 ids7 ids8 where
    "validate_header d = Inr ()" "validate_color (doc_color_management d) = Inr ()"
    "RegisterId (seq_id (doc_sequence d)) ''sequence'' {} = Inr ids0"
    "iterR register_bin 0 (doc_bins d) (ids0, {}) = Inr (ids1, binIds)"
    "iterR (check_bin_parent d binIds) 0 (doc_bins d) () = Inr ()"
    "iterR validate_marker 0 (seq_markers (doc_sequence d)) ids1 = Inr ids2"
    "iterR (validate_media binIds) 0 (doc_library d) {} = Inr lib"
    "iterR validate_source 0 (doc_sources d) (ids2, {}) = Inr (ids3, sourceIds)"
    "loopR (check_library_collision sourceIds) (sort (map med_id (doc_library d))) ids3 = Inr ids4"
    "iterR (validate_track d sourceIds) 0 (doc_tracks d) (ids4, {}) = Inr (ids5, ixs)"
    "iterR (validate_transition d) 0 (seq_transitions (doc_sequence d)) ids5 = Inr ids6"
    "iterR validate_caption_style 0 (seq_caption_styles (doc_sequence d)) ids6 = Inr ids7"
    "iterR (validate_multicam d) 0 (seq_multicam_groups (doc_sequence d)) ids7 = Inr ids8"
  using assms unfolding Validate_def Let_def
  by (clarsimp elim!: bindR_InrE split: prod.splits)


theorem valid_registers:
  assumes "valid d"
  shows "distinct (document_ids d)" and "list_all IsValidUlid (document_ids d)"
proof -
  let ?s = "doc_sequence d"
  from assms obtain ids0 ids1 binIds ids2 lib ids3 sourceIds ids4 ids5 ixs ids6 ids7 ids8 where st:
    "RegisterId (seq_id ?s) ''sequence'' {} = Inr ids0"
    "iterR register_bin 0 (doc_bins d) (ids0, {}) = Inr (ids1, binIds)"
    "iterR validate_marker 0 (seq_markers ?s) ids1 = Inr ids2"
    "iterR (validate_media binIds) 0 (doc_library d) {} = Inr lib"
    "iterR validate_source 0 (doc_sources d) (ids2, {}) = Inr (ids3, sourceIds)"
    "loopR (check_library_collision sourceIds) (sort (map med_id (doc_library d))) ids3 = Inr ids4"
    "iterR (validate_track d sourceIds) 0 (doc_tracks d) (ids4, {}) = Inr (ids5, ixs)"
    "iterR (validate_transition d) 0 (seq_transitions ?s) ids5 = Inr ids6"
    "iterR validate_caption_style 0 (seq_caption_styles ?s) ids6 = Inr ids7"
    "iterR (validate_multicam d) 0 (seq_multicam_groups ?s) ids7 = Inr ids8"
    by (rule Validate_stages)
  have srcs: "sourceIds = src_id ` set (doc_sources d)"
    using iterR_sources_snd [OF st(5)] by simp
  have lib: "\<forall>x\<in>set (sort (map med_id (doc_library d))). IsValidUlid x"
    using iterR_media_valid [OF st(4)] by auto
  have "registers [seq_id ?s] {} ids0" using st(1) by (rule RegisterId_registers)
  moreover have "registers (map bin_id (doc_bins d)) ids0 ids1"
    using iterR_registers_one [OF st(2), where p = fst and g = bin_id] register_bin_registers
    by auto
  moreover have "registers (map mk_id (seq_markers ?s)) ids1 ids2"
    using iterR_registers_one [OF st(3), where p = id and g = mk_id]
      validate_marker_registers by auto
  moreover have "registers (map src_id (doc_sources d)) ids2 ids3"
    using iterR_registers_one [OF st(5), where p = fst and g = src_id] validate_source_registers
    by auto
  moreover have "registers (filter (\<lambda>i. i \<notin> sourceIds) (sort (map med_id (doc_library d)))) ids3 ids4"
    using st(6) lib by (rule library_collision_registers)
  moreover have "registers (concat (map track_ids_of (doc_tracks d))) ids4 ids5"
    using iterR_registers [OF st(7), where p = fst and g = track_ids_of] validate_track_registers
    by auto
  moreover have "registers (map trn_id (seq_transitions ?s)) ids5 ids6"
    using iterR_registers_one [OF st(8), where p = id and g = trn_id]
      validate_transition_registers by auto
  moreover have "registers (map cs_id (seq_caption_styles ?s)) ids6 ids7"
    using iterR_registers_one [OF st(9), where p = id and g = cs_id]
      validate_caption_style_registers by auto
  moreover have "registers (concat (map group_ids_of (seq_multicam_groups ?s))) ids7 ids8"
    using iterR_registers [OF st(10), where p = id and g = group_ids_of] validate_multicam_registers
    by auto
  ultimately have "registers (document_ids d) {} ids8"
    unfolding document_ids_def Let_def srcs [symmetric] by (blast intro: registers_append)
  then show "distinct (document_ids d)" and "list_all IsValidUlid (document_ids d)"
    by (auto simp: registers_def)
qed


section \<open>Consequences for tracks and clips\<close>

abbreviation all_clip_ids :: "Document \<Rightarrow> Ulid list" where
  "all_clip_ids d \<equiv> concat (map (\<lambda>t. map clip_id (trk_clips t)) (doc_tracks d))"

lemma distinct_concat_sub:
  "distinct (concat (map f xs)) \<Longrightarrow> (\<And>x. distinct (f x) \<Longrightarrow> distinct (g x)) \<Longrightarrow>
   (\<And>x. set (g x) \<subseteq> set (f x)) \<Longrightarrow> distinct (concat (map g xs))"
  by (induction xs) (auto, blast)

lemma distinct_clip_ids_of:
  "distinct (concat (map clip_ids_of cs)) \<Longrightarrow> distinct (map clip_id cs)"
  using distinct_concat_sub [of clip_ids_of cs "\<lambda>c. [clip_id c]"]
  by (auto simp: clip_ids_of_def concat_map_singleton)

lemma distinct_track_ids:
  assumes "distinct (concat (map track_ids_of ts))"
  shows "distinct (map trk_id ts)"
    and "distinct (concat (map (\<lambda>t. map clip_id (trk_clips t)) ts))"
proof -
  show "distinct (map trk_id ts)"
    using distinct_concat_sub [OF assms, of "\<lambda>t. [trk_id t]"]
    by (auto simp: track_ids_of_def concat_map_singleton)
  show "distinct (concat (map (\<lambda>t. map clip_id (trk_clips t)) ts))"
    by (rule distinct_concat_sub [OF assms])
      (auto simp: track_ids_of_def clip_ids_of_def dest: distinct_clip_ids_of)
qed

lemma valid_distinct_tracks:
  assumes "valid d"
  shows "distinct (map trk_id (doc_tracks d))" and "distinct (all_clip_ids d)"
proof -
  from valid_registers(1) [OF assms] have "distinct (concat (map track_ids_of (doc_tracks d)))"
    by (simp add: document_ids_def Let_def)
  then show "distinct (map trk_id (doc_tracks d))" and "distinct (all_clip_ids d)"
    by (rule distinct_track_ids)+
qed

lemma valid_ids:
  assumes "valid d" and "t \<in> set (doc_tracks d)"
  shows "IsValidUlid (trk_id t)" and "c \<in> set (trk_clips t) \<Longrightarrow> IsValidUlid (clip_id c)"
proof -
  have sub: "set (track_ids_of t) \<subseteq> set (document_ids d)"
    using assms(2) by (auto simp: document_ids_def Let_def)
  have all: "\<forall>i\<in>set (document_ids d). IsValidUlid i"
    using valid_registers(2) [OF assms(1)] by (simp add: list_all_iff)
  show "IsValidUlid (trk_id t)"
    using sub all by (simp add: track_ids_of_def)
  show "IsValidUlid (clip_id c)" if "c \<in> set (trk_clips t)"
    using sub all that by (auto simp: track_ids_of_def clip_ids_of_def)
qed

lemma has_clip_iff: "has_clip i t \<longleftrightarrow> i \<in> clip_id ` set (trk_clips t)"
  by (auto simp: has_clip_def list_ex_iff)

lemma clip_in_one_track:
  assumes "distinct (all_clip_ids d)" "t \<in> set (doc_tracks d)" "t' \<in> set (doc_tracks d)"
    and "has_clip i t" "has_clip i t'"
  shows "t = t'"
proof -
  have "distinct (concat (map f ts)) \<Longrightarrow> t \<in> set ts \<Longrightarrow> t' \<in> set ts \<Longrightarrow>
      i \<in> set (f t) \<Longrightarrow> i \<in> set (f t') \<Longrightarrow> t = t'" for f :: "DocumentTrack \<Rightarrow> Ulid list" and ts
    by (induction ts) auto
  from this [of "\<lambda>t. map clip_id (trk_clips t)" "doc_tracks d", OF assms(1,2,3)] assms(4,5)
  show ?thesis by (simp add: has_clip_iff)
qed

lemma FindTrackForClip_unique:
  assumes "distinct (all_clip_ids d)" "t \<in> set (doc_tracks d)" "has_clip i t"
  shows "FindTrackForClip d i = Some t"
proof -
  from assms(2,3) have "FindTrackForClip d i \<noteq> None"
    by (auto simp: FindTrackForClip_def find_None_iff_all)
  then obtain t' where t': "FindTrackForClip d i = Some t'" by auto
  then have "t' \<in> set (doc_tracks d)" "has_clip i t'"
    using FindTrackForClip_Some by auto
  with assms t' show ?thesis using clip_in_one_track by blast
qed

lemma FindTrack_unique:
  "distinct (map trk_id (doc_tracks d)) \<Longrightarrow> t \<in> set (doc_tracks d) \<Longrightarrow> FindTrack d (trk_id t) = Some t"
  by (simp add: FindTrack_def find_unique)


section \<open>Geometry of a track\<close>

definition clip_start :: "DocumentClip \<Rightarrow> rat" where
  "clip_start c = rt_q (clip_timeline_in c)"

definition clip_end :: "DocumentClip \<Rightarrow> rat" where
  "clip_end c = rt_q (clip_timeline_in c) + rt_q (clip_duration c)"

text \<open>What holds of one clip of a valid document.\<close>

definition clip_well_placed :: "Document \<Rightarrow> DocumentTrack \<Rightarrow> DocumentClip \<Rightarrow> bool" where
  "clip_well_placed d t c \<longleftrightarrow>
     0 < rt_rate (clip_source_in c) \<and> 0 < rt_rate (clip_duration c) \<and>
     0 < rt_rate (clip_timeline_in c) \<and> 0 < rt_value (clip_duration c) \<and>
     0 \<le> rt_value (clip_source_in c) \<and> 0 \<le> rt_value (clip_timeline_in c) \<and>
     0 \<le> ep_num (clip_opacity c) \<and> ep_num (clip_opacity c) \<le> ep_den (clip_opacity c) \<and>
     (trk_kind t = ''caption'' \<longrightarrow> clip_source_id c = []) \<and>
     (trk_kind t \<noteq> ''caption'' \<longrightarrow>
        (\<exists>s. FindSource d (clip_source_id c) = Some s \<and>
             rt_q (clip_source_in c) + rt_q (clip_duration c) \<le> rt_q (src_duration s)))"

definition track_in_order :: "DocumentClip list \<Rightarrow> bool" where
  "track_in_order = sorted_wrt (\<lambda>a b. clip_end a \<le> clip_start b)"

lemma clip_start_less_end: "clip_well_placed d t c \<Longrightarrow> clip_start c < clip_end c"
  by (simp add: clip_well_placed_def clip_start_def clip_end_def rt_q_sgn_iff)

lemma check_clip_fields_facts:
  assumes "check_clip_fields d sources t ctx c = Inr u"
  shows "0 < rt_rate (clip_source_in c)" "0 < rt_rate (clip_duration c)"
    "0 < rt_rate (clip_timeline_in c)" "0 < rt_value (clip_duration c)"
    "0 \<le> rt_value (clip_source_in c)" "0 \<le> rt_value (clip_timeline_in c)"
    "0 \<le> ep_num (clip_opacity c)" "ep_num (clip_opacity c) \<le> ep_den (clip_opacity c)"
    "trk_kind t = ''caption'' \<longrightarrow> clip_source_id c = []"
    "clip_link_group_id c = [] \<or> IsValidUlid (clip_link_group_id c)"
  using assms unfolding check_clip_fields_def Let_def by (simp_all only: if_Inl_Inr_iff) auto

lemma try_catch_Inr_iff: "try_catch h r = Inr u \<longleftrightarrow> r = Inr (Inr u)"
  by (auto simp: try_catch_def split: sum.splits)

lemma check_clip_times_source:
  assumes "check_clip_times d t tc ctx prev c = Inr u" and "trk_kind t \<noteq> ''caption''"
  shows "\<exists>s. FindSource d (clip_source_id c) = Some s \<and>
             rt_q (clip_source_in c) + rt_q (clip_duration c) \<le> rt_q (src_duration s)"
proof -
  from assms obtain se s where se: "rt_add (clip_source_in c) (clip_duration c) = Inr se"
    and s: "FindSource d (clip_source_id c) = Some s" and gt: "rt_gt se (src_duration s) = Inr False"
    by (auto simp: check_clip_times_def Let_def try_catch_Inr_iff split: if_splits option.splits)
  from rt_add_exact [OF se] gt s show ?thesis by (auto simp: rt_gt_iff)
qed

lemma check_clip_times_order:
  assumes "check_clip_times d t tc ctx (Some p) c = Inr u"
  shows "clip_end p \<le> clip_start c" and "\<exists>e. rt_add (clip_timeline_in p) (clip_duration p) = Inr e"
proof -
  from assms obtain pe where pe: "rt_add (clip_timeline_in p) (clip_duration p) = Inr pe"
    and lt: "rt_lt (clip_timeline_in c) pe = Inr False"
    by (auto simp: check_clip_times_def Let_def try_catch_Inr_iff split: if_splits option.splits)
  from rt_add_exact [OF pe] lt show "clip_end p \<le> clip_start c"
    by (auto simp: rt_lt_iff clip_end_def clip_start_def)
  from pe show "\<exists>e. rt_add (clip_timeline_in p) (clip_duration p) = Inr e" ..
qed

lemma validate_clip_facts:
  assumes "validate_clip d sources t tc j c (ids, prev) = Inr b"
  shows "snd b = Some c" and "clip_well_placed d t c"
    and "prev = Some p \<Longrightarrow> clip_end p \<le> clip_start c"
    and "prev = Some p \<Longrightarrow> \<exists>e. rt_add (clip_timeline_in p) (clip_duration p) = Inr e"
    and "clip_link_group_id c = [] \<or> IsValidUlid (clip_link_group_id c)"
proof -
  from assms obtain ctx where f: "check_clip_fields d sources t ctx c = Inr ()"
    and tm: "check_clip_times d t tc ctx prev c = Inr ()" and b: "snd b = Some c"
    by (auto simp: validate_clip_def Let_def split: if_splits)
  show "snd b = Some c" by fact
  show "clip_well_placed d t c"
    unfolding clip_well_placed_def
    using check_clip_fields_facts [OF f] check_clip_times_source [OF tm] by blast
  show "prev = Some p \<Longrightarrow> clip_end p \<le> clip_start c"
    using tm by (auto dest: check_clip_times_order)
  show "prev = Some p \<Longrightarrow> \<exists>e. rt_add (clip_timeline_in p) (clip_duration p) = Inr e"
    using tm by (auto dest: check_clip_times_order)
  show "clip_link_group_id c = [] \<or> IsValidUlid (clip_link_group_id c)"
    using check_clip_fields_facts [OF f] by blast
qed

lemma validate_clips_order:
  assumes "iterR (validate_clip d sources t tc) i cs (ids, prev) = Inr b"
  shows "\<forall>c\<in>set cs. clip_well_placed d t c" and "track_in_order cs"
    and "prev = Some p \<Longrightarrow> clip_well_placed d t p \<Longrightarrow> \<forall>c\<in>set cs. clip_end p \<le> clip_start c"
    and "\<forall>c\<in>set cs. clip_link_group_id c = [] \<or> IsValidUlid (clip_link_group_id c)"
proof -
  have "(\<forall>c\<in>set cs. clip_well_placed d t c \<and>
            (clip_link_group_id c = [] \<or> IsValidUlid (clip_link_group_id c))) \<and>
        track_in_order cs \<and>
        (\<forall>p. prev = Some p \<longrightarrow> clip_well_placed d t p \<longrightarrow> (\<forall>c\<in>set cs. clip_end p \<le> clip_start c))"
    using assms
  proof (induction cs arbitrary: i ids prev)
    case Nil
    then show ?case by (simp add: track_in_order_def)
  next
    case (Cons c cs)
    from Cons.prems obtain m where m: "validate_clip d sources t tc i c (ids, prev) = Inr m"
      and r: "iterR (validate_clip d sources t tc) (Suc i) cs m = Inr b" by auto
    note facts = validate_clip_facts [OF m]
    obtain ids' where "m = (ids', Some c)" using facts(1) by (cases m) auto
    with r have IH: "(\<forall>x\<in>set cs. clip_well_placed d t x \<and>
          (clip_link_group_id x = [] \<or> IsValidUlid (clip_link_group_id x))) \<and> track_in_order cs \<and>
        (\<forall>x\<in>set cs. clip_end c \<le> clip_start x)"
      using Cons.IH [of "Suc i" ids' "Some c"] facts(2) by auto
    moreover have "clip_end p \<le> clip_start x"
      if "prev = Some p" "x \<in> set (c # cs)" for p x
      using that IH facts(3) [of p] clip_start_less_end [OF facts(2)]
      by (cases "x = c") force+
    ultimately show ?case
      using facts(2,5) by (auto simp: track_in_order_def)
  qed
  then show "\<forall>c\<in>set cs. clip_well_placed d t c" and "track_in_order cs"
    and "prev = Some p \<Longrightarrow> clip_well_placed d t p \<Longrightarrow> \<forall>c\<in>set cs. clip_end p \<le> clip_start c"
    and "\<forall>c\<in>set cs. clip_link_group_id c = [] \<or> IsValidUlid (clip_link_group_id c)"
    by blast+
qed

lemma iterR_member:
  assumes "iterR f i xs s = Inr s'" and "x \<in> set xs"
  shows "\<exists>j a b. f j x a = Inr b"
  using assms by (induction xs arbitrary: i s) auto

text \<open>A track of a valid document was walked from an empty \<open>previous\<close>.\<close>

lemma valid_track_walk:
  assumes "valid d" and "t \<in> set (doc_tracks d)"
  obtains sources tc ids b where
    "iterR (validate_clip d sources t tc) 0 (trk_clips t) (ids, None) = Inr b"
proof -
  from assms(1) obtain sources ids4 r where
    "iterR (validate_track d sources) 0 (doc_tracks d) (ids4, {}) = Inr r"
    by (rule Validate_stages) blast
  from iterR_member [OF this assms(2)] obtain j a b where "validate_track d sources j t a = Inr b"
    by blast
  then show thesis
    using that by (cases a) (auto simp: validate_track_def Let_def split: if_splits)
qed

lemma valid_track:
  assumes "valid d" and "t \<in> set (doc_tracks d)"
  shows "track_in_order (trk_clips t)"
    and "c \<in> set (trk_clips t) \<Longrightarrow> clip_well_placed d t c"
    and "c \<in> set (trk_clips t) \<Longrightarrow> clip_link_group_id c = [] \<or> IsValidUlid (clip_link_group_id c)"
proof -
  from assms obtain sources tc ids b where
    w: "iterR (validate_clip d sources t tc) 0 (trk_clips t) (ids, None) = Inr b"
    by (rule valid_track_walk)
  show "track_in_order (trk_clips t)" by (rule validate_clips_order(2) [OF w])
  show "c \<in> set (trk_clips t) \<Longrightarrow> clip_well_placed d t c"
    using validate_clips_order(1) [OF w] by blast
  show "c \<in> set (trk_clips t) \<Longrightarrow> clip_link_group_id c = [] \<or> IsValidUlid (clip_link_group_id c)"
    using validate_clips_order(4) [OF w] by blast
qed

end
