(* ===== verification/Operation_Types.thy ===== *)
theory Operation_Types
  imports Document_Invariant
begin

text \<open>
  The edit operations, \<open>src/Operations.h\<close>: one record per operation struct, the
  variant \<open>Operation\<close> and the error codes.  \<open>std::optional\<close> is \<open>option\<close>.
\<close>

datatype TrimEdge = Head | Tail

datatype EditError =
    NoError | UnknownTrack | UnknownClip | UnknownSource | UnknownBin | UnknownMarker
  | UnknownTransition | UnknownCaptionStyle | UnknownMulticamGroup | UnknownMulticamAngle
  | UnknownSequence | UnknownMedia | InvalidDuration | InvalidTimelineIn | SourceOutOfBounds
  | Overlap | DuplicateId | ArithmeticError | InvalidOperation | LockedTrack
  | ValidationFailed | EmptyUndo | EmptyRedo | IoError | ParseError

text \<open>
  A refused edit carries its code and text; \<open>Throws\<close> is an exception that leaves the
  function, before it has written anything; \<open>Diverges\<close> is a loop of the source that
  does not end within the bound the model gives it (the bounds are shown to suffice).
\<close>

datatype failure = Fail EditError string | Throws string | Diverges

type_synonym 'a result = "failure + 'a"

section \<open>Shared pieces\<close>

record ExactTimelinePosition =
  etp_clip_id :: Ulid
  etp_timeline_in :: RationalTime

record ExactClipTimes =
  ect_source_in :: RationalTime
  ect_duration :: RationalTime
  ect_timeline_in :: RationalTime

record ExactTrackState =
  ets_track_id :: Ulid
  ets_clips :: "DocumentClip list"

record PastedClip =
  pc_copied_clip_id :: Ulid
  pc_track_id :: Ulid
  pc_source_id :: Ulid
  pc_source_in :: RationalTime
  pc_duration :: RationalTime
  pc_timeline_in :: RationalTime
  pc_clip_id :: Ulid
  pc_copied_link_group_id :: Ulid
  pc_link_group_id :: Ulid
  pc_copied_sync_anchor_clip_id :: Ulid
  pc_sync_anchor_clip_id :: Ulid
  pc_sync_reference_delta :: RationalTime

record LinkedClipMove =
  lcm_clip_id :: Ulid
  lcm_track_id :: Ulid
  lcm_timeline_in :: RationalTime

record LinkedClipTrim =
  lct_clip_id :: Ulid
  lct_edge :: TrimEdge
  lct_delta :: RationalTime

record BoundaryAirTrim =
  bat_clip_id :: Ulid
  bat_edge :: TrimEdge
  bat_delta :: RationalTime
  bat_linked_clip_ids :: "Ulid list"

record RollEditPair =
  rep_left_clip_id :: Ulid
  rep_right_clip_id :: Ulid

record WordRemovalRange =
  wrr_source_start :: RationalTime
  wrr_source_end :: RationalTime

record LinkExactState =
  les_group_id :: Ulid
  les_anchor_clip_id :: Ulid
  les_reference_delta :: RationalTime

section \<open>Clip operations\<close>

record InsertClipOperation =
  ico_track_id :: Ulid
  ico_source_id :: Ulid
  ico_source_in :: RationalTime
  ico_duration :: RationalTime
  ico_timeline_in :: RationalTime
  ico_clip_id :: Ulid
  ico_exact_timeline_result :: "ExactTimelinePosition list"

record RemoveClipOperation =
  rco_clip_id :: Ulid
  rco_sync_track_ids :: "Ulid list"
  rco_exact_timeline_result :: "ExactTimelinePosition list"

record TrimClipOperation =
  tco_clip_id :: Ulid
  tco_edge :: TrimEdge
  tco_delta :: RationalTime
  tco_exact_clip_result :: "ExactClipTimes option"

record PasteClipsOperation =
  pco_clips :: "PastedClip list"
  pco_exact_track_result :: "ExactTrackState list"
  pco_overwrite :: bool

record ClearClipOperation =
  cco_clip_id :: Ulid
  cco_exact_track_result :: "ExactTrackState list"

record ClearClipsOperation =
  ccs_clip_ids :: "Ulid list"
  ccs_exact_track_result :: "ExactTrackState list"

record MoveClipOperation =
  mco_clip_id :: Ulid
  mco_track_id :: Ulid
  mco_timeline_in :: RationalTime
  mco_exact_track_result :: "ExactTrackState list"

record MoveClipsOperation =
  mcs_moves :: "LinkedClipMove list"
  mcs_exact_track_result :: "ExactTrackState list"

record MoveLinkedClipsOperation =
  mlo_link_group_id :: Ulid
  mlo_moves :: "LinkedClipMove list"
  mlo_exact_track_result :: "ExactTrackState list"

record TrimLinkedClipsOperation =
  tlo_link_group_id :: Ulid
  tlo_trims :: "LinkedClipTrim list"
  tlo_exact_track_result :: "ExactTrackState list"

record RippleTrimOperation =
  rto_clip_id :: Ulid
  rto_edge :: TrimEdge
  rto_delta :: RationalTime
  rto_linked_clip_ids :: "Ulid list"
  rto_sync_track_ids :: "Ulid list"
  rto_exact_track_result :: "ExactTrackState list"

record TrimBoundaryAirOperation =
  tba_trims :: "BoundaryAirTrim list"
  tba_sync_track_ids :: "Ulid list"
  tba_exact_track_result :: "ExactTrackState list"

record RollEditOperation =
  reo_pairs :: "RollEditPair list"
  reo_delta :: RationalTime
  reo_exact_track_result :: "ExactTrackState list"

record SlipEditOperation =
  seo_clip_ids :: "Ulid list"
  seo_delta :: RationalTime
  seo_exact_track_result :: "ExactTrackState list"

record RemoveLinkedClipsOperation =
  rlo_link_group_id :: Ulid
  rlo_clip_ids :: "Ulid list"
  rlo_sync_track_ids :: "Ulid list"
  rlo_exact_track_result :: "ExactTrackState list"

record ClearLinkedClipsOperation =
  clo_link_group_id :: Ulid
  clo_clip_ids :: "Ulid list"
  clo_exact_track_result :: "ExactTrackState list"

record DeleteGapOperation =
  dgo_track_id :: Ulid
  dgo_gap_start :: RationalTime
  dgo_gap_duration :: RationalTime
  dgo_exact_track_result :: "ExactTrackState list"
  dgo_linked_track_ids :: "Ulid list"

record DetachAudioOperation =
  dao_video_clip_id :: Ulid
  dao_audio_track_id :: Ulid
  dao_audio_clip_id :: Ulid
  dao_exact_track_result :: "ExactTrackState list"

record SplitClipOperation =
  sco_clip_id :: Ulid
  sco_timeline_position :: RationalTime
  sco_right_clip_id :: Ulid
  sco_right_effect_ids :: "Ulid list"

record SplitLinkedClipsOperation =
  slo_link_group_id :: Ulid
  slo_clip_ids :: "Ulid list"
  slo_timeline_position :: RationalTime
  slo_left_group_id :: Ulid
  slo_right_group_id :: Ulid
  slo_right_clip_ids :: "Ulid list"
  slo_sync_track_ids :: "Ulid list"
  slo_exact_track_result :: "ExactTrackState list"

record SplitClipAtPositionsOperation =
  spo_clip_id :: Ulid
  spo_positions :: "RationalTime list"
  spo_exact_track_result :: "ExactTrackState list"

record JoinClipOperation =
  jco_left_clip_id :: Ulid
  jco_right_clip_id :: Ulid
  jco_joined_times :: ExactClipTimes

record RemoveWordsOperation =
  rwo_clip_id :: Ulid
  rwo_ranges :: "WordRemovalRange list"
  rwo_gap_padding :: RationalTime
  rwo_linked_clip_ids :: "Ulid list"
  rwo_sync_track_ids :: "Ulid list"
  rwo_exact_track_result :: "ExactTrackState list"

record SetClipLinkOperation =
  slk_first_clip_id :: Ulid
  slk_second_clip_id :: Ulid
  slk_first_group_id :: Ulid
  slk_second_group_id :: Ulid
  slk_exact_first_result :: "LinkExactState option"
  slk_exact_second_result :: "LinkExactState option"

record SetClipEffectsOperation =
  sfx_clip_id :: Ulid
  sfx_effects :: "ClipEffect list"

record SetClipOpacityOperation =
  sop_clip_id :: Ulid
  sop_opacity :: EffectParamValue

record SetClipAudioOperation =
  sao_clip_id :: Ulid
  sao_gain_db :: EffectParamValue
  sao_fade_in :: RationalTime
  sao_fade_out :: RationalTime

record SetClipCaptionOperation =
  scc_clip_id :: Ulid
  scc_caption_group_id :: Ulid
  scc_caption_text :: string

section \<open>Track, sequence and project-item operations\<close>

record AddTrackOperation =
  ato_track_id :: Ulid
  ato_kind :: string
  ato_index :: int
  ato_clips :: "DocumentClip list"
  ato_locked :: bool
  ato_sync_lock :: bool
  ato_visible :: bool
  ato_muted :: bool
  ato_solo :: bool

record RemoveTrackOperation =
  rmt_track_id :: Ulid

record SetTrackLockOperation =
  stl_track_id :: Ulid
  stl_locked :: bool

record SetTrackSyncLockOperation =
  sts_track_id :: Ulid
  sts_sync_lock :: bool

record SetTrackOutputOperation =
  sto_track_id :: Ulid
  sto_visible :: bool
  sto_muted :: bool
  sto_solo :: bool

record UpdateSequenceOperation =
  uso_sequence_id :: Ulid
  uso_name :: string
  uso_width :: int
  uso_height :: int
  uso_frame_rate :: MediaRate

record SetColorManagementOperation =
  scm_settings :: ColorManagementSettings

record AddBinOperation =
  abo_bin_id :: Ulid
  abo_name :: string
  abo_parent_id :: Ulid

record RemoveBinOperation =
  rbo_bin_id :: Ulid
  rbo_name :: string
  rbo_parent_id :: Ulid

record RenameBinOperation =
  rnb_bin_id :: Ulid
  rnb_name :: string

record MoveBinOperation =
  mbo_bin_id :: Ulid
  mbo_parent_id :: Ulid

record SetMediaBinOperation =
  smb_media_id :: Ulid
  smb_bin_id :: Ulid

record AddMarkerOperation =
  amo_marker :: DocumentMarker
  amo_insertion_index :: int

record RemoveMarkerOperation =
  rmo_marker_id :: Ulid

record UpdateMarkerOperation =
  umo_marker_id :: Ulid
  umo_name :: string
  umo_time :: RationalTime
  umo_color :: string
  umo_category :: string

record AddTransitionOperation =
  atr_transition :: DocumentTransition
  atr_insertion_index :: int

record RemoveTransitionOperation =
  rtr_transition_id :: Ulid

record UpdateTransitionOperation =
  utr_transition_id :: Ulid
  utr_type :: string
  utr_duration :: RationalTime
  utr_alignment :: TransitionAlignment

record AddCaptionStyleOperation =
  acs_style :: CaptionStyle
  acs_insertion_index :: int

record RemoveCaptionStyleOperation =
  rcs_style_id :: Ulid

record AddMulticamGroupOperation =
  amg_group :: MulticamGroup
  amg_insertion_index :: int

record RemoveMulticamGroupOperation =
  rmg_group_id :: Ulid

record SetMulticamActiveAngleOperation =
  sma_group_id :: Ulid
  sma_active_angle_id :: Ulid

section \<open>The variant\<close>

datatype (plugins only: code) Operation =
    InsertClip InsertClipOperation
  | RemoveClip RemoveClipOperation
  | ClearClip ClearClipOperation
  | ClearClips ClearClipsOperation
  | PasteClips PasteClipsOperation
  | TrimClip TrimClipOperation
  | MoveClip MoveClipOperation
  | MoveClips MoveClipsOperation
  | DeleteGap DeleteGapOperation
  | DetachAudio DetachAudioOperation
  | MoveLinkedClips MoveLinkedClipsOperation
  | TrimLinkedClips TrimLinkedClipsOperation
  | RippleTrim RippleTrimOperation
  | TrimBoundaryAir TrimBoundaryAirOperation
  | RollEdit RollEditOperation
  | SlipEdit SlipEditOperation
  | RemoveLinkedClips RemoveLinkedClipsOperation
  | ClearLinkedClips ClearLinkedClipsOperation
  | AddTrack AddTrackOperation
  | RemoveTrack RemoveTrackOperation
  | SetTrackLock SetTrackLockOperation
  | SetTrackSyncLock SetTrackSyncLockOperation
  | SetTrackOutput SetTrackOutputOperation
  | UpdateSequence UpdateSequenceOperation
  | SetColorManagement SetColorManagementOperation
  | SplitClip SplitClipOperation
  | SplitLinkedClips SplitLinkedClipsOperation
  | JoinClip JoinClipOperation
  | AddBin AddBinOperation
  | RemoveBin RemoveBinOperation
  | RenameBin RenameBinOperation
  | MoveBin MoveBinOperation
  | SetMediaBin SetMediaBinOperation
  | AddMarker AddMarkerOperation
  | RemoveMarker RemoveMarkerOperation
  | UpdateMarker UpdateMarkerOperation
  | AddTransition AddTransitionOperation
  | RemoveTransition RemoveTransitionOperation
  | UpdateTransition UpdateTransitionOperation
  | SetClipLink SetClipLinkOperation
  | SetClipEffects SetClipEffectsOperation
  | SetClipOpacity SetClipOpacityOperation
  | SetClipAudio SetClipAudioOperation
  | AddCaptionStyle AddCaptionStyleOperation
  | RemoveCaptionStyle RemoveCaptionStyleOperation
  | SetClipCaption SetClipCaptionOperation
  | AddMulticamGroup AddMulticamGroupOperation
  | RemoveMulticamGroup RemoveMulticamGroupOperation
  | SetMulticamActiveAngle SetMulticamActiveAngleOperation
  | RemoveWords RemoveWordsOperation
  | SplitClipAtPositions SplitClipAtPositionsOperation

end
