(* ===== verification/Operation_Core.thy ===== *)
theory Operation_Core
  imports Operation_Types
begin

text \<open>
  The helpers that the operations of \<open>src/Operations.cc\<close> share, and the frame
  relation on tracks.  An exact operation carries the clip vectors of the tracks it
  changes; restoring the vectors recorded before the edit gives the document back.
\<close>

section \<open>Failing and throwing inside an operation\<close>

text \<open>
  \<open>ApplyOperation\<close> catches every exception an operation throws and reports it as
  \<open>ArithmeticError\<close> with the exception's text; \<open>bindT\<close> uses a throwing computation.
\<close>

definition reject :: "EditError \<Rightarrow> string \<Rightarrow> 'a result" where
  "reject code text = Inl (Fail code text)"

definition bindT :: "string + 'a \<Rightarrow> ('a \<Rightarrow> 'b result) \<Rightarrow> 'b result" where
  "bindT r k = (case r of Inl what \<Rightarrow> Inl (Fail ArithmeticError what) | Inr x \<Rightarrow> k x)"

lemma reject_not_Inr [simp]: "reject c m \<noteq> Inr y" "Inr y \<noteq> reject c m"
  by (simp_all add: reject_def)

lemma bindR_reject [simp]: "bindR (reject c m) k = reject c m"
  by (simp add: reject_def)

lemma bindT_simps [simp]:
  "bindT (Inr x) k = k x"
  "bindT (Inl e) k = Inl (Fail ArithmeticError e)"
  by (simp_all add: bindT_def)

lemma bindT_Inr_iff: "bindT r k = Inr y \<longleftrightarrow> (\<exists>x. r = Inr x \<and> k x = Inr y)"
  by (cases r) auto

lemma bindT_InrE [elim!]:
  assumes "bindT r k = Inr y"
  obtains x where "r = Inr x" and "k x = Inr y"
  using assms by (cases r) auto

lemma if_reject_Inr_iff [simp]: "((if c then reject e m else r) = Inr y) \<longleftrightarrow> \<not> c \<and> r = Inr y"
  by auto

lemma case_option_reject_iff [simp]:
  "(case x of None \<Rightarrow> reject e m | Some v \<Rightarrow> f v) = Inr y \<longleftrightarrow> (\<exists>v. x = Some v \<and> f v = Inr y)"
  by (cases x) auto

definition ValidateResult :: "Document \<Rightarrow> unit result" where
  "ValidateResult candidate =
     (case Validate candidate of
        Inr _ \<Rightarrow> Inr ()
      | Inl validation \<Rightarrow>
          reject (if contains_text ''overlap'' validation then Overlap else ValidationFailed)
            validation)"

lemma ValidateResult_Inr_iff [simp]: "ValidateResult d = Inr u \<longleftrightarrow> valid d"
  by (auto simp: ValidateResult_def split: sum.splits)

section \<open>Times and positions\<close>

definition DescribeTime :: "RationalTime \<Rightarrow> string" where
  "DescribeTime t = to_string (rt_value t) @ ''/'' @ to_string (rt_rate t)"

definition TimesOf :: "DocumentClip \<Rightarrow> ExactClipTimes" where
  "TimesOf c = \<lparr>ect_source_in = clip_source_in c, ect_duration = clip_duration c,
                ect_timeline_in = clip_timeline_in c\<rparr>"

definition PhaseOf :: "DocumentClip \<Rightarrow> string + RationalTime" where
  "PhaseOf c = rt_sub (clip_timeline_in c) (clip_source_in c)"

definition set_times :: "ExactClipTimes \<Rightarrow> DocumentClip \<Rightarrow> DocumentClip" where
  "set_times x c = c\<lparr>clip_source_in := ect_source_in x, clip_duration := ect_duration x,
                     clip_timeline_in := ect_timeline_in x\<rparr>"

definition position_of :: "DocumentClip \<Rightarrow> ExactTimelinePosition" where
  "position_of c = \<lparr>etp_clip_id = clip_id c, etp_timeline_in = clip_timeline_in c\<rparr>"

definition PositionsAfter :: "DocumentTrack \<Rightarrow> nat \<Rightarrow> ExactTimelinePosition list" where
  "PositionsAfter t first = map position_of (drop first (trk_clips t))"

fun positions_at_or_after ::
  "RationalTime \<Rightarrow> DocumentClip list \<Rightarrow> string + ExactTimelinePosition list" where
  "positions_at_or_after boundary [] = Inr []"
| "positions_at_or_after boundary (c # cs) =
     bindR (rt_ge (clip_timeline_in c) boundary) (\<lambda>after.
     bindR (positions_at_or_after boundary cs) (\<lambda>ps.
       Inr (if after then position_of c # ps else ps)))"

definition AppendPositionsAtOrAfter ::
  "DocumentTrack \<Rightarrow> RationalTime \<Rightarrow> ExactTimelinePosition list \<Rightarrow>
   string + ExactTimelinePosition list" where
  "AppendPositionsAtOrAfter t boundary positions =
     bindR (positions_at_or_after boundary (trk_clips t)) (\<lambda>ps. Inr (positions @ ps))"

definition shift_clip :: "RationalTime \<Rightarrow> DocumentClip \<Rightarrow> string + DocumentClip" where
  "shift_clip delta c =
     bindR (rt_add (clip_timeline_in c) delta) (\<lambda>t. Inr (c\<lparr>clip_timeline_in := t\<rparr>))"

definition shift_at_or_after ::
  "RationalTime \<Rightarrow> RationalTime \<Rightarrow> DocumentClip \<Rightarrow> string + DocumentClip" where
  "shift_at_or_after boundary delta c =
     bindR (rt_ge (clip_timeline_in c) boundary) (\<lambda>after.
       if after then shift_clip delta c else Inr c)"

definition ShiftPositionsAtOrAfter ::
  "RationalTime \<Rightarrow> RationalTime \<Rightarrow> DocumentTrack \<Rightarrow> string + DocumentTrack" where
  "ShiftPositionsAtOrAfter boundary delta t =
     bindR (mapR (shift_at_or_after boundary delta) (trk_clips t))
       (\<lambda>cs. Inr (with_clips (\<lambda>_. cs) t))"

definition CurrentPositionsFor ::
  "Document \<Rightarrow> ExactTimelinePosition list \<Rightarrow> ExactTimelinePosition list" where
  "CurrentPositionsFor d reference =
     List.map_filter (\<lambda>p. map_option position_of (FindClip d (etp_clip_id p))) reference"

definition ApplyExactPosition :: "ExactTimelinePosition \<Rightarrow> Document \<Rightarrow> Document result" where
  "ApplyExactPosition p d =
     (case FindClip d (etp_clip_id p) of
        None \<Rightarrow> reject UnknownClip
                 (''exact ripple state references unknown clip_id '' @ quoted (etp_clip_id p))
      | Some _ \<Rightarrow>
          if rt_rate (etp_timeline_in p) \<le> 0 \<or> rt_value (etp_timeline_in p) < 0
          then reject InvalidTimelineIn ''exact ripple state has invalid timeline_in''
          else Inr (ModifyClip (etp_clip_id p)
                      (\<lambda>c. c\<lparr>clip_timeline_in := etp_timeline_in p\<rparr>) d))"

definition ApplyExactPositions :: "Document \<Rightarrow> ExactTimelinePosition list \<Rightarrow> Document result" where
  "ApplyExactPositions d positions = loopR ApplyExactPosition positions d"

definition Negate :: "RationalTime \<Rightarrow> RationalTime option" where
  "Negate t = (if rt_value t = int64_min then None else Some (RT (- rt_value t) (rt_rate t)))"

section \<open>Range checks\<close>

definition ValidateSourceRange :: "DocumentSource \<Rightarrow> RationalTime \<Rightarrow> RationalTime \<Rightarrow> unit result" where
  "ValidateSourceRange s sourceIn dur =
     (if rt_rate sourceIn \<le> 0 \<or> rt_rate dur \<le> 0
      then reject ArithmeticError ''time rate must be positive''
      else if rt_value dur \<le> 0 then reject InvalidDuration ''duration must be positive''
      else let outside = reject SourceOutOfBounds
                 (''source range is outside source_id '' @ quoted (src_id s)) in
        if rt_value sourceIn < 0 then outside
        else bindT (rt_add sourceIn dur) (\<lambda>end_time.
             bindT (rt_gt end_time (src_duration s)) (\<lambda>beyond.
               if beyond then outside else Inr ())))"

definition ValidateEditedSourceRange ::
  "string \<Rightarrow> DocumentClip \<Rightarrow> DocumentSource \<Rightarrow> ExactClipTimes \<Rightarrow> unit result" where
  "ValidateEditedSourceRange operationName c s requested =
     bindT (rt_add (ect_source_in requested) (ect_duration requested)) (\<lambda>requestedEnd.
     bindT (if rt_value (ect_duration requested) \<le> 0 \<or> rt_value (ect_source_in requested) < 0
            then Inr True else rt_gt requestedEnd (src_duration s)) (\<lambda>bad.
       if bad then reject InvalidOperation
         (operationName @ '' source range for clip_id '' @ quoted (clip_id c) @
          '' must stay within [0/'' @ to_string (rt_rate (src_duration s)) @ '', '' @
          DescribeTime (src_duration s) @ ''); requested ['' @
          DescribeTime (ect_source_in requested) @ '', '' @ DescribeTime requestedEnd @ '')'')
       else Inr ()))"

definition ValidateEditedDuration :: "string \<Rightarrow> DocumentClip \<Rightarrow> ExactClipTimes \<Rightarrow> unit result" where
  "ValidateEditedDuration operationName c requested =
     (if rt_value (ect_duration requested) \<le> 0 then reject InvalidOperation
        (operationName @ '' duration for clip_id '' @ quoted (clip_id c) @
         '' must be positive; requested '' @ DescribeTime (ect_duration requested))
      else if rt_value (ect_timeline_in requested) < 0 then reject InvalidOperation
        (operationName @ '' timeline_in for clip_id '' @ quoted (clip_id c) @
         '' must stay within [0/'' @ to_string (rt_rate (ect_timeline_in requested)) @
         '', inf); got '' @ DescribeTime (ect_timeline_in requested))
      else Inr ())"

section \<open>Sorting by timeline position\<close>

text \<open>
  \<open>std::stable_sort\<close> on \<open>timeline_in\<close>.  With two or more elements every element is
  compared at least once, so a non-positive rate makes the comparison throw.
\<close>

definition starts_before :: "DocumentClip \<Rightarrow> DocumentClip \<Rightarrow> bool" where
  "starts_before a b \<longleftrightarrow>
     rt_value (clip_timeline_in a) * rt_rate (clip_timeline_in b) <
     rt_value (clip_timeline_in b) * rt_rate (clip_timeline_in a)"

fun insert_by_start :: "DocumentClip \<Rightarrow> DocumentClip list \<Rightarrow> DocumentClip list" where
  "insert_by_start c [] = [c]"
| "insert_by_start c (x # xs) =
     (if starts_before x c then x # insert_by_start c xs else c # x # xs)"

definition sort_by_start :: "DocumentClip list \<Rightarrow> string + DocumentClip list" where
  "sort_by_start cs =
     (if 2 \<le> length cs \<and> list_ex (\<lambda>c. rt_rate (clip_timeline_in c) \<le> 0) cs then Inl rate_message
      else Inr (foldr insert_by_start cs []))"

section \<open>Track snapshots\<close>

definition snapshot :: "Ulid \<Rightarrow> DocumentTrack \<Rightarrow> ExactTrackState" where
  "snapshot i t = \<lparr>ets_track_id = i, ets_clips = trk_clips t\<rparr>"

text \<open>The \<open>snapshots\<close> lambda of most operations: unknown and repeated tracks are skipped.\<close>

fun snapshots_onto :: "Document \<Rightarrow> Ulid list \<Rightarrow> ExactTrackState list \<Rightarrow> ExactTrackState list" where
  "snapshots_onto d [] acc = acc"
| "snapshots_onto d (i # is) acc =
     (if list_ex (\<lambda>s. ets_track_id s = i) acc then snapshots_onto d is acc
      else case FindTrack d i of
             None \<Rightarrow> snapshots_onto d is acc
           | Some t \<Rightarrow> snapshots_onto d is (acc @ [snapshot i t]))"

definition snapshots :: "Document \<Rightarrow> Ulid list \<Rightarrow> ExactTrackState list" where
  "snapshots d ids = snapshots_onto d ids []"

text \<open>The variant without the repetition test.\<close>

definition snapshots_each :: "Document \<Rightarrow> Ulid list \<Rightarrow> ExactTrackState list" where
  "snapshots_each d ids = List.map_filter (\<lambda>i. map_option (snapshot i) (FindTrack d i)) ids"

text \<open>The \<open>addTrack\<close> lambda: empty and repeated identifiers are skipped.\<close>

definition add_track :: "Ulid \<Rightarrow> Ulid list \<Rightarrow> Ulid list" where
  "add_track i ids = (if i = [] then ids else push_unique i ids)"

definition restore_tracks :: "ExactTrackState list \<Rightarrow> Document \<Rightarrow> Document" where
  "restore_tracks states =
     fold (\<lambda>s. ModifyTrack (ets_track_id s) (with_clips (\<lambda>_. ets_clips s))) states"

text \<open>
  The replay of an exact operation, in the three forms the source has: snapshots
  compared by count (\<open>replay_exact\<close>), the same over an \<open>addTrack\<close> set
  (\<open>replay_exact_set\<close>), and track by track (\<open>replay_exact_each\<close>).  Each returns the
  document and the snapshots for the inverse.
\<close>

definition replay_exact ::
  "string \<Rightarrow> Document \<Rightarrow> ExactTrackState list \<Rightarrow> (Document \<times> ExactTrackState list) result" where
  "replay_exact text d states =
     (let before = snapshots d (map ets_track_id states) in
      if length before \<noteq> length states then reject UnknownTrack text
      else let d' = restore_tracks states d in
        bindR (ValidateResult d') (\<lambda>_. Inr (d', before)))"

definition replay_exact_set ::
  "string \<Rightarrow> Document \<Rightarrow> ExactTrackState list \<Rightarrow> (Document \<times> ExactTrackState list) result" where
  "replay_exact_set text d states =
     (let before = snapshots_each d (fold add_track (map ets_track_id states) []) in
      if length before \<noteq> length states then reject UnknownTrack text
      else let d' = restore_tracks states d in
        bindR (ValidateResult d') (\<lambda>_. Inr (d', before)))"

definition replay_exact_each ::
  "string \<Rightarrow> Document \<Rightarrow> ExactTrackState list \<Rightarrow> (Document \<times> ExactTrackState list) result" where
  "replay_exact_each text d states =
     (if list_ex (\<lambda>s. FindTrack d (ets_track_id s) = None) states then reject UnknownTrack text
      else let before = snapshots_each d (map ets_track_id states);
               d' = restore_tracks states d in
        bindR (ValidateResult d') (\<lambda>_. Inr (d', before)))"

end
