(* ===== verification/Track_Frame.thy ===== *)
theory Track_Frame
  imports Operation_Core
begin

text \<open>
  Which tracks an edit may have changed.  \<open>frame S d d'\<close>: the documents differ at
  most in the clip vectors of tracks whose identifier is in \<open>S\<close>.  Undo of an exact
  operation restores the vectors of those tracks, so it gives the document back.
\<close>

section \<open>The frame relation\<close>

definition clips_only :: "DocumentTrack \<Rightarrow> DocumentTrack \<Rightarrow> bool" where
  "clips_only t t' \<longleftrightarrow>
     trk_id t' = trk_id t \<and> trk_kind t' = trk_kind t \<and> trk_index t' = trk_index t \<and>
     trk_locked t' = trk_locked t \<and> trk_sync_lock t' = trk_sync_lock t \<and>
     trk_visible t' = trk_visible t \<and> trk_muted t' = trk_muted t \<and> trk_solo t' = trk_solo t"

definition same_but_tracks :: "Document \<Rightarrow> Document \<Rightarrow> bool" where
  "same_but_tracks d d' \<longleftrightarrow> with_tracks (\<lambda>_. []) d' = with_tracks (\<lambda>_. []) d"

definition frame :: "Ulid set \<Rightarrow> Document \<Rightarrow> Document \<Rightarrow> bool" where
  "frame S d d' \<longleftrightarrow>
     same_but_tracks d d' \<and>
     list_all2 (\<lambda>t t'. clips_only t t' \<and> (trk_id t \<notin> S \<longrightarrow> t' = t)) (doc_tracks d) (doc_tracks d')"

lemma clips_only_refl [simp]: "clips_only t t"
  by (simp add: clips_only_def)

lemma clips_only_with_clips [simp]: "clips_only t (with_clips f t)"
  by (simp add: clips_only_def with_clips_def)

lemma clips_only_simps:
  assumes "clips_only t t'"
  shows "trk_id t' = trk_id t" "trk_kind t' = trk_kind t" "trk_locked t' = trk_locked t"
    "trk_index t' = trk_index t" "with_clips (\<lambda>_. cs) t' = with_clips (\<lambda>_. cs) t"
  using assms by (simp_all add: clips_only_def with_clips_def)

lemma clips_only_sym: "clips_only t t' \<Longrightarrow> clips_only t' t"
  by (simp add: clips_only_def)

lemma clips_only_trans: "clips_only a b \<Longrightarrow> clips_only b c \<Longrightarrow> clips_only a c"
  by (simp add: clips_only_def)

lemma clips_only_eq: "clips_only t t' \<Longrightarrow> trk_clips t' = trk_clips t \<Longrightarrow> t' = t"
  by (simp add: clips_only_def)

lemma same_but_tracks_with_tracks [simp]: "same_but_tracks d (with_tracks f d)"
  by (simp add: same_but_tracks_def)

lemma same_but_tracks_eq: "same_but_tracks d d' \<Longrightarrow> with_tracks (\<lambda>_. ts) d' = with_tracks (\<lambda>_. ts) d"
proof -
  assume "same_but_tracks d d'"
  then have "with_tracks (\<lambda>_. ts) (with_tracks (\<lambda>_. []) d') =
      with_tracks (\<lambda>_. ts) (with_tracks (\<lambda>_. []) d)"
    by (simp only: same_but_tracks_def)
  then show ?thesis by simp
qed

lemma same_but_tracks_same: "same_but_tracks d d' \<Longrightarrow> doc_tracks d' = doc_tracks d \<Longrightarrow> d' = d"
  by (metis same_but_tracks_eq with_tracks_same)

lemma frame_refl [intro, simp]: "frame S d d"
  by (simp add: frame_def list_all2_refl same_but_tracks_def)

lemma frame_mono: "frame S d d' \<Longrightarrow> S \<subseteq> T \<Longrightarrow> frame T d d'"
  unfolding frame_def by (auto elim!: list_all2_mono)

lemma frame_trans:
  assumes "frame S a b" and "frame S b c"
  shows "frame S a c"
proof -
  have "list_all2 (\<lambda>t t'. clips_only t t' \<and> (trk_id t \<notin> S \<longrightarrow> t' = t)) (doc_tracks a) (doc_tracks c)"
    by (rule list_all2_trans [OF _ conjunct2 [OF assms(1) [unfolded frame_def]]
          conjunct2 [OF assms(2) [unfolded frame_def]]])
      (metis clips_only_simps(1) clips_only_trans)
  moreover have "same_but_tracks a c"
    using assms by (simp add: frame_def same_but_tracks_def)
  ultimately show ?thesis by (simp add: frame_def)
qed

lemma frame_sym: "frame S a b \<Longrightarrow> frame S b a"
proof -
  assume f: "frame S a b"
  have "list_all2 (\<lambda>t' t. clips_only t t' \<and> (trk_id t \<notin> S \<longrightarrow> t' = t)) ts' ts"
    if "list_all2 (\<lambda>t t'. clips_only t t' \<and> (trk_id t \<notin> S \<longrightarrow> t' = t)) ts ts'" for ts ts'
    using that by (induction rule: list_all2_induct) auto
  then have "list_all2 (\<lambda>t' t. clips_only t t' \<and> (trk_id t \<notin> S \<longrightarrow> t' = t)) (doc_tracks b) (doc_tracks a)"
    using f by (simp add: frame_def)
  then have "list_all2 (\<lambda>t t'. clips_only t t' \<and> (trk_id t \<notin> S \<longrightarrow> t' = t)) (doc_tracks b) (doc_tracks a)"
  proof (rule list_all2_mono)
    fix t t' assume h: "clips_only t' t \<and> (trk_id t' \<notin> S \<longrightarrow> t = t')"
    then have "trk_id t' = trk_id t" using clips_only_simps(1) [OF conjunct1 [OF h]] by simp
    then show "clips_only t t' \<and> (trk_id t \<notin> S \<longrightarrow> t' = t)" using h clips_only_sym [of t' t] by simp
  qed
  moreover have "same_but_tracks b a"
    using f by (simp add: frame_def same_but_tracks_def)
  ultimately show ?thesis by (simp add: frame_def)
qed

lemma frame_tracks:
  assumes "frame S d d'"
  shows frame_track_ids: "map trk_id (doc_tracks d') = map trk_id (doc_tracks d)"
    and frame_length: "length (doc_tracks d') = length (doc_tracks d)"
proof -
  from assms have a: "list_all2 (\<lambda>t t'. clips_only t t' \<and> (trk_id t \<notin> S \<longrightarrow> t' = t))
    (doc_tracks d) (doc_tracks d')" by (simp add: frame_def)
  from a show "length (doc_tracks d') = length (doc_tracks d)"
    by (simp add: list_all2_lengthD)
  with a show "map trk_id (doc_tracks d') = map trk_id (doc_tracks d)"
    by (auto simp: list_all2_conv_all_nth clips_only_simps intro!: nth_equalityI)
qed

lemma frame_fields:
  assumes "frame S d d'"
  shows "doc_sources d' = doc_sources d" "doc_library d' = doc_library d"
    "doc_bins d' = doc_bins d" "seq_transitions (doc_sequence d') = seq_transitions (doc_sequence d)"
  using assms unfolding frame_def same_but_tracks_def by (metis with_tracks_simps)+

lemma frame_empty: "frame {} d d' \<Longrightarrow> d' = d"
proof -
  assume f: "frame {} d d'"
  then have "list_all2 (=) (doc_tracks d') (doc_tracks d)"
    by (auto simp: frame_def list_all2_conv_all_nth)
  then have "doc_tracks d' = doc_tracks d" by (simp add: list_all2_eq [symmetric])
  with f show "d' = d" by (simp add: frame_def same_but_tracks_same)
qed

text \<open>Tracks whose identifier does not occur do not matter.\<close>

lemma frame_restrict: "frame S d d' \<Longrightarrow> frame (S \<inter> trk_id ` set (doc_tracks d)) d d'"
  by (auto simp: frame_def list_all2_conv_all_nth)

section \<open>Elementary edits and their frames\<close>

lemma list_all2_update_first:
  "(\<And>x. x \<in> set xs \<Longrightarrow> R x x) \<Longrightarrow> (\<And>x. List.find P xs = Some x \<Longrightarrow> R x (f x)) \<Longrightarrow>
   list_all2 R xs (update_first P f xs)"
  by (induction xs) (auto simp: list_all2_same split: if_splits)

lemma frame_ModifyTrack [frame_intro]:
  "i \<in> S \<Longrightarrow> (\<And>t. FindTrack d i = Some t \<Longrightarrow> clips_only t (f t)) \<Longrightarrow> frame S d (ModifyTrack i f d)"
  unfolding frame_def ModifyTrack_def
  by (auto simp: FindTrack_def intro!: list_all2_update_first dest: find_Some_D)

lemma frame_ModifyTrackForClip:
  "(\<And>t. FindTrackForClip d i = Some t \<Longrightarrow> trk_id t \<in> S \<and> clips_only t (f t)) \<Longrightarrow>
   frame S d (ModifyTrackForClip i f d)"
  unfolding frame_def ModifyTrackForClip_def
  by (auto simp: FindTrackForClip_def intro!: list_all2_update_first)

lemma frame_ModifyClip:
  "(\<And>t. FindTrackForClip d i = Some t \<Longrightarrow> trk_id t \<in> S) \<Longrightarrow> frame S d (ModifyClip i f d)"
  unfolding ModifyClip_def by (rule frame_ModifyTrackForClip) simp

text \<open>
  A clip that lies in a track of \<open>S\<close> (or nowhere) before the edit still does after
  edits framed by \<open>S\<close>: this locates every clip an operation touches.
\<close>

lemma frame_locates:
  assumes "frame S d d'" and "distinct (all_clip_ids d)"
    and "\<And>t. FindTrackForClip d i = Some t \<Longrightarrow> trk_id t \<in> S"
    and "FindTrackForClip d' i = Some t'"
  shows "trk_id t' \<in> S"
proof (rule ccontr)
  assume no: "trk_id t' \<notin> S"
  from assms(4) have t': "has_clip i t'" "t' \<in> set (doc_tracks d')"
    using FindTrackForClip_Some by auto
  then obtain k where k: "k < length (doc_tracks d')" "doc_tracks d' ! k = t'"
    by (auto simp: in_set_conv_nth)
  with assms(1) no have "doc_tracks d ! k = t'"
    by (auto simp: frame_def list_all2_conv_all_nth dest!: spec [of _ k] clips_only_simps(1))
  with k frame_length [OF assms(1)] have "t' \<in> set (doc_tracks d)" by (metis nth_mem)
  with assms(2) t'(1) have "FindTrackForClip d i = Some t'"
    by (simp add: FindTrackForClip_unique)
  with assms(3) no show False by auto
qed

section \<open>Snapshots\<close>

text \<open>Every recorded state is the current clip vector of an existing track.\<close>

definition records :: "Document \<Rightarrow> ExactTrackState list \<Rightarrow> bool" where
  "records d states \<longleftrightarrow>
     (\<forall>s\<in>set states. \<exists>t. FindTrack d (ets_track_id s) = Some t \<and> ets_clips s = trk_clips t)"

lemma records_snapshots_onto: "records d acc \<Longrightarrow> records d (snapshots_onto d ids acc)"
proof (induction ids arbitrary: acc)
  case Nil
  then show ?case by simp
next
  case (Cons i ids)
  have "records d (acc @ [snapshot i t])" if "FindTrack d i = Some t" for t
    using Cons.prems that by (auto simp: records_def snapshot_def)
  with Cons show ?case by (auto split: option.split)
qed

lemma records_snapshots [simp]: "records d (snapshots d ids)"
  using records_snapshots_onto [of d "[]"] by (simp add: snapshots_def records_def)

lemma records_snapshots_each [simp]: "records d (snapshots_each d ids)"
  by (auto simp: records_def snapshots_each_def map_filter_def snapshot_def)

abbreviation track_exists :: "Document \<Rightarrow> Ulid \<Rightarrow> bool" where
  "track_exists d i \<equiv> i \<in> trk_id ` set (doc_tracks d)"

lemma FindTrack_None_iff: "FindTrack d i = None \<longleftrightarrow> \<not> track_exists d i"
  by (auto simp: FindTrack_def find_None_iff_all)

lemma ids_snapshots_onto:
  "ets_track_id ` set (snapshots_onto d ids acc) =
     ets_track_id ` set acc \<union> {i \<in> set ids. track_exists d i}"
proof (induction ids arbitrary: acc)
  case Nil
  then show ?case by simp
next
  case (Cons i ids)
  show ?case
  proof (cases "FindTrack d i")
    case None
    then show ?thesis using Cons FindTrack_None_iff [of d i] by auto
  next
    case (Some t)
    then have "track_exists d i" using FindTrack_None_iff [of d i] by auto
    moreover have "list_ex (\<lambda>s. ets_track_id s = i) acc \<longleftrightarrow> i \<in> ets_track_id ` set acc"
      by (auto simp: list_ex_iff)
    moreover have "ets_track_id (snapshot i t) = i" by (simp add: snapshot_def)
    ultimately show ?thesis using Some Cons by (simp, blast)
  qed
qed

lemma ids_snapshots:
  "ets_track_id ` set (snapshots d ids) = {i \<in> set ids. track_exists d i}"
  by (simp add: snapshots_def ids_snapshots_onto)

lemma ids_snapshots_each:
  "ets_track_id ` set (snapshots_each d ids) = {i \<in> set ids. track_exists d i}"
proof -
  have "ets_track_id ` set (snapshots_each d ids) = {i \<in> set ids. FindTrack d i \<noteq> None}"
    by (force simp: snapshots_each_def map_filter_def snapshot_def image_iff)
  then show ?thesis by (simp add: FindTrack_None_iff)
qed

lemma distinct_snapshots_onto:
  "distinct (map ets_track_id acc) \<Longrightarrow> distinct (map ets_track_id (snapshots_onto d ids acc))"
proof (induction ids arbitrary: acc)
  case Nil
  then show ?case by simp
next
  case (Cons i ids)
  have "distinct (map ets_track_id (acc @ [snapshot i t]))"
    if "\<not> list_ex (\<lambda>s. ets_track_id s = i) acc" for t
    using Cons.prems that by (auto simp: list_ex_iff snapshot_def)
  with Cons show ?case by (auto split: option.split)
qed

lemma distinct_snapshots: "distinct (map ets_track_id (snapshots d ids))"
  by (simp add: snapshots_def distinct_snapshots_onto)

section \<open>Restoring recorded tracks\<close>

lemma update_first_by_id:
  "distinct (map g xs) \<Longrightarrow> update_first (\<lambda>x. g x = i) f xs = map (\<lambda>x. if g x = i then f x else x) xs"
proof (induction xs)
  case Nil
  then show ?case by simp
next
  case (Cons a xs)
  then show ?case by (auto simp: image_iff intro!: map_idI [symmetric])
qed

lemma restore_step:
  assumes "frame S d x" and "distinct (map trk_id (doc_tracks d))"
    and "FindTrack d i = Some t"
  shows "frame (S - {i}) d (ModifyTrack i (with_clips (\<lambda>_. trk_clips t)) x)"
proof -
  let ?f = "with_clips (\<lambda>_. trk_clips t)"
  have dx: "distinct (map trk_id (doc_tracks x))"
    using assms(2) frame_track_ids [OF assms(1)] by simp
  have upd: "doc_tracks (ModifyTrack i ?f x) = map (\<lambda>t. if trk_id t = i then ?f t else t) (doc_tracks x)"
    by (simp add: ModifyTrack_def update_first_by_id [OF dx])
  have a: "list_all2 (\<lambda>t t'. clips_only t t' \<and> (trk_id t \<notin> S \<longrightarrow> t' = t)) (doc_tracks d) (doc_tracks x)"
    using assms(1) by (simp add: frame_def)
  have unique: "t0 = t" if "t0 \<in> set (doc_tracks d)" "trk_id t0 = i" for t0
    using FindTrack_unique [OF assms(2) that(1)] that(2) assms(3) by simp
  have "list_all2 (\<lambda>t t'. clips_only t t' \<and> (trk_id t \<notin> S - {i} \<longrightarrow> t' = t))
      (doc_tracks d) (map (\<lambda>t. if trk_id t = i then ?f t else t) (doc_tracks x))"
    unfolding list_all2_map2
  proof (rule list.rel_mono_strong [OF a])
    fix t0 t1
    assume m: "t0 \<in> set (doc_tracks d)" and "t1 \<in> set (doc_tracks x)"
      and h: "clips_only t0 t1 \<and> (trk_id t0 \<notin> S \<longrightarrow> t1 = t0)"
    have id: "trk_id t1 = trk_id t0" using h clips_only_simps by blast
    have "with_clips (\<lambda>_. trk_clips t) t1 = t0" if "trk_id t0 = i"
      using unique [OF m that] h by (simp add: clips_only_def with_clips_def)
    with id h show "clips_only t0 (if trk_id t1 = i then ?f t1 else t1) \<and>
        (trk_id t0 \<notin> S - {i} \<longrightarrow> (if trk_id t1 = i then ?f t1 else t1) = t0)"
      by auto
  qed
  moreover have "same_but_tracks d (ModifyTrack i ?f x)"
    using assms(1) by (simp add: frame_def same_but_tracks_def ModifyTrack_def)
  ultimately show ?thesis by (simp add: frame_def upd)
qed

lemma restore_tracks_simps:
  "restore_tracks [] x = x"
  "restore_tracks (s # states) x =
     restore_tracks states (ModifyTrack (ets_track_id s) (with_clips (\<lambda>_. ets_clips s)) x)"
  by (simp_all add: restore_tracks_def)

lemma restore_frame:
  assumes "distinct (map trk_id (doc_tracks d))"
  shows "frame S d x \<Longrightarrow> records d states \<Longrightarrow>
    frame (S - ets_track_id ` set states) d (restore_tracks states x)"
proof (induction states arbitrary: S x)
  case Nil
  then show ?case by (simp add: restore_tracks_def)
next
  case (Cons s states)
  from Cons.prems(2) obtain t where t: "FindTrack d (ets_track_id s) = Some t" "ets_clips s = trk_clips t"
    and r: "records d states" by (auto simp: records_def)
  have "frame (S - {ets_track_id s}) d
      (ModifyTrack (ets_track_id s) (with_clips (\<lambda>_. ets_clips s)) x)"
    using restore_step [OF Cons.prems(1) assms t(1)] t(2) by simp
  from Cons.IH [OF this r] have
    "frame (S - {ets_track_id s} - ets_track_id ` set states) d (restore_tracks (s # states) x)"
    by (simp only: restore_tracks_simps)
  moreover have "S - {ets_track_id s} - ets_track_id ` set states
      = S - ets_track_id ` set (s # states)" by auto
  ultimately show ?case by simp
qed

text \<open>The undo principle: restoring what was recorded undoes every framed edit.\<close>

lemma restore_undoes:
  assumes "distinct (map trk_id (doc_tracks d))" and "frame S d d'" and "records d states"
    and "S \<inter> trk_id ` set (doc_tracks d) \<subseteq> ets_track_id ` set states"
  shows "restore_tracks states d' = d"
proof -
  have "frame (S \<inter> trk_id ` set (doc_tracks d) - ets_track_id ` set states) d
      (restore_tracks states d')"
    by (rule restore_frame [OF assms(1) frame_restrict [OF assms(2)] assms(3)])
  moreover have "S \<inter> trk_id ` set (doc_tracks d) - ets_track_id ` set states = {}"
    using assms(4) by blast
  ultimately show ?thesis using frame_empty by simp
qed

lemma frame_restore_tracks: "frame (ets_track_id ` set states) d (restore_tracks states d)"
proof (induction states arbitrary: d)
  case Nil
  then show ?case by (simp add: restore_tracks_def)
next
  case (Cons s states)
  let ?d = "ModifyTrack (ets_track_id s) (with_clips (\<lambda>_. ets_clips s)) d"
  have "frame (insert (ets_track_id s) (ets_track_id ` set states)) d ?d"
    by (rule frame_ModifyTrack) simp_all
  moreover have "frame (insert (ets_track_id s) (ets_track_id ` set states)) ?d (restore_tracks states ?d)"
    by (rule frame_mono [OF Cons]) (rule subset_insertI)
  ultimately show ?case unfolding restore_tracks_simps list.set image_insert by (rule frame_trans)
qed

end
