(* ===== verification/Ops_Items.thy ===== *)
theory Ops_Items
  imports Track_Frame
begin

text \<open>
  The operations of \<open>src/Operations.cc\<close> on tracks, the sequence, colour management,
  bins, markers, transitions, caption styles and multicam groups.  Each takes the
  candidate document and the operation and returns the edited document, the operation
  enriched for redo, and the inverse; operations that create objects also take the
  supply of fresh identifiers.
\<close>

type_synonym 'op applied = "(Document \<times> 'op \<times> Operation) result"

definition checked :: "Document \<Rightarrow> 'op \<Rightarrow> Operation \<Rightarrow> 'op applied" where
  "checked d op undo = bindR (ValidateResult d) (\<lambda>_. Inr (d, op, undo))"

lemma checked_Inr_iff [simp]: "checked d op undo = Inr r \<longleftrightarrow> valid d \<and> r = (d, op, undo)"
  by (auto simp: checked_def bindR_Inr_iff)

section \<open>Tracks\<close>

definition track_of_operation :: "AddTrackOperation \<Rightarrow> DocumentTrack" where
  "track_of_operation op =
     \<lparr>trk_id = ato_track_id op, trk_kind = ato_kind op, trk_index = ato_index op,
      trk_clips = ato_clips op, trk_locked = ato_locked op, trk_sync_lock = ato_sync_lock op,
      trk_visible = ato_visible op, trk_muted = ato_muted op, trk_solo = ato_solo op\<rparr>"

definition operation_of_track :: "DocumentTrack \<Rightarrow> AddTrackOperation" where
  "operation_of_track t =
     \<lparr>ato_track_id = trk_id t, ato_kind = trk_kind t, ato_index = trk_index t,
      ato_clips = trk_clips t, ato_locked = trk_locked t, ato_sync_lock = trk_sync_lock t,
      ato_visible = trk_visible t, ato_muted = trk_muted t, ato_solo = trk_solo t\<rparr>"

definition ApplyAddTrack :: "id_supply \<Rightarrow> Document \<Rightarrow> AddTrackOperation \<Rightarrow> AddTrackOperation applied" where
  "ApplyAddTrack g d op0 =
     (let op = (if ato_track_id op0 = [] then op0\<lparr>ato_track_id := fst (fresh g)\<rparr> else op0);
          i = ato_track_id op in
      if \<not> IsValidUlid i \<or> FindTrack d i \<noteq> None \<or> FindClip d i \<noteq> None \<or>
         FindSource d i \<noteq> None \<or> FindLibraryMedia d i \<noteq> None
      then reject DuplicateId (''track_id is invalid or already exists: '' @ quoted i)
      else if ato_kind op \<noteq> ''video'' \<and> ato_kind op \<noteq> ''audio'' \<and> ato_kind op \<noteq> ''caption''
      then reject InvalidOperation
        (''track kind must be '' @ quoted ''video'' @ '', '' @ quoted ''audio'' @ '' or '' @
         quoted ''caption'')
      else if ato_index op < 0 \<or> list_ex (\<lambda>t. trk_index t = ato_index op) (doc_tracks d)
      then reject InvalidOperation ''track index must be non-negative and unique''
      else checked (with_tracks (\<lambda>ts. ts @ [track_of_operation op]) d) op
             (RemoveTrack \<lparr>rmt_track_id = i\<rparr>))"

definition ApplyRemoveTrack :: "Document \<Rightarrow> RemoveTrackOperation \<Rightarrow> RemoveTrackOperation applied" where
  "ApplyRemoveTrack d op =
     (case FindTrack d (rmt_track_id op) of
        None \<Rightarrow> reject UnknownTrack (''unknown track_id '' @ quoted (rmt_track_id op))
      | Some found \<Rightarrow>
          checked (with_tracks (remove_first (\<lambda>t. trk_id t = rmt_track_id op)) d) op
            (AddTrack (operation_of_track found)))"

definition ApplySetTrackLock :: "Document \<Rightarrow> SetTrackLockOperation \<Rightarrow> SetTrackLockOperation applied" where
  "ApplySetTrackLock d op =
     (case FindTrack d (stl_track_id op) of
        None \<Rightarrow> reject UnknownTrack (''unknown track_id '' @ quoted (stl_track_id op))
      | Some t \<Rightarrow>
          checked (ModifyTrack (stl_track_id op) (\<lambda>t. t\<lparr>trk_locked := stl_locked op\<rparr>) d) op
            (SetTrackLock \<lparr>stl_track_id = trk_id t, stl_locked = trk_locked t\<rparr>))"

definition ApplySetTrackSyncLock ::
  "Document \<Rightarrow> SetTrackSyncLockOperation \<Rightarrow> SetTrackSyncLockOperation applied" where
  "ApplySetTrackSyncLock d op =
     (case FindTrack d (sts_track_id op) of
        None \<Rightarrow> reject UnknownTrack (''unknown track_id '' @ quoted (sts_track_id op))
      | Some t \<Rightarrow>
          checked (ModifyTrack (sts_track_id op) (\<lambda>t. t\<lparr>trk_sync_lock := sts_sync_lock op\<rparr>) d) op
            (SetTrackSyncLock \<lparr>sts_track_id = trk_id t, sts_sync_lock = trk_sync_lock t\<rparr>))"

definition ApplySetTrackOutput ::
  "Document \<Rightarrow> SetTrackOutputOperation \<Rightarrow> SetTrackOutputOperation applied" where
  "ApplySetTrackOutput d op =
     (case FindTrack d (sto_track_id op) of
        None \<Rightarrow> reject UnknownTrack (''unknown track_id '' @ quoted (sto_track_id op))
      | Some t \<Rightarrow>
          checked (ModifyTrack (sto_track_id op)
              (\<lambda>t. t\<lparr>trk_visible := sto_visible op, trk_muted := sto_muted op,
                     trk_solo := sto_solo op\<rparr>) d) op
            (SetTrackOutput \<lparr>sto_track_id = trk_id t, sto_visible = trk_visible t,
                             sto_muted = trk_muted t, sto_solo = trk_solo t\<rparr>))"

section \<open>Sequence and colour management\<close>

definition ApplyUpdateSequence ::
  "Document \<Rightarrow> UpdateSequenceOperation \<Rightarrow> UpdateSequenceOperation applied" where
  "ApplyUpdateSequence d op =
     (let current = doc_sequence d in
      if uso_sequence_id op \<noteq> seq_id current
      then reject UnknownSequence (''unknown sequence_id '' @ quoted (uso_sequence_id op))
      else checked
        (d\<lparr>doc_sequence := current\<lparr>seq_name := uso_name op, seq_width := uso_width op,
             seq_height := uso_height op, seq_frame_rate := uso_frame_rate op\<rparr>\<rparr>) op
        (UpdateSequence \<lparr>uso_sequence_id = seq_id current, uso_name = seq_name current,
           uso_width = seq_width current, uso_height = seq_height current,
           uso_frame_rate = seq_frame_rate current\<rparr>))"

definition ApplySetColorManagement ::
  "Document \<Rightarrow> SetColorManagementOperation \<Rightarrow> SetColorManagementOperation applied" where
  "ApplySetColorManagement d op =
     checked (d\<lparr>doc_color_management := scm_settings op\<rparr>) op
       (SetColorManagement \<lparr>scm_settings = doc_color_management d\<rparr>)"

section \<open>Bins\<close>

definition bad_bin_name :: "string \<Rightarrow> bool" where
  "bad_bin_name s \<longleftrightarrow> s = [] \<or> length s > 128 \<or> list_ex (\<lambda>c. (of_char c :: nat) < 32) s"

definition ApplyAddBin :: "id_supply \<Rightarrow> Document \<Rightarrow> AddBinOperation \<Rightarrow> AddBinOperation applied" where
  "ApplyAddBin g d op0 =
     (let op = (if abo_bin_id op0 = [] then op0\<lparr>abo_bin_id := fst (fresh g)\<rparr> else op0);
          i = abo_bin_id op in
      if \<not> IsValidUlid i \<or> FindBin d i \<noteq> None \<or> FindTrack d i \<noteq> None \<or> FindClip d i \<noteq> None \<or>
         FindSource d i \<noteq> None \<or> FindLibraryMedia d i \<noteq> None
      then reject DuplicateId (''bin_id is invalid or already exists: '' @ quoted i)
      else if bad_bin_name (abo_name op)
      then reject InvalidOperation ''bin name must contain between 1 and 128 bytes''
      else if abo_parent_id op \<noteq> [] \<and> FindBin d (abo_parent_id op) = None
      then reject UnknownBin (''unknown parent bin_id '' @ quoted (abo_parent_id op))
      else checked
        (with_bins (\<lambda>bs. bs @ [\<lparr>bin_id = i, bin_name = abo_name op, bin_parent_id = abo_parent_id op\<rparr>]) d)
        op (RemoveBin \<lparr>rbo_bin_id = i, rbo_name = abo_name op, rbo_parent_id = abo_parent_id op\<rparr>))"

definition ApplyRemoveBin :: "Document \<Rightarrow> RemoveBinOperation \<Rightarrow> RemoveBinOperation applied" where
  "ApplyRemoveBin d op =
     (let i = rbo_bin_id op in
      case FindBin d i of
        None \<Rightarrow> reject UnknownBin (''unknown bin_id '' @ quoted i)
      | Some found \<Rightarrow>
          if list_ex (\<lambda>m. med_bin_id m = i) (doc_library d)
          then reject InvalidOperation ''cannot remove a bin that still contains media''
          else if list_ex (\<lambda>b. bin_parent_id b = i) (doc_bins d)
          then reject InvalidOperation ''cannot remove a bin that still contains child bins''
          else checked (with_bins (remove_first (\<lambda>b. bin_id b = i)) d)
            (op\<lparr>rbo_name := bin_name found, rbo_parent_id := bin_parent_id found\<rparr>)
            (AddBin \<lparr>abo_bin_id = bin_id found, abo_name = bin_name found,
                     abo_parent_id = bin_parent_id found\<rparr>))"

definition ApplyRenameBin :: "Document \<Rightarrow> RenameBinOperation \<Rightarrow> RenameBinOperation applied" where
  "ApplyRenameBin d op =
     (case FindBin d (rnb_bin_id op) of
        None \<Rightarrow> reject UnknownBin (''unknown bin_id '' @ quoted (rnb_bin_id op))
      | Some bin \<Rightarrow>
          if bad_bin_name (rnb_name op)
          then reject InvalidOperation ''bin name must contain between 1 and 128 bytes''
          else checked
            (with_bins (update_first (\<lambda>b. bin_id b = rnb_bin_id op) (\<lambda>b. b\<lparr>bin_name := rnb_name op\<rparr>)) d)
            op (RenameBin \<lparr>rnb_bin_id = bin_id bin, rnb_name = bin_name bin\<rparr>))"

text \<open>
  The cursor loop of \<open>ApplyMoveBin\<close> has no cycle guard; it is given one turn per bin
  and two more, which suffices on every valid document (\<open>bin_under_returns\<close>).
\<close>

fun bin_under :: "nat \<Rightarrow> Document \<Rightarrow> Ulid \<Rightarrow> DocumentBin option \<Rightarrow> bool result" where
  "bin_under 0 d i cursor = Inl Diverges"
| "bin_under (Suc fuel) d i cursor =
     (case cursor of
        None \<Rightarrow> Inr False
      | Some c \<Rightarrow> if bin_id c = i then Inr True else bin_under fuel d i (FindBin d (bin_parent_id c)))"

definition ApplyMoveBin :: "Document \<Rightarrow> MoveBinOperation \<Rightarrow> MoveBinOperation applied" where
  "ApplyMoveBin d op =
     (let i = mbo_bin_id op; p = mbo_parent_id op in
      case FindBin d i of
        None \<Rightarrow> reject UnknownBin (''unknown bin_id '' @ quoted i)
      | Some bin \<Rightarrow>
          if p = i then reject InvalidOperation ''a bin cannot contain itself''
          else if p \<noteq> [] \<and> FindBin d p = None
          then reject UnknownBin (''unknown parent bin_id '' @ quoted p)
          else bindR (bin_under (length (doc_bins d) + 2) d i (FindBin d p)) (\<lambda>descendant.
            if descendant
            then reject InvalidOperation ''a bin cannot be moved into one of its descendants''
            else checked
              (with_bins (update_first (\<lambda>b. bin_id b = i) (\<lambda>b. b\<lparr>bin_parent_id := p\<rparr>)) d) op
              (MoveBin \<lparr>mbo_bin_id = bin_id bin, mbo_parent_id = bin_parent_id bin\<rparr>)))"

definition ApplySetMediaBin :: "Document \<Rightarrow> SetMediaBinOperation \<Rightarrow> SetMediaBinOperation applied" where
  "ApplySetMediaBin d op =
     (case FindLibraryMedia d (smb_media_id op) of
        None \<Rightarrow> reject UnknownMedia (''unknown media_id '' @ quoted (smb_media_id op))
      | Some media \<Rightarrow>
          if smb_bin_id op \<noteq> [] \<and> FindBin d (smb_bin_id op) = None
          then reject UnknownBin (''unknown bin_id '' @ quoted (smb_bin_id op))
          else checked
            (with_library (update_first (\<lambda>m. med_id m = smb_media_id op)
               (\<lambda>m. m\<lparr>med_bin_id := smb_bin_id op\<rparr>)) d) op
            (SetMediaBin \<lparr>smb_media_id = smb_media_id op, smb_bin_id = med_bin_id media\<rparr>))"

section \<open>Markers\<close>

text \<open>Where an insertion index of -1 appends and any other must lie inside the vector.\<close>

definition bad_insertion_index :: "int \<Rightarrow> 'a list \<Rightarrow> bool" where
  "bad_insertion_index k xs \<longleftrightarrow> k < - 1 \<or> (0 \<le> k \<and> k > int (length xs))"

definition resolved_index :: "int \<Rightarrow> 'a list \<Rightarrow> int" where
  "resolved_index k xs = (if k < 0 then int (length xs) else k)"

definition ApplyAddMarker :: "id_supply \<Rightarrow> Document \<Rightarrow> AddMarkerOperation \<Rightarrow> AddMarkerOperation applied" where
  "ApplyAddMarker g d op0 =
     (let op = (if mk_id (amo_marker op0) = []
                then op0\<lparr>amo_marker := (amo_marker op0)\<lparr>mk_id := fst (fresh g)\<rparr>\<rparr> else op0);
          i = mk_id (amo_marker op); markers = seq_markers (doc_sequence d) in
      if \<not> IsValidUlid i \<or> i = seq_id (doc_sequence d) \<or> FindMarker d i \<noteq> None \<or>
         FindBin d i \<noteq> None \<or> FindLibraryMedia d i \<noteq> None \<or> FindSource d i \<noteq> None \<or>
         FindTrack d i \<noteq> None \<or> FindClip d i \<noteq> None
      then reject DuplicateId (''marker_id is invalid or already exists: '' @ quoted i)
      else if bad_insertion_index (amo_insertion_index op) markers
      then reject InvalidOperation ''marker insertion_index is outside the marker list''
      else let k = resolved_index (amo_insertion_index op) markers in
        checked (with_markers (insert_at (nat k) (amo_marker op)) d)
          (op\<lparr>amo_insertion_index := k\<rparr>) (RemoveMarker \<lparr>rmo_marker_id = i\<rparr>))"

definition ApplyRemoveMarker :: "Document \<Rightarrow> RemoveMarkerOperation \<Rightarrow> RemoveMarkerOperation applied" where
  "ApplyRemoveMarker d op =
     (case FindMarker d (rmo_marker_id op) of
        None \<Rightarrow> reject UnknownMarker (''unknown marker_id '' @ quoted (rmo_marker_id op))
      | Some removed \<Rightarrow>
          let index = index_of (\<lambda>m. mk_id m = rmo_marker_id op) (seq_markers (doc_sequence d)) in
          checked (with_markers (remove_first (\<lambda>m. mk_id m = rmo_marker_id op)) d) op
            (AddMarker \<lparr>amo_marker = removed, amo_insertion_index = int index\<rparr>))"

definition ApplyUpdateMarker :: "Document \<Rightarrow> UpdateMarkerOperation \<Rightarrow> UpdateMarkerOperation applied" where
  "ApplyUpdateMarker d op =
     (case FindMarker d (umo_marker_id op) of
        None \<Rightarrow> reject UnknownMarker (''unknown marker_id '' @ quoted (umo_marker_id op))
      | Some before \<Rightarrow>
          checked (with_markers (update_first (\<lambda>m. mk_id m = umo_marker_id op)
              (\<lambda>m. m\<lparr>mk_name := umo_name op, mk_time := umo_time op, mk_color := umo_color op,
                     mk_category := umo_category op\<rparr>)) d) op
            (UpdateMarker \<lparr>umo_marker_id = mk_id before, umo_name = mk_name before,
               umo_time = mk_time before, umo_color = mk_color before,
               umo_category = mk_category before\<rparr>))"

section \<open>Transitions\<close>

definition ApplyAddTransition ::
  "id_supply \<Rightarrow> Document \<Rightarrow> AddTransitionOperation \<Rightarrow> AddTransitionOperation applied" where
  "ApplyAddTransition g d op0 =
     (let op = (if trn_id (atr_transition op0) = []
                then op0\<lparr>atr_transition := (atr_transition op0)\<lparr>trn_id := fst (fresh g)\<rparr>\<rparr> else op0);
          i = trn_id (atr_transition op); transitions = seq_transitions (doc_sequence d) in
      if \<not> IsValidUlid i \<or> i = seq_id (doc_sequence d) \<or> FindTransition d i \<noteq> None \<or>
         FindMarker d i \<noteq> None \<or> FindBin d i \<noteq> None \<or> FindLibraryMedia d i \<noteq> None \<or>
         FindSource d i \<noteq> None \<or> FindTrack d i \<noteq> None \<or> FindClip d i \<noteq> None
      then reject DuplicateId (''transition_id is invalid or already exists: '' @ quoted i)
      else if bad_insertion_index (atr_insertion_index op) transitions
      then reject InvalidOperation ''transition insertion_index is outside the transition list''
      else let k = resolved_index (atr_insertion_index op) transitions in
        checked (with_transitions (insert_at (nat k) (atr_transition op)) d)
          (op\<lparr>atr_insertion_index := k\<rparr>) (RemoveTransition \<lparr>rtr_transition_id = i\<rparr>))"

definition ApplyRemoveTransition ::
  "Document \<Rightarrow> RemoveTransitionOperation \<Rightarrow> RemoveTransitionOperation applied" where
  "ApplyRemoveTransition d op =
     (case FindTransition d (rtr_transition_id op) of
        None \<Rightarrow> reject UnknownTransition
                 (''unknown transition_id '' @ quoted (rtr_transition_id op))
      | Some removed \<Rightarrow>
          let index = index_of (\<lambda>t. trn_id t = rtr_transition_id op)
                        (seq_transitions (doc_sequence d)) in
          checked (with_transitions (remove_first (\<lambda>t. trn_id t = rtr_transition_id op)) d) op
            (AddTransition \<lparr>atr_transition = removed, atr_insertion_index = int index\<rparr>))"

definition ApplyUpdateTransition ::
  "Document \<Rightarrow> UpdateTransitionOperation \<Rightarrow> UpdateTransitionOperation applied" where
  "ApplyUpdateTransition d op =
     (case FindTransition d (utr_transition_id op) of
        None \<Rightarrow> reject UnknownTransition
                 (''unknown transition_id '' @ quoted (utr_transition_id op))
      | Some before \<Rightarrow>
          checked (with_transitions (update_first (\<lambda>t. trn_id t = utr_transition_id op)
              (\<lambda>t. t\<lparr>trn_type := utr_type op, trn_duration := utr_duration op,
                     trn_alignment := utr_alignment op\<rparr>)) d) op
            (UpdateTransition \<lparr>utr_transition_id = trn_id before, utr_type = trn_type before,
               utr_duration = trn_duration before, utr_alignment = trn_alignment before\<rparr>))"

section \<open>Caption styles\<close>

definition ApplyAddCaptionStyle ::
  "id_supply \<Rightarrow> Document \<Rightarrow> AddCaptionStyleOperation \<Rightarrow> AddCaptionStyleOperation applied" where
  "ApplyAddCaptionStyle g d op0 =
     (let op = (if cs_id (acs_style op0) = []
                then op0\<lparr>acs_style := (acs_style op0)\<lparr>cs_id := fst (fresh g)\<rparr>\<rparr> else op0);
          i = cs_id (acs_style op); styles = seq_caption_styles (doc_sequence d) in
      if \<not> IsValidUlid i \<or> i = seq_id (doc_sequence d) \<or> FindCaptionStyle d i \<noteq> None \<or>
         FindMulticamGroup d i \<noteq> None \<or> FindMarker d i \<noteq> None \<or> FindTransition d i \<noteq> None \<or>
         FindBin d i \<noteq> None \<or> FindLibraryMedia d i \<noteq> None \<or> FindSource d i \<noteq> None \<or>
         FindTrack d i \<noteq> None \<or> FindClip d i \<noteq> None
      then reject DuplicateId (''caption style id is invalid or already exists: '' @ quoted i)
      else if bad_insertion_index (acs_insertion_index op) styles
      then reject InvalidOperation ''caption style insertion_index is outside the style list''
      else let k = resolved_index (acs_insertion_index op) styles in
        checked (with_caption_styles (insert_at (nat k) (acs_style op)) d)
          (op\<lparr>acs_insertion_index := k\<rparr>) (RemoveCaptionStyle \<lparr>rcs_style_id = i\<rparr>))"

definition ApplyRemoveCaptionStyle ::
  "Document \<Rightarrow> RemoveCaptionStyleOperation \<Rightarrow> RemoveCaptionStyleOperation applied" where
  "ApplyRemoveCaptionStyle d op =
     (let i = rcs_style_id op; styles = seq_caption_styles (doc_sequence d) in
      case FindCaptionStyle d i of
        None \<Rightarrow> reject UnknownCaptionStyle (''unknown caption style_id '' @ quoted i)
      | Some removed \<Rightarrow>
          if list_ex (\<lambda>t. list_ex (\<lambda>c. clip_caption_group_id c = i) (trk_clips t)) (doc_tracks d)
          then reject InvalidOperation
            (''caption style_id '' @ quoted i @ '' is still referenced by a clip'')
          else checked (with_caption_styles (remove_first (\<lambda>s. cs_id s = i)) d) op
            (AddCaptionStyle \<lparr>acs_style = removed,
               acs_insertion_index = int (index_of (\<lambda>s. cs_id s = i) styles)\<rparr>))"

section \<open>Multicam groups\<close>

fun fill_angle_ids :: "id_supply \<Rightarrow> MulticamAngle list \<Rightarrow> MulticamAngle list \<times> id_supply" where
  "fill_angle_ids g [] = ([], g)"
| "fill_angle_ids g (a # as) =
     (case (if ang_id a = [] then (case fresh g of (i, g') \<Rightarrow> (a\<lparr>ang_id := i\<rparr>, g')) else (a, g)) of
        (a', g') \<Rightarrow> case fill_angle_ids g' as of (as', g'') \<Rightarrow> (a' # as', g''))"

definition ApplyAddMulticamGroup ::
  "id_supply \<Rightarrow> Document \<Rightarrow> AddMulticamGroupOperation \<Rightarrow> AddMulticamGroupOperation applied" where
  "ApplyAddMulticamGroup g0 d op0 =
     (let (op1, g) = (if mg_id (amg_group op0) = []
             then (case fresh g0 of (i, g) \<Rightarrow> (op0\<lparr>amg_group := (amg_group op0)\<lparr>mg_id := i\<rparr>\<rparr>, g))
             else (op0, g0));
          i = mg_id (amg_group op1); groups = seq_multicam_groups (doc_sequence d) in
      if \<not> IsValidUlid i \<or> i = seq_id (doc_sequence d) \<or> FindMulticamGroup d i \<noteq> None \<or>
         FindCaptionStyle d i \<noteq> None \<or> FindMarker d i \<noteq> None \<or> FindTransition d i \<noteq> None \<or>
         FindBin d i \<noteq> None \<or> FindLibraryMedia d i \<noteq> None \<or> FindSource d i \<noteq> None \<or>
         FindTrack d i \<noteq> None \<or> FindClip d i \<noteq> None
      then reject DuplicateId (''multicam group id is invalid or already exists: '' @ quoted i)
      else let op = op1\<lparr>amg_group := (amg_group op1)
                     \<lparr>mg_angles := fst (fill_angle_ids g (mg_angles (amg_group op1)))\<rparr>\<rparr> in
      if bad_insertion_index (amg_insertion_index op) groups
      then reject InvalidOperation ''multicam group insertion_index is outside the group list''
      else let k = resolved_index (amg_insertion_index op) groups in
        checked (with_multicam_groups (insert_at (nat k) (amg_group op)) d)
          (op\<lparr>amg_insertion_index := k\<rparr>) (RemoveMulticamGroup \<lparr>rmg_group_id = i\<rparr>))"

definition ApplyRemoveMulticamGroup ::
  "Document \<Rightarrow> RemoveMulticamGroupOperation \<Rightarrow> RemoveMulticamGroupOperation applied" where
  "ApplyRemoveMulticamGroup d op =
     (let i = rmg_group_id op; groups = seq_multicam_groups (doc_sequence d) in
      case FindMulticamGroup d i of
        None \<Rightarrow> reject UnknownMulticamGroup (''unknown multicam group_id '' @ quoted i)
      | Some removed \<Rightarrow>
          checked (with_multicam_groups (remove_first (\<lambda>g. mg_id g = i)) d) op
            (AddMulticamGroup \<lparr>amg_group = removed,
               amg_insertion_index = int (index_of (\<lambda>g. mg_id g = i) groups)\<rparr>))"

definition ApplySetMulticamActiveAngle ::
  "Document \<Rightarrow> SetMulticamActiveAngleOperation \<Rightarrow> SetMulticamActiveAngleOperation applied" where
  "ApplySetMulticamActiveAngle d op =
     (let i = sma_group_id op; a = sma_active_angle_id op in
      case FindMulticamGroup d i of
        None \<Rightarrow> reject UnknownMulticamGroup (''unknown multicam group_id '' @ quoted i)
      | Some grp \<Rightarrow>
          if a \<noteq> [] \<and> \<not> list_ex (\<lambda>x. ang_id x = a) (mg_angles grp)
          then reject UnknownMulticamAngle
            (''active_angle_id '' @ quoted a @ '' is not an angle of multicam group '' @ quoted i)
          else checked (with_multicam_groups
              (update_first (\<lambda>g. mg_id g = i) (\<lambda>g. g\<lparr>mg_active_angle_id := a\<rparr>)) d) op
            (SetMulticamActiveAngle \<lparr>sma_group_id = mg_id grp,
               sma_active_angle_id = mg_active_angle_id grp\<rparr>))"

end
