(* ===== verification/Items_Undo.thy ===== *)
theory Items_Undo
  imports Ops_Items
begin

text \<open>
  Undo and redo of the operations of \<open>Ops_Items\<close>, one lemma each: on a valid document
  the recorded inverse gives the document back, and the enriched operation, applied to
  it again, gives the same edited document whatever identifiers the generator offers.
\<close>

section \<open>Settings\<close>

lemma with_tracks_update_update:
  "with_tracks f (with_tracks g d) = with_tracks (f \<circ> g) d"
  by (simp add: comp_def)

lemma FindTrack_ModifyTrack:
  "(\<And>t. trk_id (f t) = trk_id t) \<Longrightarrow>
   FindTrack (ModifyTrack i f d) i = map_option f (FindTrack d i)"
  by (simp add: FindTrack_def ModifyTrack_def find_update_first)

lemma ModifyTrack_back:
  assumes "FindTrack d i = Some t" and "\<And>t. trk_id (f t) = trk_id t" and "h (f t) = t"
  shows "ModifyTrack i h (ModifyTrack i f d) = d"
  using assms
  by (auto simp: ModifyTrack_def FindTrack_def update_first_update_first
      intro!: with_tracks_same update_first_id)

lemma undo_SetTrackLock:
  assumes "valid d" and "ApplySetTrackLock d op = Inr (d', op', iv)"
  shows "\<exists>r x. iv = SetTrackLock r \<and> ApplySetTrackLock d' r = Inr (d, r, x)"
proof -
  from assms(2) obtain t where t: "FindTrack d (stl_track_id op) = Some t"
    by (auto simp: ApplySetTrackLock_def)
  from FindTrack_Some [OF this] assms show ?thesis
    by (auto simp: ApplySetTrackLock_def t FindTrack_ModifyTrack ModifyTrack_back [OF t])
qed

lemma undo_SetTrackSyncLock:
  assumes "valid d" and "ApplySetTrackSyncLock d op = Inr (d', op', iv)"
  shows "\<exists>r x. iv = SetTrackSyncLock r \<and> ApplySetTrackSyncLock d' r = Inr (d, r, x)"
proof -
  from assms(2) obtain t where t: "FindTrack d (sts_track_id op) = Some t"
    by (auto simp: ApplySetTrackSyncLock_def)
  from FindTrack_Some [OF this] assms show ?thesis
    by (auto simp: ApplySetTrackSyncLock_def t FindTrack_ModifyTrack ModifyTrack_back [OF t])
qed

lemma undo_SetTrackOutput:
  assumes "valid d" and "ApplySetTrackOutput d op = Inr (d', op', iv)"
  shows "\<exists>r x. iv = SetTrackOutput r \<and> ApplySetTrackOutput d' r = Inr (d, r, x)"
proof -
  from assms(2) obtain t where t: "FindTrack d (sto_track_id op) = Some t"
    by (auto simp: ApplySetTrackOutput_def)
  from FindTrack_Some [OF this] assms show ?thesis
    by (auto simp: ApplySetTrackOutput_def t FindTrack_ModifyTrack ModifyTrack_back [OF t])
qed

lemma undo_UpdateSequence:
  assumes "valid d" and "ApplyUpdateSequence d op = Inr (d', op', iv)"
  shows "\<exists>r x. iv = UpdateSequence r \<and> ApplyUpdateSequence d' r = Inr (d, r, x)"
  using assms by (auto simp: ApplyUpdateSequence_def Let_def)

lemma undo_SetColorManagement:
  assumes "valid d" and "ApplySetColorManagement d op = Inr (d', op', iv)"
  shows "\<exists>r x. iv = SetColorManagement r \<and> ApplySetColorManagement d' r = Inr (d, r, x)"
  using assms by (auto simp: ApplySetColorManagement_def)

section \<open>Tracks\<close>

lemma track_of_operation_of_track: "track_of_operation (operation_of_track t) = t"
  by (simp add: track_of_operation_def operation_of_track_def)

lemma remove_first_append:
  "\<forall>y\<in>set xs. \<not> P y \<Longrightarrow> P x \<Longrightarrow> remove_first P (xs @ [x]) = xs"
  by (induction xs) auto

lemma undo_AddTrack:
  assumes "valid d" and "ApplyAddTrack g d op = Inr (d', op', iv)"
  shows "\<exists>r x. iv = RemoveTrack r \<and> ApplyRemoveTrack d' r = Inr (d, r, x)"
proof -
  let ?i = "ato_track_id op'"
  from assms(2) have new: "\<forall>t\<in>set (doc_tracks d). trk_id t \<noteq> ?i"
    and d': "d' = with_tracks (\<lambda>ts. ts @ [track_of_operation op']) d"
    and iv: "iv = RemoveTrack \<lparr>rmt_track_id = ?i\<rparr>"
    by (auto simp: ApplyAddTrack_def Let_def FindTrack_def find_None_iff_all split: if_splits)
  have t: "trk_id (track_of_operation op') = ?i" by (simp add: track_of_operation_def)
  have "FindTrack d' ?i = Some (track_of_operation op')"
    using new t by (auto simp: d' FindTrack_def find_append find_None_iff_all split: option.split
      dest: find_Some_D)
  moreover have "with_tracks (remove_first (\<lambda>t. trk_id t = ?i)) d' = d"
    using new t by (auto simp: d' remove_first_append intro: with_tracks_same)
  ultimately show ?thesis using assms(1) iv by (simp add: ApplyRemoveTrack_def)
qed

lemma redo_AddTrack:
  assumes "ApplyAddTrack g d op = Inr (d', op', iv)"
  shows "ApplyAddTrack g' d op' = Inr (d', op', iv)"
  using assms IsValidUlid_nonempty
  by (auto simp: ApplyAddTrack_def Let_def split: if_splits)


section \<open>References of a valid document\<close>

lemma register_bin_Inr:
  "register_bin k b (ids, B) = Inr (ids', B') \<Longrightarrow> B' = insert (bin_id b) B"
  by (auto simp: register_bin_def Let_def split: if_splits)

lemma register_bin_snd:
  "iterR register_bin k bs (ids, B) = Inr (ids', B') \<Longrightarrow> B' = B \<union> bin_id ` set bs"
proof (induction bs arbitrary: k ids B)
  case Nil
  then show ?case by simp
next
  case (Cons b bs)
  from Cons.prems obtain ids1 B1 where "register_bin k b (ids, B) = Inr (ids1, B1)"
    and "iterR register_bin (Suc k) bs (ids1, B1) = Inr (ids', B')" by auto
  with Cons.IH register_bin_Inr show ?case by fastforce
qed

lemma valid_bins:
  assumes "valid d" and "b \<in> set (doc_bins d)"
  shows "bin_parent_id b = [] \<or> bin_parent_id b \<in> bin_id ` set (doc_bins d)"
    and "\<not> climbs_into_cycle d {} b"
proof -
  from assms(1) obtain ids0 ids1 binIds where
    r: "iterR register_bin 0 (doc_bins d) (ids0, {}) = Inr (ids1, binIds)"
    and c: "iterR (check_bin_parent d binIds) 0 (doc_bins d) () = Inr ()"
    by (rule Validate_stages)
  from iterR_member [OF c assms(2)] obtain j where "check_bin_parent d binIds j b () = Inr ()"
    by auto
  with register_bin_snd [OF r]
  show "bin_parent_id b = [] \<or> bin_parent_id b \<in> bin_id ` set (doc_bins d)"
    and "\<not> climbs_into_cycle d {} b"
    by (auto simp: check_bin_parent_def split: if_splits)
qed

lemma valid_media_bin:
  assumes "valid d" and "m \<in> set (doc_library d)"
  shows "med_bin_id m = [] \<or> med_bin_id m \<in> bin_id ` set (doc_bins d)"
proof -
  from assms(1) obtain ids0 ids1 binIds lib where
    r: "iterR register_bin 0 (doc_bins d) (ids0, {}) = Inr (ids1, binIds)"
    and c: "iterR (validate_media binIds) 0 (doc_library d) {} = Inr lib"
    by (rule Validate_stages)
  from iterR_member [OF c assms(2)] obtain j a b where "validate_media binIds j m a = Inr b"
    by auto
  with register_bin_snd [OF r] show ?thesis
    by (auto simp: validate_media_def Let_def split: if_splits)
qed

lemma valid_caption_group:
  assumes "valid d" and "t \<in> set (doc_tracks d)" and "c \<in> set (trk_clips t)"
  shows "clip_caption_group_id c = [] \<or>
         clip_caption_group_id c \<in> cs_id ` set (seq_caption_styles (doc_sequence d))"
proof -
  from valid_track_walk [OF assms(1,2)] obtain sources tc ids b where
    "iterR (validate_clip d sources t tc) 0 (trk_clips t) (ids, None) = Inr b" .
  from iterR_member [OF this assms(3)] obtain j a b where
    "validate_clip d sources t tc j c a = Inr b" by auto
  then obtain ctx where "check_caption_group d ctx c = Inr ()"
    by (cases a) (auto simp: validate_clip_def Let_def)
  then show ?thesis
    unfolding check_caption_group_def FindCaptionStyle_def Let_def
    by (auto split: if_splits dest!: find_Some_D) (metis image_eqI)
qed

lemma valid_nonempty_ids:
  assumes "valid d"
  shows "b \<in> set (doc_bins d) \<Longrightarrow> bin_id b \<noteq> []"
    and "t \<in> set (doc_tracks d) \<Longrightarrow> trk_id t \<noteq> []"
proof -
  have "[] \<notin> set (document_ids d)"
    using valid_registers(2) [OF assms] IsValidUlid_nonempty [of "[]"] by (auto simp: list_all_iff)
  moreover have "b \<in> set (doc_bins d) \<Longrightarrow> bin_id b \<in> set (document_ids d)"
    and "t \<in> set (doc_tracks d) \<Longrightarrow> trk_id t \<in> set (document_ids d)"
    by (auto simp: document_ids_def Let_def track_ids_of_def)
  ultimately show "b \<in> set (doc_bins d) \<Longrightarrow> bin_id b \<noteq> []"
    and "t \<in> set (doc_tracks d) \<Longrightarrow> trk_id t \<noteq> []" by metis+
qed

lemma valid_distinct_items:
  assumes "valid d"
  shows "distinct (map bin_id (doc_bins d))"
    and "distinct (map mk_id (seq_markers (doc_sequence d)))"
    and "distinct (map trn_id (seq_transitions (doc_sequence d)))"
    and "distinct (map cs_id (seq_caption_styles (doc_sequence d)))"
  using valid_registers(1) [OF assms] by (simp_all add: document_ids_def Let_def)

section \<open>Bins\<close>

lemma undo_AddBin:
  assumes v: "valid d" and a: "ApplyAddBin g d op = Inr (d', op', iv)"
  shows "\<exists>r x. iv = RemoveBin r \<and> ApplyRemoveBin d' r = Inr (d, r, x)"
proof -
  let ?i = "abo_bin_id op'"
  let ?b = "\<lparr>bin_id = ?i, bin_name = abo_name op', bin_parent_id = abo_parent_id op'\<rparr>"
  from a have ok: "IsValidUlid ?i" and new: "\<forall>b\<in>set (doc_bins d). bin_id b \<noteq> ?i"
    and par: "abo_parent_id op' \<noteq> [] \<longrightarrow> FindBin d (abo_parent_id op') \<noteq> None"
    and d': "d' = with_bins (\<lambda>bs. bs @ [?b]) d"
    and iv: "iv = RemoveBin \<lparr>rbo_bin_id = ?i, rbo_name = abo_name op',
                             rbo_parent_id = abo_parent_id op'\<rparr>"
    by (auto simp: ApplyAddBin_def Let_def FindBin_def find_None_iff_all split: if_splits)
  have ne: "?i \<noteq> []" using ok IsValidUlid_nonempty by blast
  have "FindBin d' ?i = Some ?b"
    using new by (auto simp: d' FindBin_def with_bins_def find_append find_None_iff_all
      split: option.split dest: find_Some_D)
  moreover have "with_bins (remove_first (\<lambda>b. bin_id b = ?i)) d' = d"
    using new by (auto simp: d' with_bins_def remove_first_append)
  moreover have "\<not> list_ex (\<lambda>m. med_bin_id m = ?i) (doc_library d')"
    using valid_media_bin [OF v] new ne by (force simp: d' with_bins_def list_ex_iff)
  moreover have "abo_parent_id op' \<noteq> ?i"
    using par new ne by (force simp: FindBin_def dest!: find_Some_D)
  then have "\<not> list_ex (\<lambda>b. bin_parent_id b = ?i) (doc_bins d')"
    using valid_bins(1) [OF v] new ne by (force simp: d' with_bins_def list_ex_iff)
  ultimately show ?thesis using v iv by (simp add: ApplyRemoveBin_def Let_def)
qed

lemma redo_AddBin:
  assumes "ApplyAddBin g d op = Inr (d', op', iv)"
  shows "ApplyAddBin g' d op' = Inr (d', op', iv)"
  using assms IsValidUlid_nonempty by (auto simp: ApplyAddBin_def Let_def split: if_splits)

lemma redo_RemoveBin:
  assumes "ApplyRemoveBin d op = Inr (d', op', iv)"
  shows "ApplyRemoveBin d op' = Inr (d', op', iv)"
  using assms by (auto simp: ApplyRemoveBin_def Let_def)

lemma FindBin_update:
  "(\<And>b. bin_id (f b) = bin_id b) \<Longrightarrow>
   FindBin (with_bins (update_first (\<lambda>b. bin_id b = i) f) d) j =
     (if j = i then map_option f (FindBin d j) else FindBin d j)"
proof -
  assume f: "\<And>b. bin_id (f b) = bin_id b"
  have "j \<noteq> i \<Longrightarrow> List.find (\<lambda>b. bin_id b = j) (update_first (\<lambda>b. bin_id b = i) f bs)
      = List.find (\<lambda>b. bin_id b = j) bs" for bs
    by (induction bs) (auto simp: f)
  then show ?thesis by (simp add: FindBin_def with_bins_def find_update_first f)
qed

lemma update_bin_back:
  assumes "FindBin d i = Some b" and "\<And>b. bin_id (f b) = bin_id b" and "h (f b) = b"
  shows "with_bins (update_first (\<lambda>b. bin_id b = i) h)
           (with_bins (update_first (\<lambda>b. bin_id b = i) f) d) = d"
proof -
  have "update_first (\<lambda>b. bin_id b = i) (\<lambda>b. h (f b)) (doc_bins d) = doc_bins d"
    using assms(1,3) by (auto simp: FindBin_def intro!: update_first_id)
  then show ?thesis by (simp add: with_bins_def update_first_update_first assms(2))
qed

lemma undo_RenameBin:
  assumes "valid d" and "ApplyRenameBin d op = Inr (d', op', iv)"
    and "\<And>b. FindBin d (rnb_bin_id op) = Some b \<Longrightarrow> \<not> bad_bin_name (bin_name b)"
  shows "\<exists>r x. iv = RenameBin r \<and> ApplyRenameBin d' r = Inr (d, r, x)"
proof -
  from assms(2) obtain b where b: "FindBin d (rnb_bin_id op) = Some b"
    by (auto simp: ApplyRenameBin_def)
  then have "bin_id b = rnb_bin_id op" by (auto simp: FindBin_def dest: find_Some_D)
  with assms(1,2) assms(3) [OF b] show ?thesis
    by (auto simp: ApplyRenameBin_def b FindBin_update update_bin_back [OF b])
qed


text \<open>
  The walk of \<open>ApplyMoveBin\<close> returns on an acyclic hierarchy, and never meets an
  ancestor already passed.
\<close>

lemma FindBin_self:
  assumes "FindBin d j = Some b"
  shows "bin_id b = j" and "b \<in> set (doc_bins d)" and "FindBin d (bin_id b) = Some b"
proof -
  show id: "bin_id b = j" and "b \<in> set (doc_bins d)"
    using assms by (auto simp: FindBin_def dest: find_Some_D)
  show "FindBin d (bin_id b) = Some b" using assms id by simp
qed

lemma bin_under_acyclic:
  assumes "\<not> climbs_into_cycle d anc b" and "FindBin d (bin_id b) = Some b"
    and "FindBin d [] = None" and "card (bin_id ` set (doc_bins d) - anc) + 2 \<le> n"
  shows "\<exists>r. bin_under n d i (Some b) = Inr r \<and>
    (i \<in> anc \<and> (\<forall>x. FindBin d i = Some x \<longrightarrow> bin_parent_id x \<noteq> []) \<longrightarrow> \<not> r)"
  using assms
proof (induction d anc b arbitrary: n rule: climbs_into_cycle.induct)
  case (1 d anc b)
  let ?B = "bin_id ` set (doc_bins d)"
  obtain m where m: "n = Suc (Suc m)" using 1(5) by (metis add_2_eq_Suc' le_Suc_ex plus_nat.simps(2))
  show ?case
  proof (cases "bin_parent_id b = []")
    case True
    then show ?thesis using 1(3,4) by (auto simp: m)
  next
    case False
    with 1(2) have new: "bin_id b \<notin> anc" by (subst (asm) climbs_into_cycle.simps) auto
    show ?thesis
    proof (cases "FindBin d (bin_parent_id b)")
      case None
      with new show ?thesis by (auto simp: m)
    next
      case (Some p)
      have step: "\<not> climbs_into_cycle d (insert (bin_id b) anc) p"
        using 1(2) False new Some by (subst (asm) climbs_into_cycle.simps) auto
      have p: "FindBin d (bin_id p) = Some p"
        using Some by (rule FindBin_self)
      have mem: "bin_id b \<in> ?B" using 1(3) by (auto simp: FindBin_def dest: find_Some_D)
      then have "?B - insert (bin_id b) anc = (?B - anc) - {bin_id b}" by blast
      moreover have "card ((?B - anc) - {bin_id b}) < card (?B - anc)"
        using mem new by (intro card_Diff1_less) auto
      ultimately have "card (?B - insert (bin_id b) anc) + 2 \<le> Suc m" using 1(5) m by simp
      from 1(1) [OF False new Some step p 1(4) this] obtain r where
        r: "bin_under (Suc m) d i (Some p) = Inr r"
          "i \<in> insert (bin_id b) anc \<and> (\<forall>x. FindBin d i = Some x \<longrightarrow> bin_parent_id x \<noteq> []) \<longrightarrow> \<not> r"
        by blast
      have "bin_under n d i (Some b) = (if bin_id b = i then Inr True else Inr r)"
        unfolding m by (subst bin_under.simps) (simp del: bin_under.simps add: Some r(1))
      with r(2) new show ?thesis by auto
    qed
  qed
qed

lemma valid_FindBin:
  assumes "valid d"
  shows "FindBin d [] = None" and "b \<in> set (doc_bins d) \<Longrightarrow> FindBin d (bin_id b) = Some b"
  using valid_nonempty_ids(1) [OF assms] valid_distinct_items(1) [OF assms]
  by (auto simp: FindBin_def find_None_iff_all find_unique)

lemma bin_under_returns:
  assumes "valid d"
  shows "\<exists>r. bin_under (length (doc_bins d) + 2) d i (FindBin d p) = Inr r"
proof (cases "FindBin d p")
  case None
  then show ?thesis by auto
next
  case (Some b)
  have "card (bin_id ` set (doc_bins d) - {}) + 2 \<le> length (doc_bins d) + 2"
    using card_length [of "map bin_id (doc_bins d)"] by simp
  with valid_bins(2) [OF assms FindBin_self(2) [OF Some]] FindBin_self(3) [OF Some]
    valid_FindBin(1) [OF assms]
  have "\<exists>r. bin_under (length (doc_bins d) + 2) d i (Some b) = Inr r \<and>
    (i \<in> {} \<and> (\<forall>x. FindBin d i = Some x \<longrightarrow> bin_parent_id x \<noteq> []) \<longrightarrow> \<not> r)"
    by (rule bin_under_acyclic)
  then show ?thesis unfolding Some by blast
qed

lemma bin_under_ignores_subject:
  assumes "\<And>j. FindBin d' j = (if j = i then map_option f (FindBin d j) else FindBin d j)"
    and "\<And>b. bin_id (f b) = bin_id b"
  shows "bin_under n d' i (FindBin d' j) = bin_under n d i (FindBin d j)"
proof (induction n arbitrary: j)
  case 0
  then show ?case by simp
next
  case (Suc n)
  have "bin_id b = j" if "FindBin d j = Some b" for b
    using that by (auto simp: FindBin_def dest: find_Some_D)
  with Suc show ?case by (auto simp: assms split: option.split)
qed

lemma undo_MoveBin:
  assumes v: "valid d" and a: "ApplyMoveBin d op = Inr (d', op', iv)"
  shows "\<exists>r x. iv = MoveBin r \<and> ApplyMoveBin d' r = Inr (d, r, x)"
proof -
  let ?i = "mbo_bin_id op" and ?f = "\<lambda>b. b\<lparr>bin_parent_id := mbo_parent_id op\<rparr>"
  from a obtain b where b: "FindBin d ?i = Some b"
    and d': "d' = with_bins (update_first (\<lambda>b. bin_id b = ?i) ?f) d"
    and iv: "iv = MoveBin \<lparr>mbo_bin_id = bin_id b, mbo_parent_id = bin_parent_id b\<rparr>"
    by (auto simp: ApplyMoveBin_def Let_def)
  let ?p = "bin_parent_id b" and ?n = "length (doc_bins d') + 2"
  note mem = FindBin_self(2) [OF b] and id = FindBin_self(1) [OF b]
  have find': "FindBin d' j = (if j = ?i then map_option ?f (FindBin d j) else FindBin d j)" for j
    unfolding d' by (rule FindBin_update) simp
  note acyclic = valid_bins(2) [OF v mem]
  have par: "?p \<noteq> [] \<Longrightarrow> \<exists>q. FindBin d ?p = Some q"
    using valid_bins(1) [OF v mem] valid_FindBin(2) [OF v] by auto
  have no_self: "?p \<noteq> ?i"
  proof
    assume self: "?p = ?i"
    then have "?p \<noteq> []" using valid_FindBin(1) [OF v] b by auto
    with self b id have "climbs_into_cycle d {} b"
      by (simp add: climbs_into_cycle.simps [of d "{}"] climbs_into_cycle.simps [of d "{_}"])
    with acyclic show False by simp
  qed
  have "bin_under ?n d ?i (FindBin d ?p) = Inr False"
  proof (cases "?p = []")
    case True
    then show ?thesis using valid_FindBin(1) [OF v] by simp
  next
    case False
    with par obtain q where q: "FindBin d ?p = Some q" by blast
    note q' = FindBin_self(3) [OF q]
    have "\<not> climbs_into_cycle d {?i} q"
      using acyclic False q id by (simp add: climbs_into_cycle.simps [of d "{}"])
    moreover have "card (bin_id ` set (doc_bins d) - {?i}) + 2 \<le> ?n"
    proof -
      have "card (bin_id ` set (doc_bins d) - {?i}) \<le> card (bin_id ` set (doc_bins d))"
        by (intro card_mono) auto
      also have "\<dots> \<le> length (doc_bins d)" by (metis card_length length_map set_map)
      finally show ?thesis by (simp add: d' with_bins_def)
    qed
    ultimately show ?thesis
      using bin_under_acyclic [of d "{?i}" q ?n ?i] q' valid_FindBin(1) [OF v] False b q by auto
  qed
  moreover have "bin_under ?n d' ?i (FindBin d' ?p) = bin_under ?n d ?i (FindBin d ?p)"
    by (rule bin_under_ignores_subject [OF find']) simp
  ultimately have walk: "bin_under ?n d' ?i (FindBin d' ?p) = Inr False" by (simp only:)
  have restored: "with_bins (update_first (\<lambda>b. bin_id b = ?i) (\<lambda>b. b\<lparr>bin_parent_id := ?p\<rparr>)) d' = d"
    unfolding d' by (rule update_bin_back [OF b]) simp_all
  have par': "?p \<noteq> [] \<longrightarrow> FindBin d' ?p \<noteq> None" using par no_self by (auto simp: find')
  have found: "FindBin d' ?i = Some (?f b)" by (simp add: find' b)
  let ?r = "\<lparr>mbo_bin_id = ?i, mbo_parent_id = ?p\<rparr>"
  have "ApplyMoveBin d' ?r = checked d ?r (MoveBin \<lparr>mbo_bin_id = ?i, mbo_parent_id = mbo_parent_id op\<rparr>)"
    using no_self par' walk restored id
    by (auto simp: ApplyMoveBin_def Let_def found simp del: bin_under.simps)
  then show ?thesis using v by (simp add: iv id)
qed

lemma undo_SetMediaBin:
  assumes v: "valid d" and a: "ApplySetMediaBin d op = Inr (d', op', iv)"
  shows "\<exists>r x. iv = SetMediaBin r \<and> ApplySetMediaBin d' r = Inr (d, r, x)"
proof -
  let ?i = "smb_media_id op" and ?f = "\<lambda>m. m\<lparr>med_bin_id := smb_bin_id op\<rparr>"
  from a obtain m where m: "FindLibraryMedia d ?i = Some m"
    and d': "d' = with_library (update_first (\<lambda>m. med_id m = ?i) ?f) d"
    and iv: "iv = SetMediaBin \<lparr>smb_media_id = ?i, smb_bin_id = med_bin_id m\<rparr>"
    by (auto simp: ApplySetMediaBin_def)
  have "FindLibraryMedia d' ?i = Some (?f m)"
    using m by (simp add: FindLibraryMedia_def d' with_library_def find_update_first)
  moreover have "med_bin_id m = [] \<or> FindBin d' (med_bin_id m) \<noteq> None"
  proof -
    from m have "m \<in> set (doc_library d)"
      by (auto simp: FindLibraryMedia_def dest: find_Some_D)
    from valid_media_bin [OF v this] show ?thesis
      by (auto simp: FindBin_def d' with_library_def find_None_iff_all)
  qed
  moreover have "with_library (update_first (\<lambda>m. med_id m = ?i) (\<lambda>x. x\<lparr>med_bin_id := med_bin_id m\<rparr>)) d' = d"
  proof -
    have "update_first (\<lambda>x. med_id x = ?i) (\<lambda>x. x\<lparr>med_bin_id := med_bin_id m\<rparr>) (doc_library d) = doc_library d"
      using m by (auto simp: FindLibraryMedia_def intro!: update_first_id)
    then show ?thesis by (simp add: d' with_library_def update_first_update_first)
  qed
  ultimately show ?thesis using v iv by (auto simp: ApplySetMediaBin_def)
qed


section \<open>Objects of one kind never carry the identifier of another kind\<close>

lemma Find_None_iffs:
  "FindBin d i = None \<longleftrightarrow> i \<notin> bin_id ` set (doc_bins d)"
  "FindMarker d i = None \<longleftrightarrow> i \<notin> mk_id ` set (seq_markers (doc_sequence d))"
  "FindSource d i = None \<longleftrightarrow> i \<notin> src_id ` set (doc_sources d)"
  "FindLibraryMedia d i = None \<longleftrightarrow> i \<notin> med_id ` set (doc_library d)"
  "FindTrack d i = None \<longleftrightarrow> i \<notin> trk_id ` set (doc_tracks d)"
  "FindClip d i = None \<longleftrightarrow> i \<notin> set (all_clip_ids d)"
  "FindTransition d i = None \<longleftrightarrow> i \<notin> trn_id ` set (seq_transitions (doc_sequence d))"
  "FindCaptionStyle d i = None \<longleftrightarrow> i \<notin> cs_id ` set (seq_caption_styles (doc_sequence d))"
  "FindMulticamGroup d i = None \<longleftrightarrow> i \<notin> mg_id ` set (seq_multicam_groups (doc_sequence d))"
  by (auto simp: FindBin_def FindMarker_def FindSource_def FindLibraryMedia_def FindTrack_def
      FindClip_def FindTransition_def FindCaptionStyle_def FindMulticamGroup_def find_None_iff_all)

definition media_ids :: "Document \<Rightarrow> Ulid set" where
  "media_ids d = src_id ` set (doc_sources d) \<union> med_id ` set (doc_library d)"

definition timeline_ids :: "Document \<Rightarrow> Ulid set" where
  "timeline_ids d = trk_id ` set (doc_tracks d) \<union> set (all_clip_ids d)"

lemma media_ids_iff: "i \<notin> media_ids d \<longleftrightarrow> FindSource d i = None \<and> FindLibraryMedia d i = None"
  by (simp add: media_ids_def Find_None_iffs)

lemma timeline_ids_iff: "i \<notin> timeline_ids d \<longleftrightarrow> FindTrack d i = None \<and> FindClip d i = None"
  by (simp add: timeline_ids_def Find_None_iffs)

lemma timeline_ids_sub: "timeline_ids d \<subseteq> set (concat (map track_ids_of (doc_tracks d)))"
  by (auto simp: timeline_ids_def track_ids_of_def clip_ids_of_def)

lemma group_ids_sub:
  "mg_id ` set (seq_multicam_groups (doc_sequence d)) \<subseteq>
   set (concat (map group_ids_of (seq_multicam_groups (doc_sequence d))))"
  by (auto simp: group_ids_of_def)

lemma media_ids_set:
  "media_ids d = set (map src_id (doc_sources d) @
     filter (\<lambda>i. i \<notin> src_id ` set (doc_sources d)) (sort (map med_id (doc_library d))))"
  by (auto simp: media_ids_def)

text \<open>The kinds of identifiers, as the lists that \<open>Validate\<close> registers.\<close>

lemma valid_kinds:
  assumes "valid d"
  shows "distinct ([seq_id (doc_sequence d)] @ map bin_id (doc_bins d) @
     map mk_id (seq_markers (doc_sequence d)) @
     (map src_id (doc_sources d) @
        filter (\<lambda>i. i \<notin> src_id ` set (doc_sources d)) (sort (map med_id (doc_library d)))) @
     concat (map track_ids_of (doc_tracks d)) @ map trn_id (seq_transitions (doc_sequence d)) @
     map cs_id (seq_caption_styles (doc_sequence d)) @
     concat (map group_ids_of (seq_multicam_groups (doc_sequence d))))"
  using valid_registers(1) [OF assms] by (simp only: document_ids_def Let_def append_assoc)

lemma disjoint_kinds:
  assumes "distinct (S @ B @ M @ L @ T @ R @ C @ G)"
  shows "i \<in> set B \<Longrightarrow> i \<notin> set L \<and> i \<notin> set T"
    and "i \<in> set M \<Longrightarrow> i \<notin> set S \<and> i \<notin> set B \<and> i \<notin> set L \<and> i \<notin> set T"
    and "i \<in> set R \<Longrightarrow> i \<notin> set S \<and> i \<notin> set B \<and> i \<notin> set M \<and> i \<notin> set L \<and> i \<notin> set T"
    and "i \<in> set C \<Longrightarrow> i \<notin> set S \<and> i \<notin> set B \<and> i \<notin> set M \<and> i \<notin> set L \<and> i \<notin> set T \<and>
                       i \<notin> set R \<and> i \<notin> set G"
    and "i \<in> set G \<Longrightarrow> i \<notin> set S \<and> i \<notin> set B \<and> i \<notin> set M \<and> i \<notin> set L \<and> i \<notin> set T \<and>
                       i \<notin> set R \<and> i \<notin> set C"
  using assms unfolding distinct_append set_append disjoint_iff Un_iff by (simp_all, metis+)

lemma bin_id_free:
  assumes "valid d" and "FindBin d i \<noteq> None"
  shows "i \<notin> media_ids d" and "i \<notin> timeline_ids d"
  using disjoint_kinds(1) [OF valid_kinds [OF assms(1)], of i] assms(2) timeline_ids_sub [of d]
    group_ids_sub [of d]
  unfolding Find_None_iffs media_ids_set by auto

lemma marker_id_free:
  assumes "valid d" and "FindMarker d i \<noteq> None"
  shows "i \<noteq> seq_id (doc_sequence d)" and "i \<notin> media_ids d" and "i \<notin> timeline_ids d"
    and "FindBin d i = None"
  using disjoint_kinds(2) [OF valid_kinds [OF assms(1)], of i] assms(2) timeline_ids_sub [of d]
    group_ids_sub [of d]
  unfolding Find_None_iffs media_ids_set by auto

lemma transition_id_free:
  assumes "valid d" and "FindTransition d i \<noteq> None"
  shows "i \<noteq> seq_id (doc_sequence d)" and "i \<notin> media_ids d" and "i \<notin> timeline_ids d"
    and "FindBin d i = None" and "FindMarker d i = None"
  using disjoint_kinds(3) [OF valid_kinds [OF assms(1)], of i] assms(2) timeline_ids_sub [of d]
    group_ids_sub [of d]
  unfolding Find_None_iffs media_ids_set by auto

lemma style_id_free:
  assumes "valid d" and "FindCaptionStyle d i \<noteq> None"
  shows "i \<noteq> seq_id (doc_sequence d)" and "i \<notin> media_ids d" and "i \<notin> timeline_ids d"
    and "FindBin d i = None" and "FindMarker d i = None" and "FindTransition d i = None"
    and "FindMulticamGroup d i = None"
  using disjoint_kinds(4) [OF valid_kinds [OF assms(1)], of i] assms(2) timeline_ids_sub [of d]
    group_ids_sub [of d]
  unfolding Find_None_iffs media_ids_set by auto

lemma group_id_free:
  assumes "valid d" and "FindMulticamGroup d i \<noteq> None"
  shows "i \<noteq> seq_id (doc_sequence d)" and "i \<notin> media_ids d" and "i \<notin> timeline_ids d"
    and "FindBin d i = None" and "FindMarker d i = None" and "FindTransition d i = None"
    and "FindCaptionStyle d i = None"
proof -
  have "i \<in> mg_id ` set (seq_multicam_groups (doc_sequence d))"
    using assms(2) unfolding Find_None_iffs by blast
  then have "i \<in> set (concat (map group_ids_of (seq_multicam_groups (doc_sequence d))))"
    by (rule subsetD [OF group_ids_sub])
  note k = disjoint_kinds(5) [OF valid_kinds [OF assms(1)] this]
  from k show "i \<noteq> seq_id (doc_sequence d)" by simp
  from k show "i \<notin> media_ids d" unfolding media_ids_set by blast
  from k timeline_ids_sub show "i \<notin> timeline_ids d" by blast
  from k show "FindBin d i = None" and "FindMarker d i = None" and "FindTransition d i = None"
    and "FindCaptionStyle d i = None" unfolding Find_None_iffs by simp_all
qed

lemma valid_object_ids:
  assumes "valid d"
  shows "FindBin d i \<noteq> None \<Longrightarrow> IsValidUlid i"
    and "FindMarker d i \<noteq> None \<Longrightarrow> IsValidUlid i"
    and "FindTransition d i \<noteq> None \<Longrightarrow> IsValidUlid i"
    and "FindCaptionStyle d i \<noteq> None \<Longrightarrow> IsValidUlid i"
    and "FindMulticamGroup d i \<noteq> None \<Longrightarrow> IsValidUlid i"
    and "FindTrack d i \<noteq> None \<Longrightarrow> IsValidUlid i"
proof -
  let ?s = "doc_sequence d"
  have all: "i \<in> set (document_ids d) \<Longrightarrow> IsValidUlid i"
    using valid_registers(2) [OF assms] by (simp add: list_all_iff)
  have sub: "set (map bin_id (doc_bins d)) \<subseteq> set (document_ids d)"
      "set (map mk_id (seq_markers ?s)) \<subseteq> set (document_ids d)"
      "set (map trn_id (seq_transitions ?s)) \<subseteq> set (document_ids d)"
      "set (map cs_id (seq_caption_styles ?s)) \<subseteq> set (document_ids d)"
      "set (concat (map group_ids_of (seq_multicam_groups ?s))) \<subseteq> set (document_ids d)"
      "set (concat (map track_ids_of (doc_tracks d))) \<subseteq> set (document_ids d)"
    by (auto simp: document_ids_def Let_def)
  show "FindBin d i \<noteq> None \<Longrightarrow> IsValidUlid i"
    and "FindMarker d i \<noteq> None \<Longrightarrow> IsValidUlid i"
    and "FindTransition d i \<noteq> None \<Longrightarrow> IsValidUlid i"
    and "FindCaptionStyle d i \<noteq> None \<Longrightarrow> IsValidUlid i"
    using all subsetD [OF sub(1), of i] subsetD [OF sub(2), of i] subsetD [OF sub(3), of i]
      subsetD [OF sub(4), of i] unfolding Find_None_iffs set_map by metis+
  show "FindMulticamGroup d i \<noteq> None \<Longrightarrow> IsValidUlid i"
    using all subsetD [OF subset_trans [OF group_ids_sub sub(5)], of i] unfolding Find_None_iffs by metis
  show "FindTrack d i \<noteq> None \<Longrightarrow> IsValidUlid i"
    using all subsetD [OF subset_trans [OF timeline_ids_sub sub(6)], of i]
    unfolding Find_None_iffs timeline_ids_def by simp
qed


section \<open>Ordered items: markers, transitions, caption styles, multicam groups\<close>

lemma resolved_index_inside:
  "\<not> bad_insertion_index k xs \<Longrightarrow> nat (resolved_index k xs) \<le> length xs \<and> 0 \<le> resolved_index k xs"
  by (auto simp: bad_insertion_index_def resolved_index_def)

lemma resolved_index_again:
  "\<not> bad_insertion_index k xs \<Longrightarrow>
   \<not> bad_insertion_index (resolved_index k xs) xs \<and>
   resolved_index (resolved_index k xs) xs = resolved_index k xs"
  by (auto simp: bad_insertion_index_def resolved_index_def)

lemma resolved_index_int [simp]: "resolved_index (int k) xs = int k"
  by (simp add: resolved_index_def)

lemma length_remove_first: "List.find P xs = Some x \<Longrightarrow> Suc (length (remove_first P xs)) = length xs"
  by (induction xs) (auto split: if_splits)

lemma index_of_insertion:
  "List.find P xs = Some x \<Longrightarrow> \<not> bad_insertion_index (int (index_of P xs)) (remove_first P xs)"
  using index_of_less [of P xs x] length_remove_first [of P xs x]
  by (simp add: bad_insertion_index_def)

lemma find_insert_at:
  "\<forall>y\<in>set xs. \<not> P y \<Longrightarrow> P x \<Longrightarrow> List.find P (insert_at k x xs) = Some x"
proof -
  assume a: "\<forall>y\<in>set xs. \<not> P y" and x: "P x"
  have "\<forall>y\<in>set (take k xs). \<not> P y" using a by (meson in_set_takeD)
  then have "List.find P (take k xs) = None" by (simp add: find_None_iff_all)
  then show ?thesis using x by (simp add: insert_at_def find_append)
qed

lemma find_remove_first_None:
  "distinct (map g xs) \<Longrightarrow> List.find (\<lambda>x. g x = i) (remove_first (\<lambda>x. g x = i) xs) = None"
  by (induction xs) (auto simp: find_None_iff_all image_iff)

lemma with_items_twice [simp]:
  "with_markers f (with_markers g d) = with_markers (\<lambda>x. f (g x)) d"
  "with_transitions f2 (with_transitions g2 d) = with_transitions (\<lambda>x. f2 (g2 x)) d"
  "with_caption_styles f3 (with_caption_styles g3 d) = with_caption_styles (\<lambda>x. f3 (g3 x)) d"
  "with_multicam_groups f4 (with_multicam_groups g4 d) = with_multicam_groups (\<lambda>x. f4 (g4 x)) d"
  by (simp_all add: with_markers_def with_transitions_def with_caption_styles_def
      with_multicam_groups_def)

lemma with_items_same:
  "f (seq_markers (doc_sequence d)) = seq_markers (doc_sequence d) \<Longrightarrow> with_markers f d = d"
  "f2 (seq_transitions (doc_sequence d)) = seq_transitions (doc_sequence d) \<Longrightarrow>
   with_transitions f2 d = d"
  "f3 (seq_caption_styles (doc_sequence d)) = seq_caption_styles (doc_sequence d) \<Longrightarrow>
   with_caption_styles f3 d = d"
  "f4 (seq_multicam_groups (doc_sequence d)) = seq_multicam_groups (doc_sequence d) \<Longrightarrow>
   with_multicam_groups f4 d = d"
  by (simp_all add: with_markers_def with_transitions_def with_caption_styles_def
      with_multicam_groups_def)

lemma with_items_fields [simp]:
  "seq_markers (doc_sequence (with_markers f d)) = f (seq_markers (doc_sequence d))"
  "seq_transitions (doc_sequence (with_transitions g d)) = g (seq_transitions (doc_sequence d))"
  "seq_caption_styles (doc_sequence (with_caption_styles h d)) = h (seq_caption_styles (doc_sequence d))"
  "seq_multicam_groups (doc_sequence (with_multicam_groups k d)) = k (seq_multicam_groups (doc_sequence d))"
  "doc_tracks (with_markers f d) = doc_tracks d"
  "doc_tracks (with_transitions g d) = doc_tracks d"
  "doc_tracks (with_caption_styles h d) = doc_tracks d"
  "doc_tracks (with_multicam_groups k d) = doc_tracks d"
  "seq_id (doc_sequence (with_markers f d)) = seq_id (doc_sequence d)"
  "seq_id (doc_sequence (with_transitions g d)) = seq_id (doc_sequence d)"
  "seq_id (doc_sequence (with_caption_styles h d)) = seq_id (doc_sequence d)"
  "seq_id (doc_sequence (with_multicam_groups k d)) = seq_id (doc_sequence d)"
  by (simp_all add: with_markers_def with_transitions_def with_caption_styles_def
      with_multicam_groups_def)

text \<open>Lookups of the other kinds do not see an edit of the items.\<close>

lemma other_lookups:
  assumes "doc_tracks d' = doc_tracks d" "doc_bins d' = doc_bins d"
    "doc_sources d' = doc_sources d" "doc_library d' = doc_library d"
  shows "FindTrack d' = FindTrack d" "FindClip d' = FindClip d" "FindBin d' = FindBin d"
    "FindSource d' = FindSource d" "FindLibraryMedia d' = FindLibraryMedia d"
  using assms by (auto simp: FindTrack_def FindClip_def FindBin_def FindSource_def
      FindLibraryMedia_def fun_eq_iff)

lemma with_items_lookups [simp]:
  "FindTrack (with_markers f d) = FindTrack d" "FindClip (with_markers f d) = FindClip d"
  "FindBin (with_markers f d) = FindBin d" "FindSource (with_markers f d) = FindSource d"
  "FindLibraryMedia (with_markers f d) = FindLibraryMedia d"
  "FindTrack (with_transitions g d) = FindTrack d" "FindClip (with_transitions g d) = FindClip d"
  "FindBin (with_transitions g d) = FindBin d" "FindSource (with_transitions g d) = FindSource d"
  "FindLibraryMedia (with_transitions g d) = FindLibraryMedia d"
  "FindMarker (with_transitions g d) = FindMarker d"
  "FindTrack (with_caption_styles h d) = FindTrack d" "FindClip (with_caption_styles h d) = FindClip d"
  "FindBin (with_caption_styles h d) = FindBin d" "FindSource (with_caption_styles h d) = FindSource d"
  "FindLibraryMedia (with_caption_styles h d) = FindLibraryMedia d"
  "FindMarker (with_caption_styles h d) = FindMarker d"
  "FindTransition (with_caption_styles h d) = FindTransition d"
  "FindMulticamGroup (with_caption_styles h d) = FindMulticamGroup d"
  "FindTrack (with_multicam_groups k d) = FindTrack d" "FindClip (with_multicam_groups k d) = FindClip d"
  "FindBin (with_multicam_groups k d) = FindBin d" "FindSource (with_multicam_groups k d) = FindSource d"
  "FindLibraryMedia (with_multicam_groups k d) = FindLibraryMedia d"
  "FindMarker (with_multicam_groups k d) = FindMarker d"
  "FindTransition (with_multicam_groups k d) = FindTransition d"
  "FindCaptionStyle (with_multicam_groups k d) = FindCaptionStyle d"
  by (auto simp: fun_eq_iff with_markers_def with_transitions_def with_caption_styles_def
      with_multicam_groups_def FindTrack_def FindClip_def FindBin_def FindSource_def
      FindLibraryMedia_def FindMarker_def FindTransition_def FindCaptionStyle_def
      FindMulticamGroup_def)


lemma undo_AddMarker:
  assumes "valid d" and "ApplyAddMarker g d op = Inr (d', op', iv)"
  shows "\<exists>r x. iv = RemoveMarker r \<and> ApplyRemoveMarker d' r = Inr (d, r, x)"
proof -
  let ?i = "mk_id (amo_marker op')" and ?P = "\<lambda>m. mk_id m = mk_id (amo_marker op')"
  from assms(2) obtain k where new: "\<forall>m\<in>set (seq_markers (doc_sequence d)). \<not> ?P m"
    and d': "d' = with_markers (insert_at k (amo_marker op')) d"
    and iv: "iv = RemoveMarker \<lparr>rmo_marker_id = ?i\<rparr>"
    by (auto simp: ApplyAddMarker_def Let_def FindMarker_def find_None_iff_all split: if_splits)
  have "FindMarker d' ?i = Some (amo_marker op')"
    using new by (simp add: d' FindMarker_def find_insert_at)
  moreover have "with_markers (remove_first ?P) d' = d"
    using new by (simp add: d' remove_first_insert_at with_items_same)
  ultimately show ?thesis using assms(1) iv by (simp add: ApplyRemoveMarker_def Let_def)
qed

lemma redo_AddMarker:
  assumes "ApplyAddMarker g d op = Inr (d', op', iv)"
  shows "ApplyAddMarker g' d op' = Inr (d', op', iv)"
  using assms IsValidUlid_nonempty
  by (auto simp: ApplyAddMarker_def Let_def resolved_index_again split: if_splits)

lemma undo_RemoveMarker:
  assumes v: "valid d" and a: "ApplyRemoveMarker d op = Inr (d', op', iv)"
  shows "\<exists>r x. iv = AddMarker r \<and> ApplyAddMarker g d' r = Inr (d, r, x)"
proof -
  let ?i = "rmo_marker_id op" and ?P = "\<lambda>m. mk_id m = rmo_marker_id op"
  let ?ms = "seq_markers (doc_sequence d)"
  from a obtain m where m: "FindMarker d ?i = Some m"
    and d': "d' = with_markers (remove_first ?P) d"
    and iv: "iv = AddMarker \<lparr>amo_marker = m, amo_insertion_index = int (index_of ?P ?ms)\<rparr>"
    by (auto simp: ApplyRemoveMarker_def Let_def)
  have found: "List.find ?P ?ms = Some m" using m by (simp add: FindMarker_def)
  have id: "mk_id m = ?i" using find_Some_D [OF found] by simp
  have some: "FindMarker d ?i \<noteq> None" using m by simp
  note free = marker_id_free [OF v some] and ok = valid_object_ids(2) [OF v some]
  have "FindMarker d' ?i = None"
    using valid_distinct_items(2) [OF v] by (simp add: d' FindMarker_def find_remove_first_None)
  moreover have "with_markers (insert_at (index_of ?P ?ms) m) d' = d"
    by (simp add: d' insert_at_remove_first [OF found] with_items_same)
  ultimately show ?thesis
    using free ok v IsValidUlid_nonempty [OF ok] index_of_insertion [OF found]
    by (auto simp: iv ApplyAddMarker_def Let_def id d' media_ids_iff timeline_ids_iff)
qed

lemma undo_UpdateMarker:
  assumes v: "valid d" and a: "ApplyUpdateMarker d op = Inr (d', op', iv)"
  shows "\<exists>r x. iv = UpdateMarker r \<and> ApplyUpdateMarker d' r = Inr (d, r, x)"
proof -
  let ?P = "\<lambda>m. mk_id m = umo_marker_id op"
  from a obtain m where m: "List.find ?P (seq_markers (doc_sequence d)) = Some m"
    by (auto simp: ApplyUpdateMarker_def FindMarker_def)
  have id: "mk_id m = umo_marker_id op" using find_Some_D [OF m] by simp
  have "update_first ?P (\<lambda>x. x\<lparr>mk_name := mk_name m, mk_time := mk_time m, mk_color := mk_color m,
      mk_category := mk_category m\<rparr>) (seq_markers (doc_sequence d)) = seq_markers (doc_sequence d)"
    by (rule update_first_id) (simp add: m)
  then show ?thesis using v a
    by (auto simp: ApplyUpdateMarker_def FindMarker_def m id find_update_first
        update_first_update_first with_items_same)
qed

lemma undo_AddTransition:
  assumes "valid d" and "ApplyAddTransition g d op = Inr (d', op', iv)"
  shows "\<exists>r x. iv = RemoveTransition r \<and> ApplyRemoveTransition d' r = Inr (d, r, x)"
proof -
  let ?i = "trn_id (atr_transition op')" and ?P = "\<lambda>m. trn_id m = trn_id (atr_transition op')"
  from assms(2) obtain k where new: "\<forall>m\<in>set (seq_transitions (doc_sequence d)). \<not> ?P m"
    and d': "d' = with_transitions (insert_at k (atr_transition op')) d"
    and iv: "iv = RemoveTransition \<lparr>rtr_transition_id = ?i\<rparr>"
    by (auto simp: ApplyAddTransition_def Let_def FindTransition_def find_None_iff_all split: if_splits)
  have "FindTransition d' ?i = Some (atr_transition op')"
    using new by (simp add: d' FindTransition_def find_insert_at)
  moreover have "with_transitions (remove_first ?P) d' = d"
    using new by (simp add: d' remove_first_insert_at with_items_same)
  ultimately show ?thesis using assms(1) iv by (simp add: ApplyRemoveTransition_def Let_def)
qed

lemma redo_AddTransition:
  assumes "ApplyAddTransition g d op = Inr (d', op', iv)"
  shows "ApplyAddTransition g' d op' = Inr (d', op', iv)"
  using assms IsValidUlid_nonempty
  by (auto simp: ApplyAddTransition_def Let_def resolved_index_again split: if_splits)

lemma undo_RemoveTransition:
  assumes v: "valid d" and a: "ApplyRemoveTransition d op = Inr (d', op', iv)"
  shows "\<exists>r x. iv = AddTransition r \<and> ApplyAddTransition g d' r = Inr (d, r, x)"
proof -
  let ?i = "rtr_transition_id op" and ?P = "\<lambda>m. trn_id m = rtr_transition_id op"
  let ?ms = "seq_transitions (doc_sequence d)"
  from a obtain m where m: "FindTransition d ?i = Some m"
    and d': "d' = with_transitions (remove_first ?P) d"
    and iv: "iv = AddTransition \<lparr>atr_transition = m, atr_insertion_index = int (index_of ?P ?ms)\<rparr>"
    by (auto simp: ApplyRemoveTransition_def Let_def)
  have found: "List.find ?P ?ms = Some m" using m by (simp add: FindTransition_def)
  have id: "trn_id m = ?i" using find_Some_D [OF found] by simp
  have some: "FindTransition d ?i \<noteq> None" using m by simp
  note free = transition_id_free [OF v some] and ok = valid_object_ids(3) [OF v some]
  have "FindTransition d' ?i = None"
    using valid_distinct_items(3) [OF v] by (simp add: d' FindTransition_def find_remove_first_None)
  moreover have "with_transitions (insert_at (index_of ?P ?ms) m) d' = d"
    by (simp add: d' insert_at_remove_first [OF found] with_items_same)
  ultimately show ?thesis
    using free ok v IsValidUlid_nonempty [OF ok] index_of_insertion [OF found]
    by (auto simp: iv ApplyAddTransition_def Let_def id d' media_ids_iff timeline_ids_iff)
qed

lemma undo_UpdateTransition:
  assumes v: "valid d" and a: "ApplyUpdateTransition d op = Inr (d', op', iv)"
  shows "\<exists>r x. iv = UpdateTransition r \<and> ApplyUpdateTransition d' r = Inr (d, r, x)"
proof -
  let ?P = "\<lambda>m. trn_id m = utr_transition_id op"
  from a obtain m where m: "List.find ?P (seq_transitions (doc_sequence d)) = Some m"
    by (auto simp: ApplyUpdateTransition_def FindTransition_def)
  have id: "trn_id m = utr_transition_id op" using find_Some_D [OF m] by simp
  have "update_first ?P (\<lambda>x. x\<lparr>trn_type := trn_type m, trn_duration := trn_duration m,
      trn_alignment := trn_alignment m\<rparr>) (seq_transitions (doc_sequence d))
      = seq_transitions (doc_sequence d)"
    by (rule update_first_id) (simp add: m)
  then show ?thesis using v a
    by (auto simp: ApplyUpdateTransition_def FindTransition_def m id find_update_first
        update_first_update_first with_items_same)
qed


lemma undo_AddCaptionStyle:
  assumes v: "valid d" and a: "ApplyAddCaptionStyle g d op = Inr (d', op', iv)"
  shows "\<exists>r x. iv = RemoveCaptionStyle r \<and> ApplyRemoveCaptionStyle d' r = Inr (d, r, x)"
proof -
  let ?i = "cs_id (acs_style op')" and ?P = "\<lambda>m. cs_id m = cs_id (acs_style op')"
  from a obtain k where new: "\<forall>m\<in>set (seq_caption_styles (doc_sequence d)). \<not> ?P m"
    and ok: "IsValidUlid ?i" and d': "d' = with_caption_styles (insert_at k (acs_style op')) d"
    and iv: "iv = RemoveCaptionStyle \<lparr>rcs_style_id = ?i\<rparr>"
    by (auto simp: ApplyAddCaptionStyle_def Let_def FindCaptionStyle_def find_None_iff_all
        split: if_splits)
  have "FindCaptionStyle d' ?i = Some (acs_style op')"
    using new by (simp add: d' FindCaptionStyle_def find_insert_at)
  moreover have "with_caption_styles (remove_first ?P) d' = d"
    using new by (simp add: d' remove_first_insert_at with_items_same)
  moreover have "\<not> list_ex (\<lambda>t. list_ex (\<lambda>c. clip_caption_group_id c = ?i) (trk_clips t)) (doc_tracks d')"
    using valid_caption_group [OF v] new IsValidUlid_nonempty [OF ok]
    by (fastforce simp: d' list_ex_iff)
  ultimately show ?thesis using v iv by (simp add: ApplyRemoveCaptionStyle_def Let_def)
qed

lemma redo_AddCaptionStyle:
  assumes "ApplyAddCaptionStyle g d op = Inr (d', op', iv)"
  shows "ApplyAddCaptionStyle g' d op' = Inr (d', op', iv)"
  using assms IsValidUlid_nonempty
  by (auto simp: ApplyAddCaptionStyle_def Let_def resolved_index_again split: if_splits)

lemma undo_RemoveCaptionStyle:
  assumes v: "valid d" and a: "ApplyRemoveCaptionStyle d op = Inr (d', op', iv)"
  shows "\<exists>r x. iv = AddCaptionStyle r \<and> ApplyAddCaptionStyle g d' r = Inr (d, r, x)"
proof -
  let ?i = "rcs_style_id op" and ?P = "\<lambda>m. cs_id m = rcs_style_id op"
  let ?ms = "seq_caption_styles (doc_sequence d)"
  from a obtain m where m: "FindCaptionStyle d ?i = Some m"
    and d': "d' = with_caption_styles (remove_first ?P) d"
    and iv: "iv = AddCaptionStyle \<lparr>acs_style = m, acs_insertion_index = int (index_of ?P ?ms)\<rparr>"
    by (auto simp: ApplyRemoveCaptionStyle_def Let_def)
  have found: "List.find ?P ?ms = Some m" using m by (simp add: FindCaptionStyle_def)
  have id: "cs_id m = ?i" using find_Some_D [OF found] by simp
  have some: "FindCaptionStyle d ?i \<noteq> None" using m by simp
  note free = style_id_free [OF v some] and ok = valid_object_ids(4) [OF v some]
  have "FindCaptionStyle d' ?i = None"
    using valid_distinct_items(4) [OF v] by (simp add: d' FindCaptionStyle_def find_remove_first_None)
  moreover have "with_caption_styles (insert_at (index_of ?P ?ms) m) d' = d"
    by (simp add: d' insert_at_remove_first [OF found] with_items_same)
  ultimately show ?thesis
    using free ok v IsValidUlid_nonempty [OF ok] index_of_insertion [OF found]
    by (auto simp: iv ApplyAddCaptionStyle_def Let_def id d' media_ids_iff timeline_ids_iff)
qed

lemma AddMulticamGroup_effect:
  assumes "ApplyAddMulticamGroup g d op = Inr (d', op', iv)"
  obtains k where "\<forall>m\<in>set (seq_multicam_groups (doc_sequence d)). mg_id m \<noteq> mg_id (amg_group op')"
    and "d' = with_multicam_groups (insert_at k (amg_group op')) d" and "valid d'"
    and "iv = RemoveMulticamGroup \<lparr>rmg_group_id = mg_id (amg_group op')\<rparr>"
  using assms
  by (auto simp: ApplyAddMulticamGroup_def Let_def FindMulticamGroup_def find_None_iff_all
      split: if_splits prod.splits)

lemma undo_AddMulticamGroup:
  assumes v: "valid d" and a: "ApplyAddMulticamGroup g d op = Inr (d', op', iv)"
  shows "\<exists>r x. iv = RemoveMulticamGroup r \<and> ApplyRemoveMulticamGroup d' r = Inr (d, r, x)"
proof -
  let ?i = "mg_id (amg_group op')" and ?P = "\<lambda>m. mg_id m = mg_id (amg_group op')"
  from AddMulticamGroup_effect [OF a] obtain k where
    new: "\<forall>m\<in>set (seq_multicam_groups (doc_sequence d)). \<not> ?P m"
    and d': "d' = with_multicam_groups (insert_at k (amg_group op')) d"
    and iv: "iv = RemoveMulticamGroup \<lparr>rmg_group_id = ?i\<rparr>" by metis
  have "FindMulticamGroup d' ?i = Some (amg_group op')"
    using new by (simp add: d' FindMulticamGroup_def find_insert_at)
  moreover have "with_multicam_groups (remove_first ?P) d' = d"
    using new by (simp add: d' remove_first_insert_at with_items_same)
  ultimately show ?thesis using v iv by (simp add: ApplyRemoveMulticamGroup_def Let_def)
qed

lemma fill_angle_ids_done:
  "\<forall>a\<in>set as. ang_id a \<noteq> [] \<Longrightarrow> fill_angle_ids g as = (as, g)"
  by (induction as) auto

lemma redo_AddMulticamGroup:
  assumes "ApplyAddMulticamGroup g d op = Inr (d', op', iv)"
  shows "ApplyAddMulticamGroup g' d op' = Inr (d', op', iv)"
proof -
  from AddMulticamGroup_effect [OF assms] obtain k where
    d': "d' = with_multicam_groups (insert_at k (amg_group op')) d" and "valid d'" by metis
  then have "set (group_ids_of (amg_group op')) \<subseteq> set (document_ids d')"
    by (auto simp: document_ids_def Let_def)
  with valid_registers(2) [OF \<open>valid d'\<close>]
  have "\<forall>a\<in>set (mg_angles (amg_group op')). IsValidUlid (ang_id a)"
    by (auto simp: list_all_iff group_ids_of_def)
  then have "\<forall>a\<in>set (mg_angles (amg_group op')). ang_id a \<noteq> []"
    using IsValidUlid_nonempty by blast
  note filled = fill_angle_ids_done [OF this]
  show ?thesis using assms filled IsValidUlid_nonempty
    by (auto simp: ApplyAddMulticamGroup_def Let_def resolved_index_again split: if_splits prod.splits)
qed

lemma undo_RemoveMulticamGroup:
  assumes v: "valid d" and a: "ApplyRemoveMulticamGroup d op = Inr (d', op', iv)"
  shows "\<exists>r x. iv = AddMulticamGroup r \<and> ApplyAddMulticamGroup g d' r = Inr (d, r, x)"
proof -
  let ?i = "rmg_group_id op" and ?P = "\<lambda>m. mg_id m = rmg_group_id op"
  let ?ms = "seq_multicam_groups (doc_sequence d)"
  from a obtain m where m: "FindMulticamGroup d ?i = Some m"
    and d': "d' = with_multicam_groups (remove_first ?P) d"
    and iv: "iv = AddMulticamGroup \<lparr>amg_group = m, amg_insertion_index = int (index_of ?P ?ms)\<rparr>"
    by (auto simp: ApplyRemoveMulticamGroup_def Let_def)
  have found: "List.find ?P ?ms = Some m" using m by (simp add: FindMulticamGroup_def)
  have id: "mg_id m = ?i" and mem: "m \<in> set ?ms" using find_Some_D [OF found] by simp_all
  have some: "FindMulticamGroup d ?i \<noteq> None" using m by simp
  note free = group_id_free [OF v some] and ok = valid_object_ids(5) [OF v some]
  have dist: "distinct (concat (map group_ids_of ?ms))"
    using valid_kinds [OF v] unfolding distinct_append by blast
  have "distinct (map mg_id ?ms)"
    using distinct_concat_sub [OF dist, of "\<lambda>x. [mg_id x]"] by (simp add: group_ids_of_def concat_map_singleton)
  then have "FindMulticamGroup d' ?i = None"
    by (simp add: d' FindMulticamGroup_def find_remove_first_None)
  moreover have "with_multicam_groups (insert_at (index_of ?P ?ms) m) d' = d"
    by (simp add: d' insert_at_remove_first [OF found] with_items_same)
  moreover have "fill_angle_ids g (mg_angles m) = (mg_angles m, g)"
  proof (rule fill_angle_ids_done)
    have "set (group_ids_of m) \<subseteq> set (document_ids d)"
      using mem by (auto simp: document_ids_def Let_def)
    with valid_registers(2) [OF v] have "\<forall>a\<in>set (mg_angles m). IsValidUlid (ang_id a)"
      by (auto simp: list_all_iff group_ids_of_def)
    then show "\<forall>a\<in>set (mg_angles m). ang_id a \<noteq> []" using IsValidUlid_nonempty by blast
  qed
  ultimately show ?thesis
    using free ok v IsValidUlid_nonempty [OF ok] index_of_insertion [OF found]
    by (auto simp: iv ApplyAddMulticamGroup_def Let_def id d' media_ids_iff timeline_ids_iff)
qed

lemma iterR_angles_snd:
  "iterR (validate_angle d gc) i as (ids, A, C) = Inr (ids', A', C') \<Longrightarrow>
   A' = A \<union> ang_id ` set as"
proof (induction as arbitrary: i ids A C)
  case Nil
  then show ?case by simp
next
  case (Cons a as)
  from Cons.prems obtain ids1 A1 C1 where
    "validate_angle d gc i a (ids, A, C) = Inr (ids1, A1, C1)"
    and "iterR (validate_angle d gc) (Suc i) as (ids1, A1, C1) = Inr (ids', A', C')"
    by (auto split: prod.splits)
  moreover from this(1) have "A1 = insert (ang_id a) A"
    by (auto simp: validate_angle_def Let_def split: if_splits option.splits)
  ultimately show ?case using Cons.IH by fastforce
qed

lemma active_angle_is_own:
  assumes "validate_multicam d j m x = Inr y"
  shows "mg_active_angle_id m \<noteq> [] \<longrightarrow>
    list_ex (\<lambda>x. ang_id x = mg_active_angle_id m) (mg_angles m)"
  using assms
  by (auto simp: validate_multicam_def Let_def list_ex_iff split: if_splits
      dest!: iterR_angles_snd) metis

lemma undo_SetMulticamActiveAngle:
  assumes v: "valid d" and a: "ApplySetMulticamActiveAngle d op = Inr (d', op', iv)"
  shows "\<exists>r x. iv = SetMulticamActiveAngle r \<and> ApplySetMulticamActiveAngle d' r = Inr (d, r, x)"
proof -
  let ?P = "\<lambda>m. mg_id m = sma_group_id op" and ?ms = "seq_multicam_groups (doc_sequence d)"
  from a obtain m where m: "List.find ?P ?ms = Some m"
    by (auto simp: ApplySetMulticamActiveAngle_def FindMulticamGroup_def Let_def)
  have id: "mg_id m = sma_group_id op" and mem: "m \<in> set ?ms" using find_Some_D [OF m] by simp_all
  from v obtain ids7 ids8 where "iterR (validate_multicam d) 0 ?ms ids7 = Inr ids8"
    by (rule Validate_stages)
  from iterR_member [OF this mem] obtain j x y where "validate_multicam d j m x = Inr y" by auto
  then have own: "mg_active_angle_id m \<noteq> [] \<longrightarrow>
      list_ex (\<lambda>x. ang_id x = mg_active_angle_id m) (mg_angles m)"
    by (rule active_angle_is_own)
  have "update_first ?P (\<lambda>x. x\<lparr>mg_active_angle_id := mg_active_angle_id m\<rparr>) ?ms = ?ms"
    by (rule update_first_id) (simp add: m)
  then show ?thesis using v a own
    by (auto simp: ApplySetMulticamActiveAngle_def FindMulticamGroup_def Let_def m id
        find_update_first update_first_update_first with_items_same)
qed

end
