(* ===== verification/Ops_Edit.thy ===== *)
theory Ops_Edit
  imports Items_Undo
begin

text \<open>
  Insert, remove, clear, paste and trim of clips, \<open>src/Operations.cc\<close> lines 281 to 919.
\<close>

section \<open>Insert\<close>

definition ApplyInsert :: "id_supply \<Rightarrow> Document \<Rightarrow> InsertClipOperation \<Rightarrow> InsertClipOperation applied" where
  "ApplyInsert g d op0 =
     (case FindTrack d (ico_track_id op0) of
        None \<Rightarrow> reject UnknownTrack (''unknown track_id '' @ quoted (ico_track_id op0))
      | Some track \<Rightarrow>
      case FindSource d (ico_source_id op0) of
        None \<Rightarrow> reject UnknownSource (''unknown source_id '' @ quoted (ico_source_id op0))
      | Some source \<Rightarrow>
      if trk_kind track = ''video'' \<and>
         (case FindLibraryMedia d (ico_source_id op0) of
            None \<Rightarrow> False | Some m \<Rightarrow> med_metadata_complete m \<and> \<not> med_has_video m)
      then reject InvalidOperation (''source_id '' @ quoted (ico_source_id op0) @
             '' is audio-only and cannot be inserted on a video track'')
      else if rt_rate (ico_timeline_in op0) \<le> 0 \<or> rt_value (ico_timeline_in op0) < 0
      then reject InvalidTimelineIn ''timeline_in must be non-negative with a positive rate''
      else bindR (ValidateSourceRange source (ico_source_in op0) (ico_duration op0)) (\<lambda>_.
      let op = (if ico_clip_id op0 = [] then op0\<lparr>ico_clip_id := fst (fresh g)\<rparr> else op0);
          i = ico_clip_id op; clips = trk_clips track in
      if \<not> IsValidUlid i \<or> FindClip d i \<noteq> None \<or> FindSource d i \<noteq> None \<or> FindTrack d i \<noteq> None
      then reject DuplicateId (''insert clip_id is invalid or already exists: '' @ quoted i)
      else bindT (partition_search (\<lambda>c. rt_lt (clip_timeline_in c) (ico_timeline_in op))
                    clips 0 (length clips)) (\<lambda>index.
      bindT (if index = 0 then Inr None
             else let previous = clips ! (index - 1) in
               bindR (rt_add (clip_timeline_in previous) (clip_duration previous)) (\<lambda>previousEnd.
               bindR (rt_lt (ico_timeline_in op) previousEnd) (\<lambda>b.
                 Inr (if b then Some previous else None)))) (\<lambda>overlapped.
      case overlapped of
        Some previous \<Rightarrow>
          reject Overlap (''insertion timeline_in overlaps clip_id '' @ quoted (clip_id previous))
      | None \<Rightarrow>
      bindT (mapR (shift_clip (ico_duration op)) (drop index clips)) (\<lambda>shifted.
      let before = PositionsAfter track index;
          inserted = (new_clip i (ico_source_id op) (ico_source_in op) (ico_duration op)
                        (ico_timeline_in op))\<lparr>clip_include_audio := False\<rparr>;
          d1 = ModifyTrack (ico_track_id op) (with_clips (\<lambda>_. take index clips @ inserted # shifted)) d in
      bindR (if ico_exact_timeline_result op \<noteq> []
             then ApplyExactPositions d1 (ico_exact_timeline_result op) else Inr d1) (\<lambda>d2.
      bindR (ValidateResult d2) (\<lambda>_.
        Inr (d2,
             if ico_exact_timeline_result op = []
             then op\<lparr>ico_exact_timeline_result :=
                    (case FindTrack d2 (ico_track_id op) of
                       None \<Rightarrow> [] | Some updated \<Rightarrow> PositionsAfter updated (index + 1))\<rparr>
             else op,
             RemoveClip \<lparr>rco_clip_id = i, rco_sync_track_ids = [],
                         rco_exact_timeline_result = before\<rparr>))))))))"

section \<open>Remove\<close>

definition append_positions ::
  "Document \<Rightarrow> RationalTime \<Rightarrow> Ulid \<Rightarrow> ExactTimelinePosition list \<Rightarrow>
   string + ExactTimelinePosition list" where
  "append_positions d boundary i before =
     (case FindTrack d i of
        None \<Rightarrow> Inr before
      | Some t \<Rightarrow> AppendPositionsAtOrAfter t boundary before)"

definition shift_track :: "RationalTime \<Rightarrow> RationalTime \<Rightarrow> Ulid \<Rightarrow> Document \<Rightarrow> string + Document" where
  "shift_track boundary delta i d =
     (case FindTrack d i of
        None \<Rightarrow> Inr d
      | Some t \<Rightarrow> bindR (ShiftPositionsAtOrAfter boundary delta t) (\<lambda>t'. Inr (ModifyTrack i (\<lambda>_. t') d)))"

definition unshift_clip :: "RationalTime \<Rightarrow> DocumentClip \<Rightarrow> string + DocumentClip" where
  "unshift_clip dur c =
     bindR (rt_sub (clip_timeline_in c) dur) (\<lambda>t. Inr (c\<lparr>clip_timeline_in := t\<rparr>))"

definition ApplyRemove :: "Document \<Rightarrow> RemoveClipOperation \<Rightarrow> RemoveClipOperation applied" where
  "ApplyRemove d op =
     (let hadExact = rco_exact_timeline_result op \<noteq> []; i = rco_clip_id op in
      case FindTrackForClip d i of
        None \<Rightarrow> reject UnknownClip (''unknown clip_id '' @ quoted i)
      | Some track \<Rightarrow>
      let clips = trk_clips track; index = index_of (\<lambda>c. clip_id c = i) clips;
          removed = clips ! index in
      bindT (rt_add (clip_timeline_in removed) (clip_duration removed)) (\<lambda>boundary.
      case List.find (\<lambda>s. FindTrack d s = None) (rco_sync_track_ids op) of
        Some s \<Rightarrow> reject UnknownTrack (''unknown remove sync track_id '' @ quoted s)
      | None \<Rightarrow>
      let affected = fold push_unique (rco_sync_track_ids op) [trk_id track];
          beforeTracks = snapshots_each d affected in
      bindT (loopR (append_positions d boundary) (tl affected) (PositionsAfter track (index + 1))) (\<lambda>before.
      bindT (mapR (unshift_clip (clip_duration removed)) (drop (index + 1) clips)) (\<lambda>following.
      let d1 = ModifyTrackForClip i (with_clips (\<lambda>_. take index clips @ following)) d in
      case Negate (clip_duration removed) of
        None \<Rightarrow> reject ArithmeticError ''removed clip duration cannot be negated''
      | Some rippleDelta \<Rightarrow>
      bindT (loopR (shift_track boundary rippleDelta) (tl affected) d1) (\<lambda>d2.
      bindR (if hadExact then ApplyExactPositions d2 (rco_exact_timeline_result op) else Inr d2) (\<lambda>d3.
      bindR (ValidateResult d3) (\<lambda>_.
        Inr (d3,
             if hadExact then op
             else op\<lparr>rco_exact_timeline_result := CurrentPositionsFor d3 before\<rparr>,
             if \<not> hadExact
             then ClearClips \<lparr>ccs_clip_ids = [i], ccs_exact_track_result = beforeTracks\<rparr>
             else InsertClip \<lparr>ico_track_id = trk_id track, ico_source_id = clip_source_id removed,
                    ico_source_in = clip_source_in removed, ico_duration = clip_duration removed,
                    ico_timeline_in = clip_timeline_in removed, ico_clip_id = clip_id removed,
                    ico_exact_timeline_result = before\<rparr>))))))))"

section \<open>Clear\<close>

definition without_clip :: "Ulid \<Rightarrow> DocumentTrack \<Rightarrow> DocumentTrack" where
  "without_clip i = with_clips (filter (\<lambda>c. clip_id c \<noteq> i))"

definition ApplyClear :: "Document \<Rightarrow> ClearClipOperation \<Rightarrow> ClearClipOperation applied" where
  "ApplyClear d op =
     (let i = cco_clip_id op in
      case cco_exact_track_result op of
        state # rest \<Rightarrow>
          if rest \<noteq> [] then reject InvalidOperation ''exact clear state must contain the clip track''
          else (case FindTrack d (ets_track_id state) of
                  None \<Rightarrow> reject UnknownTrack ''exact clear references an unknown track''
                | Some track \<Rightarrow>
                    checked (ModifyTrack (ets_track_id state) (with_clips (\<lambda>_. ets_clips state)) d) op
                      (ClearClip \<lparr>cco_clip_id = i,
                         cco_exact_track_result = [snapshot (trk_id track) track]\<rparr>))
      | [] \<Rightarrow>
          (case FindTrackForClip d i of
             None \<Rightarrow> reject UnknownClip (''unknown clip_id '' @ quoted i)
           | Some track \<Rightarrow>
               checked (ModifyTrackForClip i (without_clip i) d)
                 (op\<lparr>cco_exact_track_result := [snapshot (trk_id track) (without_clip i track)]\<rparr>)
                 (ClearClip \<lparr>cco_clip_id = i,
                    cco_exact_track_result = [snapshot (trk_id track) track]\<rparr>)))"

definition collect_clear ::
  "Document \<Rightarrow> Ulid \<Rightarrow> Ulid list \<times> Ulid list \<Rightarrow> (Ulid list \<times> Ulid list) result" where
  "collect_clear d i = (\<lambda>(trackIds, seen).
     case FindTrackForClip d i of
       None \<Rightarrow> reject UnknownClip (''unknown multi-clear clip_id '' @ quoted i)
     | Some track \<Rightarrow>
         if i \<in> set seen then reject InvalidOperation ''ClearClips members must be unique''
         else Inr (trackIds @ [trk_id track], seen @ [i]))"

definition ApplyClearClips :: "Document \<Rightarrow> ClearClipsOperation \<Rightarrow> ClearClipsOperation applied" where
  "ApplyClearClips d op =
     (if ccs_exact_track_result op \<noteq> []
      then bindR (replay_exact ''exact multi-clear references an unknown track'' d
                    (ccs_exact_track_result op)) (\<lambda>(d', before).
             Inr (d', op, ClearClips \<lparr>ccs_clip_ids = ccs_clip_ids op, ccs_exact_track_result = before\<rparr>))
      else if ccs_clip_ids op = []
      then reject InvalidOperation ''ClearClips requires at least one clip''
      else bindR (loopR (collect_clear d) (ccs_clip_ids op) ([], [])) (\<lambda>(trackIds, _).
        let before = snapshots d trackIds;
            d' = fold (\<lambda>i. ModifyTrackForClip i (without_clip i)) (ccs_clip_ids op) d in
        checked d' (op\<lparr>ccs_exact_track_result := snapshots d' trackIds\<rparr>)
          (ClearClips \<lparr>ccs_clip_ids = ccs_clip_ids op, ccs_exact_track_result = before\<rparr>)))"

section \<open>Trim\<close>

definition ApplyTrim :: "Document \<Rightarrow> TrimClipOperation \<Rightarrow> TrimClipOperation applied" where
  "ApplyTrim d op =
     (let i = tco_clip_id op; delta = tco_delta op in
      case FindClip d i of
        None \<Rightarrow> reject UnknownClip (''unknown clip_id '' @ quoted i)
      | Some clip \<Rightarrow>
      if rt_rate delta \<le> 0 then reject ArithmeticError ''trim delta rate must be positive''
      else
      let source = FindSource d (clip_source_id clip);
          captionClip = (case FindTrackForClip d (clip_id clip) of
                           None \<Rightarrow> False | Some t \<Rightarrow> trk_kind t = ''caption'');
          before = TimesOf clip in
      if source = None \<and> \<not> captionClip
      then reject UnknownSource (''clip references unknown source_id '' @ quoted (clip_source_id clip))
      else
      bindT (case tco_edge op of
               Head \<Rightarrow>
                 bindR (if captionClip then Inr (clip_source_in clip)
                        else rt_add (clip_source_in clip) delta) (\<lambda>si.
                 bindR (rt_sub (clip_duration clip) delta) (\<lambda>du.
                 bindR (rt_add (clip_timeline_in clip) delta) (\<lambda>ti.
                   Inr \<lparr>ect_source_in = si, ect_duration = du, ect_timeline_in = ti\<rparr>)))
             | Tail \<Rightarrow>
                 bindR (rt_add (clip_duration clip) delta) (\<lambda>du.
                   Inr (before\<lparr>ect_duration := du\<rparr>))) (\<lambda>requested.
      if rt_value (ect_duration requested) \<le> 0
      then reject InvalidDuration ''trim would make duration zero or negative''
      else if rt_value (ect_timeline_in requested) < 0
      then reject InvalidTimelineIn ''trim would make timeline_in negative''
      else
      bindR (case source of
               None \<Rightarrow> Inr ()
             | Some s \<Rightarrow> ValidateEditedSourceRange ''trim_clip'' clip s requested) (\<lambda>_.
      let times = (case tco_exact_clip_result op of None \<Rightarrow> requested | Some exact \<Rightarrow> exact);
          d' = ModifyClip i (set_times times) d in
      bindR (ValidateResult d') (\<lambda>_.
      case Negate delta of
        None \<Rightarrow> reject ArithmeticError ''trim delta cannot be negated''
      | Some inverseDelta \<Rightarrow>
          Inr (d', op\<lparr>tco_exact_clip_result := Some times\<rparr>,
               TrimClip \<lparr>tco_clip_id = i, tco_edge = tco_edge op, tco_delta = inverseDelta,
                         tco_exact_clip_result = Some before\<rparr>)))))"

end
