(* ===== verification/Ops_Move.thy ===== *)
theory Ops_Move
  imports Ops_Edit
begin

text \<open>
  Paste and the move operations, \<open>src/Operations.cc\<close> lines 580 to 790 and 921 to
  1251.  Both overwrite: clips under the new material are cut, and a cut through the
  middle of a clip makes a right half with a fresh identifier.
\<close>

section \<open>Paste\<close>

record paste_scan =
  ps_items :: "PastedClip list"
  ps_supply :: id_supply
  ps_copied :: "Ulid list"
  ps_pasted :: "Ulid list"

definition scan_pasted :: "Document \<Rightarrow> PastedClip \<Rightarrow> paste_scan \<Rightarrow> paste_scan result" where
  "scan_pasted d item0 s =
     (case FindTrack d (pc_track_id item0) of
        None \<Rightarrow> reject UnknownTrack (''paste references unknown track_id '' @ quoted (pc_track_id item0))
      | Some track \<Rightarrow>
      case FindSource d (pc_source_id item0) of
        None \<Rightarrow> reject UnknownSource
                 (''paste references unknown source_id '' @ quoted (pc_source_id item0))
      | Some source \<Rightarrow>
      if \<not> IsValidUlid (pc_copied_clip_id item0) \<or> pc_copied_clip_id item0 \<in> set (ps_copied s)
      then reject DuplicateId ''pasted copied_clip_id is invalid or duplicated''
      else if rt_rate (pc_timeline_in item0) \<le> 0 \<or> rt_value (pc_timeline_in item0) < 0
      then reject InvalidTimelineIn ''pasted timeline_in must be non-negative''
      else bindR (ValidateSourceRange source (pc_source_in item0) (pc_duration item0)) (\<lambda>_.
      let (item, g) = (if pc_clip_id item0 = []
             then (case fresh (ps_supply s) of (i, g) \<Rightarrow> (item0\<lparr>pc_clip_id := i\<rparr>, g))
             else (item0, ps_supply s));
          i = pc_clip_id item in
      if \<not> IsValidUlid i \<or> FindClip d i \<noteq> None \<or> FindTrack d i \<noteq> None \<or> FindSource d i \<noteq> None \<or>
         i \<in> set (ps_pasted s)
      then reject DuplicateId ''pasted clip_id is invalid or already exists''
      else Inr \<lparr>ps_items = ps_items s @ [item], ps_supply = g,
                ps_copied = ps_copied s @ [pc_copied_clip_id item],
                ps_pasted = ps_pasted s @ [i]\<rparr>))"

text \<open>
  The second pass.  \<open>linkCounts\<close> and \<open>pastedByCopiedId\<close> are complete when it starts,
  so they are read off the scanned items; \<open>pastedLinkGroups\<close> is the map in the state.
\<close>

definition link_count :: "PastedClip list \<Rightarrow> Ulid \<Rightarrow> nat" where
  "link_count items grp =
     length (filter (\<lambda>x. pc_copied_link_group_id x \<noteq> [] \<and> pc_copied_link_group_id x = grp) items)"

definition relink_pasted ::
  "PastedClip list \<Rightarrow> PastedClip \<Rightarrow> PastedClip list \<times> (Ulid \<rightharpoonup> Ulid) \<times> id_supply \<Rightarrow>
   (PastedClip list \<times> (Ulid \<rightharpoonup> Ulid) \<times> id_supply) result" where
  "relink_pasted items item = (\<lambda>(done_items, groups, g).
     let copied = pc_copied_link_group_id item in
     if \<not> (copied \<noteq> [] \<and> link_count items copied > 1)
     then Inr (done_items @ [item\<lparr>pc_link_group_id := [], pc_sync_anchor_clip_id := [],
                                  pc_sync_reference_delta := RT 0 1\<rparr>], groups, g)
     else
       let known = (case groups copied of None \<Rightarrow> [] | Some x \<Rightarrow> x);
           (grp, g') = (if known = []
                        then if pc_link_group_id item = [] then fresh g else (pc_link_group_id item, g)
                        else (known, g)) in
       if known \<noteq> [] \<and> pc_link_group_id item \<noteq> [] \<and> pc_link_group_id item \<noteq> known
       then reject InvalidOperation ''pasted linked clips disagree on their new link group''
       else (case map_of (map (\<lambda>x. (pc_copied_clip_id x, pc_clip_id x)) items)
                    (pc_copied_sync_anchor_clip_id item) of
               None \<Rightarrow> reject InvalidOperation ''pasted linked selection is missing its sync anchor''
             | Some anchor \<Rightarrow>
                 Inr (done_items @ [item\<lparr>pc_link_group_id := grp, pc_sync_anchor_clip_id := anchor\<rparr>],
                      groups(copied \<mapsto> grp), g')))"

definition clip_meets ::
  "RationalTime \<Rightarrow> RationalTime \<Rightarrow> RationalTime \<Rightarrow> RationalTime \<Rightarrow> string + bool" where
  "clip_meets start dur from until =
     andR (rt_lt start until) (bindR (rt_add start dur) (\<lambda>e. rt_gt e from))"

definition check_pasted ::
  "Document \<Rightarrow> bool \<Rightarrow> nat \<Rightarrow> PastedClip \<Rightarrow> PastedClip list \<Rightarrow> PastedClip list result" where
  "check_pasted d overwrite index item previous =
     bindT (rt_add (pc_timeline_in item) (pc_duration item)) (\<lambda>e.
     bindT (if overwrite then Inr None
            else findR (\<lambda>c. clip_meets (clip_timeline_in c) (clip_duration c) (pc_timeline_in item) e)
                   (case FindTrack d (pc_track_id item) of None \<Rightarrow> [] | Some t \<Rightarrow> trk_clips t))
       (\<lambda>covered.
     case covered of
       Some c \<Rightarrow> reject Overlap (''paste overlaps clip_id '' @ quoted (clip_id c))
     | None \<Rightarrow>
     bindT (findR (\<lambda>p. if pc_track_id p \<noteq> pc_track_id item then Inr False
                       else clip_meets (pc_timeline_in p) (pc_duration p) (pc_timeline_in item) e)
              previous) (\<lambda>clash.
     if clash \<noteq> None then reject Overlap ''pasted clips overlap each other''
     else Inr (previous @ [item]))))"

text \<open>One existing clip under the pasted range [from, until).\<close>

definition carve_for_paste ::
  "RationalTime \<Rightarrow> RationalTime \<Rightarrow> DocumentClip \<Rightarrow> DocumentClip list \<times> id_supply \<Rightarrow>
   string + DocumentClip list \<times> id_supply" where
  "carve_for_paste from until existing = (\<lambda>(survivors, g).
     bindR (rt_add (clip_timeline_in existing) (clip_duration existing)) (\<lambda>existingEnd.
     bindR (orR (rt_le existingEnd from) (rt_ge (clip_timeline_in existing) until)) (\<lambda>apart.
     if apart then Inr (survivors @ [existing], g)
     else
     bindR (rt_lt (clip_timeline_in existing) from) (\<lambda>keepLeft.
     bindR (rt_gt existingEnd until) (\<lambda>keepRight.
     bindR (if keepLeft
            then bindR (rt_sub from (clip_timeline_in existing)) (\<lambda>du.
                   Inr [existing\<lparr>clip_duration := du\<rparr>])
            else Inr []) (\<lambda>left.
     if \<not> keepRight then Inr (survivors @ left, g)
     else
       let (i, g') = (if keepLeft then fresh g else (clip_id existing, g)) in
       bindR (rt_sub until (clip_timeline_in existing)) (\<lambda>sourceOffset.
       bindR (rt_add (clip_source_in existing) sourceOffset) (\<lambda>si.
       bindR (rt_sub existingEnd until) (\<lambda>du.
         Inr (survivors @ left @
                [existing\<lparr>clip_id := i, clip_source_in := si, clip_duration := du,
                          clip_timeline_in := until\<rparr>], g'))))))))))"

definition overwrite_for_paste ::
  "PastedClip \<Rightarrow> Document \<times> id_supply \<Rightarrow> string + Document \<times> id_supply" where
  "overwrite_for_paste item = (\<lambda>(d, g).
     case FindTrack d (pc_track_id item) of
       None \<Rightarrow> Inr (d, g)
     | Some track \<Rightarrow>
         bindR (rt_add (pc_timeline_in item) (pc_duration item)) (\<lambda>pasteEnd.
         bindR (loopR (carve_for_paste (pc_timeline_in item) pasteEnd) (trk_clips track) ([], g))
           (\<lambda>(survivors, g'). Inr (ModifyTrack (pc_track_id item) (with_clips (\<lambda>_. survivors)) d, g'))))"

definition pasted_clip :: "PastedClip \<Rightarrow> DocumentClip" where
  "pasted_clip item =
     (new_clip (pc_clip_id item) (pc_source_id item) (pc_source_in item) (pc_duration item)
        (pc_timeline_in item))
     \<lparr>clip_include_audio := False, clip_link_group_id := pc_link_group_id item,
      clip_sync_anchor_clip_id := pc_sync_anchor_clip_id item,
      clip_sync_reference_delta := pc_sync_reference_delta item\<rparr>"

definition add_pasted :: "PastedClip \<Rightarrow> Document \<Rightarrow> Document" where
  "add_pasted item = ModifyTrack (pc_track_id item) (with_clips (\<lambda>cs. cs @ [pasted_clip item]))"

definition sort_track :: "Ulid \<Rightarrow> Document \<Rightarrow> string + Document" where
  "sort_track i d =
     (case FindTrack d i of
        None \<Rightarrow> Inr d
      | Some t \<Rightarrow> bindR (sort_by_start (trk_clips t)) (\<lambda>cs. Inr (ModifyTrack i (with_clips (\<lambda>_. cs)) d)))"

definition ApplyPasteClips ::
  "id_supply \<Rightarrow> Document \<Rightarrow> PasteClipsOperation \<Rightarrow> PasteClipsOperation applied" where
  "ApplyPasteClips g0 d op =
     (if pco_exact_track_result op \<noteq> []
      then bindR (replay_exact ''exact paste state references an unknown track'' d
                    (pco_exact_track_result op)) (\<lambda>(d', before).
             Inr (d', op, PasteClips \<lparr>pco_clips = [], pco_exact_track_result = before,
                                      pco_overwrite = pco_overwrite op\<rparr>))
      else if pco_clips op = [] then reject InvalidOperation ''paste selection is empty''
      else
      bindR (loopR (scan_pasted d) (pco_clips op)
               \<lparr>ps_items = [], ps_supply = g0, ps_copied = [], ps_pasted = []\<rparr>) (\<lambda>s.
      bindR (loopR (relink_pasted (ps_items s)) (ps_items s) ([], Map.empty, ps_supply s)) (\<lambda>(items, _, g).
      bindR (iterR (check_pasted d (pco_overwrite op)) 0 items []) (\<lambda>_.
      let trackIds = map pc_track_id items; before = snapshots d trackIds in
      bindT (if pco_overwrite op then loopR overwrite_for_paste items (d, g) else Inr (d, g)) (\<lambda>(d1, _).
      bindT (loopR sort_track trackIds (fold add_pasted items d1)) (\<lambda>d2.
        checked d2 (op\<lparr>pco_clips := items, pco_exact_track_result := snapshots d2 trackIds\<rparr>)
          (PasteClips \<lparr>pco_clips = [], pco_exact_track_result = before,
                       pco_overwrite = pco_overwrite op\<rparr>)))))))"

section \<open>Move one clip\<close>

text \<open>
  The \<open>do ... while\<close> that redraws an identifier as long as it names a clip.  A supply
  that never repeats itself needs at most one draw more than there are clips, which is
  the fuel given (\<open>draw_unused_returns\<close>).
\<close>

fun draw_unused :: "nat \<Rightarrow> Document \<Rightarrow> id_supply \<Rightarrow> (Ulid \<times> id_supply) result" where
  "draw_unused 0 d g = Inl Diverges"
| "draw_unused (Suc fuel) d g =
     (case fresh g of (i, g') \<Rightarrow>
        if FindClip d i \<noteq> None then draw_unused fuel d g' else Inr (i, g'))"

definition clip_count :: "Document \<Rightarrow> nat" where
  "clip_count d = length (all_clip_ids d)"

definition carve_for_move ::
  "Document \<Rightarrow> RationalTime \<Rightarrow> RationalTime \<Rightarrow> DocumentClip \<Rightarrow> DocumentClip list \<times> id_supply \<Rightarrow>
   (DocumentClip list \<times> id_supply) result" where
  "carve_for_move d from until existing = (\<lambda>(kept, g).
     bindT (rt_add (clip_timeline_in existing) (clip_duration existing)) (\<lambda>existingEnd.
     bindT (orR (rt_le existingEnd from) (rt_ge (clip_timeline_in existing) until)) (\<lambda>apart.
     if apart then Inr (kept @ [existing], g)
     else
     bindT (rt_lt (clip_timeline_in existing) from) (\<lambda>keepLeft.
     bindT (rt_gt existingEnd until) (\<lambda>keepRight.
     bindT (if keepLeft
            then bindR (rt_sub from (clip_timeline_in existing)) (\<lambda>du.
                   Inr [existing\<lparr>clip_duration := du, clip_audio_fade_out := RT 0 1\<rparr>])
            else Inr []) (\<lambda>left.
     if \<not> keepRight then Inr (kept @ left, g)
     else
       bindR (if keepLeft then draw_unused (clip_count d + 1) d g
              else Inr (clip_id existing, g)) (\<lambda>(i, g').
       bindT (rt_sub until (clip_timeline_in existing)) (\<lambda>sourceOffset.
       bindT (rt_add (clip_source_in existing) sourceOffset) (\<lambda>si.
       bindT (rt_sub existingEnd until) (\<lambda>du.
         Inr (kept @ left @
                [existing\<lparr>clip_id := i, clip_source_in := si, clip_duration := du,
                          clip_timeline_in := until, clip_audio_fade_in := RT 0 1\<rparr>], g')))))))))))"

definition ApplyMove ::
  "id_supply \<Rightarrow> Document \<Rightarrow> MoveClipOperation \<Rightarrow>
   (Document \<times> MoveClipOperation \<times> Operation \<times> id_supply) result" where
  "ApplyMove g d op =
     (let i = mco_clip_id op; start = mco_timeline_in op in
      case FindTrackForClip d i of
        None \<Rightarrow> reject UnknownClip (''unknown clip_id '' @ quoted i)
      | Some sourceTrack \<Rightarrow>
      case FindTrack d (mco_track_id op) of
        None \<Rightarrow> reject UnknownTrack (''unknown track_id '' @ quoted (mco_track_id op))
      | Some targetTrack \<Rightarrow>
      if trk_kind sourceTrack \<noteq> trk_kind targetTrack
      then reject InvalidOperation ''cannot move a clip between tracks of different kinds''
      else if rt_rate start \<le> 0 \<or> rt_value start < 0
      then reject InvalidTimelineIn ''move timeline_in must be non-negative with a positive rate''
      else if mco_exact_track_result op \<noteq> []
      then
        bindR (replay_exact ''exact move state references an unknown track'' d
                 (mco_exact_track_result op)) (\<lambda>(d', before).
          Inr (d', op,
               MoveClip \<lparr>mco_clip_id = i, mco_track_id = trk_id sourceTrack,
                 mco_timeline_in =
                   (case FindClip d i of None \<Rightarrow> start | Some c \<Rightarrow> clip_timeline_in c),
                 mco_exact_track_result = before\<rparr>, g))
      else
      let trackIds = [trk_id sourceTrack, mco_track_id op];
          before = snapshots d trackIds;
          original = trk_clips sourceTrack ! index_of (\<lambda>c. clip_id c = i) (trk_clips sourceTrack);
          d1 = ModifyTrackForClip i (with_clips (remove_first (\<lambda>c. clip_id c = i))) d;
          moved = original\<lparr>clip_timeline_in := start\<rparr> in
      bindT (rt_add start (clip_duration moved)) (\<lambda>movedEnd.
      bindR (loopR (carve_for_move d1 start movedEnd)
               (case FindTrack d1 (mco_track_id op) of None \<Rightarrow> [] | Some t \<Rightarrow> trk_clips t) ([], g))
        (\<lambda>(kept, g').
      bindT (sort_by_start (kept @ [moved])) (\<lambda>overwritten.
      let d2 = ModifyTrack (mco_track_id op) (with_clips (\<lambda>_. overwritten)) d1 in
      bindR (ValidateResult d2) (\<lambda>_.
        Inr (d2, op\<lparr>mco_exact_track_result := snapshots d2 trackIds\<rparr>,
             MoveClip \<lparr>mco_clip_id = i, mco_track_id = trk_id sourceTrack,
               mco_timeline_in = clip_timeline_in original, mco_exact_track_result = before\<rparr>,
             g'))))))"

section \<open>Move several clips\<close>

record OriginalMove =
  om_clip :: DocumentClip
  om_source_track_id :: Ulid
  om_destination :: LinkedClipMove

definition inverse_move :: "OriginalMove \<Rightarrow> LinkedClipMove" where
  "inverse_move m =
     \<lparr>lcm_clip_id = clip_id (om_clip m), lcm_track_id = om_source_track_id m,
      lcm_timeline_in = clip_timeline_in (om_clip m)\<rparr>"

definition collect_move ::
  "Document \<Rightarrow> LinkedClipMove \<Rightarrow> OriginalMove list \<times> Ulid list \<times> Ulid list \<Rightarrow>
   (OriginalMove list \<times> Ulid list \<times> Ulid list) result" where
  "collect_move d move = (\<lambda>(originals, affected, seen).
     case (FindClip d (lcm_clip_id move), FindTrackForClip d (lcm_clip_id move),
           FindTrack d (lcm_track_id move)) of
       (Some clip, Some source, Some target) \<Rightarrow>
         if trk_kind source \<noteq> trk_kind target \<or> rt_rate (lcm_timeline_in move) \<le> 0 \<or>
            rt_value (lcm_timeline_in move) < 0 \<or> lcm_clip_id move \<in> set seen
         then reject InvalidOperation ''multi-move members must be unique and keep their track kind''
         else Inr (originals @ [\<lparr>om_clip = clip, om_source_track_id = trk_id source,
                                 om_destination = move\<rparr>],
                   affected @ [trk_id source, trk_id target], seen @ [lcm_clip_id move])
     | (_, _, target) \<Rightarrow>
         reject (if target = None then UnknownTrack else UnknownClip)
           ''multi-move references an unknown clip or track'')"

fun destinations_apart :: "OriginalMove list \<Rightarrow> unit result" where
  "destinations_apart [] = Inr ()"
| "destinations_apart (left # rest) =
     (let l = om_destination left in
      bindT (rt_add (lcm_timeline_in l) (clip_duration (om_clip left))) (\<lambda>leftEnd.
      bindT (anyR (\<lambda>right. let r = om_destination right in
               if lcm_track_id l \<noteq> lcm_track_id r then Inr False
               else bindR (rt_add (lcm_timeline_in r) (clip_duration (om_clip right))) (\<lambda>rightEnd.
                 andR (rt_lt (lcm_timeline_in l) rightEnd) (rt_lt (lcm_timeline_in r) leftEnd)))
               rest) (\<lambda>clash.
      if clash then reject Overlap ''multi-move destinations overlap each other''
      else destinations_apart rest)))"

definition lift_out :: "OriginalMove \<Rightarrow> Document \<Rightarrow> Document" where
  "lift_out m = ModifyTrack (om_source_track_id m) (without_clip (clip_id (om_clip m)))"

definition put_back :: "OriginalMove \<Rightarrow> Document \<Rightarrow> Document" where
  "put_back m = ModifyTrack (om_source_track_id m) (with_clips (\<lambda>cs. cs @ [om_clip m]))"

definition single_move :: "LinkedClipMove \<Rightarrow> MoveClipOperation" where
  "single_move m =
     \<lparr>mco_clip_id = lcm_clip_id m, mco_track_id = lcm_track_id m,
      mco_timeline_in = lcm_timeline_in m, mco_exact_track_result = []\<rparr>"

definition move_step :: "MoveClipOperation \<Rightarrow> Document \<times> id_supply \<Rightarrow> (Document \<times> id_supply) result" where
  "move_step m = (\<lambda>(d, g). bindR (ApplyMove g d m) (\<lambda>(d', _, _, g'). Inr (d', g')))"

definition move_original :: "OriginalMove \<Rightarrow> Document \<times> id_supply \<Rightarrow> (Document \<times> id_supply) result" where
  "move_original m = (\<lambda>(d, g).
     move_step \<lparr>mco_clip_id = clip_id (om_clip m),
                mco_track_id = lcm_track_id (om_destination m),
                mco_timeline_in = lcm_timeline_in (om_destination m), mco_exact_track_result = []\<rparr>
       (put_back m d, g))"

definition ApplyMoveClips :: "id_supply \<Rightarrow> Document \<Rightarrow> MoveClipsOperation \<Rightarrow> MoveClipsOperation applied" where
  "ApplyMoveClips g d op =
     (if mcs_exact_track_result op \<noteq> []
      then bindR (replay_exact ''exact multi-move references an unknown track'' d
                    (mcs_exact_track_result op)) (\<lambda>(d', before).
             Inr (d', op, MoveClips \<lparr>mcs_moves = mcs_moves op, mcs_exact_track_result = before\<rparr>))
      else if length (mcs_moves op) < 2
      then reject InvalidOperation ''MoveClips requires at least two members''
      else
      bindR (loopR (collect_move d) (mcs_moves op) ([], [], [])) (\<lambda>(originals, affected, _).
      bindR (destinations_apart originals) (\<lambda>_.
      let before = snapshots d affected in
      bindR (loopR move_original originals (fold lift_out originals d, g)) (\<lambda>(d', _).
        Inr (d', op\<lparr>mcs_exact_track_result := snapshots d' affected\<rparr>,
             MoveClips \<lparr>mcs_moves = map inverse_move originals, mcs_exact_track_result = before\<rparr>)))))"

definition collect_linked_move ::
  "Document \<Rightarrow> Ulid \<Rightarrow> LinkedClipMove \<Rightarrow> LinkedClipMove list \<times> Ulid list \<times> Ulid list \<Rightarrow>
   (LinkedClipMove list \<times> Ulid list \<times> Ulid list) result" where
  "collect_linked_move d grp move = (\<lambda>(inverses, affected, seen).
     case (FindClip d (lcm_clip_id move), FindTrackForClip d (lcm_clip_id move),
           FindTrack d (lcm_track_id move)) of
       (Some clip, Some source, Some target) \<Rightarrow>
         if clip_link_group_id clip \<noteq> grp \<or> clip_id clip \<in> set seen
         then reject InvalidOperation ''linked move members must be unique and share link_group_id''
         else Inr (inverses @ [\<lparr>lcm_clip_id = clip_id clip, lcm_track_id = trk_id source,
                                lcm_timeline_in = clip_timeline_in clip\<rparr>],
                   affected @ [trk_id source, trk_id target], seen @ [clip_id clip])
     | (_, _, target) \<Rightarrow>
         reject (if target = None then UnknownTrack else UnknownClip)
           ''linked move references an unknown clip or track'')"

definition ApplyMoveLinked ::
  "id_supply \<Rightarrow> Document \<Rightarrow> MoveLinkedClipsOperation \<Rightarrow> MoveLinkedClipsOperation applied" where
  "ApplyMoveLinked g d op =
     (if mlo_exact_track_result op \<noteq> []
      then bindR (replay_exact ''exact linked move references an unknown track'' d
                    (mlo_exact_track_result op)) (\<lambda>(d', before).
             Inr (d', op, MoveLinkedClips \<lparr>mlo_link_group_id = mlo_link_group_id op,
                   mlo_moves = mlo_moves op, mlo_exact_track_result = before\<rparr>))
      else if length (mlo_moves op) < 2 \<or> mlo_link_group_id op = []
      then reject InvalidOperation ''MoveLinkedClips requires at least two linked members''
      else
      bindR (loopR (collect_linked_move d (mlo_link_group_id op)) (mlo_moves op) ([], [], []))
        (\<lambda>(inverses, affected, _).
      let before = snapshots d affected in
      bindR (loopR (\<lambda>m. move_step (single_move m)) (mlo_moves op) (d, g)) (\<lambda>(d', _).
        Inr (d', op\<lparr>mlo_exact_track_result := snapshots d' affected\<rparr>,
             MoveLinkedClips \<lparr>mlo_link_group_id = mlo_link_group_id op, mlo_moves = inverses,
                              mlo_exact_track_result = before\<rparr>))))"

end
