(* ===== verification/Ops_Trim.thy ===== *)
theory Ops_Trim
  imports Ops_Move
begin

text \<open>
  Linked and ripple trims, roll and slip, linked removal, \<open>src/Operations.cc\<close> lines
  1253 to 1959.
\<close>

section \<open>Linked trim\<close>

definition collect_linked_trim ::
  "Document \<Rightarrow> Ulid \<Rightarrow> LinkedClipTrim \<Rightarrow> Ulid list \<times> Ulid list \<Rightarrow> (Ulid list \<times> Ulid list) result" where
  "collect_linked_trim d grp trim = (\<lambda>(trackIds, seen).
     case (FindClip d (lct_clip_id trim), FindTrackForClip d (lct_clip_id trim)) of
       (Some clip, Some track) \<Rightarrow>
         if clip_link_group_id clip \<noteq> grp \<or> lct_clip_id trim \<in> set seen
         then reject InvalidOperation ''linked trim members must be unique and share link_group_id''
         else Inr (trackIds @ [trk_id track], seen @ [lct_clip_id trim])
     | _ \<Rightarrow> reject InvalidOperation ''linked trim members must be unique and share link_group_id'')"

definition trim_step :: "LinkedClipTrim \<Rightarrow> Document \<Rightarrow> Document result" where
  "trim_step trim d =
     bindR (ApplyTrim d \<lparr>tco_clip_id = lct_clip_id trim, tco_edge = lct_edge trim,
                         tco_delta = lct_delta trim, tco_exact_clip_result = None\<rparr>)
       (\<lambda>(d', _). Inr d')"

definition ApplyTrimLinked :: "Document \<Rightarrow> TrimLinkedClipsOperation \<Rightarrow> TrimLinkedClipsOperation applied" where
  "ApplyTrimLinked d op =
     (let inverse = (\<lambda>before. TrimLinkedClips
            \<lparr>tlo_link_group_id = tlo_link_group_id op, tlo_trims = tlo_trims op,
             tlo_exact_track_result = before\<rparr>) in
      if tlo_exact_track_result op \<noteq> []
      then bindR (replay_exact ''exact linked trim references an unknown track'' d
                    (tlo_exact_track_result op)) (\<lambda>(d', before). Inr (d', op, inverse before))
      else if length (tlo_trims op) < 2 \<or> tlo_link_group_id op = []
      then reject InvalidOperation ''TrimLinkedClips requires at least two linked members''
      else
      bindR (loopR (collect_linked_trim d (tlo_link_group_id op)) (tlo_trims op) ([], [])) (\<lambda>(trackIds, _).
      bindR (loopR trim_step (tlo_trims op) d) (\<lambda>d'.
        Inr (d', op\<lparr>tlo_exact_track_result := snapshots d' trackIds\<rparr>,
             inverse (snapshots d trackIds)))))"

section \<open>Ripple trim\<close>

definition collect_ripple ::
  "Document \<Rightarrow> DocumentClip \<Rightarrow> Ulid \<Rightarrow> Ulid \<Rightarrow> Ulid list \<Rightarrow> Ulid list result" where
  "collect_ripple d anchor anchorId i trackIds =
     (case (FindClip d i, FindTrackForClip d i) of
        (Some clip, Some track) \<Rightarrow>
          if i \<noteq> anchorId \<and> (clip_link_group_id anchor = [] \<or>
                clip_link_group_id clip \<noteq> clip_link_group_id anchor)
          then reject InvalidOperation ''ripple trim linked clips must share one group''
          else Inr (add_track (trk_id track) trackIds)
      | _ \<Rightarrow> reject InvalidOperation ''ripple trim linked clips must share one group'')"

definition collect_sync :: "string \<Rightarrow> Document \<Rightarrow> Ulid \<Rightarrow> Ulid list \<Rightarrow> Ulid list result" where
  "collect_sync text d i trackIds =
     (if FindTrack d i = None then reject UnknownTrack (text @ quoted i)
      else Inr (add_track i trackIds))"

definition ripple_times :: "TrimEdge \<Rightarrow> RationalTime \<Rightarrow> ExactClipTimes \<Rightarrow> string + ExactClipTimes" where
  "ripple_times edge delta before =
     (case edge of
        Head \<Rightarrow>
          bindR (rt_add (ect_source_in before) delta) (\<lambda>si.
          bindR (rt_sub (ect_duration before) delta) (\<lambda>du.
            Inr (before\<lparr>ect_source_in := si, ect_duration := du\<rparr>)))
      | Tail \<Rightarrow>
          bindR (rt_add (ect_duration before) delta) (\<lambda>du. Inr (before\<lparr>ect_duration := du\<rparr>)))"

definition check_ripple ::
  "Document \<Rightarrow> TrimEdge \<Rightarrow> RationalTime \<Rightarrow> Ulid \<Rightarrow> (Ulid \<rightharpoonup> RationalTime) \<times> Ulid list \<Rightarrow>
   ((Ulid \<rightharpoonup> RationalTime) \<times> Ulid list) result" where
  "check_ripple d edge delta i = (\<lambda>(following, keys).
     case (FindClip d i, FindTrackForClip d i) of
       (Some clip, Some track) \<Rightarrow>
         bindT (rt_add (clip_timeline_in clip) (clip_duration clip)) (\<lambda>originalEnd.
         bindT (ripple_times edge delta (TimesOf clip)) (\<lambda>requested.
         bindR (ValidateEditedDuration ''ripple_trim'' clip requested) (\<lambda>_.
         case FindSource d (clip_source_id clip) of
           None \<Rightarrow> reject UnknownSource ''ripple trim clip references an unknown source''
         | Some source \<Rightarrow>
             bindR (ValidateEditedSourceRange ''ripple_trim'' clip source requested) (\<lambda>_.
               Inr (following(trk_id track \<mapsto> originalEnd), push_unique (trk_id track) keys)))))
     | _ \<Rightarrow> Inr (following, keys))"

definition ripple_clip :: "TrimEdge \<Rightarrow> RationalTime \<Rightarrow> Ulid \<Rightarrow> Document \<Rightarrow> string + Document" where
  "ripple_clip edge delta i d =
     (case FindClip d i of
        None \<Rightarrow> Inr d
      | Some clip \<Rightarrow>
          bindR (ripple_times edge delta (TimesOf clip)) (\<lambda>x. Inr (ModifyClip i (set_times x) d)))"

definition ripple_track ::
  "Ulid list \<Rightarrow> (Ulid \<rightharpoonup> RationalTime) \<Rightarrow> RationalTime \<Rightarrow> Ulid \<Rightarrow> Document \<Rightarrow> string + Document" where
  "ripple_track trimIds following sequenceDelta i d =
     (case (FindTrack d i, following i) of
        (Some track, Some boundary) \<Rightarrow>
          bindR (mapR (\<lambda>c. if clip_id c \<in> set trimIds then Inr c
                           else shift_at_or_after boundary sequenceDelta c) (trk_clips track)) (\<lambda>cs.
            Inr (ModifyTrack i (with_clips (\<lambda>_. cs)) d))
      | _ \<Rightarrow> Inr d)"

definition ripple_sync ::
  "(Ulid \<rightharpoonup> RationalTime) \<Rightarrow> RationalTime \<Rightarrow> RationalTime \<Rightarrow> Ulid \<Rightarrow> Document \<Rightarrow> string + Document" where
  "ripple_sync following boundary sequenceDelta i d =
     (if following i \<noteq> None then Inr d else shift_track boundary sequenceDelta i d)"

definition ApplyRippleTrim :: "Document \<Rightarrow> RippleTrimOperation \<Rightarrow> RippleTrimOperation applied" where
  "ApplyRippleTrim d op =
     (let i = rto_clip_id op; edge = rto_edge op; delta = rto_delta op;
          inverse = (\<lambda>before. RippleTrim (op\<lparr>rto_exact_track_result := before\<rparr>)) in
      if rt_rate delta \<le> 0 then reject ArithmeticError ''ripple trim delta rate must be positive''
      else if rto_exact_track_result op \<noteq> []
      then bindR (replay_exact_set ''exact ripple trim references an unknown track'' d
                    (rto_exact_track_result op)) (\<lambda>(d', before). Inr (d', op, inverse before))
      else
      case (FindClip d i, FindTrackForClip d i) of
        (Some anchor, Some _) \<Rightarrow>
      let trimIds = fold push_unique (rto_linked_clip_ids op) [i] in
      bindR (loopR (collect_ripple d anchor i) trimIds []) (\<lambda>trackIds0.
      bindR (loopR (collect_sync ''unknown ripple sync track_id '' d) (rto_sync_track_ids op) trackIds0)
        (\<lambda>trackIds.
      let before = snapshots_each d trackIds in
      bindT (case edge of Head \<Rightarrow> Inr (clip_timeline_in anchor)
             | Tail \<Rightarrow> rt_add (clip_timeline_in anchor) (clip_duration anchor)) (\<lambda>primaryBoundary.
      case (case edge of Head \<Rightarrow> Negate delta | Tail \<Rightarrow> Some delta) of
        None \<Rightarrow> reject ArithmeticError ''ripple delta cannot be negated''
      | Some sequenceDelta \<Rightarrow>
      bindR (loopR (check_ripple d edge delta) trimIds (Map.empty, [])) (\<lambda>(following, keys).
      bindT (loopR (ripple_clip edge delta) trimIds d) (\<lambda>d1.
      bindT (loopR (ripple_track trimIds following sequenceDelta) (sort keys) d1) (\<lambda>d2.
      bindT (loopR (ripple_sync following primaryBoundary sequenceDelta) (rto_sync_track_ids op) d2) (\<lambda>d3.
        checked d3 (op\<lparr>rto_exact_track_result := snapshots_each d3 trackIds\<rparr>)
          (inverse before))))))))
      | _ \<Rightarrow> reject UnknownClip ''unknown ripple trim clip'')"

section \<open>Boundary air\<close>

definition collect_linked_track :: "Document \<Rightarrow> Ulid \<Rightarrow> Ulid list \<Rightarrow> Ulid list result" where
  "collect_linked_track d linkedId trackIds =
     (case FindTrackForClip d linkedId of
        None \<Rightarrow> reject UnknownClip (''unknown boundary trim linked clip_id '' @ quoted linkedId)
      | Some track \<Rightarrow> Inr (add_track (trk_id track) trackIds))"

definition collect_boundary ::
  "Document \<Rightarrow> BoundaryAirTrim \<Rightarrow> Ulid list \<times> (Ulid \<times> TrimEdge) list \<Rightarrow>
   (Ulid list \<times> (Ulid \<times> TrimEdge) list) result" where
  "collect_boundary d trim = (\<lambda>(trackIds, seen).
     let delta = bat_delta trim; key = (bat_clip_id trim, bat_edge trim) in
     if rt_rate delta \<le> 0 \<or> (bat_edge trim = Head \<and> rt_value delta \<le> 0) \<or>
        (bat_edge trim = Tail \<and> rt_value delta \<ge> 0)
     then reject InvalidOperation ''TrimBoundaryAir only accepts shortening deltas''
     else if key \<in> set seen then reject DuplicateId ''TrimBoundaryAir repeats a clip boundary''
     else (case FindTrackForClip d (bat_clip_id trim) of
             None \<Rightarrow> reject UnknownClip
                      (''unknown boundary trim clip_id '' @ quoted (bat_clip_id trim))
           | Some track \<Rightarrow>
               bindR (loopR (collect_linked_track d) (bat_linked_clip_ids trim)
                        (add_track (trk_id track) trackIds)) (\<lambda>trackIds'.
                 Inr (trackIds', seen @ [key]))))"

definition ripple_step :: "Ulid list \<Rightarrow> BoundaryAirTrim \<Rightarrow> Document \<Rightarrow> Document result" where
  "ripple_step sync trim d =
     bindR (ApplyRippleTrim d \<lparr>rto_clip_id = bat_clip_id trim, rto_edge = bat_edge trim,
              rto_delta = bat_delta trim, rto_linked_clip_ids = bat_linked_clip_ids trim,
              rto_sync_track_ids = sync, rto_exact_track_result = []\<rparr>) (\<lambda>(d', _). Inr d')"

definition ApplyTrimBoundaryAir :: "Document \<Rightarrow> TrimBoundaryAirOperation \<Rightarrow> TrimBoundaryAirOperation applied" where
  "ApplyTrimBoundaryAir d op =
     (let inverse = (\<lambda>before. TrimBoundaryAir (op\<lparr>tba_exact_track_result := before\<rparr>)) in
      if tba_exact_track_result op \<noteq> []
      then bindR (replay_exact_set ''exact boundary trim references an unknown track'' d
                    (tba_exact_track_result op)) (\<lambda>(d', before). Inr (d', op, inverse before))
      else if tba_trims op = []
      then reject InvalidOperation ''TrimBoundaryAir requires at least one boundary''
      else
      bindR (loopR (collect_boundary d) (tba_trims op) ([], [])) (\<lambda>(trackIds0, _).
      bindR (loopR (collect_sync ''unknown boundary trim sync track_id '' d) (tba_sync_track_ids op)
               trackIds0) (\<lambda>trackIds.
      bindR (loopR (ripple_step (tba_sync_track_ids op)) (tba_trims op) d) (\<lambda>d'.
        Inr (d', op\<lparr>tba_exact_track_result := snapshots_each d' trackIds\<rparr>,
             inverse (snapshots_each d trackIds))))))"

section \<open>Roll\<close>

definition collect_roll ::
  "Document \<Rightarrow> RollEditPair \<Rightarrow> Ulid list \<times> Ulid list \<Rightarrow> (Ulid list \<times> Ulid list) result" where
  "collect_roll d pair = (\<lambda>(trackIds, seen).
     let bad = reject InvalidOperation ''roll edit requires unique contiguous clip pairs'';
         l = rep_left_clip_id pair; r = rep_right_clip_id pair in
     case (FindClip d l, FindClip d r, FindTrackForClip d l, FindTrackForClip d r) of
       (Some left, Some right, Some leftTrack, Some rightTrack) \<Rightarrow>
         if trk_id leftTrack \<noteq> trk_id rightTrack then bad
         else bindT (rt_add (clip_timeline_in left) (clip_duration left)) (\<lambda>leftEnd.
              bindT (rt_ne leftEnd (clip_timeline_in right)) (\<lambda>apart.
                if apart \<or> clip_id left \<in> set seen \<or> clip_id right \<in> set seen then bad
                else Inr (add_track (trk_id leftTrack) trackIds,
                          seen @ [clip_id left, clip_id right])))
     | _ \<Rightarrow> bad)"

definition roll_left :: "RationalTime \<Rightarrow> ExactClipTimes \<Rightarrow> string + ExactClipTimes" where
  "roll_left delta x =
     bindR (rt_add (ect_duration x) delta) (\<lambda>du. Inr (x\<lparr>ect_duration := du\<rparr>))"

definition roll_right :: "RationalTime \<Rightarrow> ExactClipTimes \<Rightarrow> string + ExactClipTimes" where
  "roll_right delta x =
     bindR (rt_add (ect_source_in x) delta) (\<lambda>si.
     bindR (rt_sub (ect_duration x) delta) (\<lambda>du.
     bindR (rt_add (ect_timeline_in x) delta) (\<lambda>ti.
       Inr \<lparr>ect_source_in = si, ect_duration = du, ect_timeline_in = ti\<rparr>)))"

definition check_roll :: "Document \<Rightarrow> RationalTime \<Rightarrow> RollEditPair \<Rightarrow> unit \<Rightarrow> unit result" where
  "check_roll d delta pair _ =
     (case (FindClip d (rep_left_clip_id pair), FindClip d (rep_right_clip_id pair)) of
        (Some left, Some right) \<Rightarrow>
          bindT (roll_left delta (TimesOf left)) (\<lambda>leftRequested.
          bindT (roll_right delta (TimesOf right)) (\<lambda>rightRequested.
          bindR (ValidateEditedDuration ''roll_edit'' left leftRequested) (\<lambda>_.
          bindR (ValidateEditedDuration ''roll_edit'' right rightRequested) (\<lambda>_.
          case (FindSource d (clip_source_id left), FindSource d (clip_source_id right)) of
            (Some leftSource, Some rightSource) \<Rightarrow>
              bindR (ValidateEditedSourceRange ''roll_edit'' left leftSource leftRequested) (\<lambda>_.
                ValidateEditedSourceRange ''roll_edit'' right rightSource rightRequested)
          | _ \<Rightarrow> reject UnknownSource ''roll edit pair references an unknown source''))))
      | _ \<Rightarrow> Inr ())"

definition change_times :: "(ExactClipTimes \<Rightarrow> string + ExactClipTimes) \<Rightarrow> Ulid \<Rightarrow> Document \<Rightarrow> string + Document" where
  "change_times f i d =
     (case FindClip d i of
        None \<Rightarrow> Inr d
      | Some c \<Rightarrow> bindR (f (TimesOf c)) (\<lambda>x. Inr (ModifyClip i (set_times x) d)))"

definition roll_pair :: "RationalTime \<Rightarrow> RollEditPair \<Rightarrow> Document \<Rightarrow> string + Document" where
  "roll_pair delta pair d =
     bindR (change_times (roll_left delta) (rep_left_clip_id pair) d)
       (change_times (roll_right delta) (rep_right_clip_id pair))"

definition ApplyRollEdit :: "Document \<Rightarrow> RollEditOperation \<Rightarrow> RollEditOperation applied" where
  "ApplyRollEdit d op =
     (let delta = reo_delta op;
          inverse = (\<lambda>before. RollEdit (op\<lparr>reo_exact_track_result := before\<rparr>)) in
      if rt_rate delta \<le> 0 \<or> reo_pairs op = []
      then reject InvalidOperation ''roll edit requires pairs and a positive delta rate''
      else if reo_exact_track_result op \<noteq> []
      then bindR (replay_exact_set ''exact roll edit references an unknown track'' d
                    (reo_exact_track_result op)) (\<lambda>(d', before). Inr (d', op, inverse before))
      else
      bindR (loopR (collect_roll d) (reo_pairs op) ([], [])) (\<lambda>(trackIds, _).
      bindR (loopR (check_roll d delta) (reo_pairs op) ()) (\<lambda>_.
      bindT (loopR (roll_pair delta) (reo_pairs op) d) (\<lambda>d'.
        checked d' (op\<lparr>reo_exact_track_result := snapshots_each d' trackIds\<rparr>)
          (inverse (snapshots_each d trackIds))))))"

section \<open>Slip\<close>

definition collect_slip ::
  "Document \<Rightarrow> nat \<Rightarrow> Ulid \<Rightarrow> Ulid list \<times> Ulid list \<times> Ulid \<Rightarrow> (Ulid list \<times> Ulid list \<times> Ulid) result" where
  "collect_slip d count i = (\<lambda>(trackIds, seen, linkGroup).
     let bad = reject InvalidOperation ''slip edit clip IDs must exist and be unique'' in
     case (FindClip d i, FindTrackForClip d i) of
       (Some clip, Some track) \<Rightarrow>
         if i \<in> set seen then bad
         else if count > 1 \<and> clip_link_group_id clip = []
         then reject InvalidOperation ''multi-clip slip requires one linked group''
         else let linkGroup' = (if count > 1 \<and> linkGroup = [] then clip_link_group_id clip
                                else linkGroup) in
           if count > 1 \<and> clip_link_group_id clip \<noteq> linkGroup'
           then reject InvalidOperation ''multi-clip slip members must share one linked group''
           else Inr (add_track (trk_id track) trackIds, seen @ [i], linkGroup')
     | _ \<Rightarrow> bad)"

definition slip_clip :: "RationalTime \<Rightarrow> Ulid \<Rightarrow> Document \<Rightarrow> Document result" where
  "slip_clip delta i d =
     (case FindClip d i of
        None \<Rightarrow> Inr d
      | Some clip \<Rightarrow>
      case FindSource d (clip_source_id clip) of
        None \<Rightarrow> reject UnknownSource ''slip edit clip references an unknown source''
      | Some source \<Rightarrow>
          bindT (rt_add (clip_source_in clip) delta) (\<lambda>si.
          bindR (ValidateSourceRange source si (clip_duration clip)) (\<lambda>_.
            Inr (ModifyClip i (\<lambda>c. c\<lparr>clip_source_in := si\<rparr>) d))))"

definition ApplySlipEdit :: "Document \<Rightarrow> SlipEditOperation \<Rightarrow> SlipEditOperation applied" where
  "ApplySlipEdit d op =
     (let delta = seo_delta op;
          inverse = (\<lambda>before. SlipEdit (op\<lparr>seo_exact_track_result := before\<rparr>)) in
      if rt_rate delta \<le> 0 \<or> seo_clip_ids op = []
      then reject InvalidOperation ''slip edit requires clips and a positive delta rate''
      else if seo_exact_track_result op \<noteq> []
      then bindR (replay_exact_set ''exact slip edit references an unknown track'' d
                    (seo_exact_track_result op)) (\<lambda>(d', before). Inr (d', op, inverse before))
      else
      bindR (loopR (collect_slip d (length (seo_clip_ids op))) (seo_clip_ids op) ([], [], []))
        (\<lambda>(trackIds, _).
      bindR (loopR (slip_clip delta) (seo_clip_ids op) d) (\<lambda>d'.
        checked d' (op\<lparr>seo_exact_track_result := snapshots_each d' trackIds\<rparr>)
          (inverse (snapshots_each d trackIds)))))"

section \<open>Linked removal\<close>

definition collect_linked_remove ::
  "Document \<Rightarrow> Ulid \<Rightarrow> Ulid \<Rightarrow> Ulid list \<times> Ulid list \<times> DocumentClip option \<Rightarrow>
   (Ulid list \<times> Ulid list \<times> DocumentClip option) result" where
  "collect_linked_remove d grp i = (\<lambda>(trackIds, seen, anchor).
     let bad = reject InvalidOperation
           ''linked remove members must be unique and share link_group_id'' in
     case (FindClip d i, FindTrackForClip d i) of
       (Some clip, Some track) \<Rightarrow>
         if clip_link_group_id clip \<noteq> grp \<or> i \<in> set seen then bad
         else Inr (push_unique (trk_id track) trackIds, seen @ [i],
                   if anchor = None \<or> clip_sync_anchor_clip_id clip = clip_id clip
                   then Some clip else anchor)
     | _ \<Rightarrow> bad)"

definition collect_remove_sync :: "Document \<Rightarrow> Ulid \<Rightarrow> Ulid list \<Rightarrow> Ulid list result" where
  "collect_remove_sync d i trackIds =
     (if FindTrack d i = None
      then reject UnknownTrack (''unknown linked remove sync track_id '' @ quoted i)
      else Inr (push_unique i trackIds))"

definition remove_step :: "Ulid \<Rightarrow> Document \<Rightarrow> Document result" where
  "remove_step i d =
     bindR (ApplyRemove d \<lparr>rco_clip_id = i, rco_sync_track_ids = [], rco_exact_timeline_result = []\<rparr>)
       (\<lambda>(d', _). Inr d')"

definition shift_other_track ::
  "Ulid list \<Rightarrow> RationalTime \<Rightarrow> RationalTime \<Rightarrow> Ulid \<Rightarrow> Document \<Rightarrow> string + Document" where
  "shift_other_track members boundary delta i d =
     (if i \<in> set members then Inr d else shift_track boundary delta i d)"

definition ApplyRemoveLinked :: "Document \<Rightarrow> RemoveLinkedClipsOperation \<Rightarrow> RemoveLinkedClipsOperation applied" where
  "ApplyRemoveLinked d op =
     (let inverse = (\<lambda>before. RemoveLinkedClips (op\<lparr>rlo_exact_track_result := before\<rparr>)) in
      if rlo_exact_track_result op \<noteq> []
      then bindR (replay_exact ''exact linked remove references an unknown track'' d
                    (rlo_exact_track_result op)) (\<lambda>(d', before). Inr (d', op, inverse before))
      else if length (rlo_clip_ids op) < 2 \<or> rlo_link_group_id op = []
      then reject InvalidOperation ''RemoveLinkedClips requires at least two linked members''
      else
      bindR (loopR (collect_linked_remove d (rlo_link_group_id op)) (rlo_clip_ids op) ([], [], None))
        (\<lambda>(members, _, rippleAnchor).
      bindR (loopR (collect_remove_sync d) (rlo_sync_track_ids op) members) (\<lambda>trackIds.
      let before = snapshots d trackIds in
      case rippleAnchor of
        None \<Rightarrow> reject InvalidOperation []
      | Some anchor \<Rightarrow>
      bindT (rt_add (clip_timeline_in anchor) (clip_duration anchor)) (\<lambda>boundary.
      case Negate (clip_duration anchor) of
        None \<Rightarrow> reject ArithmeticError ''linked remove duration cannot be negated''
      | Some rippleDelta \<Rightarrow>
      bindR (loopR remove_step (rlo_clip_ids op) d) (\<lambda>d1.
      bindT (loopR (shift_other_track members boundary rippleDelta) (rlo_sync_track_ids op) d1) (\<lambda>d2.
        checked d2 (op\<lparr>rlo_exact_track_result := snapshots d2 trackIds\<rparr>) (inverse before)))))))"

definition collect_linked_clear :: "Document \<Rightarrow> Ulid \<Rightarrow> Ulid \<Rightarrow> Ulid list \<Rightarrow> Ulid list result" where
  "collect_linked_clear d grp i seen =
     (case FindClip d i of
        Some clip \<Rightarrow>
          if clip_link_group_id clip \<noteq> grp \<or> i \<in> set seen
          then reject InvalidOperation ''linked clear members must be unique and share link_group_id''
          else Inr (seen @ [i])
      | None \<Rightarrow> reject InvalidOperation ''linked clear members must be unique and share link_group_id'')"

text \<open>The tracks of the clips, each once, in the order of the clips.\<close>

definition tracks_of_clips :: "Document \<Rightarrow> Ulid list \<Rightarrow> Ulid list" where
  "tracks_of_clips d ids = List.map_filter (\<lambda>i. map_option trk_id (FindTrackForClip d i)) ids"

definition ApplyClearLinked :: "Document \<Rightarrow> ClearLinkedClipsOperation \<Rightarrow> ClearLinkedClipsOperation applied" where
  "ApplyClearLinked d op =
     (let inverse = (\<lambda>before. ClearLinkedClips (op\<lparr>clo_exact_track_result := before\<rparr>)) in
      if clo_exact_track_result op \<noteq> []
      then bindR (replay_exact_each ''exact linked clear references an unknown track'' d
                    (clo_exact_track_result op)) (\<lambda>(d', before). Inr (d', op, inverse before))
      else if clo_link_group_id op = [] \<or> length (clo_clip_ids op) < 2
      then reject InvalidOperation ''ClearLinkedClips requires at least two linked members''
      else
      bindR (loopR (collect_linked_clear d (clo_link_group_id op)) (clo_clip_ids op) []) (\<lambda>_.
      let before = snapshots d (tracks_of_clips d (clo_clip_ids op));
          d' = fold (\<lambda>i. ModifyTrackForClip i (without_clip i)) (clo_clip_ids op) d in
        checked d' (op\<lparr>clo_exact_track_result := snapshots_each d' (map ets_track_id before)\<rparr>)
          (inverse before)))"

end
