(* ===== verification/Ops_Settings.thy ===== *)
theory Ops_Settings
  imports Ops_Trim
begin

text \<open>
  Gaps, detached audio, links and the settings of one clip, \<open>src/Operations.cc\<close> lines
  1961 to 2154, 2602 to 2618 and 2813 to 2954.
\<close>

section \<open>Delete gap\<close>

definition collect_gap_track :: "Ulid \<Rightarrow> Ulid \<Rightarrow> Ulid list \<Rightarrow> Ulid list result" where
  "collect_gap_track main i trackIds =
     (if i = main \<or> i \<in> set trackIds
      then reject InvalidOperation ''linked gap track_ids must be unique''
      else Inr (trackIds @ [i]))"

definition restore_gap_track :: "Ulid list \<Rightarrow> ExactTrackState \<Rightarrow> Document \<Rightarrow> Document result" where
  "restore_gap_track trackIds state d =
     (if ets_track_id state \<notin> set trackIds
      then reject InvalidOperation ''exact gap state contains an unexpected track''
      else Inr (ModifyTrack (ets_track_id state) (with_clips (\<lambda>_. ets_clips state)) d))"

definition scan_gap_clip ::
  "RationalTime \<Rightarrow> RationalTime \<Rightarrow> DocumentClip \<Rightarrow> bool \<Rightarrow> bool result" where
  "scan_gap_clip gapStart gapEnd clip following =
     bindT (rt_add (clip_timeline_in clip) (clip_duration clip)) (\<lambda>clipEnd.
     bindT (andR (rt_lt (clip_timeline_in clip) gapEnd) (rt_gt clipEnd gapStart)) (\<lambda>inside.
     if inside
     then reject InvalidOperation (''DeleteGap range contains clip_id '' @ quoted (clip_id clip))
     else bindT (rt_ge (clip_timeline_in clip) gapEnd) (\<lambda>after. Inr (following \<or> after))))"

definition close_gap_clip :: "RationalTime \<Rightarrow> RationalTime \<Rightarrow> DocumentClip \<Rightarrow> string + DocumentClip" where
  "close_gap_clip gapEnd gap c =
     bindR (rt_ge (clip_timeline_in c) gapEnd) (\<lambda>after. if after then unshift_clip gap c else Inr c)"

definition close_gap_track ::
  "RationalTime \<Rightarrow> RationalTime \<Rightarrow> RationalTime \<Rightarrow> Ulid \<Rightarrow> Document \<Rightarrow> Document result" where
  "close_gap_track gapStart gapEnd gap i d =
     (case FindTrack d i of
        None \<Rightarrow> Inr d
      | Some track \<Rightarrow>
          bindR (loopR (scan_gap_clip gapStart gapEnd) (trk_clips track) False) (\<lambda>following.
          if \<not> following
          then reject InvalidOperation ''DeleteGap requires a following clip on every linked track''
          else bindT (mapR (close_gap_clip gapEnd gap) (trk_clips track)) (\<lambda>cs.
                 Inr (ModifyTrack i (with_clips (\<lambda>_. cs)) d))))"

definition ApplyDeleteGap :: "Document \<Rightarrow> DeleteGapOperation \<Rightarrow> DeleteGapOperation applied" where
  "ApplyDeleteGap d op =
     (let start = dgo_gap_start op; gap = dgo_gap_duration op; exact = dgo_exact_track_result op in
      bindR (loopR (collect_gap_track (dgo_track_id op)) (dgo_linked_track_ids op) [dgo_track_id op])
        (\<lambda>trackIds.
      case List.find (\<lambda>i. FindTrack d i = None) trackIds of
        Some i \<Rightarrow> reject UnknownTrack (''unknown track_id '' @ quoted i)
      | None \<Rightarrow>
      let before = snapshots_each d trackIds;
          inverse = DeleteGap (op\<lparr>dgo_exact_track_result := before\<rparr>) in
      if exact \<noteq> []
      then if length exact \<noteq> length trackIds
           then reject InvalidOperation ''exact gap state must contain every destination track''
           else bindR (loopR (restore_gap_track trackIds) exact d) (\<lambda>d'. checked d' op inverse)
      else if rt_rate start \<le> 0 \<or> rt_value start < 0 \<or> rt_rate gap \<le> 0 \<or> rt_value gap \<le> 0
      then reject InvalidOperation ''gap start and duration must describe a positive range''
      else
      bindT (rt_add start gap) (\<lambda>gapEnd.
      bindR (loopR (close_gap_track start gapEnd gap) trackIds d) (\<lambda>d'.
        checked d' (op\<lparr>dgo_exact_track_result := snapshots_each d' trackIds\<rparr>) inverse))))"

section \<open>Detach audio\<close>

definition ApplyDetachAudio :: "id_supply \<Rightarrow> Document \<Rightarrow> DetachAudioOperation \<Rightarrow> DetachAudioOperation applied" where
  "ApplyDetachAudio g d op0 =
     (let v = dao_video_clip_id op0; a = dao_audio_track_id op0 in
      case FindTrackForClip d v of
        None \<Rightarrow> reject UnknownClip (''unknown video_clip_id '' @ quoted v)
      | Some videoTrack \<Rightarrow>
      case FindTrack d a of
        None \<Rightarrow> reject UnknownTrack (''unknown audio_track_id '' @ quoted a)
      | Some audioTrack \<Rightarrow>
      if dao_exact_track_result op0 \<noteq> []
      then bindR (replay_exact ''exact detach state references an unknown track'' d
                    (dao_exact_track_result op0)) (\<lambda>(d', before).
             Inr (d', op0, DetachAudio (op0\<lparr>dao_exact_track_result := before\<rparr>)))
      else if trk_kind videoTrack \<noteq> ''video'' \<or> trk_kind audioTrack \<noteq> ''audio''
      then reject InvalidOperation ''DetachAudio requires a video clip and an audio track''
      else
      case FindClip d v of
        None \<Rightarrow> reject UnknownClip (''unknown video_clip_id '' @ quoted v)
      | Some videoClip \<Rightarrow>
      if \<not> clip_include_audio videoClip
      then reject InvalidOperation ''video clip audio is already detached''
      else if (case FindLibraryMedia d (clip_source_id videoClip) of
                 None \<Rightarrow> False | Some m \<Rightarrow> med_metadata_complete m \<and> \<not> med_has_audio m)
      then reject InvalidOperation ''source media has no audio stream''
      else
      let op = (if dao_audio_clip_id op0 = [] then op0\<lparr>dao_audio_clip_id := fst (fresh g)\<rparr> else op0);
          i = dao_audio_clip_id op in
      if \<not> IsValidUlid i \<or> FindClip d i \<noteq> None \<or> FindTrack d i \<noteq> None \<or> FindSource d i \<noteq> None \<or>
         FindLibraryMedia d i \<noteq> None
      then reject DuplicateId ''audio_clip_id is invalid or already exists''
      else
      let trackIds = [trk_id videoTrack, trk_id audioTrack]; before = snapshots d trackIds in
      bindT (rt_add (clip_timeline_in videoClip) (clip_duration videoClip)) (\<lambda>detachedEnd.
      bindT (findR (\<lambda>c. clip_meets (clip_timeline_in c) (clip_duration c)
                        (clip_timeline_in videoClip) detachedEnd) (trk_clips audioTrack)) (\<lambda>covered.
      case covered of
        Some c \<Rightarrow> reject Overlap (''detached audio would overlap clip_id '' @ quoted (clip_id c))
      | None \<Rightarrow>
      let relinked = (\<lambda>c. c\<lparr>clip_link_group_id := i, clip_sync_anchor_clip_id := clip_id videoClip,
                            clip_sync_reference_delta := RT 0 1\<rparr>);
          audioClip = relinked (videoClip\<lparr>clip_id := i\<rparr>);
          d1 = ModifyClip v (\<lambda>c. relinked (c\<lparr>clip_include_audio := False\<rparr>)) d in
      bindT (sort_by_start (trk_clips audioTrack @ [audioClip])) (\<lambda>cs.
      let d2 = ModifyTrack a (with_clips (\<lambda>_. cs)) d1 in
        checked d2 (op\<lparr>dao_exact_track_result := snapshots d2 trackIds\<rparr>)
          (DetachAudio (op\<lparr>dao_exact_track_result := before\<rparr>))))))"

section \<open>Links\<close>

definition link_state :: "DocumentClip \<Rightarrow> LinkExactState" where
  "link_state c = \<lparr>les_group_id = clip_link_group_id c,
     les_anchor_clip_id = clip_sync_anchor_clip_id c,
     les_reference_delta = clip_sync_reference_delta c\<rparr>"

definition set_link :: "LinkExactState \<Rightarrow> DocumentClip \<Rightarrow> DocumentClip" where
  "set_link s c = c\<lparr>clip_link_group_id := les_group_id s,
     clip_sync_anchor_clip_id := les_anchor_clip_id s,
     clip_sync_reference_delta := les_reference_delta s\<rparr>"

definition no_link :: LinkExactState where
  "no_link = \<lparr>les_group_id = [], les_anchor_clip_id = [], les_reference_delta = RT 0 1\<rparr>"

text \<open>The states the two clips take, first and second.\<close>

definition new_link_states ::
  "Document \<Rightarrow> SetClipLinkOperation \<Rightarrow> DocumentClip \<Rightarrow> DocumentClip \<Rightarrow>
   (LinkExactState \<times> LinkExactState) result" where
  "new_link_states d op first second =
     (case (slk_exact_first_result op, slk_exact_second_result op) of
        (Some a, Some b) \<Rightarrow> Inr (a, b)
      | _ \<Rightarrow>
        if slk_first_group_id op = [] \<and> slk_second_group_id op = [] then Inr (no_link, no_link)
        else if slk_first_group_id op \<noteq> slk_second_group_id op
        then reject InvalidOperation ''newly linked clips must share one group ID''
        else
          let first_leads = (case FindTrackForClip d (clip_id first) of
                               None \<Rightarrow> False | Some t \<Rightarrow> trk_kind t = ''video'');
              (anchor, follower) = (if first_leads then (first, second) else (second, first));
              lead = \<lparr>les_group_id = slk_first_group_id op, les_anchor_clip_id = clip_id anchor,
                      les_reference_delta = RT 0 1\<rparr> in
          bindT (bindR (PhaseOf follower) (\<lambda>p. bindR (PhaseOf anchor) (rt_sub p))) (\<lambda>delta.
            let follow = lead\<lparr>les_reference_delta := delta\<rparr> in
            Inr (if first_leads then (lead, follow) else (follow, lead))))"

definition ApplySetClipLink :: "Document \<Rightarrow> SetClipLinkOperation \<Rightarrow> SetClipLinkOperation applied" where
  "ApplySetClipLink d op =
     (let i = slk_first_clip_id op; j = slk_second_clip_id op in
      case (FindClip d i, FindClip d j) of
        (Some first, Some second) \<Rightarrow>
          if i = j then reject UnknownClip ''SetClipLink requires two distinct existing clips''
          else if (slk_first_group_id op \<noteq> [] \<and> \<not> IsValidUlid (slk_first_group_id op)) \<or>
             (slk_second_group_id op \<noteq> [] \<and> \<not> IsValidUlid (slk_second_group_id op)) \<or>
             ((slk_exact_first_result op \<noteq> None) \<noteq> (slk_exact_second_result op \<noteq> None))
          then reject InvalidOperation ''link group IDs must be empty or valid ULIDs''
          else bindR (new_link_states d op first second) (\<lambda>(a, b).
            checked (ModifyClip j (set_link b) (ModifyClip i (set_link a) d))
              (op\<lparr>slk_exact_first_result := Some a, slk_exact_second_result := Some b\<rparr>)
              (SetClipLink \<lparr>slk_first_clip_id = clip_id first, slk_second_clip_id = clip_id second,
                 slk_first_group_id = clip_link_group_id first,
                 slk_second_group_id = clip_link_group_id second,
                 slk_exact_first_result = Some (link_state first),
                 slk_exact_second_result = Some (link_state second)\<rparr>))
      | _ \<Rightarrow> reject UnknownClip ''SetClipLink requires two distinct existing clips'')"

section \<open>Settings of one clip\<close>

fun fill_effect_ids :: "id_supply \<Rightarrow> ClipEffect list \<Rightarrow> ClipEffect list" where
  "fill_effect_ids g [] = []"
| "fill_effect_ids g (e # es) =
     (if fx_id e = [] then (case fresh g of (i, g') \<Rightarrow> e\<lparr>fx_id := i\<rparr> # fill_effect_ids g' es)
      else e # fill_effect_ids g es)"

definition ApplySetClipEffects ::
  "id_supply \<Rightarrow> Document \<Rightarrow> SetClipEffectsOperation \<Rightarrow> SetClipEffectsOperation applied" where
  "ApplySetClipEffects g d op0 =
     (let i = sfx_clip_id op0 in
      case FindClip d i of
        None \<Rightarrow> reject UnknownClip (''unknown clip_id '' @ quoted i)
      | Some clip \<Rightarrow>
          let op = op0\<lparr>sfx_effects := fill_effect_ids g (sfx_effects op0)\<rparr> in
          checked (ModifyClip i (\<lambda>c. c\<lparr>clip_effects := sfx_effects op\<rparr>) d) op
            (SetClipEffects \<lparr>sfx_clip_id = clip_id clip, sfx_effects = clip_effects clip\<rparr>))"

definition ApplySetClipOpacity ::
  "Document \<Rightarrow> SetClipOpacityOperation \<Rightarrow> SetClipOpacityOperation applied" where
  "ApplySetClipOpacity d op =
     (let i = sop_clip_id op in
      case FindClip d i of
        None \<Rightarrow> reject UnknownClip (''unknown clip_id '' @ quoted i)
      | Some clip \<Rightarrow>
          if (case FindTrackForClip d i of None \<Rightarrow> True | Some t \<Rightarrow> trk_kind t \<noteq> ''video'')
          then reject InvalidOperation ''clip opacity is only supported on video tracks''
          else checked (ModifyClip i (\<lambda>c. c\<lparr>clip_opacity := sop_opacity op\<rparr>) d) op
            (SetClipOpacity \<lparr>sop_clip_id = clip_id clip, sop_opacity = clip_opacity clip\<rparr>))"

definition ApplySetClipAudio :: "Document \<Rightarrow> SetClipAudioOperation \<Rightarrow> SetClipAudioOperation applied" where
  "ApplySetClipAudio d op =
     (let i = sao_clip_id op in
      case FindClip d i of
        None \<Rightarrow> reject UnknownClip (''unknown clip_id '' @ quoted i)
      | Some clip \<Rightarrow>
          if (case FindTrackForClip d i of None \<Rightarrow> True | Some t \<Rightarrow> trk_kind t \<noteq> ''audio'')
          then reject InvalidOperation ''clip audio settings are only supported on audio tracks''
          else checked (ModifyClip i (\<lambda>c. c\<lparr>clip_audio_gain_db := sao_gain_db op,
                   clip_audio_fade_in := sao_fade_in op, clip_audio_fade_out := sao_fade_out op\<rparr>) d) op
            (SetClipAudio \<lparr>sao_clip_id = clip_id clip, sao_gain_db = clip_audio_gain_db clip,
               sao_fade_in = clip_audio_fade_in clip, sao_fade_out = clip_audio_fade_out clip\<rparr>))"

definition ApplySetClipCaption ::
  "Document \<Rightarrow> SetClipCaptionOperation \<Rightarrow> SetClipCaptionOperation applied" where
  "ApplySetClipCaption d op =
     (let i = scc_clip_id op in
      case FindClip d i of
        None \<Rightarrow> reject UnknownClip (''unknown clip_id '' @ quoted i)
      | Some clip \<Rightarrow>
          checked (ModifyClip i (\<lambda>c. c\<lparr>clip_caption_group_id := scc_caption_group_id op,
                   clip_caption_text := scc_caption_text op\<rparr>) d) op
            (SetClipCaption \<lparr>scc_clip_id = clip_id clip,
               scc_caption_group_id = clip_caption_group_id clip,
               scc_caption_text = clip_caption_text clip\<rparr>))"

end
