(* ===== verification/Ops_Split.thy ===== *)
theory Ops_Split
  imports Ops_Settings
begin

text \<open>
  Splits, joins and the removal of words, \<open>src/Operations.cc\<close> lines 2956 to 3452, 3821
  to 4125.
\<close>

section \<open>Split one clip\<close>

definition first_bad_effect_id :: "Document \<Rightarrow> Ulid list \<Rightarrow> Ulid option" where
  "first_bad_effect_id d =
     List.find (\<lambda>e. \<not> IsValidUlid e \<or> FindClip d e \<noteq> None \<or> FindSource d e \<noteq> None \<or> FindTrack d e \<noteq> None)"

definition split_left :: "RationalTime \<Rightarrow> DocumentClip \<Rightarrow> DocumentClip" where
  "split_left leftDuration original =
     original\<lparr>clip_duration := leftDuration, clip_audio_fade_out := RT 0 1\<rparr>"

definition ApplySplit ::
  "id_supply \<Rightarrow> Document \<Rightarrow> SplitClipOperation \<Rightarrow>
   (Document \<times> SplitClipOperation \<times> Operation \<times> id_supply) result" where
  "ApplySplit g0 d op0 =
     (let i = sco_clip_id op0; pos = sco_timeline_position op0 in
      case FindTrackForClip d i of
        None \<Rightarrow> reject UnknownClip (''unknown clip_id '' @ quoted i)
      | Some track \<Rightarrow>
      let clips = trk_clips track; index = index_of (\<lambda>c. clip_id c = i) clips; original = clips ! index in
      bindT (rt_add (clip_timeline_in original) (clip_duration original)) (\<lambda>end_time.
      bindT (if rt_rate pos \<le> 0 then Inr True
             else orR (rt_le pos (clip_timeline_in original)) (rt_ge pos end_time)) (\<lambda>outside.
      if outside then reject InvalidOperation
        (''split_clip timeline_position must be strictly within ('' @
         DescribeTime (clip_timeline_in original) @ '', '' @ DescribeTime end_time @ ''); got '' @
         DescribeTime pos)
      else
      let (op1, g1) = (if sco_right_clip_id op0 = []
             then (case fresh g0 of (r, g) \<Rightarrow> (op0\<lparr>sco_right_clip_id := r\<rparr>, g)) else (op0, g0));
          r = sco_right_clip_id op1 in
      if \<not> IsValidUlid r \<or> FindClip d r \<noteq> None \<or> FindSource d r \<noteq> None \<or> FindTrack d r \<noteq> None
      then reject DuplicateId (''split right_clip_id is invalid or already exists: '' @ quoted r)
      else
      bindT (rt_sub pos (clip_timeline_in original)) (\<lambda>leftDuration.
      let effects = clip_effects original;
          (op, g) = (if sco_right_effect_ids op1 = [] \<and> effects \<noteq> []
             then (case fresh_many (length effects) g1 of (es, g) \<Rightarrow> (op1\<lparr>sco_right_effect_ids := es\<rparr>, g))
             else (op1, g1)) in
      if length (sco_right_effect_ids op) \<noteq> length effects
      then reject InvalidOperation ''split requires one right effect ID per effect on the clip''
      else (case first_bad_effect_id d (sco_right_effect_ids op) of
        Some e \<Rightarrow> reject DuplicateId (''split right effect ID is invalid or already exists: '' @ quoted e)
      | None \<Rightarrow>
      bindT (rt_add (clip_source_in original) leftDuration) (\<lambda>si.
      bindT (rt_sub (clip_duration original) leftDuration) (\<lambda>du.
      let right = original\<lparr>clip_id := r, clip_source_in := si, clip_duration := du,
                    clip_timeline_in := pos, clip_audio_fade_in := RT 0 1,
                    clip_effects := map2 (\<lambda>e j. e\<lparr>fx_id := j\<rparr>) effects (sco_right_effect_ids op)\<rparr>;
          d' = ModifyTrackForClip i (with_clips (\<lambda>_.
                 take index clips @ split_left leftDuration original # right # drop (index + 1) clips)) d in
      bindR (ValidateResult d') (\<lambda>_.
        Inr (d', op, JoinClip \<lparr>jco_left_clip_id = clip_id original, jco_right_clip_id = r,
                               jco_joined_times = TimesOf original\<rparr>, g)))))))))"

section \<open>Join\<close>

definition ApplyJoin :: "Document \<Rightarrow> JoinClipOperation \<Rightarrow> JoinClipOperation applied" where
  "ApplyJoin d op =
     (let i = jco_left_clip_id op in
      case FindTrackForClip d i of
        None \<Rightarrow> reject UnknownClip (''unknown left_clip_id '' @ quoted i)
      | Some track \<Rightarrow>
      let clips = trk_clips track; index = index_of (\<lambda>c. clip_id c = i) clips in
      if index \<ge> length clips \<or> index + 1 \<ge> length clips \<or>
         clip_id (clips ! (index + 1)) \<noteq> jco_right_clip_id op
      then reject InvalidOperation ''join clips must be adjacent on the same track''
      else
      let left = clips ! index; right = clips ! (index + 1) in
      bindT (if clip_source_id left \<noteq> clip_source_id right then Inr True
             else orR (bindR (rt_add (clip_timeline_in left) (clip_duration left))
                         (\<lambda>e. rt_ne e (clip_timeline_in right)))
                      (bindR (rt_add (clip_source_in left) (clip_duration left))
                         (\<lambda>e. rt_ne e (clip_source_in right)))) (\<lambda>apart.
      if apart then reject InvalidOperation ''join clips are not contiguous pieces of one source''
      else
      let joined = (set_times (jco_joined_times op) left)
                     \<lparr>clip_audio_fade_out := clip_audio_fade_out right\<rparr> in
      checked (ModifyTrackForClip i (with_clips (\<lambda>_.
                 take index clips @ joined # drop (index + 2) clips)) d) op
        (SplitClip \<lparr>sco_clip_id = i, sco_timeline_position = clip_timeline_in right,
                    sco_right_clip_id = jco_right_clip_id op, sco_right_effect_ids = []\<rparr>)))"

section \<open>Split linked clips\<close>

definition collect_linked_split ::
  "Document \<Rightarrow> Ulid \<Rightarrow> RationalTime \<Rightarrow> Ulid \<Rightarrow> Ulid list \<times> Ulid list \<Rightarrow> (Ulid list \<times> Ulid list) result" where
  "collect_linked_split d grp pos i = (\<lambda>(seen, members).
     let bad = reject InvalidOperation
           ''split_linked_clips members must be unique and share link_group_id'' in
     case (FindClip d i, FindTrackForClip d i) of
       (Some clip, Some track) \<Rightarrow>
         if clip_link_group_id clip \<noteq> grp \<or> i \<in> set seen then bad
         else
         bindT (rt_add (clip_timeline_in clip) (clip_duration clip)) (\<lambda>end_time.
         bindT (if rt_rate pos \<le> 0 then Inr True
                else orR (rt_le pos (clip_timeline_in clip)) (rt_ge pos end_time)) (\<lambda>outside.
         if outside then reject InvalidOperation
           (''split_linked_clips timeline_position must be strictly within ('' @
            DescribeTime (clip_timeline_in clip) @ '', '' @ DescribeTime end_time @
            '') for clip_id '' @ quoted (clip_id clip) @ ''; got '' @ DescribeTime pos)
         else Inr (seen @ [i], push_unique (trk_id track) members)))
     | _ \<Rightarrow> bad)"

definition collect_split_sync :: "Document \<Rightarrow> Ulid \<Rightarrow> Ulid list \<Rightarrow> Ulid list result" where
  "collect_split_sync d i affected =
     (if FindTrack d i = None
      then reject UnknownTrack (''unknown linked split sync track_id '' @ quoted i)
      else Inr (push_unique i affected))"

definition check_right_id :: "Document \<Rightarrow> Ulid \<Rightarrow> Ulid list \<Rightarrow> Ulid list result" where
  "check_right_id d i generated =
     (if \<not> IsValidUlid i \<or> FindClip d i \<noteq> None \<or> FindTrack d i \<noteq> None \<or> FindSource d i \<noteq> None \<or>
         i \<in> set generated
      then reject DuplicateId ''linked split right clip ID is invalid or already exists''
      else Inr (generated @ [i]))"

definition split_step ::
  "SplitClipOperation \<Rightarrow> Document \<times> id_supply \<Rightarrow> (Document \<times> id_supply) result" where
  "split_step s = (\<lambda>(d, g). bindR (ApplySplit g d s) (\<lambda>(d', _, _, g'). Inr (d', g')))"

definition plain_split :: "Ulid \<Rightarrow> RationalTime \<Rightarrow> Ulid \<Rightarrow> SplitClipOperation" where
  "plain_split i pos r = \<lparr>sco_clip_id = i, sco_timeline_position = pos, sco_right_clip_id = r,
                          sco_right_effect_ids = []\<rparr>"

definition regroup_pair ::
  "Ulid \<Rightarrow> Ulid \<Rightarrow> Ulid \<Rightarrow> Ulid \<Rightarrow> Ulid \<times> Ulid \<Rightarrow> Document \<Rightarrow> Document" where
  "regroup_pair leftGroup leftAnchor rightGroup rightAnchor = (\<lambda>(l, r) d.
     ModifyClip r (\<lambda>c. c\<lparr>clip_link_group_id := rightGroup, clip_sync_anchor_clip_id := rightAnchor\<rparr>)
       (ModifyClip l (\<lambda>c. c\<lparr>clip_link_group_id := leftGroup, clip_sync_anchor_clip_id := leftAnchor\<rparr>) d))"

definition split_sync_track ::
  "Ulid list \<Rightarrow> RationalTime \<Rightarrow> Ulid \<Rightarrow> Document \<times> id_supply \<Rightarrow> (Document \<times> id_supply) result" where
  "split_sync_track members pos i = (\<lambda>(d, g).
     if i \<in> set members then Inr (d, g)
     else (case FindTrack d i of
             None \<Rightarrow> Inr (d, g)
           | Some t \<Rightarrow>
               bindT (findR (\<lambda>c. andR (rt_lt (clip_timeline_in c) pos)
                        (bindR (rt_add (clip_timeline_in c) (clip_duration c)) (rt_lt pos)))
                        (trk_clips t)) (\<lambda>crossing.
               case crossing of
                 None \<Rightarrow> Inr (d, g)
               | Some c \<Rightarrow> if clip_id c = [] then Inr (d, g)
                           else split_step (plain_split (clip_id c) pos []) (d, g))))"

definition ApplySplitLinked ::
  "id_supply \<Rightarrow> Document \<Rightarrow> SplitLinkedClipsOperation \<Rightarrow>
   (Document \<times> SplitLinkedClipsOperation \<times> Operation \<times> id_supply) result" where
  "ApplySplitLinked g0 d op0 =
     (let ids = slo_clip_ids op0; pos = slo_timeline_position op0 in
      if slo_exact_track_result op0 \<noteq> []
      then bindR (replay_exact_each ''exact linked split references an unknown track'' d
                    (slo_exact_track_result op0)) (\<lambda>(d', before).
             Inr (d', op0, SplitLinkedClips (op0\<lparr>slo_exact_track_result := before\<rparr>), g0))
      else if slo_link_group_id op0 = [] \<or> length ids < 2
      then reject InvalidOperation ''SplitLinkedClips requires at least two linked members''
      else
      bindR (loopR (collect_linked_split d (slo_link_group_id op0) pos) ids ([], [])) (\<lambda>(_, members).
      bindR (loopR (collect_split_sync d) (slo_sync_track_ids op0) members) (\<lambda>affected.
      let (lg, g1) = (if slo_left_group_id op0 = [] then fresh g0 else (slo_left_group_id op0, g0));
          (rg, g2) = (if slo_right_group_id op0 = [] then fresh g1 else (slo_right_group_id op0, g1)) in
      if \<not> IsValidUlid lg \<or> \<not> IsValidUlid rg \<or> lg = rg
      then reject InvalidOperation ''linked split requires two distinct valid group IDs''
      else
      let (rights, g3) = (if slo_right_clip_ids op0 = [] then fresh_many (length ids) g2
                          else (slo_right_clip_ids op0, g2)) in
      if length rights \<noteq> length ids
      then reject InvalidOperation ''linked split requires one right clip ID per member''
      else
      bindR (loopR (check_right_id d) rights []) (\<lambda>_.
      let op = op0\<lparr>slo_left_group_id := lg, slo_right_group_id := rg, slo_right_clip_ids := rights\<rparr>;
          before = snapshots d affected;
          leftAnchor = (case List.find (\<lambda>i. case FindClip d i of None \<Rightarrow> False
                             | Some c \<Rightarrow> clip_sync_anchor_clip_id c = i) ids of
                          None \<Rightarrow> hd ids | Some i \<Rightarrow> i);
          rightAnchor = rights ! index_of (\<lambda>i. i = leftAnchor) ids in
      bindR (loopR (\<lambda>(i, r). split_step (plain_split i pos r)) (zip ids rights) (d, g3)) (\<lambda>(d1, g4).
      let d2 = fold (regroup_pair lg leftAnchor rg rightAnchor) (zip ids rights) d1 in
      bindR (loopR (split_sync_track members pos) (slo_sync_track_ids op0) (d2, g4)) (\<lambda>(d3, g5).
      bindR (ValidateResult d3) (\<lambda>_.
        Inr (d3, op\<lparr>slo_exact_track_result := snapshots d3 affected\<rparr>,
             SplitLinkedClips (op\<lparr>slo_exact_track_result := before\<rparr>), g5))))))))"

section \<open>Split at several positions\<close>

definition SplitAffectedTrackIds :: "Document \<Rightarrow> DocumentClip \<Rightarrow> Ulid list" where
  "SplitAffectedTrackIds d clip =
     fold push_unique
       (tracks_of_clips d (clip_id clip #
          (if clip_link_group_id clip = [] then []
           else map clip_id (filter (\<lambda>m. clip_link_group_id m = clip_link_group_id clip)
                  (concat (map trk_clips (doc_tracks d))))))) []"

definition TimelineCutOperation ::
  "Document \<Rightarrow> DocumentClip \<Rightarrow> RationalTime \<Rightarrow> string + Operation" where
  "TimelineCutOperation d clip pos =
     bindR (if clip_link_group_id clip = [] then Inr []
            else loopR (\<lambda>m members.
                   if clip_link_group_id m \<noteq> clip_link_group_id clip then Inr members
                   else bindR (orR (rt_le pos (clip_timeline_in m))
                                (bindR (rt_add (clip_timeline_in m) (clip_duration m)) (rt_ge pos)))
                          (\<lambda>outside. Inr (if outside then members else members @ [clip_id m])))
                   (concat (map trk_clips (doc_tracks d))) []) (\<lambda>members.
       Inr (if length members > 1
            then SplitLinkedClips \<lparr>slo_link_group_id = clip_link_group_id clip, slo_clip_ids = members,
                   slo_timeline_position = pos, slo_left_group_id = [], slo_right_group_id = [],
                   slo_right_clip_ids = [], slo_sync_track_ids = [], slo_exact_track_result = []\<rparr>
            else SplitClip (plain_split (clip_id clip) pos [])))"

definition check_position ::
  "RationalTime \<Rightarrow> RationalTime \<Rightarrow> RationalTime list \<Rightarrow> nat \<Rightarrow> RationalTime \<Rightarrow> unit \<Rightarrow> unit result" where
  "check_position clipStart clipEnd positions index pos _ =
     (if rt_rate pos \<le> 0 then reject ArithmeticError ''time rate must be positive''
      else
      bindT (orR (rt_le pos clipStart) (rt_ge pos clipEnd)) (\<lambda>outside.
      if outside then reject InvalidTimelineIn ''split position must be strictly inside the clip''
      else
      bindT (if index = 0 then Inr False else rt_le pos (positions ! (index - 1))) (\<lambda>back_step.
      if back_step then reject InvalidOperation ''split positions must be strictly increasing''
      else Inr ())))"

definition piece_at ::
  "RationalTime \<Rightarrow> RationalTime \<Rightarrow> RationalTime \<Rightarrow> DocumentClip \<Rightarrow> string + bool" where
  "piece_at clipStart clipEnd pos c =
     andR (rt_lt (clip_timeline_in c) pos)
    (andR (bindR (rt_add (clip_timeline_in c) (clip_duration c)) (rt_lt pos))
    (andR (bindR (rt_add (clip_timeline_in c) (clip_duration c)) (\<lambda>e.
             bindR (rt_le e clipStart) (\<lambda>b. Inr (\<not> b))))
          (bindR (rt_le clipEnd (clip_timeline_in c)) (\<lambda>b. Inr (\<not> b)))))"

definition cut_at ::
  "RationalTime \<Rightarrow> RationalTime \<Rightarrow> Ulid list \<Rightarrow> RationalTime \<Rightarrow> Document \<times> id_supply \<Rightarrow>
   (Document \<times> id_supply) result" where
  "cut_at clipStart clipEnd trackIds pos = (\<lambda>(d, g).
     bindT (findR (piece_at clipStart clipEnd pos)
              (concat (map (\<lambda>i. case FindTrack d i of None \<Rightarrow> [] | Some t \<Rightarrow> trk_clips t) trackIds))) (\<lambda>piece.
     case piece of
       None \<Rightarrow> reject InvalidTimelineIn ''split position must be strictly inside the clip''
     | Some p \<Rightarrow>
         bindT (TimelineCutOperation d p pos) (\<lambda>cut.
         case cut of
           SplitLinkedClips linked \<Rightarrow>
             bindR (ApplySplitLinked g d linked) (\<lambda>(d', _, _, g'). Inr (d', g'))
         | SplitClip single \<Rightarrow> split_step single (d, g)
         | _ \<Rightarrow> Inr (d, g))))"

definition ApplySplitAtPositions ::
  "id_supply \<Rightarrow> Document \<Rightarrow> SplitClipAtPositionsOperation \<Rightarrow> SplitClipAtPositionsOperation applied" where
  "ApplySplitAtPositions g d op =
     (let inverse = (\<lambda>before. SplitClipAtPositions (op\<lparr>spo_exact_track_result := before\<rparr>)) in
      if spo_exact_track_result op \<noteq> []
      then bindR (replay_exact_each ''exact interval split references an unknown track'' d
                    (spo_exact_track_result op)) (\<lambda>(d', before). Inr (d', op, inverse before))
      else
      case FindClip d (spo_clip_id op) of
        None \<Rightarrow> reject UnknownClip (''unknown clip_id '' @ quoted (spo_clip_id op))
      | Some original \<Rightarrow>
      if spo_positions op = [] then reject InvalidOperation ''split requires at least one position''
      else
      let clipStart = clip_timeline_in original in
      bindT (rt_add clipStart (clip_duration original)) (\<lambda>clipEnd.
      bindR (iterR (check_position clipStart clipEnd (spo_positions op)) 0 (spo_positions op) ()) (\<lambda>_.
      let trackIds = SplitAffectedTrackIds d original; before = snapshots_each d trackIds in
      bindR (loopR (cut_at clipStart clipEnd trackIds) (spo_positions op) (d, g)) (\<lambda>(d', _).
        checked d' (op\<lparr>spo_exact_track_result := snapshots_each d' trackIds\<rparr>) (inverse before)))))"

section \<open>Remove words\<close>

definition check_word_range ::
  "WordRemovalRange list \<Rightarrow> nat \<Rightarrow> WordRemovalRange \<Rightarrow> unit \<Rightarrow> unit result" where
  "check_word_range ranges index r _ =
     (bindT (if rt_rate (wrr_source_start r) \<le> 0 \<or> rt_rate (wrr_source_end r) \<le> 0 then Inr True
             else rt_ge (wrr_source_start r) (wrr_source_end r)) (\<lambda>bad.
      if bad then reject InvalidOperation ''RemoveWords range must have a positive duration''
      else
      bindT (if index = 0 then Inr False
             else rt_lt (wrr_source_start r) (wrr_source_end (ranges ! (index - 1)))) (\<lambda>overlaps.
      if overlaps then reject InvalidOperation ''RemoveWords ranges must be sorted and non-overlapping''
      else Inr ())))"

definition collect_cut_id :: "Ulid \<Rightarrow> Ulid list \<Rightarrow> Ulid list result" where
  "collect_cut_id linkedId ids =
     (if linkedId \<in> set ids
      then reject DuplicateId (''RemoveWords linked_clip_ids repeats '' @ quoted linkedId)
      else Inr (ids @ [linkedId]))"

definition resolve_cut ::
  "Document \<Rightarrow> WordRemovalRange list \<Rightarrow> Ulid \<Rightarrow> (Ulid \<times> DocumentClip) list \<times> Ulid list \<Rightarrow>
   ((Ulid \<times> DocumentClip) list \<times> Ulid list) result" where
  "resolve_cut d ranges cutId = (\<lambda>(targets, trackIds).
     case FindTrackForClip d cutId of
       None \<Rightarrow> reject UnknownClip (''unknown clip_id '' @ quoted cutId)
     | Some track \<Rightarrow>
     let original = trk_clips track ! index_of (\<lambda>c. clip_id c = cutId) (trk_clips track) in
     bindT (rt_add (clip_source_in original) (clip_duration original)) (\<lambda>sourceEnd.
     bindT (anyR (\<lambda>r. orR (rt_lt (wrr_source_start r) (clip_source_in original))
                        (rt_gt (wrr_source_end r) sourceEnd)) ranges) (\<lambda>outside.
     if outside then reject SourceOutOfBounds
       (''RemoveWords range falls outside the source range of clip_id '' @ quoted cutId)
     else Inr (targets @ [(trk_id track, original)], add_track (trk_id track) trackIds))))"

definition collect_words_sync :: "Document \<Rightarrow> Ulid \<Rightarrow> Ulid list \<Rightarrow> Ulid list result" where
  "collect_words_sync d i trackIds =
     (if FindTrack d i = None
      then reject UnknownTrack (''unknown RemoveWords sync track_id '' @ quoted i)
      else Inr (add_track i trackIds))"

text \<open>The kept fragments, as source ranges: the cursor skips each removed range.\<close>

definition keep_before ::
  "WordRemovalRange \<Rightarrow> (RationalTime \<times> RationalTime) list \<times> RationalTime \<Rightarrow>
   string + (RationalTime \<times> RationalTime) list \<times> RationalTime" where
  "keep_before r = (\<lambda>(fragments, cursor).
     bindR (rt_gt (wrr_source_start r) cursor) (\<lambda>kept.
       Inr (if kept then fragments @ [(cursor, wrr_source_start r)] else fragments, wrr_source_end r)))"

definition kept_fragments ::
  "WordRemovalRange list \<Rightarrow> RationalTime \<Rightarrow> RationalTime \<Rightarrow> string + (RationalTime \<times> RationalTime) list" where
  "kept_fragments ranges from until =
     bindR (loopR keep_before ranges ([], from)) (\<lambda>(fragments, cursor).
     bindR (rt_lt cursor until) (\<lambda>kept.
       Inr (if kept then fragments @ [(cursor, until)] else fragments)))"

definition place_fragment ::
  "DocumentClip \<Rightarrow> RationalTime \<Rightarrow> nat \<Rightarrow> nat \<Rightarrow> RationalTime \<times> RationalTime \<Rightarrow>
   DocumentClip list \<times> RationalTime \<times> id_supply \<Rightarrow> string + DocumentClip list \<times> RationalTime \<times> id_supply" where
  "place_fragment original padding count index piece = (\<lambda>(clips, cursor, g).
     bindR (if index > 0 then rt_add cursor padding else Inr cursor) (\<lambda>start.
     let (i, g') = (if index = 0 then (clip_id original, g) else fresh g) in
     bindR (rt_sub (snd piece) (fst piece)) (\<lambda>du.
     let fragment = original\<lparr>clip_id := i, clip_source_in := fst piece, clip_duration := du,
           clip_timeline_in := start,
           clip_audio_fade_in := (if index \<noteq> 0 then RT 0 1 else clip_audio_fade_in original),
           clip_audio_fade_out := (if index + 1 \<noteq> count then RT 0 1 else clip_audio_fade_out original)\<rparr> in
     bindR (rt_add start du) (\<lambda>cursor'. Inr (clips @ [fragment], cursor', g')))))"

record words_state =
  ws_document :: Document
  ws_supply :: id_supply
  ws_new_clips :: "DocumentClip list"
  ws_anchor_end :: RationalTime
  ws_anchor_shift :: RationalTime

definition cut_words ::
  "WordRemovalRange list \<Rightarrow> RationalTime \<Rightarrow> nat \<Rightarrow> Ulid \<times> DocumentClip \<Rightarrow> words_state \<Rightarrow> words_state result" where
  "cut_words ranges padding targetIndex target s =
     (let (trackId, original) = target in
      bindT (rt_add (clip_source_in original) (clip_duration original)) (\<lambda>sourceEnd.
      bindT (kept_fragments ranges (clip_source_in original) sourceEnd) (\<lambda>fragments.
      bindT (iterR (place_fragment original padding (length fragments)) 0 fragments
               ([], clip_timeline_in original, ws_supply s)) (\<lambda>(targetClips, cursor, g).
      let newEnd = (if fragments = [] then clip_timeline_in original else cursor) in
      bindT (rt_add (clip_timeline_in original) (clip_duration original)) (\<lambda>originalEnd.
      bindT (rt_sub newEnd originalEnd) (\<lambda>shiftDelta.
      let clips = (case FindTrack (ws_document s) trackId of None \<Rightarrow> [] | Some t \<Rightarrow> trk_clips t);
          index = index_of (\<lambda>c. clip_id c = clip_id original) clips in
      if index = length clips
      then reject UnknownClip (''RemoveWords lost clip_id '' @ quoted (clip_id original) @ '' while cutting'')
      else
      bindT (mapR (shift_clip shiftDelta) (drop (index + 1) clips)) (\<lambda>following.
        Inr (s\<lparr>ws_document := ModifyTrack trackId
                 (with_clips (\<lambda>_. take index clips @ targetClips @ following)) (ws_document s),
               ws_supply := g, ws_new_clips := ws_new_clips s @ targetClips,
               ws_anchor_end := (if targetIndex = 0 then originalEnd else ws_anchor_end s),
               ws_anchor_shift := (if targetIndex = 0 then shiftDelta else ws_anchor_shift s)\<rparr>))))))))"

definition check_new_clip :: "Document \<Rightarrow> DocumentClip \<Rightarrow> unit \<Rightarrow> unit result" where
  "check_new_clip d fragment _ =
     (case FindSource d (clip_source_id fragment) of
        None \<Rightarrow> reject UnknownSource ''RemoveWords clip references an unknown source''
      | Some source \<Rightarrow> ValidateSourceRange source (clip_source_in fragment) (clip_duration fragment))"

definition ApplyRemoveWords :: "id_supply \<Rightarrow> Document \<Rightarrow> RemoveWordsOperation \<Rightarrow> RemoveWordsOperation applied" where
  "ApplyRemoveWords g d op =
     (let ranges = rwo_ranges op; padding = rwo_gap_padding op;
          inverse = (\<lambda>before. RemoveWords (op\<lparr>rwo_exact_track_result := before\<rparr>)) in
      if rwo_exact_track_result op \<noteq> []
      then bindR (replay_exact_set ''exact word removal state references an unknown track'' d
                    (rwo_exact_track_result op)) (\<lambda>(d', before). Inr (d', op, inverse before))
      else if ranges = [] then reject InvalidOperation ''RemoveWords requires at least one range''
      else if rt_rate padding \<le> 0 \<or> rt_value padding < 0
      then reject ArithmeticError ''RemoveWords gap_padding must be a non-negative exact duration''
      else
      bindR (iterR (check_word_range ranges) 0 ranges ()) (\<lambda>_.
      bindR (loopR collect_cut_id (rwo_linked_clip_ids op) [rwo_clip_id op]) (\<lambda>cutIds.
      bindR (loopR (resolve_cut d ranges) cutIds ([], [])) (\<lambda>(targets, trackIds0).
      bindR (loopR (collect_words_sync d) (rwo_sync_track_ids op) trackIds0) (\<lambda>trackIds.
      let before = snapshots_each d trackIds in
      bindR (iterR (cut_words ranges padding) 0 targets
               \<lparr>ws_document = d, ws_supply = g, ws_new_clips = [], ws_anchor_end = RT 0 1,
                ws_anchor_shift = RT 0 1\<rparr>) (\<lambda>s.
      bindT (loopR (shift_other_track (map fst targets) (ws_anchor_end s) (ws_anchor_shift s))
               (rwo_sync_track_ids op) (ws_document s)) (\<lambda>d'.
      bindR (loopR (check_new_clip d') (ws_new_clips s) ()) (\<lambda>_.
        checked d' (op\<lparr>rwo_exact_track_result := snapshots_each d' trackIds\<rparr>) (inverse before)))))))))"

section \<open>Helpers of the callers\<close>

definition LinkedClipIdsCoveringRanges ::
  "Document \<Rightarrow> DocumentClip \<Rightarrow> WordRemovalRange list \<Rightarrow> string + Ulid list" where
  "LinkedClipIdsCoveringRanges d clip ranges =
     (if clip_link_group_id clip = [] then Inr []
      else loopR (\<lambda>other linked.
             if clip_id other = clip_id clip \<or> clip_link_group_id other \<noteq> clip_link_group_id clip \<or>
                clip_source_id other \<noteq> clip_source_id clip
             then Inr linked
             else bindR (rt_add (clip_source_in other) (clip_duration other)) (\<lambda>sourceEnd.
                  bindR (anyR (\<lambda>r. bindR (andR (rt_ge (wrr_source_start r) (clip_source_in other))
                                              (rt_le (wrr_source_end r) sourceEnd)) (\<lambda>b. Inr (\<not> b)))
                           ranges) (\<lambda>uncovered.
                    Inr (if uncovered then linked else linked @ [clip_id other]))))
           (concat (map trk_clips (doc_tracks d))) [])"

end
