(* ===== verification/Apply_Operation.thy ===== *)
theory Apply_Operation
  imports Ops_Split
begin

text \<open>
  \<open>LockedTrackTouchedBy\<close> and \<open>ApplyOperation\<close>, \<open>src/Operations.cc\<close> lines 104 to 256
  and 4183 to 4409: the lock check, the dispatch, and the commit of a candidate that
  passed.
\<close>

section \<open>The lock check\<close>

definition clip_tracks :: "Document \<Rightarrow> Ulid list \<Rightarrow> Ulid list" where
  "clip_tracks d ids =
     concat (map (\<lambda>i. case FindTrackForClip d i of None \<Rightarrow> [] | Some t \<Rightarrow> [trk_id t]) ids)"

abbreviation exact_tracks :: "ExactTrackState list \<Rightarrow> Ulid list" where
  "exact_tracks states \<equiv> map ets_track_id states"

abbreviation position_tracks :: "Document \<Rightarrow> ExactTimelinePosition list \<Rightarrow> Ulid list" where
  "position_tracks d positions \<equiv> clip_tracks d (map etp_clip_id positions)"

definition move_tracks :: "Document \<Rightarrow> LinkedClipMove list \<Rightarrow> Ulid list" where
  "move_tracks d moves = concat (map (\<lambda>m. clip_tracks d [lcm_clip_id m] @ [lcm_track_id m]) moves)"

text \<open>The calls of \<open>addTrack\<close>, in order; unlisted operations address no track.\<close>

fun addressed_tracks :: "Document \<Rightarrow> Operation \<Rightarrow> Ulid list" where
  "addressed_tracks d (InsertClip v) =
     ico_track_id v # position_tracks d (ico_exact_timeline_result v)"
| "addressed_tracks d (RemoveClip v) =
     clip_tracks d [rco_clip_id v] @ rco_sync_track_ids v @
     position_tracks d (rco_exact_timeline_result v)"
| "addressed_tracks d (TrimClip v) = clip_tracks d [tco_clip_id v]"
| "addressed_tracks d (SplitClip v) = clip_tracks d [sco_clip_id v]"
| "addressed_tracks d (ClearClip v) =
     clip_tracks d [cco_clip_id v] @ exact_tracks (cco_exact_track_result v)"
| "addressed_tracks d (ClearClips v) =
     clip_tracks d (ccs_clip_ids v) @ exact_tracks (ccs_exact_track_result v)"
| "addressed_tracks d (PasteClips v) =
     map pc_track_id (pco_clips v) @ exact_tracks (pco_exact_track_result v)"
| "addressed_tracks d (MoveClip v) =
     clip_tracks d [mco_clip_id v] @ mco_track_id v # exact_tracks (mco_exact_track_result v)"
| "addressed_tracks d (MoveClips v) =
     move_tracks d (mcs_moves v) @ exact_tracks (mcs_exact_track_result v)"
| "addressed_tracks d (MoveLinkedClips v) =
     move_tracks d (mlo_moves v) @ exact_tracks (mlo_exact_track_result v)"
| "addressed_tracks d (TrimLinkedClips v) =
     clip_tracks d (map lct_clip_id (tlo_trims v)) @ exact_tracks (tlo_exact_track_result v)"
| "addressed_tracks d (RippleTrim v) =
     clip_tracks d (rto_clip_id v # rto_linked_clip_ids v) @ rto_sync_track_ids v @
     exact_tracks (rto_exact_track_result v)"
| "addressed_tracks d (TrimBoundaryAir v) =
     clip_tracks d (concat (map (\<lambda>t. bat_clip_id t # bat_linked_clip_ids t) (tba_trims v))) @
     tba_sync_track_ids v @ exact_tracks (tba_exact_track_result v)"
| "addressed_tracks d (RollEdit v) =
     clip_tracks d (concat (map (\<lambda>p. [rep_left_clip_id p, rep_right_clip_id p]) (reo_pairs v))) @
     exact_tracks (reo_exact_track_result v)"
| "addressed_tracks d (SlipEdit v) =
     clip_tracks d (seo_clip_ids v) @ exact_tracks (seo_exact_track_result v)"
| "addressed_tracks d (RemoveLinkedClips v) =
     clip_tracks d (rlo_clip_ids v) @ rlo_sync_track_ids v @ exact_tracks (rlo_exact_track_result v)"
| "addressed_tracks d (ClearLinkedClips v) =
     clip_tracks d (clo_clip_ids v) @ exact_tracks (clo_exact_track_result v)"
| "addressed_tracks d (DeleteGap v) =
     dgo_track_id v # dgo_linked_track_ids v @ exact_tracks (dgo_exact_track_result v)"
| "addressed_tracks d (DetachAudio v) =
     clip_tracks d [dao_video_clip_id v] @ dao_audio_track_id v #
     exact_tracks (dao_exact_track_result v)"
| "addressed_tracks d (RemoveTrack v) = [rmt_track_id v]"
| "addressed_tracks d (SetClipLink v) = clip_tracks d [slk_first_clip_id v, slk_second_clip_id v]"
| "addressed_tracks d (AddTransition v) = [trn_track_id (atr_transition v)]"
| "addressed_tracks d (RemoveTransition v) =
     (case FindTransition d (rtr_transition_id v) of None \<Rightarrow> [] | Some t \<Rightarrow> [trn_track_id t])"
| "addressed_tracks d (UpdateTransition v) =
     (case FindTransition d (utr_transition_id v) of None \<Rightarrow> [] | Some t \<Rightarrow> [trn_track_id t])"
| "addressed_tracks d (SplitLinkedClips v) =
     clip_tracks d (slo_clip_ids v) @ slo_sync_track_ids v @ exact_tracks (slo_exact_track_result v)"
| "addressed_tracks d (JoinClip v) = clip_tracks d [jco_left_clip_id v, jco_right_clip_id v]"
| "addressed_tracks d (SetClipEffects v) = clip_tracks d [sfx_clip_id v]"
| "addressed_tracks d (SetClipOpacity v) = clip_tracks d [sop_clip_id v]"
| "addressed_tracks d (SetClipAudio v) = clip_tracks d [sao_clip_id v]"
| "addressed_tracks d (SetClipCaption v) = clip_tracks d [scc_clip_id v]"
| "addressed_tracks d (SplitClipAtPositions v) =
     clip_tracks d [spo_clip_id v] @ exact_tracks (spo_exact_track_result v)"
| "addressed_tracks d (RemoveWords v) =
     clip_tracks d [rwo_clip_id v] @ rwo_sync_track_ids v @ exact_tracks (rwo_exact_track_result v)"
| "addressed_tracks d _ = []"

definition LockedTrackTouchedBy :: "Document \<Rightarrow> Operation \<Rightarrow> DocumentTrack option" where
  "LockedTrackTouchedBy d op =
     List.find trk_locked (List.map_filter (FindTrack d) (fold add_track (addressed_tracks d op) []))"

section \<open>Apply\<close>

fun skips_lock_check :: "Operation \<Rightarrow> bool" where
  "skips_lock_check (SetTrackLock _) = True"
| "skips_lock_check (SetTrackSyncLock _) = True"
| "skips_lock_check (SetTrackOutput _) = True"
| "skips_lock_check _ = False"

type_synonym edit = "Document \<times> Operation \<times> Operation"

definition as_edit :: "('op \<Rightarrow> Operation) \<Rightarrow> 'op applied \<Rightarrow> edit result" where
  "as_edit con r = bindR r (\<lambda>(d, op, undo). Inr (d, con op, undo))"

definition as_edit_drawing ::
  "('op \<Rightarrow> Operation) \<Rightarrow> (Document \<times> 'op \<times> Operation \<times> id_supply) result \<Rightarrow> edit result" where
  "as_edit_drawing con r = bindR r (\<lambda>(d, op, undo, _). Inr (d, con op, undo))"

fun dispatch :: "id_supply \<Rightarrow> Document \<Rightarrow> Operation \<Rightarrow> edit result" where
  "dispatch g d (InsertClip v) = as_edit InsertClip (ApplyInsert g d v)"
| "dispatch g d (RemoveClip v) = as_edit RemoveClip (ApplyRemove d v)"
| "dispatch g d (ClearClip v) = as_edit ClearClip (ApplyClear d v)"
| "dispatch g d (ClearClips v) = as_edit ClearClips (ApplyClearClips d v)"
| "dispatch g d (PasteClips v) = as_edit PasteClips (ApplyPasteClips g d v)"
| "dispatch g d (TrimClip v) = as_edit TrimClip (ApplyTrim d v)"
| "dispatch g d (MoveClip v) = as_edit_drawing MoveClip (ApplyMove g d v)"
| "dispatch g d (MoveClips v) = as_edit MoveClips (ApplyMoveClips g d v)"
| "dispatch g d (MoveLinkedClips v) = as_edit MoveLinkedClips (ApplyMoveLinked g d v)"
| "dispatch g d (TrimLinkedClips v) = as_edit TrimLinkedClips (ApplyTrimLinked d v)"
| "dispatch g d (RippleTrim v) = as_edit RippleTrim (ApplyRippleTrim d v)"
| "dispatch g d (TrimBoundaryAir v) = as_edit TrimBoundaryAir (ApplyTrimBoundaryAir d v)"
| "dispatch g d (RollEdit v) = as_edit RollEdit (ApplyRollEdit d v)"
| "dispatch g d (SlipEdit v) = as_edit SlipEdit (ApplySlipEdit d v)"
| "dispatch g d (RemoveLinkedClips v) = as_edit RemoveLinkedClips (ApplyRemoveLinked d v)"
| "dispatch g d (ClearLinkedClips v) = as_edit ClearLinkedClips (ApplyClearLinked d v)"
| "dispatch g d (SplitClip v) = as_edit_drawing SplitClip (ApplySplit g d v)"
| "dispatch g d (SplitLinkedClips v) = as_edit_drawing SplitLinkedClips (ApplySplitLinked g d v)"
| "dispatch g d (SplitClipAtPositions v) = as_edit SplitClipAtPositions (ApplySplitAtPositions g d v)"
| "dispatch g d (DeleteGap v) = as_edit DeleteGap (ApplyDeleteGap d v)"
| "dispatch g d (DetachAudio v) = as_edit DetachAudio (ApplyDetachAudio g d v)"
| "dispatch g d (AddTrack v) = as_edit AddTrack (ApplyAddTrack g d v)"
| "dispatch g d (RemoveTrack v) = as_edit RemoveTrack (ApplyRemoveTrack d v)"
| "dispatch g d (SetTrackLock v) = as_edit SetTrackLock (ApplySetTrackLock d v)"
| "dispatch g d (SetTrackSyncLock v) = as_edit SetTrackSyncLock (ApplySetTrackSyncLock d v)"
| "dispatch g d (SetTrackOutput v) = as_edit SetTrackOutput (ApplySetTrackOutput d v)"
| "dispatch g d (UpdateSequence v) = as_edit UpdateSequence (ApplyUpdateSequence d v)"
| "dispatch g d (SetColorManagement v) = as_edit SetColorManagement (ApplySetColorManagement d v)"
| "dispatch g d (AddBin v) = as_edit AddBin (ApplyAddBin g d v)"
| "dispatch g d (RemoveBin v) = as_edit RemoveBin (ApplyRemoveBin d v)"
| "dispatch g d (RenameBin v) = as_edit RenameBin (ApplyRenameBin d v)"
| "dispatch g d (MoveBin v) = as_edit MoveBin (ApplyMoveBin d v)"
| "dispatch g d (SetMediaBin v) = as_edit SetMediaBin (ApplySetMediaBin d v)"
| "dispatch g d (AddMarker v) = as_edit AddMarker (ApplyAddMarker g d v)"
| "dispatch g d (RemoveMarker v) = as_edit RemoveMarker (ApplyRemoveMarker d v)"
| "dispatch g d (UpdateMarker v) = as_edit UpdateMarker (ApplyUpdateMarker d v)"
| "dispatch g d (AddTransition v) = as_edit AddTransition (ApplyAddTransition g d v)"
| "dispatch g d (RemoveTransition v) = as_edit RemoveTransition (ApplyRemoveTransition d v)"
| "dispatch g d (UpdateTransition v) = as_edit UpdateTransition (ApplyUpdateTransition d v)"
| "dispatch g d (SetClipLink v) = as_edit SetClipLink (ApplySetClipLink d v)"
| "dispatch g d (JoinClip v) = as_edit JoinClip (ApplyJoin d v)"
| "dispatch g d (SetClipEffects v) = as_edit SetClipEffects (ApplySetClipEffects g d v)"
| "dispatch g d (SetClipOpacity v) = as_edit SetClipOpacity (ApplySetClipOpacity d v)"
| "dispatch g d (SetClipAudio v) = as_edit SetClipAudio (ApplySetClipAudio d v)"
| "dispatch g d (AddCaptionStyle v) = as_edit AddCaptionStyle (ApplyAddCaptionStyle g d v)"
| "dispatch g d (RemoveCaptionStyle v) = as_edit RemoveCaptionStyle (ApplyRemoveCaptionStyle d v)"
| "dispatch g d (SetClipCaption v) = as_edit SetClipCaption (ApplySetClipCaption d v)"
| "dispatch g d (AddMulticamGroup v) = as_edit AddMulticamGroup (ApplyAddMulticamGroup g d v)"
| "dispatch g d (RemoveMulticamGroup v) = as_edit RemoveMulticamGroup (ApplyRemoveMulticamGroup d v)"
| "dispatch g d (SetMulticamActiveAngle v) =
     as_edit SetMulticamActiveAngle (ApplySetMulticamActiveAngle d v)"
| "dispatch g d (RemoveWords v) = as_edit RemoveWords (ApplyRemoveWords g d v)"

text \<open>
  \<open>ApplyOperation\<close>: the result carries the new document, the operation as logged and
  its inverse; on \<open>Inl\<close> the caller's document is the one it had.
\<close>

definition ApplyOperation :: "id_supply \<Rightarrow> Document \<Rightarrow> Operation \<Rightarrow> edit result" where
  "ApplyOperation g d op =
     (case (if skips_lock_check op then None else LockedTrackTouchedBy d op) of
        Some locked \<Rightarrow> reject LockedTrack (''track_id '' @ quoted (trk_id locked) @ '' is locked'')
      | None \<Rightarrow> dispatch g d op)"

end
