(* ===== verification/Apply_Valid.thy ===== *)
theory Apply_Valid
  imports Apply_Operation
begin

text \<open>
  Whatever edit goes through, the document it leaves passes \<open>Validate\<close>: one lemma per
  operation, and the theorem for \<open>ApplyOperation\<close>.
\<close>

named_theorems leaves_valid

lemma replay_exact_valid:
  "replay_exact m d states = Inr (d', before) \<Longrightarrow> valid d'"
  "replay_exact_set m d states = Inr (d', before) \<Longrightarrow> valid d'"
  "replay_exact_each m d states = Inr (d', before) \<Longrightarrow> valid d'"
  by (auto simp: replay_exact_def replay_exact_set_def replay_exact_each_def Let_def split: if_splits)

lemma loopR_last:
  assumes "loopR f xs s = Inr s'" and "xs \<noteq> []"
    and "\<And>x a b. x \<in> set xs \<Longrightarrow> f x a = Inr b \<Longrightarrow> P b"
  shows "P s'"
  using assms
proof (induction xs arbitrary: s)
  case Nil
  then show ?case by simp
next
  case (Cons x xs)
  from Cons.prems(1) obtain t where t: "f x s = Inr t" "loopR f xs t = Inr s'" by auto
  show ?case
  proof (cases "xs = []")
    case True
    with t Cons.prems(3) show ?thesis by auto
  next
    case False
    from Cons.IH [OF t(2) this] Cons.prems(3) show ?thesis by auto
  qed
qed

lemma ApplyAddTrack_valid [leaves_valid]: "ApplyAddTrack g d op = Inr (d', op', iv) \<Longrightarrow> valid d'"
  by (auto simp: ApplyAddTrack_def Let_def split: if_splits option.splits prod.splits list.splits
      dest!: replay_exact_valid)

lemma ApplyRemoveTrack_valid [leaves_valid]: "ApplyRemoveTrack d op = Inr (d', op', iv) \<Longrightarrow> valid d'"
  by (auto simp: ApplyRemoveTrack_def Let_def split: if_splits option.splits prod.splits list.splits
      dest!: replay_exact_valid)

lemma ApplySetTrackLock_valid [leaves_valid]: "ApplySetTrackLock d op = Inr (d', op', iv) \<Longrightarrow> valid d'"
  by (auto simp: ApplySetTrackLock_def Let_def split: if_splits option.splits prod.splits list.splits
      dest!: replay_exact_valid)

lemma ApplySetTrackSyncLock_valid [leaves_valid]: "ApplySetTrackSyncLock d op = Inr (d', op', iv) \<Longrightarrow> valid d'"
  by (auto simp: ApplySetTrackSyncLock_def Let_def split: if_splits option.splits prod.splits list.splits
      dest!: replay_exact_valid)

lemma ApplySetTrackOutput_valid [leaves_valid]: "ApplySetTrackOutput d op = Inr (d', op', iv) \<Longrightarrow> valid d'"
  by (auto simp: ApplySetTrackOutput_def Let_def split: if_splits option.splits prod.splits list.splits
      dest!: replay_exact_valid)

lemma ApplyUpdateSequence_valid [leaves_valid]: "ApplyUpdateSequence d op = Inr (d', op', iv) \<Longrightarrow> valid d'"
  by (auto simp: ApplyUpdateSequence_def Let_def split: if_splits option.splits prod.splits list.splits
      dest!: replay_exact_valid)

lemma ApplySetColorManagement_valid [leaves_valid]: "ApplySetColorManagement d op = Inr (d', op', iv) \<Longrightarrow> valid d'"
  by (auto simp: ApplySetColorManagement_def Let_def split: if_splits option.splits prod.splits list.splits
      dest!: replay_exact_valid)

lemma ApplyAddBin_valid [leaves_valid]: "ApplyAddBin g d op = Inr (d', op', iv) \<Longrightarrow> valid d'"
  by (auto simp: ApplyAddBin_def Let_def split: if_splits option.splits prod.splits list.splits
      dest!: replay_exact_valid)

lemma ApplyRemoveBin_valid [leaves_valid]: "ApplyRemoveBin d op = Inr (d', op', iv) \<Longrightarrow> valid d'"
  by (auto simp: ApplyRemoveBin_def Let_def split: if_splits option.splits prod.splits list.splits
      dest!: replay_exact_valid)

lemma ApplyRenameBin_valid [leaves_valid]: "ApplyRenameBin d op = Inr (d', op', iv) \<Longrightarrow> valid d'"
  by (auto simp: ApplyRenameBin_def Let_def split: if_splits option.splits prod.splits list.splits
      dest!: replay_exact_valid)

lemma ApplySetMediaBin_valid [leaves_valid]: "ApplySetMediaBin d op = Inr (d', op', iv) \<Longrightarrow> valid d'"
  by (auto simp: ApplySetMediaBin_def Let_def split: if_splits option.splits prod.splits list.splits
      dest!: replay_exact_valid)

lemma ApplyAddMarker_valid [leaves_valid]: "ApplyAddMarker g d op = Inr (d', op', iv) \<Longrightarrow> valid d'"
  by (auto simp: ApplyAddMarker_def Let_def split: if_splits option.splits prod.splits list.splits
      dest!: replay_exact_valid)

lemma ApplyRemoveMarker_valid [leaves_valid]: "ApplyRemoveMarker d op = Inr (d', op', iv) \<Longrightarrow> valid d'"
  by (auto simp: ApplyRemoveMarker_def Let_def split: if_splits option.splits prod.splits list.splits
      dest!: replay_exact_valid)

lemma ApplyUpdateMarker_valid [leaves_valid]: "ApplyUpdateMarker d op = Inr (d', op', iv) \<Longrightarrow> valid d'"
  by (auto simp: ApplyUpdateMarker_def Let_def split: if_splits option.splits prod.splits list.splits
      dest!: replay_exact_valid)

lemma ApplyAddTransition_valid [leaves_valid]: "ApplyAddTransition g d op = Inr (d', op', iv) \<Longrightarrow> valid d'"
  by (auto simp: ApplyAddTransition_def Let_def split: if_splits option.splits prod.splits list.splits
      dest!: replay_exact_valid)

lemma ApplyRemoveTransition_valid [leaves_valid]: "ApplyRemoveTransition d op = Inr (d', op', iv) \<Longrightarrow> valid d'"
  by (auto simp: ApplyRemoveTransition_def Let_def split: if_splits option.splits prod.splits list.splits
      dest!: replay_exact_valid)

lemma ApplyUpdateTransition_valid [leaves_valid]: "ApplyUpdateTransition d op = Inr (d', op', iv) \<Longrightarrow> valid d'"
  by (auto simp: ApplyUpdateTransition_def Let_def split: if_splits option.splits prod.splits list.splits
      dest!: replay_exact_valid)

lemma ApplyAddCaptionStyle_valid [leaves_valid]: "ApplyAddCaptionStyle g d op = Inr (d', op', iv) \<Longrightarrow> valid d'"
  by (auto simp: ApplyAddCaptionStyle_def Let_def split: if_splits option.splits prod.splits list.splits
      dest!: replay_exact_valid)

lemma ApplyRemoveCaptionStyle_valid [leaves_valid]: "ApplyRemoveCaptionStyle d op = Inr (d', op', iv) \<Longrightarrow> valid d'"
  by (auto simp: ApplyRemoveCaptionStyle_def Let_def split: if_splits option.splits prod.splits list.splits
      dest!: replay_exact_valid)

lemma ApplyAddMulticamGroup_valid [leaves_valid]: "ApplyAddMulticamGroup g d op = Inr (d', op', iv) \<Longrightarrow> valid d'"
  by (auto simp: ApplyAddMulticamGroup_def Let_def split: if_splits option.splits prod.splits list.splits
      dest!: replay_exact_valid)

lemma ApplyRemoveMulticamGroup_valid [leaves_valid]: "ApplyRemoveMulticamGroup d op = Inr (d', op', iv) \<Longrightarrow> valid d'"
  by (auto simp: ApplyRemoveMulticamGroup_def Let_def split: if_splits option.splits prod.splits list.splits
      dest!: replay_exact_valid)

lemma ApplySetMulticamActiveAngle_valid [leaves_valid]: "ApplySetMulticamActiveAngle d op = Inr (d', op', iv) \<Longrightarrow> valid d'"
  by (auto simp: ApplySetMulticamActiveAngle_def Let_def split: if_splits option.splits prod.splits list.splits
      dest!: replay_exact_valid)

lemma ApplyInsert_valid [leaves_valid]: "ApplyInsert g d op = Inr (d', op', iv) \<Longrightarrow> valid d'"
  by (auto simp: ApplyInsert_def Let_def split: if_splits option.splits prod.splits list.splits
      dest!: replay_exact_valid)

lemma ApplyClear_valid [leaves_valid]: "ApplyClear d op = Inr (d', op', iv) \<Longrightarrow> valid d'"
  by (auto simp: ApplyClear_def Let_def split: if_splits option.splits prod.splits list.splits
      dest!: replay_exact_valid)

lemma ApplyClearClips_valid [leaves_valid]: "ApplyClearClips d op = Inr (d', op', iv) \<Longrightarrow> valid d'"
  by (auto simp: ApplyClearClips_def Let_def split: if_splits option.splits prod.splits list.splits
      dest!: replay_exact_valid)

lemma ApplyTrim_valid [leaves_valid]: "ApplyTrim d op = Inr (d', op', iv) \<Longrightarrow> valid d'"
  by (auto simp: ApplyTrim_def Let_def split: if_splits option.splits prod.splits list.splits
      dest!: replay_exact_valid)

lemma ApplyPasteClips_valid [leaves_valid]: "ApplyPasteClips g d op = Inr (d', op', iv) \<Longrightarrow> valid d'"
  by (auto simp: ApplyPasteClips_def Let_def split: if_splits option.splits prod.splits list.splits
      dest!: replay_exact_valid)

lemma ApplyRollEdit_valid [leaves_valid]: "ApplyRollEdit d op = Inr (d', op', iv) \<Longrightarrow> valid d'"
  by (auto simp: ApplyRollEdit_def Let_def split: if_splits option.splits prod.splits list.splits
      dest!: replay_exact_valid)

lemma ApplySlipEdit_valid [leaves_valid]: "ApplySlipEdit d op = Inr (d', op', iv) \<Longrightarrow> valid d'"
  by (auto simp: ApplySlipEdit_def Let_def split: if_splits option.splits prod.splits list.splits
      dest!: replay_exact_valid)

lemma ApplyRippleTrim_valid [leaves_valid]: "ApplyRippleTrim d op = Inr (d', op', iv) \<Longrightarrow> valid d'"
  by (auto simp: ApplyRippleTrim_def Let_def split: if_splits option.splits prod.splits list.splits
      dest!: replay_exact_valid)

lemma ApplyRemoveLinked_valid [leaves_valid]: "ApplyRemoveLinked d op = Inr (d', op', iv) \<Longrightarrow> valid d'"
  by (auto simp: ApplyRemoveLinked_def Let_def split: if_splits option.splits prod.splits list.splits
      dest!: replay_exact_valid)

lemma ApplyClearLinked_valid [leaves_valid]: "ApplyClearLinked d op = Inr (d', op', iv) \<Longrightarrow> valid d'"
  by (auto simp: ApplyClearLinked_def Let_def split: if_splits option.splits prod.splits list.splits
      dest!: replay_exact_valid)

lemma ApplyDeleteGap_valid [leaves_valid]: "ApplyDeleteGap d op = Inr (d', op', iv) \<Longrightarrow> valid d'"
  by (auto simp: ApplyDeleteGap_def Let_def split: if_splits option.splits prod.splits list.splits
      dest!: replay_exact_valid)

lemma ApplyDetachAudio_valid [leaves_valid]: "ApplyDetachAudio g d op = Inr (d', op', iv) \<Longrightarrow> valid d'"
  by (auto simp: ApplyDetachAudio_def Let_def split: if_splits option.splits prod.splits list.splits
      dest!: replay_exact_valid)

lemma ApplySetClipLink_valid [leaves_valid]: "ApplySetClipLink d op = Inr (d', op', iv) \<Longrightarrow> valid d'"
  by (auto simp: ApplySetClipLink_def Let_def split: if_splits option.splits prod.splits list.splits
      dest!: replay_exact_valid)

lemma ApplySetClipEffects_valid [leaves_valid]: "ApplySetClipEffects g d op = Inr (d', op', iv) \<Longrightarrow> valid d'"
  by (auto simp: ApplySetClipEffects_def Let_def split: if_splits option.splits prod.splits list.splits
      dest!: replay_exact_valid)

lemma ApplySetClipOpacity_valid [leaves_valid]: "ApplySetClipOpacity d op = Inr (d', op', iv) \<Longrightarrow> valid d'"
  by (auto simp: ApplySetClipOpacity_def Let_def split: if_splits option.splits prod.splits list.splits
      dest!: replay_exact_valid)

lemma ApplySetClipAudio_valid [leaves_valid]: "ApplySetClipAudio d op = Inr (d', op', iv) \<Longrightarrow> valid d'"
  by (auto simp: ApplySetClipAudio_def Let_def split: if_splits option.splits prod.splits list.splits
      dest!: replay_exact_valid)

lemma ApplySetClipCaption_valid [leaves_valid]: "ApplySetClipCaption d op = Inr (d', op', iv) \<Longrightarrow> valid d'"
  by (auto simp: ApplySetClipCaption_def Let_def split: if_splits option.splits prod.splits list.splits
      dest!: replay_exact_valid)

lemma ApplyJoin_valid [leaves_valid]: "ApplyJoin d op = Inr (d', op', iv) \<Longrightarrow> valid d'"
  by (auto simp: ApplyJoin_def Let_def split: if_splits option.splits prod.splits list.splits
      dest!: replay_exact_valid)

lemma ApplyRemoveWords_valid [leaves_valid]: "ApplyRemoveWords g d op = Inr (d', op', iv) \<Longrightarrow> valid d'"
  by (auto simp: ApplyRemoveWords_def Let_def split: if_splits option.splits prod.splits list.splits
      dest!: replay_exact_valid)

lemma ApplySplitAtPositions_valid [leaves_valid]: "ApplySplitAtPositions g d op = Inr (d', op', iv) \<Longrightarrow> valid d'"
  by (auto simp: ApplySplitAtPositions_def Let_def split: if_splits option.splits prod.splits list.splits
      dest!: replay_exact_valid)

lemma ApplyRemove_valid [leaves_valid]: "ApplyRemove d op = Inr (d', op', iv) \<Longrightarrow> valid d'"
  by (auto simp: ApplyRemove_def Let_def split: if_splits option.splits prod.splits list.splits
      dest!: replay_exact_valid)

lemma ApplyMoveBin_valid [leaves_valid]: "ApplyMoveBin d op = Inr (d', op', iv) \<Longrightarrow> valid d'"
  by (auto simp: ApplyMoveBin_def Let_def simp del: bin_under.simps split: if_splits option.splits)

lemma ApplyMove_valid [leaves_valid]: "ApplyMove g d op = Inr (d', op', iv, g') \<Longrightarrow> valid d'"
  by (auto simp: ApplyMove_def Let_def split: if_splits option.splits dest!: replay_exact_valid)

lemma ApplySplit_valid [leaves_valid]: "ApplySplit g d op = Inr (d', op', iv, g') \<Longrightarrow> valid d'"
  by (auto simp: ApplySplit_def Let_def split: if_splits option.splits prod.splits)

lemma move_step_valid: "move_step m s = Inr (d', g') \<Longrightarrow> valid d'"
  by (cases s) (auto simp: move_step_def dest: ApplyMove_valid)

lemma move_original_valid: "move_original m s = Inr (d', g') \<Longrightarrow> valid d'"
  by (cases s) (auto simp: move_original_def dest: move_step_valid)

lemma collect_move_nonempty:
  "loopR (collect_move d) ms (o0, a, s) = Inr (o1, a', s') \<Longrightarrow> length o1 = length o0 + length ms"
proof (induction ms arbitrary: o0 a s)
  case Nil
  then show ?case by simp
next
  case (Cons m ms)
  from Cons.prems obtain o2 a2 s2 where "collect_move d m (o0, a, s) = Inr (o2, a2, s2)"
    and r: "loopR (collect_move d) ms (o2, a2, s2) = Inr (o1, a', s')" by auto
  then have "length o2 = length o0 + 1"
    by (auto simp: collect_move_def split: option.splits if_splits)
  with Cons.IH [OF r] show ?case by simp
qed

lemma ApplyMoveClips_valid [leaves_valid]:
  assumes "ApplyMoveClips g d op = Inr (d', op', iv)"
  shows "valid d'"
proof (cases "mcs_exact_track_result op = []")
  case False
  with assms show ?thesis by (auto simp: ApplyMoveClips_def dest: replay_exact_valid)
next
  case True
  with assms obtain os a s r where len: "\<not> length (mcs_moves op) < 2"
    and c: "loopR (collect_move d) (mcs_moves op) ([], [], []) = Inr (os, a, s)"
    and l: "loopR move_original os (fold lift_out os d, g) = Inr (d', r)"
    by (auto simp: ApplyMoveClips_def Let_def split: if_splits)
  from collect_move_nonempty [OF c] len have "os \<noteq> []" by auto
  from loopR_last [OF l this, of "\<lambda>s. valid (fst s)"] move_original_valid show ?thesis by auto
qed

lemma ApplyMoveLinked_valid [leaves_valid]:
  assumes "ApplyMoveLinked g d op = Inr (d', op', iv)"
  shows "valid d'"
proof (cases "mlo_exact_track_result op = []")
  case False
  with assms show ?thesis by (auto simp: ApplyMoveLinked_def dest: replay_exact_valid)
next
  case True
  with assms obtain r where two: "\<not> length (mlo_moves op) < 2"
    and l: "loopR (\<lambda>m. move_step (single_move m)) (mlo_moves op) (d, g) = Inr (d', r)"
    by (auto simp: ApplyMoveLinked_def Let_def split: if_splits)
  from two have len: "mlo_moves op \<noteq> []" by auto
  from loopR_last [OF l len, of "\<lambda>s. valid (fst s)"] move_step_valid show ?thesis by auto
qed

lemma trim_step_valid: "trim_step t d = Inr d' \<Longrightarrow> valid d'"
  by (auto simp: trim_step_def dest: ApplyTrim_valid)

lemma ApplyTrimLinked_valid [leaves_valid]:
  assumes "ApplyTrimLinked d op = Inr (d', op', iv)"
  shows "valid d'"
proof (cases "tlo_exact_track_result op = []")
  case False
  with assms show ?thesis by (auto simp: ApplyTrimLinked_def Let_def dest: replay_exact_valid)
next
  case True
  with assms have two: "\<not> length (tlo_trims op) < 2"
    and l: "loopR trim_step (tlo_trims op) d = Inr d'"
    by (auto simp: ApplyTrimLinked_def Let_def split: if_splits)
  from two have len: "tlo_trims op \<noteq> []" by auto
  from loopR_last [OF l len, of valid] trim_step_valid show ?thesis by auto
qed

lemma ripple_step_valid: "ripple_step sync t d = Inr d' \<Longrightarrow> valid d'"
  by (auto simp: ripple_step_def dest: ApplyRippleTrim_valid)

lemma ApplyTrimBoundaryAir_valid [leaves_valid]:
  assumes "ApplyTrimBoundaryAir d op = Inr (d', op', iv)"
  shows "valid d'"
proof (cases "tba_exact_track_result op = []")
  case False
  with assms show ?thesis by (auto simp: ApplyTrimBoundaryAir_def Let_def dest: replay_exact_valid)
next
  case True
  with assms have len: "tba_trims op \<noteq> []"
    and l: "loopR (ripple_step (tba_sync_track_ids op)) (tba_trims op) d = Inr d'"
    by (auto simp: ApplyTrimBoundaryAir_def Let_def split: if_splits)
  from loopR_last [OF l len, of valid] ripple_step_valid show ?thesis by auto
qed

lemma ApplySplitLinked_valid [leaves_valid]:
  "ApplySplitLinked g d op = Inr (d', op', iv, g') \<Longrightarrow> valid d'"
  by (auto simp: ApplySplitLinked_def Let_def split: if_splits prod.splits dest!: replay_exact_valid)

lemma as_edit_Inr_iff [simp]:
  "as_edit con r = Inr (d', op', iv) \<longleftrightarrow> (\<exists>v. r = Inr (d', v, iv) \<and> op' = con v)"
  by (auto simp: as_edit_def bindR_Inr_iff)

lemma as_edit_drawing_Inr_iff [simp]:
  "as_edit_drawing con r = Inr (d', op', iv) \<longleftrightarrow> (\<exists>v g. r = Inr (d', v, iv, g) \<and> op' = con v)"
  by (auto simp: as_edit_drawing_def bindR_Inr_iff)

lemma dispatch_valid: "dispatch g d op = Inr (d', op', iv) \<Longrightarrow> valid d'"
  by (cases op) (auto dest: leaves_valid)

lemma ApplyOperation_Inr_iff:
  "ApplyOperation g d op = Inr r \<longleftrightarrow>
   (skips_lock_check op \<or> LockedTrackTouchedBy d op = None) \<and> dispatch g d op = Inr r"
  by (auto simp: ApplyOperation_def split: option.splits)

text \<open>
  Property C2: an edit that \<open>ApplyOperation\<close> accepts leaves a document that passes
  \<open>Validate\<close>, for every operation and whatever document it started from.
\<close>

theorem accepted_edit_valid:
  assumes "ApplyOperation g d op = Inr (d', op', iv)"
  shows "valid d'"
  using assms by (auto simp: ApplyOperation_Inr_iff dest: dispatch_valid)

end
