(* ===== verification/Edit_Frames.thy ===== *)
theory Edit_Frames
  imports Apply_Valid
begin

text \<open>
  Which tracks each edit changes: for every operation on clips, a list of track
  identifiers that frames the edit and that the operation records.  Locked tracks are
  untouched because the frame lies inside the tracks the lock check looked at; undo and
  redo restore the recorded tracks.
\<close>

section \<open>Locating clips through edits\<close>

definition lives_in :: "Document \<Rightarrow> Ulid set \<Rightarrow> Ulid \<Rightarrow> bool" where
  "lives_in d S i \<longleftrightarrow> (\<forall>t. FindTrackForClip d i = Some t \<longrightarrow> trk_id t \<in> S)"

lemma lives_in_track: "FindTrackForClip d i = Some t \<Longrightarrow> lives_in d S i \<longleftrightarrow> trk_id t \<in> S"
  by (simp add: lives_in_def)

lemma lives_in_absent [simp]: "FindClip d i = None \<Longrightarrow> lives_in d S i"
  by (simp add: lives_in_def FindClip_None_iff)

lemma lives_in_mono: "lives_in d S i \<Longrightarrow> S \<subseteq> T \<Longrightarrow> lives_in d T i"
  by (auto simp: lives_in_def)

lemma lives_in_frame:
  assumes "valid d" and "frame S d x" and "lives_in d S i"
  shows "lives_in x S i"
  using frame_locates [OF assms(2) valid_distinct_tracks(2) [OF assms(1)]] assms(3)
  by (auto simp: lives_in_def)

lemma frame_ModifyTrack_step:
  assumes "frame S d x" and "i \<in> S" and "\<And>t. FindTrack x i = Some t \<Longrightarrow> clips_only t (f t)"
  shows "frame S d (ModifyTrack i f x)"
  using frame_trans [OF assms(1) frame_ModifyTrack] assms(2,3) by blast

lemma frame_ModifyTrackForClip_step:
  assumes "valid d" and "frame S d x" and "lives_in d S i"
    and "\<And>t. FindTrackForClip x i = Some t \<Longrightarrow> clips_only t (f t)"
  shows "frame S d (ModifyTrackForClip i f x)"
  using frame_trans [OF assms(2) frame_ModifyTrackForClip] assms(4)
    lives_in_frame [OF assms(1-3)] by (auto simp: lives_in_def)

lemma frame_ModifyClip_step:
  assumes "valid d" and "frame S d x" and "lives_in d S i"
  shows "frame S d (ModifyClip i f x)"
  unfolding ModifyClip_def by (rule frame_ModifyTrackForClip_step [OF assms]) simp

lemma frame_FindTrack:
  assumes "frame S d d'"
  shows "FindTrack d i = None \<longleftrightarrow> FindTrack d' i = None"
  using frame_track_ids [OF assms] by (metis FindTrack_None_iff set_map)

lemma frame_loopR:
  assumes "loopR f xs x = Inr y" and "frame S d x"
    and "\<And>i a b. i \<in> set xs \<Longrightarrow> f i a = Inr b \<Longrightarrow> frame S d a \<Longrightarrow> frame S d b"
  shows "frame S d y"
  using loopR_invariant [OF assms(1), of "frame S d"] assms(2,3) by blast

lemma frame_loopR_fst:
  assumes "loopR f xs (x, s) = Inr (y, s')" and "frame S d x"
    and "\<And>i a s b s'. i \<in> set xs \<Longrightarrow> f i (a, s) = Inr (b, s') \<Longrightarrow> frame S d a \<Longrightarrow> frame S d b"
  shows "frame S d y"
  using loopR_invariant [OF assms(1), of "\<lambda>p. frame S d (fst p)"] assms(2,3) by auto

lemma frame_fold:
  assumes "frame S d x" and "\<And>i a. i \<in> set xs \<Longrightarrow> frame S d a \<Longrightarrow> frame S d (f i a)"
  shows "frame S d (fold f xs x)"
  using assms by (induction xs arbitrary: x) auto

section \<open>Locks\<close>

definition unlocked :: "Document \<Rightarrow> Ulid set" where
  "unlocked d = {i. \<forall>t. FindTrack d i = Some t \<longrightarrow> \<not> trk_locked t}"

lemma add_track_fold_set: "set (fold add_track ids acc) = (set ids - {[]}) \<union> set acc"
  by (induction ids arbitrary: acc) (auto simp: add_track_def)

lemma add_track_fold_distinct: "distinct acc \<Longrightarrow> distinct (fold add_track ids acc)"
  by (induction ids arbitrary: acc) (auto simp: add_track_def)

lemma FindTrack_empty_id: "valid d \<Longrightarrow> FindTrack d [] = None"
  unfolding FindTrack_None_iff by (metis imageE valid_nonempty_ids(2))

lemma LockedTrackTouchedBy_None:
  assumes "valid d"
  shows "LockedTrackTouchedBy d op = None \<longleftrightarrow> set (addressed_tracks d op) \<subseteq> unlocked d"
proof -
  have "LockedTrackTouchedBy d op = None \<longleftrightarrow>
      (\<forall>i\<in>set (addressed_tracks d op) - {[]}. \<forall>t. FindTrack d i = Some t \<longrightarrow> \<not> trk_locked t)"
    by (auto simp: LockedTrackTouchedBy_def find_None_iff_all map_filter_def add_track_fold_set)
  then show ?thesis using FindTrack_empty_id [OF assms] by (auto simp: unlocked_def)
qed

lemma frame_flags:
  assumes "frame S d d'"
  shows "map (\<lambda>t. (trk_id t, trk_locked t)) (doc_tracks d') = map (\<lambda>t. (trk_id t, trk_locked t)) (doc_tracks d)"
proof -
  from assms have "list_all2 (\<lambda>t t'. clips_only t t' \<and> (trk_id t \<notin> S \<longrightarrow> t' = t)) (doc_tracks d) (doc_tracks d')"
    by (simp add: frame_def)
  then show ?thesis
    by (auto simp: list_all2_conv_all_nth clips_only_simps intro!: nth_equalityI)
qed

lemma unlocked_iff:
  assumes "distinct (map trk_id (doc_tracks d))"
  shows "i \<notin> unlocked d \<longleftrightarrow> (i, True) \<in> set (map (\<lambda>t. (trk_id t, trk_locked t)) (doc_tracks d))"
proof
  assume "i \<notin> unlocked d"
  then show "(i, True) \<in> set (map (\<lambda>t. (trk_id t, trk_locked t)) (doc_tracks d))"
    by (force simp: unlocked_def dest: FindTrack_Some)
next
  assume "(i, True) \<in> set (map (\<lambda>t. (trk_id t, trk_locked t)) (doc_tracks d))"
  then obtain t where "t \<in> set (doc_tracks d)" "trk_id t = i" "trk_locked t" by auto
  then show "i \<notin> unlocked d" using FindTrack_unique [OF assms] by (auto simp: unlocked_def)
qed

lemma frame_unlocked:
  assumes "valid d" and "frame S d d'"
  shows "unlocked d' = unlocked d"
proof -
  note d = valid_distinct_tracks(1) [OF assms(1)]
  have d': "distinct (map trk_id (doc_tracks d'))" using d frame_track_ids [OF assms(2)] by simp
  have "i \<notin> unlocked d' \<longleftrightarrow> i \<notin> unlocked d" for i
    by (simp only: unlocked_iff [OF d'] unlocked_iff [OF d] frame_flags [OF assms(2)])
  then show ?thesis by auto
qed

lemma set_clip_tracks:
  "set (clip_tracks d ids) = {trk_id t | t i. i \<in> set ids \<and> FindTrackForClip d i = Some t}"
proof (induction ids)
  case Nil
  then show ?case by (simp add: clip_tracks_def)
next
  case (Cons a ids)
  have "set (clip_tracks d (a # ids)) =
      (case FindTrackForClip d a of None \<Rightarrow> {} | Some t \<Rightarrow> {trk_id t}) \<union> set (clip_tracks d ids)"
    by (simp add: clip_tracks_def split: option.split)
  with Cons show ?case by (auto split: option.split)
qed

lemma clip_tracks_unlocked:
  "set (clip_tracks d ids) \<subseteq> U \<longleftrightarrow> (\<forall>i\<in>set ids. lives_in d U i)"
  unfolding set_clip_tracks lives_in_def by blast

text \<open>
  The lock check of an inverse, or of a redo: what the operation addressed before the
  edit is still unlocked after it.
\<close>

lemma clip_tracks_after:
  assumes "valid d" and "frame S d d'" and "S \<subseteq> unlocked d"
    and "set (clip_tracks d ids) \<subseteq> unlocked d"
  shows "set (clip_tracks d' ids) \<subseteq> unlocked d'"
  using lives_in_frame [OF assms(1) frame_mono [OF assms(2,3)]] assms(4)
  by (auto simp: clip_tracks_unlocked frame_unlocked [OF assms(1,2)])

section \<open>Replaying recorded tracks\<close>

lemma snapshots_onto_all:
  "(\<And>i. i \<in> set ids \<Longrightarrow> FindTrack d i \<noteq> None) \<Longrightarrow> distinct ids \<Longrightarrow>
   set ids \<inter> ets_track_id ` set acc = {} \<Longrightarrow>
   map ets_track_id (snapshots_onto d ids acc) = map ets_track_id acc @ ids"
proof (induction ids arbitrary: acc)
  case Nil
  then show ?case by simp
next
  case (Cons i ids)
  obtain t where t: "FindTrack d i = Some t" using Cons.prems(1) by fastforce
  have "\<not> list_ex (\<lambda>s. ets_track_id s = i) acc" using Cons.prems(3) by (auto simp: list_ex_iff)
  moreover have "map ets_track_id (snapshots_onto d ids (acc @ [snapshot i t])) =
      map ets_track_id (acc @ [snapshot i t]) @ ids"
    by (rule Cons.IH) (use Cons.prems in \<open>auto simp: snapshot_def\<close>)
  ultimately show ?case by (simp add: t snapshot_def)
qed

lemma snapshots_all:
  assumes "\<And>i. i \<in> set ids \<Longrightarrow> FindTrack d i \<noteq> None" and "distinct ids"
  shows "map ets_track_id (snapshots d ids) = ids"
  using snapshots_onto_all [OF assms, of "[]"] by (simp add: snapshots_def)

lemma snapshots_each_all:
  "(\<And>i. i \<in> set ids \<Longrightarrow> FindTrack d i \<noteq> None) \<Longrightarrow> map ets_track_id (snapshots_each d ids) = ids"
proof (induction ids)
  case Nil
  then show ?case by (simp add: snapshots_each_def)
next
  case (Cons i ids)
  obtain t where t: "FindTrack d i = Some t" using Cons.prems by fastforce
  have "map ets_track_id (snapshots_each d ids) = ids" by (rule Cons.IH) (use Cons.prems in auto)
  with t show ?case by (simp add: snapshots_each_def snapshot_def)
qed

lemma snapshots_exist:
  "s \<in> set (snapshots d ids) \<Longrightarrow> FindTrack d (ets_track_id s) \<noteq> None"
  "s \<in> set (snapshots_each d ids) \<Longrightarrow> FindTrack d (ets_track_id s) \<noteq> None"
  using records_snapshots [of d ids] records_snapshots_each [of d ids]
  by (auto simp: records_def)

lemma restored:
  assumes "valid d" and "frame (set ids) d d'"
  shows "restore_tracks (snapshots d ids) d' = d" and "restore_tracks (snapshots_each d ids) d' = d"
  by (rule restore_undoes [OF valid_distinct_tracks(1) [OF assms(1)] assms(2)],
      auto simp: ids_snapshots ids_snapshots_each)+

text \<open>The three replays give back the document whose tracks were recorded.\<close>

lemma replay_back:
  assumes v: "valid d" and f: "frame (set ids) d d'"
  shows "\<exists>b. replay_exact m d' (snapshots d ids) = Inr (d, b)"
    and "\<exists>b. replay_exact_each m d' (snapshots d ids) = Inr (d, b)"
    and "\<exists>b. replay_exact_each m d' (snapshots_each d ids) = Inr (d, b)"
proof -
  have ex: "FindTrack d' (ets_track_id s) \<noteq> None" if "s \<in> set (snapshots d ids)" for s
    using snapshots_exist(1) [OF that] by (simp add: frame_FindTrack [OF f])
  have "map ets_track_id (snapshots d' (map ets_track_id (snapshots d ids))) =
      map ets_track_id (snapshots d ids)"
    by (rule snapshots_all) (use ex distinct_snapshots in auto)
  then have "length (snapshots d' (map ets_track_id (snapshots d ids))) = length (snapshots d ids)"
    by (metis length_map)
  then show "\<exists>b. replay_exact m d' (snapshots d ids) = Inr (d, b)"
    by (simp add: replay_exact_def Let_def restored [OF v f] v bindR_Inr_iff)
  show "\<exists>b. replay_exact_each m d' (snapshots d ids) = Inr (d, b)"
    using ex by (auto simp: replay_exact_each_def Let_def restored [OF v f] v bindR_Inr_iff list_ex_iff)
  have "FindTrack d' (ets_track_id s) \<noteq> None" if "s \<in> set (snapshots_each d ids)" for s
    using snapshots_exist(2) [OF that] by (simp add: frame_FindTrack [OF f])
  then show "\<exists>b. replay_exact_each m d' (snapshots_each d ids) = Inr (d, b)"
    by (auto simp: replay_exact_each_def Let_def restored [OF v f] v bindR_Inr_iff list_ex_iff)
qed

lemma fold_add_track_id: "distinct ids \<Longrightarrow> [] \<notin> set ids \<Longrightarrow> fold add_track ids [] = ids"
proof -
  have "distinct (acc @ ids) \<Longrightarrow> [] \<notin> set ids \<Longrightarrow> fold add_track ids acc = acc @ ids" for acc
    by (induction ids arbitrary: acc) (auto simp: add_track_def push_unique_def)
  from this [of "[]"] show "distinct ids \<Longrightarrow> [] \<notin> set ids \<Longrightarrow> fold add_track ids [] = ids" by simp
qed

lemma replay_set_back:
  assumes v: "valid d" and f: "frame (set ids) d d'" and "distinct ids"
  shows "\<exists>b. replay_exact_set m d' (snapshots_each d ids) = Inr (d, b)"
proof -
  let ?states = "snapshots_each d ids"
  have ids: "map ets_track_id ?states = filter (\<lambda>i. FindTrack d i \<noteq> None) ids"
    by (induction ids) (auto simp: snapshots_each_def snapshot_def split: option.split)
  have nn: "[] \<notin> set (filter (\<lambda>i. FindTrack d i \<noteq> None) ids)"
    using FindTrack_empty_id [OF v] by auto
  have fold: "fold add_track (map ets_track_id ?states) [] = map ets_track_id ?states"
    unfolding ids by (rule fold_add_track_id) (use assms(3) nn in auto)
  have "map ets_track_id (snapshots_each d' (map ets_track_id ?states)) = map ets_track_id ?states"
  proof (rule snapshots_each_all)
    fix i assume "i \<in> set (map ets_track_id ?states)"
    then obtain s where s: "s \<in> set ?states" "i = ets_track_id s" by auto
    from snapshots_exist(2) [OF s(1)] s(2) show "FindTrack d' i \<noteq> None"
      by (simp add: frame_FindTrack [OF f])
  qed
  then have "length (snapshots_each d' (map ets_track_id ?states)) = length ?states"
    by (metis length_map)
  then show ?thesis
    by (simp add: replay_exact_set_def Let_def fold restored [OF v f] v bindR_Inr_iff)
qed

text \<open>An operation that carries exact tracks is itself framed by them.\<close>

lemma replay_effect:
  "replay_exact m d states = Inr (d', before) \<Longrightarrow>
   before = snapshots d (map ets_track_id states) \<and> frame (set (map ets_track_id states)) d d'"
  "replay_exact_set m d states = Inr (d', before) \<Longrightarrow>
   before = snapshots_each d (fold add_track (map ets_track_id states) []) \<and>
   frame (set (map ets_track_id states)) d d'"
  "replay_exact_each m d states = Inr (d', before) \<Longrightarrow>
   before = snapshots_each d (map ets_track_id states) \<and> frame (set (map ets_track_id states)) d d'"
  using frame_restore_tracks [of states d]
  by (auto simp: replay_exact_def replay_exact_set_def replay_exact_each_def Let_def split: if_splits)


section \<open>Loops that collect the affected tracks\<close>

lemma loopR_lives:
  assumes "loopR f xs s = Inr s'"
    and "\<And>x a b. x \<in> set xs \<Longrightarrow> f x a = Inr b \<Longrightarrow>
           p a \<subseteq> p b \<and> p b \<subseteq> p a \<union> A \<and> (\<forall>i\<in>q x. lives_in d (p b) i)"
  shows "p s \<subseteq> p s' \<and> p s' \<subseteq> p s \<union> A \<and> (\<forall>x\<in>set xs. \<forall>i\<in>q x. lives_in d (p s') i)"
  using assms
proof (induction xs arbitrary: s)
  case Nil
  then show ?case by simp
next
  case (Cons x xs)
  from Cons.prems(1) obtain t where t: "f x s = Inr t" "loopR f xs t = Inr s'" by auto
  have a: "p s \<subseteq> p t \<and> p t \<subseteq> p s \<union> A \<and> (\<forall>i\<in>q x. lives_in d (p t) i)"
    using Cons.prems(2) [OF _ t(1)] by simp
  have b: "p t \<subseteq> p s' \<and> p s' \<subseteq> p t \<union> A \<and> (\<forall>x\<in>set xs. \<forall>i\<in>q x. lives_in d (p s') i)"
    by (rule Cons.IH [OF t(2)]) (rule Cons.prems(2), auto)
  from a b show ?case by (auto intro: lives_in_mono)
qed

lemma loopR_lives_pair:
  assumes "loopR f xs (a, s) = Inr (a', s')"
    and "\<And>x u v u' v'. x \<in> set xs \<Longrightarrow> f x (u, v) = Inr (u', v') \<Longrightarrow>
           set u \<subseteq> set u' \<and> set u' \<subseteq> set u \<union> A \<and> (\<forall>i\<in>q x. lives_in d (set u') i)"
  shows "set a \<subseteq> set a'" and "set a' \<subseteq> set a \<union> A"
    and "\<forall>x\<in>set xs. \<forall>i\<in>q x. lives_in d (set a') i"
  using loopR_lives [OF assms(1), where p = "\<lambda>s. set (fst s)" and A = A and q = q and d = d]
    assms(2) by fastforce+

lemma loopR_lives_list:
  assumes "loopR f xs a = Inr a'"
    and "\<And>x u u'. x \<in> set xs \<Longrightarrow> f x u = Inr u' \<Longrightarrow>
           set u \<subseteq> set u' \<and> set u' \<subseteq> set u \<union> A \<and> (\<forall>i\<in>q x. lives_in d (set u') i)"
  shows "set a \<subseteq> set a'" and "set a' \<subseteq> set a \<union> A"
    and "\<forall>x\<in>set xs. \<forall>i\<in>q x. lives_in d (set a') i"
  using loopR_lives [OF assms(1), where p = set and A = A and q = q and d = d] assms(2) by simp_all

lemma lives_in_Some: "FindTrackForClip d i = Some t \<Longrightarrow> trk_id t \<in> S \<Longrightarrow> lives_in d S i"
  by (simp add: lives_in_def)

lemma clip_tracks_Some: "FindTrackForClip d i = Some t \<Longrightarrow> i \<in> set ids \<Longrightarrow> trk_id t \<in> set (clip_tracks d ids)"
  by (auto simp: set_clip_tracks)

lemma snapshots_nonempty:
  assumes "FindTrack d i \<noteq> None" and "i \<in> set ids"
  shows "snapshots d ids \<noteq> []" and "snapshots_each d ids \<noteq> []"
proof -
  have "i \<in> ets_track_id ` set (snapshots d ids)" and "i \<in> ets_track_id ` set (snapshots_each d ids)"
    using assms FindTrack_None_iff [of d i] by (simp_all add: ids_snapshots ids_snapshots_each)
  then show "snapshots d ids \<noteq> []" and "snapshots_each d ids \<noteq> []" by auto
qed

lemma FindTrack_of_clip:
  assumes "FindTrackForClip d i = Some t"
  shows "FindTrack d (trk_id t) \<noteq> None"
  using FindTrackForClip_Some [OF assms] by (auto simp: FindTrack_None_iff)

section \<open>The record of an edit\<close>

text \<open>
  \<open>edit_record d d' A ids\<close>: the tracks \<open>ids\<close>, all among the addressed ones \<open>A\<close> and one
  of them existing, frame the edit from \<open>d\<close> to \<open>d'\<close>.
\<close>

definition edit_record :: "Document \<Rightarrow> Document \<Rightarrow> Ulid set \<Rightarrow> Ulid list \<Rightarrow> bool" where
  "edit_record d d' A ids \<longleftrightarrow>
     frame (set ids) d d' \<and> set ids \<subseteq> A \<and> (\<exists>i\<in>set ids. FindTrack d i \<noteq> None)"

lemma edit_recordI:
  "frame (set ids) d d' \<Longrightarrow> set ids \<subseteq> A \<Longrightarrow> i \<in> set ids \<Longrightarrow> FindTrack d i \<noteq> None \<Longrightarrow> edit_record d d' A ids"
  by (auto simp: edit_record_def)

lemma edit_record_nonempty:
  assumes "edit_record d d' A ids"
  shows "snapshots d ids \<noteq> []" and "snapshots_each d ids \<noteq> []"
  using assms unfolding edit_record_def by (meson snapshots_nonempty)+

lemma edit_record_sym: "edit_record d d' A ids \<Longrightarrow> edit_record d' d A ids"
  unfolding edit_record_def using frame_FindTrack [of "set ids" d d'] frame_sym [of "set ids" d d']
  by metis

lemma edit_record_mono: "edit_record d d' A ids \<Longrightarrow> A \<subseteq> B \<Longrightarrow> edit_record d d' B ids"
  by (auto simp: edit_record_def)

lemma edit_record_back:
  assumes "edit_record d d' A ids" and "valid d"
  shows "\<exists>b. replay_exact m d' (snapshots d ids) = Inr (d, b)"
    and "\<exists>b. replay_exact_each m d' (snapshots d ids) = Inr (d, b)"
    and "\<exists>b. replay_exact_each m d' (snapshots_each d ids) = Inr (d, b)"
    and "distinct ids \<Longrightarrow> \<exists>b. replay_exact_set m d' (snapshots_each d ids) = Inr (d, b)"
  using replay_back [OF assms(2)] replay_set_back [OF assms(2)] assms(1)
  by (auto simp: edit_record_def)

text \<open>Redo is undo the other way round.\<close>

lemma edit_record_forth:
  assumes "edit_record d d' A ids" and "valid d'"
  shows "\<exists>b. replay_exact m d (snapshots d' ids) = Inr (d', b)"
    and "\<exists>b. replay_exact_each m d (snapshots d' ids) = Inr (d', b)"
    and "\<exists>b. replay_exact_each m d (snapshots_each d' ids) = Inr (d', b)"
    and "distinct ids \<Longrightarrow> \<exists>b. replay_exact_set m d (snapshots_each d' ids) = Inr (d', b)"
  using edit_record_back [OF edit_record_sym [OF assms(1)] assms(2)] by auto

lemma replay_record:
  assumes "replay_exact m d states = Inr (d', before)" and "states \<noteq> []"
    and "set (map ets_track_id states) \<subseteq> A"
  shows "edit_record d d' A (map ets_track_id states) \<and> before = snapshots d (map ets_track_id states)"
proof -
  have "length before = length states"
    using assms(1) by (auto simp: replay_exact_def Let_def split: if_splits)
  with assms(2) have "before \<noteq> []" by auto
  then obtain s where "s \<in> set before" by (cases before) auto
  with replay_effect(1) [OF assms(1)] have mem: "ets_track_id s \<in> set (map ets_track_id states)"
    and ex: "FindTrack d (ets_track_id s) \<noteq> None"
    using ids_snapshots [of d "map ets_track_id states"] snapshots_exist(1) by blast+
  have f: "frame (set (map ets_track_id states)) d d'" using replay_effect(1) [OF assms(1)] by blast
  from edit_recordI [OF f assms(3) mem ex] replay_effect(1) [OF assms(1)] show ?thesis by blast
qed

lemma replay_each_record:
  assumes "replay_exact_each m d states = Inr (d', before)" and "states \<noteq> []"
    and "set (map ets_track_id states) \<subseteq> A"
  shows "edit_record d d' A (map ets_track_id states) \<and> before = snapshots_each d (map ets_track_id states)"
proof -
  have "FindTrack d (ets_track_id (hd states)) \<noteq> None"
    using assms(1,2) by (auto simp: replay_exact_each_def list_ex_iff split: if_splits)
  with replay_effect(3) [OF assms(1)] assms(2,3) show ?thesis
    by (auto intro!: edit_recordI [where i = "ets_track_id (hd states)"])
qed

lemma replay_set_record:
  assumes "replay_exact_set m d states = Inr (d', before)" and "states \<noteq> []" and "valid d"
    and "set (map ets_track_id states) \<subseteq> A"
  obtains ids where "edit_record d d' A ids" and "before = snapshots_each d ids" and "distinct ids"
proof -
  let ?ids = "fold add_track (map ets_track_id states) []"
  have "length before = length states"
    using assms(1) by (auto simp: replay_exact_set_def Let_def split: if_splits)
  with assms(2) have "before \<noteq> []" by auto
  then obtain s where s: "s \<in> set before" by (cases before) auto
  have b: "before = snapshots_each d ?ids" and f: "frame (set (map ets_track_id states)) d d'"
    using replay_effect(2) [OF assms(1)] by simp_all
  have "ets_track_id s \<in> set ?ids" and "FindTrack d (ets_track_id s) \<noteq> None"
    using s b ids_snapshots_each [of d ?ids] snapshots_exist(2) [of s d ?ids] by auto
  moreover have "frame (set ?ids) d d'"
  proof (rule frame_mono [OF frame_restrict [OF f]])
    show "set (map ets_track_id states) \<inter> trk_id ` set (doc_tracks d) \<subseteq> set ?ids"
      using FindTrack_empty_id [OF assms(3)] by (auto simp: add_track_fold_set FindTrack_None_iff)
  qed
  ultimately show ?thesis
    using assms(4) b by (intro that [of ?ids])
      (auto simp: add_track_fold_set add_track_fold_distinct intro!: edit_recordI)
qed

section \<open>Clear\<close>

lemma frame_without_clips:
  assumes "valid d" and "\<forall>i\<in>set ids. lives_in d S i"
  shows "frame S d (fold (\<lambda>i. ModifyTrackForClip i (without_clip i)) ids d)"
  by (rule frame_fold [OF frame_refl])
    (use assms in \<open>auto intro!: frame_ModifyTrackForClip_step simp: without_clip_def\<close>)

lemma lives_in_record:
  assumes "valid d" and "frame (set ids) d d'" and "set ids \<subseteq> A" and "lives_in d (set ids) i"
    and "FindClip d i \<noteq> None"
  shows "edit_record d d' A ids"
proof -
  from assms(5) obtain t where "FindTrackForClip d i = Some t" using FindClip_None_iff by auto
  with assms(4) FindTrack_of_clip [OF this] show ?thesis
    by (intro edit_recordI [OF assms(2,3)]) (auto simp: lives_in_def)
qed

lemma collect_clear_step:
  "collect_clear d i (u, v) = Inr (u', v') \<Longrightarrow>
   \<exists>t. FindTrackForClip d i = Some t \<and> u' = u @ [trk_id t]"
  by (auto simp: collect_clear_def split: option.splits if_splits)

lemma collect_clear_all:
  assumes "loopR (collect_clear d) cs ([], []) = Inr (ids, seen)"
  shows "set ids \<subseteq> set (clip_tracks d cs)" and "\<forall>i\<in>set cs. lives_in d (set ids) i"
  using loopR_lives_pair [OF assms, of "set (clip_tracks d cs)" "\<lambda>x. {x}" d]
  by (fastforce dest!: collect_clear_step intro: lives_in_Some clip_tracks_Some)+

lemma ClearClips_effect:
  assumes v: "valid d" and a: "ApplyClearClips d op = Inr (d', op', iv)"
  obtains ids where "edit_record d d' (set (addressed_tracks d (ClearClips op))) ids"
    and "iv = ClearClips (op\<lparr>ccs_exact_track_result := snapshots d ids\<rparr>)"
    and "op' = op \<and> ccs_exact_track_result op \<noteq> [] \<or>
         op' = op\<lparr>ccs_exact_track_result := snapshots d' ids\<rparr>"
proof (cases "ccs_exact_track_result op = []")
  case False
  with a obtain before where r: "replay_exact ''exact multi-clear references an unknown track'' d
        (ccs_exact_track_result op) = Inr (d', before)"
    and o: "op' = op" "iv = ClearClips (op\<lparr>ccs_exact_track_result := before\<rparr>)"
    by (auto simp: ApplyClearClips_def)
  from replay_record [OF r False] o False show ?thesis by (intro that) auto
next
  case True
  with a obtain ids seen where l: "loopR (collect_clear d) (ccs_clip_ids op) ([], []) = Inr (ids, seen)"
    and ne: "ccs_clip_ids op \<noteq> []"
    and d': "d' = fold (\<lambda>i. ModifyTrackForClip i (without_clip i)) (ccs_clip_ids op) d"
    and o: "op' = op\<lparr>ccs_exact_track_result := snapshots d' ids\<rparr>"
      "iv = ClearClips (op\<lparr>ccs_exact_track_result := snapshots d ids\<rparr>)"
    by (auto simp: ApplyClearClips_def Let_def split: if_splits)
  note c = collect_clear_all [OF l]
  have f: "frame (set ids) d d'" unfolding d' by (rule frame_without_clips [OF v c(2)])
  have "FindClip d (hd (ccs_clip_ids op)) \<noteq> None"
    using l ne by (cases "ccs_clip_ids op") (auto simp: FindClip_None_iff dest!: collect_clear_step)
  moreover have "lives_in d (set ids) (hd (ccs_clip_ids op))" using c(2) ne by simp
  ultimately have "edit_record d d' (set (clip_tracks d (ccs_clip_ids op))) ids"
    using lives_in_record [OF v f c(1)] by blast
  with o show ?thesis by (intro that) (auto intro: edit_record_mono)
qed

lemma tracks_of_clips_eq: "tracks_of_clips d ids = clip_tracks d ids"
  by (induction ids) (auto simp: tracks_of_clips_def clip_tracks_def List.map_filter_simps split: option.split)

lemma ClearLinked_effect:
  assumes v: "valid d" and a: "ApplyClearLinked d op = Inr (d', op', iv)"
  obtains ids where "edit_record d d' (set (addressed_tracks d (ClearLinkedClips op))) ids"
    and "iv = ClearLinkedClips (op\<lparr>clo_exact_track_result := snapshots d ids\<rparr>) \<or>
         iv = ClearLinkedClips (op\<lparr>clo_exact_track_result := snapshots_each d ids\<rparr>)"
    and "op' = op \<and> clo_exact_track_result op \<noteq> [] \<or>
         op' = op\<lparr>clo_exact_track_result := snapshots_each d' (map ets_track_id (snapshots d ids))\<rparr>"
proof (cases "clo_exact_track_result op = []")
  case False
  with a obtain before where r: "replay_exact_each ''exact linked clear references an unknown track'' d
        (clo_exact_track_result op) = Inr (d', before)"
    and o: "op' = op" "iv = ClearLinkedClips (op\<lparr>clo_exact_track_result := before\<rparr>)"
    by (auto simp: ApplyClearLinked_def)
  from replay_each_record [OF r False] o False show ?thesis by (intro that) auto
next
  case True
  let ?ids = "tracks_of_clips d (clo_clip_ids op)"
  from True a obtain seen where l: "loopR (collect_linked_clear d (clo_link_group_id op)) (clo_clip_ids op) [] = Inr seen"
    and two: "\<not> length (clo_clip_ids op) < 2"
    and d': "d' = fold (\<lambda>i. ModifyTrackForClip i (without_clip i)) (clo_clip_ids op) d"
    and o: "op' = op\<lparr>clo_exact_track_result := snapshots_each d' (map ets_track_id (snapshots d ?ids))\<rparr>"
      "iv = ClearLinkedClips (op\<lparr>clo_exact_track_result := snapshots d ?ids\<rparr>)"
    by (auto simp: ApplyClearLinked_def Let_def split: if_splits)
  from two have ne: "clo_clip_ids op \<noteq> []" by auto
  have c: "set ?ids \<subseteq> set (clip_tracks d (clo_clip_ids op))" "\<forall>i\<in>set (clo_clip_ids op). lives_in d (set ?ids) i"
    unfolding tracks_of_clips_eq using clip_tracks_unlocked by blast+
  have f: "frame (set ?ids) d d'" unfolding d' by (rule frame_without_clips [OF v c(2)])
  have "FindClip d (hd (clo_clip_ids op)) \<noteq> None"
    using l ne by (cases "clo_clip_ids op") (auto simp: collect_linked_clear_def split: option.splits)
  moreover have "lives_in d (set ?ids) (hd (clo_clip_ids op))" using c(2) ne by simp
  ultimately have "edit_record d d' (set (clip_tracks d (clo_clip_ids op))) ?ids"
    using lives_in_record [OF v f c(1)] by blast
  with o show ?thesis by (intro that) (auto intro: edit_record_mono)
qed


section \<open>Paste\<close>

lemma scan_pasted_step:
  "scan_pasted d item s = Inr s' \<Longrightarrow>
   \<exists>i. ps_items s' = ps_items s @ [i] \<and> pc_track_id i = pc_track_id item \<and>
       FindTrack d (pc_track_id i) \<noteq> None"
  by (auto simp: scan_pasted_def Let_def split: option.splits if_splits prod.splits)

lemma scan_pasted_all:
  "loopR (scan_pasted d) items s = Inr s' \<Longrightarrow>
   map pc_track_id (ps_items s') = map pc_track_id (ps_items s) @ map pc_track_id items \<and>
   (\<forall>i\<in>set (map pc_track_id items). FindTrack d i \<noteq> None)"
proof (induction items arbitrary: s)
  case Nil
  then show ?case by simp
next
  case (Cons item items)
  from Cons.prems obtain t where "scan_pasted d item s = Inr t" and r: "loopR (scan_pasted d) items t = Inr s'"
    by auto
  from scan_pasted_step [OF this(1)] Cons.IH [OF r] show ?case by auto
qed

lemma relink_pasted_step:
  "relink_pasted all item (u, m, g) = Inr (u', m', g') \<Longrightarrow> \<exists>i. u' = u @ [i] \<and> pc_track_id i = pc_track_id item"
  by (auto simp: relink_pasted_def Let_def split: option.splits if_splits prod.splits)

lemma relink_pasted_all:
  "loopR (relink_pasted all) items (u, m, g) = Inr (u', m', g') \<Longrightarrow>
   map pc_track_id u' = map pc_track_id u @ map pc_track_id items"
proof (induction items arbitrary: u m g)
  case Nil
  then show ?case by simp
next
  case (Cons item items)
  from Cons.prems obtain u1 m1 g1 where "relink_pasted all item (u, m, g) = Inr (u1, m1, g1)"
    and r: "loopR (relink_pasted all) items (u1, m1, g1) = Inr (u', m', g')" by auto
  from relink_pasted_step [OF this(1)] Cons.IH [OF r] show ?case by auto
qed

lemma overwrite_for_paste_frame:
  "overwrite_for_paste item (x, g) = Inr (y, g') \<Longrightarrow> pc_track_id item \<in> S \<Longrightarrow> frame S d x \<Longrightarrow> frame S d y"
  by (auto simp: overwrite_for_paste_def intro!: frame_ModifyTrack_step split: option.splits)

lemma sort_track_frame:
  "sort_track i x = Inr y \<Longrightarrow> i \<in> S \<Longrightarrow> frame S d x \<Longrightarrow> frame S d y"
  by (auto simp: sort_track_def intro!: frame_ModifyTrack_step split: option.splits)

lemma PasteClips_effect:
  assumes v: "valid d" and a: "ApplyPasteClips g d op = Inr (d', op', iv)"
  obtains ids where "edit_record d d' (set (addressed_tracks d (PasteClips op))) ids"
    and "iv = PasteClips \<lparr>pco_clips = [], pco_exact_track_result = snapshots d ids,
                          pco_overwrite = pco_overwrite op\<rparr>"
    and "op' = op \<and> pco_exact_track_result op \<noteq> [] \<or>
         (\<exists>items. op' = op\<lparr>pco_clips := items, pco_exact_track_result := snapshots d' ids\<rparr> \<and>
                  map pc_track_id items = map pc_track_id (pco_clips op))"
proof (cases "pco_exact_track_result op = []")
  case False
  with a obtain before where r: "replay_exact ''exact paste state references an unknown track'' d
        (pco_exact_track_result op) = Inr (d', before)"
    and o: "op' = op" "iv = PasteClips \<lparr>pco_clips = [], pco_exact_track_result = before,
                          pco_overwrite = pco_overwrite op\<rparr>"
    by (auto simp: ApplyPasteClips_def)
  from replay_record [OF r False] o False show ?thesis by (intro that) auto
next
  case True
  from True a obtain s items m g1 d1 g2 d2 where ne: "pco_clips op \<noteq> []"
    and sc: "loopR (scan_pasted d) (pco_clips op)
               \<lparr>ps_items = [], ps_supply = g, ps_copied = [], ps_pasted = []\<rparr> = Inr s"
    and re: "loopR (relink_pasted (ps_items s)) (ps_items s) ([], Map.empty, ps_supply s) = Inr (items, m, g1)"
    and ov: "(if pco_overwrite op then loopR overwrite_for_paste items (d, g1) else Inr (d, g1)) = Inr (d1, g2)"
    and so: "loopR sort_track (map pc_track_id items) (fold add_pasted items d1) = Inr d'"
    and o: "op' = op\<lparr>pco_clips := items, pco_exact_track_result := snapshots d' (map pc_track_id items)\<rparr>"
      "iv = PasteClips \<lparr>pco_clips = [], pco_exact_track_result = snapshots d (map pc_track_id items),
                        pco_overwrite = pco_overwrite op\<rparr>"
    by (auto simp: ApplyPasteClips_def Let_def split: if_splits)
  let ?ids = "map pc_track_id items"
  from scan_pasted_all [OF sc] relink_pasted_all [OF re]
  have ids: "?ids = map pc_track_id (pco_clips op)"
    and ex: "\<forall>i\<in>set (map pc_track_id (pco_clips op)). FindTrack d i \<noteq> None" by simp_all
  have "frame (set ?ids) d d1"
  proof (cases "pco_overwrite op")
    case True
    with ov have "loopR overwrite_for_paste items (d, g1) = Inr (d1, g2)" by simp
    then show ?thesis
      by (rule frame_loopR_fst) (auto elim!: overwrite_for_paste_frame)
  qed (use ov in simp)
  then have "frame (set ?ids) d (fold add_pasted items d1)"
    by (rule frame_fold) (auto simp: add_pasted_def intro!: frame_ModifyTrack_step)
  with so have "frame (set ?ids) d d'"
    by (rule frame_loopR) (auto elim!: sort_track_frame)
  moreover obtain i where "i \<in> set ?ids" "FindTrack d i \<noteq> None"
    using ne ex ids by (cases "pco_clips op") auto
  ultimately have "edit_record d d' (set (addressed_tracks d (PasteClips op))) ?ids"
    by (intro edit_recordI) (auto simp: ids)
  with o ids show ?thesis by (intro that) auto
qed

section \<open>Move\<close>

lemma ApplyMove_frame:
  assumes v: "valid d" and f: "frame S d x" and "lives_in d S (mco_clip_id op)"
    and "mco_track_id op \<in> S" and "mco_exact_track_result op = []"
    and a: "ApplyMove g x op = Inr (x', op', iv, g')"
  shows "frame S d x'"
proof -
  from a assms(5) obtain h cs where
    "x' = ModifyTrack (mco_track_id op) (with_clips (\<lambda>_. cs))
            (ModifyTrackForClip (mco_clip_id op) (with_clips h) x)"
    by (auto simp: ApplyMove_def Let_def split: if_splits option.splits)
  then show ?thesis
    using assms(3,4) by (auto intro!: frame_ModifyTrack_step frame_ModifyTrackForClip_step [OF v f])
qed

lemma Move_effect:
  assumes v: "valid d" and a: "ApplyMove g d op = Inr (d', op', iv, g')"
  obtains ids s t x where "edit_record d d' (set (addressed_tracks d (MoveClip op))) ids"
    and "FindTrackForClip d (mco_clip_id op) = Some s" and "FindTrack d (mco_track_id op) = Some t"
    and "trk_kind s = trk_kind t"
    and "iv = MoveClip \<lparr>mco_clip_id = mco_clip_id op, mco_track_id = trk_id s, mco_timeline_in = x,
                        mco_exact_track_result = snapshots d ids\<rparr>"
    and "0 < rt_rate x \<and> 0 \<le> rt_value x"
    and "0 < rt_rate (mco_timeline_in op) \<and> 0 \<le> rt_value (mco_timeline_in op)"
    and "op' = op \<and> mco_exact_track_result op \<noteq> [] \<or>
         op' = op\<lparr>mco_exact_track_result := snapshots d' ids\<rparr>"
proof -
  from a obtain s t where s: "FindTrackForClip d (mco_clip_id op) = Some s"
    and t: "FindTrack d (mco_track_id op) = Some t" and k: "trk_kind s = trk_kind t"
    and time: "0 < rt_rate (mco_timeline_in op) \<and> 0 \<le> rt_value (mco_timeline_in op)"
    by (auto simp: ApplyMove_def Let_def split: if_splits)
  obtain c where c: "List.find (\<lambda>c. clip_id c = mco_clip_id op) (trk_clips s) = Some c"
    using FindTrackForClip_Some [OF s]
    by (cases "List.find (\<lambda>c. clip_id c = mco_clip_id op) (trk_clips s)")
      (auto simp: has_clip_def list_ex_iff find_None_iff_all)
  then have fc: "FindClip d (mco_clip_id op) = Some c" by (simp add: FindClip_via_track s)
  have nth: "trk_clips s ! index_of (\<lambda>c. clip_id c = mco_clip_id op) (trk_clips s) = c"
    using index_of_less [OF c] by simp
  have "c \<in> set (trk_clips s)" using find_Some_D [OF c] by simp
  from valid_track(2) [OF v _ this] FindTrackForClip_Some [OF s] have "clip_well_placed d s c" by simp
  then have ct: "0 < rt_rate (clip_timeline_in c) \<and> 0 \<le> rt_value (clip_timeline_in c)"
    by (simp add: clip_well_placed_def)
  show ?thesis
  proof (cases "mco_exact_track_result op = []")
    case False
    with a s t k time obtain before where
      r: "replay_exact ''exact move state references an unknown track'' d
            (mco_exact_track_result op) = Inr (d', before)"
      and o: "op' = op" "iv = MoveClip \<lparr>mco_clip_id = mco_clip_id op, mco_track_id = trk_id s,
          mco_timeline_in = clip_timeline_in c, mco_exact_track_result = before\<rparr>"
      by (auto simp: ApplyMove_def Let_def fc)
    have "set (map ets_track_id (mco_exact_track_result op)) \<subseteq> set (addressed_tracks d (MoveClip op))"
      by auto
    from replay_record [OF r False this] o False ct time s t k show ?thesis by (intro that) auto
  next
    case True
    let ?ids = "[trk_id s, mco_track_id op]"
    have o: "op' = op\<lparr>mco_exact_track_result := snapshots d' ?ids\<rparr>"
      "iv = MoveClip \<lparr>mco_clip_id = mco_clip_id op, mco_track_id = trk_id s,
          mco_timeline_in = clip_timeline_in c, mco_exact_track_result = snapshots d ?ids\<rparr>"
      using a True s t k by (auto simp: ApplyMove_def Let_def nth split: if_splits)
    have "frame (set ?ids) d d'"
      by (rule ApplyMove_frame [OF v frame_refl _ _ True a]) (auto simp: lives_in_def s)
    then have "edit_record d d' (set (addressed_tracks d (MoveClip op))) ?ids"
      using t by (intro edit_recordI [where i = "mco_track_id op"])
        (auto simp: set_clip_tracks s)
    with o s t k ct time show ?thesis by (intro that) auto
  qed
qed

end
