(* ===== verification/Edit_Frames_Trim.thy ===== *)
theory Edit_Frames_Trim
  imports Edit_Frames
begin

text \<open>
  The tracks that the multi-clip moves, the trims, the roll, the slip and the linked
  removals change and record.
\<close>

section \<open>Moves of several clips\<close>

definition move_in :: "Document \<Rightarrow> Ulid set \<Rightarrow> OriginalMove \<Rightarrow> bool" where
  "move_in d S m \<longleftrightarrow> om_source_track_id m \<in> S \<and> lcm_track_id (om_destination m) \<in> S \<and>
     lives_in d S (clip_id (om_clip m))"

lemma collect_move_step:
  assumes "collect_move d mv (os, a, s) = Inr (os', a', s')"
  shows "set a \<subseteq> set a'" and "set a' \<subseteq> set a \<union> set (move_tracks d [mv])"
    and "(\<forall>m\<in>set os. move_in d (set a) m) \<Longrightarrow> (\<forall>m\<in>set os'. move_in d (set a') m)"
    and "FindTrack d (lcm_track_id mv) \<noteq> None" and "lcm_track_id mv \<in> set a'"
proof -
  from assms obtain c src t where c: "FindClip d (lcm_clip_id mv) = Some c"
    and s: "FindTrackForClip d (lcm_clip_id mv) = Some src" and t: "FindTrack d (lcm_track_id mv) = Some t"
    and os: "os' = os @ [\<lparr>om_clip = c, om_source_track_id = trk_id src, om_destination = mv\<rparr>]"
    and a: "a' = a @ [trk_id src, trk_id t]"
    by (auto simp: collect_move_def split: option.splits if_splits)
  have id: "trk_id t = lcm_track_id mv" using FindTrack_Some [OF t] by simp
  have cid: "clip_id c = lcm_clip_id mv" using c by (rule FindClip_Some)
  show "set a \<subseteq> set a'" and "set a' \<subseteq> set a \<union> set (move_tracks d [mv])"
    and "FindTrack d (lcm_track_id mv) \<noteq> None" and "lcm_track_id mv \<in> set a'"
    using t by (auto simp: a id move_tracks_def set_clip_tracks s)
  show "(\<forall>m\<in>set os. move_in d (set a) m) \<Longrightarrow> (\<forall>m\<in>set os'. move_in d (set a') m)"
    by (auto simp: os a id cid move_in_def lives_in_def s)
qed

lemma collect_move_all:
  "loopR (collect_move d) ms (os, a, s) = Inr (os', a', s') \<Longrightarrow> \<forall>m\<in>set os. move_in d (set a) m \<Longrightarrow>
   (\<forall>m\<in>set os'. move_in d (set a') m) \<and> set a \<subseteq> set a' \<and> set a' \<subseteq> set a \<union> set (move_tracks d ms) \<and>
   (\<forall>m\<in>set ms. FindTrack d (lcm_track_id m) \<noteq> None \<and> lcm_track_id m \<in> set a')"
proof (induction ms arbitrary: os a s)
  case Nil
  then show ?case by simp
next
  case (Cons mv ms)
  from Cons.prems(1) obtain os1 a1 s1 where st: "collect_move d mv (os, a, s) = Inr (os1, a1, s1)"
    and r: "loopR (collect_move d) ms (os1, a1, s1) = Inr (os', a', s')" by auto
  have split: "set (move_tracks d (mv # ms)) = set (move_tracks d [mv]) \<union> set (move_tracks d ms)"
    by (simp add: move_tracks_def)
  note c = collect_move_step [OF st]
  from Cons.IH [OF r c(3) [OF Cons.prems(2)]] c(1,2,4,5) show ?case unfolding split by auto
qed

lemma frame_put_back: "move_in d S m \<Longrightarrow> frame S d x \<Longrightarrow> frame S d (put_back m x)"
  by (auto simp: put_back_def move_in_def intro!: frame_ModifyTrack_step)

lemma frame_lift_out: "move_in d S m \<Longrightarrow> frame S d x \<Longrightarrow> frame S d (lift_out m x)"
  by (auto simp: lift_out_def move_in_def without_clip_def intro!: frame_ModifyTrack_step)

lemma frame_move_step:
  assumes "valid d" and "frame S d x" and "lives_in d S (mco_clip_id m)" and "mco_track_id m \<in> S"
    and "mco_exact_track_result m = []" and "move_step m (x, g) = Inr (y, g')"
  shows "frame S d y"
  using assms by (auto simp: move_step_def elim: ApplyMove_frame)

lemma frame_move_original:
  assumes "valid d" and "frame S d x" and "move_in d S m" and "move_original m (x, g) = Inr (y, g')"
  shows "frame S d y"
  using assms frame_put_back [OF assms(3,2)]
  by (auto simp: move_original_def move_in_def elim!: frame_move_step [rotated 5])

lemma MoveClips_effect:
  assumes v: "valid d" and a: "ApplyMoveClips g d op = Inr (d', op', iv)"
  obtains ids moves where "edit_record d d' (set (addressed_tracks d (MoveClips op))) ids"
    and "iv = MoveClips \<lparr>mcs_moves = moves, mcs_exact_track_result = snapshots d ids\<rparr>"
    and "moves = mcs_moves op \<or> set (map lcm_track_id moves) \<subseteq> set ids \<and>
         (\<forall>m\<in>set moves. lives_in d (set ids) (lcm_clip_id m))"
    and "op' = op \<and> mcs_exact_track_result op \<noteq> [] \<or>
         op' = op\<lparr>mcs_exact_track_result := snapshots d' ids\<rparr>"
proof (cases "mcs_exact_track_result op = []")
  case False
  with a obtain before where r: "replay_exact ''exact multi-move references an unknown track'' d
        (mcs_exact_track_result op) = Inr (d', before)"
    and o: "op' = op" "iv = MoveClips \<lparr>mcs_moves = mcs_moves op, mcs_exact_track_result = before\<rparr>"
    by (auto simp: ApplyMoveClips_def)
  have "set (map ets_track_id (mcs_exact_track_result op)) \<subseteq> set (addressed_tracks d (MoveClips op))"
    by auto
  from replay_record [OF r False this] o False show ?thesis by (intro that) auto
next
  case True
  with a obtain os ids s r where two: "\<not> length (mcs_moves op) < 2"
    and c: "loopR (collect_move d) (mcs_moves op) ([], [], []) = Inr (os, ids, s)"
    and l: "loopR move_original os (fold lift_out os d, g) = Inr (d', r)"
    and o: "op' = op\<lparr>mcs_exact_track_result := snapshots d' ids\<rparr>"
      "iv = MoveClips \<lparr>mcs_moves = map inverse_move os, mcs_exact_track_result = snapshots d ids\<rparr>"
    by (auto simp: ApplyMoveClips_def Let_def split: if_splits)
  from collect_move_all [OF c] have m: "\<forall>m\<in>set os. move_in d (set ids) m"
    and sub: "set ids \<subseteq> set (move_tracks d (mcs_moves op))"
    and ex: "\<forall>m\<in>set (mcs_moves op). FindTrack d (lcm_track_id m) \<noteq> None \<and> lcm_track_id m \<in> set ids"
    by auto
  have "frame (set ids) d (fold lift_out os d)"
    by (rule frame_fold [OF frame_refl]) (use m frame_lift_out in blast)
  with l have f: "frame (set ids) d d'"
    by (rule frame_loopR_fst) (use m frame_move_original [OF v] in blast)
  obtain mv where "mv \<in> set (mcs_moves op)" using two by (cases "mcs_moves op") auto
  with ex f sub have "edit_record d d' (set (addressed_tracks d (MoveClips op))) ids"
    by (auto intro!: edit_recordI [where i = "lcm_track_id mv"])
  moreover have "set (map lcm_track_id (map inverse_move os)) \<subseteq> set ids \<and>
      (\<forall>m\<in>set (map inverse_move os). lives_in d (set ids) (lcm_clip_id m))"
    using m by (auto simp: inverse_move_def move_in_def)
  ultimately show ?thesis using o by (intro that [of ids "map inverse_move os"]) simp_all
qed

lemma collect_linked_move_step:
  assumes "collect_linked_move d grp mv (is, a, s) = Inr (is', a', s')"
  obtains src where "FindTrackForClip d (lcm_clip_id mv) = Some src"
    and "FindTrack d (lcm_track_id mv) \<noteq> None"
    and "set a' = insert (lcm_track_id mv) (insert (trk_id src) (set a))"
    and "\<exists>x. is' = is @ [\<lparr>lcm_clip_id = lcm_clip_id mv, lcm_track_id = trk_id src, lcm_timeline_in = x\<rparr>]"
proof -
  from assms obtain c src t where c: "FindClip d (lcm_clip_id mv) = Some c"
    and s: "FindTrackForClip d (lcm_clip_id mv) = Some src" and t: "FindTrack d (lcm_track_id mv) = Some t"
    and is': "is' = is @ [\<lparr>lcm_clip_id = clip_id c, lcm_track_id = trk_id src,
                            lcm_timeline_in = clip_timeline_in c\<rparr>]"
    and a: "a' = a @ [trk_id src, trk_id t]"
    by (auto simp: collect_linked_move_def split: option.splits if_splits)
  have "trk_id t = lcm_track_id mv" and "clip_id c = lcm_clip_id mv"
    using FindTrack_Some [OF t] c by (auto elim: FindClip_Some)
  with s t is' a show ?thesis by (intro that) auto
qed

lemma collect_linked_move_all:
  "loopR (collect_linked_move d grp) ms (is, a, s) = Inr (is', a', s') \<Longrightarrow>
   \<forall>m\<in>set is. lcm_track_id m \<in> set a \<and> lives_in d (set a) (lcm_clip_id m) \<Longrightarrow>
   (\<forall>m\<in>set is'. lcm_track_id m \<in> set a' \<and> lives_in d (set a') (lcm_clip_id m)) \<and>
   set a \<subseteq> set a' \<and> set a' \<subseteq> set a \<union> set (move_tracks d ms) \<and>
   (\<forall>m\<in>set ms. FindTrack d (lcm_track_id m) \<noteq> None \<and> lcm_track_id m \<in> set a' \<and>
      lives_in d (set a') (lcm_clip_id m))"
proof (induction ms arbitrary: "is" a s)
  case Nil
  then show ?case by simp
next
  case (Cons mv ms)
  from Cons.prems(1) obtain is1 a1 s1 where st: "collect_linked_move d grp mv (is, a, s) = Inr (is1, a1, s1)"
    and r: "loopR (collect_linked_move d grp) ms (is1, a1, s1) = Inr (is', a', s')" by auto
  obtain src where src: "FindTrackForClip d (lcm_clip_id mv) = Some src" and ex: "FindTrack d (lcm_track_id mv) \<noteq> None"
    and a1: "set a1 = insert (lcm_track_id mv) (insert (trk_id src) (set a))"
    and is1': "\<exists>x. is1 = is @ [\<lparr>lcm_clip_id = lcm_clip_id mv, lcm_track_id = trk_id src, lcm_timeline_in = x\<rparr>]"
    by (rule collect_linked_move_step [OF st])
  obtain x where is1: "is1 = is @ [\<lparr>lcm_clip_id = lcm_clip_id mv, lcm_track_id = trk_id src, lcm_timeline_in = x\<rparr>]"
    using is1' ..
  have mono: "lives_in d (set a) i \<Longrightarrow> lives_in d (set a1) i" for i
    using lives_in_mono [of d "set a" i "set a1"] a1 by auto
  have new: "lives_in d (set a1) (lcm_clip_id mv)" using src a1 by (simp add: lives_in_def)
  have "\<forall>m\<in>set is1. lcm_track_id m \<in> set a1 \<and> lives_in d (set a1) (lcm_clip_id m)"
    using Cons.prems(2) mono new by (auto simp: is1 a1)
  note IH = Cons.IH [OF r this]
  have new': "lives_in d (set a') (lcm_clip_id mv)" using lives_in_mono [OF new] IH by blast
  have "set (move_tracks d (mv # ms)) = {trk_id src, lcm_track_id mv} \<union> set (move_tracks d ms)"
    using src by (auto simp: move_tracks_def set_clip_tracks)
  with IH ex a1 new' show ?case by auto
qed

lemma MoveLinked_effect:
  assumes v: "valid d" and a: "ApplyMoveLinked g d op = Inr (d', op', iv)"
  obtains ids moves where "edit_record d d' (set (addressed_tracks d (MoveLinkedClips op))) ids"
    and "iv = MoveLinkedClips \<lparr>mlo_link_group_id = mlo_link_group_id op, mlo_moves = moves,
                              mlo_exact_track_result = snapshots d ids\<rparr>"
    and "moves = mlo_moves op \<or> set (map lcm_track_id moves) \<subseteq> set ids \<and>
         (\<forall>m\<in>set moves. lives_in d (set ids) (lcm_clip_id m))"
    and "op' = op \<and> mlo_exact_track_result op \<noteq> [] \<or>
         op' = op\<lparr>mlo_exact_track_result := snapshots d' ids\<rparr>"
proof (cases "mlo_exact_track_result op = []")
  case False
  with a obtain before where r: "replay_exact ''exact linked move references an unknown track'' d
        (mlo_exact_track_result op) = Inr (d', before)"
    and o: "op' = op" "iv = MoveLinkedClips \<lparr>mlo_link_group_id = mlo_link_group_id op,
        mlo_moves = mlo_moves op, mlo_exact_track_result = before\<rparr>"
    by (auto simp: ApplyMoveLinked_def)
  have "set (map ets_track_id (mlo_exact_track_result op)) \<subseteq> set (addressed_tracks d (MoveLinkedClips op))"
    by auto
  from replay_record [OF r False this] o False show ?thesis by (intro that) auto
next
  case True
  with a obtain mvs ids s r where two: "\<not> length (mlo_moves op) < 2"
    and c: "loopR (collect_linked_move d (mlo_link_group_id op)) (mlo_moves op) ([], [], []) = Inr (mvs, ids, s)"
    and l: "loopR (\<lambda>m. move_step (single_move m)) (mlo_moves op) (d, g) = Inr (d', r)"
    and o: "op' = op\<lparr>mlo_exact_track_result := snapshots d' ids\<rparr>"
      "iv = MoveLinkedClips \<lparr>mlo_link_group_id = mlo_link_group_id op, mlo_moves = mvs,
         mlo_exact_track_result = snapshots d ids\<rparr>"
    by (auto simp: ApplyMoveLinked_def Let_def split: if_splits)
  from collect_linked_move_all [OF c]
  have inv: "\<forall>m\<in>set mvs. lcm_track_id m \<in> set ids \<and> lives_in d (set ids) (lcm_clip_id m)"
    and sub: "set ids \<subseteq> set (move_tracks d (mlo_moves op))"
    and ex: "\<forall>m\<in>set (mlo_moves op). FindTrack d (lcm_track_id m) \<noteq> None \<and> lcm_track_id m \<in> set ids \<and>
      lives_in d (set ids) (lcm_clip_id m)" by auto
  from l have f: "frame (set ids) d d'"
    by (rule frame_loopR_fst [OF _ frame_refl])
      (use ex in \<open>auto simp: single_move_def elim!: frame_move_step [OF v, rotated 4]\<close>)
  obtain mv where "mv \<in> set (mlo_moves op)" using two by (cases "mlo_moves op") auto
  with ex f sub have "edit_record d d' (set (addressed_tracks d (MoveLinkedClips op))) ids"
    by (auto intro!: edit_recordI [where i = "lcm_track_id mv"])
  with o inv show ?thesis by (intro that) auto
qed

end
