(* ===== verification/Edit_Frames_Ripple.thy ===== *)
theory Edit_Frames_Ripple
  imports Edit_Frames_Trim
begin

text \<open>The tracks that trims, ripples, rolls, slips and linked removals change and record.\<close>

section \<open>Loops over clips\<close>

text \<open>A loop that adds the track of one clip per element, the clip being \<open>h x\<close>.\<close>

lemma clip_tracks_map_Some:
  "FindTrackForClip d (h x) = Some k \<Longrightarrow> x \<in> set xs \<Longrightarrow> trk_id k \<in> set (clip_tracks d (map h xs))"
  by (rule clip_tracks_Some) auto

lemma loopR_clips_pair:
  assumes "loopR f xs (a, s) = Inr (a', s')"
    and "\<And>x u v u' v'. x \<in> set xs \<Longrightarrow> f x (u, v) = Inr (u', v') \<Longrightarrow>
           \<exists>k. FindTrackForClip d (h x) = Some k \<and> set u' = insert (trk_id k) (set u)"
  shows "set a \<subseteq> set a'" and "set a' \<subseteq> set a \<union> set (clip_tracks d (map h xs))"
    and "\<forall>x\<in>set xs. lives_in d (set a') (h x)"
proof -
  have step: "set u \<subseteq> set u' \<and> set u' \<subseteq> set u \<union> set (clip_tracks d (map h xs)) \<and>
      (\<forall>i\<in>(\<lambda>x. {h x}) x. lives_in d (set u') i)"
    if "x \<in> set xs" "f x (u, v) = Inr (u', v')" for x u v u' v'
    using assms(2) [OF that] clip_tracks_map_Some [OF _ that(1)]
    by (auto intro: lives_in_Some)
  from loopR_lives_pair [where q = "\<lambda>x. {h x}", OF assms(1) step]
  show "set a \<subseteq> set a'" and "set a' \<subseteq> set a \<union> set (clip_tracks d (map h xs))"
    and "\<forall>x\<in>set xs. lives_in d (set a') (h x)" by simp_all
qed

lemma loopR_clips_list:
  assumes "loopR f xs a = Inr a'"
    and "\<And>x u u'. x \<in> set xs \<Longrightarrow> f x u = Inr u' \<Longrightarrow>
           \<exists>k. FindTrackForClip d (h x) = Some k \<and> set u' = insert (trk_id k) (set u)"
  shows "set a \<subseteq> set a'" and "set a' \<subseteq> set a \<union> set (clip_tracks d (map h xs))"
    and "\<forall>x\<in>set xs. lives_in d (set a') (h x)"
proof -
  have step: "set u \<subseteq> set u' \<and> set u' \<subseteq> set u \<union> set (clip_tracks d (map h xs)) \<and>
      (\<forall>i\<in>(\<lambda>x. {h x}) x. lives_in d (set u') i)"
    if "x \<in> set xs" "f x u = Inr u'" for x u u'
    using assms(2) [OF that] clip_tracks_map_Some [OF _ that(1)]
    by (auto intro: lives_in_Some)
  from loopR_lives_list [where q = "\<lambda>x. {h x}", OF assms(1) step]
  show "set a \<subseteq> set a'" and "set a' \<subseteq> set a \<union> set (clip_tracks d (map h xs))"
    and "\<forall>x\<in>set xs. lives_in d (set a') (h x)" by simp_all
qed

section \<open>Trim\<close>

lemma ApplyTrim_shape:
  assumes "ApplyTrim x op = Inr (x', op', iv)"
  obtains t where "x' = ModifyClip (tco_clip_id op) (set_times t) x"
    and "op' = op\<lparr>tco_exact_clip_result := Some t\<rparr>" and "FindClip x (tco_clip_id op) \<noteq> None"
  using assms by (auto simp: ApplyTrim_def Let_def split: if_splits option.splits)

lemma frame_trim_step:
  assumes "valid d" and "frame S d x" and "lives_in d S (lct_clip_id t)" and "trim_step t x = Inr y"
  shows "frame S d y"
proof -
  from assms(4) obtain op' iv where "ApplyTrim x \<lparr>tco_clip_id = lct_clip_id t, tco_edge = lct_edge t,
      tco_delta = lct_delta t, tco_exact_clip_result = None\<rparr> = Inr (y, op', iv)"
    by (auto simp: trim_step_def)
  from ApplyTrim_shape [OF this] obtain x1 where "y = ModifyClip (lct_clip_id t) (set_times x1) x"
    by (metis TrimClipOperation.select_convs(1))
  then show ?thesis using frame_ModifyClip_step [OF assms(1-3)] by simp
qed

lemma collect_linked_trim_step:
  "collect_linked_trim d grp t (u, v) = Inr (u', v') \<Longrightarrow>
   \<exists>k. FindTrackForClip d (lct_clip_id t) = Some k \<and> u' = u @ [trk_id k]"
  by (auto simp: collect_linked_trim_def split: option.splits if_splits)

lemma collect_linked_trim_all:
  assumes "loopR (collect_linked_trim d grp) ts ([], []) = Inr (ids, seen)"
  shows "set ids \<subseteq> set (clip_tracks d (map lct_clip_id ts))"
    and "\<forall>t\<in>set ts. lives_in d (set ids) (lct_clip_id t)"
proof -
  have step: "\<exists>k. FindTrackForClip d (lct_clip_id t) = Some k \<and> set u' = insert (trk_id k) (set u)"
    if "t \<in> set ts" "collect_linked_trim d grp t (u, v) = Inr (u', v')" for t u v u' v'
    using collect_linked_trim_step [OF that(2)] by auto
  from loopR_clips_pair [where h = lct_clip_id, OF assms step]
  show "set ids \<subseteq> set (clip_tracks d (map lct_clip_id ts))"
    and "\<forall>t\<in>set ts. lives_in d (set ids) (lct_clip_id t)" by simp_all
qed

lemma TrimLinked_effect:
  assumes v: "valid d" and a: "ApplyTrimLinked d op = Inr (d', op', iv)"
  obtains ids where "edit_record d d' (set (addressed_tracks d (TrimLinkedClips op))) ids"
    and "iv = TrimLinkedClips (op\<lparr>tlo_exact_track_result := snapshots d ids\<rparr>)"
    and "op' = op \<and> tlo_exact_track_result op \<noteq> [] \<or>
         op' = op\<lparr>tlo_exact_track_result := snapshots d' ids\<rparr>"
proof (cases "tlo_exact_track_result op = []")
  case False
  with a obtain before where r: "replay_exact ''exact linked trim references an unknown track'' d
        (tlo_exact_track_result op) = Inr (d', before)"
    and o: "op' = op" "iv = TrimLinkedClips (op\<lparr>tlo_exact_track_result := before\<rparr>)"
    by (auto simp: ApplyTrimLinked_def)
  have "set (map ets_track_id (tlo_exact_track_result op)) \<subseteq> set (addressed_tracks d (TrimLinkedClips op))"
    by auto
  from replay_record [OF r False this] o False show ?thesis by (intro that) auto
next
  case True
  with a obtain ids s where two: "\<not> length (tlo_trims op) < 2"
    and c: "loopR (collect_linked_trim d (tlo_link_group_id op)) (tlo_trims op) ([], []) = Inr (ids, s)"
    and l: "loopR trim_step (tlo_trims op) d = Inr d'"
    and o: "op' = op\<lparr>tlo_exact_track_result := snapshots d' ids\<rparr>"
      "iv = TrimLinkedClips (op\<lparr>tlo_exact_track_result := snapshots d ids\<rparr>)"
    by (auto simp: ApplyTrimLinked_def Let_def split: if_splits)
  note m = collect_linked_trim_all [OF c]
  from l have f: "frame (set ids) d d'"
    by (rule frame_loopR [OF _ frame_refl]) (use m frame_trim_step [OF v] in blast)
  obtain t where t: "t \<in> set (tlo_trims op)" and e: "FindClip d (lct_clip_id t) \<noteq> None"
    using two c by (cases "tlo_trims op") (auto dest!: collect_linked_trim_step simp: FindClip_None_iff)
  from lives_in_record [OF v f m(1) _ e] m(2) t o show ?thesis
    by (intro that) (auto elim: edit_record_mono)
qed

section \<open>Ripple trim\<close>

lemma shift_track_frame:
  "shift_track b delta i x = Inr y \<Longrightarrow> i \<in> S \<Longrightarrow> frame S d x \<Longrightarrow> frame S d y"
  by (auto simp: shift_track_def ShiftPositionsAtOrAfter_def split: option.splits
      intro!: frame_ModifyTrack_step)

lemma ripple_clip_frame:
  assumes "valid d" and "frame S d x" and "lives_in d S i" and "ripple_clip e delta i x = Inr y"
  shows "frame S d y"
  using assms by (auto simp: ripple_clip_def split: option.splits intro!: frame_ModifyClip_step)

lemma ripple_track_frame:
  "ripple_track trims fo delta i x = Inr y \<Longrightarrow> i \<in> S \<Longrightarrow> frame S d x \<Longrightarrow> frame S d y"
  by (auto simp: ripple_track_def split: option.splits prod.splits intro!: frame_ModifyTrack_step)

lemma ripple_sync_frame:
  "ripple_sync fo b delta i x = Inr y \<Longrightarrow> i \<in> S \<Longrightarrow> frame S d x \<Longrightarrow> frame S d y"
  by (auto simp: ripple_sync_def split: if_splits elim: shift_track_frame)

lemma check_ripple_keys:
  "loopR (check_ripple x e delta) trims (fo, keys) = Inr (fo', keys') \<Longrightarrow>
   set keys' \<subseteq> set keys \<union> set (clip_tracks x trims)"
proof (induction trims arbitrary: fo keys)
  case Nil
  then show ?case by simp
next
  case (Cons i trims)
  from Cons.prems obtain fo1 keys1 where st: "check_ripple x e delta i (fo, keys) = Inr (fo1, keys1)"
    and r: "loopR (check_ripple x e delta) trims (fo1, keys1) = Inr (fo', keys')" by auto
  from st have "set keys1 \<subseteq> set keys \<union> set (clip_tracks x [i])"
    by (auto simp: check_ripple_def set_clip_tracks split: option.splits if_splits)
  moreover have "set (clip_tracks x (i # trims)) = set (clip_tracks x [i]) \<union> set (clip_tracks x trims)"
    by (simp add: clip_tracks_def)
  ultimately show ?case using Cons.IH [OF r] by blast
qed

text \<open>A ripple inside a larger edit: it stays in the tracks of its clips and its sync tracks.\<close>

lemma ApplyRippleTrim_frame:
  assumes v: "valid d" and f: "frame S d x" and c: "lives_in d S (rto_clip_id op)"
    and l: "\<forall>i\<in>set (rto_linked_clip_ids op). lives_in d S i" and s: "set (rto_sync_track_ids op) \<subseteq> S"
    and "rto_exact_track_result op = []" and a: "ApplyRippleTrim x op = Inr (x', op', iv)"
  shows "frame S d x'"
proof -
  let ?trims = "fold push_unique (rto_linked_clip_ids op) [rto_clip_id op]"
  have "set (fold push_unique xs ys) = set xs \<union> set ys" for xs ys :: "Ulid list"
    by (induction xs arbitrary: ys) auto
  then have lives: "\<forall>i\<in>set ?trims. lives_in d S i" using c l by auto
  from a assms(6) obtain fo keys b sd x1 x2 where
    ck: "loopR (check_ripple x (rto_edge op) (rto_delta op)) ?trims (Map.empty, []) = Inr (fo, keys)"
    and s1: "loopR (ripple_clip (rto_edge op) (rto_delta op)) ?trims x = Inr x1"
    and s2: "loopR (ripple_track ?trims fo sd) (sort keys) x1 = Inr x2"
    and s3: "loopR (ripple_sync fo b sd) (rto_sync_track_ids op) x2 = Inr x'"
    by (auto simp: ApplyRippleTrim_def Let_def split: if_splits option.splits)
  have "set (clip_tracks x ?trims) \<subseteq> S"
    using lives lives_in_frame [OF v f] by (auto simp: clip_tracks_unlocked)
  with check_ripple_keys [OF ck] have keys: "set keys \<subseteq> S" by auto
  from s1 have "frame S d x1"
    by (rule frame_loopR [OF _ f]) (use lives ripple_clip_frame [OF v] in blast)
  with s2 have "frame S d x2" by (rule frame_loopR) (use keys ripple_track_frame in auto)
  with s3 show ?thesis by (rule frame_loopR) (use s ripple_sync_frame in auto)
qed

lemma collect_ripple_step:
  "collect_ripple d anchor ai i u = Inr u' \<Longrightarrow>
   \<exists>k. FindTrackForClip d i = Some k \<and> u' = add_track (trk_id k) u"
  by (auto simp: collect_ripple_def split: option.splits if_splits)

lemma set_add_track: "set (add_track i ids) = (if i = [] then set ids else insert i (set ids))"
  by (simp add: add_track_def)

lemma distinct_add_track: "distinct (add_track i ids) = distinct ids"
  by (simp add: add_track_def)

lemma track_of_clip_nonempty:
  "valid d \<Longrightarrow> FindTrackForClip d i = Some k \<Longrightarrow> trk_id k \<noteq> []"
  using FindTrackForClip_Some valid_nonempty_ids(2) by blast

lemma collect_ripple_all:
  assumes v: "valid d" and "loopR (collect_ripple d anchor ai) cs a = Inr ids"
  shows "set ids \<subseteq> set a \<union> set (clip_tracks d cs)" and "\<forall>i\<in>set cs. lives_in d (set ids) i"
    and "distinct a \<Longrightarrow> distinct ids" and "set a \<subseteq> set ids"
proof -
  have step: "\<exists>k. FindTrackForClip d c = Some k \<and> set u' = insert (trk_id k) (set u)"
    if "c \<in> set cs" "collect_ripple d anchor ai c u = Inr u'" for c u u'
    using collect_ripple_step [OF that(2)] track_of_clip_nonempty [OF v] by (auto simp: set_add_track)
  from loopR_clips_list [where h = "\<lambda>x. x", OF assms(2) step]
  show "set ids \<subseteq> set a \<union> set (clip_tracks d cs)" and "\<forall>i\<in>set cs. lives_in d (set ids) i"
    and "set a \<subseteq> set ids" by simp_all
  show "distinct a \<Longrightarrow> distinct ids"
    using loopR_invariant [OF assms(2), of distinct] collect_ripple_step distinct_add_track by metis
qed

lemma collect_sync_all:
  "loopR (collect_sync m d) ss a = Inr ids \<Longrightarrow> valid d \<Longrightarrow>
   set ids = set a \<union> set ss \<and> (distinct a \<longrightarrow> distinct ids)"
proof (induction ss arbitrary: a)
  case Nil
  then show ?case by simp
next
  case (Cons s ss)
  from Cons.prems(1) obtain a1 where st: "collect_sync m d s a = Inr a1"
    and r1: "loopR (collect_sync m d) ss a1 = Inr ids" by auto
  from st have "FindTrack d s \<noteq> None" and a1: "a1 = add_track s a"
    by (auto simp: collect_sync_def split: if_splits)
  note r = r1 [unfolded a1]
  from \<open>FindTrack d s \<noteq> None\<close> have "s \<noteq> []" using FindTrack_empty_id [OF Cons.prems(2)] by auto
  with Cons.IH [OF r Cons.prems(2)] show ?case by (auto simp: set_add_track distinct_add_track)
qed

lemma set_fold_push_unique: "set (fold push_unique xs ys) = set xs \<union> set ys"
  by (induction xs arbitrary: ys) auto

lemma RippleTrim_effect:
  assumes v: "valid d" and a: "ApplyRippleTrim d op = Inr (d', op', iv)"
  obtains ids where "edit_record d d' (set (addressed_tracks d (RippleTrim op))) ids" and "distinct ids"
    and "0 < rt_rate (rto_delta op)"
    and "iv = RippleTrim (op\<lparr>rto_exact_track_result := snapshots_each d ids\<rparr>)"
    and "op' = op \<and> rto_exact_track_result op \<noteq> [] \<or>
         op' = op\<lparr>rto_exact_track_result := snapshots_each d' ids\<rparr>"
proof (cases "rto_exact_track_result op = []")
  case False
  with a obtain before where r: "replay_exact_set ''exact ripple trim references an unknown track'' d
        (rto_exact_track_result op) = Inr (d', before)"
    and o: "op' = op" "iv = RippleTrim (op\<lparr>rto_exact_track_result := before\<rparr>)" "0 < rt_rate (rto_delta op)"
    by (auto simp: ApplyRippleTrim_def Let_def split: if_splits)
  have "set (map ets_track_id (rto_exact_track_result op)) \<subseteq> set (addressed_tracks d (RippleTrim op))"
    by auto
  from replay_set_record [OF r False v this] o False show ?thesis by (metis that)
next
  case True
  let ?i = "rto_clip_id op"
  let ?trims = "fold push_unique (rto_linked_clip_ids op) [?i]"
  from a True obtain anchor t0 ids0 ids where anchor: "FindClip d ?i = Some anchor"
    and t0: "FindTrackForClip d ?i = Some t0"
    and c0: "loopR (collect_ripple d anchor ?i) ?trims [] = Inr ids0"
    and c1: "loopR (collect_sync ''unknown ripple sync track_id '' d) (rto_sync_track_ids op) ids0 = Inr ids"
    and o: "op' = op\<lparr>rto_exact_track_result := snapshots_each d' ids\<rparr>"
      "iv = RippleTrim (op\<lparr>rto_exact_track_result := snapshots_each d ids\<rparr>)" "0 < rt_rate (rto_delta op)"
    by (auto simp: ApplyRippleTrim_def Let_def split: if_splits option.splits)
  note m0 = collect_ripple_all [OF v c0] and m1 = collect_sync_all [OF c1 v]
  have lives: "\<forall>i\<in>set ?trims. lives_in d (set ids) i"
    using m0(2) m1 lives_in_mono by blast
  have f: "frame (set ids) d d'"
    by (rule ApplyRippleTrim_frame [OF v frame_refl _ _ _ True a])
      (use lives m1 in \<open>auto simp: set_fold_push_unique\<close>)
  have sub: "set ids \<subseteq> set (addressed_tracks d (RippleTrim op))"
    using m0(1) m1 by (auto simp: set_clip_tracks set_fold_push_unique)
  have "lives_in d (set ids) ?i" using lives by (auto simp: set_fold_push_unique)
  from lives_in_record [OF v f sub this] anchor have "edit_record d d' (set (addressed_tracks d (RippleTrim op))) ids"
    by simp
  moreover have "distinct ids" using m0(3) m1 by simp
  ultimately show ?thesis using o by (intro that) auto
qed

end
