(* ===== verification/Edit_Frames_Rest.thy ===== *)
theory Edit_Frames_Rest
  imports Edit_Frames_Ripple
begin

text \<open>
  The tracks that boundary trims, rolls, slips, removals, gaps and detached audio
  change and record.
\<close>

section \<open>Boundary air\<close>

lemma collect_linked_track_step:
  "collect_linked_track d i u = Inr u' \<Longrightarrow> \<exists>k. FindTrackForClip d i = Some k \<and> u' = add_track (trk_id k) u"
  by (auto simp: collect_linked_track_def split: option.splits)

lemma collect_linked_track_all:
  assumes v: "valid d" and l: "loopR (collect_linked_track d) cs a = Inr a'"
  shows "set a \<subseteq> set a'" and "set a' \<subseteq> set a \<union> set (clip_tracks d cs)"
    and "\<forall>i\<in>set cs. lives_in d (set a') i" and "distinct a \<Longrightarrow> distinct a'"
proof -
  have step: "\<exists>k. FindTrackForClip d c = Some k \<and> set u' = insert (trk_id k) (set u)"
    if "c \<in> set cs" "collect_linked_track d c u = Inr u'" for c u u'
    using collect_linked_track_step [OF that(2)] track_of_clip_nonempty [OF v] by (auto simp: set_add_track)
  from loopR_clips_list [where h = "\<lambda>x. x", OF l step]
  show "set a \<subseteq> set a'" and "set a' \<subseteq> set a \<union> set (clip_tracks d cs)"
    and "\<forall>i\<in>set cs. lives_in d (set a') i" by simp_all
  show "distinct a \<Longrightarrow> distinct a'"
    using loopR_invariant [OF l, of distinct] collect_linked_track_step distinct_add_track by metis
qed

definition boundary_clips :: "BoundaryAirTrim \<Rightarrow> Ulid list" where
  "boundary_clips t = bat_clip_id t # bat_linked_clip_ids t"

lemma collect_boundary_step:
  assumes v: "valid d" and "collect_boundary d t (u, s) = Inr (u', s')"
  shows "set u \<subseteq> set u'" and "set u' \<subseteq> set u \<union> set (clip_tracks d (boundary_clips t))"
    and "\<forall>i\<in>set (boundary_clips t). lives_in d (set u') i" and "distinct u \<Longrightarrow> distinct u'"
    and "FindClip d (bat_clip_id t) \<noteq> None"
proof -
  from assms(2) obtain k where k: "FindTrackForClip d (bat_clip_id t) = Some k"
    and l: "loopR (collect_linked_track d) (bat_linked_clip_ids t) (add_track (trk_id k) u) = Inr u'"
    by (auto simp: collect_boundary_def Let_def split: if_splits option.splits)
  note c = collect_linked_track_all [OF v l]
  have add: "set (add_track (trk_id k) u) = insert (trk_id k) (set u)"
    using track_of_clip_nonempty [OF v k] by (simp add: set_add_track)
  have split: "set (clip_tracks d (boundary_clips t)) = insert (trk_id k) (set (clip_tracks d (bat_linked_clip_ids t)))"
    by (simp add: boundary_clips_def clip_tracks_def k)
  show "set u \<subseteq> set u'" and "set u' \<subseteq> set u \<union> set (clip_tracks d (boundary_clips t))"
    using c(1,2) unfolding add split by blast+
  show "\<forall>i\<in>set (boundary_clips t). lives_in d (set u') i"
    using c(1,3) k unfolding add by (simp add: boundary_clips_def lives_in_def)
  show "distinct u \<Longrightarrow> distinct u'" using c(4) by (simp add: distinct_add_track)
  show "FindClip d (bat_clip_id t) \<noteq> None" using k by (simp add: FindClip_None_iff)
qed

lemma collect_boundary_all:
  assumes v: "valid d" and l: "loopR (collect_boundary d) ts ([], []) = Inr (ids, seen)"
  shows "set ids \<subseteq> set (clip_tracks d (concat (map boundary_clips ts)))" (is "_ \<subseteq> ?A")
    and "\<forall>t\<in>set ts. \<forall>i\<in>set (boundary_clips t). lives_in d (set ids) i" and "distinct ids"
proof -
  have sub: "set (clip_tracks d (boundary_clips t)) \<subseteq> ?A" if "t \<in> set ts" for t
    using that unfolding set_clip_tracks by auto
  have step: "set u \<subseteq> set u' \<and> set u' \<subseteq> set u \<union> ?A \<and> (\<forall>i\<in>set (boundary_clips t). lives_in d (set u') i)"
    if "t \<in> set ts" "collect_boundary d t (u, s) = Inr (u', s')" for t u s u' s'
    using collect_boundary_step(1-3) [OF v that(2)] sub [OF that(1)] by blast
  from loopR_lives_pair [where q = "\<lambda>t. set (boundary_clips t)", OF l step]
  show "set ids \<subseteq> ?A" and "\<forall>t\<in>set ts. \<forall>i\<in>set (boundary_clips t). lives_in d (set ids) i" by simp_all
  show "distinct ids"
    using loopR_invariant [OF l, of "\<lambda>s. distinct (fst s)"] collect_boundary_step(4) [OF v] by fastforce
qed

lemma TrimBoundaryAir_effect:
  assumes v: "valid d" and a: "ApplyTrimBoundaryAir d op = Inr (d', op', iv)"
  obtains ids where "edit_record d d' (set (addressed_tracks d (TrimBoundaryAir op))) ids" and "distinct ids"
    and "iv = TrimBoundaryAir (op\<lparr>tba_exact_track_result := snapshots_each d ids\<rparr>)"
    and "op' = op \<and> tba_exact_track_result op \<noteq> [] \<or>
         op' = op\<lparr>tba_exact_track_result := snapshots_each d' ids\<rparr>"
proof (cases "tba_exact_track_result op = []")
  case False
  with a obtain before where r: "replay_exact_set ''exact boundary trim references an unknown track'' d
        (tba_exact_track_result op) = Inr (d', before)"
    and o: "op' = op" "iv = TrimBoundaryAir (op\<lparr>tba_exact_track_result := before\<rparr>)"
    by (auto simp: ApplyTrimBoundaryAir_def Let_def split: if_splits)
  have "set (map ets_track_id (tba_exact_track_result op)) \<subseteq> set (addressed_tracks d (TrimBoundaryAir op))"
    by auto
  from replay_set_record [OF r False v this] o False show ?thesis by (metis that)
next
  case True
  with a obtain ids0 s ids where ne: "tba_trims op \<noteq> []"
    and c0: "loopR (collect_boundary d) (tba_trims op) ([], []) = Inr (ids0, s)"
    and c1: "loopR (collect_sync ''unknown boundary trim sync track_id '' d) (tba_sync_track_ids op) ids0 = Inr ids"
    and l: "loopR (ripple_step (tba_sync_track_ids op)) (tba_trims op) d = Inr d'"
    and o: "op' = op\<lparr>tba_exact_track_result := snapshots_each d' ids\<rparr>"
      "iv = TrimBoundaryAir (op\<lparr>tba_exact_track_result := snapshots_each d ids\<rparr>)"
    by (auto simp: ApplyTrimBoundaryAir_def Let_def split: if_splits)
  note m0 = collect_boundary_all [OF v c0] and m1 = collect_sync_all [OF c1 v]
  have lives: "lives_in d (set ids) i" if "t \<in> set (tba_trims op)" "i \<in> set (boundary_clips t)" for t i
    using m0(2) that m1 lives_in_mono [of d "set ids0" i "set ids"] by blast
  have step: "frame (set ids) d y"
    if t: "t \<in> set (tba_trims op)" and r: "ripple_step (tba_sync_track_ids op) t x = Inr y"
      and f: "frame (set ids) d x" for t x y
  proof -
    from r obtain o1 i1 where "ApplyRippleTrim x \<lparr>rto_clip_id = bat_clip_id t, rto_edge = bat_edge t,
        rto_delta = bat_delta t, rto_linked_clip_ids = bat_linked_clip_ids t,
        rto_sync_track_ids = tba_sync_track_ids op, rto_exact_track_result = []\<rparr> = Inr (y, o1, i1)"
      by (auto simp: ripple_step_def)
    then show ?thesis
      by (rule ApplyRippleTrim_frame [OF v f, rotated 4])
        (use lives [OF t] m1 in \<open>auto simp: boundary_clips_def\<close>)
  qed
  from l have f: "frame (set ids) d d'" by (rule frame_loopR [OF _ frame_refl]) (rule step)
  have "set (concat (map boundary_clips (tba_trims op))) =
      set (concat (map (\<lambda>t. bat_clip_id t # bat_linked_clip_ids t) (tba_trims op)))"
    by (simp add: boundary_clips_def)
  then have sub: "set ids \<subseteq> set (addressed_tracks d (TrimBoundaryAir op))"
    using m0(1) m1 by (auto simp: set_clip_tracks boundary_clips_def)
  let ?t = "hd (tba_trims op)"
  have t: "?t \<in> set (tba_trims op)" using ne by simp
  have "FindClip d (bat_clip_id ?t) \<noteq> None"
    using c0 ne collect_boundary_step(5) [OF v] by (cases "tba_trims op") auto
  moreover have "lives_in d (set ids) (bat_clip_id ?t)" using lives [OF t] by (simp add: boundary_clips_def)
  ultimately have "edit_record d d' (set (addressed_tracks d (TrimBoundaryAir op))) ids"
    using lives_in_record [OF v f sub] by blast
  moreover have "distinct ids" using m0(3) m1 by simp
  ultimately show ?thesis using o by (intro that) auto
qed

section \<open>Roll and slip\<close>

lemma change_times_frame:
  assumes "valid d" and "frame S d x" and "lives_in d S i" and "change_times h i x = Inr y"
  shows "frame S d y"
  using assms by (auto simp: change_times_def split: option.splits intro!: frame_ModifyClip_step)

definition roll_clips :: "RollEditPair \<Rightarrow> Ulid list" where
  "roll_clips p = [rep_left_clip_id p, rep_right_clip_id p]"

lemma collect_roll_step:
  assumes "collect_roll d p (u, s) = Inr (u', s')"
  obtains k k' where "FindTrackForClip d (rep_left_clip_id p) = Some k"
    and "FindTrackForClip d (rep_right_clip_id p) = Some k'" and "trk_id k' = trk_id k"
    and "u' = add_track (trk_id k) u"
  using assms by (auto simp: collect_roll_def Let_def split: option.splits if_splits)

lemma collect_roll_all:
  assumes v: "valid d" and l: "loopR (collect_roll d) ps ([], []) = Inr (ids, seen)"
  shows "set ids \<subseteq> set (clip_tracks d (concat (map roll_clips ps)))" (is "_ \<subseteq> ?A")
    and "\<forall>p\<in>set ps. \<forall>i\<in>set (roll_clips p). lives_in d (set ids) i" and "distinct ids"
proof -
  have step: "set u \<subseteq> set u' \<and> set u' \<subseteq> set u \<union> ?A \<and> (\<forall>i\<in>set (roll_clips p). lives_in d (set u') i)"
    if p: "p \<in> set ps" and c: "collect_roll d p (u, s) = Inr (u', s')" for p u s u' s'
  proof -
    from collect_roll_step [OF c] obtain k k' where k: "FindTrackForClip d (rep_left_clip_id p) = Some k"
      and k': "FindTrackForClip d (rep_right_clip_id p) = Some k'" "trk_id k' = trk_id k"
      and u: "u' = add_track (trk_id k) u" .
    have "trk_id k \<in> ?A"
      by (rule clip_tracks_Some [OF k]) (use p in \<open>auto simp: roll_clips_def\<close>)
    then show ?thesis using k k' u track_of_clip_nonempty [OF v k]
      by (auto simp: set_add_track roll_clips_def lives_in_def)
  qed
  from loopR_lives_pair [where q = "\<lambda>t. set (roll_clips t)", OF l step]
  show "set ids \<subseteq> ?A" and "\<forall>p\<in>set ps. \<forall>i\<in>set (roll_clips p). lives_in d (set ids) i" by simp_all
  have "distinct (fst b)" if "collect_roll d p a = Inr b" "distinct (fst a)" for p a b
    using that collect_roll_step [of d p "fst a" "snd a" "fst b" "snd b"] by (metis distinct_add_track prod.collapse)
  then show "distinct ids" using loopR_invariant [OF l, of "\<lambda>s. distinct (fst s)"] by auto
qed

lemma RollEdit_effect:
  assumes v: "valid d" and a: "ApplyRollEdit d op = Inr (d', op', iv)"
  obtains ids where "edit_record d d' (set (addressed_tracks d (RollEdit op))) ids" and "distinct ids"
    and "0 < rt_rate (reo_delta op)" and "reo_pairs op \<noteq> []"
    and "iv = RollEdit (op\<lparr>reo_exact_track_result := snapshots_each d ids\<rparr>)"
    and "op' = op \<and> reo_exact_track_result op \<noteq> [] \<or>
         op' = op\<lparr>reo_exact_track_result := snapshots_each d' ids\<rparr>"
proof (cases "reo_exact_track_result op = []")
  case False
  with a obtain before where r: "replay_exact_set ''exact roll edit references an unknown track'' d
        (reo_exact_track_result op) = Inr (d', before)"
    and o: "op' = op" "iv = RollEdit (op\<lparr>reo_exact_track_result := before\<rparr>)"
      "0 < rt_rate (reo_delta op)" "reo_pairs op \<noteq> []"
    by (auto simp: ApplyRollEdit_def Let_def split: if_splits)
  have "set (map ets_track_id (reo_exact_track_result op)) \<subseteq> set (addressed_tracks d (RollEdit op))"
    by auto
  from replay_set_record [OF r False v this] o False show ?thesis by (metis that)
next
  case True
  with a obtain ids s where ne: "reo_pairs op \<noteq> []"
    and c: "loopR (collect_roll d) (reo_pairs op) ([], []) = Inr (ids, s)"
    and l: "loopR (roll_pair (reo_delta op)) (reo_pairs op) d = Inr d'"
    and o: "op' = op\<lparr>reo_exact_track_result := snapshots_each d' ids\<rparr>"
      "iv = RollEdit (op\<lparr>reo_exact_track_result := snapshots_each d ids\<rparr>)" "0 < rt_rate (reo_delta op)"
    by (auto simp: ApplyRollEdit_def Let_def split: if_splits)
  note m = collect_roll_all [OF v c]
  have step: "frame (set ids) d y"
    if "p \<in> set (reo_pairs op)" "roll_pair (reo_delta op) p x = Inr y" "frame (set ids) d x" for p x y
  proof -
    from that(2) obtain z where
      "change_times (roll_left (reo_delta op)) (rep_left_clip_id p) x = Inr z"
      "change_times (roll_right (reo_delta op)) (rep_right_clip_id p) z = Inr y"
      by (auto simp: roll_pair_def)
    moreover have "lives_in d (set ids) (rep_left_clip_id p)" "lives_in d (set ids) (rep_right_clip_id p)"
      using m(2) that(1) by (auto simp: roll_clips_def)
    ultimately show ?thesis using change_times_frame [OF v] that(3) by blast
  qed
  from l have f: "frame (set ids) d d'" by (rule frame_loopR [OF _ frame_refl]) (rule step)
  have sub: "set ids \<subseteq> set (addressed_tracks d (RollEdit op))"
  proof -
    have "map roll_clips ps = map (\<lambda>p. [rep_left_clip_id p, rep_right_clip_id p]) ps" for ps
      by (simp add: roll_clips_def)
    with m(1) show ?thesis by auto
  qed
  let ?p = "hd (reo_pairs op)"
  have p: "?p \<in> set (reo_pairs op)" using ne by simp
  have "FindClip d (rep_left_clip_id ?p) \<noteq> None"
    using c ne by (cases "reo_pairs op") (auto simp: FindClip_None_iff elim: collect_roll_step)
  moreover have "lives_in d (set ids) (rep_left_clip_id ?p)" using m(2) p by (auto simp: roll_clips_def)
  ultimately have "edit_record d d' (set (addressed_tracks d (RollEdit op))) ids"
    using lives_in_record [OF v f sub] by blast
  with m(3) o ne show ?thesis by (intro that) auto
qed

lemma collect_slip_step:
  "collect_slip d n i (u, s) = Inr (u', s') \<Longrightarrow> \<exists>k. FindTrackForClip d i = Some k \<and> u' = add_track (trk_id k) u"
  by (cases s) (auto simp: collect_slip_def Let_def split: option.splits if_splits)

lemma slip_clip_frame:
  assumes "valid d" and "frame S d x" and "lives_in d S i" and "slip_clip delta i x = Inr y"
  shows "frame S d y"
  using assms by (auto simp: slip_clip_def split: option.splits intro!: frame_ModifyClip_step)

lemma SlipEdit_effect:
  assumes v: "valid d" and a: "ApplySlipEdit d op = Inr (d', op', iv)"
  obtains ids where "edit_record d d' (set (addressed_tracks d (SlipEdit op))) ids" and "distinct ids"
    and "0 < rt_rate (seo_delta op)" and "seo_clip_ids op \<noteq> []"
    and "iv = SlipEdit (op\<lparr>seo_exact_track_result := snapshots_each d ids\<rparr>)"
    and "op' = op \<and> seo_exact_track_result op \<noteq> [] \<or>
         op' = op\<lparr>seo_exact_track_result := snapshots_each d' ids\<rparr>"
proof (cases "seo_exact_track_result op = []")
  case False
  with a obtain before where r: "replay_exact_set ''exact slip edit references an unknown track'' d
        (seo_exact_track_result op) = Inr (d', before)"
    and o: "op' = op" "iv = SlipEdit (op\<lparr>seo_exact_track_result := before\<rparr>)"
      "0 < rt_rate (seo_delta op)" "seo_clip_ids op \<noteq> []"
    by (auto simp: ApplySlipEdit_def Let_def split: if_splits)
  have "set (map ets_track_id (seo_exact_track_result op)) \<subseteq> set (addressed_tracks d (SlipEdit op))"
    by auto
  from replay_set_record [OF r False v this] o False show ?thesis by (metis that)
next
  case True
  with a obtain ids s where ne: "seo_clip_ids op \<noteq> []"
    and c: "loopR (collect_slip d (length (seo_clip_ids op))) (seo_clip_ids op) ([], [], []) = Inr (ids, s)"
    and l: "loopR (slip_clip (seo_delta op)) (seo_clip_ids op) d = Inr d'"
    and o: "op' = op\<lparr>seo_exact_track_result := snapshots_each d' ids\<rparr>"
      "iv = SlipEdit (op\<lparr>seo_exact_track_result := snapshots_each d ids\<rparr>)" "0 < rt_rate (seo_delta op)"
    by (auto simp: ApplySlipEdit_def Let_def split: if_splits)
  have step: "\<exists>k. FindTrackForClip d i = Some k \<and> set u' = insert (trk_id k) (set u)"
    if "i \<in> set (seo_clip_ids op)" "collect_slip d (length (seo_clip_ids op)) i (u, s) = Inr (u', s')"
    for i u s u' s'
    using collect_slip_step [OF that(2)] track_of_clip_nonempty [OF v] by (auto simp: set_add_track)
  note m = loopR_clips_pair [where h = "\<lambda>x. x", OF c step]
  have "distinct (fst b)" if "collect_slip d n i a = Inr b" "distinct (fst a)" for n i a b
    using that collect_slip_step [of d n i "fst a" "snd a" "fst b" "snd b"]
    by (metis distinct_add_track prod.collapse)
  then have dist: "distinct ids" using loopR_invariant [OF c, of "\<lambda>s. distinct (fst s)"] by auto
  have step: "frame (set ids) d y"
    if "i \<in> set (seo_clip_ids op)" "slip_clip (seo_delta op) i x = Inr y" "frame (set ids) d x" for i x y
  proof -
    have "lives_in d (set ids) i" using m(3) that(1) by simp
    from slip_clip_frame [OF v that(3) this that(2)] show ?thesis .
  qed
  from l have f: "frame (set ids) d d'" by (rule frame_loopR [OF _ frame_refl]) (rule step)
  have "set ids \<subseteq> set (clip_tracks d (seo_clip_ids op))" using m(2) by simp
  then have sub: "set ids \<subseteq> set (addressed_tracks d (SlipEdit op))" by (simp only: addressed_tracks.simps set_append) blast
  have "FindClip d (hd (seo_clip_ids op)) \<noteq> None"
    using c ne by (cases "seo_clip_ids op") (auto simp: FindClip_None_iff dest: collect_slip_step)
  moreover have "lives_in d (set ids) (hd (seo_clip_ids op))" using m(3) ne by simp
  ultimately have "edit_record d d' (set (addressed_tracks d (SlipEdit op))) ids"
    using lives_in_record [OF v f sub] by blast
  with dist o ne show ?thesis by (intro that) auto
qed

end
