(* ===== verification/Edit_Frames_Single.thy ===== *)
theory Edit_Frames_Single
  imports Edit_Frames_Rest
begin

text \<open>
  The tracks that clearing one clip, inserting, removing, splitting and joining clips,
  closing gaps, detaching audio and the settings of one clip change and record.
\<close>

section \<open>Records of a list of distinct tracks\<close>

lemma snapshots_onto_each:
  "distinct ids \<Longrightarrow> set ids \<inter> ets_track_id ` set acc = {} \<Longrightarrow>
   snapshots_onto d ids acc = acc @ snapshots_each d ids"
proof (induction ids arbitrary: acc)
  case Nil
  then show ?case by (simp add: snapshots_each_def)
next
  case (Cons i ids)
  have no: "\<not> list_ex (\<lambda>s. ets_track_id s = i) acc" using Cons.prems(2) by (auto simp: list_ex_iff)
  show ?case
  proof (cases "FindTrack d i")
    case None
    with no Cons show ?thesis by (simp add: snapshots_each_def)
  next
    case (Some t)
    have "snapshots_onto d ids (acc @ [snapshot i t]) = (acc @ [snapshot i t]) @ snapshots_each d ids"
      by (rule Cons.IH) (use Cons.prems in \<open>auto simp: snapshot_def\<close>)
    with no Some show ?thesis by (simp add: snapshots_each_def)
  qed
qed

lemma snapshots_each_distinct: "distinct ids \<Longrightarrow> snapshots_each d ids = snapshots d ids"
  using snapshots_onto_each [of ids "[]" d] by (simp add: snapshots_def)

lemma distinct_fold_push_unique: "distinct ys \<Longrightarrow> distinct (fold push_unique xs ys)"
  by (induction xs arbitrary: ys) auto

section \<open>Clear one clip\<close>

lemma update_first_member: "List.find P xs = Some x \<Longrightarrow> f x \<in> set (update_first P f xs)"
  by (induction xs) (auto split: if_splits)

lemma FindTrack_after_modify:
  assumes "valid d'" and "d' = ModifyTrackForClip i f d" and "FindTrackForClip d i = Some t"
    and "trk_id (f t) = trk_id t"
  shows "FindTrack d' (trk_id t) = Some (f t)"
proof -
  have "f t \<in> set (doc_tracks d')"
    using assms(2,3) update_first_member by (auto simp: ModifyTrackForClip_def FindTrackForClip_def)
  from FindTrack_unique [OF valid_distinct_tracks(1) [OF assms(1)] this] assms(4) show ?thesis by simp
qed

lemma ApplyClear_exact:
  assumes "cco_exact_track_result op = [s]"
  shows "ApplyClear d op =
    bindR (replay_exact_each ''exact clear references an unknown track'' d [s])
      (\<lambda>(d', before). Inr (d', op, ClearClip (op\<lparr>cco_exact_track_result := before\<rparr>)))"
proof (cases "FindTrack d (ets_track_id s)")
  case None
  with assms show ?thesis by (simp add: ApplyClear_def replay_exact_each_def)
next
  case (Some t)
  with assms Some conjunct1 [OF FindTrack_Some [OF Some]] show ?thesis
    by (cases op) (simp add: ApplyClear_def replay_exact_each_def snapshots_each_def restore_tracks_def checked_def
        Let_def bindR_assoc)
qed

lemma Clear_effect:
  assumes v: "valid d" and a: "ApplyClear d op = Inr (d', op', iv)"
  obtains i where "edit_record d d' (set (addressed_tracks d (ClearClip op))) [i]"
    and "iv = ClearClip (op\<lparr>cco_exact_track_result := snapshots_each d [i]\<rparr>)"
    and "op' = op \<and> cco_exact_track_result op \<noteq> [] \<or>
         op' = op\<lparr>cco_exact_track_result := snapshots_each d' [i]\<rparr>"
proof (cases "cco_exact_track_result op")
  case (Cons s rest)
  with a have "rest = []" by (auto simp: ApplyClear_def split: if_splits)
  with Cons have one: "cco_exact_track_result op = [s]" by simp
  with a obtain before where r: "replay_exact_each ''exact clear references an unknown track'' d [s] = Inr (d', before)"
    and o: "op' = op" "iv = ClearClip (op\<lparr>cco_exact_track_result := before\<rparr>)"
    by (auto simp: ApplyClear_exact)
  have "set (map ets_track_id [s]) \<subseteq> set (addressed_tracks d (ClearClip op))" using one by auto
  from replay_each_record [OF r _ this] o one show ?thesis by (intro that [of "ets_track_id s"]) auto
next
  case Nil
  let ?i = "cco_clip_id op"
  from a Nil obtain t where t: "FindTrackForClip d ?i = Some t"
    and d': "d' = ModifyTrackForClip ?i (without_clip ?i) d"
    and o: "op' = op\<lparr>cco_exact_track_result := [snapshot (trk_id t) (without_clip ?i t)]\<rparr>"
      "iv = ClearClip \<lparr>cco_clip_id = ?i, cco_exact_track_result = [snapshot (trk_id t) t]\<rparr>"
    and v': "valid d'"
    by (auto simp: ApplyClear_def Let_def split: option.splits)
  have ft: "FindTrack d (trk_id t) = Some t"
    using FindTrackForClip_Some [OF t] FindTrack_unique [OF valid_distinct_tracks(1) [OF v]] by blast
  have ft': "FindTrack d' (trk_id t) = Some (without_clip ?i t)"
    by (rule FindTrack_after_modify [OF v' d' t]) (simp add: without_clip_def)
  have f: "frame (set [trk_id t]) d d'"
    unfolding d' by (rule frame_ModifyTrackForClip) (auto simp: t without_clip_def)
  have "edit_record d d' (set (addressed_tracks d (ClearClip op))) [trk_id t]"
    by (rule edit_recordI [OF f]) (auto simp: set_clip_tracks t ft)
  then show ?thesis
    by (rule that) (use o ft ft' in \<open>cases op; auto simp: snapshots_each_def\<close>)+
qed

section \<open>Insert, remove and trim\<close>

lemma ApplyExactPositions_frame:
  assumes v: "valid d" and "ApplyExactPositions x ps = Inr y" and "frame S d x"
    and l: "\<forall>p\<in>set ps. lives_in d S (etp_clip_id p)"
  shows "frame S d y"
  using assms(2) [unfolded ApplyExactPositions_def] assms(3)
proof (rule frame_loopR)
  fix p a b
  assume "p \<in> set ps" "ApplyExactPosition p a = Inr b" "frame S d a"
  with l show "frame S d b"
    by (auto simp: ApplyExactPosition_def split: option.splits if_splits intro!: frame_ModifyClip_step [OF v])
qed

lemma position_tracks_lives:
  "set (position_tracks d ps) \<subseteq> S \<longleftrightarrow> (\<forall>p\<in>set ps. lives_in d S (etp_clip_id p))"
  by (auto simp: clip_tracks_unlocked)

lemma Insert_frame:
  assumes v: "valid d" and a: "ApplyInsert g d op = Inr (d', op', iv)"
  shows "frame (set (addressed_tracks d (InsertClip op))) d d'"
proof -
  let ?S = "set (addressed_tracks d (InsertClip op))"
  from a obtain cs d1 where d1: "d1 = ModifyTrack (ico_track_id op) (with_clips (\<lambda>_. cs)) d"
    and ex: "(if ico_exact_timeline_result op \<noteq> [] then ApplyExactPositions d1 (ico_exact_timeline_result op)
              else Inr d1) = Inr d'"
    by (auto simp: ApplyInsert_def Let_def split: option.splits if_splits)
  have f: "frame ?S d d1" unfolding d1 by (rule frame_ModifyTrack) auto
  have "\<forall>p\<in>set (ico_exact_timeline_result op). lives_in d ?S (etp_clip_id p)"
    using position_tracks_lives [of d "ico_exact_timeline_result op" ?S] by auto
  with ex f show ?thesis using ApplyExactPositions_frame [OF v _ f] by (auto split: if_splits)
qed

lemma ApplyRemove_frame:
  assumes v: "valid d" and f: "frame S d x" and l: "lives_in d S (rco_clip_id op)"
    and s: "set (rco_sync_track_ids op) \<subseteq> S"
    and p: "\<forall>p\<in>set (rco_exact_timeline_result op). lives_in d S (etp_clip_id p)"
    and a: "ApplyRemove x op = Inr (x', op', iv)"
  shows "frame S d x'"
proof -
  from a obtain t h b rd x1 x2 where t: "FindTrackForClip x (rco_clip_id op) = Some t"
    and x1: "x1 = ModifyTrackForClip (rco_clip_id op) (with_clips h) x"
    and sh: "loopR (shift_track b rd) (tl (fold push_unique (rco_sync_track_ids op) [trk_id t])) x1 = Inr x2"
    and ex: "(if rco_exact_timeline_result op \<noteq> [] then ApplyExactPositions x2 (rco_exact_timeline_result op)
              else Inr x2) = Inr x'"
    by (auto simp: ApplyRemove_def Let_def split: option.splits if_splits)
  have tS: "trk_id t \<in> S" using lives_in_frame [OF v f l] t by (simp add: lives_in_def)
  have f1: "frame S d x1" unfolding x1 by (rule frame_ModifyTrackForClip_step [OF v f l]) simp
  have tl: "set (tl xs) \<subseteq> set xs" for xs :: "Ulid list" by (cases xs) auto
  have "set (fold push_unique (rco_sync_track_ids op) [trk_id t]) \<subseteq> S"
    unfolding set_fold_push_unique using s tS by simp
  with tl have sub: "i \<in> S" if "i \<in> set (tl (fold push_unique (rco_sync_track_ids op) [trk_id t]))" for i
    using that by (meson subsetD)
  from sh f1 have f2: "frame S d x2"
    by (rule frame_loopR) (rule shift_track_frame, assumption, erule sub, assumption)
  show ?thesis
  proof (cases "rco_exact_timeline_result op = []")
    case True
    with ex f2 show ?thesis by simp
  next
    case False
    with ex have "ApplyExactPositions x2 (rco_exact_timeline_result op) = Inr x'" by simp
    from ApplyExactPositions_frame [OF v this f2 p] show ?thesis .
  qed
qed

lemma Remove_frame:
  assumes v: "valid d" and a: "ApplyRemove d op = Inr (d', op', iv)"
  shows "frame (set (addressed_tracks d (RemoveClip op))) d d'"
proof (rule ApplyRemove_frame [OF v frame_refl _ _ _ a])
  let ?S = "set (addressed_tracks d (RemoveClip op))"
  show "lives_in d ?S (rco_clip_id op)" by (auto simp: lives_in_def set_clip_tracks)
  show "set (rco_sync_track_ids op) \<subseteq> ?S" by auto
  show "\<forall>p\<in>set (rco_exact_timeline_result op). lives_in d ?S (etp_clip_id p)"
    using position_tracks_lives [of d "rco_exact_timeline_result op" ?S] by auto
qed

lemma Trim_frame:
  assumes v: "valid d" and a: "ApplyTrim d op = Inr (d', op', iv)"
  shows "frame (set (addressed_tracks d (TrimClip op))) d d'"
proof -
  from ApplyTrim_shape [OF a] obtain x where d': "d' = ModifyClip (tco_clip_id op) (set_times x) d" by metis
  show ?thesis
    unfolding d' by (rule frame_ModifyClip_step [OF v frame_refl]) (auto simp: lives_in_def set_clip_tracks)
qed

lemma Remove_effect:
  assumes v: "valid d" and a: "ApplyRemove d op = Inr (d', op', iv)" and e: "rco_exact_timeline_result op = []"
  obtains ids positions where "edit_record d d' (set (addressed_tracks d (RemoveClip op))) ids"
    and "iv = ClearClips \<lparr>ccs_clip_ids = [rco_clip_id op], ccs_exact_track_result = snapshots d ids\<rparr>"
    and "op' = op\<lparr>rco_exact_timeline_result := CurrentPositionsFor d' positions\<rparr>"
proof -
  from a e obtain t before where t: "FindTrackForClip d (rco_clip_id op) = Some t"
    and iv: "iv = ClearClips \<lparr>ccs_clip_ids = [rco_clip_id op], ccs_exact_track_result =
        snapshots_each d (fold push_unique (rco_sync_track_ids op) [trk_id t])\<rparr>"
    and op': "op' = op\<lparr>rco_exact_timeline_result := CurrentPositionsFor d' before\<rparr>"
    by (auto simp: ApplyRemove_def Let_def split: option.splits if_splits)
  let ?ids = "fold push_unique (rco_sync_track_ids op) [trk_id t]"
  have ids: "set ?ids = insert (trk_id t) (set (rco_sync_track_ids op))"
    by (simp add: set_fold_push_unique)
  have f: "frame (set ?ids) d d'"
    by (rule ApplyRemove_frame [OF v frame_refl _ _ _ a]) (auto simp: e ids lives_in_def t)
  have "edit_record d d' (set (addressed_tracks d (RemoveClip op))) ?ids"
    by (rule edit_recordI [OF f, where i = "trk_id t"])
      (use ids FindTrack_of_clip [OF t] in \<open>auto simp: set_clip_tracks t\<close>)
  moreover have "distinct ?ids" by (rule distinct_fold_push_unique) simp
  ultimately show ?thesis using iv op' snapshots_each_distinct by (intro that) auto
qed

end
