(* ===== verification/Clip_Undo.thy ===== *)
theory Clip_Undo
  imports Edit_Frames_Single
begin

text \<open>
  Undo and redo of the operations that write the settings of clips, and of the split
  of a clip.
\<close>

section \<open>Writing one clip\<close>

definition map_clips :: "(DocumentClip \<Rightarrow> DocumentClip) \<Rightarrow> Document \<Rightarrow> Document" where
  "map_clips f = with_tracks (map (with_clips (map f)))"

lemma map_clips_map_clips: "map_clips f (map_clips h d) = map_clips (\<lambda>c. f (h c)) d"
  by (simp add: map_clips_def comp_def with_clips_def)

lemma map_clips_same:
  assumes "\<And>t c. t \<in> set (doc_tracks d) \<Longrightarrow> c \<in> set (trk_clips t) \<Longrightarrow> f c = c"
  shows "map_clips f d = d"
proof -
  have "with_clips (map f) t = t" if "t \<in> set (doc_tracks d)" for t
    using assms [OF that] by (simp add: with_clips_def map_idI)
  then show ?thesis unfolding map_clips_def by (intro with_tracks_same) (simp add: map_idI)
qed

lemma map_clips_track_ids [simp]: "map trk_id (doc_tracks (map_clips f d)) = map trk_id (doc_tracks d)"
  by (simp add: map_clips_def)

lemma map_clips_clip_ids:
  "(\<And>c. clip_id (f c) = clip_id c) \<Longrightarrow> all_clip_ids (map_clips f d) = all_clip_ids d"
  by (simp add: map_clips_def comp_def)

lemma find_map: "List.find P (map f xs) = map_option f (List.find (\<lambda>x. P (f x)) xs)"
  by (induction xs) auto

lemma FindTrackForClip_map_clips:
  "(\<And>c. clip_id (f c) = clip_id c) \<Longrightarrow>
   FindTrackForClip (map_clips f d) i = map_option (with_clips (map f)) (FindTrackForClip d i)"
proof -
  assume f: "\<And>c. clip_id (f c) = clip_id c"
  have "has_clip i (with_clips (map f) t) = has_clip i t" for t
    by (simp add: has_clip_def list_ex_iff f)
  then show ?thesis by (simp add: FindTrackForClip_def map_clips_def find_map)
qed

lemma FindClip_map_clips:
  "(\<And>c. clip_id (f c) = clip_id c) \<Longrightarrow> FindClip (map_clips f d) i = map_option f (FindClip d i)"
proof -
  assume f: "\<And>c. clip_id (f c) = clip_id c"
  have "concat (map trk_clips (map (with_clips (map f)) ts)) = map f (concat (map trk_clips ts))" for ts
    by (induction ts) auto
  then show ?thesis by (simp add: FindClip_def map_clips_def find_map f)
qed

text \<open>On a document with distinct clip identifiers, \<open>ModifyClip\<close> is such a map.\<close>

lemma ModifyClip_map:
  assumes "distinct (all_clip_ids d)"
  shows "ModifyClip i f d = map_clips (\<lambda>c. if clip_id c = i then f c else c) d"
proof -
  let ?h = "\<lambda>c. if clip_id c = i then f c else c"
  have one: "update_first (has_clip i) (with_clips (update_first (\<lambda>c. clip_id c = i) f)) ts = map (with_clips (map ?h)) ts"
    if "distinct (concat (map (\<lambda>t. map clip_id (trk_clips t)) ts))" for ts
    using that
  proof (induction ts)
    case Nil
    then show ?case by simp
  next
    case (Cons t ts)
    have upd: "with_clips (update_first (\<lambda>c. clip_id c = i) f) t = with_clips (map ?h) t"
      using Cons.prems by (simp add: with_clips_def update_first_by_id)
    show ?case
    proof (cases "has_clip i t")
      case True
      have "with_clips (map ?h) s = s" if "s \<in> set ts" for s
      proof -
        have "clip_id c \<noteq> i" if "c \<in> set (trk_clips s)" for c
          using True Cons.prems that \<open>s \<in> set ts\<close> by (force simp: has_clip_iff)
        then show ?thesis by (simp add: with_clips_def map_idI)
      qed
      then have "map (with_clips (map ?h)) ts = ts" by (simp add: map_idI)
      with True upd show ?thesis by simp
    next
      case False
      then have "with_clips (map ?h) t = t"
        by (auto simp: has_clip_iff with_clips_def intro!: map_idI DocumentTrack.equality)
      with False Cons show ?thesis by simp
    qed
  qed
  from one [of "doc_tracks d"] assms show ?thesis
    by (simp add: ModifyClip_def ModifyTrackForClip_def map_clips_def with_tracks_def)
qed

lemma FindClip_only:
  assumes "distinct (all_clip_ids d)" and "FindClip d i = Some c"
    and "t \<in> set (doc_tracks d)" and "c' \<in> set (trk_clips t)" and "clip_id c' = i"
  shows "c' = c"
proof -
  have "List.find (\<lambda>c. clip_id c = clip_id c') (concat (map trk_clips (doc_tracks d))) = Some c'"
    by (rule find_unique) (use assms(1,3,4) in \<open>auto simp: map_concat comp_def\<close>)
  with assms(2,5) show ?thesis by (simp add: FindClip_def)
qed

lemma ModifyClip_back:
  assumes v: "valid d" and c: "FindClip d i = Some c" and f: "\<And>c. clip_id (f c) = clip_id c"
    and h: "\<And>c. clip_id (h c) = clip_id c" and b: "h (f c) = c"
  shows "ModifyClip i h (ModifyClip i f d) = d"
proof -
  note dist = valid_distinct_tracks(2) [OF v]
  let ?f = "\<lambda>c. if clip_id c = i then f c else c" and ?h = "\<lambda>c. if clip_id c = i then h c else c"
  have d1: "ModifyClip i f d = map_clips ?f d" by (rule ModifyClip_map [OF dist])
  have "ModifyClip i h (map_clips ?f d) = map_clips ?h (map_clips ?f d)"
    by (rule ModifyClip_map) (simp add: map_clips_clip_ids f dist)
  also have "\<dots> = map_clips (\<lambda>c. ?h (?f c)) d" by (rule map_clips_map_clips)
  also have "\<dots> = d"
    by (rule map_clips_same) (use FindClip_only [OF dist c] b f in auto)
  finally show ?thesis by (simp add: d1)
qed

lemma FindClip_ModifyClip:
  assumes "valid d" and f: "\<And>c. clip_id (f c) = clip_id c"
  shows "FindClip (ModifyClip i f d) j = (if j = i then map_option f (FindClip d i) else FindClip d j)"
proof -
  have "FindClip (ModifyClip i f d) j = map_option (\<lambda>c. if clip_id c = i then f c else c) (FindClip d j)"
    by (simp add: ModifyClip_map [OF valid_distinct_tracks(2) [OF assms(1)]] FindClip_map_clips f)
  moreover have "clip_id c = k" if "FindClip d k = Some c" for k c
    using FindClip_Some [OF that] by blast
  ultimately show ?thesis by (cases "FindClip d j") auto
qed

lemma kind_ModifyClip:
  assumes "valid d" and f: "\<And>c. clip_id (f c) = clip_id c"
  shows "map_option trk_kind (FindTrackForClip (ModifyClip i f d) j) = map_option trk_kind (FindTrackForClip d j)"
    and "map_option trk_id (FindTrackForClip (ModifyClip i f d) j) = map_option trk_id (FindTrackForClip d j)"
  by (auto simp: ModifyClip_map [OF valid_distinct_tracks(2) [OF assms(1)]] FindTrackForClip_map_clips f
      option.map_comp comp_def)

section \<open>Settings of one clip\<close>

lemma undo_SetClipOpacity:
  assumes v: "valid d" and a: "ApplySetClipOpacity d op = Inr (d', op', iv)"
  shows "\<exists>r x. iv = SetClipOpacity r \<and> sop_clip_id r = sop_clip_id op \<and> ApplySetClipOpacity d' r = Inr (d, r, x)"
    and "op' = op"
proof -
  let ?i = "sop_clip_id op"
  let ?f = "\<lambda>c :: DocumentClip. c\<lparr>clip_opacity := sop_opacity op\<rparr>"
  from a obtain c t where c: "FindClip d ?i = Some c" and t: "FindTrackForClip d ?i = Some t" "trk_kind t = ''video''"
    and d': "d' = ModifyClip ?i ?f d" and o: "op' = op"
      "iv = SetClipOpacity \<lparr>sop_clip_id = clip_id c, sop_opacity = clip_opacity c\<rparr>"
    by (auto simp: ApplySetClipOpacity_def Let_def split: option.splits if_splits)
  have ci: "clip_id c = ?i" using FindClip_Some [OF c] by blast
  have "FindClip d' ?i = Some (?f c)" by (simp add: d' FindClip_ModifyClip [OF v] c)
  moreover have "map_option trk_kind (FindTrackForClip d' ?i) = Some ''video''"
    by (simp add: d' kind_ModifyClip [OF v] t)
  moreover have "ModifyClip ?i (\<lambda>x. x\<lparr>clip_opacity := clip_opacity c\<rparr>) d' = d"
    unfolding d' by (rule ModifyClip_back [OF v c]) simp_all
  ultimately show "\<exists>r x. iv = SetClipOpacity r \<and> sop_clip_id r = ?i \<and> ApplySetClipOpacity d' r = Inr (d, r, x)"
    using v by (auto simp: o ci ApplySetClipOpacity_def Let_def)
  show "op' = op" by (rule o)
qed

lemma undo_SetClipAudio:
  assumes v: "valid d" and a: "ApplySetClipAudio d op = Inr (d', op', iv)"
  shows "\<exists>r x. iv = SetClipAudio r \<and> sao_clip_id r = sao_clip_id op \<and> ApplySetClipAudio d' r = Inr (d, r, x)"
    and "op' = op"
proof -
  let ?i = "sao_clip_id op"
  let ?w = "\<lambda>gain fi fo c :: DocumentClip.
    c\<lparr>clip_audio_gain_db := gain, clip_audio_fade_in := fi, clip_audio_fade_out := fo\<rparr>"
  let ?f = "?w (sao_gain_db op) (sao_fade_in op) (sao_fade_out op)"
  from a obtain c t where c: "FindClip d ?i = Some c" and t: "FindTrackForClip d ?i = Some t" "trk_kind t = ''audio''"
    and d': "d' = ModifyClip ?i ?f d" and o: "op' = op"
      "iv = SetClipAudio \<lparr>sao_clip_id = clip_id c, sao_gain_db = clip_audio_gain_db c,
               sao_fade_in = clip_audio_fade_in c, sao_fade_out = clip_audio_fade_out c\<rparr>"
    by (auto simp: ApplySetClipAudio_def Let_def split: option.splits if_splits)
  have ci: "clip_id c = ?i" using FindClip_Some [OF c] by blast
  have "FindClip d' ?i = Some (?f c)" by (simp add: d' FindClip_ModifyClip [OF v] c)
  moreover have "map_option trk_kind (FindTrackForClip d' ?i) = Some ''audio''"
    by (simp add: d' kind_ModifyClip [OF v] t)
  moreover have "ModifyClip ?i (?w (clip_audio_gain_db c) (clip_audio_fade_in c) (clip_audio_fade_out c)) d' = d"
    unfolding d' by (rule ModifyClip_back [OF v c]) simp_all
  ultimately show "\<exists>r x. iv = SetClipAudio r \<and> sao_clip_id r = ?i \<and> ApplySetClipAudio d' r = Inr (d, r, x)"
    using v by (auto simp: o ci ApplySetClipAudio_def Let_def)
  show "op' = op" by (rule o)
qed

lemma undo_SetClipCaption:
  assumes v: "valid d" and a: "ApplySetClipCaption d op = Inr (d', op', iv)"
  shows "\<exists>r x. iv = SetClipCaption r \<and> scc_clip_id r = scc_clip_id op \<and> ApplySetClipCaption d' r = Inr (d, r, x)"
    and "op' = op"
proof -
  let ?i = "scc_clip_id op"
  let ?w = "\<lambda>grp txt c :: DocumentClip. c\<lparr>clip_caption_group_id := grp, clip_caption_text := txt\<rparr>"
  let ?f = "?w (scc_caption_group_id op) (scc_caption_text op)"
  from a obtain c where c: "FindClip d ?i = Some c"
    and d': "d' = ModifyClip ?i ?f d" and o: "op' = op"
      "iv = SetClipCaption \<lparr>scc_clip_id = clip_id c, scc_caption_group_id = clip_caption_group_id c,
               scc_caption_text = clip_caption_text c\<rparr>"
    by (auto simp: ApplySetClipCaption_def Let_def split: option.splits if_splits)
  have ci: "clip_id c = ?i" using FindClip_Some [OF c] by blast
  have "FindClip d' ?i = Some (?f c)" by (simp add: d' FindClip_ModifyClip [OF v] c)
  moreover have "ModifyClip ?i (?w (clip_caption_group_id c) (clip_caption_text c)) d' = d"
    unfolding d' by (rule ModifyClip_back [OF v c]) simp_all
  ultimately show "\<exists>r x. iv = SetClipCaption r \<and> scc_clip_id r = ?i \<and> ApplySetClipCaption d' r = Inr (d, r, x)"
    using v by (auto simp: o ci ApplySetClipCaption_def Let_def)
  show "op' = op" by (rule o)
qed

lemma fill_effect_ids_same: "\<forall>e\<in>set es. fx_id e \<noteq> [] \<Longrightarrow> fill_effect_ids g es = es"
  by (induction es arbitrary: g) auto

lemma valid_effect_ids:
  assumes "valid d" and "FindClip d i = Some c" and "e \<in> set (clip_effects c)"
  shows "fx_id e \<noteq> []"
proof -
  from FindClip_Some [OF assms(2)] obtain t where t: "FindTrackForClip d i = Some t" "c \<in> set (trk_clips t)"
    by blast
  have "fx_id e \<in> set (clip_ids_of c)" using assms(3) by (simp add: clip_ids_of_def)
  then have "fx_id e \<in> set (track_ids_of t)" using t(2) by (auto simp: track_ids_of_def)
  moreover have "t \<in> set (doc_tracks d)" using FindTrackForClip_Some [OF t(1)] by blast
  ultimately have "fx_id e \<in> set (document_ids d)" by (auto simp: document_ids_def Let_def)
  with valid_registers(2) [OF assms(1)] have "IsValidUlid (fx_id e)" by (simp add: list_all_iff)
  then show ?thesis by (rule IsValidUlid_nonempty)
qed

lemma undo_SetClipEffects:
  assumes v: "valid d" and a: "ApplySetClipEffects g d op = Inr (d', op', iv)" and v': "valid d'"
  shows "\<exists>r x. iv = SetClipEffects r \<and> sfx_clip_id r = sfx_clip_id op \<and> ApplySetClipEffects g' d' r = Inr (d, r, x)"
    and "\<exists>x. ApplySetClipEffects g' d op' = Inr (d', op', x)" and "sfx_clip_id op' = sfx_clip_id op"
proof -
  let ?i = "sfx_clip_id op"
  let ?w = "\<lambda>es c :: DocumentClip. c\<lparr>clip_effects := es\<rparr>"
  from a obtain c where c: "FindClip d ?i = Some c"
    and d': "d' = ModifyClip ?i (?w (sfx_effects op')) d"
    and o: "op' = op\<lparr>sfx_effects := fill_effect_ids g (sfx_effects op)\<rparr>"
      "iv = SetClipEffects \<lparr>sfx_clip_id = clip_id c, sfx_effects = clip_effects c\<rparr>"
    by (auto simp: ApplySetClipEffects_def Let_def split: option.splits)
  have ci: "clip_id c = ?i" using FindClip_Some [OF c] by blast
  have fc: "FindClip d' ?i = Some (?w (sfx_effects op') c)"
    by (simp add: d' FindClip_ModifyClip [OF v] c)
  have undone: "ModifyClip ?i (?w (clip_effects c)) d' = d"
    unfolding d' by (rule ModifyClip_back [OF v c]) simp_all
  have "fill_effect_ids g' (clip_effects c) = clip_effects c"
    by (rule fill_effect_ids_same) (use valid_effect_ids [OF v c] in blast)
  with fc undone v show "\<exists>r x. iv = SetClipEffects r \<and> sfx_clip_id r = ?i \<and> ApplySetClipEffects g' d' r = Inr (d, r, x)"
    by (auto simp: o ci ApplySetClipEffects_def Let_def)
  have "fill_effect_ids g' (sfx_effects op') = sfx_effects op'"
    by (rule fill_effect_ids_same) (use valid_effect_ids [OF v' fc] in simp)
  with c d' v' show "\<exists>x. ApplySetClipEffects g' d op' = Inr (d', op', x)"
    by (auto simp: o(1) ApplySetClipEffects_def Let_def)
  show "sfx_clip_id op' = ?i" by (simp add: o)
qed

section \<open>Links\<close>

lemma undo_SetClipLink:
  assumes v: "valid d" and a: "ApplySetClipLink d op = Inr (d', op', iv)" and v': "valid d'"
  shows "\<exists>r x. iv = SetClipLink r \<and> slk_first_clip_id r = slk_first_clip_id op \<and>
           slk_second_clip_id r = slk_second_clip_id op \<and> ApplySetClipLink d' r = Inr (d, r, x)"
    and "\<exists>x. ApplySetClipLink d op' = Inr (d', op', x)"
    and "slk_first_clip_id op' = slk_first_clip_id op" and "slk_second_clip_id op' = slk_second_clip_id op"
proof -
  let ?i = "slk_first_clip_id op" and ?j = "slk_second_clip_id op"
  from a obtain first second x y where
    f: "FindClip d ?i = Some first" "FindClip d ?j = Some second" and ne: "?i \<noteq> ?j"
    and groups: "slk_first_group_id op = [] \<or> IsValidUlid (slk_first_group_id op)"
      "slk_second_group_id op = [] \<or> IsValidUlid (slk_second_group_id op)"
    and d': "d' = ModifyClip ?j (set_link y) (ModifyClip ?i (set_link x) d)"
    and o: "op' = op\<lparr>slk_exact_first_result := Some x, slk_exact_second_result := Some y\<rparr>"
    and iv: "iv = SetClipLink \<lparr>slk_first_clip_id = clip_id first, slk_second_clip_id = clip_id second,
                 slk_first_group_id = clip_link_group_id first,
                 slk_second_group_id = clip_link_group_id second,
                 slk_exact_first_result = Some (link_state first),
                 slk_exact_second_result = Some (link_state second)\<rparr>"
    by (auto simp: ApplySetClipLink_def Let_def split: option.splits if_splits)
  have ids: "clip_id first = ?i" "clip_id second = ?j" using f by (auto elim: FindClip_Some)
  note dist = valid_distinct_tracks(2) [OF v]
  let ?w = "\<lambda>k s c. if clip_id c = k then set_link s c else c"
  have set_link_id: "clip_id (set_link s c) = clip_id c" for s c by (simp add: set_link_def)
  have md: "ModifyClip k (set_link s) (map_clips h d) = map_clips (\<lambda>c. ?w k s (h c)) d"
    if "\<And>c. clip_id (h c) = clip_id c" for k s h
    using ModifyClip_map [of "map_clips h d" k "set_link s"] dist
    by (simp add: map_clips_clip_ids that map_clips_map_clips)
  have d1: "ModifyClip ?i (set_link x) d = map_clips (?w ?i x) d" by (rule ModifyClip_map [OF dist])
  have d2: "d' = map_clips (\<lambda>c. ?w ?j y (?w ?i x c)) d"
    unfolding d' d1 by (rule md) (simp add: set_link_id)
  have undone: "ModifyClip ?j (set_link (link_state second)) (ModifyClip ?i (set_link (link_state first)) d') = d"
  proof -
    have "ModifyClip ?j (set_link (link_state second)) (ModifyClip ?i (set_link (link_state first)) d') =
        map_clips (\<lambda>c. ?w ?j (link_state second) (?w ?i (link_state first) (?w ?j y (?w ?i x c)))) d"
      unfolding d2 by (subst md, simp add: set_link_id)+ (rule refl)
    also have "\<dots> = d"
      by (rule map_clips_same)
        (use FindClip_only [OF dist f(1)] FindClip_only [OF dist f(2)] ne in
          \<open>auto simp: set_link_def link_state_def\<close>)
    finally show ?thesis .
  qed
  have found: "FindClip d' k = map_option (\<lambda>c. ?w ?j y (?w ?i x c)) (FindClip d k)" for k
    unfolding d2 by (rule FindClip_map_clips) (simp add: set_link_id)
  have grp: "clip_link_group_id c = [] \<or> IsValidUlid (clip_link_group_id c)" if "FindClip d k = Some c" for k c
    using that by (elim FindClip_Some) (use valid_track(3) [OF v] FindTrackForClip_Some in blast)
  show "\<exists>r x. iv = SetClipLink r \<and> slk_first_clip_id r = ?i \<and> slk_second_clip_id r = ?j \<and>
      ApplySetClipLink d' r = Inr (d, r, x)"
    using found [of ?i] found [of ?j] f ne undone v grp [OF f(1)] grp [OF f(2)]
    by (auto simp: iv ids ApplySetClipLink_def new_link_states_def Let_def set_link_id)
  show "\<exists>x. ApplySetClipLink d op' = Inr (d', op', x)"
    using f ne groups v' d' by (auto simp: o ApplySetClipLink_def new_link_states_def Let_def)
qed (use a in \<open>auto simp: ApplySetClipLink_def Let_def split: option.splits if_splits\<close>)

end
