(* ===== verification/Split_Undo.thy ===== *)
theory Split_Undo
  imports Clip_Undo
begin

text \<open>A split is undone by the join it records, and redone from its enriched form.\<close>

section \<open>Rewriting the track of one clip\<close>

lemma valid_adjacent:
  assumes "valid d" and "t \<in> set (doc_tracks d)" and "trk_clips t = pre @ p # c # post"
  shows "\<exists>e. rt_add (clip_timeline_in p) (clip_duration p) = Inr e"
proof -
  from assms(1,2) obtain sources tc ids b where
    "iterR (validate_clip d sources t tc) 0 (pre @ p # c # post) (ids, None) = Inr b"
    using valid_track_walk assms(3) by metis
  then obtain s m m2 i where p: "validate_clip d sources t tc i p s = Inr m"
    and c: "validate_clip d sources t tc (Suc i) c m = Inr m2"
    by (auto simp: iterR_append)
  from p have "snd m = Some p" using validate_clip_facts(1) by (cases s) blast
  with c show ?thesis using validate_clip_facts(4) by (cases m) auto
qed

lemma ModifyTrackForClip_back:
  assumes t: "FindTrackForClip d i = Some t" and "i \<in> clip_id ` set xs"
  shows "ModifyTrackForClip i (with_clips (\<lambda>_. trk_clips t)) (ModifyTrackForClip i (with_clips (\<lambda>_. xs)) d) = d"
proof -
  have twice: "with_clips (\<lambda>_. a) (with_clips (\<lambda>_. b) s) = with_clips (\<lambda>_. a) s" for a b s
    by (simp add: with_clips_def)
  have "has_clip i (with_clips (\<lambda>_. xs) s)" for s using assms(2) by (simp add: has_clip_iff)
  then have "ModifyTrackForClip i (with_clips (\<lambda>_. trk_clips t)) (ModifyTrackForClip i (with_clips (\<lambda>_. xs)) d) =
      with_tracks (update_first (has_clip i) (with_clips (\<lambda>_. trk_clips t))) d"
    by (simp add: ModifyTrackForClip_def update_first_update_first twice)
  also have "\<dots> = d"
    by (rule with_tracks_same, rule update_first_id)
      (use t in \<open>auto simp: FindTrackForClip_def with_clips_def\<close>)
  finally show ?thesis .
qed

lemma FindTrackForClip_after:
  assumes t: "FindTrackForClip d i = Some t" and "i \<in> clip_id ` set xs"
  shows "FindTrackForClip (ModifyTrackForClip i (with_clips (\<lambda>_. xs)) d) i = Some (with_clips (\<lambda>_. xs) t)"
proof -
  have "has_clip i (with_clips (\<lambda>_. xs) s)" for s using assms(2) by (simp add: has_clip_iff)
  with t show ?thesis by (simp add: FindTrackForClip_def ModifyTrackForClip_def find_update_first)
qed

lemma index_of_middle:
  "\<forall>x\<in>set pre. \<not> P x \<Longrightarrow> P x \<Longrightarrow> index_of P (pre @ x # post) = length pre"
  by (induction pre) auto

lemma split_at_index:
  assumes "FindTrackForClip d i = Some t"
  obtains pre c post where "trk_clips t = pre @ c # post" and "clip_id c = i"
    and "\<forall>x\<in>set pre. clip_id x \<noteq> i" and "index_of (\<lambda>c. clip_id c = i) (trk_clips t) = length pre"
proof -
  let ?P = "\<lambda>c. clip_id c = i"
  from FindTrackForClip_Some [OF assms] have "\<exists>c\<in>set (trk_clips t). ?P c"
    by (auto simp: has_clip_def list_ex_iff)
  then obtain pre c post where s: "trk_clips t = pre @ c # post" "?P c" "\<forall>x\<in>set pre. \<not> ?P x"
    by (rule split_list_first_propE)
  with index_of_middle [of pre ?P c post] show ?thesis by (intro that) auto
qed

section \<open>Split\<close>

lemma ApplySplit_cases:
  assumes "ApplySplit g d op = Inr (d', op', iv, g')"
  obtains t pre c post dur si du effects right where
    "FindTrackForClip d (sco_clip_id op) = Some t" and "trk_clips t = pre @ c # post"
    and "clip_id c = sco_clip_id op" and "\<forall>x\<in>set pre. clip_id x \<noteq> sco_clip_id op"
    and "rt_sub (sco_timeline_position op) (clip_timeline_in c) = Inr dur"
    and "rt_add (clip_source_in c) dur = Inr si" and "rt_sub (clip_duration c) dur = Inr du"
    and "right = c\<lparr>clip_id := sco_right_clip_id op', clip_source_in := si, clip_duration := du,
           clip_timeline_in := sco_timeline_position op, clip_audio_fade_in := RT 0 1,
           clip_effects := effects\<rparr>"
    and "d' = ModifyTrackForClip (sco_clip_id op)
               (with_clips (\<lambda>_. pre @ split_left dur c # right # post)) d"
    and "valid d'"
    and "iv = JoinClip \<lparr>jco_left_clip_id = sco_clip_id op, jco_right_clip_id = sco_right_clip_id op',
                         jco_joined_times = TimesOf c\<rparr>"
    and "sco_clip_id op' = sco_clip_id op" and "sco_timeline_position op' = sco_timeline_position op"
    and "0 < rt_rate (sco_timeline_position op)"
proof -
  let ?i = "sco_clip_id op"
  from assms obtain t where t: "FindTrackForClip d ?i = Some t"
    by (auto simp: ApplySplit_def Let_def split: option.splits)
  obtain pre c post where s: "trk_clips t = pre @ c # post" "clip_id c = ?i"
      "\<forall>x\<in>set pre. clip_id x \<noteq> ?i" "index_of (\<lambda>c. clip_id c = ?i) (trk_clips t) = length pre"
    by (rule split_at_index [OF t])
  from assms s show ?thesis
    unfolding ApplySplit_def
    by (auto simp: Let_def t that [OF t s(1-3)] split: if_splits option.splits prod.splits)
qed


lemma IsValidUlid_Nil: "\<not> IsValidUlid []"
  using IsValidUlid_nonempty by blast

lemma redo_Split:
  assumes "ApplySplit g d op = Inr (d', op', iv, g1)"
  shows "\<exists>y. ApplySplit g' d op' = Inr (d', op', iv, y)"
  using assms unfolding ApplySplit_def
  by (auto simp: Let_def IsValidUlid_Nil bindR_Inr_iff split: if_splits option.splits prod.splits)

lemma undo_Split:
  assumes v: "valid d" and a: "ApplySplit g d op = Inr (d', op', iv, g1)"
  shows "\<exists>j x. iv = JoinClip j \<and> ApplyJoin d' j = Inr (d, j, x) \<and>
           set (clip_tracks d' [jco_left_clip_id j, jco_right_clip_id j]) \<subseteq> set (clip_tracks d [sco_clip_id op])"
proof -
  let ?i = "sco_clip_id op" and ?r = "sco_right_clip_id op'" and ?pos = "sco_timeline_position op"
  from a obtain t pre c post dur si du effects right where
    t: "FindTrackForClip d ?i = Some t" and s: "trk_clips t = pre @ c # post"
    and c: "clip_id c = ?i" "\<forall>x\<in>set pre. clip_id x \<noteq> ?i"
    and dur: "rt_sub ?pos (clip_timeline_in c) = Inr dur" and si: "rt_add (clip_source_in c) dur = Inr si"
    and right: "right = c\<lparr>clip_id := ?r, clip_source_in := si, clip_duration := du,
           clip_timeline_in := ?pos, clip_audio_fade_in := RT 0 1, clip_effects := effects\<rparr>"
    and d': "d' = ModifyTrackForClip ?i (with_clips (\<lambda>_. pre @ split_left dur c # right # post)) d"
    and v': "valid d'" and pos: "0 < rt_rate ?pos"
    and iv: "iv = JoinClip \<lparr>jco_left_clip_id = ?i, jco_right_clip_id = ?r, jco_joined_times = TimesOf c\<rparr>"
    by (rule ApplySplit_cases)
  let ?left = "split_left dur c"
  let ?cs = "pre @ ?left # right # post"
  let ?j = "\<lparr>jco_left_clip_id = ?i, jco_right_clip_id = ?r, jco_joined_times = TimesOf c\<rparr>"
  have li: "clip_id ?left = ?i" by (simp add: split_left_def c)
  have in_cs: "?i \<in> clip_id ` set ?cs" using li by force
  have t': "FindTrackForClip d' ?i = Some (with_clips (\<lambda>_. ?cs) t)"
    unfolding d' by (rule FindTrackForClip_after [OF t in_cs])
  have mem: "with_clips (\<lambda>_. ?cs) t \<in> set (doc_tracks d')" using FindTrackForClip_Some [OF t'] by blast
  have idx: "index_of (\<lambda>c. clip_id c = ?i) ?cs = length pre"
    by (rule index_of_middle) (use c li in auto)
  obtain e where e: "rt_add (clip_timeline_in c) dur = Inr e"
    using valid_adjacent [OF v' mem, of pre ?left right post] by (auto simp: split_left_def)
  have "rt_ne e ?pos = Inr False"
    using rt_add_exact [OF e] rt_sub_exact [OF dur] rt_add_wf [OF e] pos by (simp add: rt_ne_iff rt_wf_def)
  moreover have "rt_ne si si = Inr False" using rt_add_wf [OF si] by (simp add: rt_ne_iff rt_wf_def)
  moreover have "(set_times (TimesOf c) ?left)\<lparr>clip_audio_fade_out := clip_audio_fade_out right\<rparr> = c"
    by (simp add: set_times_def TimesOf_def split_left_def right)
  moreover have "ModifyTrackForClip ?i (with_clips (\<lambda>_. pre @ c # post)) d' = d"
    using ModifyTrackForClip_back [OF t in_cs] by (simp add: d' s)
  moreover have "clip_source_id ?left = clip_source_id c" "clip_source_id right = clip_source_id c"
    "clip_timeline_in ?left = clip_timeline_in c" "clip_duration ?left = dur" "clip_timeline_in right = ?pos"
    "clip_source_in ?left = clip_source_in c" "clip_source_in right = si" "clip_id right = ?r"
    by (simp_all add: split_left_def right)
  ultimately have "\<exists>x. ApplyJoin d' ?j = Inr (d, ?j, x)"
    using v e si by (simp add: ApplyJoin_def Let_def t' idx nth_append orR_def)
  moreover have "FindTrackForClip d' ?r = Some (with_clips (\<lambda>_. ?cs) t)"
    by (rule FindTrackForClip_unique [OF valid_distinct_tracks(2) [OF v'] mem]) (simp add: has_clip_iff right)
  then have "set (clip_tracks d' [?i, ?r]) \<subseteq> set (clip_tracks d [?i])"
    by (simp add: clip_tracks_def t t')
  ultimately show ?thesis unfolding iv by auto
qed

lemma ApplySplit_frame:
  assumes v: "valid d" and f: "frame S d x" and l: "lives_in d S (sco_clip_id op)"
    and a: "ApplySplit g x op = Inr (x', op', iv, g')"
  shows "frame S d x'"
proof -
  from a obtain h where "x' = ModifyTrackForClip (sco_clip_id op) (with_clips h) x"
    by (rule ApplySplit_cases) blast
  then show ?thesis using frame_ModifyTrackForClip_step [OF v f l] by simp
qed

lemma ApplyJoin_frame:
  assumes v: "valid d" and a: "ApplyJoin d op = Inr (d', op', iv)"
  shows "frame (set (addressed_tracks d (JoinClip op))) d d'"
proof -
  from a obtain h where d': "d' = ModifyTrackForClip (jco_left_clip_id op) (with_clips h) d"
    by (auto simp: ApplyJoin_def Let_def split: option.splits if_splits)
  show ?thesis unfolding d'
    by (rule frame_ModifyTrackForClip_step [OF v frame_refl]) (auto simp: lives_in_def set_clip_tracks)
qed

end
