(* ===== verification/Edit_Frames_Linked.thy ===== *)
theory Edit_Frames_Linked
  imports Split_Undo
begin

text \<open>
  The tracks that closing a gap, detaching audio, linked removals, linked splits and
  the removal of words change and record.
\<close>

section \<open>Delete gap\<close>

lemma collect_gap_tracks: "loopR (collect_gap_track m) xs acc = Inr r \<Longrightarrow> r = acc @ xs"
proof (induction xs arbitrary: acc)
  case (Cons a xs)
  from Cons.prems obtain s where s: "collect_gap_track m a acc = Inr s" and l: "loopR (collect_gap_track m) xs s = Inr r"
    unfolding loopR.simps bindR_Inr_iff by blast
  from s have "s = acc @ [a]" by (simp add: collect_gap_track_def split: if_splits)
  with Cons.IH [OF l] show ?case by simp
qed simp

lemma restore_gap_tracks:
  "loopR (restore_gap_track ids) states d = Inr d' \<longleftrightarrow>
   set (map ets_track_id states) \<subseteq> set ids \<and> d' = restore_tracks states d"
  by (induction states arbitrary: d) (auto simp: restore_gap_track_def restore_tracks_def bindR_Inr_iff)

lemma close_gap_track_frame:
  "close_gap_track a b gap i x = Inr y \<Longrightarrow> i \<in> S \<Longrightarrow> frame S d x \<Longrightarrow> frame S d y"
  by (auto simp: close_gap_track_def split: option.splits if_splits intro!: frame_ModifyTrack_step)

abbreviation gap_tracks :: "DeleteGapOperation \<Rightarrow> Ulid list" where
  "gap_tracks op \<equiv> dgo_track_id op # dgo_linked_track_ids op"

lemma DeleteGap_effect:
  assumes v: "valid d" and a: "ApplyDeleteGap d op = Inr (d', op', iv)"
  shows "edit_record d d' (set (addressed_tracks d (DeleteGap op))) (gap_tracks op)"
    and "loopR (collect_gap_track (dgo_track_id op)) (dgo_linked_track_ids op) [dgo_track_id op] = Inr (gap_tracks op)"
    and "\<forall>i\<in>set (gap_tracks op). FindTrack d i \<noteq> None"
    and "iv = DeleteGap (op\<lparr>dgo_exact_track_result := snapshots_each d (gap_tracks op)\<rparr>)"
    and "op' = op \<and> dgo_exact_track_result op \<noteq> [] \<or>
         op' = op\<lparr>dgo_exact_track_result := snapshots_each d' (gap_tracks op)\<rparr>"
proof -
  from a obtain ids where c: "loopR (collect_gap_track (dgo_track_id op)) (dgo_linked_track_ids op) [dgo_track_id op] = Inr ids"
    and ex: "List.find (\<lambda>i. FindTrack d i = None) ids = None"
    and iv: "iv = DeleteGap (op\<lparr>dgo_exact_track_result := snapshots_each d ids\<rparr>)"
    by (auto simp: ApplyDeleteGap_def Let_def split: option.splits if_splits)
  have ids: "ids = gap_tracks op" using collect_gap_tracks [OF c] by simp
  have f: "frame (set ids) d d' \<and> (op' = op \<and> dgo_exact_track_result op \<noteq> [] \<or>
         op' = op\<lparr>dgo_exact_track_result := snapshots_each d' ids\<rparr>)"
  proof (cases "dgo_exact_track_result op = []")
    case False
    with a c ex have l: "loopR (restore_gap_track ids) (dgo_exact_track_result op) d = Inr d'" and o: "op' = op"
      by (auto simp: ApplyDeleteGap_def Let_def split: if_splits)
    from l [unfolded restore_gap_tracks] have "frame (set ids) d d'"
      using frame_mono [OF frame_restrict [OF frame_restore_tracks]] frame_restore_tracks
      by (metis frame_mono image_set)
    with False o show ?thesis by simp
  next
    case True
    with a c ex obtain e where l: "loopR (close_gap_track (dgo_gap_start op) e (dgo_gap_duration op)) ids d = Inr d'"
      and o: "op' = op\<lparr>dgo_exact_track_result := snapshots_each d' ids\<rparr>"
      by (auto simp: ApplyDeleteGap_def Let_def split: if_splits)
    from l have "frame (set ids) d d'"
      by (rule frame_loopR [OF _ frame_refl]) (rule close_gap_track_frame)
    with o show ?thesis by simp
  qed
  have ex': "\<forall>i\<in>set ids. FindTrack d i \<noteq> None" using ex by (auto simp: find_None_iff_all)
  show "edit_record d d' (set (addressed_tracks d (DeleteGap op))) (gap_tracks op)"
    by (rule edit_recordI [where i = "dgo_track_id op"]) (use f ex' ids in auto)
  show "loopR (collect_gap_track (dgo_track_id op)) (dgo_linked_track_ids op) [dgo_track_id op] = Inr (gap_tracks op)"
    using c ids by simp
  show "\<forall>i\<in>set (gap_tracks op). FindTrack d i \<noteq> None" using ex' ids by simp
  show "iv = DeleteGap (op\<lparr>dgo_exact_track_result := snapshots_each d (gap_tracks op)\<rparr>)" using iv ids by simp
  show "op' = op \<and> dgo_exact_track_result op \<noteq> [] \<or>
         op' = op\<lparr>dgo_exact_track_result := snapshots_each d' (gap_tracks op)\<rparr>" using f ids by simp
qed

text \<open>The replay of a gap operation that records every one of its tracks.\<close>

lemma ApplyDeleteGap_replay:
  assumes "loopR (collect_gap_track (dgo_track_id op)) (dgo_linked_track_ids op) [dgo_track_id op] = Inr (gap_tracks op)"
    and "\<forall>i\<in>set (gap_tracks op). FindTrack d i \<noteq> None" and "\<forall>i\<in>set (gap_tracks op). FindTrack x i \<noteq> None"
    and "frame (set (gap_tracks op)) d x" and "valid d"
  shows "\<exists>y. ApplyDeleteGap x (op\<lparr>dgo_exact_track_result := snapshots_each d (gap_tracks op)\<rparr>) =
             Inr (d, op\<lparr>dgo_exact_track_result := snapshots_each d (gap_tracks op)\<rparr>, y)"
proof -
  let ?s = "snapshots_each d (gap_tracks op)"
  have ids: "map ets_track_id ?s = gap_tracks op" by (rule snapshots_each_all) (use assms(2) in blast)
  then have "length ?s = length (gap_tracks op)" and "?s \<noteq> []" by (metis length_map, auto)
  moreover have "List.find (\<lambda>i. FindTrack x i = None) (gap_tracks op) = None"
    using assms(3) by (auto simp: find_None_iff_all)
  moreover have "restore_tracks ?s x = d" by (rule restored(2) [OF assms(5,4)])
  moreover have "loopR (restore_gap_track (gap_tracks op)) ?s x = Inr (restore_tracks ?s x)"
    unfolding restore_gap_tracks ids by simp
  ultimately show ?thesis using assms(1,5) by (simp add: ApplyDeleteGap_def Let_def)
qed

section \<open>Detach audio\<close>

lemma update_first_keeps: "x \<in> set xs \<Longrightarrow> \<not> P x \<Longrightarrow> x \<in> set (update_first P f xs)"
  by (induction xs) auto

lemma DetachAudio_effect:
  assumes v: "valid d" and a: "ApplyDetachAudio g d op = Inr (d', op', iv)" and e: "dao_exact_track_result op = []"
  obtains s t ids where "FindTrackForClip d (dao_video_clip_id op) = Some s"
    and "FindTrackForClip d' (dao_video_clip_id op) \<noteq> None"
    and "FindTrack d (dao_audio_track_id op) = Some t" and "ids = [trk_id s, trk_id t]"
    and "edit_record d d' (set (addressed_tracks d (DetachAudio op))) ids"
    and "\<exists>r. iv = DetachAudio (r\<lparr>dao_exact_track_result := snapshots d ids\<rparr>) \<and>
             op' = r\<lparr>dao_exact_track_result := snapshots d' ids\<rparr> \<and>
             dao_video_clip_id r = dao_video_clip_id op \<and> dao_audio_track_id r = dao_audio_track_id op"
proof -
  let ?v = "dao_video_clip_id op" and ?a = "dao_audio_track_id op"
  let ?r = "if dao_audio_clip_id op = [] then op\<lparr>dao_audio_clip_id := fst (fresh g)\<rparr> else op"
  from a obtain s where s: "FindTrackForClip d ?v = Some s"
    by (auto simp: ApplyDetachAudio_def Let_def split: option.splits)
  from a s obtain t where t: "FindTrack d ?a = Some t"
    by (auto simp: ApplyDetachAudio_def Let_def split: option.splits)
  let ?ids = "[trk_id s, trk_id t]"
  from a s t e obtain vc where vc: "FindClip d ?v = Some vc"
    by (auto simp: ApplyDetachAudio_def Let_def split: option.splits if_splits)
  let ?i = "dao_audio_clip_id ?r"
  let ?h = "\<lambda>c. c\<lparr>clip_include_audio := False, clip_link_group_id := ?i,
      clip_sync_anchor_clip_id := clip_id vc, clip_sync_reference_delta := RT 0 1\<rparr>"
  from a s t e vc obtain cs where
    d': "d' = ModifyTrack ?a (with_clips (\<lambda>_. cs)) (ModifyClip ?v ?h d)"
    and o: "op' = ?r\<lparr>dao_exact_track_result := snapshots d' ?ids\<rparr>"
      "iv = DetachAudio (?r\<lparr>dao_exact_track_result := snapshots d ?ids\<rparr>)"
    and kinds: "trk_kind s = ''video''" "trk_kind t = ''audio''"
    unfolding ApplyDetachAudio_def Let_def
    by (auto simp: checked_def bindT_Inr_iff bindR_Inr_iff split: if_split_asm option.split_asm)
  have h: "clip_id (?h c) = clip_id c" for c by simp
  have ta: "trk_id t = ?a" using FindTrack_Some [OF t] by blast
  have f: "frame (set ?ids) d d'"
    unfolding d' by (rule frame_ModifyTrack_step, rule frame_ModifyClip_step [OF v frame_refl])
      (auto simp: lives_in_def s ta)
  show ?thesis
  proof (rule that [OF s _ t refl])
    have "map_option trk_id (FindTrackForClip (ModifyClip ?v ?h d) ?v) = Some (trk_id s)"
      using kind_ModifyClip(2) [OF v h, of ?v ?v] s by simp
    then obtain s1 where s1: "FindTrackForClip (ModifyClip ?v ?h d) ?v = Some s1" "trk_id s1 = trk_id s" by auto
    have "FindTrack d (trk_id s) = Some s"
      using FindTrackForClip_Some [OF s] FindTrack_unique [OF valid_distinct_tracks(1) [OF v]] by blast
    with t kinds s1(2) have "trk_id s1 \<noteq> ?a" by auto
    then have "s1 \<in> set (doc_tracks d')"
      unfolding d' ModifyTrack_def with_tracks_simps
      by (intro update_first_keeps) (use FindTrackForClip_Some [OF s1(1)] in auto)
    then show "FindTrackForClip d' ?v \<noteq> None"
      using FindTrackForClip_Some [OF s1(1)] by (auto simp: FindTrackForClip_def find_None_iff_all)
    show "edit_record d d' (set (addressed_tracks d (DetachAudio op))) ?ids"
      by (rule edit_recordI [OF f, where i = ?a]) (auto simp: set_clip_tracks s t ta)
  qed (use o in \<open>auto intro!: exI [of _ ?r]\<close>)
qed


section \<open>Linked removal\<close>

lemma collect_linked_remove_step:
  "collect_linked_remove d grp i a = Inr b \<Longrightarrow>
   \<exists>t. FindTrackForClip d i = Some t \<and> fst b = push_unique (trk_id t) (fst a)"
  by (cases a) (auto simp: collect_linked_remove_def Let_def split: option.splits if_splits)

lemma collect_linked_remove_all:
  assumes "loopR (collect_linked_remove d grp) cs s = Inr s'"
  shows "set (fst s) \<subseteq> set (fst s') \<and> set (fst s') \<subseteq> set (fst s) \<union> set (clip_tracks d cs) \<and>
         (\<forall>x\<in>set cs. \<forall>i\<in>{x}. lives_in d (set (fst s')) i)"
proof (rule loopR_lives [OF assms, where p = "\<lambda>s. set (fst s)"])
  fix x a b
  assume "x \<in> set cs" and "collect_linked_remove d grp x a = Inr b"
  then show "set (fst a) \<subseteq> set (fst b) \<and> set (fst b) \<subseteq> set (fst a) \<union> set (clip_tracks d cs) \<and>
      (\<forall>i\<in>{x}. lives_in d (set (fst b)) i)"
    using collect_linked_remove_step [of d grp x a b] by (auto intro: lives_in_Some clip_tracks_Some)
qed

lemma loopR_each:
  assumes "loopR f xs s = Inr s'" and "\<And>x a b. f x a = Inr b \<Longrightarrow> P x"
  shows "\<forall>x\<in>set xs. P x"
  using assms(1)
proof (induction xs arbitrary: s)
  case (Cons x xs)
  from Cons.prems obtain b where b: "f x s = Inr b" and l: "loopR f xs b = Inr s'" by auto
  from Cons.IH [OF l] assms(2) [OF b] show ?case by simp
qed simp

lemma loopR_push_tracks:
  assumes "loopR f ss a = Inr ids" and "\<And>i x y. f i x = Inr y \<Longrightarrow> y = push_unique i x"
  shows "set ids = set a \<union> set ss"
  using assms(1)
proof (induction ss arbitrary: a)
  case (Cons s ss)
  from Cons.prems obtain b where b: "f s a = Inr b" and l: "loopR f ss b = Inr ids" by auto
  from Cons.IH [OF l] assms(2) [OF b] show ?case by auto
qed simp

lemma collect_remove_sync_step: "collect_remove_sync d i x = Inr y \<Longrightarrow> y = push_unique i x"
  by (simp add: collect_remove_sync_def)

lemma shift_other_track_frame:
  "shift_other_track m b delta i x = Inr y \<Longrightarrow> i \<in> S \<Longrightarrow> frame S d x \<Longrightarrow> frame S d y"
  by (auto simp: shift_other_track_def split: if_splits elim: shift_track_frame)

lemma remove_step_frame:
  assumes "valid d" and "frame S d x" and "lives_in d S i" and "remove_step i x = Inr y"
  shows "frame S d y"
proof -
  from assms(4) obtain o' iv where
    "ApplyRemove x \<lparr>rco_clip_id = i, rco_sync_track_ids = [], rco_exact_timeline_result = []\<rparr> = Inr (y, o', iv)"
    by (auto simp: remove_step_def)
  from ApplyRemove_frame [OF assms(1,2) _ _ _ this] assms(3) show ?thesis by simp
qed

lemma RemoveLinked_effect:
  assumes v: "valid d" and a: "ApplyRemoveLinked d op = Inr (d', op', iv)"
  obtains ids where "edit_record d d' (set (addressed_tracks d (RemoveLinkedClips op))) ids"
    and "iv = RemoveLinkedClips (op\<lparr>rlo_exact_track_result := snapshots d ids\<rparr>)"
    and "op' = op \<and> rlo_exact_track_result op \<noteq> [] \<or>
         op' = op\<lparr>rlo_exact_track_result := snapshots d' ids\<rparr>"
proof (cases "rlo_exact_track_result op = []")
  case False
  with a obtain before where r: "replay_exact ''exact linked remove references an unknown track'' d
        (rlo_exact_track_result op) = Inr (d', before)"
    and o: "op' = op" "iv = RemoveLinkedClips (op\<lparr>rlo_exact_track_result := before\<rparr>)"
    by (auto simp: ApplyRemoveLinked_def Let_def split: if_splits)
  have "set (map ets_track_id (rlo_exact_track_result op)) \<subseteq> set (addressed_tracks d (RemoveLinkedClips op))"
    by auto
  from replay_record [OF r False this] o False show ?thesis by (metis that)
next
  case True
  from a True obtain members seen anchor ids b delta d1 where
    c0: "loopR (collect_linked_remove d (rlo_link_group_id op)) (rlo_clip_ids op) ([], [], None) = Inr (members, seen, anchor)"
    and c1: "loopR (collect_remove_sync d) (rlo_sync_track_ids op) members = Inr ids"
    and l1: "loopR remove_step (rlo_clip_ids op) d = Inr d1"
    and l2: "loopR (shift_other_track members b delta) (rlo_sync_track_ids op) d1 = Inr d'"
    and o: "op' = op\<lparr>rlo_exact_track_result := snapshots d' ids\<rparr>"
      "iv = RemoveLinkedClips (op\<lparr>rlo_exact_track_result := snapshots d ids\<rparr>)"
      "2 \<le> length (rlo_clip_ids op)"
    by (auto simp: ApplyRemoveLinked_def Let_def split: if_splits option.splits)
  note m0 = collect_linked_remove_all [OF c0, simplified]
  note m1 = loopR_push_tracks [OF c1 collect_remove_sync_step]
  have "set members \<subseteq> set ids" using m1 by simp
  then have lives: "\<forall>i\<in>set (rlo_clip_ids op). lives_in d (set ids) i"
    using m0 lives_in_mono [of d "set members" _ "set ids"] by simp
  have f1: "frame (set ids) d d1"
  proof (rule frame_loopR [OF l1 frame_refl])
    fix i a b
    assume i: "i \<in> set (rlo_clip_ids op)" and st: "remove_step i a = Inr b" and f: "frame (set ids) d a"
    show "frame (set ids) d b" by (rule remove_step_frame [OF v f bspec [OF lives i] st])
  qed
  have f: "frame (set ids) d d'"
    by (rule frame_loopR [OF l2 f1]) (erule shift_other_track_frame, use m1 in auto)
  have sub: "set ids \<subseteq> set (addressed_tracks d (RemoveLinkedClips op))" using m0 m1 by auto
  obtain i where i: "i \<in> set (rlo_clip_ids op)" using o(3) by (cases "rlo_clip_ids op") auto
  have "FindClip d i \<noteq> None"
  proof -
    have "\<forall>i\<in>set (rlo_clip_ids op). FindTrackForClip d i \<noteq> None"
    proof (rule loopR_each [OF c0])
      fix i a b
      assume "collect_linked_remove d (rlo_link_group_id op) i a = Inr b"
      from collect_linked_remove_step [OF this] show "FindTrackForClip d i \<noteq> None" by force
    qed
    with i show ?thesis unfolding FindClip_None_iff by blast
  qed
  from lives_in_record [OF v f sub _ this] lives i o show ?thesis by (intro that) auto
qed

section \<open>Linked split\<close>

lemma lives_in_back:
  assumes f: "frame S d x" and u: "distinct (all_clip_ids x)" and t: "FindTrack x k = Some t" and k: "k \<in> S"
    and c: "c \<in> set (trk_clips t)"
  shows "lives_in d S (clip_id c)"
proof -
  note t = FindTrack_Some [OF t]
  have "has_clip (clip_id c) t" using c by (auto simp: has_clip_iff)
  from FindTrackForClip_unique [OF u _ this] t have "FindTrackForClip x (clip_id c) = Some t" by blast
  then show ?thesis using frame_locates [OF frame_sym [OF f] u, of "clip_id c"] t k by (auto simp: lives_in_def)
qed

lemma collect_linked_split_step:
  "collect_linked_split d grp pos i a = Inr b \<Longrightarrow>
   \<exists>t. FindTrackForClip d i = Some t \<and> snd b = push_unique (trk_id t) (snd a)"
  by (cases a) (auto simp: collect_linked_split_def Let_def split: option.splits if_splits)

lemma collect_linked_split_all:
  assumes "loopR (collect_linked_split d grp pos) cs s = Inr s'"
  shows "set (snd s) \<subseteq> set (snd s') \<and> set (snd s') \<subseteq> set (snd s) \<union> set (clip_tracks d cs) \<and>
         (\<forall>x\<in>set cs. \<forall>i\<in>{x}. lives_in d (set (snd s')) i)"
proof (rule loopR_lives [OF assms, where p = "\<lambda>s. set (snd s)"])
  fix x a b
  assume "x \<in> set cs" and "collect_linked_split d grp pos x a = Inr b"
  then show "set (snd a) \<subseteq> set (snd b) \<and> set (snd b) \<subseteq> set (snd a) \<union> set (clip_tracks d cs) \<and>
      (\<forall>i\<in>{x}. lives_in d (set (snd b)) i)"
    using collect_linked_split_step [of d grp pos x a b] by (auto intro: lives_in_Some clip_tracks_Some)
qed

lemma collect_linked_split_found:
  assumes "loopR (collect_linked_split d grp pos) cs s = Inr s'"
  shows "\<forall>i\<in>set cs. FindTrackForClip d i \<noteq> None"
proof (rule loopR_each [OF assms])
  fix i a b
  assume "collect_linked_split d grp pos i a = Inr b"
  from collect_linked_split_step [OF this] show "FindTrackForClip d i \<noteq> None" by force
qed

lemma collect_split_sync_step: "collect_split_sync d i x = Inr y \<Longrightarrow> y = push_unique i x"
  by (simp add: collect_split_sync_def)

lemma check_right_ids: "loopR (check_right_id d) rights acc = Inr r \<Longrightarrow> \<forall>i\<in>set rights. FindClip d i = None"
  by (rule loopR_each, assumption) (auto simp: check_right_id_def split: if_splits)

abbreviation splits_of :: "Ulid set \<Rightarrow> Document \<Rightarrow> Document \<Rightarrow> bool" where
  "splits_of S d x \<equiv> frame S d x \<and> distinct (all_clip_ids x)"

lemma all_clip_ids_ModifyClip:
  assumes "\<And>c. clip_id (f c) = clip_id c"
  shows "all_clip_ids (ModifyClip i f d) = all_clip_ids d"
proof -
  have "map clip_id (trk_clips (with_clips (update_first (\<lambda>c. clip_id c = i) f) t)) = map clip_id (trk_clips t)" for t
    by (simp add: map_update_first assms with_clips_def)
  then show ?thesis
    by (simp add: ModifyClip_def ModifyTrackForClip_def
        map_update_first [of "has_clip i" "\<lambda>t. map clip_id (trk_clips t)"])
qed

lemma split_step_frame:
  assumes v: "valid d" and f: "splits_of S d x" and l: "lives_in d S (sco_clip_id s)"
    and a: "split_step s (x, g) = Inr (y, g')"
  shows "splits_of S d y"
proof -
  from a obtain s' iv where b: "ApplySplit g x s = Inr (y, s', iv, g')"
    by (auto simp: split_step_def)
  from b have "valid y" by (rule ApplySplit_cases) blast
  with ApplySplit_frame [OF v _ l b] f valid_distinct_tracks(2) show ?thesis by blast
qed

lemma regroup_pair_frame:
  assumes v: "valid d" and f: "splits_of S d x" and l: "lives_in d S (fst p)" "lives_in d S (snd p)"
  shows "splits_of S d (regroup_pair a b e h p x)"
proof -
  obtain i r where p: "p = (i, r)" by (cases p)
  have "frame S d (regroup_pair a b e h p x)"
    unfolding p regroup_pair_def prod.case
    by (rule frame_ModifyClip_step [OF v frame_ModifyClip_step [OF v conjunct1 [OF f]]]) (use l p in auto)
  moreover have "all_clip_ids (regroup_pair a b e h p x) = all_clip_ids x"
    by (simp add: p regroup_pair_def all_clip_ids_ModifyClip)
  ultimately show ?thesis using f by simp
qed

lemma split_sync_track_frame:
  assumes v: "valid d" and f: "splits_of S d x" and i: "i \<in> S"
    and a: "split_sync_track m pos i (x, g) = Inr (y, g')"
  shows "splits_of S d y"
proof (cases "y = x")
  case True
  with f show ?thesis by simp
next
  case False
  let ?p = "\<lambda>c. andR (rt_lt (clip_timeline_in c) pos)
                (bindR (rt_add (clip_timeline_in c) (clip_duration c)) (rt_lt pos))"
  from False a obtain t c where t: "FindTrack x i = Some t" and c: "findR ?p (trk_clips t) = Inr (Some c)"
    and st: "split_step (plain_split (clip_id c) pos []) (x, g) = Inr (y, g')"
    by (auto simp: split_sync_track_def split: if_splits option.splits)
  have c: "c \<in> set (trk_clips t)" using findR_Some [OF c] by blast
  from lives_in_back [OF conjunct1 [OF f] conjunct2 [OF f] t i c] have "lives_in d S (clip_id c)" .
  with split_step_frame [OF v f _ st] show ?thesis by (simp add: plain_split_def)
qed

lemma splits_loopR:
  assumes "loopR f xs (x, g) = Inr (y, g')" and "splits_of S d x"
    and "\<And>i a g b h. i \<in> set xs \<Longrightarrow> f i (a, g) = Inr (b, h) \<Longrightarrow> splits_of S d a \<Longrightarrow> splits_of S d b"
  shows "splits_of S d y"
  using loopR_invariant [OF assms(1), of "\<lambda>p. splits_of S d (fst p)"] assms(2,3) by auto

lemma splits_fold:
  assumes "splits_of S d x" and "\<And>p a. p \<in> set ps \<Longrightarrow> splits_of S d a \<Longrightarrow> splits_of S d (f p a)"
  shows "splits_of S d (fold f ps x)"
  using assms by (induction ps arbitrary: x) auto

lemma ApplySplitLinked_frame:
  assumes v: "valid d" and u: "distinct (all_clip_ids x)" and f: "frame S d x"
    and ids: "\<forall>i\<in>set ids. lives_in d S i" and rs: "\<forall>i\<in>set rights. lives_in d S i"
    and ss: "set syncs \<subseteq> S"
    and l1: "loopR (\<lambda>(i, r). split_step (plain_split i pos r)) (zip ids rights) (x, g1) = Inr (d1, g2)"
    and l2: "loopR (split_sync_track members pos) syncs
               (fold (regroup_pair a b e h) (zip ids rights) d1, g2) = Inr (d3, g3)"
  shows "frame S d d3"
proof -
  have s1: "splits_of S d d1"
  proof (rule splits_loopR [OF l1])
    show "splits_of S d x" using u f by simp
    fix p a g b h
    assume p: "p \<in> set (zip ids rights)" and st: "(case p of (i, r) \<Rightarrow> split_step (plain_split i pos r)) (a, g) = Inr (b, h)"
      and sa: "splits_of S d a"
    obtain i r where ir: "p = (i, r)" by (cases p)
    have "lives_in d S (sco_clip_id (plain_split i pos r))"
      using ids set_zip_leftD [of i r ids rights] p ir by (simp add: plain_split_def)
    from split_step_frame [OF v sa this, of g b h] st ir show "splits_of S d b" by simp
  qed
  have s2: "splits_of S d (fold (regroup_pair a b e h) (zip ids rights) d1)"
  proof (rule splits_fold [OF s1])
    fix p x
    assume p: "p \<in> set (zip ids rights)" and sx: "splits_of S d x"
    have "fst p \<in> set ids" and "snd p \<in> set rights"
      using set_zip_leftD set_zip_rightD p by (metis prod.collapse)+
    then show "splits_of S d (regroup_pair a b e h p x)" using regroup_pair_frame [OF v sx] ids rs by simp
  qed
  have "splits_of S d d3"
  proof (rule splits_loopR [OF l2 s2])
    fix i a g b h
    assume i: "i \<in> set syncs" and st: "split_sync_track members pos i (a, g) = Inr (b, h)" and sa: "splits_of S d a"
    from i ss have "i \<in> S" by blast
    from split_sync_track_frame [OF v sa this st] show "splits_of S d b" .
  qed
  then show ?thesis by blast
qed

lemma SplitLinked_effect:
  assumes v: "valid d" and a: "ApplySplitLinked g d op = Inr (d', op', iv, g')"
  obtains ids r where "edit_record d d' (set (addressed_tracks d (SplitLinkedClips op))) ids"
    and "slo_clip_ids r = slo_clip_ids op" and "slo_sync_track_ids r = slo_sync_track_ids op"
    and "iv = SplitLinkedClips (r\<lparr>slo_exact_track_result := snapshots d ids\<rparr>) \<or>
         iv = SplitLinkedClips (r\<lparr>slo_exact_track_result := snapshots_each d ids\<rparr>)"
    and "op' = op \<and> slo_exact_track_result op \<noteq> [] \<or> op' = r\<lparr>slo_exact_track_result := snapshots d' ids\<rparr>"
proof (cases "slo_exact_track_result op = []")
  case False
  with a obtain before where r: "replay_exact_each ''exact linked split references an unknown track'' d
        (slo_exact_track_result op) = Inr (d', before)"
    and o: "op' = op" "iv = SplitLinkedClips (op\<lparr>slo_exact_track_result := before\<rparr>)"
    by (auto simp: ApplySplitLinked_def Let_def split: if_splits)
  have "set (map ets_track_id (slo_exact_track_result op)) \<subseteq> set (addressed_tracks d (SplitLinkedClips op))"
    by auto
  from replay_each_record [OF r False this] o False that show ?thesis by blast
next
  case True
  let ?i = "slo_clip_ids op" and ?p = "slo_timeline_position op"
  from a True obtain seen members ids lg rg rights g3 acc d1 g4 x y where
    c0: "loopR (collect_linked_split d (slo_link_group_id op) ?p) ?i ([], []) = Inr (seen, members)"
    and c1: "loopR (collect_split_sync d) (slo_sync_track_ids op) members = Inr ids"
    and c2: "loopR (check_right_id d) rights [] = Inr acc"
    and l1: "loopR (\<lambda>(i, r). split_step (plain_split i ?p r)) (zip ?i rights) (d, g3) = Inr (d1, g4)"
    and l2: "loopR (split_sync_track members ?p) (slo_sync_track_ids op)
               (fold (regroup_pair lg x rg y) (zip ?i rights) d1, g4) = Inr (d', g')"
    and len: "2 \<le> length ?i"
    and o: "op' = op\<lparr>slo_left_group_id := lg, slo_right_group_id := rg, slo_right_clip_ids := rights,
                slo_exact_track_result := snapshots d' ids\<rparr>"
      "iv = SplitLinkedClips (op\<lparr>slo_left_group_id := lg, slo_right_group_id := rg,
                slo_right_clip_ids := rights, slo_exact_track_result := snapshots d ids\<rparr>)"
    unfolding ApplySplitLinked_def
    by (auto simp: Let_def split: if_split_asm prod.splits)
  note m0 = collect_linked_split_all [OF c0, simplified]
  note m1 = loopR_push_tracks [OF c1 collect_split_sync_step]
  have "set members \<subseteq> set ids" using m1 by simp
  then have lives: "\<forall>i\<in>set ?i. lives_in d (set ids) i"
    using m0 lives_in_mono [of d "set members" _ "set ids"] by simp
  have rs: "\<forall>i\<in>set rights. lives_in d (set ids) i" using check_right_ids [OF c2] by simp
  have f: "frame (set ids) d d'"
    by (rule ApplySplitLinked_frame [OF v valid_distinct_tracks(2) [OF v] frame_refl lives rs _ l1 l2]) (use m1 in auto)
  have sub: "set ids \<subseteq> set (addressed_tracks d (SplitLinkedClips op))" using m0 m1 by auto
  obtain i where i: "i \<in> set ?i" using len by (cases ?i) auto
  have "FindClip d i \<noteq> None" using collect_linked_split_found [OF c0] i unfolding FindClip_None_iff by blast
  from lives_in_record [OF v f sub bspec [OF lives i] this]
  have "edit_record d d' (set (addressed_tracks d (SplitLinkedClips op))) ids" .
  then show ?thesis
    by (rule that [where r = "op\<lparr>slo_left_group_id := lg, slo_right_group_id := rg, slo_right_clip_ids := rights\<rparr>"])
      (simp_all add: o)
qed

section \<open>Removal of words\<close>

lemma collect_cut_ids: "loopR collect_cut_id xs acc = Inr ids \<Longrightarrow> ids = acc @ xs"
proof (induction xs arbitrary: acc)
  case (Cons a xs)
  from Cons.prems obtain s where s: "collect_cut_id a acc = Inr s" and l: "loopR collect_cut_id xs s = Inr ids"
    unfolding loopR.simps bindR_Inr_iff by blast
  from s have "s = acc @ [a]" by (simp add: collect_cut_id_def)
  with Cons.IH [OF l] show ?case by simp
qed simp

lemma resolve_cut_step:
  assumes "valid d" and "resolve_cut d ranges i a = Inr b"
  shows "\<exists>t. FindTrackForClip d i = Some t \<and> map fst (fst b) = map fst (fst a) @ [trk_id t] \<and>
           snd b = push_unique (trk_id t) (snd a)"
  using assms(2) track_of_clip_nonempty [OF assms(1)]
  by (cases a) (auto simp: resolve_cut_def Let_def add_track_def split: option.splits if_splits)

lemma resolve_cut_all:
  assumes "loopR (resolve_cut d ranges) cs (tg, ids) = Inr (tg', ids')" and "valid d"
  shows "set (map fst tg') \<subseteq> set (clip_tracks d cs) \<union> set (map fst tg) \<and>
    set ids' = set (clip_tracks d cs) \<union> set ids \<and> (distinct ids \<longrightarrow> distinct ids') \<and>
    (\<forall>i\<in>set cs. FindTrackForClip d i \<noteq> None)"
  using assms(1)
proof (induction cs arbitrary: tg ids)
  case Nil
  then show ?case by (simp add: clip_tracks_def)
next
  case (Cons c cs)
  from Cons.prems obtain b where b: "resolve_cut d ranges c (tg, ids) = Inr b"
    and l: "loopR (resolve_cut d ranges) cs b = Inr (tg', ids')" by auto
  obtain tg1 ids1 where p: "b = (tg1, ids1)" by (cases b)
  from resolve_cut_step [OF assms(2) b] obtain t where t: "FindTrackForClip d c = Some t"
    and "map fst tg1 = map fst tg @ [trk_id t]" and "ids1 = push_unique (trk_id t) ids" by (auto simp: p)
  moreover from this(2) have "set (map fst tg1) = insert (trk_id t) (set (map fst tg))" by simp
  moreover have "set (clip_tracks d (c # cs)) = insert (trk_id t) (set (clip_tracks d cs))"
    by (simp add: clip_tracks_def t)
  ultimately show ?case using Cons.IH [OF l [unfolded p]] by (auto simp: t)
qed

lemma collect_words_sync_all:
  assumes "loopR (collect_words_sync d) ss a = Inr ids" and v: "valid d"
  shows "set ids = set a \<union> set ss \<and> (distinct a \<longrightarrow> distinct ids)"
  using assms(1)
proof (induction ss arbitrary: a)
  case (Cons s ss)
  from Cons.prems obtain b where b: "collect_words_sync d s a = Inr b"
    and l: "loopR (collect_words_sync d) ss b = Inr ids" by auto
  from b have "b = add_track s a" and "FindTrack d s \<noteq> None" by (auto simp: collect_words_sync_def split: if_splits)
  moreover from this(2) have "s \<noteq> []" using FindTrack_empty_id [OF v] by auto
  ultimately show ?case using Cons.IH [OF l] by (auto simp: set_add_track distinct_add_track)
qed simp

lemma cut_words_frame:
  assumes "cut_words ranges padding k target s = Inr s'" and "fst target \<in> S"
    and "frame S d (ws_document s)"
  shows "frame S d (ws_document s')"
  using assms by (auto simp: cut_words_def Let_def split: prod.splits if_splits intro!: frame_ModifyTrack_step)

lemma RemoveWords_effect:
  assumes v: "valid d" and a: "ApplyRemoveWords g d op = Inr (d', op', iv)"
  obtains ids where "edit_record d d' (set (addressed_tracks d (RemoveWords op)) \<union>
                       set (clip_tracks d (rwo_linked_clip_ids op))) ids"
    and "distinct ids"
    and "iv = RemoveWords (op\<lparr>rwo_exact_track_result := snapshots_each d ids\<rparr>)"
    and "op' = op \<and> rwo_exact_track_result op \<noteq> [] \<or>
         op' = op\<lparr>rwo_exact_track_result := snapshots_each d' ids\<rparr>"
proof (cases "rwo_exact_track_result op = []")
  case False
  with a obtain before where r: "replay_exact_set ''exact word removal state references an unknown track'' d
        (rwo_exact_track_result op) = Inr (d', before)"
    and o: "op' = op" "iv = RemoveWords (op\<lparr>rwo_exact_track_result := before\<rparr>)"
    by (auto simp: ApplyRemoveWords_def Let_def split: if_splits)
  have "set (map ets_track_id (rwo_exact_track_result op)) \<subseteq> set (addressed_tracks d (RemoveWords op)) \<union>
      set (clip_tracks d (rwo_linked_clip_ids op))"
    by auto
  from replay_set_record [OF r False v this] o False show ?thesis by (metis that)
next
  case True
  let ?s0 = "\<lparr>ws_document = d, ws_supply = g, ws_new_clips = [], ws_anchor_end = RT 0 1, ws_anchor_shift = RT 0 1\<rparr>"
  from a True obtain cutIds tg ids0 ids s b delta where
    c0: "loopR collect_cut_id (rwo_linked_clip_ids op) [rwo_clip_id op] = Inr cutIds"
    and c1: "loopR (resolve_cut d (rwo_ranges op)) cutIds ([], []) = Inr (tg, ids0)"
    and c2: "loopR (collect_words_sync d) (rwo_sync_track_ids op) ids0 = Inr ids"
    and l1: "iterR (cut_words (rwo_ranges op) (rwo_gap_padding op)) 0 tg ?s0 = Inr s"
    and l2: "loopR (shift_other_track (map fst tg) b delta) (rwo_sync_track_ids op) (ws_document s) = Inr d'"
    and o: "op' = op\<lparr>rwo_exact_track_result := snapshots_each d' ids\<rparr>"
      "iv = RemoveWords (op\<lparr>rwo_exact_track_result := snapshots_each d ids\<rparr>)"
    unfolding ApplyRemoveWords_def by (auto simp: Let_def split: if_split_asm)
  note cut = collect_cut_ids [OF c0]
  note m0 = resolve_cut_all [OF c1 v] and m1 = collect_words_sync_all [OF c2 v]
  have fr: "frame (set ids) d (ws_document s)"
  proof (rule iterR_invariant [OF l1, of "\<lambda>s. frame (set ids) d (ws_document s)"])
    fix j x a b
    assume "x \<in> set tg" and st: "cut_words (rwo_ranges op) (rwo_gap_padding op) j x a = Inr b"
      and f: "frame (set ids) d (ws_document a)"
    then have "fst x \<in> set ids" using m0 m1 by auto
    from cut_words_frame [OF st this f] show "frame (set ids) d (ws_document b)" .
  qed simp
  have f: "frame (set ids) d d'"
    by (rule frame_loopR [OF l2 fr]) (erule shift_other_track_frame, use m1 in auto)
  have sub: "set ids \<subseteq> set (addressed_tracks d (RemoveWords op)) \<union> set (clip_tracks d (rwo_linked_clip_ids op))"
    using m0 m1 by (auto simp: cut set_clip_tracks)
  from m0 cut obtain t where t: "FindTrackForClip d (rwo_clip_id op) = Some t" by auto
  have "trk_id t \<in> set ids" using m0 m1 t by (auto simp: cut set_clip_tracks)
  from edit_recordI [OF f sub this FindTrack_of_clip [OF t]] show ?thesis
    using m0 m1 o by (intro that) auto
qed

end
