(* ===== verification/Edit_Reversal.thy ===== *)
theory Edit_Reversal
  imports Edit_Frames_Linked Items_Undo
begin

text \<open>
  Undo and redo of the edits that record the exact state of the tracks they change: the
  recorded inverse leads back to the document before the edit, and the enriched operation
  leads forward again, whatever identifiers are drawn on the way.
\<close>

definition reverses :: "Document \<Rightarrow> Document \<Rightarrow> Operation \<Rightarrow> Operation \<Rightarrow> bool" where
  "reverses d d' op' iv \<longleftrightarrow>
     (\<forall>g. \<exists>x y. ApplyOperation g d' iv = Inr (d, x, y)) \<and>
     (\<forall>g. \<exists>x y. ApplyOperation g d op' = Inr (d', x, y))"

abbreviation runs :: "Document \<Rightarrow> Operation \<Rightarrow> Document \<Rightarrow> bool" where
  "runs d op d' \<equiv> \<forall>g. \<exists>x y. dispatch g d op = Inr (d', x, y)"

abbreviation lock_free :: "Document \<Rightarrow> Operation \<Rightarrow> bool" where
  "lock_free d op \<equiv> set (addressed_tracks d op) \<subseteq> unlocked d"

lemma reversesI:
  assumes "valid d" and "valid d'" and "runs d' iv d" and "runs d op' d'"
    and "skips_lock_check iv \<or> lock_free d' iv" and "skips_lock_check op' \<or> lock_free d op'"
  shows "reverses d d' op' iv"
  using assms by (auto simp: reverses_def ApplyOperation_Inr_iff LockedTrackTouchedBy_None)

lemma record_reverses:
  assumes v: "valid d" and v': "valid d'" and r: "edit_record d d' A ids" and u: "A \<subseteq> unlocked d"
    and b: "runs d' iv d" and f: "runs d op' d'"
    and i: "set (addressed_tracks d' iv) \<subseteq> set (clip_tracks d' cs) \<union> B"
    and c: "set (clip_tracks d cs) \<union> B \<subseteq> unlocked d" and o: "lock_free d op'"
  shows "reverses d d' op' iv"
proof -
  have fr: "frame (set ids) d d'" and sub: "set ids \<subseteq> unlocked d" using r u by (auto simp: edit_record_def)
  have "set (clip_tracks d' cs) \<subseteq> unlocked d'" using clip_tracks_after [OF v fr sub] c by simp
  moreover have "B \<subseteq> unlocked d'" using c frame_unlocked [OF v fr] by simp
  ultimately have "lock_free d' iv" using i by blast
  with reversesI [OF v v' b f] o show ?thesis by simp
qed

lemma record_in: "edit_record d d' A ids \<Longrightarrow> A \<subseteq> U \<Longrightarrow> set ids \<subseteq> U"
  by (auto simp: edit_record_def)

lemma recorded_in:
  assumes "set ids \<subseteq> U"
  shows "x \<in> set (snapshots d ids) \<Longrightarrow> ets_track_id x \<in> U"
    and "x \<in> set (snapshots_each d ids) \<Longrightarrow> ets_track_id x \<in> U"
  using assms ids_snapshots [of d ids] ids_snapshots_each [of d ids] by blast+

text \<open>The edits whose inverse and redo are both replays of recorded tracks.\<close>

lemma reverse_ClearClips:
  assumes v: "valid d" and v': "valid d'" and a: "ApplyClearClips d op = Inr (d', w, iv)"
    and l: "lock_free d (ClearClips op)"
  shows "reverses d d' (ClearClips w) iv"
proof -
  from ClearClips_effect [OF v a] obtain ids where
    r: "edit_record d d' (set (addressed_tracks d (ClearClips op))) ids"


    and iv: "iv = ClearClips (op\<lparr>ccs_exact_track_result := snapshots d ids\<rparr>)"
    and w: "w = op \<and> ccs_exact_track_result op \<noteq> [] \<or> w = op\<lparr>ccs_exact_track_result := snapshots d' ids\<rparr>" .
  note u = record_in [OF r l] and n = edit_record_nonempty [OF r] edit_record_nonempty [OF edit_record_sym [OF r]]
  show ?thesis
  proof (rule record_reverses [OF v v' r l, where cs = "ccs_clip_ids op" and B = "set ids"])
    show "runs d' iv d" using edit_record_back [OF r v] n
      by (auto simp: iv ApplyClearClips_def Let_def bindR_Inr_iff)
    show "runs d (ClearClips w) d'"
      using w a edit_record_forth [OF r v'] n
      by (auto simp: ApplyClearClips_def Let_def bindR_Inr_iff)
    show "lock_free d (ClearClips w)" using w l by (auto dest: recorded_in [OF u])
  qed (use l u in \<open>auto simp: iv dest: recorded_in [OF subset_refl]\<close>)
qed

lemma reverse_TrimLinkedClips:
  assumes v: "valid d" and v': "valid d'" and a: "ApplyTrimLinked d op = Inr (d', w, iv)"
    and l: "lock_free d (TrimLinkedClips op)"
  shows "reverses d d' (TrimLinkedClips w) iv"
proof -
  from TrimLinked_effect [OF v a] obtain ids where
    r: "edit_record d d' (set (addressed_tracks d (TrimLinkedClips op))) ids"


    and iv: "iv = TrimLinkedClips (op\<lparr>tlo_exact_track_result := snapshots d ids\<rparr>)"
    and w: "w = op \<and> tlo_exact_track_result op \<noteq> [] \<or> w = op\<lparr>tlo_exact_track_result := snapshots d' ids\<rparr>" .
  note u = record_in [OF r l] and n = edit_record_nonempty [OF r] edit_record_nonempty [OF edit_record_sym [OF r]]
  show ?thesis
  proof (rule record_reverses [OF v v' r l, where cs = "map lct_clip_id (tlo_trims op)" and B = "set ids"])
    show "runs d' iv d" using edit_record_back [OF r v] n
      by (auto simp: iv ApplyTrimLinked_def Let_def bindR_Inr_iff)
    show "runs d (TrimLinkedClips w) d'"
      using w a edit_record_forth [OF r v'] n
      by (auto simp: ApplyTrimLinked_def Let_def bindR_Inr_iff)
    show "lock_free d (TrimLinkedClips w)" using w l by (auto dest: recorded_in [OF u])
  qed (use l u in \<open>auto simp: iv dest: recorded_in [OF subset_refl]\<close>)
qed

lemma reverse_RippleTrim:
  assumes v: "valid d" and v': "valid d'" and a: "ApplyRippleTrim d op = Inr (d', w, iv)"
    and l: "lock_free d (RippleTrim op)"
  shows "reverses d d' (RippleTrim w) iv"
proof -
  from RippleTrim_effect [OF v a] obtain ids where
    r: "edit_record d d' (set (addressed_tracks d (RippleTrim op))) ids"
    and dist: "distinct ids"
    and c: "0 < rt_rate (rto_delta op)"
    and iv: "iv = RippleTrim (op\<lparr>rto_exact_track_result := snapshots_each d ids\<rparr>)"
    and w: "w = op \<and> rto_exact_track_result op \<noteq> [] \<or> w = op\<lparr>rto_exact_track_result := snapshots_each d' ids\<rparr>" .
  note u = record_in [OF r l] and n = edit_record_nonempty [OF r] edit_record_nonempty [OF edit_record_sym [OF r]]
  show ?thesis
  proof (rule record_reverses [OF v v' r l, where cs = "rto_clip_id op # rto_linked_clip_ids op" and B = "set ids \<union> set (rto_sync_track_ids op)"])
    show "runs d' iv d" using edit_record_back [OF r v] n dist c
      by (auto simp: iv ApplyRippleTrim_def Let_def bindR_Inr_iff)
    show "runs d (RippleTrim w) d'"
      using w a edit_record_forth [OF r v'] n dist c
      by (auto simp: ApplyRippleTrim_def Let_def bindR_Inr_iff)
    show "lock_free d (RippleTrim w)" using w l by (auto dest: recorded_in [OF u])
  qed (use l u in \<open>auto simp: iv dest: recorded_in [OF subset_refl]\<close>)
qed

lemma reverse_TrimBoundaryAir:
  assumes v: "valid d" and v': "valid d'" and a: "ApplyTrimBoundaryAir d op = Inr (d', w, iv)"
    and l: "lock_free d (TrimBoundaryAir op)"
  shows "reverses d d' (TrimBoundaryAir w) iv"
proof -
  from TrimBoundaryAir_effect [OF v a] obtain ids where
    r: "edit_record d d' (set (addressed_tracks d (TrimBoundaryAir op))) ids"
    and dist: "distinct ids"

    and iv: "iv = TrimBoundaryAir (op\<lparr>tba_exact_track_result := snapshots_each d ids\<rparr>)"
    and w: "w = op \<and> tba_exact_track_result op \<noteq> [] \<or> w = op\<lparr>tba_exact_track_result := snapshots_each d' ids\<rparr>" .
  note u = record_in [OF r l] and n = edit_record_nonempty [OF r] edit_record_nonempty [OF edit_record_sym [OF r]]
  show ?thesis
  proof (rule record_reverses [OF v v' r l, where cs = "concat (map (\<lambda>t. bat_clip_id t # bat_linked_clip_ids t) (tba_trims op))" and B = "set ids \<union> set (tba_sync_track_ids op)"])
    show "runs d' iv d" using edit_record_back [OF r v] n dist
      by (auto simp: iv ApplyTrimBoundaryAir_def Let_def bindR_Inr_iff)
    show "runs d (TrimBoundaryAir w) d'"
      using w a edit_record_forth [OF r v'] n dist
      by (auto simp: ApplyTrimBoundaryAir_def Let_def bindR_Inr_iff)
    show "lock_free d (TrimBoundaryAir w)" using w l by (auto dest: recorded_in [OF u])
  qed (use l u in \<open>auto simp: iv dest: recorded_in [OF subset_refl]\<close>)
qed

lemma reverse_RollEdit:
  assumes v: "valid d" and v': "valid d'" and a: "ApplyRollEdit d op = Inr (d', w, iv)"
    and l: "lock_free d (RollEdit op)"
  shows "reverses d d' (RollEdit w) iv"
proof -
  from RollEdit_effect [OF v a] obtain ids where
    r: "edit_record d d' (set (addressed_tracks d (RollEdit op))) ids"
    and dist: "distinct ids"
    and c: "0 < rt_rate (reo_delta op)" "reo_pairs op \<noteq> []"
    and iv: "iv = RollEdit (op\<lparr>reo_exact_track_result := snapshots_each d ids\<rparr>)"
    and w: "w = op \<and> reo_exact_track_result op \<noteq> [] \<or> w = op\<lparr>reo_exact_track_result := snapshots_each d' ids\<rparr>" .
  note u = record_in [OF r l] and n = edit_record_nonempty [OF r] edit_record_nonempty [OF edit_record_sym [OF r]]
  show ?thesis
  proof (rule record_reverses [OF v v' r l, where cs = "concat (map (\<lambda>p. [rep_left_clip_id p, rep_right_clip_id p]) (reo_pairs op))" and B = "set ids"])
    show "runs d' iv d" using edit_record_back [OF r v] n dist c
      by (auto simp: iv ApplyRollEdit_def Let_def bindR_Inr_iff)
    show "runs d (RollEdit w) d'"
      using w a edit_record_forth [OF r v'] n dist c
      by (auto simp: ApplyRollEdit_def Let_def bindR_Inr_iff)
    show "lock_free d (RollEdit w)" using w l by (auto dest: recorded_in [OF u])
  qed (use l u in \<open>auto simp: iv dest: recorded_in [OF subset_refl]\<close>)
qed

lemma reverse_SlipEdit:
  assumes v: "valid d" and v': "valid d'" and a: "ApplySlipEdit d op = Inr (d', w, iv)"
    and l: "lock_free d (SlipEdit op)"
  shows "reverses d d' (SlipEdit w) iv"
proof -
  from SlipEdit_effect [OF v a] obtain ids where
    r: "edit_record d d' (set (addressed_tracks d (SlipEdit op))) ids"
    and dist: "distinct ids"
    and c: "0 < rt_rate (seo_delta op)" "seo_clip_ids op \<noteq> []"
    and iv: "iv = SlipEdit (op\<lparr>seo_exact_track_result := snapshots_each d ids\<rparr>)"
    and w: "w = op \<and> seo_exact_track_result op \<noteq> [] \<or> w = op\<lparr>seo_exact_track_result := snapshots_each d' ids\<rparr>" .
  note u = record_in [OF r l] and n = edit_record_nonempty [OF r] edit_record_nonempty [OF edit_record_sym [OF r]]
  show ?thesis
  proof (rule record_reverses [OF v v' r l, where cs = "seo_clip_ids op" and B = "set ids"])
    show "runs d' iv d" using edit_record_back [OF r v] n dist c
      by (auto simp: iv ApplySlipEdit_def Let_def bindR_Inr_iff)
    show "runs d (SlipEdit w) d'"
      using w a edit_record_forth [OF r v'] n dist c
      by (auto simp: ApplySlipEdit_def Let_def bindR_Inr_iff)
    show "lock_free d (SlipEdit w)" using w l by (auto dest: recorded_in [OF u])
  qed (use l u in \<open>auto simp: iv dest: recorded_in [OF subset_refl]\<close>)
qed

lemma reverse_RemoveLinkedClips:
  assumes v: "valid d" and v': "valid d'" and a: "ApplyRemoveLinked d op = Inr (d', w, iv)"
    and l: "lock_free d (RemoveLinkedClips op)"
  shows "reverses d d' (RemoveLinkedClips w) iv"
proof -
  from RemoveLinked_effect [OF v a] obtain ids where
    r: "edit_record d d' (set (addressed_tracks d (RemoveLinkedClips op))) ids"


    and iv: "iv = RemoveLinkedClips (op\<lparr>rlo_exact_track_result := snapshots d ids\<rparr>)"
    and w: "w = op \<and> rlo_exact_track_result op \<noteq> [] \<or> w = op\<lparr>rlo_exact_track_result := snapshots d' ids\<rparr>" .
  note u = record_in [OF r l] and n = edit_record_nonempty [OF r] edit_record_nonempty [OF edit_record_sym [OF r]]
  show ?thesis
  proof (rule record_reverses [OF v v' r l, where cs = "rlo_clip_ids op" and B = "set ids \<union> set (rlo_sync_track_ids op)"])
    show "runs d' iv d" using edit_record_back [OF r v] n
      by (auto simp: iv ApplyRemoveLinked_def Let_def bindR_Inr_iff)
    show "runs d (RemoveLinkedClips w) d'"
      using w a edit_record_forth [OF r v'] n
      by (auto simp: ApplyRemoveLinked_def Let_def bindR_Inr_iff)
    show "lock_free d (RemoveLinkedClips w)" using w l by (auto dest: recorded_in [OF u])
  qed (use l u in \<open>auto simp: iv dest: recorded_in [OF subset_refl]\<close>)
qed

section \<open>Edits whose inverse or redo names other clips or tracks\<close>

lemma reverse_ClearClip:
  assumes v: "valid d" and v': "valid d'" and a: "ApplyClear d op = Inr (d', w, iv)"
    and l: "lock_free d (ClearClip op)"
  shows "reverses d d' (ClearClip w) iv"
proof -
  from Clear_effect [OF v a] obtain i where
    r: "edit_record d d' (set (addressed_tracks d (ClearClip op))) [i]"
    and iv: "iv = ClearClip (op\<lparr>cco_exact_track_result := snapshots_each d [i]\<rparr>)"
    and w: "w = op \<and> cco_exact_track_result op \<noteq> [] \<or> w = op\<lparr>cco_exact_track_result := snapshots_each d' [i]\<rparr>" .
  note u = record_in [OF r l]
  have one: "\<exists>s. snapshots_each x [i] = [s]" if "snapshots_each x [i] \<noteq> []" for x
    using that by (auto simp: snapshots_each_def List.map_filter_simps split: option.splits)
  obtain s0 s1 where s: "snapshots_each d [i] = [s0]" "snapshots_each d' [i] = [s1]"
    using one edit_record_nonempty(2) [OF r] edit_record_nonempty(2) [OF edit_record_sym [OF r]] by blast
  show ?thesis
  proof (rule record_reverses [OF v v' r l, where cs = "[cco_clip_id op]" and B = "set [i]"])
    show "runs d' iv d" using edit_record_back(3) [OF r v] by (auto simp: iv s ApplyClear_exact bindR_Inr_iff)
    show "runs d (ClearClip w) d'"
      using w a edit_record_forth(3) [OF r v'] by (auto simp: s ApplyClear_exact bindR_Inr_iff)
    show "lock_free d (ClearClip w)" using w l by (auto dest: recorded_in [OF u])
  qed (use l u in \<open>auto simp: iv dest: recorded_in [OF subset_refl]\<close>)
qed

lemma reverse_ClearLinkedClips:
  assumes v: "valid d" and v': "valid d'" and a: "ApplyClearLinked d op = Inr (d', w, iv)"
    and l: "lock_free d (ClearLinkedClips op)"
  shows "reverses d d' (ClearLinkedClips w) iv"
proof -
  from ClearLinked_effect [OF v a] obtain ids where
    r: "edit_record d d' (set (addressed_tracks d (ClearLinkedClips op))) ids"
    and iv: "iv = ClearLinkedClips (op\<lparr>clo_exact_track_result := snapshots d ids\<rparr>) \<or>
         iv = ClearLinkedClips (op\<lparr>clo_exact_track_result := snapshots_each d ids\<rparr>)"
    and w: "w = op \<and> clo_exact_track_result op \<noteq> [] \<or>
         w = op\<lparr>clo_exact_track_result := snapshots_each d' (map ets_track_id (snapshots d ids))\<rparr>" .
  note u = record_in [OF r l]
  have e: "set (map ets_track_id (snapshots d ids)) = set ids \<inter> trk_id ` set (doc_tracks d)"
    by (simp add: ids_snapshots Int_def)
  have r2: "edit_record d d' (set ids) (map ets_track_id (snapshots d ids))"
    unfolding edit_record_def e
    using r frame_restrict [of "set ids" d d'] by (auto simp: edit_record_def FindTrack_None_iff)
  show ?thesis
  proof (rule record_reverses [OF v v' r l, where cs = "clo_clip_ids op" and B = "set ids"])
    show "runs d' iv d" using iv edit_record_back [OF r v] edit_record_nonempty [OF r]
      by (auto simp: ApplyClearLinked_def Let_def bindR_Inr_iff)
    show "runs d (ClearLinkedClips w) d'"
      using w a edit_record_forth [OF r2 v'] edit_record_nonempty [OF edit_record_sym [OF r2]]
      by (auto simp: ApplyClearLinked_def Let_def bindR_Inr_iff)
    show "lock_free d (ClearLinkedClips w)"
      using w l by (auto dest: recorded_in [OF record_in [OF r2 u]])
  qed (use l u iv in \<open>auto dest: recorded_in [OF subset_refl]\<close>)
qed

lemma set_move_tracks:
  "set (move_tracks d moves) = set (clip_tracks d (map lcm_clip_id moves)) \<union> set (map lcm_track_id moves)"
  by (induction moves) (auto simp: move_tracks_def clip_tracks_def)

lemma reverse_MoveClips:
  assumes v: "valid d" and v': "valid d'" and a: "ApplyMoveClips g d op = Inr (d', w, iv)"
    and l: "lock_free d (MoveClips op)"
  shows "reverses d d' (MoveClips w) iv"
proof -
  from MoveClips_effect [OF v a] obtain ids moves where
    r: "edit_record d d' (set (addressed_tracks d (MoveClips op))) ids"
    and iv: "iv = MoveClips \<lparr>mcs_moves = moves, mcs_exact_track_result = snapshots d ids\<rparr>"
    and m: "moves = mcs_moves op \<or> set (map lcm_track_id moves) \<subseteq> set ids \<and>
         (\<forall>m\<in>set moves. lives_in d (set ids) (lcm_clip_id m))"
    and w: "w = op \<and> mcs_exact_track_result op \<noteq> [] \<or> w = op\<lparr>mcs_exact_track_result := snapshots d' ids\<rparr>" .
  note u = record_in [OF r l] and n = edit_record_nonempty [OF r] edit_record_nonempty [OF edit_record_sym [OF r]]
  have mu: "set (clip_tracks d (map lcm_clip_id moves)) \<union> set (map lcm_track_id moves) \<subseteq> unlocked d"
  proof (cases "moves = mcs_moves op")
    case True
    with l show ?thesis by (auto simp: set_move_tracks)
  next
    case False
    with m have "set (clip_tracks d (map lcm_clip_id moves)) \<subseteq> set ids" by (simp add: clip_tracks_unlocked)
    with m False u show ?thesis by auto
  qed
  show ?thesis
  proof (rule record_reverses [OF v v' r l, where cs = "map lcm_clip_id moves" and B = "set (map lcm_track_id moves) \<union> set ids"])
    show "runs d' iv d" using edit_record_back [OF r v] n by (auto simp: iv ApplyMoveClips_def bindR_Inr_iff)
    show "runs d (MoveClips w) d'"
      using w a edit_record_forth [OF r v'] n by (auto simp: ApplyMoveClips_def bindR_Inr_iff)
    show "lock_free d (MoveClips w)" using w l by (auto dest: recorded_in [OF u])
  qed (use mu u in \<open>auto simp: iv set_move_tracks dest: recorded_in [OF subset_refl]\<close>)
qed

lemma reverse_MoveLinkedClips:
  assumes v: "valid d" and v': "valid d'" and a: "ApplyMoveLinked g d op = Inr (d', w, iv)"
    and l: "lock_free d (MoveLinkedClips op)"
  shows "reverses d d' (MoveLinkedClips w) iv"
proof -
  from MoveLinked_effect [OF v a] obtain ids moves where
    r: "edit_record d d' (set (addressed_tracks d (MoveLinkedClips op))) ids"
    and iv: "iv = MoveLinkedClips \<lparr>mlo_link_group_id = mlo_link_group_id op, mlo_moves = moves,
                                 mlo_exact_track_result = snapshots d ids\<rparr>"
    and m: "moves = mlo_moves op \<or> set (map lcm_track_id moves) \<subseteq> set ids \<and>
         (\<forall>m\<in>set moves. lives_in d (set ids) (lcm_clip_id m))"
    and w: "w = op \<and> mlo_exact_track_result op \<noteq> [] \<or> w = op\<lparr>mlo_exact_track_result := snapshots d' ids\<rparr>" .
  note u = record_in [OF r l] and n = edit_record_nonempty [OF r] edit_record_nonempty [OF edit_record_sym [OF r]]
  have mu: "set (clip_tracks d (map lcm_clip_id moves)) \<union> set (map lcm_track_id moves) \<subseteq> unlocked d"
  proof (cases "moves = mlo_moves op")
    case True
    with l show ?thesis by (auto simp: set_move_tracks)
  next
    case False
    with m have "set (clip_tracks d (map lcm_clip_id moves)) \<subseteq> set ids" by (simp add: clip_tracks_unlocked)
    with m False u show ?thesis by auto
  qed
  show ?thesis
  proof (rule record_reverses [OF v v' r l, where cs = "map lcm_clip_id moves" and B = "set (map lcm_track_id moves) \<union> set ids"])
    show "runs d' iv d" using edit_record_back [OF r v] n by (auto simp: iv ApplyMoveLinked_def bindR_Inr_iff)
    show "runs d (MoveLinkedClips w) d'"
      using w a edit_record_forth [OF r v'] n by (auto simp: ApplyMoveLinked_def bindR_Inr_iff)
    show "lock_free d (MoveLinkedClips w)" using w l by (auto dest: recorded_in [OF u])
  qed (use mu u in \<open>auto simp: iv set_move_tracks dest: recorded_in [OF subset_refl]\<close>)
qed

lemma reverse_PasteClips:
  assumes v: "valid d" and v': "valid d'" and a: "ApplyPasteClips g d op = Inr (d', w, iv)"
    and l: "lock_free d (PasteClips op)"
  shows "reverses d d' (PasteClips w) iv"
proof -
  from PasteClips_effect [OF v a] obtain ids where
    r: "edit_record d d' (set (addressed_tracks d (PasteClips op))) ids"
    and iv: "iv = PasteClips \<lparr>pco_clips = [], pco_exact_track_result = snapshots d ids, pco_overwrite = pco_overwrite op\<rparr>"
    and w: "w = op \<and> pco_exact_track_result op \<noteq> [] \<or>
         (\<exists>items. w = op\<lparr>pco_clips := items, pco_exact_track_result := snapshots d' ids\<rparr> \<and>
                  map pc_track_id items = map pc_track_id (pco_clips op))" .
  note u = record_in [OF r l] and n = edit_record_nonempty [OF r] edit_record_nonempty [OF edit_record_sym [OF r]]
  show ?thesis
  proof (rule record_reverses [OF v v' r l, where cs = "[]" and B = "set ids"])
    show "runs d' iv d" using edit_record_back [OF r v] n by (auto simp: iv ApplyPasteClips_def bindR_Inr_iff)
    show "runs d (PasteClips w) d'"
      using w a edit_record_forth [OF r v'] n by (auto simp: ApplyPasteClips_def bindR_Inr_iff)
    have "pc_track_id ` set (pco_clips w) = pc_track_id ` set (pco_clips op)"
    proof (cases "w = op")
      case False
      with w have "map pc_track_id (pco_clips w) = map pc_track_id (pco_clips op)" by auto
      then show ?thesis by (metis set_map)
    qed simp
    then show "lock_free d (PasteClips w)" using w l by (auto dest: recorded_in [OF u])
  qed (use u in \<open>auto simp: iv clip_tracks_def dest: recorded_in [OF subset_refl]\<close>)
qed

lemma reverse_SplitLinkedClips:
  assumes v: "valid d" and v': "valid d'" and a: "ApplySplitLinked g d op = Inr (d', w, iv, g')"
    and l: "lock_free d (SplitLinkedClips op)"
  shows "reverses d d' (SplitLinkedClips w) iv"
proof -
  from SplitLinked_effect [OF v a] obtain ids q where
    r: "edit_record d d' (set (addressed_tracks d (SplitLinkedClips op))) ids"
    and q: "slo_clip_ids q = slo_clip_ids op" "slo_sync_track_ids q = slo_sync_track_ids op"
    and iv: "iv = SplitLinkedClips (q\<lparr>slo_exact_track_result := snapshots d ids\<rparr>) \<or>
         iv = SplitLinkedClips (q\<lparr>slo_exact_track_result := snapshots_each d ids\<rparr>)"
    and w: "w = op \<and> slo_exact_track_result op \<noteq> [] \<or> w = q\<lparr>slo_exact_track_result := snapshots d' ids\<rparr>" .
  note u = record_in [OF r l] and n = edit_record_nonempty [OF r] edit_record_nonempty [OF edit_record_sym [OF r]]
  show ?thesis
  proof (rule record_reverses [OF v v' r l, where cs = "slo_clip_ids op" and B = "set ids \<union> set (slo_sync_track_ids op)"])
    show "runs d' iv d" using iv edit_record_back [OF r v] n by (auto simp: ApplySplitLinked_def bindR_Inr_iff)
    show "runs d (SplitLinkedClips w) d'"
      using w a edit_record_forth [OF r v'] n by (auto simp: ApplySplitLinked_def bindR_Inr_iff)
    show "lock_free d (SplitLinkedClips w)" using w l q by (auto dest: recorded_in [OF u])
  qed (use l u q iv in \<open>auto dest: recorded_in [OF subset_refl]\<close>)
qed

lemma reverse_RemoveWords:
  assumes v: "valid d" and v': "valid d'" and a: "ApplyRemoveWords g d op = Inr (d', w, iv)"
    and l: "lock_free d (RemoveWords op)" and k: "set (clip_tracks d (rwo_linked_clip_ids op)) \<subseteq> unlocked d"
  shows "reverses d d' (RemoveWords w) iv"
proof -
  let ?A = "set (addressed_tracks d (RemoveWords op)) \<union> set (clip_tracks d (rwo_linked_clip_ids op))"
  from RemoveWords_effect [OF v a] obtain ids where r: "edit_record d d' ?A ids" and dist: "distinct ids"
    and iv: "iv = RemoveWords (op\<lparr>rwo_exact_track_result := snapshots_each d ids\<rparr>)"
    and w: "w = op \<and> rwo_exact_track_result op \<noteq> [] \<or> w = op\<lparr>rwo_exact_track_result := snapshots_each d' ids\<rparr>" .
  have lk: "?A \<subseteq> unlocked d" using l k by blast
  note u = record_in [OF r lk] and n = edit_record_nonempty [OF r] edit_record_nonempty [OF edit_record_sym [OF r]]
  show ?thesis
  proof (rule record_reverses [OF v v' r lk, where cs = "[rwo_clip_id op]" and B = "set ids \<union> set (rwo_sync_track_ids op)"])
    show "runs d' iv d" using edit_record_back [OF r v] n dist by (auto simp: iv ApplyRemoveWords_def Let_def bindR_Inr_iff)
    show "runs d (RemoveWords w) d'"
      using w a edit_record_forth [OF r v'] n dist by (auto simp: ApplyRemoveWords_def Let_def bindR_Inr_iff)
    show "lock_free d (RemoveWords w)" using w l by (auto dest: recorded_in [OF u])
  qed (use l u in \<open>auto simp: iv dest: recorded_in [OF subset_refl]\<close>)
qed

lemma reverse_DeleteGap:
  assumes v: "valid d" and v': "valid d'" and a: "ApplyDeleteGap d op = Inr (d', w, iv)"
    and l: "lock_free d (DeleteGap op)"
  shows "reverses d d' (DeleteGap w) iv"
proof -
  note e = DeleteGap_effect [OF v a]
  note r = e(1)
  note u = record_in [OF r l]
  have f: "frame (set (gap_tracks op)) d d'" using r by (simp add: edit_record_def)
  have ex': "\<forall>i\<in>set (gap_tracks op). FindTrack d' i \<noteq> None" using e(3) frame_FindTrack [OF f] by blast
  show ?thesis
  proof (rule record_reverses [OF v v' r l, where cs = "[]" and B = "set (gap_tracks op)"])
    show "runs d' iv d" using ApplyDeleteGap_replay [OF e(2,3) ex' f v] by (auto simp: e(4))
    show "runs d (DeleteGap w) d'"
      using e(5) a ApplyDeleteGap_replay [OF e(2) ex' e(3) frame_sym [OF f] v'] by auto
    show "lock_free d (DeleteGap w)" using e(5) l by (auto dest: recorded_in [OF u])
  qed (use l in \<open>auto simp: e(4) clip_tracks_def dest: recorded_in [OF subset_refl]\<close>)
qed

lemma reverse_DetachAudio:
  assumes v: "valid d" and v': "valid d'" and a: "ApplyDetachAudio g d op = Inr (d', w, iv)"
    and l: "lock_free d (DetachAudio op)" and e: "dao_exact_track_result op = []"
  shows "reverses d d' (DetachAudio w) iv"
proof -
  from DetachAudio_effect [OF v a e] obtain s t ids where
    s: "FindTrackForClip d (dao_video_clip_id op) = Some s" "FindTrackForClip d' (dao_video_clip_id op) \<noteq> None"
    and t: "FindTrack d (dao_audio_track_id op) = Some t"
    and r: "edit_record d d' (set (addressed_tracks d (DetachAudio op))) ids"
    and q: "\<exists>r. iv = DetachAudio (r\<lparr>dao_exact_track_result := snapshots d ids\<rparr>) \<and>
             w = r\<lparr>dao_exact_track_result := snapshots d' ids\<rparr> \<and>
             dao_video_clip_id r = dao_video_clip_id op \<and> dao_audio_track_id r = dao_audio_track_id op" .
  from q obtain q where iv: "iv = DetachAudio (q\<lparr>dao_exact_track_result := snapshots d ids\<rparr>)"
    and w: "w = q\<lparr>dao_exact_track_result := snapshots d' ids\<rparr>"
    and q: "dao_video_clip_id q = dao_video_clip_id op" "dao_audio_track_id q = dao_audio_track_id op" by blast
  note u = record_in [OF r l] and n = edit_record_nonempty [OF r] edit_record_nonempty [OF edit_record_sym [OF r]]
  have f: "frame (set ids) d d'" using r by (simp add: edit_record_def)
  obtain s' t' where s': "FindTrackForClip d' (dao_video_clip_id op) = Some s'" and t': "FindTrack d' (dao_audio_track_id op) = Some t'"
    using s(2) t frame_FindTrack [OF f, of "dao_audio_track_id op"] by auto
  show ?thesis
  proof (rule record_reverses [OF v v' r l, where cs = "[dao_video_clip_id op]" and B = "set ids \<union> {dao_audio_track_id op}"])
    show "runs d' iv d" using edit_record_back [OF r v] n
      by (auto simp: iv q s' t' ApplyDetachAudio_def Let_def bindR_Inr_iff)
    show "runs d (DetachAudio w) d'" using edit_record_forth [OF r v'] n
      by (auto simp: w q s t ApplyDetachAudio_def Let_def bindR_Inr_iff)
    show "lock_free d (DetachAudio w)" using w l q by (auto dest: recorded_in [OF u])
  qed (use l u q in \<open>auto simp: iv dest: recorded_in [OF subset_refl]\<close>)
qed

section \<open>Moves and ripple removals\<close>

lemma frame_same_track:
  assumes "frame S d d'" and "FindTrack d k = Some t"
  shows "\<exists>u. FindTrack d' k = Some u \<and> clips_only t u"
proof -
  have "list_all2 (\<lambda>t t'. clips_only t t' \<and> (trk_id t \<notin> S \<longrightarrow> t' = t)) ts ts' \<Longrightarrow>
      List.find (\<lambda>t. trk_id t = k) ts = Some t \<Longrightarrow>
      \<exists>u. List.find (\<lambda>t. trk_id t = k) ts' = Some u \<and> clips_only t u" for ts ts'
    by (induction ts ts' rule: list_all2_induct) (auto simp: clips_only_simps split: if_splits)
  from this [of "doc_tracks d" "doc_tracks d'"] assms show ?thesis unfolding frame_def FindTrack_def by blast
qed

lemma sort_by_start_set: "sort_by_start cs = Inr ys \<Longrightarrow> set ys = set cs"
proof -
  have i: "set (insert_by_start c xs) = insert c (set xs)" for c xs by (induction xs) auto
  have "set (foldr insert_by_start cs []) = set cs" by (induction cs) (simp_all add: i)
  then show "sort_by_start cs = Inr ys \<Longrightarrow> set ys = set cs" by (auto simp: sort_by_start_def split: if_splits)
qed

text \<open>A moved clip lands on a track of its own kind, so the inverse move finds it there.\<close>

lemma Move_lands:
  assumes v: "valid d" and v': "valid d'" and a: "ApplyMove g d op = Inr (d', w, iv, g')"
    and e: "mco_exact_track_result op = []" and t: "FindTrack d (mco_track_id op) = Some t"
  shows "\<exists>u. FindTrackForClip d' (mco_clip_id op) = Some u \<and> trk_kind u = trk_kind t"
proof -
  let ?i = "mco_clip_id op" and ?k = "mco_track_id op"
  from a obtain s where s: "FindTrackForClip d ?i = Some s" by (auto simp: ApplyMove_def Let_def split: option.splits)
  let ?c = "trk_clips s ! index_of (\<lambda>c. clip_id c = ?i) (trk_clips s)"
  have "clip_id ?c = ?i" using split_at_index [OF s] by (metis nth_append_length)
  with a e s t obtain kept cs where
    d': "d' = ModifyTrack ?k (with_clips (\<lambda>_. cs)) (ModifyTrackForClip ?i (with_clips (remove_first (\<lambda>c. clip_id c = ?i))) d)"
    and cs: "sort_by_start (kept @ [?c\<lparr>clip_timeline_in := mco_timeline_in op\<rparr>]) = Inr cs" and c: "clip_id ?c = ?i"
    by (auto simp: ApplyMove_def Let_def split: if_split_asm)
  let ?x = "ModifyTrackForClip ?i (with_clips (remove_first (\<lambda>c. clip_id c = ?i))) d"
  have fx: "frame UNIV d ?x" by (rule frame_ModifyTrackForClip) simp
  obtain x where x: "FindTrack ?x ?k = Some x" "clips_only t x" using frame_same_track [OF fx t] by blast
  have u: "FindTrack d' ?k = Some (with_clips (\<lambda>_. cs) x)" by (simp add: d' FindTrack_ModifyTrack x(1))
  have "?i \<in> clip_id ` set cs" using sort_by_start_set [OF cs] c by force
  then have "has_clip ?i (with_clips (\<lambda>_. cs) x)" by (simp add: has_clip_iff)
  with FindTrack_Some [OF u] FindTrackForClip_unique [OF valid_distinct_tracks(2) [OF v']]
  have "FindTrackForClip d' ?i = Some (with_clips (\<lambda>_. cs) x)" by blast
  moreover have "trk_kind (with_clips (\<lambda>_. cs) x) = trk_kind t" using x(2) by (simp add: clips_only_def with_clips_def)
  ultimately show ?thesis by blast
qed

lemma reverse_MoveClip:
  assumes v: "valid d" and v': "valid d'" and a: "ApplyMove g d op = Inr (d', w, iv, g')"
    and l: "lock_free d (MoveClip op)" and e: "mco_exact_track_result op = []"
  shows "reverses d d' (MoveClip w) iv"
proof -
  from Move_effect [OF v a] obtain ids s t x where
    r: "edit_record d d' (set (addressed_tracks d (MoveClip op))) ids"
    and s: "FindTrackForClip d (mco_clip_id op) = Some s" and t: "FindTrack d (mco_track_id op) = Some t"
    and k: "trk_kind s = trk_kind t"
    and iv: "iv = MoveClip \<lparr>mco_clip_id = mco_clip_id op, mco_track_id = trk_id s, mco_timeline_in = x,
                        mco_exact_track_result = snapshots d ids\<rparr>"
    and xt: "0 < rt_rate x \<and> 0 \<le> rt_value x"
    and ot: "0 < rt_rate (mco_timeline_in op) \<and> 0 \<le> rt_value (mco_timeline_in op)"
    and w: "w = op \<and> mco_exact_track_result op \<noteq> [] \<or> w = op\<lparr>mco_exact_track_result := snapshots d' ids\<rparr>" .
  note u = record_in [OF r l] and n = edit_record_nonempty [OF r] edit_record_nonempty [OF edit_record_sym [OF r]]
  have f: "frame (set ids) d d'" using r by (simp add: edit_record_def)
  obtain z where z: "FindTrackForClip d' (mco_clip_id op) = Some z" "trk_kind z = trk_kind t"
    using Move_lands [OF v v' a e t] by blast
  have "FindTrack d (trk_id s) = Some s"
    using FindTrackForClip_Some [OF s] FindTrack_unique [OF valid_distinct_tracks(1) [OF v]] by blast
  from frame_same_track [OF f this] obtain y where y: "FindTrack d' (trk_id s) = Some y" "trk_kind y = trk_kind s"
    by (auto simp: clips_only_def)
  show ?thesis
  proof (rule record_reverses [OF v v' r l, where cs = "[mco_clip_id op]" and B = "set ids \<union> {trk_id s}"])
    show "runs d' iv d" using edit_record_back [OF r v] n xt
      by (auto simp: iv z y k ApplyMove_def Let_def bindR_Inr_iff)
    show "runs d (MoveClip w) d'" using w edit_record_forth [OF r v'] n ot
      by (auto simp: e s t k ApplyMove_def Let_def bindR_Inr_iff)
    show "lock_free d (MoveClip w)" using w l by (auto dest: recorded_in [OF u])
  qed (use l u in \<open>auto simp: iv s set_clip_tracks dest: recorded_in [OF subset_refl]\<close>)
qed

text \<open>Writing back positions that are already current changes nothing.\<close>

lemma FindClip_track:
  assumes "FindClip d i = Some c"
  shows "\<exists>t\<in>set (doc_tracks d). c \<in> set (trk_clips t) \<and> clip_id c = i"
  using find_Some_D [OF assms [unfolded FindClip_def]] by auto

lemma current_position_again:
  assumes v: "valid d" and c: "FindClip d i = Some c"
  shows "ApplyExactPosition (position_of c) d = Inr d"
proof -
  from FindClip_track [OF c] obtain t where t: "t \<in> set (doc_tracks d)" "c \<in> set (trk_clips t)" "clip_id c = i" by blast
  from valid_track(2) [OF v t(1,2)] have time: "0 < rt_rate (clip_timeline_in c)" "0 \<le> rt_value (clip_timeline_in c)"
    by (simp_all add: clip_well_placed_def)
  have "ModifyClip i (\<lambda>x. x\<lparr>clip_timeline_in := clip_timeline_in c\<rparr>) d = d"
    unfolding ModifyClip_map [OF valid_distinct_tracks(2) [OF v]]
    by (rule map_clips_same) (use FindClip_only [OF valid_distinct_tracks(2) [OF v] c] in auto)
  with c t(3) time show ?thesis by (simp add: ApplyExactPosition_def position_of_def)
qed

lemma current_positions_again:
  assumes v: "valid d"
  shows "ApplyExactPositions d (CurrentPositionsFor d ps) = Inr d"
  unfolding ApplyExactPositions_def CurrentPositionsFor_def
  by (induction ps) (auto simp: List.map_filter_simps current_position_again [OF v] split: option.split)

lemma positions_lives:
  assumes "loopR (append_positions d b) ids ps = Inr ps'" and "distinct (all_clip_ids d)"
    and "\<forall>p\<in>set ps. lives_in d S (etp_clip_id p)" and "set ids \<subseteq> S"
  shows "\<forall>p\<in>set ps'. lives_in d S (etp_clip_id p)"
proof (rule loopR_invariant [OF assms(1), of "\<lambda>ps. \<forall>p\<in>set ps. lives_in d S (etp_clip_id p)"])
  show "\<forall>p\<in>set ps. lives_in d S (etp_clip_id p)" by fact
next
  fix i qs qs'
  assume i: "i \<in> set ids" and st: "append_positions d b i qs = Inr qs'"
    and q: "\<forall>p\<in>set qs. lives_in d S (etp_clip_id p)"
  have pos: "positions_at_or_after b cs = Inr rs \<Longrightarrow> \<forall>p\<in>set rs. etp_clip_id p \<in> clip_id ` set cs" for cs rs
    by (induction cs arbitrary: rs) (auto simp: position_of_def bindR_Inr_iff split: if_splits)
  show "\<forall>p\<in>set qs'. lives_in d S (etp_clip_id p)"
  proof (cases "FindTrack d i")
    case None
    with st q show ?thesis by (simp add: append_positions_def)
  next
    case (Some t)
    with st obtain rs where rs: "positions_at_or_after b (trk_clips t) = Inr rs" and qs': "qs' = qs @ rs"
      by (auto simp: append_positions_def AppendPositionsAtOrAfter_def)
    have "lives_in d S (etp_clip_id p)" if "p \<in> set rs" for p
    proof -
      from pos [OF rs] that obtain c where c: "c \<in> set (trk_clips t)" "etp_clip_id p = clip_id c" by blast
      have "i \<in> S" using i assms(4) by blast
      from lives_in_back [OF frame_refl assms(2) Some this c(1)] c(2) show ?thesis by simp
    qed
    with q qs' show ?thesis by auto
  qed
qed

lemma reverse_RemoveClip:
  assumes v: "valid d" and v': "valid d'" and a: "ApplyRemove d op = Inr (d', w, iv)"
    and l: "lock_free d (RemoveClip op)" and e: "rco_exact_timeline_result op = []"
  shows "reverses d d' (RemoveClip w) iv"
proof -
  from a e obtain t before b d2 where t: "FindTrackForClip d (rco_clip_id op) = Some t"
    and ps: "loopR (append_positions d b) (tl (fold push_unique (rco_sync_track_ids op) [trk_id t]))
        (PositionsAfter t (index_of (\<lambda>c. clip_id c = rco_clip_id op) (trk_clips t) + 1)) = Inr before"
    and iv: "iv = ClearClips \<lparr>ccs_clip_ids = [rco_clip_id op], ccs_exact_track_result =
        snapshots_each d (fold push_unique (rco_sync_track_ids op) [trk_id t])\<rparr>"
    and w: "w = op\<lparr>rco_exact_timeline_result := CurrentPositionsFor d' before\<rparr>"
    by (auto simp: ApplyRemove_def Let_def split: option.splits if_splits)
  let ?ids = "fold push_unique (rco_sync_track_ids op) [trk_id t]"
  have ids: "set ?ids = insert (trk_id t) (set (rco_sync_track_ids op))" by (auto simp: set_fold_push_unique)
  have f: "frame (set ?ids) d d'"
    by (rule ApplyRemove_frame [OF v frame_refl _ _ _ a]) (auto simp: e ids lives_in_def t)
  have r: "edit_record d d' (set (addressed_tracks d (RemoveClip op))) ?ids"
    by (rule edit_recordI [OF f, where i = "trk_id t"])
      (use ids FindTrack_of_clip [OF t] in \<open>auto simp: set_clip_tracks t\<close>)
  note u = record_in [OF r l] and n = edit_record_nonempty [OF r]
  have dist: "distinct ?ids" by (rule distinct_fold_push_unique) simp
  have tt: "FindTrack d (trk_id t) = Some t"
    using FindTrackForClip_Some [OF t] FindTrack_unique [OF valid_distinct_tracks(1) [OF v]] by blast
  have "set (tl ?ids) \<subseteq> set ?ids" by (cases ?ids) auto
  then have bl: "\<forall>p\<in>set before. lives_in d (set ?ids) (etp_clip_id p)"
    using positions_lives [OF ps valid_distinct_tracks(2) [OF v], of "set ?ids"]
      lives_in_back [OF frame_refl valid_distinct_tracks(2) [OF v] tt, of "set ?ids"] ids
    by (auto simp: PositionsAfter_def position_of_def dest!: in_set_dropD)
  have "etp_clip_id ` set (CurrentPositionsFor d' ps) \<subseteq> etp_clip_id ` set ps" for ps
    unfolding CurrentPositionsFor_def
    by (induction ps) (auto simp: List.map_filter_simps position_of_def split: option.splits dest: FindClip_track)
  from this [of before] bl have "set (position_tracks d (CurrentPositionsFor d' before)) \<subseteq> set ?ids"
    unfolding clip_tracks_unlocked by fastforce
  with l u w have lw: "lock_free d (RemoveClip w)" by auto
  show ?thesis
  proof (rule record_reverses [OF v v' r l, where cs = "[rco_clip_id op]" and B = "set ?ids"])
    show "runs d' iv d" using edit_record_back [OF r v] n dist
      by (auto simp: iv ApplyClearClips_def snapshots_each_distinct bindR_Inr_iff)
    show "runs d (RemoveClip w) d'"
    proof (cases "CurrentPositionsFor d' before = []")
      case True
      with w e have "w = op" by simp
      with a show ?thesis by simp
    next
      case False
      with a e w show ?thesis using current_positions_again [OF v'] v'
        by (auto simp: ApplyRemove_def Let_def bindR_Inr_iff split: option.splits if_splits)
    qed
  qed (use l u lw in \<open>auto simp: iv dest: recorded_in [OF subset_refl]\<close>)
qed
end
