(* ===== verification/Times_Undo.thy ===== *)
theory Times_Undo
  imports Edit_Reversal
begin

text \<open>
  Undo and redo of the edits whose inverse recomputes times before it restores the exact
  ones: insert and trim.
\<close>

section \<open>One track of a document\<close>

definition holding :: "DocumentTrack list \<Rightarrow> DocumentTrack \<Rightarrow> DocumentTrack list \<Rightarrow> Document \<Rightarrow> DocumentClip list \<Rightarrow> Document" where
  "holding A t B d cs = with_tracks (\<lambda>_. A @ with_clips (\<lambda>_. cs) t # B) d"

definition apart :: "DocumentTrack list \<Rightarrow> Ulid \<Rightarrow> bool" where
  "apart A i \<longleftrightarrow> (\<forall>a\<in>set A. \<not> has_clip i a)"

lemma holding_self: "doc_tracks d = A @ t # B \<Longrightarrow> holding A t B d (trk_clips t) = d"
  by (simp add: holding_def with_clips_def with_tracks_def)

lemma holding_tracks [simp]: "doc_tracks (holding A t B d cs) = A @ with_clips (\<lambda>_. cs) t # B"
  by (simp add: holding_def)

lemma update_first_at: "\<forall>a\<in>set A. \<not> P a \<Longrightarrow> P x \<Longrightarrow> update_first P f (A @ x # B) = A @ f x # B"
  by (induction A) auto

lemma find_at: "\<forall>a\<in>set A. \<not> P a \<Longrightarrow> P x \<Longrightarrow> List.find P (A @ x # B) = Some x"
  by (induction A) auto

lemma has_clip_with [simp]: "has_clip i (with_clips (\<lambda>_. cs) t) \<longleftrightarrow> i \<in> clip_id ` set cs"
  by (simp add: has_clip_iff)

lemma FindTrackForClip_holding:
  "apart A i \<Longrightarrow> i \<in> clip_id ` set cs \<Longrightarrow> FindTrackForClip (holding A t B d cs) i = Some (with_clips (\<lambda>_. cs) t)"
  by (simp add: FindTrackForClip_def apart_def find_at)

lemma with_clips_twice [simp]: "with_clips f (with_clips (\<lambda>_. cs) t) = with_clips (\<lambda>_. f cs) t"
  by (simp add: with_clips_def)

lemma with_tracks_twice [simp]: "with_tracks (\<lambda>_. xs) (with_tracks f d) = with_tracks (\<lambda>_. xs) d"
  by (simp add: with_tracks_def)

lemma with_tracks_of: "with_tracks f d = with_tracks (\<lambda>_. f (doc_tracks d)) d"
  by (simp add: with_tracks_def)

lemma ModifyTrackForClip_holding:
  assumes "apart A i" and "i \<in> clip_id ` set cs"
  shows "ModifyTrackForClip i (with_clips f) (holding A t B d cs) = holding A t B d (f cs)"
proof -
  have "update_first (has_clip i) (with_clips f) (A @ with_clips (\<lambda>_. cs) t # B) = A @ with_clips (\<lambda>_. f cs) t # B"
    using assms by (subst update_first_at) (auto simp: apart_def)
  then show ?thesis
    unfolding ModifyTrackForClip_def with_tracks_of [of "update_first (has_clip i) (with_clips f)"] holding_tracks
    by (simp add: holding_def)
qed

lemma ModifyTrack_holding:
  assumes "doc_tracks d = A @ t # B" and "\<forall>a\<in>set A. trk_id a \<noteq> trk_id t"
  shows "ModifyTrack (trk_id t) (with_clips (\<lambda>_. cs)) d = holding A t B d cs"
  unfolding ModifyTrack_def holding_def with_tracks_of [of "update_first (\<lambda>x. trk_id x = trk_id t) (with_clips (\<lambda>_. cs))"]
  using assms by (simp add: update_first_at)

lemma ModifyClip_holding:
  assumes "apart A (clip_id c)" and "clip_id c \<notin> clip_id ` set pre"
  shows "ModifyClip (clip_id c) f (holding A t B d (pre @ c # post)) = holding A t B d (pre @ f c # post)"
proof -
  have "update_first (\<lambda>x. clip_id x = clip_id c) f (pre @ c # post) = pre @ f c # post"
    using assms(2) by (intro update_first_at) (force simp: image_iff)+
  then show ?thesis unfolding ModifyClip_def using assms(1) by (subst ModifyTrackForClip_holding) auto
qed

definition moved_to :: "DocumentClip \<Rightarrow> DocumentClip \<Rightarrow> bool" where
  "moved_to c c' \<longleftrightarrow> (\<exists>x. c' = c\<lparr>clip_timeline_in := x\<rparr>)"

lemma moved_to_refl: "moved_to c c"
proof -
  have "c = c\<lparr>clip_timeline_in := clip_timeline_in c\<rparr>" by simp
  then show ?thesis unfolding moved_to_def by (rule exI)
qed

definition placed_time :: "DocumentClip \<Rightarrow> bool" where
  "placed_time c \<longleftrightarrow> 0 < rt_rate (clip_timeline_in c) \<and> 0 \<le> rt_value (clip_timeline_in c)"

text \<open>Writing the recorded positions of clips that moved puts them back.\<close>

lemma positions_put_back:
  assumes "list_all2 moved_to cs cs'" and "distinct (map clip_id (pre @ cs))" and "\<forall>c\<in>set cs. apart A (clip_id c) \<and> placed_time c"
  shows "loopR ApplyExactPosition (map position_of cs) (holding A t B d (pre @ cs')) = Inr (holding A t B d (pre @ cs))"
  using assms
proof (induction arbitrary: pre rule: list_all2_induct)
  case Nil
  then show ?case by simp
next
  case (Cons c cs c' cs')
  from Cons.hyps(1) obtain x where c': "c' = c\<lparr>clip_timeline_in := x\<rparr>" by (auto simp: moved_to_def)
  have i: "clip_id c' = clip_id c" by (simp add: c')
  have ap: "apart A (clip_id c')" "clip_id c' \<notin> clip_id ` set pre" using Cons.prems by (auto simp: i)
  have "FindTrackForClip (holding A t B d (pre @ c' # cs')) (clip_id c) \<noteq> None"
    using FindTrackForClip_holding [OF ap(1), of "pre @ c' # cs'"] by (simp add: i)
  then have "FindClip (holding A t B d (pre @ c' # cs')) (clip_id c) \<noteq> None" by (simp add: FindClip_None_iff)
  moreover have "ModifyClip (clip_id c) (\<lambda>y. y\<lparr>clip_timeline_in := clip_timeline_in c\<rparr>) (holding A t B d (pre @ c' # cs')) =
      holding A t B d (pre @ c # cs')"
    using ModifyClip_holding [OF ap, of "\<lambda>y. y\<lparr>clip_timeline_in := clip_timeline_in c\<rparr>" t B d cs'] by (simp add: i) (simp add: c')
  ultimately have "ApplyExactPosition (position_of c) (holding A t B d (pre @ c' # cs')) = Inr (holding A t B d ((pre @ [c]) @ cs'))"
    using Cons.prems(2) by (auto simp: ApplyExactPosition_def position_of_def placed_time_def)
  then show ?case using Cons.IH [of "pre @ [c]"] Cons.prems by simp
qed

section \<open>Insert\<close>

lemma shifted_moved: "mapR (shift_clip x) cs = Inr cs' \<Longrightarrow> list_all2 moved_to cs cs'"
  by (induction cs arbitrary: cs') (auto simp: shift_clip_def moved_to_def bindR_Inr_iff)

text \<open>Moving later by a positive time and earlier again by the same cannot leave the range.\<close>

lemma unshift_shifted:
  assumes "mapR (shift_clip x) cs = Inr cs'" and "\<forall>c\<in>set cs. placed_time c" and "0 \<le> rt_value x"
  shows "\<exists>cs''. mapR (unshift_clip x) cs' = Inr cs'' \<and> list_all2 moved_to cs cs''"
  using assms
proof (induction cs arbitrary: cs')
  case Nil
  then show ?case by simp
next
  case (Cons c cs)
  from Cons.prems(1) obtain y ys where y: "rt_add (clip_timeline_in c) x = Inr y" and ys: "mapR (shift_clip x) cs = Inr ys"
    and cs': "cs' = c\<lparr>clip_timeline_in := y\<rparr> # ys"
    by (auto simp: shift_clip_def [of x c] bindR_Inr_iff)
  obtain zs where zs: "mapR (unshift_clip x) ys = Inr zs" "list_all2 moved_to cs zs"
    using Cons.IH [OF ys] Cons.prems(2,3) by auto
  have "rt_sub y x = Inr (rt_scale (clip_timeline_in c) x)"
    by (rule rt_sub_add_cancel [OF y]) (use rt_add_nonneg_scale [OF y] Cons.prems in \<open>auto simp: placed_time_def\<close>)
  then have "mapR (unshift_clip x) cs' = Inr (c\<lparr>clip_timeline_in := rt_scale (clip_timeline_in c) x\<rparr> # zs)"
    using zs by (simp add: cs' unshift_clip_def bindR_Inr_iff)
  moreover have "moved_to c (c\<lparr>clip_timeline_in := rt_scale (clip_timeline_in c) x\<rparr>)" unfolding moved_to_def by blast
  ultimately show ?case using zs(2) by auto
qed

lemma mapR_ids: "mapR (shift_clip x) cs = Inr cs' \<Longrightarrow> map clip_id cs' = map clip_id cs"
  by (induction cs arbitrary: cs') (auto simp: shift_clip_def)

text \<open>An accepted insert: where the clip goes, and what is recorded.\<close>

lemma ApplyInsert_parts:
  assumes "ApplyInsert g d op = Inr (d', w, iv)" and "ico_exact_timeline_result op = []" and "ico_clip_id op \<noteq> []"
  obtains t s index shifted where "FindTrack d (ico_track_id op) = Some t"
    and "ValidateSourceRange s (ico_source_in op) (ico_duration op) = Inr ()" and "FindClip d (ico_clip_id op) = None"
    and "mapR (shift_clip (ico_duration op)) (drop index (trk_clips t)) = Inr shifted"
    and "d' = ModifyTrack (ico_track_id op) (with_clips (\<lambda>_. take index (trk_clips t) @
      (new_clip (ico_clip_id op) (ico_source_id op) (ico_source_in op) (ico_duration op) (ico_timeline_in op))\<lparr>clip_include_audio := False\<rparr> # shifted)) d"
    and "valid d'" and "index \<le> length (trk_clips t)"
    and "w = op\<lparr>ico_exact_timeline_result := (case FindTrack d' (ico_track_id op) of None \<Rightarrow> [] | Some updated \<Rightarrow> PositionsAfter updated (index + 1))\<rparr>"
    and "iv = RemoveClip \<lparr>rco_clip_id = ico_clip_id op, rco_sync_track_ids = [], rco_exact_timeline_result = PositionsAfter t index\<rparr>"
proof -
  from assms(1) obtain t s index shifted where t: "FindTrack d (ico_track_id op) = Some t"
    and s: "ValidateSourceRange s (ico_source_in op) (ico_duration op) = Inr ()" and new: "FindClip d (ico_clip_id op) = None"
    and search: "partition_search (\<lambda>c. rt_lt (clip_timeline_in c) (ico_timeline_in op)) (trk_clips t) 0 (length (trk_clips t)) = Inr index"
    and sh: "mapR (shift_clip (ico_duration op)) (drop index (trk_clips t)) = Inr shifted"
    and d': "d' = ModifyTrack (ico_track_id op) (with_clips (\<lambda>_. take index (trk_clips t) @
      (new_clip (ico_clip_id op) (ico_source_id op) (ico_source_in op) (ico_duration op) (ico_timeline_in op))\<lparr>clip_include_audio := False\<rparr> # shifted)) d"
    and v: "valid d'"
    and w: "w = op\<lparr>ico_exact_timeline_result := (case FindTrack d' (ico_track_id op) of None \<Rightarrow> [] | Some updated \<Rightarrow> PositionsAfter updated (index + 1))\<rparr>"
    and iv: "iv = RemoveClip \<lparr>rco_clip_id = ico_clip_id op, rco_sync_track_ids = [], rco_exact_timeline_result = PositionsAfter t index\<rparr>"
    unfolding ApplyInsert_def Let_def
    by (auto simp: assms(2,3) split: option.splits if_splits)
  show thesis using that [OF t s new sh d' v _ w iv] partition_search_bounds [OF search] by simp
qed

lemma ApplyInsert_named:
  assumes "ApplyInsert g d op = Inr r"
  obtains i where "i \<noteq> []" and "ApplyInsert g d (op\<lparr>ico_clip_id := i\<rparr>) = Inr r"
proof (cases "ico_clip_id op = []")
  case True
  then have same: "ApplyInsert g d (op\<lparr>ico_clip_id := fst (fresh g)\<rparr>) = Inr r" if "fst (fresh g) \<noteq> []"
    using assms that by (simp add: ApplyInsert_def Let_def)
  have "fst (fresh g) \<noteq> []"
  proof
    assume "fst (fresh g) = []"
    then show False using assms True IsValidUlid_nonempty [of "[]"] by (auto simp: ApplyInsert_def Let_def split: option.splits if_splits)
  qed
  then show thesis using same that by blast
next
  case False
  moreover have "op\<lparr>ico_clip_id := ico_clip_id op\<rparr> = op" by simp
  ultimately show thesis using that [of "ico_clip_id op"] assms by simp
qed

text \<open>The same in terms of the track that is held, with what the undo needs of it.\<close>

lemma inserted_clip:
  assumes a: "ApplyInsert g d op = Inr (d', w, iv)" and e: "ico_exact_timeline_result op = []" and v: "valid d"
  obtains A t B pre post shifted i ins where "doc_tracks d = A @ t # B" and "trk_id t = ico_track_id op" and "\<forall>a\<in>set A. trk_id a \<noteq> trk_id t"
    and "trk_clips t = pre @ post" and "mapR (shift_clip (ico_duration op)) post = Inr shifted"
    and "clip_id ins = i" and "clip_duration ins = ico_duration op" and "clip_timeline_in ins = ico_timeline_in op"
    and "0 < rt_value (ico_duration op)" and "0 < rt_rate (ico_duration op)" and "FindClip d i = None" and "i \<noteq> []"
    and "d' = holding A t B d (pre @ ins # shifted)" and "valid d'"
    and "w = op\<lparr>ico_clip_id := i, ico_exact_timeline_result := map position_of shifted\<rparr>"
    and "iv = RemoveClip \<lparr>rco_clip_id = i, rco_sync_track_ids = [], rco_exact_timeline_result = map position_of post\<rparr>"
    and "ApplyInsert g d (op\<lparr>ico_clip_id := i\<rparr>) = Inr (d', w, iv)"
proof -
  obtain i where i: "i \<noteq> []" and a': "ApplyInsert g d (op\<lparr>ico_clip_id := i\<rparr>) = Inr (d', w, iv)"
    by (rule ApplyInsert_named [OF a])
  let ?ins = "(new_clip i (ico_source_id op) (ico_source_in op) (ico_duration op) (ico_timeline_in op))\<lparr>clip_include_audio := False\<rparr>"
  obtain t s index shifted where t: "FindTrack d (ico_track_id op) = Some t"
    and s: "ValidateSourceRange s (ico_source_in op) (ico_duration op) = Inr ()" and new: "FindClip d i = None"
    and sh: "mapR (shift_clip (ico_duration op)) (drop index (trk_clips t)) = Inr shifted"
    and d': "d' = ModifyTrack (ico_track_id op) (with_clips (\<lambda>_. take index (trk_clips t) @ ?ins # shifted)) d"
    and v': "valid d'" and ix: "index \<le> length (trk_clips t)"
    and w: "w = (op\<lparr>ico_clip_id := i\<rparr>)\<lparr>ico_exact_timeline_result :=
        (case FindTrack d' (ico_track_id op) of None \<Rightarrow> [] | Some updated \<Rightarrow> PositionsAfter updated (index + 1))\<rparr>"
    and iv: "iv = RemoveClip \<lparr>rco_clip_id = i, rco_sync_track_ids = [], rco_exact_timeline_result = PositionsAfter t index\<rparr>"
    by (rule ApplyInsert_parts [OF a']) (use e i in simp_all)
  note tid = FindTrack_Some [OF t]
  obtain A B where AB: "doc_tracks d = A @ t # B" using tid split_list by metis
  have A: "\<forall>a\<in>set A. trk_id a \<noteq> trk_id t" using valid_distinct_tracks(1) [OF v] by (auto simp: AB image_iff)
  have held: "d' = holding A t B d (take index (trk_clips t) @ ?ins # shifted)"
    unfolding d' using ModifyTrack_holding [OF AB A] tid by simp
  have "FindTrack d' (ico_track_id op) = Some (with_clips (\<lambda>_. take index (trk_clips t) @ ?ins # shifted) t)"
    unfolding FindTrack_def held holding_tracks by (rule find_at) (use A tid in auto)
  then have w': "w = op\<lparr>ico_clip_id := i, ico_exact_timeline_result := map position_of shifted\<rparr>"
    using w ix by (simp add: PositionsAfter_def)
  have dur: "0 < rt_value (ico_duration op)" "0 < rt_rate (ico_duration op)"
    using s by (auto simp: ValidateSourceRange_def Let_def split: if_splits)
  show thesis
    by (rule that [OF AB _ A append_take_drop_id [symmetric] sh _ _ _ dur new i held v' w' iv [unfolded PositionsAfter_def] a'])
      (use tid in \<open>simp_all add: new_clip_def\<close>)
qed

lemma distinct_clips_held:
  assumes "valid d" and "doc_tracks d = A @ t # B"
  shows "distinct (map clip_id (trk_clips t))" and "\<forall>c\<in>set (trk_clips t). apart A (clip_id c) \<and> placed_time c"
proof -
  have dist: "distinct (concat (map (\<lambda>t. map clip_id (trk_clips t)) (A @ t # B)))"
    using valid_distinct_tracks(2) [OF assms(1)] unfolding assms(2) .
  then show "distinct (map clip_id (trk_clips t))" by simp
  have "apart A (clip_id c)" if "c \<in> set (trk_clips t)" for c
    unfolding apart_def has_clip_iff
  proof
    fix a
    assume "a \<in> set A"
    moreover have "set (concat (map (\<lambda>t. map clip_id (trk_clips t)) A)) \<inter> set (map clip_id (trk_clips t)) = {}" using dist by (simp add: inf_sup_distrib1)
    ultimately show "clip_id c \<notin> clip_id ` set (trk_clips a)" using that by auto
  qed
  moreover have "placed_time c" if "c \<in> set (trk_clips t)" for c
    using valid_track(2) [OF assms(1) _ that] by (simp add: assms(2) placed_time_def clip_well_placed_def)
  ultimately show "\<forall>c\<in>set (trk_clips t). apart A (clip_id c) \<and> placed_time c" by blast
qed

lemma undo_Insert:
  assumes v: "valid d" and a: "ApplyInsert g d op = Inr (d', w, iv)" and e: "ico_exact_timeline_result op = []"
    and fits: "rt_add (ico_timeline_in op) (ico_duration op) = Inr stop"
  shows "\<exists>r x y. iv = RemoveClip r \<and> ApplyRemove d' r = Inr (d, x, y)"
proof -
  obtain A t B pre post shifted i ins where AB: "doc_tracks d = A @ t # B" and "trk_id t = ico_track_id op"
    and cs: "trk_clips t = pre @ post" and sh: "mapR (shift_clip (ico_duration op)) post = Inr shifted"
    and ins: "clip_id ins = i" "clip_duration ins = ico_duration op" "clip_timeline_in ins = ico_timeline_in op"
    and dur: "0 < rt_value (ico_duration op)" and new: "FindClip d i = None" and d': "d' = holding A t B d (pre @ ins # shifted)"
    and iv: "iv = RemoveClip \<lparr>rco_clip_id = i, rco_sync_track_ids = [], rco_exact_timeline_result = map position_of post\<rparr>"
    by (rule inserted_clip [OF a e v])
  note held = distinct_clips_held [OF v AB]
  have ap: "apart A i" and pre: "\<forall>c\<in>set pre. clip_id c \<noteq> i"
    using new by (auto simp: FindClip_None_iff FindTrackForClip_def find_None_iff_all apart_def AB has_clip_iff cs)
  have t': "FindTrackForClip d' i = Some (with_clips (\<lambda>_. pre @ ins # shifted) t)"
    unfolding d' by (rule FindTrackForClip_holding [OF ap]) (simp add: ins)
  have ix: "index_of (\<lambda>c. clip_id c = i) (pre @ ins # shifted) = length pre"
    by (rule index_of_middle) (use pre ins in auto)
  obtain earlier where earlier: "mapR (unshift_clip (ico_duration op)) shifted = Inr earlier" "list_all2 moved_to post earlier"
    using unshift_shifted [OF sh] held(2) dur by (auto simp: cs)
  have neg: "\<exists>n. Negate (ico_duration op) = Some n" using dur by (simp add: Negate_def int64_min_def)
  have removed: "ModifyTrackForClip i (with_clips (\<lambda>_. pre @ earlier)) d' = holding A t B d (pre @ earlier)"
    unfolding d' by (rule ModifyTrackForClip_holding [OF ap]) (simp add: ins)
  have self: "holding A t B d (pre @ post) = d" using holding_self [OF AB] by (simp add: cs)
  have exact: "ApplyExactPositions (holding A t B d (pre @ earlier)) (map position_of post) = Inr d"
    unfolding ApplyExactPositions_def using positions_put_back [OF earlier(2), of pre A t B d] held by (simp add: cs self)
  have plain: "holding A t B d (pre @ earlier) = d" if "post = []" using earlier(2) that self by simp
  have vr: "ValidateResult d = Inr ()" using v by (simp add: ValidateResult_def)
  let ?r = "\<lparr>rco_clip_id = i, rco_sync_track_ids = [], rco_exact_timeline_result = map position_of post\<rparr>"
  have "\<exists>x y. ApplyRemove d' ?r = Inr (d, x, y)"
    using neg fits removed exact plain vr
    by (cases "post = []") (auto simp: ApplyRemove_def Let_def t' ix nth_append ins earlier bindR_Inr_iff)
  then show ?thesis using iv by blast
qed

lemma ApplyInsert_again:
  assumes "ApplyInsert g d op = Inr (d', w, iv)" and "ico_exact_timeline_result op = []" and "ico_clip_id op \<noteq> []"
    and "ApplyExactPositions d' ps = Inr d'"
  shows "\<exists>x y. ApplyInsert g' d (op\<lparr>ico_exact_timeline_result := ps\<rparr>) = Inr (d', x, y)"
proof (cases "ps = []")
  case True
  have "ApplyInsert g' d op = ApplyInsert g d op" by (simp add: ApplyInsert_def Let_def assms(3))
  moreover have "op\<lparr>ico_exact_timeline_result := ps\<rparr> = op" using True assms(2) by simp
  ultimately show ?thesis using assms(1) by simp
next
  case False
  from assms(1) obtain t s index shifted where g:
    "FindTrack d (ico_track_id op) = Some t" "FindSource d (ico_source_id op) = Some s"
    "\<not> (trk_kind t = ''video'' \<and> (case FindLibraryMedia d (ico_source_id op) of
            None \<Rightarrow> False | Some m \<Rightarrow> med_metadata_complete m \<and> \<not> med_has_video m))"
    "\<not> (rt_rate (ico_timeline_in op) \<le> 0 \<or> rt_value (ico_timeline_in op) < 0)"
    "ValidateSourceRange s (ico_source_in op) (ico_duration op) = Inr ()"
    "\<not> (\<not> IsValidUlid (ico_clip_id op) \<or> FindClip d (ico_clip_id op) \<noteq> None \<or> FindSource d (ico_clip_id op) \<noteq> None \<or>
        FindTrack d (ico_clip_id op) \<noteq> None)"
    "partition_search (\<lambda>c. rt_lt (clip_timeline_in c) (ico_timeline_in op)) (trk_clips t) 0 (length (trk_clips t)) = Inr index"
    "(if index = 0 then Inr None
      else bindR (rt_add (clip_timeline_in (trk_clips t ! (index - 1))) (clip_duration (trk_clips t ! (index - 1)))) (\<lambda>previousEnd.
        bindR (rt_lt (ico_timeline_in op) previousEnd) (\<lambda>b. Inr (if b then Some (trk_clips t ! (index - 1)) else None)))) = Inr None"
    "mapR (shift_clip (ico_duration op)) (drop index (trk_clips t)) = Inr shifted"
    "d' = ModifyTrack (ico_track_id op) (with_clips (\<lambda>_. take index (trk_clips t) @
      (new_clip (ico_clip_id op) (ico_source_id op) (ico_source_in op) (ico_duration op) (ico_timeline_in op))\<lparr>clip_include_audio := False\<rparr> # shifted)) d"
    "valid d'"
    unfolding ApplyInsert_def Let_def by (auto simp: assms(2,3) split: option.splits if_splits)
  show ?thesis
    unfolding ApplyInsert_def Let_def using False assms(3,4) g
    by (cases "index = 0") (auto simp: ValidateResult_def)
qed

lemma redo_Insert:
  assumes v: "valid d" and a: "ApplyInsert g d op = Inr (d', w, iv)" and e: "ico_exact_timeline_result op = []"
  shows "\<exists>x y. ApplyInsert g' d w = Inr (d', x, y)"
proof -
  obtain A t B pre post shifted i ins where AB: "doc_tracks d = A @ t # B" and A: "\<forall>a\<in>set A. trk_id a \<noteq> trk_id t"
    and i: "i \<noteq> []" and d': "d' = holding A t B d (pre @ ins # shifted)" and v': "valid d'"
    and w: "w = op\<lparr>ico_clip_id := i, ico_exact_timeline_result := map position_of shifted\<rparr>"
    and a': "ApplyInsert g d (op\<lparr>ico_clip_id := i\<rparr>) = Inr (d', w, iv)"
    by (rule inserted_clip [OF a e v])
  let ?t = "with_clips (\<lambda>_. pre @ ins # shifted) t"
  have tr: "doc_tracks d' = A @ ?t # B" by (simp add: d')
  have eq: "holding A ?t B d' ((pre @ [ins]) @ shifted) = d'" using holding_self [OF tr] by simp
  have "list_all2 moved_to shifted shifted" by (rule list_all2_refl) (rule moved_to_refl)
  then have "ApplyExactPositions d' (map position_of shifted) = Inr d'"
    unfolding ApplyExactPositions_def
    using positions_put_back [of shifted shifted "pre @ [ins]" A ?t B d'] distinct_clips_held [OF v' tr] eq by simp
  from ApplyInsert_again [OF a' _ _ this] show ?thesis using i e by (simp add: w)
qed

lemma reverse_InsertClip:
  assumes v: "valid d" and v': "valid d'" and a: "ApplyInsert g d op = Inr (d', w, iv)"
    and l: "lock_free d (InsertClip op)" and e: "ico_exact_timeline_result op = []"
    and fits: "rt_add (ico_timeline_in op) (ico_duration op) = Inr stop"
  shows "reverses d d' (InsertClip w) iv"
proof -
  obtain A t B pre post shifted i ins where AB: "doc_tracks d = A @ t # B" and tid: "trk_id t = ico_track_id op"
    and cs: "trk_clips t = pre @ post" and sh: "mapR (shift_clip (ico_duration op)) post = Inr shifted"
    and ins: "clip_id ins = i" and d': "d' = holding A t B d (pre @ ins # shifted)"
    and w: "w = op\<lparr>ico_clip_id := i, ico_exact_timeline_result := map position_of shifted\<rparr>"
    and iv: "iv = RemoveClip \<lparr>rco_clip_id = i, rco_sync_track_ids = [], rco_exact_timeline_result = map position_of post\<rparr>"
    by (rule inserted_clip [OF a e v])
  have ids: "map clip_id shifted = map clip_id post" by (rule mapR_ids [OF sh])
  have tr': "doc_tracks d' = A @ with_clips (\<lambda>_. pre @ ins # shifted) t # B" by (simp add: d')
  have ap: "apart A j" if "j \<in> set (map clip_id (ins # shifted))" for j
    using distinct_clips_held(2) [OF v' tr'] that by auto
  have own: "FindTrackForClip d j = Some t" if "j \<in> set (map clip_id post)" for j
    using FindTrackForClip_holding [of A j "trk_clips t" t B d] holding_self [OF AB] distinct_clips_held(2) [OF v AB] that
    by (auto simp: cs with_clips_def)
  have own': "FindTrackForClip d' j = Some (with_clips (\<lambda>_. pre @ ins # shifted) t)" if "j \<in> set (map clip_id (ins # shifted))" for j
    unfolding d' by (rule FindTrackForClip_holding [OF ap [OF that]]) (use that in auto)
  have u: "trk_id t \<in> unlocked d" "unlocked d' = unlocked d"
    using l frame_unlocked [OF v Insert_frame [OF v a]] by (auto simp: tid)
  have lw: "lock_free d (InsertClip w)"
    using u own l ids by (auto simp: w set_clip_tracks position_of_def comp_def)
  have "set (map clip_id (ins # post)) = set (map clip_id (ins # shifted))" using arg_cong [OF ids, of set] by simp
  then have mine: "FindTrackForClip d' j = Some (with_clips (\<lambda>_. pre @ ins # shifted) t)" if "j \<in> set (map clip_id (ins # post))" for j
    using own' [of j] that by (simp only:)
  have li: "lock_free d' iv"
    using u mine by (auto simp: iv set_clip_tracks position_of_def comp_def ins)
  have "\<exists>x y. dispatch g' d' iv = Inr (d, x, y)" for g' using undo_Insert [OF v a e fits] by auto
  moreover have "\<exists>x y. dispatch g' d (InsertClip w) = Inr (d', x, y)" for g' using redo_Insert [OF v a e, of g'] by auto
  ultimately show ?thesis by (intro reversesI [OF v v']) (use lw li in auto)
qed

section \<open>Trim\<close>

lemma rt_add_neg: "Negate b = Some n \<Longrightarrow> rt_add c n = rt_sub c b"
  by (auto simp: Negate_def rt_add_def rt_sub_def Let_def split: if_splits)

lemma rt_sub_neg: "Negate b = Some n \<Longrightarrow> rt_sub c n = rt_add c b"
  by (auto simp: Negate_def rt_add_def rt_sub_def Let_def split: if_splits)

lemma rt_add_sub_cancel:
  assumes "rt_sub a b = Inr c" and "in_int64 (rt_value (rt_scale a b))"
  shows "rt_add c b = Inr (rt_scale a b)"
  using assms rt_Lcm_props [of "rt_rate a" "rt_rate b"]
  by (auto simp: rt_add_Inr_iff rt_sub_Inr_iff rt_scale_def rt_Lcm_absorb trunc_div_nonneg)

text \<open>
  The room a trim needs to be taken back: on the common timebase of the clip and the delta, where the
  inverse recomputes the old times, the end of its source range and its position fit 64 bits.
\<close>

definition trim_room :: "DocumentClip \<Rightarrow> RationalTime \<Rightarrow> bool" where
  "trim_room c delta =
     (let L = rt_Lcm (rt_Lcm (rt_Lcm (rt_rate (clip_source_in c)) (rt_rate (clip_duration c))) (rt_rate (clip_timeline_in c))) (rt_rate delta) in
      rt_value (clip_source_in c) * (L div rt_rate (clip_source_in c)) + rt_value (clip_duration c) * (L div rt_rate (clip_duration c)) \<le> int64_max \<and>
      rt_value (clip_timeline_in c) * (L div rt_rate (clip_timeline_in c)) \<le> int64_max \<and> in_int64 (rt_value delta))"

lemma scaled_mono:
  assumes "0 < r" "r dvd M" "M dvd L" "0 < L" "0 \<le> (v :: int)"
  shows "v * (M div r) \<le> v * (L div r)"
proof -
  have "M \<le> L" using assms by (intro zdvd_imp_le)
  then have "M div r \<le> L div r" using assms(1) by (intro zdiv_mono1)
  then show ?thesis using assms(5) by (rule mult_left_mono)
qed

lemma rt_scale_fits:
  assumes "0 < rt_rate a" "0 < rt_rate b" "rt_Lcm (rt_rate a) (rt_rate b) dvd L" "0 < L" "0 \<le> rt_value a"
    and "rt_value a * (L div rt_rate a) \<le> int64_max"
  shows "in_int64 (rt_value (rt_scale a b))" and "0 \<le> rt_value (rt_scale a b)"
proof -
  note p = rt_Lcm_props [OF assms(1,2)]
  have v: "rt_value (rt_scale a b) = rt_value a * (rt_Lcm (rt_rate a) (rt_rate b) div rt_rate a)"
    using p assms(1) by (simp add: rt_scale_def trunc_div_nonneg)
  then show n: "0 \<le> rt_value (rt_scale a b)" using p assms(1,5) by (simp add: pos_imp_zdiv_nonneg_iff)
  have "rt_value (rt_scale a b) \<le> int64_max"
    using scaled_mono [OF assms(1) p(2) assms(3,4,5)] assms(6) v by simp
  then show "in_int64 (rt_value (rt_scale a b))" using n by (simp add: in_int64_def int64_min_def)
qed

lemma rt_scale_q: "0 < rt_rate a \<Longrightarrow> 0 < rt_rate b \<Longrightarrow> rt_q (rt_scale a b) = rt_q a"
  using scaled_q [of "rt_rate a" "rt_Lcm (rt_rate a) (rt_rate b)" "rt_value a"] rt_Lcm_props [of "rt_rate a" "rt_rate b"]
  by (simp add: rt_q_def rt_scale_def)

lemma rt_q_value: "0 < rt_rate e \<Longrightarrow> of_int (rt_value e) = rt_q e * of_int (rt_rate e)"
  by (simp add: rt_q_def)

text \<open>A sum of two times on coarser timebases fits if it does on a finer one.\<close>

lemma sum_fits:
  assumes "0 < rt_rate a" "0 < rt_rate b" "0 < rt_rate x" "0 < rt_rate y" "0 \<le> rt_value a" "0 \<le> rt_value b"
    and "rt_q x = rt_q a" "rt_q y = rt_q b" and "rt_Lcm (rt_rate x) (rt_rate y) \<le> int32_max"
    and "rt_Lcm (rt_rate x) (rt_rate y) dvd L" "rt_rate a dvd L" "rt_rate b dvd L" "0 < L"
    and "rt_value a * (L div rt_rate a) + rt_value b * (L div rt_rate b) \<le> int64_max"
  shows "\<exists>e. rt_add x y = Inr e \<and> rt_q e = rt_q a + rt_q b"
proof -
  let ?M = "rt_Lcm (rt_rate x) (rt_rate y)"
  let ?e = "RT (rt_value x * trunc_div ?M (rt_rate x) + rt_value y * trunc_div ?M (rt_rate y)) ?M"
  note p = rt_Lcm_props [OF assms(3,4)]
  have qe: "rt_q ?e = rt_q a + rt_q b"
    using scaled_q [OF assms(3) p(2) p(1), of "rt_value x"] scaled_q [OF assms(4) p(3) p(1), of "rt_value y"] assms(7,8)
    by (simp add: rt_q_def add_divide_distrib del: of_int_mult)
  have s: "of_int (rt_value c * (L div rt_rate c)) = rt_q c * of_int L" if "0 < rt_rate c" "rt_rate c dvd L" for c
    using that by (auto simp: rt_q_def elim!: dvdE)
  have "of_int (rt_value ?e) = (rt_q a + rt_q b) * of_int ?M" using rt_q_value [of ?e] p(1) unfolding qe by simp
  also have "\<dots> \<le> (rt_q a + rt_q b) * of_int L"
    using zdvd_imp_le [OF assms(10,13)] assms(1,2,5,6) by (intro mult_left_mono) (simp_all add: rt_q_def)
  also have "\<dots> = of_int (rt_value a * (L div rt_rate a) + rt_value b * (L div rt_rate b))"
    using s [OF assms(1,11)] s [OF assms(2,12)] by (simp add: distrib_right del: of_int_mult)
  also have "\<dots> \<le> of_int int64_max" using assms(14) by (simp only: of_int_le_iff)
  finally have "rt_value ?e \<le> int64_max" by (simp only: of_int_le_iff)
  moreover have "0 \<le> rt_q ?e" unfolding qe using assms(1,2,5,6) by (simp add: rt_q_def)
  then have "0 \<le> rt_value ?e" using rt_q_sgn_iff(4) [of ?e] p(1) by simp
  ultimately have "in_int64 (rt_value ?e)" by (simp add: in_int64_def int64_min_def)
  then have "rt_add x y = Inr ?e" using assms(3,4,9) by (simp add: rt_add_Inr_iff)
  then show ?thesis using qe by blast
qed

text \<open>The times a trim asks for.\<close>

definition trimmed :: "bool \<Rightarrow> TrimEdge \<Rightarrow> RationalTime \<Rightarrow> DocumentClip \<Rightarrow> string + ExactClipTimes" where
  "trimmed captionClip edge delta clip =
     (case edge of
        Head \<Rightarrow>
          bindR (if captionClip then Inr (clip_source_in clip) else rt_add (clip_source_in clip) delta) (\<lambda>si.
          bindR (rt_sub (clip_duration clip) delta) (\<lambda>du.
          bindR (rt_add (clip_timeline_in clip) delta) (\<lambda>ti.
            Inr \<lparr>ect_source_in = si, ect_duration = du, ect_timeline_in = ti\<rparr>)))
      | Tail \<Rightarrow>
          bindR (rt_add (clip_duration clip) delta) (\<lambda>du. Inr ((TimesOf clip)\<lparr>ect_duration := du\<rparr>)))"

definition is_caption :: "Document \<Rightarrow> DocumentClip \<Rightarrow> bool" where
  "is_caption d c = (case FindTrackForClip d (clip_id c) of None \<Rightarrow> False | Some t \<Rightarrow> trk_kind t = ''caption'')"

lemma trimmed_body:
  "(case tco_edge op of
      Head \<Rightarrow>
        bindR (if is_caption d clip then Inr (clip_source_in clip) else rt_add (clip_source_in clip) (tco_delta op)) (\<lambda>si.
        bindR (rt_sub (clip_duration clip) (tco_delta op)) (\<lambda>du.
        bindR (rt_add (clip_timeline_in clip) (tco_delta op)) (\<lambda>ti.
          Inr \<lparr>ect_source_in = si, ect_duration = du, ect_timeline_in = ti\<rparr>)))
    | Tail \<Rightarrow> bindR (rt_add (clip_duration clip) (tco_delta op)) (\<lambda>du. Inr ((TimesOf clip)\<lparr>ect_duration := du\<rparr>))) =
   trimmed (is_caption d clip) (tco_edge op) (tco_delta op) clip"
  by (simp add: trimmed_def)

lemma ApplyTrim_parts:
  assumes "ApplyTrim d op = Inr (d', w, iv)" and "tco_exact_clip_result op = None"
  obtains clip req n where "FindClip d (tco_clip_id op) = Some clip" and "0 < rt_rate (tco_delta op)"
    and "FindSource d (clip_source_id clip) = None \<longrightarrow> is_caption d clip"
    and "trimmed (is_caption d clip) (tco_edge op) (tco_delta op) clip = Inr req"
    and "\<forall>s. FindSource d (clip_source_id clip) = Some s \<longrightarrow> ValidateEditedSourceRange ''trim_clip'' clip s req = Inr ()"
    and "d' = ModifyClip (tco_clip_id op) (set_times req) d" and "Negate (tco_delta op) = Some n"
    and "0 < rt_value (ect_duration req)" and "0 \<le> rt_value (ect_timeline_in req)"
    and "w = op\<lparr>tco_exact_clip_result := Some req\<rparr>"
    and "iv = TrimClip \<lparr>tco_clip_id = tco_clip_id op, tco_edge = tco_edge op, tco_delta = n, tco_exact_clip_result = Some (TimesOf clip)\<rparr>"
proof -
  from assms(1) obtain clip where c: "FindClip d (tco_clip_id op) = Some clip"
    by (auto simp: ApplyTrim_def Let_def split: option.splits)
  from assms(1) [unfolded ApplyTrim_def Let_def is_caption_def [symmetric] trimmed_body c option.case assms(2)]
  obtain req n where "0 < rt_rate (tco_delta op)" "FindSource d (clip_source_id clip) = None \<longrightarrow> is_caption d clip"
    "trimmed (is_caption d clip) (tco_edge op) (tco_delta op) clip = Inr req"
    "case FindSource d (clip_source_id clip) of None \<Rightarrow> True | Some s \<Rightarrow> ValidateEditedSourceRange ''trim_clip'' clip s req = Inr ()"
    "d' = ModifyClip (tco_clip_id op) (set_times req) d" "Negate (tco_delta op) = Some n"
    "0 < rt_value (ect_duration req)" "0 \<le> rt_value (ect_timeline_in req)"
    "w = op\<lparr>tco_exact_clip_result := Some req\<rparr>"
    "iv = TrimClip \<lparr>tco_clip_id = tco_clip_id op, tco_edge = tco_edge op, tco_delta = n, tco_exact_clip_result = Some (TimesOf clip)\<rparr>"
    by (auto split: if_split_asm option.splits)
  then show thesis using that [OF c] by (auto split: option.splits)
qed

lemma ApplyTrim_exact:
  assumes "FindClip d (tco_clip_id op) = Some clip" and "0 < rt_rate (tco_delta op)"
    and "FindSource d (clip_source_id clip) = None \<Longrightarrow> is_caption d clip"
    and "trimmed (is_caption d clip) (tco_edge op) (tco_delta op) clip = Inr req"
    and "\<And>s. FindSource d (clip_source_id clip) = Some s \<Longrightarrow> ValidateEditedSourceRange ''trim_clip'' clip s req = Inr ()"
    and "0 < rt_value (ect_duration req)" and "0 \<le> rt_value (ect_timeline_in req)" and "Negate (tco_delta op) = Some n"
    and "tco_exact_clip_result op = Some exact" and "valid (ModifyClip (tco_clip_id op) (set_times exact) d)"
  shows "\<exists>x y. ApplyTrim d op = Inr (ModifyClip (tco_clip_id op) (set_times exact) d, x, y)"
  unfolding ApplyTrim_def Let_def is_caption_def [symmetric] trimmed_body
  using assms by (cases "FindSource d (clip_source_id clip)") (auto simp: ValidateResult_def)

lemma trimmed_back:
  assumes wp: "clip_well_placed d t c" and req: "trimmed cap edge delta c = Inr req" and room: "trim_room c delta"
    and neg: "Negate delta = Some n" and rate: "0 < rt_rate delta"
    and stop: "\<not> cap \<Longrightarrow> \<exists>e. rt_add (ect_source_in req) (ect_duration req) = Inr e"
  shows "\<exists>old. trimmed cap edge n (set_times req c) = Inr old \<and> 0 < rt_value (ect_duration old) \<and> 0 \<le> rt_value (ect_timeline_in old) \<and>
     0 \<le> rt_value (ect_source_in old) \<and>
     (\<not> cap \<longrightarrow> (\<exists>e. rt_add (ect_source_in old) (ect_duration old) = Inr e \<and> rt_q e = rt_q (clip_source_in c) + rt_q (clip_duration c)))"
proof -
  let ?si = "clip_source_in c" and ?du = "clip_duration c" and ?ti = "clip_timeline_in c"
  let ?L = "rt_Lcm (rt_Lcm (rt_Lcm (rt_rate ?si) (rt_rate ?du)) (rt_rate ?ti)) (rt_rate delta)"
  have r: "0 < rt_rate ?si" "0 < rt_rate ?du" "0 < rt_rate ?ti" and v: "0 \<le> rt_value ?si" "0 < rt_value ?du" "0 \<le> rt_value ?ti"
    using wp by (simp_all add: clip_well_placed_def)
  have L: "?L = lcm (lcm (lcm (rt_rate ?si) (rt_rate ?du)) (rt_rate ?ti)) (rt_rate delta)"
    using r rate by (simp add: rt_Lcm_eq lcm_pos_int)
  have L0: "0 < ?L" unfolding L using r rate by (simp add: lcm_pos_int)
  have dvd: "rt_rate ?si dvd ?L" "rt_rate ?du dvd ?L" "rt_rate ?ti dvd ?L" "rt_rate delta dvd ?L"
    unfolding L by (meson dvd_lcm1 dvd_lcm2 dvd_trans)+
  have sub: "rt_Lcm a b dvd ?L" if "0 < a" "0 < b" "a dvd ?L" "b dvd ?L" for a b
    using that by (simp add: rt_Lcm_eq)
  have tot: "rt_value ?si * (?L div rt_rate ?si) + rt_value ?du * (?L div rt_rate ?du) \<le> int64_max"
    and tim: "rt_value ?ti * (?L div rt_rate ?ti) \<le> int64_max"
    using room by (simp_all add: trim_room_def Let_def)
  have nn: "0 \<le> rt_value ?si * (?L div rt_rate ?si)" "0 \<le> rt_value ?du * (?L div rt_rate ?du)"
    using v r L0 by (simp_all add: pos_imp_zdiv_nonneg_iff)
  note fs = rt_scale_fits [OF r(1) rate sub [OF r(1) rate dvd(1,4)] L0 v(1)]
    and fd = rt_scale_fits [OF r(2) rate sub [OF r(2) rate dvd(2,4)] L0 less_imp_le [OF v(2)]]
    and ft = rt_scale_fits [OF r(3) rate sub [OF r(3) rate dvd(3,4)] L0 v(3) tim]
  have fs: "in_int64 (rt_value (rt_scale ?si delta))" "0 \<le> rt_value (rt_scale ?si delta)"
    and fd: "in_int64 (rt_value (rt_scale ?du delta))" using fs fd tot nn by simp_all
  have q: "rt_q (rt_scale ?si delta) = rt_q ?si" "rt_q (rt_scale ?du delta) = rt_q ?du" "rt_q (rt_scale ?ti delta) = rt_q ?ti"
    using r rate by (simp_all add: rt_scale_q)
  have rr: "rt_rate (rt_scale x delta) = rt_Lcm (rt_rate x) (rt_rate delta)" for x by (simp add: rt_scale_def)
  have rp: "0 < rt_rate (rt_scale ?si delta)" "0 < rt_rate (rt_scale ?du delta)"
    unfolding rr using rt_Lcm_props(1) [OF r(1) rate] rt_Lcm_props(1) [OF r(2) rate] by simp_all
  have dpos: "0 < rt_value (rt_scale ?du delta)" using rt_q_sgn_iff(3) [OF rp(2)] rt_q_sgn_iff(3) [OF r(2)] q(2) v(2) by simp
  have rdvd: "rt_rate (rt_scale ?si delta) dvd ?L" "rt_rate (rt_scale ?du delta) dvd ?L"
    unfolding rr by (rule sub [OF r(1) rate dvd(1,4)], rule sub [OF r(2) rate dvd(2,4)])
  have sums: "\<exists>e. rt_add x y = Inr e \<and> rt_q e = rt_q ?si + rt_q ?du"
    if "rt_add x' y' = Inr e'" "rt_rate x' = rt_rate x" "rt_rate y' = rt_rate y" "rt_q x = rt_q ?si" "rt_q y = rt_q ?du"
      "rt_rate x dvd ?L" "rt_rate y dvd ?L" for x y x' y' e'
  proof -
    have p: "0 < rt_rate x" "0 < rt_rate y" "rt_Lcm (rt_rate x) (rt_rate y) \<le> int32_max"
      using that(1-3) by (auto simp: rt_add_Inr_iff)
    show ?thesis
      by (rule sum_fits [OF r(1,2) p(1,2) v(1) less_imp_le [OF v(2)] that(4,5) p(3) sub [OF p(1,2) that(6,7)] dvd(1,2) L0 tot])
  qed
  show ?thesis
  proof (cases edge)
    case Tail
    then obtain x where x: "rt_add ?du delta = Inr x" and rq: "req = (TimesOf c)\<lparr>ect_duration := x\<rparr>"
      using req by (auto simp: trimmed_def)
    have again: "rt_add x n = Inr (rt_scale ?du delta)" using rt_sub_add_cancel [OF x fd] rt_add_neg [OF neg] by simp
    have xr: "rt_rate x = rt_rate (rt_scale ?du delta)" using x by (auto simp: rt_add_Inr_iff rt_scale_def)
    have e: "\<exists>e. rt_add ?si (rt_scale ?du delta) = Inr e \<and> rt_q e = rt_q ?si + rt_q ?du" if c: "\<not> cap"
    proof -
      obtain e' where "rt_add ?si x = Inr e'" using stop [OF c] by (auto simp: rq TimesOf_def)
      then show ?thesis by (rule sums) (use xr q dvd rdvd in simp_all)
    qed
    show ?thesis using again Tail dpos v e by (auto simp: trimmed_def rq set_times_def TimesOf_def)
  next
    case Head
    then obtain x y z where x: "(if cap then Inr ?si else rt_add ?si delta) = Inr x" and y: "rt_sub ?du delta = Inr y"
      and z: "rt_add ?ti delta = Inr z" and rq: "req = \<lparr>ect_source_in = x, ect_duration = y, ect_timeline_in = z\<rparr>"
      using req by (auto simp: trimmed_def)
    have again: "rt_sub y n = Inr (rt_scale ?du delta)" "rt_add z n = Inr (rt_scale ?ti delta)"
      using rt_add_sub_cancel [OF y fd] rt_sub_add_cancel [OF z ft(1)] rt_add_neg [OF neg] rt_sub_neg [OF neg] by simp_all
    have yr: "rt_rate y = rt_rate (rt_scale ?du delta)" using y by (auto simp: rt_sub_Inr_iff rt_scale_def)
    show ?thesis
    proof (cases cap)
      case True
      then show ?thesis using again Head dpos v ft x by (auto simp: trimmed_def rq set_times_def)
    next
      case False
      then have x: "rt_add ?si delta = Inr x" using x by simp
      have xb: "rt_add x n = Inr (rt_scale ?si delta)" using rt_sub_add_cancel [OF x fs(1)] rt_add_neg [OF neg] by simp
      have xr: "rt_rate x = rt_rate (rt_scale ?si delta)" using x by (auto simp: rt_add_Inr_iff rt_scale_def)
      obtain e' where "rt_add x y = Inr e'" using stop [OF False] by (auto simp: rq)
      then have "\<exists>e. rt_add (rt_scale ?si delta) (rt_scale ?du delta) = Inr e \<and> rt_q e = rt_q ?si + rt_q ?du"
        by (rule sums) (use xr yr q rdvd in simp_all)
      then show ?thesis using again xb Head dpos fs(2) ft False by (auto simp: trimmed_def rq set_times_def)
    qed
  qed
qed

lemma undo_redo_Trim:
  assumes v: "valid d" and v': "valid d'" and a: "ApplyTrim d op = Inr (d', w, iv)" and e: "tco_exact_clip_result op = None"
    and room: "\<And>c. FindClip d (tco_clip_id op) = Some c \<Longrightarrow> trim_room c (tco_delta op)"
  shows "\<exists>r x y. iv = TrimClip r \<and> tco_clip_id r = tco_clip_id op \<and> ApplyTrim d' r = Inr (d, x, y)"
    and "\<exists>x y. ApplyTrim d w = Inr (d', x, y)" and "tco_clip_id w = tco_clip_id op"
proof -
  let ?i = "tco_clip_id op"
  obtain clip req n where c: "FindClip d ?i = Some clip" and rate: "0 < rt_rate (tco_delta op)"
    and src: "FindSource d (clip_source_id clip) = None \<longrightarrow> is_caption d clip"
    and tr: "trimmed (is_caption d clip) (tco_edge op) (tco_delta op) clip = Inr req"
    and ok: "\<forall>s. FindSource d (clip_source_id clip) = Some s \<longrightarrow> ValidateEditedSourceRange ''trim_clip'' clip s req = Inr ()"
    and d': "d' = ModifyClip ?i (set_times req) d" and neg: "Negate (tco_delta op) = Some n"
    and pos: "0 < rt_value (ect_duration req)" "0 \<le> rt_value (ect_timeline_in req)"
    and w: "w = op\<lparr>tco_exact_clip_result := Some req\<rparr>"
    and iv: "iv = TrimClip \<lparr>tco_clip_id = ?i, tco_edge = tco_edge op, tco_delta = n, tco_exact_clip_result = Some (TimesOf clip)\<rparr>"
    by (rule ApplyTrim_parts [OF a e])
  obtain t where ft: "FindTrackForClip d ?i = Some t" and ct: "clip \<in> set (trk_clips t)" and ci: "clip_id clip = ?i"
    by (rule FindClip_Some [OF c])
  have wp: "clip_well_placed d t clip" using valid_track(2) [OF v _ ct] FindTrackForClip_Some [OF ft] by blast
  have cap: "is_caption d clip \<longleftrightarrow> trk_kind t = ''caption''" by (simp add: is_caption_def ci ft)
  have stop: "\<exists>e. rt_add (ect_source_in req) (ect_duration req) = Inr e" if nc: "\<not> is_caption d clip"
  proof -
    obtain s where "FindSource d (clip_source_id clip) = Some s" using src nc by (cases "FindSource d (clip_source_id clip)") auto
    from ok this show ?thesis by (auto simp: ValidateEditedSourceRange_def)
  qed
  obtain old where old: "trimmed (is_caption d clip) (tco_edge op) n (set_times req clip) = Inr old" "0 < rt_value (ect_duration old)"
      "0 \<le> rt_value (ect_timeline_in old)" "0 \<le> rt_value (ect_source_in old)"
    and fit: "\<not> is_caption d clip \<longrightarrow> (\<exists>e. rt_add (ect_source_in old) (ect_duration old) = Inr e \<and>
        rt_q e = rt_q (clip_source_in clip) + rt_q (clip_duration clip))"
    using trimmed_back [OF wp tr room [OF c] neg rate stop] by blast
  let ?c' = "set_times req clip"
  have idt: "\<And>x c. clip_id (set_times x c) = clip_id c" by (simp add: set_times_def)
  have c': "FindClip d' ?i = Some ?c'" by (simp add: d' FindClip_ModifyClip [OF v idt] c)
  have sid: "clip_source_id ?c' = clip_source_id clip" by (simp add: set_times_def)
  have same_sources: "FindSource d' j = FindSource d j" for j
    by (simp add: d' ModifyClip_def ModifyTrackForClip_def FindSource_def with_tracks_def)
  have cap': "is_caption d' ?c' = is_caption d clip"
  proof -
    have "map_option trk_kind (FindTrackForClip d' ?i) = map_option trk_kind (FindTrackForClip d ?i)"
      unfolding d' by (rule kind_ModifyClip(1) [OF v idt])
    then show ?thesis using ft by (auto simp: is_caption_def ci idt split: option.splits)
  qed
  have range: "ValidateEditedSourceRange ''trim_clip'' ?c' s old = Inr ()" if s: "FindSource d' (clip_source_id ?c') = Some s" for s
  proof -
    have sd: "FindSource d (clip_source_id clip) = Some s" using s by (simp add: sid same_sources)
    have nc: "\<not> is_caption d clip"
    proof
      assume "is_caption d clip"
      then have "clip_source_id clip = []" using wp cap by (simp add: clip_well_placed_def)
      then have "s \<in> set (doc_sources d)" "src_id s = []" using find_Some_D [OF sd [unfolded FindSource_def]] by simp_all
      then have "[] \<in> src_id ` set (doc_sources d)" by (metis image_eqI)
      then have "[] \<in> set (document_ids d)" by (simp add: document_ids_def Let_def)
      with valid_registers(2) [OF v] have "IsValidUlid []" unfolding list_all_iff by blast
      then show False using IsValidUlid_nonempty by blast
    qed
    then obtain e where e: "rt_add (ect_source_in old) (ect_duration old) = Inr e" "rt_q e = rt_q (clip_source_in clip) + rt_q (clip_duration clip)"
      using fit by blast
    have "rt_q e \<le> rt_q (src_duration s)" using wp nc cap sd e(2) by (auto simp: clip_well_placed_def)
    moreover have "0 < rt_rate e" using rt_add_wf [OF e(1)] by (simp add: rt_wf_def)
    moreover have "0 < rt_rate (src_duration s)"
      using ok sd by (auto simp: ValidateEditedSourceRange_def rt_gt_iff split: if_splits)
    ultimately have "rt_gt e (src_duration s) = Inr False" by (simp add: rt_gt_iff)
    then show ?thesis using e old by (simp add: ValidateEditedSourceRange_def)
  qed
  have restored: "ModifyClip ?i (set_times (TimesOf clip)) d' = d"
    unfolding d' by (rule ModifyClip_back [OF v c]) (simp_all add: set_times_def TimesOf_def)
  have neg': "\<exists>m. Negate n = Some m" "rt_rate n = rt_rate (tco_delta op)"
    using neg room [OF c] by (auto simp: Negate_def trim_room_def Let_def in_int64_def int64_min_def int64_max_def split: if_splits)
  let ?r = "\<lparr>tco_clip_id = ?i, tco_edge = tco_edge op, tco_delta = n, tco_exact_clip_result = Some (TimesOf clip)\<rparr>"
  obtain m where m: "Negate n = Some m" using neg'(1) by blast
  have "\<exists>x y. ApplyTrim d' ?r = Inr (ModifyClip ?i (set_times (TimesOf clip)) d', x, y)"
    using ApplyTrim_exact [of d' ?r ?c' old m "TimesOf clip"] c' rate neg'(2) src old range m restored v
    by (simp add: cap' sid same_sources)
  then show "\<exists>r x y. iv = TrimClip r \<and> tco_clip_id r = ?i \<and> ApplyTrim d' r = Inr (d, x, y)" by (simp add: iv restored)
  show "\<exists>x y. ApplyTrim d w = Inr (d', x, y)"
    using ApplyTrim_exact [of d w clip req n req] c rate src tr ok pos neg v' by (simp add: w d')
  show "tco_clip_id w = ?i" by (simp add: w)
qed

lemma reverse_TrimClip:
  assumes v: "valid d" and v': "valid d'" and a: "ApplyTrim d op = Inr (d', w, iv)" and e: "tco_exact_clip_result op = None"
    and room: "\<And>c. FindClip d (tco_clip_id op) = Some c \<Longrightarrow> trim_room c (tco_delta op)"
    and l: "lock_free d (TrimClip op)"
  shows "reverses d d' (TrimClip w) iv"
proof -
  note u = undo_redo_Trim [OF v v' a e room]
  obtain r x y where r: "iv = TrimClip r" "tco_clip_id r = tco_clip_id op" "ApplyTrim d' r = Inr (d, x, y)" using u(1) by blast
  have fr: "frame (set (addressed_tracks d (TrimClip op))) d d'" by (rule Trim_frame [OF v a])
  have "set (addressed_tracks d' iv) \<subseteq> unlocked d'"
    using clip_tracks_after [OF v fr, of "[tco_clip_id op]"] l by (simp add: r)
  then show ?thesis by (intro reversesI [OF v v']) (use r u(2,3) l in auto)
qed

end
