(* ===== verification/Last_Undo.thy ===== *)
theory Last_Undo
  imports Edit_Reversal
begin

text \<open>
  Undo of the removals whose inverse gives the track or the bin back at the end of its
  vector: exact when the removed one was the last.
\<close>

section \<open>Removing the last track or bin\<close>

lemma remove_first_last:
  assumes "xs \<noteq> []" and "P (last xs)" and "\<forall>y\<in>set (butlast xs). \<not> P y"
  shows "remove_first P xs = butlast xs" and "List.find P xs = Some (last xs)"
proof -
  have xs: "xs = butlast xs @ [last xs]" using assms(1) by simp
  show "remove_first P xs = butlast xs" by (subst xs) (rule remove_first_append [OF assms(3,2)])
  show "List.find P xs = Some (last xs)" by (subst xs) (use assms(2,3) in \<open>simp add: find_append find_None_iff_all split: option.split\<close>, auto dest: find_Some_D)
qed

lemma distinct_last:
  assumes "distinct (map f xs)" and "xs \<noteq> []"
  shows "\<forall>y\<in>set (butlast xs). f y \<noteq> f (last xs)"
proof -
  have "distinct (map f (butlast xs @ [last xs]))" using assms by simp
  then show ?thesis unfolding map_append distinct_append by (auto dest: sym)
qed

lemma validate_tracks_indices:
  "iterR (validate_track d sources) k ts (ids, ixs) = Inr r \<Longrightarrow>
   distinct (map trk_index ts) \<and> trk_index ` set ts \<inter> ixs = {}"
proof (induction ts arbitrary: k ids ixs)
  case (Cons t ts)
  from Cons.prems obtain z where z: "validate_track d sources k t (ids, ixs) = Inr z"
    and r: "iterR (validate_track d sources) (Suc k) ts z = Inr r" by (auto elim!: bindR_InrE)
  from z obtain ids' where "trk_index t \<notin> ixs" and z': "z = (ids', insert (trk_index t) ixs)"
    by (auto simp: validate_track_def Let_def elim!: bindR_InrE split: if_splits)
  then show ?case using Cons.IH [OF r [unfolded z']] by auto
qed simp

lemma last_track_indices:
  assumes "valid d"
  shows "distinct (map trk_index (doc_tracks d))"
proof -
  from assms obtain sources ids4 r where "iterR (validate_track d sources) 0 (doc_tracks d) (ids4, {}) = Inr r"
    by (rule Validate_stages) blast
  then show ?thesis using validate_tracks_indices by blast
qed

lemma clip_ids_not_track:
  "distinct (concat (map track_ids_of ts)) \<Longrightarrow> t \<in> set ts \<Longrightarrow> u \<in> set ts \<Longrightarrow> c \<in> set (trk_clips u) \<Longrightarrow>
   clip_id c \<noteq> trk_id t"
proof (induction ts)
  case (Cons x ts)
  have "trk_id t \<in> set (track_ids_of t)" and "clip_id c \<in> set (tl (track_ids_of u))" and "clip_id c \<in> set (track_ids_of u)"
    using Cons.prems(4) by (force simp: track_ids_of_def clip_ids_of_def)+
  moreover have "t = x \<Longrightarrow> u = x \<Longrightarrow> trk_id x \<notin> set (tl (track_ids_of x))"
    using Cons.prems(1) by (simp add: track_ids_of_def)
  ultimately show ?case using Cons by fastforce
qed simp

lemma track_id_free:
  assumes "valid d" and "t \<in> set (doc_tracks d)"
  shows "trk_id t \<notin> media_ids d" and "FindClip d (trk_id t) = None" and "FindBin d (trk_id t) = None"
proof -
  have m: "trk_id t \<in> set (concat (map track_ids_of (doc_tracks d)))" using assms(2) by (auto simp: track_ids_of_def)
  have k: "i \<notin> set L \<and> i \<notin> set B" if "distinct (S @ B @ M @ L @ T @ R)" and "i \<in> set T" for S B M L T R and i :: Ulid
    using that by auto
  note k = k [OF valid_kinds [OF assms(1)] m]
  have dist: "distinct (concat (map track_ids_of (doc_tracks d)))"
    using valid_kinds [OF assms(1)] by (simp only: distinct_append)
  show "FindClip d (trk_id t) = None"
    using clip_ids_not_track [OF dist assms(2)] unfolding Find_None_iffs by force
  show "trk_id t \<notin> media_ids d" using k unfolding media_ids_set by blast
  show "FindBin d (trk_id t) = None" using k unfolding Find_None_iffs by simp
qed

lemma undo_RemoveTrack:
  assumes v: "valid d" and a: "ApplyRemoveTrack d op = Inr (d', w, iv)" and l: "trk_id (last (doc_tracks d)) = rmt_track_id op"
    and k: "trk_kind (last (doc_tracks d)) \<in> {''video'', ''audio'', ''caption''}" and i: "0 \<le> trk_index (last (doc_tracks d))"
  shows "\<exists>r x. iv = AddTrack r \<and> ApplyAddTrack g d' r = Inr (d, r, x)" and "w = op"
proof -
  let ?t = "last (doc_tracks d)"
  from a obtain found where f: "FindTrack d (rmt_track_id op) = Some found"
    and d': "d' = with_tracks (remove_first (\<lambda>t. trk_id t = rmt_track_id op)) d" and w: "w = op" and iv: "iv = AddTrack (operation_of_track found)"
    by (auto simp: ApplyRemoveTrack_def split: option.splits)
  have ne: "doc_tracks d \<noteq> []" using f by (auto simp: FindTrack_def)
  have others: "\<forall>y\<in>set (butlast (doc_tracks d)). trk_id y \<noteq> rmt_track_id op"
    using distinct_last [OF valid_distinct_tracks(1) [OF v] ne] l by simp
  note rm = remove_first_last [of "doc_tracks d" "\<lambda>t. trk_id t = rmt_track_id op", OF ne l others]
  have found: "found = ?t" using f rm(2) by (simp add: FindTrack_def)
  have tr': "doc_tracks d' = butlast (doc_tracks d)" by (simp add: d' rm(1))
  have sub: "set (butlast (doc_tracks d)) \<subseteq> set (doc_tracks d)" by (auto dest: in_set_butlastD)
  have tin: "?t \<in> set (doc_tracks d)" using ne by simp
  have restored: "with_tracks (\<lambda>ts. ts @ [?t]) d' = d"
    using ne by (simp add: d' rm(1) with_tracks_def)
  have id: "IsValidUlid (rmt_track_id op)" and ri: "rmt_track_id op \<noteq> []"
    using valid_ids(1) [OF v tin] l IsValidUlid_nonempty by auto
  have free: "FindTrack d' (rmt_track_id op) = None" "FindClip d' (rmt_track_id op) = None"
      "FindSource d' (rmt_track_id op) = None" "FindLibraryMedia d' (rmt_track_id op) = None"
    using track_id_free [OF v tin] others sub unfolding Find_None_iffs media_ids_def l
    by (auto simp: tr') (auto simp: d')
  have ix: "\<not> list_ex (\<lambda>t. trk_index t = trk_index ?t) (doc_tracks d')"
    using distinct_last [OF last_track_indices [OF v] ne] by (simp add: tr' list_ex_iff)
  let ?o = "operation_of_track ?t"
  have o: "ato_track_id ?o = rmt_track_id op" "ato_kind ?o = trk_kind ?t" "ato_index ?o = trk_index ?t"
    using l by (simp_all add: operation_of_track_def)
  have "ApplyAddTrack g d' ?o = Inr (d, ?o, RemoveTrack \<lparr>rmt_track_id = rmt_track_id op\<rparr>)"
    unfolding ApplyAddTrack_def Let_def using o ri id free ix k i v restored by (auto simp: track_of_operation_of_track)
  then show "\<exists>r x. iv = AddTrack r \<and> ApplyAddTrack g d' r = Inr (d, r, x)" using iv found by blast
  show "w = op" by (rule w)
qed

lemma undo_RemoveBin:
  assumes v: "valid d" and a: "ApplyRemoveBin d op = Inr (d', w, iv)" and l: "bin_id (last (doc_bins d)) = rbo_bin_id op"
    and n: "\<not> bad_bin_name (bin_name (last (doc_bins d)))"
  shows "\<exists>r x. iv = AddBin r \<and> ApplyAddBin g d' r = Inr (d, r, x)"
proof -
  let ?b = "last (doc_bins d)"
  from a obtain found where f: "FindBin d (rbo_bin_id op) = Some found"
    and d': "d' = with_bins (remove_first (\<lambda>b. bin_id b = rbo_bin_id op)) d"
    and kids: "\<not> list_ex (\<lambda>b. bin_parent_id b = rbo_bin_id op) (doc_bins d)"
    and iv: "iv = AddBin \<lparr>abo_bin_id = bin_id found, abo_name = bin_name found, abo_parent_id = bin_parent_id found\<rparr>"
    by (auto simp: ApplyRemoveBin_def Let_def split: option.splits if_splits)
  have ne: "doc_bins d \<noteq> []" using f by (auto simp: FindBin_def)
  have others: "\<forall>y\<in>set (butlast (doc_bins d)). bin_id y \<noteq> rbo_bin_id op"
    using distinct_last [OF valid_distinct_items(1) [OF v] ne] l by simp
  note rm = remove_first_last [of "doc_bins d" "\<lambda>b. bin_id b = rbo_bin_id op", OF ne l others]
  have found: "found = ?b" using f rm(2) by (simp add: FindBin_def)
  have bs': "doc_bins d' = butlast (doc_bins d)" by (simp add: d' rm(1) with_bins_def)
  have bin: "?b \<in> set (doc_bins d)" using ne by simp
  have restored: "with_bins (\<lambda>bs. bs @ [?b]) d' = d" using ne by (simp add: d' with_bins_def rm(1))
  have same: "doc_tracks d' = doc_tracks d" "doc_sources d' = doc_sources d" "doc_library d' = doc_library d"
    by (simp_all add: d' with_bins_def)
  have id: "IsValidUlid (rbo_bin_id op)" and ri: "rbo_bin_id op \<noteq> []"
  proof -
    have "rbo_bin_id op \<in> set (document_ids d)" using bin unfolding l [symmetric] by (simp add: document_ids_def Let_def)
    then show "IsValidUlid (rbo_bin_id op)" using valid_registers(2) [OF v] by (simp add: list_all_iff)
    then show "rbo_bin_id op \<noteq> []" using IsValidUlid_nonempty by blast
  qed
  have free: "FindBin d' (rbo_bin_id op) = None" "FindTrack d' (rbo_bin_id op) = None" "FindClip d' (rbo_bin_id op) = None"
      "FindSource d' (rbo_bin_id op) = None" "FindLibraryMedia d' (rbo_bin_id op) = None"
    using bin_id_free [OF v, of "rbo_bin_id op", unfolded f, simplified] others
    unfolding Find_None_iffs media_ids_def timeline_ids_def by (auto simp: bs' same)
  have par: "bin_parent_id ?b = [] \<or> FindBin d' (bin_parent_id ?b) \<noteq> None"
  proof -
    have "bin_parent_id ?b \<noteq> bin_id ?b" using kids bin l by (auto simp: list_ex_iff)
    moreover have "set (doc_bins d) = insert ?b (set (butlast (doc_bins d)))"
      using ne by (metis append_butlast_last_id list.simps(15) rotate1.simps(2) set_rotate1)
    ultimately show ?thesis using valid_bins(1) [OF v bin] unfolding Find_None_iffs bs' by auto
  qed
  let ?o = "\<lparr>abo_bin_id = rbo_bin_id op, abo_name = bin_name ?b, abo_parent_id = bin_parent_id ?b\<rparr>"
  have eq: "\<lparr>bin_id = rbo_bin_id op, bin_name = bin_name ?b, bin_parent_id = bin_parent_id ?b\<rparr> = ?b"
    using l by simp
  have "ApplyAddBin g d' ?o = Inr (d, ?o, RemoveBin \<lparr>rbo_bin_id = rbo_bin_id op, rbo_name = bin_name ?b, rbo_parent_id = bin_parent_id ?b\<rparr>)"
    unfolding ApplyAddBin_def Let_def using ri id free n par v restored by (auto simp: eq)
  then show ?thesis using iv found l by auto
qed

end
