(* ===== verification/Edit_Undo.thy ===== *)
theory Edit_Undo
  imports Times_Undo Last_Undo
begin

text \<open>
  Which edits are exactly undone and redone, as an executable predicate, and the theorem
  that they are.
\<close>

named_theorems reversal \<open>each operation with its inverse and its redo\<close>

section \<open>Edits outside the tracks\<close>

lemma reverse_plain:
  assumes "valid d" and "valid d'" and "runs d' iv d" and "runs d op' d'"
    and "skips_lock_check iv \<or> addressed_tracks d' iv = []" and "skips_lock_check op' \<or> addressed_tracks d op' = []"
  shows "reverses d d' op' iv"
  by (rule reversesI [OF assms(1-4)]) (use assms(5,6) in auto)

lemma unlocked_same: "doc_tracks d' = doc_tracks d \<Longrightarrow> unlocked d' = unlocked d"
  by (simp add: unlocked_def FindTrack_def)

lemma reverse_transition:
  assumes "valid d" and "valid d'" and "runs d' iv d" and "runs d op' d'" and "doc_tracks d' = doc_tracks d"
    and "lock_free d op" and "set (addressed_tracks d' iv) \<subseteq> set (addressed_tracks d op)"
    and "set (addressed_tracks d op') \<subseteq> set (addressed_tracks d op)"
  shows "reverses d d' op' iv"
  by (rule reversesI [OF assms(1-4)]) (use assms(5-8) unlocked_same [OF assms(5)] in auto)

lemma reverse_AddTransition:
  assumes v: "valid d" and v': "valid d'" and a: "ApplyAddTransition g d op = Inr (d', w, iv)"
    and l: "lock_free d (AddTransition op)"
  shows "reverses d d' (AddTransition w) iv"
proof -
  let ?i = "trn_id (atr_transition w)"
  from a obtain k where k: "FindTransition d ?i = None"
    and d': "d' = with_transitions (insert_at k (atr_transition w)) d"
    and iv: "iv = RemoveTransition \<lparr>rtr_transition_id = ?i\<rparr>"
    and w: "trn_track_id (atr_transition w) = trn_track_id (atr_transition op)"
    by (auto simp: ApplyAddTransition_def Let_def split: if_splits)
  have "FindTransition d' ?i = Some (atr_transition w)"
    unfolding FindTransition_def d' with_items_fields
    by (rule find_insert_at) (use k in \<open>auto simp: FindTransition_def find_None_iff_all\<close>)
  with w iv have ad: "set (addressed_tracks d' iv) \<subseteq> set (addressed_tracks d (AddTransition op))" by simp
  show ?thesis
    by (rule reverse_transition [OF v v' _ _ _ l ad])
      (use undo_AddTransition [OF v a] redo_AddTransition [OF a] w in \<open>auto simp: d'\<close>)
qed

lemma reverse_RemoveTransition:
  assumes v: "valid d" and v': "valid d'" and a: "ApplyRemoveTransition d op = Inr (d', w, iv)"
    and l: "lock_free d (RemoveTransition op)"
  shows "reverses d d' (RemoveTransition w) iv"
proof -
  from a obtain t k where t: "FindTransition d (rtr_transition_id op) = Some t" and w: "w = op"
    and d': "doc_tracks d' = doc_tracks d" and iv: "iv = AddTransition \<lparr>atr_transition = t, atr_insertion_index = k\<rparr>"
    by (auto simp: ApplyRemoveTransition_def Let_def split: option.splits)
  have "\<exists>x y. dispatch g d' iv = Inr (d, x, y)" for g using undo_RemoveTransition [OF v a, of g] by auto
  then show ?thesis
    by (intro reverse_transition [OF v v' _ _ d' l]) (use a iv t w in auto)
qed

lemma reverse_UpdateTransition:
  assumes v: "valid d" and v': "valid d'" and a: "ApplyUpdateTransition d op = Inr (d', w, iv)"
    and l: "lock_free d (UpdateTransition op)"
  shows "reverses d d' (UpdateTransition w) iv"
proof -
  let ?P = "\<lambda>t. trn_id t = utr_transition_id op"
  from a obtain t h where t: "FindTransition d (utr_transition_id op) = Some t" and w: "w = op"
    and d': "d' = with_transitions (update_first ?P (\<lambda>t. t\<lparr>trn_type := utr_type op, trn_duration := utr_duration op,
                     trn_alignment := utr_alignment op\<rparr>)) d"
    and iv: "iv = UpdateTransition \<lparr>utr_transition_id = trn_id t, utr_type = trn_type t,
               utr_duration = trn_duration t, utr_alignment = trn_alignment t\<rparr>"
    by (auto simp: ApplyUpdateTransition_def Let_def split: option.splits)
  have i: "trn_id t = utr_transition_id op" using find_Some_D [OF t [unfolded FindTransition_def]] by simp
  have "map_option trn_track_id (FindTransition d' (utr_transition_id op)) = Some (trn_track_id t)"
    using t by (simp add: FindTransition_def d' find_update_first)
  then show ?thesis
    by (intro reverse_transition [OF v v' _ _ _ l])
      (use undo_UpdateTransition [OF v a] a iv t w i in \<open>auto simp: d'\<close>)
qed

section \<open>Edits of one or two clips\<close>

lemma reverse_clip:
  assumes v: "valid d" and v': "valid d'" and b: "runs d' iv d" and f: "runs d op' d'"
    and fr: "frame (set (addressed_tracks d op)) d d'" and l: "lock_free d op"
    and i: "addressed_tracks d' iv = clip_tracks d' cs" and a: "addressed_tracks d op = clip_tracks d cs"
    and o: "addressed_tracks d op' = clip_tracks d cs"
  shows "reverses d d' op' iv"
proof -
  have "set (addressed_tracks d' iv) \<subseteq> unlocked d'"
    using clip_tracks_after [OF v fr l] l by (simp add: i a)
  with reversesI [OF v v' b f] l o a show ?thesis by simp
qed

lemma clips_frame:
  assumes "valid d" and "d' = fold (\<lambda>(i, f). ModifyClip i f) es d" and "map fst es = cs"
  shows "frame (set (clip_tracks d cs)) d d'"
  unfolding assms(2)
proof (rule frame_fold [OF frame_refl])
  fix e x
  assume e: "e \<in> set es" and x: "frame (set (clip_tracks d cs)) d x"
  obtain i f where p: "e = (i, f)" by (cases e)
  have "i \<in> set cs" using e p assms(3) by force
  then have "lives_in d (set (clip_tracks d cs)) i" by (auto simp: lives_in_def set_clip_tracks)
  with frame_ModifyClip_step [OF assms(1) x] show "frame (set (clip_tracks d cs)) d ((\<lambda>(i, f). ModifyClip i f) e x)"
    by (simp add: p)
qed

lemma SetClipOpacity_frame:
  assumes v: "valid d" and a: "ApplySetClipOpacity d op = Inr (d', w, iv)"
  shows "frame (set (addressed_tracks d (SetClipOpacity op))) d d'"
proof -
  from a obtain f where "d' = ModifyClip (sop_clip_id op) f d"
    by (auto simp: ApplySetClipOpacity_def Let_def split: option.splits if_splits)
  with clips_frame [OF v, of d' "[(sop_clip_id op, f)]"]
  show ?thesis by simp
qed

lemma SetClipAudio_frame:
  assumes v: "valid d" and a: "ApplySetClipAudio d op = Inr (d', w, iv)"
  shows "frame (set (addressed_tracks d (SetClipAudio op))) d d'"
proof -
  from a obtain f where "d' = ModifyClip (sao_clip_id op) f d"
    by (auto simp: ApplySetClipAudio_def Let_def split: option.splits if_splits)
  with clips_frame [OF v, of d' "[(sao_clip_id op, f)]"]
  show ?thesis by simp
qed

lemma SetClipCaption_frame:
  assumes v: "valid d" and a: "ApplySetClipCaption d op = Inr (d', w, iv)"
  shows "frame (set (addressed_tracks d (SetClipCaption op))) d d'"
proof -
  from a obtain f where "d' = ModifyClip (scc_clip_id op) f d"
    by (auto simp: ApplySetClipCaption_def Let_def split: option.splits if_splits)
  with clips_frame [OF v, of d' "[(scc_clip_id op, f)]"]
  show ?thesis by simp
qed

lemma SetClipEffects_frame:
  assumes v: "valid d" and a: "ApplySetClipEffects g d op = Inr (d', w, iv)"
  shows "frame (set (addressed_tracks d (SetClipEffects op))) d d'"
proof -
  from a obtain f where "d' = ModifyClip (sfx_clip_id op) f d"
    by (auto simp: ApplySetClipEffects_def Let_def split: option.splits if_splits prod.splits)
  with clips_frame [OF v, of d' "[(sfx_clip_id op, f)]"]
  show ?thesis by simp
qed

lemma SetClipLink_frame:
  assumes v: "valid d" and a: "ApplySetClipLink d op = Inr (d', w, iv)"
  shows "frame (set (addressed_tracks d (SetClipLink op))) d d'"
proof -
  from a obtain x y where
    "d' = ModifyClip (slk_second_clip_id op) (set_link y) (ModifyClip (slk_first_clip_id op) (set_link x) d)"
    by (auto simp: ApplySetClipLink_def Let_def split: option.splits if_splits prod.splits)
  with clips_frame [OF v, of d' "[(slk_first_clip_id op, set_link x), (slk_second_clip_id op, set_link y)]"]
  show ?thesis by simp
qed

lemma reverse_SetClipOpacity:
  assumes v: "valid d" and v': "valid d'" and a: "ApplySetClipOpacity d op = Inr (d', w, iv)"
    and l: "lock_free d (SetClipOpacity op)"
  shows "reverses d d' (SetClipOpacity w) iv"
proof (rule reverse_clip [OF v v' _ _ _ l, where cs = "[sop_clip_id op]"])
  note u = undo_SetClipOpacity [OF v a]
  show "runs d' iv d" "addressed_tracks d' iv = clip_tracks d' [sop_clip_id op]" using u(1) by auto
  show "runs d (SetClipOpacity w) d'" "addressed_tracks d (SetClipOpacity w) = clip_tracks d [sop_clip_id op]"
    using u(2) a by auto
  show "frame (set (addressed_tracks d (SetClipOpacity op))) d d'" by (rule SetClipOpacity_frame [OF v a])
qed simp

lemma reverse_SetClipAudio:
  assumes v: "valid d" and v': "valid d'" and a: "ApplySetClipAudio d op = Inr (d', w, iv)"
    and l: "lock_free d (SetClipAudio op)"
  shows "reverses d d' (SetClipAudio w) iv"
proof (rule reverse_clip [OF v v' _ _ _ l, where cs = "[sao_clip_id op]"])
  note u = undo_SetClipAudio [OF v a]
  show "runs d' iv d" "addressed_tracks d' iv = clip_tracks d' [sao_clip_id op]" using u(1) by auto
  show "runs d (SetClipAudio w) d'" "addressed_tracks d (SetClipAudio w) = clip_tracks d [sao_clip_id op]"
    using u(2) a by auto
  show "frame (set (addressed_tracks d (SetClipAudio op))) d d'" by (rule SetClipAudio_frame [OF v a])
qed simp

lemma reverse_SetClipCaption:
  assumes v: "valid d" and v': "valid d'" and a: "ApplySetClipCaption d op = Inr (d', w, iv)"
    and l: "lock_free d (SetClipCaption op)"
  shows "reverses d d' (SetClipCaption w) iv"
proof (rule reverse_clip [OF v v' _ _ _ l, where cs = "[scc_clip_id op]"])
  note u = undo_SetClipCaption [OF v a]
  show "runs d' iv d" "addressed_tracks d' iv = clip_tracks d' [scc_clip_id op]" using u(1) by auto
  show "runs d (SetClipCaption w) d'" "addressed_tracks d (SetClipCaption w) = clip_tracks d [scc_clip_id op]"
    using u(2) a by auto
  show "frame (set (addressed_tracks d (SetClipCaption op))) d d'" by (rule SetClipCaption_frame [OF v a])
qed simp

lemma reverse_SetClipEffects:
  assumes v: "valid d" and v': "valid d'" and a: "ApplySetClipEffects g d op = Inr (d', w, iv)"
    and l: "lock_free d (SetClipEffects op)"
  shows "reverses d d' (SetClipEffects w) iv"
proof (rule reverse_clip [OF v v' _ _ _ l, where cs = "[sfx_clip_id op]"])
  note u = undo_SetClipEffects [OF v a v']
  have "\<exists>x y. dispatch g' d' iv = Inr (d, x, y)" for g' using u(1) [of g'] by auto
  then show "runs d' iv d" by blast
  show "addressed_tracks d' iv = clip_tracks d' [sfx_clip_id op]" using u(1) [of g] by auto
  have "\<exists>x y. dispatch g' d (SetClipEffects w) = Inr (d', x, y)" for g' using u(2) [of g'] by auto
  then show "runs d (SetClipEffects w) d'" by blast
  show "addressed_tracks d (SetClipEffects w) = clip_tracks d [sfx_clip_id op]" using u(3) by simp
  show "frame (set (addressed_tracks d (SetClipEffects op))) d d'" by (rule SetClipEffects_frame [OF v a])
qed simp

lemma reverse_SetClipLink:
  assumes v: "valid d" and v': "valid d'" and a: "ApplySetClipLink d op = Inr (d', w, iv)"
    and l: "lock_free d (SetClipLink op)"
  shows "reverses d d' (SetClipLink w) iv"
proof (rule reverse_clip [OF v v' _ _ _ l, where cs = "[slk_first_clip_id op, slk_second_clip_id op]"])
  note u = undo_SetClipLink [OF v a v']
  show "runs d' iv d" "addressed_tracks d' iv = clip_tracks d' [slk_first_clip_id op, slk_second_clip_id op]"
    using u(1) by auto
  show "runs d (SetClipLink w) d'" using u(2) by auto
  show "addressed_tracks d (SetClipLink w) = clip_tracks d [slk_first_clip_id op, slk_second_clip_id op]"
    using u(3,4) by simp
  show "frame (set (addressed_tracks d (SetClipLink op))) d d'" by (rule SetClipLink_frame [OF v a])
qed simp

lemma reverse_SplitClip:
  assumes v: "valid d" and v': "valid d'" and a: "ApplySplit g d op = Inr (d', w, iv, g')"
    and l: "lock_free d (SplitClip op)"
  shows "reverses d d' (SplitClip w) iv"
proof -
  from undo_Split [OF v a] obtain j x where iv: "iv = JoinClip j" and j: "ApplyJoin d' j = Inr (d, j, x)"
    and c: "set (clip_tracks d' [jco_left_clip_id j, jco_right_clip_id j]) \<subseteq> set (clip_tracks d [sco_clip_id op])"
    by blast
  have "sco_clip_id w = sco_clip_id op" using a by (rule ApplySplit_cases)
  then have ow: "lock_free d (SplitClip w)" using l by simp
  have f: "frame (set (clip_tracks d [sco_clip_id op])) d d'"
    by (rule ApplySplit_frame [OF v frame_refl _ a]) (auto simp: lives_in_def set_clip_tracks)
  have lv: "lock_free d' iv" using c l frame_unlocked [OF v f] by (simp add: iv)
  have "\<exists>x y. dispatch g' d (SplitClip w) = Inr (d', x, y)" for g' using redo_Split [OF a, of g'] by auto
  then show ?thesis by (intro reversesI [OF v v']) (use j iv ow lv in auto)
qed

section \<open>The edits that reverse exactly\<close>

text \<open>
  \<open>reversible d op\<close> says on which arguments the recorded inverse of an accepted operation
  is claimed exact; nothing of the source is called so.  It covers 49 of the 51 operations:

  \<^item> not \<open>JoinClip\<close>, which forgets what the right half had of its own (its name, gain,
    opacity, effects), nor \<open>SplitClipAtPositions\<close>, which is not proved here;
  \<^item> an insert, removal, move or detachment as a user asks for it, without a recorded result
    to replay; for an insert also that the end of the inserted range fits 64 bits;
  \<^item> a trim as a user asks for it, of a clip whose source range and place still fit 64 bits on
    the common grid of its times and the delta (\<open>trim_room\<close>): the undo computes the trim
    again from the trimmed clip before it restores the recorded times;
  \<^item> the removal of the last track or bin only: the inverse adds at the end of the vector, so
    any other comes back in another place (\<open>Edit_Laws\<close>), with the kind, index or name the
    inverse insists on;
  \<^item> the addition of an unlocked track, the renaming of a bin whose old name is allowed, and
    the removal of words whose linked clips are on unlocked tracks.
\<close>

fun reversible :: "Document \<Rightarrow> Operation \<Rightarrow> bool" where
  "reversible d (InsertClip v) =
     (ico_exact_timeline_result v = [] \<and>
      (case rt_add (ico_timeline_in v) (ico_duration v) of Inl _ \<Rightarrow> False | Inr _ \<Rightarrow> True))"
| "reversible d (TrimClip v) =
     (tco_exact_clip_result v = None \<and>
      (case FindClip d (tco_clip_id v) of None \<Rightarrow> True | Some c \<Rightarrow> trim_room c (tco_delta v)))"
| "reversible d (JoinClip _) = False"
| "reversible d (RemoveTrack v) =
     (doc_tracks d \<noteq> [] \<and>
      (let t = last (doc_tracks d) in
       trk_id t = rmt_track_id v \<and> trk_kind t \<in> {''video'', ''audio'', ''caption''} \<and> 0 \<le> trk_index t))"
| "reversible d (RemoveBin v) =
     (doc_bins d \<noteq> [] \<and>
      (let b = last (doc_bins d) in bin_id b = rbo_bin_id v \<and> \<not> bad_bin_name (bin_name b)))"
| "reversible d (SplitClipAtPositions _) = False"
| "reversible d (RemoveClip v) = (rco_exact_timeline_result v = [])"
| "reversible d (MoveClip v) = (mco_exact_track_result v = [])"
| "reversible d (DetachAudio v) = (dao_exact_track_result v = [])"
| "reversible d (AddTrack v) = (\<not> ato_locked v)"
| "reversible d (RenameBin v) =
     (case FindBin d (rnb_bin_id v) of None \<Rightarrow> True | Some b \<Rightarrow> \<not> bad_bin_name (bin_name b))"
| "reversible d (RemoveWords v) =
     list_all (\<lambda>i. case FindTrackForClip d i of None \<Rightarrow> True | Some t \<Rightarrow> \<not> trk_locked t) (rwo_linked_clip_ids v)"
| "reversible d _ = True"

lemma reverse_AddTrack:
  assumes v: "valid d" and v': "valid d'" and a: "ApplyAddTrack g d op = Inr (d', w, iv)" and n: "\<not> ato_locked op"
  shows "reverses d d' (AddTrack w) iv"
proof -
  from a have d': "d' = with_tracks (\<lambda>ts. ts @ [track_of_operation w]) d" and i: "FindTrack d (ato_track_id w) = None"
    and iv: "iv = RemoveTrack \<lparr>rmt_track_id = ato_track_id w\<rparr>" and w: "ato_locked w = ato_locked op"
    by (auto simp: ApplyAddTrack_def Let_def split: if_splits)
  have "FindTrack d' (ato_track_id w) = Some (track_of_operation w)"
    using i by (simp add: d' FindTrack_def find_append track_of_operation_def)
  then have l: "lock_free d' iv" using n w by (simp add: iv unlocked_def track_of_operation_def)
  have "\<exists>x y. dispatch g' d (AddTrack w) = Inr (d', x, y)" for g' using redo_AddTrack [OF a, of g'] by auto
  then show ?thesis by (intro reversesI [OF v v']) (use undo_AddTrack [OF v a] l in auto)
qed

lemma reverse_RemoveTrack:
  assumes v: "valid d" and v': "valid d'" and a: "ApplyRemoveTrack d op = Inr (d', w, iv)"
    and l: "lock_free d (RemoveTrack op)" and n: "reversible d (RemoveTrack op)"
  shows "reverses d d' (RemoveTrack w) iv"
proof -
  have c: "trk_id (last (doc_tracks d)) = rmt_track_id op"
      "trk_kind (last (doc_tracks d)) \<in> {''video'', ''audio'', ''caption''}" "0 \<le> trk_index (last (doc_tracks d))"
    using n by (simp_all add: Let_def)
  have w: "w = op" by (rule undo_RemoveTrack(2) [OF v a c])
  obtain r where r: "iv = AddTrack r" using undo_RemoveTrack(1) [OF v a c] by blast
  have u: "\<exists>x. ApplyAddTrack g d' r = Inr (d, r, x)" for g using undo_RemoveTrack(1) [OF v a c, of g] by (simp add: r)
  have b: "\<exists>x y. dispatch g d' iv = Inr (d, x, y)" for g using u [of g] by (auto simp: r)
  have f: "\<exists>x y. dispatch g d (RemoveTrack w) = Inr (d', x, y)" for g using a w by auto
  show ?thesis by (intro reversesI [OF v v']) (use b f l w r in auto)
qed

lemma reverse_RemoveBin:
  assumes v: "valid d" and v': "valid d'" and a: "ApplyRemoveBin d op = Inr (d', w, iv)"
    and n: "reversible d (RemoveBin op)"
  shows "reverses d d' (RemoveBin w) iv"
proof -
  have c: "bin_id (last (doc_bins d)) = rbo_bin_id op" "\<not> bad_bin_name (bin_name (last (doc_bins d)))"
    using n by (simp_all add: Let_def)
  obtain r where r: "iv = AddBin r" using undo_RemoveBin [OF v a c] by blast
  have u: "\<exists>x. ApplyAddBin g d' r = Inr (d, r, x)" for g using undo_RemoveBin [OF v a c, of g] by (simp add: r)
  have b: "\<exists>x y. dispatch g d' iv = Inr (d, x, y)" for g using u [of g] by (auto simp: r)
  have f: "\<exists>x y. dispatch g d (RemoveBin w) = Inr (d', x, y)" for g using redo_RemoveBin [OF a] by auto
  show ?thesis by (intro reversesI [OF v v']) (use b f r in auto)
qed

lemma reverse_RenameBin:
  assumes v: "valid d" and v': "valid d'" and a: "ApplyRenameBin d op = Inr (d', w, iv)"
    and n: "reversible d (RenameBin op)"
  shows "reverses d d' (RenameBin w) iv"
proof -
  have w: "w = op" using a by (auto simp: ApplyRenameBin_def split: option.splits if_splits)
  have "\<not> bad_bin_name (bin_name b)" if "FindBin d (rnb_bin_id op) = Some b" for b using n that by simp
  from undo_RenameBin [OF v a this] obtain r x where "iv = RenameBin r" "ApplyRenameBin d' r = Inr (d, r, x)" by blast
  then show ?thesis by (intro reverse_plain [OF v v']) (use a w in auto)
qed

text \<open>Operations that draw no identifier are logged as they were asked.\<close>

lemma logged_as_asked:
  "ApplySetTrackLock d v1 = Inr (d', w1, iv) \<Longrightarrow> w1 = v1"
  "ApplySetTrackSyncLock d v2 = Inr (d', w2, iv) \<Longrightarrow> w2 = v2"
  "ApplySetTrackOutput d v3 = Inr (d', w3, iv) \<Longrightarrow> w3 = v3"
  "ApplyUpdateSequence d v4 = Inr (d', w4, iv) \<Longrightarrow> w4 = v4"
  "ApplySetColorManagement d v5 = Inr (d', w5, iv) \<Longrightarrow> w5 = v5"
  "ApplyMoveBin d v6 = Inr (d', w6, iv) \<Longrightarrow> w6 = v6"
  "ApplySetMediaBin d v7 = Inr (d', w7, iv) \<Longrightarrow> w7 = v7"
  "ApplyRemoveMarker d v8 = Inr (d', w8, iv) \<Longrightarrow> w8 = v8"
  "ApplyUpdateMarker d v9 = Inr (d', w9, iv) \<Longrightarrow> w9 = v9"
  "ApplyRemoveCaptionStyle d v10 = Inr (d', w10, iv) \<Longrightarrow> w10 = v10"
  "ApplyRemoveMulticamGroup d v11 = Inr (d', w11, iv) \<Longrightarrow> w11 = v11"
  "ApplySetMulticamActiveAngle d v12 = Inr (d', w12, iv) \<Longrightarrow> w12 = v12"
  by (auto simp: ApplySetTrackLock_def ApplySetTrackSyncLock_def ApplySetTrackOutput_def ApplyUpdateSequence_def
      ApplySetColorManagement_def ApplyMoveBin_def ApplySetMediaBin_def ApplyRemoveMarker_def ApplyUpdateMarker_def
      ApplyRemoveCaptionStyle_def ApplyRemoveMulticamGroup_def ApplySetMulticamActiveAngle_def Let_def
      split: option.splits if_splits sum.splits)

lemma reverse_SetTrackLock [reversal]:
  assumes v: "valid d" and v': "valid d'" and a: "ApplySetTrackLock d op = Inr (d', w, iv)"
  shows "reverses d d' (SetTrackLock w) iv"
proof -
  have "\<exists>x y. dispatch g d' iv = Inr (d, x, y)" for g using undo_SetTrackLock [OF v a] by auto
  then show ?thesis
    by (intro reverse_plain [OF v v']) (use undo_SetTrackLock [OF v a] logged_as_asked(1) [OF a] a in auto)
qed

lemma reverse_SetTrackSyncLock [reversal]:
  assumes v: "valid d" and v': "valid d'" and a: "ApplySetTrackSyncLock d op = Inr (d', w, iv)"
  shows "reverses d d' (SetTrackSyncLock w) iv"
proof -
  have "\<exists>x y. dispatch g d' iv = Inr (d, x, y)" for g using undo_SetTrackSyncLock [OF v a] by auto
  then show ?thesis
    by (intro reverse_plain [OF v v']) (use undo_SetTrackSyncLock [OF v a] logged_as_asked(2) [OF a] a in auto)
qed

lemma reverse_SetTrackOutput [reversal]:
  assumes v: "valid d" and v': "valid d'" and a: "ApplySetTrackOutput d op = Inr (d', w, iv)"
  shows "reverses d d' (SetTrackOutput w) iv"
proof -
  have "\<exists>x y. dispatch g d' iv = Inr (d, x, y)" for g using undo_SetTrackOutput [OF v a] by auto
  then show ?thesis
    by (intro reverse_plain [OF v v']) (use undo_SetTrackOutput [OF v a] logged_as_asked(3) [OF a] a in auto)
qed

lemma reverse_UpdateSequence [reversal]:
  assumes v: "valid d" and v': "valid d'" and a: "ApplyUpdateSequence d op = Inr (d', w, iv)"
  shows "reverses d d' (UpdateSequence w) iv"
proof -
  have "\<exists>x y. dispatch g d' iv = Inr (d, x, y)" for g using undo_UpdateSequence [OF v a] by auto
  then show ?thesis
    by (intro reverse_plain [OF v v']) (use undo_UpdateSequence [OF v a] logged_as_asked(4) [OF a] a in auto)
qed

lemma reverse_SetColorManagement [reversal]:
  assumes v: "valid d" and v': "valid d'" and a: "ApplySetColorManagement d op = Inr (d', w, iv)"
  shows "reverses d d' (SetColorManagement w) iv"
proof -
  have "\<exists>x y. dispatch g d' iv = Inr (d, x, y)" for g using undo_SetColorManagement [OF v a] by auto
  then show ?thesis
    by (intro reverse_plain [OF v v']) (use undo_SetColorManagement [OF v a] logged_as_asked(5) [OF a] a in auto)
qed

lemma reverse_MoveBin [reversal]:
  assumes v: "valid d" and v': "valid d'" and a: "ApplyMoveBin d op = Inr (d', w, iv)"
  shows "reverses d d' (MoveBin w) iv"
proof -
  have "\<exists>x y. dispatch g d' iv = Inr (d, x, y)" for g using undo_MoveBin [OF v a] by auto
  then show ?thesis
    by (intro reverse_plain [OF v v']) (use undo_MoveBin [OF v a] logged_as_asked(6) [OF a] a in auto)
qed

lemma reverse_SetMediaBin [reversal]:
  assumes v: "valid d" and v': "valid d'" and a: "ApplySetMediaBin d op = Inr (d', w, iv)"
  shows "reverses d d' (SetMediaBin w) iv"
proof -
  have "\<exists>x y. dispatch g d' iv = Inr (d, x, y)" for g using undo_SetMediaBin [OF v a] by auto
  then show ?thesis
    by (intro reverse_plain [OF v v']) (use undo_SetMediaBin [OF v a] logged_as_asked(7) [OF a] a in auto)
qed

lemma reverse_UpdateMarker [reversal]:
  assumes v: "valid d" and v': "valid d'" and a: "ApplyUpdateMarker d op = Inr (d', w, iv)"
  shows "reverses d d' (UpdateMarker w) iv"
proof -
  have "\<exists>x y. dispatch g d' iv = Inr (d, x, y)" for g using undo_UpdateMarker [OF v a] by auto
  then show ?thesis
    by (intro reverse_plain [OF v v']) (use undo_UpdateMarker [OF v a] logged_as_asked(9) [OF a] a in auto)
qed

lemma reverse_RemoveMarker [reversal]:
  assumes v: "valid d" and v': "valid d'" and a: "ApplyRemoveMarker d op = Inr (d', w, iv)"
  shows "reverses d d' (RemoveMarker w) iv"
proof -
  have "\<exists>x y. dispatch g d' iv = Inr (d, x, y)" for g using undo_RemoveMarker [OF v a, of g] by auto
  then show ?thesis
    by (intro reverse_plain [OF v v']) (use undo_RemoveMarker [OF v a, of "\<lambda>_. []"] logged_as_asked(8) [OF a] a in auto)
qed

lemma reverse_RemoveCaptionStyle [reversal]:
  assumes v: "valid d" and v': "valid d'" and a: "ApplyRemoveCaptionStyle d op = Inr (d', w, iv)"
  shows "reverses d d' (RemoveCaptionStyle w) iv"
proof -
  have "\<exists>x y. dispatch g d' iv = Inr (d, x, y)" for g using undo_RemoveCaptionStyle [OF v a, of g] by auto
  then show ?thesis
    by (intro reverse_plain [OF v v']) (use undo_RemoveCaptionStyle [OF v a, of "\<lambda>_. []"] logged_as_asked(10) [OF a] a in auto)
qed

lemma reverse_RemoveMulticamGroup [reversal]:
  assumes v: "valid d" and v': "valid d'" and a: "ApplyRemoveMulticamGroup d op = Inr (d', w, iv)"
  shows "reverses d d' (RemoveMulticamGroup w) iv"
proof -
  have "\<exists>x y. dispatch g d' iv = Inr (d, x, y)" for g using undo_RemoveMulticamGroup [OF v a, of g] by auto
  then show ?thesis
    by (intro reverse_plain [OF v v']) (use undo_RemoveMulticamGroup [OF v a, of "\<lambda>_. []"] logged_as_asked(11) [OF a] a in auto)
qed

lemma reverse_SetMulticamActiveAngle [reversal]:
  assumes v: "valid d" and v': "valid d'" and a: "ApplySetMulticamActiveAngle d op = Inr (d', w, iv)"
  shows "reverses d d' (SetMulticamActiveAngle w) iv"
proof -
  have "\<exists>x y. dispatch g d' iv = Inr (d, x, y)" for g using undo_SetMulticamActiveAngle [OF v a] by auto
  then show ?thesis
    by (intro reverse_plain [OF v v']) (use undo_SetMulticamActiveAngle [OF v a] logged_as_asked(12) [OF a] a in auto)
qed

lemma reverse_AddBin [reversal]:
  assumes v: "valid d" and v': "valid d'" and a: "ApplyAddBin g d op = Inr (d', w, iv)"
  shows "reverses d d' (AddBin w) iv"
  by (intro reverse_plain [OF v v']) (use undo_AddBin [OF v a] redo_AddBin [OF a] in auto)

lemma reverse_AddMarker [reversal]:
  assumes v: "valid d" and v': "valid d'" and a: "ApplyAddMarker g d op = Inr (d', w, iv)"
  shows "reverses d d' (AddMarker w) iv"
  by (intro reverse_plain [OF v v']) (use undo_AddMarker [OF v a] redo_AddMarker [OF a] in auto)

lemma reverse_AddCaptionStyle [reversal]:
  assumes v: "valid d" and v': "valid d'" and a: "ApplyAddCaptionStyle g d op = Inr (d', w, iv)"
  shows "reverses d d' (AddCaptionStyle w) iv"
  by (intro reverse_plain [OF v v']) (use undo_AddCaptionStyle [OF v a] redo_AddCaptionStyle [OF a] in auto)

lemma reverse_AddMulticamGroup [reversal]:
  assumes v: "valid d" and v': "valid d'" and a: "ApplyAddMulticamGroup g d op = Inr (d', w, iv)"
  shows "reverses d d' (AddMulticamGroup w) iv"
  by (intro reverse_plain [OF v v']) (use undo_AddMulticamGroup [OF v a] redo_AddMulticamGroup [OF a] in auto)

text \<open>The whole dispatch: \<open>RemoveWords\<close> is the one operation that needs its linked clips' tracks free.\<close>

lemma linked_tracks_free:
  "list_all (\<lambda>i. case FindTrackForClip d i of None \<Rightarrow> True | Some t \<Rightarrow> \<not> trk_locked t) ids \<Longrightarrow> valid d \<Longrightarrow>
   set (clip_tracks d ids) \<subseteq> unlocked d"
  using FindTrackForClip_Some FindTrack_unique [OF valid_distinct_tracks(1)]
  by (fastforce simp: set_clip_tracks unlocked_def list_all_iff)

definition free_of_locks :: "Document \<Rightarrow> Operation \<Rightarrow> bool" where
  "free_of_locks d op \<longleftrightarrow> lock_free d op"

lemmas track_reversals = reverse_ClearClip reverse_ClearClips reverse_TrimLinkedClips reverse_RippleTrim
  reverse_TrimBoundaryAir reverse_RollEdit reverse_SlipEdit reverse_RemoveLinkedClips reverse_ClearLinkedClips
  reverse_MoveClips reverse_MoveLinkedClips reverse_PasteClips reverse_SplitLinkedClips reverse_DeleteGap
  reverse_SplitClip reverse_SetClipOpacity reverse_SetClipAudio reverse_SetClipCaption reverse_SetClipEffects
  reverse_SetClipLink reverse_AddTransition reverse_RemoveTransition reverse_UpdateTransition

lemmas free_reversals = track_reversals [folded free_of_locks_def]

lemma dispatch_reverses:
  assumes v: "valid d" and v': "valid d'" and a: "dispatch g d op = Inr (d', op', iv)"
    and l: "skips_lock_check op \<or> lock_free d op" and r: "reversible d op"
  shows "reverses d d' op' iv"
proof (cases op)
  case (RemoveWords w)
  with a obtain z where z: "ApplyRemoveWords g d w = Inr (d', z, iv)" and o: "op' = RemoveWords z" by auto
  have "lock_free d (RemoveWords w)" using l RemoveWords by simp
  moreover have "set (clip_tracks d (rwo_linked_clip_ids w)) \<subseteq> unlocked d"
    using linked_tracks_free [OF _ v] r RemoveWords by simp
  ultimately show ?thesis unfolding o by (rule reverse_RemoveWords [OF v v' z])
next
  case (RemoveClip w)
  with a obtain z where z: "ApplyRemove d w = Inr (d', z, iv)" and o: "op' = RemoveClip z" by auto
  have "lock_free d (RemoveClip w)" and "rco_exact_timeline_result w = []" using l r RemoveClip by simp_all
  then show ?thesis unfolding o by (rule reverse_RemoveClip [OF v v' z])
next
  case (MoveClip w)
  with a obtain z h where z: "ApplyMove g d w = Inr (d', z, iv, h)" and o: "op' = MoveClip z" by auto
  have "lock_free d (MoveClip w)" and "mco_exact_track_result w = []" using l r MoveClip by simp_all
  then show ?thesis unfolding o by (rule reverse_MoveClip [OF v v' z])
next
  case (DetachAudio w)
  with a obtain z where z: "ApplyDetachAudio g d w = Inr (d', z, iv)" and o: "op' = DetachAudio z" by auto
  have "lock_free d (DetachAudio w)" and "dao_exact_track_result w = []" using l r DetachAudio by simp_all
  then show ?thesis unfolding o by (rule reverse_DetachAudio [OF v v' z])
next
  case (InsertClip w)
  with a obtain z where z: "ApplyInsert g d w = Inr (d', z, iv)" and o: "op' = InsertClip z" by auto
  have lk: "lock_free d (InsertClip w)" and e: "ico_exact_timeline_result w = []" using l r InsertClip by simp_all
  from r InsertClip obtain stop where "rt_add (ico_timeline_in w) (ico_duration w) = Inr stop" by (auto split: sum.splits)
  then show ?thesis unfolding o by (rule reverse_InsertClip [OF v v' z lk e])
next
  case (TrimClip w)
  with a obtain z where z: "ApplyTrim d w = Inr (d', z, iv)" and o: "op' = TrimClip z" by auto
  have lk: "lock_free d (TrimClip w)" and e: "tco_exact_clip_result w = None" using l r TrimClip by simp_all
  have room: "trim_room c (tco_delta w)" if "FindClip d (tco_clip_id w) = Some c" for c using r TrimClip that by simp
  show ?thesis unfolding o by (rule reverse_TrimClip [OF v v' z e room lk])
next
  case (RemoveTrack w)
  with a obtain z where z: "ApplyRemoveTrack d w = Inr (d', z, iv)" and o: "op' = RemoveTrack z" by auto
  have lk: "lock_free d (RemoveTrack w)" using l RemoveTrack by simp
  show ?thesis unfolding o by (rule reverse_RemoveTrack [OF v v' z lk r [unfolded RemoveTrack]])
next
  case (RemoveBin w)
  with a obtain z where z: "ApplyRemoveBin d w = Inr (d', z, iv)" and o: "op' = RemoveBin z" by auto
  show ?thesis unfolding o by (rule reverse_RemoveBin [OF v v' z r [unfolded RemoveBin]])
next
  case (AddTrack w)
  with a r show ?thesis by (auto intro: reverse_AddTrack [OF v v'])
next
  case (RenameBin w)
  with a r show ?thesis by (auto intro: reverse_RenameBin [OF v v'])
qed (use a l [folded free_of_locks_def] in \<open>auto intro: reversal [OF v v'] free_reversals [OF v v']\<close>,
     use r in auto)

end
