(* ===== verification/Lock_Safety.thy ===== *)
theory Lock_Safety
  imports Edit_Undo
begin

text \<open>
  What a track lock protects: the tracks that an accepted edit of clips may change are
  those whose locks \<open>LockedTrackTouchedBy\<close> looked at, so a locked track is still in the
  document, unchanged.
\<close>

text \<open>The edits of clips on the tracks, with the two whose lock check misses a track left out.\<close>

fun edits_clips :: "Operation \<Rightarrow> bool" where
  "edits_clips (SplitClipAtPositions _) = False"
| "edits_clips (RemoveWords v) = (rwo_linked_clip_ids v = [])"
| "edits_clips (AddTrack _) = False"
| "edits_clips (RemoveTrack _) = False"
| "edits_clips (SetTrackLock _) = False"
| "edits_clips (SetTrackSyncLock _) = False"
| "edits_clips (SetTrackOutput _) = False"
| "edits_clips _ = True"

named_theorems edit_frame \<open>the frame of each edit of clips\<close>

lemma record_frame: "edit_record d d' A ids \<Longrightarrow> frame A d d'"
  unfolding edit_record_def using frame_mono by blast

lemma ClearClip_frame [edit_frame]:
  assumes "valid d" and "ApplyClear d op = Inr (d', w, iv)"
  shows "frame (set (addressed_tracks d (ClearClip op))) d d'"
  by (rule Clear_effect [OF assms]) (rule record_frame)

lemma ClearClips_frame [edit_frame]:
  assumes "valid d" and "ApplyClearClips d op = Inr (d', w, iv)"
  shows "frame (set (addressed_tracks d (ClearClips op))) d d'"
  by (rule ClearClips_effect [OF assms]) (rule record_frame)

lemma PasteClips_frame [edit_frame]:
  assumes "valid d" and "ApplyPasteClips g d op = Inr (d', w, iv)"
  shows "frame (set (addressed_tracks d (PasteClips op))) d d'"
  by (rule PasteClips_effect [OF assms]) (rule record_frame)

lemma MoveClip_frame [edit_frame]:
  assumes "valid d" and "ApplyMove g d op = Inr (d', w, iv, g')"
  shows "frame (set (addressed_tracks d (MoveClip op))) d d'"
  by (rule Move_effect [OF assms]) (rule record_frame)

lemma MoveClips_frame [edit_frame]:
  assumes "valid d" and "ApplyMoveClips g d op = Inr (d', w, iv)"
  shows "frame (set (addressed_tracks d (MoveClips op))) d d'"
  by (rule MoveClips_effect [OF assms]) (rule record_frame)

lemma MoveLinkedClips_frame [edit_frame]:
  assumes "valid d" and "ApplyMoveLinked g d op = Inr (d', w, iv)"
  shows "frame (set (addressed_tracks d (MoveLinkedClips op))) d d'"
  by (rule MoveLinked_effect [OF assms]) (rule record_frame)

lemma TrimLinkedClips_frame [edit_frame]:
  assumes "valid d" and "ApplyTrimLinked d op = Inr (d', w, iv)"
  shows "frame (set (addressed_tracks d (TrimLinkedClips op))) d d'"
  by (rule TrimLinked_effect [OF assms]) (rule record_frame)

lemma RippleTrim_frame [edit_frame]:
  assumes "valid d" and "ApplyRippleTrim d op = Inr (d', w, iv)"
  shows "frame (set (addressed_tracks d (RippleTrim op))) d d'"
  by (rule RippleTrim_effect [OF assms]) (rule record_frame)

lemma TrimBoundaryAir_frame [edit_frame]:
  assumes "valid d" and "ApplyTrimBoundaryAir d op = Inr (d', w, iv)"
  shows "frame (set (addressed_tracks d (TrimBoundaryAir op))) d d'"
  by (rule TrimBoundaryAir_effect [OF assms]) (rule record_frame)

lemma RollEdit_frame [edit_frame]:
  assumes "valid d" and "ApplyRollEdit d op = Inr (d', w, iv)"
  shows "frame (set (addressed_tracks d (RollEdit op))) d d'"
  by (rule RollEdit_effect [OF assms]) (rule record_frame)

lemma SlipEdit_frame [edit_frame]:
  assumes "valid d" and "ApplySlipEdit d op = Inr (d', w, iv)"
  shows "frame (set (addressed_tracks d (SlipEdit op))) d d'"
  by (rule SlipEdit_effect [OF assms]) (rule record_frame)

lemma RemoveLinkedClips_frame [edit_frame]:
  assumes "valid d" and "ApplyRemoveLinked d op = Inr (d', w, iv)"
  shows "frame (set (addressed_tracks d (RemoveLinkedClips op))) d d'"
  by (rule RemoveLinked_effect [OF assms]) (rule record_frame)

lemma ClearLinkedClips_frame [edit_frame]:
  assumes "valid d" and "ApplyClearLinked d op = Inr (d', w, iv)"
  shows "frame (set (addressed_tracks d (ClearLinkedClips op))) d d'"
  by (rule ClearLinked_effect [OF assms]) (rule record_frame)

lemma SplitLinkedClips_frame [edit_frame]:
  assumes "valid d" and "ApplySplitLinked g d op = Inr (d', w, iv, g')"
  shows "frame (set (addressed_tracks d (SplitLinkedClips op))) d d'"
  by (rule SplitLinked_effect [OF assms]) (rule record_frame)

lemma DeleteGap_frame [edit_frame]:
  assumes "valid d" and "ApplyDeleteGap d op = Inr (d', w, iv)"
  shows "frame (set (addressed_tracks d (DeleteGap op))) d d'"
  by (rule record_frame [OF DeleteGap_effect(1) [OF assms]])

lemma RemoveWords_frame [edit_frame]:
  assumes "valid d" and "ApplyRemoveWords g d op = Inr (d', w, iv)" and "rwo_linked_clip_ids op = []"
  shows "frame (set (addressed_tracks d (RemoveWords op))) d d'"
proof (rule RemoveWords_effect [OF assms(1,2)])
  fix ids
  assume "edit_record d d' (set (addressed_tracks d (RemoveWords op)) \<union> set (clip_tracks d (rwo_linked_clip_ids op))) ids"
  from record_frame [OF this] show ?thesis by (simp add: assms(3) clip_tracks_def)
qed

lemma Split_frame [edit_frame]:
  assumes "valid d" and "ApplySplit g d op = Inr (d', w, iv, g')"
  shows "frame (set (addressed_tracks d (SplitClip op))) d d'"
  by (rule ApplySplit_frame [OF assms(1) frame_refl _ assms(2)]) (auto simp: lives_in_def set_clip_tracks)

lemma DetachAudio_frame [edit_frame]:
  assumes v: "valid d" and a: "ApplyDetachAudio g d op = Inr (d', w, iv)"
  shows "frame (set (addressed_tracks d (DetachAudio op))) d d'"
proof (cases "dao_exact_track_result op = []")
  case True
  show ?thesis by (rule DetachAudio_effect [OF v a True]) (rule record_frame)
next
  case False
  with a obtain before where "replay_exact ''exact detach state references an unknown track'' d
      (dao_exact_track_result op) = Inr (d', before)"
    by (auto simp: ApplyDetachAudio_def Let_def split: option.splits)
  from replay_effect(1) [OF this] have "frame (set (map ets_track_id (dao_exact_track_result op))) d d'" by blast
  then show ?thesis by (rule frame_mono) auto
qed

lemmas clip_frames = Insert_frame Remove_frame Trim_frame ApplyJoin_frame SetClipOpacity_frame SetClipAudio_frame
  SetClipCaption_frame SetClipEffects_frame SetClipLink_frame

lemma unlocked_other_edits:
  "ApplyUpdateSequence d o1 = Inr (d', w1, iv) \<Longrightarrow> doc_tracks d' = doc_tracks d"
  "ApplySetColorManagement d o2 = Inr (d', w2, iv) \<Longrightarrow> doc_tracks d' = doc_tracks d"
  "ApplyAddBin g d o3 = Inr (d', w3, iv) \<Longrightarrow> doc_tracks d' = doc_tracks d"
  "ApplyRemoveBin d o4 = Inr (d', w4, iv) \<Longrightarrow> doc_tracks d' = doc_tracks d"
  "ApplyRenameBin d o5 = Inr (d', w5, iv) \<Longrightarrow> doc_tracks d' = doc_tracks d"
  "ApplyMoveBin d o6 = Inr (d', w6, iv) \<Longrightarrow> doc_tracks d' = doc_tracks d"
  "ApplySetMediaBin d o7 = Inr (d', w7, iv) \<Longrightarrow> doc_tracks d' = doc_tracks d"
  "ApplyAddMarker g d o8 = Inr (d', w8, iv) \<Longrightarrow> doc_tracks d' = doc_tracks d"
  "ApplyRemoveMarker d o9 = Inr (d', w9, iv) \<Longrightarrow> doc_tracks d' = doc_tracks d"
  "ApplyUpdateMarker d p1 = Inr (d', x1, iv) \<Longrightarrow> doc_tracks d' = doc_tracks d"
  "ApplyAddTransition g d p2 = Inr (d', x2, iv) \<Longrightarrow> doc_tracks d' = doc_tracks d"
  "ApplyRemoveTransition d p3 = Inr (d', x3, iv) \<Longrightarrow> doc_tracks d' = doc_tracks d"
  "ApplyUpdateTransition d p4 = Inr (d', x4, iv) \<Longrightarrow> doc_tracks d' = doc_tracks d"
  "ApplyAddCaptionStyle g d p5 = Inr (d', x5, iv) \<Longrightarrow> doc_tracks d' = doc_tracks d"
  "ApplyRemoveCaptionStyle d p6 = Inr (d', x6, iv) \<Longrightarrow> doc_tracks d' = doc_tracks d"
  "ApplyAddMulticamGroup g d p7 = Inr (d', x7, iv) \<Longrightarrow> doc_tracks d' = doc_tracks d"
  "ApplyRemoveMulticamGroup d p8 = Inr (d', x8, iv) \<Longrightarrow> doc_tracks d' = doc_tracks d"
  "ApplySetMulticamActiveAngle d p9 = Inr (d', x9, iv) \<Longrightarrow> doc_tracks d' = doc_tracks d"
  by (auto simp: ApplyUpdateSequence_def ApplySetColorManagement_def ApplyAddBin_def ApplyRemoveBin_def
      ApplyRenameBin_def ApplyMoveBin_def ApplySetMediaBin_def ApplyAddMarker_def ApplyRemoveMarker_def
      ApplyUpdateMarker_def ApplyAddTransition_def ApplyRemoveTransition_def ApplyUpdateTransition_def
      ApplyAddCaptionStyle_def ApplyRemoveCaptionStyle_def ApplyAddMulticamGroup_def
      ApplyRemoveMulticamGroup_def ApplySetMulticamActiveAngle_def with_bins_def with_library_def Let_def
      split: option.splits if_splits sum.splits prod.splits)

lemma frame_locked:
  assumes "frame S d d'" and "S \<subseteq> unlocked d" and "valid d" and "t \<in> set (doc_tracks d)" and "trk_locked t"
  shows "t \<in> set (doc_tracks d')"
proof -
  have "FindTrack d (trk_id t) = Some t"
    by (rule FindTrack_unique [OF valid_distinct_tracks(1) [OF assms(3)] assms(4)])
  with assms(2,5) have n: "trk_id t \<notin> S" by (auto simp: unlocked_def)
  from assms(4) obtain k where k: "k < length (doc_tracks d)" "doc_tracks d ! k = t" by (auto simp: in_set_conv_nth)
  from assms(1) k n have "doc_tracks d' ! k = t" "k < length (doc_tracks d')"
    by (auto simp: frame_def list_all2_conv_all_nth)
  then show ?thesis by (metis nth_mem)
qed

lemma dispatch_keeps_locked:
  assumes v: "valid d" and a: "dispatch g d op = Inr (d', op', iv)" and e: "edits_clips op"
    and l: "set (addressed_tracks d op) \<subseteq> unlocked d" and t: "t \<in> set (doc_tracks d)" "trk_locked t"
  shows "t \<in> set (doc_tracks d')"
proof -
  have "frame (set (addressed_tracks d op)) d d' \<or> doc_tracks d' = doc_tracks d"
    using a e by (cases op) (auto dest: unlocked_other_edits simp del: addressed_tracks.simps
        intro: edit_frame [OF v] clip_frames [OF v])
  then show ?thesis using frame_locked [OF _ l v t] t(1) by auto
qed

end
