(* ===== verification/Sample_Document.thy ===== *)
theory Sample_Document
  imports Document_Validate
begin

text \<open>
  A small concrete document, used by the witnesses: one 100-second source, a video
  track with two contiguous clips, an empty second video track, and an audio track
  with one clip linked to the first video clip.
\<close>

definition u :: "char \<Rightarrow> Ulid" where
  "u c = ''01ARZ3NDEKTSV4RRFFQ69G5FA'' @ [c]"

definition sample_clip :: "char \<Rightarrow> int \<Rightarrow> int \<Rightarrow> int \<Rightarrow> DocumentClip" where
  "sample_clip c s dur t = (new_clip (u c) (u CHR ''0'') (RT s 25) (RT dur 25) (RT t 25))
     \<lparr>clip_include_audio := False\<rparr>"

definition sample_track :: "char \<Rightarrow> string \<Rightarrow> int \<Rightarrow> DocumentClip list \<Rightarrow> DocumentTrack" where
  "sample_track c kind i clips =
     \<lparr>trk_id = u c, trk_kind = kind, trk_index = i, trk_clips = clips, trk_locked = False,
      trk_sync_lock = True, trk_visible = True, trk_muted = False, trk_solo = False\<rparr>"

definition sample_color :: ColorManagementSettings where
  "sample_color =
     \<lparr>cm_enabled = False, cm_input_gamut = ''rec709'', cm_input_transfer = ''rec709'',
      cm_input_ycbcr_matrix = ''auto'', cm_input_range = ''auto'', cm_working_gamut = ''acescct'',
      cm_output_gamut = ''rec709'', cm_output_transfer = ''rec709''\<rparr>"

definition sample_source :: DocumentSource where
  "sample_source =
     \<lparr>src_id = u CHR ''0'', src_path = ''a.mov'', src_rate = \<lparr>mr_num = 25, mr_den = 1\<rparr>,
      src_duration = RT 2500 25\<rparr>"

definition sample_media :: LibraryMedia where
  "sample_media =
     \<lparr>med_id = u CHR ''0'', med_path = ''a.mov'', med_filename = ''a.mov'', med_codec = ''h264'',
      med_has_video = True, med_width = 1920, med_height = 1080, med_pixel_format = [],
      med_color_range = [], med_color_space = [], med_color_transfer = [],
      med_color_primaries = [], med_rotation_degrees = 0,
      med_rate = \<lparr>mr_num = 25, mr_den = 1\<rparr>, med_duration = RT 2500 25,
      med_orientation = ''landscape'', med_has_audio = True, med_audio_rate = 48000,
      med_audio_channels = 2, med_audio_level_measured = False, med_audio_level = 0,
      med_bin_id = u CHR ''9'', med_proxy_path = [], med_metadata_complete = True\<rparr>"

definition link :: "char \<Rightarrow> DocumentClip \<Rightarrow> DocumentClip" where
  "link a c = c\<lparr>clip_link_group_id := u CHR ''G'', clip_sync_anchor_clip_id := u a\<rparr>"

definition sample_doc_with :: "DocumentTrack list \<Rightarrow> Document" where
  "sample_doc_with tracks =
     \<lparr>doc_version = 7,
      doc_sequence =
        \<lparr>seq_id = u CHR ''S'', seq_name = ''Sequence 1'', seq_width = 1920, seq_height = 1080,
         seq_frame_rate = \<lparr>mr_num = 25, mr_den = 1\<rparr>, seq_markers = [], seq_transitions = [],
         seq_tracks = tracks, seq_caption_styles = [], seq_multicam_groups = []\<rparr>,
      doc_color_management = sample_color,
      doc_library = [sample_media],
      doc_bins = [\<lparr>bin_id = u CHR ''8'', bin_name = ''Rushes'', bin_parent_id = []\<rparr>,
                  \<lparr>bin_id = u CHR ''9'', bin_name = ''Day 1'', bin_parent_id = u CHR ''8''\<rparr>],
      doc_sources = [sample_source]\<rparr>"

definition sample_doc :: Document where
  "sample_doc = sample_doc_with
     [sample_track CHR ''A'' ''video'' 0
        [link CHR ''1'' (sample_clip CHR ''1'' 0 100 0), sample_clip CHR ''2'' 200 50 100],
      sample_track CHR ''B'' ''video'' 1 [],
      sample_track CHR ''C'' ''audio'' 2 [link CHR ''1'' (sample_clip CHR ''3'' 0 100 0)]]"

lemma sample_doc_valid: "valid sample_doc"
  by code_simp

end
