(* ===== verification/Edit_Log.thy ===== *)
theory Edit_Log
  imports Edit_Undo Sample_Document
begin

text \<open>
  \<open>EditLog\<close>, \<open>src/EditLog.cc\<close> lines 155 to 197: the two stacks of entries, each the
  operation as logged and its inverse, over an interface \<open>reversible_edits\<close> that states
  what the log relies on.  A log that only met reversible edits always walks back to the
  document it started from and forward again.
\<close>

section \<open>The log\<close>

record 'op log_entry =
  le_op :: 'op
  le_inverse :: 'op

record 'op edit_log =
  applied :: "'op log_entry list"
  undone :: "'op log_entry list"

definition empty_log :: "'op edit_log" where
  "empty_log = \<lparr>applied = [], undone = []\<rparr>"

text \<open>
  The document is passed by reference and only a successful edit writes it, so a failure
  leaves both the document and the log as they were.
\<close>

definition log_apply ::
  "('d \<Rightarrow> 'op \<Rightarrow> ('d \<times> 'op \<times> 'op) result) \<Rightarrow> 'd \<Rightarrow> 'op edit_log \<Rightarrow> 'op \<Rightarrow> ('d \<times> 'op edit_log) result" where
  "log_apply run d stk operation =
     bindR (run d operation) (\<lambda>(d', op, undo).
       Inr (d', \<lparr>applied = applied stk @ [\<lparr>le_op = op, le_inverse = undo\<rparr>], undone = []\<rparr>))"

definition log_undo ::
  "('d \<Rightarrow> 'op \<Rightarrow> ('d \<times> 'op \<times> 'op) result) \<Rightarrow> 'd \<Rightarrow> 'op edit_log \<Rightarrow> ('d \<times> 'op edit_log) result" where
  "log_undo run d stk =
     (if applied stk = [] then reject EmptyUndo ''undo stack is empty''
      else bindR (run d (le_inverse (last (applied stk)))) (\<lambda>(d', _).
        Inr (d', \<lparr>applied = butlast (applied stk), undone = undone stk @ [last (applied stk)]\<rparr>)))"

definition log_redo ::
  "('d \<Rightarrow> 'op \<Rightarrow> ('d \<times> 'op \<times> 'op) result) \<Rightarrow> 'd \<Rightarrow> 'op edit_log \<Rightarrow> ('d \<times> 'op edit_log) result" where
  "log_redo run d stk =
     (if undone stk = [] then reject EmptyRedo ''redo stack is empty''
      else bindR (run d (le_op (last (undone stk)))) (\<lambda>(d', _).
        Inr (d', \<lparr>applied = applied stk @ [last (undone stk)], undone = butlast (undone stk)\<rparr>)))"

definition EditLog_Apply ::
  "id_supply \<Rightarrow> Document \<Rightarrow> Operation edit_log \<Rightarrow> Operation \<Rightarrow> (Document \<times> Operation edit_log) result" where
  "EditLog_Apply g = log_apply (ApplyOperation g)"

definition EditLog_Undo ::
  "id_supply \<Rightarrow> Document \<Rightarrow> Operation edit_log \<Rightarrow> (Document \<times> Operation edit_log) result" where
  "EditLog_Undo g = log_undo (ApplyOperation g)"

definition EditLog_Redo ::
  "id_supply \<Rightarrow> Document \<Rightarrow> Operation edit_log \<Rightarrow> (Document \<times> Operation edit_log) result" where
  "EditLog_Redo g = log_redo (ApplyOperation g)"

text \<open>\<open>walk f k\<close> presses the same button \<open>k\<close> times.\<close>

fun walk :: "('s \<Rightarrow> 's result) \<Rightarrow> nat \<Rightarrow> 's \<Rightarrow> 's result" where
  "walk f 0 s = Inr s"
| "walk f (Suc k) s = bindR (f s) (walk f k)"

lemma walk_snoc: "walk f (Suc k) s = bindR (walk f k s) f"
proof (induction k arbitrary: s)
  case 0
  then show ?case by (cases "f s") auto
next
  case (Suc k)
  then show ?case by (cases "f s") auto
qed

text \<open>
  The sessions: edits that the log is asked to reverse, undos and redos, in any order; a
  refused call changes nothing and is no step.
\<close>

inductive session ::
  "('g \<Rightarrow> 'd \<Rightarrow> 'op \<Rightarrow> ('d \<times> 'op \<times> 'op) result) \<Rightarrow> ('d \<Rightarrow> bool) \<Rightarrow> ('d \<Rightarrow> 'op \<Rightarrow> bool) \<Rightarrow>
   'd \<Rightarrow> 'd \<Rightarrow> 'op edit_log \<Rightarrow> bool" for run sound exact d0 where
  start: "sound d0 \<Longrightarrow> session run sound exact d0 d0 empty_log"
| edit: "session run sound exact d0 d stk \<Longrightarrow> exact d op \<Longrightarrow> log_apply (run g) d stk op = Inr (d', stk') \<Longrightarrow>
     session run sound exact d0 d' stk'"
| undo: "session run sound exact d0 d stk \<Longrightarrow> log_undo (run g) d stk = Inr (d', stk') \<Longrightarrow>
     session run sound exact d0 d' stk'"
| redo: "session run sound exact d0 d stk \<Longrightarrow> log_redo (run g) d stk = Inr (d', stk') \<Longrightarrow>
     session run sound exact d0 d' stk'"

section \<open>The interface of the log\<close>

text \<open>
  \<open>run g\<close> applies an operation to a document (the ghost \<open>g\<close> supplies identifiers),
  \<open>sound\<close> is what it keeps of documents and \<open>exact\<close> says which edits it promises to
  reverse.
\<close>

locale reversible_edits =
  fixes run :: "'g \<Rightarrow> 'd \<Rightarrow> 'op \<Rightarrow> ('d \<times> 'op \<times> 'op) result"
    and sound :: "'d \<Rightarrow> bool" and exact :: "'d \<Rightarrow> 'op \<Rightarrow> bool"
  assumes keeps: "sound d \<Longrightarrow> exact d op \<Longrightarrow> run g d op = Inr (d', op', iv) \<Longrightarrow> sound d'"
    and undoes: "sound d \<Longrightarrow> exact d op \<Longrightarrow> run g d op = Inr (d', op', iv) \<Longrightarrow> \<exists>x. run g' d' iv = Inr (d, x)"
    and redoes: "sound d \<Longrightarrow> exact d op \<Longrightarrow> run g d op = Inr (d', op', iv) \<Longrightarrow> \<exists>x. run g' d op' = Inr (d', x)"
begin

definition step :: "'d \<Rightarrow> 'op log_entry \<Rightarrow> 'd \<Rightarrow> bool" where
  "step d e d' \<longleftrightarrow> sound d \<and> sound d' \<and>
     (\<forall>g. \<exists>x. run g d (le_op e) = Inr (d', x)) \<and> (\<forall>g. \<exists>x. run g d' (le_inverse e) = Inr (d, x))"

fun chain :: "'d \<Rightarrow> 'op log_entry list \<Rightarrow> 'd \<Rightarrow> bool" where
  "chain d [] d' \<longleftrightarrow> d' = d"
| "chain d (e # es) d' \<longleftrightarrow> (\<exists>m. step d e m \<and> chain m es d')"

text \<open>The document lies between the first one of the log and the last one that was undone.\<close>

definition history :: "'d \<Rightarrow> 'd \<Rightarrow> 'op edit_log \<Rightarrow> 'd \<Rightarrow> bool" where
  "history d0 d stk d1 \<longleftrightarrow> chain d0 (applied stk) d \<and> chain d (rev (undone stk)) d1"

lemma chain_append: "chain d (es @ fs) d' \<longleftrightarrow> (\<exists>m. chain d es m \<and> chain m fs d')"
  by (induction es arbitrary: d) auto

lemma history_start: "history d d empty_log d"
  by (simp add: history_def empty_log_def)

lemma history_apply:
  assumes h: "history d0 d stk d1" and s: "sound d" and e: "exact d op"
    and a: "log_apply (run g) d stk op = Inr (d', stk')"
  shows "history d0 d' stk' d'" and "sound d'"
proof -
  from a obtain op' iv where r: "run g d op = Inr (d', op', iv)"
    and stk': "stk' = \<lparr>applied = applied stk @ [\<lparr>le_op = op', le_inverse = iv\<rparr>], undone = []\<rparr>"
    by (auto simp: log_apply_def)
  from keeps [OF s e r] show sd: "sound d'" .
  have "step d \<lparr>le_op = op', le_inverse = iv\<rparr> d'"
    using s sd undoes [OF s e r] redoes [OF s e r] by (simp add: step_def)
  with h show "history d0 d' stk' d'" by (auto simp: history_def stk' chain_append)
qed

lemma undo_step:
  assumes h: "history d0 d stk d1" and n: "applied stk \<noteq> []"
  obtains m where "\<And>g. log_undo (run g) d stk =
      Inr (m, \<lparr>applied = butlast (applied stk), undone = undone stk @ [last (applied stk)]\<rparr>)"
    and "history d0 m \<lparr>applied = butlast (applied stk), undone = undone stk @ [last (applied stk)]\<rparr> d1"
    and "sound m"
proof -
  let ?e = "last (applied stk)"
  have "chain d0 (butlast (applied stk) @ [?e]) d" using h n by (simp add: history_def)
  then obtain m where m: "chain d0 (butlast (applied stk)) m" "step m ?e d" by (auto simp: chain_append)
  show ?thesis
  proof (rule that)
    fix g
    from m(2) obtain x where "run g d (le_inverse ?e) = Inr (m, x)" unfolding step_def by blast
    with n show "log_undo (run g) d stk =
        Inr (m, \<lparr>applied = butlast (applied stk), undone = undone stk @ [last (applied stk)]\<rparr>)"
      by (simp add: log_undo_def split_beta)
  next
    show "history d0 m \<lparr>applied = butlast (applied stk), undone = undone stk @ [last (applied stk)]\<rparr> d1"
      using m h by (auto simp: history_def)
    show "sound m" using m(2) by (simp add: step_def)
  qed
qed

lemma redo_step:
  assumes h: "history d0 d stk d1" and n: "undone stk \<noteq> []"
  obtains m where "\<And>g. log_redo (run g) d stk =
      Inr (m, \<lparr>applied = applied stk @ [last (undone stk)], undone = butlast (undone stk)\<rparr>)"
    and "history d0 m \<lparr>applied = applied stk @ [last (undone stk)], undone = butlast (undone stk)\<rparr> d1"
    and "sound m"
proof -
  let ?e = "last (undone stk)"
  have "rev (undone stk) = ?e # rev (butlast (undone stk))" using n by (cases "undone stk" rule: rev_cases) auto
  with h obtain m where m: "step d ?e m" "chain m (rev (butlast (undone stk))) d1" by (auto simp: history_def)
  show ?thesis
  proof (rule that)
    fix g
    from m(1) obtain x where "run g d (le_op ?e) = Inr (m, x)" unfolding step_def by blast
    with n show "log_redo (run g) d stk =
        Inr (m, \<lparr>applied = applied stk @ [last (undone stk)], undone = butlast (undone stk)\<rparr>)"
      by (simp add: log_redo_def split_beta)
  next
    show "history d0 m \<lparr>applied = applied stk @ [last (undone stk)], undone = butlast (undone stk)\<rparr> d1"
      using m h by (auto simp: history_def chain_append)
    show "sound m" using m(1) by (simp add: step_def)
  qed
qed

lemma log_undo_nonempty: "log_undo (run g) d stk = Inr r \<Longrightarrow> applied stk \<noteq> []"
  by (auto simp: log_undo_def)

lemma log_redo_nonempty: "log_redo (run g) d stk = Inr r \<Longrightarrow> undone stk \<noteq> []"
  by (auto simp: log_redo_def)

lemma session_history:
  assumes "session run sound exact d0 d stk"
  shows "sound d0 \<and> sound d \<and> (\<exists>d1. history d0 d stk d1)"
  using assms
proof (induction rule: session.induct)
  case start
  then show ?case using history_start by blast
next
  case (edit d stk op g d' stk')
  then obtain d1 where "history d0 d stk d1" "sound d" by blast
  from history_apply [OF this edit.hyps(2,3)] edit.IH show ?case by blast
next
  case (undo d stk g d' stk')
  then obtain d1 where "history d0 d stk d1" by blast
  from undo_step [OF this log_undo_nonempty [OF undo.hyps(2)]] undo show ?case by (metis Inr_inject prod.inject)
next
  case (redo d stk g d' stk')
  then obtain d1 where "history d0 d stk d1" by blast
  from redo_step [OF this log_redo_nonempty [OF redo.hyps(2)]] redo show ?case by (metis Inr_inject prod.inject)
qed

lemma log_undo_redo:
  assumes "history d0 d stk d1" and "applied stk \<noteq> []" and "sound d"
  obtains m stk' where "\<And>g. log_undo (run g) d stk = Inr (m, stk')" and "\<And>g. log_redo (run g) m stk' = Inr (d, stk)"
    and "history d0 m stk' d1" and "sound m" and "Suc (length (applied stk')) = length (applied stk)"
proof -
  let ?e = "last (applied stk)"
  let ?s = "\<lparr>applied = butlast (applied stk), undone = undone stk @ [?e]\<rparr>"
  obtain m where m: "\<And>g. log_undo (run g) d stk = Inr (m, ?s)" "history d0 m ?s d1" "sound m"
    by (rule undo_step [OF assms(1,2)]) blast
  have "chain d0 (butlast (applied stk) @ [?e]) d" using assms(1,2) by (simp add: history_def)
  then obtain n where n: "chain d0 (butlast (applied stk)) n" "step n ?e d" by (auto simp: chain_append)
  have "m = n"
  proof -
    from n(2) obtain x where "run undefined d (le_inverse ?e) = Inr (n, x)" unfolding step_def by blast
    with m(1) [of undefined] assms(2) show ?thesis by (simp add: log_undo_def split_beta)
  qed
  have "log_redo (run g) m ?s = Inr (d, stk)" for g
  proof -
    from n(2) \<open>m = n\<close> obtain x where "run g m (le_op ?e) = Inr (d, x)" unfolding step_def by blast
    with assms(2) show ?thesis by (simp add: log_redo_def split_beta)
  qed
  moreover have "Suc (length (butlast (applied stk))) = length (applied stk)"
    using assms(2) by (cases "applied stk" rule: rev_cases) auto
  ultimately show ?thesis using m by (intro that) auto
qed

text \<open>Any number of undos, as long as there are entries, is taken back by as many redos.\<close>

lemma walk_back_and_forth:
  assumes "history d0 d stk d1" and "sound d" and "k \<le> length (applied stk)"
  shows "\<exists>m stk'. walk (\<lambda>(d, l). log_undo (run g) d l) k (d, stk) = Inr (m, stk') \<and>
           walk (\<lambda>(d, l). log_redo (run g') d l) k (m, stk') = Inr (d, stk) \<and>
           (k = length (applied stk) \<longrightarrow> m = d0)"
  using assms
proof (induction k arbitrary: d stk)
  case 0
  then show ?case by (auto simp: history_def)
next
  case (Suc k)
  then have "applied stk \<noteq> []" by auto
  obtain n l where
    u: "\<And>g. log_undo (run g) d stk = Inr (n, l)" and r: "\<And>g. log_redo (run g) n l = Inr (d, stk)"
    and h: "history d0 n l d1" "sound n" and len: "Suc (length (applied l)) = length (applied stk)"
    by (rule log_undo_redo [OF Suc.prems(1) \<open>applied stk \<noteq> []\<close> Suc.prems(2)]) blast
  from Suc.IH [OF h] len Suc.prems(3) obtain m stk' where
    w: "walk (\<lambda>(d, l). log_undo (run g) d l) k (n, l) = Inr (m, stk')"
      "walk (\<lambda>(d, l). log_redo (run g') d l) k (m, stk') = Inr (n, l)"
      "k = length (applied l) \<longrightarrow> m = d0" by auto
  have "walk (\<lambda>(d, l). log_redo (run g') d l) (Suc k) (m, stk') = Inr (d, stk)"
    unfolding walk_snoc by (simp add: w(2) r)
  moreover have "walk (\<lambda>(d, l). log_undo (run g) d l) (Suc k) (d, stk) = Inr (m, stk')" by (simp add: u w(1))
  ultimately show ?case using w(3) len by auto
qed

end

section \<open>The log of document edits\<close>

lemma edit_valid: "ApplyOperation g d op = Inr (d', op', iv) \<Longrightarrow> valid d'"
  by (auto simp: ApplyOperation_Inr_iff dest: dispatch_valid)

lemma edit_reverses:
  assumes "valid d" and "reversible d op" and "ApplyOperation g d op = Inr (d', op', iv)"
  shows "reverses d d' op' iv"
  using assms dispatch_reverses [OF assms(1) edit_valid [OF assms(3)]]
  by (auto simp: ApplyOperation_Inr_iff LockedTrackTouchedBy_None)

interpretation document_edits: reversible_edits ApplyOperation valid reversible
proof
  fix g g' d op d' op' iv
  assume a: "ApplyOperation g d op = Inr (d', op', iv)"
  show "valid d'" by (rule edit_valid [OF a])
  assume "valid d" and "reversible d op"
  from edit_reverses [OF this a]
  show "\<exists>x. ApplyOperation g' d' iv = Inr (d, x)" and "\<exists>x. ApplyOperation g' d op' = Inr (d', x)"
    unfolding reverses_def by blast+
qed

text \<open>
  Property C1: an accepted edit with \<open>reversible d op\<close> is taken back exactly by the inverse it
  records, and the operation as logged, applied to the old document again, gives exactly
  the new one: the same document, whatever identifiers are drawn.  \<open>reversible\<close>
  (\<open>Edit_Undo\<close>) covers 49 of the 51 operations, each as a user asks for it; it leaves out
  \<open>JoinClip\<close> and \<open>SplitClipAtPositions\<close>, the removal of a track or bin that is not the last, the
  addition of a locked track, the removal of words with linked clips on locked tracks, and
  times that leave 64 bits when a trim or an insert is computed back.
\<close>

theorem undo_redo_exact:
  assumes "valid d" and "reversible d op" and "ApplyOperation g d op = Inr (d', op', iv)"
  shows "(\<exists>x y. ApplyOperation g' d' iv = Inr (d, x, y)) \<and> (\<exists>x y. ApplyOperation g' d op' = Inr (d', x, y))"
  using edit_reverses [OF assms] unfolding reverses_def by blast

text \<open>
  Property C3: in every session of reversible edits, undos and redos, \<open>EditLog::Undo\<close>
  pressed any number of times, up to the number of applied entries, succeeds; as many
  redos give back exactly the document and the log; and undoing every entry gives exactly
  the document of the start.
\<close>

theorem edit_log_walks_back_and_forth:
  assumes "session ApplyOperation valid reversible d0 d stk" and "k \<le> length (applied stk)"
  shows "\<exists>m stk'. walk (\<lambda>(d, l). EditLog_Undo g d l) k (d, stk) = Inr (m, stk') \<and>
           walk (\<lambda>(d, l). EditLog_Redo g' d l) k (m, stk') = Inr (d, stk) \<and>
           (k = length (applied stk) \<longrightarrow> m = d0)"
  using document_edits.session_history [OF assms(1)] document_edits.walk_back_and_forth [OF _ _ assms(2)]
  unfolding EditLog_Undo_def EditLog_Redo_def by blast

text \<open>
  The undo and redo buttons fail exactly on an empty stack, with
  \<open>EmptyUndo\<close> and \<open>EmptyRedo\<close>, in every session of reversible edits.
\<close>

theorem edit_log_fails_only_when_empty:
  assumes "session ApplyOperation valid reversible d0 d stk"
  shows "(applied stk = [] \<longrightarrow> EditLog_Undo g d stk = reject EmptyUndo ''undo stack is empty'') \<and>
    (applied stk \<noteq> [] \<longrightarrow> (\<exists>r. EditLog_Undo g d stk = Inr r)) \<and>
    (undone stk = [] \<longrightarrow> EditLog_Redo g d stk = reject EmptyRedo ''redo stack is empty'') \<and>
    (undone stk \<noteq> [] \<longrightarrow> (\<exists>r. EditLog_Redo g d stk = Inr r))"
proof -
  from document_edits.session_history [OF assms] obtain d1 where h: "document_edits.history d0 d stk d1" by blast
  have "\<exists>r. EditLog_Undo g d stk = Inr r" if "applied stk \<noteq> []"
    unfolding EditLog_Undo_def by (rule document_edits.undo_step [OF h that]) blast
  moreover have "\<exists>r. EditLog_Redo g d stk = Inr r" if "undone stk \<noteq> []"
    unfolding EditLog_Redo_def by (rule document_edits.redo_step [OF h that]) blast
  ultimately show ?thesis by (simp add: EditLog_Undo_def EditLog_Redo_def log_undo_def log_redo_def)
qed

end
