(* ===== verification/Edit_Laws.thy ===== *)
theory Edit_Laws
  imports Lock_Safety Edit_Log
begin

text \<open>What an accepted edit guarantees, with concrete instances on the sample document.\<close>

section \<open>A concrete edit\<close>

definition no_ids :: id_supply where
  "no_ids = (\<lambda>_. [])"

definition clear_second :: Operation where
  "clear_second = ClearClip \<lparr>cco_clip_id = u CHR ''2'', cco_exact_track_result = []\<rparr>"

definition first_alone :: "DocumentClip list" where
  "first_alone = [link CHR ''1'' (sample_clip CHR ''1'' 0 100 0)]"

definition audio_track :: "bool \<Rightarrow> DocumentTrack" where
  "audio_track locked = (sample_track CHR ''C'' ''audio'' 2 [link CHR ''1'' (sample_clip CHR ''3'' 0 100 0)])
     \<lparr>trk_locked := locked\<rparr>"

definition doc_with_lock :: "DocumentClip list \<Rightarrow> bool \<Rightarrow> Document" where
  "doc_with_lock cs locked = sample_doc_with
     [sample_track CHR ''A'' ''video'' 0 cs, sample_track CHR ''B'' ''video'' 1 [], audio_track locked]"

definition both_clips :: "DocumentClip list" where
  "both_clips = first_alone @ [sample_clip CHR ''2'' 200 50 100]"

definition clear_second_to :: "DocumentClip list \<Rightarrow> Operation" where
  "clear_second_to cs = ClearClip \<lparr>cco_clip_id = u CHR ''2'', cco_exact_track_result =
     [\<lparr>ets_track_id = u CHR ''A'', ets_clips = cs\<rparr>]\<rparr>"

definition add_locked :: Operation where
  "add_locked = AddTrack \<lparr>ato_track_id = u CHR ''D'', ato_kind = ''audio'', ato_index = 3, ato_clips = [],
     ato_locked = True, ato_sync_lock = True, ato_visible = True, ato_muted = False, ato_solo = False\<rparr>"

definition with_locked_track :: Document where
  "with_locked_track = with_tracks (\<lambda>ts. ts @ [(sample_track CHR ''D'' ''audio'' 3 [])\<lparr>trk_locked := True\<rparr>])
     (doc_with_lock both_clips False)"

definition remove_second_track :: Operation where
  "remove_second_track = RemoveTrack \<lparr>rmt_track_id = u CHR ''B''\<rparr>"

text \<open>The concrete documents and edits that the witnesses use, evaluated once.\<close>

lemma concrete_edits:
  "list_all (\<lambda>locked. Validate (doc_with_lock both_clips locked) = Inr () \<and>
     ApplyOperation no_ids (doc_with_lock both_clips locked) clear_second =
       Inr (doc_with_lock first_alone locked, clear_second_to first_alone, clear_second_to both_clips)) [False, True] \<and>
   ApplyOperation no_ids (doc_with_lock both_clips False) add_locked =
     Inr (with_locked_track, add_locked, RemoveTrack \<lparr>rmt_track_id = u CHR ''D''\<rparr>) \<and>
   (case ApplyOperation no_ids (doc_with_lock both_clips False) remove_second_track of
      Inl _ \<Rightarrow> False
    | Inr (d', _, iv) \<Rightarrow> (case ApplyOperation no_ids d' iv of Inl _ \<Rightarrow> False | Inr _ \<Rightarrow> True))"
  by code_simp

lemmas concrete_parts = concrete_edits [THEN conjunct1, simplified list.pred_inject] concrete_edits [THEN conjunct2]

lemma doc_with_lock_valid: "valid (doc_with_lock both_clips locked)"
  using concrete_parts(1) by (cases locked) simp_all

lemma clear_second_accepted:
  "ApplyOperation no_ids (doc_with_lock both_clips locked) clear_second =
     Inr (doc_with_lock first_alone locked, clear_second_to first_alone, clear_second_to both_clips)"
  using concrete_parts(1) by (cases locked) simp_all

lemmas add_locked_accepted = conjunct1 [OF concrete_parts(2)]
lemmas second_track_removed = conjunct2 [OF concrete_parts(2)]

theorem accepted_edit_valid_witness: "valid (doc_with_lock first_alone False)"
  by (rule accepted_edit_valid [OF clear_second_accepted])

theorem undo_redo_exact_witness:
  "\<exists>x y. ApplyOperation no_ids (doc_with_lock first_alone False) (clear_second_to both_clips) =
           Inr (doc_with_lock both_clips False, x, y)"
  using undo_redo_exact [OF doc_with_lock_valid _ clear_second_accepted, of False no_ids]
  by (simp add: clear_second_def)

text \<open>
  Property C5: after an accepted edit no two clips of a track overlap and they lie in the
  order of their starts, every clip has a positive duration and lies inside its source
  (captions have none), and track and clip identifiers are unique.
\<close>

theorem accepted_edit_timeline_sound:
  assumes "ApplyOperation g d op = Inr (d', op', iv)"
  shows "distinct (map trk_id (doc_tracks d')) \<and> distinct (all_clip_ids d') \<and>
    (\<forall>t\<in>set (doc_tracks d'). track_in_order (trk_clips t) \<and> (\<forall>c\<in>set (trk_clips t). clip_well_placed d' t c))"
  using valid_distinct_tracks [OF edit_valid [OF assms]] valid_track [OF edit_valid [OF assms]] by blast

theorem accepted_edit_timeline_sound_witness:
  "distinct (map trk_id (doc_tracks (doc_with_lock first_alone False))) \<and> distinct (all_clip_ids (doc_with_lock first_alone False))"
  using accepted_edit_timeline_sound [OF clear_second_accepted [of False]] by blast

section \<open>Locks\<close>

text \<open>
  Property C4: a locked track is still in the document, with the same clips and flags, after
  any accepted edit of clips, bins, markers or styles that passes the lock check: every
  operation but the three that set track flags, the two that add or remove a track, and
  the two whose lock check leaves tracks out (\<open>RemoveWords\<close> with linked clips and
  \<open>SplitClipAtPositions\<close>).
\<close>

theorem locked_tracks_untouched:
  assumes "valid d" and "ApplyOperation g d op = Inr (d', op', iv)" and "edits_clips op"
    and "t \<in> set (doc_tracks d)" and "trk_locked t"
  shows "t \<in> set (doc_tracks d')"
proof -
  have "\<not> skips_lock_check op" using assms(3) by (cases op) auto
  with assms(2) have "dispatch g d op = Inr (d', op', iv)" and "LockedTrackTouchedBy d op = None"
    by (simp_all add: ApplyOperation_Inr_iff)
  then show ?thesis
    using dispatch_keeps_locked [OF assms(1) _ assms(3) _ assms(4,5)] by (simp add: LockedTrackTouchedBy_None assms(1))
qed

theorem locked_tracks_untouched_witness: "audio_track True \<in> set (doc_tracks (doc_with_lock first_alone True))"
  by (rule locked_tracks_untouched [OF doc_with_lock_valid clear_second_accepted])
    (simp_all add: clear_second_def doc_with_lock_def sample_doc_with_def audio_track_def)

section \<open>A concrete session\<close>

definition one_edit_log :: "Operation edit_log" where
  "one_edit_log = \<lparr>applied = [\<lparr>le_op = clear_second_to first_alone, le_inverse = clear_second_to both_clips\<rparr>],
                   undone = []\<rparr>"

lemma one_edit_session:
  "session ApplyOperation valid reversible (doc_with_lock both_clips False) (doc_with_lock first_alone False) one_edit_log"
proof (rule session.edit [OF session.start])
  show "valid (doc_with_lock both_clips False)" by (rule doc_with_lock_valid)
  show "reversible (doc_with_lock both_clips False) clear_second" by (simp add: clear_second_def)
  show "log_apply (ApplyOperation no_ids) (doc_with_lock both_clips False) empty_log clear_second =
      Inr (doc_with_lock first_alone False, one_edit_log)"
    by (simp add: log_apply_def clear_second_accepted empty_log_def one_edit_log_def)
qed

theorem edit_log_walks_back_and_forth_witness:
  "\<exists>stk. walk (\<lambda>(d, l). EditLog_Undo no_ids d l) 1 (doc_with_lock first_alone False, one_edit_log) =
           Inr (doc_with_lock both_clips False, stk)"
  using edit_log_walks_back_and_forth [OF one_edit_session, of 1 no_ids no_ids] by (auto simp: one_edit_log_def)

theorem edit_log_fails_only_when_empty_witness:
  "EditLog_Redo no_ids (doc_with_lock first_alone False) one_edit_log = reject EmptyRedo ''redo stack is empty''"
  using edit_log_fails_only_when_empty [OF one_edit_session] by (simp add: one_edit_log_def)

section \<open>Inverses that do not lead back\<close>

text \<open>
  Property C40: an added track that is locked cannot be taken back: the recorded inverse
  \<open>RemoveTrack\<close> addresses the new track and is refused by the lock check.
\<close>

theorem locked_track_cannot_be_undone:
  assumes "ApplyOperation g d (AddTrack op) = Inr (d', op', iv)" and "ato_locked op"
  shows "\<exists>text. ApplyOperation g' d' iv = reject LockedTrack text"
proof -
  from assms(1) obtain w where a: "ApplyAddTrack g d op = Inr (d', w, iv)" by (auto simp: ApplyOperation_Inr_iff)
  then have d': "d' = with_tracks (\<lambda>ts. ts @ [track_of_operation w]) d" and i: "FindTrack d (ato_track_id w) = None"
    and iv: "iv = RemoveTrack \<lparr>rmt_track_id = ato_track_id w\<rparr>" and w: "ato_locked w = ato_locked op"
    and ne: "IsValidUlid (ato_track_id w)"
    by (auto simp: ApplyAddTrack_def Let_def split: if_splits)
  have f: "FindTrack d' (ato_track_id w) = Some (track_of_operation w)"
    using i by (simp add: d' FindTrack_def find_append track_of_operation_def)
  have "ato_track_id w \<noteq> []" using ne IsValidUlid_nonempty by blast
  then have "LockedTrackTouchedBy d' iv = Some (track_of_operation w)"
    using f w assms(2) by (simp add: iv LockedTrackTouchedBy_def add_track_def push_unique_def
        List.map_filter_simps track_of_operation_def)
  then have "ApplyOperation g' d' iv = reject LockedTrack (''track_id '' @ quoted (trk_id (track_of_operation w)) @ '' is locked'')"
    by (simp add: ApplyOperation_def iv)
  then show ?thesis by blast
qed

theorem locked_track_cannot_be_undone_witness:
  "\<exists>text. ApplyOperation no_ids with_locked_track (RemoveTrack \<lparr>rmt_track_id = u CHR ''D''\<rparr>) = reject LockedTrack text"
  by (rule locked_track_cannot_be_undone [OF add_locked_accepted [unfolded add_locked_def]]) simp

lemma remove_first_distinct:
  "distinct (map f xs) \<Longrightarrow> x \<in> set xs \<Longrightarrow>
   remove_first (\<lambda>y. f y = f x) xs = filter (\<lambda>y. f y \<noteq> f x) xs \<and> filter (\<lambda>y. f y = f x) xs = [x]"
proof (induction xs)
  case (Cons a xs)
  have "\<forall>y\<in>set xs. f y \<noteq> f a" using Cons.prems(1) by (simp, metis image_eqI)
  then have "filter (\<lambda>y. f y \<noteq> f a) xs = xs" "filter (\<lambda>y. f y = f a) xs = []" by (auto simp: filter_id_conv filter_empty_conv)
  moreover have "f x \<noteq> f a" if "x \<in> set xs" using Cons.prems(1) imageI [OF that, of f] by auto
  ultimately show ?case using Cons by auto
qed simp

lemma moved_last_iff:
  assumes "filter (\<lambda>y. f y = i) xs = [x]"
  shows "filter (\<lambda>y. f y \<noteq> i) xs @ [x] = xs \<longleftrightarrow> f (last xs) = i"
proof
  have x: "f x = i" using assms by (auto dest: filter_eq_ConsD)
  show "f (last xs) = i" if "filter (\<lambda>y. f y \<noteq> i) xs @ [x] = xs"
    using x by (subst that [symmetric]) simp
  show "filter (\<lambda>y. f y \<noteq> i) xs @ [x] = xs" if "f (last xs) = i"
  proof (cases xs rule: rev_cases)
    case (snoc ys y)
    then have y: "f y = i" using that by simp
    then have "filter (\<lambda>y. f y = i) ys = []" "x = y" using assms by (simp_all add: snoc)
    then have "filter (\<lambda>y. f y \<noteq> i) ys = ys" by (auto simp: filter_empty_conv filter_id_conv)
    then show ?thesis using \<open>x = y\<close> y by (simp add: snoc)
  qed (use assms in simp)
qed

text \<open>
  Property C31: when the removal of a track and its undo are both accepted, the track is at
  the end of the track vector and the others keep their order; so the undo gives the
  document back exactly when the removed track was the last one.
\<close>

theorem removed_track_comes_back_last:
  assumes "valid d" and "ApplyOperation g d (RemoveTrack op) = Inr (d', op', iv)"
    and "ApplyOperation g' d' iv = Inr (d'', x, y)"
  shows "doc_tracks d'' = filter (\<lambda>t. trk_id t \<noteq> rmt_track_id op) (doc_tracks d) @
           filter (\<lambda>t. trk_id t = rmt_track_id op) (doc_tracks d) \<and>
         (d'' = d \<longleftrightarrow> trk_id (last (doc_tracks d)) = rmt_track_id op)"
proof -
  let ?P = "\<lambda>t. trk_id t = rmt_track_id op"
  from assms(2) obtain found where f: "FindTrack d (rmt_track_id op) = Some found"
    and d': "d' = with_tracks (remove_first ?P) d" and iv: "iv = AddTrack (operation_of_track found)"
    by (auto simp: ApplyOperation_Inr_iff ApplyRemoveTrack_def split: option.splits)
  have m: "found \<in> set (doc_tracks d)" and i: "trk_id found = rmt_track_id op"
    using find_Some_D [OF f [unfolded FindTrack_def]] by simp_all
  have "ato_track_id (operation_of_track found) \<noteq> []"
    using valid_nonempty_ids(2) [OF assms(1) m] by (simp add: operation_of_track_def)
  then have d'': "d'' = with_tracks (\<lambda>ts. ts @ [found]) d'"
    using assms(3) by (auto simp: iv ApplyOperation_Inr_iff ApplyAddTrack_def Let_def track_of_operation_of_track
        split: if_splits)
  note k = remove_first_distinct [OF valid_distinct_tracks(1) [OF assms(1)] m, unfolded i]
  have ts: "doc_tracks d'' = filter (\<lambda>t. \<not> ?P t) (doc_tracks d) @ [found]" by (simp add: d'' d' k)
  have "d'' = d \<longleftrightarrow> doc_tracks d'' = doc_tracks d"
  proof
    assume "doc_tracks d'' = doc_tracks d"
    moreover have "d'' = with_tracks (\<lambda>_. doc_tracks d'') d" by (simp add: d'' d' with_tracks_def)
    ultimately show "d'' = d" by (metis with_tracks_same)
  qed simp
  then show ?thesis using k moved_last_iff [of trk_id "rmt_track_id op" "doc_tracks d" found] by (simp add: ts)
qed

theorem removed_track_comes_back_last_witness:
  "\<exists>d' iv d'' w x y. ApplyOperation no_ids (doc_with_lock both_clips False) remove_second_track = Inr (d', w, iv) \<and>
     ApplyOperation no_ids d' iv = Inr (d'', x, y) \<and>
     map trk_id (doc_tracks d'') = [u CHR ''A'', u CHR ''C'', u CHR ''B''] \<and> d'' \<noteq> doc_with_lock both_clips False"
proof -
  from second_track_removed obtain d' w iv where
    a: "ApplyOperation no_ids (doc_with_lock both_clips False) remove_second_track = Inr (d', w, iv)"
    and n: "\<forall>e. ApplyOperation no_ids d' iv \<noteq> Inl e"
    by (cases "ApplyOperation no_ids (doc_with_lock both_clips False) remove_second_track") (auto split: sum.splits)
  from n obtain d'' x y where b: "ApplyOperation no_ids d' iv = Inr (d'', x, y)"
    by (cases "ApplyOperation no_ids d' iv") auto
  have ids: "u CHR ''A'' \<noteq> u CHR ''B''" "u CHR ''C'' \<noteq> u CHR ''B''" by (simp_all add: u_def)
  note r = removed_track_comes_back_last [OF doc_with_lock_valid a [unfolded remove_second_track_def] b]
  have m: "map trk_id (doc_tracks d'') = [u CHR ''A'', u CHR ''C'', u CHR ''B'']"
    using conjunct1 [OF r] ids by (simp add: doc_with_lock_def sample_doc_with_def sample_track_def audio_track_def)
  have n: "d'' \<noteq> doc_with_lock both_clips False"
    using conjunct2 [OF r] ids by (simp add: doc_with_lock_def sample_doc_with_def sample_track_def audio_track_def)
  show ?thesis by (intro exI conjI) (rule a b m n)+
qed

end
