(* ===== verification/Stable_Sort.thy ===== *)
theory Stable_Sort
  imports Prelude "HOL-Library.Multiset" "HOL-Library.Product_Lexorder"
begin

text \<open>
  \<open>std::stable_sort\<close> under a comparison that cannot fail, as insertion sort: an element goes
  before the first element that is not smaller, so equal elements keep their order.  A
  comparison that ranks by a key sorts exactly as the library's \<open>sort_key\<close>.
\<close>

section \<open>Sorting by a comparison\<close>

fun insert_by :: "('a \<Rightarrow> 'a \<Rightarrow> bool) \<Rightarrow> 'a \<Rightarrow> 'a list \<Rightarrow> 'a list" where
  "insert_by lt x [] = [x]"
| "insert_by lt x (y # ys) = (if lt y x then y # insert_by lt x ys else x # y # ys)"

fun stable_sort :: "('a \<Rightarrow> 'a \<Rightarrow> bool) \<Rightarrow> 'a list \<Rightarrow> 'a list" where
  "stable_sort lt [] = []"
| "stable_sort lt (x # xs) = insert_by lt x (stable_sort lt xs)"

lemma mset_insert_by [simp]: "mset (insert_by lt x xs) = add_mset x (mset xs)"
  by (induction xs) auto

lemma mset_stable_sort [simp]: "mset (stable_sort lt xs) = mset xs"
  by (induction xs) auto

lemma set_stable_sort [simp]: "set (stable_sort lt xs) = set xs"
  by (metis mset_stable_sort set_mset_mset)

lemma length_stable_sort [simp]: "length (stable_sort lt xs) = length xs"
  by (metis mset_stable_sort size_mset)

lemma stable_sort_Nil_iff [simp]: "stable_sort lt xs = [] \<longleftrightarrow> xs = []"
  by (metis length_0_conv length_stable_sort)

section \<open>Comparisons that rank by a key\<close>

locale ranking =
  fixes lt :: "'a \<Rightarrow> 'a \<Rightarrow> bool" and key :: "'a \<Rightarrow> 'k::linorder" and ok :: "'a \<Rightarrow> bool"
  assumes lt_iff: "ok a \<Longrightarrow> ok b \<Longrightarrow> lt a b \<longleftrightarrow> key a < key b"
begin

lemma insert_by_key: "ok x \<Longrightarrow> \<forall>y\<in>set xs. ok y \<Longrightarrow> insert_by lt x xs = insort_key key x xs"
  by (induction xs) (auto simp: lt_iff)

lemma stable_sort_key: "\<forall>x\<in>set xs. ok x \<Longrightarrow> stable_sort lt xs = sort_key key xs"
  by (induction xs) (auto simp: insert_by_key)

lemma sorted: "\<forall>x\<in>set xs. ok x \<Longrightarrow> sorted (map key (stable_sort lt xs))"
  by (simp add: stable_sort_key)

lemma head_is_least:
  assumes "\<forall>x\<in>set xs. ok x" and "x \<in> set xs"
  shows "key (hd (stable_sort lt xs)) \<le> key x"
proof -
  have "x \<in> set (stable_sort lt xs)" using assms(2) by simp
  then show ?thesis using sorted [OF assms(1)] by (cases "stable_sort lt xs") auto
qed

text \<open>When the key tells the elements apart, the order of the input does not matter.\<close>

lemma order_irrelevant:
  assumes "\<forall>x\<in>set xs. ok x" and "mset xs = mset ys" and "inj_on key (set xs)"
  shows "stable_sort lt xs = stable_sort lt ys"
proof -
  have "set ys = set xs" using mset_eq_setD [OF assms(2)] by simp
  then have ok: "\<forall>y\<in>set ys. ok y" using assms(1) by simp
  have "sort_key key xs = sort_key key ys"
    by (rule sort_key_inj_key_eq) (use assms(2,3) in simp_all)
  then show ?thesis using assms(1) ok by (simp add: stable_sort_key)
qed

end

end
