(* ===== verification/Resolver_Core.thy ===== *)
theory Resolver_Core
  imports Stable_Sort Document_Invariant
begin

text \<open>
  What the read-only resolvers share: a resolver returns \<open>false\<close> with a text, or lets an
  exception of \<open>RationalTime\<close> through, and addresses frames of a source in the source's own
  rate.  \<open>frame_q\<close> is the exact instant at which a frame starts.
\<close>

datatype refusal = Refused string | Thrown string

definition lift :: "string + 'a \<Rightarrow> refusal + 'a" where
  "lift r = (case r of Inl e \<Rightarrow> Inl (Thrown e) | Inr x \<Rightarrow> Inr x)"

lemma lift_Inr_iff [simp]: "lift r = Inr x \<longleftrightarrow> r = Inr x"
  by (cases r) (simp_all add: lift_def)

abbreviation refuse :: "string \<Rightarrow> refusal + 'a" where
  "refuse text \<equiv> Inl (Refused text)"

section \<open>Rates and frames as rationals\<close>

definition rate_q :: "MediaRate \<Rightarrow> rat" where
  "rate_q r = of_int (mr_num r) / of_int (mr_den r)"

definition frame_q :: "MediaRate \<Rightarrow> int \<Rightarrow> rat" where
  "frame_q r n = of_int n * of_int (mr_den r) / of_int (mr_num r)"

lemma rate_q_pos: "0 < mr_num r \<Longrightarrow> 0 < mr_den r \<Longrightarrow> 0 < rate_q r"
  by (simp add: rate_q_def)

lemma frame_q_RT: "rt_q (RT (n * mr_den r) (mr_num r)) = frame_q r n"
  by (simp add: rt_q_def frame_q_def)

lemma frame_q_rate: "0 < mr_num r \<Longrightarrow> 0 < mr_den r \<Longrightarrow> frame_q r n * rate_q r = of_int n"
  by (simp add: frame_q_def rate_q_def)

lemma frame_q_le_iff:
  assumes "0 < mr_num r" and "0 < mr_den r"
  shows "frame_q r n \<le> x \<longleftrightarrow> n \<le> \<lfloor>x * rate_q r\<rfloor>"
proof -
  have "frame_q r n \<le> x \<longleftrightarrow> frame_q r n * rate_q r \<le> x * rate_q r"
    using rate_q_pos [OF assms] by simp
  also have "\<dots> \<longleftrightarrow> n \<le> \<lfloor>x * rate_q r\<rfloor>" by (simp add: frame_q_rate assms le_floor_iff)
  finally show ?thesis .
qed

lemma frame_q_less_iff:
  assumes "0 < mr_num r" and "0 < mr_den r"
  shows "frame_q r n < x \<longleftrightarrow> of_int n < x * rate_q r"
proof -
  have "frame_q r n < x \<longleftrightarrow> frame_q r n * rate_q r < x * rate_q r"
    using rate_q_pos [OF assms] by simp
  then show ?thesis by (simp add: frame_q_rate assms)
qed

lemma frame_q_mono: "0 < mr_num r \<Longrightarrow> 0 < mr_den r \<Longrightarrow> frame_q r m \<le> frame_q r n \<longleftrightarrow> m \<le> n"
  by (simp add: frame_q_le_iff frame_q_rate)

lemma frame_q_strict_mono: "0 < mr_num r \<Longrightarrow> 0 < mr_den r \<Longrightarrow> frame_q r m < frame_q r n \<longleftrightarrow> m < n"
  by (simp add: frame_q_less_iff frame_q_rate)

lemma to_frames_floor:
  "rt_to_frames a (mr_num r) (mr_den r) = Inr n \<Longrightarrow>
   0 < rt_rate a \<and> 0 < mr_num r \<and> 0 < mr_den r \<and> n = \<lfloor>rt_q a * rate_q r\<rfloor>"
  by (simp add: rt_to_frames_Inr_iff rate_q_def)

lemma to_frames_bounds:
  assumes "rt_to_frames a (mr_num r) (mr_den r) = Inr n"
  shows "frame_q r n \<le> rt_q a" and "rt_q a < frame_q r (n + 1)"
proof -
  note n = to_frames_floor [OF assms]
  then show "frame_q r n \<le> rt_q a" by (simp add: frame_q_le_iff)
  have "\<not> frame_q r (n + 1) \<le> rt_q a" using n by (simp add: frame_q_le_iff)
  then show "rt_q a < frame_q r (n + 1)" by simp
qed

end
