(* ===== verification/Timeline_Resolve.thy ===== *)
theory Timeline_Resolve
  imports Document_Invariant Sample_Document
begin

text \<open>
  \<open>src/Timeline.cc\<close>: which source frame a track shows at an instant, the layers of an
  active transition and the length of the sequence.  Exceptions are \<open>Inl\<close> with their text.
  Opacities are the exact rationals whose \<open>float\<close> the code computes; the rounding to
  \<open>float\<close> is not modelled.
\<close>

section \<open>Resolution\<close>

record ResolvedFrame =
  rf_source_id :: Ulid
  rf_source_frame :: int
  rf_clip_id :: Ulid

record ResolvedLayer =
  rl_frame :: ResolvedFrame
  rl_opacity :: rat

record TrackResolution =
  tr_track_id :: Ulid
  tr_frame :: "ResolvedFrame option"

definition ClipOpacity :: "DocumentClip \<Rightarrow> rat" where
  "ClipOpacity c = of_int (ep_num (clip_opacity c)) / of_int (ep_den (clip_opacity c))"

definition ResolveClipAt :: "Document \<Rightarrow> DocumentClip \<Rightarrow> RationalTime \<Rightarrow> string + ResolvedFrame" where
  "ResolveClipAt d clip sourceTime =
     (case FindSource d (clip_source_id clip) of
        None \<Rightarrow> Inl ''validated clip references an unknown source''
      | Some source \<Rightarrow>
          bindR (rt_to_frames sourceTime (mr_num (src_rate source)) (mr_den (src_rate source))) (\<lambda>n.
            Inr \<lparr>rf_source_id = src_id source, rf_source_frame = n, rf_clip_id = clip_id clip\<rparr>))"

text \<open>\<open>std::upper_bound\<close> walks right while the position is not before the clip's start.\<close>

definition not_before :: "RationalTime \<Rightarrow> DocumentClip \<Rightarrow> string + bool" where
  "not_before pos c = bindR (rt_lt pos (clip_timeline_in c)) (\<lambda>before. Inr (\<not> before))"

definition ResolveInTrack ::
  "Document \<Rightarrow> DocumentTrack \<Rightarrow> RationalTime \<Rightarrow> string + ResolvedFrame option" where
  "ResolveInTrack d track pos =
     (let clips = trk_clips track in
      bindR (partition_search (not_before pos) clips 0 (length clips)) (\<lambda>after.
      if after = 0 then Inr None
      else let clip = clips ! (after - 1) in
      bindR (rt_sub pos (clip_timeline_in clip)) (\<lambda>offset.
      bindR (if rt_value offset < 0 then Inr True else rt_ge offset (clip_duration clip)) (\<lambda>outside.
      if outside then Inr None
      else bindR (rt_add (clip_source_in clip) offset) (\<lambda>sourceTime.
           bindR (ResolveClipAt d clip sourceTime) (\<lambda>f. Inr (Some f)))))))"

definition position_rate_message :: string where
  "position_rate_message = ''timeline position rate must be positive''"

definition resolve_one :: "Document \<Rightarrow> RationalTime \<Rightarrow> DocumentTrack \<Rightarrow> string + TrackResolution" where
  "resolve_one d pos track =
     bindR (if trk_kind track = ''caption'' then Inr None else ResolveInTrack d track pos) (\<lambda>f.
       Inr \<lparr>tr_track_id = trk_id track, tr_frame = f\<rparr>)"

definition Resolve :: "Document \<Rightarrow> RationalTime \<Rightarrow> string + TrackResolution list" where
  "Resolve d pos =
     (if rt_rate pos \<le> 0 then Inl position_rate_message else mapR (resolve_one d pos) (doc_tracks d))"

definition ResolveTrack :: "Document \<Rightarrow> Ulid \<Rightarrow> RationalTime \<Rightarrow> string + ResolvedFrame option" where
  "ResolveTrack d i pos =
     (if rt_rate pos \<le> 0 then Inl position_rate_message
      else case FindTrack d i of
        None \<Rightarrow> Inl (''unknown track ID '' @ quoted i)
      | Some track \<Rightarrow> if trk_kind track = ''caption'' then Inr None else ResolveInTrack d track pos)"

section \<open>Layers\<close>

definition frame_span :: "Document \<Rightarrow> int \<Rightarrow> RationalTime" where
  "frame_span d n = RT (wrap64 (n * mr_den (seq_frame_rate (doc_sequence d)))) (mr_num (seq_frame_rate (doc_sequence d)))"

fun split_frames :: "TransitionAlignment \<Rightarrow> int \<Rightarrow> int \<times> int" where
  "split_frames Center n = (trunc_div n 2, n - trunc_div n 2)"
| "split_frames StartAtCut n = (0, n)"
| "split_frames EndAtCut n = (n, 0)"

definition clamp01 :: "rat \<Rightarrow> rat" where
  "clamp01 x = max 0 (min 1 x)"

definition dissolve :: "Document \<Rightarrow> RationalTime \<Rightarrow> DocumentTransition \<Rightarrow> DocumentClip \<Rightarrow> DocumentClip \<Rightarrow>
    string + ResolvedLayer list option" where
  "dissolve d pos tr left right =
     bindR (rt_to_frames (trn_duration tr) (mr_num (seq_frame_rate (doc_sequence d)))
              (mr_den (seq_frame_rate (doc_sequence d)))) (\<lambda>frames.
     let (preFrames, postFrames) = split_frames (trn_alignment tr) frames; cut = clip_timeline_in right in
     bindR (rt_sub cut (frame_span d preFrames)) (\<lambda>start.
     bindR (rt_add cut (frame_span d postFrames)) (\<lambda>end_time.
     bindR (orR (rt_lt pos start) (rt_ge pos end_time)) (\<lambda>outside.
     if outside then Inr None
     else
     bindR (rt_sub pos cut) (\<lambda>fromCut.
     bindR (rt_add (clip_source_in left) (clip_duration left)) (\<lambda>leftEnd.
     bindR (rt_add leftEnd fromCut) (\<lambda>leftTime.
     bindR (rt_add (clip_source_in right) fromCut) (\<lambda>rightTime.
     bindR (rt_sub pos start) (\<lambda>elapsed.
     let progress = clamp01 (rt_q elapsed / rt_q (trn_duration tr)) in
     bindR (ResolveClipAt d left leftTime) (\<lambda>l.
     bindR (ResolveClipAt d right rightTime) (\<lambda>r.
       Inr (Some [\<lparr>rl_frame = l, rl_opacity = ClipOpacity left\<rparr>,
                  \<lparr>rl_frame = r, rl_opacity = progress * ClipOpacity right\<rparr>]))))))))))))"

fun transition_layers ::
  "Document \<Rightarrow> Ulid \<Rightarrow> RationalTime \<Rightarrow> DocumentTransition list \<Rightarrow> string + ResolvedLayer list option" where
  "transition_layers d i pos [] = Inr None"
| "transition_layers d i pos (tr # trs) =
     (if trn_track_id tr \<noteq> i then transition_layers d i pos trs
      else case (FindClip d (trn_left_clip_id tr), FindClip d (trn_right_clip_id tr)) of
        (Some left, Some right) \<Rightarrow>
          bindR (dissolve d pos tr left right) (\<lambda>layers.
            if layers = None then transition_layers d i pos trs else Inr layers)
      | _ \<Rightarrow> transition_layers d i pos trs)"

definition ResolveTrackLayers :: "Document \<Rightarrow> Ulid \<Rightarrow> RationalTime \<Rightarrow> string + ResolvedLayer list" where
  "ResolveTrackLayers d i pos =
     (if rt_rate pos \<le> 0 then Inl position_rate_message
      else case FindTrack d i of
        None \<Rightarrow> Inl (''unknown track ID '' @ quoted i)
      | Some track \<Rightarrow>
      if trk_kind track = ''caption'' then Inr []
      else
      bindR (transition_layers d i pos (seq_transitions (doc_sequence d))) (\<lambda>layers.
      case layers of
        Some ls \<Rightarrow> Inr ls
      | None \<Rightarrow>
          bindR (ResolveInTrack d track pos) (\<lambda>frame.
            Inr (case frame of
                   None \<Rightarrow> []
                 | Some f \<Rightarrow> (case FindClip d (rf_clip_id f) of
                                None \<Rightarrow> []
                              | Some c \<Rightarrow> [\<lparr>rl_frame = f, rl_opacity = ClipOpacity c\<rparr>])))))"

section \<open>Duration\<close>

definition longer :: "DocumentClip \<Rightarrow> RationalTime \<times> RationalTime \<Rightarrow> string + RationalTime \<times> RationalTime" where
  "longer c = (\<lambda>(duration, timebase).
     bindR (rt_add timebase (RT 0 (rt_rate (clip_timeline_in c)))) (\<lambda>tb1.
     bindR (rt_add tb1 (RT 0 (rt_rate (clip_duration c)))) (\<lambda>tb2.
     bindR (rt_add (clip_timeline_in c) (clip_duration c)) (\<lambda>end_time.
     bindR (rt_gt end_time duration) (\<lambda>b. Inr (if b then end_time else duration, tb2))))))"

definition timeline_duration :: "Document \<Rightarrow> string + RationalTime" where
  "timeline_duration d =
     bindR (loopR (\<lambda>t. loopR longer (trk_clips t)) (doc_tracks d) (RT 0 1, RT 0 1)) (\<lambda>(duration, timebase).
       rt_rescale duration (rt_rate timebase))"

section \<open>The clip under the playhead\<close>

definition covers :: "RationalTime \<Rightarrow> DocumentClip \<Rightarrow> bool" where
  "covers pos c \<longleftrightarrow> clip_start c \<le> rt_q pos \<and> rt_q pos < clip_end c"

abbreviation started :: "RationalTime \<Rightarrow> DocumentClip list \<Rightarrow> nat" where
  "started pos clips \<equiv> length (takeWhile (\<lambda>c. clip_start c \<le> rt_q pos) clips)"

lemma clip_at_placed:
  assumes "valid d" and "t \<in> set (doc_tracks d)" and "j < length (trk_clips t)"
  shows "clip_well_placed d t (trk_clips t ! j)"
  using valid_track(2) [OF assms(1,2)] assms(3) by simp

lemma clips_in_order:
  assumes "valid d" and "t \<in> set (doc_tracks d)" and "i < j" and "j < length (trk_clips t)"
  shows "clip_end (trk_clips t ! i) \<le> clip_start (trk_clips t ! j)"
  using valid_track(1) [OF assms(1,2)] assms(3,4) by (simp add: track_in_order_def sorted_wrt_iff_nth_less)

lemma starts_in_order:
  assumes "valid d" and "t \<in> set (doc_tracks d)" and "i < j" and "j < length (trk_clips t)"
  shows "clip_start (trk_clips t ! i) < clip_start (trk_clips t ! j)"
proof -
  have "clip_start (trk_clips t ! i) < clip_end (trk_clips t ! i)"
    using clip_start_less_end [OF clip_at_placed [OF assms(1,2), of i]] assms(3,4) by simp
  also have "\<dots> \<le> clip_start (trk_clips t ! j)" by (rule clips_in_order [OF assms])
  finally show ?thesis .
qed

lemma started_iff:
  assumes v: "valid d" and t: "t \<in> set (doc_tracks d)" and j: "j < length (trk_clips t)"
  shows "clip_start (trk_clips t ! j) \<le> rt_q pos \<longleftrightarrow> j < started pos (trk_clips t)"
proof
  let ?k = "started pos (trk_clips t)"
  assume s: "clip_start (trk_clips t ! j) \<le> rt_q pos"
  show "j < ?k"
  proof (rule ccontr)
    assume n: "\<not> j < ?k"
    then have k: "?k < length (trk_clips t)" using j by simp
    then have "\<not> clip_start (trk_clips t ! ?k) \<le> rt_q pos" by (rule nth_length_takeWhile)
    moreover have "clip_start (trk_clips t ! ?k) \<le> clip_start (trk_clips t ! j)"
      using n starts_in_order [OF v t, of ?k j] j by (cases "?k = j") auto
    ultimately show False using s by simp
  qed
next
  assume k: "j < started pos (trk_clips t)"
  have "takeWhile (\<lambda>c. clip_start c \<le> rt_q pos) (trk_clips t) ! j \<in> set (takeWhile (\<lambda>c. clip_start c \<le> rt_q pos) (trk_clips t))"
    by (rule nth_mem [OF k])
  then show "clip_start (trk_clips t ! j) \<le> rt_q pos"
    unfolding takeWhile_nth [OF k] by (rule conjunct2 [OF set_takeWhileD])
qed

lemma upper_bound_is_started:
  assumes v: "valid d" and t: "t \<in> set (doc_tracks d)" and r: "0 < rt_rate pos"
  shows "partition_search (not_before pos) (trk_clips t) 0 (length (trk_clips t)) = Inr (started pos (trk_clips t))"
proof (rule partition_search_point)
  fix j
  assume "j < 0 + length (trk_clips t)"
  then have j: "j < length (trk_clips t)" by simp
  have "0 < rt_rate (clip_timeline_in (trk_clips t ! j))" using clip_at_placed [OF v t j] by (simp add: clip_well_placed_def)
  then have "rt_lt pos (clip_timeline_in (trk_clips t ! j)) = Inr (rt_q pos < clip_start (trk_clips t ! j))"
    using r by (simp add: rt_lt_iff clip_start_def)
  then show "not_before pos (trk_clips t ! j) = Inr (j < started pos (trk_clips t))"
    using started_iff [OF v t j, of pos] by (simp add: not_before_def not_less)
qed (simp_all add: length_takeWhile_le)

lemma covering_is_last_started:
  assumes v: "valid d" and t: "t \<in> set (doc_tracks d)" and j: "j < length (trk_clips t)"
    and c: "covers pos (trk_clips t ! j)"
  shows "j + 1 = started pos (trk_clips t)"
proof -
  let ?k = "started pos (trk_clips t)"
  have jk: "j < ?k" using started_iff [OF v t j, of pos] c by (simp add: covers_def)
  have "\<not> j + 1 < ?k"
  proof
    assume l: "j + 1 < ?k"
    have k: "j + 1 < length (trk_clips t)" using l length_takeWhile_le [of _ "trk_clips t"] by (rule less_le_trans)
    have "clip_end (trk_clips t ! j) \<le> clip_start (trk_clips t ! (j + 1))" by (rule clips_in_order [OF v t _ k]) simp
    moreover have "clip_start (trk_clips t ! (j + 1)) \<le> rt_q pos" using started_iff [OF v t k, of pos] l by simp
    ultimately show False using c by (simp add: covers_def)
  qed
  with jk show ?thesis by simp
qed

text \<open>The search is the linear scan for the one clip that covers the position.\<close>

lemma ResolveInTrack_cases:
  assumes v: "valid d" and t: "t \<in> set (doc_tracks d)" and r: "0 < rt_rate pos"
    and a: "ResolveInTrack d t pos = Inr result"
  shows "case result of
      None \<Rightarrow> \<forall>c\<in>set (trk_clips t). \<not> covers pos c
    | Some f \<Rightarrow> \<exists>c\<in>set (trk_clips t). covers pos c \<and> (\<forall>x\<in>set (trk_clips t). covers pos x \<longrightarrow> x = c) \<and>
        (\<exists>st. rt_q st = rt_q (clip_source_in c) + (rt_q pos - clip_start c) \<and> ResolveClipAt d c st = Inr f)"
proof -
  let ?cs = "trk_clips t"
  let ?k = "started pos ?cs"
  let ?c = "?cs ! (?k - 1)"
  have only: "x = ?c" if "x \<in> set ?cs" "covers pos x" for x
    using covering_is_last_started [OF v t] that by (metis add_diff_cancel_right' in_set_conv_nth)
  show ?thesis
  proof (cases "?k = 0")
    case True
    with a upper_bound_is_started [OF v t r] have "result = None" by (simp add: ResolveInTrack_def Let_def)
    moreover have "\<not> covers pos x" if "x \<in> set ?cs" for x
    proof -
      from that obtain j where j: "j < length ?cs" "x = ?cs ! j" by (auto simp: in_set_conv_nth)
      with started_iff [OF v t j(1), of pos] True show ?thesis by (simp add: covers_def)
    qed
    ultimately show ?thesis by simp
  next
    case False
    have k: "?k - 1 < length ?cs" using False length_takeWhile_le [of "\<lambda>c. clip_start c \<le> rt_q pos" ?cs] by linarith
    note placed = clip_at_placed [OF v t k]
    have start: "clip_start ?c \<le> rt_q pos" using started_iff [OF v t k, of pos] False by simp
    have "bindR (rt_sub pos (clip_timeline_in ?c)) (\<lambda>off.
        bindR (if rt_value off < 0 then Inr True else rt_ge off (clip_duration ?c)) (\<lambda>outside.
        if outside then Inr None
        else bindR (rt_add (clip_source_in ?c) off) (\<lambda>sourceTime.
             bindR (ResolveClipAt d ?c sourceTime) (\<lambda>f. Inr (Some f))))) = Inr result"
      using a False upper_bound_is_started [OF v t r] by (simp add: ResolveInTrack_def Let_def cong: if_cong)
    then obtain off where off: "rt_sub pos (clip_timeline_in ?c) = Inr off"
      and rest: "bindR (if rt_value off < 0 then Inr True else rt_ge off (clip_duration ?c)) (\<lambda>outside.
        if outside then Inr None
        else bindR (rt_add (clip_source_in ?c) off) (\<lambda>sourceTime.
             bindR (ResolveClipAt d ?c sourceTime) (\<lambda>f. Inr (Some f)))) = Inr result"
      by (rule bindR_InrE)
    have q: "rt_q off = rt_q pos - clip_start ?c" using rt_sub_exact [OF off] by (simp add: clip_start_def)
    have "0 < rt_rate off" using rt_sub_wf [OF off] by (simp add: rt_wf_def)
    then have nn: "\<not> rt_value off < 0" using start q by (simp add: rt_q_sgn_iff(2) [symmetric] not_less)
    have inside: "rt_q off < rt_q (clip_duration ?c) \<longleftrightarrow> covers pos ?c" using start q by (auto simp: covers_def clip_end_def clip_start_def)
    from rest nn obtain out where o: "rt_ge off (clip_duration ?c) = Inr out"
      and tail: "(if out then Inr None else bindR (rt_add (clip_source_in ?c) off) (\<lambda>sourceTime.
             bindR (ResolveClipAt d ?c sourceTime) (\<lambda>f. Inr (Some f)))) = Inr result"
      by (simp only: if_False) (rule bindR_InrE)
    have cov: "covers pos ?c \<longleftrightarrow> \<not> out" using o inside by (auto simp: rt_ge_iff)
    show ?thesis
    proof (cases result)
      case None
      have out
      proof (rule ccontr)
        assume "\<not> out"
        with tail None show False by auto
      qed
      have "\<not> covers pos x" if x: "x \<in> set ?cs" for x
      proof
        assume c: "covers pos x"
        from only [OF x c] c cov \<open>out\<close> show False by simp
      qed
      with None show ?thesis by simp
    next
      case (Some f)
      with tail have "\<not> out" by auto
      with tail Some obtain st where st: "rt_add (clip_source_in ?c) off = Inr st"
        and f: "ResolveClipAt d ?c st = Inr f" by auto
      have "covers pos ?c" using cov \<open>\<not> out\<close> by simp
      moreover have "rt_q st = rt_q (clip_source_in ?c) + (rt_q pos - clip_start ?c)" using rt_add_exact [OF st] q by simp
      moreover have "\<forall>x\<in>set ?cs. covers pos x \<longrightarrow> x = ?c" using only by blast
      ultimately show ?thesis unfolding Some option.case using f nth_mem [OF k] by blast
    qed
  qed
qed

text \<open>
  Property C25: on a valid document a resolved frame is the frame of the one clip that covers
  the position: the clip's source, and the source frame that contains the exact source
  time, which lies inside the source file; no frame means that no clip of the track covers
  the position.  So the binary search of \<open>ResolveInTrack\<close> is the linear scan.
\<close>

theorem resolved_frame_is_of_covering_clip:
  assumes "valid d" and "t \<in> set (doc_tracks d)" and "trk_kind t \<noteq> ''caption''" and "0 < rt_rate pos"
    and "ResolveInTrack d t pos = Inr result"
  shows "case result of
      None \<Rightarrow> \<forall>c\<in>set (trk_clips t). \<not> covers pos c
    | Some f \<Rightarrow> \<exists>c\<in>set (trk_clips t). \<exists>s. covers pos c \<and> (\<forall>x\<in>set (trk_clips t). covers pos x \<longrightarrow> x = c) \<and>
        FindSource d (clip_source_id c) = Some s \<and> rf_clip_id f = clip_id c \<and> rf_source_id f = src_id s \<and>
        rf_source_frame f = \<lfloor>(rt_q (clip_source_in c) + (rt_q pos - clip_start c)) *
                             (of_int (mr_num (src_rate s)) / of_int (mr_den (src_rate s)))\<rfloor> \<and>
        0 \<le> rf_source_frame f \<and>
        of_int (rf_source_frame f) < rt_q (src_duration s) * (of_int (mr_num (src_rate s)) / of_int (mr_den (src_rate s)))"
proof (cases result)
  case None
  with ResolveInTrack_cases [OF assms(1,2,4,5)] show ?thesis by simp
next
  case (Some f)
  from ResolveInTrack_cases [OF assms(1,2,4,5), unfolded Some option.case] obtain c st where
    c: "c \<in> set (trk_clips t)" "covers pos c" "\<forall>x\<in>set (trk_clips t). covers pos x \<longrightarrow> x = c"
    and st: "rt_q st = rt_q (clip_source_in c) + (rt_q pos - clip_start c)" and f: "ResolveClipAt d c st = Inr f"
    by blast
  from f obtain s where s: "FindSource d (clip_source_id c) = Some s"
    and n: "rt_to_frames st (mr_num (src_rate s)) (mr_den (src_rate s)) = Inr (rf_source_frame f)"
    and ids: "rf_clip_id f = clip_id c" "rf_source_id f = src_id s"
    by (auto simp: ResolveClipAt_def split: option.splits)
  let ?r = "of_int (mr_num (src_rate s)) / of_int (mr_den (src_rate s)) :: rat"
  have r: "0 < ?r" and fr: "rf_source_frame f = \<lfloor>rt_q st * ?r\<rfloor>" using n by (simp_all add: rt_to_frames_Inr_iff)
  have w: "clip_well_placed d t c" by (rule valid_track(2) [OF assms(1,2) c(1)])
  then have lim: "rt_q (clip_source_in c) + rt_q (clip_duration c) \<le> rt_q (src_duration s)" and si: "0 \<le> rt_q (clip_source_in c)"
    using s assms(3) by (auto simp: clip_well_placed_def rt_q_sgn_iff(4))
  have "0 \<le> rt_q st" and "rt_q st < rt_q (src_duration s)"
    using c(2) st lim si by (simp_all add: covers_def clip_start_def clip_end_def)
  then have "0 \<le> rt_q st * ?r" and "rt_q st * ?r < rt_q (src_duration s) * ?r"
    using mult_nonneg_nonneg [OF _ less_imp_le [OF r]] mult_strict_right_mono [OF _ r] by blast+
  then have "0 \<le> rf_source_frame f" and "of_int (rf_source_frame f) < rt_q (src_duration s) * ?r"
    unfolding fr using of_int_floor_le [of "rt_q st * ?r"] by linarith+
  with c(2,3) s ids fr [unfolded st] show ?thesis unfolding Some option.case
    by (intro bexI [OF _ c(1)] exI [of _ s] conjI)
qed

lemma ClipOpacity_bounds:
  assumes "valid d" and "FindClip d i = Some c"
  shows "0 \<le> ClipOpacity c \<and> ClipOpacity c \<le> 1"
proof -
  from find_Some_D [OF assms(2) [unfolded FindClip_def]] obtain t where "t \<in> set (doc_tracks d)" "c \<in> set (trk_clips t)" by auto
  from valid_track(2) [OF assms(1) this] show ?thesis
    by (auto simp: clip_well_placed_def ClipOpacity_def divide_le_eq_1 zero_le_divide_iff le_less)
qed

lemma clamp01_bounds: "0 \<le> clamp01 x \<and> clamp01 x \<le> 1"
  by (auto simp: clamp01_def)

lemma dissolve_bounds:
  assumes "dissolve d pos tr l r = Inr (Some ls)" and "0 \<le> ClipOpacity l \<and> ClipOpacity l \<le> 1"
    and "0 \<le> ClipOpacity r \<and> ClipOpacity r \<le> 1"
  shows "length ls \<le> 2 \<and> (\<forall>x\<in>set ls. 0 \<le> rl_opacity x \<and> rl_opacity x \<le> 1)"
  using assms clamp01_bounds
  by (auto simp: dissolve_def Let_def mult_le_one split: prod.splits if_splits)

lemma transition_layers_bounds:
  assumes v: "valid d"
  shows "transition_layers d i pos trs = Inr (Some ls) \<Longrightarrow>
    length ls \<le> 2 \<and> (\<forall>x\<in>set ls. 0 \<le> rl_opacity x \<and> rl_opacity x \<le> 1)"
proof (induction trs)
  case (Cons tr trs)
  show ?case
  proof (cases "trn_track_id tr = i")
    case True
    show ?thesis
    proof (cases "\<exists>l r. FindClip d (trn_left_clip_id tr) = Some l \<and> FindClip d (trn_right_clip_id tr) = Some r")
      case lr: True
      then obtain l r where lr: "FindClip d (trn_left_clip_id tr) = Some l" "FindClip d (trn_right_clip_id tr) = Some r" by blast
      with Cons.prems True obtain x where x: "dissolve d pos tr l r = Inr x"
        and k: "(if x = None then transition_layers d i pos trs else Inr x) = Inr (Some ls)" by auto
      show ?thesis
      proof (cases x)
        case None
        with k Cons.IH show ?thesis by simp
      next
        case (Some y)
        with k x have "dissolve d pos tr l r = Inr (Some ls)" by simp
        from dissolve_bounds [OF this ClipOpacity_bounds [OF v lr(1)] ClipOpacity_bounds [OF v lr(2)]] show ?thesis .
      qed
    next
      case False
      with Cons.prems True have "transition_layers d i pos trs = Inr (Some ls)" by (auto split: option.splits)
      then show ?thesis by (rule Cons.IH)
    qed
  next
    case False
    with Cons.prems have "transition_layers d i pos trs = Inr (Some ls)" by simp
    then show ?thesis by (rule Cons.IH)
  qed
qed simp

text \<open>
  A track shows at most two layers, and on a valid document every layer's
  opacity lies between 0 and 1.
\<close>

theorem track_layers_bounds:
  assumes "valid d" and "ResolveTrackLayers d i pos = Inr ls"
  shows "length ls \<le> 2 \<and> (\<forall>x\<in>set ls. 0 \<le> rl_opacity x \<and> rl_opacity x \<le> 1)"
proof (cases "ls = []")
  case False
  with assms(2) obtain t x where t: "FindTrack d i = Some t"
    and x: "transition_layers d i pos (seq_transitions (doc_sequence d)) = Inr x"
    and k: "(case x of Some ls' \<Rightarrow> Inr ls'
      | None \<Rightarrow> bindR (ResolveInTrack d t pos) (\<lambda>frame.
            Inr (case frame of None \<Rightarrow> []
                 | Some f \<Rightarrow> (case FindClip d (rf_clip_id f) of None \<Rightarrow> []
                              | Some c \<Rightarrow> [\<lparr>rl_frame = f, rl_opacity = ClipOpacity c\<rparr>])))) = Inr ls"
    by (auto simp: ResolveTrackLayers_def split: option.splits if_splits)
  show ?thesis
  proof (cases x)
    case None
    with k False obtain f c where "FindClip d (rf_clip_id f) = Some c" "ls = [\<lparr>rl_frame = f, rl_opacity = ClipOpacity c\<rparr>]"
      by (auto split: option.splits)
    then show ?thesis using ClipOpacity_bounds [OF assms(1)] by simp
  next
    case (Some y)
    with k x have "transition_layers d i pos (seq_transitions (doc_sequence d)) = Inr (Some ls)" by simp
    then show ?thesis by (rule transition_layers_bounds [OF assms(1)])
  qed
qed simp

section \<open>The length of the sequence\<close>

text \<open>The state of the loops: the greatest end so far, and a common multiple of the rates met.\<close>

definition greatest_end :: "DocumentClip set \<Rightarrow> RationalTime \<times> RationalTime \<Rightarrow> bool" where
  "greatest_end cs s \<longleftrightarrow> 0 \<le> rt_q (fst s) \<and> (\<forall>c\<in>cs. clip_end c \<le> rt_q (fst s)) \<and>
     (rt_q (fst s) = 0 \<or> (\<exists>c\<in>cs. clip_end c = rt_q (fst s))) \<and>
     0 < rt_rate (snd s) \<and> (\<forall>c\<in>cs. rt_rate (clip_timeline_in c) dvd rt_rate (snd s) \<and> rt_rate (clip_duration c) dvd rt_rate (snd s))"

lemma rt_add_rate:
  assumes "rt_add a b = Inr c"
  shows "rt_rate c = lcm (rt_rate a) (rt_rate b)" and "0 < rt_rate c"
  using assms by (auto simp: rt_add_Inr_iff rt_Lcm_eq lcm_pos_int)

lemma longer_step:
  assumes "longer c s = Inr s'" and "greatest_end cs s"
  shows "greatest_end (insert c cs) s'"
proof -
  obtain du tb where s: "s = (du, tb)" by (cases s)
  from assms(1) obtain t1 t2 e b where t: "rt_add tb (RT 0 (rt_rate (clip_timeline_in c))) = Inr t1"
      "rt_add t1 (RT 0 (rt_rate (clip_duration c))) = Inr t2" and e: "rt_add (clip_timeline_in c) (clip_duration c) = Inr e"
    and b: "rt_gt e du = Inr b" and s': "s' = (if b then e else du, t2)"
    by (auto simp: longer_def s)
  have q: "rt_q e = clip_end c" using rt_add_exact [OF e] by (simp add: clip_end_def)
  have bb: "b \<longleftrightarrow> rt_q du < rt_q e" using b by (simp add: rt_gt_iff)
  have "0 < rt_rate t2" and "rt_rate t2 = lcm (lcm (rt_rate tb) (rt_rate (clip_timeline_in c))) (rt_rate (clip_duration c))"
    using rt_add_rate [OF t(1)] rt_add_rate [OF t(2)] by simp_all
  then have "0 < rt_rate t2 \<and> rt_rate tb dvd rt_rate t2 \<and> rt_rate (clip_timeline_in c) dvd rt_rate t2 \<and>
      rt_rate (clip_duration c) dvd rt_rate t2"
    by (metis dvd_lcm1 dvd_lcm2 dvd_trans)
  then show ?thesis
    using assms(2) q bb unfolding greatest_end_def s s'
    by (auto intro: dvd_trans)
qed

lemma longer_loop:
  "loopR longer xs s = Inr s' \<Longrightarrow> greatest_end cs s \<Longrightarrow> greatest_end (set xs \<union> cs) s'"
proof (induction xs arbitrary: s cs)
  case (Cons x xs)
  from Cons.prems(1) obtain m where m: "longer x s = Inr m" and r: "loopR longer xs m = Inr s'" by auto
  from Cons.IH [OF r longer_step [OF m Cons.prems(2)]] show ?case by simp
qed simp

lemma longer_tracks:
  "loopR (\<lambda>t. loopR longer (trk_clips t)) ts s = Inr s' \<Longrightarrow> greatest_end cs s \<Longrightarrow>
   greatest_end ((\<Union>t\<in>set ts. set (trk_clips t)) \<union> cs) s'"
proof (induction ts arbitrary: s cs)
  case (Cons x xs)
  from Cons.prems(1) obtain m where m: "loopR longer (trk_clips x) s = Inr m"
    and r: "loopR (\<lambda>t. loopR longer (trk_clips t)) xs m = Inr s'" by auto
  from Cons.IH [OF r longer_loop [OF m Cons.prems(2)]] show ?case by (simp add: Un_assoc Un_left_commute)
qed simp

text \<open>
  \<open>Timeline::Duration\<close> is exactly the greatest clip end (zero on an empty
  sequence), given at a rate at which every clip's start and duration are whole.
\<close>

theorem duration_is_greatest_end:
  assumes "timeline_duration d = Inr len"
  shows "(\<forall>t\<in>set (doc_tracks d). \<forall>c\<in>set (trk_clips t). clip_end c \<le> rt_q len) \<and>
    (rt_q len = 0 \<or> (\<exists>t\<in>set (doc_tracks d). \<exists>c\<in>set (trk_clips t). clip_end c = rt_q len)) \<and>
    (\<forall>t\<in>set (doc_tracks d). \<forall>c\<in>set (trk_clips t).
       rt_rate (clip_timeline_in c) dvd rt_rate len \<and> rt_rate (clip_duration c) dvd rt_rate len)"
proof -
  from assms obtain s where l: "loopR (\<lambda>t. loopR longer (trk_clips t)) (doc_tracks d) (RT 0 1, RT 0 1) = Inr s"
    and r: "rt_rescale (fst s) (rt_rate (snd s)) = Inr len" by (auto simp: timeline_duration_def)
  have "greatest_end {} (RT 0 1, RT 0 1)" by (simp add: greatest_end_def rt_q_def)
  from longer_tracks [OF l this] have "greatest_end (\<Union>t\<in>set (doc_tracks d). set (trk_clips t)) s" by simp
  moreover have "rt_q len = rt_q (fst s)" "rt_rate len = rt_rate (snd s)" using r by (simp_all add: rt_rescale_Inr_iff)
  ultimately show ?thesis by (simp add: greatest_end_def)
qed

section \<open>On the sample document\<close>

definition first_track :: DocumentTrack where
  "first_track = sample_track CHR ''A'' ''video'' 0
     [link CHR ''1'' (sample_clip CHR ''1'' 0 100 0), sample_clip CHR ''2'' 200 50 100]"

lemma sample_frame:
  "ResolveInTrack sample_doc first_track (RT 110 25) =
     Inr (Some \<lparr>rf_source_id = u CHR ''0'', rf_source_frame = 210, rf_clip_id = u CHR ''2''\<rparr>)"
  by code_simp

theorem resolved_frame_is_of_covering_clip_witness:
  "\<exists>c\<in>set (trk_clips first_track). covers (RT 110 25) c \<and> clip_id c = u CHR ''2''"
proof -
  have "first_track \<in> set (doc_tracks sample_doc)" and "trk_kind first_track \<noteq> ''caption''"
    by (simp_all add: first_track_def sample_doc_def sample_doc_with_def sample_track_def)
  from resolved_frame_is_of_covering_clip [OF sample_doc_valid this _ sample_frame]
  obtain c where "c \<in> set (trk_clips first_track)" "covers (RT 110 25) c"
    "rf_clip_id \<lparr>rf_source_id = u CHR ''0'', rf_source_frame = 210, rf_clip_id = u CHR ''2''\<rparr> = clip_id c"
    by (simp only: option.case RationalTime.simps zero_less_numeral) blast
  then show ?thesis by (intro bexI) simp_all
qed

theorem track_layers_bounds_witness:
  "ResolveTrackLayers sample_doc (u CHR ''A'') (RT 110 25) =
     Inr [\<lparr>rl_frame = \<lparr>rf_source_id = u CHR ''0'', rf_source_frame = 210, rf_clip_id = u CHR ''2''\<rparr>, rl_opacity = 1\<rparr>] \<and>
   (1::rat) \<le> 1"
proof -
  have t: "FindTrack sample_doc (u CHR ''A'') = Some first_track" and s: "seq_transitions (doc_sequence sample_doc) = []"
    and c: "FindClip sample_doc (u CHR ''2'') = Some (sample_clip CHR ''2'' 200 50 100)" by code_simp+
  have o: "ClipOpacity (sample_clip CHR ''2'' 200 50 100) = 1"
    by (simp add: ClipOpacity_def sample_clip_def new_clip_def default_opacity_def)
  have r: "ResolveTrackLayers sample_doc (u CHR ''A'') (RT 110 25) =
     Inr [\<lparr>rl_frame = \<lparr>rf_source_id = u CHR ''0'', rf_source_frame = 210, rf_clip_id = u CHR ''2''\<rparr>, rl_opacity = 1\<rparr>]"
    by (simp add: ResolveTrackLayers_def t s sample_frame c o) (simp add: first_track_def sample_track_def)
  from track_layers_bounds [OF sample_doc_valid r] r show ?thesis by simp
qed

theorem duration_is_greatest_end_witness:
  "timeline_duration sample_doc = Inr (RT 150 25) \<and> rt_q (RT 150 25) = 6"
proof -
  have r: "timeline_duration sample_doc = Inr (RT 150 25)" by code_simp
  from duration_is_greatest_end [OF r] r show ?thesis by (simp add: rt_q_def)
qed

end
