(* ===== verification/Source_Address.thy ===== *)
theory Source_Address
  imports Resolver_Core Timeline_Resolve Operation_Types
begin

text \<open>
  \<open>src/SourceAddress.cc\<close>: the timeline addressed by frames of the source material.
  \<open>std::sort\<close> leaves the order of equal elements open; the model keeps them in document
  order.  The comparison cannot throw, since every match has a positive rate.
\<close>

section \<open>Frames of a source\<close>

definition SourceFrameTime :: "MediaRate \<Rightarrow> int \<Rightarrow> refusal + RationalTime" where
  "SourceFrameTime rate frame =
     (if mr_num rate \<le> 0 \<or> mr_den rate \<le> 0 then refuse ''source has an invalid frame rate''
      else if frame < 0 then refuse ''source_frame cannot be negative''
      else if frame > trunc_div int64_max (mr_den rate)
      then refuse ''source_frame is too large for the source frame rate''
      else Inr (RT (frame * mr_den rate) (mr_num rate)))"

definition LastFrameBefore :: "RationalTime \<Rightarrow> MediaRate \<Rightarrow> refusal + int" where
  "LastFrameBefore time rate =
     bindR (lift (rt_to_frames time (mr_num rate) (mr_den rate))) (\<lambda>frame.
     bindR (SourceFrameTime rate frame) (\<lambda>frameTime.
     bindR (lift (rt_eq frameTime time)) (\<lambda>starts.
       if starts
       then if frame = int64_min then refuse ''source frame bound underflows'' else Inr (frame - 1)
       else Inr frame)))"

definition FirstFrameAfter :: "RationalTime \<Rightarrow> MediaRate \<Rightarrow> refusal + int" where
  "FirstFrameAfter time rate =
     bindR (lift (rt_to_frames time (mr_num rate) (mr_den rate))) (\<lambda>frame.
     bindR (SourceFrameTime rate frame) (\<lambda>frameTime.
     bindR (lift (rt_le frameTime time)) (\<lambda>notAfter.
       if notAfter
       then if frame = int64_max then refuse ''source frame bound overflows'' else Inr (frame + 1)
       else Inr frame)))"

definition ValidateSourceFrameBounds :: "string \<Rightarrow> int \<Rightarrow> int \<Rightarrow> int \<Rightarrow> refusal + unit" where
  "ValidateSourceFrameBounds operation sourceFrame first final =
     (if sourceFrame \<ge> first \<and> sourceFrame \<le> final then Inr ()
      else refuse (operation @ '' source_frame must be within ['' @ to_string first @ '', '' @
                   to_string final @ '']; got '' @ to_string sourceFrame))"

section \<open>Where a frame plays\<close>

record SourceFrameMatch =
  sfm_clip_id :: Ulid
  sfm_track_id :: Ulid
  sfm_track_kind :: string
  sfm_track_index :: int
  sfm_link_group_id :: Ulid
  sfm_timeline_position :: RationalTime
  sfm_offset_in_clip :: RationalTime
  sfm_clip_source_in :: RationalTime
  sfm_clip_duration :: RationalTime
  sfm_clip_timeline_in :: RationalTime

definition match_clip ::
  "Ulid \<Rightarrow> RationalTime \<Rightarrow> DocumentTrack \<Rightarrow> DocumentClip \<Rightarrow> SourceFrameMatch list \<Rightarrow> string + SourceFrameMatch list" where
  "match_clip mediaId sourceTime track clip matches =
     (if clip_source_id clip \<noteq> mediaId then Inr matches
      else
      bindR (rt_add (clip_source_in clip) (clip_duration clip)) (\<lambda>clipEnd.
      bindR (orR (rt_lt sourceTime (clip_source_in clip)) (rt_ge sourceTime clipEnd)) (\<lambda>outside.
      if outside then Inr matches
      else
      bindR (rt_sub sourceTime (clip_source_in clip)) (\<lambda>offset.
      bindR (rt_add (clip_timeline_in clip) offset) (\<lambda>position.
        Inr (matches @
          [\<lparr>sfm_clip_id = clip_id clip, sfm_track_id = trk_id track, sfm_track_kind = trk_kind track,
            sfm_track_index = trk_index track, sfm_link_group_id = clip_link_group_id clip,
            sfm_timeline_position = position, sfm_offset_in_clip = offset,
            sfm_clip_source_in = clip_source_in clip, sfm_clip_duration = clip_duration clip,
            sfm_clip_timeline_in = clip_timeline_in clip\<rparr>]))))))"

definition match_before :: "SourceFrameMatch \<Rightarrow> SourceFrameMatch \<Rightarrow> bool" where
  "match_before l r =
     (if sfm_track_index l \<noteq> sfm_track_index r then sfm_track_index l < sfm_track_index r
      else rt_lt (sfm_timeline_position l) (sfm_timeline_position r) = Inr True)"

definition ResolveSourceFrame :: "Document \<Rightarrow> Ulid \<Rightarrow> int \<Rightarrow> refusal + SourceFrameMatch list" where
  "ResolveSourceFrame d mediaId sourceFrame =
     (case FindSource d mediaId of
        None \<Rightarrow> refuse (''no mounted source with id '' @ quoted mediaId)
      | Some source \<Rightarrow>
          bindR (SourceFrameTime (src_rate source) sourceFrame) (\<lambda>sourceTime.
          bindR (lift (loopR (\<lambda>track. loopR (match_clip mediaId sourceTime track) (trk_clips track)) (doc_tracks d) [])) (\<lambda>matches.
            Inr (stable_sort match_before matches))))"

section \<open>Positions and trims\<close>

definition clip_and_source :: "Document \<Rightarrow> Ulid \<Rightarrow> refusal + DocumentClip \<times> DocumentSource" where
  "clip_and_source d clipId =
     (case FindClip d clipId of
        None \<Rightarrow> refuse (''no clip matches id '' @ quoted clipId)
      | Some clip \<Rightarrow> (case FindSource d (clip_source_id clip) of
          None \<Rightarrow> refuse (''clip '' @ quoted clipId @ '' reads from an unmounted source'')
        | Some source \<Rightarrow> Inr (clip, source)))"

definition ResolveClipSourceFramePosition :: "Document \<Rightarrow> Ulid \<Rightarrow> int \<Rightarrow> refusal + RationalTime" where
  "ResolveClipSourceFramePosition d clipId sourceFrame =
     bindR (clip_and_source d clipId) (\<lambda>(clip, source).
     bindR (FirstFrameAfter (clip_source_in clip) (src_rate source)) (\<lambda>first.
     bindR (lift (rt_add (clip_source_in clip) (clip_duration clip))) (\<lambda>clipEnd.
     bindR (LastFrameBefore clipEnd (src_rate source)) (\<lambda>final.
     bindR (ValidateSourceFrameBounds ''split_clip'' sourceFrame first final) (\<lambda>_.
     bindR (SourceFrameTime (src_rate source) sourceFrame) (\<lambda>sourceTime.
     bindR (lift (rt_sub sourceTime (clip_source_in clip))) (\<lambda>offset.
       lift (rt_add (clip_timeline_in clip) offset))))))))"

definition would_be_empty :: "string \<Rightarrow> int \<Rightarrow> Ulid \<Rightarrow> refusal + 'a" where
  "would_be_empty edge sourceFrame clipId =
     refuse (edge @ to_string sourceFrame @ '' would leave clip '' @ quoted clipId @ '' empty'')"

definition ResolveClipSourceFrameTrim :: "Document \<Rightarrow> Ulid \<Rightarrow> int \<Rightarrow> TrimEdge \<Rightarrow> refusal + RationalTime" where
  "ResolveClipSourceFrameTrim d clipId sourceFrame edge =
     bindR (clip_and_source d clipId) (\<lambda>(clip, source).
     bindR (lift (rt_to_frames (clip_source_in clip) (mr_num (src_rate source)) (mr_den (src_rate source)))) (\<lambda>clipFirst.
     bindR (lift (rt_add (clip_source_in clip) (clip_duration clip))) (\<lambda>clipEnd.
     bindR (LastFrameBefore clipEnd (src_rate source)) (\<lambda>clipLast.
     bindR (LastFrameBefore (src_duration source) (src_rate source)) (\<lambda>sourceLast.
     bindR (ValidateSourceFrameBounds ''trim_clip'' sourceFrame
              (if edge = Head then 0 else clipFirst) (if edge = Head then clipLast else sourceLast)) (\<lambda>_.
     bindR (SourceFrameTime (src_rate source) sourceFrame) (\<lambda>sourceTime.
     if edge = Head
     then
       bindR (lift (rt_sub sourceTime (clip_source_in clip))) (\<lambda>delta.
       bindR (lift (rt_sub (clip_duration clip) delta)) (\<lambda>kept.
         if rt_value kept \<le> 0 then would_be_empty ''a head on source frame '' sourceFrame clipId
         else Inr delta))
     else if sourceFrame = int64_max then refuse ''trim_clip source_frame is too large''
     else
       bindR (SourceFrameTime (src_rate source) (sourceFrame + 1)) (\<lambda>lastFrameEnd.
       bindR (lift (rt_add (clip_source_in clip) (clip_duration clip))) (\<lambda>oldEnd.
       bindR (lift (rt_sub lastFrameEnd oldEnd)) (\<lambda>delta.
       bindR (lift (rt_add (clip_duration clip) delta)) (\<lambda>kept.
         if rt_value kept \<le> 0 then would_be_empty ''a tail on source frame '' sourceFrame clipId
         else Inr delta)))))))))))"

section \<open>Frames before and after an instant\<close>

lemma SourceFrameTime_Inr_iff:
  "SourceFrameTime r n = Inr t \<longleftrightarrow>
     0 < mr_num r \<and> 0 < mr_den r \<and> 0 \<le> n \<and> n \<le> trunc_div int64_max (mr_den r) \<and> t = RT (n * mr_den r) (mr_num r)"
  by (auto simp: SourceFrameTime_def)

lemma SourceFrameTime_exact: "SourceFrameTime r n = Inr t \<Longrightarrow> rt_q t = frame_q r n"
  by (auto simp: SourceFrameTime_Inr_iff frame_q_RT)

lemma LastFrameBefore_bounds:
  assumes "LastFrameBefore t r = Inr k"
  shows "frame_q r k < rt_q t" and "rt_q t \<le> frame_q r (k + 1)"
proof -
  from assms obtain n ft b where n: "rt_to_frames t (mr_num r) (mr_den r) = Inr n"
    and ft: "SourceFrameTime r n = Inr ft" and b: "rt_eq ft t = Inr b"
    and k: "k = (if b then n - 1 else n)"
    by (auto simp: LastFrameBefore_def split: if_splits)
  have pos: "0 < mr_num r" "0 < mr_den r" using ft by (simp_all add: SourceFrameTime_Inr_iff)
  note bounds = to_frames_bounds [OF n]
  have starts: "b \<longleftrightarrow> frame_q r n = rt_q t" using b SourceFrameTime_exact [OF ft] by (simp add: rt_eq_iff)
  show "frame_q r k < rt_q t" using k starts bounds frame_q_strict_mono [OF pos, of "n - 1" n] by (cases b) auto
  show "rt_q t \<le> frame_q r (k + 1)" using k starts bounds by (cases b) auto
qed

lemma FirstFrameAfter_bounds:
  assumes "FirstFrameAfter t r = Inr k"
  shows "rt_q t < frame_q r k" and "frame_q r (k - 1) \<le> rt_q t"
proof -
  from assms obtain n ft b where n: "rt_to_frames t (mr_num r) (mr_den r) = Inr n"
    and ft: "SourceFrameTime r n = Inr ft" and b: "rt_le ft t = Inr b"
    and k: "k = (if b then n + 1 else n)"
    by (auto simp: FirstFrameAfter_def split: if_splits)
  note bounds = to_frames_bounds [OF n]
  have b using b SourceFrameTime_exact [OF ft] bounds by (simp add: rt_le_iff)
  then show "rt_q t < frame_q r k" and "frame_q r (k - 1) \<le> rt_q t" using k bounds by simp_all
qed

section \<open>A position inside a clip\<close>

lemma clip_and_source_Inr:
  "clip_and_source d i = Inr (c, s) \<longleftrightarrow> FindClip d i = Some c \<and> FindSource d (clip_source_id c) = Some s"
  by (auto simp: clip_and_source_def split: option.splits)

lemma ResolveClipSourceFramePosition_facts:
  assumes "ResolveClipSourceFramePosition d i n = Inr p"
  obtains c s where "FindClip d i = Some c" and "FindSource d (clip_source_id c) = Some s"
    and "0 < mr_num (src_rate s)" and "0 < mr_den (src_rate s)" and "rt_wf p"
    and "clip_start c < rt_q p" and "rt_q p < clip_end c"
    and "rt_q (clip_source_in c) + (rt_q p - clip_start c) = frame_q (src_rate s) n"
proof -
  from assms obtain c s first e final st off where cs: "clip_and_source d i = Inr (c, s)"
    and first: "FirstFrameAfter (clip_source_in c) (src_rate s) = Inr first"
    and e: "rt_add (clip_source_in c) (clip_duration c) = Inr e"
    and final: "LastFrameBefore e (src_rate s) = Inr final"
    and n: "ValidateSourceFrameBounds ''split_clip'' n first final = Inr ()"
    and st: "SourceFrameTime (src_rate s) n = Inr st"
    and off: "rt_sub st (clip_source_in c) = Inr off" and p: "rt_add (clip_timeline_in c) off = Inr p"
    by (auto simp: ResolveClipSourceFramePosition_def)
  have pos: "0 < mr_num (src_rate s)" "0 < mr_den (src_rate s)" using st by (simp_all add: SourceFrameTime_Inr_iff)
  have range: "first \<le> n" "n \<le> final" using n by (simp_all add: ValidateSourceFrameBounds_def split: if_splits)
  have q: "rt_q p = clip_start c + (frame_q (src_rate s) n - rt_q (clip_source_in c))"
    using rt_add_exact [OF p] rt_sub_exact [OF off] SourceFrameTime_exact [OF st] by (simp add: clip_start_def)
  have "rt_q (clip_source_in c) < frame_q (src_rate s) n"
    using FirstFrameAfter_bounds(1) [OF first] frame_q_mono [OF pos, of first n] range(1) by linarith
  moreover have "frame_q (src_rate s) n < rt_q (clip_source_in c) + rt_q (clip_duration c)"
    using LastFrameBefore_bounds(1) [OF final] frame_q_mono [OF pos, of n final] range(2) rt_add_exact [OF e] by linarith
  ultimately have "clip_start c < rt_q p" and "rt_q p < clip_end c"
    unfolding q by (simp_all add: clip_start_def clip_end_def)
  with that cs pos q rt_add_wf [OF p] show ?thesis by (simp add: clip_and_source_Inr)
qed

text \<open>
  Property C23: addressing a frame of the rush and reading the timeline back are inverse: at
  the position resolved for frame \<open>n\<close> of a clip, the clip's track shows exactly frame \<open>n\<close> of
  that clip, and the position lies strictly inside the clip, where a split is legal.
\<close>

theorem source_frame_position_roundtrip:
  assumes "valid d" and "ResolveClipSourceFramePosition d i n = Inr p"
    and "FindTrackForClip d i = Some t" and "ResolveInTrack d t p = Inr shown"
  shows "(\<exists>f. shown = Some f \<and> rf_source_frame f = n \<and> rf_clip_id f = i) \<and>
    (\<exists>c. FindClip d i = Some c \<and> clip_start c < rt_q p \<and> rt_q p < clip_end c)"
proof -
  from ResolveClipSourceFramePosition_facts [OF assms(2)] obtain c s where
    c: "FindClip d i = Some c" and s: "FindSource d (clip_source_id c) = Some s"
    and pos: "0 < mr_num (src_rate s)" "0 < mr_den (src_rate s)" and wf: "rt_wf p"
    and inside: "clip_start c < rt_q p" "rt_q p < clip_end c"
    and src: "rt_q (clip_source_in c) + (rt_q p - clip_start c) = frame_q (src_rate s) n" .
  have t: "t \<in> set (doc_tracks d)" and has: "has_clip i t" using FindTrackForClip_Some [OF assms(3)] by simp_all
  have "c \<in> set (trk_clips t)" and ci: "clip_id c = i"
    using c assms(3) by (auto elim: FindClip_Some)
  moreover have "covers p c" using inside by (simp add: covers_def)
  ultimately obtain f st where shown: "shown = Some f" and st: "rt_q st = frame_q (src_rate s) n"
    and f: "ResolveClipAt d c st = Inr f"
    using ResolveInTrack_cases [OF assms(1) t _ assms(4)] wf src by (cases shown) (auto simp: rt_wf_def)
  have "rf_clip_id f = i" and "rt_to_frames st (mr_num (src_rate s)) (mr_den (src_rate s)) = Inr (rf_source_frame f)"
    using f s ci by (auto simp: ResolveClipAt_def)
  moreover from to_frames_floor [OF this(2)] have "rf_source_frame f = n" using st by (simp add: frame_q_rate pos)
  ultimately show ?thesis using shown c inside by blast
qed

end
