(* ===== verification/Source_Address_Laws.thy ===== *)
theory Source_Address_Laws
  imports Source_Address Apply_Operation Clip_Undo
begin

text \<open>
  The frame addresses against the operations that consume them: trims resolved from a
  source frame, and the search for every clip that plays a frame.
\<close>

section \<open>Trims\<close>

lemma ResolveClipSourceFrameTrim_facts:
  assumes "ResolveClipSourceFrameTrim d i n edge = Inr delta"
  obtains c s where "FindClip d i = Some c" and "FindSource d (clip_source_id c) = Some s"
    and "edge = Head \<Longrightarrow> rt_q (clip_source_in c) + rt_q delta = frame_q (src_rate s) n"
    and "edge = Tail \<Longrightarrow> rt_q (clip_source_in c) + rt_q (clip_duration c) + rt_q delta = frame_q (src_rate s) (n + 1)"
proof -
  from assms obtain c s st where cs: "clip_and_source d i = Inr (c, s)"
    and st: "SourceFrameTime (src_rate s) n = Inr st"
    and rest: "if edge = Head
      then rt_sub st (clip_source_in c) = Inr delta
      else \<exists>e oldEnd. SourceFrameTime (src_rate s) (n + 1) = Inr e \<and>
             rt_add (clip_source_in c) (clip_duration c) = Inr oldEnd \<and> rt_sub e oldEnd = Inr delta"
    by (auto simp: ResolveClipSourceFrameTrim_def would_be_empty_def split: if_splits)
  from cs have f: "FindClip d i = Some c" "FindSource d (clip_source_id c) = Some s"
    by (simp_all add: clip_and_source_Inr)
  show ?thesis
  proof (rule that [OF f])
    assume "edge = Head"
    with rest have "rt_sub st (clip_source_in c) = Inr delta" by simp
    from rt_sub_exact [OF this] SourceFrameTime_exact [OF st]
    show "rt_q (clip_source_in c) + rt_q delta = frame_q (src_rate s) n" by simp
  next
    assume "edge = Tail"
    with rest obtain e oldEnd where "SourceFrameTime (src_rate s) (n + 1) = Inr e"
      "rt_add (clip_source_in c) (clip_duration c) = Inr oldEnd" "rt_sub e oldEnd = Inr delta" by auto
    from SourceFrameTime_exact [OF this(1)] rt_add_exact [OF this(2)] rt_sub_exact [OF this(3)]
    show "rt_q (clip_source_in c) + rt_q (clip_duration c) + rt_q delta = frame_q (src_rate s) (n + 1)" by simp
  qed
qed

lemma ApplyTrim_times:
  assumes "ApplyTrim d \<lparr>tco_clip_id = i, tco_edge = edge, tco_delta = delta, tco_exact_clip_result = None\<rparr> = Inr (d', op', iv)"
    and "FindClip d i = Some c" and "FindTrackForClip d i = Some t" and "trk_kind t \<noteq> ''caption''" and "clip_id c = i"
  shows "\<exists>si du ti. d' = ModifyClip i (set_times \<lparr>ect_source_in = si, ect_duration = du, ect_timeline_in = ti\<rparr>) d \<and>
    (case edge of
       Head \<Rightarrow> rt_add (clip_source_in c) delta = Inr si \<and> rt_sub (clip_duration c) delta = Inr du \<and>
               rt_add (clip_timeline_in c) delta = Inr ti
     | Tail \<Rightarrow> si = clip_source_in c \<and> ti = clip_timeline_in c \<and> rt_add (clip_duration c) delta = Inr du)"
  using assms
  by (cases edge) (auto simp: ApplyTrim_def Let_def TimesOf_def split: if_splits option.splits)

text \<open>
  Property C24: a trim by the delta resolved for source frame \<open>n\<close>, once accepted, puts the
  edge exactly on that frame: a head trim starts the clip on frame \<open>n\<close>, a tail trim ends it
  at the start of frame \<open>n + 1\<close>, and the other edge of the clip stays where it was.
\<close>

theorem trim_lands_on_source_frame:
  assumes "valid d" and "ResolveClipSourceFrameTrim d i n edge = Inr delta"
    and "FindTrackForClip d i = Some t" and "trk_kind t \<noteq> ''caption''"
    and "ApplyOperation g d (TrimClip \<lparr>tco_clip_id = i, tco_edge = edge, tco_delta = delta, tco_exact_clip_result = None\<rparr>)
           = Inr (d', op', iv)"
  shows "\<exists>c c' s. FindClip d i = Some c \<and> FindClip d' i = Some c' \<and> FindSource d (clip_source_id c) = Some s \<and>
    (case edge of
       Head \<Rightarrow> rt_q (clip_source_in c') = frame_q (src_rate s) n \<and> clip_end c' = clip_end c
     | Tail \<Rightarrow> rt_q (clip_source_in c') + rt_q (clip_duration c') = frame_q (src_rate s) (n + 1) \<and>
               clip_start c' = clip_start c)"
proof -
  from ResolveClipSourceFrameTrim_facts [OF assms(2)] obtain c s where c: "FindClip d i = Some c"
    and s: "FindSource d (clip_source_id c) = Some s"
    and q: "edge = Head \<Longrightarrow> rt_q (clip_source_in c) + rt_q delta = frame_q (src_rate s) n"
      "edge = Tail \<Longrightarrow> rt_q (clip_source_in c) + rt_q (clip_duration c) + rt_q delta = frame_q (src_rate s) (n + 1)"
    by blast
  have ci: "clip_id c = i" using FindClip_Some [OF c] by blast
  from assms(5) obtain o2 where "ApplyTrim d \<lparr>tco_clip_id = i, tco_edge = edge, tco_delta = delta,
      tco_exact_clip_result = None\<rparr> = Inr (d', o2, iv)"
    by (auto simp: ApplyOperation_Inr_iff as_edit_def)
  from ApplyTrim_times [OF this c assms(3,4) ci] obtain si du ti where
    d': "d' = ModifyClip i (set_times \<lparr>ect_source_in = si, ect_duration = du, ect_timeline_in = ti\<rparr>) d"
    and x: "case edge of
       Head \<Rightarrow> rt_add (clip_source_in c) delta = Inr si \<and> rt_sub (clip_duration c) delta = Inr du \<and>
               rt_add (clip_timeline_in c) delta = Inr ti
     | Tail \<Rightarrow> si = clip_source_in c \<and> ti = clip_timeline_in c \<and> rt_add (clip_duration c) delta = Inr du"
    by blast
  let ?c = "c\<lparr>clip_source_in := si, clip_duration := du, clip_timeline_in := ti\<rparr>"
  have "FindClip d' i = Some ?c"
    using c by (simp add: d' FindClip_ModifyClip [OF assms(1)] set_times_def)
  moreover have "case edge of
       Head \<Rightarrow> rt_q (clip_source_in ?c) = frame_q (src_rate s) n \<and> clip_end ?c = clip_end c
     | Tail \<Rightarrow> rt_q (clip_source_in ?c) + rt_q (clip_duration ?c) = frame_q (src_rate s) (n + 1) \<and> clip_start ?c = clip_start c"
    using x q by (cases edge) (auto simp: clip_end_def clip_start_def dest!: rt_add_exact rt_sub_exact)
  ultimately show ?thesis using c s by blast
qed

section \<open>Every clip that plays a frame\<close>

definition plays :: "Ulid \<Rightarrow> rat \<Rightarrow> DocumentTrack \<times> DocumentClip \<Rightarrow> bool" where
  "plays mediaId q = (\<lambda>(t, c). clip_source_id c = mediaId \<and>
     rt_q (clip_source_in c) \<le> q \<and> q < rt_q (clip_source_in c) + rt_q (clip_duration c))"

definition clips_with_tracks :: "DocumentTrack list \<Rightarrow> (DocumentTrack \<times> DocumentClip) list" where
  "clips_with_tracks ts = concat (map (\<lambda>t. map (Pair t) (trk_clips t)) ts)"

definition match_of :: "rat \<Rightarrow> DocumentTrack \<times> DocumentClip \<Rightarrow> SourceFrameMatch \<Rightarrow> bool" where
  "match_of q = (\<lambda>(t, c) m. sfm_clip_id m = clip_id c \<and> sfm_track_id m = trk_id t \<and> sfm_track_index m = trk_index t \<and>
     rt_wf (sfm_timeline_position m) \<and>
     rt_q (sfm_timeline_position m) = clip_start c + (q - rt_q (clip_source_in c)))"

lemma match_clip_step:
  assumes "match_clip mediaId st t c ms = Inr ms'"
  shows "if plays mediaId (rt_q st) (t, c) then \<exists>m. ms' = ms @ [m] \<and> match_of (rt_q st) (t, c) m else ms' = ms"
proof (cases "clip_source_id c = mediaId")
  case True
  with assms obtain e out where e: "rt_add (clip_source_in c) (clip_duration c) = Inr e"
    and out: "orR (rt_lt st (clip_source_in c)) (rt_ge st e) = Inr out"
    and rest: "(if out then Inr ms else bindR (rt_sub st (clip_source_in c)) (\<lambda>off.
        bindR (rt_add (clip_timeline_in c) off) (\<lambda>p. Inr (ms @
          [\<lparr>sfm_clip_id = clip_id c, sfm_track_id = trk_id t, sfm_track_kind = trk_kind t,
            sfm_track_index = trk_index t, sfm_link_group_id = clip_link_group_id c,
            sfm_timeline_position = p, sfm_offset_in_clip = off,
            sfm_clip_source_in = clip_source_in c, sfm_clip_duration = clip_duration c,
            sfm_clip_timeline_in = clip_timeline_in c\<rparr>])))) = Inr ms'"
    by (auto simp: match_clip_def)
  have "out \<longleftrightarrow> \<not> plays mediaId (rt_q st) (t, c)"
    using out True rt_add_exact [OF e] by (auto simp: orR_def plays_def rt_lt_iff rt_ge_iff split: if_splits)
  with rest show ?thesis
    by (auto simp: match_of_def clip_start_def rt_add_wf rt_add_exact rt_sub_exact)
next
  case False
  with assms show ?thesis by (simp add: match_clip_def plays_def)
qed

lemma match_clips:
  "loopR (match_clip mediaId st t) cs ms = Inr ms' \<Longrightarrow>
   \<exists>new. ms' = ms @ new \<and> list_all2 (match_of (rt_q st)) (filter (plays mediaId (rt_q st)) (map (Pair t) cs)) new"
proof (induction cs arbitrary: ms)
  case (Cons c cs)
  then obtain m1 where m1: "match_clip mediaId st t c ms = Inr m1" and r: "loopR (match_clip mediaId st t) cs m1 = Inr ms'"
    by auto
  from Cons.IH [OF r] obtain new where new: "ms' = m1 @ new"
    "list_all2 (match_of (rt_q st)) (filter (plays mediaId (rt_q st)) (map (Pair t) cs)) new" by blast
  show ?case
  proof (cases "plays mediaId (rt_q st) (t, c)")
    case True
    with match_clip_step [OF m1] obtain m where "m1 = ms @ [m]" "match_of (rt_q st) (t, c) m" by auto
    with new True show ?thesis by (intro exI [of _ "m # new"]) simp
  next
    case False
    with match_clip_step [OF m1] new show ?thesis by simp
  qed
qed simp

lemma match_tracks:
  "loopR (\<lambda>t. loopR (match_clip mediaId st t) (trk_clips t)) ts ms = Inr ms' \<Longrightarrow>
   \<exists>new. ms' = ms @ new \<and> list_all2 (match_of (rt_q st)) (filter (plays mediaId (rt_q st)) (clips_with_tracks ts)) new"
proof (induction ts arbitrary: ms)
  case (Cons t ts)
  then obtain m1 where m1: "loopR (match_clip mediaId st t) (trk_clips t) ms = Inr m1"
    and r: "loopR (\<lambda>t. loopR (match_clip mediaId st t) (trk_clips t)) ts m1 = Inr ms'" by auto
  from match_clips [OF m1] Cons.IH [OF r] obtain a b where "ms' = ms @ (a @ b)"
    "list_all2 (match_of (rt_q st)) (filter (plays mediaId (rt_q st)) (map (Pair t) (trk_clips t))) a"
    "list_all2 (match_of (rt_q st)) (filter (plays mediaId (rt_q st)) (clips_with_tracks ts)) b" by auto
  then show ?case
    by (intro exI [of _ "a @ b"]) (simp add: clips_with_tracks_def list_all2_appendI)
qed (simp add: clips_with_tracks_def)

definition match_key :: "SourceFrameMatch \<Rightarrow> int \<times> rat" where
  "match_key m = (sfm_track_index m, rt_q (sfm_timeline_position m))"

interpretation matches: ranking match_before match_key "\<lambda>m. rt_wf (sfm_timeline_position m)"
  by unfold_locales (auto simp: match_before_def match_key_def rt_lt_iff rt_wf_def)

text \<open>
  \<open>ResolveSourceFrame\<close> reports exactly the clips of the timeline that play the
  frame, one match each (\<open>found\<close> lists them in document order), with the exact timeline
  position of the frame, ordered by track index and then by position.
\<close>

theorem source_frame_matches_complete:
  assumes "ResolveSourceFrame d mediaId n = Inr ms"
  shows "\<exists>s found. FindSource d mediaId = Some s \<and>
    list_all2 (match_of (frame_q (src_rate s) n))
      (filter (plays mediaId (frame_q (src_rate s) n)) (clips_with_tracks (doc_tracks d))) found \<and>
    mset ms = mset found \<and> sorted (map match_key ms)"
proof -
  from assms obtain s st found where s: "FindSource d mediaId = Some s"
    and st: "SourceFrameTime (src_rate s) n = Inr st"
    and loop: "loopR (\<lambda>t. loopR (match_clip mediaId st t) (trk_clips t)) (doc_tracks d) [] = Inr found"
    and ms: "ms = stable_sort match_before found"
    by (auto simp: ResolveSourceFrame_def split: option.splits)
  from match_tracks [OF loop] have f: "list_all2 (match_of (frame_q (src_rate s) n))
      (filter (plays mediaId (frame_q (src_rate s) n)) (clips_with_tracks (doc_tracks d))) found"
    by (simp add: SourceFrameTime_exact [OF st])
  have "\<forall>m\<in>set found. rt_wf (sfm_timeline_position m)"
  proof
    fix m assume "m \<in> set found"
    then obtain j where "j < length found" "m = found ! j" by (auto simp: in_set_conv_nth)
    from list_all2_nthD2 [OF f this(1)] this(2)
    show "rt_wf (sfm_timeline_position m)" by (simp add: match_of_def split: prod.splits)
  qed
  then have "sorted (map match_key ms)" unfolding ms by (rule matches.sorted)
  with s f ms show ?thesis by (intro exI [of _ s] exI [of _ found]) simp
qed

section \<open>On the sample document\<close>

text \<open>Frame 20 of the source is played by the first video clip and by the audio clip linked to it.\<close>

lemma sample_position: "ResolveClipSourceFramePosition sample_doc (u CHR ''2'') 210 = Inr (RT 110 25)"
  by code_simp

theorem source_frame_position_roundtrip_witness:
  "\<exists>c. FindClip sample_doc (u CHR ''2'') = Some c \<and> clip_start c < rt_q (RT 110 25) \<and> rt_q (RT 110 25) < clip_end c"
proof -
  have "FindTrackForClip sample_doc (u CHR ''2'') = Some first_track" by code_simp
  from source_frame_position_roundtrip [OF sample_doc_valid sample_position this sample_frame] show ?thesis by blast
qed

definition sample_trim :: TrimClipOperation where
  "sample_trim = \<lparr>tco_clip_id = u CHR ''2'', tco_edge = Head, tco_delta = RT 10 25, tco_exact_clip_result = None\<rparr>"

theorem trim_lands_on_source_frame_witness:
  "\<exists>d' c' s. FindClip d' (u CHR ''2'') = Some c' \<and> FindSource sample_doc (u CHR ''0'') = Some s \<and>
     rt_q (clip_source_in c') = frame_q (src_rate s) 210"
proof -
  have r: "ResolveClipSourceFrameTrim sample_doc (u CHR ''2'') 210 Head = Inr (RT 10 25)" by code_simp
  have t: "FindTrackForClip sample_doc (u CHR ''2'') = Some first_track" and k: "trk_kind first_track \<noteq> ''caption''"
    and s: "map_option clip_source_id (FindClip sample_doc (u CHR ''2'')) = Some (u CHR ''0'')" by code_simp+
  have "case ApplyOperation (\<lambda>k. []) sample_doc (TrimClip sample_trim) of Inl _ \<Rightarrow> False | Inr _ \<Rightarrow> True" by code_simp
  then obtain d' op' iv where a: "ApplyOperation (\<lambda>k. []) sample_doc (TrimClip sample_trim) = Inr (d', op', iv)"
    by (auto split: sum.splits)
  from trim_lands_on_source_frame [OF sample_doc_valid r t k a [unfolded sample_trim_def]] s
  obtain c' f where "FindClip d' (u CHR ''2'') = Some c'" "FindSource sample_doc (u CHR ''0'') = Some f"
    "rt_q (clip_source_in c') = frame_q (src_rate f) 210" by auto
  then show ?thesis by blast
qed

theorem source_frame_matches_complete_witness:
  "case ResolveSourceFrame sample_doc (u CHR ''0'') 20 of Inl _ \<Rightarrow> False | Inr ms \<Rightarrow> sorted (map match_key ms)"
proof -
  have "case ResolveSourceFrame sample_doc (u CHR ''0'') 20 of Inl _ \<Rightarrow> False | Inr ms \<Rightarrow> True" by code_simp
  then obtain ms where "ResolveSourceFrame sample_doc (u CHR ''0'') 20 = Inr ms" by (auto split: sum.splits)
  with source_frame_matches_complete [OF this] show ?thesis by auto
qed

end
