(* ===== verification/Sequence_Format.thy ===== *)
theory Sequence_Format
  imports Resolver_Core
begin

text \<open>
  \<open>src/SequenceFormat.cc\<close>: the format a sequence takes from the media it will hold.  The
  display format of a medium is its picture size after rotation together with its rate;
  the candidates are tallied in library order and ranked by \<open>Better\<close>.  The products of the
  comparisons are of 32-bit values and cannot leave 64 bits, so they are plain integers.
\<close>

section \<open>Candidates and their ranking\<close>

record SequenceFormatCandidate =
  sfc_width :: int
  sfc_height :: int
  sfc_frame_rate :: MediaRate
  sfc_media_count :: nat

record SequenceFormatProposal =
  sfp_chosen :: SequenceFormatCandidate
  sfp_candidates :: "SequenceFormatCandidate list"
  sfp_media_considered :: nat
  sfp_media_ignored :: nat
  sfp_unanimous :: bool

definition RateGreater :: "MediaRate \<Rightarrow> MediaRate \<Rightarrow> bool" where
  "RateGreater l r \<longleftrightarrow> mr_num l * mr_den r > mr_num r * mr_den l"

definition RateEqual :: "MediaRate \<Rightarrow> MediaRate \<Rightarrow> bool" where
  "RateEqual l r \<longleftrightarrow> mr_num l * mr_den r = mr_num r * mr_den l"

definition SameFormat :: "int \<Rightarrow> int \<Rightarrow> MediaRate \<Rightarrow> SequenceFormatCandidate \<Rightarrow> bool" where
  "SameFormat width height rate c \<longleftrightarrow>
     sfc_width c = width \<and> sfc_height c = height \<and>
     mr_num (sfc_frame_rate c) = mr_num rate \<and> mr_den (sfc_frame_rate c) = mr_den rate"

definition Better :: "SequenceFormatCandidate \<Rightarrow> SequenceFormatCandidate \<Rightarrow> bool" where
  "Better l r =
     (if sfc_media_count l \<noteq> sfc_media_count r then sfc_media_count l > sfc_media_count r
      else let leftArea = sfc_width l * sfc_height l; rightArea = sfc_width r * sfc_height r in
      if leftArea \<noteq> rightArea then leftArea > rightArea
      else if \<not> RateEqual (sfc_frame_rate l) (sfc_frame_rate r)
      then RateGreater (sfc_frame_rate l) (sfc_frame_rate r)
      else if sfc_width l \<noteq> sfc_width r then sfc_width l > sfc_width r
      else if sfc_height l \<noteq> sfc_height r then sfc_height l > sfc_height r
      else if mr_num (sfc_frame_rate l) \<noteq> mr_num (sfc_frame_rate r)
      then mr_num (sfc_frame_rate l) > mr_num (sfc_frame_rate r)
      else mr_den (sfc_frame_rate l) < mr_den (sfc_frame_rate r))"

section \<open>The display size\<close>

definition DisplayDimensions :: "LibraryMedia \<Rightarrow> (int \<times> int) option" where
  "DisplayDimensions media =
     (if med_width media \<le> 0 \<or> med_height media \<le> 0 then None
      else let turned = trunc_mod (med_rotation_degrees media) 360;
               rotation = (if turned < 0 then turned + 360 else turned) in
      if trunc_mod rotation 90 \<noteq> 0 then None
      else if rotation = 90 \<or> rotation = 270 then Some (med_height media, med_width media)
      else Some (med_width media, med_height media))"

section \<open>The proposal\<close>

definition tally :: "LibraryMedia \<Rightarrow> SequenceFormatProposal \<Rightarrow> SequenceFormatProposal" where
  "tally media built =
     (case DisplayDimensions media of
        None \<Rightarrow> built\<lparr>sfp_media_ignored := Suc (sfp_media_ignored built)\<rparr>
      | Some (width, height) \<Rightarrow>
          if mr_num (med_rate media) \<le> 0 \<or> mr_den (med_rate media) \<le> 0
          then built\<lparr>sfp_media_ignored := Suc (sfp_media_ignored built)\<rparr>
          else
            built\<lparr>sfp_media_considered := Suc (sfp_media_considered built),
                  sfp_candidates :=
                    (if list_ex (SameFormat width height (med_rate media)) (sfp_candidates built)
                     then update_first (SameFormat width height (med_rate media))
                            (\<lambda>c. c\<lparr>sfc_media_count := Suc (sfc_media_count c)\<rparr>) (sfp_candidates built)
                     else sfp_candidates built @
                            [\<lparr>sfc_width = width, sfc_height = height, sfc_frame_rate = med_rate media,
                              sfc_media_count = 1\<rparr>])\<rparr>)"

definition empty_proposal :: SequenceFormatProposal where
  "empty_proposal =
     \<lparr>sfp_chosen = \<lparr>sfc_width = 0, sfc_height = 0, sfc_frame_rate = \<lparr>mr_num = 0, mr_den = 1\<rparr>, sfc_media_count = 0\<rparr>,
      sfp_candidates = [], sfp_media_considered = 0, sfp_media_ignored = 0, sfp_unanimous = False\<rparr>"

definition ResolveSequenceFormat :: "LibraryMedia list \<Rightarrow> string + SequenceFormatProposal" where
  "ResolveSequenceFormat library =
     (let built = fold tally library empty_proposal in
      if sfp_candidates built = []
      then Inl (''no media in this project carries a usable picture format: a '' @
                ''sequence cannot be derived from audio-only or unreadable media'')
      else let ranked = stable_sort Better (sfp_candidates built) in
        Inr (built\<lparr>sfp_candidates := ranked, sfp_chosen := hd ranked,
                   sfp_unanimous := (length ranked = 1)\<rparr>))"

section \<open>The report\<close>

definition candidate_json :: "SequenceFormatCandidate \<Rightarrow> string" where
  "candidate_json c =
     ''{\"width\":'' @ to_string (sfc_width c) @ '',\"height\":'' @ to_string (sfc_height c) @
     '',\"frame_rate\":{\"num\":'' @ to_string (mr_num (sfc_frame_rate c)) @
     '',\"den\":'' @ to_string (mr_den (sfc_frame_rate c)) @
     ''},\"media_count\":'' @ nat_to_string (sfc_media_count c) @ ''}''"

fun comma_separated :: "string list \<Rightarrow> string" where
  "comma_separated [] = []"
| "comma_separated [x] = x"
| "comma_separated (x # xs) = x @ '','' @ comma_separated xs"

definition SequenceFormatProposalJson :: "SequenceFormatProposal \<Rightarrow> string \<Rightarrow> string" where
  "SequenceFormatProposalJson p extraFields =
     ''{\"ok\":true,\"chosen\":'' @ candidate_json (sfp_chosen p) @
     '',\"unanimous\":'' @ (if sfp_unanimous p then ''true'' else ''false'') @
     '',\"media_considered\":'' @ nat_to_string (sfp_media_considered p) @
     '',\"media_ignored\":'' @ nat_to_string (sfp_media_ignored p) @
     '',\"candidates\":['' @ comma_separated (map candidate_json (sfp_candidates p)) @
     '']'' @ extraFields @ ''}''"

section \<open>The ranking is a total order on formats\<close>

definition usable :: "SequenceFormatCandidate \<Rightarrow> bool" where
  "usable c \<longleftrightarrow> 0 < mr_num (sfc_frame_rate c) \<and> 0 < mr_den (sfc_frame_rate c)"

definition rank_key :: "SequenceFormatCandidate \<Rightarrow> int \<times> int \<times> rat \<times> int \<times> int \<times> int \<times> int" where
  "rank_key c =
     (- int (sfc_media_count c), - (sfc_width c * sfc_height c), - rate_q (sfc_frame_rate c),
      - sfc_width c, - sfc_height c, - mr_num (sfc_frame_rate c), mr_den (sfc_frame_rate c))"

lemma RateGreater_iff:
  assumes "0 < mr_den l" and "0 < mr_den r"
  shows "RateGreater l r \<longleftrightarrow> rate_q r < rate_q l"
proof -
  have "rate_q r < rate_q l \<longleftrightarrow> of_int (mr_num r * mr_den l) < (of_int (mr_num l * mr_den r) :: rat)"
    using assms by (simp add: rate_q_def divide_simps mult.commute)
  then show ?thesis by (simp only: of_int_less_iff RateGreater_def)
qed

lemma RateEqual_iff:
  assumes "0 < mr_den l" and "0 < mr_den r"
  shows "RateEqual l r \<longleftrightarrow> rate_q l = rate_q r"
proof -
  have "rate_q l = rate_q r \<longleftrightarrow> of_int (mr_num l * mr_den r) = (of_int (mr_num r * mr_den l) :: rat)"
    using assms by (simp add: rate_q_def frac_eq_eq)
  then show ?thesis by (simp only: of_int_eq_iff RateEqual_def)
qed

lemma cascade_is_lexicographic:
  fixes n n' :: nat and a a' w w' h h' m m' e e' :: int and q q' :: rat
  shows "(if n \<noteq> n' then n > n' else if a \<noteq> a' then a > a' else if q \<noteq> q' then q' < q
      else if w \<noteq> w' then w > w' else if h \<noteq> h' then h > h' else if m \<noteq> m' then m > m' else e < e') \<longleftrightarrow>
    (- int n, - a, - q, - w, - h, - m, e) < (- int n', - a', - q', - w', - h', - m', e')"
  by auto

lemma Better_iff:
  assumes "usable a" and "usable b"
  shows "Better a b \<longleftrightarrow> rank_key a < rank_key b"
proof -
  have g: "RateGreater (sfc_frame_rate a) (sfc_frame_rate b) \<longleftrightarrow> rate_q (sfc_frame_rate b) < rate_q (sfc_frame_rate a)"
    and e: "RateEqual (sfc_frame_rate a) (sfc_frame_rate b) \<longleftrightarrow> rate_q (sfc_frame_rate a) = rate_q (sfc_frame_rate b)"
    using assms by (simp_all add: usable_def RateGreater_iff RateEqual_iff)
  show ?thesis unfolding Better_def Let_def rank_key_def g e by (rule cascade_is_lexicographic)
qed

interpretation formats: ranking Better rank_key usable
  by unfold_locales (rule Better_iff)

lemma rank_key_inj: "inj rank_key"
proof (rule injI)
  fix a b assume "rank_key a = rank_key b"
  then show "a = b" by (cases a; cases b; cases "sfc_frame_rate a"; cases "sfc_frame_rate b") (auto simp: rank_key_def)
qed

section \<open>What the loop tallies\<close>

type_synonym picture_format = "int \<times> int \<times> MediaRate"

definition format_of :: "SequenceFormatCandidate \<Rightarrow> picture_format" where
  "format_of c = (sfc_width c, sfc_height c, sfc_frame_rate c)"

definition display_format :: "LibraryMedia \<Rightarrow> picture_format option" where
  "display_format m =
     (case DisplayDimensions m of None \<Rightarrow> None
      | Some (w, h) \<Rightarrow> if mr_num (med_rate m) \<le> 0 \<or> mr_den (med_rate m) \<le> 0 then None else Some (w, h, med_rate m))"

definition formats_in :: "LibraryMedia list \<Rightarrow> picture_format list" where
  "formats_in lib = List.map_filter display_format lib"

lemma SameFormat_iff: "SameFormat w h r c \<longleftrightarrow> format_of c = (w, h, r)"
  by (cases r; cases "sfc_frame_rate c") (auto simp: SameFormat_def format_of_def)

definition tallied :: "picture_format list \<Rightarrow> SequenceFormatCandidate list \<Rightarrow> bool" where
  "tallied fs cs \<longleftrightarrow> distinct (map format_of cs) \<and> format_of ` set cs = set fs \<and>
     (\<forall>c\<in>set cs. sfc_media_count c = count_list fs (format_of c))"

definition bump :: "picture_format \<Rightarrow> SequenceFormatCandidate list \<Rightarrow> SequenceFormatCandidate list" where
  "bump f cs =
     (if f \<in> format_of ` set cs
      then update_first (\<lambda>c. format_of c = f) (\<lambda>c. c\<lparr>sfc_media_count := Suc (sfc_media_count c)\<rparr>) cs
      else cs @ [\<lparr>sfc_width = fst f, sfc_height = fst (snd f), sfc_frame_rate = snd (snd f), sfc_media_count = 1\<rparr>])"

lemma tally_eq:
  "tally m b =
     (case display_format m of None \<Rightarrow> b\<lparr>sfp_media_ignored := Suc (sfp_media_ignored b)\<rparr>
      | Some f \<Rightarrow> b\<lparr>sfp_media_considered := Suc (sfp_media_considered b), sfp_candidates := bump f (sfp_candidates b)\<rparr>)"
proof -
  have "list_ex (SameFormat w h r) cs \<longleftrightarrow> (w, h, r) \<in> format_of ` set cs" for w h r cs
    by (auto simp: list_ex_iff SameFormat_iff image_iff eq_commute)
  moreover have "SameFormat w h r = (\<lambda>c. format_of c = (w, h, r))" for w h r by (simp add: fun_eq_iff SameFormat_iff)
  ultimately show ?thesis
    by (auto simp: tally_def display_format_def bump_def split: option.splits)
qed

lemma format_of_count [simp]: "format_of (c\<lparr>sfc_media_count := n\<rparr>) = format_of c"
  by (simp add: format_of_def)

lemma count_list_snoc [simp]: "count_list (xs @ [y]) x = count_list xs x + (if x = y then 1 else 0)"
  by (induction xs) auto

lemma update_first_distinct:
  "distinct (map g xs) \<Longrightarrow> (\<And>x. g (h x) = g x) \<Longrightarrow>
   update_first (\<lambda>x. g x = y) h xs = map (\<lambda>x. if g x = y then h x else x) xs"
  by (induction xs) (auto simp: image_iff intro!: map_idI [symmetric])

lemma tallied_bump:
  assumes t: "tallied fs cs"
  shows "tallied (fs @ [f]) (bump f cs)"
proof (cases "f \<in> format_of ` set cs")
  case True
  have "bump f cs = map (\<lambda>c. if format_of c = f then c\<lparr>sfc_media_count := Suc (sfc_media_count c)\<rparr> else c) cs"
    using t True by (simp add: bump_def tallied_def update_first_distinct)
  moreover have "map format_of (map (\<lambda>c. if format_of c = f then c\<lparr>sfc_media_count := Suc (sfc_media_count c)\<rparr> else c) cs) =
      map format_of cs" by simp
  ultimately have "map format_of (bump f cs) = map format_of cs"
    and "\<forall>c\<in>set (bump f cs). sfc_media_count c = count_list (fs @ [f]) (format_of c)"
    using t by (auto simp: tallied_def)
  then show ?thesis using t True unfolding tallied_def
    by (metis insert_absorb list.set_map list.simps(15) rotate1.simps(2) set_rotate1)
next
  case False
  then have "f \<notin> set fs" using t by (simp add: tallied_def)
  then have "count_list fs f = 0" by (simp add: count_list_0_iff)
  with False t show ?thesis by (cases f) (auto simp: bump_def tallied_def format_of_def)
qed

lemma fold_tally:
  "tallied fs (sfp_candidates b) \<Longrightarrow>
   tallied (fs @ formats_in lib) (sfp_candidates (fold tally lib b)) \<and>
   sfp_media_considered (fold tally lib b) = sfp_media_considered b + length (formats_in lib) \<and>
   sfp_media_ignored (fold tally lib b) + length (formats_in lib) = sfp_media_ignored b + length lib"
proof (induction lib arbitrary: fs b)
  case Nil
  then show ?case by (simp add: formats_in_def)
next
  case (Cons m lib)
  show ?case
  proof (cases "display_format m")
    case None
    with Cons.IH [of fs "tally m b"] Cons.prems show ?thesis
      by (simp add: tally_eq formats_in_def map_filter_simps)
  next
    case (Some f)
    with Cons.IH [of "fs @ [f]" "tally m b"] tallied_bump [OF Cons.prems, of f] show ?thesis
      by (simp add: tally_eq formats_in_def map_filter_simps)
  qed
qed

lemma tallied_library: "tallied (formats_in lib) (sfp_candidates (fold tally lib empty_proposal))"
  and counts_of_library:
    "sfp_media_considered (fold tally lib empty_proposal) = length (formats_in lib)"
    "sfp_media_ignored (fold tally lib empty_proposal) = length lib - length (formats_in lib)"
    "length (formats_in lib) \<le> length lib"
proof -
  have "tallied [] (sfp_candidates empty_proposal)" by (simp add: tallied_def empty_proposal_def)
  moreover have "sfp_media_considered empty_proposal = 0" and "sfp_media_ignored empty_proposal = 0"
    by (simp_all add: empty_proposal_def)
  ultimately show "tallied (formats_in lib) (sfp_candidates (fold tally lib empty_proposal))"
    and "sfp_media_considered (fold tally lib empty_proposal) = length (formats_in lib)"
    and "sfp_media_ignored (fold tally lib empty_proposal) = length lib - length (formats_in lib)"
    and "length (formats_in lib) \<le> length lib"
    using fold_tally [of "[]" empty_proposal lib] by auto
qed

section \<open>The proposal\<close>

lemma usable_display:
  assumes "display_format m = Some (format_of c)"
  shows "usable c"
  using assms by (auto simp: display_format_def usable_def format_of_def split: option.splits if_splits)

lemma formats_in_usable:
  assumes "tallied (formats_in lib) cs"
  shows "\<forall>c\<in>set cs. usable c"
proof
  fix c assume "c \<in> set cs"
  then have "format_of c \<in> set (formats_in lib)" using assms by (auto simp: tallied_def)
  then obtain m where "display_format m = Some (format_of c)"
    by (auto simp: formats_in_def List.map_filter_def)
  then show "usable c" by (rule usable_display)
qed

lemma candidate_eqI: "format_of a = format_of b \<Longrightarrow> sfc_media_count a = sfc_media_count b \<Longrightarrow> a = b"
  by (cases a; cases b) (simp add: format_of_def)

lemma tallied_mset:
  assumes "tallied fs cs" and "tallied fs' cs'" and "mset fs = mset fs'"
  shows "mset cs = mset cs'"
proof -
  have c: "count_list fs f = count_list fs' f" for f using assms(3) by (metis count_mset)
  have sub: "set xs \<subseteq> set ys" if "tallied gs xs" "tallied gs' ys" "mset gs = mset gs'" for gs gs' xs ys
  proof
    fix x assume x: "x \<in> set xs"
    have "set gs = set gs'" using mset_eq_setD [OF that(3)] .
    moreover have "format_of x \<in> set gs" and "format_of ` set ys = set gs'" using x that(1,2) by (auto simp: tallied_def)
    ultimately have "format_of x \<in> format_of ` set ys" by simp
    then obtain y where y: "y \<in> set ys" "format_of y = format_of x" by (metis imageE)
    have "count_list gs (format_of x) = count_list gs' (format_of x)" using that(3) by (metis count_mset)
    with x y that have "sfc_media_count y = sfc_media_count x" by (simp add: tallied_def)
    with y have "y = x" by (intro candidate_eqI)
    with y show "x \<in> set ys" by simp
  qed
  have "set cs = set cs'" using sub [OF assms] sub [OF assms(2,1) assms(3) [symmetric]] by blast
  moreover have "distinct cs" and "distinct cs'"
    using assms(1,2) by (simp_all add: tallied_def distinct_map)
  ultimately show ?thesis using set_eq_iff_mset_eq_distinct by blast
qed

lemma formats_in_mset_eq:
  assumes "mset lib = mset lib'"
  shows "mset (formats_in lib) = mset (formats_in lib')"
proof -
  have "mset (formats_in xs) = image_mset (the \<circ> display_format) (filter_mset (\<lambda>m. display_format m \<noteq> None) (mset xs))" for xs
    by (simp add: formats_in_def List.map_filter_def)
  then show ?thesis using assms by simp
qed

text \<open>
  Property C28: the proposal depends on the media of the library and not on their order: two
  libraries with the same media give the same chosen format, the same candidates in the
  same order, the same counts, or the same refusal.
\<close>

theorem sequence_format_ignores_library_order:
  assumes "mset lib = mset lib'"
  shows "ResolveSequenceFormat lib = ResolveSequenceFormat lib'"
proof -
  let ?b = "fold tally lib empty_proposal" and ?b' = "fold tally lib' empty_proposal"
  note t = tallied_library
  have f: "mset (formats_in lib) = mset (formats_in lib')" by (rule formats_in_mset_eq [OF assms])
  have m: "mset (sfp_candidates ?b) = mset (sfp_candidates ?b')" by (rule tallied_mset [OF t t f])
  have s: "stable_sort Better (sfp_candidates ?b) = stable_sort Better (sfp_candidates ?b')"
    by (rule formats.order_irrelevant [OF formats_in_usable [OF t] m inj_on_subset [OF rank_key_inj subset_UNIV]])
  have l: "length (formats_in lib) = length (formats_in lib')" "length lib = length lib'"
    using f assms by (metis size_mset)+
  have rest: "?b\<lparr>sfp_candidates := x, sfp_chosen := y, sfp_unanimous := z\<rparr> = ?b'\<lparr>sfp_candidates := x, sfp_chosen := y, sfp_unanimous := z\<rparr>" for x y z
    using counts_of_library [of lib] counts_of_library [of lib'] l by (cases ?b; cases ?b') simp
  have "(sfp_candidates ?b = []) = (sfp_candidates ?b' = [])" using m by (metis mset_zero_iff)
  then show ?thesis using s rest by (simp add: ResolveSequenceFormat_def Let_def)
qed

lemma ResolveSequenceFormat_Inr_iff:
  "ResolveSequenceFormat lib = Inr p \<longleftrightarrow>
     formats_in lib \<noteq> [] \<and>
     p = \<lparr>sfp_chosen = hd (stable_sort Better (sfp_candidates (fold tally lib empty_proposal))),
          sfp_candidates = stable_sort Better (sfp_candidates (fold tally lib empty_proposal)),
          sfp_media_considered = length (formats_in lib),
          sfp_media_ignored = length lib - length (formats_in lib),
          sfp_unanimous = (length (sfp_candidates (fold tally lib empty_proposal)) = 1)\<rparr>"
proof -
  have "sfp_candidates (fold tally lib empty_proposal) = [] \<longleftrightarrow> formats_in lib = []"
    using tallied_library [of lib] by (auto simp: tallied_def)
  then show ?thesis
    using counts_of_library [of lib]
    by (cases "fold tally lib empty_proposal") (auto simp: ResolveSequenceFormat_def Let_def)
qed

text \<open>
  The chosen format is shown by at least as many media as any other, every
  candidate's count is the number of media that display in exactly that format, the
  candidates are exactly the formats found, and every medium is either considered or
  ignored.  The call fails exactly when no medium has a usable format.
\<close>

theorem chosen_format_is_majority:
  "(\<forall>p. ResolveSequenceFormat lib = Inr p \<longrightarrow>
      format_of (sfp_chosen p) \<in> set (formats_in lib) \<and>
      (\<forall>f\<in>set (formats_in lib). count_list (formats_in lib) f \<le> count_list (formats_in lib) (format_of (sfp_chosen p))) \<and>
      format_of ` set (sfp_candidates p) = set (formats_in lib) \<and>
      (\<forall>c\<in>set (sfp_candidates p). sfc_media_count c = count_list (formats_in lib) (format_of c)) \<and>
      sfp_media_considered p + sfp_media_ignored p = length lib) \<and>
   ((\<exists>e. ResolveSequenceFormat lib = Inl e) \<longleftrightarrow> formats_in lib = [])"
proof (intro conjI allI impI)
  fix p assume "ResolveSequenceFormat lib = Inr p"
  then have ne: "formats_in lib \<noteq> []"
    and p: "sfp_chosen p = hd (sfp_candidates p)"
      "sfp_candidates p = stable_sort Better (sfp_candidates (fold tally lib empty_proposal))"
      "sfp_media_considered p + sfp_media_ignored p = length lib"
    using counts_of_library(3) [of lib] by (auto simp: ResolveSequenceFormat_Inr_iff)
  let ?cs = "sfp_candidates (fold tally lib empty_proposal)"
  have set: "set (sfp_candidates p) = set ?cs" by (simp add: p(2))
  have t: "tallied (formats_in lib) ?cs" by (rule tallied_library)
  then have all: "format_of ` set (sfp_candidates p) = set (formats_in lib)"
    and count: "\<forall>c\<in>set (sfp_candidates p). sfc_media_count c = count_list (formats_in lib) (format_of c)"
    unfolding set by (simp_all add: tallied_def)
  then have "sfp_candidates p \<noteq> []" using ne by auto
  then have chosen: "sfp_chosen p \<in> set (sfp_candidates p)" by (simp add: p(1))
  show "format_of (sfp_chosen p) \<in> set (formats_in lib)" using all chosen by blast
  show "\<forall>f\<in>set (formats_in lib). count_list (formats_in lib) f \<le> count_list (formats_in lib) (format_of (sfp_chosen p))"
  proof
    fix f assume "f \<in> set (formats_in lib)"
    then obtain c where c: "c \<in> set (sfp_candidates p)" "f = format_of c" using all by (metis imageE)
    have "rank_key (sfp_chosen p) \<le> rank_key c" unfolding p(1,2)
      by (rule formats.head_is_least [OF formats_in_usable [OF t]]) (use c set in simp)
    then have "sfc_media_count c \<le> sfc_media_count (sfp_chosen p)" by (auto simp: rank_key_def)
    then show "count_list (formats_in lib) f \<le> count_list (formats_in lib) (format_of (sfp_chosen p))"
      using count c chosen by simp
  qed
  show "format_of ` set (sfp_candidates p) = set (formats_in lib)" by (rule all)
  show "\<forall>c\<in>set (sfp_candidates p). sfc_media_count c = count_list (formats_in lib) (format_of c)" by (rule count)
  show "sfp_media_considered p + sfp_media_ignored p = length lib" by (rule p(3))
next
  show "(\<exists>e. ResolveSequenceFormat lib = Inl e) \<longleftrightarrow> formats_in lib = []"
    using ResolveSequenceFormat_Inr_iff [of lib] by (cases "ResolveSequenceFormat lib") auto
qed

section \<open>A library of three media\<close>

definition picture :: "int \<Rightarrow> int \<Rightarrow> int \<Rightarrow> LibraryMedia" where
  "picture w h rotation =
     \<lparr>med_id = [], med_path = [], med_filename = [], med_codec = [], med_has_video = True, med_width = w,
      med_height = h, med_pixel_format = [], med_color_range = [], med_color_space = [], med_color_transfer = [],
      med_color_primaries = [], med_rotation_degrees = rotation, med_rate = \<lparr>mr_num = 25, mr_den = 1\<rparr>,
      med_duration = RT 1 1, med_orientation = [], med_has_audio = False, med_audio_rate = 0,
      med_audio_channels = 0, med_audio_level_measured = False, med_audio_level = 0, med_bin_id = [],
      med_proxy_path = [], med_metadata_complete = True\<rparr>"

text \<open>A portrait rush stored sideways, a landscape one and another portrait one, in two orders.\<close>

theorem sequence_format_ignores_library_order_witness:
  "ResolveSequenceFormat [picture 3840 2160 (- 90), picture 1920 1080 0, picture 2160 3840 180] =
   ResolveSequenceFormat [picture 1920 1080 0, picture 2160 3840 180, picture 3840 2160 (- 90)]"
  by (rule sequence_format_ignores_library_order) simp

theorem chosen_format_is_majority_witness:
  "case ResolveSequenceFormat [picture 3840 2160 (- 90), picture 1920 1080 0, picture 2160 3840 180] of
     Inl _ \<Rightarrow> False | Inr p \<Rightarrow> format_of (sfp_chosen p) = (2160, 3840, \<lparr>mr_num = 25, mr_den = 1\<rparr>)"
proof -
  let ?lib = "[picture 3840 2160 (- 90), picture 1920 1080 0, picture 2160 3840 180]"
  let ?f = "(2160, 3840, \<lparr>mr_num = 25, mr_den = 1\<rparr>)"
  have fs: "formats_in ?lib = [?f, (1920, 1080, \<lparr>mr_num = 25, mr_den = 1\<rparr>), ?f]" by code_simp
  show ?thesis
  proof (cases "ResolveSequenceFormat ?lib")
    case (Inl e)
    with chosen_format_is_majority [of ?lib, THEN conjunct2] have "formats_in ?lib = []" by blast
    with fs show ?thesis by simp
  next
    case (Inr p)
    from chosen_format_is_majority [of ?lib, THEN conjunct1, rule_format, OF Inr]
    have "format_of (sfp_chosen p) = ?f" unfolding fs by (auto split: if_splits)
    with Inr show ?thesis by simp
  qed
qed

end
