(* ===== verification/Id_Resolver.thy ===== *)
theory Id_Resolver
  imports Stable_Sort Document_Model Sample_Document
begin

text \<open>
  \<open>src/IdResolver.cc\<close>: which identifier of the document a string names, as a full
  identifier, a visible alias or an unambiguous prefix.
\<close>

section \<open>The universe and the aliases\<close>

definition alias_letter :: "nat \<Rightarrow> char" where
  "alias_letter k = char_of (65 + k)"

function AliasPrefix :: "nat \<Rightarrow> string" where
  "AliasPrefix ordinal =
     (if ordinal div 26 = 0 then [alias_letter (ordinal mod 26)]
      else AliasPrefix (ordinal div 26 - 1) @ [alias_letter (ordinal mod 26)])"
  by pat_completeness auto
termination by (relation "measure id") auto

declare AliasPrefix.simps [simp del]

definition upper_char :: "char \<Rightarrow> char" where
  "upper_char c = (if CHR ''a'' \<le> c \<and> c \<le> CHR ''z'' then char_of (of_char c - 32 :: nat) else c)"

definition UpperAscii :: "string \<Rightarrow> string" where
  "UpperAscii = map upper_char"

definition collect_clip_ids :: "DocumentClip \<Rightarrow> Ulid list \<Rightarrow> Ulid list" where
  "collect_clip_ids clip ids =
     (let ids' = ids @ [clip_id clip] in
      if clip_link_group_id clip \<noteq> [] then push_unique (clip_link_group_id clip) ids' else ids')"

definition collect_track_ids :: "DocumentTrack \<Rightarrow> Ulid list \<Rightarrow> Ulid list" where
  "collect_track_ids track ids = fold collect_clip_ids (trk_clips track) (ids @ [trk_id track])"

definition CollectDocumentIds :: "Document \<Rightarrow> Ulid list" where
  "CollectDocumentIds d =
     fold collect_track_ids (doc_tracks d) [seq_id (doc_sequence d)] @
     map src_id (doc_sources d) @ map med_id (doc_library d) @ map bin_id (doc_bins d) @
     map mk_id (seq_markers (doc_sequence d)) @ map trn_id (seq_transitions (doc_sequence d)) @
     map cs_id (seq_caption_styles (doc_sequence d)) @
     concat (map (\<lambda>g. mg_id g # map ang_id (mg_angles g)) (seq_multicam_groups (doc_sequence d)))"

definition track_aliases :: "nat \<times> DocumentTrack \<Rightarrow> (string \<times> Ulid) list" where
  "track_aliases = (\<lambda>(trackOrdinal, track).
     map (\<lambda>(clipIndex, clip). (AliasPrefix trackOrdinal @ nat_to_string (clipIndex + 1), clip_id clip))
       (enumerate 0 (trk_clips track)))"

definition numbered_aliases :: "char \<Rightarrow> Ulid list \<Rightarrow> (string \<times> Ulid) list" where
  "numbered_aliases letter ids = map (\<lambda>(index, i). (letter # nat_to_string (index + 1), i)) (enumerate 0 ids)"

definition document_aliases :: "Document \<Rightarrow> (string \<times> Ulid) list" where
  "document_aliases d =
     concat (map track_aliases (enumerate 0 (stable_sort (\<lambda>l r. trk_index l < trk_index r) (doc_tracks d)))) @
     numbered_aliases CHR ''M'' (map med_id (doc_library d)) @
     numbered_aliases CHR ''K'' (map mk_id (seq_markers (doc_sequence d)))"

record IdResolver =
  idr_universe :: "Ulid list"
  idr_aliases :: "(string \<times> Ulid) list"
  idr_sequence_id :: Ulid

definition make_IdResolver :: "Document \<Rightarrow> IdResolver" where
  "make_IdResolver d =
     \<lparr>idr_universe = CollectDocumentIds d, idr_aliases = document_aliases d, idr_sequence_id = seq_id (doc_sequence d)\<rparr>"

section \<open>Resolution\<close>

definition starts_with :: "string \<Rightarrow> string \<Rightarrow> bool" where
  "starts_with input i \<longleftrightarrow> length i \<ge> length input \<and> take (length input) i = input"

definition resolve_id :: "IdResolver \<Rightarrow> string \<Rightarrow> string \<Rightarrow> string + Ulid" where
  "resolve_id r fieldName input =
     (if input = [] then Inl (quoted fieldName @ '' must not be empty'')
      else if input \<in> set (idr_universe r) then Inr input
      else (case filter (\<lambda>(name, i). name = UpperAscii input) (idr_aliases r) of
        [(name, i)] \<Rightarrow> Inr i
      | _ # _ # _ \<Rightarrow> Inl (quoted fieldName @ '': alias '' @ quoted input @ '' is ambiguous, matches more than one object'')
      | [] \<Rightarrow>
          (case filter (starts_with input) (idr_universe r) of
             [] \<Rightarrow> Inl (quoted fieldName @ '': no object matches id or prefix '' @ quoted input)
           | [i] \<Rightarrow> Inr i
           | _ \<Rightarrow> Inl (quoted fieldName @ '': id prefix '' @ quoted input @ '' is ambiguous, matches more than one object''))))"

section \<open>What the resolver knows\<close>

lemma set_collect_clip_ids: "set ids \<union> {clip_id c} \<subseteq> set (collect_clip_ids c ids)"
  by (auto simp: collect_clip_ids_def Let_def)

lemma set_fold_collect_clips: "set ids \<union> clip_id ` set cs \<subseteq> set (fold collect_clip_ids cs ids)"
proof (induction cs arbitrary: ids)
  case (Cons c cs)
  from Cons.IH [of "collect_clip_ids c ids"] set_collect_clip_ids [of ids c] show ?case by auto
qed simp

lemma set_fold_collect_tracks:
  "set ids \<union> (\<Union>t\<in>set ts. clip_id ` set (trk_clips t)) \<subseteq> set (fold collect_track_ids ts ids)"
proof (induction ts arbitrary: ids)
  case (Cons t ts)
  have "set ids \<union> clip_id ` set (trk_clips t) \<subseteq> set (collect_track_ids t ids)"
    using set_fold_collect_clips [of "ids @ [trk_id t]" "trk_clips t"] by (auto simp: collect_track_ids_def)
  with Cons.IH [of "collect_track_ids t ids"] show ?case by auto
qed simp

lemma clip_ids_collected: "t \<in> set (doc_tracks d) \<Longrightarrow> c \<in> set (trk_clips t) \<Longrightarrow> 
   clip_id c \<in> set (fold collect_track_ids (doc_tracks d) [seq_id (doc_sequence d)])"
  using set_fold_collect_tracks [of "[seq_id (doc_sequence d)]" "doc_tracks d"] by blast

lemma snd_enumerate: "(k, x) \<in> set (enumerate n xs) \<Longrightarrow> x \<in> set xs"
  by (auto simp: in_set_enumerate_eq)

lemma aliases_collected: "(name, i) \<in> set (document_aliases d) \<Longrightarrow> i \<in> set (CollectDocumentIds d)"
  by (auto simp: document_aliases_def track_aliases_def numbered_aliases_def CollectDocumentIds_def
      dest!: snd_enumerate intro: clip_ids_collected)

text \<open>
  Property C29: the resolver never guesses.  What it returns is an identifier of the
  document, and is the input itself, or the object of the only alias with that name, or the
  only identifier with that prefix; a full identifier always resolves to itself.
\<close>

theorem id_resolver_never_guesses:
  "(\<forall>i. resolve_id (make_IdResolver d) fieldName input = Inr i \<longrightarrow>
      i \<in> set (CollectDocumentIds d) \<and>
      (input = i \<or> (\<exists>name. filter (\<lambda>(a, _). a = UpperAscii input) (document_aliases d) = [(name, i)]) \<or>
       filter (starts_with input) (CollectDocumentIds d) = [i])) \<and>
   (input \<noteq> [] \<longrightarrow> input \<in> set (CollectDocumentIds d) \<longrightarrow> resolve_id (make_IdResolver d) fieldName input = Inr input)"
proof (intro conjI allI impI)
  fix i assume r: "resolve_id (make_IdResolver d) fieldName input = Inr i"
  let ?al = "filter (\<lambda>(a, _). a = UpperAscii input) (document_aliases d)"
  let ?pre = "filter (starts_with input) (CollectDocumentIds d)"
  consider (full) "input = i" "input \<in> set (CollectDocumentIds d)"
    | (named) name where "?al = [(name, i)]" | (prefixed) "?pre = [i]"
    using r by (auto simp: resolve_id_def make_IdResolver_def split: if_splits list.splits)
  note cases = this
  show "input = i \<or> (\<exists>name. ?al = [(name, i)]) \<or> ?pre = [i]" using cases by cases blast+
  show "i \<in> set (CollectDocumentIds d)"
  proof (cases rule: cases)
    case (named name)
    then have "(name, i) \<in> set ?al" by simp
    then show ?thesis by (auto intro: aliases_collected)
  next
    case prefixed
    then have "i \<in> set ?pre" by simp
    then show ?thesis by simp
  qed simp
next
  assume "input \<noteq> []" and "input \<in> set (CollectDocumentIds d)"
  then show "resolve_id (make_IdResolver d) fieldName input = Inr input"
    by (simp add: resolve_id_def make_IdResolver_def)
qed

text \<open>
  A rush and its mounted source share one identifier, so the identifier stands twice in the
  universe.
\<close>

lemma mounted_media_twice:
  assumes "m \<in> set (doc_library d)" and "s \<in> set (doc_sources d)" and "src_id s = med_id m"
  shows "2 \<le> count_list (CollectDocumentIds d) (med_id m)"
proof -
  have "1 \<le> count_list (map src_id (doc_sources d)) (med_id m)" and "1 \<le> count_list (map med_id (doc_library d)) (med_id m)"
    using assms by (force simp: Suc_le_eq count_list_0_iff neq0_conv [symmetric])+
  then show ?thesis by (simp add: CollectDocumentIds_def)
qed

lemma count_list_le_filter: "p x \<Longrightarrow> count_list xs x \<le> length (filter p xs)"
  by (induction xs) auto

text \<open>
  Property C30: a proper prefix of the identifier of a mounted rush never resolves: even when
  no other object has that prefix, the rush and its own source count as two.
\<close>

theorem mounted_media_prefix_refused:
  assumes "m \<in> set (doc_library d)" and "s \<in> set (doc_sources d)" and "src_id s = med_id m"
    and "starts_with input (med_id m)" and "input \<noteq> []" and "input \<notin> set (CollectDocumentIds d)"
    and "\<forall>name i. (name, i) \<in> set (document_aliases d) \<longrightarrow> name \<noteq> UpperAscii input"
  shows "resolve_id (make_IdResolver d) fieldName input =
    Inl (quoted fieldName @ '': id prefix '' @ quoted input @ '' is ambiguous, matches more than one object'')"
proof -
  have "2 \<le> length (filter (starts_with input) (CollectDocumentIds d))"
    using mounted_media_twice [OF assms(1-3)] count_list_le_filter [of "starts_with input" "med_id m" "CollectDocumentIds d"]
      assms(4) by linarith
  then obtain a b rest where two: "filter (starts_with input) (CollectDocumentIds d) = a # b # rest"
    by (metis One_nat_def Suc_1 Suc_le_length_iff)
  have none: "filter (\<lambda>(name, i). name = UpperAscii input) (document_aliases d) = []"
    using assms(7) by (auto simp: filter_empty_conv)
  show ?thesis using assms(5,6) by (simp add: resolve_id_def make_IdResolver_def none two)
qed

section \<open>On the sample document\<close>

text \<open>The sample document with its rush and source under an identifier no other object resembles.\<close>

definition lone_rush :: Document where
  "lone_rush = sample_doc\<lparr>doc_library := [sample_media\<lparr>med_id := ''7ZZZ''\<rparr>], doc_sources := [sample_source\<lparr>src_id := ''7ZZZ''\<rparr>]\<rparr>"

theorem id_resolver_never_guesses_witness:
  "resolve_id (make_IdResolver sample_doc) ''clip_id'' (u CHR ''2'') = Inr (u CHR ''2'')"
  using id_resolver_never_guesses [of sample_doc "''clip_id''" "u CHR ''2''"]
  by (simp add: u_def CollectDocumentIds_def sample_doc_def sample_doc_with_def sample_track_def sample_clip_def
      new_clip_def link_def collect_track_ids_def collect_clip_ids_def)

theorem mounted_media_prefix_refused_witness:
  "resolve_id (make_IdResolver lone_rush) ''media_id'' ''7Z'' =
    Inl (quoted ''media_id'' @ '': id prefix '' @ quoted ''7Z'' @ '' is ambiguous, matches more than one object'')"
proof (rule mounted_media_prefix_refused)
  show "sample_media\<lparr>med_id := ''7ZZZ''\<rparr> \<in> set (doc_library lone_rush)"
    and "sample_source\<lparr>src_id := ''7ZZZ''\<rparr> \<in> set (doc_sources lone_rush)"
    and "src_id (sample_source\<lparr>src_id := ''7ZZZ''\<rparr>) = med_id (sample_media\<lparr>med_id := ''7ZZZ''\<rparr>)"
    by (simp_all add: lone_rush_def)
  show "starts_with ''7Z'' (med_id (sample_media\<lparr>med_id := ''7ZZZ''\<rparr>))" and "''7Z'' \<noteq> []"
    and "''7Z'' \<notin> set (CollectDocumentIds lone_rush)" by code_simp+
  have "map fst (document_aliases lone_rush) = [''A1'', ''A2'', ''C1'', ''M1'']" by code_simp
  then have "fst ` set (document_aliases lone_rush) = set [''A1'', ''A2'', ''C1'', ''M1'']" by (metis list.set_map)
  moreover have "UpperAscii ''7Z'' \<notin> set [''A1'', ''A2'', ''C1'', ''M1'']" by code_simp
  ultimately show "\<forall>name i. (name, i) \<in> set (document_aliases lone_rush) \<longrightarrow> name \<noteq> UpperAscii ''7Z''"
    by (metis fst_conv image_eqI)
qed

end
