(* ===== verification/Frame_Cache.thy ===== *)
theory Frame_Cache
  imports Prelude Ulid "HOL-Library.Product_Lexorder" "HOL-Library.List_Lexorder"
    "HOL-Library.Char_ord" "HOL-Library.Multiset"
begin

text \<open>
  \<open>src/FrameCache.cc\<close>: the cache of decoded frames, least recently used first out, within a
  byte budget.  Each method runs under the object's mutex, so a method is one step.  The
  \<open>std::map\<close> of entries is its key-ordered association list; the stored list iterator of an
  entry is the position of its key in \<open>lru_\<close>, which holds every key once.  A frame of
  FFmpeg is the buffers the code measures and the picture \<open>'p\<close>; \<open>av_frame_ref\<close>, which may
  fail for want of memory, is the argument \<open>retain\<close>.  Byte counts are natural numbers: the
  invariant shows that the total never falls below what is subtracted, and it stays within the
  budget and one frame, so that it can leave \<open>size_t\<close> only for budgets near \<open>2 ^ 64\<close>; frame
  indices are integers, whose distances fit \<open>int64_t\<close> unless an index is near its ends.  The
  arithmetic of the prefetch window wraps as \<open>size_t\<close> does.
\<close>

section \<open>State\<close>

record 'p AVFrame =
  av_buf :: "nat option list"
  av_extended_buf :: "nat option list"
  av_picture :: 'p

type_synonym cache_key = "Ulid \<times> int"

record 'p Entry =
  ent_frame :: "'p AVFrame"
  ent_bytes :: nat

record 'p FrameCache =
  fc_byteBudget :: nat
  fc_totalBytes :: nat
  fc_entries :: "(cache_key \<times> 'p Entry) list"
  fc_lru :: "cache_key list"
  fc_activeSources :: "Ulid set"
  fc_sourceFrameBytes :: "Ulid \<Rightarrow> nat option"

record PrefetchWindow =
  pw_ahead :: nat
  pw_behind :: nat
  pw_totalIncludingCurrent :: nat

type_synonym 'p retain = "'p AVFrame \<Rightarrow> 'p AVFrame option"

definition make_FrameCache :: "nat \<Rightarrow> 'p FrameCache" where
  "make_FrameCache budget =
     \<lparr>fc_byteBudget = budget, fc_totalBytes = 0, fc_entries = [], fc_lru = [], fc_activeSources = {},
      fc_sourceFrameBytes = (\<lambda>_. None)\<rparr>"

definition FrameBytes :: "'p AVFrame \<Rightarrow> nat" where
  "FrameBytes frame =
     (\<Sum>b\<leftarrow>av_buf frame. case b of None \<Rightarrow> 0 | Some n \<Rightarrow> n) +
     (\<Sum>b\<leftarrow>av_extended_buf frame. case b of None \<Rightarrow> 0 | Some n \<Rightarrow> n)"

section \<open>Methods\<close>

definition erase_key :: "cache_key \<Rightarrow> (cache_key \<times> 'p Entry) list \<Rightarrow> (cache_key \<times> 'p Entry) list" where
  "erase_key k = filter (\<lambda>p. fst p \<noteq> k)"

definition Touch :: "cache_key \<Rightarrow> 'p FrameCache \<Rightarrow> 'p FrameCache" where
  "Touch k c = c\<lparr>fc_lru := k # remove1 k (fc_lru c)\<rparr>"

function EvictToBudget :: "'p FrameCache \<Rightarrow> 'p FrameCache" where
  "EvictToBudget c =
     (if fc_totalBytes c > fc_byteBudget c \<and> fc_lru c \<noteq> []
      then let key = List.last (fc_lru c);
               c1 = (case map_of (fc_entries c) key of
                       None \<Rightarrow> c
                     | Some e \<Rightarrow> c\<lparr>fc_totalBytes := fc_totalBytes c - ent_bytes e,
                                   fc_entries := erase_key key (fc_entries c)\<rparr>)
           in EvictToBudget (c1\<lparr>fc_lru := butlast (fc_lru c)\<rparr>)
      else c)"
  by pat_completeness auto
termination by (relation "measure (\<lambda>c. length (fc_lru c))") auto

declare EvictToBudget.simps [simp del]

definition Put :: "'p retain \<Rightarrow> Ulid \<Rightarrow> int \<Rightarrow> 'p AVFrame option \<Rightarrow> 'p FrameCache \<Rightarrow> bool \<times> 'p FrameCache" where
  "Put retain sourceId frameIndex frame c =
     (case Option.bind frame retain of
        None \<Rightarrow> (False, c)
      | Some retained \<Rightarrow>
          let bytes = FrameBytes retained;
              known = (case fc_sourceFrameBytes c sourceId of None \<Rightarrow> 0 | Some n \<Rightarrow> n);
              c1 = c\<lparr>fc_sourceFrameBytes := (fc_sourceFrameBytes c)(sourceId \<mapsto> max known bytes)\<rparr>;
              key = (sourceId, frameIndex) in
          if map_of (fc_entries c1) key \<noteq> None then (True, Touch key c1)
          else
            let c2 = EvictToBudget (c1\<lparr>fc_lru := key # fc_lru c1,
                       fc_entries := insort_key fst (key, \<lparr>ent_frame = retained, ent_bytes = bytes\<rparr>) (fc_entries c1),
                       fc_totalBytes := fc_totalBytes c1 + bytes\<rparr>) in
            (map_of (fc_entries c2) key \<noteq> None, c2))"

definition GetExact :: "'p retain \<Rightarrow> Ulid \<Rightarrow> int \<Rightarrow> 'p FrameCache \<Rightarrow> 'p AVFrame option \<times> 'p FrameCache" where
  "GetExact retain sourceId frameIndex c =
     (case map_of (fc_entries c) (sourceId, frameIndex) of
        None \<Rightarrow> (None, c)
      | Some e \<Rightarrow> (retain (ent_frame e), Touch (sourceId, frameIndex) c))"

text \<open>\<open>lower_bound\<close> splits the ordered entries; \<open>next\<close> is the head of the right part, \<open>prev\<close> the end of the left.\<close>

definition nearer_end :: "Ulid \<Rightarrow> int \<Rightarrow> (cache_key \<times> 'p Entry) list \<Rightarrow> (cache_key \<times> 'p Entry) list \<Rightarrow>
    (cache_key \<times> 'p Entry) option" where
  "nearer_end sourceId frameIndex before after =
     (let best = (case after of [] \<Rightarrow> None | n # _ \<Rightarrow> if fst (fst n) = sourceId then Some n else None) in
      if before = [] then best
      else let previous = List.last before in
        if fst (fst previous) = sourceId \<and>
           (case best of None \<Rightarrow> True
            | Some b \<Rightarrow> \<bar>snd (fst previous) - frameIndex\<bar> \<le> \<bar>snd (fst b) - frameIndex\<bar>)
        then Some previous else best)"

definition nearest_entry :: "Ulid \<Rightarrow> int \<Rightarrow> (cache_key \<times> 'p Entry) list \<Rightarrow> (cache_key \<times> 'p Entry) option" where
  "nearest_entry sourceId frameIndex entries =
     nearer_end sourceId frameIndex (takeWhile (\<lambda>p. fst p < (sourceId, frameIndex)) entries)
       (dropWhile (\<lambda>p. fst p < (sourceId, frameIndex)) entries)"

definition GetNearest :: "'p retain \<Rightarrow> Ulid \<Rightarrow> int \<Rightarrow> 'p FrameCache \<Rightarrow> ('p AVFrame option \<times> int) option \<times> 'p FrameCache" where
  "GetNearest retain sourceId frameIndex c =
     (case nearest_entry sourceId frameIndex (fc_entries c) of
        None \<Rightarrow> (None, c)
      | Some (key, e) \<Rightarrow> (Some (retain (ent_frame e), snd key), Touch key c))"

definition Contains :: "Ulid \<Rightarrow> int \<Rightarrow> 'p FrameCache \<Rightarrow> bool" where
  "Contains sourceId frameIndex c \<longleftrightarrow> map_of (fc_entries c) (sourceId, frameIndex) \<noteq> None"

definition TouchFrame :: "Ulid \<Rightarrow> int \<Rightarrow> 'p FrameCache \<Rightarrow> bool \<times> 'p FrameCache" where
  "TouchFrame sourceId frameIndex c =
     (if map_of (fc_entries c) (sourceId, frameIndex) = None then (False, c)
      else (True, Touch (sourceId, frameIndex) c))"

definition RegisterSource :: "Ulid \<Rightarrow> 'p FrameCache \<Rightarrow> 'p FrameCache" where
  "RegisterSource sourceId c = c\<lparr>fc_activeSources := insert sourceId (fc_activeSources c)\<rparr>"

definition UnregisterSource :: "Ulid \<Rightarrow> 'p FrameCache \<Rightarrow> 'p FrameCache" where
  "UnregisterSource sourceId c = c\<lparr>fc_activeSources := fc_activeSources c - {sourceId}\<rparr>"

definition clear_entry :: "Ulid \<Rightarrow> cache_key \<times> 'p Entry \<Rightarrow> 'p FrameCache \<Rightarrow> 'p FrameCache" where
  "clear_entry sourceId = (\<lambda>(k, e) c.
     if fst k \<noteq> sourceId then c
     else c\<lparr>fc_totalBytes := fc_totalBytes c - ent_bytes e, fc_lru := remove1 k (fc_lru c),
            fc_entries := erase_key k (fc_entries c)\<rparr>)"

definition ClearSource :: "Ulid \<Rightarrow> 'p FrameCache \<Rightarrow> 'p FrameCache" where
  "ClearSource sourceId c =
     (let c1 = fold (clear_entry sourceId) (fc_entries c) c in
      c1\<lparr>fc_sourceFrameBytes := (fc_sourceFrameBytes c1)(sourceId := None)\<rparr>)"

definition size_t :: "nat \<Rightarrow> nat" where
  "size_t n = n mod 2 ^ 64"

definition prefetch_total :: "nat \<Rightarrow> nat \<Rightarrow> nat \<Rightarrow> nat" where
  "prefetch_total budget bytes sourceCount =
     (let numerator = budget * 70; denominator = bytes * 100 * sourceCount in
      max 1 (size_t ((numerator + denominator - 1) div denominator)))"

definition window_of_total :: "nat \<Rightarrow> PrefetchWindow" where
  "window_of_total frames =
     (if frames = 1 then \<lparr>pw_ahead = 0, pw_behind = 0, pw_totalIncludingCurrent = 1\<rparr>
      else let ahead = min (frames - 1) (size_t (frames * 3 + 2) div 4) in
        \<lparr>pw_ahead = ahead, pw_behind = frames - 1 - ahead, pw_totalIncludingCurrent = frames\<rparr>)"

definition WindowForSource :: "Ulid \<Rightarrow> 'p FrameCache \<Rightarrow> PrefetchWindow" where
  "WindowForSource sourceId c =
     (case fc_sourceFrameBytes c sourceId of
        None \<Rightarrow> window_of_total 1
      | Some bytes \<Rightarrow>
          if bytes = 0 then window_of_total 1
          else window_of_total (prefetch_total (fc_byteBudget c) bytes (max 1 (card (fc_activeSources c)))))"

definition EntryCount :: "'p FrameCache \<Rightarrow> nat" where
  "EntryCount c = length (fc_entries c)"

section \<open>The abstract cache: a list in order of recency\<close>

type_synonym 'p recency = "(cache_key \<times> 'p Entry) list"

definition recency :: "'p FrameCache \<Rightarrow> 'p recency" where
  "recency c = map (\<lambda>k. (k, the (map_of (fc_entries c) k))) (fc_lru c)"

abbreviation weight :: "'p recency \<Rightarrow> nat" where
  "weight xs \<equiv> (\<Sum>p\<leftarrow>xs. ent_bytes (snd p))"

text \<open>The longest prefix that fits the budget: the least recent entries go.\<close>

fun fit :: "nat \<Rightarrow> 'p recency \<Rightarrow> 'p recency" where
  "fit budget [] = []"
| "fit budget (p # ps) = (if ent_bytes (snd p) \<le> budget then p # fit (budget - ent_bytes (snd p)) ps else [])"

lemma fit_all: "weight xs \<le> budget \<Longrightarrow> fit budget xs = xs"
  by (induction xs arbitrary: budget) auto

lemma fit_snoc: "budget < weight (xs @ [x]) \<Longrightarrow> fit budget (xs @ [x]) = fit budget xs"
  by (induction xs arbitrary: budget) auto

section \<open>The invariant\<close>

definition cache_ok :: "'p FrameCache \<Rightarrow> bool" where
  "cache_ok c \<longleftrightarrow> sorted_wrt (<) (map fst (fc_entries c)) \<and> distinct (fc_lru c) \<and>
     set (fc_lru c) = fst ` set (fc_entries c) \<and> fc_totalBytes c = weight (fc_entries c)"

definition sizes_known :: "'p FrameCache \<Rightarrow> bool" where
  "sizes_known c \<longleftrightarrow> (\<forall>(k, e)\<in>set (fc_entries c). \<exists>n. fc_sourceFrameBytes c (fst k) = Some n \<and> ent_bytes e \<le> n)"

lemma strictly_sorted_distinct: "sorted_wrt (<) (xs :: 'a::linorder list) \<Longrightarrow> distinct xs"
  by (induction xs) auto

lemma cache_ok_distinct: "cache_ok c \<Longrightarrow> distinct (map fst (fc_entries c))"
  by (simp add: cache_ok_def strictly_sorted_distinct)

lemma mset_recency:
  assumes "cache_ok c"
  shows "mset (recency c) = mset (fc_entries c)"
proof -
  let ?g = "\<lambda>k. (k, the (map_of (fc_entries c) k))"
  note d = cache_ok_distinct [OF assms]
  have "mset (fc_lru c) = mset (map fst (fc_entries c))"
    using assms d set_eq_iff_mset_eq_distinct [of "fc_lru c" "map fst (fc_entries c)"] by (simp add: cache_ok_def)
  then have "mset (recency c) = image_mset ?g (mset (map fst (fc_entries c)))" by (simp add: recency_def)
  also have "\<dots> = mset (map (\<lambda>p. ?g (fst p)) (fc_entries c))" by (simp add: comp_def image_mset.compositionality)
  also have "map (\<lambda>p. ?g (fst p)) (fc_entries c) = fc_entries c"
    by (rule map_idI) (use d in \<open>auto simp: map_of_eq_Some_iff\<close>)
  finally show ?thesis .
qed

lemma weight_recency: "cache_ok c \<Longrightarrow> weight (recency c) = fc_totalBytes c"
  using arg_cong [OF mset_recency, of c "\<lambda>m. \<Sum>p\<in>#m. ent_bytes (snd p)"]
  by (simp add: cache_ok_def sum_mset_sum_list [symmetric])

lemma mset_erase:
  "distinct (map fst xs) \<Longrightarrow> map_of xs k = Some e \<Longrightarrow> mset xs = add_mset (k, e) (mset (erase_key k xs))"
proof (induction xs)
  case (Cons p xs)
  show ?case
  proof (cases "fst p = k")
    case True
    moreover have "fst p \<notin> fst ` set xs" using Cons.prems(1) by simp
    ultimately have "filter (\<lambda>p. fst p \<noteq> k) xs = xs" by (intro filter_True) (metis image_eqI)
    with True Cons.prems show ?thesis by (cases p) (simp add: erase_key_def)
  next
    case False
    with Cons show ?thesis by (cases p) (auto simp: erase_key_def)
  qed
qed simp

lemma map_of_erase: "map_of (erase_key k xs) j = (if j = k then None else map_of xs j)"
  by (induction xs) (auto simp: erase_key_def)

lemma keys_erase: "fst ` set (erase_key k xs) = fst ` set xs - {k}"
  by (auto simp: erase_key_def)

lemma sorted_wrt_erase: "sorted_wrt P (map fst xs) \<Longrightarrow> sorted_wrt P (map fst (erase_key k xs))"
  by (induction xs) (auto simp: erase_key_def)

lemma cache_ok_without:
  assumes ok: "cache_ok c" and k: "map_of (fc_entries c) k = Some e" and l: "lru = remove1 k (fc_lru c)"
  shows "cache_ok (c\<lparr>fc_totalBytes := fc_totalBytes c - ent_bytes e, fc_entries := erase_key k (fc_entries c), fc_lru := lru\<rparr>)"
    and "recency (c\<lparr>fc_totalBytes := fc_totalBytes c - ent_bytes e, fc_entries := erase_key k (fc_entries c), fc_lru := lru\<rparr>) =
           filter (\<lambda>p. fst p \<noteq> k) (recency c)"
proof -
  note d = cache_ok_distinct [OF ok]
  have "weight (fc_entries c) = ent_bytes e + weight (erase_key k (fc_entries c))"
    using arg_cong [OF mset_erase [OF d k], of "\<lambda>m. \<Sum>p\<in>#m. ent_bytes (snd p)"] by (simp add: sum_mset_sum_list [symmetric])
  moreover have "set (remove1 k (fc_lru c)) = set (fc_lru c) - {k}" using ok by (simp add: cache_ok_def)
  ultimately show "cache_ok (c\<lparr>fc_totalBytes := fc_totalBytes c - ent_bytes e, fc_entries := erase_key k (fc_entries c), fc_lru := lru\<rparr>)"
    using ok unfolding l by (simp add: cache_ok_def sorted_wrt_erase keys_erase)
  have "remove1 k (fc_lru c) = filter (\<lambda>x. x \<noteq> k) (fc_lru c)" using ok by (auto simp: cache_ok_def distinct_remove1_removeAll removeAll_filter_not_eq intro!: filter_cong)
  then show "recency (c\<lparr>fc_totalBytes := fc_totalBytes c - ent_bytes e, fc_entries := erase_key k (fc_entries c), fc_lru := lru\<rparr>) =
           filter (\<lambda>p. fst p \<noteq> k) (recency c)"
    unfolding l by (auto simp: recency_def filter_map comp_def map_of_erase intro!: map_cong)
qed

lemma EvictToBudget_refines:
  "cache_ok c \<Longrightarrow>
   cache_ok (EvictToBudget c) \<and> fc_totalBytes (EvictToBudget c) \<le> fc_byteBudget c \<and>
   fc_byteBudget (EvictToBudget c) = fc_byteBudget c \<and> set (fc_entries (EvictToBudget c)) \<subseteq> set (fc_entries c) \<and>
   fc_activeSources (EvictToBudget c) = fc_activeSources c \<and> fc_sourceFrameBytes (EvictToBudget c) = fc_sourceFrameBytes c \<and>
   recency (EvictToBudget c) = fit (fc_byteBudget c) (recency c)"
proof (induction c rule: EvictToBudget.induct)
  case (1 c)
  show ?case
  proof (cases "fc_totalBytes c > fc_byteBudget c \<and> fc_lru c \<noteq> []")
    case True
    then obtain ks k where lru: "fc_lru c = ks @ [k]" by (metis append_butlast_last_id)
    have "k \<in> fst ` set (fc_entries c)" using 1(2) lru by (auto simp: cache_ok_def)
    then obtain e where e: "map_of (fc_entries c) k = Some e" by (metis map_of_eq_None_iff not_None_eq)
    let ?c = "c\<lparr>fc_totalBytes := fc_totalBytes c - ent_bytes e, fc_entries := erase_key k (fc_entries c), fc_lru := ks\<rparr>"
    have ks: "ks = remove1 k (fc_lru c)" using 1(2) by (simp add: lru cache_ok_def remove1_append)
    have step: "EvictToBudget c = EvictToBudget ?c"
      using True by (subst EvictToBudget.simps) (simp add: Let_def lru e)
    note ok = cache_ok_without [OF 1(2) e ks]
    have IH: "cache_ok (EvictToBudget ?c) \<and> fc_totalBytes (EvictToBudget ?c) \<le> fc_byteBudget c \<and>
        fc_byteBudget (EvictToBudget ?c) = fc_byteBudget c \<and> set (fc_entries (EvictToBudget ?c)) \<subseteq> set (erase_key k (fc_entries c)) \<and>
        fc_activeSources (EvictToBudget ?c) = fc_activeSources c \<and> fc_sourceFrameBytes (EvictToBudget ?c) = fc_sourceFrameBytes c \<and>
        recency (EvictToBudget ?c) = fit (fc_byteBudget c) (recency ?c)"
      using 1(1) [OF True refl refl] ok(1) by (simp add: lru e)
    have r: "recency c = filter (\<lambda>p. fst p \<noteq> k) (recency c) @ [(k, e)]"
    proof -
      have "filter (\<lambda>x. x \<noteq> k) ks = ks" using 1(2) by (auto simp: filter_id_conv lru cache_ok_def)
      then show ?thesis using e by (simp add: recency_def lru filter_map comp_def)
    qed
    have "fit (fc_byteBudget c) (recency c) = fit (fc_byteBudget c) (recency ?c)"
      unfolding ok(2) by (subst r) (rule fit_snoc, use True weight_recency [OF 1(2)] r in simp)
    with IH show ?thesis unfolding step by (auto simp: erase_key_def)
  next
    case False
    have "fc_totalBytes c \<le> fc_byteBudget c"
    proof (rule ccontr)
      assume "\<not> fc_totalBytes c \<le> fc_byteBudget c"
      with False have "fc_lru c = []" by simp
      with 1(2) have "fc_totalBytes c = 0" by (simp add: cache_ok_def)
      with \<open>\<not> fc_totalBytes c \<le> fc_byteBudget c\<close> show False by simp
    qed
    moreover have "EvictToBudget c = c" using False by (subst EvictToBudget.simps) auto
    ultimately show ?thesis using 1(2) weight_recency [OF 1(2)] by (simp add: fit_all)
  qed
qed

lemma EvictToBudget_budget: "fc_byteBudget (EvictToBudget c) = fc_byteBudget c"
proof (induction c rule: EvictToBudget.induct)
  case (1 c)
  then show ?case by (subst EvictToBudget.simps) (auto simp: Let_def split: option.splits)
qed

section \<open>The methods on the abstract cache\<close>

lemma Touch_refines:
  assumes ok: "cache_ok c" and e: "map_of (fc_entries c) k = Some e"
  shows "cache_ok (Touch k c)" and "recency (Touch k c) = (k, e) # filter (\<lambda>p. fst p \<noteq> k) (recency c)"
proof -
  have k: "k \<in> set (fc_lru c)" using ok map_of_SomeD [OF e] by (force simp: cache_ok_def)
  with ok show "cache_ok (Touch k c)" by (auto simp: cache_ok_def Touch_def)
  have "remove1 k (fc_lru c) = filter (\<lambda>x. x \<noteq> k) (fc_lru c)"
    using ok by (auto simp: cache_ok_def distinct_remove1_removeAll removeAll_filter_not_eq intro!: filter_cong)
  then show "recency (Touch k c) = (k, e) # filter (\<lambda>p. fst p \<noteq> k) (recency c)"
    using e by (simp add: recency_def Touch_def filter_map comp_def)
qed

lemma Touch_fields [simp]:
  "fc_entries (Touch k c) = fc_entries c" "fc_totalBytes (Touch k c) = fc_totalBytes c"
  "fc_byteBudget (Touch k c) = fc_byteBudget c" "fc_sourceFrameBytes (Touch k c) = fc_sourceFrameBytes c"
  by (simp_all add: Touch_def)

lemma sorted_wrt_less_map: "sorted_wrt (<) (map f xs) \<longleftrightarrow> sorted (map f xs) \<and> distinct (map (f :: _ \<Rightarrow> 'a::linorder) xs)"
  by (simp add: strict_sorted_iff)

lemma map_of_insort: "k \<notin> fst ` set xs \<Longrightarrow> map_of (insort_key fst (k, e) xs) = (map_of xs)(k \<mapsto> e)"
  by (induction xs) (auto simp: fun_eq_iff)

lemma cache_ok_push:
  assumes ok: "cache_ok c" and k: "map_of (fc_entries c) k = None"
  shows "cache_ok (c\<lparr>fc_lru := k # fc_lru c, fc_entries := insort_key fst (k, e) (fc_entries c),
           fc_totalBytes := fc_totalBytes c + ent_bytes e\<rparr>)"
    and "recency (c\<lparr>fc_lru := k # fc_lru c, fc_entries := insort_key fst (k, e) (fc_entries c),
           fc_totalBytes := fc_totalBytes c + ent_bytes e\<rparr>) = (k, e) # recency c"
proof -
  have k': "k \<notin> fst ` set (fc_entries c)" using k by (simp add: map_of_eq_None_iff)
  have m: "mset (insort_key fst (k, e) (fc_entries c)) = add_mset (k, e) (mset (fc_entries c))" by simp
  have w: "weight (insort_key fst (k, e) (fc_entries c)) = ent_bytes e + weight (fc_entries c)"
    using arg_cong [OF m, of "\<lambda>m. \<Sum>p\<in>#m. ent_bytes (snd p)"] by (simp add: sum_mset_sum_list [symmetric])
  have "sorted (map fst (insort_key fst (k, e) (fc_entries c)))"
    using ok by (intro sorted_insort_key [THEN iffD2]) (simp add: cache_ok_def sorted_wrt_less_map)
  moreover have d: "distinct (map fst (insort_key fst (k, e) (fc_entries c)))"
    using cache_ok_distinct [OF ok] k' by (simp add: distinct_insort_key)
  ultimately show "cache_ok (c\<lparr>fc_lru := k # fc_lru c, fc_entries := insort_key fst (k, e) (fc_entries c),
           fc_totalBytes := fc_totalBytes c + ent_bytes e\<rparr>)"
    using ok k' w by (auto simp: cache_ok_def sorted_wrt_less_map set_insort_key)
  have "map_of (insort_key fst (k, e) (fc_entries c)) = (map_of (fc_entries c))(k \<mapsto> e)"
    by (rule map_of_insort [OF k'])
  moreover have "k \<notin> set (fc_lru c)" using ok k' by (simp add: cache_ok_def)
  ultimately show "recency (c\<lparr>fc_lru := k # fc_lru c, fc_entries := insort_key fst (k, e) (fc_entries c),
           fc_totalBytes := fc_totalBytes c + ent_bytes e\<rparr>) = (k, e) # recency c"
    by (auto simp: recency_def)
qed

lemma clear_entries:
  "cache_ok c \<Longrightarrow> distinct (map fst es) \<Longrightarrow> \<forall>(k, e)\<in>set es. map_of (fc_entries c) k = Some e \<Longrightarrow>
   cache_ok (fold (clear_entry s) es c) \<and>
   recency (fold (clear_entry s) es c) = filter (\<lambda>p. \<not> (fst (fst p) = s \<and> fst p \<in> fst ` set es)) (recency c) \<and>
   fc_byteBudget (fold (clear_entry s) es c) = fc_byteBudget c \<and>
   fc_sourceFrameBytes (fold (clear_entry s) es c) = fc_sourceFrameBytes c"
proof (induction es arbitrary: c)
  case (Cons p es)
  obtain k e where p: "p = (k, e)" by (cases p)
  show ?case
  proof (cases "fst k = s")
    case True
    let ?c = "c\<lparr>fc_totalBytes := fc_totalBytes c - ent_bytes e, fc_entries := erase_key k (fc_entries c), fc_lru := remove1 k (fc_lru c)\<rparr>"
    have e: "map_of (fc_entries c) k = Some e" using Cons.prems(3) p by simp
    have step: "clear_entry s p c = ?c" using True by (simp add: clear_entry_def p)
    note ok = cache_ok_without [OF Cons.prems(1) e refl]
    have "\<forall>(k', e')\<in>set es. map_of (fc_entries ?c) k' = Some e'"
      using Cons.prems(2,3) by (force simp: map_of_erase p)
    from Cons.IH [OF ok(1) _ this] Cons.prems(2)
    have IH: "cache_ok (fold (clear_entry s) es ?c) \<and>
       recency (fold (clear_entry s) es ?c) = filter (\<lambda>p. \<not> (fst (fst p) = s \<and> fst p \<in> fst ` set es)) (recency ?c) \<and>
       fc_byteBudget (fold (clear_entry s) es ?c) = fc_byteBudget c \<and>
       fc_sourceFrameBytes (fold (clear_entry s) es ?c) = fc_sourceFrameBytes c" by simp
    have "filter (\<lambda>p. \<not> (fst (fst p) = s \<and> fst p \<in> fst ` set es)) (recency ?c) =
        filter (\<lambda>q. \<not> (fst (fst q) = s \<and> fst q \<in> fst ` set (p # es))) (recency c)"
      unfolding ok(2) using True by (auto simp: p intro!: filter_cong)
    with IH show ?thesis by (simp only: fold.simps comp_def step)
  next
    case False
    then have "clear_entry s p c = c" by (simp add: clear_entry_def p)
    moreover have "filter (\<lambda>q. \<not> (fst (fst q) = s \<and> fst q \<in> fst ` set (p # es))) (recency c) =
        filter (\<lambda>q. \<not> (fst (fst q) = s \<and> fst q \<in> fst ` set es)) (recency c)"
      using False by (auto simp: p intro!: filter_cong)
    ultimately show ?thesis using Cons.IH [of c] Cons.prems by (simp add: p)
  qed
qed simp

lemma set_recency: "cache_ok c \<Longrightarrow> set (recency c) = set (fc_entries c)"
  by (metis mset_recency mset_eq_setD)

lemma ClearSource_refines:
  assumes "cache_ok c"
  shows "cache_ok (ClearSource s c)" and "recency (ClearSource s c) = filter (\<lambda>p. fst (fst p) \<noteq> s) (recency c)"
    and "fc_byteBudget (ClearSource s c) = fc_byteBudget c"
    and "fc_sourceFrameBytes (ClearSource s c) = (fc_sourceFrameBytes c)(s := None)"
proof -
  let ?c = "fold (clear_entry s) (fc_entries c) c"
  have "\<forall>(k, e)\<in>set (fc_entries c). map_of (fc_entries c) k = Some e"
    using cache_ok_distinct [OF assms] by (auto simp: map_of_eq_Some_iff)
  from clear_entries [OF assms cache_ok_distinct [OF assms] this, of s]
  have c: "cache_ok ?c"
    "recency ?c = filter (\<lambda>p. \<not> (fst (fst p) = s \<and> fst p \<in> fst ` set (fc_entries c))) (recency c)"
    "fc_byteBudget ?c = fc_byteBudget c" "fc_sourceFrameBytes ?c = fc_sourceFrameBytes c" by blast+
  have "filter (\<lambda>p. \<not> (fst (fst p) = s \<and> fst p \<in> fst ` set (fc_entries c))) (recency c) = filter (\<lambda>p. fst (fst p) \<noteq> s) (recency c)"
    using set_recency [OF assms] by (intro filter_cong) auto
  with c show "cache_ok (ClearSource s c)" and "recency (ClearSource s c) = filter (\<lambda>p. fst (fst p) \<noteq> s) (recency c)"
    and "fc_byteBudget (ClearSource s c) = fc_byteBudget c"
    and "fc_sourceFrameBytes (ClearSource s c) = (fc_sourceFrameBytes c)(s := None)"
    by (simp_all add: ClearSource_def Let_def cache_ok_def recency_def)
qed

section \<open>The nearest frame\<close>

lemma nearer_end_is_end:
  "nearer_end s i before after = Some p \<Longrightarrow> after \<noteq> [] \<and> p = hd after \<or> before \<noteq> [] \<and> p = List.last before"
  by (auto simp: nearer_end_def Let_def split: if_splits list.splits)

lemma split_at_key: "set es = set (takeWhile P es) \<union> set (dropWhile P es)"
  by (metis set_append takeWhile_dropWhile_id)

lemma nearest_entry_member: "nearest_entry s i es = Some p \<Longrightarrow> p \<in> set es"
  unfolding nearest_entry_def
  by (drule nearer_end_is_end) (metis UnCI hd_in_set last_in_set split_at_key)

text \<open>In key order the entries of one source are contiguous, so the two ends next to the key decide.\<close>

lemma nearer_end_nearest:
  assumes sorted: "sorted_wrt (<) (map fst (before @ after))"
    and before: "\<forall>p\<in>set before. fst p < (s, i)" and after: "\<forall>p\<in>set after. (s, i) \<le> fst p"
  shows "case nearer_end s i before after of
      None \<Rightarrow> \<forall>q\<in>set (before @ after). fst (fst q) \<noteq> s
    | Some p \<Rightarrow> fst (fst p) = s \<and> (\<forall>q\<in>set (before @ after). fst (fst q) = s \<longrightarrow> \<bar>snd (fst p) - i\<bar> \<le> \<bar>snd (fst q) - i\<bar>)"
proof -
  have left: "before \<noteq> [] \<and> fst (fst (List.last before)) = s \<and> snd (fst q) \<le> snd (fst (List.last before)) \<and> snd (fst (List.last before)) < i"
    if q: "q \<in> set before" "fst (fst q) = s" for q
  proof -
    obtain xs l where l: "before = xs @ [l]" using q(1) by (cases before rule: rev_cases) auto
    have "fst q \<le> fst l" using sorted q(1) by (auto simp: l sorted_wrt_append)
    moreover have "fst l < (s, i)" using before by (simp add: l)
    ultimately show ?thesis using q(2) by (cases q; cases l) (auto simp: l less_prod_def' less_eq_prod_def split: if_splits)
  qed
  have right: "after \<noteq> [] \<and> fst (fst (hd after)) = s \<and> snd (fst (hd after)) \<le> snd (fst q) \<and> i \<le> snd (fst (hd after))"
    if q: "q \<in> set after" "fst (fst q) = s" for q
  proof -
    obtain h xs where h: "after = h # xs" using q(1) by (cases after) auto
    have "fst h \<le> fst q" using sorted q(1) by (auto simp: h sorted_wrt_append)
    moreover have "(s, i) \<le> fst h" using after by (simp add: h)
    ultimately show ?thesis using q(2) by (cases q; cases h) (auto simp: h less_eq_prod_def split: if_splits)
  qed
  show ?thesis
  proof (cases "nearer_end s i before after")
    case None
    then have "\<not> (before \<noteq> [] \<and> fst (fst (List.last before)) = s)" and "\<not> (after \<noteq> [] \<and> fst (fst (hd after)) = s)"
      by (auto simp: nearer_end_def Let_def split: if_splits list.splits)
    with left right None show ?thesis by fastforce
  next
    case (Some p)
    then have p: "fst (fst p) = s"
      and lp: "before \<noteq> [] \<Longrightarrow> fst (fst (List.last before)) = s \<Longrightarrow> \<bar>snd (fst p) - i\<bar> \<le> \<bar>snd (fst (List.last before)) - i\<bar>"
      and rp: "after \<noteq> [] \<Longrightarrow> fst (fst (hd after)) = s \<Longrightarrow> \<bar>snd (fst p) - i\<bar> \<le> \<bar>snd (fst (hd after)) - i\<bar>"
      by (auto simp: nearer_end_def Let_def split: if_splits list.splits)
    have "\<bar>snd (fst p) - i\<bar> \<le> \<bar>snd (fst q) - i\<bar>" if q: "q \<in> set (before @ after)" "fst (fst q) = s" for q
    proof (cases "q \<in> set before")
      case True
      from left [OF this q(2)] lp show ?thesis by linarith
    next
      case False
      with q have "q \<in> set after" by simp
      from right [OF this q(2)] rp show ?thesis by linarith
    qed
    with Some p show ?thesis by simp
  qed
qed

lemma nearest_entry_nearest:
  assumes "sorted_wrt (<) (map fst es)"
  shows "case nearest_entry s i es of
      None \<Rightarrow> \<forall>q\<in>set es. fst (fst q) \<noteq> s
    | Some p \<Rightarrow> p \<in> set es \<and> fst (fst p) = s \<and> (\<forall>q\<in>set es. fst (fst q) = s \<longrightarrow> \<bar>snd (fst p) - i\<bar> \<le> \<bar>snd (fst q) - i\<bar>)"
proof -
  let ?b = "takeWhile (\<lambda>p. fst p < (s, i)) es" and ?a = "dropWhile (\<lambda>p. fst p < (s, i)) es"
  have ba: "?b @ ?a = es" by simp
  have "\<forall>p\<in>set ?a. (s, i) \<le> fst p"
  proof (cases ?a)
    case (Cons h xs)
    then have h: "(s, i) \<le> fst h" by (metis dropWhile_eq_Cons_conv not_less)
    have "sorted_wrt (<) (map fst (?b @ h # xs))" using assms Cons ba by simp
    then have "\<forall>x\<in>set xs. fst h \<le> fst x" by (simp add: sorted_wrt_append less_imp_le)
    with h have "\<forall>x\<in>set xs. (s, i) \<le> fst x" using order_trans by blast
    with h Cons show ?thesis by (simp only: list.set ball_simps simp_thms)
  next
    case Nil
    show ?thesis unfolding Nil by simp
  qed
  moreover have "\<forall>p\<in>set ?b. fst p < (s, i)" by (auto dest: set_takeWhileD)
  moreover have "sorted_wrt (<) (map fst (?b @ ?a))" using assms by simp
  ultimately have "case nearer_end s i ?b ?a of
      None \<Rightarrow> \<forall>q\<in>set (?b @ ?a). fst (fst q) \<noteq> s
    | Some p \<Rightarrow> fst (fst p) = s \<and> (\<forall>q\<in>set (?b @ ?a). fst (fst q) = s \<longrightarrow> \<bar>snd (fst p) - i\<bar> \<le> \<bar>snd (fst q) - i\<bar>)"
    by (intro nearer_end_nearest)
  then show ?thesis using nearest_entry_member [of s i es]
    unfolding ba nearest_entry_def [symmetric] by (cases "nearest_entry s i es") auto
qed

section \<open>Runs of the cache\<close>

definition cache_inv :: "'p FrameCache \<Rightarrow> bool" where
  "cache_inv c \<longleftrightarrow> cache_ok c \<and> fc_totalBytes c \<le> fc_byteBudget c \<and> sizes_known c"

inductive cache_step :: "'p retain \<Rightarrow> 'p FrameCache \<Rightarrow> 'p FrameCache \<Rightarrow> bool" for retain where
  put: "cache_step retain c (snd (Put retain s n f c))"
| exact: "cache_step retain c (snd (GetExact retain s n c))"
| nearest: "cache_step retain c (snd (GetNearest retain s n c))"
| touch: "cache_step retain c (snd (TouchFrame s n c))"
| register: "cache_step retain c (RegisterSource s c)"
| unregister: "cache_step retain c (UnregisterSource s c)"
| clear: "cache_step retain c (ClearSource s c)"

inductive cache_reachable :: "'p retain \<Rightarrow> nat \<Rightarrow> 'p FrameCache \<Rightarrow> bool" for retain budget where
  start: "cache_reachable retain budget (make_FrameCache budget)"
| step: "cache_reachable retain budget c \<Longrightarrow> cache_step retain c c' \<Longrightarrow> cache_reachable retain budget c'"

lemma sizes_known_subset:
  assumes "sizes_known c" and "set (fc_entries c') \<subseteq> set (fc_entries c)" and "fc_sourceFrameBytes c' = fc_sourceFrameBytes c"
  shows "sizes_known c'"
  using assms(1) unfolding sizes_known_def assms(3) using assms(2) by blast

lemma cache_inv_Touch:
  assumes "cache_inv c" and "map_of (fc_entries c) k = Some e"
  shows "cache_inv (Touch k c)"
  using assms Touch_refines(1) [of c k e] by (simp add: cache_inv_def sizes_known_def)

lemma learn_size:
  assumes "cache_inv c"
  shows "cache_inv (c\<lparr>fc_sourceFrameBytes := (fc_sourceFrameBytes c)(s \<mapsto> max (case fc_sourceFrameBytes c s of None \<Rightarrow> 0 | Some n \<Rightarrow> n) b)\<rparr>)"
  using assms by (fastforce simp: cache_inv_def cache_ok_def sizes_known_def)

lemma Put_cases:
  fixes s :: Ulid and n :: int
  assumes "cache_inv c" and "Option.bind frame retain = Some r"
  defines "k \<equiv> (s, n)" and "e \<equiv> \<lparr>ent_frame = r, ent_bytes = FrameBytes r\<rparr>"
  shows "cache_inv (snd (Put retain s n frame c))"
    and "recency (snd (Put retain s n frame c)) =
      (case map_of (fc_entries c) k of
         Some old \<Rightarrow> (k, old) # filter (\<lambda>p. fst p \<noteq> k) (recency c)
       | None \<Rightarrow> fit (fc_byteBudget c) ((k, e) # recency c))"
    and "fst (Put retain s n frame c) \<longleftrightarrow> Contains s n (snd (Put retain s n frame c))"
proof -
  let ?c1 = "c\<lparr>fc_sourceFrameBytes := (fc_sourceFrameBytes c)(s \<mapsto> max (case fc_sourceFrameBytes c s of None \<Rightarrow> 0 | Some n \<Rightarrow> n) (FrameBytes r))\<rparr>"
  let ?c2 = "?c1\<lparr>fc_lru := k # fc_lru ?c1, fc_entries := insort_key fst (k, e) (fc_entries ?c1), fc_totalBytes := fc_totalBytes ?c1 + FrameBytes r\<rparr>"
  have i1: "cache_inv ?c1" by (rule learn_size [OF assms(1)])
  then have ok1: "cache_ok ?c1" by (simp add: cache_inv_def)
  have r1: "recency ?c1 = recency c" by (simp add: recency_def)
  have put: "Put retain s n frame c =
      (if map_of (fc_entries c) k \<noteq> None then (True, Touch k ?c1)
       else (map_of (fc_entries (EvictToBudget ?c2)) k \<noteq> None, EvictToBudget ?c2))"
    using assms(2) by (simp add: Put_def Let_def k_def e_def)
  have "cache_inv (snd (Put retain s n frame c)) \<and>
    recency (snd (Put retain s n frame c)) =
      (case map_of (fc_entries c) k of
         Some old \<Rightarrow> (k, old) # filter (\<lambda>p. fst p \<noteq> k) (recency c)
       | None \<Rightarrow> fit (fc_byteBudget c) ((k, e) # recency c))"
  proof (cases "map_of (fc_entries c) k")
    case (Some old)
    then have "map_of (fc_entries ?c1) k = Some old" by simp
    from cache_inv_Touch [OF i1 this] Touch_refines(2) [OF ok1 this] r1 Some show ?thesis by (simp add: put)
  next
    case None
    then have n: "map_of (fc_entries ?c1) k = None" by simp
    have eb: "FrameBytes r = ent_bytes e" by (simp add: e_def)
    note push = cache_ok_push [OF ok1 n, of e]
    have ok2: "cache_ok ?c2" and rec2: "recency ?c2 = (k, e) # recency c" using push r1 unfolding eb by simp_all
    have sizes2: "sizes_known ?c2"
    proof -
      have "\<forall>(k', e')\<in>set (fc_entries c). \<exists>n. fc_sourceFrameBytes ?c1 (fst k') = Some n \<and> ent_bytes e' \<le> n"
        using i1 by (simp add: cache_inv_def sizes_known_def)
      moreover have "\<exists>n. fc_sourceFrameBytes ?c1 (fst k) = Some n \<and> ent_bytes e \<le> n" by (simp add: k_def e_def)
      ultimately show ?thesis by (simp add: sizes_known_def set_insort_key)
    qed
    note ev = EvictToBudget_refines [OF ok2]
    have "sizes_known (EvictToBudget ?c2)" 
      by (rule sizes_known_subset [OF sizes2]) (use ev in simp_all)
    with ev have "cache_inv (EvictToBudget ?c2)" by (simp add: cache_inv_def)
    moreover have "recency (EvictToBudget ?c2) = fit (fc_byteBudget c) ((k, e) # recency c)" using ev rec2 by simp
    ultimately show ?thesis using None by (simp add: put)
  qed
  then show "cache_inv (snd (Put retain s n frame c))"
    and "recency (snd (Put retain s n frame c)) =
      (case map_of (fc_entries c) k of
         Some old \<Rightarrow> (k, old) # filter (\<lambda>p. fst p \<noteq> k) (recency c)
       | None \<Rightarrow> fit (fc_byteBudget c) ((k, e) # recency c))" by blast+
  show "fst (Put retain s n frame c) \<longleftrightarrow> Contains s n (snd (Put retain s n frame c))"
    by (simp add: put Contains_def k_def)
qed

lemma cache_inv_step:
  assumes "cache_step retain c c'" and "cache_inv c"
  shows "cache_inv c'"
  using assms(1)
proof cases
  case (put s n f)
  show ?thesis
  proof (cases "Option.bind f retain")
    case None
    with put assms(2) show ?thesis by (simp add: Put_def)
  next
    case (Some r)
    from Put_cases(1) [OF assms(2) this] put show ?thesis by simp
  qed
next
  case (exact s n)
  with assms(2) show ?thesis by (auto simp: GetExact_def cache_inv_Touch split: option.splits)
next
  case (nearest s n)
  show ?thesis
  proof (cases "nearest_entry s n (fc_entries c)")
    case None
    with nearest assms(2) show ?thesis by (simp add: GetNearest_def)
  next
    case (Some p)
    have "p \<in> set (fc_entries c)" by (rule nearest_entry_member [OF Some])
    then have "map_of (fc_entries c) (fst p) = Some (snd p)"
      using assms(2) cache_ok_distinct [of c] by (simp add: cache_inv_def map_of_eq_Some_iff)
    from cache_inv_Touch [OF assms(2) this] nearest Some show ?thesis by (cases p) (simp add: GetNearest_def)
  qed
next
  case (touch s n)
  with assms(2) show ?thesis by (auto simp: TouchFrame_def cache_inv_Touch)
next
  case (clear s)
  have ok: "cache_ok c" and b: "fc_totalBytes c \<le> fc_byteBudget c" and z: "sizes_known c" using assms(2) by (simp_all add: cache_inv_def)
  note cl = ClearSource_refines [OF ok, of s]
  have sub: "weight (filter P xs) \<le> weight xs" for P and xs :: "'a recency" by (induction xs) auto
  have "fc_totalBytes (ClearSource s c) \<le> fc_totalBytes c"
    using weight_recency [OF cl(1)] weight_recency [OF ok] sub [of "\<lambda>p. fst (fst p) \<noteq> s" "recency c"] by (simp add: cl(2))
  moreover have "set (fc_entries (ClearSource s c)) = {p \<in> set (fc_entries c). fst (fst p) \<noteq> s}"
    using set_recency [OF cl(1)] set_recency [OF ok] by (auto simp: cl(2))
  then have "sizes_known (ClearSource s c)" using z by (auto simp: sizes_known_def cl(4))
  ultimately show ?thesis using clear cl(1,3) b by (simp add: cache_inv_def)
qed (use assms(2) in \<open>simp_all add: RegisterSource_def UnregisterSource_def cache_inv_def cache_ok_def sizes_known_def\<close>)

lemma map_of_recency:
  assumes "cache_ok c"
  shows "map_of (recency c) = map_of (fc_entries c)"
proof
  fix k
  have "map_of (map (\<lambda>k. (k, the (map_of (fc_entries c) k))) (fc_lru c)) k =
      (if k \<in> set (fc_lru c) then Some (the (map_of (fc_entries c) k)) else None)"
    by (simp add: map_of_map_restrict restrict_map_def)
  moreover have "k \<in> set (fc_lru c) \<longleftrightarrow> map_of (fc_entries c) k \<noteq> None"
    using assms by (simp add: cache_ok_def map_of_eq_None_iff)
  ultimately show "map_of (recency c) k = map_of (fc_entries c) k" by (auto simp: recency_def)
qed

lemma ceiling_bound:
  assumes "0 < (d::nat)" and "t = (n + d - 1) div d" and "2 \<le> t"
  shows "(t - 1) * d < n"
proof -
  have "t * d \<le> n + d - 1" unfolding assms(2) by simp
  moreover have "2 * d \<le> t * d" by (rule mult_le_mono1 [OF assms(3)])
  ultimately have "t * d - d < n" using assms(1) by linarith
  then show ?thesis by (simp add: diff_mult_distrib)
qed

lemma window_of_total_split:
  assumes "1 \<le> t"
  shows "pw_ahead (window_of_total t) + pw_behind (window_of_total t) = t - 1"
    and "t \<le> 2 ^ 62 \<Longrightarrow> pw_behind (window_of_total t) \<le> pw_ahead (window_of_total t)"
    and "pw_totalIncludingCurrent (window_of_total t) = t"
  using assms by (auto simp: window_of_total_def size_t_def Let_def min_def)

lemma prefetch_total_pos: "1 \<le> prefetch_total budget bytes n"
  by (simp add: prefetch_total_def Let_def)

lemma prefetch_total_bound:
  assumes "0 < bytes" and "0 < n" and "budget \<le> 2 ^ 62"
  shows "budget = 0 \<or> (prefetch_total budget bytes n - 1) * bytes * n * 100 < budget * 70" and "prefetch_total budget bytes n \<le> 2 ^ 62"
proof -
  let ?q = "(budget * 70 + bytes * 100 * n - 1) div (bytes * 100 * n)"
  have d: "100 \<le> bytes * 100 * n" using assms(1,2) by (cases bytes; cases n) simp_all
  have "budget * 70 + bytes * 100 * n - 1 < (budget + 1) * (bytes * 100 * n)"
  proof -
    have "budget * 100 \<le> budget * (bytes * 100 * n)" using d by (rule mult_le_mono2)
    then have "budget * 70 + bytes * 100 * n \<le> budget * (bytes * 100 * n) + bytes * 100 * n" by linarith
    then show ?thesis using d unfolding add_mult_distrib mult_1 by linarith
  qed
  then have q: "?q \<le> budget" using less_mult_imp_div_less [of _ "budget + 1" "bytes * 100 * n"] by fastforce
  then have p: "prefetch_total budget bytes n = max 1 ?q"
    using assms(3) by (simp add: prefetch_total_def size_t_def Let_def)
  then show "prefetch_total budget bytes n \<le> 2 ^ 62" using q assms(3) by simp
  show "budget = 0 \<or> (prefetch_total budget bytes n - 1) * bytes * n * 100 < budget * 70"
  proof (cases "2 \<le> prefetch_total budget bytes n")
    case True
    then have "prefetch_total budget bytes n = ?q" using p by simp
    from ceiling_bound [OF _ this True] d
    have "(prefetch_total budget bytes n - 1) * (bytes * 100 * n) < budget * 70" by simp
    then show ?thesis by (simp only: mult.assoc mult.commute mult.left_commute simp_thms)
  next
    case False
    then have "prefetch_total budget bytes n - 1 = 0" by linarith
    then show ?thesis by auto
  qed
qed

lemma budget_step: "cache_step retain c c' \<Longrightarrow> cache_inv c \<Longrightarrow> fc_byteBudget c' = fc_byteBudget c"
  by (auto simp: cache_step.simps Put_def GetExact_def GetNearest_def TouchFrame_def RegisterSource_def UnregisterSource_def
      Let_def EvictToBudget_budget ClearSource_refines(3) cache_inv_def split: option.splits)

lemma cache_inv_reachable: "cache_reachable retain budget c \<Longrightarrow> cache_inv c \<and> fc_byteBudget c = budget"
proof (induction rule: cache_reachable.induct)
  case start
  show ?case by (simp add: make_FrameCache_def cache_inv_def cache_ok_def sizes_known_def)
next
  case (step c c')
  then show ?case using cache_inv_step [of retain c c'] budget_step [of retain c c'] by simp
qed

text \<open>
  Property C27: in every state the methods can reach, the recency list names exactly the
  cached frames, once each; the byte total is the sum of the cached frames' sizes and stays
  within the budget; and no cached frame is larger than the size recorded for its source.
\<close>

theorem frame_cache_invariant:
  assumes "cache_reachable retain budget c"
  shows "distinct (fc_lru c) \<and> set (fc_lru c) = fst ` set (fc_entries c) \<and> distinct (map fst (fc_entries c)) \<and>
    fc_totalBytes c = (\<Sum>p\<leftarrow>fc_entries c. ent_bytes (snd p)) \<and> fc_totalBytes c \<le> budget \<and>
    (\<forall>(k, e)\<in>set (fc_entries c). \<exists>n. fc_sourceFrameBytes c (fst k) = Some n \<and> ent_bytes e \<le> n)"
  using cache_inv_reachable [OF assms] cache_ok_distinct [of c] by (auto simp: cache_inv_def cache_ok_def sizes_known_def)

text \<open>
  Property C26: \<open>Put\<close> implements the abstract cache, a list in order of recency.  A frame
  already cached moves to the front and is kept; a new one goes to the front and the list is
  cut to its longest prefix within the budget; the answer says whether the frame is cached
  afterwards.  A lookup that hits moves its frame to the front and changes nothing else.
\<close>

theorem frame_cache_refines_recency_list:
  assumes "cache_reachable retain budget c" and "retain frame = Some r"
  shows "recency (snd (Put retain s n (Some frame) c)) =
      (case map_of (recency c) (s, n) of
         Some old \<Rightarrow> ((s, n), old) # filter (\<lambda>p. fst p \<noteq> (s, n)) (recency c)
       | None \<Rightarrow> fit budget (((s, n), \<lparr>ent_frame = r, ent_bytes = FrameBytes r\<rparr>) # recency c)) \<and>
    (fst (Put retain s n (Some frame) c) \<longleftrightarrow> (s, n) \<in> fst ` set (recency (snd (Put retain s n (Some frame) c)))) \<and>
    recency (snd (GetExact retain s n c)) =
      (case map_of (recency c) (s, n) of
         Some e \<Rightarrow> ((s, n), e) # filter (\<lambda>p. fst p \<noteq> (s, n)) (recency c)
       | None \<Rightarrow> recency c) \<and>
    fst (GetExact retain s n c) = Option.bind (map_of (recency c) (s, n)) (\<lambda>e. retain (ent_frame e))"
proof -
  have inv: "cache_inv c" and b: "fc_byteBudget c = budget" using cache_inv_reachable [OF assms(1)] by simp_all
  then have ok: "cache_ok c" by (simp add: cache_inv_def)
  have f: "Option.bind (Some frame) retain = Some r" using assms(2) by simp
  have m: "map_of (recency x) = map_of (fc_entries x)" if "cache_ok x" for x :: "'a FrameCache"
    using map_of_recency [OF that] .
  note put = Put_cases [OF inv f, where s = s and n = n]
  have "(s, n) \<in> fst ` set (recency (snd (Put retain s n (Some frame) c))) \<longleftrightarrow> Contains s n (snd (Put retain s n (Some frame) c))"
    using put(1) set_recency [of "snd (Put retain s n (Some frame) c)"]
    by (simp add: Contains_def cache_inv_def map_of_eq_None_iff)
  with put(2,3) show ?thesis
    using Touch_refines(2) [OF ok, of "(s, n)"]
    by (auto simp: b m [OF ok] GetExact_def split: option.splits)
qed

text \<open>
  \<open>GetNearest\<close> finds a cached frame of the source at the least distance from the
  frame asked for, over all cached frames of that source, and finds none only when the
  source has none.
\<close>

theorem frame_cache_nearest:
  assumes "cache_reachable retain budget c"
  shows "case fst (GetNearest retain s i c) of
      None \<Rightarrow> \<forall>(k, e)\<in>set (fc_entries c). fst k \<noteq> s
    | Some (frame, found) \<Rightarrow>
        (\<exists>e. ((s, found), e) \<in> set (fc_entries c) \<and> frame = retain (ent_frame e)) \<and>
        (\<forall>(k, e)\<in>set (fc_entries c). fst k = s \<longrightarrow> \<bar>found - i\<bar> \<le> \<bar>snd k - i\<bar>)"
proof -
  have "sorted_wrt (<) (map fst (fc_entries c))"
    using cache_inv_reachable [OF assms] by (simp add: cache_inv_def cache_ok_def)
  from nearest_entry_nearest [OF this, of s i] show ?thesis
    by (cases "nearest_entry s i (fc_entries c)") (auto simp: GetNearest_def split: prod.splits)
qed

text \<open>
  With a budget of at most \<open>2 ^ 62\<close> bytes, where the arithmetic of \<open>size_t\<close> does
  not wrap, a prefetch window splits into the frames ahead, at least as many as behind, and the
  current one; and the frames ahead and behind, taken once for each active source, need less
  than 70 percent of the budget.
\<close>

theorem prefetch_window_within_budget:
  assumes "fc_byteBudget c \<le> 2 ^ 62"
  shows "let w = WindowForSource s c in
    pw_ahead w + pw_behind w + 1 = pw_totalIncludingCurrent w \<and> pw_behind w \<le> pw_ahead w \<and>
    (case fc_sourceFrameBytes c s of
       None \<Rightarrow> pw_totalIncludingCurrent w = 1
     | Some bytes \<Rightarrow> fc_byteBudget c = 0 \<or>
         (pw_ahead w + pw_behind w) * bytes * max 1 (card (fc_activeSources c)) * 100 < fc_byteBudget c * 70)"
proof -
  let ?n = "max 1 (card (fc_activeSources c))"
  obtain t where w: "WindowForSource s c = window_of_total t" and t: "1 \<le> t" "t \<le> 2 ^ 62"
    and bound: "case fc_sourceFrameBytes c s of None \<Rightarrow> t = 1
      | Some bytes \<Rightarrow> fc_byteBudget c = 0 \<or> (t - 1) * bytes * ?n * 100 < fc_byteBudget c * 70"
  proof (cases "fc_sourceFrameBytes c s")
    case None
    then show ?thesis by (intro that [of 1]) (simp_all add: WindowForSource_def)
  next
    case (Some bytes)
    show ?thesis
    proof (cases "bytes = 0")
      case True
      with Some show ?thesis by (intro that [of 1]) (auto simp: WindowForSource_def)
    next
      case False
      then have "0 < bytes" "0 < ?n" by simp_all
      note b = prefetch_total_bound [OF this assms]
      from b Some False show ?thesis
        by (intro that [OF _ prefetch_total_pos [of "fc_byteBudget c" bytes ?n] b(2)]) (simp_all add: WindowForSource_def)
    qed
  qed
  then show ?thesis using window_of_total_split [OF t(1)]
    by (cases "fc_sourceFrameBytes c s") (simp_all add: w Let_def)
qed

section \<open>A cache of a hundred bytes\<close>

definition frame_of :: "nat \<Rightarrow> nat AVFrame" where
  "frame_of n = \<lparr>av_buf = [Some n, None], av_extended_buf = [], av_picture = n\<rparr>"

definition two_frames :: "nat FrameCache" where
  "two_frames = snd (Put Some ''a'' 7 (Some (frame_of 40)) (snd (Put Some ''a'' 3 (Some (frame_of 50)) (make_FrameCache 100))))"

lemma two_frames_reachable: "cache_reachable Some 100 two_frames"
  unfolding two_frames_def by (rule cache_reachable.intros cache_step.intros)+

theorem frame_cache_invariant_witness: "fc_totalBytes two_frames \<le> 100 \<and> distinct (fc_lru two_frames)"
  using frame_cache_invariant [OF two_frames_reachable] by blast

text \<open>A third frame of 20 bytes pushes out the least recently used one.\<close>

theorem frame_cache_refines_recency_list_witness:
  "map fst (recency (snd (Put Some ''b'' 1 (Some (frame_of 20)) two_frames))) = [(''b'', 1), (''a'', 7)]"
proof -
  have "recency two_frames = [((''a'', 7), \<lparr>ent_frame = frame_of 40, ent_bytes = 40\<rparr>), ((''a'', 3), \<lparr>ent_frame = frame_of 50, ent_bytes = 50\<rparr>)]"
    by code_simp
  with frame_cache_refines_recency_list [OF two_frames_reachable, of "frame_of 20" "frame_of 20" "''b''" 1]
  show ?thesis by (simp add: FrameBytes_def frame_of_def)
qed

theorem frame_cache_nearest_witness:
  "case fst (GetNearest Some ''a'' 5 two_frames) of None \<Rightarrow> False | Some (f, n) \<Rightarrow> n \<in> {3, 7}"
proof -
  have es: "fc_entries two_frames = [((''a'', 3), \<lparr>ent_frame = frame_of 50, ent_bytes = 50\<rparr>), ((''a'', 7), \<lparr>ent_frame = frame_of 40, ent_bytes = 40\<rparr>)]"
    by code_simp
  from frame_cache_nearest [OF two_frames_reachable, of "''a''" 5] show ?thesis
    by (cases "fst (GetNearest Some ''a'' 5 two_frames)") (auto simp: es)
qed

theorem prefetch_window_within_budget_witness:
  "(pw_ahead (WindowForSource ''a'' two_frames) + pw_behind (WindowForSource ''a'' two_frames)) * 50 * 1 * 100 < 100 * 70"
proof -
  have "fc_sourceFrameBytes two_frames ''a'' = Some 50" and "fc_activeSources two_frames = {}" and "fc_byteBudget two_frames = 100"
    by code_simp+
  with prefetch_window_within_budget [of two_frames "''a''"]
  show ?thesis by (simp add: Let_def)
qed

end
