(* ===== verification/Keyframe_Track.thy ===== *)
theory Keyframe_Track
  imports Rational_Time Ulid "HOL-Library.Multiset"
begin

text \<open>
  \<open>src/Keyframes.cc\<close>: a track of keyframes in order of time.  Values are C++ doubles, of
  which the code uses \<open>std::isfinite\<close>, the constant \<open>0.0\<close> and the interpolation expression;
  these are the fields of the argument \<open>fp\<close>, so that everything about times is exact and
  nothing is claimed about rounding.  A comparison of times throws on a non-positive rate,
  hence the sum types; \<open>Unlisted\<close> is a value outside the enumeration.
\<close>

section \<open>Keyframes\<close>

datatype KeyframeInterpolation = Hold | Linear | Unlisted int

record 'v Keyframe =
  kf_id :: Ulid
  kf_time :: RationalTime
  kf_value :: 'v
  kf_interpolation :: KeyframeInterpolation

datatype KeyframeError = NoError | InvalidId | InvalidTime | InvalidInterpolation | NonFiniteValue | DuplicateId |
  DuplicateTime | NotFound | EmptyTrack | NumericOverflow

record 'v floating =
  fp_isfinite :: "'v \<Rightarrow> bool"
  fp_zero :: 'v
  fp_interpolate :: "'v \<Rightarrow> 'v \<Rightarrow> rat \<Rightarrow> 'v"

definition KeyframeErrorName :: "KeyframeError \<Rightarrow> string" where
  "KeyframeErrorName e =
     (case e of
        NoError \<Rightarrow> ''none'' | InvalidId \<Rightarrow> ''invalid_id'' | InvalidTime \<Rightarrow> ''invalid_time''
      | InvalidInterpolation \<Rightarrow> ''invalid_interpolation'' | NonFiniteValue \<Rightarrow> ''non_finite_value''
      | DuplicateId \<Rightarrow> ''duplicate_id'' | DuplicateTime \<Rightarrow> ''duplicate_time'' | NotFound \<Rightarrow> ''not_found''
      | EmptyTrack \<Rightarrow> ''empty_track'' | NumericOverflow \<Rightarrow> ''numeric_overflow'')"

type_synonym 'v keyframes = "'v Keyframe list"

definition validate_keyframe :: "'v floating \<Rightarrow> 'v Keyframe \<Rightarrow> KeyframeError" where
  "validate_keyframe fp k =
     (if \<not> IsValidUlid (kf_id k) then InvalidId
      else if rt_rate (kf_time k) \<le> 0 then InvalidTime
      else if kf_interpolation k \<noteq> Hold \<and> kf_interpolation k \<noteq> Linear then InvalidInterpolation
      else if \<not> fp_isfinite fp (kf_value k) then NonFiniteValue
      else NoError)"

section \<open>Edits\<close>

text \<open>The test of \<open>std::lower_bound\<close>: the keyframe lies before the time.\<close>

definition TimeLess :: "RationalTime \<Rightarrow> 'v Keyframe \<Rightarrow> string + bool" where
  "TimeLess t k = rt_lt (kf_time k) t"

definition lower_bound :: "RationalTime \<Rightarrow> 'v keyframes \<Rightarrow> string + nat" where
  "lower_bound t ks = partition_search (TimeLess t) ks 0 (length ks)"

definition Add :: "'v floating \<Rightarrow> 'v Keyframe \<Rightarrow> 'v keyframes \<Rightarrow> string + KeyframeError \<times> 'v keyframes" where
  "Add fp k ks =
     (if validate_keyframe fp k \<noteq> NoError then Inr (validate_keyframe fp k, ks)
      else if list_ex (\<lambda>e. kf_id e = kf_id k) ks then Inr (DuplicateId, ks)
      else
      bindR (lower_bound (kf_time k) ks) (\<lambda>place.
      bindR (if place = length ks then Inr False else rt_eq (kf_time (ks ! place)) (kf_time k)) (\<lambda>taken.
        Inr (if taken then (DuplicateTime, ks) else (NoError, insert_at place k ks)))))"

definition Remove :: "Ulid \<Rightarrow> 'v keyframes \<Rightarrow> KeyframeError \<times> 'v keyframes" where
  "Remove i ks =
     (if list_ex (\<lambda>e. kf_id e = i) ks then (NoError, remove_first (\<lambda>e. kf_id e = i) ks) else (NotFound, ks))"

definition Update ::
  "'v floating \<Rightarrow> Ulid \<Rightarrow> RationalTime \<Rightarrow> 'v \<Rightarrow> KeyframeInterpolation \<Rightarrow> 'v keyframes \<Rightarrow> string + KeyframeError \<times> 'v keyframes" where
  "Update fp i t v ip ks =
     (let replacement = \<lparr>kf_id = i, kf_time = t, kf_value = v, kf_interpolation = ip\<rparr> in
      if \<not> list_ex (\<lambda>e. kf_id e = i) ks then Inr (NotFound, ks)
      else if validate_keyframe fp replacement \<noteq> NoError then Inr (validate_keyframe fp replacement, ks)
      else
      bindR (anyR (\<lambda>e. if kf_id e = i then Inr False else rt_eq (kf_time e) t) ks) (\<lambda>taken.
      if taken then Inr (DuplicateTime, ks)
      else let rest = remove_first (\<lambda>e. kf_id e = i) ks in
        bindR (lower_bound t rest) (\<lambda>place. Inr (NoError, insert_at place replacement rest))))"

section \<open>Evaluation\<close>

definition InterpolationFraction :: "RationalTime \<Rightarrow> RationalTime \<Rightarrow> RationalTime \<Rightarrow> rat" where
  "InterpolationFraction position left right =
     (let fromLeft = rt_value position * rt_rate left - rt_value left * rt_rate position;
          whole = rt_value right * rt_rate left - rt_value left * rt_rate right;
          numerator = fromLeft * rt_rate right; denominator = whole * rt_rate position in
      of_int numerator / of_int denominator)"

definition Evaluate :: "'v floating \<Rightarrow> RationalTime \<Rightarrow> 'v keyframes \<Rightarrow> string + KeyframeError \<times> 'v" where
  "Evaluate fp t ks =
     (if rt_rate t \<le> 0 then Inr (InvalidTime, fp_zero fp)
      else if ks = [] then Inr (EmptyTrack, fp_zero fp)
      else
      bindR (lower_bound t ks) (\<lambda>right.
      if right = 0 then Inr (NoError, kf_value (ks ! 0))
      else if right = length ks then Inr (NoError, kf_value (List.last ks))
      else
      bindR (rt_eq (kf_time (ks ! right)) t) (\<lambda>same.
      if same then Inr (NoError, kf_value (ks ! right))
      else let left = ks ! (right - 1) in
        if kf_interpolation left = Hold then Inr (NoError, kf_value left)
        else let v = fp_interpolate fp (kf_value left) (kf_value (ks ! right))
                       (InterpolationFraction t (kf_time left) (kf_time (ks ! right))) in
          if \<not> fp_isfinite fp v then Inr (NumericOverflow, fp_zero fp) else Inr (NoError, v))))"

section \<open>Tracks in order\<close>

definition kf_q :: "'v Keyframe \<Rightarrow> rat" where
  "kf_q k = rt_q (kf_time k)"

definition track_ok :: "'v floating \<Rightarrow> 'v keyframes \<Rightarrow> bool" where
  "track_ok fp ks \<longleftrightarrow> sorted_wrt (\<lambda>a b. kf_q a < kf_q b) ks \<and> distinct (map kf_id ks) \<and>
     (\<forall>k\<in>set ks. validate_keyframe fp k = NoError)"

lemma valid_rate: "validate_keyframe fp k = NoError \<Longrightarrow> 0 < rt_rate (kf_time k)"
  by (auto simp: validate_keyframe_def split: if_splits)

abbreviation before :: "RationalTime \<Rightarrow> 'v keyframes \<Rightarrow> nat" where
  "before t ks \<equiv> length (takeWhile (\<lambda>k. kf_q k < rt_q t) ks)"

lemma before_iff:
  assumes "sorted_wrt (\<lambda>a b. kf_q a < kf_q b) ks" and "j < length ks"
  shows "kf_q (ks ! j) < rt_q t \<longleftrightarrow> j < before t ks"
proof
  assume q: "kf_q (ks ! j) < rt_q t"
  show "j < before t ks"
  proof (rule ccontr)
    assume n: "\<not> j < before t ks"
    then have b: "before t ks < length ks" using assms(2) by linarith
    then have "\<not> kf_q (ks ! before t ks) < rt_q t" by (rule nth_length_takeWhile)
    moreover have "kf_q (ks ! before t ks) \<le> kf_q (ks ! j)"
      using n assms by (cases "before t ks = j") (auto simp: sorted_wrt_iff_nth_less less_imp_le)
    ultimately show False using q by linarith
  qed
next
  assume k: "j < before t ks"
  then have "takeWhile (\<lambda>k. kf_q k < rt_q t) ks ! j \<in> set (takeWhile (\<lambda>k. kf_q k < rt_q t) ks)" by (rule nth_mem)
  then show "kf_q (ks ! j) < rt_q t" unfolding takeWhile_nth [OF k] by (rule conjunct2 [OF set_takeWhileD])
qed

lemma lower_bound_eq:
  assumes "sorted_wrt (\<lambda>a b. kf_q a < kf_q b) ks" and "\<forall>k\<in>set ks. 0 < rt_rate (kf_time k)" and "0 < rt_rate t"
  shows "lower_bound t ks = Inr (before t ks)"
  unfolding lower_bound_def
proof (rule partition_search_point)
  fix j assume "j < 0 + length ks"
  then have j: "j < length ks" by simp
  have "rt_lt (kf_time (ks ! j)) t = Inr (kf_q (ks ! j) < rt_q t)"
    using assms(2,3) j by (simp add: rt_lt_iff kf_q_def)
  then show "TimeLess t (ks ! j) = Inr (j < before t ks)" by (simp add: TimeLess_def before_iff [OF assms(1) j])
qed (simp_all add: length_takeWhile_le)

lemma insert_at_before:
  assumes "sorted_wrt (\<lambda>a b. kf_q a < kf_q b) ks" and "\<forall>k\<in>set ks. kf_q k \<noteq> rt_q (kf_time x)"
  shows "sorted_wrt (\<lambda>a b. kf_q a < kf_q b) (insert_at (before (kf_time x) ks) x ks)"
proof -
  let ?b = "takeWhile (\<lambda>k. kf_q k < rt_q (kf_time x)) ks" and ?a = "dropWhile (\<lambda>k. kf_q k < rt_q (kf_time x)) ks"
  have i: "insert_at (before (kf_time x) ks) x ks = ?b @ x # ?a"
    by (simp add: insert_at_def takeWhile_eq_take [symmetric] dropWhile_eq_drop [symmetric])
  have ba: "?b @ ?a = ks" by simp
  have l: "\<forall>k\<in>set ?b. kf_q k < kf_q x" by (auto dest: set_takeWhileD simp: kf_q_def)
  have s: "sorted_wrt (\<lambda>a b. kf_q a < kf_q b) (?b @ ?a)" using assms(1) by simp
  have r: "\<forall>k\<in>set ?a. kf_q x < kf_q k"
  proof (cases ?a)
    case (Cons h xs)
    then have "\<not> kf_q h < rt_q (kf_time x)" by (metis dropWhile_eq_Cons_conv)
    moreover have "h \<in> set ks" using Cons by (metis set_dropWhileD list.set_intros(1))
    ultimately have h: "kf_q x < kf_q h" using assms(2) by (force simp: kf_q_def)
    have "\<forall>k\<in>set xs. kf_q h < kf_q k" using s unfolding Cons by (simp add: sorted_wrt_append)
    with h Cons show ?thesis by auto
  next
    case Nil
    show ?thesis unfolding Nil by simp
  qed
  note s [unfolded sorted_wrt_append]
  then show ?thesis unfolding i sorted_wrt_append using l r by auto
qed

lemma track_ok_parts:
  assumes "track_ok fp ks"
  shows "sorted_wrt (\<lambda>a b. kf_q a < kf_q b) ks" and "distinct (map kf_id ks)" and "\<forall>k\<in>set ks. 0 < rt_rate (kf_time k)"
  using assms by (auto simp: track_ok_def intro: valid_rate)

lemma list_ex_id: "list_ex (\<lambda>e. kf_id e = i) ks \<longleftrightarrow> i \<in> kf_id ` set ks"
  by (auto simp: list_ex_iff)

lemma insert_keyframe:
  assumes ok: "track_ok fp ks" and v: "validate_keyframe fp k = NoError" and i: "kf_id k \<notin> kf_id ` set ks"
    and t: "\<forall>e\<in>set ks. kf_q e \<noteq> kf_q k"
  shows "track_ok fp (insert_at (before (kf_time k) ks) k ks)"
proof -
  have "sorted_wrt (\<lambda>a b. kf_q a < kf_q b) (insert_at (before (kf_time k) ks) k ks)"
    using insert_at_before [OF track_ok_parts(1) [OF ok]] t by (simp add: kf_q_def)
  moreover have "distinct (map kf_id (insert_at n k ks))" for n
  proof -
    have "distinct (map kf_id (take n ks @ drop n ks))" using track_ok_parts(2) [OF ok] by simp
    moreover have "kf_id k \<notin> kf_id ` set (take n ks)" "kf_id k \<notin> kf_id ` set (drop n ks)"
      using i by (auto dest: in_set_takeD in_set_dropD)
    ultimately show ?thesis by (auto simp: insert_at_def simp del: append_take_drop_id)
  qed
  ultimately show ?thesis using ok v by (simp add: track_ok_def)
qed

text \<open>At the place \<open>lower_bound\<close> finds, a keyframe with the same time, if there is one, stands.\<close>

lemma taken_iff:
  assumes ok: "track_ok fp ks" and r: "0 < rt_rate t"
  shows "(if before t ks = length ks then Inr False else rt_eq (kf_time (ks ! before t ks)) t) =
    Inr (\<exists>e\<in>set ks. kf_q e = rt_q t)"
proof -
  note s = track_ok_parts(1) [OF ok]
  have eq: "j = before t ks" if "j < length ks" "kf_q (ks ! j) = rt_q t" for j
  proof -
    have "\<not> j < before t ks" using before_iff [OF s that(1), of t] that(2) by simp
    moreover have "\<not> before t ks < j"
    proof
      assume b: "before t ks < j"
      then have "before t ks < length ks" using that(1) by linarith
      then have "\<not> kf_q (ks ! before t ks) < rt_q t" by (rule nth_length_takeWhile)
      moreover have "kf_q (ks ! before t ks) < kf_q (ks ! j)" using s b that(1) by (simp add: sorted_wrt_iff_nth_less)
      ultimately show False using that(2) by simp
    qed
    ultimately show ?thesis by simp
  qed
  show ?thesis
  proof (cases "before t ks = length ks")
    case True
    then show ?thesis using eq by (auto simp: in_set_conv_nth)
  next
    case False
    then have b: "before t ks < length ks" using length_takeWhile_le [of _ ks] by (simp add: le_neq_implies_less)
    then have "0 < rt_rate (kf_time (ks ! before t ks))" using track_ok_parts(3) [OF ok] by simp
    then have "rt_eq (kf_time (ks ! before t ks)) t = Inr (kf_q (ks ! before t ks) = rt_q t)"
      using r by (simp add: rt_eq_iff kf_q_def)
    moreover have "kf_q (ks ! before t ks) = rt_q t \<longleftrightarrow> (\<exists>e\<in>set ks. kf_q e = rt_q t)"
      using eq b by (metis in_set_conv_nth nth_mem)
    ultimately show ?thesis using False by simp
  qed
qed

lemma Add_eq:
  assumes "track_ok fp ks"
  shows "Add fp k ks = Inr
    (if validate_keyframe fp k \<noteq> NoError then (validate_keyframe fp k, ks)
     else if kf_id k \<in> kf_id ` set ks then (DuplicateId, ks)
     else if \<exists>e\<in>set ks. kf_q e = kf_q k then (DuplicateTime, ks)
     else (NoError, insert_at (before (kf_time k) ks) k ks))"
proof (cases "validate_keyframe fp k = NoError \<and> kf_id k \<notin> kf_id ` set ks")
  case True
  note r = valid_rate [OF conjunct1 [OF True]]
  show ?thesis
    using True lower_bound_eq [OF track_ok_parts(1,3) [OF assms] r] taken_iff [OF assms r]
    by (simp add: Add_def kf_q_def list_ex_id cong: if_cong)
next
  case False
  then show ?thesis by (auto simp: Add_def list_ex_id)
qed

lemma remove_keyframe:
  assumes "track_ok fp ks"
  shows "track_ok fp (remove_first (\<lambda>e. kf_id e = i) ks)"
    and "set (remove_first (\<lambda>e. kf_id e = i) ks) = {k \<in> set ks. kf_id k \<noteq> i}"
proof -
  have "remove_first (\<lambda>e. kf_id e = i) ks = filter (\<lambda>e. kf_id e \<noteq> i) ks"
    using track_ok_parts(2) [OF assms]
  proof (induction ks)
    case (Cons k ks)
    then have "\<forall>x\<in>set ks. kf_id x \<noteq> kf_id k" by (metis distinct.simps(2) image_eqI list.set_map list.simps(9))
    then have "filter (\<lambda>e. kf_id e \<noteq> kf_id k) ks = ks" by (rule filter_True)
    with Cons show ?case by auto
  qed simp
  then show "track_ok fp (remove_first (\<lambda>e. kf_id e = i) ks)"
    and "set (remove_first (\<lambda>e. kf_id e = i) ks) = {k \<in> set ks. kf_id k \<noteq> i}"
    using assms by (auto simp: track_ok_def sorted_wrt_filter distinct_map_filter)
qed

lemma anyR_total: "\<forall>x\<in>set xs. p x = Inr (q x) \<Longrightarrow> anyR p xs = Inr (\<exists>x\<in>set xs. q x)"
  by (induction xs) (auto simp: anyR_def)

lemma Update_eq:
  assumes "track_ok fp ks"
  defines "x i t v ip \<equiv> \<lparr>kf_id = i, kf_time = t, kf_value = v, kf_interpolation = ip\<rparr>"
  shows "Update fp i t v ip ks = Inr
    (if i \<notin> kf_id ` set ks then (NotFound, ks)
     else if validate_keyframe fp (x i t v ip) \<noteq> NoError then (validate_keyframe fp (x i t v ip), ks)
     else if \<exists>e\<in>set ks. kf_id e \<noteq> i \<and> kf_q e = rt_q t then (DuplicateTime, ks)
     else (NoError, insert_at (before t (remove_first (\<lambda>e. kf_id e = i) ks)) (x i t v ip) (remove_first (\<lambda>e. kf_id e = i) ks)))"
proof (cases "i \<in> kf_id ` set ks \<and> validate_keyframe fp (x i t v ip) = NoError")
  case True
  have r: "0 < rt_rate t" using valid_rate [of fp "x i t v ip"] True by (simp add: x_def)
  have "anyR (\<lambda>e. if kf_id e = i then Inr False else rt_eq (kf_time e) t) ks =
      Inr (\<exists>e\<in>set ks. kf_id e \<noteq> i \<and> kf_q e = rt_q t)"
    by (rule anyR_total) (use track_ok_parts(3) [OF assms(1)] r in \<open>simp add: rt_eq_iff kf_q_def\<close>)
  then show ?thesis
    using True lower_bound_eq [OF track_ok_parts(1,3) [OF remove_keyframe(1) [OF assms(1), of i]] r]
    by (simp add: Update_def x_def Let_def list_ex_id)
next
  case False
  then show ?thesis by (auto simp: Update_def x_def Let_def list_ex_id)
qed

section \<open>Runs of edits\<close>

inductive keyframe_step :: "'v floating \<Rightarrow> 'v keyframes \<Rightarrow> 'v keyframes \<Rightarrow> bool" for fp where
  add: "Add fp k ks = Inr (e, ks') \<Longrightarrow> keyframe_step fp ks ks'"
| remove: "Remove i ks = (e, ks') \<Longrightarrow> keyframe_step fp ks ks'"
| update: "Update fp i t v ip ks = Inr (e, ks') \<Longrightarrow> keyframe_step fp ks ks'"

inductive edited_track :: "'v floating \<Rightarrow> 'v keyframes \<Rightarrow> bool" for fp where
  empty: "edited_track fp []"
| step: "edited_track fp ks \<Longrightarrow> keyframe_step fp ks ks' \<Longrightarrow> edited_track fp ks'"

lemma track_ok_step: "keyframe_step fp ks ks' \<Longrightarrow> track_ok fp ks \<Longrightarrow> track_ok fp ks'"
proof (induction rule: keyframe_step.induct)
  case (add k ks e ks')
  then show ?case
    using insert_keyframe [OF add(2), of k] by (auto simp: Add_eq [OF add(2)] split: if_splits)
next
  case (remove i ks e ks')
  then show ?case using remove_keyframe(1) [OF remove(2), of i] by (auto simp: Remove_def split: if_splits)
next
  case (update i t v ip ks e ks')
  let ?x = "\<lparr>kf_id = i, kf_time = t, kf_value = v, kf_interpolation = ip\<rparr>"
  note r = remove_keyframe [OF update(2), of i]
  have "track_ok fp (insert_at (before t (remove_first (\<lambda>e. kf_id e = i) ks)) ?x (remove_first (\<lambda>e. kf_id e = i) ks))"
    if "validate_keyframe fp ?x = NoError" "\<not> (\<exists>e\<in>set ks. kf_id e \<noteq> i \<and> kf_q e = rt_q t)"
    using insert_keyframe [OF r(1) that(1)] that(2) by (auto simp: r(2) kf_q_def)
  then show ?case using update by (auto simp: Update_eq [OF update(2)] split: if_splits)
qed

lemma edited_track_ok: "edited_track fp ks \<Longrightarrow> track_ok fp ks"
proof (induction rule: edited_track.induct)
  case empty
  show ?case by (simp add: track_ok_def)
next
  case (step ks ks')
  then show ?case by (auto intro: track_ok_step)
qed

text \<open>Every edit returns one of three errors with the old track, or the new one.\<close>

lemma result_shape:
  assumes "P ys" and "e2 \<noteq> NoError" and "e3 \<noteq> NoError"
  shows "\<exists>e ks'. (Inr (if c1 \<noteq> NoError then (c1, ks) else if c2 then (e2, ks) else if c3 then (e3, ks) else (NoError, ys)) =
        (Inr (e, ks') :: string + KeyframeError \<times> 'v keyframes)) \<and> (if e = NoError then P ks' else ks' = ks)"
  using assms by (cases "c1 = NoError"; cases c2; cases c3) simp_all

lemma result_shape_not_found:
  assumes "P ys" and "e1 \<noteq> NoError" and "e3 \<noteq> NoError"
  shows "\<exists>e ks'. (Inr (if c1 then (e1, ks) else if c2 \<noteq> NoError then (c2, ks) else if c3 then (e3, ks) else (NoError, ys)) =
        (Inr (e, ks') :: string + KeyframeError \<times> 'v keyframes)) \<and> (if e = NoError then P ks' else ks' = ks)"
  using assms by (cases c1; cases "c2 = NoError"; cases c3) simp_all

lemma cancelled_fraction:
  fixes a b t l r :: rat
  assumes "t \<noteq> 0" and "l \<noteq> 0" and "r \<noteq> 0"
  shows "(a / (t * l)) / (b / (r * l)) = (a * r) / (b * t)"
  using assms by (cases "b = 0") (simp_all add: field_simps)

lemma rt_q_difference:
  assumes "0 < rt_rate a" and "0 < rt_rate b"
  shows "rt_q a - rt_q b = of_int (rt_value a * rt_rate b - rt_value b * rt_rate a) / (of_int (rt_rate a) * of_int (rt_rate b))"
  using assms by (simp add: rt_q_def diff_frac_eq)

lemma InterpolationFraction_exact:
  assumes "0 < rt_rate t" and "0 < rt_rate l" and "0 < rt_rate r"
  shows "InterpolationFraction t l r = (rt_q t - rt_q l) / (rt_q r - rt_q l)"
proof -
  have nz: "of_int (rt_rate t) \<noteq> (0::rat)" "of_int (rt_rate l) \<noteq> (0::rat)" "of_int (rt_rate r) \<noteq> (0::rat)"
    using assms by simp_all
  show ?thesis
    unfolding rt_q_difference [OF assms(1,2)] rt_q_difference [OF assms(3,2)] cancelled_fraction [OF nz]
    by (simp add: InterpolationFraction_def Let_def)
qed

text \<open>
  Property C32: whatever is added, removed and updated, a track holds valid keyframes in strict
  order of time with distinct identifiers; a rejected edit leaves the track as it was; an
  accepted one adds, removes or replaces exactly the keyframe it names.
\<close>

theorem keyframe_track_edits:
  assumes "edited_track fp ks"
  shows "(sorted_wrt (\<lambda>a b. rt_q (kf_time a) < rt_q (kf_time b)) ks \<and> distinct (map kf_id ks) \<and>
      (\<forall>k\<in>set ks. validate_keyframe fp k = NoError)) \<and>
    (\<exists>e ks'. Add fp k ks = Inr (e, ks') \<and> (if e = NoError then set ks' = insert k (set ks) else ks' = ks)) \<and>
    (\<exists>e ks'. Remove (kf_id k) ks = (e, ks') \<and>
      (if e = NoError then set ks' = {x \<in> set ks. kf_id x \<noteq> kf_id k} else ks' = ks)) \<and>
    (\<exists>e ks'. Update fp (kf_id k) (kf_time k) (kf_value k) (kf_interpolation k) ks = Inr (e, ks') \<and>
      (if e = NoError then set ks' = insert k {x \<in> set ks. kf_id x \<noteq> kf_id k} else ks' = ks))"
proof -
  note ok = edited_track_ok [OF assms]
  have k: "\<lparr>kf_id = kf_id k, kf_time = kf_time k, kf_value = kf_value k, kf_interpolation = kf_interpolation k\<rparr> = k" by simp
  have "\<exists>e ks'. Add fp k ks = Inr (e, ks') \<and> (if e = NoError then set ks' = insert k (set ks) else ks' = ks)"
    unfolding Add_eq [OF ok] by (rule result_shape) simp_all
  moreover have "\<exists>e ks'. Remove (kf_id k) ks = (e, ks') \<and>
      (if e = NoError then set ks' = {x \<in> set ks. kf_id x \<noteq> kf_id k} else ks' = ks)"
    by (simp add: Remove_def remove_keyframe(2) [OF ok])
  moreover have "\<exists>e ks'. Update fp (kf_id k) (kf_time k) (kf_value k) (kf_interpolation k) ks = Inr (e, ks') \<and>
      (if e = NoError then set ks' = insert k {x \<in> set ks. kf_id x \<noteq> kf_id k} else ks' = ks)"
    unfolding Update_eq [OF ok] k by (rule result_shape_not_found) (simp_all add: remove_keyframe(2) [OF ok])
  ultimately show ?thesis using ok by (simp add: track_ok_def kf_q_def)
qed

text \<open>
  Property C33: evaluation depends on the exact order of times.  Before the first keyframe and
  after the last it is the end value, on a keyframe its value, after a \<open>Hold\<close> keyframe
  that keyframe's value, and otherwise the interpolation of the two neighbours at the exact
  fraction of the way, strictly between 0 and 1.
\<close>

theorem keyframe_evaluation:
  assumes "edited_track fp ks" and "ks \<noteq> []" and "0 < rt_rate t"
  shows "(\<forall>k\<in>set ks. rt_q t < rt_q (kf_time k)) \<and> Evaluate fp t ks = Inr (NoError, kf_value (hd ks)) \<or>
    (\<forall>k\<in>set ks. rt_q (kf_time k) < rt_q t) \<and> Evaluate fp t ks = Inr (NoError, kf_value (List.last ks)) \<or>
    (\<exists>k\<in>set ks. rt_q (kf_time k) = rt_q t \<and> Evaluate fp t ks = Inr (NoError, kf_value k)) \<or>
    (\<exists>l\<in>set ks. \<exists>r\<in>set ks. rt_q (kf_time l) < rt_q t \<and> rt_q t < rt_q (kf_time r) \<and>
      (\<forall>k\<in>set ks. rt_q (kf_time k) \<le> rt_q (kf_time l) \<or> rt_q (kf_time r) \<le> rt_q (kf_time k)) \<and>
      (\<exists>f. f = (rt_q t - rt_q (kf_time l)) / (rt_q (kf_time r) - rt_q (kf_time l)) \<and> 0 < f \<and> f < 1 \<and>
        Evaluate fp t ks = Inr
          (if kf_interpolation l = Hold then (NoError, kf_value l)
           else if fp_isfinite fp (fp_interpolate fp (kf_value l) (kf_value r) f)
           then (NoError, fp_interpolate fp (kf_value l) (kf_value r) f) else (NumericOverflow, fp_zero fp))))"
proof -
  note ok = edited_track_ok [OF assms(1)]
  note s = track_ok_parts(1) [OF ok] and rates = track_ok_parts(3) [OF ok]
  let ?n = "before t ks"
  have lb: "lower_bound t ks = Inr ?n" by (rule lower_bound_eq [OF s rates assms(3)])
  have le: "?n \<le> length ks" by (rule length_takeWhile_le)
  note lt = before_iff [OF s, of _ t]
  have right: "rt_q t \<le> kf_q (ks ! j)" if "?n \<le> j" "j < length ks" for j using lt [of j] that by simp
  consider (all_before) "?n = length ks"
    | (first) "?n = 0" "rt_q t < kf_q (ks ! 0)" | (on) "?n < length ks" "kf_q (ks ! ?n) = rt_q t"
    | (between) "0 < ?n" "?n < length ks" "rt_q t < kf_q (ks ! ?n)"
    using le right [of ?n] assms(2) by fastforce
  then show ?thesis
  proof cases
    case all_before
    then have "Evaluate fp t ks = Inr (NoError, kf_value (List.last ks))"
      using assms(2,3) lb by (simp add: Evaluate_def)
    moreover have "\<forall>k\<in>set ks. rt_q (kf_time k) < rt_q t"
      using all_before lt by (auto simp: in_set_conv_nth kf_q_def)
    ultimately show ?thesis by blast
  next
    case first
    then have "Evaluate fp t ks = Inr (NoError, kf_value (hd ks))"
      using assms(2,3) lb by (simp add: Evaluate_def hd_conv_nth)
    moreover have "rt_q t < kf_q k" if "k \<in> set ks" for k
    proof -
      from that obtain j where j: "j < length ks" "k = ks ! j" by (auto simp: in_set_conv_nth)
      have "kf_q (ks ! 0) \<le> kf_q (ks ! j)" using s j(1) by (cases j) (auto simp: sorted_wrt_iff_nth_less less_imp_le)
      with first(2) j(2) show ?thesis by simp
    qed
    ultimately show ?thesis by (simp add: kf_q_def)
  next
    case on
    have "rt_eq (kf_time (ks ! ?n)) t = Inr True" using on rates assms(3) by (simp add: rt_eq_iff kf_q_def)
    then have "Evaluate fp t ks = Inr (NoError, kf_value (ks ! ?n))"
      using on(1) assms(2,3) lb by (cases "?n = 0") (simp_all add: Evaluate_def)
    with on show ?thesis by (metis kf_q_def nth_mem)
  next
    case between
    let ?l = "ks ! (?n - 1)" and ?r = "ks ! ?n"
    have mem: "?l \<in> set ks" "?r \<in> set ks" using between by simp_all
    have l: "kf_q ?l < rt_q t" using lt [of "?n - 1"] between by simp
    let ?f = "(rt_q t - kf_q ?l) / (kf_q ?r - kf_q ?l)"
    have f: "InterpolationFraction t (kf_time ?l) (kf_time ?r) = ?f"
      using InterpolationFraction_exact [OF assms(3)] rates mem by (simp add: kf_q_def)
    have "rt_eq (kf_time ?r) t = Inr False" using between rates assms(3) by (simp add: rt_eq_iff kf_q_def)
    then have ev: "Evaluate fp t ks = Inr
          (if kf_interpolation ?l = Hold then (NoError, kf_value ?l)
           else if fp_isfinite fp (fp_interpolate fp (kf_value ?l) (kf_value ?r) ?f)
           then (NoError, fp_interpolate fp (kf_value ?l) (kf_value ?r) ?f) else (NumericOverflow, fp_zero fp))"
      using between assms(2,3) lb f by (simp add: Evaluate_def Let_def)
    have neighbours: "kf_q k \<le> kf_q ?l \<or> kf_q ?r \<le> kf_q k" if "k \<in> set ks" for k
    proof -
      from that obtain j where j: "j < length ks" "k = ks ! j" by (auto simp: in_set_conv_nth)
      have "kf_q (ks ! a) \<le> kf_q (ks ! b)" if "a \<le> b" "b < length ks" for a b
        using s that by (cases "a = b") (auto simp: sorted_wrt_iff_nth_less less_imp_le)
      from this [of j "?n - 1"] this [of ?n j] show ?thesis using j between by (cases "j \<le> ?n - 1") auto
    qed
    have "0 < ?f" and "?f < 1" using l between(3) by simp_all
    then show ?thesis using ev mem l between(3) neighbours unfolding kf_q_def by blast
  qed
qed

section \<open>A track of two keyframes\<close>

definition rationals :: "rat floating" where
  "rationals = \<lparr>fp_isfinite = (\<lambda>_. True), fp_zero = 0, fp_interpolate = (\<lambda>a b f. a + (b - a) * f)\<rparr>"

definition ramp :: "rat keyframes" where
  "ramp = [\<lparr>kf_id = ''01ARZ3NDEKTSV4RRFFQ69G5FA1'', kf_time = RT 1 2, kf_value = 0, kf_interpolation = Linear\<rparr>,
           \<lparr>kf_id = ''01ARZ3NDEKTSV4RRFFQ69G5FA2'', kf_time = RT 2 1, kf_value = 3, kf_interpolation = Hold\<rparr>]"

lemma ramp_edited: "edited_track rationals ramp"
proof -
  have "Add rationals (ramp ! 1) [] = Inr (NoError, [ramp ! 1])" and "Add rationals (ramp ! 0) [ramp ! 1] = Inr (NoError, ramp)"
    by code_simp+
  then show ?thesis using edited_track.intros keyframe_step.add by metis
qed

theorem keyframe_track_edits_witness:
  "distinct (map kf_id ramp) \<and> (\<exists>ks. Remove (kf_id (ramp ! 0)) ramp = (NoError, ks) \<and> set ks = {ramp ! 1})"
proof -
  have "fst (Remove (kf_id (ramp ! 0)) ramp) = NoError" by code_simp
  moreover have "{x \<in> set ramp. kf_id x \<noteq> kf_id (ramp ! 0)} = {ramp ! 1}" by (auto simp: ramp_def)
  ultimately show ?thesis using keyframe_track_edits [OF ramp_edited, of "ramp ! 0"] by auto
qed

theorem keyframe_evaluation_witness: "Evaluate rationals (RT 1 1) ramp = Inr (NoError, 1)"
  using keyframe_evaluation [OF ramp_edited, of "RT 1 1"]
  by (auto simp: ramp_def rt_q_def rationals_def)

end
