(* ===== verification/Decimal_Text.thy ===== *)
theory Decimal_Text
  imports Prelude
begin

text \<open>
  Decimal numerals: the digits \<open>std::to_string\<close> writes, the value \<open>strtoll\<close> and
  \<open>from_chars\<close> read, and that reading undoes writing; and the comma-separated items
  of every printed list.
\<close>

definition is_digit :: "char \<Rightarrow> bool" where
  "is_digit c \<longleftrightarrow> 48 \<le> (of_char c :: nat) \<and> (of_char c :: nat) \<le> 57"

definition digit_value :: "char \<Rightarrow> nat" where
  "digit_value c = of_char c - 48"

definition digits_value :: "string \<Rightarrow> nat" where
  "digits_value cs = foldl (\<lambda>v c. v * 10 + digit_value c) 0 cs"

lemma digit_char [simp]:
  assumes "d < 10"
  shows "is_digit (digit_char d)" and "digit_value (digit_char d) = d"
  using assms by (simp_all add: digit_char_def is_digit_def digit_value_def)

lemma zero_char: "char_of (48::nat) = CHR ''0''"
  by code_simp

lemma digits_value_snoc [simp]: "digits_value (cs @ [c]) = digits_value cs * 10 + digit_value c"
  by (simp add: digits_value_def)

lemma digits_of_nat: "list_all is_digit (nat_to_string n)" "nat_to_string n \<noteq> []" "digits_value (nat_to_string n) = n"
proof (induction n rule: nat_to_string.induct)
  case (1 n)
  { case 1 show ?case using "1.IH"(1) by (subst nat_to_string.simps) auto }
  { case 2 show ?case by (subst nat_to_string.simps) auto }
  { case 3 show ?case using "1.IH"(3) by (subst nat_to_string.simps) (auto simp: digits_value_def [of "[_]"]) }
qed

lemma no_leading_zero: "hd (nat_to_string n) = CHR ''0'' \<longleftrightarrow> n = 0"
proof (induction n rule: nat_to_string.induct)
  case (1 n)
  show ?case
  proof (cases "n < 10")
    case True
    then have "digit_char n = CHR ''0'' \<longleftrightarrow> n = 0" by (cases "n = 0") (auto simp: digit_char_def zero_char dest: arg_cong [of _ _ "of_char :: char \<Rightarrow> nat"])
    with True show ?thesis by (subst nat_to_string.simps) simp
  next
    case False
    then show ?thesis using 1 digits_of_nat(2) [of "n div 10"] by (subst nat_to_string.simps) auto
  qed
qed

lemma single_zero: "nat_to_string 0 = ''0''"
  by (subst nat_to_string.simps) (simp add: digit_char_def zero_char)

text \<open>The items of an array or object, separated by commas.\<close>

fun join_comma :: "string list \<Rightarrow> string" where
  "join_comma [] = []"
| "join_comma [x] = x"
| "join_comma (x # y # xs) = x @ CHR '','' # join_comma (y # xs)"

lemma join_comma_Cons: "xs \<noteq> [] \<Longrightarrow> join_comma (x # xs) = x @ CHR '','' # join_comma xs"
  by (cases xs) simp_all

end
