(* ===== verification/Json.thy ===== *)
theory Json
  imports Decimal_Text
begin

text \<open>
  \<open>src/Json.cc\<close>: the value tree, its printer and the recursive-descent parser.  A parser
  takes the text from the position on and returns the value with the text after it, or what it
  misses with the text where it stopped: \<open>position_\<close> is the length of the text before, which
  \<open>Parse\<close> puts into the message.  Characters are the bytes of the C++ string.  A number keeps its
  literal.  The depth of the recursion, which the C++ stack bounds, is not modelled.
\<close>

section \<open>Values\<close>

datatype Value = JNull | JBool bool | JNumber string | JString string | JArray "Value list" | JObject "(string \<times> Value) list"

definition MakeInt :: "int \<Rightarrow> Value" where
  "MakeInt n = JNumber (to_string n)"

definition MakeRawNumber :: "string \<Rightarrow> Value" where
  "MakeRawNumber text = JNumber text"

definition json_Find :: "string \<Rightarrow> Value \<Rightarrow> Value option" where
  "json_Find key v = (case v of JObject entries \<Rightarrow> map_option snd (find (\<lambda>e. fst e = key) entries) | _ \<Rightarrow> None)"

fun set_entry :: "string \<Rightarrow> Value \<Rightarrow> (string \<times> Value) list \<Rightarrow> (string \<times> Value) list" where
  "set_entry key v [] = [(key, v)]"
| "set_entry key v (e # es) = (if fst e = key then (key, v) # es else e # set_entry key v es)"

definition json_Set :: "string \<Rightarrow> Value \<Rightarrow> Value \<Rightarrow> Value" where
  "json_Set key v target = JObject (set_entry key v (case target of JObject entries \<Rightarrow> entries | _ \<Rightarrow> []))"

definition json_Push :: "Value \<Rightarrow> Value \<Rightarrow> Value" where
  "json_Push v target = JArray ((case target of JArray items \<Rightarrow> items | _ \<Rightarrow> []) @ [v])"

definition AsInt64 :: "Value \<Rightarrow> int option" where
  "AsInt64 v =
     (case v of
        JNumber text \<Rightarrow>
          if text = [] then None
          else let negative = hd text = CHR ''-''; digits = (if negative then tl text else text) in
            if \<not> list_all is_digit digits then None
            else if text = ''-'' then None
            else let parsed = (if negative then - int (digits_value digits) else int (digits_value digits)) in
              if parsed < int64_min \<or> int64_max < parsed then None else Some parsed
      | _ \<Rightarrow> None)"

section \<open>Printing\<close>

definition kHexDigits :: string where
  "kHexDigits = ''0123456789abcdef''"

definition escape_char :: "char \<Rightarrow> string" where
  "escape_char c =
     (if c = CHR 0x22 then [CHR 0x5C, CHR 0x22]
      else if c = CHR 0x5C then [CHR 0x5C, CHR 0x5C]
      else if c = CHR 0x08 then [CHR 0x5C, CHR ''b'']
      else if c = CHR 0x0C then [CHR 0x5C, CHR ''f'']
      else if c = CHR 0x0A then [CHR 0x5C, CHR ''n'']
      else if c = CHR 0x0D then [CHR 0x5C, CHR ''r'']
      else if c = CHR 0x09 then [CHR 0x5C, CHR ''t'']
      else if (of_char c :: nat) < 0x20
      then CHR 0x5C # ''u00'' @ [kHexDigits ! (of_char c div 16), kHexDigits ! (of_char c mod 16)]
      else [c])"

definition EscapeJsonString :: "string \<Rightarrow> string" where
  "EscapeJsonString input = concat (map escape_char input)"

fun Dump :: "Value \<Rightarrow> string" where
  "Dump JNull = ''null''"
| "Dump (JBool b) = (if b then ''true'' else ''false'')"
| "Dump (JNumber text) = (if text = [] then ''0'' else text)"
| "Dump (JString s) = CHR 0x22 # EscapeJsonString s @ [CHR 0x22]"
| "Dump (JArray items) = CHR ''['' # join_comma (map Dump items) @ '']''"
| "Dump (JObject entries) =
     CHR ''{'' # join_comma (map (\<lambda>e. CHR 0x22 # EscapeJsonString (fst e) @ CHR 0x22 # CHR '':'' # Dump (snd e)) entries) @ ''}''"

section \<open>Parsing the parts\<close>

type_synonym 'a parse = "(string \<times> string) + ('a \<times> string)"

definition Fail :: "string \<Rightarrow> string \<Rightarrow> 'a parse" where
  "Fail what rest = Inl (what, rest)"

definition is_space :: "char \<Rightarrow> bool" where
  "is_space c \<longleftrightarrow> c = CHR '' '' \<or> c = CHR 0x09 \<or> c = CHR 0x0A \<or> c = CHR 0x0D"

definition SkipWhitespace :: "string \<Rightarrow> string" where
  "SkipWhitespace cs = dropWhile is_space cs"

text \<open>\<open>Peek\<close> behind its \<open>AtEnd\<close> test: the text goes on with a character.\<close>

definition at_char :: "char \<Rightarrow> string \<Rightarrow> bool" where
  "at_char c cs \<longleftrightarrow> cs \<noteq> [] \<and> hd cs = c"

definition hex_digit :: "char \<Rightarrow> nat option" where
  "hex_digit c =
     (let n = of_char c in
      if 48 \<le> n \<and> n \<le> 57 then Some (n - 48)
      else if 97 \<le> n \<and> n \<le> 102 then Some (n - 97 + 10)
      else if 65 \<le> n \<and> n \<le> 70 then Some (n - 65 + 10)
      else None)"

fun hex_digits :: "nat \<Rightarrow> nat \<Rightarrow> string \<Rightarrow> nat parse" where
  "hex_digits 0 v cs = Inr (v, cs)"
| "hex_digits (Suc n) v [] = Fail ''invalid hex digit in unicode escape'' []"
| "hex_digits (Suc n) v (c # cs) =
     (case hex_digit c of
        None \<Rightarrow> Fail ''invalid hex digit in unicode escape'' cs
      | Some d \<Rightarrow> hex_digits n (or (push_bit 4 v) d) cs)"

definition ParseHex4 :: "string \<Rightarrow> nat parse" where
  "ParseHex4 cs = (if length cs < 4 then Fail ''truncated unicode escape'' cs else hex_digits 4 0 cs)"

definition AppendUtf8 :: "nat \<Rightarrow> string" where
  "AppendUtf8 codepoint =
     (let tail = (\<lambda>shift. char_of (or 0x80 (and (drop_bit shift codepoint) 0x3F))) in
      if codepoint \<le> 0x7F then [char_of codepoint]
      else if codepoint \<le> 0x7FF then [char_of (or 0xC0 (drop_bit 6 codepoint)), tail 0]
      else if codepoint \<le> 0xFFFF then [char_of (or 0xE0 (drop_bit 12 codepoint)), tail 6, tail 0]
      else [char_of (or 0xF0 (drop_bit 18 codepoint)), tail 12, tail 6, tail 0])"

definition unicode_escape :: "string \<Rightarrow> string parse" where
  "unicode_escape cs =
     bindR (ParseHex4 cs) (\<lambda>(codepoint, rest).
     if 0xD800 \<le> codepoint \<and> codepoint \<le> 0xDBFF
     then if length rest < 2 \<or> rest ! 0 \<noteq> CHR 0x5C \<or> rest ! 1 \<noteq> CHR ''u''
          then Fail ''unpaired surrogate escape'' rest
          else bindR (ParseHex4 (drop 2 rest)) (\<lambda>(low, rest').
            if low < 0xDC00 \<or> 0xDFFF < low then Fail ''invalid low surrogate'' rest'
            else Inr (AppendUtf8 (0x10000 + push_bit 10 (codepoint - 0xD800) + (low - 0xDC00)), rest'))
     else Inr (AppendUtf8 codepoint, rest))"

definition simple_escape :: "char \<Rightarrow> char option" where
  "simple_escape c =
     (if c = CHR 0x22 then Some (CHR 0x22)
      else if c = CHR 0x5C then Some (CHR 0x5C)
      else if c = CHR ''/'' then Some (CHR ''/'')
      else if c = CHR ''b'' then Some (CHR 0x08)
      else if c = CHR ''f'' then Some (CHR 0x0C)
      else if c = CHR ''n'' then Some (CHR 0x0A)
      else if c = CHR ''r'' then Some (CHR 0x0D)
      else if c = CHR ''t'' then Some (CHR 0x09)
      else None)"

definition escaped :: "string \<Rightarrow> string parse" where
  "escaped cs =
     (case cs of
        [] \<Rightarrow> Fail ''unterminated escape'' []
      | c # rest \<Rightarrow>
          case simple_escape c of
            Some x \<Rightarrow> Inr ([x], rest)
          | None \<Rightarrow> if c = CHR ''u'' then unicode_escape rest else Fail ''invalid escape sequence'' rest)"

lemma hex_digits_shrink: "hex_digits n v cs = Inr (w, rest) \<Longrightarrow> length rest \<le> length cs"
  by (induction n v cs rule: hex_digits.induct) (auto simp: Fail_def split: option.splits)

lemma ParseHex4_shrink: "ParseHex4 cs = Inr (v, rest) \<Longrightarrow> length rest \<le> length cs"
  by (auto simp: ParseHex4_def Fail_def split: if_splits dest: hex_digits_shrink)

lemma escaped_shrink: "escaped cs = Inr (s, rest) \<Longrightarrow> length rest < length cs"
proof (cases cs)
  case (Cons c r)
  have "unicode_escape r = Inr (s, rest) \<Longrightarrow> length rest \<le> length r"
    by (auto simp: unicode_escape_def Fail_def split: if_splits dest!: ParseHex4_shrink)
  then show "escaped cs = Inr (s, rest) \<Longrightarrow> length rest < length cs"
    using Cons by (auto simp: escaped_def Fail_def split: option.splits if_splits)
qed (simp add: escaped_def Fail_def)

text \<open>The loop of \<open>ParseString\<close>, from after the opening quote.\<close>

function string_loop :: "string \<Rightarrow> string \<Rightarrow> string parse" where
  "string_loop acc cs =
     (if cs = [] then Fail ''unterminated string'' []
      else let c = hd cs in
      if c = CHR 0x22 then Inr (acc, tl cs)
      else if c = CHR 0x5C then bindR (escaped (tl cs)) (\<lambda>(s, rest). string_loop (acc @ s) rest)
      else if (of_char c :: nat) < 0x20 then Fail ''control character in string'' (tl cs)
      else string_loop (acc @ [c]) (tl cs))"
  by pat_completeness auto
termination
proof (relation "measure (length \<circ> snd)")
  fix acc cs :: string and c p s rest
  assume "cs \<noteq> []" and "escaped (tl cs) = Inr p" and "(s, rest) = p"
  then show "((acc @ s, rest), acc, cs) \<in> measure (length \<circ> snd)"
    using escaped_shrink [of "tl cs" s rest] by (cases cs) auto
qed auto

declare string_loop.simps [simp del]

definition ParseString :: "string \<Rightarrow> string parse" where
  "ParseString cs = string_loop [] (tl cs)"

definition ParseBool :: "string \<Rightarrow> Value parse" where
  "ParseBool cs =
     (if take 4 cs = ''true'' then Inr (JBool True, drop 4 cs)
      else if take 5 cs = ''false'' then Inr (JBool False, drop 5 cs)
      else Fail ''invalid literal'' cs)"

definition ParseNull :: "string \<Rightarrow> Value parse" where
  "ParseNull cs = (if take 4 cs = ''null'' then Inr (JNull, drop 4 cs) else Fail ''invalid literal'' cs)"

subsection \<open>Numbers\<close>

definition kMaxDecimalExponent :: nat where
  "kMaxDecimalExponent = 300"

definition at_digit :: "string \<Rightarrow> bool" where
  "at_digit cs \<longleftrightarrow> cs \<noteq> [] \<and> is_digit (hd cs)"

definition number_sign :: "string \<Rightarrow> string" where
  "number_sign cs = (if at_char (CHR ''-'') cs then tl cs else cs)"

definition whole_part :: "string \<Rightarrow> (string \<times> string) + string" where
  "whole_part cs =
     (if \<not> at_digit cs then Inl (''invalid number'', cs)
      else Inr (if hd cs = CHR ''0'' then tl cs else dropWhile is_digit cs))"

definition fractional_part :: "string \<Rightarrow> (string \<times> string) + string" where
  "fractional_part cs =
     (if at_char (CHR ''.'') cs
      then if \<not> at_digit (tl cs) then Inl (''invalid fractional part'', tl cs) else Inr (dropWhile is_digit (tl cs))
      else Inr cs)"

definition exponent_sign :: "string \<Rightarrow> string" where
  "exponent_sign cs = (if at_char (CHR ''+'') cs \<or> at_char (CHR ''-'') cs then tl cs else cs)"

definition exponent_part :: "string \<Rightarrow> (string \<times> string) + string" where
  "exponent_part cs =
     (if at_char (CHR ''e'') cs \<or> at_char (CHR ''E'') cs
      then let digits = exponent_sign (tl cs) in
        if \<not> at_digit digits then Inl (''invalid exponent'', digits)
        else if kMaxDecimalExponent < digits_value (takeWhile is_digit digits)
        then Inl (''number exponent is too large to be a finite value'', dropWhile is_digit digits)
        else Inr (dropWhile is_digit digits)
      else Inr cs)"

definition ParseNumber :: "string \<Rightarrow> Value parse" where
  "ParseNumber cs =
     bindR (whole_part (number_sign cs)) (\<lambda>a.
     bindR (fractional_part a) (\<lambda>b.
     bindR (exponent_part b) (\<lambda>rest.
       Inr (MakeRawNumber (take (length cs - length rest) cs), rest))))"

section \<open>Parsing values\<close>

text \<open>
  \<open>ParseMembers\<close> and \<open>ParseElements\<close> are the loops of \<open>ParseObject\<close> and \<open>ParseArray\<close> with the
  entries so far; the brace or bracket is consumed by the call.  Each recursion is on the text a previous parser left, so termination needs
  that the parsers consume what they accept; it is shown on their domain first.
\<close>

function (domintros) ParseValue :: "string \<Rightarrow> Value parse" and ParseObject :: "string \<Rightarrow> Value parse"
  and ParseMembers :: "(string \<times> Value) list \<Rightarrow> string \<Rightarrow> Value parse"
  and ParseArray :: "string \<Rightarrow> Value parse" and ParseElements :: "Value list \<Rightarrow> string \<Rightarrow> Value parse" where
  "ParseValue text =
     (let cs = SkipWhitespace text in
      if cs = [] then Fail ''unexpected end of JSON'' []
      else if hd cs = CHR ''{'' then ParseObject (tl cs)
      else if hd cs = CHR ''['' then ParseArray (tl cs)
      else if hd cs = CHR 0x22 then bindR (ParseString cs) (\<lambda>(s, rest). Inr (JString s, rest))
      else if hd cs = CHR ''t'' \<or> hd cs = CHR ''f'' then ParseBool cs
      else if hd cs = CHR ''n'' then ParseNull cs
      else if hd cs = CHR ''-'' \<or> is_digit (hd cs) then ParseNumber cs
      else Fail ''unexpected character'' cs)"
| "ParseObject text =
     (let rest = SkipWhitespace text in
      if at_char (CHR ''}'') rest then Inr (JObject [], tl rest) else ParseMembers [] rest)"
| "ParseMembers entries text =
     (let cs = SkipWhitespace text in
      if \<not> at_char (CHR 0x22) cs then Fail ''expected an object key'' cs
      else bindR (ParseString cs) (\<lambda>(key, r).
        let colon = SkipWhitespace r in
        if \<not> at_char (CHR '':'') colon then Fail (''expected '' @ quoted '':'' @ '' after object key'') colon
        else bindR (ParseValue (tl colon)) (\<lambda>(v, r').
          if key \<in> fst ` set entries then Fail (''duplicate object key '' @ quoted key) r'
          else let rest = SkipWhitespace r' in
            if rest = [] then Fail ''unterminated object'' []
            else if hd rest = CHR '','' then ParseMembers (set_entry key v entries) (tl rest)
            else if hd rest = CHR ''}'' then Inr (JObject (set_entry key v entries), tl rest)
            else Fail (''expected '' @ quoted '','' @ '' or '' @ quoted ''}'' @ '' in object'') rest)))"
| "ParseArray text =
     (let rest = SkipWhitespace text in
      if at_char (CHR '']'') rest then Inr (JArray [], tl rest) else ParseElements [] rest)"
| "ParseElements items text =
     bindR (ParseValue text) (\<lambda>(v, r).
       let rest = SkipWhitespace r in
       if rest = [] then Fail ''unterminated array'' []
       else if hd rest = CHR '','' then ParseElements (items @ [v]) (tl rest)
       else if hd rest = CHR '']'' then Inr (JArray (items @ [v]), tl rest)
       else Fail (''expected '' @ quoted '','' @ '' or '' @ quoted '']'' @ '' in array'') rest)"
  by pat_completeness auto

lemma SkipWhitespace_le [simp]: "length (SkipWhitespace cs) \<le> length cs"
  by (simp add: SkipWhitespace_def length_dropWhile_le)

lemma string_loop_shrink: "string_loop acc cs = Inr (s, rest) \<Longrightarrow> length rest < length cs"
proof (induction acc cs rule: string_loop.induct)
  case (1 acc cs)
  show ?case
    using "1.prems" "1.IH" escaped_shrink [of "tl cs"]
    by (cases cs; subst (asm) string_loop.simps) (fastforce simp: Fail_def Let_def split: if_splits)+
qed

lemma ParseString_shrink: "ParseString cs = Inr (s, rest) \<Longrightarrow> length rest < length cs"
  using string_loop_shrink [of "[]" "tl cs" s rest] by (cases cs) (auto simp: ParseString_def string_loop.simps Fail_def)

lemma literal_shrink:
  shows "ParseBool cs = Inr (v, rest) \<Longrightarrow> length rest < length cs" and "ParseNull cs = Inr (v, rest) \<Longrightarrow> length rest < length cs"
  by (cases cs; auto simp: ParseBool_def ParseNull_def Fail_def split: if_splits)+

lemma whole_part_shrink: "whole_part cs = Inr rest \<Longrightarrow> length rest < length cs"
  by (cases cs) (auto simp: whole_part_def at_digit_def length_dropWhile_le less_Suc_eq_le split: if_splits)

lemma fractional_part_shrink: "fractional_part cs = Inr rest \<Longrightarrow> length rest \<le> length cs"
  by (cases cs) (auto simp: fractional_part_def length_dropWhile_le le_SucI split: if_splits)

lemma exponent_part_shrink: "exponent_part cs = Inr rest \<Longrightarrow> length rest \<le> length cs"
proof -
  have "length (dropWhile is_digit (exponent_sign (tl cs))) \<le> length cs"
    using length_dropWhile_le [of is_digit "exponent_sign (tl cs)"]
    by (rule le_trans) (simp add: exponent_sign_def)
  then show "exponent_part cs = Inr rest \<Longrightarrow> length rest \<le> length cs"
    by (auto simp: exponent_part_def Let_def split: if_splits)
qed

lemma ParseNumber_shrink: "ParseNumber cs = Inr (v, rest) \<Longrightarrow> length rest < length cs"
proof -
  have "length (number_sign cs) \<le> length cs" by (simp add: number_sign_def)
  then show "ParseNumber cs = Inr (v, rest) \<Longrightarrow> length rest < length cs"
    by (auto simp: ParseNumber_def dest!: whole_part_shrink fractional_part_shrink exponent_part_shrink)
qed

text \<open>A parser that succeeds leaves fewer than \<open>n\<close> characters.\<close>

definition leaves :: "nat \<Rightarrow> 'a parse \<Rightarrow> bool" where
  "leaves n r \<longleftrightarrow> (\<forall>v rest. r = Inr (v, rest) \<longrightarrow> length rest < n)"

lemma leaves_intros:
  shows "leaves n (Fail what rest)" and "length rest < n \<Longrightarrow> leaves n (Inr (v, rest))"
    and "leaves m r \<Longrightarrow> m \<le> n \<Longrightarrow> leaves n r"
    and "(\<And>x rest. r' = Inr (x, rest) \<Longrightarrow> leaves n (k (x, rest))) \<Longrightarrow> leaves n (bindR r' k)"
  by (fastforce simp: leaves_def Fail_def)+

lemma leavesD: "leaves n r \<Longrightarrow> r = Inr (v, rest) \<Longrightarrow> length rest < n"
  by (simp add: leaves_def)

lemma length_tl_less: "cs \<noteq> [] \<Longrightarrow> length (tl cs) < length cs"
  by (cases cs) simp_all

lemma at_charD: "at_char c cs \<Longrightarrow> cs \<noteq> []"
  by (simp add: at_char_def)

lemma SkipWhitespace_tl: "SkipWhitespace text \<noteq> [] \<Longrightarrow> length (tl (SkipWhitespace text)) < length text"
  using SkipWhitespace_le [of "text"] by (cases "SkipWhitespace text") simp_all

lemma leaf_parsers_leave:
  shows "leaves (length cs) (ParseString cs)" and "leaves (length cs) (ParseBool cs)"
    and "leaves (length cs) (ParseNull cs)" and "leaves (length cs) (ParseNumber cs)"
  by (auto simp: leaves_def dest: ParseString_shrink literal_shrink ParseNumber_shrink)

lemma parser_leaves_on_domain:
  shows "ParseValue_ParseObject_ParseMembers_ParseArray_ParseElements_dom (Inl (Inl text)) \<Longrightarrow>
      leaves (length text) (ParseValue text)"
    and "ParseValue_ParseObject_ParseMembers_ParseArray_ParseElements_dom (Inl (Inr text)) \<Longrightarrow>
      leaves (length text) (ParseObject text)"
    and "ParseValue_ParseObject_ParseMembers_ParseArray_ParseElements_dom (Inr (Inl (entries, text))) \<Longrightarrow>
      leaves (length text) (ParseMembers entries text)"
    and "ParseValue_ParseObject_ParseMembers_ParseArray_ParseElements_dom (Inr (Inr (Inl text))) \<Longrightarrow>
      leaves (length text) (ParseArray text)"
    and "ParseValue_ParseObject_ParseMembers_ParseArray_ParseElements_dom (Inr (Inr (Inr (items, text)))) \<Longrightarrow>
      leaves (length text) (ParseElements items text)"
proof (induction rule: ParseValue_ParseObject_ParseMembers_ParseArray_ParseElements.pinduct)
  case (1 cs)
  let ?cs = "SkipWhitespace cs"
  have le: "length ?cs \<le> length cs" "?cs \<noteq> [] \<Longrightarrow> length (tl ?cs) \<le> length cs" using SkipWhitespace_tl [of cs] by (simp_all del: length_tl)
  have "leaves (length cs) (bindR (ParseString ?cs) (\<lambda>(s, rest). Inr (JString s, rest)))"
    by (auto intro!: leaves_intros(2,4) dest: ParseString_shrink less_le_trans [OF _ le(1)])
  then show ?case
    using 1(2) [OF refl] 1(3) [OF refl] le leaf_parsers_leave(2-) [of ?cs]
    unfolding ParseValue.psimps [OF 1(1)] Let_def
    by (auto intro: leaves_intros)
next
  case (2 cs)
  let ?cs = "SkipWhitespace cs"
  show ?case
    unfolding ParseObject.psimps [OF 2(1)] Let_def
    using 2(2) [OF refl] SkipWhitespace_tl [of cs]
    by (auto intro: leaves_intros(2) leaves_intros(3) [OF _ SkipWhitespace_le] simp: at_char_def)
next
  case (4 cs)
  show ?case
    unfolding ParseArray.psimps [OF 4(1)] Let_def
    using 4(2) [OF refl] SkipWhitespace_tl [of cs]
    by (auto intro: leaves_intros(2) leaves_intros(3) [OF _ SkipWhitespace_le] simp: at_char_def)
next
  case (3 entries cs)
  let ?cs = "SkipWhitespace cs"
  show ?case
    unfolding ParseMembers.psimps [OF 3(1)] Let_def
  proof (split if_split, intro conjI impI leaves_intros(1) leaves_intros(4), unfold prod.case)
    fix key r
    assume q: "\<not> \<not> at_char (CHR 0x22) ?cs" and key: "ParseString ?cs = Inr (key, r)"
    have r: "length r < length cs" using less_le_trans [OF ParseString_shrink [OF key]] SkipWhitespace_le by blast
    show "leaves (length cs)
         (if \<not> at_char (CHR '':'') (SkipWhitespace r) then Fail (''expected '' @ quoted '':'' @ '' after object key'') (SkipWhitespace r)
          else bindR (ParseValue (tl (SkipWhitespace r))) (\<lambda>(v, r').
            if key \<in> fst ` set entries then Fail (''duplicate object key '' @ quoted key) r'
            else if SkipWhitespace r' = [] then Fail ''unterminated object'' []
            else if hd (SkipWhitespace r') = CHR '','' then ParseMembers (set_entry key v entries) (tl (SkipWhitespace r'))
            else if hd (SkipWhitespace r') = CHR ''}'' then Inr (JObject (set_entry key v entries), tl (SkipWhitespace r'))
            else Fail (''expected '' @ quoted '','' @ '' or '' @ quoted ''}'' @ '' in object'') (SkipWhitespace r')))"
    proof (split if_split, intro conjI impI leaves_intros(1) leaves_intros(4), unfold prod.case)
      fix v r'
      assume c: "\<not> \<not> at_char (CHR '':'') (SkipWhitespace r)" and v: "ParseValue (tl (SkipWhitespace r)) = Inr (v, r')"
      have "length r' < length (tl (SkipWhitespace r))"
        by (rule leavesD [OF 3(2) [OF refl q key refl refl c] v])
      moreover have "length (tl (SkipWhitespace r)) \<le> length r" using SkipWhitespace_le [of r] by (metis diff_le_self le_trans length_tl)
      ultimately have r': "length r' < length cs" using r by linarith
      have t: "SkipWhitespace r' \<noteq> [] \<Longrightarrow> length (tl (SkipWhitespace r')) < length cs"
        using SkipWhitespace_tl [of r'] r' by (simp del: length_tl)
      note members = 3(3) [OF refl q key refl refl c v refl _ refl]
      show "leaves (length cs)
           (if key \<in> fst ` set entries then Fail (''duplicate object key '' @ quoted key) r'
            else if SkipWhitespace r' = [] then Fail ''unterminated object'' []
            else if hd (SkipWhitespace r') = CHR '','' then ParseMembers (set_entry key v entries) (tl (SkipWhitespace r'))
            else if hd (SkipWhitespace r') = CHR ''}'' then Inr (JObject (set_entry key v entries), tl (SkipWhitespace r'))
            else Fail (''expected '' @ quoted '','' @ '' or '' @ quoted ''}'' @ '' in object'') (SkipWhitespace r'))"
        using leaves_intros(3) [OF members less_imp_le [OF t]] t by (simp add: leaves_intros(1,2) del: length_tl)
    qed
  qed
next
  case (5 items cs)
  show ?case
    unfolding ParseElements.psimps [OF 5(1)] Let_def
  proof (intro leaves_intros(4), clarify)
    fix v r
    assume v: "ParseValue cs = Inr (v, r)"
    have "length r < length cs" by (rule leavesD [OF 5(2) v])
    then have t: "SkipWhitespace r \<noteq> [] \<Longrightarrow> length (tl (SkipWhitespace r)) < length cs"
      using SkipWhitespace_tl [of r] by (simp del: length_tl)
    note elements = 5(3) [OF v refl refl]
    show "leaves (length cs)
        (if SkipWhitespace r = [] then Fail ''unterminated array'' []
         else if hd (SkipWhitespace r) = CHR '','' then ParseElements (items @ [v]) (tl (SkipWhitespace r))
         else if hd (SkipWhitespace r) = CHR '']'' then Inr (JArray (items @ [v]), tl (SkipWhitespace r))
         else Fail (''expected '' @ quoted '','' @ '' or '' @ quoted '']'' @ '' in array'') (SkipWhitespace r))"
      using leaves_intros(3) [OF elements less_imp_le [OF t]] t by (simp add: leaves_intros(1,2) del: length_tl)
  qed
qed

lemma skipped_tail:
  assumes "SkipWhitespace cs \<noteq> []"
  shows "length (SkipWhitespace cs) - Suc 0 < length cs"
  using SkipWhitespace_tl [OF assms] by simp

lemma skipped_tail_of_rest:
  assumes "length r < length cs" and "SkipWhitespace r \<noteq> []"
  shows "length (SkipWhitespace r) - Suc 0 < length cs"
  using skipped_tail [OF assms(2)] assms(1) by simp

lemma skipped_string:
  assumes "ParseString (SkipWhitespace cs) = Inr (key, r)"
  shows "length r < length cs"
  using less_le_trans [OF ParseString_shrink [OF assms] SkipWhitespace_le] .

lemma parser_total: "All ParseValue_ParseObject_ParseMembers_ParseArray_ParseElements_dom"
  apply (relation "measure (\<lambda>x. case x of
    Inl (Inl cs) \<Rightarrow> 4 * length cs + 1 | Inl (Inr cs) \<Rightarrow> 4 * length cs + 4 | Inr (Inl (_, cs)) \<Rightarrow> 4 * length cs + 3
  | Inr (Inr (Inl cs)) \<Rightarrow> 4 * length cs + 4 | Inr (Inr (Inr (_, cs))) \<Rightarrow> 4 * length cs + 3)")
  apply (auto simp: at_char_def)
  subgoal for cs using skipped_tail [of cs] by linarith
  subgoal for cs using skipped_tail [of cs] by linarith
  subgoal for cs using SkipWhitespace_le [of cs] by linarith
  subgoal for cs key r using skipped_tail [of r] skipped_string [of cs key r] by linarith
  subgoal for es cs key r v r'
    using skipped_tail [of r'] skipped_tail [of r] skipped_string [of cs key r] leavesD [OF parser_leaves_on_domain(1)]
    by fastforce
  subgoal for cs using SkipWhitespace_le [of cs] by linarith
  subgoal for cs v r using skipped_tail [of r] leavesD [OF parser_leaves_on_domain(1)] by fastforce
  done

termination ParseValue by (rule parser_total)

declare ParseValue.simps [simp del] ParseObject.simps [simp del] ParseMembers.simps [simp del]
  ParseArray.simps [simp del] ParseElements.simps [simp del]

definition ParseDocument :: "string \<Rightarrow> (string \<times> string) + Value" where
  "ParseDocument cs =
     bindR (ParseValue (SkipWhitespace cs)) (\<lambda>(v, r).
       let rest = SkipWhitespace r in
       if rest \<noteq> [] then Inl (''unexpected trailing content'', rest) else Inr v)"

definition Parse :: "string \<Rightarrow> string + Value" where
  "Parse cs =
     (case ParseDocument cs of
        Inl (what, rest) \<Rightarrow> Inl (what @ '' at byte '' @ nat_to_string (length cs - length rest))
      | Inr v \<Rightarrow> Inr v)"

section \<open>Well-formed values\<close>

text \<open>The grammar of a JSON number, with the bound the parser puts on the exponent.\<close>

definition digit_run :: "string \<Rightarrow> bool" where
  "digit_run ds \<longleftrightarrow> ds \<noteq> [] \<and> list_all is_digit ds"

definition number_text :: "string \<Rightarrow> bool" where
  "number_text s \<longleftrightarrow>
     (\<exists>sign whole fraction exponent. s = sign @ whole @ fraction @ exponent \<and> sign \<in> {[], ''-''} \<and>
        (whole = ''0'' \<or> digit_run whole \<and> hd whole \<noteq> CHR ''0'') \<and>
        (fraction = [] \<or> (\<exists>ds. fraction = CHR ''.'' # ds \<and> digit_run ds)) \<and>
        (exponent = [] \<or> (\<exists>e es ds. exponent = e # es @ ds \<and> e \<in> {CHR ''e'', CHR ''E''} \<and>
           es \<in> {[], ''+'', ''-''} \<and> digit_run ds \<and> digits_value ds \<le> kMaxDecimalExponent)))"

fun json_wf :: "Value \<Rightarrow> bool" where
  "json_wf (JNumber s) = number_text s"
| "json_wf (JArray items) = list_all json_wf items"
| "json_wf (JObject entries) = (distinct (map fst entries) \<and> list_all (\<lambda>e. json_wf (snd e)) entries)"
| "json_wf _ = True"

text \<open>What can follow a value: nothing, a comma or a closing bracket.\<close>

definition value_end :: "string \<Rightarrow> bool" where
  "value_end rest \<longleftrightarrow> rest = [] \<or> hd rest \<in> {CHR '','', CHR '']'', CHR ''}''}"

definition no_digit :: "string \<Rightarrow> bool" where
  "no_digit rest \<longleftrightarrow> rest = [] \<or> \<not> is_digit (hd rest)"

lemma digits_take_drop:
  assumes "list_all is_digit ds" and "no_digit rest"
  shows "dropWhile is_digit (ds @ rest) = rest" and "takeWhile is_digit (ds @ rest) = ds"
  using assms by (induction ds) (cases rest; auto simp: no_digit_def)+

lemma digit_facts: "is_digit (CHR ''0'')" "\<not> is_digit (CHR ''-'')" "\<not> is_digit (CHR ''+'')" "\<not> is_digit (CHR ''.'')"
  "\<not> is_digit (CHR ''e'')" "\<not> is_digit (CHR ''E'')" "\<not> is_digit (CHR '','')" "\<not> is_digit (CHR '']'')" "\<not> is_digit (CHR ''}'')"
  "\<not> is_digit (CHR 0x22)" "\<not> is_digit (CHR ''{'')" "\<not> is_digit (CHR ''['')"
  by code_simp+

lemma digit_run_head: "digit_run ds \<Longrightarrow> ds = hd ds # tl ds \<and> is_digit (hd ds) \<and> list_all is_digit ds"
  by (cases ds) (auto simp: digit_run_def)

lemma whole_part_run:
  assumes "whole = ''0'' \<or> digit_run whole \<and> hd whole \<noteq> CHR ''0''" and "no_digit rest"
  shows "whole_part (whole @ rest) = Inr rest"
  using assms digit_run_head [of whole] digits_take_drop(1) [of whole rest]
  by (auto simp: whole_part_def at_digit_def digit_facts digit_run_def)

lemma fractional_part_run:
  assumes "fraction = [] \<or> (\<exists>ds. fraction = CHR ''.'' # ds \<and> digit_run ds)"
    and "no_digit rest" and "\<not> at_char (CHR ''.'') rest"
  shows "fractional_part (fraction @ rest) = Inr rest"
  using assms digit_run_head digits_take_drop(1)
  by (fastforce simp: fractional_part_def at_digit_def at_char_def digit_run_def)

lemma exponent_part_run:
  assumes "e \<in> {CHR ''e'', CHR ''E''}" and "es \<in> {[], ''+'', ''-''}" and "digit_run ds"
    and "digits_value ds \<le> kMaxDecimalExponent" and "no_digit rest"
  shows "exponent_part (e # es @ ds @ rest) = Inr rest"
proof -
  have "hd ds \<noteq> CHR ''+''" "hd ds \<noteq> CHR ''-''" using digit_run_head [OF assms(3)] digit_facts by auto
  then have s: "exponent_sign (es @ ds @ rest) = ds @ rest"
    using assms(2,3) by (auto simp: exponent_sign_def at_char_def digit_run_def)
  show ?thesis
    using assms digit_run_head [OF assms(3)] digits_take_drop [OF _ assms(5), of ds]
    by (auto simp: exponent_part_def at_char_def s at_digit_def digit_run_def)
qed

lemma ParseNumber_literal:
  assumes "number_text s" and "value_end rest"
  shows "ParseNumber (s @ rest) = Inr (JNumber s, rest)"
proof -
  from assms(1) obtain sign whole fraction exponent where s: "s = sign @ whole @ fraction @ exponent"
    and sign: "sign \<in> {[], ''-''}" and whole: "whole = ''0'' \<or> digit_run whole \<and> hd whole \<noteq> CHR ''0''"
    and fraction: "fraction = [] \<or> (\<exists>ds. fraction = CHR ''.'' # ds \<and> digit_run ds)"
    and exponent: "exponent = [] \<or> (\<exists>e es ds. exponent = e # es @ ds \<and> e \<in> {CHR ''e'', CHR ''E''} \<and>
           es \<in> {[], ''+'', ''-''} \<and> digit_run ds \<and> digits_value ds \<le> kMaxDecimalExponent)"
    unfolding number_text_def by blast
  have rest: "no_digit rest" "\<not> at_char (CHR ''.'') rest" "\<not> at_char (CHR ''e'') rest" "\<not> at_char (CHR ''E'') rest"
    using assms(2) by (auto simp: no_digit_def value_end_def at_char_def digit_facts)
  have e: "no_digit (exponent @ rest)" "\<not> at_char (CHR ''.'') (exponent @ rest)"
    using exponent rest by (auto simp: no_digit_def at_char_def digit_facts)
  have f: "no_digit (fraction @ exponent @ rest)"
    using fraction e by (auto simp: no_digit_def digit_facts)
  have w: "whole \<noteq> [] \<and> hd whole \<noteq> CHR ''-''" using whole digit_run_head [of whole] digit_facts by auto
  have 1: "number_sign (s @ rest) = whole @ fraction @ exponent @ rest"
    using sign w by (auto simp: number_sign_def at_char_def s)
  have 2: "exponent_part (exponent @ rest) = Inr rest"
  proof (cases "exponent = []")
    case True
    with rest(3,4) show ?thesis by (simp add: exponent_part_def)
  next
    case False
    with exponent obtain e es ds where x: "exponent = e # es @ ds" "e \<in> {CHR ''e'', CHR ''E''}" "es \<in> {[], ''+'', ''-''}"
      "digit_run ds" "digits_value ds \<le> kMaxDecimalExponent" by blast
    show ?thesis using exponent_part_run [OF x(2-) rest(1)] by (simp add: x(1))
  qed
  show ?thesis
    by (simp add: ParseNumber_def 1 whole_part_run [OF whole f] fractional_part_run [OF fraction e] 2 MakeRawNumber_def)
qed

lemma digits_split:
  assumes "at_digit cs"
  shows "\<exists>ds rest. cs = ds @ rest \<and> digit_run ds \<and> no_digit rest \<and> dropWhile is_digit cs = rest \<and> takeWhile is_digit cs = ds"
proof -
  have "cs = takeWhile is_digit cs @ dropWhile is_digit cs" by simp
  moreover have "digit_run (takeWhile is_digit cs)"
    using assms by (cases cs) (auto simp: digit_run_def at_digit_def list_all_iff dest: set_takeWhileD)
  moreover have "no_digit (dropWhile is_digit cs)" using hd_dropWhile [of is_digit cs] by (auto simp: no_digit_def simp del: dropWhile_eq_Nil_conv)
  ultimately show ?thesis by blast
qed

lemma whole_part_shape:
  assumes "whole_part cs = Inr rest"
  shows "\<exists>whole. cs = whole @ rest \<and> (whole = ''0'' \<or> digit_run whole \<and> hd whole \<noteq> CHR ''0'')"
proof -
  have d: "at_digit cs" using assms by (simp add: whole_part_def split: if_splits)
  then obtain ds r where ds: "cs = ds @ r" "digit_run ds" "dropWhile is_digit cs = r" using digits_split by blast
  show ?thesis
  proof (cases "hd cs = CHR ''0''")
    case True
    then have "cs = ''0'' @ rest" using assms d by (cases cs) (auto simp: whole_part_def at_digit_def)
    then show ?thesis by blast
  next
    case False
    then have "cs = ds @ rest" "hd ds \<noteq> CHR ''0''" using assms d ds by (auto simp: whole_part_def digit_run_def)
    then show ?thesis using ds(2) by blast
  qed
qed

lemma fractional_part_shape:
  assumes "fractional_part cs = Inr rest"
  shows "\<exists>fraction. cs = fraction @ rest \<and> (fraction = [] \<or> (\<exists>ds. fraction = CHR ''.'' # ds \<and> digit_run ds))"
proof (cases "at_char (CHR ''.'') cs")
  case True
  then obtain r where cs: "cs = CHR ''.'' # r" by (cases cs) (auto simp: at_char_def)
  then have "at_digit r" using assms by (simp add: fractional_part_def at_char_def split: if_splits)
  then obtain ds where "r = ds @ rest" "digit_run ds"
    using digits_split assms cs by (fastforce simp: fractional_part_def at_char_def)
  then show ?thesis using cs by auto
next
  case False
  then show ?thesis using assms by (simp add: fractional_part_def)
qed

lemma exponent_sign_shape: "\<exists>es. cs = es @ exponent_sign cs \<and> es \<in> {[], ''+'', ''-''}"
  by (cases cs) (auto simp: exponent_sign_def at_char_def)

lemma exponent_part_shape:
  assumes "exponent_part cs = Inr rest"
  shows "\<exists>exponent. cs = exponent @ rest \<and> (exponent = [] \<or> (\<exists>e es ds. exponent = e # es @ ds \<and>
    e \<in> {CHR ''e'', CHR ''E''} \<and> es \<in> {[], ''+'', ''-''} \<and> digit_run ds \<and> digits_value ds \<le> kMaxDecimalExponent))"
proof (cases "at_char (CHR ''e'') cs \<or> at_char (CHR ''E'') cs")
  case True
  then obtain e r where cs: "cs = e # r" and e: "e \<in> {CHR ''e'', CHR ''E''}" by (cases cs) (auto simp: at_char_def)
  obtain es where es: "r = es @ exponent_sign r" "es \<in> {[], ''+'', ''-''}" using exponent_sign_shape by blast
  have "at_digit (exponent_sign r)"
    using assms True cs by (simp add: exponent_part_def Let_def split: if_splits)
  then obtain ds q where ds: "exponent_sign r = ds @ q" "digit_run ds" "dropWhile is_digit (exponent_sign r) = q"
      "takeWhile is_digit (exponent_sign r) = ds"
    using digits_split by blast
  have "digits_value ds \<le> kMaxDecimalExponent" and "q = rest"
    using assms True cs ds(3,4) by (simp_all add: exponent_part_def Let_def split: if_splits)
  then have "cs = (e # es @ ds) @ rest" using cs es(1) ds(1) by simp
  then show ?thesis using e es(2) ds(2) \<open>digits_value ds \<le> kMaxDecimalExponent\<close> by blast
next
  case False
  then show ?thesis using assms by (simp add: exponent_part_def)
qed

lemma number_sign_shape: "\<exists>sign. cs = sign @ number_sign cs \<and> sign \<in> {[], ''-''}"
  by (cases cs) (auto simp: number_sign_def at_char_def)

lemma ParseNumber_text:
  assumes "ParseNumber cs = Inr (v, rest)"
  shows "json_wf v"
proof -
  from assms obtain a b where a: "whole_part (number_sign cs) = Inr a" and b: "fractional_part a = Inr b"
    and r: "exponent_part b = Inr rest" and v: "v = JNumber (take (length cs - length rest) cs)"
    by (auto simp: ParseNumber_def MakeRawNumber_def)
  obtain sign where sign: "cs = sign @ number_sign cs" "sign \<in> {[], ''-''}"
    using number_sign_shape by blast
  obtain whole where whole: "number_sign cs = whole @ a" "whole = ''0'' \<or> digit_run whole \<and> hd whole \<noteq> CHR ''0''"
    using whole_part_shape [OF a] by blast
  obtain fraction where fraction: "a = fraction @ b" "fraction = [] \<or> (\<exists>ds. fraction = CHR ''.'' # ds \<and> digit_run ds)"
    using fractional_part_shape [OF b] by blast
  obtain exponent where exponent: "b = exponent @ rest" "exponent = [] \<or> (\<exists>e es ds. exponent = e # es @ ds \<and>
    e \<in> {CHR ''e'', CHR ''E''} \<and> es \<in> {[], ''+'', ''-''} \<and> digit_run ds \<and> digits_value ds \<le> kMaxDecimalExponent)"
    using exponent_part_shape [OF r] by blast
  have "cs = (sign @ whole @ fraction @ exponent) @ rest" using sign(1) whole(1) fraction(1) exponent(1) by simp
  then have "take (length cs - length rest) cs = sign @ whole @ fraction @ exponent" by simp
  then show ?thesis
    unfolding v json_wf.simps number_text_def
    by (intro exI conjI) (assumption, rule sign(2), rule whole(2), rule fraction(2), rule exponent(2))
qed

lemma MakeInt_text: "number_text (to_string n)"
proof -
  have w: "nat_to_string m = ''0'' \<or> digit_run (nat_to_string m) \<and> hd (nat_to_string m) \<noteq> CHR ''0''" for m
    using digits_of_nat [of m] no_leading_zero [of m] single_zero by (auto simp: digit_run_def)
  have "number_text (sign @ nat_to_string m)" if "sign \<in> {[], ''-''}" for sign m
    unfolding number_text_def
    by (rule exI [of _ sign], rule exI [of _ "nat_to_string m"], rule exI [of _ "[]"], rule exI [of _ "[]"]) (use that w in auto)
  from this [of "[]"] this [of "''-''"] show ?thesis by (simp add: to_string_def)
qed

section \<open>Strings\<close>

lemma string_loop_plain: "c \<noteq> CHR 0x22 \<Longrightarrow> c \<noteq> CHR 0x5C \<Longrightarrow> \<not> (of_char c :: nat) < 0x20 \<Longrightarrow>
  string_loop acc (c # cs) = string_loop (acc @ [c]) cs"
  by (subst string_loop.simps) simp

lemma string_loop_escape: "escaped cs = Inr (s, rest) \<Longrightarrow> string_loop acc (CHR 0x5C # cs) = string_loop (acc @ s) rest"
  by (subst string_loop.simps) simp

lemma control_escapes:
  "\<forall>n\<in>set [0..<32]. hex_digit (kHexDigits ! (n div 16)) = Some (n div 16) \<and> hex_digit (kHexDigits ! (n mod 16)) = Some (n mod 16) \<and>
    or (push_bit 4 (n div 16)) (n mod 16) = n"
  by (simp add: upt_rec hex_digit_def kHexDigits_def)

lemma hex4_digits:
  assumes "hex_digit a = Some p" and "hex_digit b = Some q" and "hex_digit c = Some r" and "hex_digit d = Some s"
  shows "ParseHex4 (a # b # c # d # cs) = Inr (or (push_bit 4 (or (push_bit 4 (or (push_bit 4 p) q)) r)) s, cs)"
proof -
  have "hex_digits 4 0 (a # b # c # d # cs) = Inr (or (push_bit 4 (or (push_bit 4 (or (push_bit 4 p) q)) r)) s, cs)"
    by (simp add: numeral_eq_Suc assms)
  then show ?thesis by (simp add: ParseHex4_def)
qed

lemma hex4_byte:
  assumes "hex_digit a = Some p" and "hex_digit b = Some q"
  shows "ParseHex4 (''00'' @ [a, b] @ cs) = Inr (or (push_bit 4 p) q, cs)"
proof -
  have "hex_digit (CHR ''0'') = Some 0" by code_simp
  from hex4_digits [OF this this assms, of cs] show ?thesis by simp
qed

lemma escaped_control:
  assumes "(of_char c :: nat) < 0x20"
  shows "escaped (''u00'' @ [kHexDigits ! (of_char c div 16), kHexDigits ! (of_char c mod 16)] @ cs) = Inr ([c], cs)"
proof -
  let ?n = "of_char c :: nat"
  have n: "hex_digit (kHexDigits ! (?n div 16)) = Some (?n div 16)" "hex_digit (kHexDigits ! (?n mod 16)) = Some (?n mod 16)"
    "or (push_bit 4 (?n div 16)) (?n mod 16) = ?n"
    using control_escapes [THEN bspec, of ?n] assms by auto
  have h: "ParseHex4 (''00'' @ [kHexDigits ! (?n div 16), kHexDigits ! (?n mod 16)] @ cs) = Inr (?n, cs)"
    using hex4_byte [OF n(1,2)] n(3) by simp
  have u: "unicode_escape (''00'' @ [kHexDigits ! (?n div 16), kHexDigits ! (?n mod 16)] @ cs) = Inr ([c], cs)"
    using assms unfolding unicode_escape_def h by (simp add: AppendUtf8_def)
  have "simple_escape (CHR ''u'') = None" by code_simp
  then show ?thesis using u by (simp add: escaped_def)
qed

lemma string_loop_char: "string_loop acc (escape_char c @ cs) = string_loop (acc @ [c]) cs"
proof -
  have e: "escaped (x # r) = Inr ([y], r)" if "simple_escape x = Some y" for x y r using that by (simp add: escaped_def)
  show ?thesis
    unfolding escape_char_def
    using string_loop_plain [of c acc cs] string_loop_escape [OF escaped_control [of c cs], of acc]
    by (simp add: string_loop_escape [OF e] simple_escape_def)
qed

lemma string_loop_escaped: "string_loop acc (EscapeJsonString s @ CHR 0x22 # rest) = Inr (acc @ s, rest)"
proof (induction s arbitrary: acc)
  case Nil
  show ?case by (subst string_loop.simps) (simp add: EscapeJsonString_def)
next
  case (Cons c s)
  have "EscapeJsonString (c # s) @ CHR 0x22 # rest = escape_char c @ EscapeJsonString s @ CHR 0x22 # rest"
    by (simp add: EscapeJsonString_def)
  then show ?case using Cons.IH [of "acc @ [c]"] by (simp only: string_loop_char) simp
qed

lemma ParseString_escaped: "ParseString (CHR 0x22 # EscapeJsonString s @ CHR 0x22 # rest) = Inr (s, rest)"
  by (simp add: ParseString_def string_loop_escaped)

section \<open>Round trip\<close>

lemma Dump_head:
  assumes "json_wf v"
  shows "Dump v \<noteq> []" and "\<not> is_space (hd (Dump v))" and "hd (Dump v) \<noteq> CHR '']''" and "hd (Dump v) \<noteq> CHR ''}''"
proof -
  have c: "Dump v \<noteq> [] \<and> \<not> is_space (hd (Dump v)) \<and> hd (Dump v) \<noteq> CHR '']'' \<and> hd (Dump v) \<noteq> CHR ''}''"
  proof (cases v)
    case (JNumber s)
    have d: "\<not> is_space c \<and> c \<noteq> CHR '']'' \<and> c \<noteq> CHR ''}''" if "is_digit c" for c
      using that by (auto simp: is_digit_def is_space_def)
    from JNumber assms obtain sign whole r where s: "s = sign @ whole @ r" "sign \<in> {[], ''-''}"
      "whole = ''0'' \<or> digit_run whole" by (auto simp: number_text_def)
    have "whole \<noteq> [] \<and> is_digit (hd whole)" using s(3) digit_run_head [of whole] digit_facts by auto
    then show ?thesis using s(1,2) d JNumber by (auto simp: is_space_def)
  qed (auto simp: is_space_def)
  then show "Dump v \<noteq> []" and "\<not> is_space (hd (Dump v))" and "hd (Dump v) \<noteq> CHR '']''" and "hd (Dump v) \<noteq> CHR ''}''" by blast+
qed

lemma SkipWhitespace_id: "cs = [] \<or> \<not> is_space (hd cs) \<Longrightarrow> SkipWhitespace cs = cs"
  by (cases cs) (auto simp: SkipWhitespace_def)

lemma set_entry_fresh: "key \<notin> fst ` set entries \<Longrightarrow> set_entry key v entries = entries @ [(key, v)]"
  by (induction entries) auto

lemma value_end_chars: "value_end (CHR '','' # r)" "value_end (CHR '']'' # r)" "value_end (CHR ''}'' # r)" "value_end []"
  by (simp_all add: value_end_def)

lemma closers_not_space: "\<not> is_space (CHR '','')" "\<not> is_space (CHR '']'')" "\<not> is_space (CHR ''}'')" "\<not> is_space (CHR '':'')"
  "\<not> is_space (CHR 0x22)"
  by (simp_all add: is_space_def)

text \<open>The loops of arrays and objects undo the printing of their entries, given that the entries are undone.\<close>

lemma ParseElements_join:
  assumes "\<And>v rest. v \<in> set vs \<Longrightarrow> value_end rest \<Longrightarrow> ParseValue (Dump v @ rest) = Inr (v, rest)" and "vs \<noteq> []"
  shows "ParseElements items (join_comma (map Dump vs) @ CHR '']'' # rest) = Inr (JArray (items @ vs), rest)"
  using assms
proof (induction vs arbitrary: items)
  case (Cons v vs)
  show ?case
  proof (cases "vs = []")
    case True
    then show ?thesis
      using Cons.prems(1) [of v "CHR '']'' # rest"] by (subst ParseElements.simps) (simp add: value_end_chars SkipWhitespace_id closers_not_space)
  next
    case False
    have "ParseElements (items @ [v]) (join_comma (map Dump vs) @ CHR '']'' # rest) = Inr (JArray ((items @ [v]) @ vs), rest)"
      using Cons.IH [OF _ False] Cons.prems(1) by simp
    then show ?thesis
      using Cons.prems(1) [of v "CHR '','' # join_comma (map Dump vs) @ CHR '']'' # rest"] False
      by (subst ParseElements.simps) (simp add: value_end_chars SkipWhitespace_id closers_not_space join_comma_Cons)
  qed
qed simp

definition dump_entry :: "string \<times> Value \<Rightarrow> string" where
  "dump_entry e = CHR 0x22 # EscapeJsonString (fst e) @ CHR 0x22 # CHR '':'' # Dump (snd e)"

lemma ParseMembers_join:
  assumes "\<And>e rest. e \<in> set es \<Longrightarrow> value_end rest \<Longrightarrow> ParseValue (Dump (snd e) @ rest) = Inr (snd e, rest)"
    and "es \<noteq> []" and "distinct (map fst (entries @ es))"
  shows "ParseMembers entries (join_comma (map dump_entry es) @ CHR ''}'' # rest) = Inr (JObject (entries @ es), rest)"
  using assms
proof (induction es arbitrary: entries)
  case (Cons e es)
  have fresh: "fst e \<notin> fst ` set entries" using Cons.prems(3) by auto
  have step: "ParseMembers entries (dump_entry e @ r) =
     (if hd r = CHR '','' then ParseMembers (entries @ [e]) (tl r)
      else if hd r = CHR ''}'' then Inr (JObject (entries @ [e]), tl r)
      else Fail (''expected '' @ quoted '','' @ '' or '' @ quoted ''}'' @ '' in object'') r)"
    if "value_end r" "r \<noteq> []" "\<not> is_space (hd r)" for r
    using that Cons.prems(1) [of e r] fresh
    by (subst ParseMembers.simps)
      (simp add: dump_entry_def SkipWhitespace_id closers_not_space at_char_def ParseString_escaped set_entry_fresh)
  show ?case
  proof (cases "es = []")
    case True
    then show ?thesis using step [of "CHR ''}'' # rest"] by (simp add: value_end_chars closers_not_space)
  next
    case False
    have "ParseMembers (entries @ [e]) (join_comma (map dump_entry es) @ CHR ''}'' # rest) = Inr (JObject ((entries @ [e]) @ es), rest)"
      using Cons.IH [OF _ False] Cons.prems(1,3) by simp
    then show ?thesis
      using step [of "CHR '','' # join_comma (map dump_entry es) @ CHR ''}'' # rest"] False
      by (simp add: value_end_chars closers_not_space join_comma_Cons)
  qed
qed simp

lemma ParseValue_Dump: "json_wf v \<Longrightarrow> value_end rest \<Longrightarrow> ParseValue (Dump v @ rest) = Inr (v, rest)"
proof (induction v arbitrary: rest)
  case (JNumber s)
  then have n: "ParseNumber (s @ rest) = Inr (JNumber s, rest)" by (simp add: ParseNumber_literal)
  have h: "s \<noteq> [] \<and> (hd s = CHR ''-'' \<or> is_digit (hd s))"
  proof -
    from JNumber obtain sign whole r where s: "s = sign @ whole @ r" "sign \<in> {[], ''-''}"
      "whole = ''0'' \<or> digit_run whole" by (auto simp: number_text_def)
    then have "whole \<noteq> [] \<and> is_digit (hd whole)" using digit_run_head [of whole] digit_facts by auto
    with s show ?thesis by auto
  qed
  moreover have "\<not> is_space (hd s)" using h by (auto simp: is_space_def is_digit_def)
  moreover have "hd s \<noteq> CHR ''{'' \<and> hd s \<noteq> CHR ''['' \<and> hd s \<noteq> CHR 0x22 \<and> hd s \<noteq> CHR ''t'' \<and> hd s \<noteq> CHR ''f'' \<and> hd s \<noteq> CHR ''n''"
    using h by (auto simp: is_digit_def)
  ultimately show ?case using n by (subst ParseValue.simps) (simp add: SkipWhitespace_id)
next
  case (JString s)
  show ?case by (subst ParseValue.simps) (simp add: SkipWhitespace_id closers_not_space ParseString_escaped)
next
  case (JArray vs)
  have o: "\<not> is_space (CHR ''['')" by (simp add: is_space_def)
  show ?case
  proof (cases "vs = []")
    case True
    then show ?thesis
      by (subst ParseValue.simps) (simp add: SkipWhitespace_id o ParseArray.simps closers_not_space at_char_def)
  next
    case False
    have wf: "\<forall>v\<in>set vs. json_wf v" using JArray.prems(1) by (simp add: list_all_iff)
    have "ParseElements [] (join_comma (map Dump vs) @ CHR '']'' # rest) = Inr (JArray ([] @ vs), rest)"
      by (rule ParseElements_join [OF _ False]) (use JArray.IH wf in blast)
    moreover have "ParseArray (join_comma (map Dump vs) @ CHR '']'' # rest) = ParseElements [] (join_comma (map Dump vs) @ CHR '']'' # rest)"
    proof -
      obtain v ws where vs: "vs = v # ws" using False by (cases vs) auto
      have "join_comma (map Dump vs) \<noteq> [] \<and> hd (join_comma (map Dump vs)) = hd (Dump v)"
        using Dump_head [of v] wf vs by (cases ws) auto
      then show ?thesis using Dump_head [of v] wf vs by (simp add: ParseArray.simps SkipWhitespace_id at_char_def)
    qed
    ultimately show ?thesis by (subst ParseValue.simps) (simp add: SkipWhitespace_id o)
  qed
next
  case (JObject es)
  have o: "\<not> is_space (CHR ''{'')" by (simp add: is_space_def)
  have d: "Dump (JObject es) = CHR ''{'' # join_comma (map dump_entry es) @ ''}''"
    by (simp add: dump_entry_def [abs_def])
  show ?case
  proof (cases "es = []")
    case True
    then show ?thesis
      by (subst ParseValue.simps) (simp add: SkipWhitespace_id o ParseObject.simps closers_not_space at_char_def)
  next
    case False
    have wf: "\<forall>e\<in>set es. json_wf (snd e)" "distinct (map fst es)" using JObject.prems(1) by (simp_all add: list_all_iff)
    have ih: "ParseValue (Dump (snd e) @ rest) = Inr (snd e, rest)" if "e \<in> set es" "value_end rest" for e rest
      by (rule JObject.IH [OF that(1) _ _ that(2)]) (use wf(1) that(1) in \<open>cases e; auto\<close>)+
    have "ParseMembers [] (join_comma (map dump_entry es) @ CHR ''}'' # rest) = Inr (JObject ([] @ es), rest)"
      by (rule ParseMembers_join [OF ih False]) (use wf(2) in simp_all)
    moreover have "ParseObject (join_comma (map dump_entry es) @ CHR ''}'' # rest) = ParseMembers [] (join_comma (map dump_entry es) @ CHR ''}'' # rest)"
    proof -
      obtain e fs where es: "es = e # fs" using False by (cases es) auto
      have "join_comma (map dump_entry es) \<noteq> [] \<and> hd (join_comma (map dump_entry es)) = CHR 0x22"
        using es by (cases fs) (auto simp: dump_entry_def)
      then show ?thesis by (simp add: ParseObject.simps SkipWhitespace_id at_char_def closers_not_space)
    qed
    ultimately show ?thesis unfolding d by (subst ParseValue.simps) (simp add: SkipWhitespace_id o)
  qed
qed (subst ParseValue.simps; simp add: SkipWhitespace_id is_space_def ParseBool_def ParseNull_def)+

lemma Parse_Dump: "json_wf v \<Longrightarrow> Parse (Dump v) = Inr v"
  using ParseValue_Dump [of v "[]"] Dump_head [of v]
  by (simp add: Parse_def ParseDocument_def SkipWhitespace_id value_end_chars)

section \<open>What the parser yields\<close>

lemma set_entry_wf:
  assumes "json_wf (JObject entries)" and "json_wf v"
  shows "json_wf (JObject (set_entry key v entries))"
proof -
  have "fst ` set (set_entry key v entries) = insert key (fst ` set entries)" for entries by (induction entries) auto
  then show ?thesis using assms by (induction entries) (auto simp: list_all_iff)
qed

lemma parser_yields_wf:
  shows "ParseValue cs = Inr (v, rest) \<Longrightarrow> json_wf v"
    and "ParseObject cs = Inr (v, rest) \<Longrightarrow> json_wf v"
    and "ParseMembers entries cs = Inr (v, rest) \<Longrightarrow> json_wf (JObject entries) \<Longrightarrow> json_wf v"
    and "ParseArray cs = Inr (v, rest) \<Longrightarrow> json_wf v"
    and "ParseElements items cs = Inr (v, rest) \<Longrightarrow> json_wf (JArray items) \<Longrightarrow> json_wf v"
proof (induction cs and cs and entries cs and cs and items cs
    arbitrary: v rest and v rest and v rest and v rest and v rest rule: ParseValue_ParseObject_ParseMembers_ParseArray_ParseElements.induct)
  case (1 cs)
  show ?case
    using 1(3) [unfolded ParseValue.simps [of cs] Let_def] 1(1,2) [OF refl]
    by (auto simp: Fail_def ParseBool_def ParseNull_def dest: ParseNumber_text split: if_splits)
next
  case (2 cs)
  then show ?case by (auto simp: ParseObject.simps Let_def split: if_splits)
next
  case (3 entries cs)
  show ?case
    using 3(3) [unfolded ParseMembers.simps [of entries cs] Let_def] 3(1,2) [OF refl] set_entry_wf [OF 3(4)]
    by (auto simp: Fail_def split: if_splits)
next
  case (4 cs)
  then show ?case by (auto simp: ParseArray.simps Let_def split: if_splits)
next
  case (5 items cs)
  show ?case
    using 5(3) [unfolded ParseElements.simps [of items cs] Let_def] 5(1,2) 5(4)
    by (auto simp: Fail_def split: if_splits)
qed

lemma Parse_wf: "Parse cs = Inr v \<Longrightarrow> json_wf v"
  by (auto simp: Parse_def ParseDocument_def Let_def dest: parser_yields_wf(1) split: sum.splits if_splits)

section \<open>Where the parser stops\<close>

text \<open>A parser that fails stops inside the \<open>n\<close> characters it was given.\<close>

definition stops :: "nat \<Rightarrow> 'a parse \<Rightarrow> bool" where
  "stops n r \<longleftrightarrow> (\<forall>what rest. r = Inl (what, rest) \<longrightarrow> length rest \<le> n)"

lemma stops_intros:
  shows "length rest \<le> n \<Longrightarrow> stops n (Fail what rest)" and "stops n (Inr x)" and "stops m r \<Longrightarrow> m \<le> n \<Longrightarrow> stops n r"
    and "stops n r' \<Longrightarrow> (\<And>x rest. r' = Inr (x, rest) \<Longrightarrow> stops n (k (x, rest))) \<Longrightarrow> stops n (bindR r' k)"
  by (fastforce simp: stops_def Fail_def bindR_Inl_iff)+

lemma hex_digits_stops: "stops (length cs) (hex_digits n v cs)"
  by (induction n v cs rule: hex_digits.induct) (auto intro: stops_intros(1,2) stops_intros(3) [OF _ le_SucI [OF order_refl]] split: option.splits)

lemma ParseHex4_stops: "length cs \<le> n \<Longrightarrow> stops n (ParseHex4 cs)"
  by (auto simp: ParseHex4_def intro: stops_intros(1) stops_intros(3) [OF hex_digits_stops])

lemma unicode_escape_stops: "stops (length cs) (unicode_escape cs)"
  unfolding unicode_escape_def
proof (intro stops_intros(4) ParseHex4_stops order_refl, unfold prod.case)
  fix v rest assume "ParseHex4 cs = Inr (v, rest)"
  then have r: "length rest \<le> length cs" by (rule ParseHex4_shrink)
  then have "stops (length cs) (bindR (ParseHex4 (drop 2 rest)) (\<lambda>(low, rest').
            if low < 0xDC00 \<or> 0xDFFF < low then Fail ''invalid low surrogate'' rest'
            else Inr (AppendUtf8 (0x10000 + push_bit 10 (v - 0xD800) + (low - 0xDC00)), rest')))"
    by (intro stops_intros(4) ParseHex4_stops) (auto intro!: stops_intros dest: ParseHex4_shrink)
  with r show "stops (length cs) (if 0xD800 \<le> v \<and> v \<le> 0xDBFF
     then if length rest < 2 \<or> rest ! 0 \<noteq> CHR 0x5C \<or> rest ! 1 \<noteq> CHR ''u''
          then Fail ''unpaired surrogate escape'' rest
          else bindR (ParseHex4 (drop 2 rest)) (\<lambda>(low, rest').
            if low < 0xDC00 \<or> 0xDFFF < low then Fail ''invalid low surrogate'' rest'
            else Inr (AppendUtf8 (0x10000 + push_bit 10 (v - 0xD800) + (low - 0xDC00)), rest'))
     else Inr (AppendUtf8 v, rest))"
    by (simp add: stops_intros(1,2))
qed

lemma escaped_stops: "stops (length cs) (escaped cs)"
proof (cases cs)
  case (Cons c r)
  then show ?thesis
    using stops_intros(3) [OF unicode_escape_stops, of r "length cs"]
    by (auto simp: escaped_def intro: stops_intros(1,2) split: option.splits)
qed (simp add: escaped_def stops_intros(1))

lemma string_loop_stops: "stops (length cs) (string_loop acc cs)"
proof (induction acc cs rule: string_loop.induct)
  case (1 acc cs)
  have "stops (length cs) (bindR (escaped (tl cs)) (\<lambda>(s, rest). string_loop (acc @ s) rest))"
    if "cs \<noteq> []" "hd cs \<noteq> CHR 0x22" "hd cs = CHR 0x5C"
  proof (intro stops_intros(4), unfold prod.case)
    show "stops (length cs) (escaped (tl cs))" by (rule stops_intros(3) [OF escaped_stops]) simp
    fix s rest assume e: "escaped (tl cs) = Inr (s, rest)"
    show "stops (length cs) (string_loop (acc @ s) rest)"
      by (rule stops_intros(3) [OF "1.IH"(1) [OF that(1) refl that(2,3) e refl]]) (use escaped_shrink [OF e] in simp)
  qed
  moreover have "stops (length cs) (string_loop (acc @ [hd cs]) (tl cs))"
    if "cs \<noteq> []" "hd cs \<noteq> CHR 0x22" "hd cs \<noteq> CHR 0x5C" "\<not> (of_char (hd cs) :: nat) < 0x20"
    by (rule stops_intros(3) [OF "1.IH"(2) [OF that(1) refl that(2-4)]]) simp
  ultimately show ?case
    by (subst string_loop.simps) (simp add: Let_def stops_intros(1,2))
qed
lemma ParseString_stops: "stops (length cs) (ParseString cs)"
  unfolding ParseString_def by (rule stops_intros(3) [OF string_loop_stops]) simp

lemma literal_stops: "stops (length cs) (ParseBool cs)" "stops (length cs) (ParseNull cs)"
  by (simp_all add: ParseBool_def ParseNull_def stops_intros(1,2))

lemma ParseNumber_stops: "stops (length cs) (ParseNumber cs)"
proof -
  have "length rest \<le> length cs" if "whole_part cs = Inl (w, rest)" for cs rest w
    using that by (auto simp: whole_part_def split: if_splits)
  moreover have "length rest \<le> length cs" if "fractional_part cs = Inl (w, rest)" for cs rest w
    using that by (auto simp: fractional_part_def split: if_splits)
  moreover have "length rest \<le> length cs" if "exponent_part cs = Inl (w, rest)" for cs rest w
  proof -
    have s: "length (exponent_sign (tl cs)) \<le> length cs" by (simp add: exponent_sign_def)
    show ?thesis
      using that s le_trans [OF length_dropWhile_le s, of is_digit]
      by (auto simp: exponent_part_def Let_def split: if_splits)
  qed
  moreover have "length (number_sign cs) \<le> length cs" by (simp add: number_sign_def)
  ultimately show ?thesis
    unfolding stops_def ParseNumber_def
    by (fastforce simp: bindR_Inl_iff dest: whole_part_shrink fractional_part_shrink)
qed

lemmas parser_leaves = parser_leaves_on_domain [OF spec [OF parser_total]]

lemma parser_stops:
  shows "stops (length cs) (ParseValue cs)" and "stops (length cs) (ParseObject cs)"
    and "stops (length cs) (ParseMembers entries cs)" and "stops (length cs) (ParseArray cs)"
    and "stops (length cs) (ParseElements items cs)"
proof (induction cs and cs and entries cs and cs and items cs rule: ParseValue_ParseObject_ParseMembers_ParseArray_ParseElements.induct)
  case (1 cs)
  let ?cs = "SkipWhitespace cs"
  have le: "length ?cs \<le> length cs" "?cs \<noteq> [] \<Longrightarrow> length (tl ?cs) \<le> length cs" using SkipWhitespace_tl [of cs] by (simp_all del: length_tl)
  have "stops (length cs) (bindR (ParseString ?cs) (\<lambda>(s, rest). Inr (JString s, rest)))"
    by (auto intro!: stops_intros(2,4) stops_intros(3) [OF ParseString_stops le(1)])
  moreover note stops_intros(3) [OF literal_stops(1) le(1)] stops_intros(3) [OF literal_stops(2) le(1)]
    stops_intros(3) [OF ParseNumber_stops le(1)] stops_intros(1) [OF le(1)]
    stops_intros(3) [OF 1(1) [OF refl] le(2)] stops_intros(3) [OF 1(2) [OF refl] le(2)]
  ultimately show ?case unfolding ParseValue.simps [of cs] Let_def by (simp add: stops_intros(1))
next
  case (2 cs)
  note stops_intros(3) [OF 2 [OF refl] SkipWhitespace_le]
  then show ?case unfolding ParseObject.simps [of cs] Let_def by (simp add: stops_intros(2))
next
  case (4 cs)
  note stops_intros(3) [OF 4 [OF refl] SkipWhitespace_le]
  then show ?case unfolding ParseArray.simps [of cs] Let_def by (simp add: stops_intros(2))
next
  case (3 entries cs)
  let ?cs = "SkipWhitespace cs"
  show ?case
    unfolding ParseMembers.simps [of entries cs] Let_def
  proof (split if_split, intro conjI impI stops_intros(1) stops_intros(4) SkipWhitespace_le, unfold prod.case)
    show "stops (length cs) (ParseString ?cs)" by (rule stops_intros(3) [OF ParseString_stops SkipWhitespace_le])
    fix key r
    assume q: "\<not> \<not> at_char (CHR 0x22) ?cs" and key: "ParseString ?cs = Inr (key, r)"
    have r: "length r \<le> length cs" "length (SkipWhitespace r) \<le> length cs"
      using skipped_string [OF key] le_trans [OF SkipWhitespace_le [of r], of "length cs"] by simp_all
    show "stops (length cs)
         (if \<not> at_char (CHR '':'') (SkipWhitespace r) then Fail (''expected '' @ quoted '':'' @ '' after object key'') (SkipWhitespace r)
          else bindR (ParseValue (tl (SkipWhitespace r))) (\<lambda>(v, r').
            if key \<in> fst ` set entries then Fail (''duplicate object key '' @ quoted key) r'
            else if SkipWhitespace r' = [] then Fail ''unterminated object'' []
            else if hd (SkipWhitespace r') = CHR '','' then ParseMembers (set_entry key v entries) (tl (SkipWhitespace r'))
            else if hd (SkipWhitespace r') = CHR ''}'' then Inr (JObject (set_entry key v entries), tl (SkipWhitespace r'))
            else Fail (''expected '' @ quoted '','' @ '' or '' @ quoted ''}'' @ '' in object'') (SkipWhitespace r')))"
    proof (split if_split, intro conjI impI stops_intros(1) stops_intros(4) r(2), unfold prod.case)
      assume c: "\<not> \<not> at_char (CHR '':'') (SkipWhitespace r)"
      have le: "length (tl (SkipWhitespace r)) \<le> length cs" using r(2) by simp
      show "stops (length cs) (ParseValue (tl (SkipWhitespace r)))"
        by (rule stops_intros(3) [OF 3(1) [OF refl q key refl refl c] le])
      fix v r'
      assume v: "ParseValue (tl (SkipWhitespace r)) = Inr (v, r')"
      have r': "length r' \<le> length cs" "length (SkipWhitespace r') \<le> length cs" "length (tl (SkipWhitespace r')) \<le> length cs"
        using leavesD [OF parser_leaves(1) v] le SkipWhitespace_le [of r'] by (simp_all del: SkipWhitespace_le)
      note members = stops_intros(3) [OF 3(2) [OF refl q key refl refl c v refl _ refl] r'(3)]
      show "stops (length cs)
           (if key \<in> fst ` set entries then Fail (''duplicate object key '' @ quoted key) r'
            else if SkipWhitespace r' = [] then Fail ''unterminated object'' []
            else if hd (SkipWhitespace r') = CHR '','' then ParseMembers (set_entry key v entries) (tl (SkipWhitespace r'))
            else if hd (SkipWhitespace r') = CHR ''}'' then Inr (JObject (set_entry key v entries), tl (SkipWhitespace r'))
            else Fail (''expected '' @ quoted '','' @ '' or '' @ quoted ''}'' @ '' in object'') (SkipWhitespace r'))"
        using members r' by (simp add: stops_intros(1,2))
    qed
  qed
next
  case (5 items cs)
  show ?case
    unfolding ParseElements.simps [of items cs] Let_def
  proof (intro stops_intros(4) 5(1), unfold prod.case)
    fix v r
    assume v: "ParseValue cs = Inr (v, r)"
    have r: "length r \<le> length cs" "length (SkipWhitespace r) \<le> length cs" "length (tl (SkipWhitespace r)) \<le> length cs"
      using leavesD [OF parser_leaves(1) v] SkipWhitespace_le [of r] by (simp_all del: SkipWhitespace_le)
    note elements = stops_intros(3) [OF 5(2) [OF v refl refl] r(3)]
    show "stops (length cs)
        (if SkipWhitespace r = [] then Fail ''unterminated array'' []
         else if hd (SkipWhitespace r) = CHR '','' then ParseElements (items @ [v]) (tl (SkipWhitespace r))
         else if hd (SkipWhitespace r) = CHR '']'' then Inr (JArray (items @ [v]), tl (SkipWhitespace r))
         else Fail (''expected '' @ quoted '','' @ '' or '' @ quoted '']'' @ '' in array'') (SkipWhitespace r))"
      using elements r by (simp add: stops_intros(1,2))
  qed
qed

section \<open>Properties\<close>

lemma AsInt64_MakeInt:
  assumes "int64_min \<le> n" and "n \<le> int64_max"
  shows "AsInt64 (MakeInt n) = Some n"
proof -
  have h: "hd (nat_to_string m) \<noteq> CHR ''-''" "nat_to_string m \<noteq> ''-''" for m
    using digits_of_nat [of m] digit_facts(2) by (cases "nat_to_string m"; auto)+
  show ?thesis
    using assms h digits_of_nat by (auto simp: AsInt64_def MakeInt_def to_string_def Let_def)
qed

lemma AsInt64_literal:
  "AsInt64 v = Some n \<longleftrightarrow> int64_min \<le> n \<and> n \<le> int64_max \<and>
    (\<exists>ds. digit_run ds \<and> (v = JNumber ds \<and> n = int (digits_value ds) \<or> v = JNumber (CHR ''-'' # ds) \<and> n = - int (digits_value ds)))"
proof (cases v)
  case (JNumber t)
  show ?thesis
  proof (cases "t \<noteq> [] \<and> hd t = CHR ''-''")
    case True
    then obtain ds where t: "t = CHR ''-'' # ds" by (cases t) auto
    have "\<not> digit_run t" by (auto simp: t digit_run_def digit_facts)
    then show ?thesis
      unfolding JNumber t by (cases "ds = []") (auto simp: AsInt64_def Let_def digit_run_def)
  next
    case False
    then show ?thesis
      unfolding JNumber by (auto simp: AsInt64_def Let_def digit_run_def)
  qed
qed (auto simp: AsInt64_def)

text \<open>A lone low surrogate is accepted, and encoded as if it were a character.\<close>

lemma lone_low_surrogate_accepted: "escaped (''udc00'' @ rest) = Inr (AppendUtf8 0xDC00, rest)"
proof -
  have h: "hex_digit (CHR ''d'') = Some 13" "hex_digit (CHR ''c'') = Some 12" "hex_digit (CHR ''0'') = Some 0" by code_simp+
  have "or (push_bit 4 (or (push_bit 4 (or (push_bit 4 13) 12)) 0)) 0 = (0xDC00 :: nat)" by (simp add: push_bit_eq_mult)
  then have "unicode_escape (''dc00'' @ rest) = Inr (AppendUtf8 0xDC00, rest)"
    using hex4_digits [OF h(1,2,3,3), of rest] by (simp add: unicode_escape_def)
  moreover have "simple_escape (CHR ''u'') = None" by code_simp
  ultimately show ?thesis by (simp add: escaped_def)
qed

text \<open>
  Property C34: printing and parsing are inverse.  Every value whose numbers are JSON literals
  and whose objects have distinct keys is read back exactly, whatever its strings contain, and
  the order of the keys is kept.
\<close>

theorem json_round_trip:
  assumes "json_wf v"
  shows "Parse (Dump v) = Inr v"
  using assms by (rule Parse_Dump)

definition sample_value :: Value where
  "sample_value = JObject [(''k'', JArray [MakeInt (- 12), JNull, JBool True]), ([CHR 0x22, CHR 0x07], JString [CHR 0x5C, CHR 0xC3, CHR 0xA9])]"

theorem json_round_trip_witness: "Parse (Dump sample_value) = Inr sample_value"
  by (rule json_round_trip) (simp add: sample_value_def MakeInt_def MakeInt_text)

text \<open>
  Property C35: what the parser accepts is well formed, so its canonical print is accepted again
  and means the same value.
\<close>

theorem json_parse_well_formed:
  assumes "Parse cs = Inr v"
  shows "json_wf v \<and> Parse (Dump v) = Inr v"
  using Parse_wf [OF assms] Parse_Dump by blast

theorem json_parse_well_formed_witness:
  "Parse (Dump (JArray [JNumber ''1e5'', JBool False])) = Inr (JArray [JNumber ''1e5'', JBool False])"
proof -
  have "Parse '' [1e5 , false]'' = Inr (JArray [JNumber ''1e5'', JBool False])" by code_simp
  from json_parse_well_formed [OF this] show ?thesis by blast
qed

text \<open>
  The parser always makes progress.  A value, an object, an array and every round
  of their loops consume at least one byte when they succeed, which is why the mutual recursion
  ends; when they fail they stop inside the text, so the position in the message is an offset
  of the text.
\<close>

theorem json_parser_progress:
  "(ParseValue cs = Inr (v, rest) \<longrightarrow> length rest < length cs) \<and> (ParseValue cs = Inl (what, rest) \<longrightarrow> length rest \<le> length cs) \<and>
   (ParseMembers entries cs = Inr (v, rest) \<longrightarrow> length rest < length cs) \<and>
   (ParseMembers entries cs = Inl (what, rest) \<longrightarrow> length rest \<le> length cs) \<and>
   (ParseElements items cs = Inr (v, rest) \<longrightarrow> length rest < length cs) \<and>
   (ParseElements items cs = Inl (what, rest) \<longrightarrow> length rest \<le> length cs)"
  using parser_leaves [of cs] parser_stops [of cs] by (simp add: leaves_def stops_def)

theorem json_parser_progress_witness:
  "ParseValue ''[1]x'' = Inr (JArray [JNumber ''1''], ''x'') \<and> length ''x'' < length ''[1]x''"
proof -
  have "ParseValue ''[1]x'' = Inr (JArray [JNumber ''1''], ''x'')" by code_simp
  then show ?thesis using json_parser_progress [of "''[1]x''" "JArray [JNumber ''1'']" "''x''"] by blast
qed

text \<open>
  Property C36: \<open>AsInt64\<close> never rounds.  It succeeds exactly on an optional minus sign and digits
  whose value fits 64 bits, with that value; every 64-bit integer the code prints is read back.
\<close>

theorem json_integers_exact:
  "(AsInt64 v = Some n \<longleftrightarrow> int64_min \<le> n \<and> n \<le> int64_max \<and>
     (\<exists>ds. digit_run ds \<and> (v = JNumber ds \<and> n = int (digits_value ds) \<or> v = JNumber (CHR ''-'' # ds) \<and> n = - int (digits_value ds)))) \<and>
   (int64_min \<le> n \<and> n \<le> int64_max \<longrightarrow> AsInt64 (MakeInt n) = Some n)"
  using AsInt64_literal AsInt64_MakeInt by blast

theorem json_integers_exact_witness: "AsInt64 (MakeInt (- 9223372036854775808)) = Some (- 9223372036854775808)"
  using json_integers_exact [of JNull "- 9223372036854775808"] by (simp add: int64_min_def int64_max_def)

end
