(* ===== verification/Text_Reader.thy ===== *)
theory Text_Reader
  imports Decimal_Text Operation_Types
begin

text \<open>
  The positional reader and the writers of \<open>src/Operations.cc\<close> that the edit log is stored
  with.  A reader takes the text from \<open>position_\<close> on and returns what it read with the rest, or
  the exception it throws: \<open>At\<close> carries the text where it stopped, whose offset the message
  names.  The loops over list items have fuel; \<open>read_list_ends\<close> shows that the length of the text
  is enough, so \<open>Unended\<close> is never the result.
\<close>

section \<open>Readers\<close>

datatype stop = Plain string | At string string | Unended

type_synonym 'a reader = "string \<Rightarrow> stop + 'a \<times> string"

definition bindP :: "'a reader \<Rightarrow> ('a \<Rightarrow> 'b reader) \<Rightarrow> 'b reader" where
  "bindP r k s = (case r s of Inl e \<Rightarrow> Inl e | Inr (x, s') \<Rightarrow> k x s')"

definition ret :: "'a \<Rightarrow> 'a reader" where
  "ret x s = Inr (x, s)"

definition throw :: "string \<Rightarrow> 'a reader" where
  "throw what s = Inl (Plain what)"

definition isspace :: "char \<Rightarrow> bool" where
  "isspace c \<longleftrightarrow> c = CHR '' '' \<or> 9 \<le> (of_char c :: nat) \<and> (of_char c :: nat) \<le> 13"

definition Skip :: "string \<Rightarrow> string" where
  "Skip s = dropWhile isspace s"

definition strip_prefix :: "string \<Rightarrow> string \<Rightarrow> string option" where
  "strip_prefix t s = (if take (length t) s = t then Some (drop (length t) s) else None)"

definition Expect :: "string \<Rightarrow> unit reader" where
  "Expect t s =
     (let r = Skip s in
      case strip_prefix t r of None \<Rightarrow> Inl (At (''expected '' @ quoted t) r) | Some q \<Rightarrow> Inr ((), q))"

definition Consume :: "string \<Rightarrow> bool reader" where
  "Consume t s = (let r = Skip s in case strip_prefix t r of None \<Rightarrow> Inr (False, r) | Some q \<Rightarrow> Inr (True, q))"

fun string_body :: "string \<Rightarrow> string reader" where
  "string_body acc [] = Inl (Plain ''unterminated string'')"
| "string_body acc (c # q) =
     (if c = CHR 0x22 then Inr (acc, q)
      else if c = CHR 0x5C
      then case q of
             [] \<Rightarrow> Inl (Plain ''unterminated string escape'')
           | e # q' \<Rightarrow> if e \<noteq> CHR 0x22 \<and> e \<noteq> CHR 0x5C then Inl (Plain ''unsupported string escape'')
                       else string_body (acc @ [e]) q'
      else string_body (acc @ [c]) q)"

definition String :: "string reader" where
  "String s =
     (case Skip s of
        [] \<Rightarrow> Inl (At ''expected string'' [])
      | c # q \<Rightarrow> if c \<noteq> CHR 0x22 then Inl (At ''expected string'' q) else string_body [] q)"

text \<open>\<open>strtoll\<close> stops at the ends of its range.\<close>

definition strtoll :: "bool \<Rightarrow> string \<Rightarrow> int" where
  "strtoll negative ds =
     max int64_min (min int64_max (if negative then - int (digits_value ds) else int (digits_value ds)))"

definition Integer :: "int reader" where
  "Integer s =
     (let r = Skip s; negative = (r \<noteq> [] \<and> hd r = CHR ''-''); t = (if negative then tl r else r) in
      if takeWhile is_digit t = [] then Inl (At ''expected integer'' r)
      else Inr (strtoll negative (takeWhile is_digit t), dropWhile is_digit t))"

definition Finish :: "unit reader" where
  "Finish s = (if Skip s \<noteq> [] then Inl (Plain ''unexpected trailing operation JSON'') else Inr ((), []))"

text \<open>
  The list loop of the sources: nothing before the closing bracket, or items separated by
  commas.
\<close>

fun read_items :: "string \<Rightarrow> 'a reader \<Rightarrow> nat \<Rightarrow> 'a list \<Rightarrow> 'a list reader" where
  "read_items closing r 0 acc s = Inl Unended"
| "read_items closing r (Suc n) acc s =
     bindP r (\<lambda>x. bindP (Consume closing) (\<lambda>ended.
       if ended then ret (acc @ [x])
       else bindP (Expect '','') (\<lambda>_. read_items closing r n (acc @ [x])))) s"

definition read_rest :: "string \<Rightarrow> 'a reader \<Rightarrow> 'a list reader" where
  "read_rest closing r =
     bindP (Consume closing) (\<lambda>ended. if ended then ret [] else (\<lambda>s. read_items closing r (Suc (length s)) [] s))"

section \<open>Fields\<close>

text \<open>A field is written and expected as \<open>,"name":\<close>, the first one of an object as \<open>{"name":\<close>.\<close>

definition key :: "string \<Rightarrow> string" where
  "key n = CHR '','' # CHR 0x22 # n @ [CHR 0x22, CHR '':'']"

definition first_key :: "string \<Rightarrow> string" where
  "first_key n = CHR ''{'' # CHR 0x22 # n @ [CHR 0x22, CHR '':'']"

definition field :: "string \<Rightarrow> 'a reader \<Rightarrow> ('a \<Rightarrow> 'b reader) \<Rightarrow> 'b reader" where
  "field n r k = bindP (Expect (key n)) (\<lambda>_. bindP r k)"

definition first_field :: "string \<Rightarrow> 'a reader \<Rightarrow> ('a \<Rightarrow> 'b reader) \<Rightarrow> 'b reader" where
  "first_field n r k = bindP (Expect (first_key n)) (\<lambda>_. bindP r k)"

definition optional_field :: "string \<Rightarrow> 'a reader \<Rightarrow> 'a \<Rightarrow> ('a \<Rightarrow> 'b reader) \<Rightarrow> 'b reader" where
  "optional_field n r absent k = bindP (Consume (key n)) (\<lambda>present. if present then bindP r k else k absent)"

definition list_field :: "string \<Rightarrow> 'a reader \<Rightarrow> ('a list \<Rightarrow> 'b reader) \<Rightarrow> 'b reader" where
  "list_field n r k = bindP (Expect (key n @ ''['')) (\<lambda>_. bindP (read_rest '']'' r) k)"

definition first_list_field :: "string \<Rightarrow> 'a reader \<Rightarrow> ('a list \<Rightarrow> 'b reader) \<Rightarrow> 'b reader" where
  "first_list_field n r k = bindP (Expect (first_key n @ ''['')) (\<lambda>_. bindP (read_rest '']'' r) k)"

definition optional_list_field :: "string \<Rightarrow> 'a reader \<Rightarrow> ('a list \<Rightarrow> 'b reader) \<Rightarrow> 'b reader" where
  "optional_list_field n r k =
     bindP (Consume (key n @ ''['')) (\<lambda>present. if present then bindP (read_rest '']'' r) k else k [])"

definition closing :: "'a \<Rightarrow> 'a reader" where
  "closing x = bindP (Expect ''}'') (\<lambda>_. ret x)"

definition read_bool :: "bool reader" where
  "read_bool = bindP (Consume ''true'') (\<lambda>yes. if yes then ret True else bindP (Expect ''false'') (\<lambda>_. ret False))"

definition read_list :: "'a reader \<Rightarrow> 'a list reader" where
  "read_list r = bindP (Expect ''['') (\<lambda>_. read_rest '']'' r)"

section \<open>Writers\<close>

definition WriteString :: "string \<Rightarrow> string" where
  "WriteString v =
     CHR 0x22 # concat (map (\<lambda>c. if c = CHR 0x22 \<or> c = CHR 0x5C then [CHR 0x5C, c] else [c]) v) @ [CHR 0x22]"

text \<open>Identifiers are mostly streamed between quotes without escaping.\<close>

definition raw :: "string \<Rightarrow> string" where
  "raw v = CHR 0x22 # v @ [CHR 0x22]"

definition write_bool :: "bool \<Rightarrow> string" where
  "write_bool b = (if b then ''true'' else ''false'')"

definition wfield :: "string \<Rightarrow> string \<Rightarrow> string" where
  "wfield n w = key n @ w"

definition first_wfield :: "string \<Rightarrow> string \<Rightarrow> string" where
  "first_wfield n w = first_key n @ w"

definition write_list :: "('a \<Rightarrow> string) \<Rightarrow> 'a list \<Rightarrow> string" where
  "write_list w xs = CHR ''['' # join_comma (map w xs) @ '']''"

section \<open>Reading back what was written\<close>

text \<open>\<open>plain\<close> texts need no escape, so streaming them between quotes is reversible.\<close>

definition plain :: "string \<Rightarrow> bool" where
  "plain v \<longleftrightarrow> list_all (\<lambda>c. c \<noteq> CHR 0x22 \<and> c \<noteq> CHR 0x5C) v"

named_theorems reads \<open>what the readers do on the text the writers make\<close>

lemma bindP_assoc: "bindP (bindP r f) g = bindP r (\<lambda>x. bindP (f x) g)"
  by (auto simp: bindP_def fun_eq_iff split: sum.splits)

lemma bindP_Inr: "r s = Inr (x, s') \<Longrightarrow> bindP r k s = k x s'"
  by (simp add: bindP_def)

lemma ret_apply [reads]: "ret x s = Inr (x, s)" "bindP (ret x) k = k x"
  by (simp_all add: ret_def bindP_def fun_eq_iff)

lemma punctuation_not_space: "\<not> isspace (CHR '','')" "\<not> isspace (CHR ''{'')" "\<not> isspace (CHR ''}'')" "\<not> isspace (CHR '']'')"
  "\<not> isspace (CHR ''['')" "\<not> isspace (CHR '':'')" "\<not> isspace (CHR 0x22)" "\<not> isspace (CHR ''n'')" "\<not> isspace (CHR ''t'')"
  "\<not> isspace (CHR ''f'')"
  by code_simp+

lemma Skip_Cons: "\<not> isspace c \<Longrightarrow> Skip (c # s) = c # s"
  by (simp add: Skip_def)

lemma strip_prefix_append: "strip_prefix t (t @ s) = Some s"
  by (simp add: strip_prefix_def)

lemma Expect_prefix: "t \<noteq> [] \<Longrightarrow> \<not> isspace (hd t) \<Longrightarrow> Expect t (t @ s) = Inr ((), s)"
  by (cases t) (simp_all add: Expect_def Skip_def strip_prefix_def Let_def)

lemma Consume_prefix: "t \<noteq> [] \<Longrightarrow> \<not> isspace (hd t) \<Longrightarrow> Consume t (t @ s) = Inr (True, s)"
  by (cases t) (simp_all add: Consume_def Skip_def strip_prefix_def Let_def)

lemma Consume_no_prefix: "\<not> isspace c \<Longrightarrow> strip_prefix t (c # s) = None \<Longrightarrow> Consume t (c # s) = Inr (False, c # s)"
  by (simp add: Consume_def Skip_def Let_def)

lemma Consume_other_char: "\<not> isspace c \<Longrightarrow> d \<noteq> c \<Longrightarrow> Consume (d # t) (c # s) = Inr (False, c # s)"
  by (simp add: Consume_no_prefix strip_prefix_def)

lemma key_Cons: "key n @ s = CHR '','' # (CHR 0x22 # n @ [CHR 0x22, CHR '':'']) @ s"
  by (simp add: key_def)

lemma Expect_key:
  shows "bindP (Expect (key n)) k (key n @ s) = k () s" and "bindP (Expect (first_key n)) k (first_key n @ s) = k () s"
    and "bindP (Expect (key n @ t)) k (key n @ t @ s) = k () s" and "bindP (Consume (key n)) j (key n @ s) = j True s"
    and "bindP (Consume (key n @ t)) j (key n @ t @ s) = j True s"
  using Expect_prefix [of "key n" s] Expect_prefix [of "first_key n" s] Expect_prefix [of "key n @ t" s]
    Consume_prefix [of "key n" s] Consume_prefix [of "key n @ t" s] punctuation_not_space
  by (simp_all add: bindP_Inr key_def first_key_def)

lemma Expect_char [reads]:
  shows "bindP (Expect ''}'') k (CHR ''}'' # s) = k () s" and "bindP (Expect '':'') k (CHR '':'' # s) = k () s"
    and "bindP (Expect '','') k (CHR '','' # s) = k () s" and "bindP (Expect ''['') k (CHR ''['' # s) = k () s"
    and "bindP (Consume ''}'') j (CHR ''}'' # s) = j True s" and "bindP (Consume '']'') j (CHR '']'' # s) = j True s"
    and "bindP (Consume ''}'') j (key n @ s) = j False (key n @ s)"
    and "bindP (Consume '']'') j (CHR '','' # s) = j False (CHR '','' # s)"
    and "bindP (Consume ''}'') j (CHR '','' # s) = j False (CHR '','' # s)"
  using Expect_prefix [of "''}''" s] Expect_prefix [of "'':''" s] Expect_prefix [of "'',''" s] Expect_prefix [of "''[''" s]
    Consume_prefix [of "''}''" s] Consume_prefix [of "'']''" s] punctuation_not_space Consume_other_char [of "CHR '',''"]
  by (simp_all add: bindP_Inr key_Cons)

lemma Expect_bracket:
  shows "bindP (Expect (key n @ ''['')) k (key n @ CHR ''['' # s) = k () s"
    and "bindP (Consume (key n @ ''['')) j (key n @ CHR ''['' # s) = j True s"
    and "bindP (Expect (key n @ ''{'')) k (key n @ CHR ''{'' # s) = k () s"
  using Expect_key(3,5) [of n "''[''" _ s] Expect_key(3) [of n "''{''" _ s] by simp_all

text \<open>Names without quotes: a field is not mistaken for another one.\<close>

lemma strip_other_key:
  assumes "CHR 0x22 \<notin> set n" and "CHR 0x22 \<notin> set m" and "n \<noteq> m"
  shows "strip_prefix (key n @ t) (key m @ s) = None"
proof (rule ccontr)
  assume "strip_prefix (key n @ t) (key m @ s) \<noteq> None"
  then obtain z where "key m @ s = (key n @ t) @ z"
    by (metis append_take_drop_id option.exhaust strip_prefix_def)
  then have e: "m @ CHR 0x22 # (CHR '':'' # s) = n @ CHR 0x22 # (CHR '':'' # t @ z)" by (simp add: key_def)
  have "takeWhile (\<lambda>c. c \<noteq> CHR 0x22) (x @ CHR 0x22 # y) = x" if "CHR 0x22 \<notin> set x" for x y
    using that by (induction x) auto
  then show False using e assms by metis
qed

lemma Consume_other_key:
  assumes "CHR 0x22 \<notin> set n" and "CHR 0x22 \<notin> set m" and "n \<noteq> m"
  shows "bindP (Consume (key n)) j (key m @ s) = j False (key m @ s)"
    and "bindP (Consume (key n @ t)) j (key m @ s) = j False (key m @ s)"
  using strip_other_key [OF assms, of "[]" s] strip_other_key [OF assms, of t s] punctuation_not_space(1)
  by (simp_all add: bindP_Inr Consume_no_prefix key_Cons)

lemma Consume_key_brace: "bindP (Consume (key n)) j (CHR ''}'' # s) = j False (CHR ''}'' # s)"
  using Consume_other_char [OF punctuation_not_space(3), of "CHR '',''"] by (simp add: bindP_Inr key_def)

lemma fields_back [reads]:
  shows "field n r k (wfield n w @ s) = bindP r k (w @ s)" and "first_field n r k (first_wfield n w @ s) = bindP r k (w @ s)"
    and "optional_field n r d k (wfield n w @ s) = bindP r k (w @ s)"
    and "optional_field n r d k (CHR ''}'' # s) = k d (CHR ''}'' # s)"
  by (simp_all add: field_def first_field_def optional_field_def wfield_def first_wfield_def Expect_key Consume_key_brace)

lemma object_field_back [reads]: "bindP (Expect (key n @ ''{'')) j (wfield n (CHR ''{'' # t) @ s) = j () (t @ s)"
  by (simp add: wfield_def Expect_bracket)

lemma optional_field_other [reads]:
  assumes "CHR 0x22 \<notin> set n" and "CHR 0x22 \<notin> set m" and "n \<noteq> m"
  shows "optional_field n r d k (wfield m w @ s) = k d (wfield m w @ s)"
    and "optional_list_field n r' k' (wfield m w @ s) = k' [] (wfield m w @ s)"
  by (simp_all add: optional_field_def optional_list_field_def wfield_def Consume_other_key [OF assms])

lemma closing_back [reads]: "closing x (CHR ''}'' # s) = Inr (x, s)"
  by (simp add: closing_def reads)

lemma read_bool_back [reads]: "bindP read_bool k (write_bool b @ s) = k b s"
  using Consume_prefix [of "''true''" s] Expect_prefix [of "''false''" s] Consume_other_char [of "CHR ''f''" "CHR ''t''" "''rue''" "''alse'' @ s"]
    punctuation_not_space
  by (simp add: read_bool_def write_bool_def bindP_assoc bindP_Inr ret_apply)

subsection \<open>Strings and integers\<close>

lemma string_body_escaped:
  "string_body acc (concat (map (\<lambda>c. if c = CHR 0x22 \<or> c = CHR 0x5C then [CHR 0x5C, c] else [c]) v) @ CHR 0x22 # s) = Inr (acc @ v, s)"
  by (induction v arbitrary: acc) auto

lemma string_body_plain: "plain v \<Longrightarrow> string_body acc (v @ CHR 0x22 # s) = Inr (acc @ v, s)"
  by (induction v arbitrary: acc) (auto simp: plain_def)

lemma String_back:
  shows "String (WriteString v @ s) = Inr (v, s)" and "plain v \<Longrightarrow> String (raw v @ s) = Inr (v, s)"
  using punctuation_not_space(7)
  by (simp_all add: String_def WriteString_def raw_def Skip_def string_body_escaped string_body_plain)

lemma text_head: "WriteString v \<noteq> []" "hd (WriteString v) = CHR 0x22" "raw v \<noteq> []" "hd (raw v) = CHR 0x22"
  by (simp_all add: WriteString_def raw_def)

definition no_digit_first :: "string \<Rightarrow> bool" where
  "no_digit_first s \<longleftrightarrow> s = [] \<or> \<not> is_digit (hd s)"

lemma digit_prefix:
  assumes "list_all is_digit ds" and "no_digit_first s"
  shows "takeWhile is_digit (ds @ s) = ds" and "dropWhile is_digit (ds @ s) = s"
  using assms by (induction ds) (cases s; auto simp: no_digit_first_def)+

lemma no_digit_first_simps [reads]: "no_digit_first (CHR ''}'' # s)" "no_digit_first (wfield n w @ s)" "no_digit_first (CHR '','' # s)"
proof -
  have "\<not> is_digit (CHR ''}'')" "\<not> is_digit (CHR '','')" by code_simp+
  then show "no_digit_first (CHR ''}'' # s)" "no_digit_first (wfield n w @ s)" "no_digit_first (CHR '','' # s)"
    by (simp_all add: no_digit_first_def wfield_def key_Cons)
qed

lemma digit_not_space: "is_digit c \<Longrightarrow> \<not> isspace c \<and> c \<noteq> CHR ''-''"
  by (auto simp: is_digit_def isspace_def)

lemma Integer_back:
  assumes "in_int64 x" and "no_digit_first s"
  shows "Integer (to_string x @ s) = Inr (x, s)"
proof -
  have nat: "list_all is_digit (nat_to_string n)" "nat_to_string n \<noteq> []" "digits_value (nat_to_string n) = n" for n
    by (fact digits_of_nat)+
  have h: "is_digit (hd (nat_to_string n))" for n using nat(1,2) [of n] by (cases "nat_to_string n") auto
  have m: "\<not> isspace (CHR ''-'')" by code_simp
  show ?thesis
  proof (cases "x < 0")
    case True
    then show ?thesis
      using assms(1) m nat [of "nat (- x)"] digit_prefix [OF nat(1) assms(2), of "nat (- x)"]
      by (simp add: Integer_def to_string_def Skip_def Let_def strtoll_def in_int64_def)
  next
    case False
    have "Skip (nat_to_string (nat x) @ s) = nat_to_string (nat x) @ s"
      using h [of "nat x"] nat(2) [of "nat x"] digit_not_space by (cases "nat_to_string (nat x)") (auto simp: Skip_def)
    then show ?thesis
      using False assms(1) nat [of "nat x"] h [of "nat x"] digit_not_space digit_prefix [OF nat(1) assms(2), of "nat x"]
      by (simp add: Integer_def to_string_def Let_def strtoll_def in_int64_def)
  qed
qed

lemma bindP_String [reads]:
  shows "bindP String k (WriteString v @ s) = k v s" and "plain v \<Longrightarrow> bindP String k (raw v @ s) = k v s"
  by (simp_all add: bindP_Inr String_back)

lemma bindP_Integer [reads]: "in_int64 x \<Longrightarrow> no_digit_first s \<Longrightarrow> bindP Integer k (to_string x @ s) = k x s"
  by (simp add: bindP_Inr Integer_back)

subsection \<open>Formats\<close>

text \<open>
  A format is a writer and a reader of one kind of item.  The reader gives back the image of
  what was written, which is the item itself for every format but that of exact clips; a
  written item begins with a brace or a quote.  Lists of such items and the fields that hold
  them are then read back as well.
\<close>

locale item_format =
  fixes w :: "'a \<Rightarrow> string" and r :: "'a reader" and ok :: "'a \<Rightarrow> bool" and img :: "'a \<Rightarrow> 'a"
  assumes item_back: "ok x \<Longrightarrow> r (w x @ s) = Inr (img x, s)"
    and item_head: "w x \<noteq> []" "hd (w x) = CHR ''{'' \<or> hd (w x) = CHR 0x22"
begin

lemma item [reads]: "ok x \<Longrightarrow> bindP r k (w x @ s) = k (img x) s"
  by (simp add: bindP_Inr item_back)

lemma not_closing: "closer = '']'' \<or> closer = ''}'' \<Longrightarrow> bindP (Consume closer) j (w x @ s) = j False (w x @ s)"
proof -
  obtain c q where c: "w x = c # q" "c = CHR ''{'' \<or> c = CHR 0x22" using item_head [of x] by (cases "w x") auto
  have "Consume [d] (c # t) = Inr (False, c # t)" if "d = CHR '']'' \<or> d = CHR ''}''" for d t
    using that c(2) by (elim disjE) (simp_all add: Consume_other_char punctuation_not_space)
  then have "Consume closer (w x @ s) = Inr (False, w x @ s)" if "closer = '']'' \<or> closer = ''}''"
    using that by (elim disjE) (simp_all add: c(1))
  then show "closer = '']'' \<or> closer = ''}'' \<Longrightarrow> bindP (Consume closer) j (w x @ s) = j False (w x @ s)"
    by (rule bindP_Inr)
qed

lemma items:
  assumes "closer = CHR '']'' \<or> closer = CHR ''}''" and "xs \<noteq> []" and "list_all ok xs" and "length xs \<le> n"
  shows "read_items [closer] r n acc (join_comma (map w xs) @ closer # s) = Inr (acc @ map img xs, s)"
  using assms(2-4)
proof (induction xs arbitrary: n acc)
  case (Cons x xs)
  then obtain m where n: "n = Suc m" by (cases n) auto
  show ?case
  proof (cases "xs = []")
    case True
    then show ?thesis using Cons.prems assms(1) by (auto simp: n item reads)
  next
    case False
    have "read_items [closer] r m (acc @ [img x]) (join_comma (map w xs) @ closer # s) = Inr ((acc @ [img x]) @ map img xs, s)"
      by (rule Cons.IH) (use Cons.prems False n in auto)
    then show ?thesis using Cons.prems assms(1) False by (auto simp: n item reads join_comma_Cons)
  qed
qed simp

lemma length_items: "length xs \<le> length (join_comma (map w xs))"
proof (induction xs)
  case (Cons x xs)
  have "1 \<le> length (w x)" using item_head(1) [of x] by (cases "w x") simp_all
  then show ?case using Cons by (cases "xs = []") (simp_all add: join_comma_Cons)
qed simp

lemma rest_back [reads]:
  assumes "list_all ok xs"
  shows "bindP (read_rest '']'' r) k (join_comma (map w xs) @ CHR '']'' # s) = k (map img xs) s"
    and "bindP (read_rest ''}'' r) k (join_comma (map w xs) @ CHR ''}'' # s) = k (map img xs) s"
proof -
  have *: "read_rest [c] r (join_comma (map w xs) @ c # s) = Inr (map img xs, s)" if c: "c = CHR '']'' \<or> c = CHR ''}''" for c
  proof (cases xs)
    case Nil
    then show ?thesis using c by (auto simp: read_rest_def reads)
  next
    case (Cons x ys)
    obtain t where t: "join_comma (map w xs) @ c # s = w x @ t" using Cons by (cases ys) auto
    have nc: "bindP (Consume [c]) j (w x @ t) = j False (w x @ t)" for j
      using not_closing [of "[c]" j x t] c by blast
    have "read_rest [c] r (w x @ t) = read_items [c] r (Suc (length (w x @ t))) [] (w x @ t)"
      unfolding read_rest_def nc by (simp only: if_False)
    moreover have "length xs \<le> Suc (length (w x @ t))"
      using length_items [of xs] unfolding t [symmetric] by simp
    ultimately show ?thesis using items [OF c _ assms, of "Suc (length (w x @ t))" "[]" s] Cons unfolding t [symmetric] by simp
  qed
  show "bindP (read_rest '']'' r) k (join_comma (map w xs) @ CHR '']'' # s) = k (map img xs) s"
    and "bindP (read_rest ''}'' r) k (join_comma (map w xs) @ CHR ''}'' # s) = k (map img xs) s"
    by (simp_all add: bindP_Inr *)
qed

lemma rest_apply: "list_all ok xs \<Longrightarrow> read_rest '']'' r (join_comma (map w xs) @ CHR '']'' # s) = Inr (map img xs, s)"
  using rest_back(1) [of xs ret s] by (auto simp: bindP_def ret_def split: sum.splits)

lemma lists_back [reads]:
  assumes "list_all ok xs"
  shows "read_list r (write_list w xs @ s) = Inr (map img xs, s)"
    and "list_field n r k (wfield n (write_list w xs) @ s) = k (map img xs) s"
    and "optional_list_field n r k (wfield n (write_list w xs) @ s) = k (map img xs) s"
  by (simp_all add: read_list_def list_field_def optional_list_field_def wfield_def write_list_def reads Expect_bracket
    rest_back [OF assms] rest_apply [OF assms])

end

subsection \<open>Every reader ends\<close>

text \<open>A reader does not run out of fuel and does not lengthen the text.\<close>

definition ends :: "'a reader \<Rightarrow> bool" where
  "ends r \<longleftrightarrow> (\<forall>s. r s \<noteq> Inl Unended \<and> (\<forall>x s'. r s = Inr (x, s') \<longrightarrow> length s' \<le> length s))"

named_theorems ends_intro

lemma ends_bindP [ends_intro]: "ends r \<Longrightarrow> (\<And>x. ends (k x)) \<Longrightarrow> ends (bindP r k)"
  unfolding ends_def bindP_def by (fastforce split: sum.splits intro: le_trans)

lemma ends_ret [ends_intro]: "ends (ret x)" and ends_throw [ends_intro]: "ends (throw what)"
  by (simp_all add: ends_def ret_def throw_def)

lemma ends_if [ends_intro]: "(c \<Longrightarrow> ends r) \<Longrightarrow> (\<not> c \<Longrightarrow> ends r') \<Longrightarrow> ends (if c then r else r')"
  by simp

lemma Skip_le: "length (Skip s) \<le> length s"
  by (simp add: Skip_def length_dropWhile_le)

lemma strip_prefix_le: "strip_prefix t s = Some q \<Longrightarrow> length q + length t = length s"
  by (auto simp: strip_prefix_def split: if_splits) (metis append_take_drop_id length_append length_drop add.commute)

lemma ends_Expect [ends_intro]: "ends (Expect t)" and ends_Consume [ends_intro]: "ends (Consume t)"
proof -
  have *: "length q \<le> length s" if "strip_prefix t (Skip s) = Some q" for q s
    using strip_prefix_le [OF that] Skip_le [of s] by linarith
  then show "ends (Expect t)" "ends (Consume t)"
    by (auto simp: ends_def Expect_def Consume_def Let_def Skip_le split: option.splits)
qed

lemma Expect_shortens: "Expect t s = Inr (x, s') \<Longrightarrow> t \<noteq> [] \<Longrightarrow> length s' < length s"
  using Skip_le [of s] by (cases t) (auto simp: Expect_def Let_def split: option.splits dest!: strip_prefix_le)

lemma string_body_ends: "string_body acc s \<noteq> Inl Unended \<and> (string_body acc s = Inr (x, s') \<longrightarrow> length s' \<le> length s)"
  by (induction acc s arbitrary: x s' rule: string_body.induct) (auto split: list.splits if_splits simp: le_SucI)

lemma ends_String [ends_intro]: "ends String"
proof -
  have "String s = Inr (x, s') \<Longrightarrow> length s' \<le> length s" for s x s'
    using string_body_ends [of "[]" "tl (Skip s)" x s'] Skip_le [of s]
    by (auto simp: String_def split: list.splits if_splits)
  then show ?thesis using string_body_ends by (auto simp: ends_def String_def split: list.splits if_splits)
qed

lemma ends_Integer [ends_intro]: "ends Integer"
proof -
  have "length (dropWhile is_digit t) \<le> length s" if "t = Skip s \<or> t = tl (Skip s)" for t s
    using that Skip_le [of s] length_dropWhile_le [of is_digit t] by auto
  then show ?thesis by (auto simp: ends_def Integer_def Let_def)
qed

lemma read_items_ends:
  assumes "ends r"
  shows "(length s < n \<longrightarrow> read_items closer r n acc s \<noteq> Inl Unended) \<and>
    (\<forall>x s'. read_items closer r n acc s = Inr (x, s') \<longrightarrow> length s' \<le> length s)"
proof (induction n arbitrary: acc s)
  case (Suc n)
  show ?case
  proof (cases "r s")
    case (Inl e)
    then show ?thesis using assms by (auto simp: bindP_def ends_def)
  next
    case (Inr p)
    then obtain x s1 where r: "r s = Inr (x, s1)" by (cases p) auto
    have 1: "length s1 \<le> length s" using assms r by (auto simp: ends_def)
    have "\<exists>b s2. Consume closer s1 = Inr (b, s2)"
      by (cases "strip_prefix closer (Skip s1)") (auto simp: Consume_def Let_def)
    then obtain b s2 where c: "Consume closer s1 = Inr (b, s2)" by blast
    have 2: "length s2 \<le> length s1" using ends_Consume c by (auto simp: ends_def)
    show ?thesis
    proof (cases "b \<or> (\<exists>e. Expect '','' s2 = Inl e)")
      case True
      moreover have "Expect '','' s2 \<noteq> Inl Unended" using ends_Expect by (auto simp: ends_def)
      ultimately show ?thesis using r c 1 2 by (auto simp: bindP_def ret_def)
    next
      case False
      then obtain s3 where e: "\<not> b" "Expect '','' s2 = Inr ((), s3)" by (cases "Expect '','' s2") auto
      have 3: "length s3 < length s2" using Expect_shortens [OF e(2)] by simp
      show ?thesis using Suc [of s3 "acc @ [x]"] r c e 1 2 3 by (auto simp: bindP_def)
    qed
  qed
qed simp

lemma ends_read_rest [ends_intro]: "ends r \<Longrightarrow> ends (read_rest closer r)"
proof -
  assume r: "ends r"
  have "ends (\<lambda>s. read_items closer r (Suc (length s)) [] s)"
    using read_items_ends [OF r] by (auto simp: ends_def simp del: read_items.simps)
  then show ?thesis unfolding read_rest_def by (intro ends_intro)
qed

lemma ends_fields [ends_intro]:
  shows "ends r \<Longrightarrow> (\<And>x. ends (k x)) \<Longrightarrow> ends (field n r k)"
    and "ends r \<Longrightarrow> (\<And>x. ends (k x)) \<Longrightarrow> ends (first_field n r k)"
    and "ends r \<Longrightarrow> (\<And>x. ends (k x)) \<Longrightarrow> ends (optional_field n r d k)"
    and "ends r' \<Longrightarrow> (\<And>x. ends (j x)) \<Longrightarrow> ends (list_field n r' j)"
    and "ends r' \<Longrightarrow> (\<And>x. ends (j x)) \<Longrightarrow> ends (first_list_field n r' j)"
    and "ends r' \<Longrightarrow> (\<And>x. ends (j x)) \<Longrightarrow> ends (optional_list_field n r' j)"
    and "ends (closing y)" and "ends read_bool" and "ends r' \<Longrightarrow> ends (read_list r')"
  unfolding field_def first_field_def optional_field_def list_field_def first_list_field_def optional_list_field_def
    closing_def read_bool_def read_list_def
  by (intro ends_intro; simp)+

end
