(* ===== verification/Exact_State_Text.thy ===== *)
theory Exact_State_Text
  imports Text_Reader
begin

text \<open>
  The shared pieces of the operation text of \<open>src/Operations.cc\<close>: times, effect parameters,
  colour settings, exact positions and exact track states, each with its writer and its reader.
\<close>

section \<open>Times and small records\<close>

definition WriteTime :: "RationalTime \<Rightarrow> string" where
  "WriteTime t = first_wfield ''value'' (to_string (rt_value t)) @ wfield ''rate'' (to_string (rt_rate t)) @ ''}''"

definition ReadTime :: "RationalTime reader" where
  "ReadTime =
     first_field ''value'' Integer (\<lambda>value.
     field ''rate'' Integer (\<lambda>rate.
     bindP (Expect ''}'') (\<lambda>_.
       if \<not> in_int32 rate then throw ''RationalTime rate outside int32_t range'' else ret (RT value rate))))"

definition WriteEffectParamValue :: "EffectParamValue \<Rightarrow> string" where
  "WriteEffectParamValue v = first_wfield ''num'' (to_string (ep_num v)) @ wfield ''den'' (to_string (ep_den v)) @ ''}''"

definition ReadEffectParamValue :: "EffectParamValue reader" where
  "ReadEffectParamValue =
     first_field ''num'' Integer (\<lambda>num.
     field ''den'' Integer (\<lambda>den.
     bindP (Expect ''}'') (\<lambda>_.
       if \<not> in_int32 num \<or> \<not> in_int32 den then throw ''EffectParamValue outside int32_t range''
       else ret \<lparr>ep_num = num, ep_den = den\<rparr>)))"

definition WriteColorManagement :: "ColorManagementSettings \<Rightarrow> string" where
  "WriteColorManagement c =
     first_wfield ''enabled'' (write_bool (cm_enabled c)) @
     wfield ''input_gamut'' (WriteString (cm_input_gamut c)) @
     wfield ''input_transfer'' (WriteString (cm_input_transfer c)) @
     wfield ''input_ycbcr_matrix'' (WriteString (cm_input_ycbcr_matrix c)) @
     wfield ''input_range'' (WriteString (cm_input_range c)) @
     wfield ''working_gamut'' (WriteString (cm_working_gamut c)) @
     wfield ''output_gamut'' (WriteString (cm_output_gamut c)) @
     wfield ''output_transfer'' (WriteString (cm_output_transfer c)) @ ''}''"

definition ReadColorManagement :: "ColorManagementSettings reader" where
  "ReadColorManagement =
     first_field ''enabled'' read_bool (\<lambda>enabled.
     field ''input_gamut'' String (\<lambda>inputGamut.
     field ''input_transfer'' String (\<lambda>inputTransfer.
     field ''input_ycbcr_matrix'' String (\<lambda>inputMatrix.
     field ''input_range'' String (\<lambda>inputRange.
     field ''working_gamut'' String (\<lambda>workingGamut.
     field ''output_gamut'' String (\<lambda>outputGamut.
     field ''output_transfer'' String (\<lambda>outputTransfer.
       closing \<lparr>cm_enabled = enabled, cm_input_gamut = inputGamut, cm_input_transfer = inputTransfer,
                cm_input_ycbcr_matrix = inputMatrix, cm_input_range = inputRange,
                cm_working_gamut = workingGamut, cm_output_gamut = outputGamut,
                cm_output_transfer = outputTransfer\<rparr>))))))))"

definition write_position :: "ExactTimelinePosition \<Rightarrow> string" where
  "write_position p =
     first_wfield ''clip_id'' (raw (etp_clip_id p)) @ wfield ''timeline_in'' (WriteTime (etp_timeline_in p)) @ ''}''"

definition read_position :: "ExactTimelinePosition reader" where
  "read_position =
     first_field ''clip_id'' String (\<lambda>i.
     field ''timeline_in'' ReadTime (\<lambda>timelineIn.
       closing \<lparr>etp_clip_id = i, etp_timeline_in = timelineIn\<rparr>))"

definition WriteExactPositions :: "ExactTimelinePosition list \<Rightarrow> string" where
  "WriteExactPositions ps = write_list write_position ps"

definition ReadExactPositions :: "ExactTimelinePosition list reader" where
  "ReadExactPositions = read_list read_position"

section \<open>Effects\<close>

text \<open>\<open>std::map\<close> keeps its keys in the order of their bytes; \<open>emplace\<close> keeps the value of a key it has.\<close>

fun string_less :: "string \<Rightarrow> string \<Rightarrow> bool" where
  "string_less _ [] = False"
| "string_less [] (_ # _) = True"
| "string_less (a # as) (b # bs) =
     ((of_char a :: nat) < of_char b \<or> (of_char a :: nat) = of_char b \<and> string_less as bs)"

fun emplace :: "string \<times> 'v \<Rightarrow> (string \<times> 'v) list \<Rightarrow> (string \<times> 'v) list" where
  "emplace p [] = [p]"
| "emplace p (q # qs) =
     (if fst p = fst q then q # qs
      else if string_less (fst p) (fst q) then p # q # qs else q # emplace p qs)"

definition write_param :: "string \<times> EffectParamValue \<Rightarrow> string" where
  "write_param p = WriteString (fst p) @ '':'' @ WriteEffectParamValue (snd p)"

definition read_param :: "(string \<times> EffectParamValue) reader" where
  "read_param =
     bindP String (\<lambda>name. bindP (Expect '':'') (\<lambda>_. bindP ReadEffectParamValue (\<lambda>v. ret (name, v))))"

definition write_effect :: "ClipEffect \<Rightarrow> string" where
  "write_effect e =
     first_wfield ''id'' (raw (fx_id e)) @ wfield ''type'' (WriteString (fx_type e)) @
     wfield ''params'' (CHR ''{'' # join_comma (map write_param (fx_params e)) @ ''}'') @ ''}''"

definition read_effect :: "ClipEffect reader" where
  "read_effect =
     first_field ''id'' String (\<lambda>i.
     field ''type'' String (\<lambda>type.
     bindP (Expect (key ''params'' @ ''{'')) (\<lambda>_.
     bindP (read_rest ''}'' read_param) (\<lambda>params.
       closing \<lparr>fx_id = i, fx_type = type, fx_params = foldl (\<lambda>m p. emplace p m) [] params\<rparr>))))"

definition WriteClipEffects :: "ClipEffect list \<Rightarrow> string" where
  "WriteClipEffects es = write_list write_effect es"

definition ReadClipEffects :: "ClipEffect list reader" where
  "ReadClipEffects = read_list read_effect"

section \<open>Exact tracks\<close>

definition write_clip :: "DocumentClip \<Rightarrow> string" where
  "write_clip c =
     first_wfield ''id'' (raw (clip_id c)) @
     wfield ''source_id'' (raw (clip_source_id c)) @
     wfield ''source_in'' (WriteTime (clip_source_in c)) @
     wfield ''duration'' (WriteTime (clip_duration c)) @
     wfield ''timeline_in'' (WriteTime (clip_timeline_in c)) @
     wfield ''include_audio'' (write_bool (clip_include_audio c)) @
     (if clip_link_group_id c = [] then [] else wfield ''link_group_id'' (raw (clip_link_group_id c))) @
     (if clip_sync_anchor_clip_id c = [] then []
      else wfield ''sync_anchor_clip_id'' (raw (clip_sync_anchor_clip_id c)) @
           wfield ''sync_reference_delta'' (WriteTime (clip_sync_reference_delta c))) @
     wfield ''effects'' (WriteClipEffects (clip_effects c)) @
     (if clip_caption_group_id c = [] then [] else wfield ''caption_group_id'' (raw (clip_caption_group_id c))) @
     (if clip_caption_text c = [] then [] else wfield ''caption_text'' (WriteString (clip_caption_text c))) @
     wfield ''opacity'' (WriteEffectParamValue (clip_opacity c)) @ ''}''"

text \<open>\<open>include_audio\<close> is consumed with its value; an unknown value is left for the next field to refuse.\<close>

definition read_include_audio :: "bool reader" where
  "read_include_audio =
     bindP (Consume (key ''include_audio'' @ ''false'')) (\<lambda>no.
       if no then ret False else bindP (Consume (key ''include_audio'' @ ''true'')) (\<lambda>_. ret True))"

definition read_anchor :: "(Ulid \<times> RationalTime) reader" where
  "read_anchor =
     bindP (Consume (key ''sync_anchor_clip_id'')) (\<lambda>anchored.
       if anchored
       then bindP String (\<lambda>anchor. field ''sync_reference_delta'' ReadTime (\<lambda>delta. ret (anchor, delta)))
       else ret ([], RT 0 1))"

definition read_clip :: "DocumentClip reader" where
  "read_clip =
     first_field ''id'' String (\<lambda>i.
     field ''source_id'' String (\<lambda>sourceId.
     field ''source_in'' ReadTime (\<lambda>sourceIn.
     field ''duration'' ReadTime (\<lambda>duration.
     field ''timeline_in'' ReadTime (\<lambda>timelineIn.
     bindP read_include_audio (\<lambda>includeAudio.
     optional_field ''link_group_id'' String [] (\<lambda>linkGroupId.
     bindP read_anchor (\<lambda>(anchor, delta).
     field ''effects'' ReadClipEffects (\<lambda>effects.
     optional_field ''caption_group_id'' String [] (\<lambda>captionGroupId.
     optional_field ''caption_text'' String [] (\<lambda>captionText.
     optional_field ''opacity'' ReadEffectParamValue default_opacity (\<lambda>opacity.
       closing ((new_clip i sourceId sourceIn duration timelineIn)
         \<lparr>clip_include_audio := includeAudio, clip_link_group_id := linkGroupId,
          clip_sync_anchor_clip_id := anchor, clip_sync_reference_delta := delta, clip_effects := effects,
          clip_caption_group_id := captionGroupId, clip_caption_text := captionText,
          clip_opacity := opacity\<rparr>)))))))))))))"

definition write_track :: "ExactTrackState \<Rightarrow> string" where
  "write_track t =
     first_wfield ''track_id'' (raw (ets_track_id t)) @ wfield ''clips'' (write_list write_clip (ets_clips t)) @ ''}''"

definition read_track :: "ExactTrackState reader" where
  "read_track =
     first_field ''track_id'' String (\<lambda>trackId.
     list_field ''clips'' read_clip (\<lambda>clips.
       closing \<lparr>ets_track_id = trackId, ets_clips = clips\<rparr>))"

definition WriteExactTracks :: "ExactTrackState list \<Rightarrow> string" where
  "WriteExactTracks ts = write_list write_track ts"

definition ReadExactTracks :: "ExactTrackState list reader" where
  "ReadExactTracks = read_list read_track"

section \<open>Reading back\<close>

definition time_ok :: "RationalTime \<Rightarrow> bool" where
  "time_ok t \<longleftrightarrow> in_int64 (rt_value t) \<and> in_int32 (rt_rate t)"

definition param_ok :: "EffectParamValue \<Rightarrow> bool" where
  "param_ok v \<longleftrightarrow> in_int32 (ep_num v) \<and> in_int32 (ep_den v)"

definition effect_ok :: "ClipEffect \<Rightarrow> bool" where
  "effect_ok e \<longleftrightarrow> plain (fx_id e) \<and> list_all (\<lambda>p. param_ok (snd p)) (fx_params e) \<and> sorted_wrt string_less (map fst (fx_params e))"

definition position_ok :: "ExactTimelinePosition \<Rightarrow> bool" where
  "position_ok p \<longleftrightarrow> plain (etp_clip_id p) \<and> time_ok (etp_timeline_in p)"

definition clip_ok :: "DocumentClip \<Rightarrow> bool" where
  "clip_ok c \<longleftrightarrow> plain (clip_id c) \<and> plain (clip_source_id c) \<and> time_ok (clip_source_in c) \<and> time_ok (clip_duration c) \<and>
     time_ok (clip_timeline_in c) \<and> plain (clip_link_group_id c) \<and> plain (clip_sync_anchor_clip_id c) \<and>
     time_ok (clip_sync_reference_delta c) \<and> list_all effect_ok (clip_effects c) \<and> plain (clip_caption_group_id c) \<and>
     param_ok (clip_opacity c)"

definition track_ok :: "ExactTrackState \<Rightarrow> bool" where
  "track_ok t \<longleftrightarrow> plain (ets_track_id t) \<and> list_all clip_ok (ets_clips t)"

text \<open>
  What survives of a clip in an exact track state: the gain and the two fades are not written,
  and the reference of the synchronisation only with its anchor.
\<close>

definition stored_clip :: "DocumentClip \<Rightarrow> DocumentClip" where
  "stored_clip c =
     c\<lparr>clip_audio_gain_db := default_gain, clip_audio_fade_in := RT 0 1, clip_audio_fade_out := RT 0 1,
       clip_sync_reference_delta := (if clip_sync_anchor_clip_id c = [] then RT 0 1 else clip_sync_reference_delta c)\<rparr>"

definition stored_track :: "ExactTrackState \<Rightarrow> ExactTrackState" where
  "stored_track t = t\<lparr>ets_clips := map stored_clip (ets_clips t)\<rparr>"

lemma int32_int64: "in_int32 x \<Longrightarrow> in_int64 x"
  by (simp add: in_int32_def in_int64_def int32_min_def int32_max_def int64_min_def int64_max_def)

lemma writers_head:
  shows "first_wfield n v @ s \<noteq> []" and "hd (first_wfield n v @ s) = CHR ''{''"
  by (simp_all add: first_wfield_def first_key_def)

interpretation escaped_text: item_format WriteString String "\<lambda>_. True" id
  by unfold_locales (simp_all add: String_back text_head)

interpretation raw_text: item_format raw String plain id
  by unfold_locales (simp_all add: String_back text_head)

interpretation time_text: item_format WriteTime ReadTime time_ok id
  by unfold_locales
    (simp_all add: WriteTime_def ReadTime_def time_ok_def writers_head reads int32_int64 first_wfield_def [symmetric])

interpretation param_value_text: item_format WriteEffectParamValue ReadEffectParamValue param_ok id
  by unfold_locales (simp_all add: WriteEffectParamValue_def ReadEffectParamValue_def param_ok_def writers_head reads int32_int64)

interpretation position_text: item_format write_position read_position position_ok id
  by unfold_locales (simp_all add: write_position_def read_position_def position_ok_def writers_head reads time_text.item)

interpretation param_text: item_format write_param read_param "\<lambda>p. param_ok (snd p)" id
  by unfold_locales (simp_all add: write_param_def read_param_def reads param_value_text.item text_head)

lemma emplace_new: "\<forall>q\<in>set qs. string_less (fst q) (fst p) \<Longrightarrow> emplace p qs = qs @ [p]"
proof (induction qs)
  case (Cons q qs)
  have irrefl: "\<not> string_less x x" for x by (induction x) simp_all
  have asym: "string_less x y \<Longrightarrow> \<not> string_less y x" for x y
    by (induction x y rule: string_less.induct) auto
  have "fst p \<noteq> fst q" "\<not> string_less (fst p) (fst q)" using Cons.prems irrefl [of "fst p"] asym by auto
  then show ?case using Cons by simp
qed simp

lemma emplace_sorted: "sorted_wrt string_less (map fst (m @ ps)) \<Longrightarrow> foldl (\<lambda>m p. emplace p m) m ps = m @ ps"
proof (induction ps arbitrary: m)
  case (Cons p ps)
  have "emplace p m = m @ [p]" by (rule emplace_new) (use Cons.prems in \<open>auto simp: sorted_wrt_append\<close>)
  then show ?case using Cons.IH [of "m @ [p]"] Cons.prems by simp
qed simp

interpretation effect_text: item_format write_effect read_effect effect_ok id
proof unfold_locales
  fix e s assume ok: "effect_ok e"
  have m: "foldl (\<lambda>m p. emplace p m) [] (fx_params e) = fx_params e"
    using emplace_sorted [of "[]" "fx_params e"] ok by (simp add: effect_ok_def)
  show "read_effect (write_effect e @ s) = Inr (id e, s)"
    using ok by (simp add: read_effect_def write_effect_def effect_ok_def reads param_text.rest_back m)
qed (simp_all add: write_effect_def writers_head)

lemma lists_of_records_back [reads]:
  shows "list_all position_ok ps \<Longrightarrow> bindP ReadExactPositions k (WriteExactPositions ps @ s) = k ps s"
    and "list_all effect_ok es \<Longrightarrow> bindP ReadClipEffects j (WriteClipEffects es @ s) = j es s"
  using position_text.lists_back(1) effect_text.lists_back(1)
  by (simp_all add: ReadExactPositions_def WriteExactPositions_def ReadClipEffects_def WriteClipEffects_def bindP_Inr)

lemma include_audio_back [reads]: "bindP read_include_audio k (wfield ''include_audio'' (write_bool b) @ s) = k b s"
proof -
  let ?k = "key ''include_audio''"
  have "strip_prefix (?k @ ''false'') (?k @ ''true'' @ s) = None" by (simp add: strip_prefix_def key_def)
  then have "Consume (?k @ ''false'') (?k @ ''true'' @ s) = Inr (False, ?k @ ''true'' @ s)"
    unfolding key_Cons [of _ "''true'' @ s"] by (rule Consume_no_prefix [OF punctuation_not_space(1)])
  then have 1: "bindP (Consume (?k @ ''false'')) j (?k @ ''true'' @ s) = j False (?k @ ''true'' @ s)" for j :: "bool \<Rightarrow> 'a reader"
    by (rule bindP_Inr)
  show ?thesis
    unfolding read_include_audio_def wfield_def write_bool_def bindP_assoc append_assoc
    by (cases b) (simp_all only: if_True if_False 1 Expect_key(5) bindP_assoc ret_apply)
qed

lemma anchor_back [reads]:
  shows "plain a \<Longrightarrow> time_ok t \<Longrightarrow> bindP read_anchor k (wfield ''sync_anchor_clip_id'' (raw a) @ wfield ''sync_reference_delta'' (WriteTime t) @ s) = k (a, t) s"
    and "CHR 0x22 \<notin> set m \<Longrightarrow> m \<noteq> ''sync_anchor_clip_id'' \<Longrightarrow> bindP read_anchor k (wfield m v @ s) = k ([], RT 0 1) (wfield m v @ s)"
  by (simp_all add: read_anchor_def bindP_assoc wfield_def Expect_key reads time_text.item field_def Consume_other_key(1))

interpretation clip_text: item_format write_clip read_clip clip_ok stored_clip
proof unfold_locales
  fix c s assume ok: "clip_ok c"
  have "read_clip (write_clip c @ s) = Inr ((new_clip (clip_id c) (clip_source_id c) (clip_source_in c) (clip_duration c) (clip_timeline_in c))
         \<lparr>clip_include_audio := clip_include_audio c, clip_link_group_id := clip_link_group_id c,
          clip_sync_anchor_clip_id := clip_sync_anchor_clip_id c,
          clip_sync_reference_delta := (if clip_sync_anchor_clip_id c = [] then RT 0 1 else clip_sync_reference_delta c),
          clip_effects := clip_effects c, clip_caption_group_id := clip_caption_group_id c, clip_caption_text := clip_caption_text c,
          clip_opacity := clip_opacity c\<rparr>, s)"
    using ok unfolding read_clip_def write_clip_def clip_ok_def
    by (cases "clip_link_group_id c = []"; cases "clip_sync_anchor_clip_id c = []"; cases "clip_caption_group_id c = []"; cases "clip_caption_text c = []")
      (simp_all add: reads time_text.item param_value_text.item)
  then show "read_clip (write_clip c @ s) = Inr (stored_clip c, s)"
    by (simp add: new_clip_def stored_clip_def)
qed (simp_all add: write_clip_def writers_head)

interpretation track_text: item_format write_track read_track track_ok stored_track
  by unfold_locales
    (simp_all add: write_track_def read_track_def track_ok_def writers_head reads clip_text.lists_back stored_track_def)

lemma exact_tracks_back [reads]:
  "list_all track_ok ts \<Longrightarrow> bindP ReadExactTracks k (WriteExactTracks ts @ s) = k (map stored_track ts) s"
  using track_text.lists_back(1) by (simp add: ReadExactTracks_def WriteExactTracks_def bindP_Inr)

lemma color_management_back [reads]: "bindP ReadColorManagement k (WriteColorManagement c @ s) = k c s"
proof -
  have "ReadColorManagement (WriteColorManagement c @ s) = Inr (c, s)"
    by (simp add: ReadColorManagement_def WriteColorManagement_def reads)
  then show ?thesis by (rule bindP_Inr)
qed

lemma pieces_end [ends_intro]:
  shows "ends ReadTime" and "ends ReadEffectParamValue" and "ends ReadColorManagement" and "ends ReadExactPositions"
    and "ends ReadClipEffects" and "ends ReadExactTracks"
  unfolding ReadTime_def ReadEffectParamValue_def ReadColorManagement_def ReadExactPositions_def read_position_def
    ReadClipEffects_def read_effect_def read_param_def ReadExactTracks_def read_track_def read_clip_def read_include_audio_def read_anchor_def
  by (intro ends_intro; simp add: ends_intro split: prod.splits)+

end
