(* ===== verification/Document_Json.thy ===== *)
theory Document_Json
  imports Json Exact_State_Text
begin

text \<open>
  The reader of document files in \<open>src/Document.cc\<close>: \<open>JsonParser\<close>, which differs from the one of
  \<open>Json.cc\<close> in what it takes for a number, a string and white space, and keeps objects as
  \<open>std::map\<close>; the typed accessors; and \<open>Escape\<close>.  A parser takes the text from \<open>position_\<close> on, as
  in \<open>Text_Reader\<close>.  The recursion has fuel, which \<open>JsonParser_Parse\<close> sets from the length of the
  text; \<open>Document_Json_Laws\<close> shows that it is enough.
\<close>

section \<open>Values\<close>

datatype JsonValue = JvNull | JvBoolean bool | JvNumber int | JvString string | JvArray "JsonValue list"
  | JvObject "(string \<times> JsonValue) list"

datatype JsonType = TypeNull | TypeBoolean | TypeNumber | TypeString | TypeArray | TypeObject

fun jv_type :: "JsonValue \<Rightarrow> JsonType" where
  "jv_type JvNull = TypeNull"
| "jv_type (JvBoolean _) = TypeBoolean"
| "jv_type (JvNumber _) = TypeNumber"
| "jv_type (JvString _) = TypeString"
| "jv_type (JvArray _) = TypeArray"
| "jv_type (JvObject _) = TypeObject"

text \<open>The members of the struct; one that belongs to another type has its initial value.\<close>

fun jv_boolean :: "JsonValue \<Rightarrow> bool" where
  "jv_boolean (JvBoolean b) = b"
| "jv_boolean _ = False"

fun jv_number :: "JsonValue \<Rightarrow> int" where
  "jv_number (JvNumber n) = n"
| "jv_number _ = 0"

fun jv_string :: "JsonValue \<Rightarrow> string" where
  "jv_string (JvString s) = s"
| "jv_string _ = []"

fun jv_array :: "JsonValue \<Rightarrow> JsonValue list" where
  "jv_array (JvArray vs) = vs"
| "jv_array _ = []"

fun jv_object :: "JsonValue \<Rightarrow> (string \<times> JsonValue) list" where
  "jv_object (JvObject es) = es"
| "jv_object _ = []"

section \<open>Parsing\<close>

definition DocSkipWhitespace :: "string \<Rightarrow> string" where
  "DocSkipWhitespace s = dropWhile isspace s"

definition DocTake :: "char reader" where
  "DocTake s = (case s of [] \<Rightarrow> Inl (At ''unexpected end of input'' []) | c # q \<Rightarrow> Inr (c, q))"

definition DocAppendUtf8 :: "nat \<Rightarrow> string" where
  "DocAppendUtf8 codePoint =
     (if codePoint \<le> 0x7F then [char_of codePoint]
      else if codePoint \<le> 0x7FF
      then [char_of (or 0xC0 (drop_bit 6 codePoint)), char_of (or 0x80 (and codePoint 0x3F))]
      else [char_of (or 0xE0 (drop_bit 12 codePoint)), char_of (or 0x80 (and (drop_bit 6 codePoint) 0x3F)),
            char_of (or 0x80 (and codePoint 0x3F))])"

fun doc_hex :: "nat \<Rightarrow> nat \<Rightarrow> nat reader" where
  "doc_hex 0 v s = Inr (v, s)"
| "doc_hex (Suc n) v s =
     bindP DocTake (\<lambda>hex.
       case hex_digit hex of
         None \<Rightarrow> (\<lambda>q. Inl (At ''invalid Unicode escape'' q))
       | Some d \<Rightarrow> doc_hex n (or (push_bit 4 v) d)) s"

definition doc_unicode :: "string reader" where
  "doc_unicode =
     bindP (doc_hex 4 0) (\<lambda>codePoint q.
       if 0xD800 \<le> codePoint \<and> codePoint \<le> 0xDFFF
       then Inl (At ''UTF-16 surrogate escapes are not supported'' q)
       else Inr (DocAppendUtf8 codePoint, q))"

definition doc_escape :: "string reader" where
  "doc_escape =
     bindP DocTake (\<lambda>escape.
       case simple_escape escape of
         Some c \<Rightarrow> ret [c]
       | None \<Rightarrow> if escape = CHR ''u'' then doc_unicode else (\<lambda>q. Inl (At ''invalid string escape'' q)))"

lemma doc_hex_shrink: "doc_hex n v s = Inr (w, rest) \<Longrightarrow> length rest \<le> length s"
proof (induction n arbitrary: v s)
  case (Suc n)
  then show ?case by (cases s) (auto simp: bindP_def DocTake_def le_SucI split: option.splits)
qed simp

lemma doc_escape_shrink: "doc_escape s = Inr (t, rest) \<Longrightarrow> length rest < length s"
  by (cases s) (auto simp: doc_escape_def doc_unicode_def bindP_def DocTake_def ret_def le_imp_less_Suc
    split: option.splits if_splits sum.splits dest!: doc_hex_shrink)

function doc_string_loop :: "string \<Rightarrow> string reader" where
  "doc_string_loop acc s =
     (if s = [] then Inl (At ''unterminated string'' [])
      else let c = hd s; q = tl s in
      if c = CHR 0x22 then Inr (acc, q)
      else if (of_char c :: nat) < 0x20 then Inl (At ''unescaped control character in string'' q)
      else if c \<noteq> CHR 0x5C then doc_string_loop (acc @ [c]) q
      else case doc_escape q of Inl e \<Rightarrow> Inl e | Inr (t, r) \<Rightarrow> doc_string_loop (acc @ t) r)"
  by pat_completeness auto
termination
proof (relation "measure (length \<circ> snd)")
  fix acc s :: string and c q p t r
  assume "s \<noteq> []" and "q = tl s" and "doc_escape q = Inr p" and "(t, r) = p"
  then show "((acc @ t, r), acc, s) \<in> measure (length \<circ> snd)"
    using doc_escape_shrink [of q t r] by (cases s) auto
qed auto

declare doc_string_loop.simps [simp del]

text \<open>The caller has seen the quote, which \<open>ParseString\<close> takes first.\<close>

definition DocParseString :: "string reader" where
  "DocParseString s = doc_string_loop [] (tl s)"

definition DocParseNumber :: "JsonValue reader" where
  "DocParseNumber s =
     (let negative = at_char (CHR ''-'') s; t = (if negative then tl s else s) in
      if t = [] then Inl (At ''incomplete integer'' [])
      else if hd t = CHR ''0'' \<and> at_digit (tl t) then Inl (At ''leading zero in integer'' (tl t))
      else if hd t \<noteq> CHR ''0'' \<and> \<not> is_digit (hd t) then Inl (At ''invalid integer'' t)
      else let rest = (if hd t = CHR ''0'' then tl t else dropWhile is_digit t);
               parsed = (if negative then - int (digits_value (takeWhile is_digit t)) else int (digits_value (takeWhile is_digit t))) in
      if at_char (CHR ''.'') rest \<or> at_char (CHR ''e'') rest \<or> at_char (CHR ''E'') rest
      then Inl (At ''floating-point JSON numbers are forbidden in this document'' rest)
      else if parsed < int64_min \<or> int64_max < parsed then Inl (At ''integer is outside int64_t range'' rest)
      else Inr (JvNumber parsed, rest))"

fun take_literal :: "string \<Rightarrow> unit reader" where
  "take_literal [] s = Inr ((), s)"
| "take_literal (l # ls) s =
     bindP DocTake (\<lambda>c. if c \<noteq> l then (\<lambda>q. Inl (At ''invalid literal'' q)) else take_literal ls) s"

definition DocParseLiteral :: "string \<Rightarrow> bool \<Rightarrow> JsonValue reader" where
  "DocParseLiteral literal boolean = bindP (take_literal literal) (\<lambda>_. ret (JvBoolean boolean))"

definition DocParseNull :: "JsonValue reader" where
  "DocParseNull = bindP (take_literal ''null'') (\<lambda>_. ret JvNull)"

text \<open>
  The loops of \<open>ParseObject\<close> and \<open>ParseArray\<close>, over the parser of the values: what is left of
  their fuel is at least the number of characters left.
\<close>

primrec DocParseMembers :: "JsonValue reader \<Rightarrow> nat \<Rightarrow> (string \<times> JsonValue) list \<Rightarrow> JsonValue reader" where
  "DocParseMembers parse 0 entries s = Inl Unended"
| "DocParseMembers parse (Suc n) entries s =
     (if \<not> at_char (CHR 0x22) s then Inl (At ''expected an object key'' s)
      else bindP DocParseString (\<lambda>key r.
        let colon = DocSkipWhitespace r in
        if \<not> at_char (CHR '':'') colon then Inl (At (''expected '' @ quoted '':'' @ '' after object key'') colon)
        else bindP parse (\<lambda>v r'.
          if key \<in> fst ` set entries then Inl (At (''duplicate object key '' @ quoted key) r')
          else let rest = DocSkipWhitespace r' in
            if at_char (CHR ''}'') rest then Inr (JvObject (emplace (key, v) entries), tl rest)
            else if \<not> at_char (CHR '','') rest then Inl (At (''expected '' @ quoted '','' @ '' or '' @ quoted ''}'') rest)
            else DocParseMembers parse n (emplace (key, v) entries) (DocSkipWhitespace (tl rest)))
          (DocSkipWhitespace (tl colon))) s)"

definition DocParseObject :: "JsonValue reader \<Rightarrow> JsonValue reader" where
  "DocParseObject parse s =
     (let r = DocSkipWhitespace s in
      if at_char (CHR ''}'') r then Inr (JvObject [], tl r) else DocParseMembers parse (Suc (length r)) [] r)"

primrec DocParseElements :: "JsonValue reader \<Rightarrow> nat \<Rightarrow> JsonValue list \<Rightarrow> JsonValue reader" where
  "DocParseElements parse 0 items s = Inl Unended"
| "DocParseElements parse (Suc n) items s =
     bindP parse (\<lambda>v r.
       let rest = DocSkipWhitespace r in
       if at_char (CHR '']'') rest then Inr (JvArray (items @ [v]), tl rest)
       else if \<not> at_char (CHR '','') rest then Inl (At (''expected '' @ quoted '','' @ '' or '' @ quoted '']'') rest)
       else DocParseElements parse n (items @ [v]) (DocSkipWhitespace (tl rest))) s"

definition DocParseArray :: "JsonValue reader \<Rightarrow> JsonValue reader" where
  "DocParseArray parse s =
     (let r = DocSkipWhitespace s in
      if at_char (CHR '']'') r then Inr (JvArray [], tl r) else DocParseElements parse (Suc (length r)) [] r)"

text \<open>The fuel of the values is the depth of the nesting, which the length of the text bounds.\<close>

primrec DocParseValue :: "nat \<Rightarrow> JsonValue reader" where
  "DocParseValue 0 s = Inl Unended"
| "DocParseValue (Suc n) s =
     (if s = [] then Inl (At ''expected a value'' [])
      else if hd s = CHR ''{'' then DocParseObject (DocParseValue n) (tl s)
      else if hd s = CHR ''['' then DocParseArray (DocParseValue n) (tl s)
      else if hd s = CHR 0x22 then bindP DocParseString (\<lambda>v. ret (JvString v)) s
      else if hd s = CHR ''t'' then DocParseLiteral ''true'' True s
      else if hd s = CHR ''f'' then DocParseLiteral ''false'' False s
      else if hd s = CHR ''n'' then DocParseNull s
      else if hd s = CHR ''-'' \<or> is_digit (hd s) then DocParseNumber s
      else Inl (At ''expected an object, array, string, integer or literal'' s))"

definition json_message :: "string \<Rightarrow> stop \<Rightarrow> string" where
  "json_message json e =
     (case e of
        Plain what \<Rightarrow> what
      | At what rest \<Rightarrow> ''JSON byte '' @ to_string (int (length json - length rest)) @ '': '' @ what
      | Unended \<Rightarrow> [])"

definition JsonParser_Parse :: "string \<Rightarrow> stop + JsonValue" where
  "JsonParser_Parse json =
     (case DocParseValue (Suc (length json)) (DocSkipWhitespace json) of
        Inl e \<Rightarrow> Inl e
      | Inr (v, r) \<Rightarrow>
          let rest = DocSkipWhitespace r in
          if rest \<noteq> [] then Inl (At ''unexpected trailing content'' rest) else Inr v)"

section \<open>Escaping\<close>

definition doc_escape_char :: "char \<Rightarrow> string" where
  "doc_escape_char c =
     (if c = CHR 0x22 then [CHR 0x5C, CHR 0x22]
      else if c = CHR 0x5C then [CHR 0x5C, CHR 0x5C]
      else if c = CHR 0x08 then [CHR 0x5C, CHR ''b'']
      else if c = CHR 0x0C then [CHR 0x5C, CHR ''f'']
      else if c = CHR 0x0A then [CHR 0x5C, CHR ''n'']
      else if c = CHR 0x0D then [CHR 0x5C, CHR ''r'']
      else if c = CHR 0x09 then [CHR 0x5C, CHR ''t'']
      else if (of_char c :: nat) < 0x20
      then CHR 0x5C # ''u00'' @ [''0123456789abcdef'' ! (of_char c div 16), ''0123456789abcdef'' ! (of_char c mod 16)]
      else [c])"

definition Escape :: "string \<Rightarrow> string" where
  "Escape s = concat (map doc_escape_char s)"

section \<open>Pieces of the written text\<close>

text \<open>
  The sources stream keys as literals and escape the strings.  A list is written with every
  item on its own line, indented; a list without items has no line.
\<close>

definition jtext :: "string \<Rightarrow> string" where
  "jtext v = CHR 0x22 # Escape v @ [CHR 0x22]"

definition jkey :: "string \<Rightarrow> string" where
  "jkey k = CHR 0x22 # k @ [CHR 0x22, CHR '':'']"

definition jfield :: "string \<Rightarrow> string \<Rightarrow> string" where
  "jfield k w = CHR '','' # jkey k @ w"

definition newline :: string where
  "newline = [CHR 0x0A]"

definition jlines :: "string \<Rightarrow> ('a \<Rightarrow> string) \<Rightarrow> 'a list \<Rightarrow> string" where
  "jlines indent w xs =
     (case xs of
        [] \<Rightarrow> []
      | x # ys \<Rightarrow> newline @ indent @ w x @ concat (map (\<lambda>y. CHR '','' # newline @ indent @ w y) ys))"

definition line_end :: "'a list \<Rightarrow> string" where
  "line_end xs = (if xs = [] then [] else newline)"

end
