(* ===== verification/Document_Text.thy ===== *)
theory Document_Text
  imports Document_Json Document_Validate
begin

text \<open>
  \<open>Document::LoadFromString\<close> and \<open>Document::SaveToString\<close>, \<open>src/Document.cc\<close>: the typed accessors
  \<open>Require\<close>, \<open>Optional\<close>, \<open>Int32\<close>, one reader for each struct in the order the code reads its
  members, the migration of the versions 4 to 6, and one writer for each struct with the exact
  spaces and line breaks of the file.  An exception is its text.
\<close>

section \<open>Accessors\<close>

definition Require :: "JsonValue \<Rightarrow> string \<Rightarrow> JsonType \<Rightarrow> string \<Rightarrow> string + JsonValue" where
  "Require object k type context =
     (if jv_type object \<noteq> TypeObject then Inl (context @ '' must be an object'')
      else case map_of (jv_object object) k of
        None \<Rightarrow> Inl (context @ '' is missing '' @ quoted k)
      | Some v \<Rightarrow> if jv_type v \<noteq> type then Inl (context @ ''.'' @ k @ '' has the wrong JSON type'') else Inr v)"

definition Optional :: "JsonValue \<Rightarrow> string \<Rightarrow> JsonType \<Rightarrow> string \<Rightarrow> string + JsonValue option" where
  "Optional object k type context =
     (if jv_type object \<noteq> TypeObject then Inl (context @ '' must be an object'')
      else case map_of (jv_object object) k of
        None \<Rightarrow> Inr None
      | Some v \<Rightarrow> if jv_type v \<noteq> type then Inl (context @ ''.'' @ k @ '' has the wrong JSON type'') else Inr (Some v))"

definition Int32 :: "JsonValue \<Rightarrow> string \<Rightarrow> string \<Rightarrow> string + int" where
  "Int32 object k context =
     bindR (Require object k TypeNumber context) (\<lambda>v.
       if in_int32 (jv_number v) then Inr (jv_number v) else Inl (context @ ''.'' @ k @ '' is outside int32_t range''))"

definition doc_ParseTime :: "JsonValue \<Rightarrow> string \<Rightarrow> string + RationalTime" where
  "doc_ParseTime v context =
     bindR (Require v ''value'' TypeNumber context) (\<lambda>n. bindR (Int32 v ''rate'' context) (\<lambda>rate. Inr (RT (jv_number n) rate)))"

definition doc_ParseEffectParamValue :: "JsonValue \<Rightarrow> string \<Rightarrow> string + EffectParamValue" where
  "doc_ParseEffectParamValue v context =
     bindR (Int32 v ''num'' context) (\<lambda>num. bindR (Int32 v ''den'' context) (\<lambda>den. Inr \<lparr>ep_num = num, ep_den = den\<rparr>))"

definition parse_rate :: "JsonValue \<Rightarrow> string \<Rightarrow> string + MediaRate" where
  "parse_rate v context =
     bindR (Int32 v ''num'' context) (\<lambda>num. bindR (Int32 v ''den'' context) (\<lambda>den. Inr \<lparr>mr_num = num, mr_den = den\<rparr>))"

text \<open>The idioms of the callers: the member of a required value, and a member kept when it is absent.\<close>

definition require_string :: "JsonValue \<Rightarrow> string \<Rightarrow> string \<Rightarrow> (string \<Rightarrow> string + 'a) \<Rightarrow> string + 'a" where
  "require_string object k context f = bindR (Require object k TypeString context) (\<lambda>v. f (jv_string v))"

definition require_bool :: "JsonValue \<Rightarrow> string \<Rightarrow> string \<Rightarrow> (bool \<Rightarrow> string + 'a) \<Rightarrow> string + 'a" where
  "require_bool object k context f = bindR (Require object k TypeBoolean context) (\<lambda>v. f (jv_boolean v))"

definition require_time :: "JsonValue \<Rightarrow> string \<Rightarrow> string \<Rightarrow> (RationalTime \<Rightarrow> string + 'a) \<Rightarrow> string + 'a" where
  "require_time object k context f =
     bindR (Require object k TypeObject context) (\<lambda>v. bindR (doc_ParseTime v (context @ ''.'' @ k)) f)"

definition require_param :: "JsonValue \<Rightarrow> string \<Rightarrow> string \<Rightarrow> (EffectParamValue \<Rightarrow> string + 'a) \<Rightarrow> string + 'a" where
  "require_param object k context f =
     bindR (Require object k TypeObject context) (\<lambda>v. bindR (doc_ParseEffectParamValue v (context @ ''.'' @ k)) f)"

definition require_rate :: "JsonValue \<Rightarrow> string \<Rightarrow> string \<Rightarrow> (MediaRate \<Rightarrow> string + 'a) \<Rightarrow> string + 'a" where
  "require_rate object k context f =
     bindR (Require object k TypeObject context) (\<lambda>v. bindR (parse_rate v (context @ ''.'' @ k)) f)"

definition optional_string :: "JsonValue \<Rightarrow> string \<Rightarrow> string \<Rightarrow> string \<Rightarrow> (string \<Rightarrow> string + 'a) \<Rightarrow> string + 'a" where
  "optional_string object k context absent f =
     bindR (Optional object k TypeString context) (\<lambda>v. f (case v of None \<Rightarrow> absent | Some v \<Rightarrow> jv_string v))"

definition optional_bool :: "JsonValue \<Rightarrow> string \<Rightarrow> string \<Rightarrow> bool \<Rightarrow> (bool \<Rightarrow> string + 'a) \<Rightarrow> string + 'a" where
  "optional_bool object k context absent f =
     bindR (Optional object k TypeBoolean context) (\<lambda>v. f (case v of None \<Rightarrow> absent | Some v \<Rightarrow> jv_boolean v))"

fun read_array :: "(JsonValue \<Rightarrow> string \<Rightarrow> string + 'a) \<Rightarrow> string \<Rightarrow> nat \<Rightarrow> JsonValue list \<Rightarrow> string + 'a list" where
  "read_array r name index [] = Inr []"
| "read_array r name index (item # items) =
     bindR (r item (name @ ''['' @ to_string (int index) @ '']'')) (\<lambda>x.
     bindR (read_array r name (Suc index) items) (\<lambda>xs. Inr (x # xs)))"

definition require_array ::
  "JsonValue \<Rightarrow> string \<Rightarrow> string \<Rightarrow> string \<Rightarrow> (JsonValue \<Rightarrow> string \<Rightarrow> string + 'a) \<Rightarrow> ('a list \<Rightarrow> string + 'b) \<Rightarrow> string + 'b" where
  "require_array object k context name r f =
     bindR (Require object k TypeArray context) (\<lambda>v. bindR (read_array r name 0 (jv_array v)) f)"

definition optional_array ::
  "JsonValue \<Rightarrow> string \<Rightarrow> string \<Rightarrow> string \<Rightarrow> (JsonValue \<Rightarrow> string \<Rightarrow> string + 'a) \<Rightarrow> ('a list \<Rightarrow> string + 'b) \<Rightarrow> string + 'b" where
  "optional_array object k context name r f =
     bindR (Optional object k TypeArray context) (\<lambda>v.
       bindR (case v of None \<Rightarrow> Inr [] | Some v \<Rightarrow> read_array r name 0 (jv_array v)) f)"

section \<open>Reading\<close>

definition default_color :: ColorManagementSettings where
  "default_color =
     \<lparr>cm_enabled = False, cm_input_gamut = ''rec709'', cm_input_transfer = ''rec709'', cm_input_ycbcr_matrix = ''auto'',
      cm_input_range = ''auto'', cm_working_gamut = ''acescct'', cm_output_gamut = ''rec709'', cm_output_transfer = ''rec709''\<rparr>"

definition load_color :: "JsonValue \<Rightarrow> string + ColorManagementSettings" where
  "load_color doc =
     bindR (Optional doc ''color_management'' TypeObject ''document'') (\<lambda>found.
       case found of
         None \<Rightarrow> Inr default_color
       | Some color \<Rightarrow>
           let context = ''document.color_management'' in
           require_bool color ''enabled'' context (\<lambda>enabled.
           require_string color ''input_gamut'' context (\<lambda>inputGamut.
           require_string color ''input_transfer'' context (\<lambda>inputTransfer.
           require_string color ''input_ycbcr_matrix'' context (\<lambda>matrix.
           optional_string color ''input_range'' context (cm_input_range default_color) (\<lambda>range.
           require_string color ''working_gamut'' context (\<lambda>workingGamut.
           require_string color ''output_gamut'' context (\<lambda>outputGamut.
           require_string color ''output_transfer'' context (\<lambda>outputTransfer.
             Inr \<lparr>cm_enabled = enabled, cm_input_gamut = inputGamut, cm_input_transfer = inputTransfer,
                  cm_input_ycbcr_matrix = matrix, cm_input_range = range, cm_working_gamut = workingGamut,
                  cm_output_gamut = outputGamut, cm_output_transfer = outputTransfer\<rparr>)))))))))"

definition default_media :: "Ulid \<Rightarrow> string \<Rightarrow> string \<Rightarrow> Ulid \<Rightarrow> string \<Rightarrow> LibraryMedia" where
  "default_media i path filename bin proxy =
     \<lparr>med_id = i, med_path = path, med_filename = filename, med_codec = [], med_has_video = True, med_width = 0,
      med_height = 0, med_pixel_format = [], med_color_range = [], med_color_space = [], med_color_transfer = [],
      med_color_primaries = [], med_rotation_degrees = 0, med_rate = \<lparr>mr_num = 0, mr_den = 1\<rparr>, med_duration = RT 0 1,
      med_orientation = [], med_has_audio = False, med_audio_rate = 0, med_audio_channels = 0,
      med_audio_level_measured = False, med_audio_level = 0, med_bin_id = bin, med_proxy_path = proxy,
      med_metadata_complete = True\<rparr>"

definition load_audio :: "JsonValue \<Rightarrow> string \<Rightarrow> LibraryMedia \<Rightarrow> string + LibraryMedia" where
  "load_audio item context media =
     (if \<not> med_has_audio media then Inr media
      else bindR (Int32 item ''audio_rate'' context) (\<lambda>rate.
        bindR (Int32 item ''audio_channels'' context) (\<lambda>channels.
        bindR (Optional item ''audio_level'' TypeNumber context) (\<lambda>level.
          let m = media\<lparr>med_audio_rate := rate, med_audio_channels := channels\<rparr> in
          Inr (case level of None \<Rightarrow> m | Some v \<Rightarrow> m\<lparr>med_audio_level_measured := True, med_audio_level := jv_number v\<rparr>)))))"

definition load_metadata :: "JsonValue \<Rightarrow> string \<Rightarrow> LibraryMedia \<Rightarrow> string + LibraryMedia" where
  "load_metadata item context media =
     bindR (Optional item ''codec'' TypeString context) (\<lambda>codec.
       case codec of
         None \<Rightarrow> Inr (media\<lparr>med_metadata_complete := False\<rparr>)
       | Some c \<Rightarrow>
           optional_bool item ''has_video'' context (med_has_video media) (\<lambda>hasVideo.
           bindR (Int32 item ''width'' context) (\<lambda>width.
           bindR (Int32 item ''height'' context) (\<lambda>height.
           optional_string item ''pixel_format'' context [] (\<lambda>pixelFormat.
           optional_string item ''color_range'' context [] (\<lambda>colorRange.
           optional_string item ''color_space'' context [] (\<lambda>colorSpace.
           optional_string item ''color_transfer'' context [] (\<lambda>colorTransfer.
           optional_string item ''color_primaries'' context [] (\<lambda>colorPrimaries.
           bindR (Optional item ''rotation_degrees'' TypeNumber context) (\<lambda>rotated.
           bindR (case rotated of None \<Rightarrow> Inr 0 | Some _ \<Rightarrow> Int32 item ''rotation_degrees'' context) (\<lambda>rotation.
           require_string item ''orientation'' context (\<lambda>orientation.
           require_bool item ''has_audio'' context (\<lambda>hasAudio.
             load_audio item context
               (media\<lparr>med_codec := jv_string c, med_has_video := hasVideo, med_width := width, med_height := height,
                  med_pixel_format := pixelFormat, med_color_range := colorRange, med_color_space := colorSpace,
                  med_color_transfer := colorTransfer, med_color_primaries := colorPrimaries,
                  med_rotation_degrees := rotation, med_orientation := orientation, med_has_audio := hasAudio\<rparr>))))))))))))))"

definition load_media :: "JsonValue \<Rightarrow> string \<Rightarrow> string + LibraryMedia" where
  "load_media item context =
     require_string item ''id'' context (\<lambda>i.
     require_string item ''path'' context (\<lambda>path.
     require_string item ''filename'' context (\<lambda>filename.
     optional_string item ''bin_id'' context [] (\<lambda>bin.
     optional_string item ''proxy_path'' context [] (\<lambda>proxy.
     bindR (load_metadata item context (default_media i path filename bin proxy)) (\<lambda>media.
     require_rate item ''rate'' context (\<lambda>rate.
     require_time item ''duration'' context (\<lambda>duration.
       Inr (media\<lparr>med_rate := rate, med_duration := duration\<rparr>)))))))))"

definition load_bin :: "JsonValue \<Rightarrow> string \<Rightarrow> string + DocumentBin" where
  "load_bin item context =
     require_string item ''id'' context (\<lambda>i.
     require_string item ''name'' context (\<lambda>name.
     optional_string item ''parent_id'' context [] (\<lambda>parent.
       Inr \<lparr>bin_id = i, bin_name = name, bin_parent_id = parent\<rparr>)))"

definition load_marker :: "JsonValue \<Rightarrow> string \<Rightarrow> string + DocumentMarker" where
  "load_marker item context =
     require_string item ''id'' context (\<lambda>i.
     require_string item ''name'' context (\<lambda>name.
     require_time item ''time'' context (\<lambda>time.
     require_string item ''color'' context (\<lambda>color.
     require_string item ''category'' context (\<lambda>category.
       Inr \<lparr>mk_id = i, mk_name = name, mk_time = time, mk_color = color, mk_category = category\<rparr>)))))"

definition load_alignment :: "string \<Rightarrow> string \<Rightarrow> string + TransitionAlignment" where
  "load_alignment alignment context =
     (if alignment = ''center'' then Inr Center else if alignment = ''start_at_cut'' then Inr StartAtCut
      else if alignment = ''end_at_cut'' then Inr EndAtCut else Inl (context @ '' has invalid alignment''))"

definition load_transition :: "JsonValue \<Rightarrow> string \<Rightarrow> string + DocumentTransition" where
  "load_transition item context =
     require_string item ''id'' context (\<lambda>i.
     require_string item ''track_id'' context (\<lambda>track.
     require_string item ''left_clip_id'' context (\<lambda>left.
     require_string item ''right_clip_id'' context (\<lambda>right.
     require_string item ''type'' context (\<lambda>type.
     require_time item ''duration'' context (\<lambda>duration.
     require_string item ''alignment'' context (\<lambda>alignment.
     bindR (load_alignment alignment context) (\<lambda>a.
       Inr \<lparr>trn_id = i, trn_track_id = track, trn_left_clip_id = left, trn_right_clip_id = right, trn_type = type,
            trn_duration = duration, trn_alignment = a\<rparr>))))))))"

definition load_style :: "JsonValue \<Rightarrow> string \<Rightarrow> string + CaptionStyle" where
  "load_style item context =
     require_string item ''id'' context (\<lambda>i.
     require_string item ''font_family'' context (\<lambda>family.
     bindR (Int32 item ''font_size'' context) (\<lambda>fontSize.
     require_string item ''color'' context (\<lambda>color.
     require_string item ''position'' context (\<lambda>position.
       Inr \<lparr>cs_id = i, cs_font_family = family, cs_font_size = fontSize, cs_color = color, cs_position = position\<rparr>)))))"

definition load_angle :: "JsonValue \<Rightarrow> string \<Rightarrow> string + MulticamAngle" where
  "load_angle item context =
     require_string item ''id'' context (\<lambda>i.
     require_string item ''name'' context (\<lambda>name.
     require_string item ''clip_id'' context (\<lambda>clip.
       Inr \<lparr>ang_id = i, ang_name = name, ang_clip_id = clip\<rparr>)))"

definition load_multicam :: "JsonValue \<Rightarrow> string \<Rightarrow> string + MulticamGroup" where
  "load_multicam item context =
     require_string item ''id'' context (\<lambda>i.
     require_string item ''name'' context (\<lambda>name.
     optional_string item ''active_angle_id'' context [] (\<lambda>active.
     require_array item ''angles'' context (context @ ''.angles'') load_angle (\<lambda>angles.
       Inr \<lparr>mg_id = i, mg_name = name, mg_angles = angles, mg_active_angle_id = active\<rparr>))))"

definition load_source :: "JsonValue \<Rightarrow> string \<Rightarrow> string + DocumentSource" where
  "load_source item context =
     require_string item ''id'' context (\<lambda>i.
     require_string item ''path'' context (\<lambda>path.
     require_rate item ''rate'' context (\<lambda>rate.
     require_time item ''duration'' context (\<lambda>duration.
       Inr \<lparr>src_id = i, src_path = path, src_rate = rate, src_duration = duration\<rparr>))))"

fun load_params :: "string \<Rightarrow> (string \<times> JsonValue) list \<Rightarrow> (string \<times> EffectParamValue) list \<Rightarrow>
    string + (string \<times> EffectParamValue) list" where
  "load_params context [] params = Inr params"
| "load_params context ((k, v) # entries) params =
     (if jv_type v \<noteq> TypeObject then Inl (context @ ''.params['' @ quoted k @ ''] has the wrong JSON type'')
      else bindR (doc_ParseEffectParamValue v (context @ ''.params['' @ quoted k @ '']'')) (\<lambda>p.
        load_params context entries (emplace (k, p) params)))"

definition load_effect :: "JsonValue \<Rightarrow> string \<Rightarrow> string + ClipEffect" where
  "load_effect item context =
     require_string item ''id'' context (\<lambda>i.
     require_string item ''type'' context (\<lambda>type.
     bindR (Require item ''params'' TypeObject context) (\<lambda>params.
     bindR (load_params context (jv_object params) []) (\<lambda>ps.
       Inr \<lparr>fx_id = i, fx_type = type, fx_params = ps\<rparr>))))"

definition load_link :: "JsonValue \<Rightarrow> string \<Rightarrow> DocumentClip \<Rightarrow> string + DocumentClip" where
  "load_link item context clip =
     optional_string item ''link_group_id'' context [] (\<lambda>linkGroup.
     bindR (Optional item ''sync_anchor_clip_id'' TypeString context) (\<lambda>anchor.
       case anchor of
         None \<Rightarrow> Inr (clip\<lparr>clip_link_group_id := linkGroup\<rparr>)
       | Some a \<Rightarrow>
           require_time item ''sync_reference_delta'' context (\<lambda>delta.
             Inr (clip\<lparr>clip_link_group_id := linkGroup, clip_sync_anchor_clip_id := jv_string a,
                    clip_sync_reference_delta := delta\<rparr>))))"

definition load_audio_settings :: "int \<Rightarrow> JsonValue \<Rightarrow> string \<Rightarrow> DocumentClip \<Rightarrow> string + DocumentClip" where
  "load_audio_settings storedVersion item context clip =
     (if storedVersion < 7 then Inr clip
      else require_param item ''audio_gain_db'' context (\<lambda>gain.
           require_time item ''audio_fade_in'' context (\<lambda>fadeIn.
           require_time item ''audio_fade_out'' context (\<lambda>fadeOut.
             Inr (clip\<lparr>clip_audio_gain_db := gain, clip_audio_fade_in := fadeIn, clip_audio_fade_out := fadeOut\<rparr>)))))"

definition load_clip :: "int \<Rightarrow> JsonValue \<Rightarrow> string \<Rightarrow> string + DocumentClip" where
  "load_clip storedVersion item context =
     require_string item ''id'' context (\<lambda>i.
     require_string item ''source_id'' context (\<lambda>source.
     require_time item ''source_in'' context (\<lambda>sourceIn.
     require_time item ''duration'' context (\<lambda>duration.
     require_time item ''timeline_in'' context (\<lambda>timelineIn.
     optional_bool item ''include_audio'' context True (\<lambda>includeAudio.
     bindR (load_link item context ((new_clip i source sourceIn duration timelineIn)\<lparr>clip_include_audio := includeAudio\<rparr>)) (\<lambda>clip.
     optional_array item ''effects'' context (context @ ''.effects'') load_effect (\<lambda>effects.
     optional_string item ''caption_group_id'' context [] (\<lambda>captionGroup.
     optional_string item ''caption_text'' context [] (\<lambda>captionText.
     bindR (if storedVersion < 5 then Inr (clip_opacity clip) else require_param item ''opacity'' context Inr) (\<lambda>opacity.
       load_audio_settings storedVersion item context
         (clip\<lparr>clip_effects := effects, clip_caption_group_id := captionGroup, clip_caption_text := captionText,
            clip_opacity := opacity\<rparr>))))))))))))"

definition load_track :: "int \<Rightarrow> JsonValue \<Rightarrow> string \<Rightarrow> string + DocumentTrack" where
  "load_track storedVersion item context =
     require_string item ''id'' context (\<lambda>i.
     require_string item ''kind'' context (\<lambda>kind.
     bindR (Int32 item ''index'' context) (\<lambda>index.
     optional_bool item ''locked'' context False (\<lambda>locked.
     optional_bool item ''sync_lock'' context True (\<lambda>syncLock.
     optional_bool item ''visible'' context True (\<lambda>visible.
     optional_bool item ''muted'' context False (\<lambda>muted.
     optional_bool item ''solo'' context False (\<lambda>solo.
     require_array item ''clips'' context (context @ ''.clips'') (load_clip storedVersion) (\<lambda>clips.
       Inr \<lparr>trk_id = i, trk_kind = kind, trk_index = index, trk_clips = clips, trk_locked = locked,
            trk_sync_lock = syncLock, trk_visible = visible, trk_muted = muted, trk_solo = solo\<rparr>)))))))))"

text \<open>The members of the sequence are read at three places, between which come library, bins and sources.\<close>

definition load_document :: "JsonValue \<Rightarrow> string + Document" where
  "load_document doc =
     bindR (Int32 doc ''version'' ''document'') (\<lambda>storedVersion.
     if storedVersion \<noteq> 4 \<and> storedVersion \<noteq> 5 \<and> storedVersion \<noteq> 6 \<and> storedVersion \<noteq> 7
     then Inl (''unsupported document version '' @ to_string storedVersion)
     else bindR (load_color doc) (\<lambda>color.
       bindR (Require doc ''sequence'' TypeObject ''document'') (\<lambda>sequence.
       let context = ''document.sequence'' in
       require_string sequence ''id'' context (\<lambda>i.
       require_string sequence ''name'' context (\<lambda>name.
       bindR (Int32 sequence ''width'' context) (\<lambda>width.
       bindR (Int32 sequence ''height'' context) (\<lambda>height.
       require_rate sequence ''frame_rate'' context (\<lambda>rate.
       require_array doc ''library'' ''document'' ''library'' load_media (\<lambda>library.
       optional_array doc ''bins'' ''document'' ''bins'' load_bin (\<lambda>bins.
       optional_array sequence ''markers'' context (context @ ''.markers'') load_marker (\<lambda>markers.
       optional_array sequence ''transitions'' context (context @ ''.transitions'') load_transition (\<lambda>transitions.
       optional_array sequence ''caption_styles'' context (context @ ''.caption_styles'') load_style (\<lambda>styles.
       optional_array sequence ''multicam_groups'' context (context @ ''.multicam_groups'') load_multicam (\<lambda>groups.
       require_array doc ''sources'' ''document'' ''sources'' load_source (\<lambda>sources.
       require_array sequence ''tracks'' context (context @ ''.tracks'') (load_track storedVersion) (\<lambda>tracks.
         Inr \<lparr>doc_version = 7,
              doc_sequence =
                \<lparr>seq_id = i, seq_name = name, seq_width = width, seq_height = height, seq_frame_rate = rate,
                 seq_markers = markers, seq_transitions = transitions, seq_tracks = tracks,
                 seq_caption_styles = styles, seq_multicam_groups = groups\<rparr>,
              doc_color_management = color, doc_library = library, doc_bins = bins, doc_sources = sources\<rparr>))))))))))))))))"

definition Document_LoadFromString :: "string \<Rightarrow> string + Document" where
  "Document_LoadFromString json =
     (case JsonParser_Parse json of
        Inl e \<Rightarrow> Inl (json_message json e)
      | Inr doc \<Rightarrow> bindR (load_document doc) (\<lambda>parsed. bindR (Validate parsed) (\<lambda>_. Inr parsed)))"

section \<open>Writing\<close>

text \<open>
  \<open>jfirst\<close> opens an object with its first member, \<open>jfield\<close> adds one, \<open>jfield_if\<close> one that is
  written only when it is set.
\<close>

definition jfirst :: "string \<Rightarrow> string \<Rightarrow> string" where
  "jfirst k w = CHR ''{'' # jkey k @ w"

definition jfield_if :: "bool \<Rightarrow> string \<Rightarrow> string \<Rightarrow> string" where
  "jfield_if c k w = (if c then jfield k w else [])"

definition jlist :: "string \<Rightarrow> string \<Rightarrow> ('a \<Rightarrow> string) \<Rightarrow> 'a list \<Rightarrow> string" where
  "jlist indent ending w xs = CHR ''['' # jlines indent w xs @ ending @ '']''"

definition doc_WriteTime :: "RationalTime \<Rightarrow> string" where
  "doc_WriteTime t = jfirst ''value'' (to_string (rt_value t)) @ jfield ''rate'' (to_string (rt_rate t)) @ ''}''"

definition doc_WriteEffectParamValue :: "EffectParamValue \<Rightarrow> string" where
  "doc_WriteEffectParamValue v = jfirst ''num'' (to_string (ep_num v)) @ jfield ''den'' (to_string (ep_den v)) @ ''}''"

definition save_rate :: "MediaRate \<Rightarrow> string" where
  "save_rate r = jfirst ''num'' (to_string (mr_num r)) @ jfield ''den'' (to_string (mr_den r)) @ ''}''"

definition save_marker :: "DocumentMarker \<Rightarrow> string" where
  "save_marker m =
     jfirst ''id'' (jtext (mk_id m)) @ jfield ''name'' (jtext (mk_name m)) @ jfield ''time'' (doc_WriteTime (mk_time m)) @
     jfield ''color'' (jtext (mk_color m)) @ jfield ''category'' (jtext (mk_category m)) @ ''}''"

definition save_alignment :: "TransitionAlignment \<Rightarrow> string" where
  "save_alignment a = (case a of Center \<Rightarrow> ''center'' | StartAtCut \<Rightarrow> ''start_at_cut'' | EndAtCut \<Rightarrow> ''end_at_cut'')"

text \<open>The name of the alignment is streamed without escaping; it has nothing to escape.\<close>

definition save_transition :: "DocumentTransition \<Rightarrow> string" where
  "save_transition t =
     jfirst ''id'' (jtext (trn_id t)) @ jfield ''track_id'' (jtext (trn_track_id t)) @
     jfield ''left_clip_id'' (jtext (trn_left_clip_id t)) @ jfield ''right_clip_id'' (jtext (trn_right_clip_id t)) @
     jfield ''type'' (jtext (trn_type t)) @ jfield ''duration'' (doc_WriteTime (trn_duration t)) @
     jfield ''alignment'' (CHR 0x22 # save_alignment (trn_alignment t) @ [CHR 0x22]) @ ''}''"

definition save_param :: "string \<times> EffectParamValue \<Rightarrow> string" where
  "save_param p = jtext (fst p) @ '':'' @ doc_WriteEffectParamValue (snd p)"

definition save_params :: "(string \<times> EffectParamValue) list \<Rightarrow> string" where
  "save_params ps = CHR ''{'' # jlines ''          '' save_param ps @ (if ps = [] then [] else newline @ ''        '') @ ''}''"

definition save_effect :: "ClipEffect \<Rightarrow> string" where
  "save_effect e =
     jfirst ''id'' (jtext (fx_id e)) @ jfield ''type'' (jtext (fx_type e)) @ jfield ''params'' (save_params (fx_params e)) @ ''}''"

definition save_clip :: "DocumentClip \<Rightarrow> string" where
  "save_clip c =
     jfirst ''id'' (jtext (clip_id c)) @ jfield ''source_id'' (jtext (clip_source_id c)) @
     jfield ''source_in'' (doc_WriteTime (clip_source_in c)) @ jfield ''duration'' (doc_WriteTime (clip_duration c)) @
     jfield ''timeline_in'' (doc_WriteTime (clip_timeline_in c)) @ jfield ''include_audio'' (write_bool (clip_include_audio c)) @
     jfield_if (clip_link_group_id c \<noteq> []) ''link_group_id'' (jtext (clip_link_group_id c)) @
     jfield_if (clip_sync_anchor_clip_id c \<noteq> []) ''sync_anchor_clip_id'' (jtext (clip_sync_anchor_clip_id c)) @
     jfield_if (clip_sync_anchor_clip_id c \<noteq> []) ''sync_reference_delta'' (doc_WriteTime (clip_sync_reference_delta c)) @
     jfield ''effects''
       (jlist ''        '' (if clip_effects c = [] then [] else newline @ ''      '') save_effect (clip_effects c)) @
     jfield_if (clip_caption_group_id c \<noteq> []) ''caption_group_id'' (jtext (clip_caption_group_id c)) @
     jfield_if (clip_caption_text c \<noteq> []) ''caption_text'' (jtext (clip_caption_text c)) @
     jfield ''opacity'' (doc_WriteEffectParamValue (clip_opacity c)) @
     jfield ''audio_gain_db'' (doc_WriteEffectParamValue (clip_audio_gain_db c)) @
     jfield ''audio_fade_in'' (doc_WriteTime (clip_audio_fade_in c)) @
     jfield ''audio_fade_out'' (doc_WriteTime (clip_audio_fade_out c)) @ ''}''"

definition save_track :: "DocumentTrack \<Rightarrow> string" where
  "save_track t =
     jfirst ''id'' (jtext (trk_id t)) @ jfield ''kind'' (jtext (trk_kind t)) @ jfield ''index'' (to_string (trk_index t)) @
     jfield ''locked'' (write_bool (trk_locked t)) @ jfield ''sync_lock'' (write_bool (trk_sync_lock t)) @
     jfield ''visible'' (write_bool (trk_visible t)) @ jfield ''muted'' (write_bool (trk_muted t)) @
     jfield ''solo'' (write_bool (trk_solo t)) @
     jfield ''clips'' (jlist ''      '' (line_end (trk_clips t) @ ''    '') save_clip (trk_clips t)) @ ''}''"

definition save_style :: "CaptionStyle \<Rightarrow> string" where
  "save_style s =
     jfirst ''id'' (jtext (cs_id s)) @ jfield ''font_family'' (jtext (cs_font_family s)) @
     jfield ''font_size'' (to_string (cs_font_size s)) @ jfield ''color'' (jtext (cs_color s)) @
     jfield ''position'' (jtext (cs_position s)) @ ''}''"

definition save_angle :: "MulticamAngle \<Rightarrow> string" where
  "save_angle a =
     jfirst ''id'' (jtext (ang_id a)) @ jfield ''name'' (jtext (ang_name a)) @ jfield ''clip_id'' (jtext (ang_clip_id a)) @ ''}''"

definition save_multicam :: "MulticamGroup \<Rightarrow> string" where
  "save_multicam g =
     jfirst ''id'' (jtext (mg_id g)) @ jfield ''name'' (jtext (mg_name g)) @
     jfield ''angles'' (jlist ''      '' (if mg_angles g = [] then [] else newline @ ''    '') save_angle (mg_angles g)) @
     jfield_if (mg_active_angle_id g \<noteq> []) ''active_angle_id'' (jtext (mg_active_angle_id g)) @ ''}''"

definition save_sequence :: "DocumentSequence \<Rightarrow> string" where
  "save_sequence s =
     jfirst ''id'' (jtext (seq_id s)) @ jfield ''name'' (jtext (seq_name s)) @ jfield ''width'' (to_string (seq_width s)) @
     jfield ''height'' (to_string (seq_height s)) @ jfield ''frame_rate'' (save_rate (seq_frame_rate s)) @
     jfield ''markers'' (jlist ''    '' (line_end (seq_markers s) @ ''  '') save_marker (seq_markers s)) @
     jfield ''transitions'' (jlist ''    '' (line_end (seq_transitions s) @ ''  '') save_transition (seq_transitions s)) @
     jfield ''tracks'' (jlist ''    '' (line_end (seq_tracks s) @ ''  '') save_track (seq_tracks s)) @
     jfield ''caption_styles'' (jlist ''    '' (line_end (seq_caption_styles s) @ ''  '') save_style (seq_caption_styles s)) @
     jfield ''multicam_groups'' (jlist ''    '' (line_end (seq_multicam_groups s) @ ''  '') save_multicam (seq_multicam_groups s)) @ ''}''"

definition save_color :: "ColorManagementSettings \<Rightarrow> string" where
  "save_color c =
     jfirst ''enabled'' (write_bool (cm_enabled c)) @ jfield ''input_gamut'' (jtext (cm_input_gamut c)) @
     jfield ''input_transfer'' (jtext (cm_input_transfer c)) @ jfield ''input_ycbcr_matrix'' (jtext (cm_input_ycbcr_matrix c)) @
     jfield ''input_range'' (jtext (cm_input_range c)) @ jfield ''working_gamut'' (jtext (cm_working_gamut c)) @
     jfield ''output_gamut'' (jtext (cm_output_gamut c)) @ jfield ''output_transfer'' (jtext (cm_output_transfer c)) @ ''}''"

definition save_media :: "LibraryMedia \<Rightarrow> string" where
  "save_media m =
     (let complete = med_metadata_complete m; audio = complete \<and> med_has_audio m in
      jfirst ''id'' (jtext (med_id m)) @ jfield ''path'' (jtext (med_path m)) @ jfield ''filename'' (jtext (med_filename m)) @
      jfield_if (med_bin_id m \<noteq> []) ''bin_id'' (jtext (med_bin_id m)) @
      jfield_if (med_proxy_path m \<noteq> []) ''proxy_path'' (jtext (med_proxy_path m)) @
      jfield_if complete ''codec'' (jtext (med_codec m)) @
      jfield_if complete ''has_video'' (write_bool (med_has_video m)) @
      jfield_if complete ''width'' (to_string (med_width m)) @
      jfield_if complete ''height'' (to_string (med_height m)) @
      jfield_if complete ''rotation_degrees'' (to_string (med_rotation_degrees m)) @
      jfield_if complete ''pixel_format'' (jtext (med_pixel_format m)) @
      jfield_if complete ''color_range'' (jtext (med_color_range m)) @
      jfield_if complete ''color_space'' (jtext (med_color_space m)) @
      jfield_if complete ''color_transfer'' (jtext (med_color_transfer m)) @
      jfield_if complete ''color_primaries'' (jtext (med_color_primaries m)) @
      jfield ''rate'' (save_rate (med_rate m)) @ jfield ''duration'' (doc_WriteTime (med_duration m)) @
      jfield_if complete ''orientation'' (jtext (med_orientation m)) @
      jfield_if complete ''has_audio'' (write_bool (med_has_audio m)) @
      jfield_if audio ''audio_rate'' (to_string (med_audio_rate m)) @
      jfield_if audio ''audio_channels'' (to_string (med_audio_channels m)) @
      jfield_if (audio \<and> med_audio_level_measured m) ''audio_level'' (to_string (med_audio_level m)) @ ''}'')"

definition save_bin :: "DocumentBin \<Rightarrow> string" where
  "save_bin b =
     jfirst ''id'' (jtext (bin_id b)) @ jfield ''name'' (jtext (bin_name b)) @
     jfield_if (bin_parent_id b \<noteq> []) ''parent_id'' (jtext (bin_parent_id b)) @ ''}''"

definition save_source :: "DocumentSource \<Rightarrow> string" where
  "save_source s =
     jfirst ''id'' (jtext (src_id s)) @ jfield ''path'' (jtext (src_path s)) @ jfield ''rate'' (save_rate (src_rate s)) @
     jfield ''duration'' (doc_WriteTime (src_duration s)) @ ''}''"

text \<open>The members of the document are on lines of their own, and some have a space after the colon.\<close>

definition jline :: "string \<Rightarrow> string \<Rightarrow> string" where
  "jline k w = CHR '','' # newline @ ''  '' @ jkey k @ w"

definition Document_SaveToString :: "Document \<Rightarrow> string" where
  "Document_SaveToString d =
     CHR ''{'' # newline @ ''  '' @ jkey ''version'' @ '' '' @ to_string (doc_version d) @
     jline ''sequence'' (save_sequence (doc_sequence d)) @
     jline ''color_management'' (save_color (doc_color_management d)) @
     jline ''library'' (CHR '' '' # jlist ''    '' (line_end (doc_library d) @ ''  '') save_media (doc_library d)) @
     jline ''bins'' (CHR '' '' # jlist ''    '' (line_end (doc_bins d) @ ''  '') save_bin (doc_bins d)) @
     jline ''sources'' (CHR '' '' # jlist ''    '' (line_end (doc_sources d) @ ''  '') save_source (doc_sources d)) @
     newline @ ''}'' @ newline"

end
