(* ===== verification/Document_Json_Laws.thy ===== *)
theory Document_Json_Laws
  imports Document_Json
begin

text \<open>
  Laws of the document parser: it ends with the fuel it is given, and it reads back the texts
  that the writers make, object by object and list by list.
\<close>

section \<open>The parser ends\<close>

text \<open>\<open>ends_below k r\<close>: a result with fuel to spare that leaves less than \<open>k\<close> characters.\<close>

definition ends_below :: "nat \<Rightarrow> stop + 'a \<times> string \<Rightarrow> bool" where
  "ends_below k r \<longleftrightarrow> r \<noteq> Inl Unended \<and> (\<forall>x s. r = Inr (x, s) \<longrightarrow> length s < k)"

lemma ends_below_intros:
  shows "ends_below k (Inl (At what s))" and "length s < k \<Longrightarrow> ends_below k (Inr (x, s))"
  by (auto simp: ends_below_def)

lemma ends_below_mono: "ends_below k p \<Longrightarrow> k \<le> m \<Longrightarrow> ends_below m p"
  by (auto simp: ends_below_def)

lemma ends_below_bind:
  assumes "ends_below k (r s)" and "\<And>x s'. length s' < k \<Longrightarrow> ends_below m (f x s')"
  shows "ends_below m (bindP r f s)"
  using assms by (auto simp: ends_below_def bindP_def split: sum.splits)

lemma DocSkip_le: "length (DocSkipWhitespace s) \<le> length s"
  by (simp add: DocSkipWhitespace_def length_dropWhile_le)

lemma DocTake_ends_below: "ends_below (Suc (length s)) (DocTake s)" "s \<noteq> [] \<Longrightarrow> ends_below (length s) (DocTake s)"
  by (cases s; simp add: DocTake_def ends_below_def)+

lemma doc_hex_ends_below: "ends_below (Suc (length s)) (doc_hex n v s)"
proof (induction n arbitrary: v s)
  case (Suc n)
  have *: "ends_below (Suc (length s)) (doc_hex n w q)" if "length q < Suc (length s)" for w q
    using ends_below_mono [OF Suc [of q w]] that by simp
  show ?case unfolding doc_hex.simps
    by (rule ends_below_bind [of "Suc (length s)" DocTake]) (auto simp: DocTake_ends_below intro: * ends_below_intros split: option.splits)
qed (simp add: ends_below_def)

lemma doc_escape_ends_below: "ends_below (Suc (length s)) (doc_escape s)"
proof -
  have "ends_below (Suc (length t)) (doc_unicode t)" for t
    unfolding doc_unicode_def by (rule ends_below_bind [of "Suc (length t)" "doc_hex 4 0"]) (auto simp: doc_hex_ends_below intro: ends_below_intros)
  then have u: "ends_below (Suc (length s)) (doc_unicode t)" if "length t < Suc (length s)" for t
    by (rule ends_below_mono) (use that in simp)
  show ?thesis unfolding doc_escape_def
    by (rule ends_below_bind [of "Suc (length s)" DocTake])
      (auto simp: DocTake_ends_below ret_def intro: u ends_below_intros split: option.splits)
qed

lemma doc_string_ends_below: "ends_below (Suc (length s)) (doc_string_loop acc s)"
proof (induction acc s rule: doc_string_loop.induct)
  case (1 acc s)
  show ?case
  proof (cases s)
    case Nil
    then show ?thesis by (subst doc_string_loop.simps) (simp add: ends_below_intros)
  next
    case (Cons c q)
    have plain: "c \<noteq> CHR 0x22 \<Longrightarrow> \<not> (of_char c :: nat) < 0x20 \<Longrightarrow> c \<noteq> CHR 0x5C \<Longrightarrow>
      ends_below (Suc (length s)) (doc_string_loop (acc @ [c]) q)"
      by (rule ends_below_mono [OF 1(1)]) (use Cons in auto)
    show ?thesis
    proof (cases "doc_escape q")
      case (Inl e)
      then have "e \<noteq> Unended" using doc_escape_ends_below [of q] by (auto simp: ends_below_def)
      then show ?thesis using Inl Cons plain
        by (subst doc_string_loop.simps) (auto simp: Let_def ends_below_intros ends_below_def [of _ "Inl e"])
    next
      case (Inr p)
      obtain t r where p: "p = (t, r)" by (cases p)
      have "c \<noteq> CHR 0x22 \<Longrightarrow> \<not> (of_char c :: nat) < 0x20 \<Longrightarrow> c = CHR 0x5C \<Longrightarrow>
        ends_below (Suc (length s)) (doc_string_loop (acc @ t) r)"
        by (rule ends_below_mono [OF 1(2) [OF _ _ _ _ _ _ Inr p [symmetric]]])
          (use Cons doc_escape_shrink [of q t r] Inr p in auto)
      then show ?thesis using Inr p Cons plain
        by (subst doc_string_loop.simps) (auto simp: Let_def ends_below_intros)
    qed
  qed
qed

lemma take_literal_ends_below: "literal \<noteq> [] \<Longrightarrow> ends_below (max 1 (length s)) (take_literal literal s)"
proof (induction literal arbitrary: s)
  case (Cons l ls)
  show ?case
  proof (cases s)
    case (Cons c q)
    have "ls \<noteq> [] \<Longrightarrow> ends_below (Suc (length q)) (take_literal ls q)"
      using ends_below_mono [OF Cons.IH [of q], of "Suc (length q)"] by simp
    then show ?thesis using Cons by (cases ls) (auto simp: bindP_def DocTake_def ends_below_def)
  qed (simp add: bindP_def DocTake_def ends_below_def)
qed simp

lemma number_rest_less:
  "t \<noteq> [] \<Longrightarrow> hd t = CHR ''0'' \<or> is_digit (hd t) \<Longrightarrow> length (if hd t = CHR ''0'' then tl t else dropWhile is_digit t) < length t"
  using length_dropWhile_le [of is_digit "tl t"] by (cases t) (auto simp: le_imp_less_Suc)

lemma DocParseNumber_ends_below:
  assumes "s \<noteq> []"
  shows "ends_below (length s) (DocParseNumber s)"
proof -
  have le: "length (if at_char (CHR ''-'') s then tl s else s) \<le> length s" by simp
  show ?thesis
    unfolding DocParseNumber_def Let_def
    using less_le_trans [OF number_rest_less le]
    by (simp only: if_split) (intro conjI impI ends_below_intros; simp)
qed

lemma DocParseString_ends_below: "s \<noteq> [] \<Longrightarrow> ends_below (length s) (DocParseString s)"
  using doc_string_ends_below [of "tl s" "[]"] by (cases s) (simp_all add: DocParseString_def)

text \<open>The parser of a value, on texts shorter than \<open>k\<close>.\<close>

definition value_ends :: "nat \<Rightarrow> JsonValue reader \<Rightarrow> bool" where
  "value_ends k p \<longleftrightarrow> (\<forall>s. length s < k \<longrightarrow> ends_below (max 1 (length s)) (p s))"

lemma value_endsD: "value_ends k p \<Longrightarrow> length s \<le> m \<Longrightarrow> m < k \<Longrightarrow> ends_below (Suc m) (p s)"
  unfolding value_ends_def by (rule ends_below_mono [of "max 1 (length s)"]) auto

lemma skipped_tl: "at_char c (DocSkipWhitespace s) \<Longrightarrow> length (DocSkipWhitespace (tl (DocSkipWhitespace s))) < length s"
proof -
  assume "at_char c (DocSkipWhitespace s)"
  then have "length (tl (DocSkipWhitespace s)) < length s"
    using DocSkip_le [of s] by (cases "DocSkipWhitespace s") (auto simp: at_char_def)
  then show ?thesis using DocSkip_le [of "tl (DocSkipWhitespace s)"] by linarith
qed

lemma tl_skipped: "at_char c (DocSkipWhitespace s) \<Longrightarrow> length (tl (DocSkipWhitespace s)) < length s"
  using DocSkip_le [of s] by (cases "DocSkipWhitespace s") (auto simp: at_char_def)

lemma DocParseMembers_ends:
  "value_ends k p \<Longrightarrow> length s < k \<Longrightarrow> length s < n \<Longrightarrow> ends_below (Suc (length s)) (DocParseMembers p n entries s)"
proof (induction n arbitrary: entries s)
  case (Suc n)
  show ?case
  proof (cases "at_char (CHR 0x22) s")
    case True
    then have "s \<noteq> []" by (auto simp: at_char_def)
    note key = ends_below_bind [of "length s" DocParseString s "Suc (length s)", OF DocParseString_ends_below [OF this]]
    have loop: "ends_below (Suc (length s)) (DocParseMembers p n es t)" if "length t < length s" for es t
      by (rule ends_below_mono [OF Suc.IH]) (use that Suc.prems in auto)
    have val: "ends_below (Suc (length s)) (bindP p f x)"
      if x: "length x < length s" and f: "\<And>v t. length t < length s \<Longrightarrow> ends_below (Suc (length s)) (f v t)" for f x
    proof (rule ends_below_bind [of "length s" p])
      show "ends_below (length s) (p x)"
        using value_endsD [OF Suc.prems(1), of x "length s - 1"] x Suc.prems(2) by (cases s) auto
    qed (rule f)
    have t: "length (tl (DocSkipWhitespace t)) < Suc (length s)" "length (DocSkipWhitespace (tl (DocSkipWhitespace t))) < length s"
      if "at_char c (DocSkipWhitespace t)" "length t < length s" for t c
      using tl_skipped [OF that(1)] skipped_tl [OF that(1)] that(2) by linarith+
    show ?thesis
      using True by (auto simp: Let_def simp del: length_tl intro!: key ends_below_intros(1,2) val loop t)
  qed (simp add: ends_below_intros)
qed simp

lemma DocParseElements_ends:
  "value_ends k p \<Longrightarrow> length s < k \<Longrightarrow> length s < n \<Longrightarrow> ends_below (Suc (length s)) (DocParseElements p n items s)"
proof (induction n arbitrary: items s)
  case (Suc n)
  have loop: "ends_below (Suc (length s)) (DocParseElements p n es t)" if "length t < length s" for es t
    by (rule ends_below_mono [OF Suc.IH]) (use that Suc.prems in auto)
  have val: "ends_below (Suc (length s)) (bindP p f s)"
    if f: "\<And>v t. length t < Suc (length s) \<Longrightarrow> ends_below (Suc (length s)) (f v t)" for f
    by (rule ends_below_bind [of "Suc (length s)" p]) (auto intro: f value_endsD [OF Suc.prems(1) order.refl Suc.prems(2)])
  have t: "length (tl (DocSkipWhitespace t)) < Suc (length s)" "length (DocSkipWhitespace (tl (DocSkipWhitespace t))) < length s"
    if "at_char c (DocSkipWhitespace t)" "length t < Suc (length s)" for t c
    using tl_skipped [OF that(1)] skipped_tl [OF that(1)] that(2) by linarith+
  show ?case
    by (auto simp: Let_def simp del: length_tl intro!: ends_below_intros(1,2) val loop t)
qed simp

lemma DocParse_ends: "value_ends n (DocParseValue n)"
proof (induction n)
  case (Suc n)
  have o: "ends_below (length s) (DocParseObject (DocParseValue n) (tl s))" "ends_below (length s) (DocParseArray (DocParseValue n) (tl s))"
    if "s \<noteq> []" "length s < Suc n" for s
  proof -
    let ?r = "DocSkipWhitespace (tl s)"
    have l: "length ?r < length s" using DocSkip_le [of "tl s"] that(1) by (cases s) auto
    then have "ends_below (length s) (DocParseMembers (DocParseValue n) (Suc (length ?r)) [] ?r)"
      "ends_below (length s) (DocParseElements (DocParseValue n) (Suc (length ?r)) [] ?r)"
      using ends_below_mono [OF DocParseMembers_ends [OF Suc.IH, of ?r "Suc (length ?r)"]]
        ends_below_mono [OF DocParseElements_ends [OF Suc.IH, of ?r "Suc (length ?r)"]] that(2)
      by (simp_all del: DocParseMembers.simps DocParseElements.simps)
    moreover have "length (tl ?r) < length s" if "at_char c ?r" for c
      using l by simp
    ultimately show "ends_below (length s) (DocParseObject (DocParseValue n) (tl s))"
      "ends_below (length s) (DocParseArray (DocParseValue n) (tl s))"
      unfolding DocParseObject_def DocParseArray_def Let_def by (simp_all add: ends_below_intros del: DocParseMembers.simps DocParseElements.simps)
  qed
  have l: "s \<noteq> [] \<Longrightarrow> literal \<noteq> [] \<Longrightarrow> ends_below (length s) (bindP (take_literal literal) (\<lambda>_. ret v) s)" for s literal and v :: JsonValue
    using take_literal_ends_below [of literal s] by (intro ends_below_bind [of "max 1 (length s)" "take_literal literal"]) (auto simp: ret_def ends_below_intros Suc_leI max_def split: if_splits)
  have t: "s \<noteq> [] \<Longrightarrow> ends_below (length s) (bindP DocParseString (\<lambda>v. ret (JvString v)) s)" for s
    by (rule ends_below_bind [of "length s" DocParseString]) (auto simp: DocParseString_ends_below ret_def ends_below_intros)
  have v: "ends_below (length s) (DocParseValue (Suc n) s)" if "s \<noteq> []" "length s < Suc n" for s
    using that o [OF that] l [OF that(1)] t [OF that(1)] DocParseNumber_ends_below [OF that(1)]
    by (simp add: DocParseLiteral_def DocParseNull_def ends_below_intros)
  have "ends_below (max 1 (length s)) (DocParseValue (Suc n) s)" if "length s < Suc n" for s
  proof (cases "s = []")
    case False
    then show ?thesis by (intro ends_below_mono [OF v [OF False that]]) simp
  qed (simp add: ends_below_intros)
  then show ?case by (simp only: value_ends_def) blast
qed (simp add: value_ends_def)

lemma JsonParser_ends: "JsonParser_Parse json \<noteq> Inl Unended"
proof -
  have "ends_below (max 1 (length (DocSkipWhitespace json))) (DocParseValue (Suc (length json)) (DocSkipWhitespace json))"
    using DocParse_ends [of "Suc (length json)"] DocSkip_le [of json] unfolding value_ends_def by simp
  then show ?thesis
    by (auto simp: JsonParser_Parse_def ends_below_def Let_def simp del: DocParseValue.simps split: sum.splits)
qed

section \<open>Texts of values\<close>

text \<open>
  A text denotes a value when the parser reads exactly the text as that value before anything
  that does not continue a number.
\<close>

definition doc_end :: "string \<Rightarrow> bool" where
  "doc_end s \<longleftrightarrow> s = [] \<or> \<not> is_digit (hd s) \<and> hd s \<notin> {CHR ''.'', CHR ''e'', CHR ''E''}"

definition denotes :: "string \<Rightarrow> JsonValue \<Rightarrow> bool" where
  "denotes t v \<longleftrightarrow> t \<noteq> [] \<and> \<not> isspace (hd t) \<and> hd t \<notin> {CHR '']'', CHR ''}''} \<and>
     (\<forall>n s. length (t @ s) < n \<longrightarrow> doc_end s \<longrightarrow> DocParseValue n (t @ s) = Inr (v, s))"

named_theorems denoting \<open>texts and the values they denote\<close>

lemma Escape_is_EscapeJsonString: "Escape s = EscapeJsonString s"
proof -
  have "doc_escape_char c = escape_char c" for c
    unfolding doc_escape_char_def escape_char_def kHexDigits_def by (rule refl)
  then have "doc_escape_char = escape_char" by (rule ext)
  then show ?thesis by (simp add: Escape_def EscapeJsonString_def)
qed

lemma doc_string_loop_steps:
  shows "c \<noteq> CHR 0x22 \<Longrightarrow> c \<noteq> CHR 0x5C \<Longrightarrow> \<not> (of_char c :: nat) < 0x20 \<Longrightarrow> doc_string_loop acc (c # q) = doc_string_loop (acc @ [c]) q"
    and "doc_escape q = Inr (t, r) \<Longrightarrow> doc_string_loop acc (CHR 0x5C # q) = doc_string_loop (acc @ t) r"
    and "doc_string_loop acc (CHR 0x22 # q) = Inr (acc, q)"
  by (subst doc_string_loop.simps; simp)+

lemma doc_escape_simple: "simple_escape x = Some y \<Longrightarrow> doc_escape (x # r) = Inr ([y], r)"
  by (simp add: doc_escape_def bindP_def DocTake_def ret_def)

lemma doc_hex_step: "hex_digit a = Some d \<Longrightarrow> doc_hex (Suc n) v (a # r) = doc_hex n (or (push_bit 4 v) d) r"
  by (simp add: bindP_def DocTake_def)

lemma doc_hex_digits:
  assumes "hex_digit a = Some d1" and "hex_digit b = Some d2" and "hex_digit c = Some d3" and "hex_digit e = Some d4"
  shows "doc_hex 4 0 (a # b # c # e # r) = Inr (or (push_bit 4 (or (push_bit 4 (or (push_bit 4 d1) d2)) d3)) d4, r)"
  by (simp add: numeral_eq_Suc doc_hex_step [OF assms(1)] doc_hex_step [OF assms(2)] doc_hex_step [OF assms(3)]
    doc_hex_step [OF assms(4)] del: doc_hex.simps(2))

lemma doc_escape_control:
  assumes "(of_char c :: nat) < 0x20"
  shows "doc_escape (''u00'' @ [kHexDigits ! (of_char c div 16), kHexDigits ! (of_char c mod 16)] @ r) = Inr ([c], r)"
proof -
  let ?n = "of_char c :: nat"
  have n: "hex_digit (kHexDigits ! (?n div 16)) = Some (?n div 16)" "hex_digit (kHexDigits ! (?n mod 16)) = Some (?n mod 16)"
    "or (push_bit 4 (?n div 16)) (?n mod 16) = ?n"
    using control_escapes [THEN bspec, of ?n] assms by auto
  have z: "hex_digit (CHR ''0'') = Some 0" by code_simp
  have "doc_hex 4 0 (''00'' @ [kHexDigits ! (?n div 16), kHexDigits ! (?n mod 16)] @ r) = Inr (?n, r)"
    using doc_hex_digits [OF z z n(1,2), of r] n(3) by simp
  then have "doc_unicode (''00'' @ [kHexDigits ! (?n div 16), kHexDigits ! (?n mod 16)] @ r) = Inr ([c], r)"
    using assms by (simp add: doc_unicode_def bindP_def DocAppendUtf8_def)
  moreover have "simple_escape (CHR ''u'') = None" by code_simp
  ultimately show ?thesis by (simp add: doc_escape_def bindP_def DocTake_def)
qed

lemma doc_string_loop_char: "doc_string_loop acc (escape_char c @ r) = doc_string_loop (acc @ [c]) r"
  unfolding escape_char_def
  using doc_string_loop_steps(1) [of c acc r] doc_string_loop_steps(2) [OF doc_escape_control [of c r], of acc]
  by (simp add: doc_string_loop_steps(2) [OF doc_escape_simple] simple_escape_def)

lemma doc_string_loop_escaped: "doc_string_loop acc (Escape v @ CHR 0x22 # r) = Inr (acc @ v, r)"
proof (induction v arbitrary: acc)
  case (Cons c v)
  have "Escape (c # v) @ CHR 0x22 # r = escape_char c @ Escape v @ CHR 0x22 # r"
    by (simp add: Escape_is_EscapeJsonString EscapeJsonString_def)
  then show ?case using Cons.IH [of "acc @ [c]"] by (simp only: doc_string_loop_char) simp
qed (simp add: Escape_def doc_string_loop_steps)

lemma DocParseString_text: "DocParseString (jtext v @ r) = Inr (v, r)"
  by (simp add: DocParseString_def jtext_def doc_string_loop_escaped)

lemma denotes_text [denoting]: "denotes (jtext v) (JvString v)"
proof -
  have "DocParseValue n (jtext v @ s) = Inr (JvString v, s)" if "length (jtext v @ s) < n" for n s
    using that DocParseString_text [of v s] by (cases n) (simp_all add: jtext_def bindP_def ret_def)
  then show ?thesis using punctuation_not_space by (simp add: denotes_def) (simp add: jtext_def)
qed

lemma take_literal_prefix: "take_literal l (l @ s) = Inr ((), s)"
  by (induction l) (simp_all add: bindP_def DocTake_def)

lemma denotes_bool [denoting]: "denotes (write_bool b) (JvBoolean b)"
proof -
  have "DocParseValue n (write_bool b @ s) = Inr (JvBoolean b, s)" if "length (write_bool b @ s) < n" for n s
    using that take_literal_prefix [of "''true''" s] take_literal_prefix [of "''false''" s]
    by (cases n) (auto simp: write_bool_def DocParseLiteral_def bindP_def ret_def simp del: take_literal.simps)
  then show ?thesis using punctuation_not_space by (simp add: denotes_def) (simp add: write_bool_def)
qed

lemma number_scan:
  assumes "doc_end s" and "t = nat_to_string k @ s"
  shows "t \<noteq> []" and "\<not> (hd t = CHR ''0'' \<and> at_digit (tl t))" and "is_digit (hd t)"
    and "(if hd t = CHR ''0'' then tl t else dropWhile is_digit t) = s" and "takeWhile is_digit t = nat_to_string k"
proof -
  have nat: "list_all is_digit (nat_to_string k)" "nat_to_string k \<noteq> []" by (fact digits_of_nat)+
  have h: "hd t = hd (nat_to_string k)" "is_digit (hd t)"
    using nat assms(2) by (cases "nat_to_string k"; simp)+
  have nd: "no_digit_first s" using assms(1) by (auto simp: doc_end_def no_digit_first_def)
  have z: "t = CHR ''0'' # s" if "hd t = CHR ''0''"
    using that h(1) no_leading_zero [of k] single_zero assms(2) by simp
  show "t \<noteq> []" "is_digit (hd t)" using nat h assms(2) by auto
  show "\<not> (hd t = CHR ''0'' \<and> at_digit (tl t))" using z assms(1) by (auto simp: at_digit_def doc_end_def)
  show "takeWhile is_digit t = nat_to_string k" using digit_prefix(1) [OF nat(1) nd] assms(2) by simp
  show "(if hd t = CHR ''0'' then tl t else dropWhile is_digit t) = s"
    using z digit_prefix(2) [OF nat(1) nd] assms(2) by auto
qed

lemma DocParseNumber_back:
  assumes "in_int64 x" and "doc_end s"
  shows "DocParseNumber (to_string x @ s) = Inr (JvNumber x, s)"
proof -
  obtain t where t_def: "t = nat_to_string (nat \<bar>x\<bar>) @ s" by simp
  note t = number_scan [OF assms(2) t_def]
  have e: "\<not> (at_char (CHR ''.'') s \<or> at_char (CHR ''e'') s \<or> at_char (CHR ''E'') s)"
    using assms(2) by (auto simp: doc_end_def at_char_def)
  have v: "digits_value (nat_to_string (nat \<bar>x\<bar>)) = nat \<bar>x\<bar>" by (rule digits_of_nat(3))
  have m: "\<not> is_digit (CHR ''-'')" by code_simp
  show ?thesis
  proof (cases "x < 0")
    case True
    then have "to_string x @ s = CHR ''-'' # t" by (simp add: to_string_def t_def)
    then show ?thesis using t e v True assms(1)
      by (cases "hd t = CHR ''0''") (simp_all add: DocParseNumber_def Let_def at_char_def [of "CHR ''-''"] in_int64_def)
  next
    case False
    then have "to_string x @ s = t" by (simp add: to_string_def t_def)
    moreover have "\<not> at_char (CHR ''-'') t" using t(3) m by (auto simp: at_char_def)
    ultimately show ?thesis using t e v False assms(1)
      by (cases "hd t = CHR ''0''") (simp_all add: DocParseNumber_def Let_def in_int64_def)
  qed
qed

lemma to_string_head: "to_string x \<noteq> []" "hd (to_string x) = CHR ''-'' \<or> is_digit (hd (to_string x))"
proof -
  have n: "nat_to_string k \<noteq> []" "is_digit (hd (nat_to_string k))" for k
    using digits_of_nat(1,2) [of k] by (cases "nat_to_string k"; simp)+
  show "to_string x \<noteq> []" using n(1) by (simp add: to_string_def del: nat_to_string.simps)
  show "hd (to_string x) = CHR ''-'' \<or> is_digit (hd (to_string x))"
    using n(2) by (simp add: to_string_def del: nat_to_string.simps)
qed

lemma denotes_number [denoting]:
  assumes "in_int64 x"
  shows "denotes (to_string x) (JvNumber x)"
proof -
  have c: "c \<notin> {CHR ''{'', CHR ''['', CHR 0x22, CHR ''t'', CHR ''f'', CHR ''n'', CHR '']'', CHR ''}''} \<and> \<not> isspace c"
    if "c = CHR ''-'' \<or> is_digit c" for c
    using that by (auto simp: is_digit_def isspace_def)
  have "DocParseValue n (to_string x @ s) = Inr (JvNumber x, s)" if "length (to_string x @ s) < n" "doc_end s" for n s
    using that(1) DocParseNumber_back [OF assms that(2)] c [OF to_string_head(2) [of x]] to_string_head [of x]
    by (cases n) (simp_all del: length_append)
  then show ?thesis using to_string_head(1) c [OF to_string_head(2) [of x]] by (simp add: denotes_def)
qed

section \<open>Objects\<close>

text \<open>
  \<open>after_value\<close> is what the loop of \<open>ParseObject\<close> does after the value of a member; \<open>rest_text\<close>
  is a text that ends the object there after the given further members.
\<close>

definition after_value :: "JsonValue reader \<Rightarrow> nat \<Rightarrow> (string \<times> JsonValue) list \<Rightarrow> JsonValue reader" where
  "after_value p n entries s =
     (let rest = DocSkipWhitespace s in
      if at_char (CHR ''}'') rest then Inr (JvObject entries, tl rest)
      else if \<not> at_char (CHR '','') rest then Inl (At (''expected '' @ quoted '','' @ '' or '' @ quoted ''}'') rest)
      else DocParseMembers p n entries (DocSkipWhitespace (tl rest)))"

definition object_of :: "(string \<times> JsonValue) list \<Rightarrow> (string \<times> JsonValue) list \<Rightarrow> (string \<times> JsonValue) list" where
  "object_of entries es = foldl (\<lambda>m p. emplace p m) entries es"

definition fresh :: "(string \<times> JsonValue) list \<Rightarrow> (string \<times> JsonValue) list \<Rightarrow> bool" where
  "fresh entries es \<longleftrightarrow> distinct (map fst es) \<and> fst ` set entries \<inter> fst ` set es = {}"

definition rest_text :: "string \<Rightarrow> (string \<times> JsonValue) list \<Rightarrow> bool" where
  "rest_text t es \<longleftrightarrow> t \<noteq> [] \<and> doc_end t \<and>
     (\<forall>n m entries s. length (t @ s) < n \<longrightarrow> length (t @ s) < m \<longrightarrow> fresh entries es \<longrightarrow>
        after_value (DocParseValue n) m entries (t @ s) = Inr (JvObject (object_of entries es), s))"

definition spaces :: "string \<Rightarrow> bool" where
  "spaces t \<longleftrightarrow> list_all isspace t"

lemma spaces_simps [denoting]: "spaces []" "spaces newline" "spaces (CHR '' '' # t) \<longleftrightarrow> spaces t" "spaces (t @ w) \<longleftrightarrow> spaces t \<and> spaces w"
  by (simp_all add: spaces_def newline_def isspace_def)

lemma DocSkip_spaces: "spaces t \<Longrightarrow> DocSkipWhitespace (t @ s) = DocSkipWhitespace s"
  by (induction t) (simp_all add: spaces_def DocSkipWhitespace_def)

lemma DocSkip_Cons: "\<not> isspace c \<Longrightarrow> DocSkipWhitespace (c # s) = c # s"
  by (simp add: DocSkipWhitespace_def)

lemma DocSkip_denotes: "denotes w v \<Longrightarrow> spaces t \<Longrightarrow> DocSkipWhitespace (t @ w @ s) = w @ s"
  by (cases w) (auto simp: denotes_def DocSkip_spaces DocSkip_Cons)

lemma emplace_keys: "fst ` set (emplace p m) = insert (fst p) (fst ` set m)"
  by (induction m) auto

lemma fresh_Cons: "fresh entries ((k, v) # es) \<longleftrightarrow> k \<notin> fst ` set entries \<and> fresh (emplace (k, v) entries) es"
  by (auto simp: fresh_def emplace_keys)

lemma doc_end_append: "t \<noteq> [] \<Longrightarrow> doc_end t \<Longrightarrow> doc_end (t @ s)"
  by (simp add: doc_end_def)

lemma member_back:
  assumes "denotes w v" and "spaces ws" and "t \<noteq> []" "doc_end t" and "k \<notin> fst ` set entries"
    and "length (w @ t @ s) < n"
  shows "DocParseMembers (DocParseValue n) (Suc m) entries (jtext k @ CHR '':'' # ws @ w @ t @ s) =
    after_value (DocParseValue n) m (emplace (k, v) entries) (t @ s)"
proof -
  have q: "at_char (CHR 0x22) (jtext k @ r)" "at_char (CHR '':'') (CHR '':'' # r)" for r by (simp_all add: jtext_def at_char_def)
  have v: "DocParseValue n (w @ t @ s) = Inr (v, t @ s)"
    using assms(1,6) doc_end_append [OF assms(3,4)] by (simp add: denotes_def)
  show ?thesis
    using assms(5)
    by (simp add: q bindP_def DocParseString_text DocSkip_Cons punctuation_not_space
      DocSkip_denotes [OF assms(1,2)] v after_value_def Let_def del: DocParseValue.simps)
qed

lemma rest_close [denoting]: "spaces ws \<Longrightarrow> rest_text (ws @ ''}'') []"
proof -
  assume ws: "spaces ws"
  have "doc_end (ws @ ''}'')"
    using ws by (cases ws) (auto simp: doc_end_def is_digit_def spaces_def isspace_def)
  then show ?thesis
    by (simp add: rest_text_def after_value_def DocSkip_spaces [OF ws] DocSkip_Cons punctuation_not_space at_char_def object_of_def)
qed

lemma rest_member:
  assumes "denotes w v" and "spaces ws" and "spaces ws'" and "rest_text t es" and "spaces ws''"
  shows "rest_text (ws'' @ CHR '','' # ws' @ jtext k @ CHR '':'' # ws @ w @ t) ((k, v) # es)"
proof -
  have c: "doc_end (ws'' @ CHR '','' # u)" for u
    using assms(5) by (cases ws'') (auto simp: doc_end_def is_digit_def spaces_def isspace_def)
  have "after_value (DocParseValue n) m entries (ws'' @ CHR '','' # ws' @ jtext k @ CHR '':'' # ws @ w @ t @ s) =
      Inr (JvObject (object_of (emplace (k, v) entries) es), s)"
    if n: "length (ws'' @ CHR '','' # ws' @ jtext k @ CHR '':'' # ws @ w @ t @ s) < n"
      "length (ws'' @ CHR '','' # ws' @ jtext k @ CHR '':'' # ws @ w @ t @ s) < m" and f: "fresh entries ((k, v) # es)"
    for n m entries s
  proof -
    obtain m' where m: "m = Suc m'" using n(2) by (cases m) auto
    have j: "DocSkipWhitespace (ws' @ jtext k @ r) = jtext k @ r" for r
      using DocSkip_spaces [OF assms(3)] by (simp add: jtext_def DocSkip_Cons punctuation_not_space)
    have "after_value (DocParseValue n) m entries (ws'' @ CHR '','' # ws' @ jtext k @ CHR '':'' # ws @ w @ t @ s) =
      DocParseMembers (DocParseValue n) m entries (jtext k @ CHR '':'' # ws @ w @ t @ s)"
      by (simp add: after_value_def DocSkip_spaces [OF assms(5)] DocSkip_Cons punctuation_not_space at_char_def j)
    also have "\<dots> = after_value (DocParseValue n) m' (emplace (k, v) entries) (t @ s)"
      unfolding m by (rule member_back) (use assms n f in \<open>auto simp: rest_text_def fresh_Cons\<close>)
    also have "\<dots> = Inr (JvObject (object_of (emplace (k, v) entries) es), s)"
      using assms(4) n f m by (auto simp: rest_text_def fresh_Cons)
    finally show ?thesis .
  qed
  then show ?thesis using c by (simp add: rest_text_def object_of_def)
qed

lemma denotes_object:
  assumes "denotes w v" and "spaces ws" and "spaces ws'" and "rest_text t es" and "distinct (map fst ((k, v) # es))"
  shows "denotes (CHR ''{'' # ws' @ jtext k @ CHR '':'' # ws @ w @ t) (JvObject (object_of [] ((k, v) # es)))"
proof -
  have "DocParseValue n (CHR ''{'' # ws' @ jtext k @ CHR '':'' # ws @ w @ t @ s) = Inr (JvObject (object_of [] ((k, v) # es)), s)"
    if n: "length (CHR ''{'' # ws' @ jtext k @ CHR '':'' # ws @ w @ t @ s) < n" for n s
  proof -
    obtain n' where n': "n = Suc n'" using n by (cases n) auto
    let ?r = "jtext k @ CHR '':'' # ws @ w @ t @ s"
    have j: "DocSkipWhitespace (ws' @ ?r) = ?r" "\<not> at_char (CHR ''}'') ?r"
      using DocSkip_spaces [OF assms(3)] by (simp_all add: jtext_def DocSkip_Cons punctuation_not_space at_char_def)
    have "DocParseValue n (CHR ''{'' # ws' @ ?r) = DocParseMembers (DocParseValue n') (Suc (length ?r)) [] ?r"
      unfolding n' using j by (simp add: DocParseObject_def Let_def del: DocParseMembers.simps)
    also have "\<dots> = after_value (DocParseValue n') (length ?r) (emplace (k, v) []) (t @ s)"
      by (rule member_back) (use assms n n' in \<open>auto simp: rest_text_def\<close>)
    also have "\<dots> = Inr (JvObject (object_of (emplace (k, v) []) es), s)"
      using assms(4,5) n n' by (auto simp: rest_text_def fresh_def)
    finally show ?thesis by (simp add: object_of_def)
  qed
  then show ?thesis using punctuation_not_space by (simp add: denotes_def)
qed

lemma denotes_empty_object: "denotes ''{}'' (JvObject [])"
proof -
  have "DocParseValue n (''{}'' @ s) = Inr (JvObject [], s)" if "length (''{}'' @ s) < n" for n s
    using that by (cases n) (simp_all add: DocParseObject_def DocSkip_Cons punctuation_not_space at_char_def)
  then show ?thesis using punctuation_not_space by (simp add: denotes_def)
qed

section \<open>Arrays\<close>

definition item_texts :: "string \<Rightarrow> string \<Rightarrow> ('a \<Rightarrow> string) \<Rightarrow> 'a list \<Rightarrow> string" where
  "item_texts first sep w xs =
     (case xs of [] \<Rightarrow> [] | x # ys \<Rightarrow> first @ w x @ concat (map (\<lambda>y. CHR '','' # sep @ w y) ys))"

lemma jlines_item_texts: "jlines indent w xs = item_texts (newline @ indent) (newline @ indent) w xs"
  by (cases xs) (simp_all add: jlines_def item_texts_def)

lemma doc_end_spaces: "spaces ws \<Longrightarrow> c = CHR '','' \<or> c = CHR '']'' \<or> c = CHR ''}'' \<Longrightarrow> doc_end (ws @ c # r)"
  by (cases ws) (auto simp: doc_end_def is_digit_def spaces_def isspace_def)

lemma elements_back:
  assumes "spaces sep" and "spaces ws"
  shows "denotes t v \<Longrightarrow> (\<And>y. y \<in> set ys \<Longrightarrow> denotes (w y) (val y)) \<Longrightarrow>
    length (t @ concat (map (\<lambda>y. CHR '','' # sep @ w y) ys) @ ws @ CHR '']'' # s) < n \<Longrightarrow> length ys < m \<Longrightarrow>
    DocParseElements (DocParseValue n) m items (t @ concat (map (\<lambda>y. CHR '','' # sep @ w y) ys) @ ws @ CHR '']'' # s) =
      Inr (JvArray (items @ v # map val ys), s)"
proof (induction ys arbitrary: t v m items)
  case Nil
  obtain m' where m: "m = Suc m'" using Nil.prems(4) by (cases m) auto
  have "DocParseValue n (t @ ws @ CHR '']'' # s) = Inr (v, ws @ CHR '']'' # s)"
    using Nil.prems(1,3) doc_end_spaces [OF assms(2)] by (simp add: denotes_def)
  then show ?case
    by (simp add: m bindP_def DocSkip_spaces [OF assms(2)] DocSkip_Cons punctuation_not_space at_char_def del: DocParseValue.simps)
next
  case (Cons y ys)
  obtain m' where m: "m = Suc m'" using Cons.prems(4) by (cases m) auto
  let ?r = "w y @ concat (map (\<lambda>y. CHR '','' # sep @ w y) ys) @ ws @ CHR '']'' # s"
  have y: "denotes (w y) (val y)" using Cons.prems(2) by simp
  have "DocParseValue n (t @ CHR '','' # sep @ ?r) = Inr (v, CHR '','' # sep @ ?r)"
    using Cons.prems(1,3) doc_end_spaces [of "[]" "CHR '',''"] by (simp add: denotes_def spaces_def)
  moreover have "DocParseElements (DocParseValue n) m' (items @ [v]) ?r = Inr (JvArray ((items @ [v]) @ val y # map val ys), s)"
    by (rule Cons.IH [OF y]) (use Cons.prems m in auto)
  ultimately show ?case
    by (simp add: m bindP_def DocSkip_Cons punctuation_not_space at_char_def DocSkip_denotes [OF y assms(1)] del: DocParseValue.simps)
qed

lemma denotes_array:
  assumes "spaces first" and "spaces sep" and "spaces ws" and "\<And>x. x \<in> set xs \<Longrightarrow> denotes (w x) (val x)"
  shows "denotes (CHR ''['' # item_texts first sep w xs @ ws @ '']'') (JvArray (map val xs))"
proof -
  have "DocParseValue n (CHR ''['' # item_texts first sep w xs @ ws @ CHR '']'' # s) = Inr (JvArray (map val xs), s)"
    if n: "length (CHR ''['' # item_texts first sep w xs @ ws @ CHR '']'' # s) < n" for n s
  proof -
    obtain n' where n': "n = Suc n'" using n by (cases n) auto
    show ?thesis
    proof (cases xs)
      case Nil
      then show ?thesis
        by (simp add: n' item_texts_def DocParseArray_def DocSkip_spaces [OF assms(3)] DocSkip_Cons punctuation_not_space at_char_def)
    next
      case (Cons x ys)
      let ?r = "w x @ concat (map (\<lambda>y. CHR '','' # sep @ w y) ys) @ ws @ CHR '']'' # s"
      have x: "denotes (w x) (val x)" using assms(4) Cons by simp
      have c: "\<not> at_char (CHR '']'') ?r" using x by (cases "w x") (auto simp: denotes_def at_char_def)
      have len: "length ys \<le> length (concat (map (\<lambda>y. CHR '','' # sep @ w y) ys))" by (induction ys) auto
      have "DocParseElements (DocParseValue n') (Suc (length ?r)) [] ?r = Inr (JvArray ([] @ val x # map val ys), s)"
        by (rule elements_back [OF assms(2,3) x]) (use assms(4) Cons n n' len in \<open>auto simp: item_texts_def\<close>)
      then show ?thesis
        using c by (simp add: n' Cons item_texts_def DocParseArray_def DocSkip_denotes [OF x assms(1)] Let_def del: DocParseElements.simps)
    qed
  qed
  then show ?thesis using punctuation_not_space by (simp add: denotes_def)
qed

lemma denotes_lines:
  assumes "spaces indent" and "spaces ws" and "\<And>x. x \<in> set xs \<Longrightarrow> denotes (w x) (val x)"
  shows "denotes (CHR ''['' # jlines indent w xs @ ws @ '']'') (JvArray (map val xs))"
  unfolding jlines_item_texts by (rule denotes_array) (use assms in \<open>simp_all add: denoting\<close>)

section \<open>Whole texts\<close>

lemma Parse_denotes:
  assumes "denotes t v" and "spaces ws"
  shows "JsonParser_Parse (t @ ws) = Inr v"
proof -
  have "DocSkipWhitespace (t @ ws) = t @ ws" using DocSkip_denotes [OF assms(1), of "[]" ws] by (simp add: denoting)
  moreover have "doc_end ws" using assms(2) by (cases ws) (auto simp: doc_end_def is_digit_def spaces_def isspace_def)
  then have "DocParseValue (Suc (length (t @ ws))) (t @ ws) = Inr (v, ws)"
    using assms(1) by (simp add: denotes_def del: DocParseValue.simps)
  moreover have "DocSkipWhitespace ws = []" using DocSkip_spaces [OF assms(2), of "[]"] by (simp add: DocSkipWhitespace_def)
  ultimately show ?thesis by (simp add: JsonParser_Parse_def del: DocParseValue.simps)
qed

section \<open>Members of objects\<close>

lemma map_of_emplace: "k \<notin> fst ` set m \<Longrightarrow> map_of (emplace (k, v) m) k' = (if k' = k then Some v else map_of m k')"
  by (induction m) auto

lemma map_of_object_of: "fresh m es \<Longrightarrow> map_of (object_of m es) k = (case map_of es k of Some v \<Rightarrow> Some v | None \<Rightarrow> map_of m k)"
proof (induction es arbitrary: m)
  case (Cons e es)
  obtain j v where e: "e = (j, v)" by (cases e)
  have f: "j \<notin> fst ` set m" "fresh (emplace (j, v) m) es" "j \<notin> fst ` set es"
    using Cons.prems by (simp_all add: e fresh_Cons) (simp add: fresh_def emplace_keys)
  then have "map_of es j = None" by (simp add: map_of_eq_None_iff)
  then show ?case using Cons.IH [OF f(2)] f(1) by (auto simp: e object_of_def map_of_emplace split: option.splits)
qed (simp add: object_of_def)

text \<open>Some members are written only when they are set.\<close>

definition entry_if :: "bool \<Rightarrow> string \<Rightarrow> JsonValue \<Rightarrow> (string \<times> JsonValue) list \<Rightarrow> (string \<times> JsonValue) list" where
  "entry_if c k v es = (if c then (k, v) # es else es)"

lemma map_of_entry_if [denoting]: "map_of (entry_if c k v es) k' = (if c \<and> k' = k then Some v else map_of es k')"
  by (simp add: entry_if_def)

lemma keys_entry_if [denoting]:
  "k' \<in> fst ` set (entry_if c k v es) \<longleftrightarrow> c \<and> k' = k \<or> k' \<in> fst ` set es"
  "distinct (map fst (entry_if c k v es)) \<longleftrightarrow> distinct (map fst es) \<and> (c \<longrightarrow> k \<notin> fst ` set es)"
  by (auto simp: entry_if_def)

lemma object_member: "distinct (map fst es) \<Longrightarrow> map_of (object_of [] es) k = map_of es k"
  using map_of_object_of [of "[]" es k] by (simp add: fresh_def split: option.splits)

end
