(* ===== verification/Document_Entries.thy ===== *)
theory Document_Entries
  imports Document_Text Document_Json_Laws
begin

text \<open>
  The tree of values that the text of each struct denotes: the members in the order they are
  written, with those that are left out.
\<close>

section \<open>Written members\<close>

definition obj :: "(string \<times> JsonValue) list \<Rightarrow> JsonValue" where
  "obj es = JvObject (object_of [] es)"

text \<open>Keys that are streamed as literals have nothing to escape.\<close>

definition plain_key :: "string \<Rightarrow> bool" where
  "plain_key k \<longleftrightarrow> Escape k = k"

lemma plain_keys_checked:
  "list_all plain_key
    [''active_angle_id'', ''alignment'', ''angles'', ''audio_channels'', ''audio_fade_in'', ''audio_fade_out'', ''audio_gain_db'', ''audio_level'',
     ''audio_rate'', ''bin_id'', ''bins'', ''caption_group_id'', ''caption_styles'', ''caption_text'', ''category'', ''clip_id'',
     ''clips'', ''codec'', ''color'', ''color_management'', ''color_primaries'', ''color_range'', ''color_space'', ''color_transfer'',
     ''den'', ''duration'', ''effects'', ''enabled'', ''filename'', ''font_family'', ''font_size'', ''frame_rate'',
     ''has_audio'', ''has_video'', ''height'', ''id'', ''include_audio'', ''index'', ''input_gamut'', ''input_range'',
     ''input_transfer'', ''input_ycbcr_matrix'', ''kind'', ''left_clip_id'', ''library'', ''link_group_id'', ''locked'', ''markers'',
     ''multicam_groups'', ''muted'', ''name'', ''num'', ''opacity'', ''orientation'', ''output_gamut'', ''output_transfer'',
     ''params'', ''parent_id'', ''path'', ''pixel_format'', ''position'', ''proxy_path'', ''rate'', ''right_clip_id'',
     ''rotation_degrees'', ''sequence'', ''solo'', ''source_id'', ''source_in'', ''sources'', ''sync_anchor_clip_id'', ''sync_lock'',
     ''sync_reference_delta'', ''time'', ''timeline_in'', ''track_id'', ''tracks'', ''transitions'', ''type'', ''value'',
     ''version'', ''visible'', ''width'', ''working_gamut'']"
  by code_simp

lemmas plain_keys [denoting] = plain_keys_checked [unfolded list.pred_inject]

text \<open>A value may come after spaces.\<close>

definition value_text :: "string \<Rightarrow> JsonValue \<Rightarrow> bool" where
  "value_text w v \<longleftrightarrow> (\<exists>ws t. w = ws @ t \<and> spaces ws \<and> denotes t v)"

lemma value_text_intros [denoting]:
  shows "denotes w v \<Longrightarrow> value_text w v" and "denotes w v \<Longrightarrow> value_text (CHR '' '' # w) v"
proof -
  show "denotes w v \<Longrightarrow> value_text w v"
    unfolding value_text_def by (rule exI [of _ "[]"]) (simp add: denoting)
  show "denotes w v \<Longrightarrow> value_text (CHR '' '' # w) v"
    unfolding value_text_def by (rule exI [of _ "'' ''"]) (simp add: denoting)
qed

lemma jkey_jtext: "plain_key k \<Longrightarrow> jkey k @ r = jtext k @ CHR '':'' # r"
  by (simp add: jkey_def jtext_def plain_key_def)

lemma rest_jkey:
  assumes "plain_key k" and "value_text w v" and "rest_text t es" and "spaces ws"
  shows "rest_text (CHR '','' # ws @ jkey k @ w @ t) ((k, v) # es)"
proof -
  obtain sp u where w: "w = sp @ u" "spaces sp" "denotes u v" using assms(2) by (auto simp: value_text_def)
  have "rest_text ([] @ CHR '','' # ws @ jtext k @ CHR '':'' # sp @ u @ t) ((k, v) # es)"
    by (rule rest_member [OF w(3,2) assms(4,3)]) (simp add: denoting)
  then show ?thesis by (simp add: jkey_jtext [OF assms(1)] w(1))
qed

lemma rest_jfield [denoting]: "plain_key k \<Longrightarrow> value_text w v \<Longrightarrow> rest_text t es \<Longrightarrow> rest_text (jfield k w @ t) ((k, v) # es)"
  using rest_jkey [of k w v t es "[]"] by (simp add: jfield_def denoting)

lemma rest_jline [denoting]: "plain_key k \<Longrightarrow> value_text w v \<Longrightarrow> rest_text t es \<Longrightarrow> rest_text (jline k w @ t) ((k, v) # es)"
  using rest_jkey [of k w v t es "newline @ ''  ''"] by (simp add: jline_def denoting)

lemma rest_jfield_if [denoting]:
  "plain_key k \<Longrightarrow> (c \<Longrightarrow> value_text w v) \<Longrightarrow> rest_text t es \<Longrightarrow> rest_text (jfield_if c k w @ t) (entry_if c k v es)"
  by (simp add: jfield_if_def entry_if_def rest_jfield)

lemma rest_brace [denoting]: "rest_text ''}'' []" "rest_text (newline @ ''}'') []"
  using rest_close [of "[]"] rest_close [of newline] by (simp_all add: denoting)

lemma object_jkey:
  assumes "plain_key k" and "value_text w v" and "rest_text t es" and "spaces ws" and "distinct (map fst ((k, v) # es))"
  shows "denotes (CHR ''{'' # ws @ jkey k @ w @ t) (obj ((k, v) # es))"
proof -
  obtain sp u where w: "w = sp @ u" "spaces sp" "denotes u v" using assms(2) by (auto simp: value_text_def)
  show ?thesis
    using denotes_object [OF w(3,2) assms(4,3,5)] by (simp add: jkey_jtext [OF assms(1)] w(1) obj_def)
qed

lemma object_jfirst:
  "plain_key k \<Longrightarrow> denotes w v \<Longrightarrow> rest_text t es \<Longrightarrow> distinct (map fst ((k, v) # es)) \<Longrightarrow> denotes (jfirst k w @ t) (obj ((k, v) # es))"
  using object_jkey [of k w v t es "[]"] by (simp add: jfirst_def denoting)

lemma lines_ending [denoting]: "spaces (line_end xs)" "spaces (if c then [] else newline @ t) \<longleftrightarrow> c \<or> spaces t"
  by (simp_all add: line_end_def denoting)

section \<open>Accessors on written objects\<close>

named_theorems accessors \<open>what the accessors find in a written object\<close>

lemma Require_obj [accessors]:
  "distinct (map fst es) \<Longrightarrow> Require (obj es) k type context =
     (case map_of es k of
        None \<Rightarrow> Inl (context @ '' is missing '' @ quoted k)
      | Some v \<Rightarrow> if jv_type v \<noteq> type then Inl (context @ ''.'' @ k @ '' has the wrong JSON type'') else Inr v)"
  by (simp add: Require_def obj_def object_member)

lemma Optional_obj [accessors]:
  "distinct (map fst es) \<Longrightarrow> Optional (obj es) k type context =
     (case map_of es k of
        None \<Rightarrow> Inr None
      | Some v \<Rightarrow> if jv_type v \<noteq> type then Inl (context @ ''.'' @ k @ '' has the wrong JSON type'') else Inr (Some v))"
  by (simp add: Optional_def obj_def object_member)

lemma obj_type [accessors]: "jv_type (obj es) = TypeObject"
  by (simp add: obj_def)

lemma member_if [accessors]:
  "(case (if c then Some v else None) of None \<Rightarrow> x | Some w \<Rightarrow> f w) = (if c then f v else x)"
  by simp

lemma kept_string [accessors]: "(if s = [] then [] else s) = s" "(if s \<noteq> [] then s else []) = s"
  by simp_all

lemma bindR_if [accessors]: "bindR (if c then Inr x else Inr y) f = f (if c then x else y)"
  by simp

lemma load_if [accessors]: "(if c then Inr x else Inr y) = Inr (if c then x else y)"
  by simp

text \<open>An optional member, without doubling what follows it.\<close>

definition kept :: "JsonValue option \<Rightarrow> JsonType \<Rightarrow> (JsonValue \<Rightarrow> 'a) \<Rightarrow> 'a \<Rightarrow> string \<Rightarrow> string + 'a" where
  "kept found type get absent what =
     (case found of None \<Rightarrow> Inr absent | Some v \<Rightarrow> if jv_type v \<noteq> type then Inl what else Inr (get v))"

lemma kept_simps [accessors]:
  "kept None type get absent what = Inr absent"
  "jv_type v = type \<Longrightarrow> kept (Some v) type get absent what = Inr (get v)"
  "jv_type v = type \<Longrightarrow> kept (if c then Some v else None) type get absent what = Inr (if c then get v else absent)"
  by (simp_all add: kept_def)

lemma optional_obj [accessors]:
  "distinct (map fst es) \<Longrightarrow> optional_string (obj es) k context d f =
    bindR (kept (map_of es k) TypeString jv_string d (context @ ''.'' @ k @ '' has the wrong JSON type'')) f"
  "distinct (map fst es) \<Longrightarrow> optional_bool (obj es) k context b g =
    bindR (kept (map_of es k) TypeBoolean jv_boolean b (context @ ''.'' @ k @ '' has the wrong JSON type'')) g"
  by (simp_all add: optional_string_def optional_bool_def kept_def Optional_obj split: option.splits)

section \<open>The entries of the structs\<close>

definition time_entries :: "RationalTime \<Rightarrow> (string \<times> JsonValue) list" where
  "time_entries t =
     (''value'', JvNumber (rt_value t)) #
     (''rate'', JvNumber (rt_rate t)) #
     []"

definition time_value :: "RationalTime \<Rightarrow> JsonValue" where
  "time_value t = obj (time_entries t)"

lemma time_distinct [accessors]: "distinct (map fst (time_entries t))"
  by (simp add: time_entries_def denoting)

lemma time_value_type [accessors]: "jv_type (time_value x) = TypeObject"
  by (simp add: time_value_def accessors)

lemmas time_lookup = arg_cong [OF time_entries_def, of map_of]

definition param_entries :: "EffectParamValue \<Rightarrow> (string \<times> JsonValue) list" where
  "param_entries v =
     (''num'', JvNumber (ep_num v)) #
     (''den'', JvNumber (ep_den v)) #
     []"

definition param_value :: "EffectParamValue \<Rightarrow> JsonValue" where
  "param_value v = obj (param_entries v)"

lemma param_distinct [accessors]: "distinct (map fst (param_entries v))"
  by (simp add: param_entries_def denoting)

lemma param_value_type [accessors]: "jv_type (param_value x) = TypeObject"
  by (simp add: param_value_def accessors)

lemmas param_lookup = arg_cong [OF param_entries_def, of map_of]

definition rate_entries :: "MediaRate \<Rightarrow> (string \<times> JsonValue) list" where
  "rate_entries r =
     (''num'', JvNumber (mr_num r)) #
     (''den'', JvNumber (mr_den r)) #
     []"

definition rate_value :: "MediaRate \<Rightarrow> JsonValue" where
  "rate_value r = obj (rate_entries r)"

lemma rate_distinct [accessors]: "distinct (map fst (rate_entries r))"
  by (simp add: rate_entries_def denoting)

lemma rate_value_type [accessors]: "jv_type (rate_value x) = TypeObject"
  by (simp add: rate_value_def accessors)

lemmas rate_lookup = arg_cong [OF rate_entries_def, of map_of]

definition marker_entries :: "DocumentMarker \<Rightarrow> (string \<times> JsonValue) list" where
  "marker_entries m =
     (''id'', JvString (mk_id m)) #
     (''name'', JvString (mk_name m)) #
     (''time'', time_value (mk_time m)) #
     (''color'', JvString (mk_color m)) #
     (''category'', JvString (mk_category m)) #
     []"

definition marker_value :: "DocumentMarker \<Rightarrow> JsonValue" where
  "marker_value m = obj (marker_entries m)"

lemma marker_distinct [accessors]: "distinct (map fst (marker_entries m))"
  by (simp add: marker_entries_def denoting)

lemma marker_value_type [accessors]: "jv_type (marker_value x) = TypeObject"
  by (simp add: marker_value_def accessors)

lemmas marker_lookup = arg_cong [OF marker_entries_def, of map_of]

definition transition_entries :: "DocumentTransition \<Rightarrow> (string \<times> JsonValue) list" where
  "transition_entries t =
     (''id'', JvString (trn_id t)) #
     (''track_id'', JvString (trn_track_id t)) #
     (''left_clip_id'', JvString (trn_left_clip_id t)) #
     (''right_clip_id'', JvString (trn_right_clip_id t)) #
     (''type'', JvString (trn_type t)) #
     (''duration'', time_value (trn_duration t)) #
     (''alignment'', JvString (save_alignment (trn_alignment t))) #
     []"

definition transition_value :: "DocumentTransition \<Rightarrow> JsonValue" where
  "transition_value t = obj (transition_entries t)"

lemma transition_distinct [accessors]: "distinct (map fst (transition_entries t))"
  by (simp add: transition_entries_def denoting)

lemma transition_value_type [accessors]: "jv_type (transition_value x) = TypeObject"
  by (simp add: transition_value_def accessors)

lemmas transition_lookup = arg_cong [OF transition_entries_def, of map_of]

definition params_value :: "(string \<times> EffectParamValue) list \<Rightarrow> JsonValue" where
  "params_value ps = obj (map (\<lambda>p. (fst p, param_value (snd p))) ps)"

lemma params_value_type [accessors]: "jv_type (params_value ps) = TypeObject"
  by (simp add: params_value_def accessors)

definition effect_entries :: "ClipEffect \<Rightarrow> (string \<times> JsonValue) list" where
  "effect_entries e =
     (''id'', JvString (fx_id e)) #
     (''type'', JvString (fx_type e)) #
     (''params'', params_value (fx_params e)) #
     []"

definition effect_value :: "ClipEffect \<Rightarrow> JsonValue" where
  "effect_value e = obj (effect_entries e)"

lemma effect_distinct [accessors]: "distinct (map fst (effect_entries e))"
  by (simp add: effect_entries_def denoting)

lemma effect_value_type [accessors]: "jv_type (effect_value x) = TypeObject"
  by (simp add: effect_value_def accessors)

lemmas effect_lookup = arg_cong [OF effect_entries_def, of map_of]

definition clip_entries :: "DocumentClip \<Rightarrow> (string \<times> JsonValue) list" where
  "clip_entries c =
     (''id'', JvString (clip_id c)) #
     (''source_id'', JvString (clip_source_id c)) #
     (''source_in'', time_value (clip_source_in c)) #
     (''duration'', time_value (clip_duration c)) #
     (''timeline_in'', time_value (clip_timeline_in c)) #
     (''include_audio'', JvBoolean (clip_include_audio c)) #
     entry_if (clip_link_group_id c \<noteq> []) ''link_group_id'' (JvString (clip_link_group_id c)) (
     entry_if (clip_sync_anchor_clip_id c \<noteq> []) ''sync_anchor_clip_id'' (JvString (clip_sync_anchor_clip_id c)) (
     entry_if (clip_sync_anchor_clip_id c \<noteq> []) ''sync_reference_delta'' (time_value (clip_sync_reference_delta c)) (
     (''effects'', JvArray (map effect_value (clip_effects c))) #
     entry_if (clip_caption_group_id c \<noteq> []) ''caption_group_id'' (JvString (clip_caption_group_id c)) (
     entry_if (clip_caption_text c \<noteq> []) ''caption_text'' (JvString (clip_caption_text c)) (
     (''opacity'', param_value (clip_opacity c)) #
     (''audio_gain_db'', param_value (clip_audio_gain_db c)) #
     (''audio_fade_in'', time_value (clip_audio_fade_in c)) #
     (''audio_fade_out'', time_value (clip_audio_fade_out c)) #
     [])))))"

definition clip_value :: "DocumentClip \<Rightarrow> JsonValue" where
  "clip_value c = obj (clip_entries c)"

lemma clip_distinct [accessors]: "distinct (map fst (clip_entries c))"
  by (simp add: clip_entries_def denoting)

lemma clip_value_type [accessors]: "jv_type (clip_value x) = TypeObject"
  by (simp add: clip_value_def accessors)

lemmas clip_lookup = arg_cong [OF clip_entries_def, of map_of]

definition track_entries :: "DocumentTrack \<Rightarrow> (string \<times> JsonValue) list" where
  "track_entries t =
     (''id'', JvString (trk_id t)) #
     (''kind'', JvString (trk_kind t)) #
     (''index'', JvNumber (trk_index t)) #
     (''locked'', JvBoolean (trk_locked t)) #
     (''sync_lock'', JvBoolean (trk_sync_lock t)) #
     (''visible'', JvBoolean (trk_visible t)) #
     (''muted'', JvBoolean (trk_muted t)) #
     (''solo'', JvBoolean (trk_solo t)) #
     (''clips'', JvArray (map clip_value (trk_clips t))) #
     []"

definition track_value :: "DocumentTrack \<Rightarrow> JsonValue" where
  "track_value t = obj (track_entries t)"

lemma track_distinct [accessors]: "distinct (map fst (track_entries t))"
  by (simp add: track_entries_def denoting)

lemma track_value_type [accessors]: "jv_type (track_value x) = TypeObject"
  by (simp add: track_value_def accessors)

lemmas track_lookup = arg_cong [OF track_entries_def, of map_of]

definition style_entries :: "CaptionStyle \<Rightarrow> (string \<times> JsonValue) list" where
  "style_entries s =
     (''id'', JvString (cs_id s)) #
     (''font_family'', JvString (cs_font_family s)) #
     (''font_size'', JvNumber (cs_font_size s)) #
     (''color'', JvString (cs_color s)) #
     (''position'', JvString (cs_position s)) #
     []"

definition style_value :: "CaptionStyle \<Rightarrow> JsonValue" where
  "style_value s = obj (style_entries s)"

lemma style_distinct [accessors]: "distinct (map fst (style_entries s))"
  by (simp add: style_entries_def denoting)

lemma style_value_type [accessors]: "jv_type (style_value x) = TypeObject"
  by (simp add: style_value_def accessors)

lemmas style_lookup = arg_cong [OF style_entries_def, of map_of]

definition angle_entries :: "MulticamAngle \<Rightarrow> (string \<times> JsonValue) list" where
  "angle_entries a =
     (''id'', JvString (ang_id a)) #
     (''name'', JvString (ang_name a)) #
     (''clip_id'', JvString (ang_clip_id a)) #
     []"

definition angle_value :: "MulticamAngle \<Rightarrow> JsonValue" where
  "angle_value a = obj (angle_entries a)"

lemma angle_distinct [accessors]: "distinct (map fst (angle_entries a))"
  by (simp add: angle_entries_def denoting)

lemma angle_value_type [accessors]: "jv_type (angle_value x) = TypeObject"
  by (simp add: angle_value_def accessors)

lemmas angle_lookup = arg_cong [OF angle_entries_def, of map_of]

definition multicam_entries :: "MulticamGroup \<Rightarrow> (string \<times> JsonValue) list" where
  "multicam_entries g =
     (''id'', JvString (mg_id g)) #
     (''name'', JvString (mg_name g)) #
     (''angles'', JvArray (map angle_value (mg_angles g))) #
     entry_if (mg_active_angle_id g \<noteq> []) ''active_angle_id'' (JvString (mg_active_angle_id g)) (
     [])"

definition multicam_value :: "MulticamGroup \<Rightarrow> JsonValue" where
  "multicam_value g = obj (multicam_entries g)"

lemma multicam_distinct [accessors]: "distinct (map fst (multicam_entries g))"
  by (simp add: multicam_entries_def denoting)

lemma multicam_value_type [accessors]: "jv_type (multicam_value x) = TypeObject"
  by (simp add: multicam_value_def accessors)

lemmas multicam_lookup = arg_cong [OF multicam_entries_def, of map_of]

definition sequence_entries :: "DocumentSequence \<Rightarrow> (string \<times> JsonValue) list" where
  "sequence_entries s =
     (''id'', JvString (seq_id s)) #
     (''name'', JvString (seq_name s)) #
     (''width'', JvNumber (seq_width s)) #
     (''height'', JvNumber (seq_height s)) #
     (''frame_rate'', rate_value (seq_frame_rate s)) #
     (''markers'', JvArray (map marker_value (seq_markers s))) #
     (''transitions'', JvArray (map transition_value (seq_transitions s))) #
     (''tracks'', JvArray (map track_value (seq_tracks s))) #
     (''caption_styles'', JvArray (map style_value (seq_caption_styles s))) #
     (''multicam_groups'', JvArray (map multicam_value (seq_multicam_groups s))) #
     []"

definition sequence_value :: "DocumentSequence \<Rightarrow> JsonValue" where
  "sequence_value s = obj (sequence_entries s)"

lemma sequence_distinct [accessors]: "distinct (map fst (sequence_entries s))"
  by (simp add: sequence_entries_def denoting)

lemma sequence_value_type [accessors]: "jv_type (sequence_value x) = TypeObject"
  by (simp add: sequence_value_def accessors)

lemmas sequence_lookup = arg_cong [OF sequence_entries_def, of map_of]

definition color_entries :: "ColorManagementSettings \<Rightarrow> (string \<times> JsonValue) list" where
  "color_entries c =
     (''enabled'', JvBoolean (cm_enabled c)) #
     (''input_gamut'', JvString (cm_input_gamut c)) #
     (''input_transfer'', JvString (cm_input_transfer c)) #
     (''input_ycbcr_matrix'', JvString (cm_input_ycbcr_matrix c)) #
     (''input_range'', JvString (cm_input_range c)) #
     (''working_gamut'', JvString (cm_working_gamut c)) #
     (''output_gamut'', JvString (cm_output_gamut c)) #
     (''output_transfer'', JvString (cm_output_transfer c)) #
     []"

definition color_value :: "ColorManagementSettings \<Rightarrow> JsonValue" where
  "color_value c = obj (color_entries c)"

lemma color_distinct [accessors]: "distinct (map fst (color_entries c))"
  by (simp add: color_entries_def denoting)

lemma color_value_type [accessors]: "jv_type (color_value x) = TypeObject"
  by (simp add: color_value_def accessors)

lemmas color_lookup = arg_cong [OF color_entries_def, of map_of]

definition media_entries :: "LibraryMedia \<Rightarrow> (string \<times> JsonValue) list" where
  "media_entries m =
     (''id'', JvString (med_id m)) #
     (''path'', JvString (med_path m)) #
     (''filename'', JvString (med_filename m)) #
     entry_if (med_bin_id m \<noteq> []) ''bin_id'' (JvString (med_bin_id m)) (
     entry_if (med_proxy_path m \<noteq> []) ''proxy_path'' (JvString (med_proxy_path m)) (
     entry_if (med_metadata_complete m) ''codec'' (JvString (med_codec m)) (
     entry_if (med_metadata_complete m) ''has_video'' (JvBoolean (med_has_video m)) (
     entry_if (med_metadata_complete m) ''width'' (JvNumber (med_width m)) (
     entry_if (med_metadata_complete m) ''height'' (JvNumber (med_height m)) (
     entry_if (med_metadata_complete m) ''rotation_degrees'' (JvNumber (med_rotation_degrees m)) (
     entry_if (med_metadata_complete m) ''pixel_format'' (JvString (med_pixel_format m)) (
     entry_if (med_metadata_complete m) ''color_range'' (JvString (med_color_range m)) (
     entry_if (med_metadata_complete m) ''color_space'' (JvString (med_color_space m)) (
     entry_if (med_metadata_complete m) ''color_transfer'' (JvString (med_color_transfer m)) (
     entry_if (med_metadata_complete m) ''color_primaries'' (JvString (med_color_primaries m)) (
     (''rate'', rate_value (med_rate m)) #
     (''duration'', time_value (med_duration m)) #
     entry_if (med_metadata_complete m) ''orientation'' (JvString (med_orientation m)) (
     entry_if (med_metadata_complete m) ''has_audio'' (JvBoolean (med_has_audio m)) (
     entry_if (med_metadata_complete m \<and> med_has_audio m) ''audio_rate'' (JvNumber (med_audio_rate m)) (
     entry_if (med_metadata_complete m \<and> med_has_audio m) ''audio_channels'' (JvNumber (med_audio_channels m)) (
     entry_if ((med_metadata_complete m \<and> med_has_audio m) \<and> med_audio_level_measured m) ''audio_level'' (JvNumber (med_audio_level m)) (
     [])))))))))))))))))"

definition media_value :: "LibraryMedia \<Rightarrow> JsonValue" where
  "media_value m = obj (media_entries m)"

lemma media_distinct [accessors]: "distinct (map fst (media_entries m))"
  by (simp add: media_entries_def denoting)

lemma media_value_type [accessors]: "jv_type (media_value x) = TypeObject"
  by (simp add: media_value_def accessors)

lemmas media_lookup = arg_cong [OF media_entries_def, of map_of]

definition bin_entries :: "DocumentBin \<Rightarrow> (string \<times> JsonValue) list" where
  "bin_entries b =
     (''id'', JvString (bin_id b)) #
     (''name'', JvString (bin_name b)) #
     entry_if (bin_parent_id b \<noteq> []) ''parent_id'' (JvString (bin_parent_id b)) (
     [])"

definition bin_value :: "DocumentBin \<Rightarrow> JsonValue" where
  "bin_value b = obj (bin_entries b)"

lemma bin_distinct [accessors]: "distinct (map fst (bin_entries b))"
  by (simp add: bin_entries_def denoting)

lemma bin_value_type [accessors]: "jv_type (bin_value x) = TypeObject"
  by (simp add: bin_value_def accessors)

lemmas bin_lookup = arg_cong [OF bin_entries_def, of map_of]

definition source_entries :: "DocumentSource \<Rightarrow> (string \<times> JsonValue) list" where
  "source_entries s =
     (''id'', JvString (src_id s)) #
     (''path'', JvString (src_path s)) #
     (''rate'', rate_value (src_rate s)) #
     (''duration'', time_value (src_duration s)) #
     []"

definition source_value :: "DocumentSource \<Rightarrow> JsonValue" where
  "source_value s = obj (source_entries s)"

lemma source_distinct [accessors]: "distinct (map fst (source_entries s))"
  by (simp add: source_entries_def denoting)

lemma source_value_type [accessors]: "jv_type (source_value x) = TypeObject"
  by (simp add: source_value_def accessors)

lemmas source_lookup = arg_cong [OF source_entries_def, of map_of]

definition document_entries :: "Document \<Rightarrow> (string \<times> JsonValue) list" where
  "document_entries d =
     (''version'', JvNumber (doc_version d)) #
     (''sequence'', sequence_value (doc_sequence d)) #
     (''color_management'', color_value (doc_color_management d)) #
     (''library'', JvArray (map media_value (doc_library d))) #
     (''bins'', JvArray (map bin_value (doc_bins d))) #
     (''sources'', JvArray (map source_value (doc_sources d))) #
     []"

definition document_value :: "Document \<Rightarrow> JsonValue" where
  "document_value d = obj (document_entries d)"

lemma document_distinct [accessors]: "distinct (map fst (document_entries d))"
  by (simp add: document_entries_def denoting)

lemma document_value_type [accessors]: "jv_type (document_value x) = TypeObject"
  by (simp add: document_value_def accessors)

lemmas document_lookup = arg_cong [OF document_entries_def, of map_of]

end
