(* ===== verification/Document_Roundtrip.thy ===== *)
theory Document_Roundtrip
  imports Document_Entries
begin

text \<open>
  What is saved is loaded: a format is the writer, the value tree and the reader of one struct;
  an item within the ranges of its members denotes its tree and is read back from it.
\<close>

section \<open>Formats\<close>

locale saved_item =
  fixes w :: "'a \<Rightarrow> string" and val :: "'a \<Rightarrow> JsonValue" and load :: "JsonValue \<Rightarrow> string \<Rightarrow> string + 'a" and ok :: "'a \<Rightarrow> bool"
  assumes item_text: "ok x \<Longrightarrow> denotes (w x) (val x)"
    and item_back: "ok x \<Longrightarrow> load (val x) context = Inr x"
begin

lemma written [denoting]: "ok x \<Longrightarrow> denotes (w x) (val x)"
  by (rule item_text)

lemma loaded [accessors]: "ok x \<Longrightarrow> load (val x) context = Inr x"
  by (rule item_back)

lemma list_text [denoting]:
  "list_all ok xs \<Longrightarrow> spaces indent \<Longrightarrow> spaces ending \<Longrightarrow> denotes (jlist indent ending w xs) (JvArray (map val xs))"
  unfolding jlist_def by (rule denotes_lines) (simp_all add: list_all_iff item_text)

lemma list_back [accessors]: "list_all ok xs \<Longrightarrow> read_array load name i (map val xs) = Inr xs"
  by (induction xs arbitrary: i) (simp_all add: item_back)

end

lemmas reading = require_string_def require_bool_def require_time_def require_param_def require_rate_def require_array_def
  optional_array_def Int32_def

interpretation time_item: saved_item doc_WriteTime time_value doc_ParseTime time_ok
proof unfold_locales
  fix x :: RationalTime and place
  assume "time_ok x"
  then show "denotes (doc_WriteTime x) (time_value x)"
    by (simp add: time_ok_def doc_WriteTime_def time_value_def time_entries_def object_jfirst denoting int32_int64)
next
  fix x :: RationalTime and place
  assume "time_ok x"
  then show "doc_ParseTime (time_value x) place = Inr x"
    by (simp add: time_ok_def doc_ParseTime_def time_value_def time_lookup reading accessors denoting)
qed

interpretation param_item: saved_item doc_WriteEffectParamValue param_value doc_ParseEffectParamValue param_ok
proof unfold_locales
  fix x :: EffectParamValue and place
  assume "param_ok x"
  then show "denotes (doc_WriteEffectParamValue x) (param_value x)"
    by (simp add: param_ok_def doc_WriteEffectParamValue_def param_value_def param_entries_def object_jfirst denoting int32_int64)
next
  fix x :: EffectParamValue and place
  assume "param_ok x"
  then show "doc_ParseEffectParamValue (param_value x) place = Inr x"
    by (simp add: param_ok_def doc_ParseEffectParamValue_def param_value_def param_lookup reading accessors denoting)
qed

definition rate_saved :: "MediaRate \<Rightarrow> bool" where
  "rate_saved r \<longleftrightarrow>
     in_int32 (mr_num r) \<and> in_int32 (mr_den r)"

interpretation rate_item: saved_item save_rate rate_value parse_rate rate_saved
proof unfold_locales
  fix x :: MediaRate and place
  assume "rate_saved x"
  then show "denotes (save_rate x) (rate_value x)"
    by (simp add: rate_saved_def save_rate_def rate_value_def rate_entries_def object_jfirst denoting int32_int64)
next
  fix x :: MediaRate and place
  assume "rate_saved x"
  then show "parse_rate (rate_value x) place = Inr x"
    by (simp add: rate_saved_def parse_rate_def rate_value_def rate_lookup reading accessors denoting)
qed

definition marker_saved :: "DocumentMarker \<Rightarrow> bool" where
  "marker_saved m \<longleftrightarrow>
     time_ok (mk_time m)"

interpretation marker_item: saved_item save_marker marker_value load_marker marker_saved
proof unfold_locales
  fix x :: DocumentMarker and place
  assume "marker_saved x"
  then show "denotes (save_marker x) (marker_value x)"
    by (simp add: marker_saved_def save_marker_def marker_value_def marker_entries_def object_jfirst denoting int32_int64)
next
  fix x :: DocumentMarker and place
  assume "marker_saved x"
  then show "load_marker (marker_value x) place = Inr x"
    by (simp add: marker_saved_def load_marker_def marker_value_def marker_lookup reading accessors denoting)
qed

definition transition_saved :: "DocumentTransition \<Rightarrow> bool" where
  "transition_saved t \<longleftrightarrow>
     time_ok (trn_duration t)"

lemma alignment_text: "denotes (CHR 0x22 # save_alignment a @ [CHR 0x22]) (JvString (save_alignment a))"
proof -
  have "Escape (save_alignment a) = save_alignment a" by (cases a; simp only: save_alignment_def TransitionAlignment.simps; code_simp)
  then show ?thesis using denotes_text [of "save_alignment a"] by (simp add: jtext_def)
qed

interpretation transition_item: saved_item save_transition transition_value load_transition transition_saved
proof unfold_locales
  fix x :: DocumentTransition and place
  assume "transition_saved x"
  then show "denotes (save_transition x) (transition_value x)"
    by (simp add: transition_saved_def save_transition_def transition_value_def transition_entries_def object_jfirst denoting int32_int64 alignment_text)
next
  fix x :: DocumentTransition and place
  assume "transition_saved x"
  then show "load_transition (transition_value x) place = Inr x"
    by (simp add: transition_saved_def load_transition_def transition_value_def transition_lookup reading accessors denoting load_alignment_def save_alignment_def split: TransitionAlignment.splits)
qed

definition effect_saved :: "ClipEffect \<Rightarrow> bool" where
  "effect_saved e \<longleftrightarrow>
     sorted_wrt string_less (map fst (fx_params e)) \<and> list_all (\<lambda>p. param_ok (snd p)) (fx_params e)"

lemma params_text [denoting]:
  assumes "list_all (\<lambda>p. param_ok (snd p)) ps" and "distinct (map fst ps)"
  shows "denotes (save_params ps) (params_value ps)"
proof -
  have w: "denotes (doc_WriteEffectParamValue (snd p)) (param_value (snd p))" if "p \<in> set ps" for p
    using that assms(1) by (simp add: list_all_iff denoting)
  have rest: "rest_text (concat (map (\<lambda>p. CHR '','' # newline @ ''          '' @ save_param p) qs) @ newline @ ''        }'')
      (map (\<lambda>p. (fst p, param_value (snd p))) qs)" if "set qs \<subseteq> set ps" for qs
    using that
  proof (induction qs)
    case Nil
    show ?case using rest_close [of "newline @ ''        ''"] by (simp add: denoting)
  next
    case (Cons q qs)
    have "denotes (doc_WriteEffectParamValue (snd q)) (param_value (snd q))" using w Cons.prems by simp
    from rest_member [OF this _ _ Cons.IH, of "[]" "newline @ ''          ''" "[]" "fst q"] Cons.prems
    show ?case by (simp add: save_param_def denoting)
  qed
  show ?thesis
  proof (cases ps)
    case Nil
    then show ?thesis using denotes_empty_object by (simp add: save_params_def params_value_def obj_def object_of_def jlines_def)
  next
    case (Cons p qs)
    have "denotes (doc_WriteEffectParamValue (snd p)) (param_value (snd p))" using w Cons by simp
    moreover have "rest_text (concat (map (\<lambda>p. CHR '','' # newline @ ''          '' @ save_param p) qs) @ newline @ ''        }'')
      (map (\<lambda>p. (fst p, param_value (snd p))) qs)" using rest Cons by (simp add: subset_iff)
    ultimately have "denotes (CHR ''{'' # (newline @ ''          '') @ jtext (fst p) @ CHR '':'' # [] @ doc_WriteEffectParamValue (snd p) @
        concat (map (\<lambda>p. CHR '','' # newline @ ''          '' @ save_param p) qs) @ newline @ ''        }'')
      (JvObject (object_of [] ((fst p, param_value (snd p)) # map (\<lambda>p. (fst p, param_value (snd p))) qs)))"
      using assms(2) Cons by (intro denotes_object) (simp_all add: denoting comp_def image_image)
    then show ?thesis using Cons by (simp add: save_params_def params_value_def obj_def jlines_def save_param_def)
  qed
qed

lemma sorted_distinct: "sorted_wrt string_less ks \<Longrightarrow> distinct ks"
proof (induction ks)
  case (Cons k ks)
  have "\<not> string_less x x" for x by (induction x) simp_all
  then show ?case using Cons by auto
qed simp

lemma object_of_sorted: "sorted_wrt string_less (map fst es) \<Longrightarrow> object_of [] es = es"
  unfolding object_of_def using emplace_sorted [of "[]" es] by simp

lemma load_params_back:
  "list_all (\<lambda>p. param_ok (snd p)) ps \<Longrightarrow>
    load_params context (map (\<lambda>p. (fst p, param_value (snd p))) ps) acc = Inr (foldl (\<lambda>m p. emplace p m) acc ps)"
  by (induction ps arbitrary: acc) (auto simp: accessors )

lemma params_back:
  assumes "list_all (\<lambda>p. param_ok (snd p)) ps" and "sorted_wrt string_less (map fst ps)"
  shows "load_params context (jv_object (params_value ps)) [] = Inr ps"
proof -
  have "sorted_wrt string_less (map fst (map (\<lambda>p. (fst p, param_value (snd p))) ps))" using assms(2) by (simp add: comp_def)
  then have "jv_object (params_value ps) = map (\<lambda>p. (fst p, param_value (snd p))) ps"
    by (simp add: params_value_def obj_def object_of_sorted)
  then show ?thesis using load_params_back [OF assms(1)] emplace_sorted [of "[]" ps] assms(2) by simp
qed

interpretation effect_item: saved_item save_effect effect_value load_effect effect_saved
proof unfold_locales
  fix x :: ClipEffect and place
  assume "effect_saved x"
  then show "denotes (save_effect x) (effect_value x)"
    by (simp add: effect_saved_def save_effect_def effect_value_def effect_entries_def object_jfirst denoting int32_int64 sorted_distinct)
next
  fix x :: ClipEffect and place
  assume "effect_saved x"
  then show "load_effect (effect_value x) place = Inr x"
    by (simp add: effect_saved_def load_effect_def effect_value_def effect_lookup reading accessors denoting params_back)
qed

definition clip_saved :: "DocumentClip \<Rightarrow> bool" where
  "clip_saved c \<longleftrightarrow>
     time_ok (clip_source_in c) \<and> time_ok (clip_duration c) \<and> time_ok (clip_timeline_in c) \<and>
     time_ok (clip_sync_reference_delta c) \<and> (clip_sync_anchor_clip_id c = [] \<longrightarrow> clip_sync_reference_delta c = RT 0 1) \<and>
     list_all effect_saved (clip_effects c) \<and> param_ok (clip_opacity c) \<and> param_ok (clip_audio_gain_db c) \<and>
     time_ok (clip_audio_fade_in c) \<and> time_ok (clip_audio_fade_out c)"

interpretation clip_item: saved_item save_clip clip_value "load_clip 7" clip_saved
proof unfold_locales
  fix x :: DocumentClip and place
  assume "clip_saved x"
  then show "denotes (save_clip x) (clip_value x)"
    by (simp add: clip_saved_def save_clip_def clip_value_def clip_entries_def object_jfirst denoting int32_int64)
next
  fix x :: DocumentClip and place
  assume "clip_saved x"
  then show "load_clip 7 (clip_value x) place = Inr x"
    by (simp add: clip_saved_def load_clip_def clip_value_def clip_lookup reading accessors denoting load_link_def load_audio_settings_def new_clip_def)
qed

definition track_saved :: "DocumentTrack \<Rightarrow> bool" where
  "track_saved t \<longleftrightarrow>
     in_int32 (trk_index t) \<and> list_all clip_saved (trk_clips t)"

interpretation track_item: saved_item save_track track_value "load_track 7" track_saved
proof unfold_locales
  fix x :: DocumentTrack and place
  assume "track_saved x"
  then show "denotes (save_track x) (track_value x)"
    by (simp add: track_saved_def save_track_def track_value_def track_entries_def object_jfirst denoting int32_int64)
next
  fix x :: DocumentTrack and place
  assume "track_saved x"
  then show "load_track 7 (track_value x) place = Inr x"
    by (simp add: track_saved_def load_track_def track_value_def track_lookup reading accessors denoting)
qed

definition style_saved :: "CaptionStyle \<Rightarrow> bool" where
  "style_saved s \<longleftrightarrow>
     in_int32 (cs_font_size s)"

interpretation style_item: saved_item save_style style_value load_style style_saved
proof unfold_locales
  fix x :: CaptionStyle and place
  assume "style_saved x"
  then show "denotes (save_style x) (style_value x)"
    by (simp add: style_saved_def save_style_def style_value_def style_entries_def object_jfirst denoting int32_int64)
next
  fix x :: CaptionStyle and place
  assume "style_saved x"
  then show "load_style (style_value x) place = Inr x"
    by (simp add: style_saved_def load_style_def style_value_def style_lookup reading accessors denoting)
qed

definition angle_saved :: "MulticamAngle \<Rightarrow> bool" where
  "angle_saved a \<longleftrightarrow>
     True"

interpretation angle_item: saved_item save_angle angle_value load_angle angle_saved
proof unfold_locales
  fix x :: MulticamAngle and place
  assume "angle_saved x"
  then show "denotes (save_angle x) (angle_value x)"
    by (simp add: angle_saved_def save_angle_def angle_value_def angle_entries_def object_jfirst denoting int32_int64)
next
  fix x :: MulticamAngle and place
  assume "angle_saved x"
  then show "load_angle (angle_value x) place = Inr x"
    by (simp add: angle_saved_def load_angle_def angle_value_def angle_lookup reading accessors denoting)
qed

definition multicam_saved :: "MulticamGroup \<Rightarrow> bool" where
  "multicam_saved g \<longleftrightarrow>
     list_all angle_saved (mg_angles g)"

interpretation multicam_item: saved_item save_multicam multicam_value load_multicam multicam_saved
proof unfold_locales
  fix x :: MulticamGroup and place
  assume "multicam_saved x"
  then show "denotes (save_multicam x) (multicam_value x)"
    by (simp add: multicam_saved_def save_multicam_def multicam_value_def multicam_entries_def object_jfirst denoting int32_int64)
next
  fix x :: MulticamGroup and place
  assume "multicam_saved x"
  then show "load_multicam (multicam_value x) place = Inr x"
    by (simp add: multicam_saved_def load_multicam_def multicam_value_def multicam_lookup reading accessors denoting)
qed

definition sequence_saved :: "DocumentSequence \<Rightarrow> bool" where
  "sequence_saved s \<longleftrightarrow>
     in_int32 (seq_width s) \<and> in_int32 (seq_height s) \<and> rate_saved (seq_frame_rate s) \<and>
     list_all marker_saved (seq_markers s) \<and> list_all transition_saved (seq_transitions s) \<and> list_all track_saved (seq_tracks s) \<and>
     list_all style_saved (seq_caption_styles s) \<and> list_all multicam_saved (seq_multicam_groups s)"

definition color_saved :: "ColorManagementSettings \<Rightarrow> bool" where
  "color_saved c \<longleftrightarrow>
     True"

definition media_saved :: "LibraryMedia \<Rightarrow> bool" where
  "media_saved m \<longleftrightarrow>
     in_int32 (med_width m) \<and> in_int32 (med_height m) \<and> in_int32 (med_rotation_degrees m) \<and> in_int32 (med_audio_rate m) \<and>
     in_int32 (med_audio_channels m) \<and> in_int64 (med_audio_level m) \<and> rate_saved (med_rate m) \<and> time_ok (med_duration m) \<and>
     (\<not> med_metadata_complete m \<longrightarrow>
        m = (default_media (med_id m) (med_path m) (med_filename m) (med_bin_id m) (med_proxy_path m))
              \<lparr>med_metadata_complete := False, med_rate := med_rate m, med_duration := med_duration m\<rparr>) \<and>
     (\<not> med_has_audio m \<longrightarrow> med_audio_rate m = 0 \<and> med_audio_channels m = 0 \<and> \<not> med_audio_level_measured m) \<and>
     (\<not> med_audio_level_measured m \<longrightarrow> med_audio_level m = 0)"

definition bin_saved :: "DocumentBin \<Rightarrow> bool" where
  "bin_saved b \<longleftrightarrow>
     True"

interpretation bin_item: saved_item save_bin bin_value load_bin bin_saved
proof unfold_locales
  fix x :: DocumentBin and place
  assume "bin_saved x"
  then show "denotes (save_bin x) (bin_value x)"
    by (simp add: bin_saved_def save_bin_def bin_value_def bin_entries_def object_jfirst denoting int32_int64)
next
  fix x :: DocumentBin and place
  assume "bin_saved x"
  then show "load_bin (bin_value x) place = Inr x"
    by (simp add: bin_saved_def load_bin_def bin_value_def bin_lookup reading accessors denoting)
qed

definition source_saved :: "DocumentSource \<Rightarrow> bool" where
  "source_saved s \<longleftrightarrow>
     rate_saved (src_rate s) \<and> time_ok (src_duration s)"

interpretation source_item: saved_item save_source source_value load_source source_saved
proof unfold_locales
  fix x :: DocumentSource and place
  assume "source_saved x"
  then show "denotes (save_source x) (source_value x)"
    by (simp add: source_saved_def save_source_def source_value_def source_entries_def object_jfirst denoting int32_int64)
next
  fix x :: DocumentSource and place
  assume "source_saved x"
  then show "load_source (source_value x) place = Inr x"
    by (simp add: source_saved_def load_source_def source_value_def source_lookup reading accessors denoting)
qed

text \<open>The members of a media file depend on whether its metadata is complete and has audio.\<close>

interpretation media_item: saved_item save_media media_value load_media media_saved
proof unfold_locales
  fix x :: LibraryMedia and place
  assume m: "media_saved x"
  then show "denotes (save_media x) (media_value x)"
    by (simp add: media_saved_def save_media_def media_value_def media_entries_def Let_def object_jfirst denoting int32_int64)
  show "load_media (media_value x) place = Inr x"
  proof (cases "med_metadata_complete x")
    case True
    then show ?thesis using m
      by (cases "med_has_audio x"; cases "med_audio_level_measured x")
        (simp_all add: media_saved_def load_media_def load_metadata_def load_audio_def default_media_def media_value_def media_lookup
          reading accessors denoting)
  next
    case False
    have "rate_saved (med_rate x)" "time_ok (med_duration x)" using m by (simp_all add: media_saved_def)
    then have "load_media (media_value x) place =
        Inr ((default_media (med_id x) (med_path x) (med_filename x) (med_bin_id x) (med_proxy_path x))
               \<lparr>med_metadata_complete := False, med_rate := med_rate x, med_duration := med_duration x\<rparr>)"
      using False by (simp add: load_media_def load_metadata_def media_value_def media_lookup reading accessors denoting)
    then show ?thesis using m False by (simp add: media_saved_def)
  qed
qed

section \<open>The document\<close>

lemma color_text [denoting]: "denotes (save_color c) (color_value c)"
  by (simp add: save_color_def color_value_def color_entries_def object_jfirst denoting)

lemma sequence_text [denoting]: "sequence_saved s \<Longrightarrow> denotes (save_sequence s) (sequence_value s)"
  by (simp add: sequence_saved_def save_sequence_def sequence_value_def sequence_entries_def object_jfirst denoting int32_int64)

definition document_saved :: "Document \<Rightarrow> bool" where
  "document_saved d \<longleftrightarrow>
     doc_version d = 7 \<and> sequence_saved (doc_sequence d) \<and> list_all media_saved (doc_library d) \<and>
     list_all source_saved (doc_sources d)"

lemma document_text:
  assumes "document_saved d"
  shows "JsonParser_Parse (Document_SaveToString d) = Inr (document_value d)"
proof -
  have b: "list_all bin_saved (doc_bins d)" by (simp add: list_all_iff bin_saved_def)
  have "in_int64 (doc_version d)" using assms by (simp add: document_saved_def in_int64_def int64_min_def int64_max_def)
  then have "denotes (CHR ''{'' # (newline @ ''  '') @ jkey ''version'' @ (CHR '' '' # to_string (doc_version d)) @
     (jline ''sequence'' (save_sequence (doc_sequence d)) @
     jline ''color_management'' (save_color (doc_color_management d)) @
     jline ''library'' (CHR '' '' # jlist ''    '' (line_end (doc_library d) @ ''  '') save_media (doc_library d)) @
     jline ''bins'' (CHR '' '' # jlist ''    '' (line_end (doc_bins d) @ ''  '') save_bin (doc_bins d)) @
     jline ''sources'' (CHR '' '' # jlist ''    '' (line_end (doc_sources d) @ ''  '') save_source (doc_sources d)) @
     newline @ ''}'')) (document_value d)"
    using assms b unfolding document_value_def document_entries_def
    by (intro object_jkey) (simp_all add: document_saved_def denoting)
  from Parse_denotes [OF this, of newline] show ?thesis by (simp add: Document_SaveToString_def denoting)
qed

lemma color_back: "load_color (document_value d) = Inr (doc_color_management d)"
  by (simp add: load_color_def document_value_def document_lookup color_value_def color_lookup Let_def reading accessors denoting)

lemma document_back:
  assumes "document_saved d"
  shows "load_document (document_value d) = Inr d"
proof -
  have b: "list_all bin_saved (doc_bins d)" by (simp add: list_all_iff bin_saved_def)
  have v: "in_int32 7" by (simp add: in_int32_def int32_min_def int32_max_def)
  show ?thesis
    using assms b v color_back [of d] unfolding load_document_def document_saved_def sequence_saved_def
    by (simp add: document_value_def document_lookup sequence_value_def sequence_lookup Let_def reading accessors denoting)
qed

lemma Load_Save:
  assumes "document_saved d" and "valid d"
  shows "Document_LoadFromString (Document_SaveToString d) = Inr d"
  using assms by (simp add: Document_LoadFromString_def document_text document_back)

end
