(* ===== verification/Document_Loaded.thy ===== *)
theory Document_Loaded
  imports Document_Roundtrip Sample_Document
begin

text \<open>
  Every document that is loaded is within the ranges of its members and has the initial values
  where a member was left out, so saving it and loading it again gives the same document.
\<close>

section \<open>Parsed values\<close>

fun jv_ok :: "JsonValue \<Rightarrow> bool" where
  "jv_ok (JvNumber n) = in_int64 n"
| "jv_ok (JvArray vs) = list_all jv_ok vs"
| "jv_ok (JvObject es) = list_all (\<lambda>e. jv_ok (snd e)) es"
| "jv_ok _ = True"

definition parses_ok :: "JsonValue reader \<Rightarrow> bool" where
  "parses_ok p \<longleftrightarrow> (\<forall>s v r. p s = Inr (v, r) \<longrightarrow> jv_ok v)"

lemma emplace_ok: "jv_ok v \<Longrightarrow> list_all (\<lambda>e. jv_ok (snd e)) es \<Longrightarrow> list_all (\<lambda>e. jv_ok (snd e)) (emplace (k, v) es)"
  by (induction es) auto

lemma DocParseMembers_ok:
  "parses_ok p \<Longrightarrow> list_all (\<lambda>e. jv_ok (snd e)) es \<Longrightarrow> DocParseMembers p n es s = Inr (v, r) \<Longrightarrow> jv_ok v"
proof (induction n arbitrary: es s)
  case (Suc n)
  show ?case
  proof (rule ccontr)
    assume c: "\<not> jv_ok v"
    from Suc.prems(3) obtain k r1 where k: "DocParseString s = Inr (k, r1)" and
      "at_char (CHR '':'') (DocSkipWhitespace r1)" by (auto simp: bindP_def Let_def split: if_splits sum.splits)
    with Suc.prems(3) obtain w r2 where w: "p (DocSkipWhitespace (tl (DocSkipWhitespace r1))) = Inr (w, r2)"
      by (auto simp: bindP_def Let_def split: if_splits sum.splits)
    have e: "list_all (\<lambda>e. jv_ok (snd e)) (emplace (k, w) es)"
      using w Suc.prems(1,2) by (auto simp: parses_ok_def intro: emplace_ok)
    show False
      using Suc.prems(3) k w c e Suc.IH [OF Suc.prems(1) e] by (auto simp: bindP_def Let_def split: if_splits)
  qed
qed simp

lemma DocParseElements_ok:
  "parses_ok p \<Longrightarrow> list_all jv_ok items \<Longrightarrow> DocParseElements p n items s = Inr (v, r) \<Longrightarrow> jv_ok v"
proof (induction n arbitrary: items s)
  case (Suc n)
  from Suc.prems(3) obtain w r2 where w: "p s = Inr (w, r2)" by (auto simp: bindP_def split: sum.splits)
  then have "list_all jv_ok (items @ [w])" using Suc.prems(1,2) by (auto simp: parses_ok_def)
  from Suc.IH [OF Suc.prems(1) this] show ?case
    using Suc.prems(3) w \<open>list_all jv_ok (items @ [w])\<close> by (auto simp: bindP_def Let_def split: if_splits)
qed simp

lemma DocParse_ok: "parses_ok (DocParseValue n)"
proof (induction n)
  case (Suc n)
  have o: "DocParseObject (DocParseValue n) s = Inr (v, r) \<Longrightarrow> jv_ok v" "DocParseArray (DocParseValue n) s = Inr (v, r) \<Longrightarrow> jv_ok v"
    for s v r
    using DocParseMembers_ok [OF Suc, of "[]"] DocParseElements_ok [OF Suc, of "[]"]
    by (auto simp: DocParseObject_def DocParseArray_def Let_def split: if_splits simp del: DocParseMembers.simps DocParseElements.simps)
  have "DocParseNumber s = Inr (v, r) \<Longrightarrow> jv_ok v" for s v r
    by (auto simp: DocParseNumber_def Let_def in_int64_def split: if_splits)
  moreover have "bindP DocParseString (\<lambda>v. ret (JvString v)) s = Inr (v, r) \<Longrightarrow> jv_ok v"
    "DocParseLiteral l b s = Inr (v, r) \<Longrightarrow> jv_ok v" "DocParseNull s = Inr (v, r) \<Longrightarrow> jv_ok v" for s v r l b
    by (auto simp: bindP_def ret_def DocParseLiteral_def DocParseNull_def split: sum.splits)
  ultimately show ?case using o by (auto simp: parses_ok_def split: if_splits)
qed (simp add: parses_ok_def)

lemma JsonParser_ok: "JsonParser_Parse json = Inr v \<Longrightarrow> jv_ok v"
proof -
  assume "JsonParser_Parse json = Inr v"
  then obtain r where "DocParseValue (Suc (length json)) (DocSkipWhitespace json) = Inr (v, r)"
    by (auto simp: JsonParser_Parse_def Let_def split: sum.splits if_splits simp del: DocParseValue.simps)
  then show "jv_ok v" using DocParse_ok unfolding parses_ok_def by blast
qed

section \<open>What the accessors give\<close>

named_theorems loads \<open>what an accepted access says of the value\<close>

lemma Require_ok [loads]: "Require v k type context = Inr w \<Longrightarrow> jv_ok v \<Longrightarrow> jv_ok w \<and> jv_type w = type"
  by (cases v) (auto simp: Require_def list_all_iff split: option.splits if_splits dest!: map_of_SomeD)

lemma Optional_ok [loads]: "Optional v k type context = Inr (Some w) \<Longrightarrow> jv_ok v \<Longrightarrow> jv_ok w \<and> jv_type w = type"
  by (cases v) (auto simp: Optional_def list_all_iff split: option.splits if_splits dest!: map_of_SomeD)

lemma jv_ok_parts: "jv_ok v \<Longrightarrow> in_int64 (jv_number v)" "jv_ok v \<Longrightarrow> list_all jv_ok (jv_array v)"
  "jv_ok v \<Longrightarrow> list_all (\<lambda>e. jv_ok (snd e)) (jv_object v)"
  by (cases v; simp add: in_int64_def int64_min_def int64_max_def)+

lemma Int32_ok [loads]: "Int32 v k context = Inr n \<Longrightarrow> in_int32 n"
  by (auto simp: Int32_def split: if_splits)

lemma parse_time_ok [loads]: "doc_ParseTime v context = Inr t \<Longrightarrow> jv_ok v \<Longrightarrow> time_ok t"
  by (auto simp: doc_ParseTime_def time_ok_def jv_ok_parts dest!: loads)

lemma parse_param_ok [loads]: "doc_ParseEffectParamValue v context = Inr p \<Longrightarrow> param_ok p"
  by (auto simp: doc_ParseEffectParamValue_def param_ok_def dest!: loads)

lemma parse_rate_ok [loads]: "parse_rate v context = Inr r \<Longrightarrow> rate_saved r"
  by (auto simp: parse_rate_def rate_saved_def dest!: loads)

lemma access_ok [loads]:
  shows "require_string v k context f = Inr y \<Longrightarrow> \<exists>s. f s = Inr y"
    and "require_bool v k context g = Inr y \<Longrightarrow> \<exists>b. g b = Inr y"
    and "optional_string v k context s f = Inr y \<Longrightarrow> \<exists>s. f s = Inr y"
    and "optional_bool v k context b g = Inr y \<Longrightarrow> \<exists>b. g b = Inr y"
    and "require_time v k context h = Inr y \<Longrightarrow> jv_ok v \<Longrightarrow> \<exists>t. time_ok t \<and> h t = Inr y"
    and "require_param v k context i = Inr y \<Longrightarrow> \<exists>p. param_ok p \<and> i p = Inr y"
    and "require_rate v k context j = Inr y \<Longrightarrow> \<exists>r. rate_saved r \<and> j r = Inr y"
  by (auto simp: reading optional_string_def optional_bool_def dest!: loads)

lemma read_array_ok:
  "(\<And>v context x. r v context = Inr x \<Longrightarrow> jv_ok v \<Longrightarrow> ok x) \<Longrightarrow> list_all jv_ok vs \<Longrightarrow> read_array r name i vs = Inr xs \<Longrightarrow> list_all ok xs"
  by (induction vs arbitrary: i xs) auto

lemma array_ok:
  assumes "\<And>v context x. r v context = Inr x \<Longrightarrow> jv_ok v \<Longrightarrow> ok x"
  shows "require_array v k context name r f = Inr y \<Longrightarrow> jv_ok v \<Longrightarrow> \<exists>xs. list_all ok xs \<and> f xs = Inr y"
    and "optional_array v k context name r f = Inr y \<Longrightarrow> jv_ok v \<Longrightarrow> \<exists>xs. list_all ok xs \<and> f xs = Inr y"
proof -
  have r: "list_all jv_ok vs \<Longrightarrow> read_array r name i vs = Inr xs \<Longrightarrow> list_all ok xs" for vs i xs
    by (rule read_array_ok [OF assms])
  have e: "read_array r name i [] = Inr xs \<Longrightarrow> list_all ok xs" for i xs by simp
  show "require_array v k context name r f = Inr y \<Longrightarrow> jv_ok v \<Longrightarrow> \<exists>xs. list_all ok xs \<and> f xs = Inr y"
    unfolding require_array_def by (auto dest!: loads dest: r [OF jv_ok_parts(2)])
  assume o: "optional_array v k context name r f = Inr y" "jv_ok v"
  then obtain found xs where "Optional v k TypeArray context = Inr found" "f xs = Inr y"
    "(case found of None \<Rightarrow> Inr [] | Some w \<Rightarrow> read_array r name 0 (jv_array w)) = Inr xs"
    by (auto simp: optional_array_def)
  moreover have "list_all ok xs"
    using calculation o(2) by (cases found) (auto dest!: loads dest: r [OF jv_ok_parts(2)])
  ultimately show "\<exists>xs. list_all ok xs \<and> f xs = Inr y" by blast
qed

section \<open>What the readers give\<close>

lemma loaded_items:
  shows "load_bin v context = Inr b \<Longrightarrow> jv_ok v \<Longrightarrow> bin_saved b"
    and "load_marker v context = Inr m \<Longrightarrow> jv_ok v \<Longrightarrow> marker_saved m"
    and "load_transition v context = Inr t \<Longrightarrow> jv_ok v \<Longrightarrow> transition_saved t"
    and "load_style v context = Inr s \<Longrightarrow> jv_ok v \<Longrightarrow> style_saved s"
    and "load_angle v context = Inr a \<Longrightarrow> jv_ok v \<Longrightarrow> angle_saved a"
    and "load_source v context = Inr src \<Longrightarrow> jv_ok v \<Longrightarrow> source_saved src"
  by (auto simp: load_bin_def load_marker_def load_transition_def load_style_def load_angle_def load_source_def
    bin_saved_def marker_saved_def transition_saved_def style_saved_def angle_saved_def source_saved_def dest!: loads)

lemma loaded_multicam: "load_multicam v context = Inr g \<Longrightarrow> jv_ok v \<Longrightarrow> multicam_saved g"
  by (auto simp: load_multicam_def multicam_saved_def dest!: loads array_ok(1) [where ok = angle_saved, rotated] intro: loaded_items)

lemma string_less_trans: "string_less x y \<Longrightarrow> string_less y z \<Longrightarrow> string_less x z"
proof (induction x y arbitrary: z rule: string_less.induct)
  case (3 a as b bs)
  then show ?case by (cases z) auto
next
  case (2 b bs)
  then show ?case by (cases z) auto
qed simp

lemma string_less_total: "x \<noteq> y \<Longrightarrow> \<not> string_less x y \<Longrightarrow> string_less y x"
proof (induction x y rule: string_less.induct)
  case (1 x)
  then show ?case by (cases x) auto
next
  case (3 a as b bs)
  have "(of_char a :: nat) = of_char b \<longleftrightarrow> a = b" by simp
  then show ?case using 3 by (auto simp: not_less_iff_gr_or_eq)
qed simp

lemma emplace_sorts: "sorted_wrt string_less (map fst m) \<Longrightarrow> sorted_wrt string_less (map fst (emplace p m))"
proof (induction m)
  case (Cons q m)
  show ?case
  proof (cases "fst p = fst q \<or> string_less (fst p) (fst q)")
    case True
    then show ?thesis using Cons.prems string_less_trans [of "fst p" "fst q"] by auto
  next
    case False
    have "string_less (fst q) (fst p)" by (rule string_less_total) (use False in auto)
    moreover have "set (emplace p m) \<subseteq> insert p (set m)" by (induction m) auto
    ultimately have "\<forall>x\<in>set (emplace p m). string_less (fst q) (fst x)" using Cons.prems by auto
    then show ?thesis using False Cons by simp
  qed
qed simp

lemma load_params_ok:
  "load_params context es ps = Inr qs \<Longrightarrow> sorted_wrt string_less (map fst ps) \<Longrightarrow> list_all (\<lambda>p. param_ok (snd p)) ps \<Longrightarrow>
    sorted_wrt string_less (map fst qs) \<and> list_all (\<lambda>p. param_ok (snd p)) qs"
proof (induction es arbitrary: ps)
  case (Cons e es)
  obtain k v where e: "e = (k, v)" by (cases e)
  from Cons.prems(1) obtain p where p: "param_ok p" "load_params context es (emplace (k, p) ps) = Inr qs"
    by (auto simp: e split: if_splits dest!: loads)
  have "list_all (\<lambda>p. param_ok (snd p)) (emplace (k, p) ps)" using Cons.prems(3) p(1) by (induction ps) auto
  then show ?case using Cons.IH [OF p(2) emplace_sorts [OF Cons.prems(2)]] by simp
qed simp

lemma loaded_effect: "load_effect v context = Inr e \<Longrightarrow> jv_ok v \<Longrightarrow> effect_saved e"
  by (auto simp: load_effect_def effect_saved_def dest!: loads dest: load_params_ok)

lemma zero_time: "time_ok (RT 0 1)" "param_ok default_gain" "param_ok default_opacity"
  by (simp_all add: time_ok_def param_ok_def default_gain_def default_opacity_def in_int64_def in_int32_def int64_min_def
    int64_max_def int32_min_def int32_max_def)

text \<open>
  A file may give a clip a reference of the synchronisation without its anchor, as an empty
  anchor; it is not written back.
\<close>

definition clip_anchored :: "DocumentClip \<Rightarrow> bool" where
  "clip_anchored c \<longleftrightarrow> (clip_sync_anchor_clip_id c = [] \<longrightarrow> clip_sync_reference_delta c = RT 0 1)"

definition anchored :: "Document \<Rightarrow> bool" where
  "anchored d \<longleftrightarrow> list_all (\<lambda>t. list_all clip_anchored (trk_clips t)) (doc_tracks d)"

definition clip_loaded :: "DocumentClip \<Rightarrow> bool" where
  "clip_loaded c \<longleftrightarrow> (clip_anchored c \<longrightarrow> clip_saved c)"

lemma loaded_link:
  assumes "load_link v context c = Inr c'" and "jv_ok v" and "clip_sync_reference_delta c = RT 0 1"
  shows "\<exists>g a t. c' = c\<lparr>clip_link_group_id := g, clip_sync_anchor_clip_id := a, clip_sync_reference_delta := t\<rparr> \<and> time_ok t"
proof -
  obtain g found where f: "(case found of
         None \<Rightarrow> Inr (c\<lparr>clip_link_group_id := g\<rparr>)
       | Some a \<Rightarrow>
           require_time v ''sync_reference_delta'' context (\<lambda>delta.
             Inr (c\<lparr>clip_link_group_id := g, clip_sync_anchor_clip_id := jv_string a,
                    clip_sync_reference_delta := delta\<rparr>))) = Inr c'"
    using assms(1) by (auto simp: load_link_def dest!: loads)
  show ?thesis
  proof (cases found)
    case None
    then have "c' = c\<lparr>clip_link_group_id := g, clip_sync_anchor_clip_id := clip_sync_anchor_clip_id c, clip_sync_reference_delta := RT 0 1\<rparr>"
      using f assms(3) by (cases c) auto
    then show ?thesis using zero_time(1) by blast
  next
    case (Some a)
    then obtain t where "time_ok t" "c' = c\<lparr>clip_link_group_id := g, clip_sync_anchor_clip_id := jv_string a, clip_sync_reference_delta := t\<rparr>"
      using f assms(2) by (auto dest!: loads)
    then show ?thesis by blast
  qed
qed

lemma loaded_audio:
  assumes "load_audio_settings version v context c = Inr c'" and "jv_ok v"
    and "param_ok (clip_audio_gain_db c)" "time_ok (clip_audio_fade_in c)" "time_ok (clip_audio_fade_out c)"
  shows "\<exists>g i t. c' = c\<lparr>clip_audio_gain_db := g, clip_audio_fade_in := i, clip_audio_fade_out := t\<rparr> \<and> param_ok g \<and> time_ok i \<and> time_ok t"
proof (cases "version < 7")
  case True
  then show ?thesis using assms
    by (intro exI [of _ "clip_audio_gain_db c"] exI [of _ "clip_audio_fade_in c"] exI [of _ "clip_audio_fade_out c"])
      (simp add: load_audio_settings_def)
next
  case False
  then show ?thesis using assms by (auto simp: load_audio_settings_def dest!: loads) 
qed

lemma list_access_ok:
  shows "optional_array v k context name load_effect f1 = Inr y \<Longrightarrow> jv_ok v \<Longrightarrow> \<exists>xs. list_all effect_saved xs \<and> f1 xs = Inr y"
  by (rule array_ok(2)) (rule loaded_effect)

lemma loaded_clip:
  assumes "load_clip version v context = Inr c" and "jv_ok v"
  shows "clip_loaded c"
proof -
  obtain i source sourceIn duration timelineIn includeAudio clip effects captionGroup captionText opacity where
    t: "time_ok sourceIn" "time_ok duration" "time_ok timelineIn" and
    l: "load_link v context ((new_clip i source sourceIn duration timelineIn)\<lparr>clip_include_audio := includeAudio\<rparr>) = Inr clip" and
    e: "list_all effect_saved effects" and
    p: "(if version < 5 then Inr (clip_opacity clip) else require_param v ''opacity'' context Inr) = Inr opacity" and
    a: "load_audio_settings version v context
      (clip\<lparr>clip_effects := effects, clip_caption_group_id := captionGroup, clip_caption_text := captionText,
         clip_opacity := opacity\<rparr>) = Inr c"
    using assms unfolding load_clip_def
    by (auto simp del: if_split dest!: loads list_access_ok)
  obtain g an d where c: "clip = (new_clip i source sourceIn duration timelineIn)\<lparr>clip_include_audio := includeAudio,
      clip_link_group_id := g, clip_sync_anchor_clip_id := an, clip_sync_reference_delta := d\<rparr>" and d: "time_ok d"
    using loaded_link [OF l assms(2)] by (auto simp: new_clip_def)
  have o: "param_ok opacity" using p c zero_time(3) by (auto simp: new_clip_def split: if_splits dest!: loads)
  obtain gain fi fo where "c = clip\<lparr>clip_effects := effects, clip_caption_group_id := captionGroup,
      clip_caption_text := captionText, clip_opacity := opacity, clip_audio_gain_db := gain, clip_audio_fade_in := fi,
      clip_audio_fade_out := fo\<rparr>" "param_ok gain" "time_ok fi" "time_ok fo"
    using loaded_audio [OF a assms(2)] zero_time c by (auto simp: new_clip_def)
  then show ?thesis using t e o d c by (simp add: clip_loaded_def clip_anchored_def clip_saved_def new_clip_def)
qed

definition track_loaded :: "DocumentTrack \<Rightarrow> bool" where
  "track_loaded t \<longleftrightarrow> (list_all clip_anchored (trk_clips t) \<longrightarrow> track_saved t)"

lemma clips_ok:
  "require_array v k context name (load_clip version) f = Inr y \<Longrightarrow> jv_ok v \<Longrightarrow> \<exists>xs. list_all clip_loaded xs \<and> f xs = Inr y"
  by (rule array_ok(1)) (rule loaded_clip)

lemma loaded_track:
  assumes "load_track version v context = Inr t" and "jv_ok v"
  shows "track_loaded t"
  using assms by (auto simp: load_track_def track_loaded_def track_saved_def clip_loaded_def list_all_iff dest!: loads clips_ok)

text \<open>The metadata of a media file: complete, with the audio members only where there is audio, or left out.\<close>

definition media_loaded :: "LibraryMedia \<Rightarrow> bool" where
  "media_loaded m \<longleftrightarrow>
     in_int32 (med_width m) \<and> in_int32 (med_height m) \<and> in_int32 (med_rotation_degrees m) \<and> in_int32 (med_audio_rate m) \<and>
     in_int32 (med_audio_channels m) \<and> in_int64 (med_audio_level m) \<and>
     (\<not> med_has_audio m \<longrightarrow> med_audio_rate m = 0 \<and> med_audio_channels m = 0 \<and> \<not> med_audio_level_measured m) \<and>
     (\<not> med_audio_level_measured m \<longrightarrow> med_audio_level m = 0)"

lemma zero_in_range: "in_int32 0" "in_int64 0"
  by (simp_all add: in_int64_def in_int32_def int64_min_def int64_max_def int32_min_def int32_max_def)

lemma loaded_audio_level:
  assumes "load_audio v context m = Inr m'" and "jv_ok v" and "in_int32 (med_width m)" "in_int32 (med_height m)" "in_int32 (med_rotation_degrees m)"
    and "med_audio_rate m = 0" "med_audio_channels m = 0" "\<not> med_audio_level_measured m" "med_audio_level m = 0"
  shows "media_loaded m' \<and> med_metadata_complete m' = med_metadata_complete m"
proof (cases "med_has_audio m")
  case False
  then show ?thesis using assms by (auto simp: load_audio_def media_loaded_def zero_in_range)
next
  case True
  then obtain rate channels level where "in_int32 rate" "in_int32 channels" "Optional v ''audio_level'' TypeNumber context = Inr level"
    "m' = (let m = m\<lparr>med_audio_rate := rate, med_audio_channels := channels\<rparr> in
           case level of None \<Rightarrow> m | Some v \<Rightarrow> m\<lparr>med_audio_level_measured := True, med_audio_level := jv_number v\<rparr>)"
    using assms(1) by (auto simp: load_audio_def Let_def dest!: loads)
  then show ?thesis using assms(2-) True zero_in_range
    by (cases level) (auto simp: media_loaded_def Let_def jv_ok_parts dest!: loads)
qed

lemma loaded_metadata:
  assumes "load_metadata v context (default_media i path filename bin proxy) = Inr m" and "jv_ok v"
  shows "if med_metadata_complete m then media_loaded m
    else m = (default_media i path filename bin proxy)\<lparr>med_metadata_complete := False\<rparr>"
proof -
  obtain codec where c: "Optional v ''codec'' TypeString context = Inr codec"
    using assms(1) by (auto simp: load_metadata_def)
  show ?thesis
  proof (cases codec)
    case None
    then show ?thesis using assms(1) c by (auto simp: load_metadata_def default_media_def)
  next
    case (Some w)
    have r: "in_int32 rotation" if "(case rotated of None \<Rightarrow> Inr 0 | Some _ \<Rightarrow> Int32 v ''rotation_degrees'' context) = Inr rotation" for rotated rotation
      using that zero_in_range by (auto split: option.splits dest!: loads)
    show ?thesis using assms c Some
      by (auto simp: load_metadata_def default_media_def dest!: loads loaded_audio_level dest: r)
  qed
qed

lemma loaded_media:
  assumes "load_media v context = Inr m" and "jv_ok v"
  shows "media_saved m"
proof -
  obtain i path filename bin proxy n rate duration where
    n: "load_metadata v context (default_media i path filename bin proxy) = Inr n" and
    r: "rate_saved rate" "time_ok duration" and m: "m = n\<lparr>med_rate := rate, med_duration := duration\<rparr>"
    using assms by (auto simp: load_media_def dest!: loads)
  from loaded_metadata [OF n assms(2)] show ?thesis
    using r m zero_in_range by (auto simp: media_saved_def media_loaded_def default_media_def split: if_splits)
qed

named_theorems lists_ok \<open>what an accepted list holds\<close>

lemma media_list_ok [lists_ok]:
  "require_array v k context name load_media f = Inr y \<Longrightarrow> jv_ok v \<Longrightarrow> \<exists>xs. list_all media_saved xs \<and> f xs = Inr y"
  by (rule array_ok(1)) (rule loaded_media)

lemma bin_list_ok [lists_ok]:
  "optional_array v k context name load_bin f = Inr y \<Longrightarrow> jv_ok v \<Longrightarrow> \<exists>xs. list_all bin_saved xs \<and> f xs = Inr y"
  by (rule array_ok(2)) (rule loaded_items(1))

lemma marker_list_ok [lists_ok]:
  "optional_array v k context name load_marker f = Inr y \<Longrightarrow> jv_ok v \<Longrightarrow> \<exists>xs. list_all marker_saved xs \<and> f xs = Inr y"
  by (rule array_ok(2)) (rule loaded_items(2))

lemma transition_list_ok [lists_ok]:
  "optional_array v k context name load_transition f = Inr y \<Longrightarrow> jv_ok v \<Longrightarrow> \<exists>xs. list_all transition_saved xs \<and> f xs = Inr y"
  by (rule array_ok(2)) (rule loaded_items(3))

lemma style_list_ok [lists_ok]:
  "optional_array v k context name load_style f = Inr y \<Longrightarrow> jv_ok v \<Longrightarrow> \<exists>xs. list_all style_saved xs \<and> f xs = Inr y"
  by (rule array_ok(2)) (rule loaded_items(4))

lemma multicam_list_ok [lists_ok]:
  "optional_array v k context name load_multicam f = Inr y \<Longrightarrow> jv_ok v \<Longrightarrow> \<exists>xs. list_all multicam_saved xs \<and> f xs = Inr y"
  by (rule array_ok(2)) (rule loaded_multicam)

lemma source_list_ok [lists_ok]:
  "require_array v k context name load_source f = Inr y \<Longrightarrow> jv_ok v \<Longrightarrow> \<exists>xs. list_all source_saved xs \<and> f xs = Inr y"
  by (rule array_ok(1)) (rule loaded_items(6))

lemma track_list_ok [lists_ok]:
  "require_array v k context name (load_track version) f = Inr y \<Longrightarrow> jv_ok v \<Longrightarrow> \<exists>xs. list_all track_loaded xs \<and> f xs = Inr y"
  by (rule array_ok(1)) (rule loaded_track)

lemma loaded_document:
  assumes "load_document v = Inr d" and "jv_ok v" and "anchored d"
  shows "document_saved d"
proof -
  obtain sequence where s: "Require v ''sequence'' TypeObject ''document'' = Inr sequence"
    using assms(1) by (auto simp: load_document_def split: if_splits)
  then have q: "jv_ok sequence" using assms(2) by (auto dest: loads)
  show ?thesis
    using assms s q unfolding load_document_def
    by (auto simp: Let_def document_saved_def sequence_saved_def anchored_def track_loaded_def list_all_iff
      simp del: if_split split: if_splits dest!: loads lists_ok)
qed

lemma loaded_is_saved:
  assumes "Document_LoadFromString json = Inr d" and "anchored d"
  shows "valid d" and "document_saved d"
proof -
  obtain v where "JsonParser_Parse json = Inr v" "load_document v = Inr d" "Validate d = Inr ()"
    using assms(1) by (auto simp: Document_LoadFromString_def split: sum.splits)
  then show "valid d" "document_saved d" using loaded_document [OF _ JsonParser_ok assms(2)] by auto
qed

section \<open>Properties\<close>

text \<open>
  Property C38: a valid document with \<open>document_saved\<close> survives the file: it is written as a
  text that loads as exactly the same document, every track, clip, effect parameter, transition,
  marker, caption style, multicam group, media file, bin and source, whatever bytes its names and
  texts are made of.  \<open>document_saved\<close> asks for the current version, numbers in the ranges of their
  members, and that what the file leaves out has its default: no audio format without audio, no
  level that was not measured, only path, rate and duration where the metadata are incomplete,
  and a synchronisation delta of zero for a clip without anchor.
\<close>

theorem document_file_round_trip:
  assumes "document_saved d" and "valid d"
  shows "Document_LoadFromString (Document_SaveToString d) = Inr d"
  using assms by (rule Load_Save)

text \<open>
  What is loaded has \<open>document_saved\<close>, with one exception.  Whatever text is accepted, also one
  of an earlier version, gives a valid document of the current version; if no clip without anchor
  has a synchronisation delta (\<open>anchored\<close>), saving it and loading that file gives the same
  document again.  A file with an empty \<open>sync_anchor_clip_id\<close> and a delta is accepted, and the
  delta is lost when the document is saved.
\<close>

theorem loaded_document_is_stable:
  assumes "Document_LoadFromString json = Inr d" and "anchored d"
  shows "valid d \<and> document_saved d \<and> doc_version d = 7 \<and> Document_LoadFromString (Document_SaveToString d) = Inr d"
  using loaded_is_saved [OF assms] Load_Save by (simp add: document_saved_def)

lemma sample_doc_saved: "document_saved sample_doc"
  by code_simp

lemma document_file_round_trip_witness: "Document_LoadFromString (Document_SaveToString sample_doc) = Inr sample_doc"
  using document_file_round_trip [OF sample_doc_saved sample_doc_valid] .

lemma loaded_document_is_stable_witness:
  "valid sample_doc \<and> document_saved sample_doc \<and> doc_version sample_doc = 7 \<and>
   Document_LoadFromString (Document_SaveToString sample_doc) = Inr sample_doc"
proof -
  have "anchored sample_doc" by code_simp
  then show ?thesis using loaded_document_is_stable [OF Load_Save [OF sample_doc_saved sample_doc_valid]] by blast
qed

end
