(* ===== verification/Project_Model.thy ===== *)
theory Project_Model
  imports Document_Text
begin

text \<open>
  The project of \<open>src/Project.h\<close>, \<open>src/Project.cc\<close>: the timelines with the rushes, bins, sources
  and colour settings they share, the edit snapshot of one timeline (\<open>MakeDocument\<close>), the commit
  of an edited snapshot, and \<open>Validate\<close>, whose checks run in the order of the code.  \<open>std::map\<close>
  is the association list in key order.
\<close>

section \<open>Data\<close>

record ProjectSettings =
  ps_color_management :: ColorManagementSettings

record ProjectBinMetadata =
  pm_description :: string
  pm_rating :: int
  pm_tags :: "string list"
  pm_insert_order :: int
  pm_display_name :: string

record Project =
  prj_id :: Ulid
  prj_name :: string
  prj_settings :: ProjectSettings
  prj_rushes :: "LibraryMedia list"
  prj_bins :: "DocumentBin list"
  prj_sources :: "DocumentSource list"
  prj_timelines :: "DocumentSequence list"
  prj_active_timeline_id :: Ulid
  prj_bin_metadata :: "(Ulid \<times> ProjectBinMetadata) list"
  prj_timeline_bin_ids :: "(Ulid \<times> Ulid) list"

abbreviation prj_color :: "Project \<Rightarrow> ColorManagementSettings" where
  "prj_color p \<equiv> ps_color_management (prj_settings p)"

text \<open>The initial values of a sequence.\<close>

definition default_sequence :: "Ulid \<Rightarrow> DocumentSequence" where
  "default_sequence i =
     \<lparr>seq_id = i, seq_name = ''Sequence 1'', seq_width = 1920, seq_height = 1080,
      seq_frame_rate = \<lparr>mr_num = 25, mr_den = 1\<rparr>, seq_markers = [], seq_transitions = [], seq_tracks = [],
      seq_caption_styles = [], seq_multicam_groups = []\<rparr>"

text \<open>The constructor draws two identifiers, for the project and for its first timeline.\<close>

definition new_project :: "string \<Rightarrow> id_supply \<Rightarrow> Project \<times> id_supply" where
  "new_project projectName g =
     (case fresh g of (i, g1) \<Rightarrow> case fresh g1 of (t, g2) \<Rightarrow>
       (\<lparr>prj_id = i, prj_name = projectName, prj_settings = \<lparr>ps_color_management = default_color\<rparr>, prj_rushes = [],
         prj_bins = [], prj_sources = [], prj_timelines = [(default_sequence t)\<lparr>seq_name := ''Timeline 1''\<rparr>],
         prj_active_timeline_id = t, prj_bin_metadata = [], prj_timeline_bin_ids = []\<rparr>, g2))"

section \<open>Lookups and snapshots\<close>

definition FindTimeline :: "Project \<Rightarrow> Ulid \<Rightarrow> DocumentSequence option" where
  "FindTimeline p i = List.find (\<lambda>t. seq_id t = i) (prj_timelines p)"

definition ActiveTimeline :: "Project \<Rightarrow> DocumentSequence option" where
  "ActiveTimeline p = FindTimeline p (prj_active_timeline_id p)"

definition FindBinMetadata :: "Project \<Rightarrow> Ulid \<Rightarrow> ProjectBinMetadata option" where
  "FindBinMetadata p i = map_of (prj_bin_metadata p) i"

text \<open>The document of one timeline with the shared data.\<close>

definition timeline_document :: "Project \<Rightarrow> DocumentSequence \<Rightarrow> Document" where
  "timeline_document p t =
     \<lparr>doc_version = 7, doc_sequence = t, doc_color_management = prj_color p, doc_library = prj_rushes p,
      doc_bins = prj_bins p, doc_sources = prj_sources p\<rparr>"

text \<open>An unknown timeline leaves the sequence of a new document, which has a generated identifier.\<close>

definition MakeDocument :: "Project \<Rightarrow> Ulid \<Rightarrow> Ulid \<Rightarrow> Document" where
  "MakeDocument p generated timelineId =
     timeline_document p (case FindTimeline p timelineId of Some t \<Rightarrow> t | None \<Rightarrow> default_sequence generated)"

definition MakeActiveDocument :: "Project \<Rightarrow> Ulid \<Rightarrow> Document" where
  "MakeActiveDocument p generated = MakeDocument p generated (prj_active_timeline_id p)"

section \<open>Validation\<close>

definition check_placement :: "Project \<Rightarrow> Ulid \<times> Ulid \<Rightarrow> unit \<Rightarrow> string + unit" where
  "check_placement p placement _ =
     (if FindTimeline p (fst placement) = None
      then Inl (''bin placement references unknown timeline '' @ quoted (fst placement))
      else if snd placement \<noteq> [] \<and> \<not> list_ex (\<lambda>b. bin_id b = snd placement) (prj_bins p)
      then Inl (''timeline references unknown bin_id '' @ quoted (snd placement))
      else Inr ())"

definition check_metadata :: "Project \<Rightarrow> Ulid \<times> ProjectBinMetadata \<Rightarrow> unit \<Rightarrow> string + unit" where
  "check_metadata p entry _ =
     (if pm_rating (snd entry) > 5 then Inl ''project bin rating must be between 0 and 5''
      else if length (pm_display_name (snd entry)) > 128 then Inl ''project bin display name exceeds 128 bytes''
      else if pm_insert_order (snd entry) > int64_max then Inl ''project bin insertion order is outside int64_t range''
      else if FindTimeline p (fst entry) = None \<and> \<not> list_ex (\<lambda>r. med_id r = fst entry) (prj_rushes p)
      then Inl (''metadata references unknown project bin item '' @ quoted (fst entry))
      else Inr ())"

definition registerSharedId :: "Ulid \<Rightarrow> Ulid set \<Rightarrow> string + Ulid set" where
  "registerSharedId i ids =
     (if i \<in> ids then Inl (''duplicate project object ID '' @ quoted i) else Inr (insert i ids))"

definition register_shared_ids :: "Project \<Rightarrow> string + Ulid set" where
  "register_shared_ids p =
     (let sourceIds = src_id ` set (prj_sources p) in
      bindR (loopR (\<lambda>b. registerSharedId (bin_id b)) (prj_bins p) {prj_id p}) (\<lambda>ids1.
      bindR (loopR (\<lambda>s. registerSharedId (src_id s)) (prj_sources p) ids1) (\<lambda>ids2.
      loopR (\<lambda>r ids. if med_id r \<in> sourceIds then Inr ids else registerSharedId (med_id r) ids) (prj_rushes p) ids2)))"

definition registerTimelineId :: "Ulid \<Rightarrow> Ulid set \<Rightarrow> string + Ulid set" where
  "registerTimelineId i ids =
     (if i \<in> ids then Inl (''duplicate object ID across timelines '' @ quoted i) else Inr (insert i ids))"

text \<open>The identifiers of a timeline in the order of registration.\<close>

definition timeline_ids :: "DocumentSequence \<Rightarrow> Ulid list" where
  "timeline_ids t =
     seq_id t # map mk_id (seq_markers t) @ map trn_id (seq_transitions t) @ map cs_id (seq_caption_styles t) @
     concat (map (\<lambda>g. mg_id g # map ang_id (mg_angles g)) (seq_multicam_groups t)) @
     concat (map (\<lambda>k. trk_id k # map clip_id (trk_clips k)) (seq_tracks t))"

definition validate_timeline :: "Project \<Rightarrow> DocumentSequence \<Rightarrow> Ulid set \<Rightarrow> string + Ulid set" where
  "validate_timeline p t ids =
     (case Validate (timeline_document p t) of
        Inl e \<Rightarrow> Inl (''timeline '' @ quoted (seq_name t) @ '': '' @ e)
      | Inr _ \<Rightarrow> loopR registerTimelineId (timeline_ids t) ids)"

definition Project_Validate :: "Project \<Rightarrow> string + unit" where
  "Project_Validate p =
     (if \<not> IsValidUlid (prj_id p) then Inl ''project has an invalid ID''
      else if prj_name p = [] then Inl ''project has an empty name''
      else if prj_timelines p = [] then Inl ''project has no timelines''
      else if ActiveTimeline p = None then Inl ''active_timeline_id does not reference a timeline''
      else bindR (loopR (check_placement p) (prj_timeline_bin_ids p) ()) (\<lambda>_.
        bindR (loopR (check_metadata p) (prj_bin_metadata p) ()) (\<lambda>_.
        bindR (register_shared_ids p) (\<lambda>ids.
        bindR (loopR (validate_timeline p) (prj_timelines p) ids) (\<lambda>_. Inr ())))))"

abbreviation valid_project :: "Project \<Rightarrow> bool" where
  "valid_project p \<equiv> Project_Validate p = Inr ()"

section \<open>Commit\<close>

definition CommitDocument :: "Project \<Rightarrow> Ulid \<Rightarrow> Document \<Rightarrow> string + Project" where
  "CommitDocument p timelineId d =
     bindR (Validate d) (\<lambda>_.
       case FindTimeline p timelineId of
         None \<Rightarrow> Inl (''unknown timeline_id '' @ quoted timelineId)
       | Some t \<Rightarrow>
           if seq_id (doc_sequence d) \<noteq> seq_id t
           then Inl (''edit document does not belong to timeline '' @ quoted timelineId)
           else let candidate = p\<lparr>prj_timelines := update_first (\<lambda>t. seq_id t = timelineId) (\<lambda>_. doc_sequence d) (prj_timelines p),
                                  prj_settings := (prj_settings p)\<lparr>ps_color_management := doc_color_management d\<rparr>,
                                  prj_rushes := doc_library d, prj_bins := doc_bins d, prj_sources := doc_sources d\<rparr>
             in bindR (Project_Validate candidate) (\<lambda>_. Inr candidate))"

definition CommitActiveDocument :: "Project \<Rightarrow> Document \<Rightarrow> string + Project" where
  "CommitActiveDocument p d = CommitDocument p (prj_active_timeline_id p) d"

section \<open>From a document\<close>

text \<open>
  \<open>MigratedProjectId\<close>: the FNV-1a hash of the identifier of the sequence, in 64 bits, written
  with thirteen digits of five bits, the last digit first.
\<close>

definition fnv_step :: "char \<Rightarrow> 64 word \<Rightarrow> 64 word" where
  "fnv_step c hash = (xor hash (of_nat (of_char c))) * 1099511628211"

definition fnv_hash :: "string \<Rightarrow> 64 word" where
  "fnv_hash s = fold fnv_step s 1469598103934665603"

fun base32_digits :: "nat \<Rightarrow> 64 word \<Rightarrow> string" where
  "base32_digits 0 hash = []"
| "base32_digits (Suc n) hash =
     base32_digits n (drop_bit 5 hash) @ [kAlphabet ! unat (and hash 31)]"

definition MigratedProjectId :: "Ulid \<Rightarrow> Ulid" where
  "MigratedProjectId sequenceId = ''0000000000001'' @ base32_digits 13 (fnv_hash sequenceId)"

definition FromDocument :: "Document \<Rightarrow> string \<Rightarrow> Project" where
  "FromDocument d projectName =
     \<lparr>prj_id = MigratedProjectId (seq_id (doc_sequence d)), prj_name = projectName,
      prj_settings = \<lparr>ps_color_management = doc_color_management d\<rparr>, prj_rushes = doc_library d,
      prj_bins = doc_bins d, prj_sources = doc_sources d, prj_timelines = [doc_sequence d],
      prj_active_timeline_id = seq_id (doc_sequence d), prj_bin_metadata = [], prj_timeline_bin_ids = []\<rparr>"

section \<open>Snapshots\<close>

lemma snapshot_simps [simp]:
  "doc_sequence (timeline_document p t) = t" "doc_color_management (timeline_document p t) = prj_color p" "doc_library (timeline_document p t) = prj_rushes p"
  "doc_bins (timeline_document p t) = prj_bins p" "doc_sources (timeline_document p t) = prj_sources p" "doc_version (timeline_document p t) = 7"
  by (simp_all add: timeline_document_def)

lemma FindTimeline_Some: "FindTimeline p i = Some t \<Longrightarrow> t \<in> set (prj_timelines p) \<and> seq_id t = i"
  by (auto simp: FindTimeline_def find_Some_iff)

lemma FindTimeline_None: "FindTimeline p i = None \<longleftrightarrow> i \<notin> seq_id ` set (prj_timelines p)"
  by (auto simp: FindTimeline_def find_None_iff)

lemma validate_timeline_ok:
  "validate_timeline p t ids = Inr ids' \<longleftrightarrow> valid (timeline_document p t) \<and> loopR registerTimelineId (timeline_ids t) ids = Inr ids'"
  by (auto simp: validate_timeline_def split: sum.splits)

section \<open>What a valid project is\<close>

lemma loop_fresh_ids:
  assumes "\<And>i ids r. reg i ids = Inr r \<longleftrightarrow> i \<notin> ids \<and> r = insert i ids"
  shows "loopR reg ks ids = Inr ids' \<longleftrightarrow> distinct ks \<and> set ks \<inter> ids = {} \<and> ids' = set ks \<union> ids"
proof (induction ks arbitrary: ids)
  case (Cons k ks)
  have "loopR reg (k # ks) ids = Inr ids' \<longleftrightarrow> k \<notin> ids \<and> loopR reg ks (insert k ids) = Inr ids'"
    by (simp add: assms bindR_Inr_iff)
  then show ?case using Cons.IH [of "insert k ids"] by auto
qed auto

lemma register_ids:
  "loopR registerTimelineId ks ids = Inr ids' \<longleftrightarrow> distinct ks \<and> set ks \<inter> ids = {} \<and> ids' = set ks \<union> ids"
  by (rule loop_fresh_ids) (auto simp: registerTimelineId_def)

lemma loop_map: "loopR (\<lambda>x. f (g x)) xs s = loopR f (map g xs) s"
  by (induction xs arbitrary: s) (auto simp: bindR_def split: sum.splits)

lemma register_shared:
  "loopR (\<lambda>x. registerSharedId (f x)) xs ids = Inr ids' \<longleftrightarrow>
     distinct (map f xs) \<and> set (map f xs) \<inter> ids = {} \<and> ids' = set (map f xs) \<union> ids"
  unfolding loop_map by (rule loop_fresh_ids) (auto simp: registerSharedId_def)

lemma register_filtered:
  "loopR (\<lambda>x ids. if P x then Inr ids else f x ids) xs ids = loopR f (filter (\<lambda>x. \<not> P x) xs) ids"
  by (induction xs arbitrary: ids) (auto simp: bindR_def split: sum.splits)

text \<open>The identifiers of the project and of the data the timelines share.\<close>

definition shared_ids :: "Project \<Rightarrow> Ulid list" where
  "shared_ids p =
     prj_id p # map bin_id (prj_bins p) @ map src_id (prj_sources p) @
     map med_id (filter (\<lambda>r. med_id r \<notin> src_id ` set (prj_sources p)) (prj_rushes p))"

lemma register_shared_ids_iff:
  "register_shared_ids p = Inr ids \<longleftrightarrow> distinct (shared_ids p) \<and> ids = set (shared_ids p)"
  unfolding register_shared_ids_def Let_def register_filtered bindR_Inr_iff register_shared shared_ids_def
  by (simp del: set_map set_filter add: Int_commute) blast

end
