(* ===== verification/Project_Text.thy ===== *)
theory Project_Text
  imports Project_Model
begin

text \<open>
  \<open>Project::LoadFromString\<close> and \<open>Project::SaveToString\<close>, \<open>src/Document.cc\<close>.  The file holds one
  document text for each timeline, escaped as a string, so the data the timelines share is
  written once for each of them; the loader takes it from the first and compares the texts of
  the others.
\<close>

section \<open>Reading\<close>

definition load_snapshot :: "nat \<Rightarrow> JsonValue \<Rightarrow> string + Document" where
  "load_snapshot index v =
     (if jv_type v \<noteq> TypeString
      then Inl (''project.timeline_snapshots['' @ to_string (int index) @ ''] has the wrong JSON type'')
      else case Document_LoadFromString (jv_string v) of
        Inl e \<Rightarrow> Inl (''invalid timeline document '' @ to_string (int index) @ '': '' @ e)
      | Inr d \<Rightarrow> Inr d)"

definition shares_data :: "Document \<Rightarrow> Document \<Rightarrow> bool" where
  "shares_data shared d \<longleftrightarrow>
     Document_SaveToString (d\<lparr>doc_sequence := doc_sequence shared\<rparr>) = Document_SaveToString shared"

text \<open>The snapshots after the first one, which is \<open>shared\<close>.\<close>

fun load_snapshots :: "Document \<Rightarrow> nat \<Rightarrow> JsonValue list \<Rightarrow> string + DocumentSequence list" where
  "load_snapshots shared index [] = Inr []"
| "load_snapshots shared index (v # vs) =
     bindR (load_snapshot index v) (\<lambda>d.
       if \<not> shares_data shared d then Inl ''timeline documents disagree on shared project data''
       else bindR (load_snapshots shared (Suc index) vs) (\<lambda>ts. Inr (doc_sequence d # ts)))"

fun load_tags :: "string \<Rightarrow> nat \<Rightarrow> JsonValue list \<Rightarrow> string + string list" where
  "load_tags context index [] = Inr []"
| "load_tags context index (v # vs) =
     (if jv_type v \<noteq> TypeString then Inl (context @ ''.tags['' @ to_string (int index) @ ''] must be a string'')
      else bindR (load_tags context (Suc index) vs) (\<lambda>tags. Inr (jv_string v # tags)))"

definition load_metadata_entry :: "JsonValue \<Rightarrow> string \<Rightarrow> string + Ulid \<times> ProjectBinMetadata" where
  "load_metadata_entry item context =
     require_string item ''item_id'' context (\<lambda>itemId.
     require_string item ''description'' context (\<lambda>description.
     bindR (Int32 item ''rating'' context) (\<lambda>rating.
     if rating < 0 then Inl (context @ ''.rating cannot be negative'')
     else bindR (Require item ''insert_order'' TypeNumber context) (\<lambda>order.
     if jv_number order < 0 then Inl (context @ ''.insert_order cannot be negative'')
     else optional_string item ''display_name'' context [] (\<lambda>displayName.
     bindR (Require item ''tags'' TypeArray context) (\<lambda>tags.
     bindR (load_tags context 0 (jv_array tags)) (\<lambda>tagTexts.
       Inr (itemId, \<lparr>pm_description = description, pm_rating = rating, pm_tags = tagTexts,
                     pm_insert_order = jv_number order, pm_display_name = displayName\<rparr>))))))))"

definition load_placement :: "JsonValue \<Rightarrow> string \<Rightarrow> string + Ulid \<times> Ulid" where
  "load_placement item context =
     require_string item ''timeline_id'' context (\<lambda>timelineId.
     require_string item ''bin_id'' context (\<lambda>binId. Inr (timelineId, binId)))"

text \<open>A list of entries is emplaced into a map; a key that is there already is an error.\<close>

fun load_entries ::
  "(JsonValue \<Rightarrow> string \<Rightarrow> string + string \<times> 'v) \<Rightarrow> string \<Rightarrow> string \<Rightarrow> nat \<Rightarrow> (string \<times> 'v) list \<Rightarrow> JsonValue list \<Rightarrow>
   string + (string \<times> 'v) list" where
  "load_entries r name duplicate index m [] = Inr m"
| "load_entries r name duplicate index m (item # items) =
     bindR (r item (name @ ''['' @ to_string (int index) @ '']'')) (\<lambda>e.
       if fst e \<in> fst ` set m then Inl (duplicate @ quoted (fst e))
       else load_entries r name duplicate (Suc index) (emplace e m) items)"

definition optional_entries ::
  "JsonValue \<Rightarrow> string \<Rightarrow> string \<Rightarrow> (JsonValue \<Rightarrow> string \<Rightarrow> string + string \<times> 'v) \<Rightarrow> string + (string \<times> 'v) list" where
  "optional_entries object k duplicate r =
     bindR (Optional object k TypeArray ''project'') (\<lambda>found.
       case found of None \<Rightarrow> Inr [] | Some v \<Rightarrow> load_entries r (''project.'' @ k) duplicate 0 [] (jv_array v))"

definition load_project :: "JsonValue \<Rightarrow> string + Project" where
  "load_project object =
     bindR (Optional object ''project_format'' TypeString ''project'') (\<lambda>format.
     case format of
       None \<Rightarrow> Inl ''missing project format''
     | Some f \<Rightarrow>
         if jv_string f \<noteq> ''cutmachine-project'' then Inl (''unsupported project format '' @ quoted (jv_string f))
         else bindR (Int32 object ''project_version'' ''project'') (\<lambda>version.
           if version \<noteq> 2 then Inl ''unsupported project version''
           else require_string object ''name'' ''project'' (\<lambda>name.
             require_string object ''id'' ''project'' (\<lambda>i.
             require_string object ''active_timeline_id'' ''project'' (\<lambda>active.
             bindR (Require object ''timeline_snapshots'' TypeArray ''project'') (\<lambda>documents.
             case jv_array documents of
               [] \<Rightarrow> Inl ''project has no timeline documents''
             | v # vs \<Rightarrow>
                 bindR (load_snapshot 0 v) (\<lambda>shared.
                 bindR (load_snapshots shared 1 vs) (\<lambda>timelines.
                 bindR (optional_entries object ''bin_metadata'' ''duplicate bin metadata for '' load_metadata_entry) (\<lambda>metadata.
                 bindR (optional_entries object ''timeline_bin_ids'' ''duplicate timeline bin placement for '' load_placement)
                   (\<lambda>placements.
                   Inr \<lparr>prj_id = i, prj_name = name, prj_settings = \<lparr>ps_color_management = doc_color_management shared\<rparr>,
                        prj_rushes = doc_library shared, prj_bins = doc_bins shared, prj_sources = doc_sources shared,
                        prj_timelines = doc_sequence shared # timelines, prj_active_timeline_id = active,
                        prj_bin_metadata = metadata, prj_timeline_bin_ids = placements\<rparr>))))))))))"

definition Project_LoadFromString :: "string \<Rightarrow> string + Project" where
  "Project_LoadFromString json =
     (case JsonParser_Parse json of
        Inl e \<Rightarrow> Inl (json_message json e)
      | Inr object \<Rightarrow> bindR (load_project object) (\<lambda>parsed. bindR (Project_Validate parsed) (\<lambda>_. Inr parsed)))"

section \<open>Writing\<close>

text \<open>Tags are separated by a comma alone.\<close>

definition jcommas :: "('a \<Rightarrow> string) \<Rightarrow> 'a list \<Rightarrow> string" where
  "jcommas w xs =
     CHR ''['' # (case xs of [] \<Rightarrow> [] | x # ys \<Rightarrow> w x @ concat (map (\<lambda>y. CHR '','' # w y) ys)) @ '']''"

definition save_metadata_entry :: "Ulid \<times> ProjectBinMetadata \<Rightarrow> string" where
  "save_metadata_entry e =
     jfirst ''item_id'' (jtext (fst e)) @ jfield ''description'' (jtext (pm_description (snd e))) @
     jfield ''rating'' (to_string (pm_rating (snd e))) @ jfield ''tags'' (jcommas jtext (pm_tags (snd e))) @
     jfield ''insert_order'' (to_string (pm_insert_order (snd e))) @
     jfield ''display_name'' (jtext (pm_display_name (snd e))) @ ''}''"

definition save_placement :: "Ulid \<times> Ulid \<Rightarrow> string" where
  "save_placement e = jfirst ''timeline_id'' (jtext (fst e)) @ jfield ''bin_id'' (jtext (snd e)) @ ''}''"

definition save_snapshot :: "Project \<Rightarrow> DocumentSequence \<Rightarrow> string" where
  "save_snapshot p t = jtext (Document_SaveToString (timeline_document p t))"

definition Project_SaveToString :: "Project \<Rightarrow> string" where
  "Project_SaveToString p =
     CHR ''{'' # newline @ ''  '' @ jkey ''project_format'' @ CHR 0x22 # ''cutmachine-project'' @ CHR 0x22 #
     jline ''project_version'' ''2'' @ jline ''id'' (jtext (prj_id p)) @ jline ''name'' (jtext (prj_name p)) @
     jline ''active_timeline_id'' (jtext (prj_active_timeline_id p)) @
     jline ''timeline_snapshots'' (jlist ''    '' (line_end (prj_timelines p) @ ''  '') (save_snapshot p) (prj_timelines p)) @
     jline ''bin_metadata'' (jlist ''    '' (line_end (prj_bin_metadata p) @ ''  '') save_metadata_entry (prj_bin_metadata p)) @
     jline ''timeline_bin_ids''
       (jlist ''    '' (line_end (prj_timeline_bin_ids p) @ ''  '') save_placement (prj_timeline_bin_ids p)) @
     newline @ ''}'' @ newline"

end
