(* ===== verification/Project_Laws.thy ===== *)
theory Project_Laws
  imports Project_Model Sample_Document
begin

text \<open>
  What \<open>Project::Validate\<close> guarantees, and the laws of \<open>MakeDocument\<close> and \<open>CommitDocument\<close>: the
  snapshot of a timeline and its commit are the two halves of a view on the project.
\<close>

section \<open>Valid projects\<close>

definition placements_ok :: "Project \<Rightarrow> bool" where
  "placements_ok p \<longleftrightarrow>
     (\<forall>e \<in> set (prj_timeline_bin_ids p). fst e \<in> seq_id ` set (prj_timelines p) \<and> (snd e \<noteq> [] \<longrightarrow> snd e \<in> bin_id ` set (prj_bins p)))"

definition metadata_ok :: "Project \<Rightarrow> bool" where
  "metadata_ok p \<longleftrightarrow>
     (\<forall>e \<in> set (prj_bin_metadata p). pm_rating (snd e) \<le> 5 \<and> length (pm_display_name (snd e)) \<le> 128 \<and>
        pm_insert_order (snd e) \<le> int64_max \<and> (fst e \<in> seq_id ` set (prj_timelines p) \<or> fst e \<in> med_id ` set (prj_rushes p)))"

text \<open>Every identifier of a project, in the order of registration.\<close>

definition project_ids :: "Project \<Rightarrow> Ulid list" where
  "project_ids p = shared_ids p @ concat (map timeline_ids (prj_timelines p))"

lemma loop_unit: "loopR f xs () = Inr () \<longleftrightarrow> (\<forall>x \<in> set xs. f x () = Inr ())"
  by (induction xs) (auto simp: bindR_Inr_iff)

lemma some_has_id: "list_ex (\<lambda>x. f x = i) xs \<longleftrightarrow> i \<in> f ` set xs"
  by (auto simp: list_ex_iff)

lemma placements_iff: "loopR (check_placement p) (prj_timeline_bin_ids p) () = Inr () \<longleftrightarrow> placements_ok p"
  unfolding loop_unit placements_ok_def check_placement_def FindTimeline_None some_has_id by auto

lemma metadata_iff: "loopR (check_metadata p) (prj_bin_metadata p) () = Inr () \<longleftrightarrow> metadata_ok p"
  unfolding loop_unit metadata_ok_def check_metadata_def FindTimeline_None some_has_id by auto

lemma timelines_iff:
  "(\<exists>ids'. loopR (validate_timeline p) ts ids = Inr ids') \<longleftrightarrow>
     (\<forall>t \<in> set ts. valid (timeline_document p t)) \<and> distinct (concat (map timeline_ids ts)) \<and>
     set (concat (map timeline_ids ts)) \<inter> ids = {}"
proof (induction ts arbitrary: ids)
  case (Cons t ts)
  have "(\<exists>ids'. loopR (validate_timeline p) (t # ts) ids = Inr ids') \<longleftrightarrow>
      valid (timeline_document p t) \<and> distinct (timeline_ids t) \<and> set (timeline_ids t) \<inter> ids = {} \<and>
      (\<exists>ids'. loopR (validate_timeline p) ts (set (timeline_ids t) \<union> ids) = Inr ids')"
    by (auto simp: bindR_Inr_iff validate_timeline_ok register_ids)
  then show ?case unfolding Cons.IH by (auto simp del: set_concat)
qed simp

lemma valid_project_iff:
  "valid_project p \<longleftrightarrow>
     IsValidUlid (prj_id p) \<and> prj_name p \<noteq> [] \<and> ActiveTimeline p \<noteq> None \<and> placements_ok p \<and> metadata_ok p \<and>
     distinct (project_ids p) \<and> (\<forall>t \<in> set (prj_timelines p). valid (timeline_document p t))"
proof -
  have e: "ActiveTimeline p \<noteq> None \<Longrightarrow> prj_timelines p \<noteq> []" by (auto simp: ActiveTimeline_def FindTimeline_def)
  have "valid_project p \<longleftrightarrow>
     IsValidUlid (prj_id p) \<and> prj_name p \<noteq> [] \<and> ActiveTimeline p \<noteq> None \<and>
     loopR (check_placement p) (prj_timeline_bin_ids p) () = Inr () \<and> loopR (check_metadata p) (prj_bin_metadata p) () = Inr () \<and>
     distinct (shared_ids p) \<and> (\<exists>ids'. loopR (validate_timeline p) (prj_timelines p) (set (shared_ids p)) = Inr ids')"
    using e by (auto simp: Project_Validate_def bindR_Inr_iff register_shared_ids_iff)
  then show ?thesis
    unfolding placements_iff metadata_iff timelines_iff by (auto simp: project_ids_def simp del: set_concat)
qed

lemma valid_snapshot: "valid_project p \<Longrightarrow> t \<in> set (prj_timelines p) \<Longrightarrow> valid (timeline_document p t)"
  by (simp add: valid_project_iff)

section \<open>Commit\<close>

lemma update_timeline_ids:
  assumes "seq_id s = i"
  shows "map seq_id (update_first (\<lambda>t. seq_id t = i) (\<lambda>_. s) ts) = map seq_id ts"
  using assms by (induction ts) auto

lemma find_update_timeline:
  assumes "seq_id s = i"
  shows "List.find (\<lambda>t. seq_id t = j) (update_first (\<lambda>t. seq_id t = i) (\<lambda>_. s) ts) =
    (if j = i \<and> i \<in> seq_id ` set ts then Some s else List.find (\<lambda>t. seq_id t = j) ts)"
  using assms by (induction ts) auto

lemma valid_version: "valid d \<Longrightarrow> doc_version d = 7"
  by (auto simp: Validate_def Let_def validate_header_def bindR_Inr_iff)

text \<open>What an accepted commit gives.\<close>

definition committed :: "Project \<Rightarrow> Ulid \<Rightarrow> Document \<Rightarrow> Project" where
  "committed p i d =
     p\<lparr>prj_timelines := update_first (\<lambda>t. seq_id t = i) (\<lambda>_. doc_sequence d) (prj_timelines p),
       prj_settings := (prj_settings p)\<lparr>ps_color_management := doc_color_management d\<rparr>,
       prj_rushes := doc_library d, prj_bins := doc_bins d, prj_sources := doc_sources d\<rparr>"

lemma CommitDocument_committed:
  "FindTimeline p i = Some t \<Longrightarrow> seq_id (doc_sequence d) = seq_id t \<Longrightarrow>
   CommitDocument p i d = bindR (Validate d) (\<lambda>_. bindR (Project_Validate (committed p i d)) (\<lambda>_. Inr (committed p i d)))"
  by (simp add: CommitDocument_def committed_def Let_def)

lemma CommitDocument_iff:
  "CommitDocument p i d = Inr p' \<longleftrightarrow>
     valid d \<and> i \<in> seq_id ` set (prj_timelines p) \<and> seq_id (doc_sequence d) = i \<and> p' = committed p i d \<and> valid_project p'"
proof (cases "FindTimeline p i")
  case None
  then show ?thesis using FindTimeline_None [of p i] by (simp add: CommitDocument_def bindR_Inr_iff)
next
  case (Some t)
  then show ?thesis using FindTimeline_Some [OF Some]
    by (auto simp: CommitDocument_def bindR_Inr_iff Let_def committed_def)
qed

lemma document_of_snapshot:
  "doc_version d = 7 \<Longrightarrow> prj_color p = doc_color_management d \<Longrightarrow> prj_rushes p = doc_library d \<Longrightarrow> prj_bins p = doc_bins d \<Longrightarrow>
   prj_sources p = doc_sources d \<Longrightarrow> timeline_document p (doc_sequence d) = d"
  by (simp add: timeline_document_def)

lemma find_committed:
  assumes "seq_id (doc_sequence d) = i" and "i \<in> seq_id ` set (prj_timelines p)"
  shows "FindTimeline (committed p i d) j = (if j = i then Some (doc_sequence d) else FindTimeline p j)"
  using assms by (simp add: FindTimeline_def committed_def find_update_timeline)

lemma committed_snapshot: "FindTimeline p i = Some t \<Longrightarrow> committed p i (timeline_document p t) = p"
proof -
  assume t: "FindTimeline p i = Some t"
  have "update_first (\<lambda>t. seq_id t = i) (\<lambda>_. t) (prj_timelines p) = prj_timelines p"
    by (rule update_first_id) (use t in \<open>auto simp: FindTimeline_def\<close>)
  then show ?thesis by (simp add: committed_def)
qed

lemma committed_twice:
  assumes "seq_id (doc_sequence d) = i" and "seq_id (doc_sequence d') = i"
  shows "committed (committed p i d) i d' = committed p i d'"
proof -
  have "update_first (\<lambda>t. seq_id t = i) (\<lambda>_. s') (update_first (\<lambda>t. seq_id t = i) (\<lambda>_. s) ts) =
      update_first (\<lambda>t. seq_id t = i) (\<lambda>_. s') ts" if "seq_id s = i" for s s' :: DocumentSequence and ts
    using that by (induction ts) auto
  then show ?thesis using assms by (simp add: committed_def)
qed

section \<open>A sample project\<close>

definition sample_project :: Project where
  "sample_project = FromDocument sample_doc ''Film''"

lemma sample_project_valid: "valid_project sample_project"
  by code_simp

section \<open>Properties\<close>

text \<open>
  Property C8: for every accepted commit, the snapshot of a timeline and its commit obey the laws
  of a view.  What is committed is what is read back, committing what was read changes nothing, a
  second commit replaces the first, and the other timelines keep their tracks and only follow the
  shared data.
\<close>

theorem commit_and_snapshot_form_a_view:
  assumes "CommitDocument p i d = Inr p'"
  shows "valid_project p' \<and> MakeDocument p' g i = d \<and> CommitDocument p' i (MakeDocument p' g i) = Inr p' \<and>
    (\<forall>j. j \<noteq> i \<longrightarrow> MakeDocument p' g j = d\<lparr>doc_sequence := doc_sequence (MakeDocument p g j)\<rparr>) \<and>
    (\<forall>d'. seq_id (doc_sequence d') = i \<longrightarrow> CommitDocument p' i d' = CommitDocument p i d')"
proof -
  have c: "valid d" "i \<in> seq_id ` set (prj_timelines p)" "seq_id (doc_sequence d) = i" "p' = committed p i d" "valid_project p'"
    using assms by (auto simp: CommitDocument_iff)
  have f: "FindTimeline p' j = (if j = i then Some (doc_sequence d) else FindTimeline p j)" for j
    unfolding c(4) by (rule find_committed [OF c(3,2)])
  have s: "timeline_document p' t = d\<lparr>doc_sequence := t\<rparr>" for t
    using valid_version [OF c(1)] by (simp add: timeline_document_def c(4) committed_def)
  have m: "MakeDocument p' g i = d" by (simp add: MakeDocument_def f s)
  have i': "i \<in> seq_id ` set (prj_timelines p')" using f [of i] FindTimeline_None [of p' i] by auto
  have "CommitDocument p' i d = Inr p'"
    unfolding CommitDocument_iff using c i' committed_snapshot [of p' i "doc_sequence d"] f [of i] s [of "doc_sequence d"] by simp
  moreover have "CommitDocument p' i d' = CommitDocument p i d'" if "seq_id (doc_sequence d') = i" for d'
  proof -
    obtain t where t: "FindTimeline p i = Some t" using FindTimeline_None [of p i] c(2) by auto
    have t': "FindTimeline p' i = Some (doc_sequence d)" using f [of i] by simp
    show ?thesis
      using CommitDocument_committed [OF t, of d'] CommitDocument_committed [OF t', of d'] FindTimeline_Some [OF t]
        committed_twice [OF c(3) that, of p] c(3,4) that by simp
  qed
  moreover have "MakeDocument p' g j = d\<lparr>doc_sequence := doc_sequence (MakeDocument p g j)\<rparr>" if "j \<noteq> i" for j
    using that by (simp add: MakeDocument_def f s)
  ultimately show ?thesis using c(5) m by simp
qed

lemma commit_and_snapshot_form_a_view_witness:
  "MakeDocument sample_project [] (seq_id (doc_sequence sample_doc)) = sample_doc"
proof -
  let ?t = "doc_sequence sample_doc"
  have f: "FindTimeline sample_project (seq_id ?t) = Some ?t" by (simp add: FindTimeline_def sample_project_def FromDocument_def)
  have s: "timeline_document sample_project ?t = sample_doc"
    using valid_version [OF sample_doc_valid] by (simp add: timeline_document_def sample_project_def FromDocument_def)
  have "CommitDocument sample_project (seq_id ?t) sample_doc = Inr sample_project"
    unfolding CommitDocument_iff
    using sample_doc_valid sample_project_valid committed_snapshot [OF f] FindTimeline_Some [OF f] s by auto
  from commit_and_snapshot_form_a_view [OF this] show ?thesis by blast
qed

end
