(* ===== verification/Project_Roundtrip.thy ===== *)
theory Project_Roundtrip
  imports Project_Text Project_Laws Document_Loaded
begin

text \<open>
  A project survives its file: the text that \<open>SaveToString\<close> writes for a valid project within the
  ranges of its members is loaded as exactly that project, and every loaded project is one.
\<close>

section \<open>Entries\<close>

lemma project_keys [denoting]:
  "plain_key ''item_id''" "plain_key ''description''" "plain_key ''rating''" "plain_key ''tags''" "plain_key ''insert_order''"
  "plain_key ''display_name''" "plain_key ''timeline_id''" "plain_key ''project_format''" "plain_key ''project_version''"
  "plain_key ''active_timeline_id''" "plain_key ''timeline_snapshots''" "plain_key ''bin_metadata''" "plain_key ''timeline_bin_ids''"
  by code_simp+

lemma denotes_commas [denoting]:
  "(\<And>x. x \<in> set xs \<Longrightarrow> denotes (w x) (val x)) \<Longrightarrow> denotes (jcommas w xs) (JvArray (map val xs))"
  using denotes_array [of "[]" "[]" "[]" xs w val] by (simp add: jcommas_def item_texts_def denoting cong: list.case_cong)

definition metadata_entries :: "Ulid \<times> ProjectBinMetadata \<Rightarrow> (string \<times> JsonValue) list" where
  "metadata_entries e =
     [(''item_id'', JvString (fst e)), (''description'', JvString (pm_description (snd e))),
      (''rating'', JvNumber (pm_rating (snd e))), (''tags'', JvArray (map JvString (pm_tags (snd e)))),
      (''insert_order'', JvNumber (pm_insert_order (snd e))), (''display_name'', JvString (pm_display_name (snd e)))]"

definition metadata_value :: "Ulid \<times> ProjectBinMetadata \<Rightarrow> JsonValue" where
  "metadata_value e = obj (metadata_entries e)"

definition metadata_saved :: "Ulid \<times> ProjectBinMetadata \<Rightarrow> bool" where
  "metadata_saved e \<longleftrightarrow>
     0 \<le> pm_rating (snd e) \<and> in_int32 (pm_rating (snd e)) \<and> 0 \<le> pm_insert_order (snd e) \<and> in_int64 (pm_insert_order (snd e))"

lemma tags_back: "load_tags context i (map JvString tags) = Inr tags"
  by (induction tags arbitrary: i) simp_all

lemma metadata_distinct [accessors]: "distinct (map fst (metadata_entries e))"
  by (simp add: metadata_entries_def denoting)

lemmas metadata_lookup = arg_cong [OF metadata_entries_def, of map_of]

interpretation metadata_item: saved_item save_metadata_entry metadata_value load_metadata_entry metadata_saved
proof unfold_locales
  fix x :: "Ulid \<times> ProjectBinMetadata" and place
  assume "metadata_saved x"
  then show "denotes (save_metadata_entry x) (metadata_value x)"
    by (simp add: metadata_saved_def save_metadata_entry_def metadata_value_def metadata_entries_def object_jfirst denoting int32_int64)
next
  fix x :: "Ulid \<times> ProjectBinMetadata" and place
  assume "metadata_saved x"
  then show "load_metadata_entry (metadata_value x) place = Inr x"
    by (simp add: metadata_saved_def load_metadata_entry_def metadata_value_def metadata_lookup reading accessors denoting tags_back prod_eq_iff)
qed

definition placement_entries :: "Ulid \<times> Ulid \<Rightarrow> (string \<times> JsonValue) list" where
  "placement_entries e = [(''timeline_id'', JvString (fst e)), (''bin_id'', JvString (snd e))]"

definition placement_value :: "Ulid \<times> Ulid \<Rightarrow> JsonValue" where
  "placement_value e = obj (placement_entries e)"

definition placement_saved :: "Ulid \<times> Ulid \<Rightarrow> bool" where
  "placement_saved e \<longleftrightarrow> True"

lemma placement_distinct [accessors]: "distinct (map fst (placement_entries e))"
  by (simp add: placement_entries_def denoting)

lemmas placement_lookup = arg_cong [OF placement_entries_def, of map_of]

interpretation placement_item: saved_item save_placement placement_value load_placement placement_saved
proof unfold_locales
  fix x :: "Ulid \<times> Ulid" and place
  show "denotes (save_placement x) (placement_value x)"
    by (simp add: save_placement_def placement_value_def placement_entries_def object_jfirst denoting)
  show "load_placement (placement_value x) place = Inr x"
    by (simp add: load_placement_def placement_value_def placement_lookup reading accessors denoting)
qed

text \<open>A map that is written in key order is emplaced entry by entry.\<close>

definition sorted_map :: "(string \<times> 'v) list \<Rightarrow> bool" where
  "sorted_map m \<longleftrightarrow> sorted_wrt string_less (map fst m)"

lemma string_less_irrefl: "\<not> string_less x x"
  by (induction x) simp_all

lemma sorted_map_distinct: "sorted_map m \<Longrightarrow> distinct (map fst m)"
  unfolding sorted_map_def by (induction m) (auto simp: string_less_irrefl)

lemma load_entries_back:
  assumes "\<And>e context. e \<in> set es \<Longrightarrow> r (val e) context = Inr e" and "fst ` set m \<inter> fst ` set es = {}" and "distinct (map fst es)"
  shows "load_entries r name duplicate i m (map val es) = Inr (foldl (\<lambda>m e. emplace e m) m es)"
  using assms
proof (induction es arbitrary: m i)
  case (Cons e es)
  have "load_entries r name duplicate (Suc i) (emplace e m) (map val es) = Inr (foldl (\<lambda>m e. emplace e m) (emplace e m) es)"
    by (rule Cons.IH) (use Cons.prems in \<open>auto simp: emplace_keys\<close>)
  then show ?case using Cons.prems by auto
qed simp

lemma load_sorted_back:
  assumes "\<And>e context. e \<in> set es \<Longrightarrow> r (val e) context = Inr e" and "sorted_map es"
  shows "load_entries r name duplicate i [] (map val es) = Inr es"
  using load_entries_back [OF assms(1), of es "[]"] sorted_map_distinct [OF assms(2)] assms(2) emplace_sorted [of "[]" es]
  by (simp add: sorted_map_def)

section \<open>Snapshots\<close>

definition project_saved :: "Project \<Rightarrow> bool" where
  "project_saved p \<longleftrightarrow>
     list_all (\<lambda>t. document_saved (timeline_document p t)) (prj_timelines p) \<and>
     list_all metadata_saved (prj_bin_metadata p) \<and> sorted_map (prj_bin_metadata p) \<and> sorted_map (prj_timeline_bin_ids p)"

definition snapshot_value :: "Project \<Rightarrow> DocumentSequence \<Rightarrow> JsonValue" where
  "snapshot_value p t = JvString (Document_SaveToString (timeline_document p t))"

lemma snapshot_back:
  "document_saved (timeline_document p t) \<Longrightarrow> valid (timeline_document p t) \<Longrightarrow> load_snapshot i (snapshot_value p t) = Inr (timeline_document p t)"
  by (simp add: load_snapshot_def snapshot_value_def Load_Save)

lemma snapshots_back:
  assumes "list_all (\<lambda>t. document_saved (timeline_document p t) \<and> valid (timeline_document p t)) ts"
  shows "load_snapshots (timeline_document p s) i (map (snapshot_value p) ts) = Inr ts"
  using assms
proof (induction ts arbitrary: i)
  case (Cons t ts)
  have "shares_data (timeline_document p s) (timeline_document p t)" by (simp add: shares_data_def timeline_document_def)
  then show ?case using Cons by (simp add: snapshot_back)
qed simp

section \<open>The project\<close>

definition project_entries :: "Project \<Rightarrow> (string \<times> JsonValue) list" where
  "project_entries p =
     [(''project_format'', JvString ''cutmachine-project''), (''project_version'', JvNumber 2), (''id'', JvString (prj_id p)),
      (''name'', JvString (prj_name p)), (''active_timeline_id'', JvString (prj_active_timeline_id p)),
      (''timeline_snapshots'', JvArray (map (snapshot_value p) (prj_timelines p))),
      (''bin_metadata'', JvArray (map metadata_value (prj_bin_metadata p))),
      (''timeline_bin_ids'', JvArray (map placement_value (prj_timeline_bin_ids p)))]"

definition project_value :: "Project \<Rightarrow> JsonValue" where
  "project_value p = obj (project_entries p)"

lemma project_distinct [accessors]: "distinct (map fst (project_entries p))"
  by (simp add: project_entries_def denoting)

lemmas project_lookup = arg_cong [OF project_entries_def, of map_of]

lemma project_text:
  assumes "project_saved p"
  shows "JsonParser_Parse (Project_SaveToString p) = Inr (project_value p)"
proof -
  have s: "denotes (jlist ''    '' (line_end ts @ ''  '') (save_snapshot p) ts) (JvArray (map (snapshot_value p) ts))" for ts
    unfolding jlist_def by (rule denotes_lines) (simp_all add: save_snapshot_def snapshot_value_def denoting)
  have f: "value_text (CHR 0x22 # ''cutmachine-project'' @ [CHR 0x22]) (JvString ''cutmachine-project'')"
  proof -
    have "Escape ''cutmachine-project'' = ''cutmachine-project''" by code_simp
    then show ?thesis using value_text_intros(1) [OF denotes_text [of "''cutmachine-project''"]] by (simp add: jtext_def)
  qed
  have v: "denotes ''2'' (JvNumber 2)"
  proof -
    have "to_string 2 = ''2''" by code_simp
    then show ?thesis using denotes_number [of 2] by (simp add: in_int64_def int64_min_def int64_max_def)
  qed
  have l: "list_all placement_saved (prj_timeline_bin_ids p)" by (simp add: list_all_iff placement_saved_def)
  have "denotes (CHR ''{'' # (newline @ ''  '') @ jkey ''project_format'' @ (CHR 0x22 # ''cutmachine-project'' @ [CHR 0x22]) @
     (jline ''project_version'' ''2'' @ jline ''id'' (jtext (prj_id p)) @ jline ''name'' (jtext (prj_name p)) @
     jline ''active_timeline_id'' (jtext (prj_active_timeline_id p)) @
     jline ''timeline_snapshots'' (jlist ''    '' (line_end (prj_timelines p) @ ''  '') (save_snapshot p) (prj_timelines p)) @
     jline ''bin_metadata'' (jlist ''    '' (line_end (prj_bin_metadata p) @ ''  '') save_metadata_entry (prj_bin_metadata p)) @
     jline ''timeline_bin_ids''
       (jlist ''    '' (line_end (prj_timeline_bin_ids p) @ ''  '') save_placement (prj_timeline_bin_ids p)) @
     newline @ ''}'')) (project_value p)"
    unfolding project_value_def project_entries_def
    by (intro object_jkey) (use assms s f v l in \<open>simp_all add: project_saved_def denoting\<close>)
  from Parse_denotes [OF this, of newline] show ?thesis by (simp add: Project_SaveToString_def denoting)
qed

lemma project_back:
  assumes "project_saved p" and "valid_project p"
  shows "load_project (project_value p) = Inr p"
proof -
  have v: "in_int32 2" by (simp add: in_int32_def int32_min_def int32_max_def)
  have "prj_timelines p \<noteq> []" using assms(2) by (auto simp: Project_Validate_def)
  then obtain t ts where t: "prj_timelines p = t # ts" by (cases "prj_timelines p") auto
  have d: "list_all (\<lambda>t. document_saved (timeline_document p t) \<and> valid (timeline_document p t)) (t # ts)"
    using assms valid_snapshot [OF assms(2)] by (auto simp: project_saved_def t list_all_iff)
  have m: "load_entries load_metadata_entry name dup 0 [] (map metadata_value (prj_bin_metadata p)) = Inr (prj_bin_metadata p)"
    "load_entries load_placement name dup 0 [] (map placement_value (prj_timeline_bin_ids p)) = Inr (prj_timeline_bin_ids p)" for name dup
    by (rule load_sorted_back; use assms(1) in \<open>auto simp: project_saved_def list_all_iff placement_saved_def
      intro: metadata_item.loaded placement_item.loaded\<close>)+
  show ?thesis
    using d snapshots_back [of p ts t 1] unfolding load_project_def
    by (simp add: project_value_def project_lookup optional_entries_def reading accessors denoting v t m snapshot_back)
qed

lemma Project_Load_Save:
  assumes "project_saved p" and "valid_project p"
  shows "Project_LoadFromString (Project_SaveToString p) = Inr p"
  using assms by (simp add: Project_LoadFromString_def project_text project_back)

section \<open>Loaded projects\<close>

lemma emplace_sorted_map: "sorted_map m \<Longrightarrow> sorted_map (emplace e m)"
proof (induction m)
  case (Cons q m)
  have "string_less (fst q) x" if "string_less (fst q) (fst e)" "x \<in> fst ` set (emplace e m)" for x
    using that Cons.prems by (auto simp: emplace_keys sorted_map_def)
  moreover have "string_less (fst q) (fst e)" if "fst e \<noteq> fst q" "\<not> string_less (fst e) (fst q)"
    using that by (rule string_less_total)
  moreover have "string_less (fst e) x" if "string_less (fst e) (fst q)" "string_less (fst q) x" for x
    using that by (rule string_less_trans)
  ultimately show ?case using Cons by (auto simp: sorted_map_def)
qed (simp add: sorted_map_def)

lemma load_entries_sorted: "load_entries r name dup i m vs = Inr m' \<Longrightarrow> sorted_map m \<Longrightarrow> sorted_map m'"
proof (induction vs arbitrary: i m)
  case (Cons v vs)
  then obtain e where "load_entries r name dup (Suc i) (emplace e m) vs = Inr m'" by (auto split: if_splits)
  then show ?case by (rule Cons.IH) (rule emplace_sorted_map [OF Cons.prems(2)])
qed simp

lemma emplace_all: "P e \<Longrightarrow> list_all P m \<Longrightarrow> list_all P (emplace e m)"
  by (induction m) auto

lemma load_entries_all:
  assumes "\<And>v context e. r v context = Inr e \<Longrightarrow> jv_ok v \<Longrightarrow> ok e"
  shows "list_all jv_ok vs \<Longrightarrow> list_all ok m \<Longrightarrow> load_entries r name dup i m vs = Inr m' \<Longrightarrow> list_all ok m'"
proof (induction vs arbitrary: i m)
  case (Cons v vs)
  from Cons.prems(3) obtain e where e: "r v (name @ ''['' @ to_string (int i) @ '']'') = Inr e"
    "load_entries r name dup (Suc i) (emplace e m) vs = Inr m'" by (auto split: if_splits)
  have "ok e" by (rule assms [OF e(1)]) (use Cons.prems(1) in simp)
  then have "list_all ok (emplace e m)" by (rule emplace_all) (rule Cons.prems(2))
  then show ?case by (rule Cons.IH [rotated]) (use e(2) Cons.prems(1) in simp_all)
qed simp

lemma optional_entries_ok:
  assumes "optional_entries v k dup r = Inr m" and "jv_ok v" and "\<And>v context e. r v context = Inr e \<Longrightarrow> jv_ok v \<Longrightarrow> ok e"
  shows "sorted_map m \<and> list_all ok m"
proof -
  have e: "sorted_map ([] :: (string \<times> 'b) list)" by (simp add: sorted_map_def)
  have l: "sorted_map m \<and> list_all ok m" if "load_entries r name dup 0 [] (jv_array w) = Inr m" "jv_ok w" for name w
    using load_entries_sorted [OF that(1) e] load_entries_all [OF assms(3) jv_ok_parts(2) [OF that(2)] _ that(1)] by simp
  obtain found where f: "Optional v k TypeArray ''project'' = Inr found"
    "(case found of None \<Rightarrow> Inr [] | Some v \<Rightarrow> load_entries r (''project.'' @ k) dup 0 [] (jv_array v)) = Inr m"
    using assms(1) by (auto simp: optional_entries_def)
  then show ?thesis
  proof (cases found)
    case (Some w)
    then show ?thesis using f l assms(2) Optional_ok by fastforce
  qed (use e in auto)
qed

lemma loaded_metadata_entry: "load_metadata_entry v context = Inr e \<Longrightarrow> jv_ok v \<Longrightarrow> metadata_saved e"
  by (auto simp: load_metadata_entry_def metadata_saved_def reading optional_string_def jv_ok_parts(1) dest!: loads split: if_splits)

lemma loaded_snapshot:
  "load_snapshot i v = Inr d \<Longrightarrow> \<exists>json. Document_LoadFromString json = Inr d"
  by (auto simp: load_snapshot_def split: sum.splits if_splits)

lemma loaded_snapshots:
  "load_snapshots shared i vs = Inr ts \<Longrightarrow> t \<in> set ts \<Longrightarrow> \<exists>d json. Document_LoadFromString json = Inr d \<and> doc_sequence d = t"
proof (induction vs arbitrary: i ts)
  case (Cons v vs)
  then obtain d ts' where d: "load_snapshot i v = Inr d" "load_snapshots shared (Suc i) vs = Inr ts'" "ts = doc_sequence d # ts'"
    by (auto split: if_splits)
  show ?case using Cons.prems(2) d(3) loaded_snapshot [OF d(1)] Cons.IH [OF d(2)] by auto
qed simp

definition timelines_anchored :: "Project \<Rightarrow> bool" where
  "timelines_anchored p \<longleftrightarrow> list_all (\<lambda>t. anchored (timeline_document p t)) (prj_timelines p)"

lemma loaded_project:
  assumes "load_project v = Inr p" and "jv_ok v" and "timelines_anchored p"
  shows "project_saved p"
proof -
  obtain w vs shared ts i where l: "load_snapshot 0 w = Inr shared" "load_snapshots shared i vs = Inr ts"
    "prj_timelines p = doc_sequence shared # ts" "prj_rushes p = doc_library shared" "prj_sources p = doc_sources shared"
    "prj_color p = doc_color_management shared" "prj_bins p = doc_bins shared"
    "optional_entries v ''bin_metadata'' ''duplicate bin metadata for '' load_metadata_entry = Inr (prj_bin_metadata p)"
    "optional_entries v ''timeline_bin_ids'' ''duplicate timeline bin placement for '' load_placement = Inr (prj_timeline_bin_ids p)"
    using assms(1) by (auto simp: load_project_def require_string_def split: option.splits list.splits if_splits)
  have a: "anchored d" if "doc_sequence d \<in> set (prj_timelines p)" for d
    using assms(3) that by (auto simp: timelines_anchored_def list_all_iff anchored_def)
  obtain json where "Document_LoadFromString json = Inr shared" using loaded_snapshot [OF l(1)] by blast
  then have s: "document_saved shared" using loaded_is_saved(2) a [of shared] l(3) by auto
  have "sequence_saved t" if t: "t \<in> set (prj_timelines p)" for t
  proof (cases "t = doc_sequence shared")
    case False
    then obtain d json where d: "Document_LoadFromString json = Inr d" "doc_sequence d = t"
      using loaded_snapshots [OF l(2)] t l(3) by (metis set_ConsD)
    then have "document_saved d" using loaded_is_saved(2) a [of d] t by blast
    then show ?thesis using d(2) by (auto simp: document_saved_def)
  qed (use s in \<open>simp add: document_saved_def\<close>)
  then have "document_saved (timeline_document p t)" if "t \<in> set (prj_timelines p)" for t
    using s that l(4,5) by (simp add: document_saved_def)
  moreover have "sorted_map (prj_bin_metadata p) \<and> list_all metadata_saved (prj_bin_metadata p)"
    by (rule optional_entries_ok [OF l(8) assms(2) loaded_metadata_entry])
  moreover have "sorted_map (prj_timeline_bin_ids p) \<and> list_all placement_saved (prj_timeline_bin_ids p)"
    by (rule optional_entries_ok [OF l(9) assms(2)]) (simp add: placement_saved_def)
  ultimately show ?thesis by (simp add: project_saved_def list_all_iff)
qed

lemma loaded_project_saved:
  assumes "Project_LoadFromString json = Inr p" and "timelines_anchored p"
  shows "valid_project p" and "project_saved p"
proof -
  obtain v where "JsonParser_Parse json = Inr v" "load_project v = Inr p" "valid_project p"
    using assms(1) by (auto simp: Project_LoadFromString_def split: sum.splits)
  then show "valid_project p" "project_saved p" using loaded_project [OF _ JsonParser_ok assms(2)] by auto
qed

section \<open>Properties\<close>

text \<open>
  Property C7: a project survives its file.  The text written for a valid project with
  \<open>project_saved\<close> (numbers within their members, defaults in what the file leaves out) is loaded as
  exactly that project: every timeline, the data they share, the metadata of the bin and the
  places of the timelines in it.  And whatever text is accepted gives such a project, so that
  loading is stable, unless a clip without anchor has a synchronisation delta (\<open>timelines_anchored\<close>).
\<close>

theorem project_file_round_trip:
  assumes "project_saved p \<and> valid_project p \<or> Project_LoadFromString json = Inr p \<and> timelines_anchored p"
  shows "project_saved p \<and> valid_project p \<and> Project_LoadFromString (Project_SaveToString p) = Inr p"
  using assms Project_Load_Save loaded_project_saved by blast

lemma sample_project_saved: "project_saved sample_project"
proof -
  have "timeline_document sample_project (doc_sequence sample_doc) = sample_doc"
    using valid_version [OF sample_doc_valid] by (simp add: timeline_document_def sample_project_def FromDocument_def)
  then show ?thesis using sample_doc_saved
    by (simp add: project_saved_def sample_project_def FromDocument_def sorted_map_def)
qed

lemma project_file_round_trip_witness:
  "Project_LoadFromString (Project_SaveToString sample_project) = Inr sample_project"
  using project_file_round_trip [of sample_project] sample_project_saved sample_project_valid by blast

end
