(* ===== verification/Project_Operations.thy ===== *)
theory Project_Operations
  imports Project_Roundtrip Operation_Core
begin

text \<open>
  The operations on projects, \<open>src/Operations.h\<close> and \<open>ApplyProjectOperation\<close> of
  \<open>src/Operations.cc\<close>.  An operation that carries an exact state restores the project from that
  text; any other is applied to a copy of the project, which must then be valid.  The inverse is
  the operation with the text of the old project as its exact state, the logged operation has
  the text of the new one.  An exception of the time arithmetic leaves the function.
\<close>

section \<open>The operations\<close>

record ExactProjectState =
  eps_canonical_json :: string

record AddProjectTimelineOperation =
  apt_name :: string
  apt_width :: int
  apt_height :: int
  apt_frame_rate :: MediaRate
  apt_timeline_id :: Ulid
  apt_video_track_id :: Ulid
  apt_audio_track_id :: Ulid
  apt_exact :: "ExactProjectState option"

record ProjectTimelineSourceSegment =
  seg_source_id :: Ulid
  seg_source_in :: RationalTime
  seg_duration :: RationalTime
  seg_video_clip_id :: Ulid
  seg_audio_clip_id :: Ulid
  seg_link_group_id :: Ulid

record CreateProjectTimelineFromSegmentsOperation =
  cpt_name :: string
  cpt_width :: int
  cpt_height :: int
  cpt_frame_rate :: MediaRate
  cpt_segments :: "ProjectTimelineSourceSegment list"
  cpt_timeline_id :: Ulid
  cpt_video_track_id :: Ulid
  cpt_audio_track_id :: Ulid
  cpt_make_active :: bool
  cpt_exact :: "ExactProjectState option"

record RemoveProjectTimelineOperation =
  rpt_timeline_id :: Ulid
  rpt_exact :: "ExactProjectState option"

record SetProjectBinMetadataOperation =
  spm_item_id :: Ulid
  spm_metadata :: ProjectBinMetadata
  spm_exact :: "ExactProjectState option"

record SetProjectTimelineBinOperation =
  spb_timeline_id :: Ulid
  spb_bin_id :: Ulid
  spb_exact :: "ExactProjectState option"

record RenameProjectItemOperation =
  rpi_item_id :: Ulid
  rpi_name :: string
  rpi_exact :: "ExactProjectState option"

record ProjectRelinkItem =
  pri_media_id :: Ulid
  pri_replacement :: LibraryMedia
  pri_stored_path :: string

record SetActiveProjectTimelineOperation =
  sap_timeline_id :: Ulid
  sap_exact :: "ExactProjectState option"

record RelinkProjectMediaOperation =
  rpm_replacements :: "ProjectRelinkItem list"
  rpm_exact :: "ExactProjectState option"

datatype (plugins only: code) ProjectOperation =
    AddProjectTimeline AddProjectTimelineOperation
  | CreateProjectTimelineFromSegments CreateProjectTimelineFromSegmentsOperation
  | RemoveProjectTimeline RemoveProjectTimelineOperation
  | SetProjectBinMetadata SetProjectBinMetadataOperation
  | SetProjectTimelineBin SetProjectTimelineBinOperation
  | RenameProjectItem RenameProjectItemOperation
  | SetActiveProjectTimeline SetActiveProjectTimelineOperation
  | RelinkProjectMedia RelinkProjectMediaOperation

fun exact_project_result :: "ProjectOperation \<Rightarrow> ExactProjectState option" where
  "exact_project_result (AddProjectTimeline v) = apt_exact v"
| "exact_project_result (CreateProjectTimelineFromSegments v) = cpt_exact v"
| "exact_project_result (RemoveProjectTimeline v) = rpt_exact v"
| "exact_project_result (SetProjectBinMetadata v) = spm_exact v"
| "exact_project_result (SetProjectTimelineBin v) = spb_exact v"
| "exact_project_result (RenameProjectItem v) = rpi_exact v"
| "exact_project_result (SetActiveProjectTimeline v) = sap_exact v"
| "exact_project_result (RelinkProjectMedia v) = rpm_exact v"

fun SetExactProject :: "ProjectOperation \<Rightarrow> string \<Rightarrow> ProjectOperation" where
  "SetExactProject (AddProjectTimeline v) json = AddProjectTimeline (v\<lparr>apt_exact := Some \<lparr>eps_canonical_json = json\<rparr>\<rparr>)"
| "SetExactProject (CreateProjectTimelineFromSegments v) json =
     CreateProjectTimelineFromSegments (v\<lparr>cpt_exact := Some \<lparr>eps_canonical_json = json\<rparr>\<rparr>)"
| "SetExactProject (RemoveProjectTimeline v) json = RemoveProjectTimeline (v\<lparr>rpt_exact := Some \<lparr>eps_canonical_json = json\<rparr>\<rparr>)"
| "SetExactProject (SetProjectBinMetadata v) json = SetProjectBinMetadata (v\<lparr>spm_exact := Some \<lparr>eps_canonical_json = json\<rparr>\<rparr>)"
| "SetExactProject (SetProjectTimelineBin v) json = SetProjectTimelineBin (v\<lparr>spb_exact := Some \<lparr>eps_canonical_json = json\<rparr>\<rparr>)"
| "SetExactProject (RenameProjectItem v) json = RenameProjectItem (v\<lparr>rpi_exact := Some \<lparr>eps_canonical_json = json\<rparr>\<rparr>)"
| "SetExactProject (SetActiveProjectTimeline v) json = SetActiveProjectTimeline (v\<lparr>sap_exact := Some \<lparr>eps_canonical_json = json\<rparr>\<rparr>)"
| "SetExactProject (RelinkProjectMedia v) json = RelinkProjectMedia (v\<lparr>rpm_exact := Some \<lparr>eps_canonical_json = json\<rparr>\<rparr>)"

section \<open>Adding timelines\<close>

definition throwing :: "string + 'a \<Rightarrow> ('a \<Rightarrow> 'b result) \<Rightarrow> 'b result" where
  "throwing r k = (case r of Inl what \<Rightarrow> Inl (Throws what) | Inr x \<Rightarrow> k x)"

definition given_or_fresh :: "Ulid \<Rightarrow> id_supply \<Rightarrow> Ulid \<times> id_supply" where
  "given_or_fresh i g = (if i = [] then Ulid.fresh g else (i, g))"

definition project_track :: "Ulid \<Rightarrow> string \<Rightarrow> int \<Rightarrow> DocumentClip list \<Rightarrow> DocumentTrack" where
  "project_track i kind index clips =
     \<lparr>trk_id = i, trk_kind = kind, trk_index = index, trk_clips = clips, trk_locked = False, trk_sync_lock = True,
      trk_visible = True, trk_muted = False, trk_solo = False\<rparr>"

definition project_timeline :: "Ulid \<Rightarrow> string \<Rightarrow> int \<Rightarrow> int \<Rightarrow> MediaRate \<Rightarrow> DocumentTrack list \<Rightarrow> DocumentSequence" where
  "project_timeline i name width height rate tracks =
     (default_sequence i)\<lparr>seq_name := name, seq_width := width, seq_height := height, seq_frame_rate := rate,
       seq_tracks := tracks\<rparr>"

definition invalid_timeline_ids :: "Project \<Rightarrow> Ulid \<Rightarrow> Ulid \<Rightarrow> Ulid \<Rightarrow> bool" where
  "invalid_timeline_ids p t v a \<longleftrightarrow>
     \<not> IsValidUlid t \<or> \<not> IsValidUlid v \<or> \<not> IsValidUlid a \<or> FindTimeline p t \<noteq> None"

definition apply_AddProjectTimeline ::
  "id_supply \<Rightarrow> Project \<Rightarrow> AddProjectTimelineOperation \<Rightarrow> ((Project \<times> AddProjectTimelineOperation) \<times> id_supply) result" where
  "apply_AddProjectTimeline g p v =
     (if apt_name v = [] \<or> apt_width v \<le> 0 \<or> apt_height v \<le> 0 \<or> mr_num (apt_frame_rate v) \<le> 0 \<or> mr_den (apt_frame_rate v) \<le> 0
      then reject InvalidOperation ''project timeline settings are invalid''
      else case given_or_fresh (apt_timeline_id v) g of (t, g1) \<Rightarrow>
        case given_or_fresh (apt_video_track_id v) g1 of (vt, g2) \<Rightarrow>
        case given_or_fresh (apt_audio_track_id v) g2 of (au, g3) \<Rightarrow>
        if invalid_timeline_ids p t vt au
        then reject DuplicateId ''project timeline operation contains duplicate IDs''
        else let timeline = project_timeline t (apt_name v) (apt_width v) (apt_height v) (apt_frame_rate v)
                              [project_track vt ''video'' 0 [], project_track au ''audio'' 1 []] in
          Inr ((p\<lparr>prj_timelines := prj_timelines p @ [timeline]\<rparr>,
                v\<lparr>apt_timeline_id := t, apt_video_track_id := vt, apt_audio_track_id := au\<rparr>), g3))"

text \<open>\<open>segments_state\<close> is what the loop over the segments builds up.\<close>

record segments_state =
  ss_segments :: "ProjectTimelineSourceSegment list"
  ss_video :: "DocumentClip list"
  ss_audio :: "DocumentClip list"
  ss_cursor :: RationalTime
  ss_ids :: "Ulid list"
  ss_supply :: id_supply

definition invalid_segment :: "Project \<Rightarrow> ProjectTimelineSourceSegment \<Rightarrow> string + bool" where
  "invalid_segment p s =
     (case List.find (\<lambda>x. src_id x = seg_source_id s) (prj_sources p) of
        None \<Rightarrow> Inr True
      | Some source \<Rightarrow>
          orR (rt_lt (seg_source_in s) (RT 0 1))
            (orR (bindR (rt_lt (RT 0 1) (seg_duration s)) (\<lambda>positive. Inr (\<not> positive)))
              (bindR (rt_add (seg_source_in s) (seg_duration s)) (\<lambda>finish. rt_lt (src_duration source) finish))))"

fun register_segment_ids :: "Ulid list \<Rightarrow> Ulid list \<Rightarrow> Ulid list result" where
  "register_segment_ids generated [] = Inr generated"
| "register_segment_ids generated (i # ids) =
     (if \<not> IsValidUlid i \<or> i \<in> set generated then reject DuplicateId ''project short contains duplicate clip IDs''
      else register_segment_ids (generated @ [i]) ids)"

definition add_segment :: "Project \<Rightarrow> ProjectTimelineSourceSegment \<Rightarrow> segments_state \<Rightarrow> segments_state result" where
  "add_segment p s st =
     throwing (invalid_segment p s) (\<lambda>invalid.
       if invalid then reject InvalidOperation ''project short contains an invalid source range''
       else case given_or_fresh (seg_video_clip_id s) (ss_supply st) of (vc, g1) \<Rightarrow>
         case given_or_fresh (seg_audio_clip_id s) g1 of (ac, g2) \<Rightarrow>
         case given_or_fresh (seg_link_group_id s) g2 of (lg, g3) \<Rightarrow>
         bindR (register_segment_ids (ss_ids st) [vc, ac, lg]) (\<lambda>ids.
           let videoClip = (new_clip vc (seg_source_id s) (seg_source_in s) (seg_duration s) (ss_cursor st))
                             \<lparr>clip_include_audio := False, clip_link_group_id := lg\<rparr>;
               audioClip = videoClip\<lparr>clip_id := ac\<rparr> in
           throwing (rt_add (ss_cursor st) (seg_duration s)) (\<lambda>cursor.
             Inr \<lparr>ss_segments = ss_segments st @
                    [s\<lparr>seg_video_clip_id := vc, seg_audio_clip_id := ac, seg_link_group_id := lg\<rparr>],
                  ss_video = ss_video st @ [videoClip], ss_audio = ss_audio st @ [audioClip], ss_cursor = cursor,
                  ss_ids = ids, ss_supply = g3\<rparr>)))"

definition apply_CreateProjectTimelineFromSegments ::
  "id_supply \<Rightarrow> Project \<Rightarrow> CreateProjectTimelineFromSegmentsOperation \<Rightarrow>
   ((Project \<times> CreateProjectTimelineFromSegmentsOperation) \<times> id_supply) result" where
  "apply_CreateProjectTimelineFromSegments g p v =
     (if cpt_name v = [] \<or> cpt_width v \<le> 0 \<or> cpt_height v \<le> 0 \<or> mr_num (cpt_frame_rate v) \<le> 0 \<or>
         mr_den (cpt_frame_rate v) \<le> 0 \<or> cpt_segments v = []
      then reject InvalidOperation ''project short timeline settings are invalid''
      else case given_or_fresh (cpt_timeline_id v) g of (t, g1) \<Rightarrow>
        case given_or_fresh (cpt_video_track_id v) g1 of (vt, g2) \<Rightarrow>
        case given_or_fresh (cpt_audio_track_id v) g2 of (au, g3) \<Rightarrow>
        if invalid_timeline_ids p t vt au
        then reject DuplicateId ''project short operation contains duplicate IDs''
        else bindR (loopR (add_segment p) (cpt_segments v)
            \<lparr>ss_segments = [], ss_video = [], ss_audio = [], ss_cursor = RT 0 (mr_num (cpt_frame_rate v)),
             ss_ids = [t, vt, au], ss_supply = g3\<rparr>) (\<lambda>st.
          let timeline = project_timeline t (cpt_name v) (cpt_width v) (cpt_height v) (cpt_frame_rate v)
                           [project_track vt ''video'' 0 (ss_video st), project_track au ''audio'' 1 (ss_audio st)];
              p' = p\<lparr>prj_timelines := prj_timelines p @ [timeline]\<rparr> in
          Inr ((if cpt_make_active v then p'\<lparr>prj_active_timeline_id := t\<rparr> else p',
                v\<lparr>cpt_segments := ss_segments st, cpt_timeline_id := t, cpt_video_track_id := vt, cpt_audio_track_id := au\<rparr>),
               ss_supply st)))"

section \<open>The other operations\<close>

definition erase_key :: "string \<Rightarrow> (string \<times> 'v) list \<Rightarrow> (string \<times> 'v) list" where
  "erase_key k m = filter (\<lambda>e. fst e \<noteq> k) m"

definition assign_key :: "string \<Rightarrow> 'v \<Rightarrow> (string \<times> 'v) list \<Rightarrow> (string \<times> 'v) list" where
  "assign_key k v m = emplace (k, v) (erase_key k m)"

definition apply_RemoveProjectTimeline :: "Project \<Rightarrow> RemoveProjectTimelineOperation \<Rightarrow> Project result" where
  "apply_RemoveProjectTimeline p v =
     (if FindTimeline p (rpt_timeline_id v) = None
      then reject UnknownSequence (''unknown project timeline_id '' @ quoted (rpt_timeline_id v))
      else if length (prj_timelines p) = 1
      then reject InvalidOperation ''a project must contain at least one timeline''
      else let left = remove_first (\<lambda>t. seq_id t = rpt_timeline_id v) (prj_timelines p) in
        Inr (p\<lparr>prj_timelines := left,
               prj_timeline_bin_ids := erase_key (rpt_timeline_id v) (prj_timeline_bin_ids p),
               prj_bin_metadata := erase_key (rpt_timeline_id v) (prj_bin_metadata p),
               prj_active_timeline_id :=
                 (if prj_active_timeline_id p = rpt_timeline_id v then seq_id (hd left) else prj_active_timeline_id p)\<rparr>))"

definition is_rush :: "Project \<Rightarrow> Ulid \<Rightarrow> bool" where
  "is_rush p i \<longleftrightarrow> list_ex (\<lambda>m. med_id m = i) (prj_rushes p)"

definition apply_SetProjectBinMetadata :: "Project \<Rightarrow> SetProjectBinMetadataOperation \<Rightarrow> Project result" where
  "apply_SetProjectBinMetadata p v =
     (if \<not> (FindTimeline p (spm_item_id v) \<noteq> None \<or> is_rush p (spm_item_id v))
      then reject UnknownMedia (''unknown project bin item '' @ quoted (spm_item_id v))
      else if pm_rating (spm_metadata v) > 5 then reject InvalidOperation ''project bin rating must be between 0 and 5''
      else Inr (p\<lparr>prj_bin_metadata := assign_key (spm_item_id v) (spm_metadata v) (prj_bin_metadata p)\<rparr>))"

definition apply_SetProjectTimelineBin :: "Project \<Rightarrow> SetProjectTimelineBinOperation \<Rightarrow> Project result" where
  "apply_SetProjectTimelineBin p v =
     (if FindTimeline p (spb_timeline_id v) = None
      then reject UnknownSequence (''unknown project timeline_id '' @ quoted (spb_timeline_id v))
      else if spb_bin_id v \<noteq> [] \<and> \<not> list_ex (\<lambda>b. bin_id b = spb_bin_id v) (prj_bins p)
      then reject UnknownBin (''unknown bin_id '' @ quoted (spb_bin_id v))
      else Inr (p\<lparr>prj_timeline_bin_ids :=
        (if spb_bin_id v = [] then erase_key (spb_timeline_id v) (prj_timeline_bin_ids p)
         else assign_key (spb_timeline_id v) (spb_bin_id v) (prj_timeline_bin_ids p))\<rparr>))"

definition initial_metadata :: ProjectBinMetadata where
  "initial_metadata = \<lparr>pm_description = [], pm_rating = 0, pm_tags = [], pm_insert_order = 0, pm_display_name = []\<rparr>"

definition apply_RenameProjectItem :: "Project \<Rightarrow> RenameProjectItemOperation \<Rightarrow> Project result" where
  "apply_RenameProjectItem p v =
     (if rpi_name v = [] \<or> length (rpi_name v) > 128
      then reject InvalidOperation ''project item name must contain between 1 and 128 bytes''
      else if FindTimeline p (rpi_item_id v) \<noteq> None
      then Inr (p\<lparr>prj_timelines :=
             update_first (\<lambda>t. seq_id t = rpi_item_id v) (\<lambda>t. t\<lparr>seq_name := rpi_name v\<rparr>) (prj_timelines p)\<rparr>)
      else if \<not> is_rush p (rpi_item_id v)
      then reject UnknownMedia (''unknown project item_id '' @ quoted (rpi_item_id v))
      else let entry = (case FindBinMetadata p (rpi_item_id v) of None \<Rightarrow> initial_metadata | Some e \<Rightarrow> e) in
        Inr (p\<lparr>prj_bin_metadata :=
               assign_key (rpi_item_id v) (entry\<lparr>pm_display_name := rpi_name v\<rparr>) (prj_bin_metadata p)\<rparr>))"

definition apply_SetActiveProjectTimeline :: "Project \<Rightarrow> SetActiveProjectTimelineOperation \<Rightarrow> Project result" where
  "apply_SetActiveProjectTimeline p v =
     (if FindTimeline p (sap_timeline_id v) = None
      then reject UnknownSequence (''unknown timeline_id '' @ quoted (sap_timeline_id v))
      else Inr (p\<lparr>prj_active_timeline_id := sap_timeline_id v\<rparr>))"

section \<open>Relinking\<close>

text \<open>The reason of a refusal, or nothing; the comparison of the durations may throw.\<close>

definition ValidateProjectRelinkCandidate :: "Project \<Rightarrow> ProjectRelinkItem \<Rightarrow> string + string option" where
  "ValidateProjectRelinkCandidate p item =
     (let replacement = pri_replacement item in
      case (List.find (\<lambda>m. med_id m = pri_media_id item) (prj_rushes p), List.find (\<lambda>s. src_id s = pri_media_id item) (prj_sources p)) of
        (Some media, Some source) \<Rightarrow>
          if pri_stored_path item = [] then Inr (Some ''replacement path is empty'')
          else if \<not> med_metadata_complete replacement \<or> med_has_video media \<and> \<not> med_has_video replacement \<or>
                  \<not> med_has_video media \<and> \<not> med_has_audio replacement
          then Inr (Some (if med_has_video media then ''replacement has no video for existing video media''
                          else ''replacement has no audio for existing audio media''))
          else if mr_num (med_rate replacement) * mr_den (src_rate source) \<noteq> mr_num (src_rate source) * mr_den (med_rate replacement)
          then Inr (Some ''replacement frame rate differs from the original'')
          else bindR (rt_lt (med_duration replacement) (src_duration source)) (\<lambda>shorter.
            if shorter then Inr (Some ''replacement is shorter than the original source'')
            else if list_ex (\<lambda>t. list_ex (\<lambda>k. trk_kind k = ''audio'' \<and>
                       list_ex (\<lambda>c. clip_source_id c = pri_media_id item) (trk_clips k)) (seq_tracks t)) (prj_timelines p) \<and>
                    \<not> med_has_audio replacement
            then Inr (Some ''replacement has no audio for existing audio clips'')
            else Inr None)
      | _ \<Rightarrow> Inr (Some ''unknown media or mounted source''))"

definition relink_item :: "ProjectRelinkItem \<Rightarrow> Ulid list \<times> Project \<Rightarrow> (Ulid list \<times> Project) result" where
  "relink_item item = (\<lambda>(seen, p).
     if pri_media_id item \<in> set seen then reject InvalidOperation ''relink batch contains duplicate media IDs''
     else throwing (ValidateProjectRelinkCandidate p item) (\<lambda>problem.
       case problem of
         Some what \<Rightarrow> reject InvalidOperation what
       | None \<Rightarrow>
           Inr (seen @ [pri_media_id item],
             p\<lparr>prj_rushes := update_first (\<lambda>m. med_id m = pri_media_id item)
                 (\<lambda>m. (pri_replacement item)\<lparr>med_id := pri_media_id item, med_path := pri_stored_path item,
                        med_bin_id := med_bin_id m, med_proxy_path := []\<rparr>) (prj_rushes p),
               prj_sources := update_first (\<lambda>s. src_id s = pri_media_id item)
                 (\<lambda>s. s\<lparr>src_id := pri_media_id item, src_path := pri_stored_path item, src_rate := med_rate (pri_replacement item),
                        src_duration := med_duration (pri_replacement item)\<rparr>) (prj_sources p)\<rparr>)))"

definition apply_RelinkProjectMedia :: "Project \<Rightarrow> RelinkProjectMediaOperation \<Rightarrow> Project result" where
  "apply_RelinkProjectMedia p v =
     (if rpm_replacements v = [] then reject InvalidOperation ''relink batch is empty''
      else bindR (loopR relink_item (rpm_replacements v) ([], p)) (\<lambda>(_, p'). Inr p'))"

section \<open>ApplyProjectOperation\<close>

definition unchanged :: "id_supply \<Rightarrow> ProjectOperation \<Rightarrow> Project result \<Rightarrow> ((Project \<times> ProjectOperation) \<times> id_supply) result" where
  "unchanged g operation r = bindR r (\<lambda>p. Inr ((p, operation), g))"

fun project_step :: "id_supply \<Rightarrow> Project \<Rightarrow> ProjectOperation \<Rightarrow> ((Project \<times> ProjectOperation) \<times> id_supply) result" where
  "project_step g p (AddProjectTimeline v) =
     bindR (apply_AddProjectTimeline g p v) (\<lambda>((p', v'), g'). Inr ((p', AddProjectTimeline v'), g'))"
| "project_step g p (CreateProjectTimelineFromSegments v) =
     bindR (apply_CreateProjectTimelineFromSegments g p v) (\<lambda>((p', v'), g'). Inr ((p', CreateProjectTimelineFromSegments v'), g'))"
| "project_step g p (RemoveProjectTimeline v) = unchanged g (RemoveProjectTimeline v) (apply_RemoveProjectTimeline p v)"
| "project_step g p (SetProjectBinMetadata v) = unchanged g (SetProjectBinMetadata v) (apply_SetProjectBinMetadata p v)"
| "project_step g p (SetProjectTimelineBin v) = unchanged g (SetProjectTimelineBin v) (apply_SetProjectTimelineBin p v)"
| "project_step g p (RenameProjectItem v) = unchanged g (RenameProjectItem v) (apply_RenameProjectItem p v)"
| "project_step g p (SetActiveProjectTimeline v) = unchanged g (SetActiveProjectTimeline v) (apply_SetActiveProjectTimeline p v)"
| "project_step g p (RelinkProjectMedia v) = unchanged g (RelinkProjectMedia v) (apply_RelinkProjectMedia p v)"

definition ApplyProjectOperation ::
  "id_supply \<Rightarrow> Project \<Rightarrow> ProjectOperation \<Rightarrow> ((Project \<times> ProjectOperation \<times> ProjectOperation) \<times> id_supply) result" where
  "ApplyProjectOperation g p operation =
     bindR (case exact_project_result operation of
              Some exact \<Rightarrow>
                (case Project_LoadFromString (eps_canonical_json exact) of
                   Inl what \<Rightarrow> reject ParseError what
                 | Inr restored \<Rightarrow> Inr ((restored, operation), g))
            | None \<Rightarrow> project_step g p operation) (\<lambda>((candidate, normalized), g').
       case Project_Validate candidate of
         Inl what \<Rightarrow> reject ValidationFailed what
       | Inr _ \<Rightarrow>
           Inr ((candidate,
                 if exact_project_result operation = None
                 then SetExactProject normalized (Project_SaveToString candidate) else normalized,
                 SetExactProject normalized (Project_SaveToString p)), g'))"

lemma when_valid:
  "(case Project_Validate c of Inl what \<Rightarrow> reject ValidationFailed what | Inr _ \<Rightarrow> r) = Inr y \<longleftrightarrow> valid_project c \<and> r = Inr y"
  by (cases "Project_Validate c") auto

end
