(* ===== verification/Project_Short.thy ===== *)
theory Project_Short
  imports Project_Operations
begin

text \<open>
  The timeline that \<open>CreateProjectTimelineFromSegments\<close> assembles: one pair of linked clips for
  each segment, in order and without gaps, each playing exactly its source range.
\<close>

section \<open>The loop over the segments\<close>

definition clip_of_segment :: "ProjectTimelineSourceSegment \<Rightarrow> DocumentClip \<Rightarrow> bool" where
  "clip_of_segment s c \<longleftrightarrow>
     clip_source_id c = seg_source_id s \<and> clip_source_in c = seg_source_in s \<and> clip_duration c = seg_duration s"

definition elapsed :: "ProjectTimelineSourceSegment list \<Rightarrow> rat" where
  "elapsed ss = (\<Sum>s\<leftarrow>ss. rt_q (seg_duration s))"

definition linked_pair :: "DocumentClip \<Rightarrow> DocumentClip \<Rightarrow> bool" where
  "linked_pair v a \<longleftrightarrow> a = v\<lparr>clip_id := clip_id a\<rparr> \<and> clip_link_group_id v \<noteq> [] \<and> \<not> clip_include_audio v"

text \<open>After the segments \<open>ss\<close>.\<close>

definition assembled :: "ProjectTimelineSourceSegment list \<Rightarrow> segments_state \<Rightarrow> bool" where
  "assembled ss st \<longleftrightarrow>
     list_all2 clip_of_segment ss (ss_video st) \<and> list_all2 linked_pair (ss_video st) (ss_audio st) \<and>
     (\<forall>i < length ss. rt_q (clip_timeline_in (ss_video st ! i)) = elapsed (take i ss)) \<and>
     rt_q (ss_cursor st) = elapsed ss"

lemma register_valid: "register_segment_ids generated ids = Inr r \<Longrightarrow> i \<in> set ids \<Longrightarrow> IsValidUlid i"
  by (induction ids arbitrary: generated) auto

lemma throwing_value: "throwing r k = Inr y \<longleftrightarrow> (\<exists>x. r = Inr x \<and> k x = Inr y)"
  by (cases r) (simp_all add: throwing_def)

lemma assembled_step:
  assumes "add_segment p s st = Inr st'" and "assembled ss st"
  shows "assembled (ss @ [s]) st'"
proof -
  obtain vc ac lg cursor where b: "IsValidUlid lg" "rt_add (ss_cursor st) (seg_duration s) = Inr cursor"
    "ss_video st' = ss_video st @ [(new_clip vc (seg_source_id s) (seg_source_in s) (seg_duration s) (ss_cursor st))
       \<lparr>clip_include_audio := False, clip_link_group_id := lg\<rparr>]"
    "ss_audio st' = ss_audio st @ [(new_clip vc (seg_source_id s) (seg_source_in s) (seg_duration s) (ss_cursor st))
       \<lparr>clip_include_audio := False, clip_link_group_id := lg\<rparr>\<lparr>clip_id := ac\<rparr>]"
    "ss_cursor st' = cursor"
    using assms(1) by (auto simp: add_segment_def throwing_value Let_def split: prod.splits if_splits
      dest!: register_valid)
  have l: "length (ss_video st) = length ss" using assms(2) by (auto simp: assembled_def dest: list_all2_lengthD)
  have "rt_q (clip_timeline_in (ss_video st' ! i)) = elapsed (take i (ss @ [s]))" if "i < Suc (length ss)" for i
    using that assms(2) b(3) l by (cases "i < length ss") (auto simp: assembled_def nth_append new_clip_def less_Suc_eq)
  moreover have "rt_q (ss_cursor st') = elapsed (ss @ [s])"
    using rt_add_exact [OF b(2)] assms(2) by (simp add: b(5) assembled_def elapsed_def)
  ultimately show ?thesis
    using assms(2) b IsValidUlid_nonempty [OF b(1)]
    by (simp add: assembled_def list_all2_appendI clip_of_segment_def linked_pair_def new_clip_def)
qed

lemma assembled_loop:
  "loopR (add_segment p) ss st = Inr st' \<Longrightarrow> assembled done st \<Longrightarrow> assembled (done @ ss) st'"
proof (induction ss arbitrary: st "done")
  case (Cons s ss)
  from Cons.prems(1) obtain m where m: "add_segment p s st = Inr m" "loopR (add_segment p) ss m = Inr st'" by auto
  from Cons.IH [OF m(2) assembled_step [OF m(1) Cons.prems(2)]] show ?case by simp
qed simp

section \<open>Property\<close>

lemma built_timeline:
  assumes "apply_CreateProjectTimelineFromSegments g p v = Inr ((q, v'), g')"
  obtains st vt au where "prj_timelines q = prj_timelines p @ [project_timeline (cpt_timeline_id v') (cpt_name v) (cpt_width v) (cpt_height v)
      (cpt_frame_rate v) [project_track vt ''video'' 0 (ss_video st), project_track au ''audio'' 1 (ss_audio st)]]"
    and "assembled (cpt_segments v) st"
proof -
  let ?start = "\<lambda>ids g. \<lparr>ss_segments = [], ss_video = [], ss_audio = [], ss_cursor = RT 0 (mr_num (cpt_frame_rate v)), ss_ids = ids, ss_supply = g\<rparr>"
  obtain t vt au g3 st where l: "loopR (add_segment p) (cpt_segments v) (?start [t, vt, au] g3) = Inr st"
    and q: "prj_timelines q = prj_timelines p @ [project_timeline t (cpt_name v) (cpt_width v) (cpt_height v) (cpt_frame_rate v)
      [project_track vt ''video'' 0 (ss_video st), project_track au ''audio'' 1 (ss_audio st)]]" "cpt_timeline_id v' = t"
    using assms by (auto simp: apply_CreateProjectTimelineFromSegments_def Let_def split: prod.splits if_splits)
  have "assembled [] (?start [t, vt, au] g3)" by (simp add: assembled_def elapsed_def rt_q_def)
  from assembled_loop [OF l this] q show ?thesis by (intro that) simp_all
qed

text \<open>
  Property C10: the timeline made from source segments plays them one after the other.  When the
  operation is accepted, as a user asks for it, the project has one more timeline, the video and the audio track of it
  have one clip for each segment, in order, with its source, its source range and its duration;
  each clip starts exactly where the durations of the segments before it end; and each audio clip
  is the twin of the video clip, in the same link group.
\<close>

theorem segments_become_gapless_timeline:
  assumes "ApplyProjectOperation g p (CreateProjectTimelineFromSegments v) = Inr ((q, logged, undo), g')" and "cpt_exact v = None"
  shows "\<exists>t vt au vs as. prj_timelines q = prj_timelines p @ [t] \<and> valid_project q \<and>
    seq_tracks t = [project_track vt ''video'' 0 vs, project_track au ''audio'' 1 as] \<and>
    list_all2 clip_of_segment (cpt_segments v) vs \<and> list_all2 linked_pair vs as \<and>
    (\<forall>i < length (cpt_segments v). rt_q (clip_timeline_in (vs ! i)) = elapsed (take i (cpt_segments v)))"
proof -
  from assms obtain v' where a: "apply_CreateProjectTimelineFromSegments g p v = Inr ((q, v'), g')" "valid_project q"
    by (auto simp: ApplyProjectOperation_def bindR_Inr_iff when_valid)
  show ?thesis
    by (rule built_timeline [OF a(1)]) (use a(2) in \<open>auto simp: assembled_def project_timeline_def\<close>)
qed

definition sample_short :: CreateProjectTimelineFromSegmentsOperation where
  "sample_short =
     \<lparr>cpt_name = ''Short'', cpt_width = 1080, cpt_height = 1920, cpt_frame_rate = \<lparr>mr_num = 25, mr_den = 1\<rparr>,
      cpt_segments =
        [\<lparr>seg_source_id = u CHR ''0'', seg_source_in = RT 100 25, seg_duration = RT 50 25, seg_video_clip_id = u CHR ''D'',
          seg_audio_clip_id = u CHR ''E'', seg_link_group_id = u CHR ''F''\<rparr>,
         \<lparr>seg_source_id = u CHR ''0'', seg_source_in = RT 400 25, seg_duration = RT 25 25, seg_video_clip_id = u CHR ''H'',
          seg_audio_clip_id = u CHR ''J'', seg_link_group_id = u CHR ''K''\<rparr>],
      cpt_timeline_id = u CHR ''M'', cpt_video_track_id = u CHR ''N'', cpt_audio_track_id = u CHR ''P'', cpt_make_active = True,
      cpt_exact = None\<rparr>"

lemma sample_short_accepted:
  "case apply_CreateProjectTimelineFromSegments (\<lambda>_. []) sample_project sample_short of
     Inl _ \<Rightarrow> False | Inr ((q, _), _) \<Rightarrow> valid_project q"
  by code_simp

lemma segments_become_gapless_timeline_witness:
  "\<exists>q t vs. prj_timelines q = prj_timelines sample_project @ [t] \<and> valid_project q \<and>
     list_all2 clip_of_segment (cpt_segments sample_short) vs \<and> rt_q (clip_timeline_in (vs ! 1)) = 2"
proof -
  obtain q v' g' where a: "apply_CreateProjectTimelineFromSegments (\<lambda>_. []) sample_project sample_short = Inr ((q, v'), g')" "valid_project q"
    using sample_short_accepted by (auto split: sum.splits)
  have e: "cpt_exact sample_short = None" by (simp add: sample_short_def)
  obtain logged undo where "ApplyProjectOperation (\<lambda>_. []) sample_project (CreateProjectTimelineFromSegments sample_short) = Inr ((q, logged, undo), g')"
    using a e by (simp add: ApplyProjectOperation_def)
  from segments_become_gapless_timeline [OF this e] obtain t vs where
    t: "prj_timelines q = prj_timelines sample_project @ [t]" "valid_project q" "list_all2 clip_of_segment (cpt_segments sample_short) vs"
    and i: "\<forall>i < length (cpt_segments sample_short). rt_q (clip_timeline_in (vs ! i)) = elapsed (take i (cpt_segments sample_short))" by blast
  have "length (cpt_segments sample_short) = 2" "elapsed (take 1 (cpt_segments sample_short)) = 2"
    by (simp_all add: sample_short_def elapsed_def rt_q_def)
  with i have "rt_q (clip_timeline_in (vs ! 1)) = 2" by simp
  with t show ?thesis by blast
qed

end
