(* ===== verification/Operation_Serialize.thy ===== *)
theory Operation_Serialize
  imports Exact_State_Text Operation_Core
begin

text \<open>
  \<open>SerializeOperation\<close> and \<open>DeserializeOperation\<close> of \<open>src/Operations.cc\<close>: one writer and one reader
  for each of the 51 operations, fields in the order of the source, and the dispatch on the name
  of the type.  A writer gives the text after the type.  Fields that the reader tolerates to be
  absent, for logs of earlier versions, are the optional ones.
\<close>

section \<open>Pieces\<close>

definition edge_name :: "TrimEdge \<Rightarrow> string" where
  "edge_name e = (case e of Head \<Rightarrow> ''Head'' | Tail \<Rightarrow> ''Tail'')"

definition read_edge :: "(string \<Rightarrow> string) \<Rightarrow> TrimEdge reader" where
  "read_edge what =
     bindP String (\<lambda>edge.
       if edge = ''Head'' then ret Head else if edge = ''Tail'' then ret Tail else throw (what edge))"

definition alignment_name :: "TransitionAlignment \<Rightarrow> string" where
  "alignment_name a = (case a of Center \<Rightarrow> ''center'' | StartAtCut \<Rightarrow> ''start_at_cut'' | EndAtCut \<Rightarrow> ''end_at_cut'')"

definition read_alignment :: "TransitionAlignment reader" where
  "read_alignment =
     bindP String (\<lambda>a.
       if a = ''center'' then ret Center else if a = ''start_at_cut'' then ret StartAtCut
       else if a = ''end_at_cut'' then ret EndAtCut else throw ''invalid transition alignment'')"

definition write_optional :: "('a \<Rightarrow> string) \<Rightarrow> 'a option \<Rightarrow> string" where
  "write_optional w o' = (case o' of None \<Rightarrow> ''null'' | Some x \<Rightarrow> w x)"

definition read_optional :: "'a reader \<Rightarrow> 'a option reader" where
  "read_optional r =
     bindP (Consume ''null'') (\<lambda>absent. if absent then ret None else bindP r (\<lambda>x. ret (Some x)))"

text \<open>The opening of a nested object, and the close of one followed by a field or by the close of the whole.\<close>

definition nested_field :: "string \<Rightarrow> string \<Rightarrow> 'a reader \<Rightarrow> ('a \<Rightarrow> 'b reader) \<Rightarrow> 'b reader" where
  "nested_field outer inner r k = bindP (Expect (key outer @ first_key inner)) (\<lambda>_. bindP r k)"

definition field_after_object :: "string \<Rightarrow> 'a reader \<Rightarrow> ('a \<Rightarrow> 'b reader) \<Rightarrow> 'b reader" where
  "field_after_object n r k = bindP (Expect (''}'' @ key n)) (\<lambda>_. bindP r k)"

definition closing_both :: "'a \<Rightarrow> 'a reader" where
  "closing_both x = bindP (Expect ''}}'') (\<lambda>_. ret x)"

definition write_exact_clip :: "ExactClipTimes \<Rightarrow> string" where
  "write_exact_clip x =
     first_wfield ''source_in'' (WriteTime (ect_source_in x)) @ wfield ''duration'' (WriteTime (ect_duration x)) @
     wfield ''timeline_in'' (WriteTime (ect_timeline_in x)) @ ''}''"

definition read_exact_clip :: "ExactClipTimes reader" where
  "read_exact_clip =
     first_field ''source_in'' ReadTime (\<lambda>sourceIn.
     field ''duration'' ReadTime (\<lambda>duration.
     field ''timeline_in'' ReadTime (\<lambda>timelineIn.
       closing \<lparr>ect_source_in = sourceIn, ect_duration = duration, ect_timeline_in = timelineIn\<rparr>)))"

definition write_move :: "LinkedClipMove \<Rightarrow> string" where
  "write_move x =
     first_wfield ''clip_id'' (raw (lcm_clip_id x)) @
     wfield ''track_id'' (raw (lcm_track_id x)) @
     wfield ''timeline_in'' (WriteTime (lcm_timeline_in x)) @ ''}''"

definition read_move :: "LinkedClipMove reader" where
  "read_move =
     first_field ''clip_id'' String (\<lambda>clipId.
     field ''track_id'' String (\<lambda>trackId.
     field ''timeline_in'' ReadTime (\<lambda>timelineIn.
       closing \<lparr>lcm_clip_id = clipId, lcm_track_id = trackId, lcm_timeline_in = timelineIn\<rparr>)))"

definition write_linked_trim :: "LinkedClipTrim \<Rightarrow> string" where
  "write_linked_trim x =
     first_wfield ''clip_id'' (raw (lct_clip_id x)) @
     wfield ''edge'' (raw (edge_name (lct_edge x))) @
     wfield ''delta'' (WriteTime (lct_delta x)) @ ''}''"

definition read_linked_trim :: "LinkedClipTrim reader" where
  "read_linked_trim =
     first_field ''clip_id'' String (\<lambda>clipId.
     field ''edge'' (read_edge (\<lambda>_. ''invalid linked trim edge'')) (\<lambda>edge.
     field ''delta'' ReadTime (\<lambda>delta.
       closing \<lparr>lct_clip_id = clipId, lct_edge = edge, lct_delta = delta\<rparr>)))"

definition write_air_trim :: "BoundaryAirTrim \<Rightarrow> string" where
  "write_air_trim x =
     first_wfield ''clip_id'' (WriteString (bat_clip_id x)) @
     wfield ''edge'' (raw (edge_name (bat_edge x))) @
     wfield ''delta'' (WriteTime (bat_delta x)) @
     wfield ''linked_clip_ids'' (write_list WriteString (bat_linked_clip_ids x)) @ ''}''"

definition read_air_trim :: "BoundaryAirTrim reader" where
  "read_air_trim =
     first_field ''clip_id'' String (\<lambda>clipId.
     field ''edge'' (read_edge (\<lambda>_. ''invalid boundary air trim edge'')) (\<lambda>edge.
     field ''delta'' ReadTime (\<lambda>delta.
     list_field ''linked_clip_ids'' String (\<lambda>linkedClipIds.
       closing \<lparr>bat_clip_id = clipId, bat_edge = edge, bat_delta = delta, bat_linked_clip_ids = linkedClipIds\<rparr>))))"

definition write_roll_pair :: "RollEditPair \<Rightarrow> string" where
  "write_roll_pair x =
     first_wfield ''left_clip_id'' (raw (rep_left_clip_id x)) @
     wfield ''right_clip_id'' (raw (rep_right_clip_id x)) @ ''}''"

definition read_roll_pair :: "RollEditPair reader" where
  "read_roll_pair =
     first_field ''left_clip_id'' String (\<lambda>leftClipId.
     field ''right_clip_id'' String (\<lambda>rightClipId.
       closing \<lparr>rep_left_clip_id = leftClipId, rep_right_clip_id = rightClipId\<rparr>))"

definition write_range :: "WordRemovalRange \<Rightarrow> string" where
  "write_range x =
     first_wfield ''source_start'' (WriteTime (wrr_source_start x)) @
     wfield ''source_end'' (WriteTime (wrr_source_end x)) @ ''}''"

definition read_range :: "WordRemovalRange reader" where
  "read_range =
     first_field ''source_start'' ReadTime (\<lambda>sourceStart.
     field ''source_end'' ReadTime (\<lambda>sourceEnd.
       closing \<lparr>wrr_source_start = sourceStart, wrr_source_end = sourceEnd\<rparr>))"

definition write_pasted :: "PastedClip \<Rightarrow> string" where
  "write_pasted x =
     first_wfield ''copied_clip_id'' (WriteString (pc_copied_clip_id x)) @
     wfield ''track_id'' (WriteString (pc_track_id x)) @
     wfield ''source_id'' (WriteString (pc_source_id x)) @
     wfield ''source_in'' (WriteTime (pc_source_in x)) @
     wfield ''duration'' (WriteTime (pc_duration x)) @
     wfield ''timeline_in'' (WriteTime (pc_timeline_in x)) @
     wfield ''clip_id'' (WriteString (pc_clip_id x)) @
     wfield ''copied_link_group_id'' (WriteString (pc_copied_link_group_id x)) @
     wfield ''link_group_id'' (WriteString (pc_link_group_id x)) @
     wfield ''copied_sync_anchor_clip_id'' (WriteString (pc_copied_sync_anchor_clip_id x)) @
     wfield ''sync_anchor_clip_id'' (WriteString (pc_sync_anchor_clip_id x)) @
     wfield ''sync_reference_delta'' (WriteTime (pc_sync_reference_delta x)) @ ''}''"

definition read_pasted :: "PastedClip reader" where
  "read_pasted =
     first_field ''copied_clip_id'' String (\<lambda>copiedClipId.
     field ''track_id'' String (\<lambda>trackId.
     field ''source_id'' String (\<lambda>sourceId.
     field ''source_in'' ReadTime (\<lambda>sourceIn.
     field ''duration'' ReadTime (\<lambda>duration.
     field ''timeline_in'' ReadTime (\<lambda>timelineIn.
     field ''clip_id'' String (\<lambda>clipId.
     field ''copied_link_group_id'' String (\<lambda>copiedLinkGroupId.
     field ''link_group_id'' String (\<lambda>linkGroupId.
     field ''copied_sync_anchor_clip_id'' String (\<lambda>copiedSyncAnchorClipId.
     field ''sync_anchor_clip_id'' String (\<lambda>syncAnchorClipId.
     field ''sync_reference_delta'' ReadTime (\<lambda>syncReferenceDelta.
       closing \<lparr>pc_copied_clip_id = copiedClipId, pc_track_id = trackId, pc_source_id = sourceId, pc_source_in = sourceIn, pc_duration = duration, pc_timeline_in = timelineIn, pc_clip_id = clipId, pc_copied_link_group_id = copiedLinkGroupId, pc_link_group_id = linkGroupId, pc_copied_sync_anchor_clip_id = copiedSyncAnchorClipId, pc_sync_anchor_clip_id = syncAnchorClipId, pc_sync_reference_delta = syncReferenceDelta\<rparr>))))))))))))"

definition write_link_state :: "LinkExactState \<Rightarrow> string" where
  "write_link_state x =
     first_wfield ''group_id'' (raw (les_group_id x)) @
     wfield ''anchor_clip_id'' (raw (les_anchor_clip_id x)) @
     wfield ''reference_delta'' (WriteTime (les_reference_delta x)) @ ''}''"

definition read_link_state :: "LinkExactState reader" where
  "read_link_state =
     first_field ''group_id'' String (\<lambda>groupId.
     field ''anchor_clip_id'' String (\<lambda>anchorClipId.
     field ''reference_delta'' ReadTime (\<lambda>referenceDelta.
       closing \<lparr>les_group_id = groupId, les_anchor_clip_id = anchorClipId, les_reference_delta = referenceDelta\<rparr>)))"

definition write_angle :: "MulticamAngle \<Rightarrow> string" where
  "write_angle x =
     first_wfield ''id'' (WriteString (ang_id x)) @
     wfield ''name'' (WriteString (ang_name x)) @
     wfield ''clip_id'' (WriteString (ang_clip_id x)) @ ''}''"

definition read_angle :: "MulticamAngle reader" where
  "read_angle =
     first_field ''id'' String (\<lambda>id.
     field ''name'' String (\<lambda>name.
     field ''clip_id'' String (\<lambda>clipId.
       closing \<lparr>ang_id = id, ang_name = name, ang_clip_id = clipId\<rparr>)))"

section \<open>Operations\<close>

definition write_InsertClip :: "InsertClipOperation \<Rightarrow> string" where
  "write_InsertClip v =
     wfield ''track_id'' (raw (ico_track_id v)) @
     wfield ''source_id'' (raw (ico_source_id v)) @
     wfield ''source_in'' (WriteTime (ico_source_in v)) @
     wfield ''duration'' (WriteTime (ico_duration v)) @
     wfield ''timeline_in'' (WriteTime (ico_timeline_in v)) @
     wfield ''clip_id'' (raw (ico_clip_id v)) @
     wfield ''exact_timeline'' (WriteExactPositions (ico_exact_timeline_result v)) @ ''}''"

definition read_InsertClip :: "Operation reader" where
  "read_InsertClip =
     field ''track_id'' String (\<lambda>trackId.
     field ''source_id'' String (\<lambda>sourceId.
     field ''source_in'' ReadTime (\<lambda>sourceIn.
     field ''duration'' ReadTime (\<lambda>duration.
     field ''timeline_in'' ReadTime (\<lambda>timelineIn.
     field ''clip_id'' String (\<lambda>clipId.
     field ''exact_timeline'' ReadExactPositions (\<lambda>exactTimeline.
       closing (InsertClip \<lparr>ico_track_id = trackId, ico_source_id = sourceId, ico_source_in = sourceIn,
         ico_duration = duration, ico_timeline_in = timelineIn, ico_clip_id = clipId,
         ico_exact_timeline_result = exactTimeline\<rparr>))))))))"

definition write_RemoveClip :: "RemoveClipOperation \<Rightarrow> string" where
  "write_RemoveClip v =
     wfield ''clip_id'' (raw (rco_clip_id v)) @
     wfield ''sync_track_ids'' (write_list WriteString (rco_sync_track_ids v)) @
     wfield ''exact_timeline'' (WriteExactPositions (rco_exact_timeline_result v)) @ ''}''"

definition read_RemoveClip :: "Operation reader" where
  "read_RemoveClip =
     field ''clip_id'' String (\<lambda>clipId.
     optional_list_field ''sync_track_ids'' String (\<lambda>syncTrackIds.
     field ''exact_timeline'' ReadExactPositions (\<lambda>exactTimeline.
       closing (RemoveClip \<lparr>rco_clip_id = clipId, rco_sync_track_ids = syncTrackIds, rco_exact_timeline_result = exactTimeline\<rparr>))))"

definition write_ClearClip :: "ClearClipOperation \<Rightarrow> string" where
  "write_ClearClip v =
     wfield ''clip_id'' (WriteString (cco_clip_id v)) @
     wfield ''exact_tracks'' (WriteExactTracks (cco_exact_track_result v)) @ ''}''"

definition read_ClearClip :: "Operation reader" where
  "read_ClearClip =
     field ''clip_id'' String (\<lambda>clipId.
     field ''exact_tracks'' ReadExactTracks (\<lambda>exactTracks.
       closing (ClearClip \<lparr>cco_clip_id = clipId, cco_exact_track_result = exactTracks\<rparr>)))"

definition write_ClearClips :: "ClearClipsOperation \<Rightarrow> string" where
  "write_ClearClips v =
     wfield ''clip_ids'' (write_list WriteString (ccs_clip_ids v)) @
     wfield ''exact_tracks'' (WriteExactTracks (ccs_exact_track_result v)) @ ''}''"

definition read_ClearClips :: "Operation reader" where
  "read_ClearClips =
     list_field ''clip_ids'' String (\<lambda>clipIds.
     field ''exact_tracks'' ReadExactTracks (\<lambda>exactTracks.
       closing (ClearClips \<lparr>ccs_clip_ids = clipIds, ccs_exact_track_result = exactTracks\<rparr>)))"

definition write_MoveClips :: "MoveClipsOperation \<Rightarrow> string" where
  "write_MoveClips v =
     wfield ''moves'' (write_list write_move (mcs_moves v)) @
     wfield ''exact_tracks'' (WriteExactTracks (mcs_exact_track_result v)) @ ''}''"

definition read_MoveClips :: "Operation reader" where
  "read_MoveClips =
     list_field ''moves'' read_move (\<lambda>moves.
     field ''exact_tracks'' ReadExactTracks (\<lambda>exactTracks.
       closing (MoveClips \<lparr>mcs_moves = moves, mcs_exact_track_result = exactTracks\<rparr>)))"

definition write_MoveLinkedClips :: "MoveLinkedClipsOperation \<Rightarrow> string" where
  "write_MoveLinkedClips v =
     wfield ''link_group_id'' (raw (mlo_link_group_id v)) @
     wfield ''moves'' (write_list write_move (mlo_moves v)) @
     wfield ''exact_tracks'' (WriteExactTracks (mlo_exact_track_result v)) @ ''}''"

definition read_MoveLinkedClips :: "Operation reader" where
  "read_MoveLinkedClips =
     field ''link_group_id'' String (\<lambda>linkGroupId.
     list_field ''moves'' read_move (\<lambda>moves.
     field ''exact_tracks'' ReadExactTracks (\<lambda>exactTracks.
       closing (MoveLinkedClips \<lparr>mlo_link_group_id = linkGroupId, mlo_moves = moves, mlo_exact_track_result = exactTracks\<rparr>))))"

definition write_TrimLinkedClips :: "TrimLinkedClipsOperation \<Rightarrow> string" where
  "write_TrimLinkedClips v =
     wfield ''link_group_id'' (raw (tlo_link_group_id v)) @
     wfield ''trims'' (write_list write_linked_trim (tlo_trims v)) @
     wfield ''exact_tracks'' (WriteExactTracks (tlo_exact_track_result v)) @ ''}''"

definition read_TrimLinkedClips :: "Operation reader" where
  "read_TrimLinkedClips =
     field ''link_group_id'' String (\<lambda>linkGroupId.
     list_field ''trims'' read_linked_trim (\<lambda>trims.
     field ''exact_tracks'' ReadExactTracks (\<lambda>exactTracks.
       closing (TrimLinkedClips \<lparr>tlo_link_group_id = linkGroupId, tlo_trims = trims, tlo_exact_track_result = exactTracks\<rparr>))))"

definition write_RippleTrim :: "RippleTrimOperation \<Rightarrow> string" where
  "write_RippleTrim v =
     wfield ''clip_id'' (raw (rto_clip_id v)) @
     wfield ''edge'' (raw (edge_name (rto_edge v))) @
     wfield ''delta'' (WriteTime (rto_delta v)) @
     wfield ''linked_clip_ids'' (write_list WriteString (rto_linked_clip_ids v)) @
     wfield ''sync_track_ids'' (write_list WriteString (rto_sync_track_ids v)) @
     wfield ''exact_tracks'' (WriteExactTracks (rto_exact_track_result v)) @ ''}''"

definition read_RippleTrim :: "Operation reader" where
  "read_RippleTrim =
     field ''clip_id'' String (\<lambda>clipId.
     field ''edge'' (read_edge (\<lambda>_. ''invalid ripple trim edge'')) (\<lambda>edge.
     field ''delta'' ReadTime (\<lambda>delta.
     list_field ''linked_clip_ids'' String (\<lambda>linkedClipIds.
     list_field ''sync_track_ids'' String (\<lambda>syncTrackIds.
     field ''exact_tracks'' ReadExactTracks (\<lambda>exactTracks.
       closing (RippleTrim \<lparr>rto_clip_id = clipId, rto_edge = edge, rto_delta = delta,
         rto_linked_clip_ids = linkedClipIds, rto_sync_track_ids = syncTrackIds,
         rto_exact_track_result = exactTracks\<rparr>)))))))"

definition write_TrimBoundaryAir :: "TrimBoundaryAirOperation \<Rightarrow> string" where
  "write_TrimBoundaryAir v =
     wfield ''trims'' (write_list write_air_trim (tba_trims v)) @
     wfield ''sync_track_ids'' (write_list WriteString (tba_sync_track_ids v)) @
     wfield ''exact_tracks'' (WriteExactTracks (tba_exact_track_result v)) @ ''}''"

definition read_TrimBoundaryAir :: "Operation reader" where
  "read_TrimBoundaryAir =
     list_field ''trims'' read_air_trim (\<lambda>trims.
     list_field ''sync_track_ids'' String (\<lambda>syncTrackIds.
     field ''exact_tracks'' ReadExactTracks (\<lambda>exactTracks.
       closing (TrimBoundaryAir \<lparr>tba_trims = trims, tba_sync_track_ids = syncTrackIds, tba_exact_track_result = exactTracks\<rparr>))))"

definition write_RollEdit :: "RollEditOperation \<Rightarrow> string" where
  "write_RollEdit v =
     wfield ''pairs'' (write_list write_roll_pair (reo_pairs v)) @
     wfield ''delta'' (WriteTime (reo_delta v)) @
     wfield ''exact_tracks'' (WriteExactTracks (reo_exact_track_result v)) @ ''}''"

definition read_RollEdit :: "Operation reader" where
  "read_RollEdit =
     list_field ''pairs'' read_roll_pair (\<lambda>pairs.
     field ''delta'' ReadTime (\<lambda>delta.
     field ''exact_tracks'' ReadExactTracks (\<lambda>exactTracks.
       closing (RollEdit \<lparr>reo_pairs = pairs, reo_delta = delta, reo_exact_track_result = exactTracks\<rparr>))))"

definition write_SlipEdit :: "SlipEditOperation \<Rightarrow> string" where
  "write_SlipEdit v =
     wfield ''clip_ids'' (write_list WriteString (seo_clip_ids v)) @
     wfield ''delta'' (WriteTime (seo_delta v)) @
     wfield ''exact_tracks'' (WriteExactTracks (seo_exact_track_result v)) @ ''}''"

definition read_SlipEdit :: "Operation reader" where
  "read_SlipEdit =
     list_field ''clip_ids'' String (\<lambda>clipIds.
     field ''delta'' ReadTime (\<lambda>delta.
     field ''exact_tracks'' ReadExactTracks (\<lambda>exactTracks.
       closing (SlipEdit \<lparr>seo_clip_ids = clipIds, seo_delta = delta, seo_exact_track_result = exactTracks\<rparr>))))"

definition write_RemoveLinkedClips :: "RemoveLinkedClipsOperation \<Rightarrow> string" where
  "write_RemoveLinkedClips v =
     wfield ''link_group_id'' (raw (rlo_link_group_id v)) @
     wfield ''clip_ids'' (write_list WriteString (rlo_clip_ids v)) @
     wfield ''sync_track_ids'' (write_list WriteString (rlo_sync_track_ids v)) @
     wfield ''exact_tracks'' (WriteExactTracks (rlo_exact_track_result v)) @ ''}''"

definition read_RemoveLinkedClips :: "Operation reader" where
  "read_RemoveLinkedClips =
     field ''link_group_id'' String (\<lambda>linkGroupId.
     list_field ''clip_ids'' String (\<lambda>clipIds.
     optional_list_field ''sync_track_ids'' String (\<lambda>syncTrackIds.
     field ''exact_tracks'' ReadExactTracks (\<lambda>exactTracks.
       closing (RemoveLinkedClips \<lparr>rlo_link_group_id = linkGroupId, rlo_clip_ids = clipIds,
         rlo_sync_track_ids = syncTrackIds, rlo_exact_track_result = exactTracks\<rparr>)))))"

definition write_ClearLinkedClips :: "ClearLinkedClipsOperation \<Rightarrow> string" where
  "write_ClearLinkedClips v =
     wfield ''link_group_id'' (WriteString (clo_link_group_id v)) @
     wfield ''clip_ids'' (write_list WriteString (clo_clip_ids v)) @
     wfield ''exact_tracks'' (WriteExactTracks (clo_exact_track_result v)) @ ''}''"

definition read_ClearLinkedClips :: "Operation reader" where
  "read_ClearLinkedClips =
     field ''link_group_id'' String (\<lambda>linkGroupId.
     list_field ''clip_ids'' String (\<lambda>clipIds.
     field ''exact_tracks'' ReadExactTracks (\<lambda>exactTracks.
       closing (ClearLinkedClips \<lparr>clo_link_group_id = linkGroupId, clo_clip_ids = clipIds, clo_exact_track_result = exactTracks\<rparr>))))"

definition write_SplitClip :: "SplitClipOperation \<Rightarrow> string" where
  "write_SplitClip v =
     wfield ''clip_id'' (raw (sco_clip_id v)) @
     wfield ''timeline_position'' (WriteTime (sco_timeline_position v)) @
     wfield ''right_clip_id'' (raw (sco_right_clip_id v)) @
     wfield ''right_effect_ids'' (write_list WriteString (sco_right_effect_ids v)) @ ''}''"

definition read_SplitClip :: "Operation reader" where
  "read_SplitClip =
     field ''clip_id'' String (\<lambda>clipId.
     field ''timeline_position'' ReadTime (\<lambda>timelinePosition.
     field ''right_clip_id'' String (\<lambda>rightClipId.
     optional_list_field ''right_effect_ids'' String (\<lambda>rightEffectIds.
       closing (SplitClip \<lparr>sco_clip_id = clipId, sco_timeline_position = timelinePosition,
         sco_right_clip_id = rightClipId, sco_right_effect_ids = rightEffectIds\<rparr>)))))"

definition write_SplitLinkedClips :: "SplitLinkedClipsOperation \<Rightarrow> string" where
  "write_SplitLinkedClips v =
     wfield ''link_group_id'' (WriteString (slo_link_group_id v)) @
     wfield ''clip_ids'' (write_list WriteString (slo_clip_ids v)) @
     wfield ''timeline_position'' (WriteTime (slo_timeline_position v)) @
     wfield ''left_group_id'' (WriteString (slo_left_group_id v)) @
     wfield ''right_group_id'' (WriteString (slo_right_group_id v)) @
     wfield ''right_clip_ids'' (write_list WriteString (slo_right_clip_ids v)) @
     wfield ''sync_track_ids'' (write_list WriteString (slo_sync_track_ids v)) @
     wfield ''exact_tracks'' (WriteExactTracks (slo_exact_track_result v)) @ ''}''"

definition read_SplitLinkedClips :: "Operation reader" where
  "read_SplitLinkedClips =
     field ''link_group_id'' String (\<lambda>linkGroupId.
     list_field ''clip_ids'' String (\<lambda>clipIds.
     field ''timeline_position'' ReadTime (\<lambda>timelinePosition.
     field ''left_group_id'' String (\<lambda>leftGroupId.
     field ''right_group_id'' String (\<lambda>rightGroupId.
     list_field ''right_clip_ids'' String (\<lambda>rightClipIds.
     optional_list_field ''sync_track_ids'' String (\<lambda>syncTrackIds.
     field ''exact_tracks'' ReadExactTracks (\<lambda>exactTracks.
       closing (SplitLinkedClips \<lparr>slo_link_group_id = linkGroupId, slo_clip_ids = clipIds,
         slo_timeline_position = timelinePosition, slo_left_group_id = leftGroupId,
         slo_right_group_id = rightGroupId, slo_right_clip_ids = rightClipIds, slo_sync_track_ids = syncTrackIds,
         slo_exact_track_result = exactTracks\<rparr>)))))))))"

definition write_DeleteGap :: "DeleteGapOperation \<Rightarrow> string" where
  "write_DeleteGap v =
     wfield ''track_id'' (raw (dgo_track_id v)) @
     wfield ''gap_start'' (WriteTime (dgo_gap_start v)) @
     wfield ''gap_duration'' (WriteTime (dgo_gap_duration v)) @
     (if dgo_linked_track_ids v = [] then [] else wfield ''linked_track_ids'' (write_list WriteString (dgo_linked_track_ids v))) @
     wfield ''exact_tracks'' (WriteExactTracks (dgo_exact_track_result v)) @ ''}''"

definition read_DeleteGap :: "Operation reader" where
  "read_DeleteGap =
     field ''track_id'' String (\<lambda>trackId.
     field ''gap_start'' ReadTime (\<lambda>gapStart.
     field ''gap_duration'' ReadTime (\<lambda>gapDuration.
     optional_list_field ''linked_track_ids'' String (\<lambda>linkedTrackIds.
     field ''exact_tracks'' ReadExactTracks (\<lambda>exactTracks.
       closing (DeleteGap \<lparr>dgo_track_id = trackId, dgo_gap_start = gapStart,
         dgo_gap_duration = gapDuration, dgo_exact_track_result = exactTracks,
         dgo_linked_track_ids = linkedTrackIds\<rparr>))))))"

definition write_DetachAudio :: "DetachAudioOperation \<Rightarrow> string" where
  "write_DetachAudio v =
     wfield ''video_clip_id'' (raw (dao_video_clip_id v)) @
     wfield ''audio_track_id'' (raw (dao_audio_track_id v)) @
     wfield ''audio_clip_id'' (raw (dao_audio_clip_id v)) @
     wfield ''exact_tracks'' (WriteExactTracks (dao_exact_track_result v)) @ ''}''"

definition read_DetachAudio :: "Operation reader" where
  "read_DetachAudio =
     field ''video_clip_id'' String (\<lambda>videoClipId.
     field ''audio_track_id'' String (\<lambda>audioTrackId.
     field ''audio_clip_id'' String (\<lambda>audioClipId.
     field ''exact_tracks'' ReadExactTracks (\<lambda>exactTracks.
       closing (DetachAudio \<lparr>dao_video_clip_id = videoClipId, dao_audio_track_id = audioTrackId,
         dao_audio_clip_id = audioClipId, dao_exact_track_result = exactTracks\<rparr>)))))"

definition write_RemoveTrack :: "RemoveTrackOperation \<Rightarrow> string" where
  "write_RemoveTrack v =
     wfield ''track_id'' (raw (rmt_track_id v)) @ ''}''"

definition read_RemoveTrack :: "Operation reader" where
  "read_RemoveTrack =
     field ''track_id'' String (\<lambda>trackId.
       closing (RemoveTrack \<lparr>rmt_track_id = trackId\<rparr>))"

definition write_SetTrackLock :: "SetTrackLockOperation \<Rightarrow> string" where
  "write_SetTrackLock v =
     wfield ''track_id'' (raw (stl_track_id v)) @
     wfield ''locked'' (write_bool (stl_locked v)) @ ''}''"

definition read_SetTrackLock :: "Operation reader" where
  "read_SetTrackLock =
     field ''track_id'' String (\<lambda>trackId.
     field ''locked'' read_bool (\<lambda>locked.
       closing (SetTrackLock \<lparr>stl_track_id = trackId, stl_locked = locked\<rparr>)))"

definition write_SetTrackSyncLock :: "SetTrackSyncLockOperation \<Rightarrow> string" where
  "write_SetTrackSyncLock v =
     wfield ''track_id'' (raw (sts_track_id v)) @
     wfield ''sync_lock'' (write_bool (sts_sync_lock v)) @ ''}''"

definition read_SetTrackSyncLock :: "Operation reader" where
  "read_SetTrackSyncLock =
     field ''track_id'' String (\<lambda>trackId.
     field ''sync_lock'' read_bool (\<lambda>syncLock.
       closing (SetTrackSyncLock \<lparr>sts_track_id = trackId, sts_sync_lock = syncLock\<rparr>)))"

definition write_SetTrackOutput :: "SetTrackOutputOperation \<Rightarrow> string" where
  "write_SetTrackOutput v =
     wfield ''track_id'' (raw (sto_track_id v)) @
     wfield ''visible'' (write_bool (sto_visible v)) @
     wfield ''muted'' (write_bool (sto_muted v)) @
     wfield ''solo'' (write_bool (sto_solo v)) @ ''}''"

definition read_SetTrackOutput :: "Operation reader" where
  "read_SetTrackOutput =
     field ''track_id'' String (\<lambda>trackId.
     field ''visible'' read_bool (\<lambda>visible.
     field ''muted'' read_bool (\<lambda>muted.
     field ''solo'' read_bool (\<lambda>solo.
       closing (SetTrackOutput \<lparr>sto_track_id = trackId, sto_visible = visible, sto_muted = muted, sto_solo = solo\<rparr>)))))"

definition write_SetColorManagement :: "SetColorManagementOperation \<Rightarrow> string" where
  "write_SetColorManagement v =
     wfield ''settings'' (WriteColorManagement (scm_settings v)) @ ''}''"

definition read_SetColorManagement :: "Operation reader" where
  "read_SetColorManagement =
     field ''settings'' ReadColorManagement (\<lambda>settings.
       closing (SetColorManagement \<lparr>scm_settings = settings\<rparr>))"

definition write_RenameBin :: "RenameBinOperation \<Rightarrow> string" where
  "write_RenameBin v =
     wfield ''bin_id'' (raw (rnb_bin_id v)) @
     wfield ''name'' (WriteString (rnb_name v)) @ ''}''"

definition read_RenameBin :: "Operation reader" where
  "read_RenameBin =
     field ''bin_id'' String (\<lambda>binId.
     field ''name'' String (\<lambda>name.
       closing (RenameBin \<lparr>rnb_bin_id = binId, rnb_name = name\<rparr>)))"

definition write_MoveBin :: "MoveBinOperation \<Rightarrow> string" where
  "write_MoveBin v =
     wfield ''bin_id'' (raw (mbo_bin_id v)) @
     wfield ''parent_id'' (raw (mbo_parent_id v)) @ ''}''"

definition read_MoveBin :: "Operation reader" where
  "read_MoveBin =
     field ''bin_id'' String (\<lambda>binId.
     field ''parent_id'' String (\<lambda>parentId.
       closing (MoveBin \<lparr>mbo_bin_id = binId, mbo_parent_id = parentId\<rparr>)))"

definition write_SetMediaBin :: "SetMediaBinOperation \<Rightarrow> string" where
  "write_SetMediaBin v =
     wfield ''media_id'' (raw (smb_media_id v)) @
     wfield ''bin_id'' (raw (smb_bin_id v)) @ ''}''"

definition read_SetMediaBin :: "Operation reader" where
  "read_SetMediaBin =
     field ''media_id'' String (\<lambda>mediaId.
     field ''bin_id'' String (\<lambda>binId.
       closing (SetMediaBin \<lparr>smb_media_id = mediaId, smb_bin_id = binId\<rparr>)))"

definition write_RemoveMarker :: "RemoveMarkerOperation \<Rightarrow> string" where
  "write_RemoveMarker v =
     wfield ''marker_id'' (raw (rmo_marker_id v)) @ ''}''"

definition read_RemoveMarker :: "Operation reader" where
  "read_RemoveMarker =
     field ''marker_id'' String (\<lambda>markerId.
       closing (RemoveMarker \<lparr>rmo_marker_id = markerId\<rparr>))"

definition write_UpdateMarker :: "UpdateMarkerOperation \<Rightarrow> string" where
  "write_UpdateMarker v =
     wfield ''marker_id'' (raw (umo_marker_id v)) @
     wfield ''name'' (WriteString (umo_name v)) @
     wfield ''time'' (WriteTime (umo_time v)) @
     wfield ''color'' (WriteString (umo_color v)) @
     wfield ''category'' (WriteString (umo_category v)) @ ''}''"

definition read_UpdateMarker :: "Operation reader" where
  "read_UpdateMarker =
     field ''marker_id'' String (\<lambda>markerId.
     field ''name'' String (\<lambda>name.
     field ''time'' ReadTime (\<lambda>time.
     field ''color'' String (\<lambda>color.
     field ''category'' String (\<lambda>category.
       closing (UpdateMarker \<lparr>umo_marker_id = markerId, umo_name = name, umo_time = time,
         umo_color = color, umo_category = category\<rparr>))))))"

definition write_RemoveTransition :: "RemoveTransitionOperation \<Rightarrow> string" where
  "write_RemoveTransition v =
     wfield ''transition_id'' (WriteString (rtr_transition_id v)) @ ''}''"

definition read_RemoveTransition :: "Operation reader" where
  "read_RemoveTransition =
     field ''transition_id'' String (\<lambda>transitionId.
       closing (RemoveTransition \<lparr>rtr_transition_id = transitionId\<rparr>))"

definition write_UpdateTransition :: "UpdateTransitionOperation \<Rightarrow> string" where
  "write_UpdateTransition v =
     wfield ''transition_id'' (WriteString (utr_transition_id v)) @
     wfield ''transition_type'' (WriteString (utr_type v)) @
     wfield ''duration'' (WriteTime (utr_duration v)) @
     wfield ''alignment'' (WriteString (alignment_name (utr_alignment v))) @ ''}''"

definition read_UpdateTransition :: "Operation reader" where
  "read_UpdateTransition =
     field ''transition_id'' String (\<lambda>transitionId.
     field ''transition_type'' String (\<lambda>transitionType.
     field ''duration'' ReadTime (\<lambda>duration.
     field ''alignment'' read_alignment (\<lambda>alignment.
       closing (UpdateTransition \<lparr>utr_transition_id = transitionId, utr_type = transitionType,
         utr_duration = duration, utr_alignment = alignment\<rparr>)))))"

definition write_SetClipEffects :: "SetClipEffectsOperation \<Rightarrow> string" where
  "write_SetClipEffects v =
     wfield ''clip_id'' (raw (sfx_clip_id v)) @
     wfield ''effects'' (WriteClipEffects (sfx_effects v)) @ ''}''"

definition read_SetClipEffects :: "Operation reader" where
  "read_SetClipEffects =
     field ''clip_id'' String (\<lambda>clipId.
     field ''effects'' ReadClipEffects (\<lambda>effects.
       closing (SetClipEffects \<lparr>sfx_clip_id = clipId, sfx_effects = effects\<rparr>)))"

definition write_SetClipOpacity :: "SetClipOpacityOperation \<Rightarrow> string" where
  "write_SetClipOpacity v =
     wfield ''clip_id'' (raw (sop_clip_id v)) @
     wfield ''opacity'' (WriteEffectParamValue (sop_opacity v)) @ ''}''"

definition read_SetClipOpacity :: "Operation reader" where
  "read_SetClipOpacity =
     field ''clip_id'' String (\<lambda>clipId.
     field ''opacity'' ReadEffectParamValue (\<lambda>opacity.
       closing (SetClipOpacity \<lparr>sop_clip_id = clipId, sop_opacity = opacity\<rparr>)))"

definition write_SetClipAudio :: "SetClipAudioOperation \<Rightarrow> string" where
  "write_SetClipAudio v =
     wfield ''clip_id'' (raw (sao_clip_id v)) @
     wfield ''gain_db'' (WriteEffectParamValue (sao_gain_db v)) @
     wfield ''fade_in'' (WriteTime (sao_fade_in v)) @
     wfield ''fade_out'' (WriteTime (sao_fade_out v)) @ ''}''"

definition read_SetClipAudio :: "Operation reader" where
  "read_SetClipAudio =
     field ''clip_id'' String (\<lambda>clipId.
     field ''gain_db'' ReadEffectParamValue (\<lambda>gainDb.
     field ''fade_in'' ReadTime (\<lambda>fadeIn.
     field ''fade_out'' ReadTime (\<lambda>fadeOut.
       closing (SetClipAudio \<lparr>sao_clip_id = clipId, sao_gain_db = gainDb, sao_fade_in = fadeIn, sao_fade_out = fadeOut\<rparr>)))))"

definition write_RemoveCaptionStyle :: "RemoveCaptionStyleOperation \<Rightarrow> string" where
  "write_RemoveCaptionStyle v =
     wfield ''style_id'' (raw (rcs_style_id v)) @ ''}''"

definition read_RemoveCaptionStyle :: "Operation reader" where
  "read_RemoveCaptionStyle =
     field ''style_id'' String (\<lambda>styleId.
       closing (RemoveCaptionStyle \<lparr>rcs_style_id = styleId\<rparr>))"

definition write_SetClipCaption :: "SetClipCaptionOperation \<Rightarrow> string" where
  "write_SetClipCaption v =
     wfield ''clip_id'' (raw (scc_clip_id v)) @
     wfield ''caption_group_id'' (raw (scc_caption_group_id v)) @
     wfield ''caption_text'' (WriteString (scc_caption_text v)) @ ''}''"

definition read_SetClipCaption :: "Operation reader" where
  "read_SetClipCaption =
     field ''clip_id'' String (\<lambda>clipId.
     field ''caption_group_id'' String (\<lambda>captionGroupId.
     field ''caption_text'' String (\<lambda>captionText.
       closing (SetClipCaption \<lparr>scc_clip_id = clipId, scc_caption_group_id = captionGroupId, scc_caption_text = captionText\<rparr>))))"

definition write_RemoveMulticamGroup :: "RemoveMulticamGroupOperation \<Rightarrow> string" where
  "write_RemoveMulticamGroup v =
     wfield ''group_id'' (WriteString (rmg_group_id v)) @ ''}''"

definition read_RemoveMulticamGroup :: "Operation reader" where
  "read_RemoveMulticamGroup =
     field ''group_id'' String (\<lambda>groupId.
       closing (RemoveMulticamGroup \<lparr>rmg_group_id = groupId\<rparr>))"

definition write_SetMulticamActiveAngle :: "SetMulticamActiveAngleOperation \<Rightarrow> string" where
  "write_SetMulticamActiveAngle v =
     wfield ''group_id'' (WriteString (sma_group_id v)) @
     wfield ''active_angle_id'' (WriteString (sma_active_angle_id v)) @ ''}''"

definition read_SetMulticamActiveAngle :: "Operation reader" where
  "read_SetMulticamActiveAngle =
     field ''group_id'' String (\<lambda>groupId.
     field ''active_angle_id'' String (\<lambda>activeAngleId.
       closing (SetMulticamActiveAngle \<lparr>sma_group_id = groupId, sma_active_angle_id = activeAngleId\<rparr>)))"

definition write_SplitClipAtPositions :: "SplitClipAtPositionsOperation \<Rightarrow> string" where
  "write_SplitClipAtPositions v =
     wfield ''clip_id'' (WriteString (spo_clip_id v)) @
     wfield ''positions'' (write_list WriteTime (spo_positions v)) @
     wfield ''exact_tracks'' (WriteExactTracks (spo_exact_track_result v)) @ ''}''"

definition read_SplitClipAtPositions :: "Operation reader" where
  "read_SplitClipAtPositions =
     field ''clip_id'' String (\<lambda>clipId.
     list_field ''positions'' ReadTime (\<lambda>positions.
     field ''exact_tracks'' ReadExactTracks (\<lambda>exactTracks.
       closing (SplitClipAtPositions \<lparr>spo_clip_id = clipId, spo_positions = positions, spo_exact_track_result = exactTracks\<rparr>))))"

definition write_RemoveWords :: "RemoveWordsOperation \<Rightarrow> string" where
  "write_RemoveWords v =
     wfield ''clip_id'' (raw (rwo_clip_id v)) @
     wfield ''ranges'' (write_list write_range (rwo_ranges v)) @
     wfield ''gap_padding'' (WriteTime (rwo_gap_padding v)) @
     wfield ''linked_clip_ids'' (write_list WriteString (rwo_linked_clip_ids v)) @
     wfield ''sync_track_ids'' (write_list WriteString (rwo_sync_track_ids v)) @
     wfield ''exact_tracks'' (WriteExactTracks (rwo_exact_track_result v)) @ ''}''"

definition read_RemoveWords :: "Operation reader" where
  "read_RemoveWords =
     field ''clip_id'' String (\<lambda>clipId.
     list_field ''ranges'' read_range (\<lambda>ranges.
     field ''gap_padding'' ReadTime (\<lambda>gapPadding.
     optional_list_field ''linked_clip_ids'' String (\<lambda>linkedClipIds.
     list_field ''sync_track_ids'' String (\<lambda>syncTrackIds.
     field ''exact_tracks'' ReadExactTracks (\<lambda>exactTracks.
       closing (RemoveWords \<lparr>rwo_clip_id = clipId, rwo_ranges = ranges, rwo_gap_padding = gapPadding,
         rwo_linked_clip_ids = linkedClipIds, rwo_sync_track_ids = syncTrackIds,
         rwo_exact_track_result = exactTracks\<rparr>)))))))"

section \<open>Operations with nested or tolerated parts\<close>

definition write_PasteClips :: "PasteClipsOperation \<Rightarrow> string" where
  "write_PasteClips v =
     wfield ''clips'' (write_list write_pasted (pco_clips v)) @
     wfield ''exact_tracks'' (WriteExactTracks (pco_exact_track_result v)) @
     wfield ''overwrite'' (write_bool (pco_overwrite v)) @ ''}''"

definition read_PasteClips :: "Operation reader" where
  "read_PasteClips =
     list_field ''clips'' read_pasted (\<lambda>clips.
     field ''exact_tracks'' ReadExactTracks (\<lambda>exactTracks.
     bindP (Consume ''}'') (\<lambda>ended.
       if ended then ret (PasteClips \<lparr>pco_clips = clips, pco_exact_track_result = exactTracks, pco_overwrite = False\<rparr>)
       else field ''overwrite'' read_bool (\<lambda>overwrite.
         closing (PasteClips \<lparr>pco_clips = clips, pco_exact_track_result = exactTracks, pco_overwrite = overwrite\<rparr>)))))"

definition write_TrimClip :: "TrimClipOperation \<Rightarrow> string" where
  "write_TrimClip v =
     wfield ''clip_id'' (raw (tco_clip_id v)) @
     wfield ''edge'' (raw (edge_name (tco_edge v))) @
     wfield ''delta'' (WriteTime (tco_delta v)) @
     wfield ''exact_clip'' (write_optional write_exact_clip (tco_exact_clip_result v)) @ ''}''"

definition read_TrimClip :: "Operation reader" where
  "read_TrimClip =
     field ''clip_id'' String (\<lambda>clipId.
     field ''edge'' (read_edge (\<lambda>edge. ''unknown trim edge '' @ quoted edge)) (\<lambda>edge.
     field ''delta'' ReadTime (\<lambda>delta.
     field ''exact_clip'' (read_optional read_exact_clip) (\<lambda>exactClip.
       closing (TrimClip \<lparr>tco_clip_id = clipId, tco_edge = edge, tco_delta = delta,
         tco_exact_clip_result = exactClip\<rparr>)))))"

definition write_MoveClip :: "MoveClipOperation \<Rightarrow> string" where
  "write_MoveClip v =
     wfield ''clip_id'' (raw (mco_clip_id v)) @
     wfield ''track_id'' (raw (mco_track_id v)) @
     wfield ''timeline_in'' (WriteTime (mco_timeline_in v)) @
     wfield ''exact_tracks'' (WriteExactTracks (mco_exact_track_result v)) @ ''}''"

definition read_MoveClip :: "Operation reader" where
  "read_MoveClip =
     field ''clip_id'' String (\<lambda>clipId.
     field ''track_id'' String (\<lambda>trackId.
     field ''timeline_in'' ReadTime (\<lambda>timelineIn.
     bindP (Consume ''}'') (\<lambda>ended.
       if ended then ret (MoveClip \<lparr>mco_clip_id = clipId, mco_track_id = trackId, mco_timeline_in = timelineIn,
         mco_exact_track_result = []\<rparr>)
       else field ''exact_tracks'' ReadExactTracks (\<lambda>exactTracks.
         closing (MoveClip \<lparr>mco_clip_id = clipId, mco_track_id = trackId, mco_timeline_in = timelineIn,
           mco_exact_track_result = exactTracks\<rparr>))))))"

definition write_AddTrack :: "AddTrackOperation \<Rightarrow> string" where
  "write_AddTrack v =
     wfield ''track_id'' (raw (ato_track_id v)) @
     wfield ''kind'' (raw (ato_kind v)) @
     wfield ''index'' (to_string (ato_index v)) @
     wfield ''locked'' (write_bool (ato_locked v)) @
     wfield ''sync_lock'' (write_bool (ato_sync_lock v)) @
     wfield ''visible'' (write_bool (ato_visible v)) @
     wfield ''muted'' (write_bool (ato_muted v)) @
     wfield ''solo'' (write_bool (ato_solo v)) @
     (if ato_clips v = [] then []
      else wfield ''exact_tracks'' (WriteExactTracks [\<lparr>ets_track_id = ato_track_id v, ets_clips = ato_clips v\<rparr>])) @ ''}''"

definition read_AddTrack :: "Operation reader" where
  "read_AddTrack =
     field ''track_id'' String (\<lambda>trackId.
     field ''kind'' String (\<lambda>kind.
     field ''index'' Integer (\<lambda>index.
     if \<not> in_int32 index then throw ''track index outside int32_t range''
     else
     optional_field ''locked'' read_bool False (\<lambda>locked.
     optional_field ''sync_lock'' read_bool True (\<lambda>syncLock.
     optional_field ''visible'' read_bool True (\<lambda>visible.
     optional_field ''muted'' read_bool False (\<lambda>muted.
     optional_field ''solo'' read_bool False (\<lambda>solo.
     let track = (\<lambda>clips. AddTrack \<lparr>ato_track_id = trackId, ato_kind = kind, ato_index = index, ato_clips = clips,
           ato_locked = locked, ato_sync_lock = syncLock, ato_visible = visible, ato_muted = muted, ato_solo = solo\<rparr>) in
     bindP (Consume ''}'') (\<lambda>ended.
       if ended then ret (track [])
       else field ''exact_tracks'' ReadExactTracks (\<lambda>tracks.
         if length tracks \<noteq> 1 \<or> ets_track_id (hd tracks) \<noteq> trackId
         then throw ''AddTrack exact state must match track_id''
         else closing (track (ets_clips (hd tracks)))))))))))))"

definition write_UpdateSequence :: "UpdateSequenceOperation \<Rightarrow> string" where
  "write_UpdateSequence v =
     wfield ''sequence_id'' (raw (uso_sequence_id v)) @
     wfield ''name'' (WriteString (uso_name v)) @
     wfield ''width'' (to_string (uso_width v)) @
     wfield ''height'' (to_string (uso_height v)) @
     wfield ''frame_rate'' (first_wfield ''num'' (to_string (mr_num (uso_frame_rate v))) @
       wfield ''den'' (to_string (mr_den (uso_frame_rate v))) @ ''}}'')"

definition read_UpdateSequence :: "Operation reader" where
  "read_UpdateSequence =
     field ''sequence_id'' String (\<lambda>sequenceId.
     field ''name'' String (\<lambda>name.
     field ''width'' Integer (\<lambda>width.
     field ''height'' Integer (\<lambda>height.
     if \<not> in_int32 width \<or> \<not> in_int32 height then throw ''sequence dimensions outside int32_t range''
     else
     nested_field ''frame_rate'' ''num'' Integer (\<lambda>num.
     field ''den'' Integer (\<lambda>den.
     if \<not> in_int32 num \<or> \<not> in_int32 den then throw ''sequence frame rate outside int32_t range''
     else closing_both (UpdateSequence \<lparr>uso_sequence_id = sequenceId, uso_name = name, uso_width = width,
       uso_height = height, uso_frame_rate = \<lparr>mr_num = num, mr_den = den\<rparr>\<rparr>)))))))"

definition write_AddBin :: "AddBinOperation \<Rightarrow> string" where
  "write_AddBin v =
     wfield ''bin_id'' (raw (abo_bin_id v)) @ wfield ''name'' (WriteString (abo_name v)) @
     wfield ''parent_id'' (raw (abo_parent_id v)) @ ''}''"

definition read_AddBin :: "Operation reader" where
  "read_AddBin =
     field ''bin_id'' String (\<lambda>binId.
     field ''name'' String (\<lambda>name.
     bindP (Consume ''}'') (\<lambda>ended.
       if ended then ret (AddBin \<lparr>abo_bin_id = binId, abo_name = name, abo_parent_id = []\<rparr>)
       else field ''parent_id'' String (\<lambda>parentId.
         closing (AddBin \<lparr>abo_bin_id = binId, abo_name = name, abo_parent_id = parentId\<rparr>)))))"

definition write_RemoveBin :: "RemoveBinOperation \<Rightarrow> string" where
  "write_RemoveBin v =
     wfield ''bin_id'' (raw (rbo_bin_id v)) @ wfield ''name'' (WriteString (rbo_name v)) @
     wfield ''parent_id'' (raw (rbo_parent_id v)) @ ''}''"

definition read_RemoveBin :: "Operation reader" where
  "read_RemoveBin =
     field ''bin_id'' String (\<lambda>binId.
     field ''name'' String (\<lambda>name.
     bindP (Consume ''}'') (\<lambda>ended.
       if ended then ret (RemoveBin \<lparr>rbo_bin_id = binId, rbo_name = name, rbo_parent_id = []\<rparr>)
       else field ''parent_id'' String (\<lambda>parentId.
         closing (RemoveBin \<lparr>rbo_bin_id = binId, rbo_name = name, rbo_parent_id = parentId\<rparr>)))))"

definition write_AddMarker :: "AddMarkerOperation \<Rightarrow> string" where
  "write_AddMarker v =
     wfield ''marker'' (first_wfield ''id'' (raw (mk_id (amo_marker v))) @
       wfield ''name'' (WriteString (mk_name (amo_marker v))) @
       wfield ''time'' (WriteTime (mk_time (amo_marker v))) @
       wfield ''color'' (WriteString (mk_color (amo_marker v))) @
       wfield ''category'' (WriteString (mk_category (amo_marker v))) @ ''}'') @
     wfield ''insertion_index'' (to_string (amo_insertion_index v)) @ ''}''"

definition read_AddMarker :: "Operation reader" where
  "read_AddMarker =
     nested_field ''marker'' ''id'' String (\<lambda>i.
     field ''name'' String (\<lambda>name.
     field ''time'' ReadTime (\<lambda>time.
     field ''color'' String (\<lambda>color.
     field ''category'' String (\<lambda>category.
     field_after_object ''insertion_index'' Integer (\<lambda>insertionIndex.
       closing (AddMarker \<lparr>amo_marker = \<lparr>mk_id = i, mk_name = name, mk_time = time, mk_color = color,
         mk_category = category\<rparr>, amo_insertion_index = insertionIndex\<rparr>)))))))"

definition write_AddTransition :: "AddTransitionOperation \<Rightarrow> string" where
  "write_AddTransition v =
     (let t = atr_transition v in
      wfield ''transition'' (first_wfield ''id'' (WriteString (trn_id t)) @
        wfield ''track_id'' (WriteString (trn_track_id t)) @
        wfield ''left_clip_id'' (WriteString (trn_left_clip_id t)) @
        wfield ''right_clip_id'' (WriteString (trn_right_clip_id t)) @
        wfield ''transition_type'' (WriteString (trn_type t)) @
        wfield ''duration'' (WriteTime (trn_duration t)) @
        wfield ''alignment'' (WriteString (alignment_name (trn_alignment t))) @ ''}'') @
      wfield ''insertion_index'' (to_string (atr_insertion_index v)) @ ''}'')"

definition read_AddTransition :: "Operation reader" where
  "read_AddTransition =
     nested_field ''transition'' ''id'' String (\<lambda>i.
     field ''track_id'' String (\<lambda>trackId.
     field ''left_clip_id'' String (\<lambda>leftClipId.
     field ''right_clip_id'' String (\<lambda>rightClipId.
     field ''transition_type'' String (\<lambda>type.
     field ''duration'' ReadTime (\<lambda>duration.
     field ''alignment'' read_alignment (\<lambda>alignment.
     field_after_object ''insertion_index'' Integer (\<lambda>insertionIndex.
       closing (AddTransition \<lparr>atr_transition = \<lparr>trn_id = i, trn_track_id = trackId, trn_left_clip_id = leftClipId,
         trn_right_clip_id = rightClipId, trn_type = type, trn_duration = duration, trn_alignment = alignment\<rparr>,
         atr_insertion_index = insertionIndex\<rparr>)))))))))"

definition write_SetClipLink :: "SetClipLinkOperation \<Rightarrow> string" where
  "write_SetClipLink v =
     wfield ''first_clip_id'' (raw (slk_first_clip_id v)) @
     wfield ''second_clip_id'' (raw (slk_second_clip_id v)) @
     wfield ''first_group_id'' (raw (slk_first_group_id v)) @
     wfield ''second_group_id'' (raw (slk_second_group_id v)) @
     wfield ''exact_first'' (write_optional write_link_state (slk_exact_first_result v)) @
     wfield ''exact_second'' (write_optional write_link_state (slk_exact_second_result v)) @ ''}''"

definition read_SetClipLink :: "Operation reader" where
  "read_SetClipLink =
     field ''first_clip_id'' String (\<lambda>firstClipId.
     field ''second_clip_id'' String (\<lambda>secondClipId.
     field ''first_group_id'' String (\<lambda>firstGroupId.
     field ''second_group_id'' String (\<lambda>secondGroupId.
     let link = (\<lambda>exactFirst exactSecond. SetClipLink \<lparr>slk_first_clip_id = firstClipId, slk_second_clip_id = secondClipId,
           slk_first_group_id = firstGroupId, slk_second_group_id = secondGroupId,
           slk_exact_first_result = exactFirst, slk_exact_second_result = exactSecond\<rparr>) in
     bindP (Consume ''}'') (\<lambda>ended.
       if ended then ret (link None None)
       else field ''exact_first'' (read_optional read_link_state) (\<lambda>exactFirst.
         field ''exact_second'' (read_optional read_link_state) (\<lambda>exactSecond.
           closing (link exactFirst exactSecond))))))))"

definition write_AddCaptionStyle :: "AddCaptionStyleOperation \<Rightarrow> string" where
  "write_AddCaptionStyle v =
     (let s = acs_style v in
      wfield ''style'' (first_wfield ''id'' (raw (cs_id s)) @
        wfield ''font_family'' (WriteString (cs_font_family s)) @
        wfield ''font_size'' (to_string (cs_font_size s)) @
        wfield ''color'' (WriteString (cs_color s)) @
        wfield ''position'' (WriteString (cs_position s)) @ ''}'') @
      wfield ''insertion_index'' (to_string (acs_insertion_index v)) @ ''}'')"

definition read_AddCaptionStyle :: "Operation reader" where
  "read_AddCaptionStyle =
     nested_field ''style'' ''id'' String (\<lambda>i.
     field ''font_family'' String (\<lambda>fontFamily.
     field ''font_size'' Integer (\<lambda>fontSize.
     if \<not> in_int32 fontSize then throw ''font_size outside int32_t range''
     else
     field ''color'' String (\<lambda>color.
     field ''position'' String (\<lambda>position.
     field_after_object ''insertion_index'' Integer (\<lambda>insertionIndex.
       closing (AddCaptionStyle \<lparr>acs_style = \<lparr>cs_id = i, cs_font_family = fontFamily, cs_font_size = fontSize,
         cs_color = color, cs_position = position\<rparr>, acs_insertion_index = insertionIndex\<rparr>)))))))"

definition write_AddMulticamGroup :: "AddMulticamGroupOperation \<Rightarrow> string" where
  "write_AddMulticamGroup v =
     (let g = amg_group v in
      wfield ''group'' (first_wfield ''id'' (WriteString (mg_id g)) @
        wfield ''name'' (WriteString (mg_name g)) @
        wfield ''angles'' (write_list write_angle (mg_angles g)) @
        wfield ''active_angle_id'' (WriteString (mg_active_angle_id g)) @ ''}'') @
      wfield ''insertion_index'' (to_string (amg_insertion_index v)) @ ''}'')"

definition read_AddMulticamGroup :: "Operation reader" where
  "read_AddMulticamGroup =
     nested_field ''group'' ''id'' String (\<lambda>i.
     field ''name'' String (\<lambda>name.
     list_field ''angles'' read_angle (\<lambda>angles.
     field ''active_angle_id'' String (\<lambda>activeAngleId.
     field_after_object ''insertion_index'' Integer (\<lambda>insertionIndex.
       closing (AddMulticamGroup \<lparr>amg_group = \<lparr>mg_id = i, mg_name = name, mg_angles = angles,
         mg_active_angle_id = activeAngleId\<rparr>, amg_insertion_index = insertionIndex\<rparr>))))))"

definition write_JoinClip :: "JoinClipOperation \<Rightarrow> string" where
  "write_JoinClip v =
     wfield ''left_clip_id'' (raw (jco_left_clip_id v)) @
     wfield ''right_clip_id'' (raw (jco_right_clip_id v)) @
     wfield ''joined_times'' (write_exact_clip (jco_joined_times v)) @ ''}''"

definition read_JoinClip :: "Operation reader" where
  "read_JoinClip =
     field ''left_clip_id'' String (\<lambda>leftClipId.
     field ''right_clip_id'' String (\<lambda>rightClipId.
     nested_field ''joined_times'' ''source_in'' ReadTime (\<lambda>sourceIn.
     field ''duration'' ReadTime (\<lambda>duration.
     field ''timeline_in'' ReadTime (\<lambda>timelineIn.
       closing_both (JoinClip \<lparr>jco_left_clip_id = leftClipId, jco_right_clip_id = rightClipId,
         jco_joined_times = \<lparr>ect_source_in = sourceIn, ect_duration = duration, ect_timeline_in = timelineIn\<rparr>\<rparr>))))))"

section \<open>Dispatch\<close>

definition typed :: "string \<Rightarrow> string \<Rightarrow> string" where
  "typed name body = first_wfield ''type'' (raw name) @ body"

primrec SerializeOperation :: "Operation \<Rightarrow> string" where
  "SerializeOperation (InsertClip v) = typed ''InsertClip'' (write_InsertClip v)"
| "SerializeOperation (RemoveClip v) = typed ''RemoveClip'' (write_RemoveClip v)"
| "SerializeOperation (ClearClip v) = typed ''ClearClip'' (write_ClearClip v)"
| "SerializeOperation (ClearClips v) = typed ''ClearClips'' (write_ClearClips v)"
| "SerializeOperation (PasteClips v) = typed ''PasteClips'' (write_PasteClips v)"
| "SerializeOperation (TrimClip v) = typed ''TrimClip'' (write_TrimClip v)"
| "SerializeOperation (MoveClip v) = typed ''MoveClip'' (write_MoveClip v)"
| "SerializeOperation (MoveClips v) = typed ''MoveClips'' (write_MoveClips v)"
| "SerializeOperation (DeleteGap v) = typed ''DeleteGap'' (write_DeleteGap v)"
| "SerializeOperation (DetachAudio v) = typed ''DetachAudio'' (write_DetachAudio v)"
| "SerializeOperation (MoveLinkedClips v) = typed ''MoveLinkedClips'' (write_MoveLinkedClips v)"
| "SerializeOperation (TrimLinkedClips v) = typed ''TrimLinkedClips'' (write_TrimLinkedClips v)"
| "SerializeOperation (RippleTrim v) = typed ''RippleTrim'' (write_RippleTrim v)"
| "SerializeOperation (TrimBoundaryAir v) = typed ''TrimBoundaryAir'' (write_TrimBoundaryAir v)"
| "SerializeOperation (RollEdit v) = typed ''RollEdit'' (write_RollEdit v)"
| "SerializeOperation (SlipEdit v) = typed ''SlipEdit'' (write_SlipEdit v)"
| "SerializeOperation (RemoveLinkedClips v) = typed ''RemoveLinkedClips'' (write_RemoveLinkedClips v)"
| "SerializeOperation (ClearLinkedClips v) = typed ''ClearLinkedClips'' (write_ClearLinkedClips v)"
| "SerializeOperation (AddTrack v) = typed ''AddTrack'' (write_AddTrack v)"
| "SerializeOperation (RemoveTrack v) = typed ''RemoveTrack'' (write_RemoveTrack v)"
| "SerializeOperation (SetTrackLock v) = typed ''SetTrackLock'' (write_SetTrackLock v)"
| "SerializeOperation (SetTrackSyncLock v) = typed ''SetTrackSyncLock'' (write_SetTrackSyncLock v)"
| "SerializeOperation (SetTrackOutput v) = typed ''SetTrackOutput'' (write_SetTrackOutput v)"
| "SerializeOperation (UpdateSequence v) = typed ''UpdateSequence'' (write_UpdateSequence v)"
| "SerializeOperation (SetColorManagement v) = typed ''SetColorManagement'' (write_SetColorManagement v)"
| "SerializeOperation (SplitClip v) = typed ''SplitClip'' (write_SplitClip v)"
| "SerializeOperation (SplitLinkedClips v) = typed ''SplitLinkedClips'' (write_SplitLinkedClips v)"
| "SerializeOperation (JoinClip v) = typed ''JoinClip'' (write_JoinClip v)"
| "SerializeOperation (AddBin v) = typed ''AddBin'' (write_AddBin v)"
| "SerializeOperation (RemoveBin v) = typed ''RemoveBin'' (write_RemoveBin v)"
| "SerializeOperation (RenameBin v) = typed ''RenameBin'' (write_RenameBin v)"
| "SerializeOperation (MoveBin v) = typed ''MoveBin'' (write_MoveBin v)"
| "SerializeOperation (SetMediaBin v) = typed ''SetMediaBin'' (write_SetMediaBin v)"
| "SerializeOperation (AddMarker v) = typed ''AddMarker'' (write_AddMarker v)"
| "SerializeOperation (RemoveMarker v) = typed ''RemoveMarker'' (write_RemoveMarker v)"
| "SerializeOperation (UpdateMarker v) = typed ''UpdateMarker'' (write_UpdateMarker v)"
| "SerializeOperation (AddTransition v) = typed ''AddTransition'' (write_AddTransition v)"
| "SerializeOperation (RemoveTransition v) = typed ''RemoveTransition'' (write_RemoveTransition v)"
| "SerializeOperation (UpdateTransition v) = typed ''UpdateTransition'' (write_UpdateTransition v)"
| "SerializeOperation (SetClipLink v) = typed ''SetClipLink'' (write_SetClipLink v)"
| "SerializeOperation (SetClipEffects v) = typed ''SetClipEffects'' (write_SetClipEffects v)"
| "SerializeOperation (SetClipOpacity v) = typed ''SetClipOpacity'' (write_SetClipOpacity v)"
| "SerializeOperation (SetClipAudio v) = typed ''SetClipAudio'' (write_SetClipAudio v)"
| "SerializeOperation (AddCaptionStyle v) = typed ''AddCaptionStyle'' (write_AddCaptionStyle v)"
| "SerializeOperation (RemoveCaptionStyle v) = typed ''RemoveCaptionStyle'' (write_RemoveCaptionStyle v)"
| "SerializeOperation (SetClipCaption v) = typed ''SetClipCaption'' (write_SetClipCaption v)"
| "SerializeOperation (AddMulticamGroup v) = typed ''AddMulticamGroup'' (write_AddMulticamGroup v)"
| "SerializeOperation (RemoveMulticamGroup v) = typed ''RemoveMulticamGroup'' (write_RemoveMulticamGroup v)"
| "SerializeOperation (SetMulticamActiveAngle v) = typed ''SetMulticamActiveAngle'' (write_SetMulticamActiveAngle v)"
| "SerializeOperation (RemoveWords v) = typed ''RemoveWords'' (write_RemoveWords v)"
| "SerializeOperation (SplitClipAtPositions v) = typed ''SplitClipAtPositions'' (write_SplitClipAtPositions v)"

definition operation_readers :: "(string \<times> Operation reader) list" where
  "operation_readers =
     [(''InsertClip'', read_InsertClip),
      (''RemoveClip'', read_RemoveClip),
      (''ClearClip'', read_ClearClip),
      (''ClearClips'', read_ClearClips),
      (''PasteClips'', read_PasteClips),
      (''TrimClip'', read_TrimClip),
      (''MoveClip'', read_MoveClip),
      (''MoveClips'', read_MoveClips),
      (''DeleteGap'', read_DeleteGap),
      (''DetachAudio'', read_DetachAudio),
      (''MoveLinkedClips'', read_MoveLinkedClips),
      (''TrimLinkedClips'', read_TrimLinkedClips),
      (''RippleTrim'', read_RippleTrim),
      (''TrimBoundaryAir'', read_TrimBoundaryAir),
      (''RollEdit'', read_RollEdit),
      (''SlipEdit'', read_SlipEdit),
      (''RemoveLinkedClips'', read_RemoveLinkedClips),
      (''ClearLinkedClips'', read_ClearLinkedClips),
      (''AddTrack'', read_AddTrack),
      (''RemoveTrack'', read_RemoveTrack),
      (''SetTrackLock'', read_SetTrackLock),
      (''SetTrackSyncLock'', read_SetTrackSyncLock),
      (''SetTrackOutput'', read_SetTrackOutput),
      (''UpdateSequence'', read_UpdateSequence),
      (''SetColorManagement'', read_SetColorManagement),
      (''SplitClip'', read_SplitClip),
      (''SplitLinkedClips'', read_SplitLinkedClips),
      (''JoinClip'', read_JoinClip),
      (''AddBin'', read_AddBin),
      (''RemoveBin'', read_RemoveBin),
      (''RenameBin'', read_RenameBin),
      (''MoveBin'', read_MoveBin),
      (''SetMediaBin'', read_SetMediaBin),
      (''AddMarker'', read_AddMarker),
      (''RemoveMarker'', read_RemoveMarker),
      (''UpdateMarker'', read_UpdateMarker),
      (''AddTransition'', read_AddTransition),
      (''RemoveTransition'', read_RemoveTransition),
      (''UpdateTransition'', read_UpdateTransition),
      (''SetClipLink'', read_SetClipLink),
      (''SetClipEffects'', read_SetClipEffects),
      (''SetClipOpacity'', read_SetClipOpacity),
      (''SetClipAudio'', read_SetClipAudio),
      (''AddCaptionStyle'', read_AddCaptionStyle),
      (''RemoveCaptionStyle'', read_RemoveCaptionStyle),
      (''SetClipCaption'', read_SetClipCaption),
      (''AddMulticamGroup'', read_AddMulticamGroup),
      (''RemoveMulticamGroup'', read_RemoveMulticamGroup),
      (''SetMulticamActiveAngle'', read_SetMulticamActiveAngle),
      (''RemoveWords'', read_RemoveWords),
      (''SplitClipAtPositions'', read_SplitClipAtPositions)]"

definition read_operation :: "Operation reader" where
  "read_operation =
     first_field ''type'' String (\<lambda>type.
       case map_of operation_readers type of
         None \<Rightarrow> throw (''unknown operation type '' @ quoted type)
       | Some r \<Rightarrow> r)"

text \<open>The exception as the message of \<open>ParseError\<close>, with the offset of the text where it stopped.\<close>

definition stop_message :: "string \<Rightarrow> stop \<Rightarrow> string" where
  "stop_message json e =
     (case e of
        Plain what \<Rightarrow> what
      | At what rest \<Rightarrow> what @ '' at byte '' @ nat_to_string (length json - length rest)
      | Unended \<Rightarrow> [])"

definition DeserializeOperation :: "string \<Rightarrow> Operation result" where
  "DeserializeOperation json =
     (case bindP read_operation (\<lambda>operation. bindP Finish (\<lambda>_. ret operation)) json of
        Inl Unended \<Rightarrow> Inl Diverges
      | Inl e \<Rightarrow> reject ParseError (stop_message json e)
      | Inr (operation, _) \<Rightarrow> Inr operation)"

end
