(* ===== verification/Project_Operation_Text.thy ===== *)
theory Project_Operation_Text
  imports Project_Operations Operation_Serialize
begin

text \<open>
  \<open>SerializeProjectOperation\<close> and \<open>DeserializeProjectOperation\<close> of \<open>src/Operations.cc\<close>: the eight
  project operations as text, the exact state as the hexadecimal digits of its JSON text, and the
  media description of a relink, which has no member for the audio level.
\<close>

section \<open>Hexadecimal text\<close>

definition hex_char :: "nat \<Rightarrow> char" where
  "hex_char n = ''0123456789abcdef'' ! n"

definition HexEncode :: "string \<Rightarrow> string" where
  "HexEncode input = concat (map (\<lambda>c. [hex_char (of_char c div 16), hex_char (of_char c mod 16)]) input)"

definition hex_value :: "char \<Rightarrow> string + nat" where
  "hex_value value =
     (let n = (of_char value :: nat) in
      if 48 \<le> n \<and> n \<le> 57 then Inr (n - 48)
      else if 97 \<le> n \<and> n \<le> 102 then Inr (n - 97 + 10)
      else if 65 \<le> n \<and> n \<le> 70 then Inr (n - 65 + 10)
      else Inl ''invalid exact project hex digit'')"

fun decode_pairs :: "string \<Rightarrow> string + string" where
  "decode_pairs (a # b # rest) =
     bindR (hex_value a) (\<lambda>high. bindR (hex_value b) (\<lambda>low. bindR (decode_pairs rest) (\<lambda>cs. Inr (char_of (16 * high + low) # cs))))"
| "decode_pairs _ = Inr []"

definition HexDecode :: "string \<Rightarrow> string + string" where
  "HexDecode input = (if length input mod 2 \<noteq> 0 then Inl ''invalid exact project hex length'' else decode_pairs input)"

section \<open>Pieces\<close>

definition wrap32 :: "int \<Rightarrow> int" where
  "wrap32 x = (x + 2 ^ 31) mod 2 ^ 32 - 2 ^ 31"

definition read_int32 :: "int reader" where
  "read_int32 = bindP Integer (\<lambda>n. ret (wrap32 n))"

definition read_uint32 :: "int reader" where
  "read_uint32 = bindP Integer (\<lambda>n. ret (n mod 2 ^ 32))"

definition read_uint64 :: "int reader" where
  "read_uint64 = bindP Integer (\<lambda>n. ret (n mod 2 ^ 64))"

definition write_flag :: "bool \<Rightarrow> string" where
  "write_flag b = to_string (if b then 1 else 0)"

definition read_flag :: "bool reader" where
  "read_flag = bindP Integer (\<lambda>n. ret (n \<noteq> 0))"

definition WriteMediaRate :: "MediaRate \<Rightarrow> string" where
  "WriteMediaRate r = first_wfield ''num'' (to_string (mr_num r)) @ wfield ''den'' (to_string (mr_den r)) @ ''}''"

definition ReadMediaRate :: "MediaRate reader" where
  "ReadMediaRate =
     first_field ''num'' Integer (\<lambda>num.
     field ''den'' Integer (\<lambda>den.
     bindP (Expect ''}'') (\<lambda>_.
       if \<not> in_int32 num \<or> \<not> in_int32 den then throw ''media rate outside int32_t range''
       else ret \<lparr>mr_num = num, mr_den = den\<rparr>)))"

definition WriteLibraryMedia :: "LibraryMedia \<Rightarrow> string" where
  "WriteLibraryMedia m =
     first_wfield ''id'' (WriteString (med_id m)) @ wfield ''path'' (WriteString (med_path m)) @
     wfield ''filename'' (WriteString (med_filename m)) @ wfield ''codec'' (WriteString (med_codec m)) @
     wfield ''width'' (to_string (med_width m)) @ wfield ''height'' (to_string (med_height m)) @
     wfield ''pixel_format'' (WriteString (med_pixel_format m)) @ wfield ''color_range'' (WriteString (med_color_range m)) @
     wfield ''color_space'' (WriteString (med_color_space m)) @ wfield ''color_transfer'' (WriteString (med_color_transfer m)) @
     wfield ''color_primaries'' (WriteString (med_color_primaries m)) @
     wfield ''rotation_degrees'' (to_string (med_rotation_degrees m)) @ wfield ''rate'' (WriteMediaRate (med_rate m)) @
     wfield ''duration'' (WriteTime (med_duration m)) @ wfield ''orientation'' (WriteString (med_orientation m)) @
     wfield ''has_video'' (write_flag (med_has_video m)) @ wfield ''has_audio'' (write_flag (med_has_audio m)) @
     wfield ''audio_rate'' (to_string (med_audio_rate m)) @ wfield ''audio_channels'' (to_string (med_audio_channels m)) @
     wfield ''bin_id'' (WriteString (med_bin_id m)) @ wfield ''proxy_path'' (WriteString (med_proxy_path m)) @
     wfield ''metadata_complete'' (write_flag (med_metadata_complete m)) @ ''}''"

definition ReadLibraryMedia :: "LibraryMedia reader" where
  "ReadLibraryMedia =
     first_field ''id'' String (\<lambda>i.
     field ''path'' String (\<lambda>path.
     field ''filename'' String (\<lambda>filename.
     field ''codec'' String (\<lambda>codec.
     field ''width'' read_int32 (\<lambda>width.
     field ''height'' read_int32 (\<lambda>height.
     field ''pixel_format'' String (\<lambda>pixelFormat.
     field ''color_range'' String (\<lambda>colorRange.
     field ''color_space'' String (\<lambda>colorSpace.
     field ''color_transfer'' String (\<lambda>colorTransfer.
     field ''color_primaries'' String (\<lambda>colorPrimaries.
     field ''rotation_degrees'' read_int32 (\<lambda>rotation.
     field ''rate'' ReadMediaRate (\<lambda>rate.
     field ''duration'' ReadTime (\<lambda>duration.
     field ''orientation'' String (\<lambda>orientation.
     optional_field ''has_video'' read_flag True (\<lambda>hasVideo.
     field ''has_audio'' read_flag (\<lambda>hasAudio.
     field ''audio_rate'' read_int32 (\<lambda>audioRate.
     field ''audio_channels'' read_int32 (\<lambda>audioChannels.
     field ''bin_id'' String (\<lambda>bin.
     field ''proxy_path'' String (\<lambda>proxy.
     field ''metadata_complete'' read_flag (\<lambda>complete.
       closing \<lparr>med_id = i, med_path = path, med_filename = filename, med_codec = codec, med_has_video = hasVideo,
         med_width = width, med_height = height, med_pixel_format = pixelFormat, med_color_range = colorRange,
         med_color_space = colorSpace, med_color_transfer = colorTransfer, med_color_primaries = colorPrimaries,
         med_rotation_degrees = rotation, med_rate = rate, med_duration = duration, med_orientation = orientation,
         med_has_audio = hasAudio, med_audio_rate = audioRate, med_audio_channels = audioChannels,
         med_audio_level_measured = False, med_audio_level = 0, med_bin_id = bin, med_proxy_path = proxy,
         med_metadata_complete = complete\<rparr>))))))))))))))))))))))"

definition write_exact_project :: "ExactProjectState \<Rightarrow> string" where
  "write_exact_project e = WriteString (HexEncode (eps_canonical_json e))"

definition read_exact_project :: "ExactProjectState reader" where
  "read_exact_project =
     bindP String (\<lambda>hex. case HexDecode hex of Inl what \<Rightarrow> throw what | Inr json \<Rightarrow> ret \<lparr>eps_canonical_json = json\<rparr>)"

definition WriteExactProject :: "ExactProjectState option \<Rightarrow> string" where
  "WriteExactProject exact = write_optional write_exact_project exact"

definition ReadExactProject :: "ExactProjectState option reader" where
  "ReadExactProject = read_optional read_exact_project"

text \<open>Every operation ends with its exact state.\<close>

definition write_tail :: "ExactProjectState option \<Rightarrow> string" where
  "write_tail exact = wfield ''exact_project_hex'' (WriteExactProject exact) @ ''}''"

definition read_tail :: "(ExactProjectState option \<Rightarrow> 'a) \<Rightarrow> 'a reader" where
  "read_tail f = field ''exact_project_hex'' ReadExactProject (\<lambda>exact. closing (f exact))"

section \<open>The operations\<close>

definition write_AddProjectTimeline :: "AddProjectTimelineOperation \<Rightarrow> string" where
  "write_AddProjectTimeline v =
     wfield ''name'' (WriteString (apt_name v)) @ wfield ''width'' (to_string (apt_width v)) @
     wfield ''height'' (to_string (apt_height v)) @ wfield ''frame_rate'' (WriteMediaRate (apt_frame_rate v)) @
     wfield ''timeline_id'' (WriteString (apt_timeline_id v)) @ wfield ''video_track_id'' (WriteString (apt_video_track_id v)) @
     wfield ''audio_track_id'' (WriteString (apt_audio_track_id v)) @ write_tail (apt_exact v)"

definition read_AddProjectTimeline :: "ProjectOperation reader" where
  "read_AddProjectTimeline =
     field ''name'' String (\<lambda>name.
     field ''width'' read_int32 (\<lambda>width.
     field ''height'' read_int32 (\<lambda>height.
     field ''frame_rate'' ReadMediaRate (\<lambda>rate.
     field ''timeline_id'' String (\<lambda>t.
     field ''video_track_id'' String (\<lambda>vt.
     field ''audio_track_id'' String (\<lambda>au.
     read_tail (\<lambda>exact. AddProjectTimeline
       \<lparr>apt_name = name, apt_width = width, apt_height = height, apt_frame_rate = rate, apt_timeline_id = t,
        apt_video_track_id = vt, apt_audio_track_id = au, apt_exact = exact\<rparr>))))))))"

definition write_segment :: "ProjectTimelineSourceSegment \<Rightarrow> string" where
  "write_segment s =
     first_wfield ''source_id'' (WriteString (seg_source_id s)) @ wfield ''source_in'' (WriteTime (seg_source_in s)) @
     wfield ''duration'' (WriteTime (seg_duration s)) @ wfield ''video_clip_id'' (WriteString (seg_video_clip_id s)) @
     wfield ''audio_clip_id'' (WriteString (seg_audio_clip_id s)) @
     wfield ''link_group_id'' (WriteString (seg_link_group_id s)) @ ''}''"

definition read_segment :: "ProjectTimelineSourceSegment reader" where
  "read_segment =
     first_field ''source_id'' String (\<lambda>source.
     field ''source_in'' ReadTime (\<lambda>sourceIn.
     field ''duration'' ReadTime (\<lambda>duration.
     field ''video_clip_id'' String (\<lambda>vc.
     field ''audio_clip_id'' String (\<lambda>ac.
     field ''link_group_id'' String (\<lambda>lg.
       closing \<lparr>seg_source_id = source, seg_source_in = sourceIn, seg_duration = duration, seg_video_clip_id = vc,
         seg_audio_clip_id = ac, seg_link_group_id = lg\<rparr>))))))"

definition write_CreateProjectTimelineFromSegments :: "CreateProjectTimelineFromSegmentsOperation \<Rightarrow> string" where
  "write_CreateProjectTimelineFromSegments v =
     wfield ''name'' (WriteString (cpt_name v)) @ wfield ''width'' (to_string (cpt_width v)) @
     wfield ''height'' (to_string (cpt_height v)) @ wfield ''frame_rate'' (WriteMediaRate (cpt_frame_rate v)) @
     wfield ''segments'' (write_list write_segment (cpt_segments v)) @ wfield ''timeline_id'' (WriteString (cpt_timeline_id v)) @
     wfield ''video_track_id'' (WriteString (cpt_video_track_id v)) @
     wfield ''audio_track_id'' (WriteString (cpt_audio_track_id v)) @
     wfield ''make_active'' (write_bool (cpt_make_active v)) @ write_tail (cpt_exact v)"

definition read_CreateProjectTimelineFromSegments :: "ProjectOperation reader" where
  "read_CreateProjectTimelineFromSegments =
     field ''name'' String (\<lambda>name.
     field ''width'' read_int32 (\<lambda>width.
     field ''height'' read_int32 (\<lambda>height.
     field ''frame_rate'' ReadMediaRate (\<lambda>rate.
     list_field ''segments'' read_segment (\<lambda>segments.
     field ''timeline_id'' String (\<lambda>t.
     field ''video_track_id'' String (\<lambda>vt.
     field ''audio_track_id'' String (\<lambda>au.
     field ''make_active'' read_bool (\<lambda>active.
     read_tail (\<lambda>exact. CreateProjectTimelineFromSegments
       \<lparr>cpt_name = name, cpt_width = width, cpt_height = height, cpt_frame_rate = rate, cpt_segments = segments,
        cpt_timeline_id = t, cpt_video_track_id = vt, cpt_audio_track_id = au, cpt_make_active = active,
        cpt_exact = exact\<rparr>))))))))))"

definition write_RemoveProjectTimeline :: "RemoveProjectTimelineOperation \<Rightarrow> string" where
  "write_RemoveProjectTimeline v = wfield ''timeline_id'' (WriteString (rpt_timeline_id v)) @ write_tail (rpt_exact v)"

definition read_RemoveProjectTimeline :: "ProjectOperation reader" where
  "read_RemoveProjectTimeline =
     field ''timeline_id'' String (\<lambda>t.
     read_tail (\<lambda>exact. RemoveProjectTimeline \<lparr>rpt_timeline_id = t, rpt_exact = exact\<rparr>))"

definition write_SetProjectBinMetadata :: "SetProjectBinMetadataOperation \<Rightarrow> string" where
  "write_SetProjectBinMetadata v =
     (let m = spm_metadata v in
      wfield ''item_id'' (WriteString (spm_item_id v)) @
      wfield ''metadata'' (first_wfield ''description'' (WriteString (pm_description m)) @
        wfield ''rating'' (to_string (pm_rating m)) @ wfield ''tags'' (write_list WriteString (pm_tags m)) @
        wfield ''insert_order'' (to_string (pm_insert_order m)) @
        wfield ''display_name'' (WriteString (pm_display_name m)) @ ''}'') @ write_tail (spm_exact v))"

definition read_SetProjectBinMetadata :: "ProjectOperation reader" where
  "read_SetProjectBinMetadata =
     field ''item_id'' String (\<lambda>item.
     nested_field ''metadata'' ''description'' String (\<lambda>description.
     field ''rating'' read_uint32 (\<lambda>rating.
     list_field ''tags'' String (\<lambda>tags.
     field ''insert_order'' read_uint64 (\<lambda>order.
     optional_field ''display_name'' String [] (\<lambda>displayName.
     bindP (Expect ''}'') (\<lambda>_.
     read_tail (\<lambda>exact. SetProjectBinMetadata
       \<lparr>spm_item_id = item,
        spm_metadata = \<lparr>pm_description = description, pm_rating = rating, pm_tags = tags, pm_insert_order = order,
                        pm_display_name = displayName\<rparr>,
        spm_exact = exact\<rparr>))))))))"

definition write_SetProjectTimelineBin :: "SetProjectTimelineBinOperation \<Rightarrow> string" where
  "write_SetProjectTimelineBin v =
     wfield ''timeline_id'' (WriteString (spb_timeline_id v)) @ wfield ''bin_id'' (WriteString (spb_bin_id v)) @
     write_tail (spb_exact v)"

definition read_SetProjectTimelineBin :: "ProjectOperation reader" where
  "read_SetProjectTimelineBin =
     field ''timeline_id'' String (\<lambda>t.
     field ''bin_id'' String (\<lambda>b.
     read_tail (\<lambda>exact. SetProjectTimelineBin \<lparr>spb_timeline_id = t, spb_bin_id = b, spb_exact = exact\<rparr>)))"

definition write_RenameProjectItem :: "RenameProjectItemOperation \<Rightarrow> string" where
  "write_RenameProjectItem v =
     wfield ''item_id'' (WriteString (rpi_item_id v)) @ wfield ''name'' (WriteString (rpi_name v)) @ write_tail (rpi_exact v)"

definition read_RenameProjectItem :: "ProjectOperation reader" where
  "read_RenameProjectItem =
     field ''item_id'' String (\<lambda>item.
     field ''name'' String (\<lambda>name.
     read_tail (\<lambda>exact. RenameProjectItem \<lparr>rpi_item_id = item, rpi_name = name, rpi_exact = exact\<rparr>)))"

definition write_SetActiveProjectTimeline :: "SetActiveProjectTimelineOperation \<Rightarrow> string" where
  "write_SetActiveProjectTimeline v = wfield ''timeline_id'' (WriteString (sap_timeline_id v)) @ write_tail (sap_exact v)"

definition read_SetActiveProjectTimeline :: "ProjectOperation reader" where
  "read_SetActiveProjectTimeline =
     field ''timeline_id'' String (\<lambda>t.
     read_tail (\<lambda>exact. SetActiveProjectTimeline \<lparr>sap_timeline_id = t, sap_exact = exact\<rparr>))"

definition write_relink :: "ProjectRelinkItem \<Rightarrow> string" where
  "write_relink i =
     first_wfield ''media_id'' (WriteString (pri_media_id i)) @ wfield ''replacement'' (WriteLibraryMedia (pri_replacement i)) @
     wfield ''stored_path'' (WriteString (pri_stored_path i)) @ ''}''"

definition read_relink :: "ProjectRelinkItem reader" where
  "read_relink =
     first_field ''media_id'' String (\<lambda>i.
     field ''replacement'' ReadLibraryMedia (\<lambda>replacement.
     field ''stored_path'' String (\<lambda>path.
       closing \<lparr>pri_media_id = i, pri_replacement = replacement, pri_stored_path = path\<rparr>)))"

definition write_RelinkProjectMedia :: "RelinkProjectMediaOperation \<Rightarrow> string" where
  "write_RelinkProjectMedia v =
     wfield ''replacements'' (write_list write_relink (rpm_replacements v)) @ write_tail (rpm_exact v)"

definition read_RelinkProjectMedia :: "ProjectOperation reader" where
  "read_RelinkProjectMedia =
     list_field ''replacements'' read_relink (\<lambda>replacements.
     read_tail (\<lambda>exact. RelinkProjectMedia \<lparr>rpm_replacements = replacements, rpm_exact = exact\<rparr>))"

section \<open>Dispatch\<close>

fun SerializeProjectOperation :: "ProjectOperation \<Rightarrow> string" where
  "SerializeProjectOperation (AddProjectTimeline v) = typed ''AddProjectTimeline'' (write_AddProjectTimeline v)"
| "SerializeProjectOperation (CreateProjectTimelineFromSegments v) =
     typed ''CreateProjectTimelineFromSegments'' (write_CreateProjectTimelineFromSegments v)"
| "SerializeProjectOperation (RemoveProjectTimeline v) = typed ''RemoveProjectTimeline'' (write_RemoveProjectTimeline v)"
| "SerializeProjectOperation (SetProjectBinMetadata v) = typed ''SetProjectBinMetadata'' (write_SetProjectBinMetadata v)"
| "SerializeProjectOperation (SetProjectTimelineBin v) = typed ''SetProjectTimelineBin'' (write_SetProjectTimelineBin v)"
| "SerializeProjectOperation (RenameProjectItem v) = typed ''RenameProjectItem'' (write_RenameProjectItem v)"
| "SerializeProjectOperation (SetActiveProjectTimeline v) = typed ''SetActiveProjectTimeline'' (write_SetActiveProjectTimeline v)"
| "SerializeProjectOperation (RelinkProjectMedia v) = typed ''RelinkProjectMedia'' (write_RelinkProjectMedia v)"

definition project_readers :: "(string \<times> ProjectOperation reader) list" where
  "project_readers =
     [(''AddProjectTimeline'', read_AddProjectTimeline),
      (''CreateProjectTimelineFromSegments'', read_CreateProjectTimelineFromSegments),
      (''RemoveProjectTimeline'', read_RemoveProjectTimeline),
      (''SetProjectBinMetadata'', read_SetProjectBinMetadata),
      (''SetProjectTimelineBin'', read_SetProjectTimelineBin),
      (''SetActiveProjectTimeline'', read_SetActiveProjectTimeline),
      (''RenameProjectItem'', read_RenameProjectItem),
      (''RelinkProjectMedia'', read_RelinkProjectMedia)]"

definition read_project_operation :: "ProjectOperation reader" where
  "read_project_operation =
     first_field ''type'' String (\<lambda>type.
       case map_of project_readers type of
         None \<Rightarrow> throw (''unknown project operation type '' @ quoted type)
       | Some r \<Rightarrow> r)"

definition DeserializeProjectOperation :: "string \<Rightarrow> ProjectOperation result" where
  "DeserializeProjectOperation json =
     (case bindP read_project_operation (\<lambda>operation. bindP Finish (\<lambda>_. ret operation)) json of
        Inl Unended \<Rightarrow> Inl Diverges
      | Inl e \<Rightarrow> reject ParseError (stop_message json e)
      | Inr (operation, _) \<Rightarrow> Inr operation)"

end
