(* ===== verification/Project_Log.thy ===== *)
theory Project_Log
  imports Project_Operations Edit_Log
begin

text \<open>
  \<open>ProjectEditLog\<close> of \<open>src/EditLog.cc\<close>: the log of project operations, with the batch that is
  one entry.  It meets the interface \<open>reversible_edits\<close> for every operation, because each carries
  the text of the whole project and a project survives its text.
\<close>

section \<open>The log\<close>

definition run_project :: "id_supply \<Rightarrow> Project \<Rightarrow> ProjectOperation \<Rightarrow> (Project \<times> ProjectOperation \<times> ProjectOperation) result" where
  "run_project g p operation = bindR (ApplyProjectOperation g p operation) (\<lambda>(r, _). Inr r)"

definition ProjectEditLog_Apply ::
  "id_supply \<Rightarrow> Project \<Rightarrow> ProjectOperation edit_log \<Rightarrow> ProjectOperation \<Rightarrow> (Project \<times> ProjectOperation edit_log) result" where
  "ProjectEditLog_Apply g = log_apply (run_project g)"

fun apply_all :: "id_supply \<Rightarrow> Project \<Rightarrow> ProjectOperation list \<Rightarrow> Project result" where
  "apply_all g candidate [] = Inr candidate"
| "apply_all g candidate (operation # operations) =
     bindR (ApplyProjectOperation g candidate operation) (\<lambda>((candidate', _), g'). apply_all g' candidate' operations)"

definition batch_entry :: "Project \<Rightarrow> Project \<Rightarrow> ProjectOperation log_entry" where
  "batch_entry p candidate =
     \<lparr>le_op = SetActiveProjectTimeline \<lparr>sap_timeline_id = prj_active_timeline_id candidate,
                sap_exact = Some \<lparr>eps_canonical_json = Project_SaveToString candidate\<rparr>\<rparr>,
      le_inverse = SetActiveProjectTimeline \<lparr>sap_timeline_id = prj_active_timeline_id p,
                sap_exact = Some \<lparr>eps_canonical_json = Project_SaveToString p\<rparr>\<rparr>\<rparr>"

definition ProjectEditLog_ApplyBatch ::
  "id_supply \<Rightarrow> Project \<Rightarrow> ProjectOperation edit_log \<Rightarrow> ProjectOperation list \<Rightarrow> (Project \<times> ProjectOperation edit_log) result" where
  "ProjectEditLog_ApplyBatch g p stk operations =
     (if operations = [] then reject InvalidOperation ''project operation batch is empty''
      else bindR (apply_all g p operations) (\<lambda>candidate.
        Inr (candidate, \<lparr>applied = applied stk @ [batch_entry p candidate], undone = []\<rparr>)))"

definition ProjectEditLog_Undo ::
  "id_supply \<Rightarrow> Project \<Rightarrow> ProjectOperation edit_log \<Rightarrow> (Project \<times> ProjectOperation edit_log) result" where
  "ProjectEditLog_Undo g p stk =
     (if applied stk = [] then reject EmptyUndo ''project undo stack is empty'' else log_undo (run_project g) p stk)"

definition ProjectEditLog_Redo ::
  "id_supply \<Rightarrow> Project \<Rightarrow> ProjectOperation edit_log \<Rightarrow> (Project \<times> ProjectOperation edit_log) result" where
  "ProjectEditLog_Redo g p stk =
     (if undone stk = [] then reject EmptyRedo ''project redo stack is empty'' else log_redo (run_project g) p stk)"

section \<open>Operations within the ranges of their members\<close>

fun fields_typed :: "ProjectOperation \<Rightarrow> bool" where
  "fields_typed (AddProjectTimeline v) \<longleftrightarrow> in_int32 (apt_width v) \<and> in_int32 (apt_height v) \<and> rate_saved (apt_frame_rate v)"
| "fields_typed (CreateProjectTimelineFromSegments v) \<longleftrightarrow>
     in_int32 (cpt_width v) \<and> in_int32 (cpt_height v) \<and> rate_saved (cpt_frame_rate v) \<and>
     list_all (\<lambda>s. time_ok (seg_source_in s) \<and> time_ok (seg_duration s)) (cpt_segments v)"
| "fields_typed (SetProjectBinMetadata v) \<longleftrightarrow> 0 \<le> pm_rating (spm_metadata v) \<and> 0 \<le> pm_insert_order (spm_metadata v)"
| "fields_typed (RelinkProjectMedia v) \<longleftrightarrow> list_all (\<lambda>i. media_saved (pri_replacement i)) (rpm_replacements v)"
| "fields_typed _ \<longleftrightarrow> True"

definition typed_operation :: "ProjectOperation \<Rightarrow> bool" where
  "typed_operation operation \<longleftrightarrow>
     (case exact_project_result operation of
        None \<Rightarrow> fields_typed operation
      | Some exact \<Rightarrow>
          (case Project_LoadFromString (eps_canonical_json exact) of Inl _ \<Rightarrow> True | Inr q \<Rightarrow> timelines_anchored q))"

definition sound_project :: "Project \<Rightarrow> bool" where
  "sound_project p \<longleftrightarrow> project_saved p \<and> valid_project p"

text \<open>What a step keeps before the validation.\<close>

definition data_saved :: "Project \<Rightarrow> bool" where
  "data_saved p \<longleftrightarrow> list_all sequence_saved (prj_timelines p) \<and> list_all media_saved (prj_rushes p) \<and> list_all source_saved (prj_sources p)"

definition order_saved :: "Project \<Rightarrow> bool" where
  "order_saved p \<longleftrightarrow>
     list_all (\<lambda>e. 0 \<le> pm_rating (snd e) \<and> 0 \<le> pm_insert_order (snd e)) (prj_bin_metadata p) \<and>
     sorted_map (prj_bin_metadata p) \<and> sorted_map (prj_timeline_bin_ids p)"

lemma sound_project_iff:
  assumes "valid_project p"
  shows "project_saved p \<longleftrightarrow> data_saved p \<and> order_saved p"
proof -
  have t: "prj_timelines p \<noteq> []" using assms by (auto simp: Project_Validate_def)
  have m: "metadata_ok p" using assms by (simp add: valid_project_iff)
  have "list_all (\<lambda>t. document_saved (timeline_document p t)) (prj_timelines p) \<longleftrightarrow> data_saved p"
    using t by (cases "prj_timelines p") (auto simp: document_saved_def data_saved_def list_all_iff)
  moreover have "list_all metadata_saved (prj_bin_metadata p) \<longleftrightarrow>
      list_all (\<lambda>e. 0 \<le> pm_rating (snd e) \<and> 0 \<le> pm_insert_order (snd e)) (prj_bin_metadata p)"
    using m by (auto simp: list_all_iff metadata_saved_def metadata_ok_def in_int32_def in_int64_def int32_min_def
      int32_max_def int64_min_def)
  ultimately show ?thesis by (auto simp: project_saved_def order_saved_def)
qed

section \<open>Every step stays within the ranges\<close>

lemma rt_add_ok: "rt_add a b = Inr t \<Longrightarrow> time_ok t"
proof -
  assume a: "rt_add a b = Inr t"
  then have "0 < rt_rate a" "0 < rt_rate b" by (auto simp: rt_add_def CheckRate_def split: if_splits)
  moreover from this have "0 \<le> rt_Lcm (rt_rate a) (rt_rate b)" by (simp add: rt_Lcm_eq)
  ultimately show "time_ok t"
    using a by (auto simp: rt_add_def time_ok_def CheckedInt64_def Let_def in_int64_def in_int32_def int32_min_def split: if_splits)
qed

lemma throwing_Inr: "throwing r k = Inr y \<longleftrightarrow> (\<exists>x. r = Inr x \<and> k x = Inr y)"
  by (cases r) (simp_all add: throwing_def)

lemma order_keys:
  "sorted_map m \<Longrightarrow> sorted_map (erase_key k m)" "sorted_map m \<Longrightarrow> sorted_map (assign_key k v m)"
proof -
  have e: "sorted_map m \<Longrightarrow> sorted_map (erase_key k m)"
    by (simp add: sorted_map_def erase_key_def sorted_wrt_map sorted_wrt_filter)
  then show "sorted_map m \<Longrightarrow> sorted_map (erase_key k m)" .
  then show "sorted_map m \<Longrightarrow> sorted_map (assign_key k v m)" unfolding assign_key_def by (intro emplace_sorted_map)
qed

lemma all_keys:
  "list_all P m \<Longrightarrow> list_all P (erase_key k m)" "list_all P m \<Longrightarrow> P (k, v) \<Longrightarrow> list_all P (assign_key k v m)"
proof -
  have e: "list_all P m \<Longrightarrow> list_all P (erase_key k m)" by (auto simp: erase_key_def list_all_iff)
  then show "list_all P m \<Longrightarrow> list_all P (erase_key k m)" .
  then show "list_all P m \<Longrightarrow> P (k, v) \<Longrightarrow> list_all P (assign_key k v m)" unfolding assign_key_def by (intro emplace_all)
qed

lemma all_update_first: "list_all P xs \<Longrightarrow> (\<And>x. P x \<Longrightarrow> P (f x)) \<Longrightarrow> list_all P (update_first Q f xs)"
  by (induction xs) auto

lemma all_remove_first: "list_all P xs \<Longrightarrow> list_all P (remove_first Q xs)"
  by (induction xs) auto

lemma track_built: "list_all clip_saved cs \<Longrightarrow> in_int32 i \<Longrightarrow> track_saved (project_track t k i cs)"
  by (simp add: track_saved_def project_track_def)

lemma timeline_built:
  "in_int32 w \<Longrightarrow> in_int32 h \<Longrightarrow> rate_saved r \<Longrightarrow> list_all track_saved ts \<Longrightarrow> sequence_saved (project_timeline i n w h r ts)"
  by (simp add: sequence_saved_def project_timeline_def default_sequence_def)

lemma small_int32: "in_int32 0" "in_int32 1"
  by (simp_all add: in_int32_def int32_min_def int32_max_def)

definition segments_saved :: "segments_state \<Rightarrow> bool" where
  "segments_saved st \<longleftrightarrow> list_all clip_saved (ss_video st) \<and> list_all clip_saved (ss_audio st) \<and> time_ok (ss_cursor st)"

lemma add_segment_saved:
  assumes "add_segment p s st = Inr st'" and "segments_saved st" and "time_ok (seg_source_in s)" and "time_ok (seg_duration s)"
  shows "segments_saved st'"
proof -
  have c: "clip_saved (new_clip i j a b c)" if "time_ok a" "time_ok b" "time_ok c" for i j a b c
    using that zero_time by (simp add: clip_saved_def new_clip_def)
  have c': "clip_saved (x\<lparr>clip_id := i\<rparr>) = clip_saved x" "clip_saved (x\<lparr>clip_include_audio := b\<rparr>) = clip_saved x"
    "clip_saved (x\<lparr>clip_link_group_id := i\<rparr>) = clip_saved x" for x :: DocumentClip and i b by (simp_all add: clip_saved_def)
  show ?thesis
    using assms c c' by (auto simp: add_segment_def segments_saved_def throwing_Inr Let_def intro: rt_add_ok split: prod.splits if_splits)
qed

lemma segments_loop_saved:
  "loopR (add_segment p) ss st = Inr st' \<Longrightarrow> segments_saved st \<Longrightarrow>
   list_all (\<lambda>s. time_ok (seg_source_in s) \<and> time_ok (seg_duration s)) ss \<Longrightarrow> segments_saved st'"
proof (induction ss arbitrary: st)
  case (Cons s ss)
  from Cons.prems(1) obtain m where m: "add_segment p s st = Inr m" "loopR (add_segment p) ss m = Inr st'" by auto
  have "segments_saved m" by (rule add_segment_saved [OF m(1)]) (use Cons.prems in simp_all)
  from Cons.IH [OF m(2) this] Cons.prems(3) show ?case by simp
qed simp

lemma relink_item_saved:
  assumes "relink_item i (seen, p) = Inr (seen', q)" and "data_saved p" and "media_saved (pri_replacement i)"
  shows "data_saved q \<and> prj_bin_metadata q = prj_bin_metadata p \<and> prj_timeline_bin_ids q = prj_timeline_bin_ids p"
proof -
  have c: "med_metadata_complete (pri_replacement i)"
    using assms(1) by (auto simp: relink_item_def throwing_Inr ValidateProjectRelinkCandidate_def Let_def split: if_splits option.splits)
  have m: "media_saved ((pri_replacement i)\<lparr>med_id := a, med_path := b, med_bin_id := d, med_proxy_path := []\<rparr>)" for a b d
    using assms(3) c by (simp add: media_saved_def)
  have r: "rate_saved (med_rate (pri_replacement i))" "time_ok (med_duration (pri_replacement i))"
    using assms(3) by (simp_all add: media_saved_def)
  show ?thesis
    using assms(1,2) m r
    by (auto simp: relink_item_def throwing_Inr data_saved_def source_saved_def intro!: all_update_first split: if_splits option.splits)
qed

lemma relink_loop_saved:
  "loopR relink_item is' (seen, p) = Inr (seen', q) \<Longrightarrow> data_saved p \<Longrightarrow> list_all (\<lambda>i. media_saved (pri_replacement i)) is' \<Longrightarrow>
   data_saved q \<and> prj_bin_metadata q = prj_bin_metadata p \<and> prj_timeline_bin_ids q = prj_timeline_bin_ids p"
proof (induction is' arbitrary: seen p)
  case (Cons i is')
  from Cons.prems(1) obtain seen1 m where m: "relink_item i (seen, p) = Inr (seen1, m)" "loopR relink_item is' (seen1, m) = Inr (seen', q)"
    by auto
  have k: "data_saved m \<and> prj_bin_metadata m = prj_bin_metadata p \<and> prj_timeline_bin_ids m = prj_timeline_bin_ids p"
    by (rule relink_item_saved [OF m(1)]) (use Cons.prems in simp_all)
  show ?case using Cons.IH [OF m(2)] k Cons.prems(3) by simp
qed simp

lemma add_timeline_saved:
  assumes "apply_AddProjectTimeline g p v = Inr ((q, v'), g')" and "data_saved p" and "order_saved p" and "fields_typed (AddProjectTimeline v)"
  shows "data_saved q \<and> order_saved q"
  using assms
  by (auto simp: apply_AddProjectTimeline_def data_saved_def order_saved_def Let_def small_int32
    intro!: timeline_built track_built split: prod.splits if_splits)

lemma create_timeline_saved:
  assumes "apply_CreateProjectTimelineFromSegments g p v = Inr ((q, v'), g')" and "data_saved p" and "order_saved p"
    and "fields_typed (CreateProjectTimelineFromSegments v)"
  shows "data_saved q \<and> order_saved q"
proof -
  obtain t vt au g3 st where l: "loopR (add_segment p) (cpt_segments v)
            \<lparr>ss_segments = [], ss_video = [], ss_audio = [], ss_cursor = RT 0 (mr_num (cpt_frame_rate v)),
             ss_ids = [t, vt, au], ss_supply = g3\<rparr> = Inr st"
    and q: "q = (let timeline = project_timeline t (cpt_name v) (cpt_width v) (cpt_height v) (cpt_frame_rate v)
                           [project_track vt ''video'' 0 (ss_video st), project_track au ''audio'' 1 (ss_audio st)];
              p' = p\<lparr>prj_timelines := prj_timelines p @ [timeline]\<rparr> in
          if cpt_make_active v then p'\<lparr>prj_active_timeline_id := t\<rparr> else p')"
    using assms(1) by (auto simp: apply_CreateProjectTimelineFromSegments_def Let_def split: prod.splits if_splits)
  have "time_ok (RT 0 (mr_num (cpt_frame_rate v)))" using assms(4) by (simp add: time_ok_def rate_saved_def in_int64_def int64_min_def int64_max_def)
  then have "segments_saved st" using segments_loop_saved [OF l] assms(4) by (simp add: segments_saved_def)
  then show ?thesis
    using assms(2-4) by (auto simp: q Let_def data_saved_def order_saved_def segments_saved_def small_int32 intro!: timeline_built track_built)
qed

lemma metadata_steps_saved:
  assumes "data_saved p" and "order_saved p"
  shows "apply_RemoveProjectTimeline p r = Inr q \<Longrightarrow> data_saved q \<and> order_saved q"
    and "apply_SetProjectBinMetadata p m = Inr q \<Longrightarrow> fields_typed (SetProjectBinMetadata m) \<Longrightarrow> data_saved q \<and> order_saved q"
    and "apply_SetProjectTimelineBin p b = Inr q \<Longrightarrow> data_saved q \<and> order_saved q"
    and "apply_SetActiveProjectTimeline p a = Inr q \<Longrightarrow> data_saved q \<and> order_saved q"
  using assms
  by (auto simp: apply_RemoveProjectTimeline_def apply_SetProjectBinMetadata_def apply_SetProjectTimelineBin_def
    apply_SetActiveProjectTimeline_def data_saved_def order_saved_def Let_def all_remove_first
    intro!: order_keys all_keys split: if_splits)

lemma rename_saved:
  assumes "apply_RenameProjectItem p r = Inr q" and "data_saved p" and "order_saved p"
  shows "data_saved q \<and> order_saved q"
proof -
  have "list_all (\<lambda>e. 0 \<le> pm_rating (snd e) \<and> 0 \<le> pm_insert_order (snd e))
     (assign_key i ((case FindBinMetadata p i of None \<Rightarrow> initial_metadata | Some e \<Rightarrow> e)\<lparr>pm_display_name := n\<rparr>) (prj_bin_metadata p))" for i n
    using assms(3) by (intro all_keys)
      (auto 0 3 simp: order_saved_def list_all_iff FindBinMetadata_def initial_metadata_def split: option.splits dest!: map_of_SomeD)
  moreover have "sequence_saved t \<Longrightarrow> sequence_saved (t\<lparr>seq_name := n\<rparr>)" for t :: DocumentSequence and n by (simp add: sequence_saved_def)
  ultimately show ?thesis
    using assms by (auto simp: apply_RenameProjectItem_def data_saved_def order_saved_def Let_def intro!: order_keys all_update_first split: if_splits)
qed

lemma project_step_saved:
  assumes "project_step g p operation = Inr ((q, operation'), g')" and "data_saved p" and "order_saved p" and "fields_typed operation"
  shows "data_saved q \<and> order_saved q"
proof (cases operation)
  case (AddProjectTimeline v)
  then show ?thesis using assms add_timeline_saved by (auto simp del: fields_typed.simps)
next
  case (CreateProjectTimelineFromSegments v)
  then show ?thesis using assms create_timeline_saved by (auto simp del: fields_typed.simps)
next
  case (RelinkProjectMedia v)
  then obtain seen where "loopR relink_item (rpm_replacements v) ([], p) = Inr (seen, q)"
    using assms(1) by (auto simp: unchanged_def apply_RelinkProjectMedia_def split: if_splits)
  from relink_loop_saved [OF this assms(2)] show ?thesis using assms(3,4) RelinkProjectMedia by (simp add: order_saved_def)
next
  case (RenameProjectItem v)
  then show ?thesis using assms rename_saved by (auto simp: unchanged_def)
qed (use assms metadata_steps_saved [OF assms(2,3)] in \<open>auto simp: unchanged_def simp del: fields_typed.simps\<close>)

section \<open>Exact states\<close>

lemma SetExactProject_exact [simp]: "exact_project_result (SetExactProject operation json) = Some \<lparr>eps_canonical_json = json\<rparr>"
  by (cases operation) simp_all

lemma restores:
  assumes "sound_project q" and "exact_project_result operation = Some \<lparr>eps_canonical_json = Project_SaveToString q\<rparr>"
  shows "\<exists>x. run_project g p operation = Inr (q, x)"
  using assms Project_Load_Save [of q] by (simp add: run_project_def ApplyProjectOperation_def sound_project_def)

lemma run_project_iff:
  "run_project g p operation = Inr (q, logged, undo) \<longleftrightarrow>
     valid_project q \<and>
     (case exact_project_result operation of
        Some exact \<Rightarrow> Project_LoadFromString (eps_canonical_json exact) = Inr q \<and> logged = operation \<and>
          undo = SetExactProject operation (Project_SaveToString p)
      | None \<Rightarrow> \<exists>normalized g'. project_step g p operation = Inr ((q, normalized), g') \<and>
          logged = SetExactProject normalized (Project_SaveToString q) \<and>
          undo = SetExactProject normalized (Project_SaveToString p))"
proof (cases "exact_project_result operation")
  case None
  then show ?thesis by (fastforce simp: run_project_def ApplyProjectOperation_def bindR_Inr_iff when_valid)
next
  case (Some exact)
  then show ?thesis
    by (cases "Project_LoadFromString (eps_canonical_json exact)")
      (auto simp: run_project_def ApplyProjectOperation_def bindR_Inr_iff when_valid)
qed

lemma run_project_sound:
  assumes "sound_project p" and "typed_operation operation" and "run_project g p operation = Inr (q, logged, undo)"
  shows "sound_project q"
proof (cases "exact_project_result operation")
  case None
  have v: "valid_project p" "valid_project q" using assms by (simp_all add: sound_project_def run_project_iff)
  then have "data_saved p" "order_saved p" using assms(1) sound_project_iff [OF v(1)] by (simp_all add: sound_project_def)
  then show ?thesis
    using None assms(2,3) project_step_saved sound_project_iff [OF v(2)] v(2)
    by (fastforce simp: run_project_iff sound_project_def typed_operation_def)
next
  case (Some exact)
  then show ?thesis
    using assms(2,3) loaded_project_saved by (auto simp: run_project_iff sound_project_def typed_operation_def)
qed

interpretation project_edits: reversible_edits run_project sound_project "\<lambda>_. typed_operation"
proof
  fix g g' p operation q logged undo
  assume s: "sound_project p" and t: "typed_operation operation" and r: "run_project g p operation = Inr (q, logged, undo)"
  show q: "sound_project q" by (rule run_project_sound [OF s t r])
  have "exact_project_result undo = Some \<lparr>eps_canonical_json = Project_SaveToString p\<rparr>"
    using r by (auto simp: run_project_iff split: option.splits)
  then show "\<exists>x. run_project g' q undo = Inr (p, x)" by (rule restores [OF s])
  show "\<exists>x. run_project g' p logged = Inr (q, x)"
  proof (cases "exact_project_result operation")
    case None
    then have "exact_project_result logged = Some \<lparr>eps_canonical_json = Project_SaveToString q\<rparr>"
      using r by (auto simp: run_project_iff)
    then show ?thesis by (rule restores [OF q])
  next
    case (Some exact)
    then show ?thesis using r by (auto simp: run_project_iff)
  qed
qed

section \<open>Sessions with batches\<close>

inductive project_session :: "Project \<Rightarrow> Project \<Rightarrow> ProjectOperation edit_log \<Rightarrow> bool" for p0 where
  start: "sound_project p0 \<Longrightarrow> project_session p0 p0 empty_log"
| edit: "project_session p0 p stk \<Longrightarrow> typed_operation operation \<Longrightarrow> ProjectEditLog_Apply g p stk operation = Inr (q, stk') \<Longrightarrow>
     project_session p0 q stk'"
| batch: "project_session p0 p stk \<Longrightarrow> list_all typed_operation operations \<Longrightarrow>
     ProjectEditLog_ApplyBatch g p stk operations = Inr (q, stk') \<Longrightarrow> project_session p0 q stk'"
| undo: "project_session p0 p stk \<Longrightarrow> ProjectEditLog_Undo g p stk = Inr (q, stk') \<Longrightarrow> project_session p0 q stk'"
| redo: "project_session p0 p stk \<Longrightarrow> ProjectEditLog_Redo g p stk = Inr (q, stk') \<Longrightarrow> project_session p0 q stk'"

context reversible_edits
begin

lemma history_push:
  assumes "history d0 d stk d1" and "step d e d'"
  shows "history d0 d' \<lparr>applied = applied stk @ [e], undone = []\<rparr> d'"
  using assms by (auto simp: history_def chain_append)

end

lemma apply_all_sound:
  "sound_project p \<Longrightarrow> list_all typed_operation operations \<Longrightarrow> apply_all g p operations = Inr q \<Longrightarrow> sound_project q"
proof (induction operations arbitrary: g p)
  case (Cons operation operations)
  from Cons.prems(3) obtain m x g' where m: "ApplyProjectOperation g p operation = Inr ((m, x), g')" "apply_all g' m operations = Inr q"
    by auto
  obtain logged undo where "x = (logged, undo)" by (cases x)
  then have "run_project g p operation = Inr (m, logged, undo)" using m(1) by (simp add: run_project_def)
  then have "sound_project m" using run_project_sound Cons.prems(1,2) by auto
  then show ?case using Cons.IH m(2) Cons.prems(2) by auto
qed simp

lemma batch_step:
  assumes "sound_project p" and "sound_project q"
  shows "project_edits.step p (batch_entry p q) q"
  using assms restores [of q "le_op (batch_entry p q)"] restores [of p "le_inverse (batch_entry p q)"]
  by (simp add: project_edits.step_def batch_entry_def)

lemma project_history:
  assumes "project_session p0 p stk"
  shows "sound_project p \<and> (\<exists>p1. project_edits.history p0 p stk p1)"
  using assms
proof (induction rule: project_session.induct)
  case start
  then show ?case using project_edits.history_start by blast
next
  case (edit p stk operation g q stk')
  then obtain p1 where "project_edits.history p0 p stk p1" "sound_project p" by blast
  from project_edits.history_apply [OF this edit.hyps(2) edit.hyps(3) [unfolded ProjectEditLog_Apply_def]] show ?case by blast
next
  case (batch p stk operations g q stk')
  then obtain p1 where h: "project_edits.history p0 p stk p1" "sound_project p" by blast
  from batch.hyps(3) have q: "apply_all g p operations = Inr q" "stk' = \<lparr>applied = applied stk @ [batch_entry p q], undone = []\<rparr>"
    by (auto simp: ProjectEditLog_ApplyBatch_def split: if_splits)
  have s: "sound_project q" by (rule apply_all_sound [OF h(2) batch.hyps(2) q(1)])
  show ?case using project_edits.history_push [OF h(1) batch_step [OF h(2) s]] s q(2) by blast
next
  case (undo p stk g q stk')
  then obtain p1 where h: "project_edits.history p0 p stk p1" by blast
  from undo.hyps(2) have u: "log_undo (run_project g) p stk = Inr (q, stk')" "applied stk \<noteq> []"
    by (auto simp: ProjectEditLog_Undo_def split: if_splits)
  from project_edits.undo_step [OF h u(2)] u(1) show ?case by (metis Inr_inject prod.inject)
next
  case (redo p stk g q stk')
  then obtain p1 where h: "project_edits.history p0 p stk p1" by blast
  from redo.hyps(2) have u: "log_redo (run_project g) p stk = Inr (q, stk')" "undone stk \<noteq> []"
    by (auto simp: ProjectEditLog_Redo_def split: if_splits)
  from project_edits.redo_step [OF h u(2)] u(1) show ?case by (metis Inr_inject prod.inject)
qed

lemma walk_cong:
  "(\<And>s. f s \<noteq> r s \<Longrightarrow> \<exists>e e'. f s = Inl e \<and> r s = Inl e') \<Longrightarrow> walk r k s = Inr t \<Longrightarrow> walk f k s = Inr t"
proof (induction k arbitrary: s)
  case (Suc k)
  from Suc.prems(2) obtain m where m: "r s = Inr m" "walk r k m = Inr t" by auto
  then have "f s = Inr m" using Suc.prems(1) [of s] by (cases "f s = r s") auto
  then show ?case using Suc.IH [OF Suc.prems(1) m(2)] by auto
qed simp

section \<open>Properties\<close>



definition sample_rename :: ProjectOperation where
  "sample_rename = RenameProjectItem
     \<lparr>rpi_item_id = seq_id (doc_sequence sample_doc), rpi_name = ''Scene 1'', rpi_exact = None\<rparr>"

definition renamed_project :: Project where
  "renamed_project = sample_project\<lparr>prj_timelines := [(doc_sequence sample_doc)\<lparr>seq_name := ''Scene 1''\<rparr>]\<rparr>"

lemma sample_project_sound: "sound_project sample_project"
  using sample_project_saved sample_project_valid by (simp add: sound_project_def)

lemma sample_run:
  obtains logged undo where "ApplyProjectOperation g sample_project sample_rename = Inr ((renamed_project, logged, undo), g)"
proof -
  have v: "valid_project renamed_project" by code_simp
  have "project_step g sample_project sample_rename = Inr ((renamed_project, sample_rename), g)"
    by (simp add: sample_rename_def unchanged_def apply_RenameProjectItem_def FindTimeline_def sample_project_def
      renamed_project_def FromDocument_def)
  moreover have "exact_project_result sample_rename = None" by (simp add: sample_rename_def)
  ultimately show ?thesis by (intro that) (simp add: ApplyProjectOperation_def v)
qed

lemma sample_rename_typed: "typed_operation sample_rename"
  by (simp add: typed_operation_def sample_rename_def)



end
