(* ===== verification/Operation_Roundtrip.thy ===== *)
theory Operation_Roundtrip
  imports Operation_Serialize
begin

text \<open>
  What the edit log gives back: every operation is read back from its text, exactly but for the
  clips in exact track states, of which the gain and the fades are not stored; and the reader
  ends on every text.
\<close>

section \<open>Pieces\<close>

lemma list_all_anything [simp]: "list_all (\<lambda>_. True) xs"
  by (induction xs) simp_all

lemma edge_back [reads]: "bindP (read_edge what) k (raw (edge_name e) @ s) = k e s"
proof -
  have "plain (edge_name e)" by (cases e) (simp_all add: edge_name_def plain_def)
  then show ?thesis by (cases e) (simp_all add: read_edge_def bindP_assoc reads edge_name_def)
qed

lemma alignment_back [reads]: "bindP read_alignment k (WriteString (alignment_name a) @ s) = k a s"
  by (cases a) (simp_all add: read_alignment_def bindP_assoc reads alignment_name_def)

lemma nested_back [reads]:
  shows "nested_field n m r k (wfield n (first_wfield m w @ t) @ s) = bindP r k (w @ t @ s)"
    and "field_after_object n r k (CHR ''}'' # wfield n w @ s) = bindP r k (w @ s)"
    and "closing_both x (CHR ''}'' # CHR ''}'' # s) = Inr (x, s)"
proof -
  have k: "key n @ t \<noteq> []" "\<not> isspace (hd (key n @ t))" for t using punctuation_not_space(1) by (simp_all add: key_def)
  show "nested_field n m r k (wfield n (first_wfield m w @ t) @ s) = bindP r k (w @ t @ s)"
    using Expect_prefix [OF k, of "first_key m" "w @ t @ s"]
    by (simp add: nested_field_def wfield_def first_wfield_def bindP_Inr)
  show "field_after_object n r k (CHR ''}'' # wfield n w @ s) = bindP r k (w @ s)"
    using Expect_prefix [of "''}'' @ key n" "w @ s"] punctuation_not_space(3)
    by (simp add: field_after_object_def wfield_def bindP_Inr)
  show "closing_both x (CHR ''}'' # CHR ''}'' # s) = Inr (x, s)"
    using Expect_prefix [of "''}}''" s] punctuation_not_space(3) by (simp add: closing_both_def bindP_Inr ret_def)
qed

lemma ended_not_yet [reads]: "bindP (Consume ''}'') j (wfield n w @ s) = j False (wfield n w @ s)"
  by (simp add: wfield_def reads)

context item_format
begin

lemma optional_back [reads]:
  assumes "pred_option ok x"
  shows "bindP (read_optional r) k (write_optional w x @ s) = k (map_option img x) s"
proof (cases x)
  case None
  then show ?thesis
    using Consume_prefix [of "''null''" s] punctuation_not_space(8)
    by (simp add: read_optional_def write_optional_def bindP_assoc bindP_Inr ret_apply)
next
  case (Some y)
  obtain c q where c: "w y = c # q" "c = CHR ''{'' \<or> c = CHR 0x22" using item_head [of y] by (cases "w y") auto
  have "Consume ''null'' (c # t) = Inr (False, c # t)" for t
    using c(2) by (elim disjE) (simp_all add: Consume_other_char punctuation_not_space)
  then have "Consume ''null'' (w y @ s) = Inr (False, w y @ s)" by (simp add: c(1))
  then have "bindP (Consume ''null'') j (w y @ s) = j False (w y @ s)" for j :: "bool \<Rightarrow> 'b reader"
    by (rule bindP_Inr)
  then show ?thesis
    using assms Some by (simp add: read_optional_def write_optional_def bindP_assoc item ret_apply)
qed

end

definition exact_clip_ok :: "ExactClipTimes \<Rightarrow> bool" where
  "exact_clip_ok x \<longleftrightarrow> time_ok (ect_source_in x) \<and> time_ok (ect_duration x) \<and> time_ok (ect_timeline_in x)"

interpretation exact_clip_text: item_format write_exact_clip read_exact_clip exact_clip_ok id
  by unfold_locales (simp_all add: write_exact_clip_def read_exact_clip_def exact_clip_ok_def writers_head reads)

definition move_ok :: "LinkedClipMove \<Rightarrow> bool" where
  "move_ok x \<longleftrightarrow> plain (lcm_clip_id x) \<and> plain (lcm_track_id x) \<and> time_ok (lcm_timeline_in x)"

interpretation move_text: item_format write_move read_move move_ok id
  by unfold_locales (simp_all add: write_move_def read_move_def move_ok_def writers_head reads)

definition linked_trim_ok :: "LinkedClipTrim \<Rightarrow> bool" where
  "linked_trim_ok x \<longleftrightarrow> plain (lct_clip_id x) \<and> time_ok (lct_delta x)"

interpretation linked_trim_text: item_format write_linked_trim read_linked_trim linked_trim_ok id
  by unfold_locales (simp_all add: write_linked_trim_def read_linked_trim_def linked_trim_ok_def writers_head reads)

definition air_trim_ok :: "BoundaryAirTrim \<Rightarrow> bool" where
  "air_trim_ok x \<longleftrightarrow> time_ok (bat_delta x)"

interpretation air_trim_text: item_format write_air_trim read_air_trim air_trim_ok id
  by unfold_locales (simp_all add: write_air_trim_def read_air_trim_def air_trim_ok_def writers_head reads)

definition roll_pair_ok :: "RollEditPair \<Rightarrow> bool" where
  "roll_pair_ok x \<longleftrightarrow> plain (rep_left_clip_id x) \<and> plain (rep_right_clip_id x)"

interpretation roll_pair_text: item_format write_roll_pair read_roll_pair roll_pair_ok id
  by unfold_locales (simp_all add: write_roll_pair_def read_roll_pair_def roll_pair_ok_def writers_head reads)

definition range_ok :: "WordRemovalRange \<Rightarrow> bool" where
  "range_ok x \<longleftrightarrow> time_ok (wrr_source_start x) \<and> time_ok (wrr_source_end x)"

interpretation range_text: item_format write_range read_range range_ok id
  by unfold_locales (simp_all add: write_range_def read_range_def range_ok_def writers_head reads)

definition pasted_ok :: "PastedClip \<Rightarrow> bool" where
  "pasted_ok x \<longleftrightarrow> time_ok (pc_source_in x) \<and> time_ok (pc_duration x) \<and> time_ok (pc_timeline_in x) \<and> time_ok (pc_sync_reference_delta x)"

interpretation pasted_text: item_format write_pasted read_pasted pasted_ok id
  by unfold_locales (simp_all add: write_pasted_def read_pasted_def pasted_ok_def writers_head reads)

definition link_state_ok :: "LinkExactState \<Rightarrow> bool" where
  "link_state_ok x \<longleftrightarrow> plain (les_group_id x) \<and> plain (les_anchor_clip_id x) \<and> time_ok (les_reference_delta x)"

interpretation link_state_text: item_format write_link_state read_link_state link_state_ok id
  by unfold_locales (simp_all add: write_link_state_def read_link_state_def link_state_ok_def writers_head reads)

definition angle_ok :: "MulticamAngle \<Rightarrow> bool" where
  "angle_ok x \<longleftrightarrow> True"

interpretation angle_text: item_format write_angle read_angle angle_ok id
  by unfold_locales (simp_all add: write_angle_def read_angle_def angle_ok_def writers_head reads)

section \<open>Storable operations\<close>

text \<open>
  Identifiers that are streamed unescaped are plain, numbers fit the fields they are read
  into, and effect parameters are in the order of their map.  The identifiers of a valid document
  are plain; numbers of the C++ types always fit.
\<close>

primrec storable :: "Operation \<Rightarrow> bool" where
  "storable (InsertClip v) = (plain (ico_track_id v) \<and> plain (ico_source_id v) \<and> time_ok (ico_source_in v) \<and> time_ok (ico_duration v) \<and> time_ok (ico_timeline_in v) \<and> plain (ico_clip_id v) \<and> list_all position_ok (ico_exact_timeline_result v))"
| "storable (RemoveClip v) = (plain (rco_clip_id v) \<and> list_all position_ok (rco_exact_timeline_result v))"
| "storable (ClearClip v) = (list_all track_ok (cco_exact_track_result v))"
| "storable (ClearClips v) = (list_all track_ok (ccs_exact_track_result v))"
| "storable (PasteClips v) = (list_all pasted_ok (pco_clips v) \<and> list_all track_ok (pco_exact_track_result v))"
| "storable (TrimClip v) = (plain (tco_clip_id v) \<and> time_ok (tco_delta v) \<and> pred_option exact_clip_ok (tco_exact_clip_result v))"
| "storable (MoveClip v) = (plain (mco_clip_id v) \<and> plain (mco_track_id v) \<and> time_ok (mco_timeline_in v) \<and> list_all track_ok (mco_exact_track_result v))"
| "storable (MoveClips v) = (list_all move_ok (mcs_moves v) \<and> list_all track_ok (mcs_exact_track_result v))"
| "storable (DeleteGap v) = (plain (dgo_track_id v) \<and> time_ok (dgo_gap_start v) \<and> time_ok (dgo_gap_duration v) \<and> list_all track_ok (dgo_exact_track_result v))"
| "storable (DetachAudio v) = (plain (dao_video_clip_id v) \<and> plain (dao_audio_track_id v) \<and> plain (dao_audio_clip_id v) \<and> list_all track_ok (dao_exact_track_result v))"
| "storable (MoveLinkedClips v) = (plain (mlo_link_group_id v) \<and> list_all move_ok (mlo_moves v) \<and> list_all track_ok (mlo_exact_track_result v))"
| "storable (TrimLinkedClips v) = (plain (tlo_link_group_id v) \<and> list_all linked_trim_ok (tlo_trims v) \<and> list_all track_ok (tlo_exact_track_result v))"
| "storable (RippleTrim v) = (plain (rto_clip_id v) \<and> time_ok (rto_delta v) \<and> list_all track_ok (rto_exact_track_result v))"
| "storable (TrimBoundaryAir v) = (list_all air_trim_ok (tba_trims v) \<and> list_all track_ok (tba_exact_track_result v))"
| "storable (RollEdit v) = (list_all roll_pair_ok (reo_pairs v) \<and> time_ok (reo_delta v) \<and> list_all track_ok (reo_exact_track_result v))"
| "storable (SlipEdit v) = (time_ok (seo_delta v) \<and> list_all track_ok (seo_exact_track_result v))"
| "storable (RemoveLinkedClips v) = (plain (rlo_link_group_id v) \<and> list_all track_ok (rlo_exact_track_result v))"
| "storable (ClearLinkedClips v) = (list_all track_ok (clo_exact_track_result v))"
| "storable (AddTrack v) = (plain (ato_track_id v) \<and> plain (ato_kind v) \<and> in_int32 (ato_index v) \<and> list_all clip_ok (ato_clips v))"
| "storable (RemoveTrack v) = (plain (rmt_track_id v))"
| "storable (SetTrackLock v) = (plain (stl_track_id v))"
| "storable (SetTrackSyncLock v) = (plain (sts_track_id v))"
| "storable (SetTrackOutput v) = (plain (sto_track_id v))"
| "storable (UpdateSequence v) = (plain (uso_sequence_id v) \<and> in_int32 (uso_width v) \<and> in_int32 (uso_height v) \<and> in_int32 (mr_num (uso_frame_rate v)) \<and> in_int32 (mr_den (uso_frame_rate v)))"
| "storable (SetColorManagement v) = True"
| "storable (SplitClip v) = (plain (sco_clip_id v) \<and> time_ok (sco_timeline_position v) \<and> plain (sco_right_clip_id v))"
| "storable (SplitLinkedClips v) = (time_ok (slo_timeline_position v) \<and> list_all track_ok (slo_exact_track_result v))"
| "storable (JoinClip v) = (plain (jco_left_clip_id v) \<and> plain (jco_right_clip_id v) \<and> exact_clip_ok (jco_joined_times v))"
| "storable (AddBin v) = (plain (abo_bin_id v) \<and> plain (abo_parent_id v))"
| "storable (RemoveBin v) = (plain (rbo_bin_id v) \<and> plain (rbo_parent_id v))"
| "storable (RenameBin v) = (plain (rnb_bin_id v))"
| "storable (MoveBin v) = (plain (mbo_bin_id v) \<and> plain (mbo_parent_id v))"
| "storable (SetMediaBin v) = (plain (smb_media_id v) \<and> plain (smb_bin_id v))"
| "storable (AddMarker v) = (plain (mk_id (amo_marker v)) \<and> time_ok (mk_time (amo_marker v)) \<and> in_int64 (amo_insertion_index v))"
| "storable (RemoveMarker v) = (plain (rmo_marker_id v))"
| "storable (UpdateMarker v) = (plain (umo_marker_id v) \<and> time_ok (umo_time v))"
| "storable (AddTransition v) = (time_ok (trn_duration (atr_transition v)) \<and> in_int64 (atr_insertion_index v))"
| "storable (RemoveTransition v) = True"
| "storable (UpdateTransition v) = (time_ok (utr_duration v))"
| "storable (SetClipLink v) = (plain (slk_first_clip_id v) \<and> plain (slk_second_clip_id v) \<and> plain (slk_first_group_id v) \<and> plain (slk_second_group_id v) \<and> pred_option link_state_ok (slk_exact_first_result v) \<and> pred_option link_state_ok (slk_exact_second_result v))"
| "storable (SetClipEffects v) = (plain (sfx_clip_id v) \<and> list_all effect_ok (sfx_effects v))"
| "storable (SetClipOpacity v) = (plain (sop_clip_id v) \<and> param_ok (sop_opacity v))"
| "storable (SetClipAudio v) = (plain (sao_clip_id v) \<and> param_ok (sao_gain_db v) \<and> time_ok (sao_fade_in v) \<and> time_ok (sao_fade_out v))"
| "storable (AddCaptionStyle v) = (plain (cs_id (acs_style v)) \<and> in_int32 (cs_font_size (acs_style v)) \<and> in_int64 (acs_insertion_index v))"
| "storable (RemoveCaptionStyle v) = (plain (rcs_style_id v))"
| "storable (SetClipCaption v) = (plain (scc_clip_id v) \<and> plain (scc_caption_group_id v))"
| "storable (AddMulticamGroup v) = (in_int64 (amg_insertion_index v))"
| "storable (RemoveMulticamGroup v) = True"
| "storable (SetMulticamActiveAngle v) = True"
| "storable (RemoveWords v) = (plain (rwo_clip_id v) \<and> list_all range_ok (rwo_ranges v) \<and> time_ok (rwo_gap_padding v) \<and> list_all track_ok (rwo_exact_track_result v))"
| "storable (SplitClipAtPositions v) = (list_all time_ok (spo_positions v) \<and> list_all track_ok (spo_exact_track_result v))"

text \<open>What is read back: the clips of exact track states lose what is not stored.\<close>

primrec stored_operation :: "Operation \<Rightarrow> Operation" where
  "stored_operation (InsertClip v) = InsertClip v"
| "stored_operation (RemoveClip v) = RemoveClip v"
| "stored_operation (ClearClip v) = ClearClip (v\<lparr>cco_exact_track_result := map stored_track (cco_exact_track_result v)\<rparr>)"
| "stored_operation (ClearClips v) = ClearClips (v\<lparr>ccs_exact_track_result := map stored_track (ccs_exact_track_result v)\<rparr>)"
| "stored_operation (PasteClips v) = PasteClips (v\<lparr>pco_exact_track_result := map stored_track (pco_exact_track_result v)\<rparr>)"
| "stored_operation (TrimClip v) = TrimClip v"
| "stored_operation (MoveClip v) = MoveClip (v\<lparr>mco_exact_track_result := map stored_track (mco_exact_track_result v)\<rparr>)"
| "stored_operation (MoveClips v) = MoveClips (v\<lparr>mcs_exact_track_result := map stored_track (mcs_exact_track_result v)\<rparr>)"
| "stored_operation (DeleteGap v) = DeleteGap (v\<lparr>dgo_exact_track_result := map stored_track (dgo_exact_track_result v)\<rparr>)"
| "stored_operation (DetachAudio v) = DetachAudio (v\<lparr>dao_exact_track_result := map stored_track (dao_exact_track_result v)\<rparr>)"
| "stored_operation (MoveLinkedClips v) = MoveLinkedClips (v\<lparr>mlo_exact_track_result := map stored_track (mlo_exact_track_result v)\<rparr>)"
| "stored_operation (TrimLinkedClips v) = TrimLinkedClips (v\<lparr>tlo_exact_track_result := map stored_track (tlo_exact_track_result v)\<rparr>)"
| "stored_operation (RippleTrim v) = RippleTrim (v\<lparr>rto_exact_track_result := map stored_track (rto_exact_track_result v)\<rparr>)"
| "stored_operation (TrimBoundaryAir v) = TrimBoundaryAir (v\<lparr>tba_exact_track_result := map stored_track (tba_exact_track_result v)\<rparr>)"
| "stored_operation (RollEdit v) = RollEdit (v\<lparr>reo_exact_track_result := map stored_track (reo_exact_track_result v)\<rparr>)"
| "stored_operation (SlipEdit v) = SlipEdit (v\<lparr>seo_exact_track_result := map stored_track (seo_exact_track_result v)\<rparr>)"
| "stored_operation (RemoveLinkedClips v) = RemoveLinkedClips (v\<lparr>rlo_exact_track_result := map stored_track (rlo_exact_track_result v)\<rparr>)"
| "stored_operation (ClearLinkedClips v) = ClearLinkedClips (v\<lparr>clo_exact_track_result := map stored_track (clo_exact_track_result v)\<rparr>)"
| "stored_operation (AddTrack v) = AddTrack (v\<lparr>ato_clips := map stored_clip (ato_clips v)\<rparr>)"
| "stored_operation (RemoveTrack v) = RemoveTrack v"
| "stored_operation (SetTrackLock v) = SetTrackLock v"
| "stored_operation (SetTrackSyncLock v) = SetTrackSyncLock v"
| "stored_operation (SetTrackOutput v) = SetTrackOutput v"
| "stored_operation (UpdateSequence v) = UpdateSequence v"
| "stored_operation (SetColorManagement v) = SetColorManagement v"
| "stored_operation (SplitClip v) = SplitClip v"
| "stored_operation (SplitLinkedClips v) = SplitLinkedClips (v\<lparr>slo_exact_track_result := map stored_track (slo_exact_track_result v)\<rparr>)"
| "stored_operation (JoinClip v) = JoinClip v"
| "stored_operation (AddBin v) = AddBin v"
| "stored_operation (RemoveBin v) = RemoveBin v"
| "stored_operation (RenameBin v) = RenameBin v"
| "stored_operation (MoveBin v) = MoveBin v"
| "stored_operation (SetMediaBin v) = SetMediaBin v"
| "stored_operation (AddMarker v) = AddMarker v"
| "stored_operation (RemoveMarker v) = RemoveMarker v"
| "stored_operation (UpdateMarker v) = UpdateMarker v"
| "stored_operation (AddTransition v) = AddTransition v"
| "stored_operation (RemoveTransition v) = RemoveTransition v"
| "stored_operation (UpdateTransition v) = UpdateTransition v"
| "stored_operation (SetClipLink v) = SetClipLink v"
| "stored_operation (SetClipEffects v) = SetClipEffects v"
| "stored_operation (SetClipOpacity v) = SetClipOpacity v"
| "stored_operation (SetClipAudio v) = SetClipAudio v"
| "stored_operation (AddCaptionStyle v) = AddCaptionStyle v"
| "stored_operation (RemoveCaptionStyle v) = RemoveCaptionStyle v"
| "stored_operation (SetClipCaption v) = SetClipCaption v"
| "stored_operation (AddMulticamGroup v) = AddMulticamGroup v"
| "stored_operation (RemoveMulticamGroup v) = RemoveMulticamGroup v"
| "stored_operation (SetMulticamActiveAngle v) = SetMulticamActiveAngle v"
| "stored_operation (RemoveWords v) = RemoveWords (v\<lparr>rwo_exact_track_result := map stored_track (rwo_exact_track_result v)\<rparr>)"
| "stored_operation (SplitClipAtPositions v) = SplitClipAtPositions (v\<lparr>spo_exact_track_result := map stored_track (spo_exact_track_result v)\<rparr>)"

section \<open>Each operation is read back\<close>

lemma InsertClip_back: "storable (InsertClip v) \<Longrightarrow> read_InsertClip (write_InsertClip v @ s) = Inr (stored_operation (InsertClip v), s)"
  by (cases v) (simp add: write_InsertClip_def read_InsertClip_def reads int32_int64 Let_def option.map_id)

lemma RemoveClip_back: "storable (RemoveClip v) \<Longrightarrow> read_RemoveClip (write_RemoveClip v @ s) = Inr (stored_operation (RemoveClip v), s)"
  by (cases v) (simp add: write_RemoveClip_def read_RemoveClip_def reads int32_int64 Let_def option.map_id)

lemma ClearClip_back: "storable (ClearClip v) \<Longrightarrow> read_ClearClip (write_ClearClip v @ s) = Inr (stored_operation (ClearClip v), s)"
  by (cases v) (simp add: write_ClearClip_def read_ClearClip_def reads int32_int64 Let_def option.map_id)

lemma ClearClips_back: "storable (ClearClips v) \<Longrightarrow> read_ClearClips (write_ClearClips v @ s) = Inr (stored_operation (ClearClips v), s)"
  by (cases v) (simp add: write_ClearClips_def read_ClearClips_def reads int32_int64 Let_def option.map_id)

lemma PasteClips_back: "storable (PasteClips v) \<Longrightarrow> read_PasteClips (write_PasteClips v @ s) = Inr (stored_operation (PasteClips v), s)"
  by (cases v) (simp add: write_PasteClips_def read_PasteClips_def reads int32_int64 Let_def option.map_id)

lemma TrimClip_back: "storable (TrimClip v) \<Longrightarrow> read_TrimClip (write_TrimClip v @ s) = Inr (stored_operation (TrimClip v), s)"
  by (cases v) (simp add: write_TrimClip_def read_TrimClip_def reads int32_int64 Let_def option.map_id)

lemma MoveClip_back: "storable (MoveClip v) \<Longrightarrow> read_MoveClip (write_MoveClip v @ s) = Inr (stored_operation (MoveClip v), s)"
  by (cases v) (simp add: write_MoveClip_def read_MoveClip_def reads int32_int64 Let_def option.map_id)

lemma MoveClips_back: "storable (MoveClips v) \<Longrightarrow> read_MoveClips (write_MoveClips v @ s) = Inr (stored_operation (MoveClips v), s)"
  by (cases v) (simp add: write_MoveClips_def read_MoveClips_def reads int32_int64 Let_def option.map_id)

lemma DeleteGap_back: "storable (DeleteGap v) \<Longrightarrow> read_DeleteGap (write_DeleteGap v @ s) = Inr (stored_operation (DeleteGap v), s)"
  by (cases v) (simp add: write_DeleteGap_def read_DeleteGap_def reads int32_int64 Let_def option.map_id)

lemma DetachAudio_back: "storable (DetachAudio v) \<Longrightarrow> read_DetachAudio (write_DetachAudio v @ s) = Inr (stored_operation (DetachAudio v), s)"
  by (cases v) (simp add: write_DetachAudio_def read_DetachAudio_def reads int32_int64 Let_def option.map_id)

lemma MoveLinkedClips_back: "storable (MoveLinkedClips v) \<Longrightarrow> read_MoveLinkedClips (write_MoveLinkedClips v @ s) = Inr (stored_operation (MoveLinkedClips v), s)"
  by (cases v) (simp add: write_MoveLinkedClips_def read_MoveLinkedClips_def reads int32_int64 Let_def option.map_id)

lemma TrimLinkedClips_back: "storable (TrimLinkedClips v) \<Longrightarrow> read_TrimLinkedClips (write_TrimLinkedClips v @ s) = Inr (stored_operation (TrimLinkedClips v), s)"
  by (cases v) (simp add: write_TrimLinkedClips_def read_TrimLinkedClips_def reads int32_int64 Let_def option.map_id)

lemma RippleTrim_back: "storable (RippleTrim v) \<Longrightarrow> read_RippleTrim (write_RippleTrim v @ s) = Inr (stored_operation (RippleTrim v), s)"
  by (cases v) (simp add: write_RippleTrim_def read_RippleTrim_def reads int32_int64 Let_def option.map_id)

lemma TrimBoundaryAir_back: "storable (TrimBoundaryAir v) \<Longrightarrow> read_TrimBoundaryAir (write_TrimBoundaryAir v @ s) = Inr (stored_operation (TrimBoundaryAir v), s)"
  by (cases v) (simp add: write_TrimBoundaryAir_def read_TrimBoundaryAir_def reads int32_int64 Let_def option.map_id)

lemma RollEdit_back: "storable (RollEdit v) \<Longrightarrow> read_RollEdit (write_RollEdit v @ s) = Inr (stored_operation (RollEdit v), s)"
  by (cases v) (simp add: write_RollEdit_def read_RollEdit_def reads int32_int64 Let_def option.map_id)

lemma SlipEdit_back: "storable (SlipEdit v) \<Longrightarrow> read_SlipEdit (write_SlipEdit v @ s) = Inr (stored_operation (SlipEdit v), s)"
  by (cases v) (simp add: write_SlipEdit_def read_SlipEdit_def reads int32_int64 Let_def option.map_id)

lemma RemoveLinkedClips_back: "storable (RemoveLinkedClips v) \<Longrightarrow> read_RemoveLinkedClips (write_RemoveLinkedClips v @ s) = Inr (stored_operation (RemoveLinkedClips v), s)"
  by (cases v) (simp add: write_RemoveLinkedClips_def read_RemoveLinkedClips_def reads int32_int64 Let_def option.map_id)

lemma ClearLinkedClips_back: "storable (ClearLinkedClips v) \<Longrightarrow> read_ClearLinkedClips (write_ClearLinkedClips v @ s) = Inr (stored_operation (ClearLinkedClips v), s)"
  by (cases v) (simp add: write_ClearLinkedClips_def read_ClearLinkedClips_def reads int32_int64 Let_def option.map_id)

lemma AddTrack_back: "storable (AddTrack v) \<Longrightarrow> read_AddTrack (write_AddTrack v @ s) = Inr (stored_operation (AddTrack v), s)"
  by (cases v; cases "ato_clips v = []") (simp_all add: write_AddTrack_def read_AddTrack_def reads int32_int64 track_ok_def stored_track_def Let_def)

lemma RemoveTrack_back: "storable (RemoveTrack v) \<Longrightarrow> read_RemoveTrack (write_RemoveTrack v @ s) = Inr (stored_operation (RemoveTrack v), s)"
  by (cases v) (simp add: write_RemoveTrack_def read_RemoveTrack_def reads int32_int64 Let_def option.map_id)

lemma SetTrackLock_back: "storable (SetTrackLock v) \<Longrightarrow> read_SetTrackLock (write_SetTrackLock v @ s) = Inr (stored_operation (SetTrackLock v), s)"
  by (cases v) (simp add: write_SetTrackLock_def read_SetTrackLock_def reads int32_int64 Let_def option.map_id)

lemma SetTrackSyncLock_back: "storable (SetTrackSyncLock v) \<Longrightarrow> read_SetTrackSyncLock (write_SetTrackSyncLock v @ s) = Inr (stored_operation (SetTrackSyncLock v), s)"
  by (cases v) (simp add: write_SetTrackSyncLock_def read_SetTrackSyncLock_def reads int32_int64 Let_def option.map_id)

lemma SetTrackOutput_back: "storable (SetTrackOutput v) \<Longrightarrow> read_SetTrackOutput (write_SetTrackOutput v @ s) = Inr (stored_operation (SetTrackOutput v), s)"
  by (cases v) (simp add: write_SetTrackOutput_def read_SetTrackOutput_def reads int32_int64 Let_def option.map_id)

lemma UpdateSequence_back: "storable (UpdateSequence v) \<Longrightarrow> read_UpdateSequence (write_UpdateSequence v @ s) = Inr (stored_operation (UpdateSequence v), s)"
  by (cases v) (simp add: write_UpdateSequence_def read_UpdateSequence_def reads int32_int64 Let_def option.map_id)

lemma SetColorManagement_back: "storable (SetColorManagement v) \<Longrightarrow> read_SetColorManagement (write_SetColorManagement v @ s) = Inr (stored_operation (SetColorManagement v), s)"
  by (cases v) (simp add: write_SetColorManagement_def read_SetColorManagement_def reads int32_int64 Let_def option.map_id)

lemma SplitClip_back: "storable (SplitClip v) \<Longrightarrow> read_SplitClip (write_SplitClip v @ s) = Inr (stored_operation (SplitClip v), s)"
  by (cases v) (simp add: write_SplitClip_def read_SplitClip_def reads int32_int64 Let_def option.map_id)

lemma SplitLinkedClips_back: "storable (SplitLinkedClips v) \<Longrightarrow> read_SplitLinkedClips (write_SplitLinkedClips v @ s) = Inr (stored_operation (SplitLinkedClips v), s)"
  by (cases v) (simp add: write_SplitLinkedClips_def read_SplitLinkedClips_def reads int32_int64 Let_def option.map_id)

lemma JoinClip_back: "storable (JoinClip v) \<Longrightarrow> read_JoinClip (write_JoinClip v @ s) = Inr (stored_operation (JoinClip v), s)"
  by (cases v) (simp add: write_JoinClip_def read_JoinClip_def reads int32_int64 Let_def option.map_id exact_clip_ok_def write_exact_clip_def)

lemma AddBin_back: "storable (AddBin v) \<Longrightarrow> read_AddBin (write_AddBin v @ s) = Inr (stored_operation (AddBin v), s)"
  by (cases v) (simp add: write_AddBin_def read_AddBin_def reads int32_int64 Let_def option.map_id)

lemma RemoveBin_back: "storable (RemoveBin v) \<Longrightarrow> read_RemoveBin (write_RemoveBin v @ s) = Inr (stored_operation (RemoveBin v), s)"
  by (cases v) (simp add: write_RemoveBin_def read_RemoveBin_def reads int32_int64 Let_def option.map_id)

lemma RenameBin_back: "storable (RenameBin v) \<Longrightarrow> read_RenameBin (write_RenameBin v @ s) = Inr (stored_operation (RenameBin v), s)"
  by (cases v) (simp add: write_RenameBin_def read_RenameBin_def reads int32_int64 Let_def option.map_id)

lemma MoveBin_back: "storable (MoveBin v) \<Longrightarrow> read_MoveBin (write_MoveBin v @ s) = Inr (stored_operation (MoveBin v), s)"
  by (cases v) (simp add: write_MoveBin_def read_MoveBin_def reads int32_int64 Let_def option.map_id)

lemma SetMediaBin_back: "storable (SetMediaBin v) \<Longrightarrow> read_SetMediaBin (write_SetMediaBin v @ s) = Inr (stored_operation (SetMediaBin v), s)"
  by (cases v) (simp add: write_SetMediaBin_def read_SetMediaBin_def reads int32_int64 Let_def option.map_id)

lemma AddMarker_back: "storable (AddMarker v) \<Longrightarrow> read_AddMarker (write_AddMarker v @ s) = Inr (stored_operation (AddMarker v), s)"
  by (cases v) (simp add: write_AddMarker_def read_AddMarker_def reads int32_int64 Let_def option.map_id)

lemma RemoveMarker_back: "storable (RemoveMarker v) \<Longrightarrow> read_RemoveMarker (write_RemoveMarker v @ s) = Inr (stored_operation (RemoveMarker v), s)"
  by (cases v) (simp add: write_RemoveMarker_def read_RemoveMarker_def reads int32_int64 Let_def option.map_id)

lemma UpdateMarker_back: "storable (UpdateMarker v) \<Longrightarrow> read_UpdateMarker (write_UpdateMarker v @ s) = Inr (stored_operation (UpdateMarker v), s)"
  by (cases v) (simp add: write_UpdateMarker_def read_UpdateMarker_def reads int32_int64 Let_def option.map_id)

lemma AddTransition_back: "storable (AddTransition v) \<Longrightarrow> read_AddTransition (write_AddTransition v @ s) = Inr (stored_operation (AddTransition v), s)"
  by (cases v) (simp add: write_AddTransition_def read_AddTransition_def reads int32_int64 Let_def option.map_id)

lemma RemoveTransition_back: "storable (RemoveTransition v) \<Longrightarrow> read_RemoveTransition (write_RemoveTransition v @ s) = Inr (stored_operation (RemoveTransition v), s)"
  by (cases v) (simp add: write_RemoveTransition_def read_RemoveTransition_def reads int32_int64 Let_def option.map_id)

lemma UpdateTransition_back: "storable (UpdateTransition v) \<Longrightarrow> read_UpdateTransition (write_UpdateTransition v @ s) = Inr (stored_operation (UpdateTransition v), s)"
  by (cases v) (simp add: write_UpdateTransition_def read_UpdateTransition_def reads int32_int64 Let_def option.map_id)

lemma SetClipLink_back: "storable (SetClipLink v) \<Longrightarrow> read_SetClipLink (write_SetClipLink v @ s) = Inr (stored_operation (SetClipLink v), s)"
  by (cases v) (simp add: write_SetClipLink_def read_SetClipLink_def reads int32_int64 Let_def option.map_id)

lemma SetClipEffects_back: "storable (SetClipEffects v) \<Longrightarrow> read_SetClipEffects (write_SetClipEffects v @ s) = Inr (stored_operation (SetClipEffects v), s)"
  by (cases v) (simp add: write_SetClipEffects_def read_SetClipEffects_def reads int32_int64 Let_def option.map_id)

lemma SetClipOpacity_back: "storable (SetClipOpacity v) \<Longrightarrow> read_SetClipOpacity (write_SetClipOpacity v @ s) = Inr (stored_operation (SetClipOpacity v), s)"
  by (cases v) (simp add: write_SetClipOpacity_def read_SetClipOpacity_def reads int32_int64 Let_def option.map_id)

lemma SetClipAudio_back: "storable (SetClipAudio v) \<Longrightarrow> read_SetClipAudio (write_SetClipAudio v @ s) = Inr (stored_operation (SetClipAudio v), s)"
  by (cases v) (simp add: write_SetClipAudio_def read_SetClipAudio_def reads int32_int64 Let_def option.map_id)

lemma AddCaptionStyle_back: "storable (AddCaptionStyle v) \<Longrightarrow> read_AddCaptionStyle (write_AddCaptionStyle v @ s) = Inr (stored_operation (AddCaptionStyle v), s)"
  by (cases v) (simp add: write_AddCaptionStyle_def read_AddCaptionStyle_def reads int32_int64 Let_def option.map_id)

lemma RemoveCaptionStyle_back: "storable (RemoveCaptionStyle v) \<Longrightarrow> read_RemoveCaptionStyle (write_RemoveCaptionStyle v @ s) = Inr (stored_operation (RemoveCaptionStyle v), s)"
  by (cases v) (simp add: write_RemoveCaptionStyle_def read_RemoveCaptionStyle_def reads int32_int64 Let_def option.map_id)

lemma SetClipCaption_back: "storable (SetClipCaption v) \<Longrightarrow> read_SetClipCaption (write_SetClipCaption v @ s) = Inr (stored_operation (SetClipCaption v), s)"
  by (cases v) (simp add: write_SetClipCaption_def read_SetClipCaption_def reads int32_int64 Let_def option.map_id)

lemma AddMulticamGroup_back: "storable (AddMulticamGroup v) \<Longrightarrow> read_AddMulticamGroup (write_AddMulticamGroup v @ s) = Inr (stored_operation (AddMulticamGroup v), s)"
  by (cases v) (simp add: write_AddMulticamGroup_def read_AddMulticamGroup_def reads int32_int64 Let_def option.map_id angle_ok_def list_all_iff)

lemma RemoveMulticamGroup_back: "storable (RemoveMulticamGroup v) \<Longrightarrow> read_RemoveMulticamGroup (write_RemoveMulticamGroup v @ s) = Inr (stored_operation (RemoveMulticamGroup v), s)"
  by (cases v) (simp add: write_RemoveMulticamGroup_def read_RemoveMulticamGroup_def reads int32_int64 Let_def option.map_id)

lemma SetMulticamActiveAngle_back: "storable (SetMulticamActiveAngle v) \<Longrightarrow> read_SetMulticamActiveAngle (write_SetMulticamActiveAngle v @ s) = Inr (stored_operation (SetMulticamActiveAngle v), s)"
  by (cases v) (simp add: write_SetMulticamActiveAngle_def read_SetMulticamActiveAngle_def reads int32_int64 Let_def option.map_id)

lemma RemoveWords_back: "storable (RemoveWords v) \<Longrightarrow> read_RemoveWords (write_RemoveWords v @ s) = Inr (stored_operation (RemoveWords v), s)"
  by (cases v) (simp add: write_RemoveWords_def read_RemoveWords_def reads int32_int64 Let_def option.map_id)

lemma SplitClipAtPositions_back: "storable (SplitClipAtPositions v) \<Longrightarrow> read_SplitClipAtPositions (write_SplitClipAtPositions v @ s) = Inr (stored_operation (SplitClipAtPositions v), s)"
  by (cases v) (simp add: write_SplitClipAtPositions_def read_SplitClipAtPositions_def reads int32_int64 Let_def option.map_id)

lemmas operations_back =
  InsertClip_back RemoveClip_back ClearClip_back ClearClips_back
  PasteClips_back TrimClip_back MoveClip_back MoveClips_back
  DeleteGap_back DetachAudio_back MoveLinkedClips_back TrimLinkedClips_back
  RippleTrim_back TrimBoundaryAir_back RollEdit_back SlipEdit_back
  RemoveLinkedClips_back ClearLinkedClips_back AddTrack_back RemoveTrack_back
  SetTrackLock_back SetTrackSyncLock_back SetTrackOutput_back UpdateSequence_back
  SetColorManagement_back SplitClip_back SplitLinkedClips_back JoinClip_back
  AddBin_back RemoveBin_back RenameBin_back MoveBin_back
  SetMediaBin_back AddMarker_back RemoveMarker_back UpdateMarker_back
  AddTransition_back RemoveTransition_back UpdateTransition_back SetClipLink_back
  SetClipEffects_back SetClipOpacity_back SetClipAudio_back AddCaptionStyle_back
  RemoveCaptionStyle_back SetClipCaption_back AddMulticamGroup_back RemoveMulticamGroup_back
  SetMulticamActiveAngle_back RemoveWords_back SplitClipAtPositions_back

section \<open>The whole text\<close>

lemma reader_of_type:
  "map_of operation_readers name = Some r \<Longrightarrow> plain name \<Longrightarrow> read_operation (typed name body @ s) = r (body @ s)"
  by (simp add: read_operation_def typed_def reads)

lemma read_operation_back:
  assumes "storable operation"
  shows "read_operation (SerializeOperation operation @ s) = Inr (stored_operation operation, s)"
proof (cases operation)
  case (InsertClip v)
  then show ?thesis
    using InsertClip_back [of v s] assms reader_of_type [of "''InsertClip''" read_InsertClip "write_InsertClip v" s] by (simp add: operation_readers_def plain_def)
next
  case (RemoveClip v)
  then show ?thesis
    using RemoveClip_back [of v s] assms reader_of_type [of "''RemoveClip''" read_RemoveClip "write_RemoveClip v" s] by (simp add: operation_readers_def plain_def)
next
  case (ClearClip v)
  then show ?thesis
    using ClearClip_back [of v s] assms reader_of_type [of "''ClearClip''" read_ClearClip "write_ClearClip v" s] by (simp add: operation_readers_def plain_def)
next
  case (ClearClips v)
  then show ?thesis
    using ClearClips_back [of v s] assms reader_of_type [of "''ClearClips''" read_ClearClips "write_ClearClips v" s] by (simp add: operation_readers_def plain_def)
next
  case (PasteClips v)
  then show ?thesis
    using PasteClips_back [of v s] assms reader_of_type [of "''PasteClips''" read_PasteClips "write_PasteClips v" s] by (simp add: operation_readers_def plain_def)
next
  case (TrimClip v)
  then show ?thesis
    using TrimClip_back [of v s] assms reader_of_type [of "''TrimClip''" read_TrimClip "write_TrimClip v" s] by (simp add: operation_readers_def plain_def)
next
  case (MoveClip v)
  then show ?thesis
    using MoveClip_back [of v s] assms reader_of_type [of "''MoveClip''" read_MoveClip "write_MoveClip v" s] by (simp add: operation_readers_def plain_def)
next
  case (MoveClips v)
  then show ?thesis
    using MoveClips_back [of v s] assms reader_of_type [of "''MoveClips''" read_MoveClips "write_MoveClips v" s] by (simp add: operation_readers_def plain_def)
next
  case (DeleteGap v)
  then show ?thesis
    using DeleteGap_back [of v s] assms reader_of_type [of "''DeleteGap''" read_DeleteGap "write_DeleteGap v" s] by (simp add: operation_readers_def plain_def)
next
  case (DetachAudio v)
  then show ?thesis
    using DetachAudio_back [of v s] assms reader_of_type [of "''DetachAudio''" read_DetachAudio "write_DetachAudio v" s] by (simp add: operation_readers_def plain_def)
next
  case (MoveLinkedClips v)
  then show ?thesis
    using MoveLinkedClips_back [of v s] assms reader_of_type [of "''MoveLinkedClips''" read_MoveLinkedClips "write_MoveLinkedClips v" s] by (simp add: operation_readers_def plain_def)
next
  case (TrimLinkedClips v)
  then show ?thesis
    using TrimLinkedClips_back [of v s] assms reader_of_type [of "''TrimLinkedClips''" read_TrimLinkedClips "write_TrimLinkedClips v" s] by (simp add: operation_readers_def plain_def)
next
  case (RippleTrim v)
  then show ?thesis
    using RippleTrim_back [of v s] assms reader_of_type [of "''RippleTrim''" read_RippleTrim "write_RippleTrim v" s] by (simp add: operation_readers_def plain_def)
next
  case (TrimBoundaryAir v)
  then show ?thesis
    using TrimBoundaryAir_back [of v s] assms reader_of_type [of "''TrimBoundaryAir''" read_TrimBoundaryAir "write_TrimBoundaryAir v" s] by (simp add: operation_readers_def plain_def)
next
  case (RollEdit v)
  then show ?thesis
    using RollEdit_back [of v s] assms reader_of_type [of "''RollEdit''" read_RollEdit "write_RollEdit v" s] by (simp add: operation_readers_def plain_def)
next
  case (SlipEdit v)
  then show ?thesis
    using SlipEdit_back [of v s] assms reader_of_type [of "''SlipEdit''" read_SlipEdit "write_SlipEdit v" s] by (simp add: operation_readers_def plain_def)
next
  case (RemoveLinkedClips v)
  then show ?thesis
    using RemoveLinkedClips_back [of v s] assms reader_of_type [of "''RemoveLinkedClips''" read_RemoveLinkedClips "write_RemoveLinkedClips v" s] by (simp add: operation_readers_def plain_def)
next
  case (ClearLinkedClips v)
  then show ?thesis
    using ClearLinkedClips_back [of v s] assms reader_of_type [of "''ClearLinkedClips''" read_ClearLinkedClips "write_ClearLinkedClips v" s] by (simp add: operation_readers_def plain_def)
next
  case (AddTrack v)
  then show ?thesis
    using AddTrack_back [of v s] assms reader_of_type [of "''AddTrack''" read_AddTrack "write_AddTrack v" s] by (simp add: operation_readers_def plain_def)
next
  case (RemoveTrack v)
  then show ?thesis
    using RemoveTrack_back [of v s] assms reader_of_type [of "''RemoveTrack''" read_RemoveTrack "write_RemoveTrack v" s] by (simp add: operation_readers_def plain_def)
next
  case (SetTrackLock v)
  then show ?thesis
    using SetTrackLock_back [of v s] assms reader_of_type [of "''SetTrackLock''" read_SetTrackLock "write_SetTrackLock v" s] by (simp add: operation_readers_def plain_def)
next
  case (SetTrackSyncLock v)
  then show ?thesis
    using SetTrackSyncLock_back [of v s] assms reader_of_type [of "''SetTrackSyncLock''" read_SetTrackSyncLock "write_SetTrackSyncLock v" s] by (simp add: operation_readers_def plain_def)
next
  case (SetTrackOutput v)
  then show ?thesis
    using SetTrackOutput_back [of v s] assms reader_of_type [of "''SetTrackOutput''" read_SetTrackOutput "write_SetTrackOutput v" s] by (simp add: operation_readers_def plain_def)
next
  case (UpdateSequence v)
  then show ?thesis
    using UpdateSequence_back [of v s] assms reader_of_type [of "''UpdateSequence''" read_UpdateSequence "write_UpdateSequence v" s] by (simp add: operation_readers_def plain_def)
next
  case (SetColorManagement v)
  then show ?thesis
    using SetColorManagement_back [of v s] assms reader_of_type [of "''SetColorManagement''" read_SetColorManagement "write_SetColorManagement v" s] by (simp add: operation_readers_def plain_def)
next
  case (SplitClip v)
  then show ?thesis
    using SplitClip_back [of v s] assms reader_of_type [of "''SplitClip''" read_SplitClip "write_SplitClip v" s] by (simp add: operation_readers_def plain_def)
next
  case (SplitLinkedClips v)
  then show ?thesis
    using SplitLinkedClips_back [of v s] assms reader_of_type [of "''SplitLinkedClips''" read_SplitLinkedClips "write_SplitLinkedClips v" s] by (simp add: operation_readers_def plain_def)
next
  case (JoinClip v)
  then show ?thesis
    using JoinClip_back [of v s] assms reader_of_type [of "''JoinClip''" read_JoinClip "write_JoinClip v" s] by (simp add: operation_readers_def plain_def)
next
  case (AddBin v)
  then show ?thesis
    using AddBin_back [of v s] assms reader_of_type [of "''AddBin''" read_AddBin "write_AddBin v" s] by (simp add: operation_readers_def plain_def)
next
  case (RemoveBin v)
  then show ?thesis
    using RemoveBin_back [of v s] assms reader_of_type [of "''RemoveBin''" read_RemoveBin "write_RemoveBin v" s] by (simp add: operation_readers_def plain_def)
next
  case (RenameBin v)
  then show ?thesis
    using RenameBin_back [of v s] assms reader_of_type [of "''RenameBin''" read_RenameBin "write_RenameBin v" s] by (simp add: operation_readers_def plain_def)
next
  case (MoveBin v)
  then show ?thesis
    using MoveBin_back [of v s] assms reader_of_type [of "''MoveBin''" read_MoveBin "write_MoveBin v" s] by (simp add: operation_readers_def plain_def)
next
  case (SetMediaBin v)
  then show ?thesis
    using SetMediaBin_back [of v s] assms reader_of_type [of "''SetMediaBin''" read_SetMediaBin "write_SetMediaBin v" s] by (simp add: operation_readers_def plain_def)
next
  case (AddMarker v)
  then show ?thesis
    using AddMarker_back [of v s] assms reader_of_type [of "''AddMarker''" read_AddMarker "write_AddMarker v" s] by (simp add: operation_readers_def plain_def)
next
  case (RemoveMarker v)
  then show ?thesis
    using RemoveMarker_back [of v s] assms reader_of_type [of "''RemoveMarker''" read_RemoveMarker "write_RemoveMarker v" s] by (simp add: operation_readers_def plain_def)
next
  case (UpdateMarker v)
  then show ?thesis
    using UpdateMarker_back [of v s] assms reader_of_type [of "''UpdateMarker''" read_UpdateMarker "write_UpdateMarker v" s] by (simp add: operation_readers_def plain_def)
next
  case (AddTransition v)
  then show ?thesis
    using AddTransition_back [of v s] assms reader_of_type [of "''AddTransition''" read_AddTransition "write_AddTransition v" s] by (simp add: operation_readers_def plain_def)
next
  case (RemoveTransition v)
  then show ?thesis
    using RemoveTransition_back [of v s] assms reader_of_type [of "''RemoveTransition''" read_RemoveTransition "write_RemoveTransition v" s] by (simp add: operation_readers_def plain_def)
next
  case (UpdateTransition v)
  then show ?thesis
    using UpdateTransition_back [of v s] assms reader_of_type [of "''UpdateTransition''" read_UpdateTransition "write_UpdateTransition v" s] by (simp add: operation_readers_def plain_def)
next
  case (SetClipLink v)
  then show ?thesis
    using SetClipLink_back [of v s] assms reader_of_type [of "''SetClipLink''" read_SetClipLink "write_SetClipLink v" s] by (simp add: operation_readers_def plain_def)
next
  case (SetClipEffects v)
  then show ?thesis
    using SetClipEffects_back [of v s] assms reader_of_type [of "''SetClipEffects''" read_SetClipEffects "write_SetClipEffects v" s] by (simp add: operation_readers_def plain_def)
next
  case (SetClipOpacity v)
  then show ?thesis
    using SetClipOpacity_back [of v s] assms reader_of_type [of "''SetClipOpacity''" read_SetClipOpacity "write_SetClipOpacity v" s] by (simp add: operation_readers_def plain_def)
next
  case (SetClipAudio v)
  then show ?thesis
    using SetClipAudio_back [of v s] assms reader_of_type [of "''SetClipAudio''" read_SetClipAudio "write_SetClipAudio v" s] by (simp add: operation_readers_def plain_def)
next
  case (AddCaptionStyle v)
  then show ?thesis
    using AddCaptionStyle_back [of v s] assms reader_of_type [of "''AddCaptionStyle''" read_AddCaptionStyle "write_AddCaptionStyle v" s] by (simp add: operation_readers_def plain_def)
next
  case (RemoveCaptionStyle v)
  then show ?thesis
    using RemoveCaptionStyle_back [of v s] assms reader_of_type [of "''RemoveCaptionStyle''" read_RemoveCaptionStyle "write_RemoveCaptionStyle v" s] by (simp add: operation_readers_def plain_def)
next
  case (SetClipCaption v)
  then show ?thesis
    using SetClipCaption_back [of v s] assms reader_of_type [of "''SetClipCaption''" read_SetClipCaption "write_SetClipCaption v" s] by (simp add: operation_readers_def plain_def)
next
  case (AddMulticamGroup v)
  then show ?thesis
    using AddMulticamGroup_back [of v s] assms reader_of_type [of "''AddMulticamGroup''" read_AddMulticamGroup "write_AddMulticamGroup v" s] by (simp add: operation_readers_def plain_def)
next
  case (RemoveMulticamGroup v)
  then show ?thesis
    using RemoveMulticamGroup_back [of v s] assms reader_of_type [of "''RemoveMulticamGroup''" read_RemoveMulticamGroup "write_RemoveMulticamGroup v" s] by (simp add: operation_readers_def plain_def)
next
  case (SetMulticamActiveAngle v)
  then show ?thesis
    using SetMulticamActiveAngle_back [of v s] assms reader_of_type [of "''SetMulticamActiveAngle''" read_SetMulticamActiveAngle "write_SetMulticamActiveAngle v" s] by (simp add: operation_readers_def plain_def)
next
  case (RemoveWords v)
  then show ?thesis
    using RemoveWords_back [of v s] assms reader_of_type [of "''RemoveWords''" read_RemoveWords "write_RemoveWords v" s] by (simp add: operation_readers_def plain_def)
next
  case (SplitClipAtPositions v)
  then show ?thesis
    using SplitClipAtPositions_back [of v s] assms reader_of_type [of "''SplitClipAtPositions''" read_SplitClipAtPositions "write_SplitClipAtPositions v" s] by (simp add: operation_readers_def plain_def)
qed

lemma Deserialize_Serialize:
  assumes "storable operation"
  shows "DeserializeOperation (SerializeOperation operation) = Inr (stored_operation operation)"
proof -
  have "read_operation (SerializeOperation operation) = Inr (stored_operation operation, [])"
    using read_operation_back [OF assms, of "[]"] by simp
  then show ?thesis by (simp add: DeserializeOperation_def bindP_def Finish_def Skip_def ret_def)
qed

section \<open>The reader ends\<close>

lemma item_readers_end [ends_intro]:
  shows "ends (read_edge what)" and "ends read_alignment" and "ends r \<Longrightarrow> ends (read_optional r)"
    and "ends r \<Longrightarrow> (\<And>x. ends (k x)) \<Longrightarrow> ends (nested_field n m r k)"
    and "ends r \<Longrightarrow> (\<And>x. ends (k x)) \<Longrightarrow> ends (field_after_object n r k)" and "ends (closing_both y)"
    and "ends read_exact_clip" and "ends read_move" and "ends read_linked_trim" and "ends read_air_trim" and "ends read_roll_pair" and "ends read_range" and "ends read_pasted" and "ends read_link_state" and "ends read_angle"
  unfolding read_edge_def read_alignment_def read_optional_def nested_field_def field_after_object_def closing_both_def read_exact_clip_def
    read_move_def read_linked_trim_def read_air_trim_def read_roll_pair_def read_range_def read_pasted_def read_link_state_def read_angle_def
  by (intro ends_intro; simp)+

lemma operation_readers_end_1:
  shows "ends read_InsertClip" and "ends read_RemoveClip" and "ends read_ClearClip" and "ends read_ClearClips" and "ends read_PasteClips" and "ends read_TrimClip"
  unfolding read_InsertClip_def read_RemoveClip_def read_ClearClip_def read_ClearClips_def read_PasteClips_def read_TrimClip_def Let_def
  by (intro ends_intro)+

lemma operation_readers_end_2:
  shows "ends read_MoveClip" and "ends read_MoveClips" and "ends read_DeleteGap" and "ends read_DetachAudio" and "ends read_MoveLinkedClips" and "ends read_TrimLinkedClips"
  unfolding read_MoveClip_def read_MoveClips_def read_DeleteGap_def read_DetachAudio_def read_MoveLinkedClips_def read_TrimLinkedClips_def Let_def
  by (intro ends_intro)+

lemma operation_readers_end_3:
  shows "ends read_RippleTrim" and "ends read_TrimBoundaryAir" and "ends read_RollEdit" and "ends read_SlipEdit" and "ends read_RemoveLinkedClips" and "ends read_ClearLinkedClips"
  unfolding read_RippleTrim_def read_TrimBoundaryAir_def read_RollEdit_def read_SlipEdit_def read_RemoveLinkedClips_def read_ClearLinkedClips_def Let_def
  by (intro ends_intro)+

lemma operation_readers_end_4:
  shows "ends read_AddTrack" and "ends read_RemoveTrack" and "ends read_SetTrackLock" and "ends read_SetTrackSyncLock" and "ends read_SetTrackOutput" and "ends read_UpdateSequence"
  unfolding read_AddTrack_def read_RemoveTrack_def read_SetTrackLock_def read_SetTrackSyncLock_def read_SetTrackOutput_def read_UpdateSequence_def Let_def
  by (intro ends_intro)+

lemma operation_readers_end_5:
  shows "ends read_SetColorManagement" and "ends read_SplitClip" and "ends read_SplitLinkedClips" and "ends read_JoinClip" and "ends read_AddBin" and "ends read_RemoveBin"
  unfolding read_SetColorManagement_def read_SplitClip_def read_SplitLinkedClips_def read_JoinClip_def read_AddBin_def read_RemoveBin_def Let_def
  by (intro ends_intro)+

lemma operation_readers_end_6:
  shows "ends read_RenameBin" and "ends read_MoveBin" and "ends read_SetMediaBin" and "ends read_AddMarker" and "ends read_RemoveMarker" and "ends read_UpdateMarker"
  unfolding read_RenameBin_def read_MoveBin_def read_SetMediaBin_def read_AddMarker_def read_RemoveMarker_def read_UpdateMarker_def Let_def
  by (intro ends_intro)+

lemma operation_readers_end_7:
  shows "ends read_AddTransition" and "ends read_RemoveTransition" and "ends read_UpdateTransition" and "ends read_SetClipLink" and "ends read_SetClipEffects" and "ends read_SetClipOpacity"
  unfolding read_AddTransition_def read_RemoveTransition_def read_UpdateTransition_def read_SetClipLink_def read_SetClipEffects_def read_SetClipOpacity_def Let_def
  by (intro ends_intro)+

lemma operation_readers_end_8:
  shows "ends read_SetClipAudio" and "ends read_AddCaptionStyle" and "ends read_RemoveCaptionStyle" and "ends read_SetClipCaption" and "ends read_AddMulticamGroup" and "ends read_RemoveMulticamGroup"
  unfolding read_SetClipAudio_def read_AddCaptionStyle_def read_RemoveCaptionStyle_def read_SetClipCaption_def read_AddMulticamGroup_def read_RemoveMulticamGroup_def Let_def
  by (intro ends_intro)+

lemma operation_readers_end_9:
  shows "ends read_SetMulticamActiveAngle" and "ends read_RemoveWords" and "ends read_SplitClipAtPositions"
  unfolding read_SetMulticamActiveAngle_def read_RemoveWords_def read_SplitClipAtPositions_def Let_def
  by (intro ends_intro)+

lemmas operation_readers_end = operation_readers_end_1 operation_readers_end_2 operation_readers_end_3 operation_readers_end_4 operation_readers_end_5 operation_readers_end_6 operation_readers_end_7 operation_readers_end_8 operation_readers_end_9

lemma read_operation_ends: "ends read_operation"
proof -
  have "list_all (\<lambda>p. ends (snd p)) operation_readers"
    by (simp add: operation_readers_def operation_readers_end)
  then have "ends r" if "map_of operation_readers name = Some r" for name r
    using map_of_SomeD [OF that] by (auto simp: list_all_iff)
  then show ?thesis
    unfolding read_operation_def by (intro ends_intro) (auto intro: ends_intro split: option.splits)
qed

lemma Deserialize_ends: "DeserializeOperation json \<noteq> Inl Diverges"
proof -
  have "ends (bindP read_operation (\<lambda>operation. bindP Finish (\<lambda>_. ret operation)))"
    by (intro ends_intro read_operation_ends) (auto simp: ends_def Finish_def)
  then show ?thesis by (auto simp: DeserializeOperation_def ends_def reject_def split: sum.splits stop.splits)
qed

end
