(* ===== verification/Edit_Log_Text.thy ===== *)
theory Edit_Log_Text
  imports Operation_Roundtrip Edit_Log
begin

text \<open>
  \<open>EditLog::Serialize\<close> and \<open>EditLog::Deserialize\<close>, \<open>src/EditLog.cc\<close>.  The log reader cuts out
  the text of each operation by counting braces outside of strings and hands it to
  \<open>DeserializeOperation\<close>; its \<open>Expect\<close>, \<open>Consume\<close> and \<open>Skip\<close> are those of the operation
  reader.  The written operations are balanced, so they are cut out exactly.
\<close>

section \<open>The log reader\<close>

fun object_text :: "int \<Rightarrow> bool \<Rightarrow> bool \<Rightarrow> string \<Rightarrow> string reader" where
  "object_text depth inString escaped acc [] = Inl (Plain ''unterminated operation object'')"
| "object_text depth inString escaped acc (c # q) =
     (if inString
      then object_text depth (escaped \<or> c \<noteq> CHR 0x22) (\<not> escaped \<and> c = CHR 0x5C) (acc @ [c]) q
      else if c = CHR 0x22 then object_text depth True escaped (acc @ [c]) q
      else if c = CHR ''{'' then object_text (depth + 1) False escaped (acc @ [c]) q
      else if c = CHR ''}''
      then if depth - 1 = 0 then Inr (acc @ [c], q) else object_text (depth - 1) False escaped (acc @ [c]) q
      else object_text depth False escaped (acc @ [c]) q)"

definition Object :: "string reader" where
  "Object s =
     (let r = Skip s in
      if r = [] \<or> hd r \<noteq> CHR ''{'' then Inl (At ''expected operation object'' r)
      else object_text 0 False False [] r)"

definition failure_text :: "failure \<Rightarrow> string" where
  "failure_text f = (case f of Fail _ what \<Rightarrow> what | Throws what \<Rightarrow> what | Diverges \<Rightarrow> [])"

definition write_log_entry :: "Operation log_entry \<Rightarrow> string" where
  "write_log_entry e =
     first_wfield ''op'' (SerializeOperation (le_op e)) @
     wfield ''inverse'' (SerializeOperation (le_inverse e)) @ ''}''"

definition WriteEntries :: "Operation log_entry list \<Rightarrow> string" where
  "WriteEntries es = write_list write_log_entry es"

definition read_log_entry :: "Operation log_entry reader" where
  "read_log_entry =
     first_field ''op'' Object (\<lambda>operationJson.
     field ''inverse'' Object (\<lambda>inverseJson.
     bindP (Expect ''}'') (\<lambda>_.
       case DeserializeOperation operationJson of
         Inl f \<Rightarrow> throw (''invalid logged operation: '' @ failure_text f)
       | Inr operation \<Rightarrow>
           (case DeserializeOperation inverseJson of
              Inl f \<Rightarrow> throw (''invalid logged inverse: '' @ failure_text f)
            | Inr undo \<Rightarrow> ret \<lparr>le_op = operation, le_inverse = undo\<rparr>))))"

definition ReadEntries :: "Operation log_entry list reader" where
  "ReadEntries = read_list read_log_entry"

definition EditLog_Serialize :: "Operation edit_log \<Rightarrow> string" where
  "EditLog_Serialize stk =
     first_wfield ''version'' ''1'' @ wfield ''applied'' (WriteEntries (applied stk)) @
     wfield ''undone'' (WriteEntries (undone stk)) @ ''}'' @ [CHR 0x0A]"

definition LogFinish :: "unit reader" where
  "LogFinish s = (if Skip s \<noteq> [] then Inl (Plain ''unexpected trailing edit log JSON'') else Inr ((), []))"

definition read_log :: "Operation edit_log reader" where
  "read_log =
     bindP (Expect (first_key ''version'' @ ''1'' @ key ''applied'')) (\<lambda>_.
     bindP ReadEntries (\<lambda>entries.
     field ''undone'' ReadEntries (\<lambda>undoneEntries.
     bindP (Expect ''}'') (\<lambda>_. bindP LogFinish (\<lambda>_. ret \<lparr>applied = entries, undone = undoneEntries\<rparr>)))))"

definition EditLog_Deserialize :: "string \<Rightarrow> Operation edit_log result" where
  "EditLog_Deserialize json =
     (case read_log json of
        Inl Unended \<Rightarrow> Inl Diverges
      | Inl e \<Rightarrow> reject ParseError (stop_message json e)
      | Inr (stk, _) \<Rightarrow> Inr stk)"

section \<open>Balanced texts\<close>

text \<open>
  \<open>neutral\<close> text leaves the scan outside of strings at the depth it met it, \<open>unwinds\<close> text
  leaves one object, and \<open>ends_object\<close> text closes the outermost one with its last character.
\<close>

definition neutral :: "string \<Rightarrow> bool" where
  "neutral t \<longleftrightarrow> (\<forall>d acc s. 0 < d \<longrightarrow> object_text d False False acc (t @ s) = object_text d False False (acc @ t) s)"

definition unwinds :: "string \<Rightarrow> bool" where
  "unwinds t \<longleftrightarrow> (\<forall>d acc s. 0 < d \<longrightarrow> object_text (d + 1) False False acc (t @ s) = object_text d False False (acc @ t) s)"

definition ends_object :: "string \<Rightarrow> bool" where
  "ends_object t \<longleftrightarrow> (\<forall>acc s. object_text 1 False False acc (t @ s) = Inr (acc @ t, s))"

definition ends_two :: "string \<Rightarrow> bool" where
  "ends_two t \<longleftrightarrow> (\<forall>acc s. object_text 2 False False acc (t @ s) = Inr (acc @ t, s))"

named_theorems balanced \<open>balance of the written texts\<close>

lemma neutral_append [balanced]: "neutral t \<Longrightarrow> neutral v \<Longrightarrow> neutral (t @ v)"
  by (simp add: neutral_def)

lemma neutral_Nil [balanced]: "neutral []"
  by (simp add: neutral_def)

lemma plain_Cons [balanced]:
  assumes "c \<noteq> CHR 0x22" and "c \<noteq> CHR ''{''" and "c \<noteq> CHR ''}''"
  shows "neutral t \<Longrightarrow> neutral (c # t)" and "unwinds t \<Longrightarrow> unwinds (c # t)"
    and "ends_object t \<Longrightarrow> ends_object (c # t)" and "ends_two t \<Longrightarrow> ends_two (c # t)"
  using assms by (simp_all add: neutral_def unwinds_def ends_object_def ends_two_def)

lemma neutral_chars: "list_all (\<lambda>c. c \<noteq> CHR 0x22 \<and> c \<noteq> CHR ''{'' \<and> c \<noteq> CHR ''}'') t \<Longrightarrow> neutral t"
  by (induction t) (auto intro: neutral_Nil plain_Cons)

lemma scan_plain: "plain v \<Longrightarrow> object_text d True False acc (v @ s) = object_text d True False (acc @ v) s"
  by (induction v arbitrary: acc) (auto simp: plain_def)

lemma scan_escaped:
  "object_text d True False acc (concat (map (\<lambda>c. if c = CHR 0x22 \<or> c = CHR 0x5C then [CHR 0x5C, c] else [c]) v) @ s) =
   object_text d True False (acc @ concat (map (\<lambda>c. if c = CHR 0x22 \<or> c = CHR 0x5C then [CHR 0x5C, c] else [c]) v)) s"
  by (induction v arbitrary: acc) auto

lemma neutral_strings [balanced]: "plain v \<Longrightarrow> neutral (raw v)" "neutral (WriteString v)"
  by (simp_all add: neutral_def raw_def WriteString_def scan_plain scan_escaped)

lemma neutral_to_string [balanced]: "neutral (to_string n)"
proof -
  have d: "is_digit c \<Longrightarrow> c \<noteq> CHR 0x22 \<and> c \<noteq> CHR ''{'' \<and> c \<noteq> CHR ''}''" for c by (auto simp: is_digit_def)
  have "neutral (nat_to_string m)" for m
    by (rule neutral_chars) (use digits_of_nat(1) [of m] d in \<open>auto simp: list_all_iff\<close>)
  then show ?thesis by (simp add: to_string_def balanced)
qed

lemma neutral_bool [balanced]: "neutral (write_bool b)"
  by (simp add: write_bool_def balanced)

lemma neutral_key [balanced]: "plain n \<Longrightarrow> neutral (key n)"
proof -
  have "key n = CHR '','' # raw n @ [CHR '':'']" by (simp add: key_def raw_def)
  then show "plain n \<Longrightarrow> neutral (key n)" by (simp add: balanced)
qed

lemma neutral_wfield [balanced]: "plain n \<Longrightarrow> neutral w \<Longrightarrow> neutral (wfield n w)"
  by (simp add: wfield_def balanced)

lemma unwinds_intros [balanced]:
  shows "neutral t \<Longrightarrow> unwinds v \<Longrightarrow> unwinds (t @ v)" and "neutral t \<Longrightarrow> unwinds (CHR ''}'' # t)"
    and "neutral t \<Longrightarrow> ends_object v \<Longrightarrow> ends_object (t @ v)" and "ends_object ''}''"
    and "neutral t \<Longrightarrow> ends_two v \<Longrightarrow> ends_two (t @ v)" and "ends_two ''}}''"
  by (simp_all add: neutral_def unwinds_def ends_object_def ends_two_def)

lemma scan_first_key:
  assumes "plain n" and "0 \<le> d"
  shows "object_text d False False acc (first_key n @ s) = object_text (d + 1) False False (acc @ first_key n) s"
proof -
  have "first_key n = CHR ''{'' # raw n @ [CHR '':'']" by (simp add: first_key_def raw_def)
  moreover have "neutral (raw n @ [CHR '':''])" using assms(1) by (simp add: balanced)
  ultimately show ?thesis using assms(2) by (simp add: neutral_def)
qed

lemma neutral_object [balanced]: "plain n \<Longrightarrow> neutral w \<Longrightarrow> unwinds t \<Longrightarrow> neutral (first_wfield n w @ t)"
  by (simp add: neutral_def unwinds_def first_wfield_def scan_first_key)

lemma neutral_brace [balanced]: "unwinds t \<Longrightarrow> neutral (CHR ''{'' # t)"
  by (simp add: neutral_def unwinds_def)

lemma ends_nested [balanced]:
  assumes "plain n" and "plain m" and "neutral w" and "ends_two t"
  shows "ends_object (wfield n (first_wfield m w @ t))"
  using assms neutral_key [OF assms(1)]
  by (simp add: ends_object_def neutral_def ends_two_def wfield_def first_wfield_def scan_first_key)

lemma neutral_join: "\<forall>x\<in>set xs. neutral (w x) \<Longrightarrow> neutral (join_comma (map w xs))"
proof (induction xs)
  case (Cons x xs)
  then show ?case by (cases "xs = []") (simp_all add: join_comma_Cons balanced)
qed (simp add: neutral_Nil)

lemma neutral_list: "(\<And>x. x \<in> set xs \<Longrightarrow> neutral (w x)) \<Longrightarrow> neutral (write_list w xs)"
  by (simp add: write_list_def balanced neutral_join)

lemma neutral_texts [balanced]:
  shows "neutral (write_list WriteString xs)" and "neutral (WriteTime t)" and "neutral (WriteEffectParamValue v)"
    and "neutral (WriteColorManagement c)" and "neutral (raw (edge_name e))"
proof -
  have "plain (edge_name e)" by (cases e) (simp_all add: edge_name_def plain_def)
  then show "neutral (raw (edge_name e))" by (rule neutral_strings)
qed (simp_all add: WriteTime_def WriteEffectParamValue_def WriteColorManagement_def plain_def balanced neutral_list)

lemma neutral_effects: "list_all effect_ok es \<Longrightarrow> neutral (WriteClipEffects es)"
proof -
  have "neutral (join_comma (map write_param ps))" for ps
    by (rule neutral_join) (simp add: write_param_def balanced split: prod.splits)
  then have "neutral (write_effect e)" if "effect_ok e" for e
    using that by (simp add: write_effect_def effect_ok_def balanced plain_def)
  then show "list_all effect_ok es \<Longrightarrow> neutral (WriteClipEffects es)"
    unfolding WriteClipEffects_def by (intro neutral_list) (simp add: list_all_iff)
qed

lemma neutral_exact_tracks: "list_all track_ok ts \<Longrightarrow> neutral (WriteExactTracks ts)"
proof -
  have c: "neutral (write_clip c)" if "clip_ok c" for c
    using that neutral_effects [of "clip_effects c"] by (simp add: write_clip_def clip_ok_def balanced plain_def)
  have "neutral (write_track t)" if "track_ok t" for t
    using that c by (simp add: write_track_def track_ok_def balanced plain_def list_all_iff neutral_list)
  then show "list_all track_ok ts \<Longrightarrow> neutral (WriteExactTracks ts)"
    unfolding WriteExactTracks_def by (intro neutral_list) (simp add: list_all_iff)
qed

lemma neutral_positions: "list_all position_ok ps \<Longrightarrow> neutral (WriteExactPositions ps)"
proof -
  have "neutral (write_position p)" if "position_ok p" for p
    using that by (simp add: write_position_def position_ok_def balanced plain_def)
  then show "list_all position_ok ps \<Longrightarrow> neutral (WriteExactPositions ps)"
    unfolding WriteExactPositions_def by (intro neutral_list) (simp add: list_all_iff)
qed

lemma neutral_exact_clip: "neutral (write_exact_clip x)"
  by (simp add: write_exact_clip_def balanced plain_def)

lemma neutral_move: "move_ok x \<Longrightarrow> neutral (write_move x)"
  by (simp add: write_move_def move_ok_def balanced plain_def)

lemma neutral_linked_trim: "linked_trim_ok x \<Longrightarrow> neutral (write_linked_trim x)"
  by (simp add: write_linked_trim_def linked_trim_ok_def balanced plain_def)

lemma neutral_air_trim: "air_trim_ok x \<Longrightarrow> neutral (write_air_trim x)"
  by (simp add: write_air_trim_def air_trim_ok_def balanced plain_def)

lemma neutral_roll_pair: "roll_pair_ok x \<Longrightarrow> neutral (write_roll_pair x)"
  by (simp add: write_roll_pair_def roll_pair_ok_def balanced plain_def)

lemma neutral_range: "range_ok x \<Longrightarrow> neutral (write_range x)"
  by (simp add: write_range_def range_ok_def balanced plain_def)

lemma neutral_pasted: "pasted_ok x \<Longrightarrow> neutral (write_pasted x)"
  by (simp add: write_pasted_def pasted_ok_def balanced plain_def)

lemma neutral_link_state: "link_state_ok x \<Longrightarrow> neutral (write_link_state x)"
  by (simp add: write_link_state_def link_state_ok_def balanced plain_def)

lemma neutral_angle: "angle_ok x \<Longrightarrow> neutral (write_angle x)"
  by (simp add: write_angle_def angle_ok_def balanced plain_def)

lemma neutral_item_lists [balanced]:
  shows "list_all move_ok xs_move \<Longrightarrow> neutral (write_list write_move xs_move)"
    and "list_all linked_trim_ok xs_linked_trim \<Longrightarrow> neutral (write_list write_linked_trim xs_linked_trim)"
    and "list_all air_trim_ok xs_air_trim \<Longrightarrow> neutral (write_list write_air_trim xs_air_trim)"
    and "list_all roll_pair_ok xs_roll_pair \<Longrightarrow> neutral (write_list write_roll_pair xs_roll_pair)"
    and "list_all range_ok xs_range \<Longrightarrow> neutral (write_list write_range xs_range)"
    and "list_all pasted_ok xs_pasted \<Longrightarrow> neutral (write_list write_pasted xs_pasted)"
    and "list_all link_state_ok xs_link_state \<Longrightarrow> neutral (write_list write_link_state xs_link_state)"
    and "list_all angle_ok xs_angle \<Longrightarrow> neutral (write_list write_angle xs_angle)"
    and "list_all time_ok ts \<Longrightarrow> neutral (write_list WriteTime ts)"
  by (rule neutral_list; auto simp: list_all_iff intro: neutral_move neutral_linked_trim neutral_air_trim neutral_roll_pair neutral_range neutral_pasted neutral_link_state neutral_angle neutral_texts)+

lemma neutral_optionals [balanced]:
  shows "pred_option link_state_ok x \<Longrightarrow> neutral (write_optional write_link_state x)" and "neutral (write_optional write_exact_clip y)"
  by (auto simp: write_optional_def intro: neutral_link_state neutral_exact_clip neutral_chars split: option.splits)

lemmas balanced_texts = neutral_effects neutral_exact_tracks neutral_positions neutral_exact_clip

section \<open>Every written operation is one object\<close>

lemma InsertClip_object: "storable (InsertClip v) \<Longrightarrow> ends_object (write_InsertClip v)"
  by (simp add: write_InsertClip_def balanced balanced_texts plain_def)

lemma RemoveClip_object: "storable (RemoveClip v) \<Longrightarrow> ends_object (write_RemoveClip v)"
  by (simp add: write_RemoveClip_def balanced balanced_texts plain_def)

lemma ClearClip_object: "storable (ClearClip v) \<Longrightarrow> ends_object (write_ClearClip v)"
  by (simp add: write_ClearClip_def balanced balanced_texts plain_def)

lemma ClearClips_object: "storable (ClearClips v) \<Longrightarrow> ends_object (write_ClearClips v)"
  by (simp add: write_ClearClips_def balanced balanced_texts plain_def)

lemma PasteClips_object: "storable (PasteClips v) \<Longrightarrow> ends_object (write_PasteClips v)"
  by (simp add: write_PasteClips_def balanced balanced_texts plain_def)

lemma TrimClip_object: "storable (TrimClip v) \<Longrightarrow> ends_object (write_TrimClip v)"
  by (simp add: write_TrimClip_def balanced balanced_texts plain_def)

lemma MoveClip_object: "storable (MoveClip v) \<Longrightarrow> ends_object (write_MoveClip v)"
  by (simp add: write_MoveClip_def balanced balanced_texts plain_def)

lemma MoveClips_object: "storable (MoveClips v) \<Longrightarrow> ends_object (write_MoveClips v)"
  by (simp add: write_MoveClips_def balanced balanced_texts plain_def)

lemma DeleteGap_object: "storable (DeleteGap v) \<Longrightarrow> ends_object (write_DeleteGap v)"
  by (simp add: write_DeleteGap_def balanced balanced_texts plain_def)

lemma DetachAudio_object: "storable (DetachAudio v) \<Longrightarrow> ends_object (write_DetachAudio v)"
  by (simp add: write_DetachAudio_def balanced balanced_texts plain_def)

lemma MoveLinkedClips_object: "storable (MoveLinkedClips v) \<Longrightarrow> ends_object (write_MoveLinkedClips v)"
  by (simp add: write_MoveLinkedClips_def balanced balanced_texts plain_def)

lemma TrimLinkedClips_object: "storable (TrimLinkedClips v) \<Longrightarrow> ends_object (write_TrimLinkedClips v)"
  by (simp add: write_TrimLinkedClips_def balanced balanced_texts plain_def)

lemma RippleTrim_object: "storable (RippleTrim v) \<Longrightarrow> ends_object (write_RippleTrim v)"
  by (simp add: write_RippleTrim_def balanced balanced_texts plain_def)

lemma TrimBoundaryAir_object: "storable (TrimBoundaryAir v) \<Longrightarrow> ends_object (write_TrimBoundaryAir v)"
  by (simp add: write_TrimBoundaryAir_def balanced balanced_texts plain_def)

lemma RollEdit_object: "storable (RollEdit v) \<Longrightarrow> ends_object (write_RollEdit v)"
  by (simp add: write_RollEdit_def balanced balanced_texts plain_def)

lemma SlipEdit_object: "storable (SlipEdit v) \<Longrightarrow> ends_object (write_SlipEdit v)"
  by (simp add: write_SlipEdit_def balanced balanced_texts plain_def)

lemma RemoveLinkedClips_object: "storable (RemoveLinkedClips v) \<Longrightarrow> ends_object (write_RemoveLinkedClips v)"
  by (simp add: write_RemoveLinkedClips_def balanced balanced_texts plain_def)

lemma ClearLinkedClips_object: "storable (ClearLinkedClips v) \<Longrightarrow> ends_object (write_ClearLinkedClips v)"
  by (simp add: write_ClearLinkedClips_def balanced balanced_texts plain_def)

lemma AddTrack_object: "storable (AddTrack v) \<Longrightarrow> ends_object (write_AddTrack v)"
  by (simp add: write_AddTrack_def track_ok_def balanced balanced_texts plain_def)

lemma RemoveTrack_object: "storable (RemoveTrack v) \<Longrightarrow> ends_object (write_RemoveTrack v)"
  by (simp add: write_RemoveTrack_def balanced balanced_texts plain_def)

lemma SetTrackLock_object: "storable (SetTrackLock v) \<Longrightarrow> ends_object (write_SetTrackLock v)"
  by (simp add: write_SetTrackLock_def balanced balanced_texts plain_def)

lemma SetTrackSyncLock_object: "storable (SetTrackSyncLock v) \<Longrightarrow> ends_object (write_SetTrackSyncLock v)"
  by (simp add: write_SetTrackSyncLock_def balanced balanced_texts plain_def)

lemma SetTrackOutput_object: "storable (SetTrackOutput v) \<Longrightarrow> ends_object (write_SetTrackOutput v)"
  by (simp add: write_SetTrackOutput_def balanced balanced_texts plain_def)

lemma UpdateSequence_object: "storable (UpdateSequence v) \<Longrightarrow> ends_object (write_UpdateSequence v)"
  by (simp add: write_UpdateSequence_def balanced balanced_texts plain_def)

lemma SetColorManagement_object: "storable (SetColorManagement v) \<Longrightarrow> ends_object (write_SetColorManagement v)"
  by (simp add: write_SetColorManagement_def balanced balanced_texts plain_def)

lemma SplitClip_object: "storable (SplitClip v) \<Longrightarrow> ends_object (write_SplitClip v)"
  by (simp add: write_SplitClip_def balanced balanced_texts plain_def)

lemma SplitLinkedClips_object: "storable (SplitLinkedClips v) \<Longrightarrow> ends_object (write_SplitLinkedClips v)"
  by (simp add: write_SplitLinkedClips_def balanced balanced_texts plain_def)

lemma JoinClip_object: "storable (JoinClip v) \<Longrightarrow> ends_object (write_JoinClip v)"
  by (simp add: write_JoinClip_def balanced balanced_texts plain_def)

lemma AddBin_object: "storable (AddBin v) \<Longrightarrow> ends_object (write_AddBin v)"
  by (simp add: write_AddBin_def balanced balanced_texts plain_def)

lemma RemoveBin_object: "storable (RemoveBin v) \<Longrightarrow> ends_object (write_RemoveBin v)"
  by (simp add: write_RemoveBin_def balanced balanced_texts plain_def)

lemma RenameBin_object: "storable (RenameBin v) \<Longrightarrow> ends_object (write_RenameBin v)"
  by (simp add: write_RenameBin_def balanced balanced_texts plain_def)

lemma MoveBin_object: "storable (MoveBin v) \<Longrightarrow> ends_object (write_MoveBin v)"
  by (simp add: write_MoveBin_def balanced balanced_texts plain_def)

lemma SetMediaBin_object: "storable (SetMediaBin v) \<Longrightarrow> ends_object (write_SetMediaBin v)"
  by (simp add: write_SetMediaBin_def balanced balanced_texts plain_def)

lemma AddMarker_object: "storable (AddMarker v) \<Longrightarrow> ends_object (write_AddMarker v)"
  by (simp add: write_AddMarker_def balanced balanced_texts plain_def)

lemma RemoveMarker_object: "storable (RemoveMarker v) \<Longrightarrow> ends_object (write_RemoveMarker v)"
  by (simp add: write_RemoveMarker_def balanced balanced_texts plain_def)

lemma UpdateMarker_object: "storable (UpdateMarker v) \<Longrightarrow> ends_object (write_UpdateMarker v)"
  by (simp add: write_UpdateMarker_def balanced balanced_texts plain_def)

lemma AddTransition_object: "storable (AddTransition v) \<Longrightarrow> ends_object (write_AddTransition v)"
  by (simp add: write_AddTransition_def Let_def balanced balanced_texts plain_def)

lemma RemoveTransition_object: "storable (RemoveTransition v) \<Longrightarrow> ends_object (write_RemoveTransition v)"
  by (simp add: write_RemoveTransition_def balanced balanced_texts plain_def)

lemma UpdateTransition_object: "storable (UpdateTransition v) \<Longrightarrow> ends_object (write_UpdateTransition v)"
  by (simp add: write_UpdateTransition_def balanced balanced_texts plain_def)

lemma SetClipLink_object: "storable (SetClipLink v) \<Longrightarrow> ends_object (write_SetClipLink v)"
  by (simp add: write_SetClipLink_def balanced balanced_texts plain_def)

lemma SetClipEffects_object: "storable (SetClipEffects v) \<Longrightarrow> ends_object (write_SetClipEffects v)"
  by (simp add: write_SetClipEffects_def balanced balanced_texts plain_def)

lemma SetClipOpacity_object: "storable (SetClipOpacity v) \<Longrightarrow> ends_object (write_SetClipOpacity v)"
  by (simp add: write_SetClipOpacity_def balanced balanced_texts plain_def)

lemma SetClipAudio_object: "storable (SetClipAudio v) \<Longrightarrow> ends_object (write_SetClipAudio v)"
  by (simp add: write_SetClipAudio_def balanced balanced_texts plain_def)

lemma AddCaptionStyle_object: "storable (AddCaptionStyle v) \<Longrightarrow> ends_object (write_AddCaptionStyle v)"
  by (simp add: write_AddCaptionStyle_def Let_def balanced balanced_texts plain_def)

lemma RemoveCaptionStyle_object: "storable (RemoveCaptionStyle v) \<Longrightarrow> ends_object (write_RemoveCaptionStyle v)"
  by (simp add: write_RemoveCaptionStyle_def balanced balanced_texts plain_def)

lemma SetClipCaption_object: "storable (SetClipCaption v) \<Longrightarrow> ends_object (write_SetClipCaption v)"
  by (simp add: write_SetClipCaption_def balanced balanced_texts plain_def)

lemma AddMulticamGroup_object: "storable (AddMulticamGroup v) \<Longrightarrow> ends_object (write_AddMulticamGroup v)"
  by (simp add: write_AddMulticamGroup_def Let_def neutral_list neutral_angle angle_ok_def balanced balanced_texts plain_def)

lemma RemoveMulticamGroup_object: "storable (RemoveMulticamGroup v) \<Longrightarrow> ends_object (write_RemoveMulticamGroup v)"
  by (simp add: write_RemoveMulticamGroup_def balanced balanced_texts plain_def)

lemma SetMulticamActiveAngle_object: "storable (SetMulticamActiveAngle v) \<Longrightarrow> ends_object (write_SetMulticamActiveAngle v)"
  by (simp add: write_SetMulticamActiveAngle_def balanced balanced_texts plain_def)

lemma RemoveWords_object: "storable (RemoveWords v) \<Longrightarrow> ends_object (write_RemoveWords v)"
  by (simp add: write_RemoveWords_def balanced balanced_texts plain_def)

lemma SplitClipAtPositions_object: "storable (SplitClipAtPositions v) \<Longrightarrow> ends_object (write_SplitClipAtPositions v)"
  by (simp add: write_SplitClipAtPositions_def balanced balanced_texts plain_def)

lemmas operation_objects =
  InsertClip_object RemoveClip_object ClearClip_object ClearClips_object
  PasteClips_object TrimClip_object MoveClip_object MoveClips_object
  DeleteGap_object DetachAudio_object MoveLinkedClips_object TrimLinkedClips_object
  RippleTrim_object TrimBoundaryAir_object RollEdit_object SlipEdit_object
  RemoveLinkedClips_object ClearLinkedClips_object AddTrack_object RemoveTrack_object
  SetTrackLock_object SetTrackSyncLock_object SetTrackOutput_object UpdateSequence_object
  SetColorManagement_object SplitClip_object SplitLinkedClips_object JoinClip_object
  AddBin_object RemoveBin_object RenameBin_object MoveBin_object
  SetMediaBin_object AddMarker_object RemoveMarker_object UpdateMarker_object
  AddTransition_object RemoveTransition_object UpdateTransition_object SetClipLink_object
  SetClipEffects_object SetClipOpacity_object SetClipAudio_object AddCaptionStyle_object
  RemoveCaptionStyle_object SetClipCaption_object AddMulticamGroup_object RemoveMulticamGroup_object
  SetMulticamActiveAngle_object RemoveWords_object SplitClipAtPositions_object

section \<open>The log round trip\<close>

definition storable_entry :: "Operation log_entry \<Rightarrow> bool" where
  "storable_entry e \<longleftrightarrow> storable (le_op e) \<and> storable (le_inverse e)"

definition stored_entry :: "Operation log_entry \<Rightarrow> Operation log_entry" where
  "stored_entry e = \<lparr>le_op = stored_operation (le_op e), le_inverse = stored_operation (le_inverse e)\<rparr>"

definition storable_log :: "Operation edit_log \<Rightarrow> bool" where
  "storable_log stk \<longleftrightarrow> list_all storable_entry (applied stk) \<and> list_all storable_entry (undone stk)"

definition stored_log :: "Operation edit_log \<Rightarrow> Operation edit_log" where
  "stored_log stk = \<lparr>applied = map stored_entry (applied stk), undone = map stored_entry (undone stk)\<rparr>"

lemma Object_typed:
  assumes "plain n" and "ends_object body"
  shows "Object (typed n body @ s) = Inr (typed n body, s)"
proof -
  have h: "typed n body = first_key ''type'' @ raw n @ body" by (simp add: typed_def first_wfield_def)
  then obtain q where q: "typed n body @ s = CHR ''{'' # q" by (simp add: first_key_def)
  have "object_text 0 False False [] (typed n body @ s) = Inr (typed n body, s)"
    using assms neutral_strings(1) [OF assms(1)]
    by (simp add: h scan_first_key plain_def neutral_def ends_object_def)
  then show ?thesis using q by (simp add: Object_def Skip_def punctuation_not_space)
qed

lemma Object_operation: "storable p \<Longrightarrow> Object (SerializeOperation p @ s) = Inr (SerializeOperation p, s)"
  by (cases p) (simp_all add: Object_typed operation_objects plain_def del: storable.simps)

lemma bindP_Object [reads]: "storable p \<Longrightarrow> bindP Object k (SerializeOperation p @ s) = k (SerializeOperation p) s"
  by (simp add: bindP_Inr Object_operation)

interpretation entry_text: item_format write_log_entry read_log_entry storable_entry stored_entry
  by unfold_locales
    (simp_all add: write_log_entry_def read_log_entry_def storable_entry_def stored_entry_def writers_head reads Deserialize_Serialize)

lemma log_head:
  "bindP (Expect (first_key ''version'' @ CHR ''1'' # key ''applied'')) k (first_wfield ''version'' ''1'' @ wfield ''applied'' w @ s) =
   k () (w @ s)"
  using Expect_prefix [of "first_key ''version'' @ CHR ''1'' # key ''applied''" "w @ s"] punctuation_not_space(2)
  by (simp add: bindP_Inr first_wfield_def wfield_def first_key_def)

lemma entries_back:
  "list_all storable_entry es \<Longrightarrow> bindP (read_list read_log_entry) k (write_list write_log_entry es @ s) = k (map stored_entry es) s"
  by (rule bindP_Inr) (rule entry_text.lists_back)

lemma log_end: "bindP LogFinish k [CHR 0x0A] = k () []"
proof -
  have "isspace (CHR 0x0A)" by code_simp
  then show ?thesis by (simp add: LogFinish_def bindP_def Skip_def)
qed

lemma log_text_back:
  assumes "storable_log stk"
  shows "EditLog_Deserialize (EditLog_Serialize stk) = Inr (stored_log stk)"
proof -
  have "read_log (EditLog_Serialize stk) = Inr (stored_log stk, [])"
    using assms
    by (simp add: read_log_def EditLog_Serialize_def storable_log_def stored_log_def WriteEntries_def ReadEntries_def
      log_head entries_back log_end reads)
  then show ?thesis by (simp add: EditLog_Deserialize_def)
qed

section \<open>Reading ends\<close>

lemma object_text_ends:
  "object_text d i e acc s \<noteq> Inl Unended \<and> (object_text d i e acc s = Inr (x, s') \<longrightarrow> length s' \<le> length s)"
  by (induction d i e acc s arbitrary: x s' rule: object_text.induct) (auto simp: le_SucI)

lemma ends_Object [ends_intro]: "ends Object"
proof -
  have "length s' \<le> length s" if "object_text 0 False False [] (Skip s) = Inr (x, s')" for s x s'
    using object_text_ends [of 0 False False "[]" "Skip s" x s'] Skip_le [of s] that by simp
  then show ?thesis using object_text_ends by (simp add: ends_def Object_def Let_def)
qed

lemma read_log_ends: "ends read_log"
proof -
  have "ends read_log_entry"
    unfolding read_log_entry_def by (intro ends_intro) (auto intro: ends_intro split: sum.splits)
  moreover have "ends LogFinish" by (auto simp: ends_def LogFinish_def)
  ultimately show ?thesis unfolding read_log_def ReadEntries_def by (intro ends_intro)
qed

section \<open>Properties\<close>

text \<open>
  An operation survives being stored up to the image \<open>stored_operation\<close>.  Each of the 51
  operations, with identifiers that need no escape and numbers of their widths (\<open>storable\<close>), is
  read back from the text it was written as, field for field, except in the clips of exact track
  states and added tracks (\<open>stored_clip\<close>): they come back without audio gain and fades, which the text does not
  have, and with a synchronisation delta of zero where there is no anchor.
\<close>

theorem operation_text_round_trip:
  assumes "storable operation"
  shows "DeserializeOperation (SerializeOperation operation) = Inr (stored_operation operation)"
  using assms by (rule Deserialize_Serialize)

text \<open>
  Property C37: the edit log is stored up to the image \<open>stored_log\<close>.  A log whose operations are
  all \<open>storable\<close> (identifiers that need no escape, numbers of their widths) is read back from its
  text as \<open>stored_log\<close>: as many entries in the same order on the same stacks, each operation and
  inverse with every field, except that the clips of exact track states and of added tracks lose their audio gain
  and fades and, without an anchor, their synchronisation delta (\<open>stored_clip\<close>).  A log without
  such clips is read back unchanged.
\<close>

theorem edit_log_text_round_trip:
  assumes "storable_log stk"
  shows "EditLog_Deserialize (EditLog_Serialize stk) = Inr (stored_log stk)"
  using assms by (rule log_text_back)

text \<open>
  Property C39: both readers answer on every text.  The list loops and the scan for the end of an
  operation never run out of fuel: a text is either read or refused as a parse error.
\<close>

theorem log_readers_terminate:
  "((\<exists>operation. DeserializeOperation json = Inr operation) \<or> (\<exists>what. DeserializeOperation json = Inl (Fail ParseError what))) \<and>
   ((\<exists>stk. EditLog_Deserialize json = Inr stk) \<or> (\<exists>what. EditLog_Deserialize json = Inl (Fail ParseError what)))"
proof -
  have "(\<exists>stk. EditLog_Deserialize json = Inr stk) \<or> (\<exists>what. EditLog_Deserialize json = Inl (Fail ParseError what))"
    using read_log_ends by (auto simp: EditLog_Deserialize_def ends_def reject_def split: sum.splits stop.splits)
  moreover have "(\<exists>p. DeserializeOperation json = Inr p) \<or> (\<exists>what. DeserializeOperation json = Inl (Fail ParseError what))"
    using Deserialize_ends [of json] by (auto simp: DeserializeOperation_def reject_def split: sum.splits stop.splits)
  ultimately show ?thesis by blast
qed

lemma operation_text_round_trip_witness:
  "DeserializeOperation (SerializeOperation (MoveBin \<lparr>mbo_bin_id = ''A'', mbo_parent_id = ''B''\<rparr>)) =
   Inr (MoveBin \<lparr>mbo_bin_id = ''A'', mbo_parent_id = ''B''\<rparr>)"
  using operation_text_round_trip [of "MoveBin \<lparr>mbo_bin_id = ''A'', mbo_parent_id = ''B''\<rparr>"] by (simp add: plain_def)

definition clear_clip :: Operation where
  "clear_clip = ClearClip \<lparr>cco_clip_id = u CHR ''3'', cco_exact_track_result = []\<rparr>"

definition locked_log :: "Operation edit_log" where
  "locked_log =
     \<lparr>applied = [\<lparr>le_op = SetTrackLock \<lparr>stl_track_id = ''A'', stl_locked = True\<rparr>,
                  le_inverse = SetTrackLock \<lparr>stl_track_id = ''A'', stl_locked = False\<rparr>\<rparr>],
      undone = [\<lparr>le_op = clear_clip, le_inverse = clear_clip\<rparr>]\<rparr>"

lemma edit_log_text_round_trip_witness:
  "EditLog_Deserialize (EditLog_Serialize locked_log) = Inr locked_log"
proof -
  have "storable_log locked_log" by code_simp
  moreover have "stored_log locked_log = locked_log" by code_simp
  ultimately show ?thesis using edit_log_text_round_trip [of locked_log] by simp
qed

end
