(* ===== verification/Project_Log_Text.thy ===== *)
theory Project_Log_Text
  imports Project_Operation_Text Project_Log Edit_Log_Text
begin

text \<open>
  \<open>ProjectEditLog::Serialize\<close> and \<open>ProjectEditLog::Deserialize\<close>, \<open>src/EditLog.cc\<close>, and what they give
  back: every project operation and every log of them, exactly but for the audio level of the
  replacement media of a relink.
\<close>

section \<open>Hexadecimal text\<close>

lemma hex_round: "n < 16 \<Longrightarrow> hex_value (hex_char n) = Inr n"
proof -
  have "list_all (\<lambda>n. hex_value (hex_char n) = Inr n) [0..<16]" by code_simp
  then show "n < 16 \<Longrightarrow> hex_value (hex_char n) = Inr n" by (simp add: list_all_iff)
qed

lemma char_halves: "(of_char c :: nat) div 16 < 16" "(of_char c :: nat) mod 16 < 16" "char_of (16 * ((of_char c :: nat) div 16) + of_char c mod 16) = c"
proof -
  have "(of_char c :: nat) mod 256 < 256" by simp
  then have "(of_char c :: nat) < 256" by (simp del: mod_less_divisor)
  then show "(of_char c :: nat) div 16 < 16" "(of_char c :: nat) mod 16 < 16"
    using less_mult_imp_div_less [of "of_char c :: nat" 16 16] by simp_all
  have "16 * ((of_char c :: nat) div 16) + of_char c mod 16 = of_char c" by (rule mult_div_mod_eq)
  then show "char_of (16 * ((of_char c :: nat) div 16) + of_char c mod 16) = c" by (simp add: char_of_char)
qed

lemma decode_encode: "decode_pairs (HexEncode s) = Inr s"
  by (induction s) (simp_all add: HexEncode_def hex_round char_halves)

lemma length_HexEncode: "length (HexEncode s) = 2 * length s"
  by (induction s) (simp_all add: HexEncode_def)

lemma Hex_back: "HexDecode (HexEncode s) = Inr s"
  by (simp add: HexDecode_def length_HexEncode decode_encode)

section \<open>Pieces\<close>

lemma wrap32_id: "in_int32 n \<Longrightarrow> wrap32 n = n"
  by (simp add: wrap32_def in_int32_def int32_min_def int32_max_def)

lemma bindP_int32 [reads]: "in_int32 n \<Longrightarrow> no_digit_first s \<Longrightarrow> bindP read_int32 k (to_string n @ s) = k n s"
  by (simp add: read_int32_def bindP_assoc reads int32_int64 wrap32_id)

lemma bindP_flag [reads]: "no_digit_first s \<Longrightarrow> bindP read_flag k (write_flag b @ s) = k b s"
proof -
  have "in_int64 (if b then 1 else 0)" by (simp add: in_int64_def int64_min_def int64_max_def)
  then show "no_digit_first s \<Longrightarrow> bindP read_flag k (write_flag b @ s) = k b s"
    by (simp add: read_flag_def write_flag_def bindP_assoc reads del: of_bool_def)
qed

interpretation media_rate_text: item_format WriteMediaRate ReadMediaRate rate_saved id
  by unfold_locales (simp_all add: WriteMediaRate_def ReadMediaRate_def rate_saved_def writers_head reads int32_int64)

definition media_typed :: "LibraryMedia \<Rightarrow> bool" where
  "media_typed m \<longleftrightarrow>
     in_int32 (med_width m) \<and> in_int32 (med_height m) \<and> in_int32 (med_rotation_degrees m) \<and> in_int32 (med_audio_rate m) \<and>
     in_int32 (med_audio_channels m) \<and> rate_saved (med_rate m) \<and> time_ok (med_duration m)"

text \<open>What the text keeps of a media description.\<close>

definition stored_media :: "LibraryMedia \<Rightarrow> LibraryMedia" where
  "stored_media m = m\<lparr>med_audio_level_measured := False, med_audio_level := 0\<rparr>"

interpretation media_text: item_format WriteLibraryMedia ReadLibraryMedia media_typed stored_media
  by unfold_locales
    (simp_all add: WriteLibraryMedia_def ReadLibraryMedia_def media_typed_def stored_media_def writers_head reads)

interpretation exact_project_text: item_format write_exact_project read_exact_project "\<lambda>_. True" id
  by unfold_locales (simp_all add: write_exact_project_def read_exact_project_def reads Hex_back text_head)

lemma tail_back [reads]: "read_tail f (write_tail exact @ s) = Inr (f exact, s)"
  using exact_project_text.optional_back [of exact]
  by (simp add: read_tail_def write_tail_def WriteExactProject_def ReadExactProject_def reads pred_option_def option.map_id0)

lemma no_digit_tail [reads]: "no_digit_first (write_tail exact @ s)"
  by (simp add: write_tail_def reads)

definition segment_typed :: "ProjectTimelineSourceSegment \<Rightarrow> bool" where
  "segment_typed s \<longleftrightarrow> time_ok (seg_source_in s) \<and> time_ok (seg_duration s)"

interpretation segment_text: item_format write_segment read_segment segment_typed id
  by unfold_locales (simp_all add: write_segment_def read_segment_def segment_typed_def writers_head reads)

definition relink_typed :: "ProjectRelinkItem \<Rightarrow> bool" where
  "relink_typed i \<longleftrightarrow> media_typed (pri_replacement i)"

definition stored_relink :: "ProjectRelinkItem \<Rightarrow> ProjectRelinkItem" where
  "stored_relink i = i\<lparr>pri_replacement := stored_media (pri_replacement i)\<rparr>"

interpretation relink_text: item_format write_relink read_relink relink_typed stored_relink
  by unfold_locales (simp_all add: write_relink_def read_relink_def relink_typed_def stored_relink_def writers_head reads)

section \<open>The operations\<close>

fun storable_project :: "ProjectOperation \<Rightarrow> bool" where
  "storable_project (AddProjectTimeline v) \<longleftrightarrow> in_int32 (apt_width v) \<and> in_int32 (apt_height v) \<and> rate_saved (apt_frame_rate v)"
| "storable_project (CreateProjectTimelineFromSegments v) \<longleftrightarrow>
     in_int32 (cpt_width v) \<and> in_int32 (cpt_height v) \<and> rate_saved (cpt_frame_rate v) \<and> list_all segment_typed (cpt_segments v)"
| "storable_project (SetProjectBinMetadata v) \<longleftrightarrow>
     0 \<le> pm_rating (spm_metadata v) \<and> pm_rating (spm_metadata v) < 2 ^ 32 \<and>
     0 \<le> pm_insert_order (spm_metadata v) \<and> in_int64 (pm_insert_order (spm_metadata v))"
| "storable_project (RelinkProjectMedia v) \<longleftrightarrow> list_all relink_typed (rpm_replacements v)"
| "storable_project _ \<longleftrightarrow> True"

fun stored_project :: "ProjectOperation \<Rightarrow> ProjectOperation" where
  "stored_project (RelinkProjectMedia v) = RelinkProjectMedia (v\<lparr>rpm_replacements := map stored_relink (rpm_replacements v)\<rparr>)"
| "stored_project operation = operation"

lemma expect_close: "bindP (Expect ''}'') k (CHR ''}'' # s) = k () s"
  by (simp add: reads)

lemma bindP_unsigned [reads]:
  assumes "0 \<le> n" and "no_digit_first s"
  shows "n < 2 ^ 32 \<Longrightarrow> bindP read_uint32 k (to_string n @ s) = k n s"
    and "in_int64 n \<Longrightarrow> bindP read_uint64 k (to_string n @ s) = k n s"
  using assms by (simp_all add: read_uint32_def read_uint64_def bindP_assoc reads in_int64_def int64_min_def int64_max_def)

lemma project_operations_back:
  shows "storable_project (AddProjectTimeline a) \<Longrightarrow> read_AddProjectTimeline (write_AddProjectTimeline a @ s) = Inr (AddProjectTimeline a, s)"
    and "storable_project (CreateProjectTimelineFromSegments c) \<Longrightarrow>
      read_CreateProjectTimelineFromSegments (write_CreateProjectTimelineFromSegments c @ s) = Inr (CreateProjectTimelineFromSegments c, s)"
    and "read_RemoveProjectTimeline (write_RemoveProjectTimeline r @ s) = Inr (RemoveProjectTimeline r, s)"
    and "storable_project (SetProjectBinMetadata m) \<Longrightarrow>
      read_SetProjectBinMetadata (write_SetProjectBinMetadata m @ s) = Inr (SetProjectBinMetadata m, s)"
    and "read_SetProjectTimelineBin (write_SetProjectTimelineBin b @ s) = Inr (SetProjectTimelineBin b, s)"
    and "read_RenameProjectItem (write_RenameProjectItem n @ s) = Inr (RenameProjectItem n, s)"
    and "read_SetActiveProjectTimeline (write_SetActiveProjectTimeline t @ s) = Inr (SetActiveProjectTimeline t, s)"
    and "storable_project (RelinkProjectMedia l) \<Longrightarrow>
      read_RelinkProjectMedia (write_RelinkProjectMedia l @ s) = Inr (stored_project (RelinkProjectMedia l), s)"
  by (simp_all add: write_AddProjectTimeline_def read_AddProjectTimeline_def write_CreateProjectTimelineFromSegments_def
    read_CreateProjectTimelineFromSegments_def write_RemoveProjectTimeline_def read_RemoveProjectTimeline_def
    write_SetProjectBinMetadata_def read_SetProjectBinMetadata_def Let_def write_SetProjectTimelineBin_def
    read_SetProjectTimelineBin_def write_RenameProjectItem_def read_RenameProjectItem_def write_SetActiveProjectTimeline_def
    read_SetActiveProjectTimeline_def write_RelinkProjectMedia_def read_RelinkProjectMedia_def reads)

lemma read_project_back:
  assumes "storable_project operation"
  shows "read_project_operation (SerializeProjectOperation operation @ s) = Inr (stored_project operation, s)"
proof -
  have r: "map_of project_readers name = Some r \<Longrightarrow> plain name \<Longrightarrow> read_project_operation (typed name body @ s) = r (body @ s)"
    for name r body by (simp add: read_project_operation_def typed_def reads)
  show ?thesis
    using assms project_operations_back
    by (cases operation) (simp_all add: r project_readers_def plain_def del: storable_project.simps)
qed

lemma Deserialize_Serialize_project:
  assumes "storable_project operation"
  shows "DeserializeProjectOperation (SerializeProjectOperation operation) = Inr (stored_project operation)"
proof -
  have "read_project_operation (SerializeProjectOperation operation) = Inr (stored_project operation, [])"
    using read_project_back [OF assms, of "[]"] by simp
  then show ?thesis by (simp add: DeserializeProjectOperation_def bindP_def Finish_def Skip_def ret_def)
qed

section \<open>The log\<close>

definition write_project_entry :: "ProjectOperation log_entry \<Rightarrow> string" where
  "write_project_entry e =
     first_wfield ''op'' (SerializeProjectOperation (le_op e)) @
     wfield ''inverse'' (SerializeProjectOperation (le_inverse e)) @ ''}''"

definition WriteProjectEntries :: "ProjectOperation log_entry list \<Rightarrow> string" where
  "WriteProjectEntries es = write_list write_project_entry es"

definition read_project_entry :: "ProjectOperation log_entry reader" where
  "read_project_entry =
     first_field ''op'' Object (\<lambda>operationJson.
     field ''inverse'' Object (\<lambda>inverseJson.
     bindP (Expect ''}'') (\<lambda>_.
       case DeserializeProjectOperation operationJson of
         Inl f \<Rightarrow> throw (''invalid logged project operation: '' @ failure_text f)
       | Inr operation \<Rightarrow>
           (case DeserializeProjectOperation inverseJson of
              Inl f \<Rightarrow> throw (''invalid logged project inverse: '' @ failure_text f)
            | Inr undo \<Rightarrow> ret \<lparr>le_op = operation, le_inverse = undo\<rparr>))))"

definition ReadProjectEntries :: "ProjectOperation log_entry list reader" where
  "ReadProjectEntries = read_list read_project_entry"

definition project_log_head :: string where
  "project_log_head = first_key ''version'' @ ''1'' @ key ''kind'' @ raw ''project'' @ key ''applied''"

definition ProjectEditLog_Serialize :: "ProjectOperation edit_log \<Rightarrow> string" where
  "ProjectEditLog_Serialize stk =
     project_log_head @ WriteProjectEntries (applied stk) @ wfield ''undone'' (WriteProjectEntries (undone stk)) @ ''}'' @ [CHR 0x0A]"

definition read_project_log :: "ProjectOperation edit_log reader" where
  "read_project_log =
     bindP (Expect project_log_head) (\<lambda>_.
     bindP ReadProjectEntries (\<lambda>entries.
     field ''undone'' ReadProjectEntries (\<lambda>undoneEntries.
     bindP (Expect ''}'') (\<lambda>_. bindP LogFinish (\<lambda>_. ret \<lparr>applied = entries, undone = undoneEntries\<rparr>)))))"

definition ProjectEditLog_Deserialize :: "string \<Rightarrow> ProjectOperation edit_log result" where
  "ProjectEditLog_Deserialize json =
     (case read_project_log json of
        Inl Unended \<Rightarrow> Inl Diverges
      | Inl e \<Rightarrow> reject ParseError (stop_message json e)
      | Inr (stk, _) \<Rightarrow> Inr stk)"

lemma neutral_optional_exact: "neutral (WriteExactProject exact)"
  by (cases exact) (simp_all add: WriteExactProject_def write_optional_def write_exact_project_def balanced)

lemma ends_tail: "ends_object (write_tail exact)"
  by (simp add: write_tail_def balanced neutral_optional_exact plain_def)

lemma neutral_flag [balanced]: "neutral (write_flag b)"
  by (simp add: write_flag_def balanced)

lemma neutral_media: "neutral (WriteLibraryMedia m)" "neutral (WriteMediaRate r)"
  by (simp_all add: WriteLibraryMedia_def WriteMediaRate_def balanced plain_def)

lemma neutral_project_items:
  "neutral (write_list write_segment ss)" "neutral (write_list write_relink rs)"
  by (rule neutral_list; simp add: write_segment_def write_relink_def balanced neutral_media plain_def)+

lemma Object_project: "Object (SerializeProjectOperation p @ s) = Inr (SerializeProjectOperation p, s)"
proof (cases p)
  case (SetProjectBinMetadata v)
  have "ends_object (write_SetProjectBinMetadata v)"
    by (simp add: write_SetProjectBinMetadata_def Let_def balanced ends_tail plain_def)
  then show ?thesis using SetProjectBinMetadata by (simp add: Object_typed plain_def)
qed (simp_all add: Object_typed plain_def write_AddProjectTimeline_def write_CreateProjectTimelineFromSegments_def
  write_RemoveProjectTimeline_def write_SetProjectTimelineBin_def write_RenameProjectItem_def
  write_SetActiveProjectTimeline_def write_RelinkProjectMedia_def balanced neutral_media neutral_project_items ends_tail)

definition storable_project_entry :: "ProjectOperation log_entry \<Rightarrow> bool" where
  "storable_project_entry e \<longleftrightarrow> storable_project (le_op e) \<and> storable_project (le_inverse e)"

definition stored_project_entry :: "ProjectOperation log_entry \<Rightarrow> ProjectOperation log_entry" where
  "stored_project_entry e = \<lparr>le_op = stored_project (le_op e), le_inverse = stored_project (le_inverse e)\<rparr>"

interpretation project_entry_text: item_format write_project_entry read_project_entry storable_project_entry stored_project_entry
  by unfold_locales
    (simp_all add: write_project_entry_def read_project_entry_def storable_project_entry_def stored_project_entry_def writers_head reads
      bindP_Inr Object_project Deserialize_Serialize_project)

lemma project_head: "bindP (Expect project_log_head) k (project_log_head @ s) = k () s"
  using Expect_prefix [of project_log_head s] punctuation_not_space(2)
  by (simp add: bindP_Inr project_log_head_def first_key_def)

lemma project_entries_back:
  "list_all storable_project_entry es \<Longrightarrow>
   bindP (read_list read_project_entry) k (write_list write_project_entry es @ s) = k (map stored_project_entry es) s"
  by (rule bindP_Inr) (rule project_entry_text.lists_back)

lemma read_project_log_ends: "ends read_project_log"
proof -
  have "ends read_project_entry"
    unfolding read_project_entry_def by (intro ends_intro) (auto intro: ends_intro split: sum.splits)
  moreover have "ends LogFinish" by (auto simp: ends_def LogFinish_def)
  ultimately show ?thesis unfolding read_project_log_def ReadProjectEntries_def by (intro ends_intro)
qed

section \<open>Properties\<close>

text \<open>
  Property C11: the project history survives its file up to \<open>stored_project_entry\<close>.  Every log of
  operations within the widths of their numbers (\<open>storable_project_entry\<close>), also the exact states
  with the whole project text in them, is read back with as many entries in the same order, each
  with every field except the measured audio level of replacement media, which the text does not
  have; and the reader answers on every text, with a log or a parse error.
\<close>

theorem project_log_text_round_trip:
  assumes "list_all storable_project_entry (applied stk @ undone stk)"
  shows "ProjectEditLog_Deserialize (ProjectEditLog_Serialize stk) =
      Inr \<lparr>applied = map stored_project_entry (applied stk), undone = map stored_project_entry (undone stk)\<rparr> \<and>
    ((\<exists>l. ProjectEditLog_Deserialize json = Inr l) \<or> (\<exists>what. ProjectEditLog_Deserialize json = Inl (Fail ParseError what)))"
proof -
  have "read_project_log (ProjectEditLog_Serialize stk) =
      Inr (\<lparr>applied = map stored_project_entry (applied stk), undone = map stored_project_entry (undone stk)\<rparr>, [])"
    using assms
    by (simp add: read_project_log_def ProjectEditLog_Serialize_def WriteProjectEntries_def ReadProjectEntries_def
      project_head project_entries_back log_end reads)
  then show ?thesis
    using read_project_log_ends
    by (auto simp: ProjectEditLog_Deserialize_def ends_def reject_def split: sum.splits stop.splits)
qed

definition sample_project_log :: "ProjectOperation edit_log" where
  "sample_project_log = \<lparr>applied = [batch_entry sample_project renamed_project],
     undone = [\<lparr>le_op = sample_rename, le_inverse = sample_rename\<rparr>]\<rparr>"

lemma project_log_text_round_trip_witness:
  "ProjectEditLog_Deserialize (ProjectEditLog_Serialize sample_project_log) = Inr sample_project_log"
proof -
  have "list_all storable_project_entry (applied sample_project_log @ undone sample_project_log)"
    by (simp add: sample_project_log_def batch_entry_def sample_rename_def storable_project_entry_def)
  from project_log_text_round_trip [OF this] show ?thesis
    by (simp add: sample_project_log_def batch_entry_def sample_rename_def stored_project_entry_def)
qed

end
