(* ===== verification/Media_Tasks.thy ===== *)
theory Media_Tasks
  imports Document_Json_Laws
begin

text \<open>
  \<open>MediaTaskManager\<close>, \<open>src/MediaTaskManager.cc\<close>: a queue of tasks and a pool of workers over one
  mutex.  Every block that holds the mutex is one step; what a worker does between two such
  blocks, the work itself, is any sequence of progress reports and then an outcome.  A step that
  schedules the completion callback, which runs after the mutex is released, returns the
  snapshot it passes.  Progress, a \<open>double\<close> that is only clamped and stored, is a rational.
\<close>

section \<open>Data\<close>

datatype MediaTaskKind = Probe | Thumbnail | Waveform | Proxy | Relink | Beat | Transcription | ShotQuality | SpeechOnset

datatype MediaTaskState = Queued | Running | Succeeded | Failed | Cancelled

fun MediaTaskKindName :: "MediaTaskKind \<Rightarrow> string" where
  "MediaTaskKindName Probe = ''Probe''"
| "MediaTaskKindName Thumbnail = ''Thumbnail''"
| "MediaTaskKindName Waveform = ''Waveform''"
| "MediaTaskKindName Proxy = ''Proxy''"
| "MediaTaskKindName Relink = ''Relink''"
| "MediaTaskKindName Beat = ''Beat''"
| "MediaTaskKindName Transcription = ''Transcription''"
| "MediaTaskKindName ShotQuality = ''ShotQuality''"
| "MediaTaskKindName SpeechOnset = ''SpeechOnset''"

fun MediaTaskStateName :: "MediaTaskState \<Rightarrow> string" where
  "MediaTaskStateName Queued = ''Queued''"
| "MediaTaskStateName Running = ''Running''"
| "MediaTaskStateName Succeeded = ''Succeeded''"
| "MediaTaskStateName Failed = ''Failed''"
| "MediaTaskStateName Cancelled = ''Cancelled''"

record MediaTaskSnapshot =
  mts_id :: Ulid
  mts_kind :: MediaTaskKind
  mts_state :: MediaTaskState
  mts_label :: string
  mts_detail :: string
  mts_progress :: rat
  mts_error :: string

text \<open>Of the closures of a task only whether it has a completion is of interest.\<close>

record MediaTask =
  tk_snapshot :: MediaTaskSnapshot
  tk_completion :: bool
  tk_cancelled :: bool

text \<open>Where a worker thread is: waiting at the condition, doing the work of a task, or returned.\<close>

datatype worker = Waiting | Working Ulid | Exited

record MediaTaskManager =
  mtm_tasks :: "(Ulid \<times> MediaTask) list"
  mtm_queue :: "Ulid list"
  mtm_workers :: "worker list"
  mtm_stopping :: bool

definition make_MediaTaskManager :: "nat \<Rightarrow> string + MediaTaskManager" where
  "make_MediaTaskManager concurrency =
     (if concurrency = 0 then Inl ''concurrency is zero''
      else Inr \<lparr>mtm_tasks = [], mtm_queue = [], mtm_workers = replicate concurrency Waiting, mtm_stopping = False\<rparr>)"

definition task_at :: "MediaTaskManager \<Rightarrow> Ulid \<Rightarrow> MediaTask option" where
  "task_at m i = map_of (mtm_tasks m) i"

definition update_task :: "Ulid \<Rightarrow> (MediaTask \<Rightarrow> MediaTask) \<Rightarrow> MediaTaskManager \<Rightarrow> MediaTaskManager" where
  "update_task i f m = m\<lparr>mtm_tasks := map (\<lambda>(k, t). if k = i then (k, f t) else (k, t)) (mtm_tasks m)\<rparr>"

abbreviation task_state :: "MediaTask \<Rightarrow> MediaTaskState" where
  "task_state t \<equiv> mts_state (tk_snapshot t)"

definition set_state :: "MediaTaskState \<Rightarrow> string \<Rightarrow> MediaTask \<Rightarrow> MediaTask" where
  "set_state s detail t = t\<lparr>tk_snapshot := (tk_snapshot t)\<lparr>mts_state := s, mts_detail := detail\<rparr>\<rparr>"

definition terminal :: "MediaTaskState \<Rightarrow> bool" where
  "terminal s \<longleftrightarrow> s = Succeeded \<or> s = Failed \<or> s = Cancelled"

section \<open>The client's operations\<close>

definition Enqueue :: "Ulid \<Rightarrow> MediaTaskKind \<Rightarrow> string \<Rightarrow> bool \<Rightarrow> bool \<Rightarrow> MediaTaskManager \<Rightarrow> string + MediaTaskManager" where
  "Enqueue generated kind label work completion m =
     (if \<not> work then Inl ''media task has no work''
      else if mtm_stopping m then Inl ''media task manager stopped''
      else Inr (m\<lparr>mtm_tasks := emplace (generated,
                    \<lparr>tk_snapshot = \<lparr>mts_id = generated, mts_kind = kind, mts_state = Queued, mts_label = label, mts_detail = [],
                                    mts_progress = 0, mts_error = []\<rparr>,
                     tk_completion = completion, tk_cancelled = False\<rparr>) (mtm_tasks m),
                  mtm_queue := mtm_queue m @ [generated]\<rparr>))"

definition Cancel :: "Ulid \<Rightarrow> MediaTaskManager \<Rightarrow> bool \<times> MediaTaskManager \<times> MediaTaskSnapshot option" where
  "Cancel i m =
     (case task_at m i of
        None \<Rightarrow> (False, m, None)
      | Some t \<Rightarrow>
          if terminal (task_state t) then (False, m, None)
          else let m' = update_task i (\<lambda>t. t\<lparr>tk_cancelled := True\<rparr>) m in
            if task_state t = Queued
            then let t' = set_state Cancelled ''Cancelled before start'' (t\<lparr>tk_cancelled := True\<rparr>) in
              (True, (update_task i (\<lambda>_. t') m')\<lparr>mtm_queue := removeAll i (mtm_queue m)\<rparr>,
               if tk_completion t then Some (tk_snapshot t') else None)
            else (True, m', None))"

fun cancel_each :: "Ulid list \<Rightarrow> MediaTaskManager \<Rightarrow> MediaTaskManager \<times> MediaTaskSnapshot list" where
  "cancel_each [] m = (m, [])"
| "cancel_each (i # ids) m =
     (case Cancel i m of (_, m', c) \<Rightarrow>
        case cancel_each ids m' of (m'', cs) \<Rightarrow> (m'', (case c of None \<Rightarrow> [] | Some s \<Rightarrow> [s]) @ cs))"

definition CancelAll :: "MediaTaskManager \<Rightarrow> MediaTaskManager \<times> MediaTaskSnapshot list" where
  "CancelAll m = cancel_each (map fst (mtm_tasks m)) m"

definition Snapshot :: "MediaTaskManager \<Rightarrow> MediaTaskSnapshot list" where
  "Snapshot m = map (\<lambda>(_, t). tk_snapshot t) (mtm_tasks m)"

definition IdleLocked :: "MediaTaskManager \<Rightarrow> bool" where
  "IdleLocked m \<longleftrightarrow> \<not> list_ex (\<lambda>(_, t). task_state t = Queued \<or> task_state t = Running) (mtm_tasks m)"

text \<open>The block of the destructor that holds the mutex; it then joins the workers.\<close>

definition begin_stop :: "MediaTaskManager \<Rightarrow> MediaTaskManager" where
  "begin_stop m = m\<lparr>mtm_stopping := True, mtm_tasks := map (\<lambda>(k, t). (k, t\<lparr>tk_cancelled := True\<rparr>)) (mtm_tasks m)\<rparr>"

section \<open>The workers\<close>

text \<open>
  The first block of \<open>WorkerLoop\<close>, once the condition lets the worker through.  \<open>tasks_.at\<close> throws
  when there is no such task, which would end the program: the result \<open>None\<close>.
\<close>

definition worker_wakes :: "MediaTaskManager \<Rightarrow> bool" where
  "worker_wakes m \<longleftrightarrow> mtm_stopping m \<or> mtm_queue m \<noteq> []"

definition worker_take :: "nat \<Rightarrow> MediaTaskManager \<Rightarrow> MediaTaskManager option" where
  "worker_take w m =
     (if mtm_queue m = [] then Some (m\<lparr>mtm_workers := (mtm_workers m)[w := Exited]\<rparr>)
      else let i = hd (mtm_queue m); m' = m\<lparr>mtm_queue := tl (mtm_queue m)\<rparr> in
        case task_at m i of
          None \<Rightarrow> None
        | Some t \<Rightarrow>
            if tk_cancelled t
            then Some (update_task i (\<lambda>t. t\<lparr>tk_snapshot := (tk_snapshot t)\<lparr>mts_state := Cancelled\<rparr>\<rparr>) m')
            else Some ((update_task i (set_state Running ''Starting'') m')\<lparr>mtm_workers := (mtm_workers m)[w := Working i]\<rparr>))"

definition SetProgress :: "Ulid \<Rightarrow> rat \<Rightarrow> string \<Rightarrow> MediaTaskManager \<Rightarrow> MediaTaskManager" where
  "SetProgress i progress detail =
     update_task i (\<lambda>t. t\<lparr>tk_snapshot := (tk_snapshot t)\<lparr>mts_progress := max 0 (min 1 progress), mts_detail := detail\<rparr>\<rparr>)"

text \<open>The block after the work: the outcome is \<open>succeeded\<close> and the error text, that of an exception included.\<close>

definition finished :: "bool \<Rightarrow> string \<Rightarrow> MediaTask \<Rightarrow> MediaTask" where
  "finished succeeded error t =
     (if tk_cancelled t then set_state Cancelled ''Cancelled'' t
      else if succeeded
      then set_state Succeeded ''Complete'' (t\<lparr>tk_snapshot := (tk_snapshot t)\<lparr>mts_progress := 1\<rparr>\<rparr>)
      else set_state Failed ''Failed'' (t\<lparr>tk_snapshot := (tk_snapshot t)\<lparr>mts_error := (if error = [] then ''task failed'' else error)\<rparr>\<rparr>))"

definition worker_finish :: "nat \<Rightarrow> Ulid \<Rightarrow> bool \<Rightarrow> string \<Rightarrow> MediaTaskManager \<Rightarrow> MediaTaskManager \<times> MediaTaskSnapshot option" where
  "worker_finish w i succeeded error m =
     ((update_task i (finished succeeded error) m)\<lparr>mtm_workers := (mtm_workers m)[w := Waiting]\<rparr>,
      case task_at m i of
        None \<Rightarrow> None
      | Some t \<Rightarrow> if tk_completion t then Some (tk_snapshot (finished succeeded error t)) else None)"

section \<open>Runs\<close>

text \<open>
  A configuration is the manager with the completions scheduled so far.  The generator gives each
  task an identifier of its own.
\<close>

type_synonym task_config = "MediaTaskManager \<times> MediaTaskSnapshot list"

inductive worker_step :: "task_config \<Rightarrow> task_config \<Rightarrow> bool" where
  take_task: "w < length (mtm_workers m) \<Longrightarrow> mtm_workers m ! w = Waiting \<Longrightarrow> worker_wakes m \<Longrightarrow> worker_take w m = Some m' \<Longrightarrow>
     worker_step (m, cs) (m', cs)"
| finish_task: "w < length (mtm_workers m) \<Longrightarrow> mtm_workers m ! w = Working i \<Longrightarrow> worker_finish w i succeeded error m = (m', c) \<Longrightarrow>
     worker_step (m, cs) (m', cs @ (case c of None \<Rightarrow> [] | Some s \<Rightarrow> [s]))"

inductive task_step :: "task_config \<Rightarrow> task_config \<Rightarrow> bool" where
  worker: "worker_step c c' \<Longrightarrow> task_step c c'"
| enqueue: "Enqueue i kind label work completion m = Inr m' \<Longrightarrow> i \<notin> fst ` set (mtm_tasks m) \<Longrightarrow> task_step (m, cs) (m', cs)"
| cancel: "Cancel i m = (b, m', c) \<Longrightarrow> task_step (m, cs) (m', cs @ (case c of None \<Rightarrow> [] | Some s \<Rightarrow> [s]))"
| progress: "w < length (mtm_workers m) \<Longrightarrow> mtm_workers m ! w = Working i \<Longrightarrow> task_step (m, cs) (SetProgress i p detail m, cs)"
| stop: "task_step (m, cs) (begin_stop m, cs)"

inductive tasks_reachable :: "nat \<Rightarrow> task_config \<Rightarrow> bool" for concurrency where
  start: "make_MediaTaskManager concurrency = Inr m \<Longrightarrow> tasks_reachable concurrency (m, [])"
| step: "tasks_reachable concurrency c \<Longrightarrow> task_step c c' \<Longrightarrow> tasks_reachable concurrency c'"

inductive_cases worker_stepE: "worker_step (m, cs) c'"
inductive_cases task_stepE: "task_step (m, cs) c'"

section \<open>Invariant\<close>

definition tasks_keyed :: "MediaTaskManager \<Rightarrow> bool" where
  "tasks_keyed m \<longleftrightarrow> distinct (map fst (mtm_tasks m)) \<and> (\<forall>i t. task_at m i = Some t \<longrightarrow> mts_id (tk_snapshot t) = i)"

definition queue_exact :: "MediaTaskManager \<Rightarrow> bool" where
  "queue_exact m \<longleftrightarrow> distinct (mtm_queue m) \<and>
     (\<forall>i. i \<in> set (mtm_queue m) \<longleftrightarrow> (\<exists>t. task_at m i = Some t \<and> task_state t = Queued))"

definition doing :: "worker list \<Rightarrow> nat \<Rightarrow> Ulid \<Rightarrow> bool" where
  "doing ws w i \<longleftrightarrow> w < length ws \<and> ws ! w = Working i"

definition running :: "MediaTaskManager \<Rightarrow> Ulid \<Rightarrow> bool" where
  "running m i \<longleftrightarrow> (\<exists>t. task_at m i = Some t \<and> task_state t = Running)"

definition workers_exact :: "MediaTaskManager \<Rightarrow> bool" where
  "workers_exact m \<longleftrightarrow> (\<forall>i. (\<exists>w. doing (mtm_workers m) w i) \<longleftrightarrow> running m i) \<and>
     (\<forall>v w i. doing (mtm_workers m) v i \<and> doing (mtm_workers m) w i \<longrightarrow> v = w)"

definition workers_stay :: "MediaTaskManager \<Rightarrow> bool" where
  "workers_stay m \<longleftrightarrow> (Exited \<in> set (mtm_workers m) \<longrightarrow> mtm_stopping m \<and> mtm_queue m = [])"

definition cancelled_queued :: "MediaTaskManager \<Rightarrow> bool" where
  "cancelled_queued m \<longleftrightarrow> (\<forall>i t. task_at m i = Some t \<longrightarrow> task_state t = Queued \<longrightarrow> (tk_cancelled t \<longleftrightarrow> mtm_stopping m))"

definition completions_final :: "task_config \<Rightarrow> bool" where
  "completions_final c \<longleftrightarrow> distinct (map mts_id (snd c)) \<and>
     (\<forall>s\<in>set (snd c). terminal (mts_state s) \<and> (\<exists>t. task_at (fst c) (mts_id s) = Some t \<and> tk_snapshot t = s \<and> tk_completion t))"

definition completions_sent :: "task_config \<Rightarrow> bool" where
  "completions_sent c \<longleftrightarrow> mtm_stopping (fst c) \<or>
     (\<forall>i t. task_at (fst c) i = Some t \<longrightarrow> terminal (task_state t) \<longrightarrow> tk_completion t \<longrightarrow> tk_snapshot t \<in> set (snd c))"

definition manager_ok :: "MediaTaskManager \<Rightarrow> bool" where
  "manager_ok m \<longleftrightarrow> tasks_keyed m \<and> queue_exact m \<and> workers_exact m \<and> workers_stay m \<and> cancelled_queued m"

lemmas manager_defs = manager_ok_def tasks_keyed_def queue_exact_def workers_exact_def workers_stay_def cancelled_queued_def
lemmas completion_defs = completions_final_def completions_sent_def

lemma doing_update [simp]: "w < length ws \<Longrightarrow> doing (ws[w := x]) v i \<longleftrightarrow> (if v = w then x = Working i else doing ws v i)"
  by (auto simp: doing_def nth_list_update)

lemma doing_Waiting: "ws ! w = Waiting \<Longrightarrow> \<not> doing ws w i"
  by (simp add: doing_def)

lemma doing_running: "workers_exact m \<Longrightarrow> doing (mtm_workers m) w i \<Longrightarrow> running m i"
  unfolding workers_exact_def by blast

lemma running_doing: "workers_exact m \<Longrightarrow> running m i \<Longrightarrow> \<exists>w. doing (mtm_workers m) w i"
  unfolding workers_exact_def by blast

lemma workers_exact_same:
  "workers_exact m \<Longrightarrow> mtm_workers m' = mtm_workers m \<Longrightarrow> (\<And>i. running m' i \<longleftrightarrow> running m i) \<Longrightarrow> workers_exact m'"
  unfolding workers_exact_def by simp

lemma workers_exact_release:
  assumes "workers_exact m" "w < length (mtm_workers m)" "mtm_workers m' = (mtm_workers m)[w := x]" "\<And>i. x \<noteq> Working i"
    and r: "\<And>i. running m' i \<longleftrightarrow> running m i \<and> \<not> doing (mtm_workers m) w i"
  shows "workers_exact m'"
proof -
  have d: "doing (mtm_workers m') v i \<longleftrightarrow> v \<noteq> w \<and> doing (mtm_workers m) v i" for v i using assms by simp
  show ?thesis using assms(1) unfolding workers_exact_def d r by metis
qed

lemma workers_exact_claim:
  assumes "workers_exact m" "w < length (mtm_workers m)" "mtm_workers m ! w = Waiting"
    and "mtm_workers m' = (mtm_workers m)[w := Working k]" "\<not> running m k"
    and r: "\<And>i. running m' i \<longleftrightarrow> i = k \<or> running m i"
  shows "workers_exact m'"
proof -
  have d: "doing (mtm_workers m') v i \<longleftrightarrow> v = w \<and> i = k \<or> doing (mtm_workers m) v i" for v i
    using assms(2,4) doing_Waiting [OF assms(3)] by auto
  have n: "\<not> doing (mtm_workers m) v k" for v using assms(1,5) doing_running by blast
  show ?thesis using assms(1) n unfolding workers_exact_def d r by metis
qed

lemma map_of_changed:
  "map_of (map (\<lambda>(k, t). if k = i then (k, f t) else (k, t)) ts) j = (if j = i then map_option f (map_of ts j) else map_of ts j)"
  by (induction ts) auto

lemma task_at_update [simp]:
  "task_at (update_task i f m) j = (if j = i then map_option f (task_at m j) else task_at m j)"
  by (simp add: task_at_def update_task_def map_of_changed)

lemma update_task_rest [simp]:
  "mtm_queue (update_task i f m) = mtm_queue m" "mtm_workers (update_task i f m) = mtm_workers m"
  "mtm_stopping (update_task i f m) = mtm_stopping m"
  by (simp_all add: update_task_def)

lemma update_task_keys [simp]: "map fst (mtm_tasks (update_task i f m)) = map fst (mtm_tasks m)"
  by (auto simp: update_task_def)

lemma task_at_key: "(\<exists>t. task_at m i = Some t) \<longleftrightarrow> i \<in> fst ` set (mtm_tasks m)"
  by (metis task_at_def map_of_eq_None_iff option.exhaust option.distinct(1))

lemma set_state_simps [simp]:
  "task_state (set_state s d t) = s" "mts_id (tk_snapshot (set_state s d t)) = mts_id (tk_snapshot t)"
  "tk_completion (set_state s d t) = tk_completion t" "tk_cancelled (set_state s d t) = tk_cancelled t"
  by (simp_all add: set_state_def)

lemma finished_simps [simp]:
  "terminal (task_state (finished b e t))" "mts_id (tk_snapshot (finished b e t)) = mts_id (tk_snapshot t)"
  "tk_completion (finished b e t) = tk_completion t"
  "task_state (finished b e t) \<noteq> Queued" "task_state (finished b e t) \<noteq> Running"
  by (auto simp: finished_def terminal_def)

lemma terminal_simps [simp]: "\<not> terminal Queued" "\<not> terminal Running" "terminal Succeeded" "terminal Failed" "terminal Cancelled"
  by (simp_all add: terminal_def)

lemma manager_start: "make_MediaTaskManager n = Inr m \<Longrightarrow> manager_ok m"
  by (auto simp: make_MediaTaskManager_def manager_defs task_at_def doing_def running_def split: if_splits)

lemma distinct_emplace: "fst p \<notin> fst ` set ts \<Longrightarrow> distinct (map fst ts) \<Longrightarrow> distinct (map fst (emplace p ts))"
proof (induction ts)
  case (Cons q ts)
  have "set (map fst (emplace p ts)) = insert (fst p) (set (map fst ts))" using emplace_keys [of p ts] by simp
  then show ?case using Cons by auto
qed simp

lemma enqueue_ok:
  assumes "Enqueue i kind label work completion m = Inr m'" and "i \<notin> fst ` set (mtm_tasks m)" and "manager_ok m"
  shows "manager_ok m'"
proof -
  have new: "task_at m i = None" using assms(2) by (simp add: task_at_def map_of_eq_None_iff)
  have r: "\<not> mtm_stopping m" using assms(1) by (simp add: Enqueue_def split: if_splits)
  obtain t where m': "m' = m\<lparr>mtm_tasks := emplace (i, t) (mtm_tasks m), mtm_queue := mtm_queue m @ [i]\<rparr>"
    and t: "task_state t = Queued" "mts_id (tk_snapshot t) = i" "\<not> tk_cancelled t"
    using assms(1) by (auto simp: Enqueue_def split: if_splits)
  have look: "task_at m' j = (if j = i then Some t else task_at m j)" for j
    using assms(2) by (simp add: m' task_at_def map_of_emplace)
  have "tasks_keyed m'" using assms(3) t(2) assms(2)
    by (simp add: manager_defs look) (simp add: m' distinct_emplace)
  moreover have "queue_exact m'" using assms(3) t(1) new by (auto simp: manager_defs look) (auto simp: m')
  moreover have "workers_exact m'"
    by (rule workers_exact_same [of m]) (use assms(3) t(1) new in \<open>auto simp: manager_ok_def running_def look\<close>, simp add: m')
  moreover have "workers_stay m'" "cancelled_queued m'" using assms(3) t r by (auto simp: manager_defs look) (auto simp: m')
  ultimately show ?thesis by (simp add: manager_ok_def)
qed

lemma task_at_rest [simp]:
  "task_at (m\<lparr>mtm_queue := q\<rparr>) = task_at m" "task_at (m\<lparr>mtm_workers := ws\<rparr>) = task_at m"
  "task_at (m\<lparr>mtm_stopping := b\<rparr>) = task_at m"
  by (auto simp: task_at_def fun_eq_iff)

text \<open>A step of a manager that keeps the keys and changes one task.\<close>

lemma tasks_keyed_update:
  "tasks_keyed m \<Longrightarrow> (\<And>t. mts_id (tk_snapshot (f t)) = mts_id (tk_snapshot t)) \<Longrightarrow> tasks_keyed (update_task i f m)"
  by (auto simp: tasks_keyed_def)

lemma tasks_keyed_rest [simp]:
  "tasks_keyed (m\<lparr>mtm_queue := q\<rparr>) = tasks_keyed m" "tasks_keyed (m\<lparr>mtm_workers := ws\<rparr>) = tasks_keyed m"
  by (simp_all add: tasks_keyed_def)

lemma cancel_ok:
  assumes "Cancel i m = (b, m', c)" and "manager_ok m"
  shows "manager_ok m'"
proof (cases "m' = m")
  case False
  then obtain t where t: "task_at m i = Some t" "\<not> terminal (task_state t)" using assms(1) by (auto simp: Cancel_def split: option.splits if_splits)
  let ?m = "update_task i (\<lambda>t. t\<lparr>tk_cancelled := True\<rparr>) m"
  show ?thesis
  proof (cases "task_state t = Queued")
    case True
    then have m': "m' = (update_task i (\<lambda>_. set_state Cancelled ''Cancelled before start'' (t\<lparr>tk_cancelled := True\<rparr>)) ?m)
        \<lparr>mtm_queue := removeAll i (mtm_queue m)\<rparr>"
      using assms(1) t by (auto simp: Cancel_def Let_def)
    have "tasks_keyed m'" using assms(2) t by (auto simp: m' manager_defs)
    moreover have "queue_exact m'" using assms(2) t by (auto simp: m' manager_defs distinct_removeAll)
    moreover have "workers_exact m'"
      by (rule workers_exact_same [of m]) (use assms(2) t True in \<open>auto simp: m' manager_ok_def running_def\<close>)
    moreover have "workers_stay m'" "cancelled_queued m'" using assms(2) t by (auto simp: m' manager_defs)
    ultimately show ?thesis by (simp add: manager_ok_def)
  next
    case nq: False
    then have m': "m' = ?m" using assms(1) t by (auto simp: Cancel_def Let_def)
    have "workers_exact m'"
      by (rule workers_exact_same [of m]) (use assms(2) t in \<open>auto simp: m' manager_ok_def running_def\<close>)
    moreover have "tasks_keyed m'" "queue_exact m'" "workers_stay m'" "cancelled_queued m'"
      using assms(2) t nq by (auto simp: m' manager_ok_def tasks_keyed_def queue_exact_def workers_stay_def cancelled_queued_def)
    ultimately show ?thesis by (simp add: manager_ok_def)
  qed
qed (use assms in simp)

lemma stop_ok: "manager_ok m \<Longrightarrow> manager_ok (begin_stop m)"
proof -
  assume m: "manager_ok m"
  have look: "task_at (begin_stop m) i = map_option (\<lambda>t. t\<lparr>tk_cancelled := True\<rparr>) (task_at m i)" for i
    by (simp add: begin_stop_def task_at_def map_of_map)
  have "map fst (mtm_tasks (begin_stop m)) = map fst (mtm_tasks m)" by (auto simp: begin_stop_def)
  then have "tasks_keyed (begin_stop m)" using m by (auto simp: manager_ok_def tasks_keyed_def look)
  moreover have rest: "mtm_workers (begin_stop m) = mtm_workers m" "mtm_queue (begin_stop m) = mtm_queue m" "mtm_stopping (begin_stop m)"
    by (simp_all add: begin_stop_def)
  moreover have "workers_exact (begin_stop m)"
    by (rule workers_exact_same [of m]) (use m in \<open>auto simp: manager_ok_def running_def look rest\<close>)
  ultimately show ?thesis using m
    by (auto simp: manager_ok_def queue_exact_def workers_stay_def cancelled_queued_def look)
qed

lemma take_ok:
  assumes "w < length (mtm_workers m)" "mtm_workers m ! w = Waiting" "worker_wakes m" "worker_take w m = Some m'" "manager_ok m"
  shows "manager_ok m'"
proof (cases "mtm_queue m")
  case Nil
  then have m': "m' = m\<lparr>mtm_workers := (mtm_workers m)[w := Exited]\<rparr>" using assms(4) by (simp add: worker_take_def)
  have "mtm_stopping m" using assms(3) Nil by (simp add: worker_wakes_def)
  moreover have "workers_exact m'"
    by (rule workers_exact_release [of m w _ Exited])
      (use assms(1,5) doing_Waiting [OF assms(2)] in \<open>auto simp: m' manager_ok_def running_def\<close>)
  ultimately show ?thesis using assms(5) Nil by (auto simp: m' manager_ok_def queue_exact_def workers_stay_def cancelled_queued_def)
next
  case (Cons i q)
  then obtain t where t: "task_at m i = Some t" "task_state t = Queued" using assms(5)
    by (auto simp: manager_ok_def queue_exact_def)
  have q: "i \<notin> set q" "distinct q" "\<And>j. j \<in> set q \<Longrightarrow> \<exists>t. task_at m j = Some t \<and> task_state t = Queued"
    "\<And>j t. task_at m j = Some t \<Longrightarrow> task_state t = Queued \<Longrightarrow> j = i \<or> j \<in> set q"
    using assms(5) Cons by (auto simp: manager_ok_def queue_exact_def)
  have stay: "Exited \<notin> set (mtm_workers m)" using assms(5) Cons by (auto simp: manager_ok_def workers_stay_def)
  have ex: "workers_exact m" "tasks_keyed m" "cancelled_queued m" using assms(5) by (simp_all add: manager_ok_def)
  show ?thesis
  proof (cases "tk_cancelled t")
    case True
    then have m': "m' = update_task i (\<lambda>t. t\<lparr>tk_snapshot := (tk_snapshot t)\<lparr>mts_state := Cancelled\<rparr>\<rparr>) (m\<lparr>mtm_queue := q\<rparr>)"
      using assms(4) Cons t by (simp add: worker_take_def)
    have "tasks_keyed m'" using ex(2) by (auto simp: m' intro: tasks_keyed_update)
    moreover have "queue_exact m'" using q by (auto simp: m' queue_exact_def)
    moreover have "workers_exact m'" by (rule workers_exact_same [of m]) (use ex(1) t in \<open>auto simp: m' running_def\<close>)
    moreover have "workers_stay m'" "cancelled_queued m'" using stay ex(3) by (auto simp: m' workers_stay_def cancelled_queued_def)
    ultimately show ?thesis by (simp add: manager_ok_def)
  next
    case False
    then have m': "m' = (update_task i (set_state Running ''Starting'') (m\<lparr>mtm_queue := q\<rparr>))\<lparr>mtm_workers := (mtm_workers m)[w := Working i]\<rparr>"
      using assms(4) Cons t by (simp add: worker_take_def)
    have "tasks_keyed m'" using ex(2) by (auto simp: m' intro: tasks_keyed_update)
    moreover have "queue_exact m'" using q by (auto simp: m' queue_exact_def)
    moreover have "workers_exact m'"
      by (rule workers_exact_claim [OF ex(1) assms(1,2), of _ i]) (use t in \<open>auto simp: m' running_def\<close>)
    moreover have "workers_stay m'" using stay assms(1) by (auto simp: m' workers_stay_def dest: subsetD [OF set_update_subset_insert])
    moreover have "cancelled_queued m'" using ex(3) by (auto simp: m' cancelled_queued_def)
    ultimately show ?thesis by (simp add: manager_ok_def)
  qed
qed

lemma finish_ok:
  assumes "w < length (mtm_workers m)" "mtm_workers m ! w = Working i" "worker_finish w i b e m = (m', c)" "manager_ok m"
  shows "manager_ok m'"
proof -
  have d: "doing (mtm_workers m) w i" using assms(1,2) by (simp add: doing_def)
  then obtain t where t: "task_at m i = Some t" "task_state t = Running"
    using assms(4) doing_running [of m w i] by (auto simp: manager_ok_def running_def)
  have m': "m' = (update_task i (finished b e) m)\<lparr>mtm_workers := (mtm_workers m)[w := Waiting]\<rparr>"
    using assms(3) by (simp add: worker_finish_def)
  have ex: "workers_exact m" "tasks_keyed m" "cancelled_queued m" "workers_stay m" "queue_exact m" using assms(4) by (simp_all add: manager_ok_def)
  have "tasks_keyed m'" using ex(2) by (auto simp: m' intro: tasks_keyed_update)
  moreover have "queue_exact m'" using ex(5) t by (auto simp: m' queue_exact_def)
  moreover have "workers_exact m'"
    by (rule workers_exact_release [of m w _ Waiting]) (use ex(1) t assms(1,2) in \<open>auto simp: m' running_def doing_def\<close>)
  moreover have "workers_stay m'" using ex(4) by (auto simp: m' workers_stay_def dest: subsetD [OF set_update_subset_insert])
  moreover have "cancelled_queued m'" using ex(3) by (auto simp: m' cancelled_queued_def)
  ultimately show ?thesis by (simp add: manager_ok_def)
qed

lemma progress_ok:
  assumes "manager_ok m"
  shows "manager_ok (SetProgress i p detail m)"
proof -
  have "workers_exact (SetProgress i p detail m)"
    by (rule workers_exact_same [of m]) (use assms in \<open>auto simp: manager_ok_def running_def SetProgress_def\<close>)
  then show ?thesis using assms
    by (auto simp: manager_ok_def SetProgress_def tasks_keyed_def queue_exact_def workers_stay_def cancelled_queued_def)
qed

lemma task_step_ok: "task_step c c' \<Longrightarrow> manager_ok (fst c) \<Longrightarrow> manager_ok (fst c')"
  by (cases rule: task_step.cases)
    (auto elim!: worker_step.cases intro: take_ok finish_ok enqueue_ok cancel_ok progress_ok stop_ok)

section \<open>What a step settles\<close>

definition frozen :: "MediaTaskManager \<Rightarrow> MediaTaskManager \<Rightarrow> bool" where
  "frozen m m' \<longleftrightarrow> (\<forall>i t. task_at m i = Some t \<and> terminal (task_state t) \<longrightarrow>
     (\<exists>t'. task_at m' i = Some t' \<and> tk_snapshot t' = tk_snapshot t \<and> tk_completion t' = tk_completion t))"

lemma frozenD:
  assumes "frozen m m'" "task_at m i = Some t" "terminal (task_state t)" "task_at m' i = Some t'"
  shows "tk_snapshot t' = tk_snapshot t" "tk_completion t' = tk_completion t"
  using assms unfolding frozen_def by fastforce+

definition settles :: "MediaTaskManager \<Rightarrow> MediaTaskManager \<Rightarrow> MediaTaskSnapshot list \<Rightarrow> bool" where
  "settles m m' new \<longleftrightarrow> frozen m m' \<and> length new \<le> 1 \<and>
     (\<forall>s\<in>set new. terminal (mts_state s) \<and> (\<exists>t. task_at m (mts_id s) = Some t \<and> \<not> terminal (task_state t)) \<and>
        (\<exists>t'. task_at m' (mts_id s) = Some t' \<and> tk_snapshot t' = s \<and> tk_completion t')) \<and>
     (mtm_stopping m' \<or> \<not> mtm_stopping m \<and>
        (\<forall>i t'. task_at m' i = Some t' \<and> terminal (task_state t') \<and> tk_completion t' \<longrightarrow>
           (\<exists>t. task_at m i = Some t \<and> terminal (task_state t)) \<or> tk_snapshot t' \<in> set new))"

lemma settles_quiet:
  assumes "frozen m m'" "mtm_stopping m' = mtm_stopping m"
    and "\<And>i t'. task_at m' i = Some t' \<Longrightarrow> terminal (task_state t') \<Longrightarrow> \<not> mtm_stopping m \<Longrightarrow> \<exists>t. task_at m i = Some t \<and> terminal (task_state t)"
  shows "settles m m' []"
  using assms by (auto simp: settles_def)

lemma settles_one:
  assumes "task_at m i = Some t" "\<not> terminal (task_state t)" "terminal (task_state t')" "mts_id (tk_snapshot t') = i"
    and "tk_completion t' = tk_completion t" "\<And>j. task_at m' j = (if j = i then Some t' else task_at m j)" "mtm_stopping m' = mtm_stopping m"
  shows "settles m m' (if tk_completion t then [tk_snapshot t'] else [])"
  using assms by (auto simp: settles_def frozen_def)

lemma enqueue_settles:
  assumes "Enqueue i kind label work completion m = Inr m'" and "i \<notin> fst ` set (mtm_tasks m)"
  shows "settles m m' []"
proof -
  have new: "task_at m i = None" using assms(2) by (simp add: task_at_def map_of_eq_None_iff)
  obtain t where m': "m' = m\<lparr>mtm_tasks := emplace (i, t) (mtm_tasks m), mtm_queue := mtm_queue m @ [i]\<rparr>"
    and t: "task_state t = Queued" using assms(1) by (auto simp: Enqueue_def split: if_splits)
  have look: "task_at m' j = (if j = i then Some t else task_at m j)" for j
    using assms(2) by (simp add: m' task_at_def map_of_emplace)
  have "mtm_stopping m' = mtm_stopping m" by (simp add: m')
  then show ?thesis by (rule settles_quiet [rotated]) (use new t in \<open>auto simp: frozen_def look split: if_splits\<close>)
qed

lemma cancel_settles:
  assumes "Cancel i m = (b, m', c)" and "manager_ok m"
  shows "settles m m' (case c of None \<Rightarrow> [] | Some s \<Rightarrow> [s])"
proof (cases "\<exists>t. task_at m i = Some t \<and> \<not> terminal (task_state t)")
  case False
  then have "m' = m" "c = None" using assms(1) by (auto simp: Cancel_def split: option.splits)
  then show ?thesis by (auto intro!: settles_quiet simp: frozen_def)
next
  case True
  then obtain t where t: "task_at m i = Some t" "\<not> terminal (task_state t)" by blast
  have key: "mts_id (tk_snapshot t) = i" using assms(2) t(1) by (auto simp: manager_ok_def tasks_keyed_def)
  show ?thesis
  proof (cases "task_state t = Queued")
    case True
    let ?t = "set_state Cancelled ''Cancelled before start'' (t\<lparr>tk_cancelled := True\<rparr>)"
    have c: "(case c of None \<Rightarrow> [] | Some s \<Rightarrow> [s]) = (if tk_completion t then [tk_snapshot ?t] else [])"
      and m': "\<And>j. task_at m' j = (if j = i then Some ?t else task_at m j)" "mtm_stopping m' = mtm_stopping m"
      using assms(1) t True by (auto simp: Cancel_def Let_def)
    show ?thesis unfolding c by (rule settles_one [OF t _ _ _ m']) (simp_all add: key)
  next
    case False
    then have "c = None" "m' = update_task i (\<lambda>t. t\<lparr>tk_cancelled := True\<rparr>) m" using assms(1) t by (auto simp: Cancel_def Let_def)
    then show ?thesis using t by (auto intro!: settles_quiet simp: frozen_def split: if_splits)
  qed
qed

lemma finish_settles:
  assumes "doing (mtm_workers m) w i" "worker_finish w i b e m = (m', c)" "manager_ok m"
  shows "settles m m' (case c of None \<Rightarrow> [] | Some s \<Rightarrow> [s])"
proof -
  obtain t where t: "task_at m i = Some t" "task_state t = Running"
    using assms doing_running [of m w i] by (auto simp: manager_ok_def running_def)
  have key: "mts_id (tk_snapshot t) = i" using assms(3) t(1) by (auto simp: manager_ok_def tasks_keyed_def)
  have c: "(case c of None \<Rightarrow> [] | Some s \<Rightarrow> [s]) = (if tk_completion t then [tk_snapshot (finished b e t)] else [])"
    and m': "\<And>j. task_at m' j = (if j = i then Some (finished b e t) else task_at m j)" "mtm_stopping m' = mtm_stopping m"
    using assms(2) t by (auto simp: worker_finish_def)
  show ?thesis unfolding c by (rule settles_one [OF t(1) _ _ _ _ m']) (simp_all add: key t)
qed

lemma take_settles:
  assumes "worker_take w m = Some m'" "manager_ok m"
  shows "settles m m' []"
proof (cases "mtm_queue m")
  case Nil
  then show ?thesis using assms(1) by (auto simp: worker_take_def frozen_def intro!: settles_quiet)
next
  case (Cons i q)
  then obtain t where t: "task_at m i = Some t" "task_state t = Queued" using assms(2)
    by (auto simp: manager_ok_def queue_exact_def)
  then have "tk_cancelled t = mtm_stopping m" using assms(2) by (auto simp: manager_ok_def cancelled_queued_def)
  then show ?thesis using assms(1) t Cons
    by (intro settles_quiet) (auto simp: worker_take_def frozen_def split: if_splits)
qed

lemma progress_settles: "doing (mtm_workers m) w i \<Longrightarrow> manager_ok m \<Longrightarrow> settles m (SetProgress i p detail m) []"
  using doing_running [of m w i]
  by (intro settles_quiet) (auto simp: SetProgress_def frozen_def manager_ok_def running_def split: if_splits)

lemma stop_settles: "settles m (begin_stop m) []"
  by (auto simp: settles_def frozen_def begin_stop_def task_at_def map_of_map)

lemma task_step_settles:
  assumes "task_step (m, cs) (m', cs')" "manager_ok m"
  shows "\<exists>new. cs' = cs @ new \<and> settles m m' new"
  using assms(1)
proof (cases rule: task_step.cases)
  case worker
  then show ?thesis
    by cases (use assms(2) take_settles in fastforce, use assms(2) finish_settles in \<open>auto simp: doing_def\<close>)
qed (use assms(2) enqueue_settles cancel_settles progress_settles stop_settles in \<open>auto simp: doing_def\<close>)

lemma completions_step:
  assumes "settles m m' new" "completions_final (m, cs)" "completions_sent (m, cs)"
  shows "completions_final (m', cs @ new) \<and> completions_sent (m', cs @ new)"
proof
  have old: "\<exists>t. task_at m' (mts_id s) = Some t \<and> tk_snapshot t = s \<and> tk_completion t" if "s \<in> set cs" for s
    using that assms(1,2) by (fastforce simp: completions_final_def settles_def frozen_def)
  have "mts_id s \<notin> mts_id ` set cs" if "s \<in> set new" for s
    using that assms(1,2) by (fastforce simp: completions_final_def settles_def)
  then have "set (map mts_id cs) \<inter> set (map mts_id new) = {}" by (simp add: disjoint_iff) blast
  moreover have "distinct (map mts_id new)" using assms(1) by (cases new) (auto simp: settles_def)
  ultimately show "completions_final (m', cs @ new)"
    using assms(1,2) old unfolding completions_final_def settles_def by (simp add: ball_Un)
  show "completions_sent (m', cs @ new)"
  proof (cases "mtm_stopping m'")
    case False
    have "tk_snapshot t' \<in> set (cs @ new)" if t': "task_at m' i = Some t'" "terminal (task_state t')" "tk_completion t'" for i t'
    proof (cases "tk_snapshot t' \<in> set new")
      case no: False
      then obtain t where t: "task_at m i = Some t" "terminal (task_state t)"
        using assms(1) False t' unfolding settles_def by blast
      then have "tk_snapshot t' = tk_snapshot t" "tk_completion t" using assms(1) t' frozenD [of m m' i t t'] by (simp_all add: settles_def)
      then show ?thesis using assms(1,3) False t by (auto simp: completions_sent_def settles_def)
    qed simp
    then show ?thesis by (auto simp: completions_sent_def)
  qed (simp add: completions_sent_def)
qed

lemma task_step_completions:
  assumes "task_step c c'" "manager_ok (fst c)" "completions_final c" "completions_sent c"
  shows "completions_final c' \<and> completions_sent c'"
  using task_step_settles [of "fst c" "snd c" "fst c'" "snd c'"] assms completions_step [of "fst c" "fst c'" _ "snd c"]
  by (metis prod.collapse)

lemma reachable_ok:
  "tasks_reachable n c \<Longrightarrow> manager_ok (fst c) \<and> completions_final c \<and> completions_sent c"
proof (induction rule: tasks_reachable.induct)
  case (start m)
  then have "task_at m i = None" for i by (auto simp: make_MediaTaskManager_def task_at_def split: if_splits)
  then show ?case using manager_start [OF start] by (simp add: completion_defs)
next
  case (step c c')
  then show ?case using task_step_ok task_step_completions by blast
qed

lemma worker_count: "task_step c c' \<Longrightarrow> length (mtm_workers (fst c')) = length (mtm_workers (fst c))"
  by (cases rule: task_step.cases)
    (auto elim!: worker_step.cases simp: worker_take_def worker_finish_def Enqueue_def Cancel_def Let_def SetProgress_def begin_stop_def
      split: option.splits if_splits)

lemma reachable_count: "tasks_reachable n c \<Longrightarrow> 0 < n \<and> length (mtm_workers (fst c)) = n"
  by (induction rule: tasks_reachable.induct) (auto simp: make_MediaTaskManager_def worker_count split: if_splits)

section \<open>Progress\<close>

fun worker_weight :: "worker \<Rightarrow> nat" where
  "worker_weight Waiting = 1"
| "worker_weight (Working _) = 2"
| "worker_weight Exited = 0"

definition tasks_left :: "MediaTaskManager \<Rightarrow> nat" where
  "tasks_left m = 2 * length (mtm_queue m) + sum_list (map worker_weight (mtm_workers m))"

lemma sum_weights_update:
  "w < length ws \<Longrightarrow> sum_list (map worker_weight (ws[w := x])) + worker_weight (ws ! w) = sum_list (map worker_weight ws) + worker_weight x"
proof (induction ws arbitrary: w)
  case (Cons y ws)
  then show ?case by (cases w) auto
qed simp

lemma worker_step_decreases: "worker_step c c' \<Longrightarrow> tasks_left (fst c') < tasks_left (fst c)"
proof (induction rule: worker_step.induct)
  case (take_task w m m' cs)
  then show ?case
    using sum_weights_update [of w "mtm_workers m" Exited] sum_weights_update [of w "mtm_workers m" "Working (hd (mtm_queue m))"]
    by (cases "mtm_queue m") (auto simp: worker_take_def tasks_left_def Let_def split: option.splits if_splits)
next
  case (finish_task w m i b e m' c cs)
  then show ?case using sum_weights_update [of w "mtm_workers m" Waiting]
    by (auto simp: worker_finish_def tasks_left_def)
qed

lemma worker_take_total: "manager_ok m \<Longrightarrow> \<exists>m'. worker_take w m = Some m'"
proof (cases "mtm_queue m")
  case (Cons i q)
  assume "manager_ok m"
  then obtain t where "task_at m i = Some t" using Cons by (auto simp: manager_ok_def queue_exact_def)
  then show ?thesis using Cons by (simp add: worker_take_def Let_def)
qed (simp add: worker_take_def)

lemma worker_step_enabled:
  assumes "manager_ok m" "w < length (mtm_workers m)" "mtm_workers m ! w \<noteq> Exited" "worker_wakes m \<or> (\<exists>i. running m i)"
  shows "\<exists>c'. worker_step (m, cs) c'"
proof (cases "\<exists>v i. doing (mtm_workers m) v i")
  case True
  then obtain v i where "v < length (mtm_workers m)" "mtm_workers m ! v = Working i" by (auto simp: doing_def)
  moreover obtain m' c where "worker_finish v i True [] m = (m', c)" by fastforce
  ultimately show ?thesis using worker_step.finish_task by blast
next
  case False
  then have "\<not> running m i" for i using assms(1) by (auto simp: manager_ok_def workers_exact_def)
  moreover have "mtm_workers m ! w = Waiting" using False assms(2,3) by (cases "mtm_workers m ! w") (auto simp: doing_def)
  ultimately show ?thesis using assms worker_take_total [OF assms(1), of w] worker_step.take_task by blast
qed

lemma IdleLocked_iff:
  "manager_ok m \<Longrightarrow> IdleLocked m \<longleftrightarrow> mtm_queue m = [] \<and> (\<forall>i. \<not> running m i)"
proof -
  assume m: "manager_ok m"
  have "(k, t) \<in> set (mtm_tasks m) \<longleftrightarrow> task_at m k = Some t" for k t
    using m by (simp add: manager_ok_def tasks_keyed_def task_at_def)
  moreover have "i \<in> set (mtm_queue m) \<longleftrightarrow> (\<exists>t. task_at m i = Some t \<and> task_state t = Queued)" for i
    using m by (simp add: manager_ok_def queue_exact_def)
  then have "mtm_queue m = [] \<longleftrightarrow> (\<forall>i t. task_at m i = Some t \<longrightarrow> task_state t \<noteq> Queued)"
    by (metis all_not_in_conv set_empty)
  ultimately show ?thesis by (fastforce simp: IdleLocked_def running_def list_ex_iff)
qed

lemma worker_steps_end:
  assumes "manager_ok m" "0 < length (mtm_workers m)" "\<not> (\<exists>c'. worker_step (m, cs) c')"
  shows "IdleLocked m \<and> (mtm_stopping m \<longrightarrow> (\<forall>w\<in>set (mtm_workers m). w = Exited))"
proof -
  have none: "mtm_workers m ! w = Exited" if "worker_wakes m \<or> (\<exists>i. running m i)" "w < length (mtm_workers m)" for w
    using that worker_step_enabled assms(1,3) by blast
  have "\<not> running m i" for i
  proof
    assume r: "running m i"
    then obtain w where w: "doing (mtm_workers m) w i" using assms(1) running_doing by (auto simp: manager_ok_def)
    then show False using none [of w] r by (auto simp: doing_def)
  qed
  moreover have "mtm_queue m = []"
  proof (rule ccontr)
    assume "mtm_queue m \<noteq> []"
    then show False using none [of 0] assms(1,2) nth_mem [of 0 "mtm_workers m"]
      by (auto simp: worker_wakes_def manager_ok_def workers_stay_def)
  qed
  ultimately show ?thesis using none assms(1) by (auto simp: IdleLocked_iff worker_wakes_def in_set_conv_nth)
qed

lemma steps_invariant: "P c \<Longrightarrow> (\<And>c c'. P c \<Longrightarrow> R c c' \<Longrightarrow> P c') \<Longrightarrow> R\<^sup>*\<^sup>* c c' \<Longrightarrow> P c'"
proof -
  assume "R\<^sup>*\<^sup>* c c'" and "P c" and "\<And>c c'. P c \<Longrightarrow> R c c' \<Longrightarrow> P c'"
  then show ?thesis by (induction rule: rtranclp_induct) blast+
qed

lemma reachable_steps: "tasks_reachable n c \<Longrightarrow> task_step\<^sup>*\<^sup>* c c' \<Longrightarrow> tasks_reachable n c'"
  by (rule steps_invariant) (auto intro: tasks_reachable.step)

lemma worker_steps_reachable: "tasks_reachable n c \<Longrightarrow> worker_step\<^sup>*\<^sup>* c c' \<Longrightarrow> tasks_reachable n c'"
  by (rule steps_invariant) (auto intro: tasks_reachable.step task_step.worker)

lemma worker_steps_bound: "(worker_step ^^ k) c c' \<Longrightarrow> k + tasks_left (fst c') \<le> tasks_left (fst c)"
proof (induction k arbitrary: c')
  case (Suc k)
  then obtain c'' where "(worker_step ^^ k) c c''" "worker_step c'' c'" by auto
  then show ?case using Suc.IH worker_step_decreases by fastforce
qed simp

lemma frozen_trans: "frozen m m' \<Longrightarrow> frozen m' m'' \<Longrightarrow> frozen m m''"
  unfolding frozen_def by metis

lemma frozen_steps:
  assumes "tasks_reachable n c" "task_step\<^sup>*\<^sup>* c c'"
  shows "frozen (fst c) (fst c')"
proof -
  have "tasks_reachable n c' \<and> frozen (fst c) (fst c')"
  proof (rule steps_invariant [OF _ _ assms(2)])
    fix d d' assume "tasks_reachable n d \<and> frozen (fst c) (fst d)" and s: "task_step d d'"
    then have d: "tasks_reachable n d" "frozen (fst c) (fst d)" by blast+
    then have "frozen (fst d) (fst d')"
      using task_step_settles [of "fst d" "snd d" "fst d'" "snd d'"] reachable_ok [OF d(1)] s by (auto simp: settles_def)
    then show "tasks_reachable n d' \<and> frozen (fst c) (fst d')" using d s frozen_trans tasks_reachable.step by blast
  qed (use assms(1) in \<open>auto simp: frozen_def\<close>)
  then show ?thesis ..
qed

definition doomed :: "MediaTaskManager \<Rightarrow> Ulid \<Rightarrow> bool" where
  "doomed m i \<longleftrightarrow> (\<exists>t. task_at m i = Some t \<and> tk_cancelled t \<and> task_state t \<noteq> Succeeded \<and> task_state t \<noteq> Failed)"

lemma finished_cancelled: "tk_cancelled t \<Longrightarrow> finished b e t = set_state Cancelled ''Cancelled'' t"
  by (simp add: finished_def)

lemma cancel_dooms: "Cancel i m = (True, m', c) \<Longrightarrow> doomed m' i"
  by (auto simp: Cancel_def doomed_def Let_def terminal_def split: option.splits if_splits)

lemma doomed_take: "worker_take w m = Some m' \<Longrightarrow> doomed m i \<Longrightarrow> doomed m' i"
  by (cases "mtm_queue m") (auto simp: worker_take_def doomed_def Let_def split: option.splits if_splits)

lemma doomed_enqueue:
  "Enqueue k kind label work completion m = Inr m' \<Longrightarrow> k \<notin> fst ` set (mtm_tasks m) \<Longrightarrow> doomed m i \<Longrightarrow> doomed m' i"
  by (cases "k = i") (auto simp: Enqueue_def doomed_def task_at_def map_of_emplace map_of_eq_None_iff [symmetric] split: if_splits)

lemma doomed_cancel: "Cancel k m = (b, m', c) \<Longrightarrow> doomed m i \<Longrightarrow> doomed m' i"
  by (auto simp: Cancel_def doomed_def Let_def terminal_def split: option.splits if_splits)

lemma doomed_rest:
  "worker_finish w k b e m = (m', c) \<Longrightarrow> doomed m i \<Longrightarrow> doomed m' i"
  "doomed m i \<Longrightarrow> doomed (SetProgress k p detail m) i" "doomed m i \<Longrightarrow> doomed (begin_stop m) i"
proof -
  show "doomed m' i" if "worker_finish w k b e m = (m', c)" "doomed m i"
    using that by (auto simp: worker_finish_def doomed_def finished_cancelled)
  show "doomed (SetProgress k p detail m) i" if "doomed m i" using that by (auto simp: SetProgress_def doomed_def)
  show "doomed (begin_stop m) i" if "doomed m i" using that by (auto simp: begin_stop_def doomed_def task_at_def map_of_map)
qed

lemma doomed_step: "task_step c c' \<Longrightarrow> doomed (fst c) i \<Longrightarrow> doomed (fst c') i"
  by (cases rule: task_step.cases)
    (auto elim!: worker_step.cases intro: doomed_take doomed_enqueue doomed_cancel doomed_rest)

definition example_manager :: MediaTaskManager where
  "example_manager = \<lparr>mtm_tasks = [(''1'', \<lparr>tk_snapshot = \<lparr>mts_id = ''1'', mts_kind = Proxy, mts_state = Queued, mts_label = ''a.mov'', mts_detail = [],
       mts_progress = 0, mts_error = []\<rparr>, tk_completion = True, tk_cancelled = False\<rparr>)], mtm_queue = [''1''],
     mtm_workers = [Waiting], mtm_stopping = False\<rparr>"

lemma example_reachable: "tasks_reachable 1 (example_manager, [])"
proof -
  have "tasks_reachable 1 (\<lparr>mtm_tasks = [], mtm_queue = [], mtm_workers = [Waiting], mtm_stopping = False\<rparr>, [])"
    by (rule tasks_reachable.start) (simp add: make_MediaTaskManager_def)
  moreover have "Enqueue ''1'' Proxy ''a.mov'' True True \<lparr>mtm_tasks = [], mtm_queue = [], mtm_workers = [Waiting], mtm_stopping = False\<rparr> =
      Inr example_manager" by (simp add: Enqueue_def example_manager_def)
  ultimately show ?thesis using tasks_reachable.step task_step.enqueue by fastforce
qed

definition example_busy :: MediaTaskManager where
  "example_busy = the (worker_take 0 example_manager)"

lemma example_works: "worker_step (example_manager, []) (example_busy, [])"
  by (rule worker_step.take_task [of 0])
    (simp_all add: example_manager_def example_busy_def worker_wakes_def worker_take_def task_at_def Let_def)



text \<open>
  Property C14: what is over stays over.  From any configuration the manager can reach, a task
  that succeeded, failed or was cancelled keeps its whole snapshot whatever happens next, and a
  task for which \<open>Cancel\<close> returned true never succeeds nor fails afterwards, although its
  work may still be running and may return either result.
\<close>

theorem finished_and_cancelled_tasks_are_final:
  assumes "tasks_reachable n (m, cs)" and "task_step\<^sup>*\<^sup>* (m, cs) (m', cs')"
  shows "(\<forall>i t. task_at m i = Some t \<and> terminal (task_state t) \<longrightarrow> (\<exists>t'. task_at m' i = Some t' \<and> tk_snapshot t' = tk_snapshot t)) \<and>
     (\<forall>i m0 c t'. Cancel i m0 = (True, m, c) \<and> task_at m' i = Some t' \<longrightarrow> task_state t' \<noteq> Succeeded \<and> task_state t' \<noteq> Failed)"
proof -
  have "doomed m' i" if "Cancel i m0 = (True, m, c)" for i m0 c
    using steps_invariant [of "\<lambda>c. doomed (fst c) i", OF _ doomed_step assms(2)] cancel_dooms [OF that] by simp
  then show ?thesis using frozen_steps [OF assms] by (fastforce simp: frozen_def doomed_def)
qed

theorem finished_and_cancelled_tasks_are_final_witness:
  "map_option task_state (task_at (fst (snd (Cancel ''1'' example_busy))) ''1'') = Some Running \<and>
   map_option task_state (task_at (fst (worker_finish 0 ''1'' True [] (fst (snd (Cancel ''1'' example_busy))))) ''1'') = Some Cancelled"
proof -
  obtain m c where c: "Cancel ''1'' example_busy = (True, m, c)"
    by (simp add: Cancel_def example_busy_def example_manager_def worker_take_def task_at_def update_task_def set_state_def Let_def)
  have "tasks_reachable 1 (m, [] @ (case c of None \<Rightarrow> [] | Some s \<Rightarrow> [s]))"
    using tasks_reachable.step [OF tasks_reachable.step [OF example_reachable task_step.worker [OF example_works]] task_step.cancel [OF c]] .
  moreover obtain m' d where d: "worker_finish 0 ''1'' True [] m = (m', d)" by fastforce
  moreover have m: "m = fst (snd (Cancel ''1'' example_busy))" using c by simp
  moreover have "mtm_workers m ! 0 = Working ''1''" "length (mtm_workers m) = 1"
    unfolding m by (simp_all add: Cancel_def example_busy_def example_manager_def worker_take_def task_at_def update_task_def set_state_def Let_def)
  ultimately have "task_step\<^sup>*\<^sup>* (m, [] @ (case c of None \<Rightarrow> [] | Some s \<Rightarrow> [s]))
      (m', ([] @ (case c of None \<Rightarrow> [] | Some s \<Rightarrow> [s])) @ (case d of None \<Rightarrow> [] | Some s \<Rightarrow> [s]))"
    by (intro r_into_rtranclp task_step.worker worker_step.finish_task [of 0]) auto
  note final = finished_and_cancelled_tasks_are_final [OF \<open>tasks_reachable 1 _\<close> this]
  have "\<forall>t. task_at m' ''1'' = Some t \<longrightarrow> task_state t \<noteq> Succeeded \<and> task_state t \<noteq> Failed" using final c by blast
  then show ?thesis using d m
    by (auto simp: worker_finish_def Cancel_def example_busy_def example_manager_def worker_take_def task_at_def update_task_def set_state_def finished_def Let_def)
qed

text \<open>
  Property C12: the manager makes progress as long as the work returns.  From every configuration it can reach
  the workers can take only so many steps on their own, two for each queued task and one or two
  for each thread, and when none of them can take another the manager is idle, which is what
  \<open>WaitForIdle\<close> waits for; after the destructor has begun every worker has then returned, so that
  its joins return.
\<close>

theorem media_tasks_all_finish:
  assumes "tasks_reachable n c" and "(worker_step ^^ k) c c'"
  shows "k \<le> tasks_left (fst c) \<and> ((\<exists>c''. worker_step c' c'') \<or>
     IdleLocked (fst c') \<and> (mtm_stopping (fst c') \<longrightarrow> set (mtm_workers (fst c')) = {Exited}))"
proof -
  have r: "tasks_reachable n c'" using assms worker_steps_reachable by (metis rtranclp_power)
  then have ok: "manager_ok (fst c')" "0 < length (mtm_workers (fst c'))" using reachable_ok reachable_count by simp_all
  have "set (mtm_workers (fst c')) = {Exited}" if "\<forall>w\<in>set (mtm_workers (fst c')). w = Exited"
    using that ok(2) by (cases "mtm_workers (fst c')") auto
  then show ?thesis using worker_steps_bound [OF assms(2)] worker_steps_end [OF ok, of "snd c'"] by auto
qed

theorem media_tasks_all_finish_witness: "(1::nat) \<le> tasks_left example_manager"
  using media_tasks_all_finish [OF example_reachable relpowp_Suc_I [where P = worker_step and n = 0, OF relpowp_0_I example_works]] by simp

end
