(* ===== verification/Document_Delta.thy ===== *)
theory Document_Delta
  imports Timeline_Resolve Json Stable_Sort Sample_Document Project_Operations Document_Json_Laws
begin

text \<open>
  \<open>src/DocumentDelta.cc\<close>: what one edit changed, found by comparing the documents before and
  after it, so that a client patches its own picture of the timeline.  \<open>std::map\<close> is the
  association list in the order of its keys; its \<open>operator[]\<close> is \<open>assign_key\<close>.  An exception of
  \<open>RationalTime\<close> outside the guarded duration leaves the function: the result \<open>Inl\<close>.
\<close>

section \<open>Data\<close>

record DeltaClip =
  dc_clip_id :: Ulid
  dc_track_id :: Ulid
  dc_source_id :: Ulid
  dc_source_in :: RationalTime
  dc_duration :: RationalTime
  dc_timeline_in :: RationalTime
  dc_created :: bool

record DeltaShift =
  ds_track_id :: Ulid
  ds_from :: RationalTime
  ds_by :: RationalTime
  ds_count :: int

record DeltaTrack =
  dt_track_id :: Ulid
  dt_kind :: string
  dt_index :: int

record DocumentDelta =
  dd_clips :: "DeltaClip list"
  dd_removed_clip_ids :: "Ulid list"
  dd_shifted :: "DeltaShift list"
  dd_created_tracks :: "DeltaTrack list"
  dd_removed_track_ids :: "Ulid list"
  dd_duration :: RationalTime
  dd_sequence_changed :: bool

text \<open>The pointers of \<open>Placed\<close> are read only: the clip and its track.\<close>

record Placed =
  pl_clip :: DocumentClip
  pl_track :: DocumentTrack

definition IndexClips :: "Document \<Rightarrow> (Ulid \<times> Placed) list" where
  "IndexClips d =
     fold (\<lambda>t. fold (\<lambda>c. assign_key (clip_id c) \<lparr>pl_clip = c, pl_track = t\<rparr>) (trk_clips t)) (doc_tracks d) []"

section \<open>Equality of clips\<close>

definition params_equal :: "(string \<times> EffectParamValue) list \<Rightarrow> (string \<times> EffectParamValue) list \<Rightarrow> bool" where
  "params_equal a b \<longleftrightarrow> length a = length b \<and>
     list_all (\<lambda>(name, v). case map_of b name of None \<Rightarrow> False
        | Some w \<Rightarrow> ep_num w = ep_num v \<and> ep_den w = ep_den v) a"

definition effects_equal :: "ClipEffect list \<Rightarrow> ClipEffect list \<Rightarrow> bool" where
  "effects_equal es fs \<longleftrightarrow> length es = length fs \<and>
     list_all (\<lambda>(a, b). fx_id a = fx_id b \<and> fx_type a = fx_type b \<and> params_equal (fx_params a) (fx_params b)) (zip es fs)"

definition ClipsEqual :: "DocumentClip \<Rightarrow> DocumentClip \<Rightarrow> string + bool" where
  "ClipsEqual l r =
     (if clip_id l \<noteq> clip_id r \<or> clip_source_id l \<noteq> clip_source_id r \<or> clip_include_audio l \<noteq> clip_include_audio r \<or>
         clip_link_group_id l \<noteq> clip_link_group_id r \<or> clip_sync_anchor_clip_id l \<noteq> clip_sync_anchor_clip_id r \<or>
         clip_caption_group_id l \<noteq> clip_caption_group_id r \<or> clip_caption_text l \<noteq> clip_caption_text r
      then Inr False
      else bindR (orR (rt_ne (clip_source_in l) (clip_source_in r)) (orR (rt_ne (clip_duration l) (clip_duration r))
             (orR (rt_ne (clip_timeline_in l) (clip_timeline_in r))
               (rt_ne (clip_sync_reference_delta l) (clip_sync_reference_delta r))))) (\<lambda>differ.
        if differ then Inr False
        else if ep_num (clip_opacity l) \<noteq> ep_num (clip_opacity r) \<or> ep_den (clip_opacity l) \<noteq> ep_den (clip_opacity r)
        then Inr False
        else Inr (effects_equal (clip_effects l) (clip_effects r))))"

definition OnlyMoved :: "Placed \<Rightarrow> Placed \<Rightarrow> string + bool" where
  "OnlyMoved before after =
     (if trk_id (pl_track before) \<noteq> trk_id (pl_track after) then Inr False
      else ClipsEqual (pl_clip before) ((pl_clip after)\<lparr>clip_timeline_in := clip_timeline_in (pl_clip before)\<rparr>))"

definition Describe :: "Placed \<Rightarrow> bool \<Rightarrow> DeltaClip" where
  "Describe p created =
     \<lparr>dc_clip_id = clip_id (pl_clip p), dc_track_id = trk_id (pl_track p), dc_source_id = clip_source_id (pl_clip p),
      dc_source_in = clip_source_in (pl_clip p), dc_duration = clip_duration (pl_clip p),
      dc_timeline_in = clip_timeline_in (pl_clip p), dc_created = created\<rparr>"

section \<open>Moved and individual clips\<close>

type_synonym move = "Placed \<times> Placed"

definition same_clip :: "Placed \<Rightarrow> Placed \<Rightarrow> string + bool" where
  "same_clip old new = andR (Inr (trk_id (pl_track old) = trk_id (pl_track new))) (ClipsEqual (pl_clip old) (pl_clip new))"

definition classify ::
  "(Ulid \<times> Placed) list \<Rightarrow> Ulid \<times> Placed \<Rightarrow> move list \<times> DeltaClip list \<Rightarrow> string + move list \<times> DeltaClip list" where
  "classify old entry = (\<lambda>(moved, individual).
     case map_of old (fst entry) of
       None \<Rightarrow> Inr (moved, individual @ [Describe (snd entry) True])
     | Some found \<Rightarrow>
         bindR (same_clip found (snd entry)) (\<lambda>same.
           if same then Inr (moved, individual)
           else bindR (OnlyMoved found (snd entry)) (\<lambda>only.
             if only then Inr (moved @ [(found, snd entry)], individual)
             else Inr (moved, individual @ [Describe (snd entry) False]))))"

definition byTrack :: "move list \<Rightarrow> (Ulid \<times> move list) list" where
  "byTrack moved =
     fold (\<lambda>pair m. let k = trk_id (pl_track (fst pair)) in
       assign_key k ((case map_of m k of None \<Rightarrow> [] | Some g \<Rightarrow> g) @ [pair]) m) moved []"

section \<open>Shifts\<close>

abbreviation start_of :: "Placed \<Rightarrow> RationalTime" where
  "start_of p \<equiv> clip_timeline_in (pl_clip p)"

definition step_of :: "move \<Rightarrow> string + RationalTime" where
  "step_of pair = rt_sub (start_of (snd pair)) (start_of (fst pair))"

definition group_bounds :: "RationalTime \<Rightarrow> move \<Rightarrow> bool \<times> RationalTime \<Rightarrow> string + bool \<times> RationalTime" where
  "group_bounds offset pair = (\<lambda>(uniform, from_time).
     bindR (step_of pair) (\<lambda>step. bindR (rt_ne step offset) (\<lambda>other.
     bindR (rt_lt (start_of (fst pair)) from_time) (\<lambda>earlier.
       Inr (if other then False else uniform, if earlier then start_of (fst pair) else from_time)))))"

fun covers_track :: "RationalTime \<Rightarrow> move list \<Rightarrow> DocumentClip list \<Rightarrow> string + bool" where
  "covers_track from_time moves [] = Inr True"
| "covers_track from_time moves (c # cs) =
     bindR (rt_lt (clip_timeline_in c) from_time) (\<lambda>earlier.
       if earlier \<or> list_ex (\<lambda>pair. clip_id (pl_clip (fst pair)) = clip_id c) moves then covers_track from_time moves cs
       else Inr False)"

definition fold_group :: "Ulid \<times> move list \<Rightarrow> DeltaShift list \<times> DeltaClip list \<Rightarrow> string + DeltaShift list \<times> DeltaClip list" where
  "fold_group entry = (\<lambda>(shifted, individual). let moves = snd entry in
     bindR (step_of (hd moves)) (\<lambda>offset.
     bindR (loopR (group_bounds offset) moves (True, start_of (fst (hd moves)))) (\<lambda>(uniform, from_time).
     bindR (if uniform then covers_track from_time moves (trk_clips (pl_track (fst (hd moves)))) else Inr False) (\<lambda>covered.
       Inr (if covered
            then (shifted @ [\<lparr>ds_track_id = fst entry, ds_from = from_time, ds_by = offset, ds_count = int (length moves)\<rparr>], individual)
            else (shifted, individual @ map (\<lambda>pair. Describe (snd pair) False) moves))))))"

section \<open>The delta\<close>

text \<open>
  \<open>std::stable_sort\<close> compares every element of two or more at least once, so that a rate that
  is not positive makes it throw.
\<close>

definition described_before :: "DeltaClip \<Rightarrow> DeltaClip \<Rightarrow> bool" where
  "described_before l r \<longleftrightarrow>
     rt_value (dc_timeline_in l) * rt_rate (dc_timeline_in r) < rt_value (dc_timeline_in r) * rt_rate (dc_timeline_in l)"

definition sort_described :: "DeltaClip list \<Rightarrow> string + DeltaClip list" where
  "sort_described ds =
     (if 2 \<le> length ds \<and> list_ex (\<lambda>d. rt_rate (dc_timeline_in d) \<le> 0) ds then Inl rate_message
      else Inr (stable_sort described_before ds))"

definition header_changed :: "DocumentSequence \<Rightarrow> DocumentSequence \<Rightarrow> bool" where
  "header_changed old new \<longleftrightarrow>
     seq_name old \<noteq> seq_name new \<or> seq_width old \<noteq> seq_width new \<or> seq_height old \<noteq> seq_height new \<or>
     mr_num (seq_frame_rate old) \<noteq> mr_num (seq_frame_rate new) \<or> mr_den (seq_frame_rate old) \<noteq> mr_den (seq_frame_rate new)"

definition IndexTracks :: "Document \<Rightarrow> (Ulid \<times> DocumentTrack) list" where
  "IndexTracks d = fold (\<lambda>t. assign_key (trk_id t) t) (doc_tracks d) []"

definition missing_keys :: "(Ulid \<times> 'v) list \<Rightarrow> (Ulid \<times> 'v) list \<Rightarrow> Ulid list" where
  "missing_keys old new = filter (\<lambda>i. map_of new i = None) (map fst old)"

definition changed :: "DocumentDelta \<Rightarrow> bool" where
  "changed \<delta> \<longleftrightarrow> dd_clips \<delta> \<noteq> [] \<or> dd_removed_clip_ids \<delta> \<noteq> [] \<or> dd_shifted \<delta> \<noteq> [] \<or> dd_created_tracks \<delta> \<noteq> [] \<or>
     dd_removed_track_ids \<delta> \<noteq> [] \<or> dd_sequence_changed \<delta>"

definition ComputeDocumentDelta :: "Document \<Rightarrow> Document \<Rightarrow> string + bool \<times> DocumentDelta" where
  "ComputeDocumentDelta before after =
     (let old = IndexClips before; new = IndexClips after in
      bindR (loopR (classify old) new ([], [])) (\<lambda>(moved, individual).
      bindR (loopR fold_group (byTrack moved) ([], individual)) (\<lambda>(shifted, individual).
      bindR (sort_described individual) (\<lambda>clips.
        let \<delta> = \<lparr>dd_clips = clips, dd_removed_clip_ids = missing_keys old new, dd_shifted = shifted,
                 dd_created_tracks = map (\<lambda>t. \<lparr>dt_track_id = trk_id t, dt_kind = trk_kind t, dt_index = trk_index t\<rparr>)
                   (filter (\<lambda>t. map_of (IndexTracks before) (trk_id t) = None) (doc_tracks after)),
                 dd_removed_track_ids = missing_keys (IndexTracks before) (IndexTracks after),
                 dd_duration = (case timeline_duration after of Inl _ \<Rightarrow> RT 0 1 | Inr t \<Rightarrow> t),
                 dd_sequence_changed = header_changed (doc_sequence before) (doc_sequence after)\<rparr>
        in Inr (changed \<delta>, \<delta>)))))"

section \<open>The report\<close>

definition TimeValue :: "RationalTime \<Rightarrow> Value" where
  "TimeValue t = json_Set ''rate'' (MakeInt (rt_rate t)) (json_Set ''value'' (MakeInt (rt_value t)) (JObject []))"

definition delta_clip_value :: "DeltaClip \<Rightarrow> Value" where
  "delta_clip_value c =
     (let entry = fold (\<lambda>(k, v). json_Set k v)
        [(''clip_id'', JString (dc_clip_id c)), (''track_id'', JString (dc_track_id c)), (''source_id'', JString (dc_source_id c)),
         (''source_in'', TimeValue (dc_source_in c)), (''duration'', TimeValue (dc_duration c)),
         (''timeline_in'', TimeValue (dc_timeline_in c))] (JObject []) in
      if dc_created c then json_Set ''created'' (JBool True) entry else entry)"

definition delta_shift_value :: "DeltaShift \<Rightarrow> Value" where
  "delta_shift_value s = fold (\<lambda>(k, v). json_Set k v)
     [(''track_id'', JString (ds_track_id s)), (''from'', TimeValue (ds_from s)), (''by'', TimeValue (ds_by s)),
      (''count'', MakeInt (ds_count s))] (JObject [])"

definition delta_track_value :: "DeltaTrack \<Rightarrow> Value" where
  "delta_track_value t = fold (\<lambda>(k, v). json_Set k v)
     [(''track_id'', JString (dt_track_id t)), (''kind'', JString (dt_kind t)), (''index'', MakeInt (dt_index t))] (JObject [])"

definition set_section :: "string \<Rightarrow> ('a \<Rightarrow> Value) \<Rightarrow> 'a list \<Rightarrow> Value \<Rightarrow> Value" where
  "set_section name f xs target =
     (if xs = [] then target else json_Set name (fold (\<lambda>x. json_Push (f x)) xs (JArray [])) target)"

definition SerializeDocumentDelta :: "DocumentDelta \<Rightarrow> string" where
  "SerializeDocumentDelta \<delta> =
     (let document = json_Set ''duration'' (TimeValue (dd_duration \<delta>)) (JObject []);
          document = set_section ''clips'' delta_clip_value (dd_clips \<delta>) document;
          document = set_section ''shifted'' delta_shift_value (dd_shifted \<delta>) document;
          document = set_section ''removed_clip_ids'' JString (dd_removed_clip_ids \<delta>) document;
          document = set_section ''created_tracks'' delta_track_value (dd_created_tracks \<delta>) document;
          document = set_section ''removed_track_ids'' JString (dd_removed_track_ids \<delta>) document in
      Dump (if dd_sequence_changed \<delta> then json_Set ''sequence_changed'' (JBool True) document else document))"

section \<open>The maps\<close>

lemma map_of_erase_key: "map_of (erase_key k m) j = (if j = k then None else map_of m j)"
  unfolding erase_key_def by (induction m) auto

lemma map_of_assign_key: "map_of (assign_key k v m) j = (if j = k then Some v else map_of m j)"
proof -
  have "k \<notin> fst ` set (erase_key k m)" by (auto simp: erase_key_def)
  then show ?thesis by (simp add: assign_key_def map_of_emplace map_of_erase_key)
qed

lemma distinct_emplace_keys: "fst p \<notin> fst ` set m \<Longrightarrow> distinct (map fst m) \<Longrightarrow> distinct (map fst (emplace p m))"
proof (induction m)
  case (Cons q m)
  have "set (map fst (emplace p m)) = insert (fst p) (set (map fst m))" using emplace_keys [of p m] by simp
  then show ?case using Cons by auto
qed simp

lemma distinct_assign_key: "distinct (map fst m) \<Longrightarrow> distinct (map fst (assign_key k v m))"
  unfolding assign_key_def by (rule distinct_emplace_keys) (auto simp: erase_key_def distinct_map_filter)

lemma distinct_fold_assign: "distinct (map fst m) \<Longrightarrow> distinct (map fst (fold (\<lambda>x. assign_key (k x) (v x)) xs m))"
  by (induction xs arbitrary: m) (auto simp: distinct_assign_key)

lemma fold_assign_key:
  "map_of (fold (\<lambda>x. assign_key (k x) (v x)) xs m) j = (case find (\<lambda>x. k x = j) (rev xs) of None \<Rightarrow> map_of m j | Some x \<Rightarrow> Some (v x))"
  by (induction xs rule: rev_induct) (auto simp: map_of_assign_key)

definition placed :: "Document \<Rightarrow> Placed list" where
  "placed d = concat (map (\<lambda>t. map (\<lambda>c. \<lparr>pl_clip = c, pl_track = t\<rparr>) (trk_clips t)) (doc_tracks d))"

lemma IndexClips_placed: "IndexClips d = fold (\<lambda>p. assign_key (clip_id (pl_clip p)) p) (placed d) []"
proof -
  have "fold (\<lambda>t. fold (\<lambda>c. assign_key (clip_id c) \<lparr>pl_clip = c, pl_track = t\<rparr>) (trk_clips t)) ts m =
      fold (\<lambda>p. assign_key (clip_id (pl_clip p)) p) (concat (map (\<lambda>t. map (\<lambda>c. \<lparr>pl_clip = c, pl_track = t\<rparr>) (trk_clips t)) ts)) m" for ts m
    by (induction ts arbitrary: m) (simp_all add: fold_map comp_def)
  then show ?thesis by (simp add: IndexClips_def placed_def)
qed

lemma index_lookup: "map_of (IndexClips d) i = find (\<lambda>p. clip_id (pl_clip p) = i) (rev (placed d))"
  using fold_assign_key [of "\<lambda>p. clip_id (pl_clip p)" "\<lambda>p. p" "placed d" "[]" i]
  by (simp add: IndexClips_placed split: option.splits)

lemma index_distinct: "distinct (map fst (IndexClips d))"
  using distinct_fold_assign [of "[]" "\<lambda>p. clip_id (pl_clip p)" "\<lambda>p. p" "placed d"] by (simp add: IndexClips_placed)

lemma index_sound:
  assumes "map_of (IndexClips d) i = Some p"
  shows "pl_track p \<in> set (doc_tracks d)" "pl_clip p \<in> set (trk_clips (pl_track p))" "clip_id (pl_clip p) = i"
  using assms by (auto simp: index_lookup placed_def dest!: find_Some_D)

lemma index_complete:
  assumes "t \<in> set (doc_tracks d)" "c \<in> set (trk_clips t)"
  shows "\<exists>p. map_of (IndexClips d) (clip_id c) = Some p"
proof -
  have "\<lparr>pl_clip = c, pl_track = t\<rparr> \<in> set (rev (placed d))" using assms by (auto simp: placed_def)
  then have "find (\<lambda>p. clip_id (pl_clip p) = clip_id c) (rev (placed d)) \<noteq> None" by (auto simp: find_None_iff)
  then show ?thesis by (auto simp: index_lookup)
qed

section \<open>The client's picture\<close>

text \<open>What the delta speaks of: for each clip its track, source, source range and position.\<close>

type_synonym picture = "Ulid \<Rightarrow> (Ulid \<times> Ulid \<times> rat \<times> rat \<times> rat) option"

definition picture_of :: "Placed \<Rightarrow> Ulid \<times> Ulid \<times> rat \<times> rat \<times> rat" where
  "picture_of p = (trk_id (pl_track p), clip_source_id (pl_clip p), rt_q (clip_source_in (pl_clip p)), rt_q (clip_duration (pl_clip p)),
     rt_q (start_of p))"

definition picture :: "Document \<Rightarrow> picture" where
  "picture d i = map_option picture_of (map_of (IndexClips d) i)"

definition shifted_position :: "DeltaShift list \<Rightarrow> Ulid \<Rightarrow> rat \<Rightarrow> rat" where
  "shifted_position shifts t p =
     (case find (\<lambda>s. ds_track_id s = t \<and> rt_q (ds_from s) \<le> p) shifts of None \<Rightarrow> p | Some s \<Rightarrow> p + rt_q (ds_by s))"

definition patch :: "DocumentDelta \<Rightarrow> picture \<Rightarrow> picture" where
  "patch \<delta> v i =
     (if i \<in> set (dd_removed_clip_ids \<delta>) then None
      else case find (\<lambda>c. dc_clip_id c = i) (dd_clips \<delta>) of
        Some c \<Rightarrow> Some (dc_track_id c, dc_source_id c, rt_q (dc_source_in c), rt_q (dc_duration c), rt_q (dc_timeline_in c))
      | None \<Rightarrow> map_option (\<lambda>(t, s, a, b, p). (t, s, a, b, shifted_position (dd_shifted \<delta>) t p)) (v i))"

lemma Describe_picture:
  "(dc_track_id (Describe p b), dc_source_id (Describe p b), rt_q (dc_source_in (Describe p b)), rt_q (dc_duration (Describe p b)),
    rt_q (dc_timeline_in (Describe p b))) = picture_of p"
  by (simp add: Describe_def picture_of_def)

lemma orR_ne: "orR (rt_ne a b) r = Inr False \<longleftrightarrow> 0 < rt_rate a \<and> 0 < rt_rate b \<and> rt_q a = rt_q b \<and> r = Inr False"
proof -
  have "bindR (rt_ne a b) f = Inr False \<longleftrightarrow> (\<exists>x. rt_ne a b = Inr x \<and> f x = Inr False)" for f by (auto simp: bindR_Inr_iff)
  then show ?thesis by (auto simp: orR_def rt_ne_iff split: if_splits)
qed

lemma ClipsEqual_True:
  assumes "ClipsEqual l r = Inr True"
  shows "clip_id l = clip_id r" "clip_source_id l = clip_source_id r" "rt_q (clip_source_in l) = rt_q (clip_source_in r)"
    "rt_q (clip_duration l) = rt_q (clip_duration r)" "rt_q (clip_timeline_in l) = rt_q (clip_timeline_in r)"
  using assms by (auto simp: ClipsEqual_def bindR_Inr_iff orR_ne split: if_splits)

lemma same_clip_picture: "same_clip m n = Inr True \<Longrightarrow> picture_of m = picture_of n"
  using ClipsEqual_True [of "pl_clip m" "pl_clip n"] by (auto simp: same_clip_def andR_def picture_of_def split: if_splits)

lemma OnlyMoved_picture:
  assumes "OnlyMoved m n = Inr True"
  shows "trk_id (pl_track m) = trk_id (pl_track n)" "clip_id (pl_clip m) = clip_id (pl_clip n)"
    "picture_of n = (case picture_of m of (t, s, a, b, p) \<Rightarrow> (t, s, a, b, rt_q (start_of n)))"
  using assms ClipsEqual_True [of "pl_clip m" "(pl_clip n)\<lparr>clip_timeline_in := start_of m\<rparr>"]
  by (auto simp: OnlyMoved_def picture_of_def split: if_splits)

section \<open>What the loops find\<close>

definition untouched :: "(Ulid \<times> Placed) list \<Rightarrow> Ulid \<Rightarrow> Placed \<Rightarrow> bool" where
  "untouched old i n \<longleftrightarrow> (\<exists>m. map_of old i = Some m \<and> same_clip m n = Inr True)"

definition only_moved :: "(Ulid \<times> Placed) list \<Rightarrow> Ulid \<Rightarrow> Placed \<Rightarrow> Placed \<Rightarrow> bool" where
  "only_moved old i n m \<longleftrightarrow> map_of old i = Some m \<and> same_clip m n = Inr False \<and> OnlyMoved m n = Inr True"

definition described :: "(Ulid \<times> Placed) list \<Rightarrow> Ulid \<Rightarrow> Placed \<Rightarrow> bool" where
  "described old i n \<longleftrightarrow> \<not> untouched old i n \<and> (\<forall>m. \<not> only_moved old i n m)"

lemma classify_one:
  assumes "classify old (i, n) (ms, ds) = Inr (ms', ds')"
  shows "set ms' = set ms \<union> {(m, n') | m n'. n' = n \<and> only_moved old i n m}"
    "\<exists>b. set ds' = set ds \<union> {d. d = Describe n b \<and> described old i n}"
  using assms
  by (auto simp: classify_def described_def untouched_def only_moved_def bindR_Inr_iff split: option.splits if_splits)

lemma classify_loop:
  assumes "loopR (classify old) news (ms, ds) = Inr (ms', ds')"
  shows "set ms' = set ms \<union> {(m, n). \<exists>i. (i, n) \<in> set news \<and> only_moved old i n m} \<and>
     (\<forall>d\<in>set ds'. d \<in> set ds \<or> (\<exists>i n b. (i, n) \<in> set news \<and> described old i n \<and> d = Describe n b)) \<and>
     (\<forall>i n. (i, n) \<in> set news \<longrightarrow> described old i n \<longrightarrow> (\<exists>b. Describe n b \<in> set ds')) \<and> set ds \<subseteq> set ds'"
  using assms
proof (induction news arbitrary: ms ds)
  case (Cons e news)
  obtain i n where e: "e = (i, n)" by fastforce
  obtain ms1 ds1 where one: "classify old (i, n) (ms, ds) = Inr (ms1, ds1)" "loopR (classify old) news (ms1, ds1) = Inr (ms', ds')"
    using Cons.prems by (auto simp: e)
  note IH = Cons.IH [OF one(2)]
  obtain b where b: "set ds1 = set ds \<union> {d. d = Describe n b \<and> described old i n}" using classify_one(2) [OF one(1)] by blast
  have "set ms' = set ms \<union> {(m, n). \<exists>i. (i, n) \<in> set (e # news) \<and> only_moved old i n m}"
    using IH classify_one(1) [OF one(1)] by (auto simp: e)
  moreover have "\<forall>d\<in>set ds'. d \<in> set ds \<or> (\<exists>i n b. (i, n) \<in> set (e # news) \<and> described old i n \<and> d = Describe n b)"
    using IH b by (auto simp: e) blast
  moreover have "\<exists>b. Describe m b \<in> set ds'" if "(j, m) \<in> set (e # news)" "described old j m" for j m
    using that IH b by (auto simp: e)
  ultimately show ?case using IH b by auto
qed simp

lemma byTrack_lookup:
  "map_of (byTrack ms) k =
     (let g = filter (\<lambda>pair. trk_id (pl_track (fst pair)) = k) ms in if g = [] then None else Some g)"
proof (induction ms rule: rev_induct)
  case (snoc p ms)
  then show ?case by (auto simp: byTrack_def Let_def map_of_assign_key)
qed (simp add: byTrack_def)

lemma byTrack_distinct: "distinct (map fst (byTrack ms))"
proof (induction ms rule: rev_induct)
  case (snoc p ms)
  then show ?case by (simp add: byTrack_def Let_def distinct_assign_key)
qed (simp add: byTrack_def)

lemma byTrack_iff:
  "(k, g) \<in> set (byTrack ms) \<longleftrightarrow> g = filter (\<lambda>pair. trk_id (pl_track (fst pair)) = k) ms \<and> g \<noteq> []"
proof -
  have "(k, g) \<in> set (byTrack ms) \<longleftrightarrow> map_of (byTrack ms) k = Some g" by (simp add: byTrack_distinct)
  also have "\<dots> \<longleftrightarrow> g = filter (\<lambda>pair. trk_id (pl_track (fst pair)) = k) ms \<and> g \<noteq> []"
    unfolding byTrack_lookup Let_def by auto
  finally show ?thesis .
qed

definition shift_for :: "Ulid \<times> move list \<Rightarrow> DeltaShift \<Rightarrow> bool" where
  "shift_for entry s \<longleftrightarrow> (\<exists>offset from_time. step_of (hd (snd entry)) = Inr offset \<and>
     loopR (group_bounds offset) (snd entry) (True, start_of (fst (hd (snd entry)))) = Inr (True, from_time) \<and>
     covers_track from_time (snd entry) (trk_clips (pl_track (fst (hd (snd entry))))) = Inr True \<and>
     s = \<lparr>ds_track_id = fst entry, ds_from = from_time, ds_by = offset, ds_count = int (length (snd entry))\<rparr>)"

lemma fold_group_one:
  assumes "fold_group e (sh, ds) = Inr (sh', ds')"
  shows "(\<exists>s. shift_for e s \<and> (\<forall>s'. shift_for e s' \<longrightarrow> s' = s) \<and> sh' = sh @ [s] \<and> ds' = ds) \<or>
     ((\<forall>s. \<not> shift_for e s) \<and> sh' = sh \<and> ds' = ds @ map (\<lambda>pair. Describe (snd pair) False) (snd e))"
  using assms by (auto simp: fold_group_def shift_for_def Let_def split: if_splits)

definition left_over :: "Ulid \<times> move list \<Rightarrow> DeltaClip \<Rightarrow> bool" where
  "left_over e d \<longleftrightarrow> (\<forall>s. \<not> shift_for e s) \<and> (\<exists>pair\<in>set (snd e). d = Describe (snd pair) False)"

lemma fold_group_sets:
  assumes "fold_group e (sh, ds) = Inr (sh', ds')"
  shows "s \<in> set sh' \<longleftrightarrow> s \<in> set sh \<or> shift_for e s" "d \<in> set ds' \<longleftrightarrow> d \<in> set ds \<or> left_over e d"
proof -
  from fold_group_one [OF assms] show "s \<in> set sh' \<longleftrightarrow> s \<in> set sh \<or> shift_for e s"
  proof (elim disjE exE conjE)
    fix s0 assume f: "shift_for e s0" "\<forall>s. shift_for e s \<longrightarrow> s = s0" and sh: "sh' = sh @ [s0]"
    have "shift_for e s \<longleftrightarrow> s = s0" using f by blast
    then show ?thesis by (auto simp: sh)
  qed simp
  from \<open>fold_group e (sh, ds) = _\<close> show "d \<in> set ds' \<longleftrightarrow> d \<in> set ds \<or> left_over e d"
  proof -
    consider s0 where "shift_for e s0" "ds' = ds" | "\<And>s. \<not> shift_for e s" "ds' = ds @ map (\<lambda>pair. Describe (snd pair) False) (snd e)"
      using fold_group_one [OF assms] by blast
    then show ?thesis by cases (auto simp: left_over_def)
  qed
qed

lemma fold_group_loop:
  assumes "loopR fold_group groups (sh, ds) = Inr (sh', ds')"
  shows "(s \<in> set sh' \<longleftrightarrow> s \<in> set sh \<or> (\<exists>e\<in>set groups. shift_for e s)) \<and>
     (d \<in> set ds' \<longleftrightarrow> d \<in> set ds \<or> (\<exists>e\<in>set groups. left_over e d))"
  using assms
proof (induction groups arbitrary: sh ds)
  case (Cons e groups)
  obtain sh1 ds1 where one: "fold_group e (sh, ds) = Inr (sh1, ds1)" "loopR fold_group groups (sh1, ds1) = Inr (sh', ds')"
    using Cons.prems by auto
  show ?case using Cons.IH [OF one(2)] fold_group_sets(1) [OF one(1), of s] fold_group_sets(2) [OF one(1), of d] by auto
qed simp

lemma group_bounds_loop:
  assumes "loopR (group_bounds offset) g (v, f) = Inr (True, f')"
  shows "rt_q f' \<le> rt_q f \<and> (\<forall>pair\<in>set g. rt_q f' \<le> rt_q (start_of (fst pair)) \<and>
     rt_q (start_of (snd pair)) = rt_q (start_of (fst pair)) + rt_q offset)"
proof -
  have "rt_q f' \<le> rt_q f \<and> (v' \<longrightarrow> v) \<and> (\<forall>pair\<in>set g. rt_q f' \<le> rt_q (start_of (fst pair)) \<and>
     (v' \<longrightarrow> rt_q (start_of (snd pair)) = rt_q (start_of (fst pair)) + rt_q offset))"
    if "loopR (group_bounds offset) g (v, f) = Inr (v', f')" for v'
    using that
  proof (induction g arbitrary: v f)
    case (Cons p g)
    obtain v1 f1 where one: "group_bounds offset p (v, f) = Inr (v1, f1)" "loopR (group_bounds offset) g (v1, f1) = Inr (v', f')"
      using Cons.prems by auto
    have "rt_q f1 \<le> rt_q f \<and> rt_q f1 \<le> rt_q (start_of (fst p)) \<and>
       (v1 \<longrightarrow> v \<and> rt_q (start_of (snd p)) = rt_q (start_of (fst p)) + rt_q offset)"
      using one(1) by (auto simp: group_bounds_def step_of_def rt_ne_iff rt_lt_iff dest!: rt_sub_exact split: if_splits)
    then show ?case using Cons.IH [OF one(2)] by (auto intro: order_trans)
  qed simp
  from this [OF assms] show ?thesis by simp
qed

lemma covers_track_True:
  assumes "covers_track f g cs = Inr True" "c \<in> set cs" "rt_q f \<le> rt_q (clip_timeline_in c)"
  shows "\<exists>pair\<in>set g. clip_id (pl_clip (fst pair)) = clip_id c"
  using assms by (induction f g cs rule: covers_track.induct) (auto simp: rt_lt_iff list_ex_iff split: if_splits)

lemma shift_for_facts:
  assumes "shift_for (k, g) s"
  shows "ds_track_id s = k"
    and "pair \<in> set g \<Longrightarrow> rt_q (ds_from s) \<le> rt_q (start_of (fst pair))"
    and "pair \<in> set g \<Longrightarrow> rt_q (start_of (snd pair)) = rt_q (start_of (fst pair)) + rt_q (ds_by s)"
    and "c \<in> set (trk_clips (pl_track (fst (hd g)))) \<Longrightarrow> rt_q (ds_from s) \<le> rt_q (clip_timeline_in c) \<Longrightarrow>
       \<exists>pair\<in>set g. clip_id (pl_clip (fst pair)) = clip_id c"
proof -
  obtain offset f where g: "loopR (group_bounds offset) g (True, start_of (fst (hd g))) = Inr (True, f)"
    and c: "covers_track f g (trk_clips (pl_track (fst (hd g)))) = Inr True"
    and s: "ds_track_id s = k" "ds_from s = f" "ds_by s = offset" using assms by (auto simp: shift_for_def)
  show "ds_track_id s = k" by (rule s)
  show "rt_q (ds_from s) \<le> rt_q (start_of (fst pair))" "rt_q (start_of (snd pair)) = rt_q (start_of (fst pair)) + rt_q (ds_by s)"
    if "pair \<in> set g" using group_bounds_loop [OF g] that by (simp_all add: s)
  show "\<exists>pair\<in>set g. clip_id (pl_clip (fst pair)) = clip_id c"
    if "c \<in> set (trk_clips (pl_track (fst (hd g))))" "rt_q (ds_from s) \<le> rt_q (clip_timeline_in c)"
    using covers_track_True [OF c] that by (simp add: s)
qed

section \<open>The patched picture\<close>

lemma find_value:
  assumes "c \<in> set cs" "P c" "\<And>c. c \<in> set cs \<Longrightarrow> P c \<Longrightarrow> f c = v"
  shows "map_option f (find P cs) = Some v"
proof -
  obtain c' where "find P cs = Some c'" using assms(1,2) by (metis find_None_iff not_Some_eq)
  then show ?thesis using assms(3) find_Some_D [of P cs c'] by auto
qed

definition values_of :: "DeltaClip \<Rightarrow> Ulid \<times> Ulid \<times> rat \<times> rat \<times> rat" where
  "values_of c = (dc_track_id c, dc_source_id c, rt_q (dc_source_in c), rt_q (dc_duration c), rt_q (dc_timeline_in c))"

lemma values_of_Describe [simp]: "values_of (Describe p b) = picture_of p" "dc_clip_id (Describe p b) = clip_id (pl_clip p)"
  by (simp_all add: values_of_def Describe_def picture_of_def)

lemma patch_cases:
  "i \<in> set (dd_removed_clip_ids \<delta>) \<Longrightarrow> patch \<delta> v i = None"
  "i \<notin> set (dd_removed_clip_ids \<delta>) \<Longrightarrow> map_option values_of (find (\<lambda>c. dc_clip_id c = i) (dd_clips \<delta>)) = Some x \<Longrightarrow> patch \<delta> v i = Some x"
  "i \<notin> set (dd_removed_clip_ids \<delta>) \<Longrightarrow> find (\<lambda>c. dc_clip_id c = i) (dd_clips \<delta>) = None \<Longrightarrow>
     patch \<delta> v i = map_option (\<lambda>(t, s, a, b, p). (t, s, a, b, shifted_position (dd_shifted \<delta>) t p)) (v i)"
  by (auto simp: patch_def values_of_def)

lemma missing_iff: "i \<in> set (missing_keys old new) \<longleftrightarrow> map_of old i \<noteq> None \<and> map_of new i = None"
  by (auto simp: missing_keys_def map_of_eq_None_iff)

lemma sort_described_set: "sort_described ds = Inr cs \<Longrightarrow> set cs = set ds"
  by (auto simp: sort_described_def split: if_splits)

text \<open>What a successful comparison has found.\<close>

definition computed_delta :: "Document \<Rightarrow> Document \<Rightarrow> move list \<Rightarrow> DeltaClip list \<Rightarrow> DeltaShift list \<Rightarrow> DeltaClip list \<Rightarrow> bool" where
  "computed_delta before after moved individual shifts clips \<longleftrightarrow> distinct (map trk_id (doc_tracks before)) \<and>
     loopR (classify (IndexClips before)) (IndexClips after) ([], []) = Inr (moved, individual) \<and>
     loopR fold_group (byTrack moved) ([], individual) = Inr (shifts, clips)"

lemma computed_deltaD:
  assumes "computed_delta before after moved individual shifts clips"
  shows "distinct (map trk_id (doc_tracks before))"
    "loopR (classify (IndexClips before)) (IndexClips after) ([], []) = Inr (moved, individual)"
    "loopR fold_group (byTrack moved) ([], individual) = Inr (shifts, clips)"
  using assms by (simp_all add: computed_delta_def)

lemma new_key: "(i, n) \<in> set (IndexClips d) \<longleftrightarrow> map_of (IndexClips d) i = Some n"
  by (simp add: index_distinct)

lemma moved_iff:
  assumes computed: "computed_delta before after moved individual shifts clips"
  shows "(m, n) \<in> set moved \<longleftrightarrow> (\<exists>i. map_of (IndexClips after) i = Some n \<and> only_moved (IndexClips before) i n m)"
  using classify_loop [OF computed_deltaD(2) [OF computed]] by (auto simp: new_key)

lemma moved_ids:
  assumes computed: "computed_delta before after moved individual shifts clips"
    and "(m, n) \<in> set moved"
  shows "map_of (IndexClips after) (clip_id (pl_clip m)) = Some n" "only_moved (IndexClips before) (clip_id (pl_clip m)) n m"
proof -
  obtain i where i: "map_of (IndexClips after) i = Some n" "only_moved (IndexClips before) i n m" using assms(2) moved_iff [OF computed] by blast
  then have "clip_id (pl_clip m) = i" using index_sound(3) [of before i m] by (simp add: only_moved_def)
  then show "map_of (IndexClips after) (clip_id (pl_clip m)) = Some n" "only_moved (IndexClips before) (clip_id (pl_clip m)) n m"
    using i by simp_all
qed

lemma clips_values:
  assumes computed: "computed_delta before after moved individual shifts clips"
    and "c \<in> set clips"
  shows "\<exists>n. map_of (IndexClips after) (dc_clip_id c) = Some n \<and> values_of c = picture_of n"
proof -
  consider "c \<in> set individual" | e where "e \<in> set (byTrack moved)" "left_over e c"
    using fold_group_loop [OF computed_deltaD(3) [OF computed], of undefined c] assms(2) by blast
  then show ?thesis
  proof cases
    case 1
    then obtain i n b where "map_of (IndexClips after) i = Some n" "c = Describe n b"
      using classify_loop [OF computed_deltaD(2) [OF computed]] by (auto simp: new_key)
    then show ?thesis using index_sound(3) [of after i n] by simp
  next
    case 2
    then obtain m n where "(m, n) \<in> set (snd e)" "c = Describe n False" by (auto simp: left_over_def)
    moreover have "set (snd e) \<subseteq> set moved" using 2(1) byTrack_iff [of "fst e" "snd e" moved] by auto
    ultimately show ?thesis using moved_ids(1) [OF computed, of m n] index_sound(3) [of after "clip_id (pl_clip m)" n] by auto
  qed
qed

lemma moved_explained:
  assumes computed: "computed_delta before after moved individual shifts clips"
    and "map_of (IndexClips after) i = Some n" "only_moved (IndexClips before) i n m" "\<forall>c\<in>set clips. dc_clip_id c \<noteq> i"
  shows "(case picture_of m of (t, s, a, b, p) \<Rightarrow> (t, s, a, b, shifted_position shifts t p)) = picture_of n"
proof -
  have mn: "(m, n) \<in> set moved" using assms(2,3) moved_iff [OF computed] by blast
  let ?k = "trk_id (pl_track m)"
  let ?g = "filter (\<lambda>pair. trk_id (pl_track (fst pair)) = ?k) moved"
  have in_g: "(m, n) \<in> set ?g" using mn by simp
  then have "?g \<noteq> []" by (metis empty_iff list.set(1))
  then have "(?k, ?g) \<in> set (byTrack moved)" unfolding byTrack_iff by (rule conjI [OF refl])
  then obtain g where g: "(?k, g) \<in> set (byTrack moved)" "(m, n) \<in> set g" using in_g by (rule that)
  have "\<not> left_over (?k, g) (Describe n False)"
  proof
    assume "left_over (?k, g) (Describe n False)"
    then have "Describe n False \<in> set clips" using fold_group_loop [OF computed_deltaD(3) [OF computed], of undefined "Describe n False"] g(1) by blast
    then show False using assms(4) index_sound(3) [OF assms(2)] by auto
  qed
  then obtain s where s: "shift_for (?k, g) s" using g(2) by (force simp: left_over_def)
  have in_shifts: "s \<in> set shifts" using fold_group_loop [OF computed_deltaD(3) [OF computed], of s undefined] g(1) s by blast
  have "rt_q (start_of m) + rt_q (ds_by s') = rt_q (start_of n)" if s': "s' \<in> set shifts" "ds_track_id s' = ?k" for s'
  proof -
    obtain k' g' where e: "(k', g') \<in> set (byTrack moved)" "shift_for (k', g') s'"
      using fold_group_loop [OF computed_deltaD(3) [OF computed], of s' undefined] s'(1) by auto
    then have "g' = g" using s'(2) shift_for_facts(1) [OF e(2)] g(1) by (simp add: byTrack_iff)
    then show ?thesis using shift_for_facts(3) [OF e(2), of "(m, n)"] g(2) by simp
  qed
  then have "map_option (\<lambda>s. rt_q (start_of m) + rt_q (ds_by s))
      (find (\<lambda>s. ds_track_id s = ?k \<and> rt_q (ds_from s) \<le> rt_q (start_of m)) shifts) = Some (rt_q (start_of n))"
    using in_shifts shift_for_facts(1,2) [OF s] g(2) by (intro find_value [of s]) auto
  then have "shifted_position shifts ?k (rt_q (start_of m)) = rt_q (start_of n)"
    by (auto simp: shifted_position_def split: option.splits)
  then show ?thesis using OnlyMoved_picture(3) [of m n] assms(3) by (simp add: only_moved_def picture_of_def)
qed

lemma untouched_stays:
  assumes computed: "computed_delta before after moved individual shifts clips"
    and "map_of (IndexClips after) i = Some n" "map_of (IndexClips before) i = Some m" "same_clip m n = Inr True"
  shows "shifted_position shifts (trk_id (pl_track m)) (rt_q (start_of m)) = rt_q (start_of m)"
proof -
  have False if s: "s \<in> set shifts" "ds_track_id s = trk_id (pl_track m)" "rt_q (ds_from s) \<le> rt_q (start_of m)" for s
  proof -
    obtain g where e: "(trk_id (pl_track m), g) \<in> set (byTrack moved)" "shift_for (trk_id (pl_track m), g) s"
      using fold_group_loop [OF computed_deltaD(3) [OF computed], of s undefined] s(1,2) shift_for_facts(1) by fastforce
    then have g: "set g \<subseteq> set moved" "g \<noteq> []" "\<And>pair. pair \<in> set g \<Longrightarrow> trk_id (pl_track (fst pair)) = trk_id (pl_track m)"
      by (auto simp: byTrack_iff)
    have hd: "hd g \<in> set moved" "trk_id (pl_track (fst (hd g))) = trk_id (pl_track m)" using g hd_in_set [of g] by auto
    then have "map_of (IndexClips before) (clip_id (pl_clip (fst (hd g)))) = Some (fst (hd g))"
      using moved_ids(2) [OF computed, of "fst (hd g)" "snd (hd g)"] by (simp add: only_moved_def)
    then have "pl_track (fst (hd g)) = pl_track m"
      using index_sound(1) index_sound(1) [OF assms(3)] hd(2) computed_deltaD(1) [OF computed] by (metis (no_types, lifting) distinct_map inj_on_def)
    then obtain pair where pair: "pair \<in> set g" "clip_id (pl_clip (fst pair)) = clip_id (pl_clip m)"
      using shift_for_facts(4) [OF e(2), of "pl_clip m"] index_sound(2) [OF assms(3)] s(3) by auto
    then have "(fst pair, snd pair) \<in> set moved" using g(1) by auto
    from moved_ids [OF computed this] show False
      using pair(2) index_sound(3) [OF assms(3)] assms(2-4) by (auto simp: only_moved_def)
  qed
  then have "find (\<lambda>s. ds_track_id s = trk_id (pl_track m) \<and> rt_q (ds_from s) \<le> rt_q (start_of m)) shifts = None"
    by (auto simp: find_None_iff)
  then show ?thesis by (simp add: shifted_position_def)
qed

lemma patched:
  assumes computed: "computed_delta before after moved individual shifts clips"
    and "dd_removed_clip_ids \<delta> = missing_keys (IndexClips before) (IndexClips after)" "set (dd_clips \<delta>) = set clips"
    and "dd_shifted \<delta> = shifts"
  shows "patch \<delta> (picture before) i = picture after i"
proof (cases "map_of (IndexClips after) i")
  case None
  have "find (\<lambda>c. dc_clip_id c = i) (dd_clips \<delta>) = None" using clips_values [OF computed] None assms(3) by (fastforce simp: find_None_iff)
  then show ?thesis using None assms(2)
    by (cases "map_of (IndexClips before) i") (auto simp: patch_cases missing_iff picture_def)
next
  case (Some n)
  have kept: "i \<notin> set (dd_removed_clip_ids \<delta>)" using Some assms(2) by (simp add: missing_iff)
  show ?thesis
  proof (cases "\<exists>c\<in>set clips. dc_clip_id c = i")
    case True
    then obtain c where "c \<in> set (dd_clips \<delta>)" "dc_clip_id c = i" using assms(3) by blast
    then have "map_option values_of (find (\<lambda>c. dc_clip_id c = i) (dd_clips \<delta>)) = Some (picture_of n)"
      by (rule find_value) (use clips_values [OF computed] Some assms(3) in fastforce)
    then show ?thesis using patch_cases(2) [OF kept] Some by (simp add: picture_def)
  next
    case False
    then have none: "\<forall>c\<in>set clips. dc_clip_id c \<noteq> i" by blast
    then have "find (\<lambda>c. dc_clip_id c = i) (dd_clips \<delta>) = None" using assms(3) by (auto simp: find_None_iff)
    note p = patch_cases(3) [OF kept this, of "picture before"]
    have "\<not> described (IndexClips before) i n"
    proof
      assume "described (IndexClips before) i n"
      then obtain b where "Describe n b \<in> set individual" using classify_loop [OF computed_deltaD(2) [OF computed]] Some
        unfolding new_key by blast
      then have "Describe n b \<in> set clips" using fold_group_loop [OF computed_deltaD(3) [OF computed], of undefined "Describe n b"] by blast
      then show False using none index_sound(3) [OF Some] by auto
    qed
    then consider m where "only_moved (IndexClips before) i n m"
      | m where "map_of (IndexClips before) i = Some m" "same_clip m n = Inr True" by (auto simp: described_def untouched_def)
    then show ?thesis
    proof cases
      case 1
      then show ?thesis using moved_explained [OF computed Some 1 none] Some p assms(4)
        by (simp add: picture_def only_moved_def split: prod.splits)
    next
      case 2
      then show ?thesis using untouched_stays [OF computed Some 2] same_clip_picture [OF 2(2)] Some p assms(4)
        by (simp add: picture_def picture_of_def)
    qed
  qed
qed

text \<open>The equality of clips never looks at the gain and the fades of the audio.\<close>

lemma ClipsEqual_ignores_audio:
  "ClipsEqual l (r\<lparr>clip_audio_gain_db := g, clip_audio_fade_in := x, clip_audio_fade_out := y\<rparr>) = ClipsEqual l r"
  unfolding ClipsEqual_def by (cases r) (simp only: DocumentClip.simps)

lemma patch_unchanged: "\<not> changed \<delta> \<Longrightarrow> patch \<delta> v = v"
proof
  fix i assume "\<not> changed \<delta>"
  then have "shifted_position (dd_shifted \<delta>) = (\<lambda>t p. p)" by (simp add: changed_def shifted_position_def fun_eq_iff)
  then show "patch \<delta> v i = v i" using \<open>\<not> changed \<delta>\<close> by (cases "v i") (auto simp: patch_def changed_def)
qed

text \<open>
  Property C15: a client that patches its own picture of the timeline with the delta has the
  picture of the timeline after the edit: it drops the removed clips, takes the published clips,
  moves those that a shift rule covers and keeps all others, and then every clip has its new
  track, source, source range and position.  The removed identifiers are exactly those of
  the clips that are gone, and when the function answers that nothing changed the pictures are equal.
\<close>

theorem delta_patches_picture:
  assumes "ComputeDocumentDelta before after = Inr (b, \<delta>)" and "valid before"
  shows "patch \<delta> (picture before) = picture after \<and> (\<not> b \<longrightarrow> picture after = picture before) \<and>
     (\<forall>i. i \<in> set (dd_removed_clip_ids \<delta>) \<longleftrightarrow> picture before i \<noteq> None \<and> picture after i = None)"
proof -
  obtain moved individual shifts clips cs where
    c: "loopR (classify (IndexClips before)) (IndexClips after) ([], []) = Inr (moved, individual)"
      "loopR fold_group (byTrack moved) ([], individual) = Inr (shifts, clips)" "sort_described clips = Inr cs"
    and d: "dd_clips \<delta> = cs" "dd_removed_clip_ids \<delta> = missing_keys (IndexClips before) (IndexClips after)" "dd_shifted \<delta> = shifts" "b = changed \<delta>"
    using assms(1) by (auto simp: ComputeDocumentDelta_def Let_def)
  have "computed_delta before after moved individual shifts clips"
    using c valid_distinct_tracks(1) [OF assms(2)] by (simp add: computed_delta_def)
  then have p: "patch \<delta> (picture before) = picture after"
    using d sort_described_set [OF c(3)] by (intro ext patched) simp_all
  then show ?thesis using patch_unchanged [of \<delta> "picture before"] d(2,4) by (auto simp: missing_iff picture_def)
qed

definition moved_document :: Document where
  "moved_document = sample_doc_with
     [sample_track CHR ''A'' ''video'' 0
        [link CHR ''1'' (sample_clip CHR ''1'' 0 100 10), sample_clip CHR ''2'' 200 50 110],
      sample_track CHR ''B'' ''video'' 1 [],
      sample_track CHR ''C'' ''audio'' 2 [link CHR ''1'' (sample_clip CHR ''3'' 0 90 0)]]"

lemma moved_delta_computed:
  "case ComputeDocumentDelta sample_doc moved_document of
     Inl _ \<Rightarrow> False
   | Inr (b, \<delta>) \<Rightarrow> b \<and> map (\<lambda>s. (ds_track_id s, ds_by s, ds_count s)) (dd_shifted \<delta>) = [(trk_id (hd (doc_tracks sample_doc)), RT 10 25, 2)] \<and>
       map dc_clip_id (dd_clips \<delta>) = [u CHR ''3'']"
  by code_simp

theorem delta_patches_picture_witness:
  "\<exists>\<delta>. ComputeDocumentDelta sample_doc moved_document = Inr (True, \<delta>) \<and> length (dd_shifted \<delta>) = 1 \<and>
     map dc_clip_id (dd_clips \<delta>) = [u CHR ''3''] \<and> patch \<delta> (picture sample_doc) = picture moved_document"
proof -
  obtain \<delta> where "ComputeDocumentDelta sample_doc moved_document = Inr (True, \<delta>)" "length (dd_shifted \<delta>) = 1"
    "map dc_clip_id (dd_clips \<delta>) = [u CHR ''3'']"
    using moved_delta_computed by (auto split: sum.splits)
  then show ?thesis using delta_patches_picture [of sample_doc moved_document True \<delta>] sample_doc_valid by auto
qed

end
