(* ===== verification/Timeline_Stats.thy ===== *)
theory Timeline_Stats
  imports Document_Delta
begin

text \<open>
  \<open>src/TimelineStats.cc\<close>: the shots one sees when the visible video tracks are composited, their
  cuts and the share of cutaways.  \<open>CheckClipTimes\<close> makes sure of positive rates before any times are
  compared, so the comparison operators are their cross multiplications and do not throw.
  \<open>std::sort\<close> may order equal instants either way; here it keeps their order, which decides only with which
  timebase an instant is reported.  The 128-bit products do not overflow.
\<close>

section \<open>Checked values\<close>

record TimelineStats =
  ts_duration :: RationalTime
  ts_visible_shots :: nat
  ts_visible_cuts :: nat
  ts_plans_per_minute :: "int \<times> int"
  ts_cutaway_plans :: nat
  ts_cutaway_share :: "int \<times> int"
  ts_first_cut :: "RationalTime option"

definition CheckClipTimes :: "DocumentClip \<Rightarrow> string + unit" where
  "CheckClipTimes c =
     (if rt_rate (clip_timeline_in c) \<le> 0 \<or> rt_rate (clip_duration c) \<le> 0
      then Inl (''clip '' @ quoted (clip_id c) @ '' has a non-positive time rate'')
      else if rt_value (clip_timeline_in c) < 0 \<or> rt_value (clip_duration c) < 0
      then Inl (''clip '' @ quoted (clip_id c) @ '' has a negative timeline extent'')
      else Inr ())"

definition ClipEnd :: "DocumentClip \<Rightarrow> string + RationalTime" where
  "ClipEnd c =
     bindR (CheckClipTimes c) (\<lambda>_. case rt_add (clip_timeline_in c) (clip_duration c) of
       Inl _ \<Rightarrow> Inl (''clip '' @ quoted (clip_id c) @ '' timeline extent overflows'')
     | Inr end_time \<Rightarrow> Inr end_time)"

definition CheckedRatio :: "int \<Rightarrow> int \<Rightarrow> string + int \<times> int" where
  "CheckedRatio numerator denominator =
     (if denominator \<le> 0 then Inl ''timeline stats ratio has a non-positive denominator''
      else let divisor = rt_Gcd numerator denominator;
               n = trunc_div numerator divisor; m = trunc_div denominator divisor in
      if n < int64_min \<or> n > int64_max \<or> m > int64_max then Inl ''timeline stats ratio overflows int64''
      else Inr (n, m))"

definition time_less :: "RationalTime \<Rightarrow> RationalTime \<Rightarrow> bool" where
  "time_less a b \<longleftrightarrow> rt_value a * rt_rate b < rt_value b * rt_rate a"

definition time_same :: "RationalTime \<Rightarrow> RationalTime \<Rightarrow> bool" where
  "time_same a b \<longleftrightarrow> rt_value a * rt_rate b = rt_value b * rt_rate a"

section \<open>Boundaries\<close>

definition visible_video :: "DocumentTrack \<Rightarrow> bool" where
  "visible_video t \<longleftrightarrow> trk_kind t = ''video'' \<and> trk_visible t"

definition scan_clip :: "DocumentTrack \<Rightarrow> DocumentClip \<Rightarrow> RationalTime \<times> RationalTime list \<Rightarrow> string + RationalTime \<times> RationalTime list" where
  "scan_clip t c = (\<lambda>(duration, boundaries).
     bindR (ClipEnd c) (\<lambda>end_time.
       Inr (if time_less duration end_time then end_time else duration,
            if visible_video t \<and> 0 < rt_value (clip_duration c) then boundaries @ [clip_timeline_in c, end_time] else boundaries)))"

definition scan_track :: "DocumentTrack \<Rightarrow> RationalTime \<times> RationalTime list \<Rightarrow> string + RationalTime \<times> RationalTime list" where
  "scan_track t s = loopR (scan_clip t) (trk_clips t) s"

definition primary_video_track :: "Document \<Rightarrow> int" where
  "primary_video_track d =
     fold (\<lambda>t i. if trk_kind t = ''video'' then min i (trk_index t) else i) (doc_tracks d) int32_max"

fun unique_times :: "RationalTime list \<Rightarrow> RationalTime list" where
  "unique_times (x # y # xs) = (if time_same x y then unique_times (x # xs) else x # unique_times (y # xs))"
| "unique_times xs = xs"

section \<open>Segments\<close>

record VisibleSegment =
  vs_clip_id :: Ulid
  vs_track_index :: int
  vs_start :: RationalTime
  vs_end :: RationalTime

definition top_step :: "RationalTime \<Rightarrow> DocumentTrack \<Rightarrow> DocumentClip \<Rightarrow> (DocumentClip \<times> int) option \<Rightarrow> string + (DocumentClip \<times> int) option" where
  "top_step start t c best =
     bindR (ClipEnd c) (\<lambda>clip_stop.
       Inr (if \<not> time_less start (clip_timeline_in c) \<and> time_less start clip_stop \<and>
               (case best of None \<Rightarrow> True | Some (_, i) \<Rightarrow> i < trk_index t)
            then Some (c, trk_index t) else best))"

definition top_track :: "RationalTime \<Rightarrow> DocumentTrack \<Rightarrow> (DocumentClip \<times> int) option \<Rightarrow> string + (DocumentClip \<times> int) option" where
  "top_track start t best = (if visible_video t then loopR (top_step start t) (trk_clips t) best else Inr best)"

definition top_clip :: "Document \<Rightarrow> RationalTime \<Rightarrow> string + (DocumentClip \<times> int) option" where
  "top_clip d start = loopR (top_track start) (doc_tracks d) None"

definition add_segment :: "Document \<Rightarrow> RationalTime \<times> RationalTime \<Rightarrow> VisibleSegment list \<Rightarrow> string + VisibleSegment list" where
  "add_segment d = (\<lambda>(start, stop) segments.
     if \<not> time_less start stop then Inr segments
     else bindR (top_clip d start) (\<lambda>top_found.
       case top_found of
         None \<Rightarrow> Inr segments
       | Some (c, i) \<Rightarrow>
           Inr (if segments \<noteq> [] \<and> vs_clip_id (last segments) = clip_id c \<and> time_same (vs_end (last segments)) start
                then butlast segments @ [(last segments)\<lparr>vs_end := stop\<rparr>]
                else segments @ [\<lparr>vs_clip_id = clip_id c, vs_track_index = i, vs_start = start, vs_end = stop\<rparr>])))"

definition visible_segments :: "Document \<Rightarrow> RationalTime list \<Rightarrow> string + VisibleSegment list" where
  "visible_segments d boundaries =
     (let bs = unique_times (stable_sort time_less boundaries) in loopR (add_segment d) (zip bs (tl bs)) [])"

section \<open>The statistics\<close>

definition CalculateTimelineStats :: "Document \<Rightarrow> string + TimelineStats" where
  "CalculateTimelineStats d =
     bindR (loopR scan_track (doc_tracks d) (RT 0 1, [])) (\<lambda>(duration, boundaries).
     bindR (visible_segments d boundaries) (\<lambda>segments.
       let shots = length segments;
           cutaways = filter (\<lambda>s. vs_track_index s \<noteq> primary_video_track d) segments in
       bindR (if rt_value duration = 0 then Inr (0, 1)
              else CheckedRatio (int shots * 60 * rt_rate duration) (rt_value duration)) (\<lambda>plans.
       bindR (if shots = 0 then Inr (0, 1) else CheckedRatio (int (length cutaways)) (int shots)) (\<lambda>share.
         Inr \<lparr>ts_duration = duration, ts_visible_shots = shots,
              ts_visible_cuts = length (filter (\<lambda>(a, b). time_same (vs_end a) (vs_start b)) (zip segments (tl segments))),
              ts_plans_per_minute = plans, ts_cutaway_plans = length cutaways, ts_cutaway_share = share,
              ts_first_cut = (case cutaways of [] \<Rightarrow> None | s # _ \<Rightarrow> Some (vs_start s))\<rparr>))))"

definition RatioValue :: "int \<times> int \<Rightarrow> Value" where
  "RatioValue r = json_Set ''denominator'' (MakeInt (snd r)) (json_Set ''numerator'' (MakeInt (fst r)) (JObject []))"

definition SerializeTimelineStats :: "TimelineStats \<Rightarrow> string" where
  "SerializeTimelineStats s = Dump (fold (\<lambda>(k, v). json_Set k v)
     [(''duration'', TimeValue (ts_duration s)), (''visible_shots'', MakeInt (int (ts_visible_shots s))),
      (''visible_cuts'', MakeInt (int (ts_visible_cuts s))), (''plans_per_minute'', RatioValue (ts_plans_per_minute s)),
      (''cutaway_plans'', MakeInt (int (ts_cutaway_plans s))), (''cutaway_share'', RatioValue (ts_cutaway_share s)),
      (''first_cut'', case ts_first_cut s of None \<Rightarrow> JNull | Some t \<Rightarrow> TimeValue t)] (JObject []))"

section \<open>Times\<close>

lemma time_less_iff: "0 < rt_rate a \<Longrightarrow> 0 < rt_rate b \<Longrightarrow> time_less a b \<longleftrightarrow> rt_q a < rt_q b"
  by (simp add: time_less_def rt_q_less_iff)

lemma time_same_iff: "0 < rt_rate a \<Longrightarrow> 0 < rt_rate b \<Longrightarrow> time_same a b \<longleftrightarrow> rt_q a = rt_q b"
  using rt_q_less_iff [of a b] rt_q_less_iff [of b a] by (auto simp: time_same_def)

lemma ClipEnd_facts:
  assumes "ClipEnd c = Inr e"
  shows "0 < rt_rate (clip_timeline_in c)" "0 < rt_rate (clip_duration c)" "0 < rt_rate e" "rt_q e = clip_end c"
    "0 \<le> rt_value (clip_timeline_in c)" "0 \<le> rt_value (clip_duration c)"
proof -
  have "rt_add (clip_timeline_in c) (clip_duration c) = Inr e"
    using assms by (auto simp: ClipEnd_def bindR_Inr_iff split: sum.splits)
  then show "0 < rt_rate e" "rt_q e = clip_end c"
    using rt_add_wf [of "clip_timeline_in c" "clip_duration c" e] rt_add_exact [of "clip_timeline_in c" "clip_duration c" e]
    by (auto simp: rt_wf_def clip_end_def)
qed (use assms in \<open>auto simp: ClipEnd_def CheckClipTimes_def bindR_Inr_iff split: if_splits\<close>)

interpretation times: ranking time_less rt_q "\<lambda>t. 0 < rt_rate t"
  by unfold_locales (rule time_less_iff)

lemma unique_times_sorted:
  assumes "sorted (map rt_q xs)" "\<forall>x\<in>set xs. 0 < rt_rate x"
  shows "sorted_wrt (\<lambda>a b. rt_q a < rt_q b) (unique_times xs) \<and> rt_q ` set (unique_times xs) = rt_q ` set xs \<and>
    set (unique_times xs) \<subseteq> set xs"
  using assms
proof (induction xs rule: unique_times.induct)
  case (1 x y xs)
  show ?case
  proof (cases "time_same x y")
    case True
    then have "rt_q x = rt_q y" using 1(4) by (simp add: time_same_iff)
    then show ?thesis using 1(1) [OF True] 1(3,4) True by auto
  next
    case False
    then have "rt_q x < rt_q y" using 1(3,4) by (auto simp: time_same_iff)
    then have "\<forall>z\<in>set (unique_times (y # xs)). rt_q x < rt_q z" using 1(2) [OF False] 1(3,4) by fastforce
    then show ?thesis using 1(2) [OF False] 1(3,4) False by auto
  qed
qed auto

lemma CheckedRatio_exact:
  assumes "CheckedRatio n m = Inr (a, b)" "0 \<le> n"
  shows "0 < b \<and> coprime a b \<and> (of_int a / of_int b :: rat) = of_int n / of_int m"
proof -
  have m: "0 < m" using assms(1) by (auto simp: CheckedRatio_def split: if_splits)
  let ?g = "gcd n m"
  have g: "0 < ?g" using m by simp
  have "a = n div ?g" "b = m div ?g"
    using assms m g by (auto simp: CheckedRatio_def rt_Gcd_eq Let_def trunc_div_nonneg split: if_splits)
  moreover have "coprime (n div ?g) (m div ?g)" using m by (intro div_gcd_coprime) auto
  moreover have "0 < m div ?g" using m g by (simp add: pos_imp_zdiv_pos_iff zdvd_imp_le)
  moreover have "of_int (n div ?g) / of_int (m div ?g) = (of_int n / of_int m :: rat)"
  proof -
    have "of_int n = (of_int (n div ?g) * of_int ?g :: rat)" "of_int m = (of_int (m div ?g) * of_int ?g :: rat)"
      by (simp_all flip: of_int_mult)
    moreover have "of_int ?g \<noteq> (0 :: rat)" using g by simp
    ultimately show ?thesis by (metis mult_divide_mult_cancel_right)
  qed
  ultimately show ?thesis by simp
qed

section \<open>What is on top\<close>

definition video_clip :: "Document \<Rightarrow> DocumentTrack \<Rightarrow> DocumentClip \<Rightarrow> bool" where
  "video_clip d t c \<longleftrightarrow> t \<in> set (doc_tracks d) \<and> visible_video t \<and> c \<in> set (trk_clips t)"

definition plays :: "DocumentClip \<Rightarrow> rat \<Rightarrow> bool" where
  "plays c x \<longleftrightarrow> clip_start c \<le> x \<and> x < clip_end c"

text \<open>Compositing from low to high index: what one sees at an instant.\<close>

definition on_top :: "Document \<Rightarrow> rat \<Rightarrow> DocumentTrack \<Rightarrow> DocumentClip \<Rightarrow> bool" where
  "on_top d x t c \<longleftrightarrow> video_clip d t c \<and> plays c x \<and> (\<forall>t' c'. video_clip d t' c' \<longrightarrow> plays c' x \<longrightarrow> trk_index t' \<le> trk_index t)"

definition topmost :: "rat \<Rightarrow> (DocumentTrack \<times> DocumentClip) set \<Rightarrow> (DocumentClip \<times> int) option \<Rightarrow> bool" where
  "topmost x S best \<longleftrightarrow>
     (case best of None \<Rightarrow> \<forall>(t, c)\<in>S. \<not> plays c x
      | Some (c, i) \<Rightarrow> \<exists>t. (t, c) \<in> S \<and> i = trk_index t \<and> plays c x \<and> (\<forall>(t', c')\<in>S. plays c' x \<longrightarrow> trk_index t' \<le> i))"

lemma top_step_topmost:
  assumes "top_step a t c best = Inr best'" "topmost (rt_q a) S best" "0 < rt_rate a"
  shows "topmost (rt_q a) (insert (t, c) S) best'"
proof -
  obtain e where e: "ClipEnd c = Inr e" and b: "best' = (if \<not> time_less a (clip_timeline_in c) \<and> time_less a e \<and>
      (case best of None \<Rightarrow> True | Some (_, i) \<Rightarrow> i < trk_index t) then Some (c, trk_index t) else best)"
    using assms(1) by (auto simp: top_step_def)
  have p: "\<not> time_less a (clip_timeline_in c) \<and> time_less a e \<longleftrightarrow> plays c (rt_q a)"
    using ClipEnd_facts [OF e] assms(3) by (auto simp: time_less_iff plays_def clip_start_def not_less)
  show ?thesis
  proof (cases best)
    case None
    then show ?thesis using assms(2) p unfolding b topmost_def by auto
  next
    case (Some r)
    obtain c0 i where r: "r = (c0, i)" by fastforce
    then show ?thesis using assms(2) p Some unfolding b topmost_def by (cases "i < trk_index t") (auto, fastforce)
  qed
qed

lemma top_track_topmost:
  assumes "top_track a t best = Inr best'" "topmost (rt_q a) S best" "0 < rt_rate a"
  shows "topmost (rt_q a) (S \<union> {(t, c) | c. visible_video t \<and> c \<in> set (trk_clips t)}) best'"
proof -
  have "loopR (top_step a t) cs best = Inr best' \<Longrightarrow> topmost (rt_q a) S best \<Longrightarrow> topmost (rt_q a) (S \<union> {(t, c) | c. c \<in> set cs}) best'" for cs best S
  proof (induction cs arbitrary: best S)
    case (Cons c cs)
    then obtain b where "top_step a t c best = Inr b" "loopR (top_step a t) cs b = Inr best'" by auto
    then have "topmost (rt_q a) (insert (t, c) S \<union> {(t, c) | c. c \<in> set cs}) best'"
      using top_step_topmost Cons.prems(2) Cons.IH assms(3) by blast
    moreover have "insert (t, c) S \<union> {(t, c) | c. c \<in> set cs} = S \<union> {(t, x) | x. x \<in> set (c # cs)}" by auto
    ultimately show ?case by metis
  qed simp
  from this [of "trk_clips t" best S] show ?thesis using assms(1,2) by (auto simp: top_track_def split: if_splits)
qed

lemma top_clip_topmost:
  assumes "top_clip d a = Inr best" "0 < rt_rate a"
  shows "topmost (rt_q a) {(t, c). video_clip d t c} best"
proof -
  have "loopR (top_track a) ts best0 = Inr best \<Longrightarrow> topmost (rt_q a) S best0 \<Longrightarrow>
      topmost (rt_q a) (S \<union> {(t, c). t \<in> set ts \<and> visible_video t \<and> c \<in> set (trk_clips t)}) best" for ts best0 S
  proof (induction ts arbitrary: best0 S)
    case (Cons t ts)
    then obtain b where "top_track a t best0 = Inr b" "loopR (top_track a) ts b = Inr best" by auto
    then have "topmost (rt_q a) ((S \<union> {(t, c) | c. visible_video t \<and> c \<in> set (trk_clips t)}) \<union>
        {(t, c). t \<in> set ts \<and> visible_video t \<and> c \<in> set (trk_clips t)}) best"
      using top_track_topmost [OF _ Cons.prems(2) assms(2)] Cons.IH by blast
    moreover have "(S \<union> {(t, c) | c. visible_video t \<and> c \<in> set (trk_clips t)}) \<union>
        {(t, c). t \<in> set ts \<and> visible_video t \<and> c \<in> set (trk_clips t)} =
        S \<union> {(x, c). x \<in> set (t # ts) \<and> visible_video x \<and> c \<in> set (trk_clips x)}" by auto
    ultimately show ?case by metis
  qed simp
  from this [of "doc_tracks d" None "{}"] show ?thesis
    using assms(1) by (simp add: top_clip_def topmost_def video_clip_def)
qed

lemma top_clip_on_top:
  assumes "top_clip d a = Inr best" "0 < rt_rate a"
  shows "case best of None \<Rightarrow> \<forall>t c. \<not> on_top d (rt_q a) t c
     | Some (c, i) \<Rightarrow> \<exists>t. on_top d (rt_q a) t c \<and> i = trk_index t"
  using top_clip_topmost [OF assms] by (auto simp: topmost_def on_top_def split: option.splits prod.splits)

lemma validate_track_index:
  "validate_track d sources j t (ids, S) = Inr r \<Longrightarrow> trk_index t \<notin> S \<and> (\<exists>ids'. r = (ids', insert (trk_index t) S))"
  by (auto simp: validate_track_def Let_def split: if_splits)

lemma valid_track_indices:
  assumes "valid d"
  shows "distinct (map trk_index (doc_tracks d))"
proof -
  have "iterR (validate_track d sources) j ts (ids, S) = Inr r \<Longrightarrow>
      distinct (map trk_index ts) \<and> trk_index ` set ts \<inter> S = {}" for sources j ts ids S r
  proof (induction ts arbitrary: j ids S)
    case (Cons t ts)
    from Cons.prems obtain r1 where "validate_track d sources j t (ids, S) = Inr r1" "iterR (validate_track d sources) (Suc j) ts r1 = Inr r"
      by auto
    then obtain ids' where "trk_index t \<notin> S" "iterR (validate_track d sources) (Suc j) ts (ids', insert (trk_index t) S) = Inr r"
      using validate_track_index by blast
    then show ?case using Cons.IH [of "Suc j" ids' "insert (trk_index t) S"] by auto
  qed simp
  moreover obtain sources ids r where "iterR (validate_track d sources) 0 (doc_tracks d) (ids, {}) = Inr r"
    using assms by (rule Validate_stages) blast
  ultimately show ?thesis by blast
qed

lemma on_top_unique:
  assumes "valid d" "on_top d x t c" "on_top d x t' c'"
  shows "t' = t \<and> c' = c"
proof -
  have "trk_index t = trk_index t'" using assms(2,3) unfolding on_top_def by (meson order_antisym)
  then have t: "t' = t" using valid_track_indices [OF assms(1)] assms(2,3)
    by (auto simp: on_top_def video_clip_def distinct_map dest: inj_onD)
  have o: "track_in_order (trk_clips t)" using valid_track(1) [OF assms(1)] assms(2) by (simp add: on_top_def video_clip_def)
  have "c = c'" if "sorted_wrt (\<lambda>a b. clip_end a \<le> clip_start b) cs" "c \<in> set cs" "c' \<in> set cs" for cs
    using that assms(2,3) by (induction cs) (auto simp: on_top_def plays_def)
  then show ?thesis using o t assms(2,3) by (auto simp: track_in_order_def on_top_def video_clip_def)
qed

section \<open>The segments\<close>

definition shown :: "VisibleSegment list \<Rightarrow> rat \<Rightarrow> Ulid \<Rightarrow> bool" where
  "shown segs x i \<longleftrightarrow> (\<exists>s\<in>set segs. vs_clip_id s = i \<and> rt_q (vs_start s) \<le> x \<and> x < rt_q (vs_end s))"

definition segment_ok :: "Document \<Rightarrow> VisibleSegment \<Rightarrow> bool" where
  "segment_ok d s \<longleftrightarrow> 0 < rt_rate (vs_start s) \<and> 0 < rt_rate (vs_end s) \<and> rt_q (vs_start s) < rt_q (vs_end s) \<and>
     (\<exists>t c. video_clip d t c \<and> vs_clip_id s = clip_id c \<and> vs_track_index s = trk_index t)"

definition segments_ok :: "Document \<Rightarrow> VisibleSegment list \<Rightarrow> rat \<Rightarrow> bool" where
  "segments_ok d segs y \<longleftrightarrow> (\<forall>s\<in>set segs. segment_ok d s \<and> rt_q (vs_end s) \<le> y) \<and>
     sorted_wrt (\<lambda>s s'. rt_q (vs_end s) \<le> rt_q (vs_start s')) segs \<and>
     successively (\<lambda>s s'. rt_q (vs_end s) = rt_q (vs_start s') \<longrightarrow> vs_clip_id s \<noteq> vs_clip_id s') segs"

definition steady :: "Document \<Rightarrow> rat \<Rightarrow> rat \<Rightarrow> bool" where
  "steady d x y \<longleftrightarrow> (\<forall>t c z. video_clip d t c \<longrightarrow> x \<le> z \<longrightarrow> z < y \<longrightarrow> (plays c z \<longleftrightarrow> plays c x))"

lemma steady_on_top: "steady d x y \<Longrightarrow> x \<le> z \<Longrightarrow> z < y \<Longrightarrow> on_top d z t c \<longleftrightarrow> on_top d x t c"
  unfolding steady_def on_top_def by meson

lemma segments_ok_mono: "segments_ok d segs x \<Longrightarrow> x \<le> y \<Longrightarrow> segments_ok d segs y"
  by (auto simp: segments_ok_def intro: order_trans)

lemma segments_ok_append:
  "segments_ok d (segs @ [s]) y \<longleftrightarrow> segments_ok d segs (rt_q (vs_start s)) \<and> segment_ok d s \<and> rt_q (vs_end s) \<le> y \<and>
     (segs \<noteq> [] \<longrightarrow> rt_q (vs_end (last segs)) = rt_q (vs_start s) \<longrightarrow> vs_clip_id (last segs) \<noteq> vs_clip_id s)"
proof -
  have "rt_q (vs_start s) \<le> rt_q (vs_end s)" if "segment_ok d s" using that by (simp add: segment_ok_def)
  then show ?thesis
    by (auto simp: segments_ok_def sorted_wrt_append successively_append_iff intro: order_trans)
qed

lemma add_segment_step:
  assumes "add_segment d (a, b) segs = Inr segs'" "segments_ok d segs (rt_q a)" "0 < rt_rate a" "0 < rt_rate b" "rt_q a < rt_q b"
    and steady: "steady d (rt_q a) (rt_q b)" and "valid d"
  shows "segments_ok d segs' (rt_q b) \<and>
     (\<forall>x i. shown segs' x i \<longleftrightarrow> shown segs x i \<or> rt_q a \<le> x \<and> x < rt_q b \<and> (\<exists>t c. on_top d x t c \<and> clip_id c = i))"
proof -
  have less: "time_less a b" using assms(3-5) by (simp add: time_less_iff)
  obtain found where f: "top_clip d a = Inr found" using assms(1) less by (auto simp: add_segment_def)
  note t = top_clip_on_top [OF f assms(3)]
  show ?thesis
  proof (cases found)
    case None
    then have "segs' = segs" using assms(1) less f by (simp add: add_segment_def)
    moreover have "\<not> on_top d x t c" if "rt_q a \<le> x" "x < rt_q b" for x t c
      using t None steady_on_top [OF steady that] by simp
    ultimately show ?thesis using assms(2,5) segments_ok_mono [of d segs "rt_q a" "rt_q b"] by auto
  next
    case (Some r)
    obtain c i where r: "r = (c, i)" by fastforce
    obtain t where tc: "on_top d (rt_q a) t c" "i = trk_index t" using t Some r by auto
    have top: "(\<exists>t c. on_top d x t c \<and> clip_id c = j) \<longleftrightarrow> clip_id c = j" if "rt_q a \<le> x" "x < rt_q b" for x j
      using steady_on_top [OF steady that] tc(1) on_top_unique [OF assms(7) tc(1)] by metis
    let ?s = "\<lparr>vs_clip_id = clip_id c, vs_track_index = i, vs_start = a, vs_end = b\<rparr>"
    have s_ok: "segment_ok d ?s" using assms(3-5) tc by (auto simp: segment_ok_def on_top_def)
    show ?thesis
    proof (cases "segs \<noteq> [] \<and> vs_clip_id (last segs) = clip_id c \<and> time_same (vs_end (last segs)) a")
      case True
      let ?l = "last segs"
      have segs: "segs = butlast segs @ [?l]" using True by simp
      then have ok: "segments_ok d (butlast segs) (rt_q (vs_start ?l))" "segment_ok d ?l"
        "butlast segs \<noteq> [] \<longrightarrow> rt_q (vs_end (last (butlast segs))) = rt_q (vs_start ?l) \<longrightarrow> vs_clip_id (last (butlast segs)) \<noteq> vs_clip_id ?l"
        using assms(2) segments_ok_append [of d "butlast segs" ?l "rt_q a"] by metis+
      have e: "rt_q (vs_end ?l) = rt_q a" using True ok(2) assms(3) by (simp add: segment_ok_def time_same_iff)
      have segs': "segs' = butlast segs @ [?l\<lparr>vs_end := b\<rparr>]" using assms(1) less f Some r True by (simp add: add_segment_def)
      have "segments_ok d segs' (rt_q b)"
        using ok e assms(4,5) unfolding segs' segments_ok_append by (auto simp: segment_ok_def)
      moreover have "shown segs' x j \<longleftrightarrow> shown segs x j \<or> rt_q a \<le> x \<and> x < rt_q b \<and> clip_id c = j" for x j
      proof -
        have "shown segs x j \<longleftrightarrow> shown (butlast segs) x j \<or> vs_clip_id ?l = j \<and> rt_q (vs_start ?l) \<le> x \<and> x < rt_q (vs_end ?l)"
          by (subst segs) (auto simp: shown_def)
        then show ?thesis using e True ok(2) assms(5) by (auto simp: segs' shown_def segment_ok_def)
      qed
      ultimately show ?thesis using top by blast
    next
      case False
      have segs': "segs' = segs @ [?s]" using assms(1) less f Some r False by (auto simp: add_segment_def)
      have "segs \<noteq> [] \<Longrightarrow> segment_ok d (last segs)" using assms(2) by (simp add: segments_ok_def)
      then have "segments_ok d segs' (rt_q b)"
        using assms(2,3) s_ok False unfolding segs' segments_ok_append by (auto simp: segment_ok_def time_same_iff)
      moreover have "shown segs' x j \<longleftrightarrow> shown segs x j \<or> rt_q a \<le> x \<and> x < rt_q b \<and> clip_id c = j" for x j
        by (auto simp: segs' shown_def)
      ultimately show ?thesis using top by blast
    qed
  qed
qed

lemma add_segment_loop:
  assumes "loopR (add_segment d) (zip (a # bs) bs) segs = Inr segs'" "segments_ok d segs (rt_q a)"
    and "sorted_wrt (\<lambda>a b. rt_q a < rt_q b) (a # bs)" "\<forall>b\<in>set (a # bs). 0 < rt_rate b"
    and "\<forall>t c. video_clip d t c \<longrightarrow> (clip_start c \<le> rt_q a \<or> clip_start c \<in> rt_q ` set bs) \<and> (clip_end c \<le> rt_q a \<or> clip_end c \<in> rt_q ` set bs)"
    and "valid d"
  shows "segments_ok d segs' (rt_q (last (a # bs))) \<and>
     (\<forall>x i. shown segs' x i \<longleftrightarrow> shown segs x i \<or> rt_q a \<le> x \<and> x < rt_q (last (a # bs)) \<and> (\<exists>t c. on_top d x t c \<and> clip_id c = i))"
  using assms(1-5)
proof (induction bs arbitrary: a segs)
  case (Cons b bs)
  obtain segs1 where one: "add_segment d (a, b) segs = Inr segs1" "loopR (add_segment d) (zip (b # bs) bs) segs1 = Inr segs'"
    using Cons.prems(1) by auto
  have "steady d (rt_q a) (rt_q b)"
    using Cons.prems(3,5) by (fastforce simp: steady_def plays_def)
  note step = add_segment_step [OF one(1) Cons.prems(2) _ _ _ this \<open>valid d\<close>]
  have ab: "rt_q a < rt_q b" "0 < rt_rate a" "0 < rt_rate b" using Cons.prems(3,4) by simp_all
  have st: "segments_ok d segs1 (rt_q b)"
    "\<And>x i. shown segs1 x i \<longleftrightarrow> shown segs x i \<or> rt_q a \<le> x \<and> x < rt_q b \<and> (\<exists>t c. on_top d x t c \<and> clip_id c = i)"
    using step ab by blast+
  have pre: "\<forall>t c. video_clip d t c \<longrightarrow> (clip_start c \<le> rt_q b \<or> clip_start c \<in> rt_q ` set bs) \<and> (clip_end c \<le> rt_q b \<or> clip_end c \<in> rt_q ` set bs)"
    using Cons.prems(3,5) by fastforce
  have IH: "segments_ok d segs' (rt_q (last (b # bs)))"
    "\<And>x i. shown segs' x i \<longleftrightarrow> shown segs1 x i \<or> rt_q b \<le> x \<and> x < rt_q (last (b # bs)) \<and> (\<exists>t c. on_top d x t c \<and> clip_id c = i)"
    using Cons.IH [OF one(2) st(1) _ _ pre] Cons.prems(3,4) by simp_all
  have "rt_q b \<le> rt_q (last (b # bs))" using Cons.prems(3) by (cases bs) (auto simp: less_imp_le)
  then have "rt_q a \<le> x \<and> x < rt_q b \<or> rt_q b \<le> x \<and> x < rt_q (last (b # bs)) \<longleftrightarrow> rt_q a \<le> x \<and> x < rt_q (last (b # bs))" for x
    using ab(1) by auto
  then show ?case using IH st(2) by (metis last.simps list.discI)
qed (simp, metis leD)

section \<open>The boundaries\<close>

definition scanned :: "(DocumentTrack \<times> DocumentClip) set \<Rightarrow> RationalTime \<times> RationalTime list \<Rightarrow> bool" where
  "scanned S = (\<lambda>(duration, bs). 0 < rt_rate duration \<and> (\<forall>b\<in>set bs. 0 < rt_rate b) \<and>
     (\<forall>(t, c)\<in>S. clip_end c \<le> rt_q duration \<and>
        (visible_video t \<longrightarrow> 0 < rt_value (clip_duration c) \<longrightarrow> clip_start c \<in> rt_q ` set bs \<and> clip_end c \<in> rt_q ` set bs)) \<and>
     (rt_q duration = 0 \<or> (\<exists>(t, c)\<in>S. rt_q duration = clip_end c)) \<and> 0 \<le> rt_q duration)"

lemma scan_clip_scanned:
  assumes "scan_clip t c s = Inr s'" "scanned S s"
  shows "scanned (insert (t, c) S) s'"
proof -
  obtain dur bs where s: "s = (dur, bs)" by fastforce
  obtain e where e: "ClipEnd c = Inr e" and s': "s' = (if time_less dur e then e else dur,
      if visible_video t \<and> 0 < rt_value (clip_duration c) then bs @ [clip_timeline_in c, e] else bs)"
    using assms(1) by (auto simp: scan_clip_def s)
  note f = ClipEnd_facts [OF e]
  have "0 < rt_rate dur" using assms(2) by (simp add: scanned_def s)
  then have less: "time_less dur e \<longleftrightarrow> rt_q dur < clip_end c" using f by (simp add: time_less_iff)
  show ?thesis using assms(2) f unfolding s s' scanned_def less by (auto simp: clip_start_def image_iff)
qed

lemma scan_scanned:
  assumes "loopR scan_track (doc_tracks d) (RT 0 1, []) = Inr s"
  shows "scanned {(t, c). t \<in> set (doc_tracks d) \<and> c \<in> set (trk_clips t)} s"
proof -
  have clips: "loopR (scan_clip t) cs s = Inr s' \<Longrightarrow> scanned S s \<Longrightarrow> scanned (S \<union> {(t, c) | c. c \<in> set cs}) s'" for t cs S s s'
  proof (induction cs arbitrary: S s)
    case (Cons c cs)
    then obtain s1 where "scan_clip t c s = Inr s1" "loopR (scan_clip t) cs s1 = Inr s'" by auto
    then have "scanned (insert (t, c) S \<union> {(t, c) | c. c \<in> set cs}) s'" using Cons.IH Cons.prems(2) scan_clip_scanned by blast
    moreover have "insert (t, c) S \<union> {(t, c) | c. c \<in> set cs} = S \<union> {(t, x) | x. x \<in> set (c # cs)}" by auto
    ultimately show ?case by metis
  qed simp
  have "loopR scan_track ts s0 = Inr s \<Longrightarrow> scanned S s0 \<Longrightarrow> scanned (S \<union> {(t, c). t \<in> set ts \<and> c \<in> set (trk_clips t)}) s" for ts S s0
  proof (induction ts arbitrary: S s0)
    case (Cons t ts)
    then obtain s1 where one: "loopR (scan_clip t) (trk_clips t) s0 = Inr s1" "loopR scan_track ts s1 = Inr s"
      by (auto simp: scan_track_def [of t s0])
    have "scanned ((S \<union> {(t, c) | c. c \<in> set (trk_clips t)}) \<union> {(t, c). t \<in> set ts \<and> c \<in> set (trk_clips t)}) s"
      by (rule Cons.IH [OF one(2) clips [OF one(1) Cons.prems(2)]])
    moreover have "(S \<union> {(t, c) | c. c \<in> set (trk_clips t)}) \<union> {(t, c). t \<in> set ts \<and> c \<in> set (trk_clips t)} =
        S \<union> {(x, c). x \<in> set (t # ts) \<and> c \<in> set (trk_clips x)}" by auto
    ultimately show ?case by metis
  qed simp
  from this [of "doc_tracks d" "(RT 0 1, [])" "{}"] show ?thesis using assms by (simp add: scanned_def rt_q_def)
qed

lemma segments_exact:
  assumes "visible_segments d boundaries = Inr segs" "scanned {(t, c). t \<in> set (doc_tracks d) \<and> c \<in> set (trk_clips t)} (dur, boundaries)"
    and "valid d"
  shows "(\<exists>y. segments_ok d segs y) \<and> (\<forall>x i. shown segs x i \<longleftrightarrow> (\<exists>t c. on_top d x t c \<and> clip_id c = i))"
proof -
  let ?bs = "unique_times (stable_sort time_less boundaries)"
  have rates: "\<forall>b\<in>set boundaries. 0 < rt_rate b" using assms(2) by (simp add: scanned_def)
  then have u: "sorted_wrt (\<lambda>a b. rt_q a < rt_q b) ?bs" "rt_q ` set ?bs = rt_q ` set boundaries" "set ?bs \<subseteq> set boundaries"
    using unique_times_sorted [OF times.sorted [OF rates]] by simp_all
  have ends: "clip_start c \<in> rt_q ` set ?bs" "clip_end c \<in> rt_q ` set ?bs" if "video_clip d t c" for t c
    using that assms(2) valid_track(2) [OF assms(3), of t c] unfolding u(2)
    by (auto simp: scanned_def video_clip_def clip_well_placed_def)
  show ?thesis
  proof (cases ?bs)
    case Nil
    then have "\<not> video_clip d t c" for t c using ends by auto
    then show ?thesis using assms(1) Nil by (auto simp: visible_segments_def shown_def on_top_def segments_ok_def)
  next
    case (Cons a bs)
    have loop: "loopR (add_segment d) (zip (a # bs) bs) [] = Inr segs" using assms(1) Cons by (simp add: visible_segments_def)
    have pre: "\<forall>t c. video_clip d t c \<longrightarrow> (clip_start c \<le> rt_q a \<or> clip_start c \<in> rt_q ` set bs) \<and> (clip_end c \<le> rt_q a \<or> clip_end c \<in> rt_q ` set bs)"
      using ends unfolding Cons by fastforce
    have rates': "\<forall>b\<in>set (a # bs). 0 < rt_rate b" using u(3) rates unfolding Cons by blast
    have sorted: "sorted_wrt (\<lambda>a b. rt_q a < rt_q b) (a # bs)" using u(1) unfolding Cons .
    have nil: "segments_ok d [] (rt_q a)" by (simp add: segments_ok_def)
    have r: "segments_ok d segs (rt_q (last (a # bs)))"
      "\<And>x i. shown segs x i \<longleftrightarrow> shown [] x i \<or> rt_q a \<le> x \<and> x < rt_q (last (a # bs)) \<and> (\<exists>t c. on_top d x t c \<and> clip_id c = i)"
      using add_segment_loop [OF loop _ sorted rates' pre assms(3)] nil by blast+
    have "rt_q a \<le> x \<and> x < rt_q (last (a # bs))" if "on_top d x t c" for x t c
    proof -
      have "rt_q a \<le> rt_q b \<and> rt_q b \<le> rt_q (last (a # bs))" if "b \<in> set (a # bs)" for b
        using u(1) that unfolding Cons by (induction bs arbitrary: a) (auto simp: less_imp_le)
      then have "rt_q a \<le> clip_start c" "clip_end c \<le> rt_q (last (a # bs))"
        using ends [of t c] that unfolding Cons by (auto simp: on_top_def)
      then show ?thesis using that by (auto simp: on_top_def plays_def)
    qed
    then show ?thesis using r by (auto simp: shown_def)
  qed
qed

section \<open>The numbers\<close>

lemma touching_count:
  "\<forall>s\<in>set segs. segment_ok d s \<Longrightarrow>
   filter (\<lambda>(a, b). time_same (vs_end a) (vs_start b)) (zip segs (tl segs)) =
   filter (\<lambda>(a, b). rt_q (vs_end a) = rt_q (vs_start b)) (zip segs (tl segs))"
proof (rule filter_cong [OF refl])
  fix p assume ok: "\<forall>s\<in>set segs. segment_ok d s" and "p \<in> set (zip segs (tl segs))"
  then have "fst p \<in> set segs" "snd p \<in> set segs"
    by (metis prod.collapse set_zip_leftD, metis prod.collapse set_zip_rightD list.set_sel(2) tl_Nil)
  then have "0 < rt_rate (vs_end (fst p))" "0 < rt_rate (vs_start (snd p))" using ok by (auto simp: segment_ok_def)
  then show "(case p of (a, b) \<Rightarrow> time_same (vs_end a) (vs_start b)) = (case p of (a, b) \<Rightarrow> rt_q (vs_end a) = rt_q (vs_start b))"
    by (cases p) (simp add: time_same_iff)
qed

text \<open>
  Property C16: the statistics describe what one sees.  For a valid document there are shots, in
  order and disjoint, such that at every instant exactly the clip on top of the composited
  visible tracks is in a shot, and where two shots touch the clip changes; their number, the number of
  places where they touch and the number of those not on the lowest video track are
  the reported numbers, the duration is the greatest end of a clip, and the two ratios are exact and in
  lowest terms.
\<close>

theorem timeline_stats_describe_the_picture:
  assumes "CalculateTimelineStats d = Inr st" and "valid d"
  shows "\<exists>segs. (\<forall>x i. shown segs x i \<longleftrightarrow> (\<exists>t c. on_top d x t c \<and> clip_id c = i)) \<and>
     (\<forall>s\<in>set segs. rt_q (vs_start s) < rt_q (vs_end s)) \<and>
     sorted_wrt (\<lambda>s s'. rt_q (vs_end s) \<le> rt_q (vs_start s')) segs \<and>
     successively (\<lambda>s s'. rt_q (vs_end s) = rt_q (vs_start s') \<longrightarrow> vs_clip_id s \<noteq> vs_clip_id s') segs \<and>
     ts_visible_shots st = length segs \<and>
     ts_visible_cuts st = length (filter (\<lambda>(a, b). rt_q (vs_end a) = rt_q (vs_start b)) (zip segs (tl segs))) \<and>
     ts_cutaway_plans st = length (filter (\<lambda>s. vs_track_index s \<noteq> primary_video_track d) segs) \<and>
     (\<forall>s\<in>set segs. \<exists>t c. video_clip d t c \<and> vs_clip_id s = clip_id c \<and> vs_track_index s = trk_index t) \<and>
     (\<forall>t c. t \<in> set (doc_tracks d) \<and> c \<in> set (trk_clips t) \<longrightarrow> clip_end c \<le> rt_q (ts_duration st)) \<and>
     (rt_q (ts_duration st) = 0 \<or> (\<exists>t c. t \<in> set (doc_tracks d) \<and> c \<in> set (trk_clips t) \<and> rt_q (ts_duration st) = clip_end c)) \<and>
     (rt_q (ts_duration st) \<noteq> 0 \<longrightarrow> coprime (fst (ts_plans_per_minute st)) (snd (ts_plans_per_minute st)) \<and>
        of_int (fst (ts_plans_per_minute st)) / of_int (snd (ts_plans_per_minute st)) =
        rat_of_nat (ts_visible_shots st) * 60 / rt_q (ts_duration st)) \<and>
     (ts_visible_shots st \<noteq> 0 \<longrightarrow> coprime (fst (ts_cutaway_share st)) (snd (ts_cutaway_share st)) \<and>
        of_int (fst (ts_cutaway_share st)) / of_int (snd (ts_cutaway_share st)) =
        rat_of_nat (ts_cutaway_plans st) / rat_of_nat (ts_visible_shots st))"
proof -
  obtain dur bs segs plans share where scan: "loopR scan_track (doc_tracks d) (RT 0 1, []) = Inr (dur, bs)"
    and segs: "visible_segments d bs = Inr segs"
    and plans: "(if rt_value dur = 0 then Inr (0, 1) else CheckedRatio (int (length segs) * 60 * rt_rate dur) (rt_value dur)) = Inr plans"
    and share: "(if length segs = 0 then Inr (0, 1)
       else CheckedRatio (int (length (filter (\<lambda>s. vs_track_index s \<noteq> primary_video_track d) segs))) (int (length segs))) = Inr share"
    and st: "ts_duration st = dur" "ts_visible_shots st = length segs" "ts_plans_per_minute st = plans" "ts_cutaway_share st = share"
      "ts_visible_cuts st = length (filter (\<lambda>(a, b). time_same (vs_end a) (vs_start b)) (zip segs (tl segs)))"
      "ts_cutaway_plans st = length (filter (\<lambda>s. vs_track_index s \<noteq> primary_video_track d) segs)"
    using assms(1) by (auto simp: CalculateTimelineStats_def Let_def)
  note sc = scan_scanned [OF scan]
  obtain y where y: "segments_ok d segs y" and shown: "\<forall>x i. shown segs x i \<longleftrightarrow> (\<exists>t c. on_top d x t c \<and> clip_id c = i)"
    using segments_exact [OF segs sc assms(2)] by blast
  have ok: "\<forall>s\<in>set segs. segment_ok d s" using y by (simp add: segments_ok_def)
  have dur: "0 < rt_rate dur" using sc by (simp add: scanned_def)
  have "coprime (fst plans) (snd plans) \<and> of_int (fst plans) / of_int (snd plans) = rat_of_nat (length segs) * 60 / rt_q dur"
    if "rt_q dur \<noteq> 0"
    using CheckedRatio_exact [of "int (length segs) * 60 * rt_rate dur" "rt_value dur" "fst plans" "snd plans"] plans that dur
    by (auto simp: rt_q_def split: if_splits)
  moreover have "coprime (fst share) (snd share) \<and> of_int (fst share) / of_int (snd share) =
      rat_of_nat (length (filter (\<lambda>s. vs_track_index s \<noteq> primary_video_track d) segs)) / rat_of_nat (length segs)"
    if "length segs \<noteq> 0"
    using CheckedRatio_exact [of "int (length (filter (\<lambda>s. vs_track_index s \<noteq> primary_video_track d) segs))" "int (length segs)"
      "fst share" "snd share"] share that by (auto split: if_splits)
  moreover have "\<forall>t c. t \<in> set (doc_tracks d) \<and> c \<in> set (trk_clips t) \<longrightarrow> clip_end c \<le> rt_q dur"
    "rt_q dur = 0 \<or> (\<exists>t c. t \<in> set (doc_tracks d) \<and> c \<in> set (trk_clips t) \<and> rt_q dur = clip_end c)"
    using sc by (auto simp: scanned_def)
  ultimately show ?thesis unfolding st touching_count [OF ok]
    using shown ok y by (intro exI [of _ segs]) (auto simp: segment_ok_def segments_ok_def)
qed

lemma sample_stats: "case CalculateTimelineStats sample_doc of Inl _ \<Rightarrow> False
   | Inr st \<Rightarrow> ts_visible_shots st = 2 \<and> ts_visible_cuts st = 1 \<and> ts_plans_per_minute st = (20, 1) \<and> ts_cutaway_share st = (0, 1)"
  by code_simp

theorem timeline_stats_describe_the_picture_witness:
  "\<exists>st segs. CalculateTimelineStats sample_doc = Inr st \<and> ts_visible_shots st = 2 \<and> length segs = 2 \<and>
     shown segs 1 (u CHR ''1'') = (\<exists>t c. on_top sample_doc 1 t c \<and> clip_id c = u CHR ''1'')"
proof -
  obtain st where st: "CalculateTimelineStats sample_doc = Inr st" "ts_visible_shots st = 2"
    using sample_stats by (auto split: sum.splits)
  then obtain segs where "\<forall>x i. shown segs x i \<longleftrightarrow> (\<exists>t c. on_top sample_doc x t c \<and> clip_id c = i)" "length segs = 2"
    using timeline_stats_describe_the_picture [OF st(1) sample_doc_valid] by metis
  then show ?thesis using st by blast
qed

end
