(* ===== verification/Speech_Onset.thy ===== *)
theory Speech_Onset
  imports Timeline_Stats Project_Log_Text
begin

text \<open>
  The measuring part of \<open>src/SpeechOnset.cc\<close>: levels of windows of samples, voice groups, and where the
  voice starts in a clip.  The level in decibels goes through \<open>log10\<close> on \<open>long double\<close>; that
  rounded logarithm is the argument \<open>log_level\<close>.  Levels are at most the scale and settings are validated,
  so the 64-bit products stay far from overflow and are plain integers; the 128-bit sums are plain
  integers.  Exceptions of \<open>RationalTime\<close> leave the functions: they are \<open>Inl\<close>, as refusals are.
\<close>

section \<open>Data\<close>

definition kSpeechLevelScale :: int where
  "kSpeechLevelScale = 1000000"

record SpeechGroup =
  sg_start :: RationalTime
  sg_end :: RationalTime
  sg_level_dbfs :: int
  sg_peak_dbfs :: int

record SpeechOnsetReport =
  so_media_id :: string
  so_windows_per_second :: int
  so_decode_sample_rate :: int
  so_speech_level :: int
  so_noise_floor :: int
  so_group_gap_milliseconds :: int
  so_group_floor_db :: int
  so_groups :: "SpeechGroup list"
  so_levels :: "int list"

record SpeechOnsetThresholds =
  st_speech_ratio_percent :: int
  st_sustain_milliseconds :: int
  st_minimum_dynamic_range_percent :: int
  st_pre_roll_milliseconds :: int
  st_tolerance_milliseconds :: int
  st_group_gap_milliseconds :: int
  st_group_floor_db :: int
  st_dominant_percentile :: int
  st_dominance_db :: int
  st_dominant_sustain_windows :: int

definition default_thresholds :: SpeechOnsetThresholds where
  "default_thresholds = \<lparr>st_speech_ratio_percent = 25, st_sustain_milliseconds = 100, st_minimum_dynamic_range_percent = 400,
     st_pre_roll_milliseconds = 80, st_tolerance_milliseconds = 120, st_group_gap_milliseconds = 200, st_group_floor_db = 6,
     st_dominant_percentile = 90, st_dominance_db = 9, st_dominant_sustain_windows = 6\<rparr>"

record ClipSpeechOnset =
  co_clip_id :: Ulid
  co_source_id :: Ulid
  co_windows :: int
  co_speech_level :: int
  co_noise_floor :: int
  co_threshold :: int
  co_onset :: RationalTime
  co_lead_in :: RationalTime
  co_suggested_trim :: RationalTime
  co_groups :: "SpeechGroup list"
  co_dominant_onset :: RationalTime
  co_dominant_measured :: bool
  co_measured :: bool
  co_tight :: bool
  co_detail :: string

section \<open>Square roots and levels\<close>

text \<open>
  The loop of both integer square roots, by powers of four: \<open>bit\<close> is \<open>4 ^ k\<close>, and after the last
  bit it is zero.  \<open>root_bits\<close> is the first loop, which lowers the bit to the value.
\<close>

fun root_loop :: "nat \<Rightarrow> int \<Rightarrow> int \<Rightarrow> int" where
  "root_loop 0 v r =
     (if r + 1 \<le> v then r div 2 + 1 else r div 2)"
| "root_loop (Suc k) v r =
     (if r + 4 ^ Suc k \<le> v then root_loop k (v - (r + 4 ^ Suc k)) (r div 2 + 4 ^ Suc k)
      else root_loop k v (r div 2))"

fun root_bits :: "nat \<Rightarrow> int \<Rightarrow> nat option" where
  "root_bits 0 v = (if v < 1 then None else Some 0)"
| "root_bits (Suc k) v = (if v < 4 ^ Suc k then root_bits k v else Some (Suc k))"

definition square_root_from :: "nat \<Rightarrow> int \<Rightarrow> int" where
  "square_root_from k v = (case root_bits k v of None \<Rightarrow> 0 | Some b \<Rightarrow> root_loop b v 0)"

definition IntegerSquareRoot :: "int \<Rightarrow> int" where
  "IntegerSquareRoot v = square_root_from 63 v"

record RunningRmsLevel =
  rl_total :: int
  rl_count :: int

definition empty_level :: RunningRmsLevel where
  "empty_level = \<lparr>rl_total = 0, rl_count = 0\<rparr>"

definition RunningRmsLevel_Add :: "int list \<Rightarrow> RunningRmsLevel \<Rightarrow> RunningRmsLevel" where
  "RunningRmsLevel_Add samples l =
     \<lparr>rl_total = fold (\<lambda>s total. total + s * s) samples (rl_total l), rl_count = rl_count l + int (length samples)\<rparr>"

definition RunningRmsLevel_Level :: "RunningRmsLevel \<Rightarrow> int" where
  "RunningRmsLevel_Level l =
     (if rl_count l = 0 then 0
      else let scaled = square_root_from 15 (rl_total l div rl_count l) * kSpeechLevelScale div 32768 in
        if scaled > int64_max then int64_max else scaled)"

definition WindowRmsLevel :: "int list \<Rightarrow> int" where
  "WindowRmsLevel samples = RunningRmsLevel_Level (RunningRmsLevel_Add samples empty_level)"

definition SpeechLevelPercentile :: "int list \<Rightarrow> int \<Rightarrow> int" where
  "SpeechLevelPercentile values percent =
     (if values = [] then 0
      else let percent = (if percent < 0 then 0 else if percent > 100 then 100 else percent);
               rank = trunc_div (percent * int (length values) + 99) 100;
               rank = (if rank = 0 then 1 else rank);
               rank = (if rank > int (length values) then int (length values) else rank) in
        sort values ! nat (rank - 1))"

fun sustained_from :: "int list \<Rightarrow> int \<Rightarrow> int \<Rightarrow> int \<Rightarrow> int \<Rightarrow> int" where
  "sustained_from [] index threshold sustain run = - 1"
| "sustained_from (l # ls) index threshold sustain run =
     (if l \<ge> threshold
      then if run + 1 \<ge> sustain then index - (run + 1) + 1 else sustained_from ls (index + 1) threshold sustain (run + 1)
      else sustained_from ls (index + 1) threshold sustain 0)"

definition FirstSustainedWindow :: "int list \<Rightarrow> int \<Rightarrow> int \<Rightarrow> int \<Rightarrow> int" where
  "FirstSustainedWindow levels firstWindow threshold sustain =
     (let sustain = (if sustain < 1 then 1 else sustain); firstWindow = (if firstWindow < 0 then 0 else firstWindow) in
      sustained_from (drop (nat firstWindow) levels) firstWindow threshold sustain 0)"

definition SpeechLevelDbfs :: "(int \<Rightarrow> int) \<Rightarrow> int \<Rightarrow> int" where
  "SpeechLevelDbfs log_level level =
     (if level \<le> 0 then - 120 else if level \<ge> kSpeechLevelScale then 0 else max (- 120) (min 0 (log_level level)))"

section \<open>Groups\<close>

definition WindowsForMilliseconds :: "int \<Rightarrow> int \<Rightarrow> int" where
  "WindowsForMilliseconds milliseconds windowsPerSecond =
     (if windowsPerSecond = 0 then 1
      else let windows = trunc_div (milliseconds * windowsPerSecond + 999) 1000 in if windows > 0 then windows else 1)"

definition ValidateGroupThresholds :: "SpeechOnsetThresholds \<Rightarrow> string + unit" where
  "ValidateGroupThresholds t =
     (if st_speech_ratio_percent t < 1 \<or> st_speech_ratio_percent t > 100 then Inl ''speech_ratio_percent must be between 1 and 100''
      else if st_group_gap_milliseconds t < 20 \<or> st_group_gap_milliseconds t > 60000
      then Inl ''group_gap_milliseconds must be between 20 and 60000''
      else if st_group_floor_db t < 0 \<or> st_group_floor_db t > 120 then Inl ''group_floor_db must be between 0 and 120''
      else if st_dominant_percentile t < 1 \<or> st_dominant_percentile t > 100 then Inl ''dominant_percentile must be between 1 and 100''
      else if st_dominance_db t < 0 \<or> st_dominance_db t > 120 then Inl ''dominance_db must be between 0 and 120''
      else if st_dominant_sustain_windows t < 1 \<or> st_dominant_sustain_windows t > 100000
      then Inl ''dominant_sustain_windows must be between 1 and 100000''
      else Inr ())"

definition GroupForBounds :: "(int \<Rightarrow> int) \<Rightarrow> int list \<Rightarrow> int \<Rightarrow> int \<Rightarrow> int \<Rightarrow> SpeechGroup" where
  "GroupForBounds log_level levels first stop grid =
     (let inside = take (nat (stop - first)) (drop (nat first) levels);
          squares = fold (\<lambda>l s. s + max l 0 * max l 0) inside 0;
          peak = fold (\<lambda>l p. max p l) inside 0;
          rms = (if stop - first = 0 then 0 else IntegerSquareRoot (squares div (stop - first))) in
      \<lparr>sg_start = RT first grid, sg_end = RT stop grid, sg_level_dbfs = SpeechLevelDbfs log_level rms,
       sg_peak_dbfs = SpeechLevelDbfs log_level peak\<rparr>)"

text \<open>The bounds of the groups, in windows: \<open>start\<close> is negative before the first voiced window.\<close>

fun group_windows :: "(int \<Rightarrow> bool) \<Rightarrow> int \<Rightarrow> int list \<Rightarrow> int \<Rightarrow> int \<Rightarrow> int \<Rightarrow> (int \<times> int) list" where
  "group_windows voiced gap [] index start last_end = (if start \<ge> 0 then [(start, last_end)] else [])"
| "group_windows voiced gap (l # ls) index start last_end =
     (if \<not> voiced l then group_windows voiced gap ls (index + 1) start last_end
      else if start < 0 then group_windows voiced gap ls (index + 1) index (index + 1)
      else if index - last_end \<ge> gap then (start, last_end) # group_windows voiced gap ls (index + 1) index (index + 1)
      else group_windows voiced gap ls (index + 1) start (index + 1))"

definition BuildSpeechGroups ::
  "(int \<Rightarrow> int) \<Rightarrow> int list \<Rightarrow> int \<Rightarrow> int \<Rightarrow> int \<Rightarrow> SpeechOnsetThresholds \<Rightarrow> string + SpeechGroup list" where
  "BuildSpeechGroups log_level levels windowsPerSecond speechLevel noiseFloor t =
     (if windowsPerSecond = 0 \<or> windowsPerSecond > int32_max then Inl ''speech group analysis grid is invalid''
      else bindR (ValidateGroupThresholds t) (\<lambda>_.
        if speechLevel < 0 \<or> noiseFloor < 0 then Inl ''speech group levels cannot be negative''
        else if levels = [] \<or> speechLevel * 100 < noiseFloor * st_minimum_dynamic_range_percent t then Inr []
        else let floorDbfs = min 0 (SpeechLevelDbfs log_level noiseFloor + st_group_floor_db t);
                 gapWindows = WindowsForMilliseconds (st_group_gap_milliseconds t) windowsPerSecond in
          Inr (map (\<lambda>(a, b). GroupForBounds log_level levels a b windowsPerSecond)
            (group_windows (\<lambda>l. \<not> SpeechLevelDbfs log_level l < floorDbfs) gapWindows levels 0 (- 1) (- 1)))))"

section \<open>The summary of a clip\<close>

definition empty_summary :: "DocumentClip \<Rightarrow> int \<Rightarrow> MediaRate \<Rightarrow> ClipSpeechOnset" where
  "empty_summary c grid rate =
     \<lparr>co_clip_id = clip_id c, co_source_id = clip_source_id c, co_windows = 0, co_speech_level = 0, co_noise_floor = 0,
      co_threshold = 0, co_onset = RT 0 grid, co_lead_in = RT 0 grid, co_suggested_trim = RT 0 (mr_num rate), co_groups = [],
      co_dominant_onset = RT 0 1, co_dominant_measured = False, co_measured = False, co_tight = False, co_detail = []\<rparr>"

fun clipped_groups :: "(int \<Rightarrow> int) \<Rightarrow> int list \<Rightarrow> int \<Rightarrow> int \<Rightarrow> int \<Rightarrow> SpeechGroup list \<Rightarrow> string + SpeechGroup list" where
  "clipped_groups log_level levels grid first stop [] = Inr []"
| "clipped_groups log_level levels grid first stop (g # gs) =
     bindR (rt_rescale (sg_start g) grid) (\<lambda>a. bindR (rt_rescale (sg_end g) grid) (\<lambda>b.
       let groupFirst = max (rt_value a) first; groupLast = min (rt_value b) stop in
       bindR (clipped_groups log_level levels grid first stop gs) (\<lambda>rest.
         Inr (if groupLast \<le> groupFirst then rest else GroupForBounds log_level levels groupFirst groupLast grid # rest))))"

fun dominant_group :: "int \<Rightarrow> int \<Rightarrow> int \<Rightarrow> SpeechGroup list \<Rightarrow> string + RationalTime option" where
  "dominant_group grid sustain level [] = Inr None"
| "dominant_group grid sustain level (g # gs) =
     bindR (rt_rescale (sg_end g) grid) (\<lambda>b. bindR (rt_rescale (sg_start g) grid) (\<lambda>a.
       if rt_value b - rt_value a \<ge> sustain \<and> sg_level_dbfs g \<ge> level then Inr (Some (sg_start g))
       else dominant_group grid sustain level gs))"

definition measure_onset ::
  "SpeechOnsetReport \<Rightarrow> SpeechOnsetThresholds \<Rightarrow> MediaRate \<Rightarrow> int \<Rightarrow> int \<Rightarrow> int \<Rightarrow> ClipSpeechOnset \<Rightarrow> ClipSpeechOnset" where
  "measure_onset report t rate grid firstWindow lastWindow summary =
     (if co_speech_level summary * 100 < co_noise_floor summary * st_minimum_dynamic_range_percent t
      then summary\<lparr>co_detail := ''clip has too little dynamic range to separate voice from room''\<rparr>
      else
        let sustain = WindowsForMilliseconds (st_sustain_milliseconds t) (so_windows_per_second report);
            onsetWindow = FirstSustainedWindow (so_levels report) firstWindow (co_threshold summary) sustain in
        if onsetWindow < 0 \<or> onsetWindow \<ge> lastWindow
        then summary\<lparr>co_detail := ''no sustained voice inside the clip''\<rparr>
        else
          let preRollWindows = WindowsForMilliseconds (st_pre_roll_milliseconds t) (so_windows_per_second report);
              trimWindows = (onsetWindow - firstWindow) - preRollWindows;
              trimWindows = (if trimWindows < 0 then 0 else trimWindows);
              toleranceWindows = WindowsForMilliseconds (st_tolerance_milliseconds t) (so_windows_per_second report);
              tight = onsetWindow - firstWindow \<le> toleranceWindows;
              trimFrames = trunc_div (trimWindows * mr_num rate) (grid * mr_den rate) in
          summary\<lparr>co_measured := True, co_onset := RT onsetWindow grid, co_lead_in := RT (onsetWindow - firstWindow) grid,
                  co_tight := tight, co_suggested_trim := RT (if tight then 0 else trimFrames) (mr_num rate)\<rparr>)"

definition summarize_windows ::
  "(int \<Rightarrow> int) \<Rightarrow> SpeechOnsetReport \<Rightarrow> SpeechOnsetThresholds \<Rightarrow> MediaRate \<Rightarrow> int \<Rightarrow> int \<Rightarrow> int \<Rightarrow> ClipSpeechOnset \<Rightarrow> string + ClipSpeechOnset" where
  "summarize_windows log_level report t rate grid firstWindow lastWindow summary =
     (let inside = take (nat (lastWindow - firstWindow)) (drop (nat firstWindow) (so_levels report));
          speechLevel = SpeechLevelPercentile inside 90;
          summary = summary\<lparr>co_windows := lastWindow - firstWindow, co_speech_level := speechLevel,
            co_noise_floor := so_noise_floor report, co_threshold := trunc_div (speechLevel * st_speech_ratio_percent t) 100\<rparr> in
      bindR (if so_groups report = [] \<or> so_group_gap_milliseconds report \<noteq> st_group_gap_milliseconds t \<or>
                so_group_floor_db report \<noteq> st_group_floor_db t
             then BuildSpeechGroups log_level (so_levels report) (so_windows_per_second report) (so_speech_level report)
                    (so_noise_floor report) t
             else Inr (so_groups report)) (\<lambda>sourceGroups.
      bindR (clipped_groups log_level (so_levels report) grid firstWindow lastWindow sourceGroups) (\<lambda>groups.
        let reference = SpeechLevelDbfs log_level (SpeechLevelPercentile inside (st_dominant_percentile t)) in
      bindR (dominant_group grid (st_dominant_sustain_windows t) (reference - st_dominance_db t) groups) (\<lambda>dominant.
        Inr (measure_onset report t rate grid firstWindow lastWindow (summary\<lparr>co_groups := groups,
          co_dominant_onset := (case dominant of None \<Rightarrow> RT 0 1 | Some d \<Rightarrow> d), co_dominant_measured := (dominant \<noteq> None)\<rparr>))))))"

text \<open>The bounds of the clip, clamped to the windows the report holds.\<close>

definition summarize_bounds ::
  "(int \<Rightarrow> int) \<Rightarrow> SpeechOnsetReport \<Rightarrow> SpeechOnsetThresholds \<Rightarrow> MediaRate \<Rightarrow> int \<Rightarrow> int \<Rightarrow> int \<Rightarrow> ClipSpeechOnset \<Rightarrow> string + ClipSpeechOnset" where
  "summarize_bounds log_level report t rate grid firstWindow lastWindow summary =
     (let firstWindow = (if firstWindow < 0 then 0 else firstWindow);
          lastWindow = (if lastWindow > int (length (so_levels report)) then int (length (so_levels report)) else lastWindow) in
      if lastWindow \<le> firstWindow then Inr (summary\<lparr>co_detail := ''clip holds no analysis window''\<rparr>)
      else summarize_windows log_level report t rate grid firstWindow lastWindow summary)"

definition SummarizeClipSpeechOnset ::
  "(int \<Rightarrow> int) \<Rightarrow> DocumentClip \<Rightarrow> SpeechOnsetReport \<Rightarrow> SpeechOnsetThresholds \<Rightarrow> MediaRate \<Rightarrow> string + ClipSpeechOnset" where
  "SummarizeClipSpeechOnset log_level c report t rate =
     (if clip_source_id c \<noteq> so_media_id report then Inl ''speech onset report belongs to another source''
      else if so_windows_per_second report = 0 then Inl ''speech onset report has no analysis grid''
      else if mr_num rate \<le> 0 \<or> mr_den rate \<le> 0 then Inl ''sequence frame rate is invalid''
      else bindR (ValidateGroupThresholds t) (\<lambda>_.
        let grid = wrap32 (so_windows_per_second report) in
        bindR (rt_rescale (clip_source_in c) grid) (\<lambda>inPoint.
        bindR (bindR (rt_add (clip_source_in c) (clip_duration c)) (\<lambda>e. rt_rescale e grid)) (\<lambda>outPoint.
          summarize_bounds log_level report t rate grid (rt_value inPoint) (rt_value outPoint) (empty_summary c grid rate)))))"

section \<open>The square root is exact\<close>

lemma root_loop_exact:
  assumes "r = a * 2 ^ Suc k" "v + a * a < (a + 2 ^ Suc k) * (a + 2 ^ Suc k)" "0 \<le> a" "0 \<le> v"
  shows "0 \<le> root_loop k v r \<and> root_loop k v r * root_loop k v r \<le> v + a * a \<and>
     v + a * a < (root_loop k v r + 1) * (root_loop k v r + 1)"
  using assms
proof (induction k v r arbitrary: a rule: root_loop.induct)
  case (1 v r)
  have d: "r div 2 = a" using 1(1) by simp
  show ?case
  proof (cases "r + 1 \<le> v")
    case True
    then have "(a + 1) * (a + 1) \<le> v + a * a" "v + a * a < (a + 1 + 1) * (a + 1 + 1)" using 1 by (simp_all add: algebra_simps)
    then show ?thesis using True d 1(3) by simp
  next
    case False
    then have "v + a * a < (a + 1) * (a + 1)" using 1 by (simp add: algebra_simps)
    then show ?thesis using False d 1(3,4) by simp
  qed
next
  case (2 k v r)
  let ?b = "2 ^ Suc k :: int"
  have b: "(4 :: int) ^ Suc k = ?b * ?b" by (simp add: power_mult_distrib [symmetric])
  have r: "r = 2 * (a * ?b)" "r div 2 = a * ?b" using 2(3) by simp_all
  show ?case
  proof (cases "r + 4 ^ Suc k \<le> v")
    case True
    let ?v = "v - (r + 4 ^ Suc k)"
    have sum: "?v + (a + ?b) * (a + ?b) = v + a * a" unfolding r b by (simp add: algebra_simps)
    have twice: "a + ?b + ?b = a + 2 ^ Suc (Suc k)" by simp
    have "r div 2 + 4 ^ Suc k = (a + ?b) * 2 ^ Suc k" unfolding r b by (simp add: algebra_simps)
    moreover have "?v + (a + ?b) * (a + ?b) < ((a + ?b) + ?b) * ((a + ?b) + ?b)" using 2(4) unfolding sum twice .
    moreover have "0 \<le> a + ?b" "0 \<le> ?v" using 2(5) True by simp_all
    moreover have "root_loop (Suc k) v r = root_loop k ?v (r div 2 + 4 ^ Suc k)" using True by simp
    ultimately show ?thesis using 2(1) [OF True, of "a + ?b"] unfolding sum by (metis (no_types))
  next
    case False
    have "v + a * a < (a + ?b) * (a + ?b)" using False unfolding r b by (simp add: algebra_simps)
    moreover have "root_loop (Suc k) v r = root_loop k v (a * ?b)" using False r(2) by simp
    ultimately show ?thesis using 2(2) [OF False, of a] 2(5,6) unfolding r(2) by (metis (no_types))
  qed
qed

lemma root_bits_Some: "root_bits k v = Some b \<Longrightarrow> v < 4 ^ Suc k \<Longrightarrow> v < 4 ^ Suc b"
  by (induction k) (auto split: if_splits)

lemma root_bits_None: "root_bits k v = None \<Longrightarrow> v < 1"
  by (induction k) (auto split: if_splits)

lemma square_root_exact:
  assumes "0 \<le> v" "v < 4 ^ Suc k"
  shows "0 \<le> square_root_from k v \<and> square_root_from k v * square_root_from k v \<le> v \<and>
     v < (square_root_from k v + 1) * (square_root_from k v + 1)"
proof (cases "root_bits k v")
  case None
  then show ?thesis using root_bits_None [OF None] assms(1) by (simp add: square_root_from_def)
next
  case (Some b)
  have "v < 2 ^ Suc b * 2 ^ Suc b" using root_bits_Some [OF Some assms(2)] by (simp add: power_mult_distrib [symmetric])
  then show ?thesis using root_loop_exact [of 0 0 b v] Some assms(1) by (simp add: square_root_from_def)
qed

lemma add_total: "rl_total (RunningRmsLevel_Add xs l) = rl_total l + (\<Sum>s\<leftarrow>xs. s * s)"
proof -
  have "fold (\<lambda>s total. total + s * s) xs n = n + (\<Sum>s\<leftarrow>xs. s * s)" for n by (induction xs arbitrary: n) auto
  then show ?thesis by (simp add: RunningRmsLevel_Add_def)
qed

lemma add_count: "rl_count (RunningRmsLevel_Add xs l) = rl_count l + int (length xs)"
  by (simp add: RunningRmsLevel_Add_def)

lemma add_append: "RunningRmsLevel_Add (xs @ ys) l = RunningRmsLevel_Add ys (RunningRmsLevel_Add xs l)"
  by (simp add: RunningRmsLevel_Add_def)

lemma mean_square_bound:
  assumes "\<forall>s\<in>set xs. - 32768 \<le> s \<and> s \<le> (32767 :: int)"
  shows "0 \<le> (\<Sum>s\<leftarrow>xs. s * s) \<and> (\<Sum>s\<leftarrow>xs. s * s) \<le> 2 ^ 30 * int (length xs)"
proof -
  have "s * s \<le> 2 ^ 30" if "s \<in> set xs" for s
  proof -
    have "\<bar>s\<bar> \<le> 32768" using assms that by auto
    then have "\<bar>s\<bar> * \<bar>s\<bar> \<le> 32768 * 32768" by (intro mult_mono) auto
    then show ?thesis by simp
  qed
  then show ?thesis by (induction xs) (auto simp: algebra_simps add_mono add_nonneg_nonneg)
qed

text \<open>
  Property C19: the integer square root is the floor of the root for every 128-bit value, and
  the level of a window is the floor of the root of the mean square, as a fraction of full scale times the
  scale: it lies between zero and the scale, and feeding the samples block by block gives the
  level of all of them at once.
\<close>

theorem levels_are_exact_roots:
  "(0 \<le> v \<and> v < 2 ^ 128 \<longrightarrow> 0 \<le> IntegerSquareRoot v \<and> IntegerSquareRoot v * IntegerSquareRoot v \<le> v \<and>
      v < (IntegerSquareRoot v + 1) * (IntegerSquareRoot v + 1)) \<and>
   RunningRmsLevel_Level (fold RunningRmsLevel_Add blocks empty_level) = WindowRmsLevel (concat blocks) \<and>
   ((\<forall>s\<in>set samples. - 32768 \<le> s \<and> s \<le> 32767) \<longrightarrow> samples \<noteq> [] \<longrightarrow>
      0 \<le> WindowRmsLevel samples \<and> WindowRmsLevel samples \<le> kSpeechLevelScale \<and>
      (\<exists>r\<ge>0. r * r \<le> (\<Sum>s\<leftarrow>samples. s * s) div int (length samples) \<and>
         (\<Sum>s\<leftarrow>samples. s * s) div int (length samples) < (r + 1) * (r + 1) \<and>
         WindowRmsLevel samples = r * kSpeechLevelScale div 32768))"
proof (intro conjI impI)
  assume v: "0 \<le> v \<and> v < 2 ^ 128"
  then have "0 \<le> v" "v < 4 ^ Suc 63" by simp_all
  note exact = square_root_exact [OF this]
  show "0 \<le> IntegerSquareRoot v" "IntegerSquareRoot v * IntegerSquareRoot v \<le> v" "v < (IntegerSquareRoot v + 1) * (IntegerSquareRoot v + 1)"
    using exact by (simp_all add: IntegerSquareRoot_def)
next
  have "fold RunningRmsLevel_Add blocks l = RunningRmsLevel_Add (concat blocks) l" for l
    by (induction blocks arbitrary: l) (simp_all add: add_append, simp add: RunningRmsLevel_Add_def)
  then show "RunningRmsLevel_Level (fold RunningRmsLevel_Add blocks empty_level) = WindowRmsLevel (concat blocks)"
    by (simp add: WindowRmsLevel_def)
next
  assume samples: "\<forall>s\<in>set samples. - 32768 \<le> s \<and> s \<le> 32767" "samples \<noteq> []"
  let ?m = "(\<Sum>s\<leftarrow>samples. s * s) div int (length samples)"
  let ?r = "square_root_from 15 ?m"
  have n: "0 < int (length samples)" using samples(2) by simp
  have m0: "0 \<le> ?m" using mean_square_bound [OF samples(1)] n by (simp add: pos_imp_zdiv_nonneg_iff)
  have "?m \<le> 2 ^ 30 * int (length samples) div int (length samples)"
    using mean_square_bound [OF samples(1)] n by (intro zdiv_mono1) auto
  then have m: "?m \<le> 2 ^ 30" using n by simp
  then have r: "0 \<le> ?r" "?r * ?r \<le> ?m" "?m < (?r + 1) * (?r + 1)" using square_root_exact [of ?m 15] m0 by auto
  have rr: "?r * ?r \<le> 32768 * 32768" using r(2) m by simp
  have le: "?r \<le> 32768"
  proof (rule ccontr)
    assume "\<not> ?r \<le> 32768"
    then have "32769 * 32769 \<le> ?r * ?r" by (intro mult_mono) auto
    then show False using rr by simp
  qed
  have lev: "WindowRmsLevel samples = ?r * kSpeechLevelScale div 32768"
  proof -
    have "?r * kSpeechLevelScale div 32768 \<le> 32768 * kSpeechLevelScale div 32768"
      using le by (intro zdiv_mono1) (auto simp: kSpeechLevelScale_def)
    then show ?thesis using samples(2)
      by (simp add: WindowRmsLevel_def RunningRmsLevel_Level_def add_total add_count empty_level_def kSpeechLevelScale_def
        int64_max_def Let_def)
  qed
  show "0 \<le> WindowRmsLevel samples" "WindowRmsLevel samples \<le> kSpeechLevelScale" using le r(1) unfolding lev by (simp_all add: kSpeechLevelScale_def)
  show "\<exists>r\<ge>0. r * r \<le> ?m \<and> ?m < (r + 1) * (r + 1) \<and> WindowRmsLevel samples = r * kSpeechLevelScale div 32768"
    using r lev by blast
qed

theorem levels_are_exact_roots_witness:
  "IntegerSquareRoot 99 * IntegerSquareRoot 99 \<le> 99 \<and> 99 < (IntegerSquareRoot 99 + 1) * (IntegerSquareRoot 99 + 1) \<and>
   0 \<le> WindowRmsLevel [- 3, 4] \<and> WindowRmsLevel [- 3, 4] \<le> kSpeechLevelScale"
  using levels_are_exact_roots [of 99 "[]" "[- 3, 4]"] by simp

section \<open>Where the voice starts\<close>

definition voiced_run :: "int list \<Rightarrow> int \<Rightarrow> int \<Rightarrow> int \<Rightarrow> bool" where
  "voiced_run levels threshold n j \<longleftrightarrow> 0 \<le> j \<and> j + n \<le> int (length levels) \<and> (\<forall>k. j \<le> k \<and> k < j + n \<longrightarrow> threshold \<le> levels ! nat k)"

lemma voiced_run_at:
  "voiced_run (pre @ ls) threshold n j \<Longrightarrow> j \<le> int k \<Longrightarrow> int k < j + n \<Longrightarrow> threshold \<le> (pre @ ls) ! k"
  by (auto simp: voiced_run_def)

lemma sustained_from_first:
  assumes "0 \<le> first" "first \<le> int (length pre) - run" "0 \<le> run" "run < sustain"
    and "\<forall>k. int (length pre) - run \<le> int k \<and> k < length pre \<longrightarrow> threshold \<le> pre ! k"
    and "\<forall>j. first \<le> j \<and> j < int (length pre) - run \<longrightarrow> \<not> voiced_run (pre @ ls) threshold sustain j"
    and "sustained_from ls (int (length pre)) threshold sustain run = r"
  shows "(r = - 1 \<and> (\<forall>j\<ge>first. \<not> voiced_run (pre @ ls) threshold sustain j)) \<or>
     (first \<le> r \<and> voiced_run (pre @ ls) threshold sustain r \<and> (\<forall>j. first \<le> j \<and> j < r \<longrightarrow> \<not> voiced_run (pre @ ls) threshold sustain j))"
  using assms
proof (induction ls arbitrary: pre run)
  case Nil
  have "\<not> voiced_run (pre @ []) threshold sustain j" if "first \<le> j" for j
  proof (cases "j < int (length pre) - run")
    case False
    then have "int (length pre) < j + sustain" using Nil.prems(4) by linarith
    then show ?thesis by (simp add: voiced_run_def)
  qed (use Nil.prems(6) that in blast)
  then show ?case using Nil.prems(7) by simp
next
  case (Cons l ls)
  have eq: "pre @ l # ls = (pre @ [l]) @ ls" by simp
  have here: "(pre @ l # ls) ! length pre = l" by simp
  consider "threshold \<le> l" "sustain \<le> run + 1" | "threshold \<le> l" "run + 1 < sustain" | "l < threshold" by linarith
  then show ?case
  proof cases
    case 1
    then have r: "r = int (length pre) - run" "sustain = run + 1" using Cons.prems(4,7) by auto
    have "voiced_run (pre @ l # ls) threshold sustain r"
    proof -
      have "threshold \<le> (pre @ l # ls) ! nat k" if "r \<le> k" "k < r + sustain" for k
      proof (cases "nat k < length pre")
        case True
        then show ?thesis using Cons.prems(5) that r Cons.prems(1-3) by (auto simp: nth_append)
      next
        case False
        then have "nat k = length pre" using that r Cons.prems(1-3) by linarith
        then show ?thesis using 1 by simp
      qed
      then show ?thesis using r Cons.prems(1-3) by (auto simp: voiced_run_def)
    qed
    then show ?thesis using r Cons.prems(2,6) by auto
  next
    case 2
    have "\<forall>k. int (length (pre @ [l])) - (run + 1) \<le> int k \<and> k < length (pre @ [l]) \<longrightarrow> threshold \<le> (pre @ [l]) ! k"
      using Cons.prems(5) 2(1) by (auto simp: nth_append less_Suc_eq)
    moreover have "sustained_from ls (int (length (pre @ [l]))) threshold sustain (run + 1) = r"
      using Cons.prems(7) 2 by (simp add: add.commute)
    ultimately show ?thesis
      using Cons.IH [of "pre @ [l]" "run + 1"] Cons.prems(1-4,6) 2 unfolding eq by simp
  next
    case 3
    have no: "\<not> voiced_run (pre @ l # ls) threshold sustain j" if "first \<le> j" "j < int (length (pre @ [l]))" for j
    proof (cases "j < int (length pre) - run")
      case True
      then show ?thesis using Cons.prems(6) that by blast
    next
      case False
      show ?thesis
      proof
        assume "voiced_run (pre @ l # ls) threshold sustain j"
        then have "threshold \<le> (pre @ l # ls) ! length pre"
          by (rule voiced_run_at) (use that False Cons.prems(3,4) in auto)
        then show False using 3 here by simp
      qed
    qed
    have "sustained_from ls (int (length (pre @ [l]))) threshold sustain 0 = r" using Cons.prems(7) 3 by (simp add: add.commute)
    then show ?thesis
      using Cons.IH [of "pre @ [l]" 0] Cons.prems(1-4) no unfolding eq by simp
  qed
qed

lemma FirstSustainedWindow_first:
  assumes "FirstSustainedWindow levels firstWindow threshold sustain = r" "0 \<le> firstWindow" "1 \<le> sustain" "firstWindow \<le> int (length levels)"
  shows "(r = - 1 \<and> (\<forall>j\<ge>firstWindow. \<not> voiced_run levels threshold sustain j)) \<or>
     (firstWindow \<le> r \<and> voiced_run levels threshold sustain r \<and> (\<forall>j. firstWindow \<le> j \<and> j < r \<longrightarrow> \<not> voiced_run levels threshold sustain j))"
proof -
  let ?pre = "take (nat firstWindow) levels"
  have len: "int (length ?pre) = firstWindow" using assms(2,4) by simp
  have "\<forall>k. int (length ?pre) - 0 \<le> int k \<and> k < length ?pre \<longrightarrow> threshold \<le> ?pre ! k" by auto
  moreover have "\<forall>j. firstWindow \<le> j \<and> j < int (length ?pre) - 0 \<longrightarrow> \<not> voiced_run (?pre @ drop (nat firstWindow) levels) threshold sustain j"
    unfolding len by auto
  moreover have "sustained_from (drop (nat firstWindow) levels) (int (length ?pre)) threshold sustain 0 = r"
    unfolding len using assms(1-3) by (simp add: FirstSustainedWindow_def Let_def)
  ultimately show ?thesis
    using sustained_from_first [of firstWindow ?pre 0 sustain threshold "drop (nat firstWindow) levels" r] len assms(2,3)
    by (simp only: append_take_drop_id)
qed

lemma WindowsForMilliseconds_pos: "1 \<le> WindowsForMilliseconds ms wps"
  by (auto simp: WindowsForMilliseconds_def Let_def)

lemma wrap32_grid: "0 < w \<Longrightarrow> w \<le> int32_max \<Longrightarrow> wrap32 w = w"
  by (rule wrap32_id) (simp add: in_int32_def int32_min_def)

lemma summarized_points:
  assumes "SummarizeClipSpeechOnset log_level c report t rate = Inr s"
    and "0 < so_windows_per_second report" and "so_windows_per_second report \<le> int32_max"
  obtains inPoint stop where "rt_rescale (clip_source_in c) (so_windows_per_second report) = Inr inPoint"
    and "summarize_bounds log_level report t rate (so_windows_per_second report) (rt_value inPoint) stop
      (empty_summary c (so_windows_per_second report) rate) = Inr s"
    and "0 < mr_num rate" and "0 < mr_den rate"
proof -
  let ?g = "so_windows_per_second report"
  have r: "0 < mr_num rate" "0 < mr_den rate"
    using assms(1) by (simp_all add: SummarizeClipSpeechOnset_def split: if_split_asm)
  have "bindR (ValidateGroupThresholds t) (\<lambda>_. bindR (rt_rescale (clip_source_in c) ?g) (\<lambda>inPoint.
     bindR (bindR (rt_add (clip_source_in c) (clip_duration c)) (\<lambda>e. rt_rescale e ?g)) (\<lambda>outPoint.
       summarize_bounds log_level report t rate ?g (rt_value inPoint) (rt_value outPoint) (empty_summary c ?g rate)))) = Inr s"
    using assms(1) unfolding SummarizeClipSpeechOnset_def Let_def wrap32_grid [OF assms(2,3)]
    by (simp only: split: if_split_asm) simp_all
  then show thesis using r that by blast
qed

lemma summarized_windows:
  assumes "summarize_windows log_level report t rate grid first stop summary = Inr s" "\<not> co_measured summary"
  shows "\<exists>s0. s = measure_onset report t rate grid first stop s0 \<and> \<not> co_measured s0"
  using assms by (force simp: summarize_windows_def Let_def)

lemma measure_onset_measured:
  assumes "s = measure_onset report t rate grid first stop s0" "co_measured s" "\<not> co_measured s0"
  obtains w where "w = FirstSustainedWindow (so_levels report) first (co_threshold s)
      (WindowsForMilliseconds (st_sustain_milliseconds t) (so_windows_per_second report))"
    "0 \<le> w" "w < stop" "co_onset s = RT w grid" "co_lead_in s = RT (w - first) grid"
    "co_tight s \<longleftrightarrow> w - first \<le> WindowsForMilliseconds (st_tolerance_milliseconds t) (so_windows_per_second report)"
    "co_suggested_trim s = RT (if co_tight s then 0 else trunc_div (max 0 (w - first -
        WindowsForMilliseconds (st_pre_roll_milliseconds t) (so_windows_per_second report)) * mr_num rate) (grid * mr_den rate)) (mr_num rate)"
proof -
  let ?w = "FirstSustainedWindow (so_levels report) first (co_threshold s0)
      (WindowsForMilliseconds (st_sustain_milliseconds t) (so_windows_per_second report))"
  have c: "\<not> co_speech_level s0 * 100 < co_noise_floor s0 * st_minimum_dynamic_range_percent t" "\<not> (?w < 0 \<or> ?w \<ge> stop)"
    using assms by (auto simp: measure_onset_def Let_def split: if_splits)
  have th: "co_threshold s = co_threshold s0" unfolding assms(1) using c by (simp add: measure_onset_def Let_def)
  show thesis
    by (rule that [of ?w]) (unfold th assms(1), use c in \<open>simp_all add: measure_onset_def Let_def max_def\<close>)
qed

lemma trim_bound:
  assumes "0 \<le> n" "0 < grid" "0 < num" "0 < den"
  shows "0 \<le> rt_q (RT (trunc_div (n * num) (grid * den)) num)"
    "rt_q (RT (trunc_div (n * num) (grid * den)) num) * of_int grid \<le> of_int n"
    "den = 1 \<Longrightarrow> of_int n < (rt_q (RT (trunc_div (n * num) (grid * den)) num) + 1 / of_int num) * of_int grid"
proof -
  have p: "0 \<le> n * num" "0 < grid * den" using assms by simp_all
  have t: "trunc_div (n * num) (grid * den) = n * num div (grid * den)" using p by (simp add: trunc_div_nonneg)
  let ?q = "n * num div (grid * den)"
  have split: "n * num = ?q * (grid * den) + n * num mod (grid * den)" by (rule div_mult_mod_eq [symmetric])
  have m: "0 \<le> n * num mod (grid * den)" "n * num mod (grid * den) < grid * den" using p by simp_all
  have q: "0 \<le> ?q" "?q * (grid * den) \<le> n * num" "n * num < ?q * (grid * den) + grid * den"
    using p split m by (simp add: pos_imp_zdiv_nonneg_iff, linarith, linarith)
  have q0: "0 \<le> ?q * grid" using q(1) assms(2) by simp
  have "?q * grid * 1 \<le> ?q * grid * den" by (rule mult_left_mono) (use assms(4) q0 in auto)
  then have le: "?q * grid \<le> n * num" using q(2) by (simp add: mult.assoc)
  have num: "(0 :: rat) < of_int num" using assms(3) by simp
  show "0 \<le> rt_q (RT (trunc_div (n * num) (grid * den)) num)" using q(1) assms(3) unfolding t by (simp add: rt_q_def)
  have "of_int (?q * grid) \<le> (of_int (n * num) :: rat)" using le by (simp only: of_int_le_iff)
  then show "rt_q (RT (trunc_div (n * num) (grid * den)) num) * of_int grid \<le> of_int n"
    using num unfolding t by (simp add: rt_q_def field_simps)
  assume "den = 1"
  then have int: "n * num < ?q * grid + grid" using q(3) by simp
  have "of_int (n * num) < (of_int (?q * grid + grid) :: rat)" using int by (simp only: of_int_less_iff)
  then show "of_int n < (rt_q (RT (trunc_div (n * num) (grid * den)) num) + 1 / of_int num) * of_int grid"
    using num unfolding t by (simp add: rt_q_def field_simps)
qed

text \<open>
  Property C17: a measured onset is where the voice starts, and the suggested trim never reaches it.  The onset is
  the first window of the clip from which the level stays at the threshold for the sustain; the
  lead-in is the time from the first window of the clip to it; the clip is tight exactly when the lead-in is within the
  tolerance, and then nothing is trimmed; otherwise the trim plus the pre-roll is at most the
  lead-in whenever there is anything to trim, and at a whole frame rate it is within one frame of it.
\<close>

theorem suggested_trim_spares_the_voice:
  assumes "SummarizeClipSpeechOnset log_level c report t rate = Inr s" and "co_measured s"
    and "0 < so_windows_per_second report" and "so_windows_per_second report \<le> int32_max"
  shows "\<exists>first w. of_int first = max 0 (rt_q (clip_source_in c) * of_int (so_windows_per_second report)) \<and> first \<le> w \<and>
     co_onset s = RT w (so_windows_per_second report) \<and> co_lead_in s = RT (w - first) (so_windows_per_second report) \<and>
     voiced_run (so_levels report) (co_threshold s)
       (WindowsForMilliseconds (st_sustain_milliseconds t) (so_windows_per_second report)) w \<and>
     (\<forall>j. first \<le> j \<and> j < w \<longrightarrow> \<not> voiced_run (so_levels report) (co_threshold s)
       (WindowsForMilliseconds (st_sustain_milliseconds t) (so_windows_per_second report)) j) \<and>
     (co_tight s \<longleftrightarrow> w - first \<le> WindowsForMilliseconds (st_tolerance_milliseconds t) (so_windows_per_second report)) \<and>
     (co_tight s \<longrightarrow> rt_q (co_suggested_trim s) = 0) \<and> 0 \<le> rt_q (co_suggested_trim s) \<and>
     (\<not> co_tight s \<longrightarrow> (let spare = max 0 (w - first - WindowsForMilliseconds (st_pre_roll_milliseconds t) (so_windows_per_second report)) in
        rt_q (co_suggested_trim s) * of_int (so_windows_per_second report) \<le> of_int spare \<and>
        (mr_den rate = 1 \<longrightarrow>
           of_int spare < (rt_q (co_suggested_trim s) + 1 / of_int (mr_num rate)) * of_int (so_windows_per_second report))))"
proof -
  let ?g = "so_windows_per_second report" and ?n = "int (length (so_levels report))"
  obtain inPoint outWindow where inp: "rt_rescale (clip_source_in c) ?g = Inr inPoint"
    and main: "summarize_bounds log_level report t rate ?g (rt_value inPoint) outWindow (empty_summary c ?g rate) = Inr s"
    and rate: "0 < mr_num rate" "0 < mr_den rate"
    by (rule summarized_points [OF assms(1,3,4)])
  obtain first where first: "first = (if rt_value inPoint < 0 then 0 else rt_value inPoint)" by blast
  obtain stop where stop: "stop = (if outWindow > ?n then ?n else outWindow)" by blast
  have some: "s = (empty_summary c ?g rate)\<lparr>co_detail := ''clip holds no analysis window''\<rparr>" if "stop \<le> first"
    using main that by (simp add: summarize_bounds_def Let_def first stop)
  have rest: "summarize_windows log_level report t rate ?g first stop (empty_summary c ?g rate) = Inr s" if "first < stop"
    using main that by (simp add: summarize_bounds_def Let_def first stop)
  have less: "first < stop"
  proof (rule ccontr)
    assume "\<not> first < stop"
    then show False using some assms(2) by (simp add: empty_summary_def)
  qed
  have no: "\<not> co_measured (empty_summary c ?g rate)" by (simp add: empty_summary_def)
  obtain s0 where s0: "s = measure_onset report t rate ?g first stop s0" "\<not> co_measured s0"
    using summarized_windows [OF rest [OF less] no] by blast
  obtain w where w: "w = FirstSustainedWindow (so_levels report) first (co_threshold s) (WindowsForMilliseconds (st_sustain_milliseconds t) ?g)"
    "0 \<le> w" "w < stop" "co_onset s = RT w ?g" "co_lead_in s = RT (w - first) ?g"
    "co_tight s \<longleftrightarrow> w - first \<le> WindowsForMilliseconds (st_tolerance_milliseconds t) ?g"
    "co_suggested_trim s = RT (if co_tight s then 0 else trunc_div (max 0 (w - first -
        WindowsForMilliseconds (st_pre_roll_milliseconds t) ?g) * mr_num rate) (?g * mr_den rate)) (mr_num rate)"
    by (rule measure_onset_measured [OF s0(1) assms(2) s0(2)])
  have f: "0 \<le> first" "first \<le> ?n" using first stop less by (auto split: if_splits)
  have run: "first \<le> w" "voiced_run (so_levels report) (co_threshold s) (WindowsForMilliseconds (st_sustain_milliseconds t) ?g) w"
    "\<forall>j. first \<le> j \<and> j < w \<longrightarrow> \<not> voiced_run (so_levels report) (co_threshold s) (WindowsForMilliseconds (st_sustain_milliseconds t) ?g) j"
    using FirstSustainedWindow_first [OF w(1) [symmetric] f(1) WindowsForMilliseconds_pos f(2)] w(2) by auto
  have "rt_q inPoint = rt_q (clip_source_in c)" "rt_rate inPoint = ?g" using inp by (simp_all add: rt_rescale_Inr_iff)
  then have "of_int (rt_value inPoint) = rt_q (clip_source_in c) * of_int ?g"
    using assms(3) by (simp add: rt_q_def [of inPoint] field_simps)
  then have start: "of_int first = max 0 (rt_q (clip_source_in c) * of_int ?g)"
    unfolding first by (auto simp: max_def simp flip: of_int_0_le_iff of_int_less_0_iff)
  let ?spare = "max 0 (w - first - WindowsForMilliseconds (st_pre_roll_milliseconds t) ?g)"
  note b = trim_bound [of ?spare ?g "mr_num rate" "mr_den rate", OF _ assms(3) rate]
  have trim: "0 \<le> rt_q (co_suggested_trim s)" "co_tight s \<longrightarrow> rt_q (co_suggested_trim s) = 0"
    using b(1) w(7) by (simp_all add: rt_q_def split: if_splits)
  have spare: "\<not> co_tight s \<longrightarrow> (let spare = ?spare in rt_q (co_suggested_trim s) * of_int ?g \<le> of_int spare \<and>
     (mr_den rate = 1 \<longrightarrow> of_int spare < (rt_q (co_suggested_trim s) + 1 / of_int (mr_num rate)) * of_int ?g))"
    using b(2,3) w(7) by (simp add: Let_def)
  show ?thesis
    by (intro exI [of _ first] exI [of _ w] conjI start run w(4-6) trim spare)
qed

text \<open>A clip of one second at 25 frames a second: ten quiet windows, then a voice.\<close>

definition late_voice :: SpeechOnsetReport where
  "late_voice = \<lparr>so_media_id = u CHR ''0'', so_windows_per_second = 50, so_decode_sample_rate = 16000, so_speech_level = 90000,
     so_noise_floor = 100, so_group_gap_milliseconds = 200, so_group_floor_db = 6, so_groups = [],
     so_levels = replicate 10 100 @ replicate 30 90000\<rparr>"

definition sample_log :: "int \<Rightarrow> int" where
  "sample_log level = (if level < 1000 then - 80 else - 21)"

lemma late_voice_summary:
  "case SummarizeClipSpeechOnset sample_log (sample_clip CHR ''1'' 0 25 0) late_voice default_thresholds \<lparr>mr_num = 25, mr_den = 1\<rparr> of
     Inr s \<Rightarrow> co_measured s \<and> \<not> co_tight s \<and> co_onset s = RT 10 50 \<and> co_suggested_trim s = RT 3 25 \<and> co_threshold s = 22500
   | Inl _ \<Rightarrow> False"
  by code_simp

theorem suggested_trim_spares_the_voice_witness:
  "\<exists>s w. SummarizeClipSpeechOnset sample_log (sample_clip CHR ''1'' 0 25 0) late_voice default_thresholds \<lparr>mr_num = 25, mr_den = 1\<rparr> = Inr s \<and>
     co_onset s = RT w 50 \<and> voiced_run (so_levels late_voice) (co_threshold s) 5 w \<and>
     rt_q (co_suggested_trim s) * 50 \<le> 6 \<and> co_suggested_trim s = RT 3 25"
proof -
  obtain s where s: "SummarizeClipSpeechOnset sample_log (sample_clip CHR ''1'' 0 25 0) late_voice default_thresholds
      \<lparr>mr_num = 25, mr_den = 1\<rparr> = Inr s"
    "co_measured s" "co_onset s = RT 10 50" "co_suggested_trim s = RT 3 25"
    using late_voice_summary by (auto split: sum.splits)
  have g: "0 < so_windows_per_second late_voice" "so_windows_per_second late_voice \<le> int32_max"
    "so_windows_per_second late_voice = 50" "WindowsForMilliseconds (st_sustain_milliseconds default_thresholds) 50 = 5"
    by code_simp+
  have "\<exists>w. co_onset s = RT w 50 \<and> voiced_run (so_levels late_voice) (co_threshold s) 5 w"
    using suggested_trim_spares_the_voice [OF s(1,2) g(1,2)] unfolding g(3,4) by blast
  then show ?thesis using s by (auto simp: rt_q_def)
qed

text \<open>
  Property C18: the summary cannot answer for a clip whose in point is not a multiple of the
  analysis window: it rescales the point exactly and leaves by the exception instead of
  returning a value or a refusal.  At 24 frames a second and the default grid of 50 windows that is every
  clip that does not start on a half second of its source.
\<close>

theorem off_grid_clip_throws:
  assumes "clip_source_id c = so_media_id report" and "0 < so_windows_per_second report" and "so_windows_per_second report \<le> int32_max"
    and "0 < mr_num rate" and "0 < mr_den rate" and "ValidateGroupThresholds t = Inr ()" and "0 < rt_rate (clip_source_in c)"
    and "\<not> rt_rate (clip_source_in c) dvd rt_value (clip_source_in c) * so_windows_per_second report"
  shows "SummarizeClipSpeechOnset log_level c report t rate = Inl ''RationalTime cannot be rescaled exactly''"
proof -
  have "trunc_mod (rt_value (clip_source_in c) * so_windows_per_second report) (rt_rate (clip_source_in c)) \<noteq> 0"
    using assms(7,8) by (simp add: trunc_mod_eq_0_iff)
  then have "rt_rescale (clip_source_in c) (so_windows_per_second report) = Inl ''RationalTime cannot be rescaled exactly''"
    using assms(2,7) by (simp add: rt_rescale_def CheckRate_def)
  then show ?thesis
    using assms unfolding SummarizeClipSpeechOnset_def wrap32_grid [OF assms(2,3)] Let_def by simp
qed

theorem off_grid_clip_throws_witness:
  "SummarizeClipSpeechOnset sample_log ((sample_clip CHR ''1'' 0 25 0)\<lparr>clip_source_in := RT 1 24\<rparr>) late_voice default_thresholds
     \<lparr>mr_num = 24, mr_den = 1\<rparr> = Inl ''RationalTime cannot be rescaled exactly''"
  by (rule off_grid_clip_throws) code_simp+

end
