(* ===== verification/Spec2Isabelle.thy ===== *)
theory Spec2Isabelle
  imports Edit_Laws Source_Address_Laws Sequence_Format Id_Resolver Frame_Cache Keyframe_Track Json
    Document_Loaded Project_Short Project_Log_Text Media_Tasks Speech_Onset
begin

text \<open>
  Verification of the editing core of CUTMACHINE, a video editor in C++.

  \<^bold>\<open>The program.\<close>  A project (\<open>src/Project.h\<close>) holds timelines and the media, bins, sources and colour
  settings they share.  An edit works on the document of one timeline (\<open>src/Document.h\<close>): an
  \<open>Operation\<close> is applied by \<open>ApplyOperation\<close> (\<open>src/Operations.cc\<close>), which checks the locks, applies
  the one of 51 functions the operation names to a copy of the document, validates the copy and
  returns it with an inverse operation.  \<open>EditLog\<close> (\<open>src/EditLog.cc\<close>) keeps the applied and the
  undone operations; \<open>Project::CommitDocument\<close> writes the edited document back.  Operations on
  the project itself (\<open>ApplyProjectOperation\<close>) have a log of their own, \<open>ProjectEditLog\<close>.  The
  player asks \<open>Timeline\<close> which frame of which source is to be shown, and gets decoded frames
  from \<open>FrameCache\<close>.  Agents and the command line name objects by short identifiers
  (\<open>IdResolver\<close>) and by source frames (\<open>SourceAddress\<close>).  Documents, projects and logs are stored
  as text by hand-written writers and readers.

  \<^bold>\<open>Conventions.\<close>  Structs are records with the fields of the source in order, variants and enums
  are datatypes.  A function that can fail returns \<open>Inl\<close> with what the caller sees: the text of
  the exception or of \<open>error\<close>, or a \<open>failure\<close> with the \<open>EditError\<close> and its text.  References that are
  written only on success are results.  \<open>int32_t\<close> and \<open>int64_t\<close> members are integers with the
  range checks and the wrapping casts of the source written out; the 128-bit intermediate
  results of \<open>RationalTime\<close> do not overflow and are plain integers.  Random and clock input, that
  is generated identifiers, is an argument (\<open>id_supply\<close>), and theorems hold for all of it.
  Strings are lists of bytes.

  \<^bold>\<open>Foundations.\<close>  \<open>Prelude\<close>: the error monad \<open>bindR\<close>, loops with and without an index, vector
  operations, integer ranges.  \<open>Rational_Time\<close>: \<open>src/RationalTime.h\<close>; \<open>rt_q\<close> is the rational a time
  denotes, and addition and rescaling are exact or throw.  \<open>Ulid\<close>: \<open>src/Ulid.cc\<close>.  \<open>Stable_Sort\<close>:
  \<open>std::stable_sort\<close>.

  \<^bold>\<open>Documents.\<close>  \<open>Document_Model\<close> has the data and lookups, \<open>Document_Validate\<close> the checks of
  \<open>Document::Validate\<close> in their order, \<open>Document_Invariant\<close> what a valid document guarantees,
  \<open>Sample_Document\<close> the document of the witnesses.

  \<^bold>\<open>Edits.\<close>  \<open>Operation_Types\<close> and \<open>Operation_Core\<close>: the operations and the helpers they share.
  \<open>Ops_Items\<close>, \<open>Ops_Edit\<close>, \<open>Ops_Move\<close>, \<open>Ops_Trim\<close>, \<open>Ops_Settings\<close>, \<open>Ops_Split\<close>: the 51 functions.
  \<open>Apply_Operation\<close>: the lock check and the dispatch.  \<open>Apply_Valid\<close>: an accepted edit leaves a
  valid document.  \<open>Track_Frame\<close> and the \<open>Edit_Frames\<close> theories: what each edit leaves alone;
  \<open>Lock_Safety\<close> draws from them that locked tracks stay as they are.  \<open>Clip_Undo\<close>, \<open>Items_Undo\<close>,
  \<open>Split_Undo\<close>, \<open>Edit_Reversal\<close>, \<open>Times_Undo\<close> (inserts and trims, whose inverses compute times again),
  \<open>Last_Undo\<close> (removed tracks and bins), \<open>Edit_Undo\<close>: the recorded inverse takes the edit back exactly,
  on the operations and arguments that \<open>reversible\<close> lists; it leaves out \<open>JoinClip\<close> and
  \<open>SplitClipAtPositions\<close>.  \<open>Edit_Laws\<close> has what goes wrong elsewhere: the undo of a track added
  locked is refused, a removed track comes back at the end.
  \<open>Edit_Log\<close>: the two stacks over the interface \<open>reversible_edits\<close>, which is a locale because two
  logs use it, interpreted on \<open>ApplyOperation\<close> here and on \<open>ApplyProjectOperation\<close> in \<open>Project_Log\<close>.

  \<^bold>\<open>Stored edits.\<close>  \<open>Text_Reader\<close>: the positional \<open>Reader\<close> and its laws, with the locale
  \<open>item_format\<close> (a writer, a reader, what is read back), interpreted once for each kind of item.
  \<open>Exact_State_Text\<close>, \<open>Operation_Serialize\<close>, \<open>Operation_Roundtrip\<close>, \<open>Edit_Log_Text\<close>: all operations
  and the log, their round trip and that the readers answer on every text.

  \<^bold>\<open>Document and project files.\<close>  \<open>Document_Json\<close> and \<open>Document_Json_Laws\<close>: the JSON parser of
  \<open>src/Document.cc\<close>; \<open>Document_Text\<close>: readers and writers of each struct; \<open>Document_Entries\<close>,
  \<open>Document_Roundtrip\<close> (locale \<open>saved_item\<close>, one interpretation for each struct) and
  \<open>Document_Loaded\<close>: what is saved is loaded, and what is loaded can be saved.  \<open>Project_Model\<close>,
  \<open>Project_Laws\<close>, \<open>Project_Text\<close>, \<open>Project_Roundtrip\<close>: the same for projects, and the laws of snapshot
  and commit.  \<open>Project_Operations\<close>, \<open>Project_Short\<close>, \<open>Project_Log\<close>, \<open>Project_Operation_Text\<close>,
  \<open>Project_Log_Text\<close>: the operations on projects, the log with its batches, and their text.

  \<^bold>\<open>Playing and naming.\<close>  \<open>Timeline_Resolve\<close> (\<open>src/Timeline.cc\<close>): the frame at a time, the layers of
  a track, the duration.  \<open>Source_Address\<close>, \<open>Source_Address_Laws\<close> (\<open>src/SourceAddress.cc\<close>).
  \<open>Frame_Cache\<close> (\<open>src/FrameCache.cc\<close>): every method is one step under the mutex, \<open>cache_reachable\<close> is
  what any interleaving of them gives.  \<open>Resolver_Core\<close>, \<open>Id_Resolver\<close> (\<open>src/IdResolver.cc\<close>).
  \<open>Sequence_Format\<close> (\<open>src/SequenceFormat.cc\<close>).  \<open>Keyframe_Track\<close> (\<open>src/Keyframes.cc\<close>).  \<open>Decimal_Text\<close>,
  \<open>Json\<close> (\<open>src/Json.cc\<close>): the JSON of the agent interface.
  \<^bold>\<open>Media tasks.\<close>  \<open>Media_Tasks\<close>: \<open>src/MediaTaskManager.cc\<close>.  Each block that holds the mutex is one
  step, and clients, workers, progress reports and the destructor interleave freely
  (\<open>task_step\<close>).  The queue and the workers always agree with the states of the tasks, completions
  come once and with the final state, terminal states are final, and workers left alone get
  the manager idle within a bound as long as the work returns.

  \<^bold>\<open>Reports.\<close>  \<open>Document_Delta\<close> (\<open>src/DocumentDelta.cc\<close>): the difference of two documents, with
  the moves folded into shift rules; patching the picture of the old document with it gives the
  picture of the new one.  \<open>Timeline_Stats\<close> (\<open>src/TimelineStats.cc\<close>): the visible segments, which are
  the pointwise compositing of the tracks.  \<open>Speech_Onset\<close> (\<open>src/SpeechOnset.cc\<close>): levels by exact
  integer square roots, voice groups, and the first sustained voice of a clip with the trim
  that spares it; the rounded logarithm is an argument.

  \<^bold>\<open>Bounds and fuel.\<close>  Loops over vectors are structural.  The walk up the bins and the binary
  searches have measures.  The list loops of the readers and the nesting of the JSON parsers
  have fuel, set from the length of the text; the results \<open>Unended\<close> and \<open>Diverges\<close> stand for its
  end and are shown never to be reached by the readers (\<open>ends\<close>, \<open>ends_below\<close>).  The loops that
  draw identifiers until one is unused have fuel, and a generator that repeats itself forever is
  the result \<open>Diverges\<close>.

  \<^bold>\<open>Not modelled.\<close>  Files, sockets, processes, threads other than the mutex-protected methods, the
  user interface, FFmpeg, whisper.cpp and OpenColorIO, and the signal processing on floating
  point samples (shots, beats, colour).  \<open>Load\<close> and \<open>Save\<close> are file access around the
  modelled text functions.  Floating point output of \<open>Timeline\<close> and \<open>Keyframes\<close> is an argument or
  an exact rational.  The surfaces that only parse arguments and print, \<open>src/Cli.cc\<close> and
  \<open>src/McpTools.cc\<close>, call the modelled functions.

  \<^bold>\<open>What modelling showed.\<close>  The inverses of some edits do not restore the document exactly;
  stored logs lose the audio settings of exact clips and the audio level of relinked media; a
  file may give a clip a synchronisation delta without anchor, which saving drops; the
  properties about them say so, and the reversible edits and the images \<open>stored_operation\<close> and
  \<open>stored_project\<close> delimit what does hold.
\<close>

end
